(* ===== verification/Meld_Prelude.thy ===== *)
theory Meld_Prelude
  imports Main "HOL-Library.Word"
begin

text \<open>
  Shared vocabulary of the development: the machine integers of the Rust code, the
  error values its fallible functions return, the control operators that stand for
  \<open>?\<close>, \<open>bail!\<close>, \<open>context\<close> and fallible iteration, checked and saturating arithmetic
  of the standard library, big-endian byte encodings, and the list lemmas that several
  components need.

  The collections: \<open>result_simps\<close> (inversion of successful results) and \<open>nat_simps\<close>
  (reading machine words as natural numbers).
\<close>

named_theorems result_simps \<open>inversion rules for results\<close>
named_theorems nat_simps \<open>words read as natural numbers\<close>

section \<open>Machine integers and errors\<close>

type_synonym u8 = "8 word"
type_synonym u16 = "16 word"
type_synonym u32 = "32 word"
type_synonym u64 = "64 word"
type_synonym bytes = "8 word list"

text \<open>
  \<open>Bail\<close> carries the message of a \<open>bail!\<close> or of a \<open>context\<close> (the static part of a
  formatted message); \<open>Io\<close> an operating-system error by its kind; \<open>Constraint\<close> a row the
  database refuses, by the violated constraint; \<open>Foreign\<close> an error of a third-party
  crate, by the crate's name.
\<close>

datatype io_kind =
    UnexpectedEof | ConnectionReset | BrokenPipe | Interrupted | TimedOut | WouldBlock
  | NotFound | AlreadyExists | OtherIo

datatype error =
    Bail string
  | Io io_kind
  | Constraint string
  | Foreign string

type_synonym 'a result = "error + 'a"

section \<open>Control operators\<close>

text \<open>\<open>and_then m f\<close> is \<open>let x = m?; f(x)\<close>.\<close>

definition and_then :: "'a result \<Rightarrow> ('a \<Rightarrow> 'b result) \<Rightarrow> 'b result" where
  "and_then m f = (case m of Inl e \<Rightarrow> Inl e | Inr x \<Rightarrow> f x)"

text \<open>\<open>ok_or o e\<close> is \<open>Option::context\<close>; \<open>bail_if b e k\<close> is \<open>if b { bail!(e) } k\<close>.\<close>

definition ok_or :: "'a option \<Rightarrow> error \<Rightarrow> 'a result" where
  "ok_or x e = (case x of None \<Rightarrow> Inl e | Some y \<Rightarrow> Inr y)"

definition bail_if :: "bool \<Rightarrow> string \<Rightarrow> 'a result \<Rightarrow> 'a result" where
  "bail_if b msg k = (if b then Inl (Bail msg) else k)"

definition is_ok :: "'a result \<Rightarrow> bool" where
  "is_ok r = (case r of Inl _ \<Rightarrow> False | Inr _ \<Rightarrow> True)"

text \<open>Rust's \<open>transpose\<close> on an optional fallible value.\<close>

definition transpose_opt :: "'a result option \<Rightarrow> 'a option result" where
  "transpose_opt x = (case x of None \<Rightarrow> Inr None
     | Some r \<Rightarrow> (case r of Inl e \<Rightarrow> Inl e | Inr y \<Rightarrow> Inr (Some y)))"

lemma and_then_Inr [simp]: "and_then (Inr x) f = f x"
  and and_then_Inl [simp]: "and_then (Inl e) f = Inl e"
  by (simp_all add: and_then_def)

lemma and_then_eq_Inr [simp, result_simps]:
  "and_then m f = Inr y \<longleftrightarrow> (\<exists>x. m = Inr x \<and> f x = Inr y)"
  by (cases m) simp_all

lemma and_then_assoc: "and_then (and_then m f) g = and_then m (\<lambda>x. and_then (f x) g)"
  by (simp add: and_then_def split: sum.splits)

lemma and_then_eq_Inl:
  "and_then m f = Inl e \<longleftrightarrow> m = Inl e \<or> (\<exists>x. m = Inr x \<and> f x = Inl e)"
  by (cases m) simp_all

lemma and_then_cong [fundef_cong]:
  "m = m' \<Longrightarrow> (\<And>x. m' = Inr x \<Longrightarrow> f x = g x) \<Longrightarrow> and_then m f = and_then m' g"
  by (cases m') simp_all

lemma bail_if_eq_Inr [simp, result_simps]:
  "bail_if b msg k = Inr y \<longleftrightarrow> \<not> b \<and> k = Inr y"
  by (simp add: bail_if_def)

lemma bail_if_False [simp]: "bail_if False msg k = k"
  and bail_if_True [simp]: "bail_if True msg k = Inl (Bail msg)"
  by (simp_all add: bail_if_def)

lemma bail_if_cong [fundef_cong]:
  "b = b' \<Longrightarrow> msg = msg' \<Longrightarrow> (\<not> b' \<Longrightarrow> k = k') \<Longrightarrow> bail_if b msg k = bail_if b' msg' k'"
  by (simp add: bail_if_def)

lemma ok_or_eq_Inr [simp, result_simps]: "ok_or x e = Inr y \<longleftrightarrow> x = Some y"
  by (simp add: ok_or_def split: option.splits)

lemma ok_or_simps [simp]: "ok_or None e = Inl e" "ok_or (Some x) e = Inr x"
  by (simp_all add: ok_or_def)

lemma is_ok_simps [simp]: "is_ok (Inr x)" "\<not> is_ok (Inl e)"
  by (simp_all add: is_ok_def)

lemma is_ok_iff: "is_ok r \<longleftrightarrow> (\<exists>x. r = Inr x)"
  by (cases r) simp_all

lemma transpose_opt_eq_Inr [simp, result_simps]:
  "transpose_opt x = Inr y \<longleftrightarrow>
     (x = None \<and> y = None) \<or> (\<exists>z. x = Some (Inr z) \<and> y = Some z)"
  by (auto simp: transpose_opt_def split: option.splits sum.splits)

section \<open>Fallible iteration\<close>

text \<open>
  A \<open>for\<close> loop whose body may return early with an error, threading the loop's mutable
  variables as a state; and \<open>map\<close> followed by \<open>collect::<Result<Vec<_>>>()\<close>.
\<close>

fun try_fold :: "('s \<Rightarrow> 'a \<Rightarrow> 's result) \<Rightarrow> 's \<Rightarrow> 'a list \<Rightarrow> 's result" where
  "try_fold f s [] = Inr s"
| "try_fold f s (x # xs) = and_then (f s x) (\<lambda>s'. try_fold f s' xs)"

fun try_map :: "('a \<Rightarrow> 'b result) \<Rightarrow> 'a list \<Rightarrow> 'b list result" where
  "try_map f [] = Inr []"
| "try_map f (x # xs) = and_then (f x) (\<lambda>y. and_then (try_map f xs) (\<lambda>ys. Inr (y # ys)))"

lemma try_fold_append:
  "try_fold f s (xs @ ys) = and_then (try_fold f s xs) (\<lambda>s'. try_fold f s' ys)"
  by (induction xs arbitrary: s) (auto simp: and_then_def split: sum.splits)

text \<open>The loop rule: an invariant each successful body keeps holds at the exit.\<close>

lemma try_fold_invariant:
  assumes "try_fold f s xs = Inr s'"
    and "I s"
    and "\<And>s x s'. I s \<Longrightarrow> x \<in> set xs \<Longrightarrow> f s x = Inr s' \<Longrightarrow> I s'"
  shows "I s'"
  using assms
proof (induction xs arbitrary: s)
  case Nil
  then show ?case by simp
next
  case (Cons x xs)
  from Cons.prems(1) obtain s1 where s1: "f s x = Inr s1" "try_fold f s1 xs = Inr s'" by auto
  have "I s1" using Cons.prems(2,3) s1(1) by (meson list.set_intros(1))
  with s1(2) show ?case using Cons.IH Cons.prems(3) by (meson list.set_intros(2))
qed

lemma try_fold_rel:
  assumes "try_fold f s xs = Inr s'"
    and "\<And>s. R s s"
    and "\<And>a b c. R a b \<Longrightarrow> R b c \<Longrightarrow> R a c"
    and "\<And>s x s'. x \<in> set xs \<Longrightarrow> f s x = Inr s' \<Longrightarrow> R s s'"
  shows "R s s'"
  using assms(1,4)
proof (induction xs arbitrary: s)
  case Nil
  then show ?case by (simp add: assms(2))
next
  case (Cons x xs)
  from Cons.prems(1) obtain s1 where s1: "f s x = Inr s1" "try_fold f s1 xs = Inr s'" by auto
  have "R s s1" using Cons.prems(2) s1(1) by (meson list.set_intros(1))
  moreover have "R s1 s'" using Cons.IH [OF s1(2)] Cons.prems(2) by (meson list.set_intros(2))
  ultimately show ?case by (rule assms(3))
qed

lemma try_map_Inr_iff:
  "try_map f xs = Inr ys \<longleftrightarrow> list_all2 (\<lambda>x y. f x = Inr y) xs ys"
proof (induction xs arbitrary: ys)
  case Nil
  then show ?case by auto
next
  case (Cons x xs)
  then show ?case by (cases ys) auto
qed

lemma try_map_length: "try_map f xs = Inr ys \<Longrightarrow> length ys = length xs"
  by (auto simp: try_map_Inr_iff dest: list_all2_lengthD)

lemma try_map_nth: "try_map f xs = Inr ys \<Longrightarrow> i < length xs \<Longrightarrow> f (xs ! i) = Inr (ys ! i)"
  by (auto simp: try_map_Inr_iff dest: list_all2_nthD)

section \<open>Checked and saturating arithmetic\<close>

definition i64_max :: int where
  "i64_max = 9223372036854775807"

definition checked_add :: "'a::len word \<Rightarrow> 'a word \<Rightarrow> 'a word option" where
  "checked_add x y = (if unat x + unat y < 2 ^ LENGTH('a) then Some (x + y) else None)"

definition checked_sub :: "'a::len word \<Rightarrow> 'a word \<Rightarrow> 'a word option" where
  "checked_sub x y = (if y \<le> x then Some (x - y) else None)"

definition checked_mul :: "'a::len word \<Rightarrow> 'a word \<Rightarrow> 'a word option" where
  "checked_mul x y = (if unat x * unat y < 2 ^ LENGTH('a) then Some (x * y) else None)"

definition saturating_add :: "'a::len word \<Rightarrow> 'a word \<Rightarrow> 'a word" where
  "saturating_add x y = (if unat x + unat y < 2 ^ LENGTH('a) then x + y else - 1)"

definition saturating_sub :: "'a::len word \<Rightarrow> 'a word \<Rightarrow> 'a word" where
  "saturating_sub x y = (if y \<le> x then x - y else 0)"

definition div_ceil :: "nat \<Rightarrow> nat \<Rightarrow> nat" where
  "div_ceil a b = (a + b - 1) div b"

lemma unat_eq_add_fits:
  fixes x y z :: "'a::len word"
  shows "unat z = unat x + unat y \<Longrightarrow> unat x + unat y < 2 ^ LENGTH('a)"
    and "unat z = unat x * unat y \<Longrightarrow> unat x * unat y < 2 ^ LENGTH('a)"
  by (metis unsigned_less)+

lemma checked_add_Some [nat_simps]:
  "checked_add x y = Some z \<longleftrightarrow> unat z = unat x + unat y"
  unfolding checked_add_def
  by (auto simp: unat_word_ariths word_unat_eq_iff unat_eq_add_fits dest: unat_eq_add_fits)

lemma checked_sub_Some [nat_simps]:
  "checked_sub x y = Some z \<longleftrightarrow> unat x = unat y + unat z"
  unfolding checked_sub_def
  by (auto simp: word_le_nat_alt unat_sub word_unat_eq_iff)

lemma checked_mul_Some [nat_simps]:
  "checked_mul x y = Some z \<longleftrightarrow> unat z = unat x * unat y"
  unfolding checked_mul_def
  by (auto simp: unat_word_ariths word_unat_eq_iff dest: unat_eq_add_fits)

lemma checked_add_None [nat_simps]:
  fixes x y :: "'a::len word"
  shows "checked_add x y = None \<longleftrightarrow> 2 ^ LENGTH('a) \<le> unat x + unat y"
  by (auto simp: checked_add_def)

lemma checked_sub_None [nat_simps]: "checked_sub x y = None \<longleftrightarrow> unat x < unat y"
  by (auto simp: checked_sub_def word_le_nat_alt)

lemma unat_saturating_sub [nat_simps]: "unat (saturating_sub x y) = unat x - unat y"
  by (auto simp: saturating_sub_def word_le_nat_alt unat_sub)

lemma unat_saturating_add [nat_simps]:
  fixes x y :: "'a::len word"
  shows "unat (saturating_add x y) = min (unat x + unat y) (2 ^ LENGTH('a) - 1)"
proof -
  have "unat (- 1 :: 'a word) = 2 ^ LENGTH('a) - 1"
    by (simp add: unsigned_minus_1_eq_mask mask_eq_exp_minus_1)
  then show ?thesis
    by (auto simp: saturating_add_def unat_word_ariths min_def)
qed

lemma unat_u64_bound [simp]: "unat (x :: u64) < 18446744073709551616"
  using unsigned_less[of x] by simp

lemma unat_u32_bound [simp]: "unat (x :: u32) < 4294967296"
  using unsigned_less[of x] by simp

lemma unat_u16_bound: "unat (x :: u16) < 65536"
  using unsigned_less[of x] by simp

lemma unat_u8_bound: "unat (x :: u8) < 256"
  using unsigned_less[of x] by simp

lemma unat_of_nat_u64 [nat_simps]: "n < 18446744073709551616 \<Longrightarrow> unat (word_of_nat n :: u64) = n"
  by (simp add: unat_of_nat)

lemma unat_of_nat_u32 [nat_simps]: "n < 4294967296 \<Longrightarrow> unat (word_of_nat n :: u32) = n"
  by (simp add: unat_of_nat)

text \<open>A conversion between widths keeps a value that fits the target.\<close>

lemma unat_ucast_fits:
  "unat (x :: 'a::len word) < 2 ^ LENGTH('b::len) \<Longrightarrow> unat (ucast x :: 'b word) = unat x"
  by (simp add: unsigned_ucast_eq take_bit_nat_eq_self_iff)

lemma div_ceil_bounds: "0 < b \<Longrightarrow> a \<le> div_ceil a b * b \<and> div_ceil a b * b < a + b"
proof -
  assume b: "0 < b"
  have "(a + b - 1) div b * b + (a + b - 1) mod b = a + b - 1"
    by (rule div_mult_mod_eq)
  moreover have "(a + b - 1) mod b < b" using b by simp
  ultimately show ?thesis using b unfolding div_ceil_def by linarith
qed

section \<open>Big-endian encodings\<close>

text \<open>\<open>be_nat\<close> is \<open>from_be_bytes\<close>, \<open>be_bytes n\<close> is \<open>to_be_bytes\<close> of an \<open>n\<close>-byte integer.\<close>

definition be_nat :: "bytes \<Rightarrow> nat" where
  "be_nat bs = foldl (\<lambda>acc b. acc * 256 + unat b) 0 bs"

fun be_bytes :: "nat \<Rightarrow> nat \<Rightarrow> bytes" where
  "be_bytes 0 x = []"
| "be_bytes (Suc n) x = be_bytes n (x div 256) @ [word_of_nat (x mod 256)]"

lemma length_be_bytes [simp]: "length (be_bytes n x) = n"
  by (induction n arbitrary: x) simp_all

lemma be_nat_snoc [simp]: "be_nat (bs @ [b]) = be_nat bs * 256 + unat b"
  by (simp add: be_nat_def)

lemma be_nat_Nil [simp]: "be_nat [] = 0"
  by (simp add: be_nat_def)

lemma be_nat_be_bytes: "x < 256 ^ n \<Longrightarrow> be_nat (be_bytes n x) = x"
proof (induction n arbitrary: x)
  case 0
  then show ?case by simp
next
  case (Suc n)
  then have "x div 256 < 256 ^ n" by (simp add: less_mult_imp_div_less mult.commute)
  then show ?case
    by (simp add: Suc.IH unat_of_nat)
qed

lemma be_nat_bound: "be_nat bs < 256 ^ length bs"
proof (induction bs rule: rev_induct)
  case Nil
  then show ?case by simp
next
  case (snoc b bs)
  have "unat b < 256" using unsigned_less[of b] by simp
  with snoc show ?case by simp
qed

lemma be_bytes_be_nat: "be_bytes (length bs) (be_nat bs) = bs"
proof (induction bs rule: rev_induct)
  case Nil
  then show ?case by simp
next
  case (snoc b bs)
  have "unat b < 256" using unsigned_less[of b] by simp
  with snoc show ?case by simp
qed

text \<open>Values of words are kept in the form \<open>unat\<close>.\<close>

lemma word_of_nat_unat [simp]: "(word_of_nat (unat w) :: 'a::len word) = w"
  by simp

declare of_nat_unat [simp del]

section \<open>Lists\<close>

lemma sum_list_filter_le: "sum_list (map f (filter P xs)) \<le> sum_list (map (f :: _ \<Rightarrow> nat) xs)"
  by (induction xs) auto

lemma sum_list_update_int:
  "i < length xs \<Longrightarrow> sum_list (xs[i := v]) = sum_list xs - xs ! i + (v :: int)"
  by (induction xs arbitrary: i) (auto split: nat.splits simp: algebra_simps)

text \<open>Replacing the first entry that satisfies \<open>P\<close>, as an update of a keyed row does.\<close>

fun update_first :: "('a \<Rightarrow> bool) \<Rightarrow> ('a \<Rightarrow> 'a) \<Rightarrow> 'a list \<Rightarrow> 'a list" where
  "update_first P f [] = []"
| "update_first P f (x # xs) = (if P x then f x # xs else x # update_first P f xs)"

lemma length_update_first [simp]: "length (update_first P f xs) = length xs"
  by (induction xs) auto

lemma update_first_id: "\<not> (\<exists>x\<in>set xs. P x) \<Longrightarrow> update_first P f xs = xs"
  by (induction xs) auto

lemma map_update_first:
  "(\<And>x. P x \<Longrightarrow> g (f x) = g x) \<Longrightarrow> map g (update_first P f xs) = map g xs"
  by (induction xs) auto

lemma set_update_first: "set (update_first P f xs) \<subseteq> set xs \<union> f ` {x \<in> set xs. P x}"
  by (induction xs) auto

lemma sum_update_first:
  fixes g :: "'a \<Rightarrow> int"
  shows "find P xs = Some x \<Longrightarrow>
    sum_list (map g (update_first P f xs)) = sum_list (map g xs) - g x + g (f x)"
  by (induction xs) (auto split: if_splits)

lemma find_update_first_same:
  "find P xs = Some x \<Longrightarrow> P (f x) \<Longrightarrow> find P (update_first P f xs) = Some (f x)"
  by (induction xs) (auto split: if_splits)

lemma find_update_first_other:
  "(\<And>x. x \<in> set xs \<Longrightarrow> P x \<Longrightarrow> \<not> Q x \<and> \<not> Q (f x)) \<Longrightarrow> find Q (update_first P f xs) = find Q xs"
  by (induction xs) auto

lemma find_Some_memD: "find P xs = Some x \<Longrightarrow> x \<in> set xs \<and> P x"
  by (induction xs) (auto split: if_splits)

lemma find_append: "find P (xs @ ys) = (case find P xs of None \<Rightarrow> find P ys | Some x \<Rightarrow> Some x)"
  by (induction xs) auto

text \<open>Replacing the row with a given unique key.\<close>

lemma sum_replace_key:
  fixes f :: "'a \<Rightarrow> int"
  shows "distinct (map key xs) \<Longrightarrow> x \<in> set xs \<Longrightarrow>
    sum_list (map f (map (\<lambda>q. if key q = key x then y else q) xs)) = sum_list (map f xs) - f x + f y"
proof (induction xs)
  case Nil
  then show ?case by simp
next
  case (Cons q xs)
  show ?case
  proof (cases "q = x")
    case True
    with Cons.prems have "key x \<notin> key ` set xs" by simp
    then have "map (\<lambda>q. if key q = key x then y else q) xs = xs" by (intro map_idI) (metis image_eqI)
    with True show ?thesis by (simp del: map_map)
  next
    case False
    with Cons.prems have "x \<in> set xs" "key q \<noteq> key x" by auto
    with Cons show ?thesis by (simp del: map_map)
  qed
qed

lemma distinct_key_unique: "distinct (map key xs) \<Longrightarrow> x \<in> set xs \<Longrightarrow> y \<in> set xs \<Longrightarrow> key x = key y \<Longrightarrow> x = y"
  by (auto simp: distinct_map inj_on_def)

end
