(* ===== verification/Rust_Text.thy ===== *)
theory Rust_Text
  imports Meld_Prelude
begin

text \<open>
  The text handling of Rust's standard library that the program uses: ASCII classes and
  case, decimal printing and parsing of unsigned and signed integers, \<open>split\<close>,
  \<open>split_once\<close>, \<open>strip_prefix\<close>, and the bytes of a string. A \<open>String\<close> is the list of
  its UTF-8 bytes, so \<open>len()\<close> is \<open>length\<close>.
\<close>

section \<open>Characters\<close>

definition byte_val :: "char \<Rightarrow> nat" where
  "byte_val c = of_char c"

definition is_ascii_digit :: "char \<Rightarrow> bool" where
  "is_ascii_digit c \<longleftrightarrow> 48 \<le> byte_val c \<and> byte_val c \<le> 57"

definition is_ascii_lower :: "char \<Rightarrow> bool" where
  "is_ascii_lower c \<longleftrightarrow> 97 \<le> byte_val c \<and> byte_val c \<le> 122"

definition is_ascii_upper :: "char \<Rightarrow> bool" where
  "is_ascii_upper c \<longleftrightarrow> 65 \<le> byte_val c \<and> byte_val c \<le> 90"

definition is_ascii_alphanumeric :: "char \<Rightarrow> bool" where
  "is_ascii_alphanumeric c \<longleftrightarrow> is_ascii_digit c \<or> is_ascii_lower c \<or> is_ascii_upper c"

definition is_ascii_hexdigit :: "char \<Rightarrow> bool" where
  "is_ascii_hexdigit c \<longleftrightarrow> is_ascii_digit c
     \<or> (97 \<le> byte_val c \<and> byte_val c \<le> 102) \<or> (65 \<le> byte_val c \<and> byte_val c \<le> 70)"

definition to_ascii_lowercase_char :: "char \<Rightarrow> char" where
  "to_ascii_lowercase_char c = (if is_ascii_upper c then char_of (byte_val c + 32) else c)"

definition to_ascii_uppercase_char :: "char \<Rightarrow> char" where
  "to_ascii_uppercase_char c = (if is_ascii_lower c then char_of (byte_val c - 32) else c)"

definition to_ascii_lowercase :: "string \<Rightarrow> string" where
  "to_ascii_lowercase s = map to_ascii_lowercase_char s"

definition to_ascii_uppercase :: "string \<Rightarrow> string" where
  "to_ascii_uppercase s = map to_ascii_uppercase_char s"

definition as_bytes :: "string \<Rightarrow> bytes" where
  "as_bytes s = map (\<lambda>c. word_of_nat (byte_val c)) s"

lemma byte_val_bound [simp]: "byte_val c < 256"
  by (simp add: byte_val_def)

lemma byte_val_inject [simp]: "byte_val c = byte_val d \<longleftrightarrow> c = d"
  by (simp add: byte_val_def)

lemma byte_val_char_of [simp]: "n < 256 \<Longrightarrow> byte_val (char_of n) = n"
  by (simp add: byte_val_def)

lemma as_bytes_inject [simp]: "as_bytes s = as_bytes t \<longleftrightarrow> s = t"
proof
  assume "as_bytes s = as_bytes t"
  moreover have "inj (\<lambda>c. word_of_nat (byte_val c) :: u8)"
  proof (rule injI)
    fix c d assume "(word_of_nat (byte_val c) :: u8) = word_of_nat (byte_val d)"
    then have "unat (word_of_nat (byte_val c) :: u8) = unat (word_of_nat (byte_val d) :: u8)"
      by simp
    then show "c = d" by (simp add: unat_of_nat)
  qed
  ultimately show "s = t" by (simp add: as_bytes_def inj_map_eq_map)
qed simp

lemma length_as_bytes [simp]: "length (as_bytes s) = length s"
  by (simp add: as_bytes_def)

section \<open>Decimal numbers\<close>

definition digit_char :: "nat \<Rightarrow> char" where
  "digit_char d = char_of (48 + d)"

definition digit_val :: "char \<Rightarrow> nat" where
  "digit_val c = byte_val c - 48"

text \<open>\<open>{n}\<close> and \<open>{n:0w}\<close> of the formatting macros.\<close>

fun dec :: "nat \<Rightarrow> string" where
  "dec n = (if n < 10 then [digit_char n] else dec (n div 10) @ [digit_char (n mod 10)])"

declare dec.simps [simp del]

definition dec_pad :: "nat \<Rightarrow> nat \<Rightarrow> string" where
  "dec_pad w n = replicate (w - length (dec n)) (CHR ''0'') @ dec n"

definition dec_val :: "string \<Rightarrow> nat" where
  "dec_val s = foldl (\<lambda>acc c. acc * 10 + digit_val c) 0 s"

definition all_digits :: "string \<Rightarrow> bool" where
  "all_digits s \<longleftrightarrow> list_all is_ascii_digit s"

text \<open>
  \<open>str::parse\<close> for an unsigned type of \<open>w\<close> bits: an optional plus sign, then one or more
  digits whose value fits; and for a signed one, with an optional sign.
\<close>

fun strip_plus :: "string \<Rightarrow> string" where
  "strip_plus (c # cs) = (if c = CHR ''+'' then cs else c # cs)"
| "strip_plus [] = []"

definition parse_unsigned :: "nat \<Rightarrow> string \<Rightarrow> nat option" where
  "parse_unsigned w s = (let ds = strip_plus s in
     if ds \<noteq> [] \<and> all_digits ds \<and> dec_val ds < 2 ^ w then Some (dec_val ds) else None)"

definition parse_signed :: "nat \<Rightarrow> string \<Rightarrow> int option" where
  "parse_signed w s = (case s of
      [] \<Rightarrow> None
    | c # cs \<Rightarrow>
        if c = CHR ''-'' then
          (if cs \<noteq> [] \<and> all_digits cs \<and> dec_val cs \<le> 2 ^ (w - 1) then Some (- int (dec_val cs)) else None)
        else (let ds = strip_plus s in
          if ds \<noteq> [] \<and> all_digits ds \<and> dec_val ds < 2 ^ (w - 1) then Some (int (dec_val ds)) else None))"

lemma digit_char_digit [simp]: "d < 10 \<Longrightarrow> is_ascii_digit (digit_char d)"
  by (simp add: is_ascii_digit_def digit_char_def)

lemma digit_val_char [simp]: "d < 10 \<Longrightarrow> digit_val (digit_char d) = d"
  by (simp add: digit_val_def digit_char_def)

lemma digit_val_bound: "is_ascii_digit c \<Longrightarrow> digit_val c < 10"
  by (auto simp: is_ascii_digit_def digit_val_def)

lemma all_digits_simps [simp]:
  "all_digits []" "all_digits (c # cs) \<longleftrightarrow> is_ascii_digit c \<and> all_digits cs"
  "all_digits (xs @ ys) \<longleftrightarrow> all_digits xs \<and> all_digits ys"
  by (simp_all add: all_digits_def)

lemma dec_val_Nil [simp]: "dec_val [] = 0"
  and dec_val_snoc [simp]: "dec_val (s @ [c]) = dec_val s * 10 + digit_val c"
  by (simp_all add: dec_val_def)

lemma dec_nonempty [simp]: "dec n \<noteq> []"
  by (subst dec.simps) simp

lemma dec_digits [simp]: "all_digits (dec n)"
proof (induction n rule: dec.induct)
  case (1 n)
  then show ?case by (cases "n < 10") (auto simp: dec.simps [of n])
qed

lemma dec_val_dec [simp]: "dec_val (dec n) = n"
proof (induction n rule: dec.induct)
  case (1 n)
  show ?case
  proof (cases "n < 10")
    case True
    then show ?thesis using dec_val_snoc [of "[]"] by (simp add: dec.simps [of n])
  next
    case False
    then show ?thesis by (simp add: dec.simps [of n] 1)
  qed
qed

lemma dec_val_append: "dec_val (s @ t) = dec_val s * 10 ^ length t + dec_val t"
proof (induction t rule: rev_induct)
  case Nil
  then show ?case by simp
next
  case (snoc c t)
  have "dec_val (s @ t @ [c]) = dec_val (s @ t) * 10 + digit_val c"
    using dec_val_snoc [of "s @ t" c] by simp
  with snoc show ?case by (simp add: algebra_simps)
qed

lemma dec_val_bound: "all_digits s \<Longrightarrow> dec_val s < 10 ^ length s"
proof (induction s rule: rev_induct)
  case Nil
  then show ?case by simp
next
  case (snoc c s)
  then show ?case using digit_val_bound [of c] by simp
qed

lemma dec_val_replicate_zero [simp]: "dec_val (replicate k (CHR ''0'')) = 0"
proof (induction k)
  case 0
  then show ?case by simp
next
  case (Suc k)
  have "replicate (Suc k) (CHR ''0'') = replicate k (CHR ''0'') @ [CHR ''0'']"
    by (simp add: replicate_append_same)
  with Suc show ?case by (simp only: dec_val_snoc) (simp add: digit_val_def byte_val_def)
qed

lemma dec_val_zeros [simp]: "dec_val (replicate k (CHR ''0'') @ s) = dec_val s"
  by (simp add: dec_val_append)

lemma length_dec_le: "0 < w \<Longrightarrow> n < 10 ^ w \<Longrightarrow> length (dec n) \<le> w"
proof (induction n arbitrary: w rule: dec.induct)
  case (1 n)
  show ?case
  proof (cases "n < 10")
    case True
    with "1.prems" show ?thesis by (simp add: dec.simps [of n])
  next
    case False
    obtain v where v: "w = Suc v" using "1.prems"(1) by (cases w) auto
    with False "1.prems" have "0 < v" by (cases v) auto
    moreover have "n div 10 < 10 ^ v" using "1.prems"(2) v by auto
    ultimately have "length (dec (n div 10)) \<le> v" using "1.IH" False by simp
    with False v show ?thesis by (simp add: dec.simps [of n])
  qed
qed

lemma length_dec_pad: "0 < w \<Longrightarrow> n < 10 ^ w \<Longrightarrow> length (dec_pad w n) = w"
  using length_dec_le [of w n] by (simp add: dec_pad_def)

lemma dec_val_dec_pad [simp]: "dec_val (dec_pad w n) = n"
  by (simp add: dec_pad_def)

lemma all_digits_replicate [simp]: "all_digits (replicate k (CHR ''0''))"
  by (induction k) (simp_all add: is_ascii_digit_def byte_val_def)

lemma dec_pad_digits [simp]: "all_digits (dec_pad w n)"
  by (simp add: dec_pad_def)

lemma digit_not [simp]:
  "\<not> is_ascii_digit (CHR ''.'')" "\<not> is_ascii_digit (CHR ''+'')" "\<not> is_ascii_digit (CHR ''-'')"
  "\<not> is_ascii_digit (CHR '':'')" "\<not> is_ascii_digit (CHR ''e'')"
  by (simp_all add: is_ascii_digit_def byte_val_def)

lemma all_digits_notin: "all_digits s \<Longrightarrow> \<not> is_ascii_digit c \<Longrightarrow> c \<notin> set s"
  by (auto simp: all_digits_def list_all_iff)

lemma strip_plus_digits: "all_digits s \<Longrightarrow> strip_plus s = s"
  by (cases s) auto

lemma parse_unsigned_digits:
  "all_digits s \<Longrightarrow> parse_unsigned w s = (if s \<noteq> [] \<and> dec_val s < 2 ^ w then Some (dec_val s) else None)"
  by (simp add: parse_unsigned_def strip_plus_digits)

section \<open>Splitting\<close>

text \<open>\<open>str::split\<close> on a character (never empty) and \<open>str::split_once\<close>.\<close>

fun split_on :: "char \<Rightarrow> string \<Rightarrow> string list" where
  "split_on d [] = [[]]"
| "split_on d (c # cs) = (if c = d then [] # split_on d cs
     else (case split_on d cs of [] \<Rightarrow> [[c]] | p # ps \<Rightarrow> (c # p) # ps))"

fun split_once :: "char \<Rightarrow> string \<Rightarrow> (string \<times> string) option" where
  "split_once d [] = None"
| "split_once d (c # cs) = (if c = d then Some ([], cs)
     else map_option (\<lambda>(a, b). (c # a, b)) (split_once d cs))"

fun strip_prefix :: "string \<Rightarrow> string \<Rightarrow> string option" where
  "strip_prefix [] s = Some s"
| "strip_prefix (p # ps) [] = None"
| "strip_prefix (p # ps) (c # cs) = (if p = c then strip_prefix ps cs else None)"

lemma split_on_nonempty [simp]: "split_on d s \<noteq> []"
  by (induction s) (auto split: list.splits)

lemma split_on_notin: "d \<notin> set s \<Longrightarrow> split_on d s = [s]"
  by (induction s) auto

lemma split_on_append: "d \<notin> set s \<Longrightarrow> split_on d (s @ d # t) = s # split_on d t"
  by (induction s) auto

lemma split_on_single_iff: "split_on d s = [p] \<longleftrightarrow> p = s \<and> d \<notin> set s"
proof
  show "split_on d s = [p] \<Longrightarrow> p = s \<and> d \<notin> set s"
    by (induction s arbitrary: p) (auto split: if_splits list.splits)
qed (simp add: split_on_notin)

lemma split_on_Cons_iff:
  "split_on d s = p # q # ps \<longleftrightarrow> (\<exists>t. s = p @ d # t \<and> d \<notin> set p \<and> split_on d t = q # ps)"
proof
  show "split_on d s = p # q # ps \<Longrightarrow> \<exists>t. s = p @ d # t \<and> d \<notin> set p \<and> split_on d t = q # ps"
  proof (induction s arbitrary: p)
    case Nil
    then show ?case by simp
  next
    case (Cons c s)
    show ?case
    proof (cases "c = d")
      case True
      with Cons.prems show ?thesis by auto
    next
      case False
      with Cons.prems obtain p' where p': "split_on d s = p' # q # ps" "p = c # p'"
        by (auto split: list.splits)
      from Cons.IH [OF p'(1)] p'(2) False show ?thesis by auto
    qed
  qed
qed (auto simp: split_on_append)

lemma split_once_None: "split_once d s = None \<longleftrightarrow> d \<notin> set s"
  by (induction s) auto

lemma split_once_Some: "split_once d s = Some (a, b) \<longleftrightarrow> s = a @ d # b \<and> d \<notin> set a"
proof
  show "split_once d s = Some (a, b) \<Longrightarrow> s = a @ d # b \<and> d \<notin> set a"
    by (induction s arbitrary: a) (auto split: if_splits)
next
  show "s = a @ d # b \<and> d \<notin> set a \<Longrightarrow> split_once d s = Some (a, b)"
    by (induction a arbitrary: s) auto
qed

lemma strip_prefix_Some: "strip_prefix p s = Some t \<longleftrightarrow> s = p @ t"
  by (induction p s rule: strip_prefix.induct) auto

end
