(* ===== verification/Smd_Amount.thy ===== *)
theory Smd_Amount
  imports Rust_Text
begin

text \<open>
  \<open>crates/smd-core/src/amount.rs\<close>: monetary amounts in atomic units, with checked
  arithmetic and an exact decimal notation of at most eight places.
\<close>

section \<open>The type\<close>

datatype amount = Amount (atomic: u64)

abbreviation units :: "amount \<Rightarrow> nat" where
  "units a \<equiv> unat (atomic a)"

instantiation amount :: linorder
begin

definition less_eq_amount :: "amount \<Rightarrow> amount \<Rightarrow> bool" where
  "less_eq_amount a b \<longleftrightarrow> atomic a \<le> atomic b"

definition less_amount :: "amount \<Rightarrow> amount \<Rightarrow> bool" where
  "less_amount a b \<longleftrightarrow> atomic a < atomic b"

instance
  by intro_classes (auto simp: less_eq_amount_def less_amount_def amount.expand)

end

lemma amount_le_units [nat_simps]: "a \<le> b \<longleftrightarrow> units a \<le> units b"
  by (simp add: less_eq_amount_def word_le_nat_alt)

lemma amount_less_units [nat_simps]: "a < b \<longleftrightarrow> units a < units b"
  by (simp add: less_amount_def word_less_nat_alt)

lemma amount_eq_units [nat_simps]: "a = b \<longleftrightarrow> units a = units b"
  by (metis amount.expand word_unat_eq_iff)

definition ATOMIC_UNITS_PER_SMD :: u64 where
  "ATOMIC_UNITS_PER_SMD = 100000000"

definition ZERO :: amount where
  "ZERO = Amount 0"

definition from_atomic :: "u64 \<Rightarrow> amount" where
  "from_atomic n = Amount n"

definition amount_add :: "amount \<Rightarrow> amount \<Rightarrow> amount result" where
  "amount_add a b = ok_or (map_option Amount (checked_add (atomic a) (atomic b)))
     (Bail ''SMD amount addition overflow'')"

definition amount_sub :: "amount \<Rightarrow> amount \<Rightarrow> amount result" where
  "amount_sub a b = ok_or (map_option Amount (checked_sub (atomic a) (atomic b)))
     (Bail ''insufficient SMD balance'')"

lemma units_simps [simp]: "units ZERO = 0" "atomic (from_atomic n) = n"
  by (simp_all add: ZERO_def from_atomic_def)

lemma amount_add_Inr [result_simps]: "amount_add a b = Inr c \<longleftrightarrow> units c = units a + units b"
  by (cases c) (auto simp: amount_add_def nat_simps)

lemma amount_sub_Inr [result_simps]: "amount_sub a b = Inr c \<longleftrightarrow> units a = units b + units c"
  by (cases c) (auto simp: amount_sub_def nat_simps)

section \<open>Decimal notation\<close>

text \<open>\<open>impl Display for Amount\<close> and \<open>impl FromStr for Amount\<close>.\<close>

definition amount_to_string :: "amount \<Rightarrow> string" where
  "amount_to_string a =
     (let whole = unat (atomic a div ATOMIC_UNITS_PER_SMD);
          fractional = unat (atomic a mod ATOMIC_UNITS_PER_SMD)
      in dec whole @ ''.'' @ dec_pad 8 fractional)"

definition fractional_units :: "string option \<Rightarrow> u64 result" where
  "fractional_units fractional = (case fractional of
      None \<Rightarrow> Inr 0
    | Some digits \<Rightarrow>
        bail_if (digits = [] \<or> 8 < length digits \<or> \<not> all_digits digits)
          ''SMD amount supports at most 8 decimal places''
        (and_then (ok_or (parse_unsigned 64 digits) (Bail ''invalid fractional SMD amount''))
          (\<lambda>parsed. ok_or (checked_mul (word_of_nat parsed) (10 ^ (8 - length digits)))
            (Bail ''SMD amount overflow''))))"

definition amount_from_str :: "string \<Rightarrow> amount result" where
  "amount_from_str input =
     bail_if (input = [] \<or> hd input = CHR ''-'' \<or> hd input = CHR ''+'') ''invalid SMD amount''
     (let parts = split_on (CHR ''.'') input;
          whole = hd parts;
          fractional = (case tl parts of [] \<Rightarrow> None | f # _ \<Rightarrow> Some f)
      in
      bail_if (2 < length parts \<or> whole = [] \<or> \<not> all_digits whole) ''invalid SMD amount''
      (and_then (ok_or (parse_unsigned 64 whole) (Bail ''invalid whole SMD amount'')) (\<lambda>whole.
       and_then (ok_or (checked_mul (word_of_nat whole) ATOMIC_UNITS_PER_SMD)
                  (Bail ''SMD amount overflow'')) (\<lambda>whole_atomic.
       and_then (fractional_units fractional) (\<lambda>fractional_atomic.
       and_then (ok_or (checked_add whole_atomic fractional_atomic) (Bail ''SMD amount overflow''))
         (\<lambda>total. Inr (Amount total)))))))"

text \<open>
  The specification of the notation: a literal is a non-empty digit string, optionally
  followed by a point and one to eight digits, and it denotes that many atomic units.
\<close>

definition amount_literal :: "string \<Rightarrow> nat \<Rightarrow> bool" where
  "amount_literal s n \<longleftrightarrow>
     (s \<noteq> [] \<and> all_digits s \<and> n = dec_val s * 10 ^ 8) \<or>
     (\<exists>w f. s = w @ CHR ''.'' # f \<and> w \<noteq> [] \<and> all_digits w \<and> f \<noteq> [] \<and> length f \<le> 8
        \<and> all_digits f \<and> n = dec_val w * 10 ^ 8 + dec_val f * 10 ^ (8 - length f))"

lemma unat_ten_power: "k \<le> 8 \<Longrightarrow> unat (10 ^ k :: u64) = 10 ^ k"
proof -
  assume "k \<le> 8"
  then have "(10::nat) ^ k \<le> 10 ^ 8" by (rule power_increasing) simp
  then have "(10::nat) ^ k < 18446744073709551616" by simp
  then show ?thesis by (metis unat_of_nat_u64 of_nat_numeral of_nat_power)
qed

lemma frac_fits:
  assumes "all_digits f" and "length f \<le> 8"
  shows "dec_val f * 10 ^ (8 - length f) < 10 ^ 8"
proof -
  have "dec_val f * 10 ^ (8 - length f) < 10 ^ length f * 10 ^ (8 - length f)"
    using dec_val_bound [OF assms(1)] by simp
  also have "\<dots> = 10 ^ 8" using assms(2) by (simp flip: power_add)
  finally show ?thesis .
qed

lemma fractional_units_Some:
  "fractional_units (Some f) = Inr x \<longleftrightarrow>
     f \<noteq> [] \<and> length f \<le> 8 \<and> all_digits f \<and> unat x = dec_val f * 10 ^ (8 - length f)"
proof (cases "f \<noteq> [] \<and> length f \<le> 8 \<and> all_digits f")
  case True
  then have "dec_val f < 10 ^ length f" by (simp add: dec_val_bound)
  also have "\<dots> \<le> 10 ^ 8" using True by (intro power_increasing) auto
  finally have small: "dec_val f < 18446744073709551616" by simp
  then have "unat (word_of_nat (dec_val f) :: u64) = dec_val f" by (rule unat_of_nat_u64)
  with True small show ?thesis
    by (simp add: fractional_units_def parse_unsigned_digits nat_simps unat_ten_power)
next
  case False
  then show ?thesis by (auto simp: fractional_units_def)
qed

lemma fractional_units_None: "fractional_units None = Inr x \<longleftrightarrow> x = 0"
  by (auto simp: fractional_units_def)

lemma whole_part_Inr:
  assumes "all_digits w" "w \<noteq> []"
  shows "(\<exists>n. parse_unsigned 64 w = Some n
           \<and> checked_mul (word_of_nat n) ATOMIC_UNITS_PER_SMD = Some x) \<longleftrightarrow>
     unat x = dec_val w * 10 ^ 8"
proof
  assume "\<exists>n. parse_unsigned 64 w = Some n
           \<and> checked_mul (word_of_nat n) ATOMIC_UNITS_PER_SMD = Some x"
  with assms show "unat x = dec_val w * 10 ^ 8"
    by (auto simp: parse_unsigned_digits nat_simps ATOMIC_UNITS_PER_SMD_def split: if_splits)
next
  assume x: "unat x = dec_val w * 10 ^ 8"
  then have "dec_val w < 18446744073709551616" using unat_u64_bound [of x] by simp
  with assms x show "\<exists>n. parse_unsigned 64 w = Some n
           \<and> checked_mul (word_of_nat n) ATOMIC_UNITS_PER_SMD = Some x"
    by (simp add: parse_unsigned_digits nat_simps ATOMIC_UNITS_PER_SMD_def)
qed

text \<open>Inversion of a successful parse: its whole part and its fractional part.\<close>

lemma from_str_Inr_iff:
  "amount_from_str s = Inr a \<longleftrightarrow>
     (let parts = split_on (CHR ''.'') s in
      length parts \<le> 2 \<and> hd parts \<noteq> [] \<and> all_digits (hd parts) \<and>
      (\<exists>x y. unat x = dec_val (hd parts) * 10 ^ 8 \<and>
        fractional_units (case tl parts of [] \<Rightarrow> None | f # _ \<Rightarrow> Some f) = Inr y \<and>
        units a = unat (x :: u64) + unat y))"
proof (cases "hd (split_on (CHR ''.'') s) \<noteq> [] \<and> all_digits (hd (split_on (CHR ''.'') s))")
  case True
  define parts where "parts = split_on (CHR ''.'') s"
  have "s \<noteq> []" using True by auto
  moreover have "hd s \<noteq> CHR ''-''" "hd s \<noteq> CHR ''+''"
    using True by (cases s; auto split: if_splits list.splits)+
  ultimately have "amount_from_str s = Inr a \<longleftrightarrow> length parts \<le> 2 \<and>
     (\<exists>x. (\<exists>n. parse_unsigned 64 (hd parts) = Some n
          \<and> checked_mul (word_of_nat n) ATOMIC_UNITS_PER_SMD = Some x) \<and>
       (\<exists>y. fractional_units (case tl parts of [] \<Rightarrow> None | f # _ \<Rightarrow> Some f) = Inr y \<and>
         checked_add x y = Some (atomic a)))"
    using True by (cases a) (auto simp: amount_from_str_def parts_def Let_def)
  then show ?thesis
    using True whole_part_Inr [of "hd parts"] by (simp add: parts_def Let_def checked_add_Some)
next
  case False
  then show ?thesis by (auto simp: amount_from_str_def Let_def)
qed

text \<open>A literal with a point has one reading: its point is the first one.\<close>

lemma literal_with_point:
  assumes "CHR ''.'' \<notin> set p"
  shows "amount_literal (p @ CHR ''.'' # f) n \<longleftrightarrow> p \<noteq> [] \<and> all_digits p \<and> f \<noteq> [] \<and> length f \<le> 8
     \<and> all_digits f \<and> n = dec_val p * 10 ^ 8 + dec_val f * 10 ^ (8 - length f)"
proof -
  have "w = p \<and> g = f" if "p @ CHR ''.'' # f = w @ CHR ''.'' # g" "all_digits w" for w g
  proof -
    have "CHR ''.'' \<notin> set w" using that(2) by (rule all_digits_notin) simp
    then have "split_once (CHR ''.'') (w @ CHR ''.'' # g) = Some (w, g)" by (simp add: split_once_Some)
    moreover have "split_once (CHR ''.'') (p @ CHR ''.'' # f) = Some (p, f)"
      using assms by (simp add: split_once_Some)
    ultimately show ?thesis using that(1) by simp
  qed
  then show ?thesis unfolding amount_literal_def by (auto; metis)
qed

lemma amount_from_str_iff: "amount_from_str s = Inr a \<longleftrightarrow> amount_literal s (units a)"
proof -
  define parts where "parts = split_on (CHR ''.'') s"
  consider (one) p where "parts = [p]" | (two) p f where "parts = [p, f]"
    | (more) p f g r where "parts = p # f # g # r"
    by (metis parts_def split_on_nonempty list.exhaust)
  then show ?thesis
  proof cases
    case one
    then have "p = s" "CHR ''.'' \<notin> set s" by (simp_all add: parts_def split_on_single_iff)
    with one show ?thesis
      by (auto simp: from_str_Inr_iff amount_literal_def fractional_units_None parts_def [symmetric]
          intro: exI [of _ "atomic a"])
  next
    case two
    then obtain t where t: "s = p @ CHR ''.'' # t" "CHR ''.'' \<notin> set p" "split_on (CHR ''.'') t = [f]"
      by (auto simp: parts_def split_on_Cons_iff)
    then have f: "t = f" "CHR ''.'' \<notin> set f" by (simp_all add: split_on_single_iff)
    have "(\<exists>x y. unat (x :: u64) = m \<and> unat (y :: u64) = n \<and> units a = unat x + unat y) \<longleftrightarrow>
        units a = m + n" for m n
    proof
      assume "units a = m + n"
      then have "unat (word_of_nat m :: u64) = m" "unat (word_of_nat n :: u64) = n"
        using unat_u64_bound [of "atomic a"] by (simp_all add: unat_of_nat_u64)
      with \<open>units a = m + n\<close> show "\<exists>x y. unat (x :: u64) = m \<and> unat (y :: u64) = n \<and> units a = unat x + unat y"
        by metis
    qed auto
    moreover have "amount_literal s (units a) \<longleftrightarrow> p \<noteq> [] \<and> all_digits p \<and> f \<noteq> [] \<and> length f \<le> 8
        \<and> all_digits f \<and> units a = dec_val p * 10 ^ 8 + dec_val f * 10 ^ (8 - length f)"
      using t f literal_with_point [of p f] by simp
    ultimately show ?thesis
      using two by (simp add: from_str_Inr_iff fractional_units_Some parts_def [symmetric]) blast
  next
    case more
    then obtain t where "s = p @ CHR ''.'' # t" "split_on (CHR ''.'') t = f # g # r"
      by (auto simp: parts_def split_on_Cons_iff)
    then obtain u where "s = p @ CHR ''.'' # f @ CHR ''.'' # u"
      by (auto simp: split_on_Cons_iff)
    moreover have "CHR ''.'' \<notin> set w" if "all_digits w" for w
      using that by (rule all_digits_notin) simp
    ultimately have "\<not> amount_literal s (units a)"
      by (auto simp: amount_literal_def append_eq_append_conv2 Cons_eq_append_conv append_eq_Cons_conv)
    with more show ?thesis by (simp add: from_str_Inr_iff parts_def [symmetric])
  qed
qed

lemma amount_str_round_trip: "amount_from_str (amount_to_string a) = Inr a"
proof -
  have n: "unat (atomic a div ATOMIC_UNITS_PER_SMD) = units a div 10 ^ 8"
    "unat (atomic a mod ATOMIC_UNITS_PER_SMD) = units a mod 10 ^ 8"
    by (simp_all add: unat_div unat_mod ATOMIC_UNITS_PER_SMD_def)
  have l: "length (dec_pad 8 (units a mod 10 ^ 8)) = 8" by (rule length_dec_pad) simp_all
  then have ne: "dec_pad 8 (units a mod 10 ^ 8) \<noteq> []" by auto
  show ?thesis
    unfolding amount_from_str_iff amount_literal_def amount_to_string_def Let_def n
    using l ne div_mult_mod_eq [of "units a" "10 ^ 8"]
    by (intro disjI2 exI [of _ "dec (units a div 10 ^ 8)"] exI [of _ "dec_pad 8 (units a mod 10 ^ 8)"])
       simp
qed

end
