(* ===== verification/Smd_Policy.thy ===== *)
theory Smd_Policy
  imports Smd_Amount
begin

text \<open>
  The monetary policy: \<open>supply.rs\<close> (caps and the accounting identity of the supply),
  \<open>emission.rs\<close> (emission phases and the reward quote), \<open>rewards.rs\<close> (the anti-fraud
  contribution score) and \<open>pricing.rs\<close>; \<open>service_type\<close> is the enumeration of
  \<open>contribution.rs\<close>.
\<close>

unbundle bit_operations_syntax

section \<open>Supply\<close>

definition MAX_SUPPLY :: amount where
  "MAX_SUPPLY = from_atomic 1200000000000000"

definition GENESIS_RESERVE :: amount where
  "GENESIS_RESERVE = from_atomic 100000000000000"

definition MAX_NETWORK_EMISSION :: amount where
  "MAX_NETWORK_EMISSION = from_atomic 1100000000000000"

record supply_state =
  minted_supply :: amount
  network_emitted_supply :: amount
  reserve_balance :: amount
  circulating_supply :: amount

definition supply_genesis :: supply_state where
  "supply_genesis = \<lparr>minted_supply = GENESIS_RESERVE, network_emitted_supply = ZERO,
     reserve_balance = GENESIS_RESERVE, circulating_supply = ZERO\<rparr>"

definition supply_validate :: "supply_state \<Rightarrow> unit result" where
  "supply_validate st =
     bail_if (atomic (minted_supply st) > atomic MAX_SUPPLY)
       ''SMD minted supply exceeds the 12,000,000 SMD cap''
     (bail_if (atomic (network_emitted_supply st) > atomic MAX_NETWORK_EMISSION)
       ''SMD network emission exceeds the 11,000,000 SMD cap''
     (and_then (amount_add GENESIS_RESERVE (network_emitted_supply st)) (\<lambda>minted.
      bail_if (minted_supply st \<noteq> minted) ''invalid SMD minted supply accounting''
     (and_then (amount_sub (minted_supply st) (reserve_balance st)) (\<lambda>circulating.
      bail_if (circulating_supply st \<noteq> circulating) ''invalid SMD circulating supply accounting''
     (Inr ()))))))"

definition from_components :: "amount \<Rightarrow> amount \<Rightarrow> supply_state result" where
  "from_components network_emitted reserve =
     and_then (amount_add GENESIS_RESERVE network_emitted) (\<lambda>minted.
     and_then (amount_sub minted reserve) (\<lambda>circulating.
     let st = \<lparr>minted_supply = minted, network_emitted_supply = network_emitted,
       reserve_balance = reserve, circulating_supply = circulating\<rparr> in
     and_then (supply_validate st) (\<lambda>_. Inr st)))"

text \<open>
  The specification of a consistent supply: what was minted is the genesis reserve and the
  network emission, what circulates is what was minted and left the reserve.
\<close>

definition supply_consistent :: "supply_state \<Rightarrow> bool" where
  "supply_consistent st \<longleftrightarrow>
     units (network_emitted_supply st) \<le> units MAX_NETWORK_EMISSION \<and>
     units (minted_supply st) = units GENESIS_RESERVE + units (network_emitted_supply st) \<and>
     units (minted_supply st) = units (reserve_balance st) + units (circulating_supply st)"

lemma supply_constants [simp]:
  "units MAX_SUPPLY = 1200000000000000" "units GENESIS_RESERVE = 100000000000000"
  "units MAX_NETWORK_EMISSION = 1100000000000000"
  by (simp_all add: MAX_SUPPLY_def GENESIS_RESERVE_def MAX_NETWORK_EMISSION_def)

lemma supply_validate_iff: "supply_validate st = Inr () \<longleftrightarrow> supply_consistent st"
  by (auto simp: supply_validate_def supply_consistent_def amount_add_Inr amount_sub_Inr
      word_less_nat_alt amount_eq_units)

lemma from_components_Inr:
  "from_components e r = Inr st \<longleftrightarrow>
     supply_consistent st \<and> network_emitted_supply st = e \<and> reserve_balance st = r"
proof
  assume "from_components e r = Inr st"
  then show "supply_consistent st \<and> network_emitted_supply st = e \<and> reserve_balance st = r"
    by (auto simp: from_components_def Let_def supply_validate_iff)
next
  assume c: "supply_consistent st \<and> network_emitted_supply st = e \<and> reserve_balance st = r"
  then have "amount_add GENESIS_RESERVE e = Inr (minted_supply st)"
    "amount_sub (minted_supply st) r = Inr (circulating_supply st)"
    by (auto simp: supply_consistent_def amount_add_Inr amount_sub_Inr)
  with c show "from_components e r = Inr st"
    by (cases st) (auto simp: from_components_def Let_def supply_validate_iff)
qed

section \<open>Emission\<close>

type_synonym u128 = "128 word"

definition GIB :: u128 where
  "GIB = 1073741824"

definition BASE_ATOMIC_PER_GIB :: u64 where
  "BASE_ATOMIC_PER_GIB = 10 * ATOMIC_UNITS_PER_SMD"

record quoted_emission =
  eq_policy_version :: u32
  eq_phase :: u32
  eq_score_bytes :: u64
  eq_protocol_subsidy :: amount

definition EMISSION_VERSION :: u32 where
  "EMISSION_VERSION = 1"

text \<open>The loop of \<open>phase\<close>, from the value its counter has; it stops at 31.\<close>

function phase_from :: "u64 \<Rightarrow> nat \<Rightarrow> nat" where
  "phase_from emitted phase =
     (if phase < 31 then
        (let cap = atomic MAX_NETWORK_EMISSION;
             next_boundary = saturating_sub cap (drop_bit (phase + 1) cap)
         in if emitted < next_boundary then phase else phase_from emitted (phase + 1))
      else phase)"
  by auto
termination by (relation "measure (\<lambda>(_, phase). 31 - phase)") auto

declare phase_from.simps [simp del]

definition emission_phase :: "amount \<Rightarrow> nat" where
  "emission_phase network_emitted =
     phase_from (min (atomic network_emitted) (atomic MAX_NETWORK_EMISSION)) 0"

definition emission_quote :: "u64 \<Rightarrow> amount \<Rightarrow> quoted_emission result" where
  "emission_quote score_bytes network_emitted =
     (let phase = emission_phase network_emitted;
          rate = max (drop_bit phase BASE_ATOMIC_PER_GIB) 1
      in
      and_then (ok_or (checked_mul (ucast score_bytes) (ucast rate))
        (Bail ''SMD reward calculation overflow'')) (\<lambda>product.
      let raw = product div GIB;
          raw = (if score_bytes > 0 then max raw 1 else 0)
      in
      and_then (ok_or (checked_sub (atomic MAX_NETWORK_EMISSION) (atomic network_emitted))
        (Bail ''network emission already exceeds cap'')) (\<lambda>remaining.
      let subsidy = min raw (ucast remaining) in
      and_then (if unat subsidy < 2 ^ 64 then Inr (ucast subsidy)
                else Inl (Bail ''SMD reward does not fit atomic amount'')) (\<lambda>subsidy.
      Inr \<lparr>eq_policy_version = EMISSION_VERSION, eq_phase = word_of_nat phase,
           eq_score_bytes = score_bytes, eq_protocol_subsidy = from_atomic subsidy\<rparr>))))"

text \<open>The boundary of phase \<open>k\<close>: all of the emission but its \<open>2 ^ (k + 1)\<close>-th part.\<close>

definition phase_boundary :: "nat \<Rightarrow> nat" where
  "phase_boundary k = 1100000000000000 - 1100000000000000 div 2 ^ (k + 1)"

lemma phase_boundary_word:
  "unat (saturating_sub (atomic MAX_NETWORK_EMISSION) (drop_bit (k + 1) (atomic MAX_NETWORK_EMISSION)))
     = phase_boundary k"
proof -
  have "unat (drop_bit (k + 1) (atomic MAX_NETWORK_EMISSION))
      = drop_bit (k + 1) (units MAX_NETWORK_EMISSION)"
    by (rule unat_drop_bit_eq)
  then show ?thesis
    by (simp only: unat_saturating_sub phase_boundary_def supply_constants drop_bit_eq_div)
qed

lemma phase_from_step:
  "phase_from e p = (if p < 31 \<and> phase_boundary p \<le> unat e then phase_from e (p + 1) else p)"
  using phase_boundary_word [of p]
  by (subst phase_from.simps) (simp add: Let_def word_less_nat_alt)

lemma phase_from_spec:
  "p \<le> 31 \<Longrightarrow> p \<le> phase_from e p \<and> phase_from e p \<le> 31
     \<and> (\<forall>k. p \<le> k \<and> k < phase_from e p \<longrightarrow> phase_boundary k \<le> unat e)
     \<and> (phase_from e p < 31 \<longrightarrow> unat e < phase_boundary (phase_from e p))"
proof (induction e p rule: phase_from.induct)
  case (1 e p)
  show ?case
  proof (cases "p < 31 \<and> phase_boundary p \<le> unat e")
    case True
    have IH: "p + 1 \<le> phase_from e (p + 1) \<and> phase_from e (p + 1) \<le> 31
     \<and> (\<forall>k. p + 1 \<le> k \<and> k < phase_from e (p + 1) \<longrightarrow> phase_boundary k \<le> unat e)
     \<and> (phase_from e (p + 1) < 31 \<longrightarrow> unat e < phase_boundary (phase_from e (p + 1)))"
      using "1.IH" True phase_boundary_word [of p] by (auto simp: word_less_nat_alt)
    have "phase_boundary k \<le> unat e" if "p \<le> k" "k < phase_from e (p + 1)" for k
      using that IH True by (cases "k = p") auto
    with IH True show ?thesis by (simp add: phase_from_step [of e p])
  next
    case False
    then show ?thesis using "1.prems" by (auto simp: phase_from_step [of e p])
  qed
qed

lemma phase_boundary_mono: "j \<le> k \<Longrightarrow> phase_boundary j \<le> phase_boundary k"
  unfolding phase_boundary_def by (intro diff_le_mono2 div_le_mono2 power_increasing) auto

text \<open>The loop is the halving schedule, read on the emission that is left.\<close>

lemma emission_phase_le [simp]: "emission_phase e \<le> 31"
  using phase_from_spec [of 0] by (simp add: emission_phase_def)

lemma emission_phase_halving:
  "k \<le> emission_phase e \<longleftrightarrow>
     k \<le> 31 \<and> units MAX_NETWORK_EMISSION - units e \<le> units MAX_NETWORK_EMISSION div 2 ^ k"
proof -
  define m where "m = min (atomic e) (atomic MAX_NETWORK_EMISSION)"
  have m: "unat m = min (units e) 1100000000000000"
    using supply_constants(3) by (simp add: m_def min_def word_le_nat_alt)
  define p where "p = emission_phase e"
  have p: "p \<le> 31" "\<And>j. j < p \<Longrightarrow> phase_boundary j \<le> unat m" "p < 31 \<Longrightarrow> unat m < phase_boundary p"
    using phase_from_spec [of 0 m] by (simp_all add: p_def emission_phase_def m_def)
  have reach: "phase_boundary j \<le> unat m \<longleftrightarrow>
      1100000000000000 - units e \<le> 1100000000000000 div 2 ^ Suc j" for j
    using div_le_dividend [of 1100000000000000 "2 ^ Suc j"]
    by (auto simp: phase_boundary_def m min_def)
  show ?thesis
  proof (cases k)
    case 0
    then show ?thesis by simp
  next
    case (Suc j)
    have "k \<le> p \<longleftrightarrow> k \<le> 31 \<and> phase_boundary j \<le> unat m"
    proof
      assume "k \<le> p"
      with Suc p show "k \<le> 31 \<and> phase_boundary j \<le> unat m" by auto
    next
      assume k: "k \<le> 31 \<and> phase_boundary j \<le> unat m"
      show "k \<le> p"
      proof (rule ccontr)
        assume "\<not> k \<le> p"
        with Suc k have "p \<le> j" "p < 31" by auto
        with p(3) phase_boundary_mono [of p j] k show False by simp
      qed
    qed
    with reach [of j] Suc show ?thesis by (simp add: p_def)
  qed
qed

definition reward_rate :: "nat \<Rightarrow> nat" where
  "reward_rate phase = max (1000000000 div 2 ^ phase) 1"

definition raw_reward :: "nat \<Rightarrow> nat \<Rightarrow> nat" where
  "raw_reward score phase = (if 0 < score then max (score * reward_rate phase div 1073741824) 1 else 0)"

lemma rate_word: "unat (max (drop_bit p BASE_ATOMIC_PER_GIB) 1) = reward_rate p"
proof -
  have b: "unat BASE_ATOMIC_PER_GIB = 1000000000"
    by (simp add: BASE_ATOMIC_PER_GIB_def ATOMIC_UNITS_PER_SMD_def)
  have "unat (drop_bit p BASE_ATOMIC_PER_GIB) = drop_bit p (unat BASE_ATOMIC_PER_GIB)"
    by (rule unat_drop_bit_eq)
  then have "unat (drop_bit p BASE_ATOMIC_PER_GIB) = 1000000000 div 2 ^ p"
    by (simp only: b drop_bit_eq_div)
  then show ?thesis by (simp add: reward_rate_def max_def word_le_nat_alt)
qed

lemma unat_u128_of_u64 [simp]: "unat (ucast (x :: u64) :: u128) = unat x"
  by (rule unat_ucast_fits, rule less_trans [OF unat_u64_bound]) simp

lemma emission_quote_Inr:
  "emission_quote s e = Inr q \<longleftrightarrow>
     units e \<le> units MAX_NETWORK_EMISSION \<and> eq_policy_version q = EMISSION_VERSION \<and>
     eq_phase q = word_of_nat (emission_phase e) \<and> eq_score_bytes q = s \<and>
     units (eq_protocol_subsidy q) =
       min (raw_reward (unat s) (emission_phase e)) (units MAX_NETWORK_EMISSION - units e)"
proof -
  define rate where "rate = max (drop_bit (emission_phase e) BASE_ATOMIC_PER_GIB) 1"
  have rate: "unat rate = reward_rate (emission_phase e)" by (simp add: rate_def rate_word)
  have "unat s * unat rate < 2 ^ 64 * 2 ^ 64"
    using unsigned_less [of s] unsigned_less [of rate] by (intro mult_strict_mono) auto
  then have fits: "unat s * unat rate < 2 ^ 128" by simp
  define product :: u128 where "product = ucast s * ucast rate"
  have product: "checked_mul (ucast s) (ucast rate :: u128) = Some product"
    "unat product = unat s * reward_rate (emission_phase e)"
    using fits by (simp_all add: checked_mul_def product_def rate unat_word_ariths)
  define raw where "raw = (if s > 0 then max (product div GIB) 1 else 0)"
  have "unat raw = (if unat s > 0 then max (unat product div 1073741824) 1 else 0)"
    by (simp add: raw_def max_def word_le_nat_alt word_less_nat_alt unat_div GIB_def)
  then have raw: "unat raw = raw_reward (unat s) (emission_phase e)"
    by (simp add: raw_reward_def product(2))
  show ?thesis
  proof (cases "units e \<le> units MAX_NETWORK_EMISSION")
    case False
    then have "checked_sub (atomic MAX_NETWORK_EMISSION) (atomic e) = None"
      by (simp add: checked_sub_None)
    with False show ?thesis
      by (simp add: emission_quote_def Let_def product(1) flip: rate_def)
  next
    case True
    define remaining where "remaining = atomic MAX_NETWORK_EMISSION - atomic e"
    have rem: "checked_sub (atomic MAX_NETWORK_EMISSION) (atomic e) = Some remaining"
      "unat remaining = units MAX_NETWORK_EMISSION - units e"
      using True by (simp_all add: checked_sub_def remaining_def word_le_nat_alt unat_sub)
    define subsidy where "subsidy = min raw (ucast remaining)"
    have sub: "unat subsidy = min (unat raw) (unat remaining)"
      by (simp add: subsidy_def min_def word_le_nat_alt)
    then have lt: "unat subsidy < 2 ^ 64" by (simp add: min_less_iff_disj)
    then have sub64: "unat (ucast subsidy :: u64) = unat subsidy" by (simp add: unat_ucast_fits)
    have "emission_quote s e = Inr \<lparr>eq_policy_version = EMISSION_VERSION,
        eq_phase = word_of_nat (emission_phase e), eq_score_bytes = s,
        eq_protocol_subsidy = from_atomic (ucast subsidy)\<rparr>"
      using lt
      by (simp add: emission_quote_def Let_def product(1) rem(1)
          flip: rate_def raw_def subsidy_def)
    then show ?thesis
      using True sub sub64 raw rem(2)
      by (cases q) (auto simp: amount_eq_units)
  qed
qed

section \<open>Contribution scores\<close>

datatype service_type = StandardUpload | RareDataUpload | CdcReconstructionUpload

record anti_fraud_policy =
  af_version :: u32
  max_same_content_per_pair_epoch :: u32
  max_protocol_reward_per_address_epoch :: amount

definition default_anti_fraud :: anti_fraud_policy where
  "default_anti_fraud = \<lparr>af_version = 1, max_same_content_per_pair_epoch = 3,
     max_protocol_reward_per_address_epoch = from_atomic (1000 * ATOMIC_UNITS_PER_SMD)\<rparr>"

definition factor_basis_points :: "service_type \<Rightarrow> u128" where
  "factor_basis_points service = (case service of
      StandardUpload \<Rightarrow> 10000 | RareDataUpload \<Rightarrow> 15000 | CdcReconstructionUpload \<Rightarrow> 12500)"

definition anti_fraud_score ::
    "anti_fraud_policy \<Rightarrow> u64 \<Rightarrow> service_type \<Rightarrow> u32 \<Rightarrow> u32 \<Rightarrow> u64 result" where
  "anti_fraud_score policy delivered service prior_pair prior_same =
     bail_if (prior_same \<ge> max_same_content_per_pair_epoch policy)
       ''abnormal repeated content loop detected''
     (and_then (ok_or (checked_mul (ucast delivered) (factor_basis_points service))
        (Bail ''contribution score overflow'')) (\<lambda>product.
      let weighted = product div 10000;
          decayed = weighted div ucast (saturating_add prior_pair 1)
      in if unat decayed < 2 ^ 64 then Inr (ucast decayed)
         else Inl (Bail ''contribution score exceeds supported range'')))"

lemma unat_u128_of_u32 [simp]: "unat (ucast (x :: u32) :: u128) = unat x"
  by (rule unat_ucast_fits, rule less_trans [OF unat_u32_bound]) simp

definition score_value :: "service_type \<Rightarrow> nat \<Rightarrow> nat \<Rightarrow> nat" where
  "score_value service delivered prior_pair =
     delivered * unat (factor_basis_points service) div 10000 div min (prior_pair + 1) 4294967295"

lemma factor_bounds: "10000 \<le> unat (factor_basis_points t)" "unat (factor_basis_points t) \<le> 15000"
  by (cases t; simp add: factor_basis_points_def)+

lemma anti_fraud_score_Inr:
  "anti_fraud_score policy delivered service pair same = Inr x \<longleftrightarrow>
     same < max_same_content_per_pair_epoch policy \<and> unat x = score_value service (unat delivered) (unat pair)"
proof -
  have "unat delivered * unat (factor_basis_points service) \<le> 2 ^ 64 * 15000"
    using factor_bounds(2) [of service] less_imp_le [OF unat_u64_bound [of delivered]]
    by (intro mult_le_mono) simp_all
  then have fits: "unat delivered * unat (factor_basis_points service) < 2 ^ 128" by simp
  define product :: u128 where "product = ucast delivered * factor_basis_points service"
  have product: "checked_mul (ucast delivered) (factor_basis_points service) = Some product"
    "unat product = unat delivered * unat (factor_basis_points service)"
    using fits by (simp_all add: checked_mul_def product_def unat_word_ariths)
  define decayed :: u128 where "decayed = product div 10000 div ucast (saturating_add pair 1)"
  have d: "unat decayed = score_value service (unat delivered) (unat pair)"
    by (simp add: decayed_def unat_div product(2) score_value_def unat_saturating_add)
  have "anti_fraud_score policy delivered service pair same =
      bail_if (same \<ge> max_same_content_per_pair_epoch policy) ''abnormal repeated content loop detected''
        (if unat decayed < 2 ^ 64 then Inr (ucast decayed)
         else Inl (Bail ''contribution score exceeds supported range''))"
    by (simp add: anti_fraud_score_def product(1) Let_def decayed_def)
  moreover have "unat (ucast decayed :: u64) = unat decayed" if "unat decayed < 2 ^ 64"
    using that by (simp add: unat_ucast_fits)
  moreover have "unat decayed < 2 ^ 64" if "unat x = score_value service (unat delivered) (unat pair)"
    unfolding d that [symmetric] by simp
  ultimately show ?thesis
    by (auto simp: d not_le word_unat_eq_iff split: if_splits)
qed

section \<open>Pricing\<close>

record pricing_engine =
  pricing_enabled :: bool
  user_resource_fee :: "u64 \<Rightarrow> amount"

definition V01_pricing :: pricing_engine where
  "V01_pricing = \<lparr>pricing_enabled = False, user_resource_fee = (\<lambda>_. ZERO)\<rparr>"

definition V01_basic_access_is_free :: bool where
  "V01_basic_access_is_free = True"

end
