(* ===== verification/Smd_Identity.thy ===== *)
theory Smd_Identity
  imports Smd_Policy
begin

text \<open>
  Identities and signed messages: \<open>address.rs\<close>, \<open>crypto.rs\<close>, \<open>transaction.rs\<close>,
  \<open>contribution.rs\<close> and \<open>wallet.rs\<close>. The third-party crates (sha2, hex, bech32, ed25519,
  serde_json) are the fields of the record \<open>smd_ext\<close>, an argument of every operation that
  calls one; what the program relies on is the predicate \<open>smd_ext_ok\<close>, a hypothesis of the
  theorems that need it. Files are a map from paths to contents.
\<close>

section \<open>Data\<close>

datatype network_id = Mainnet | Devnet

definition network_as_str :: "network_id \<Rightarrow> string" where
  "network_as_str n = (case n of Mainnet \<Rightarrow> ''mainnet'' | Devnet \<Rightarrow> ''devnet'')"

definition hrp :: "network_id \<Rightarrow> string" where
  "hrp n = (case n of Mainnet \<Rightarrow> ''smd'' | Devnet \<Rightarrow> ''smddev'')"

definition network_from_str :: "string \<Rightarrow> network_id result" where
  "network_from_str s =
     (if s = ''mainnet'' then Inr Mainnet
      else if s = ''devnet'' then Inr Devnet
      else Inl (Bail ''unsupported SMD network''))"

datatype address = Address (address_str: string)

datatype bech32_variant = Bech32 | Bech32m

definition protocol_name :: "service_type \<Rightarrow> string" where
  "protocol_name service = (case service of
      StandardUpload \<Rightarrow> ''STANDARD_UPLOAD''
    | RareDataUpload \<Rightarrow> ''RARE_DATA_UPLOAD''
    | CdcReconstructionUpload \<Rightarrow> ''CDC_RECONSTRUCTION_UPLOAD'')"

definition service_from_str :: "string \<Rightarrow> service_type result" where
  "service_from_str s = (let u = to_ascii_uppercase s in
     if u = ''STANDARD_UPLOAD'' \<or> u = ''STANDARD'' then Inr StandardUpload
     else if u = ''RARE_DATA_UPLOAD'' \<or> u = ''RARE'' then Inr RareDataUpload
     else if u = ''CDC_RECONSTRUCTION_UPLOAD'' \<or> u = ''CDC'' then Inr CdcReconstructionUpload
     else Inl (Bail ''unsupported SMD service type''))"

record transaction =
  tx_version :: u32
  tx_network_id :: network_id
  tx_from :: string
  tx_from_public_key :: string
  tx_to :: string
  tx_amount :: amount
  tx_nonce :: u64
  tx_created_epoch :: u64
  tx_expiry_epoch :: u64
  tx_signature :: string

record signable_transaction =
  st_version :: u32
  st_network_id :: network_id
  st_from :: string
  st_to :: string
  st_amount_atomic :: u64
  st_nonce :: u64
  st_created_epoch :: u64
  st_expiry_epoch :: u64

record contribution_receipt =
  cr_version :: u32
  cr_network_id :: network_id
  cr_provider_address :: string
  cr_provider_public_key :: string
  cr_receiver_address :: string
  cr_receiver_public_key :: string
  cr_session_id :: string
  cr_content_hash :: string
  cr_bytes_delivered :: u64
  cr_service_type :: service_type
  cr_epoch :: u64
  cr_nonce :: u64
  cr_content_verified :: bool
  cr_receiver_signature :: string

record signable_receipt =
  sr_version :: u32
  sr_network_id :: network_id
  sr_provider_address :: string
  sr_provider_public_key :: string
  sr_receiver_address :: string
  sr_session_id :: string
  sr_content_hash :: string
  sr_bytes_delivered :: u64
  sr_service_type :: service_type
  sr_epoch :: u64
  sr_nonce :: u64
  sr_content_verified :: bool

record wallet =
  wl_network :: network_id
  wl_signing_key :: bytes

record wallet_backup =
  wb_kind :: string
  wb_version :: u32
  wb_network_id :: network_id
  wb_address :: string
  wb_private_key_hex :: string

section \<open>Third-party crates\<close>

text \<open>
  A signing key is its 32 secret bytes. \<open>ed_decodes_key\<close> is \<open>VerifyingKey::from_bytes\<close>,
  which refuses bytes that are no curve point.
\<close>

record smd_ext =
  sha256 :: "bytes \<Rightarrow> bytes"
  hex_encode :: "bytes \<Rightarrow> string"
  hex_decode :: "string \<Rightarrow> bytes result"
  to_base32 :: "bytes \<Rightarrow> nat list"
  from_base32 :: "nat list \<Rightarrow> bytes result"
  bech32_encode :: "string \<Rightarrow> nat list \<Rightarrow> bech32_variant \<Rightarrow> string result"
  bech32_decode :: "string \<Rightarrow> (string \<times> nat list \<times> bech32_variant) result"
  ed_verifying_key :: "bytes \<Rightarrow> bytes"
  ed_decodes_key :: "bytes \<Rightarrow> bool"
  ed_sign :: "bytes \<Rightarrow> bytes \<Rightarrow> bytes"
  ed_verifies :: "bytes \<Rightarrow> bytes \<Rightarrow> bytes \<Rightarrow> bool"
  json_transaction :: "transaction \<Rightarrow> bytes result"
  json_signable_transaction :: "signable_transaction \<Rightarrow> bytes result"
  json_transaction_parse :: "bytes \<Rightarrow> transaction result"
  json_receipt :: "contribution_receipt \<Rightarrow> bytes result"
  json_receipt_parse :: "bytes \<Rightarrow> contribution_receipt result"
  json_signable_receipt :: "signable_receipt \<Rightarrow> bytes result"
  json_backup_pretty :: "wallet_backup \<Rightarrow> bytes result"
  json_backup_parse :: "bytes \<Rightarrow> wallet_backup result"

text \<open>
  The documented behaviour the program relies on: digest, key and signature lengths, hex
  decoding inverts encoding, a signature made with a key verifies under its public key, bech32
  encodes the 20-byte payloads it is given, serialisation of these plain structs does not
  fail, and JSON parsing inverts printing up to trailing whitespace.
\<close>

definition smd_ext_ok :: "smd_ext \<Rightarrow> bool" where
  "smd_ext_ok X \<longleftrightarrow>
     (\<forall>b. length (sha256 X b) = 32) \<and>
     (\<forall>b. hex_decode X (hex_encode X b) = Inr b) \<and>
     (\<forall>b. length (hex_encode X b) = 2 * length b) \<and>
     (\<forall>k. length (ed_verifying_key X k) = 32) \<and>
     (\<forall>k. ed_decodes_key X (ed_verifying_key X k)) \<and>
     (\<forall>k m. length (ed_sign X k m) = 64) \<and>
     (\<forall>k m. ed_verifies X (ed_verifying_key X k) m (ed_sign X k m)) \<and>
     (\<forall>n p. length p = 20 \<longrightarrow> (\<exists>s. bech32_encode X (hrp n) (to_base32 X p) Bech32 = Inr s
        \<and> length s \<le> 90 \<and> (\<exists>r. s = hrp n @ CHR ''1'' # r) \<and> bech32_decode X s = Inr (hrp n, to_base32 X p, Bech32))) \<and>
     (\<forall>p. from_base32 X (to_base32 X p) = Inr p) \<and>
     (\<forall>t. \<exists>j. json_transaction X t = Inr j \<and> json_transaction_parse X j = Inr t) \<and>
     (\<forall>t. is_ok (json_signable_transaction X t)) \<and>
     (\<forall>r. \<exists>j. json_receipt X r = Inr j \<and> json_receipt_parse X j = Inr r) \<and>
     (\<forall>r. is_ok (json_signable_receipt X r)) \<and>
     (\<forall>b. \<exists>j. json_backup_pretty X b = Inr j \<and> json_backup_parse X (j @ [10]) = Inr b \<and>
        (length (wb_kind b) + length (wb_address b) + length (wb_private_key_hex b) \<le> 256
          \<longrightarrow> length j < 4096))"

section \<open>Addresses\<close>

definition PERMANENT_RESERVE_ADDRESS :: string where
  "PERMANENT_RESERVE_ADDRESS = ''SMD_PERMANENT_RESERVE''"

definition from_public_key :: "smd_ext \<Rightarrow> network_id \<Rightarrow> bytes \<Rightarrow> address result" where
  "from_public_key X network public_key =
     (let digest = sha256 X public_key in
      and_then (bech32_encode X (hrp network) (to_base32 X (take 20 digest)) Bech32)
        (\<lambda>encoded. Inr (Address encoded)))"

definition parse_for_network :: "smd_ext \<Rightarrow> string \<Rightarrow> network_id \<Rightarrow> address result" where
  "parse_for_network X s network =
     (if s = PERMANENT_RESERVE_ADDRESS then Inr (Address s)
      else bail_if (128 < length s) ''SMD address exceeds size limit''
       (and_then (bech32_decode X s) (\<lambda>(h, data, variant).
        bail_if (h \<noteq> hrp network \<or> variant \<noteq> Bech32) ''address does not belong to network''
       (and_then (from_base32 X data) (\<lambda>payload.
        bail_if (length payload \<noteq> 20) ''invalid SMD address payload length''
        (Inr (Address s)))))))"

definition reserve_address :: address where
  "reserve_address = Address PERMANENT_RESERVE_ADDRESS"

definition is_reserve :: "address \<Rightarrow> bool" where
  "is_reserve a \<longleftrightarrow> address_str a = PERMANENT_RESERVE_ADDRESS"

section \<open>Hexadecimal keys and signatures\<close>

definition TRANSACTION_DOMAIN :: bytes where
  "TRANSACTION_DOMAIN = as_bytes ''ShardMeld/SMD/devnet/transaction/v1'' @ [0]"

definition CONTRIBUTION_DOMAIN :: bytes where
  "CONTRIBUTION_DOMAIN = as_bytes ''ShardMeld/SMD/devnet/contribution-receipt/v1'' @ [0]"

definition domain_message :: "bytes \<Rightarrow> bytes \<Rightarrow> bytes" where
  "domain_message domain payload = domain @ payload"

definition sha256_hex :: "smd_ext \<Rightarrow> bytes \<Rightarrow> string" where
  "sha256_hex X data = hex_encode X (sha256 X data)"

text \<open>\<open>with_context m label\<close> replaces the error of \<open>m\<close>, as \<open>Result::context\<close> does for its display.\<close>

definition with_context :: "'a result \<Rightarrow> string \<Rightarrow> 'a result" where
  "with_context m msg = (case m of Inl _ \<Rightarrow> Inl (Bail msg) | Inr x \<Rightarrow> Inr x)"

definition decode_array :: "smd_ext \<Rightarrow> nat \<Rightarrow> string \<Rightarrow> string \<Rightarrow> bytes result" where
  "decode_array X n s label =
     bail_if (n * 2 < length s) (label @ '' exceeds maximum encoded size'')
     (and_then (with_context (hex_decode X s) (''invalid '' @ label @ '' encoding'')) (\<lambda>bs.
      bail_if (length bs \<noteq> n) (''invalid '' @ label @ '' length'') (Inr bs)))"

definition sign_hex :: "smd_ext \<Rightarrow> bytes \<Rightarrow> bytes \<Rightarrow> bytes \<Rightarrow> string" where
  "sign_hex X signing_key domain payload =
     hex_encode X (ed_sign X signing_key (domain_message domain payload))"

definition verify_hex :: "smd_ext \<Rightarrow> string \<Rightarrow> string \<Rightarrow> bytes \<Rightarrow> bytes \<Rightarrow> unit result" where
  "verify_hex X public_key_hex signature_hex domain payload =
     and_then (decode_array X 32 public_key_hex ''public key'') (\<lambda>public_key.
     and_then (decode_array X 64 signature_hex ''signature'') (\<lambda>sig.
     bail_if (\<not> ed_decodes_key X public_key) ''invalid public key''
    (bail_if (\<not> ed_verifies X public_key (domain_message domain payload) sig)
       ''signature verification failed'' (Inr ()))))"

section \<open>Wallets\<close>

definition DEVNET_WALLET_FILE_KIND :: string where
  "DEVNET_WALLET_FILE_KIND = ''smd-devnet-test-wallet''"

definition validate_keychain_name :: "string \<Rightarrow> unit result" where
  "validate_keychain_name name =
     bail_if (name = [] \<or> 128 < length name \<or>
         \<not> list_all (\<lambda>c. is_ascii_alphanumeric c \<or> c \<in> {CHR ''-'', CHR ''_'', CHR ''.''}) name)
       (''Keychain wallet name must use 1-128 ASCII letters, digits, '.', '-' or '_'' @ [CHR 0x27])
     (Inr ())"

definition from_secret_bytes :: "network_id \<Rightarrow> bytes \<Rightarrow> wallet" where
  "from_secret_bytes network secret = \<lparr>wl_network = network, wl_signing_key = secret\<rparr>"

definition wallet_address :: "smd_ext \<Rightarrow> wallet \<Rightarrow> address result" where
  "wallet_address X w = from_public_key X (wl_network w) (ed_verifying_key X (wl_signing_key w))"

definition public_key_hex :: "smd_ext \<Rightarrow> wallet \<Rightarrow> string" where
  "public_key_hex X w = hex_encode X (ed_verifying_key X (wl_signing_key w))"

definition backup :: "smd_ext \<Rightarrow> wallet \<Rightarrow> wallet_backup result" where
  "backup X w = and_then (wallet_address X w) (\<lambda>a.
     Inr \<lparr>wb_kind = DEVNET_WALLET_FILE_KIND, wb_version = 1, wb_network_id = wl_network w,
       wb_address = address_str a, wb_private_key_hex = hex_encode X (wl_signing_key w)\<rparr>)"

definition from_backup :: "smd_ext \<Rightarrow> wallet_backup \<Rightarrow> wallet result" where
  "from_backup X b =
     bail_if (wb_kind b \<noteq> DEVNET_WALLET_FILE_KIND \<or> wb_version b \<noteq> 1)
       ''unsupported SMD wallet backup format''
    (bail_if (wb_network_id b \<noteq> Devnet) ''only devnet wallet backups are accepted in SMD v0.1''
    (and_then (decode_array X 32 (wb_private_key_hex b) ''private key'') (\<lambda>secret.
     let w = from_secret_bytes (wb_network_id b) secret in
     and_then (wallet_address X w) (\<lambda>a.
     bail_if (address_str a \<noteq> wb_address b) ''wallet backup address does not match its private key''
     (Inr w)))))"

type_synonym fs = "string \<rightharpoonup> bytes"

text \<open>
  The file is written whole or not at all: a write that fails after the file has been created, and so leaves a
  part of it, is not a branch.
\<close>

definition export_devnet_test_file :: "smd_ext \<Rightarrow> wallet \<Rightarrow> string \<Rightarrow> fs \<Rightarrow> fs result" where
  "export_devnet_test_file X w path files =
     bail_if (wl_network w \<noteq> Devnet) ''explicit wallet files are enabled only for the SMD devnet''
     (and_then (backup X w) (\<lambda>b.
      and_then (json_backup_pretty X b) (\<lambda>encoded.
      bail_if (files path \<noteq> None) ''create devnet wallet file''
      (Inr (files(path \<mapsto> encoded @ [10]))))))"

definition import_devnet_test_file :: "smd_ext \<Rightarrow> string \<Rightarrow> fs \<Rightarrow> wallet result" where
  "import_devnet_test_file X path files =
     and_then (ok_or (files path) (Bail ''inspect devnet wallet file'')) (\<lambda>content.
     bail_if (4096 < length content) ''devnet wallet file exceeds 4096-byte limit''
     (and_then (json_backup_parse X content) (\<lambda>b. from_backup X b)))"

section \<open>Transactions\<close>

definition signable_of_transaction :: "transaction \<Rightarrow> signable_transaction" where
  "signable_of_transaction t = \<lparr>st_version = tx_version t, st_network_id = tx_network_id t,
     st_from = tx_from t, st_to = tx_to t, st_amount_atomic = atomic (tx_amount t),
     st_nonce = tx_nonce t, st_created_epoch = tx_created_epoch t,
     st_expiry_epoch = tx_expiry_epoch t\<rparr>"

definition tx_signing_bytes :: "smd_ext \<Rightarrow> transaction \<Rightarrow> bytes result" where
  "tx_signing_bytes X t = json_signable_transaction X (signable_of_transaction t)"

definition tx_id :: "smd_ext \<Rightarrow> transaction \<Rightarrow> string result" where
  "tx_id X t = and_then (json_transaction X t) (\<lambda>encoded. Inr (sha256_hex X encoded))"

definition tx_signed ::
    "smd_ext \<Rightarrow> wallet \<Rightarrow> address \<Rightarrow> amount \<Rightarrow> u64 \<Rightarrow> u64 \<Rightarrow> u64 \<Rightarrow> transaction result" where
  "tx_signed X w to amount nonce created_epoch expiry_epoch =
     and_then (wallet_address X w) (\<lambda>from.
     let t = \<lparr>tx_version = 1, tx_network_id = wl_network w, tx_from = address_str from,
           tx_from_public_key = public_key_hex X w, tx_to = address_str to, tx_amount = amount,
           tx_nonce = nonce, tx_created_epoch = created_epoch, tx_expiry_epoch = expiry_epoch,
           tx_signature = []\<rparr> in
     and_then (tx_signing_bytes X t) (\<lambda>payload.
     Inr (t\<lparr>tx_signature := sign_hex X (wl_signing_key w) TRANSACTION_DOMAIN payload\<rparr>)))"

definition tx_verify_signature :: "smd_ext \<Rightarrow> transaction \<Rightarrow> unit result" where
  "tx_verify_signature X t =
     bail_if (tx_version t \<noteq> 1) ''unsupported SMD transaction version''
    (bail_if (128 < length (tx_from t) \<or> 128 < length (tx_to t)) ''transaction address exceeds size limit''
    (and_then (decode_array X 32 (tx_from_public_key t) ''transaction public key'') (\<lambda>public_key.
     and_then (from_public_key X (tx_network_id t) public_key) (\<lambda>expected.
     bail_if (address_str expected \<noteq> tx_from t) ''transaction sender does not match public key''
    (and_then (tx_signing_bytes X t) (\<lambda>payload.
     verify_hex X (tx_from_public_key t) (tx_signature t) TRANSACTION_DOMAIN payload))))))"

section \<open>Contribution receipts\<close>

definition signable_of_receipt :: "contribution_receipt \<Rightarrow> signable_receipt" where
  "signable_of_receipt r = \<lparr>sr_version = cr_version r, sr_network_id = cr_network_id r,
     sr_provider_address = cr_provider_address r, sr_provider_public_key = cr_provider_public_key r,
     sr_receiver_address = cr_receiver_address r, sr_session_id = cr_session_id r,
     sr_content_hash = cr_content_hash r, sr_bytes_delivered = cr_bytes_delivered r,
     sr_service_type = cr_service_type r, sr_epoch = cr_epoch r, sr_nonce = cr_nonce r,
     sr_content_verified = cr_content_verified r\<rparr>"

definition cr_signing_bytes :: "smd_ext \<Rightarrow> contribution_receipt \<Rightarrow> bytes result" where
  "cr_signing_bytes X r = json_signable_receipt X (signable_of_receipt r)"

definition cr_id :: "smd_ext \<Rightarrow> contribution_receipt \<Rightarrow> string result" where
  "cr_id X r = and_then (json_receipt X r) (\<lambda>encoded. Inr (sha256_hex X encoded))"

definition cr_confirmed ::
    "smd_ext \<Rightarrow> wallet \<Rightarrow> wallet \<Rightarrow> string \<Rightarrow> string \<Rightarrow> u64 \<Rightarrow> service_type \<Rightarrow> u64 \<Rightarrow> u64
       \<Rightarrow> contribution_receipt result" where
  "cr_confirmed X provider receiver session content delivered service epoch nonce =
     bail_if (wl_network provider \<noteq> wl_network receiver)
       ''provider and receiver wallets belong to different networks''
     (and_then (wallet_address X provider) (\<lambda>provider_address.
      and_then (wallet_address X receiver) (\<lambda>receiver_address.
      let r = \<lparr>cr_version = 1, cr_network_id = wl_network provider,
            cr_provider_address = address_str provider_address,
            cr_provider_public_key = public_key_hex X provider,
            cr_receiver_address = address_str receiver_address,
            cr_receiver_public_key = public_key_hex X receiver,
            cr_session_id = session, cr_content_hash = content, cr_bytes_delivered = delivered,
            cr_service_type = service, cr_epoch = epoch, cr_nonce = nonce,
            cr_content_verified = True, cr_receiver_signature = []\<rparr> in
      and_then (cr_signing_bytes X r) (\<lambda>payload.
      Inr (r\<lparr>cr_receiver_signature :=
         sign_hex X (wl_signing_key receiver) CONTRIBUTION_DOMAIN payload\<rparr>)))))"

definition cr_verify :: "smd_ext \<Rightarrow> contribution_receipt \<Rightarrow> unit result" where
  "cr_verify X r =
     bail_if (cr_version r \<noteq> 1 \<or> cr_network_id r \<noteq> Devnet)
       ''unsupported contribution receipt version or network''
    (bail_if (cr_session_id r = [] \<or> 128 < length (cr_session_id r)) ''invalid contribution session id''
    (bail_if (128 < length (cr_provider_address r) \<or> 128 < length (cr_receiver_address r))
       ''contribution address exceeds size limit''
    (bail_if (cr_bytes_delivered r = 0 \<or> \<not> cr_content_verified r) ''contribution data was not verified''
    (bail_if (cr_provider_address r = cr_receiver_address r)
       ''provider may not self-confirm a contribution receipt''
    (bail_if (length (cr_content_hash r) \<noteq> 64)
       ''content hash must be a 32-byte hexadecimal SHA-256 value''
    (and_then (with_context (hex_decode X (cr_content_hash r)) ''invalid content hash'') (\<lambda>_.
     and_then (decode_array X 32 (cr_provider_public_key r) ''provider public key'') (\<lambda>provider_key.
     and_then (decode_array X 32 (cr_receiver_public_key r) ''receiver public key'') (\<lambda>receiver_key.
     and_then (from_public_key X (cr_network_id r) provider_key) (\<lambda>provider.
     bail_if (address_str provider \<noteq> cr_provider_address r)
       ''contribution address does not match public key''
    (and_then (from_public_key X (cr_network_id r) receiver_key) (\<lambda>receiver.
     bail_if (address_str receiver \<noteq> cr_receiver_address r)
       ''contribution address does not match public key''
    (and_then (cr_signing_bytes X r) (\<lambda>payload.
     verify_hex X (cr_receiver_public_key r) (cr_receiver_signature r) CONTRIBUTION_DOMAIN payload))))))))))))))"

section \<open>What verification establishes\<close>

lemma ext_simps:
  assumes "smd_ext_ok X"
  shows "length (sha256 X b) = 32" "hex_decode X (hex_encode X b) = Inr b"
    "length (hex_encode X b) = 2 * length b" "length (ed_verifying_key X k) = 32"
    "ed_decodes_key X (ed_verifying_key X k)" "length (ed_sign X k m) = 64"
    "ed_verifies X (ed_verifying_key X k) m (ed_sign X k m)" "from_base32 X (to_base32 X p) = Inr p"
  using assms by (simp_all add: smd_ext_ok_def)

lemma ext_bech32:
  assumes "smd_ext_ok X" "length p = 20"
  obtains s where "bech32_encode X (hrp n) (to_base32 X p) Bech32 = Inr s" "length s \<le> 90"
    "\<exists>r. s = hrp n @ CHR ''1'' # r"
    "bech32_decode X s = Inr (hrp n, to_base32 X p, Bech32)"
  using assms unfolding smd_ext_ok_def by blast

lemma ext_json:
  assumes "smd_ext_ok X"
  shows "\<exists>j. json_transaction X t = Inr j \<and> json_transaction_parse X j = Inr t"
    "\<exists>j. json_signable_transaction X st = Inr j"
    "\<exists>j. json_receipt X r = Inr j \<and> json_receipt_parse X j = Inr r" "\<exists>j. json_signable_receipt X sr = Inr j"
    "\<exists>j. json_backup_pretty X b = Inr j \<and> json_backup_parse X (j @ [10]) = Inr b \<and>
       (length (wb_kind b) + length (wb_address b) + length (wb_private_key_hex b) \<le> 256
          \<longrightarrow> length j < 4096)"
  using assms by (simp_all add: smd_ext_ok_def is_ok_iff)

lemma decode_array_encode:
  "smd_ext_ok X \<Longrightarrow> length b = n \<Longrightarrow> decode_array X n (hex_encode X b) label = Inr b"
  by (simp add: decode_array_def ext_simps with_context_def)

lemma decode_array_Inr:
  "decode_array X n s label = Inr b \<longleftrightarrow> length s \<le> n * 2 \<and> hex_decode X s = Inr b \<and> length b = n"
  by (auto simp: decode_array_def with_context_def split: sum.splits)

lemma verify_hex_Inr:
  "verify_hex X pk s domain payload = Inr () \<longleftrightarrow>
     (\<exists>key sig. decode_array X 32 pk ''public key'' = Inr key \<and>
        decode_array X 64 s ''signature'' = Inr sig \<and> ed_decodes_key X key \<and>
        ed_verifies X key (domain @ payload) sig)"
  by (auto simp: verify_hex_def domain_message_def)

lemma verify_sign_hex:
  assumes "smd_ext_ok X"
  shows "verify_hex X (hex_encode X (ed_verifying_key X k)) (sign_hex X k domain payload) domain payload
    = Inr ()"
  using assms
  by (auto simp: verify_hex_Inr sign_hex_def domain_message_def decode_array_encode ext_simps)

text \<open>An address derived from a key is short, and parses only for its own network.\<close>

lemma from_public_key_ok:
  assumes "smd_ext_ok X"
  obtains s where "from_public_key X n pk = Inr (Address s)" "length s \<le> 90"
    "s \<noteq> PERMANENT_RESERVE_ADDRESS"
    "bech32_decode X s = Inr (hrp n, to_base32 X (take 20 (sha256 X pk)), Bech32)"
proof -
  have "length (take 20 (sha256 X pk)) = 20" by (simp add: ext_simps [OF assms])
  then obtain s where "bech32_encode X (hrp n) (to_base32 X (take 20 (sha256 X pk))) Bech32 = Inr s"
    "length s \<le> 90" "\<exists>r. s = hrp n @ CHR ''1'' # r"
    "bech32_decode X s = Inr (hrp n, to_base32 X (take 20 (sha256 X pk)), Bech32)"
    by (rule ext_bech32 [OF assms, of _ n])
  moreover from this(3) have "s \<noteq> PERMANENT_RESERVE_ADDRESS"
    by (cases n) (auto simp: hrp_def PERMANENT_RESERVE_ADDRESS_def)
  ultimately show ?thesis by (intro that [of s]) (simp_all add: from_public_key_def)
qed

lemma hrp_eq [simp]: "hrp m = hrp n \<longleftrightarrow> m = n"
  by (cases m; cases n) (simp_all add: hrp_def)

end
