(* ===== verification/Smd_Store.thy ===== *)
theory Smd_Store
  imports Smd_Identity "HOL-Library.List_Lexorder" "HOL-Library.Char_ord"
begin

text \<open>
  The ledger's database, as the schema of \<open>Ledger::initialize\<close> declares it
  (\<open>crates/smd-core/src/ledger.rs\<close>): one row record per table, a table the list of its rows
  in rowid order, INTEGER columns as \<open>int\<close>. An INSERT checks the CHECK, PRIMARY KEY and
  UNIQUE clauses of its table and fails with \<open>Constraint\<close>; SUM fails when a partial sum
  leaves the 64-bit range. Disk and locking errors of SQLite are not modelled. The locale
  \<open>keyed_store\<close> states what the ledger relies on when it moves balances between rows; it is
  interpreted on the accounts table.
\<close>

section \<open>Conversions\<close>

definition sql_u64 :: "u64 \<Rightarrow> int result" where
  "sql_u64 v = (if int (unat v) \<le> i64_max then Inr (int (unat v))
     else Inl (Bail ''value exceeds SQLite integer range''))"

definition u64_from_sql :: "int \<Rightarrow> string \<Rightarrow> u64 result" where
  "u64_from_sql v label = (if 0 \<le> v then Inr (word_of_int v)
     else Inl (Bail (''negative '' @ label @ '' in ledger'')))"

definition amount_to_sql :: "amount \<Rightarrow> int result" where
  "amount_to_sql a = (if int (units a) \<le> i64_max then Inr (int (units a))
     else Inl (Bail ''SMD amount exceeds SQLite integer range''))"

definition amount_from_sql :: "int \<Rightarrow> amount result" where
  "amount_from_sql v = and_then (u64_from_sql v ''SMD amount'') (\<lambda>n. Inr (from_atomic n))"

text \<open>A column read as \<open>i64\<close> and \<open>COUNT( * )\<close> read as \<open>u32\<close>.\<close>

definition count_u32 :: "nat \<Rightarrow> u32 result" where
  "count_u32 n = (if n < 2 ^ 32 then Inr (word_of_nat n) else Inl (Foreign ''rusqlite''))"

definition count_u64 :: "nat \<Rightarrow> u64 result" where
  "count_u64 n = (if int n \<le> i64_max then Inr (word_of_nat n) else Inl (Foreign ''rusqlite''))"

definition sql_sum :: "int list \<Rightarrow> int result" where
  "sql_sum vs = try_fold (\<lambda>acc v. if - i64_max - 1 \<le> acc + v \<and> acc + v \<le> i64_max then Inr (acc + v)
     else Inl (Foreign ''sqlite integer overflow'')) 0 vs"

section \<open>Rows\<close>

record account_row =
  ac_address :: string
  ac_balance :: int
  ac_nonce :: int
  ac_public_key :: "string option"

record transaction_row =
  tr_id :: string
  tr_json :: bytes
  tr_from :: string
  tr_to :: string
  tr_amount :: int
  tr_nonce :: int
  tr_epoch :: int

record epoch_row =
  ep_epoch :: int
  ep_receipts_processed :: int
  ep_subsidy :: int

datatype receipt_status = Pending | Rewarded

record receipt_row =
  rr_id :: string
  rr_session_id :: string
  rr_provider :: string
  rr_receiver :: string
  rr_content_hash :: string
  rr_epoch :: int
  rr_nonce :: int
  rr_json :: bytes
  rr_score :: int
  rr_subsidy :: int
  rr_fee :: int
  rr_phase :: "int option"
  rr_status :: receipt_status

record supply_row =
  sp_minted :: int
  sp_emitted :: int
  sp_reserve :: int
  sp_circulating :: int

record ledger_db =
  db_metadata :: "(string \<times> string) list"
  db_accounts :: "account_row list"
  db_transactions :: "transaction_row list"
  db_epochs :: "epoch_row list"
  db_receipts :: "receipt_row list"
  db_supply :: "supply_row option"

definition empty_db :: ledger_db where
  "empty_db = \<lparr>db_metadata = [], db_accounts = [], db_transactions = [], db_epochs = [],
     db_receipts = [], db_supply = None\<rparr>"

section \<open>Statements\<close>

definition find_account :: "string \<Rightarrow> account_row list \<Rightarrow> account_row option" where
  "find_account a t = find (\<lambda>r. ac_address r = a) t"

definition account_row_ok :: "account_row \<Rightarrow> bool" where
  "account_row_ok r \<longleftrightarrow> 0 \<le> ac_balance r \<and> 0 \<le> ac_nonce r"

text \<open>\<open>UPDATE accounts SET ... WHERE address = a\<close>, with the table's CHECK clauses.\<close>

definition update_account ::
    "string \<Rightarrow> (account_row \<Rightarrow> account_row) \<Rightarrow> account_row list \<Rightarrow> account_row list result" where
  "update_account a f t =
     try_map (\<lambda>r. if ac_address r \<noteq> a then Inr r
       else if account_row_ok (f r) then Inr (f r) else Inl (Constraint ''accounts'')) t"

text \<open>\<open>INSERT INTO accounts ... ON CONFLICT(address) DO UPDATE SET ...\<close>.\<close>

definition upsert_account ::
    "account_row \<Rightarrow> (account_row \<Rightarrow> account_row) \<Rightarrow> account_row list \<Rightarrow> account_row list result" where
  "upsert_account row f t =
     (if \<not> account_row_ok row then Inl (Constraint ''accounts'')
      else if find_account (ac_address row) t = None then Inr (t @ [row])
      else update_account (ac_address row) f t)"

definition insert_transaction :: "transaction_row \<Rightarrow> transaction_row list \<Rightarrow> transaction_row list result" where
  "insert_transaction row t =
     (if tr_amount row \<le> 0 \<or> tr_nonce row < 0 \<or> tr_epoch row < 0
         \<or> (\<exists>r \<in> set t. tr_id r = tr_id row \<or> (tr_from r = tr_from row \<and> tr_nonce r = tr_nonce row))
      then Inl (Constraint ''transactions'') else Inr (t @ [row]))"

definition insert_receipt :: "receipt_row \<Rightarrow> receipt_row list \<Rightarrow> receipt_row list result" where
  "insert_receipt row t =
     (if rr_epoch row < 0 \<or> rr_nonce row < 0 \<or> rr_score row < 0 \<or> rr_subsidy row < 0 \<or> rr_fee row < 0
         \<or> (\<exists>r \<in> set t. rr_id r = rr_id row \<or> rr_session_id r = rr_session_id row
             \<or> (rr_provider r = rr_provider row \<and> rr_receiver r = rr_receiver row \<and> rr_nonce r = rr_nonce row))
      then Inl (Constraint ''reward_receipts'') else Inr (t @ [row]))"

definition upsert_epoch :: "epoch_row \<Rightarrow> epoch_row list \<Rightarrow> epoch_row list result" where
  "upsert_epoch row t =
     (if ep_epoch row < 0 \<or> ep_receipts_processed row < 0 \<or> ep_subsidy row < 0
      then Inl (Constraint ''epochs'')
      else if \<exists>r \<in> set t. ep_epoch r = ep_epoch row then
        Inr (map (\<lambda>r. if ep_epoch r = ep_epoch row then
            r\<lparr>ep_receipts_processed := ep_receipts_processed r + ep_receipts_processed row,
              ep_subsidy := ep_subsidy r + ep_subsidy row\<rparr> else r) t)
      else Inr (t @ [row]))"

text \<open>\<open>INSERT OR IGNORE\<close> of a metadata entry, of an account and of the supply row.\<close>

definition insert_or_ignore_meta :: "string \<Rightarrow> string \<Rightarrow> (string \<times> string) list \<Rightarrow> (string \<times> string) list" where
  "insert_or_ignore_meta k v t = (if \<exists>r \<in> set t. fst r = k then t else t @ [(k, v)])"

definition insert_or_ignore_account :: "account_row \<Rightarrow> account_row list \<Rightarrow> account_row list" where
  "insert_or_ignore_account row t =
     (if find_account (ac_address row) t \<noteq> None \<or> \<not> account_row_ok row then t else t @ [row])"

section \<open>The keyed store\<close>

text \<open>
  What moving balances between rows relies on: a row is found under its key after it was put,
  other rows are untouched, and the total changes by the row's weight.
\<close>

locale keyed_store =
  fixes key :: "'r \<Rightarrow> 'k"
    and weight :: "'r \<Rightarrow> int"
    and store_ok :: "'t \<Rightarrow> bool"
    and lookup_row :: "'k \<Rightarrow> 't \<Rightarrow> 'r option"
    and put_row :: "'r \<Rightarrow> 't \<Rightarrow> 't"
    and total :: "'t \<Rightarrow> int"
  assumes lookup_key: "store_ok t \<Longrightarrow> lookup_row k t = Some r \<Longrightarrow> key r = k"
    and lookup_put: "store_ok t \<Longrightarrow> lookup_row k (put_row r t) = (if k = key r then Some r else lookup_row k t)"
    and put_ok: "store_ok t \<Longrightarrow> store_ok (put_row r t)"
    and total_put: "store_ok t \<Longrightarrow> total (put_row r t) =
       total t - (case lookup_row (key r) t of None \<Rightarrow> 0 | Some q \<Rightarrow> weight q) + weight r"
begin

definition weight_at :: "'k \<Rightarrow> 't \<Rightarrow> int" where
  "weight_at k t = (case lookup_row k t of None \<Rightarrow> 0 | Some q \<Rightarrow> weight q)"

lemma weight_at_put:
  "store_ok t \<Longrightarrow> weight_at k (put_row r t) = (if k = key r then weight r else weight_at k t)"
  by (simp add: weight_at_def lookup_put)

lemma deposit:
  "store_ok t \<Longrightarrow> weight r = weight_at (key r) t + x \<Longrightarrow> total (put_row r t) = total t + x"
  by (simp add: total_put weight_at_def)

lemma transfer_conserves:
  assumes "store_ok t" "key a \<noteq> key b"
    and "weight a = weight_at (key a) t - x" "weight b = weight_at (key b) t + x"
  shows "total (put_row b (put_row a t)) = total t"
proof -
  have "total (put_row a t) = total t - x" using deposit [of t a "- x"] assms(1,3) by simp
  moreover have "weight_at (key b) (put_row a t) = weight_at (key b) t"
    using assms(1,2) by (simp add: weight_at_put)
  ultimately show ?thesis
    using deposit [of "put_row a t" b x] assms(1,4) put_ok by simp
qed

lemma transfer_other:
  "store_ok t \<Longrightarrow> k \<noteq> key a \<Longrightarrow> k \<noteq> key b \<Longrightarrow>
     lookup_row k (put_row b (put_row a t)) = lookup_row k t"
  by (simp add: lookup_put put_ok)

end

definition accounts_ok :: "account_row list \<Rightarrow> bool" where
  "accounts_ok t \<longleftrightarrow> distinct (map ac_address t)"

definition put_account :: "account_row \<Rightarrow> account_row list \<Rightarrow> account_row list" where
  "put_account r t = (if find_account (ac_address r) t = None then t @ [r]
     else map (\<lambda>q. if ac_address q = ac_address r then r else q) t)"

definition accounts_total :: "account_row list \<Rightarrow> int" where
  "accounts_total t = sum_list (map ac_balance t)"

lemma find_account_Nil [simp]: "find_account a [] = None"
  and find_account_Cons [simp]:
    "find_account a (r # t) = (if ac_address r = a then Some r else find_account a t)"
  by (simp_all add: find_account_def)

lemma find_account_append:
  "find_account a (t @ u) = (case find_account a t of None \<Rightarrow> find_account a u | Some r \<Rightarrow> Some r)"
  unfolding find_account_def by (rule find_append)

lemma find_account_None: "find_account a t = None \<longleftrightarrow> a \<notin> ac_address ` set t"
  by (induction t) auto

lemma find_account_Some: "find_account a t = Some r \<Longrightarrow> r \<in> set t \<and> ac_address r = a"
  by (induction t) (auto split: if_splits)

lemma find_account_map:
  "find_account k (map (\<lambda>q. if ac_address q = ac_address r then r else q) t) =
     (if k = ac_address r then (if find_account k t = None then None else Some r) else find_account k t)"
  by (induction t) auto

lemma map_put_address:
  "map ac_address (map (\<lambda>q. if ac_address q = ac_address r then r else q) t) = map ac_address t"
  by (induction t) auto

lemma map_put_id:
  "ac_address r \<notin> ac_address ` set t \<Longrightarrow> map (\<lambda>q. if ac_address q = ac_address r then r else q) t = t"
  by (induction t) auto

lemma total_map_put:
  "distinct (map ac_address t) \<Longrightarrow> find_account (ac_address r) t = Some q \<Longrightarrow>
     accounts_total (map (\<lambda>q. if ac_address q = ac_address r then r else q) t) =
       accounts_total t - ac_balance q + ac_balance r"
proof (induction t)
  case Nil
  then show ?case by simp
next
  case (Cons p t)
  then show ?case
    using map_put_id [of r t] by (auto simp: accounts_total_def simp del: map_map split: if_splits)
qed

interpretation accounts: keyed_store ac_address ac_balance accounts_ok find_account put_account accounts_total
proof (unfold_locales, goal_cases)
  case (1 t k r)
  then show ?case by (simp add: find_account_Some)
next
  case (2 t k r)
  show ?case
    by (auto simp: put_account_def find_account_append find_account_map split: option.splits)
next
  case (3 t r)
  then show ?case
    by (auto simp: accounts_ok_def put_account_def find_account_None simp del: map_map
        simp: map_put_address)
next
  case (4 t r)
  show ?case
  proof (cases "find_account (ac_address r) t")
    case None
    then show ?thesis by (simp add: put_account_def accounts_total_def)
  next
    case (Some q)
    then show ?thesis
      using 4 total_map_put [of t r q] by (simp add: put_account_def accounts_ok_def)
  qed
qed

text \<open>The statements are puts, on a table whose addresses are unique.\<close>

lemma update_account_Inr:
  assumes "accounts_ok t" "find_account a t = Some q" "ac_address (f q) = a"
  shows "update_account a f t = Inr u \<longleftrightarrow> account_row_ok (f q) \<and> u = put_account (f q) t"
proof -
  have "update_account a f t = Inr u \<longleftrightarrow>
      account_row_ok (f q) \<and> u = map (\<lambda>p. if ac_address p = a then f q else p) t"
    if "distinct (map ac_address t)" "find_account a t = Some q" for t u
    using that
  proof (induction t arbitrary: u)
    case Nil
    then show ?case by simp
  next
    case (Cons p t)
    show ?case
    proof (cases "ac_address p = a")
      case True
      with Cons.prems have "a \<notin> ac_address ` set t" "p = q" by auto
      then have "try_map (\<lambda>r. if ac_address r \<noteq> a then Inr r
          else if account_row_ok (f r) then Inr (f r) else Inl (Constraint ''accounts'')) t = Inr t"
        "map (\<lambda>p. if ac_address p = a then f q else p) t = t"
        by (induction t) auto
      with True \<open>p = q\<close> show ?thesis by (auto simp: update_account_def)
    next
      case False
      with Cons have "update_account a f t = Inr v \<longleftrightarrow>
          account_row_ok (f q) \<and> v = map (\<lambda>p. if ac_address p = a then f q else p) t" for v
        by auto
      with False show ?thesis by (auto simp: update_account_def)
    qed
  qed
  with assms show ?thesis by (simp add: put_account_def accounts_ok_def)
qed

lemma update_account_absent:
  "find_account a t = None \<Longrightarrow> update_account a f t = Inr t"
  by (induction t) (auto simp: update_account_def split: if_splits)

lemma upsert_account_Inr:
  assumes "accounts_ok t" "\<And>q. ac_address (f q) = ac_address q"
  shows "upsert_account row f t = Inr u \<longleftrightarrow> account_row_ok row \<and>
    (case find_account (ac_address row) t of
       None \<Rightarrow> u = put_account row t
     | Some q \<Rightarrow> account_row_ok (f q) \<and> u = put_account (f q) t)"
proof (cases "find_account (ac_address row) t")
  case None
  then show ?thesis by (auto simp: upsert_account_def put_account_def)
next
  case (Some q)
  then have "ac_address (f q) = ac_address row" by (simp add: assms(2) find_account_Some)
  with Some show ?thesis
    using update_account_Inr [OF assms(1), of "ac_address row" q f u] by (auto simp: upsert_account_def)
qed

end
