(* ===== verification/Smd_Ledger.thy ===== *)
theory Smd_Ledger
  imports Smd_Store "HOL-Library.Multiset"
begin

text \<open>
  The operations of \<open>Ledger\<close> (\<open>crates/smd-core/src/ledger.rs\<close>) and the devnet consensus of
  \<open>consensus.rs\<close>. Every operation runs in one SQL transaction: its model takes the database
  and returns the committed one, or an error, and then the database is unchanged.
\<close>

section \<open>Records\<close>

record ledger =
  lg_db :: ledger_db
  lg_network :: network_id
  lg_anti_fraud :: anti_fraud_policy

record account =
  acc_address :: string
  acc_balance :: amount
  acc_nonce :: u64

record ledger_status =
  ls_protocol_version :: u32
  ls_network_id :: network_id
  ls_accounts :: u64
  ls_transactions :: u64
  ls_contribution_receipts :: u64
  ls_pending_receipts :: u64
  ls_supply :: supply_state

record transaction_record =
  trec_id :: string
  trec_transaction :: transaction
  trec_accepted_epoch :: u64

record reward_receipt_record =
  rrec_id :: string
  rrec_receipt :: contribution_receipt
  rrec_score_bytes :: u64
  rrec_protocol_subsidy :: amount
  rrec_user_resource_fee :: amount
  rrec_status :: receipt_status

record reward_summary =
  rs_epoch :: u64
  rs_receipts_processed :: u64
  rs_total_score_bytes :: u64
  rs_protocol_subsidy :: amount
  rs_user_resource_fees :: amount
  rs_emission_phase :: u32

definition MAX_SERIALIZED_RECEIPT_BYTES :: nat where
  "MAX_SERIALIZED_RECEIPT_BYTES = 16 * 1024"

section \<open>The supply row and the account sum\<close>

definition supply_from_sql :: "supply_row \<Rightarrow> supply_state result" where
  "supply_from_sql r =
     and_then (amount_from_sql (sp_minted r)) (\<lambda>minted.
     and_then (amount_from_sql (sp_emitted r)) (\<lambda>emitted.
     and_then (amount_from_sql (sp_reserve r)) (\<lambda>reserve.
     and_then (amount_from_sql (sp_circulating r)) (\<lambda>circulating.
     let st = \<lparr>minted_supply = minted, network_emitted_supply = emitted,
       reserve_balance = reserve, circulating_supply = circulating\<rparr> in
     and_then (supply_validate st) (\<lambda>_. Inr st)))))"

definition read_supply :: "ledger_db \<Rightarrow> supply_state result" where
  "read_supply db = and_then (ok_or (db_supply db) (Foreign ''rusqlite'')) supply_from_sql"

definition write_supply :: "supply_state \<Rightarrow> ledger_db \<Rightarrow> ledger_db result" where
  "write_supply st db =
     and_then (supply_validate st) (\<lambda>_.
     and_then (amount_to_sql (minted_supply st)) (\<lambda>minted.
     and_then (amount_to_sql (network_emitted_supply st)) (\<lambda>emitted.
     and_then (amount_to_sql (reserve_balance st)) (\<lambda>reserve.
     and_then (amount_to_sql (circulating_supply st)) (\<lambda>circulating.
     Inr (db\<lparr>db_supply := map_option (\<lambda>_. \<lparr>sp_minted = minted, sp_emitted = emitted,
       sp_reserve = reserve, sp_circulating = circulating\<rparr>) (db_supply db)\<rparr>))))))"

definition account_sum :: "ledger_db \<Rightarrow> amount result" where
  "account_sum db = and_then (sql_sum (map ac_balance (db_accounts db))) amount_from_sql"

definition verify_account_sum :: "amount \<Rightarrow> ledger_db \<Rightarrow> unit result" where
  "verify_account_sum expected db = and_then (account_sum db) (\<lambda>sum.
     bail_if (sum \<noteq> expected) ''transaction would violate supply conservation'' (Inr ()))"

section \<open>Reading\<close>

definition ledger_account :: "ledger \<Rightarrow> address \<Rightarrow> account result" where
  "ledger_account L a =
     (let (balance, nonce) = (case find_account (address_str a) (db_accounts (lg_db L)) of
            None \<Rightarrow> (0, 0) | Some r \<Rightarrow> (ac_balance r, ac_nonce r)) in
      and_then (amount_from_sql balance) (\<lambda>balance.
      and_then (u64_from_sql nonce ''account nonce'') (\<lambda>nonce.
      Inr \<lparr>acc_address = address_str a, acc_balance = balance, acc_nonce = nonce\<rparr>)))"

definition count_table :: "ledger_db \<Rightarrow> string \<Rightarrow> u64 result" where
  "count_table db tab =
     (if tab = ''accounts'' then count_u64 (length (db_accounts db))
      else if tab = ''transactions'' then count_u64 (length (db_transactions db))
      else if tab = ''reward_receipts'' then count_u64 (length (db_receipts db))
      else Inl (Bail ''invalid internal table name''))"

definition ledger_status :: "ledger \<Rightarrow> ledger_status result" where
  "ledger_status L = (let db = lg_db L in
     and_then (count_table db ''accounts'') (\<lambda>accounts.
     and_then (count_table db ''transactions'') (\<lambda>transactions.
     and_then (count_table db ''reward_receipts'') (\<lambda>receipts.
     and_then (count_u64 (length (filter (\<lambda>r. rr_status r = Pending) (db_receipts db)))) (\<lambda>pending.
     and_then (read_supply db) (\<lambda>supply.
     Inr \<lparr>ls_protocol_version = 1, ls_network_id = lg_network L, ls_accounts = accounts,
       ls_transactions = transactions, ls_contribution_receipts = receipts,
       ls_pending_receipts = pending, ls_supply = supply\<rparr>))))))"

definition verify_invariants :: "ledger \<Rightarrow> unit result" where
  "verify_invariants L =
     and_then (read_supply (lg_db L)) (\<lambda>supply.
     and_then (supply_validate supply) (\<lambda>_.
     and_then (ledger_account L reserve_address) (\<lambda>acc.
     let reserve = acc_balance acc in
     bail_if (reserve \<noteq> reserve_balance supply \<or> reserve < GENESIS_RESERVE)
       ''permanent reserve invariant failed''
    (and_then (account_sum (lg_db L)) (\<lambda>sum.
     bail_if (sum \<noteq> minted_supply supply) ''account balances do not equal minted supply''
    (Inr ()))))))"

text \<open>The listings read the newest rows first, at most \<open>min limit 1000\<close> of them.\<close>

definition ledger_transactions :: "smd_ext \<Rightarrow> ledger \<Rightarrow> u32 \<Rightarrow> transaction_record list result" where
  "ledger_transactions X L limit =
     try_map (\<lambda>r.
       and_then (json_transaction_parse X (tr_json r)) (\<lambda>t.
       and_then (u64_from_sql (tr_epoch r) ''accepted epoch'') (\<lambda>epoch.
       Inr \<lparr>trec_id = tr_id r, trec_transaction = t, trec_accepted_epoch = epoch\<rparr>)))
     (take (min (unat limit) 1000) (rev (db_transactions (lg_db L))))"

definition ledger_reward_receipts :: "smd_ext \<Rightarrow> ledger \<Rightarrow> u32 \<Rightarrow> reward_receipt_record list result" where
  "ledger_reward_receipts X L limit =
     try_map (\<lambda>r.
       and_then (json_receipt_parse X (rr_json r)) (\<lambda>receipt.
       and_then (u64_from_sql (rr_score r) ''contribution score'') (\<lambda>score.
       and_then (amount_from_sql (rr_subsidy r)) (\<lambda>subsidy.
       and_then (amount_from_sql (rr_fee r)) (\<lambda>fee.
       Inr \<lparr>rrec_id = rr_id r, rrec_receipt = receipt, rrec_score_bytes = score,
         rrec_protocol_subsidy = subsidy, rrec_user_resource_fee = fee,
         rrec_status = rr_status r\<rparr>)))))
     (take (min (unat limit) 1000) (rev (db_receipts (lg_db L))))"

section \<open>Opening\<close>

definition initialize_db :: "network_id \<Rightarrow> ledger_db \<Rightarrow> ledger_db result" where
  "initialize_db network db =
     (let db = db\<lparr>db_metadata := insert_or_ignore_meta ''network_id'' (network_as_str network)
                 (insert_or_ignore_meta ''schema_version'' ''1'' (db_metadata db))\<rparr> in
      and_then (ok_or (map_of (db_metadata db) ''network_id'') (Foreign ''rusqlite'')) (\<lambda>stored_network.
      bail_if (stored_network \<noteq> network_as_str network) ''ledger belongs to another network''
      (and_then (amount_to_sql GENESIS_RESERVE) (\<lambda>genesis_reserve.
       let db = db\<lparr>db_accounts := insert_or_ignore_account
             \<lparr>ac_address = address_str reserve_address, ac_balance = genesis_reserve, ac_nonce = 0,
              ac_public_key = None\<rparr> (db_accounts db)\<rparr>;
           genesis = supply_genesis in
       and_then (amount_to_sql (minted_supply genesis)) (\<lambda>minted.
       and_then (amount_to_sql (network_emitted_supply genesis)) (\<lambda>emitted.
       and_then (amount_to_sql (reserve_balance genesis)) (\<lambda>reserve.
       and_then (amount_to_sql (circulating_supply genesis)) (\<lambda>circulating.
       Inr (db\<lparr>db_supply := (case db_supply db of
           None \<Rightarrow> Some \<lparr>sp_minted = minted, sp_emitted = emitted, sp_reserve = reserve,
             sp_circulating = circulating\<rparr>
         | Some r \<Rightarrow> Some r)\<rparr>)))))))))"

definition ledger_open :: "ledger_db \<Rightarrow> network_id \<Rightarrow> ledger result" where
  "ledger_open db network =
     bail_if (network \<noteq> Devnet) ''SMD v0.1 enables only devnet''
     (and_then (initialize_db network db) (\<lambda>db.
      let L = \<lparr>lg_db = db, lg_network = network, lg_anti_fraud = default_anti_fraud\<rparr> in
      and_then (verify_invariants L) (\<lambda>_. Inr L)))"

section \<open>Transactions\<close>

definition apply_transaction ::
    "smd_ext \<Rightarrow> network_id \<Rightarrow> transaction \<Rightarrow> u64 \<Rightarrow> ledger_db \<Rightarrow> (ledger_db \<times> string) result" where
  "apply_transaction X network t epoch db =
     bail_if (tx_network_id t \<noteq> network) ''transaction belongs to another network''
    (and_then (tx_verify_signature X t) (\<lambda>_.
     and_then (parse_for_network X (tx_from t) network) (\<lambda>from.
     and_then (parse_for_network X (tx_to t) network) (\<lambda>to.
     bail_if (is_reserve from) ''permanent reserve may never be a transaction sender''
    (bail_if (from = to) ''self-transfers are not accepted''
    (bail_if (tx_amount t = ZERO) ''transaction amount must be greater than zero''
    (bail_if (tx_created_epoch t > epoch \<or> tx_expiry_epoch t < epoch)
       ''transaction is not valid in the current epoch''
    (and_then (ok_or (find_account (address_str from) (db_accounts db))
        (Bail ''transaction sender does not exist'')) (\<lambda>sender.
     and_then (amount_from_sql (ac_balance sender)) (\<lambda>sender_balance.
     and_then (u64_from_sql (ac_nonce sender) ''sender nonce'') (\<lambda>sender_nonce.
     bail_if (sender_nonce \<noteq> tx_nonce t) ''incorrect transaction nonce''
    (bail_if (case ac_public_key sender of None \<Rightarrow> False | Some key \<Rightarrow> key \<noteq> tx_from_public_key t)
       ''sender public key does not match registered account key''
    (and_then (amount_sub sender_balance (tx_amount t)) (\<lambda>new_sender_balance.
     and_then (ok_or (checked_add sender_nonce 1) (Bail ''account nonce overflow'')) (\<lambda>new_nonce.
     and_then (transpose_opt (map_option (\<lambda>r. amount_from_sql (ac_balance r))
        (find_account (address_str to) (db_accounts db)))) (\<lambda>receiver.
     let receiver_balance = (case receiver of None \<Rightarrow> ZERO | Some b \<Rightarrow> b) in
     and_then (amount_add receiver_balance (tx_amount t)) (\<lambda>new_receiver_balance.
     and_then (tx_id X t) (\<lambda>transaction_id.
     and_then (json_transaction X t) (\<lambda>json.
     bail_if (16 * 1024 < length json) ''transaction exceeds size limit''
    (and_then (amount_to_sql (tx_amount t)) (\<lambda>amount_sql.
     and_then (sql_u64 (tx_nonce t)) (\<lambda>nonce_sql.
     and_then (sql_u64 epoch) (\<lambda>epoch_sql.
     and_then (insert_transaction \<lparr>tr_id = transaction_id, tr_json = json, tr_from = address_str from,
        tr_to = address_str to, tr_amount = amount_sql, tr_nonce = nonce_sql, tr_epoch = epoch_sql\<rparr>
        (db_transactions db)) (\<lambda>transactions.
     and_then (amount_to_sql new_sender_balance) (\<lambda>sender_sql.
     and_then (sql_u64 new_nonce) (\<lambda>new_nonce_sql.
     and_then (update_account (address_str from)
        (\<lambda>r. r\<lparr>ac_balance := sender_sql, ac_nonce := new_nonce_sql,
           ac_public_key := (case ac_public_key r of None \<Rightarrow> Some (tx_from_public_key t) | Some k \<Rightarrow> Some k)\<rparr>)
        (db_accounts db)) (\<lambda>accounts.
     and_then (amount_to_sql new_receiver_balance) (\<lambda>receiver_sql.
     and_then (upsert_account \<lparr>ac_address = address_str to, ac_balance = receiver_sql, ac_nonce = 0,
        ac_public_key = None\<rparr> (\<lambda>r. r\<lparr>ac_balance := receiver_sql\<rparr>) accounts) (\<lambda>accounts.
     let db = db\<lparr>db_transactions := transactions, db_accounts := accounts\<rparr> in
     and_then (if is_reserve to then
        and_then (read_supply db) (\<lambda>prior.
        and_then (amount_add (reserve_balance prior) (tx_amount t)) (\<lambda>reserve.
        and_then (from_components (network_emitted_supply prior) reserve) (\<lambda>st.
        write_supply st db)))
       else Inr db) (\<lambda>db.
     Inr (db, transaction_id)))))))))))))))))))))))))))))))"

definition submit_transactions_atomically ::
    "smd_ext \<Rightarrow> ledger \<Rightarrow> transaction list \<Rightarrow> u64 \<Rightarrow> (ledger \<times> string list) result" where
  "submit_transactions_atomically X L transactions epoch =
     (if transactions = [] then Inr (L, [])
      else
       and_then (read_supply (lg_db L)) (\<lambda>prior.
       and_then (try_fold (\<lambda>(db, ids) t.
           and_then (apply_transaction X (lg_network L) t epoch db) (\<lambda>(db, i). Inr (db, ids @ [i])))
         (lg_db L, []) transactions) (\<lambda>(db, ids).
       and_then (read_supply db) (\<lambda>after.
       bail_if (reserve_balance after < reserve_balance prior)
         ''permanent reserve balance may never decrease''
      (and_then (supply_validate after) (\<lambda>_.
       and_then (verify_account_sum (minted_supply after) db) (\<lambda>_.
       Inr (L\<lparr>lg_db := db\<rparr>, ids))))))))"

definition submit_transaction :: "smd_ext \<Rightarrow> ledger \<Rightarrow> transaction \<Rightarrow> u64 \<Rightarrow> (ledger \<times> string) result" where
  "submit_transaction X L t epoch =
     and_then (submit_transactions_atomically X L [t] epoch) (\<lambda>(L, ids). Inr (L, hd ids))"

section \<open>Contributions and rewards\<close>

definition submit_contribution :: "smd_ext \<Rightarrow> ledger \<Rightarrow> contribution_receipt \<Rightarrow> (ledger \<times> string) result" where
  "submit_contribution X L r =
     and_then (cr_verify X r) (\<lambda>_.
     bail_if (cr_network_id r \<noteq> lg_network L) ''contribution receipt belongs to another network''
    (and_then (json_receipt X r) (\<lambda>json.
     bail_if (MAX_SERIALIZED_RECEIPT_BYTES < length json) ''contribution receipt exceeds size limit''
    (and_then (cr_id X r) (\<lambda>receipt_id.
     let rows = db_receipts (lg_db L) in
     and_then (sql_u64 (cr_epoch r)) (\<lambda>epoch_sql.
     let pair = filter (\<lambda>q. rr_provider q = cr_provider_address r
           \<and> rr_receiver q = cr_receiver_address r \<and> rr_epoch q = epoch_sql) rows in
     and_then (count_u32 (length pair)) (\<lambda>prior_pair.
     and_then (count_u32 (length (filter (\<lambda>q. rr_content_hash q = cr_content_hash r) pair)))
       (\<lambda>prior_content.
     and_then (anti_fraud_score (lg_anti_fraud L) (cr_bytes_delivered r) (cr_service_type r)
        prior_pair prior_content) (\<lambda>score.
     and_then (sql_u64 (cr_nonce r)) (\<lambda>nonce_sql.
     and_then (sql_u64 score) (\<lambda>score_sql.
     and_then (insert_receipt \<lparr>rr_id = receipt_id, rr_session_id = cr_session_id r,
        rr_provider = cr_provider_address r, rr_receiver = cr_receiver_address r,
        rr_content_hash = cr_content_hash r, rr_epoch = epoch_sql, rr_nonce = nonce_sql,
        rr_json = json, rr_score = score_sql, rr_subsidy = 0, rr_fee = 0, rr_phase = None,
        rr_status = Pending\<rparr> rows) (\<lambda>rows.
     Inr (L\<lparr>lg_db := (lg_db L)\<lparr>db_receipts := rows\<rparr>\<rparr>, receipt_id)))))))))))))"

definition credit_account :: "string \<Rightarrow> string \<Rightarrow> amount \<Rightarrow> ledger_db \<Rightarrow> ledger_db result" where
  "credit_account addr public_key amount db =
     (let existing = find_account addr (db_accounts db) in
      and_then (transpose_opt (map_option (\<lambda>r. amount_from_sql (ac_balance r)) existing)) (\<lambda>b.
      and_then (amount_add (case b of None \<Rightarrow> ZERO | Some b \<Rightarrow> b) amount) (\<lambda>balance.
      bail_if (case Option.bind existing ac_public_key of None \<Rightarrow> False | Some k \<Rightarrow> k \<noteq> public_key)
        ''reward provider public key conflicts with account''
     (and_then (amount_to_sql balance) (\<lambda>balance_sql.
      and_then (upsert_account \<lparr>ac_address = addr, ac_balance = balance_sql, ac_nonce = 0,
         ac_public_key = Some public_key\<rparr>
         (\<lambda>r. r\<lparr>ac_balance := balance_sql,
            ac_public_key := (case ac_public_key r of None \<Rightarrow> Some public_key | Some k \<Rightarrow> Some k)\<rparr>)
         (db_accounts db)) (\<lambda>accounts.
      Inr (db\<lparr>db_accounts := accounts\<rparr>)))))))"

definition pending_receipts :: "smd_ext \<Rightarrow> ledger \<Rightarrow> u64 \<Rightarrow> contribution_receipt list result" where
  "pending_receipts X L epoch =
     and_then (sql_u64 epoch) (\<lambda>epoch_sql.
     try_map (\<lambda>r. json_receipt_parse X (rr_json r))
       (sort_key rr_id (filter (\<lambda>r. rr_epoch r = epoch_sql \<and> rr_status r = Pending)
          (db_receipts (lg_db L)))))"

text \<open>The variables of the loop of \<open>mine_rewards\<close>.\<close>

record mining =
  mn_db :: ledger_db
  mn_emitted :: amount
  mn_total_score :: u64
  mn_total_subsidy :: amount
  mn_total_fees :: amount
  mn_last_phase :: u32

definition mine_receipt ::
    "smd_ext \<Rightarrow> anti_fraud_policy \<Rightarrow> u64 \<Rightarrow> mining \<Rightarrow> contribution_receipt \<Rightarrow> mining result" where
  "mine_receipt X policy epoch m r =
     and_then (cr_id X r) (\<lambda>receipt_id.
     and_then (ok_or (find (\<lambda>q. rr_id q = receipt_id) (db_receipts (mn_db m))) (Foreign ''rusqlite'')) (\<lambda>row.
     bail_if (rr_status row \<noteq> Pending) ''consensus selected a non-pending contribution receipt''
    (and_then (u64_from_sql (rr_score row) ''contribution score'') (\<lambda>score.
     and_then (emission_quote score (mn_emitted m)) (\<lambda>quote.
     and_then (sql_u64 epoch) (\<lambda>epoch_sql.
     and_then (sql_sum (map rr_subsidy (filter (\<lambda>q. rr_provider q = cr_provider_address r
        \<and> rr_epoch q = epoch_sql \<and> rr_status q = Rewarded) (db_receipts (mn_db m))))) (\<lambda>already.
     and_then (amount_from_sql already) (\<lambda>already_for_address.
     and_then (amount_sub (max_protocol_reward_per_address_epoch policy) already_for_address)
       (\<lambda>address_remaining.
     let subsidy = from_atomic (min (atomic (eq_protocol_subsidy quote)) (atomic address_remaining));
         fee = user_resource_fee V01_pricing (cr_bytes_delivered r) in
     and_then (amount_add subsidy fee) (\<lambda>credit.
     and_then (credit_account (cr_provider_address r) (cr_provider_public_key r) credit (mn_db m)) (\<lambda>db.
     and_then (amount_add (mn_emitted m) subsidy) (\<lambda>emitted.
     bail_if (emitted > MAX_NETWORK_EMISSION) ''reward would exceed maximum network emission''
    (and_then (ok_or (checked_add (mn_total_score m) score)
        (Bail ''total contribution score overflow'')) (\<lambda>total_score.
     and_then (amount_add (mn_total_subsidy m) subsidy) (\<lambda>total_subsidy.
     and_then (amount_add (mn_total_fees m) fee) (\<lambda>total_fees.
     and_then (amount_to_sql subsidy) (\<lambda>subsidy_sql.
     and_then (amount_to_sql fee) (\<lambda>fee_sql.
     let rows = map (\<lambda>q. if rr_id q = receipt_id \<and> rr_status q = Pending then
           q\<lparr>rr_subsidy := subsidy_sql, rr_fee := fee_sql,
             rr_phase := Some (int (unat (eq_phase quote))), rr_status := Rewarded\<rparr> else q)
         (db_receipts db) in
     Inr \<lparr>mn_db = db\<lparr>db_receipts := rows\<rparr>, mn_emitted = emitted, mn_total_score = total_score,
       mn_total_subsidy = total_subsidy, mn_total_fees = total_fees,
       mn_last_phase = eq_phase quote\<rparr>))))))))))))))))))"

definition mine_rewards ::
    "smd_ext \<Rightarrow> (contribution_receipt list \<Rightarrow> contribution_receipt list result) \<Rightarrow> ledger \<Rightarrow> u64
       \<Rightarrow> (ledger \<times> reward_summary) result" where
  "mine_rewards X order_receipts L epoch =
     and_then (pending_receipts X L epoch) (\<lambda>pending.
     and_then (order_receipts pending) (\<lambda>receipts.
     and_then (read_supply (lg_db L)) (\<lambda>prior.
     and_then (try_fold (mine_receipt X (lg_anti_fraud L) epoch)
        \<lparr>mn_db = lg_db L, mn_emitted = network_emitted_supply prior, mn_total_score = 0,
         mn_total_subsidy = ZERO, mn_total_fees = ZERO,
         mn_last_phase = word_of_nat (emission_phase (network_emitted_supply prior))\<rparr> receipts) (\<lambda>m.
     and_then (from_components (mn_emitted m) (reserve_balance prior)) (\<lambda>after.
     and_then (write_supply after (mn_db m)) (\<lambda>db.
     and_then (sql_u64 epoch) (\<lambda>epoch_sql.
     and_then (sql_u64 (word_of_nat (length receipts))) (\<lambda>processed_sql.
     and_then (amount_to_sql (mn_total_subsidy m)) (\<lambda>subsidy_sql.
     and_then (upsert_epoch \<lparr>ep_epoch = epoch_sql, ep_receipts_processed = processed_sql,
        ep_subsidy = subsidy_sql\<rparr> (db_epochs db)) (\<lambda>epochs.
     let db = db\<lparr>db_epochs := epochs\<rparr> in
     and_then (verify_account_sum (minted_supply after) db) (\<lambda>_.
     Inr (L\<lparr>lg_db := db\<rparr>,
       \<lparr>rs_epoch = epoch, rs_receipts_processed = word_of_nat (length receipts),
        rs_total_score_bytes = mn_total_score m, rs_protocol_subsidy = mn_total_subsidy m,
        rs_user_resource_fees = mn_total_fees m, rs_emission_phase = mn_last_phase m\<rparr>))))))))))))"

text \<open>
  \<open>ConsensusEngine\<close>: what mining relies on is that the engine only reorders the receipts it
  is given.
\<close>

locale consensus_engine =
  fixes order_receipts :: "contribution_receipt list \<Rightarrow> contribution_receipt list result"
  assumes order_permutes: "order_receipts rs = Inr rs' \<Longrightarrow> mset rs' = mset rs"
begin

lemma order_set: "order_receipts rs = Inr rs' \<Longrightarrow> set rs' = set rs"
  using order_permutes by (metis set_mset_mset)

lemma order_length: "order_receipts rs = Inr rs' \<Longrightarrow> length rs' = length rs"
  using order_permutes by (metis size_mset)

end

text \<open>\<open>DevnetAuthorityConsensus\<close> sorts by receipt id, an id that cannot be computed as the empty one.\<close>

definition devnet_order :: "smd_ext \<Rightarrow> contribution_receipt list \<Rightarrow> contribution_receipt list result" where
  "devnet_order X rs = Inr (sort_key (\<lambda>r. case cr_id X r of Inl _ \<Rightarrow> [] | Inr i \<Rightarrow> i) rs)"

interpretation devnet: consensus_engine "devnet_order X" for X
  by unfold_locales (auto simp: devnet_order_def)

section \<open>Audit\<close>

text \<open>The bytes fed to the hasher: every field is preceded by its length.\<close>

definition hash_field :: "bytes \<Rightarrow> bytes \<Rightarrow> bytes" where
  "hash_field hasher field = hasher @ be_bytes 8 (length field) @ field"

definition hash_fields :: "bytes list \<Rightarrow> bytes \<Rightarrow> bytes" where
  "hash_fields fs hasher = foldl hash_field hasher fs"

definition hash_optional_field :: "string option \<Rightarrow> bytes list" where
  "hash_optional_field v = (case v of
      Some s \<Rightarrow> [as_bytes ''some'', as_bytes s]
    | None \<Rightarrow> [as_bytes ''none''])"

definition hash_optional_i64 :: "int option \<Rightarrow> bytes list" where
  "hash_optional_i64 v = (case v of
      Some i \<Rightarrow> [as_bytes ''some'', be_bytes 8 (unat (word_of_int i :: u64))]
    | None \<Rightarrow> [as_bytes ''none''])"

definition u64_field :: "int \<times> string \<Rightarrow> bytes result" where
  "u64_field p = and_then (u64_from_sql (fst p) (snd p)) (\<lambda>n. Inr (be_bytes 8 (unat n)))"

definition account_fields :: "account_row \<Rightarrow> bytes list result" where
  "account_fields r =
     and_then (try_map u64_field [(ac_balance r, ''account balance''), (ac_nonce r, ''account nonce'')])
       (\<lambda>ns. Inr (as_bytes (ac_address r) # ns @ hash_optional_field (ac_public_key r)))"

definition transaction_fields :: "transaction_row \<Rightarrow> bytes list result" where
  "transaction_fields r =
     and_then (try_map u64_field [(tr_amount r, ''transaction amount''),
        (tr_nonce r, ''transaction nonce''), (tr_epoch r, ''transaction accepted epoch'')])
       (\<lambda>ns. Inr ([as_bytes (tr_id r), tr_json r, as_bytes (tr_from r), as_bytes (tr_to r)] @ ns))"

definition status_text :: "receipt_status \<Rightarrow> string" where
  "status_text st = (case st of Pending \<Rightarrow> ''pending'' | Rewarded \<Rightarrow> ''rewarded'')"

definition receipt_fields :: "receipt_row \<Rightarrow> bytes list result" where
  "receipt_fields r =
     and_then (try_map u64_field [(rr_epoch r, ''receipt epoch''), (rr_nonce r, ''receipt nonce''),
        (rr_score r, ''receipt score''), (rr_subsidy r, ''receipt subsidy''), (rr_fee r, ''receipt fee'')])
       (\<lambda>ns. Inr ([as_bytes (rr_id r), as_bytes (rr_session_id r), as_bytes (rr_provider r),
         as_bytes (rr_receiver r), as_bytes (rr_content_hash r), rr_json r,
         as_bytes (status_text (rr_status r))] @ ns @ hash_optional_i64 (rr_phase r)))"

definition epoch_fields :: "epoch_row \<Rightarrow> bytes list result" where
  "epoch_fields r =
     try_map u64_field [(ep_epoch r, ''epoch''), (ep_receipts_processed r, ''processed receipt count''),
       (ep_subsidy r, ''epoch subsidy'')]"

definition state_fields :: "ledger \<Rightarrow> supply_state \<Rightarrow> bytes list result" where
  "state_fields L supply = (let db = lg_db L in
     and_then (try_map account_fields (sort_key ac_address (db_accounts db))) (\<lambda>accounts.
     and_then (try_map transaction_fields (sort_key tr_id (db_transactions db))) (\<lambda>transactions.
     and_then (try_map receipt_fields (sort_key rr_id (db_receipts db))) (\<lambda>receipts.
     and_then (try_map epoch_fields (sort_key ep_epoch (db_epochs db))) (\<lambda>epochs.
     Inr ([as_bytes ''ShardMeld/SMD/ledger-state/v1'' @ [0], as_bytes (network_as_str (lg_network L)),
         as_bytes ''metadata'']
       @ concat (map (\<lambda>(k, v). [as_bytes k, as_bytes v]) (sort_key fst (db_metadata db)))
       @ [as_bytes ''supply_state'']
       @ map (\<lambda>a. be_bytes 8 (units a)) [minted_supply supply, network_emitted_supply supply,
           reserve_balance supply, circulating_supply supply]
       @ [as_bytes ''accounts''] @ concat accounts
       @ [as_bytes ''transactions''] @ concat transactions
       @ [as_bytes ''reward_receipts''] @ concat receipts
       @ [as_bytes ''epochs''] @ concat epochs))))))"

record ledger_audit_report =
  ar_audit_version :: u32
  ar_network_id :: network_id
  ar_state_root_sha256 :: string
  ar_accounts :: u64
  ar_transactions :: u64
  ar_contribution_receipts :: u64
  ar_epochs :: u64
  ar_supply :: supply_state
  ar_invariants_valid :: bool

definition ledger_audit :: "smd_ext \<Rightarrow> ledger \<Rightarrow> ledger_audit_report result" where
  "ledger_audit X L =
     and_then (verify_invariants L) (\<lambda>_.
     and_then (ledger_status L) (\<lambda>st.
     and_then (state_fields L (ls_supply st)) (\<lambda>state_bytes.
     Inr \<lparr>ar_audit_version = 1, ar_network_id = lg_network L,
       ar_state_root_sha256 = sha256_hex X (hash_fields state_bytes []),
       ar_accounts = ls_accounts st, ar_transactions = ls_transactions st,
       ar_contribution_receipts = ls_contribution_receipts st,
       ar_epochs = word_of_nat (length (db_epochs (lg_db L))), ar_supply = ls_supply st,
       ar_invariants_valid = True\<rparr>)))"

end
