(* ===== verification/Smd_Ledger_Safety.thy ===== *)
theory Smd_Ledger_Safety
  imports Smd_Ledger
begin

text \<open>
  Safety of the ledger: the representation invariant \<open>ledger_rep\<close> of the database, the effect
  of each operation on balances, nonces and supply, and the preservation of the invariant by
  every operation.
\<close>

section \<open>Conversions\<close>

lemma i64_max_val [simp]: "i64_max = 9223372036854775807"
  by (simp add: i64_max_def)

lemma int_unat_word_of_int: "0 \<le> v \<Longrightarrow> v \<le> 9223372036854775807 \<Longrightarrow> int (unat (word_of_int v :: u64)) = v"
  by (simp add: unsigned_of_int take_bit_int_eq_self_iff)

lemma amount_to_sql_Inr [result_simps]:
  "amount_to_sql a = Inr v \<longleftrightarrow> v = int (units a) \<and> v \<le> 9223372036854775807"
  by (auto simp: amount_to_sql_def)

lemma sql_u64_Inr [result_simps]:
  "sql_u64 n = Inr v \<longleftrightarrow> v = int (unat n) \<and> v \<le> 9223372036854775807"
  by (auto simp: sql_u64_def)

lemma u64_from_sql_Inr:
  "v \<le> 9223372036854775807 \<Longrightarrow> u64_from_sql v l = Inr n \<longleftrightarrow> int (unat n) = v"
  using int_unat_word_of_int [of v]
  by (auto simp: u64_from_sql_def word_unat_eq_iff)

lemma amount_from_sql_Inr:
  "v \<le> 9223372036854775807 \<Longrightarrow> amount_from_sql v = Inr a \<longleftrightarrow> int (units a) = v"
  by (cases a) (auto simp: amount_from_sql_def u64_from_sql_Inr from_atomic_def)

lemma sql_sum_eq:
  assumes "\<forall>v\<in>set vs. 0 \<le> v" "sum_list vs \<le> 9223372036854775807"
  shows "sql_sum vs = Inr (sum_list vs)"
proof -
  have "try_fold (\<lambda>acc v. if - i64_max - 1 \<le> acc + v \<and> acc + v \<le> i64_max then Inr (acc + v)
      else Inl (Foreign ''sqlite integer overflow'')) a vs = Inr (a + sum_list vs)"
    if "0 \<le> a" "a + sum_list vs \<le> 9223372036854775807" for a
    using assms(1) that
  proof (induction vs arbitrary: a)
    case Nil
    then show ?case by simp
  next
    case (Cons v vs)
    then have "0 \<le> sum_list vs" by (simp add: sum_list_nonneg)
    with Cons show ?case by simp
  qed
  from this [of 0] assms(2) show ?thesis by (simp add: sql_sum_def)
qed

section \<open>The representation invariant\<close>

definition supply_row_of :: "supply_state \<Rightarrow> supply_row" where
  "supply_row_of st = \<lparr>sp_minted = int (units (minted_supply st)),
     sp_emitted = int (units (network_emitted_supply st)),
     sp_reserve = int (units (reserve_balance st)),
     sp_circulating = int (units (circulating_supply st))\<rparr>"

definition balance_of :: "ledger_db \<Rightarrow> string \<Rightarrow> int" where
  "balance_of db a = (case find_account a (db_accounts db) of None \<Rightarrow> 0 | Some r \<Rightarrow> ac_balance r)"

definition nonce_of :: "ledger_db \<Rightarrow> string \<Rightarrow> int" where
  "nonce_of db a = (case find_account a (db_accounts db) of None \<Rightarrow> 0 | Some r \<Rightarrow> ac_nonce r)"

text \<open>
  The database represents the supply \<open>st\<close>: the supply row holds it, addresses are unique,
  balances and nonces are non-negative, the balances add up to the minted supply, and the
  reserve account holds the reserve balance, which is at least the genesis reserve.
\<close>

definition ledger_rep :: "ledger_db \<Rightarrow> supply_state \<Rightarrow> bool" where
  "ledger_rep db st \<longleftrightarrow>
     supply_consistent st \<and> db_supply db = Some (supply_row_of st) \<and>
     accounts_ok (db_accounts db) \<and>
     (\<forall>r\<in>set (db_accounts db). account_row_ok r \<and> ac_nonce r \<le> 9223372036854775807) \<and>
     accounts_total (db_accounts db) = int (units (minted_supply st)) \<and>
     find_account PERMANENT_RESERVE_ADDRESS (db_accounts db) \<noteq> None \<and>
     balance_of db PERMANENT_RESERVE_ADDRESS = int (units (reserve_balance st)) \<and>
     units GENESIS_RESERVE \<le> units (reserve_balance st)"

lemma supply_consistent_bounds:
  assumes "supply_consistent st"
  shows "units (minted_supply st) \<le> 1200000000000000"
    "units (network_emitted_supply st) \<le> 1100000000000000"
    "units (reserve_balance st) \<le> 1200000000000000"
    "units (circulating_supply st) \<le> 1200000000000000"
  using assms by (auto simp: supply_consistent_def)

lemma balance_le_total:
  assumes "\<forall>r\<in>set t. account_row_ok r" "r \<in> set t"
  shows "ac_balance r \<le> accounts_total t"
proof -
  have "ac_balance r \<le> sum_list (map ac_balance t)"
    using assms by (intro member_le_sum_list) (auto simp: account_row_ok_def)
  then show ?thesis by (simp add: accounts_total_def)
qed

lemma rep_balance_bounds:
  assumes "ledger_rep db st"
  shows "0 \<le> balance_of db a" "balance_of db a \<le> 1200000000000000"
    "0 \<le> nonce_of db a" "nonce_of db a \<le> 9223372036854775807"
proof -
  have "accounts_total (db_accounts db) \<le> 1200000000000000"
    using assms supply_consistent_bounds(1) [of st] by (auto simp: ledger_rep_def)
  moreover have rows: "\<forall>r\<in>set (db_accounts db). account_row_ok r \<and> ac_nonce r \<le> 9223372036854775807"
    using assms by (simp add: ledger_rep_def)
  ultimately have "0 \<le> balance_of db a \<and> balance_of db a \<le> 1200000000000000
     \<and> 0 \<le> nonce_of db a \<and> nonce_of db a \<le> 9223372036854775807"
  proof (cases "find_account a (db_accounts db)")
    case (Some r)
    then have "r \<in> set (db_accounts db)" by (simp add: find_account_Some)
    with Some rows balance_le_total [of "db_accounts db" r] \<open>accounts_total (db_accounts db) \<le> 1200000000000000\<close>
    show ?thesis by (auto simp: balance_of_def nonce_of_def account_row_ok_def)
  qed (simp add: balance_of_def nonce_of_def)
  then show "0 \<le> balance_of db a" "balance_of db a \<le> 1200000000000000"
    "0 \<le> nonce_of db a" "nonce_of db a \<le> 9223372036854775807" by simp_all
qed

lemma supply_from_sql_row_of:
  assumes "supply_consistent st"
  shows "supply_from_sql (supply_row_of st) = Inr st"
proof -
  have r: "amount_from_sql (int (units a)) = Inr a" if "units a \<le> 1200000000000000" for a
    using that by (simp add: amount_from_sql_Inr)
  show ?thesis
    using assms supply_consistent_bounds [OF assms]
    by (cases st) (simp add: supply_from_sql_def supply_row_of_def r supply_validate_iff Let_def)
qed

lemma read_supply_rep: "ledger_rep db st \<Longrightarrow> read_supply db = Inr st"
  by (simp add: ledger_rep_def read_supply_def supply_from_sql_row_of)

lemma account_sum_rep:
  assumes "ledger_rep db st"
  shows "account_sum db = Inr (minted_supply st)"
proof -
  have rows: "\<forall>v\<in>set (map ac_balance (db_accounts db)). 0 \<le> v"
    and total: "sum_list (map ac_balance (db_accounts db)) = int (units (minted_supply st))"
    using assms by (auto simp: ledger_rep_def account_row_ok_def accounts_total_def)
  have "units (minted_supply st) \<le> 1200000000000000"
    using assms by (auto simp: ledger_rep_def supply_consistent_bounds)
  with total have "sql_sum (map ac_balance (db_accounts db)) = Inr (int (units (minted_supply st)))"
    using sql_sum_eq [OF rows] by simp
  with \<open>units (minted_supply st) \<le> 1200000000000000\<close> show ?thesis
    by (simp add: account_sum_def amount_from_sql_Inr)
qed

text \<open>A write of a consistent supply succeeds and stores its row.\<close>

lemma write_supply_eq:
  assumes "supply_consistent st" "db_supply db \<noteq> None"
  shows "write_supply st db = Inr (db\<lparr>db_supply := Some (supply_row_of st)\<rparr>)"
proof -
  have r: "amount_to_sql a = Inr (int (units a))" if "units a \<le> 1200000000000000" for a
    using that by (simp add: amount_to_sql_Inr)
  show ?thesis
    using assms supply_consistent_bounds [OF assms(1)]
    by (auto simp: write_supply_def supply_validate_iff r supply_row_of_def)
qed

lemma write_supply_Inr:
  "write_supply st db = Inr db' \<Longrightarrow> supply_consistent st \<and>
     db' = db\<lparr>db_supply := map_option (\<lambda>_. supply_row_of st) (db_supply db)\<rparr>"
  by (auto simp: write_supply_def supply_validate_iff amount_to_sql_Inr supply_row_of_def)

text \<open>The startup check accepts every represented database.\<close>

lemma verify_invariants_rep:
  assumes "ledger_rep (lg_db L) st"
  shows "verify_invariants L = Inr ()"
proof -
  obtain r where r: "find_account PERMANENT_RESERVE_ADDRESS (db_accounts (lg_db L)) = Some r"
    using assms by (auto simp: ledger_rep_def)
  then have rr: "r \<in> set (db_accounts (lg_db L))" by (simp add: find_account_Some)
  have bal: "ac_balance r = int (units (reserve_balance st))"
    using assms r by (auto simp: ledger_rep_def balance_of_def)
  have n: "0 \<le> ac_nonce r" "ac_nonce r \<le> 9223372036854775807"
    using assms rr by (auto simp: ledger_rep_def account_row_ok_def)
  have sc: "supply_consistent st" and g: "units GENESIS_RESERVE \<le> units (reserve_balance st)"
    using assms by (simp_all add: ledger_rep_def)
  have "amount_from_sql (ac_balance r) = Inr (reserve_balance st)"
    using supply_consistent_bounds(3) [OF sc] bal by (simp add: amount_from_sql_Inr)
  moreover have "u64_from_sql (ac_nonce r) ''account nonce'' = Inr (word_of_int (ac_nonce r))"
    using n by (simp add: u64_from_sql_def)
  ultimately have "ledger_account L reserve_address = Inr \<lparr>acc_address = PERMANENT_RESERVE_ADDRESS,
      acc_balance = reserve_balance st, acc_nonce = word_of_int (ac_nonce r)\<rparr>"
    using r by (simp add: ledger_account_def reserve_address_def)
  moreover have "\<not> reserve_balance st < GENESIS_RESERVE" using g by (simp add: amount_less_units)
  moreover have "supply_validate st = Inr ()" using sc by (simp add: supply_validate_iff)
  ultimately show ?thesis
    by (simp add: verify_invariants_def read_supply_rep [OF assms] account_sum_rep [OF assms])
qed

section \<open>The effect of a transaction\<close>

lemma parse_for_network_address: "parse_for_network X s n = Inr a \<Longrightarrow> a = Address s"
  by (auto simp: parse_for_network_def split: if_splits prod.splits)

text \<open>
  Inversion of an accepted transaction: the guards it passed and the rows it wrote. The
  accounts after it are two puts, of the sender's row and of the receiver's.
\<close>

lemma apply_transaction_InrE:
  assumes "apply_transaction X n t epoch db = Inr (db', i)" "ledger_rep db st"
  obtains sender receiver json db1 where
    "tx_network_id t = n" "tx_verify_signature X t = Inr ()"
    "tx_from t \<noteq> PERMANENT_RESERVE_ADDRESS" "tx_from t \<noteq> tx_to t" "0 < units (tx_amount t)"
    "tx_created_epoch t \<le> epoch" "epoch \<le> tx_expiry_epoch t"
    "find_account (tx_from t) (db_accounts db) = Some sender"
    "ac_nonce sender = int (unat (tx_nonce t))" "ac_public_key sender \<in> {None, Some (tx_from_public_key t)}"
    "int (units (tx_amount t)) \<le> ac_balance sender" "int (unat (tx_nonce t)) < 9223372036854775807"
    "tx_id X t = Inr i" "json_transaction X t = Inr json"
    "insert_transaction \<lparr>tr_id = i, tr_json = json, tr_from = tx_from t, tr_to = tx_to t,
       tr_amount = int (units (tx_amount t)), tr_nonce = int (unat (tx_nonce t)), tr_epoch = int (unat epoch)\<rparr>
       (db_transactions db) = Inr (db_transactions db')"
    "ac_address receiver = tx_to t" "ac_balance receiver = balance_of db (tx_to t) + int (units (tx_amount t))"
    "ac_nonce receiver = nonce_of db (tx_to t)"
    "ac_public_key receiver = (case find_account (tx_to t) (db_accounts db) of None \<Rightarrow> None | Some q \<Rightarrow> ac_public_key q)"
    "account_row_ok receiver"
    "db1 = db\<lparr>db_transactions := db_transactions db', db_accounts := put_account receiver
       (put_account (sender\<lparr>ac_balance := ac_balance sender - int (units (tx_amount t)),
          ac_nonce := ac_nonce sender + 1, ac_public_key := Some (tx_from_public_key t)\<rparr>) (db_accounts db))\<rparr>"
    "if tx_to t = PERMANENT_RESERVE_ADDRESS
     then \<exists>reserve st'. units reserve = units (reserve_balance st) + units (tx_amount t)
       \<and> supply_consistent st' \<and> network_emitted_supply st' = network_emitted_supply st
       \<and> reserve_balance st' = reserve \<and> db' = db1\<lparr>db_supply := Some (supply_row_of st')\<rparr>
     else db' = db1"
proof -
  have rep: "accounts_ok (db_accounts db)" "db_supply db = Some (supply_row_of st)" "supply_consistent st"
    using assms(2) by (simp_all add: ledger_rep_def)
  have rd: "read_supply (db\<lparr>db_transactions := ts, db_accounts := as\<rparr>) = Inr st" for ts as
    using rep(2,3) by (simp add: read_supply_def supply_from_sql_row_of)
  obtain sender sb sn nsb nn rv nrb json ts acs acs2 nonce_sql epoch_sql sender_sql nn_sql rsql asql where
    1: "tx_network_id t = n" "tx_verify_signature X t = Inr ()"
      "tx_from t \<noteq> PERMANENT_RESERVE_ADDRESS" "tx_from t \<noteq> tx_to t" "tx_amount t \<noteq> ZERO"
      "\<not> (tx_created_epoch t > epoch \<or> tx_expiry_epoch t < epoch)" and
    2: "find_account (tx_from t) (db_accounts db) = Some sender"
      "amount_from_sql (ac_balance sender) = Inr sb" "u64_from_sql (ac_nonce sender) ''sender nonce'' = Inr sn"
      "sn = tx_nonce t"
      "\<not> (case ac_public_key sender of None \<Rightarrow> False | Some key \<Rightarrow> key \<noteq> tx_from_public_key t)"
      "amount_sub sb (tx_amount t) = Inr nsb" "checked_add sn 1 = Some nn" and
    3: "transpose_opt (map_option (\<lambda>r. amount_from_sql (ac_balance r))
         (find_account (tx_to t) (db_accounts db))) = Inr rv"
      "amount_add (case rv of None \<Rightarrow> ZERO | Some b \<Rightarrow> b) (tx_amount t) = Inr nrb" and
    4: "tx_id X t = Inr i" "json_transaction X t = Inr json" "amount_to_sql (tx_amount t) = Inr asql"
      "sql_u64 (tx_nonce t) = Inr nonce_sql" "sql_u64 epoch = Inr epoch_sql"
      "insert_transaction \<lparr>tr_id = i, tr_json = json, tr_from = tx_from t, tr_to = tx_to t,
         tr_amount = asql, tr_nonce = nonce_sql, tr_epoch = epoch_sql\<rparr> (db_transactions db) = Inr ts"
      "amount_to_sql nsb = Inr sender_sql" "sql_u64 nn = Inr nn_sql" and
    5: "update_account (tx_from t) (\<lambda>r. r\<lparr>ac_balance := sender_sql, ac_nonce := nn_sql,
           ac_public_key := (case ac_public_key r of None \<Rightarrow> Some (tx_from_public_key t) | Some k \<Rightarrow> Some k)\<rparr>)
        (db_accounts db) = Inr acs"
      "amount_to_sql nrb = Inr rsql"
      "upsert_account \<lparr>ac_address = tx_to t, ac_balance = rsql, ac_nonce = 0, ac_public_key = None\<rparr>
         (\<lambda>r. r\<lparr>ac_balance := rsql\<rparr>) acs = Inr acs2" and
    6: "(if tx_to t = PERMANENT_RESERVE_ADDRESS then
          and_then (amount_add (reserve_balance st) (tx_amount t)) (\<lambda>reserve.
          and_then (from_components (network_emitted_supply st) reserve) (\<lambda>st'.
          write_supply st' (db\<lparr>db_transactions := ts, db_accounts := acs2\<rparr>)))
        else Inr (db\<lparr>db_transactions := ts, db_accounts := acs2\<rparr>)) = Inr db'"
    using assms(1)
    unfolding apply_transaction_def Let_def is_reserve_def
    apply (clarsimp simp del: transpose_opt_eq_Inr split del: if_split)
    apply (drule parse_for_network_address)+
    apply (clarsimp simp del: transpose_opt_eq_Inr split del: if_split simp: rd)
    apply (rule that)
    apply (assumption | simp only: rd and_then_Inr simp_thms)+
    done
  have sender_mem: "sender \<in> set (db_accounts db)" "ac_address sender = tx_from t"
    using 2(1) by (simp_all add: find_account_Some)
  have snd: "balance_of db (tx_from t) = ac_balance sender" "nonce_of db (tx_from t) = ac_nonce sender"
    using 2(1) by (simp_all add: balance_of_def nonce_of_def)
  note bounds = rep_balance_bounds [OF assms(2)]
  have b1: "int (units sb) = ac_balance sender"
    using 2(2) bounds(2) [of "tx_from t"] snd by (simp add: amount_from_sql_Inr)
  have n1: "int (unat (tx_nonce t)) = ac_nonce sender"
    using 2(3,4) bounds(4) [of "tx_from t"] snd by (simp add: u64_from_sql_Inr)
  have b2: "units sb = units (tx_amount t) + units nsb" using 2(6) by (simp add: amount_sub_Inr)
  have nn: "unat nn = unat (tx_nonce t) + 1" using 2(4,7) by (simp add: checked_add_Some)
  have vals: "asql = int (units (tx_amount t))" "nonce_sql = int (unat (tx_nonce t))"
    "epoch_sql = int (unat epoch)" "sender_sql = ac_balance sender - int (units (tx_amount t))"
    "nn_sql = ac_nonce sender + 1" "nn_sql \<le> 9223372036854775807"
    using 4 b1 b2 n1 nn by (simp_all add: amount_to_sql_Inr sql_u64_Inr)
  define sender' where "sender' = sender\<lparr>ac_balance := ac_balance sender - int (units (tx_amount t)),
    ac_nonce := ac_nonce sender + 1, ac_public_key := Some (tx_from_public_key t)\<rparr>"
  have key: "ac_public_key sender \<in> {None, Some (tx_from_public_key t)}"
    using 2(5) by (auto split: option.splits)
  then have upd: "sender\<lparr>ac_balance := sender_sql, ac_nonce := nn_sql, ac_public_key :=
      (case ac_public_key sender of None \<Rightarrow> Some (tx_from_public_key t) | Some k \<Rightarrow> Some k)\<rparr> = sender'"
    by (auto simp: sender'_def vals split: option.splits)
  have addr: "ac_address sender' = tx_from t" by (simp add: sender'_def sender_mem(2))
  have acs: "acs = put_account sender' (db_accounts db)"
    using 5(1) update_account_Inr [OF rep(1) 2(1), where u = acs and
        f = "\<lambda>r. r\<lparr>ac_balance := sender_sql, ac_nonce := nn_sql, ac_public_key :=
          (case ac_public_key r of None \<Rightarrow> Some (tx_from_public_key t) | Some k \<Rightarrow> Some k)\<rparr>"]
    by (simp add: upd addr)
  have ok_acs: "accounts_ok acs" unfolding acs by (rule accounts.put_ok [OF rep(1)])
  have other: "find_account (tx_to t) acs = find_account (tx_to t) (db_accounts db)"
    unfolding acs using accounts.lookup_put [OF rep(1)] 1(4) by (simp add: sender'_def sender_mem(2))
  have recv: "units (case rv of None \<Rightarrow> ZERO | Some b \<Rightarrow> b) = nat (balance_of db (tx_to t))"
  proof (cases "find_account (tx_to t) (db_accounts db)")
    case None
    then show ?thesis using 3(1) by (auto simp: balance_of_def)
  next
    case (Some q)
    then have "ac_balance q \<le> 9223372036854775807"
      using bounds(2) [of "tx_to t"] by (simp add: balance_of_def)
    with Some show ?thesis using 3(1) by (auto simp: balance_of_def amount_from_sql_Inr)
  qed
  have rsql: "rsql = balance_of db (tx_to t) + int (units (tx_amount t))"
    using 3(2) 5(2) recv bounds(1) [of "tx_to t"] by (simp add: amount_add_Inr amount_to_sql_Inr)
  obtain receiver where r: "ac_address receiver = tx_to t" "ac_balance receiver = rsql"
    "ac_nonce receiver = nonce_of db (tx_to t)" "account_row_ok receiver" "acs2 = put_account receiver acs"
    "ac_public_key receiver = (case find_account (tx_to t) (db_accounts db) of None \<Rightarrow> None | Some q \<Rightarrow> ac_public_key q)"
  proof (cases "find_account (tx_to t) (db_accounts db)")
    case None
    show ?thesis
      using 5(3) upsert_account_Inr [OF ok_acs, where u = acs2 and f = "\<lambda>r. r\<lparr>ac_balance := rsql\<rparr>"
          and row = "\<lparr>ac_address = tx_to t, ac_balance = rsql, ac_nonce = 0, ac_public_key = None\<rparr>"]
        None other
      by (intro that [of "\<lparr>ac_address = tx_to t, ac_balance = rsql, ac_nonce = 0, ac_public_key = None\<rparr>"])
         (simp_all add: nonce_of_def None)
  next
    case (Some q)
    show ?thesis
      using 5(3) upsert_account_Inr [OF ok_acs, where u = acs2 and f = "\<lambda>r. r\<lparr>ac_balance := rsql\<rparr>"
          and row = "\<lparr>ac_address = tx_to t, ac_balance = rsql, ac_nonce = 0, ac_public_key = None\<rparr>"]
        Some other find_account_Some [OF Some]
      by (intro that [of "q\<lparr>ac_balance := rsql\<rparr>"]) (simp_all add: nonce_of_def)
  qed
  define db1 where "db1 = db\<lparr>db_transactions := ts, db_accounts := acs2\<rparr>"
  have fin: "if tx_to t = PERMANENT_RESERVE_ADDRESS
     then \<exists>reserve st'. units reserve = units (reserve_balance st) + units (tx_amount t)
       \<and> supply_consistent st' \<and> network_emitted_supply st' = network_emitted_supply st
       \<and> reserve_balance st' = reserve \<and> db' = db1\<lparr>db_supply := Some (supply_row_of st')\<rparr>
     else db' = db1"
  proof (cases "tx_to t = PERMANENT_RESERVE_ADDRESS")
    case True
    then obtain reserve st' where w: "amount_add (reserve_balance st) (tx_amount t) = Inr reserve"
      "from_components (network_emitted_supply st) reserve = Inr st'" "write_supply st' db1 = Inr db'"
      using 6 by (auto simp: db1_def)
    then have "supply_consistent st'" "db' = db1\<lparr>db_supply := Some (supply_row_of st')\<rparr>"
      using rep(2) by (auto simp: from_components_Inr db1_def dest: write_supply_Inr)
    with w True show ?thesis by (auto simp: from_components_Inr amount_add_Inr)
  next
    case False
    with 6 show ?thesis by (simp add: db1_def)
  qed
  then have ts: "db_transactions db' = ts" by (auto simp: db1_def split: if_splits)
  show thesis
  proof (rule that [of sender json receiver db1])
    show "0 < units (tx_amount t)" using 1(5) by (auto simp: amount_eq_units)
    show "tx_created_epoch t \<le> epoch" "epoch \<le> tx_expiry_epoch t" using 1(6) by auto
    show "int (units (tx_amount t)) \<le> ac_balance sender" using b1 b2 by simp
    show "int (unat (tx_nonce t)) < 9223372036854775807" using vals(5,6) n1 by simp
    show "db1 = db\<lparr>db_transactions := db_transactions db', db_accounts := put_account receiver
       (put_account (sender\<lparr>ac_balance := ac_balance sender - int (units (tx_amount t)),
          ac_nonce := ac_nonce sender + 1, ac_public_key := Some (tx_from_public_key t)\<rparr>) (db_accounts db))\<rparr>"
      by (simp add: db1_def ts r(5) acs sender'_def)
    show "insert_transaction \<lparr>tr_id = i, tr_json = json, tr_from = tx_from t, tr_to = tx_to t,
       tr_amount = int (units (tx_amount t)), tr_nonce = int (unat (tx_nonce t)), tr_epoch = int (unat epoch)\<rparr>
       (db_transactions db) = Inr (db_transactions db')"
      using 4(6) by (simp add: vals ts)
  qed (use 1 2 4 n1 key r rsql fin in simp_all)
qed

text \<open>Two puts that move an amount between two accounts.\<close>

lemma transfer_balances:
  assumes "accounts_ok t" "ac_address a \<noteq> ac_address b"
  shows "balance_of (db\<lparr>db_accounts := put_account b (put_account a t)\<rparr>) =
      (balance_of (db\<lparr>db_accounts := t\<rparr>))(ac_address a := ac_balance a, ac_address b := ac_balance b)"
    and "nonce_of (db\<lparr>db_accounts := put_account b (put_account a t)\<rparr>) =
      (nonce_of (db\<lparr>db_accounts := t\<rparr>))(ac_address a := ac_nonce a, ac_address b := ac_nonce b)"
  using assms accounts.put_ok [OF assms(1)]
  by (auto simp: balance_of_def nonce_of_def accounts.lookup_put fun_eq_iff)

lemma put_account_set: "set (put_account r t) \<subseteq> insert r (set t)"
  by (auto simp: put_account_def)

text \<open>The accounting of a transaction, in terms of the represented supply.\<close>

definition transfer_effect :: "ledger_db \<Rightarrow> supply_state \<Rightarrow> transaction \<Rightarrow> ledger_db \<Rightarrow> supply_state \<Rightarrow> bool" where
  "transfer_effect db st t db' st' \<longleftrightarrow>
     tx_from t \<noteq> tx_to t \<and> tx_from t \<noteq> PERMANENT_RESERVE_ADDRESS \<and> 0 < units (tx_amount t) \<and>
     int (units (tx_amount t)) \<le> balance_of db (tx_from t) \<and>
     nonce_of db (tx_from t) = int (unat (tx_nonce t)) \<and>
     balance_of db' = (balance_of db)(tx_from t := balance_of db (tx_from t) - int (units (tx_amount t)),
       tx_to t := balance_of db (tx_to t) + int (units (tx_amount t))) \<and>
     nonce_of db' = (nonce_of db)(tx_from t := nonce_of db (tx_from t) + 1) \<and>
     minted_supply st' = minted_supply st \<and> network_emitted_supply st' = network_emitted_supply st \<and>
     units (reserve_balance st') = units (reserve_balance st) +
       (if tx_to t = PERMANENT_RESERVE_ADDRESS then units (tx_amount t) else 0)"

lemma apply_transaction_rep:
  assumes "apply_transaction X n t epoch db = Inr (db', i)" "ledger_rep db st"
  shows "\<exists>st'. ledger_rep db' st' \<and> transfer_effect db st t db' st'"
proof -
  from assms obtain sender receiver json db1 where
    g: "tx_from t \<noteq> PERMANENT_RESERVE_ADDRESS" "tx_from t \<noteq> tx_to t" "0 < units (tx_amount t)"
    and sender: "find_account (tx_from t) (db_accounts db) = Some sender"
      "ac_nonce sender = int (unat (tx_nonce t))" "int (units (tx_amount t)) \<le> ac_balance sender"
      "int (unat (tx_nonce t)) < 9223372036854775807"
    and receiver: "ac_address receiver = tx_to t"
      "ac_balance receiver = balance_of db (tx_to t) + int (units (tx_amount t))"
      "ac_nonce receiver = nonce_of db (tx_to t)" "account_row_ok receiver"
    and db1: "db1 = db\<lparr>db_transactions := db_transactions db', db_accounts := put_account receiver
       (put_account (sender\<lparr>ac_balance := ac_balance sender - int (units (tx_amount t)),
          ac_nonce := ac_nonce sender + 1, ac_public_key := Some (tx_from_public_key t)\<rparr>) (db_accounts db))\<rparr>"
    and fin: "if tx_to t = PERMANENT_RESERVE_ADDRESS
     then \<exists>reserve st'. units reserve = units (reserve_balance st) + units (tx_amount t)
       \<and> supply_consistent st' \<and> network_emitted_supply st' = network_emitted_supply st
       \<and> reserve_balance st' = reserve \<and> db' = db1\<lparr>db_supply := Some (supply_row_of st')\<rparr>
     else db' = db1"
    by (rule apply_transaction_InrE) blast
  define s' where "s' = sender\<lparr>ac_balance := ac_balance sender - int (units (tx_amount t)),
    ac_nonce := ac_nonce sender + 1, ac_public_key := Some (tx_from_public_key t)\<rparr>"
  have s': "ac_address s' = tx_from t" "ac_balance s' = balance_of db (tx_from t) - int (units (tx_amount t))"
    "ac_nonce s' = nonce_of db (tx_from t) + 1"
    using sender(1) by (simp_all add: s'_def find_account_Some balance_of_def nonce_of_def)
  have rep: "accounts_ok (db_accounts db)" "supply_consistent st" "db_supply db = Some (supply_row_of st)"
    "\<forall>r\<in>set (db_accounts db). account_row_ok r \<and> ac_nonce r \<le> 9223372036854775807"
    "accounts_total (db_accounts db) = int (units (minted_supply st))"
    "find_account PERMANENT_RESERVE_ADDRESS (db_accounts db) \<noteq> None"
    "balance_of db PERMANENT_RESERVE_ADDRESS = int (units (reserve_balance st))"
    "units GENESIS_RESERVE \<le> units (reserve_balance st)"
    using assms(2) by (simp_all add: ledger_rep_def)
  define t2 where "t2 = put_account receiver (put_account s' (db_accounts db))"
  have db1_proj: "db_accounts db1 = t2" "db_supply db1 = db_supply db"
    by (simp_all add: db1 t2_def s'_def)
  have acc: "db_accounts db' = t2"
    using fin by (auto simp: db1_proj split: if_splits)
  have w: "accounts.weight_at a (db_accounts db) = balance_of db a" for a
    by (simp add: accounts.weight_at_def balance_of_def)
  have total: "accounts_total t2 = accounts_total (db_accounts db)"
    unfolding t2_def
    by (rule accounts.transfer_conserves [where x = "int (units (tx_amount t))"])
       (use rep(1) s' receiver g in \<open>simp_all add: w\<close>)
  have ok2: "accounts_ok t2" unfolding t2_def by (intro accounts.put_ok rep(1))
  have bal: "balance_of db' = (balance_of db)(tx_from t := balance_of db (tx_from t) - int (units (tx_amount t)),
       tx_to t := balance_of db (tx_to t) + int (units (tx_amount t)))"
    and non: "nonce_of db' = (nonce_of db)(tx_from t := nonce_of db (tx_from t) + 1)"
    using transfer_balances [OF rep(1), of s' receiver db] g(2) s' receiver acc
    by (auto simp: t2_def balance_of_def nonce_of_def fun_eq_iff)
  have rows: "\<forall>r\<in>set t2. account_row_ok r \<and> ac_nonce r \<le> 9223372036854775807"
  proof -
    have "set t2 \<subseteq> insert receiver (insert s' (set (db_accounts db)))"
      using put_account_set [of receiver "put_account s' (db_accounts db)"]
        put_account_set [of s' "db_accounts db"] by (auto simp: t2_def)
    moreover have "account_row_ok s'" "ac_nonce s' \<le> 9223372036854775807"
      using sender by (simp_all add: s'_def account_row_ok_def)
    moreover have "ac_nonce receiver \<le> 9223372036854775807"
      using rep_balance_bounds(4) [OF assms(2)] receiver(3) by simp
    ultimately show ?thesis using rep(4) receiver(4) by blast
  qed
  have res: "find_account PERMANENT_RESERVE_ADDRESS t2 \<noteq> None"
    unfolding t2_def using rep(1,6) accounts.put_ok [OF rep(1)] by (simp add: accounts.lookup_put)
  show ?thesis
  proof (cases "tx_to t = PERMANENT_RESERVE_ADDRESS")
    case True
    then obtain st' where st': "units (reserve_balance st') = units (reserve_balance st) + units (tx_amount t)"
      "supply_consistent st'" "network_emitted_supply st' = network_emitted_supply st"
      "db_supply db' = Some (supply_row_of st')"
      using fin by auto
    then have m: "minted_supply st' = minted_supply st"
      using rep(2) by (simp add: supply_consistent_def amount_eq_units)
    have "ledger_rep db' st'"
      unfolding ledger_rep_def acc bal using st' m ok2 rows total rep res True g by simp
    moreover have "transfer_effect db st t db' st'"
      unfolding transfer_effect_def bal non using g sender st' m True
      by (simp add: balance_of_def nonce_of_def)
    ultimately show ?thesis by blast
  next
    case False
    then have "db_supply db' = db_supply db" using fin by (simp add: db1_proj)
    then have "ledger_rep db' st"
      unfolding ledger_rep_def acc bal using ok2 rows total rep res False g by simp
    moreover have "transfer_effect db st t db' st"
      unfolding transfer_effect_def bal non using g sender False
      by (simp add: balance_of_def nonce_of_def)
    ultimately show ?thesis by blast
  qed
qed

section \<open>Batches\<close>

text \<open>The effects of a batch, one transaction after the other.\<close>

fun batch_effect :: "ledger_db \<Rightarrow> supply_state \<Rightarrow> transaction list \<Rightarrow> ledger_db \<Rightarrow> supply_state \<Rightarrow> bool" where
  "batch_effect db st [] db' st' \<longleftrightarrow> db' = db \<and> st' = st"
| "batch_effect db st (t # ts) db' st' \<longleftrightarrow>
     (\<exists>db1 st1. transfer_effect db st t db1 st1 \<and> ledger_rep db1 st1 \<and> batch_effect db1 st1 ts db' st')"

definition batch_step ::
    "smd_ext \<Rightarrow> network_id \<Rightarrow> u64 \<Rightarrow> ledger_db \<times> string list \<Rightarrow> transaction \<Rightarrow> (ledger_db \<times> string list) result" where
  "batch_step X n epoch s t = (case s of (db, ids) \<Rightarrow>
     and_then (apply_transaction X n t epoch db) (\<lambda>(db, i). Inr (db, ids @ [i])))"

lemma batch_fold_rep:
  assumes "try_fold (batch_step X n epoch) (db, ids) ts = Inr (db', ids')" "ledger_rep db st"
  shows "\<exists>st'. ledger_rep db' st' \<and> batch_effect db st ts db' st' \<and> length ids' = length ids + length ts"
  using assms
proof (induction ts arbitrary: db ids st)
  case Nil
  then show ?case by auto
next
  case (Cons t ts)
  then obtain s where s: "batch_step X n epoch (db, ids) t = Inr s"
    "try_fold (batch_step X n epoch) s ts = Inr (db', ids')"
    by auto
  then obtain db1 i where 1: "apply_transaction X n t epoch db = Inr (db1, i)" "s = (db1, ids @ [i])"
    by (auto simp: batch_step_def)
  obtain st1 where st1: "ledger_rep db1 st1" "transfer_effect db st t db1 st1"
    using apply_transaction_rep [OF 1(1) Cons.prems(2)] by blast
  with Cons.IH [OF s(2) [unfolded 1(2)] st1(1)] show ?case by auto
qed

lemma batch_effect_supply:
  "batch_effect db st ts db' st' \<Longrightarrow> minted_supply st' = minted_supply st
     \<and> network_emitted_supply st' = network_emitted_supply st
     \<and> units (reserve_balance st) \<le> units (reserve_balance st')"
  by (induction ts arbitrary: db st) (force simp: transfer_effect_def)+

lemma submit_transactions_fold:
  "submit_transactions_atomically X L ts epoch = Inr (L', ids) \<longleftrightarrow>
     (ts = [] \<and> L' = L \<and> ids = []) \<or>
     (ts \<noteq> [] \<and> (\<exists>prior after db. read_supply (lg_db L) = Inr prior \<and>
        try_fold (batch_step X (lg_network L) epoch) (lg_db L, []) ts = Inr (db, ids) \<and>
        read_supply db = Inr after \<and> \<not> reserve_balance after < reserve_balance prior \<and>
        supply_validate after = Inr () \<and> verify_account_sum (minted_supply after) db = Inr () \<and>
        L' = L\<lparr>lg_db := db\<rparr>))"
proof -
  have "(\<lambda>(db, ids) t. and_then (apply_transaction X (lg_network L) t epoch db) (\<lambda>(db, i). Inr (db, ids @ [i])))
      = batch_step X (lg_network L) epoch"
    by (auto simp: batch_step_def fun_eq_iff)
  then show ?thesis by (auto simp: submit_transactions_atomically_def)
qed

lemma submit_transactions_rep:
  assumes "submit_transactions_atomically X L ts epoch = Inr (L', ids)" "ledger_rep (lg_db L) st"
  shows "\<exists>st'. ledger_rep (lg_db L') st' \<and> batch_effect (lg_db L) st ts (lg_db L') st'
    \<and> length ids = length ts \<and> L' = L\<lparr>lg_db := lg_db L'\<rparr>"
proof (cases "ts = []")
  case True
  with assms show ?thesis by (auto simp: submit_transactions_fold)
next
  case False
  with assms(1) obtain db where "try_fold (batch_step X (lg_network L) epoch) (lg_db L, []) ts = Inr (db, ids)"
    "L' = L\<lparr>lg_db := db\<rparr>"
    by (auto simp: submit_transactions_fold)
  with batch_fold_rep [OF this(1) assms(2)] show ?thesis by auto
qed

text \<open>
  The checks at the end of a batch never reject: from a represented database a batch is
  accepted exactly when each of its transactions is.
\<close>

lemma submit_transactions_iff:
  assumes "ledger_rep (lg_db L) st" "ts \<noteq> []"
  shows "submit_transactions_atomically X L ts epoch = Inr (L', ids) \<longleftrightarrow>
    (\<exists>db. try_fold (batch_step X (lg_network L) epoch) (lg_db L, []) ts = Inr (db, ids)
       \<and> L' = L\<lparr>lg_db := db\<rparr>)" (is "?l \<longleftrightarrow> ?r")
proof
  assume ?l
  with assms(2) show ?r by (auto simp: submit_transactions_fold)
next
  assume ?r
  then obtain db where db: "try_fold (batch_step X (lg_network L) epoch) (lg_db L, []) ts = Inr (db, ids)"
    "L' = L\<lparr>lg_db := db\<rparr>" by blast
  obtain st' where st': "ledger_rep db st'" "batch_effect (lg_db L) st ts db st'"
    using batch_fold_rep [OF db(1) assms(1)] by blast
  have "\<not> reserve_balance st' < reserve_balance st"
    using batch_effect_supply [OF st'(2)] by (simp add: amount_less_units)
  moreover have "supply_validate st' = Inr ()"
    using st'(1) by (simp add: ledger_rep_def supply_validate_iff)
  ultimately show ?l
    using assms db st' read_supply_rep [OF assms(1)] read_supply_rep [OF st'(1)] account_sum_rep [OF st'(1)]
    by (simp add: submit_transactions_fold verify_account_sum_def)
qed

end
