(* ===== verification/Smd_Rewards.thy ===== *)
theory Smd_Rewards
  imports Smd_Ledger_Safety
begin

text \<open>
  Contributions and mining: what a stored receipt row guarantees (\<open>receipt_row_ok\<close>), the
  invariant \<open>receipts_rep\<close> of the receipts table, that \<open>submit_contribution\<close> keeps it, and
  that the loop of \<open>mine_rewards\<close> keeps the accounting: every reward is credited, marked once,
  and bounded by the emission and by the limit per address and epoch.
\<close>

section \<open>The accounts table on its own\<close>

definition accounts_rep :: "ledger_db \<Rightarrow> int \<Rightarrow> int \<Rightarrow> bool" where
  "accounts_rep db minted reserve \<longleftrightarrow>
     accounts_ok (db_accounts db) \<and>
     (\<forall>r\<in>set (db_accounts db). account_row_ok r \<and> ac_nonce r \<le> 9223372036854775807) \<and>
     accounts_total (db_accounts db) = minted \<and>
     find_account PERMANENT_RESERVE_ADDRESS (db_accounts db) \<noteq> None \<and>
     balance_of db PERMANENT_RESERVE_ADDRESS = reserve"

lemma ledger_rep_iff:
  "ledger_rep db st \<longleftrightarrow> supply_consistent st \<and> db_supply db = Some (supply_row_of st) \<and>
     accounts_rep db (int (units (minted_supply st))) (int (units (reserve_balance st))) \<and>
     units GENESIS_RESERVE \<le> units (reserve_balance st)"
  by (auto simp: ledger_rep_def accounts_rep_def)

lemma accounts_rep_cong:
  "db_accounts db' = db_accounts db \<Longrightarrow> accounts_rep db' m r \<longleftrightarrow> accounts_rep db m r"
  by (simp add: accounts_rep_def balance_of_def)

lemma accounts_rep_balance:
  assumes "accounts_rep db m r" "m \<le> 1200000000000000"
  shows "0 \<le> balance_of db a" "balance_of db a \<le> 1200000000000000"
proof -
  have rows: "\<forall>r\<in>set (db_accounts db). account_row_ok r" using assms by (simp add: accounts_rep_def)
  have "0 \<le> balance_of db a \<and> balance_of db a \<le> m \<or> balance_of db a = 0"
  proof (cases "find_account a (db_accounts db)")
    case (Some q)
    then have "q \<in> set (db_accounts db)" by (simp add: find_account_Some)
    with Some rows balance_le_total [of "db_accounts db" q] assms show ?thesis
      by (auto simp: balance_of_def account_row_ok_def accounts_rep_def)
  qed (simp add: balance_of_def)
  with assms(2) show "0 \<le> balance_of db a" "balance_of db a \<le> 1200000000000000" by auto
qed

lemma credit_account_rep:
  assumes "credit_account a pk x db = Inr db'" "accounts_rep db m r" "m \<le> 1200000000000000"
    and "a \<noteq> PERMANENT_RESERVE_ADDRESS"
  shows "accounts_rep db' (m + int (units x)) r"
    and "balance_of db' = (balance_of db)(a := balance_of db a + int (units x))"
    and "nonce_of db' = nonce_of db"
    and "db' = db\<lparr>db_accounts := db_accounts db'\<rparr>"
proof -
  let ?t = "db_accounts db"
  obtain b balance balance_sql acs where
    b: "transpose_opt (map_option (\<lambda>r. amount_from_sql (ac_balance r)) (find_account a ?t)) = Inr b"
    and bal: "amount_add (case b of None \<Rightarrow> ZERO | Some b \<Rightarrow> b) x = Inr balance"
      "amount_to_sql balance = Inr balance_sql"
    and acs: "upsert_account \<lparr>ac_address = a, ac_balance = balance_sql, ac_nonce = 0, ac_public_key = Some pk\<rparr>
         (\<lambda>r. r\<lparr>ac_balance := balance_sql,
            ac_public_key := (case ac_public_key r of None \<Rightarrow> Some pk | Some k \<Rightarrow> Some k)\<rparr>) ?t = Inr acs"
    and db': "db' = db\<lparr>db_accounts := acs\<rparr>"
    using assms(1) unfolding credit_account_def Let_def
    by (clarsimp simp del: transpose_opt_eq_Inr)
  have rep: "accounts_ok ?t" "\<forall>r\<in>set ?t. account_row_ok r \<and> ac_nonce r \<le> 9223372036854775807"
    "accounts_total ?t = m" "find_account PERMANENT_RESERVE_ADDRESS ?t \<noteq> None"
    "balance_of db PERMANENT_RESERVE_ADDRESS = r"
    using assms(2) by (simp_all add: accounts_rep_def)
  have "units (case b of None \<Rightarrow> ZERO | Some b \<Rightarrow> b) = nat (balance_of db a)"
  proof (cases "find_account a ?t")
    case None
    then show ?thesis using b by (auto simp: balance_of_def)
  next
    case (Some q)
    then have "ac_balance q \<le> 9223372036854775807"
      using accounts_rep_balance(2) [OF assms(2,3), of a] by (simp add: balance_of_def)
    with Some show ?thesis using b by (auto simp: balance_of_def amount_from_sql_Inr)
  qed
  then have sql: "balance_sql = balance_of db a + int (units x)"
    using bal accounts_rep_balance(1) [OF assms(2,3), of a] by (simp add: amount_add_Inr amount_to_sql_Inr)
  obtain row where row: "ac_address row = a" "ac_balance row = balance_sql" "ac_nonce row = nonce_of db a"
    "account_row_ok row" "acs = put_account row ?t"
  proof (cases "find_account a ?t")
    case None
    show ?thesis
      using acs None upsert_account_Inr [OF rep(1), where u = acs and
          row = "\<lparr>ac_address = a, ac_balance = balance_sql, ac_nonce = 0, ac_public_key = Some pk\<rparr>" and
          f = "\<lambda>r. r\<lparr>ac_balance := balance_sql,
            ac_public_key := (case ac_public_key r of None \<Rightarrow> Some pk | Some k \<Rightarrow> Some k)\<rparr>"]
      by (intro that [of "\<lparr>ac_address = a, ac_balance = balance_sql, ac_nonce = 0, ac_public_key = Some pk\<rparr>"])
         (simp_all add: nonce_of_def)
  next
    case (Some q)
    let ?q = "q\<lparr>ac_balance := balance_sql,
            ac_public_key := (case ac_public_key q of None \<Rightarrow> Some pk | Some k \<Rightarrow> Some k)\<rparr>"
    show ?thesis
      using acs Some find_account_Some [OF Some] upsert_account_Inr [OF rep(1), where u = acs and
          row = "\<lparr>ac_address = a, ac_balance = balance_sql, ac_nonce = 0, ac_public_key = Some pk\<rparr>" and
          f = "\<lambda>r. r\<lparr>ac_balance := balance_sql,
            ac_public_key := (case ac_public_key r of None \<Rightarrow> Some pk | Some k \<Rightarrow> Some k)\<rparr>"]
      by (intro that [of ?q]) (simp_all add: nonce_of_def)
  qed
  have look: "find_account k acs = (if k = a then Some row else find_account k ?t)" for k
    using accounts.lookup_put [OF rep(1)] row by simp
  show bal': "balance_of db' = (balance_of db)(a := balance_of db a + int (units x))"
    using look row sql by (auto simp: balance_of_def db' fun_eq_iff)
  show "nonce_of db' = nonce_of db"
    using look row by (auto simp: nonce_of_def db' fun_eq_iff)
  show "db' = db\<lparr>db_accounts := db_accounts db'\<rparr>" by (simp add: db')
  have "0 \<le> nonce_of db a \<and> nonce_of db a \<le> 9223372036854775807"
    using rep(2) by (cases "find_account a ?t") (auto simp: nonce_of_def account_row_ok_def dest: find_account_Some)
  moreover have "set acs \<subseteq> insert row (set ?t)" using put_account_set [of row ?t] row(5) by simp
  ultimately have rows: "\<forall>r\<in>set acs. account_row_ok r \<and> ac_nonce r \<le> 9223372036854775807"
    using rep(2) row by auto
  have "accounts_total acs = m + int (units x)"
    unfolding row(5) using accounts.deposit [OF rep(1), of row "int (units x)"] rep(3) row sql
    by (simp add: accounts.weight_at_def balance_of_def)
  then show "accounts_rep db' (m + int (units x)) r"
    using rows look rep(4,5) assms(4) accounts.put_ok [OF rep(1), of row] row(5) bal'
    by (simp add: accounts_rep_def db')
qed

text \<open>A credit registers the provider's key, and a registered key never changes.\<close>

definition registered_key :: "ledger_db \<Rightarrow> string \<Rightarrow> string option" where
  "registered_key db a = Option.bind (find_account a (db_accounts db)) ac_public_key"

lemma credit_account_keys:
  assumes "credit_account a pk x db = Inr db'" "accounts_ok (db_accounts db)"
  shows "registered_key db' a = Some pk" "registered_key db k = Some key \<Longrightarrow> registered_key db' k = Some key"
    "accounts_ok (db_accounts db')"
proof -
  let ?t = "db_accounts db"
  let ?f = "\<lambda>balance r. r\<lparr>ac_balance := balance,
            ac_public_key := (case ac_public_key r of None \<Rightarrow> Some pk | Some k \<Rightarrow> Some k)\<rparr> :: account_row"
  obtain balance acs where
    ok: "\<not> (case Option.bind (find_account a ?t) ac_public_key of None \<Rightarrow> False | Some k \<Rightarrow> k \<noteq> pk)"
    and acs: "upsert_account \<lparr>ac_address = a, ac_balance = balance, ac_nonce = 0, ac_public_key = Some pk\<rparr>
         (?f balance) ?t = Inr acs"
    and db': "db' = db\<lparr>db_accounts := acs\<rparr>"
    using assms(1) unfolding credit_account_def Let_def
    by (clarsimp simp del: transpose_opt_eq_Inr)
  obtain row where row: "ac_address row = a" "ac_public_key row = Some pk" "acs = put_account row ?t"
  proof (cases "find_account a ?t")
    case None
    then show thesis
      using acs upsert_account_Inr [OF assms(2), where u = acs and f = "?f balance" and
          row = "\<lparr>ac_address = a, ac_balance = balance, ac_nonce = 0, ac_public_key = Some pk\<rparr>"]
      by (intro that [of "\<lparr>ac_address = a, ac_balance = balance, ac_nonce = 0, ac_public_key = Some pk\<rparr>"]) simp_all
  next
    case (Some q)
    then show thesis
      using acs ok find_account_Some [OF Some] upsert_account_Inr [OF assms(2), where u = acs and f = "?f balance" and
          row = "\<lparr>ac_address = a, ac_balance = balance, ac_nonce = 0, ac_public_key = Some pk\<rparr>"]
      by (intro that [of "?f balance q"]) (auto split: option.splits)
  qed
  have look: "find_account k acs = (if k = a then Some row else find_account k ?t)" for k
    using accounts.lookup_put [OF assms(2)] row by simp
  show "registered_key db' a = Some pk" by (simp add: registered_key_def db' look row(2))
  show "registered_key db k = Some key \<Longrightarrow> registered_key db' k = Some key"
    using ok by (cases "k = a") (auto simp: registered_key_def db' look row(2))
  show "accounts_ok (db_accounts db')" using accounts.put_ok [OF assms(2)] row(3) by (simp add: db')
qed

section \<open>The receipts table\<close>

text \<open>The columns a receipt keeps for ever; mining changes the other four.\<close>

definition static_columns ::
    "receipt_row \<Rightarrow> string \<times> string \<times> string \<times> string \<times> string \<times> int \<times> int \<times> bytes \<times> int" where
  "static_columns r = (rr_id r, rr_session_id r, rr_provider r, rr_receiver r, rr_content_hash r,
     rr_epoch r, rr_nonce r, rr_json r, rr_score r)"

definition receipt_row_ok :: "smd_ext \<Rightarrow> receipt_row \<Rightarrow> bool" where
  "receipt_row_ok X r \<longleftrightarrow>
     0 \<le> rr_subsidy r \<and> rr_fee r = 0 \<and> (rr_status r = Pending \<longrightarrow> rr_subsidy r = 0) \<and>
     0 \<le> rr_score r \<and> rr_score r \<le> 9223372036854775807 \<and>
     (\<exists>c. json_receipt_parse X (rr_json r) = Inr c \<and> cr_id X c = Inr (rr_id r) \<and> cr_verify X c = Inr ()
        \<and> cr_provider_address c = rr_provider r \<and> cr_receiver_address c = rr_receiver r
        \<and> cr_session_id c = rr_session_id r \<and> cr_content_hash c = rr_content_hash r
        \<and> int (unat (cr_epoch c)) = rr_epoch r \<and> int (unat (cr_nonce c)) = rr_nonce r)"

definition subsidies :: "string \<Rightarrow> int \<Rightarrow> receipt_row list \<Rightarrow> int" where
  "subsidies p e rows = sum_list (map rr_subsidy (filter (\<lambda>r. rr_provider r = p \<and> rr_epoch r = e) rows))"

definition same_content :: "receipt_row \<Rightarrow> receipt_row \<Rightarrow> bool" where
  "same_content q r \<longleftrightarrow> rr_provider q = rr_provider r \<and> rr_receiver q = rr_receiver r
     \<and> rr_epoch q = rr_epoch r \<and> rr_content_hash q = rr_content_hash r"

definition epoch_cap :: int where
  "epoch_cap = 100000000000"

definition receipts_rep :: "smd_ext \<Rightarrow> receipt_row list \<Rightarrow> int \<Rightarrow> bool" where
  "receipts_rep X rows emitted \<longleftrightarrow>
     distinct (map rr_id rows) \<and> distinct (map rr_session_id rows) \<and>
     distinct (map (\<lambda>r. (rr_provider r, rr_receiver r, rr_nonce r)) rows) \<and>
     (\<forall>r\<in>set rows. receipt_row_ok X r) \<and>
     sum_list (map rr_subsidy rows) = emitted \<and>
     (\<forall>p e. subsidies p e rows \<le> epoch_cap) \<and>
     (\<forall>r. length (filter (same_content r) rows) \<le> 3)"

lemma default_cap [simp]:
  "units (max_protocol_reward_per_address_epoch default_anti_fraud) = 100000000000"
  "max_same_content_per_pair_epoch default_anti_fraud = 3"
  by (simp_all add: default_anti_fraud_def ATOMIC_UNITS_PER_SMD_def)

text \<open>A verified receipt names keys, and its provider is not the reserve.\<close>

lemma verified_provider_not_reserve:
  assumes "smd_ext_ok X" "cr_verify X r = Inr ()"
  shows "cr_provider_address r \<noteq> PERMANENT_RESERVE_ADDRESS"
proof -
  obtain k a where "from_public_key X (cr_network_id r) k = Inr a" "address_str a = cr_provider_address r"
    using assms(2) by (auto simp: cr_verify_def)
  moreover obtain s where "from_public_key X (cr_network_id r) k = Inr (Address s)" "s \<noteq> PERMANENT_RESERVE_ADDRESS"
    using from_public_key_ok [OF assms(1)] by metis
  ultimately show ?thesis by auto
qed

lemma score_value_le_i64: "unat x = n \<Longrightarrow> sql_u64 x = Inr v \<Longrightarrow> v = int n"
  by (simp add: sql_u64_Inr)

lemma submit_contribution_InrE:
  assumes "submit_contribution X L r = Inr (L', i)"
  obtains json row score_sql prior_content where
    "cr_verify X r = Inr ()" "cr_network_id r = lg_network L"
    "json_receipt X r = Inr json" "length json \<le> MAX_SERIALIZED_RECEIPT_BYTES" "cr_id X r = Inr i"
    "row = \<lparr>rr_id = i, rr_session_id = cr_session_id r, rr_provider = cr_provider_address r,
       rr_receiver = cr_receiver_address r, rr_content_hash = cr_content_hash r,
       rr_epoch = int (unat (cr_epoch r)), rr_nonce = int (unat (cr_nonce r)),
       rr_json = json, rr_score = score_sql, rr_subsidy = 0, rr_fee = 0, rr_phase = None,
       rr_status = Pending\<rparr>"
    "count_u32 (length (filter (same_content row) (db_receipts (lg_db L)))) = Inr prior_content"
    "prior_content < max_same_content_per_pair_epoch (lg_anti_fraud L)"
    "int (unat (cr_epoch r)) \<le> 9223372036854775807" "int (unat (cr_nonce r)) \<le> 9223372036854775807"
    "score_sql = int (score_value (cr_service_type r) (unat (cr_bytes_delivered r))
       (length (filter (\<lambda>q. rr_provider q = cr_provider_address r \<and> rr_receiver q = cr_receiver_address r
          \<and> rr_epoch q = int (unat (cr_epoch r))) (db_receipts (lg_db L)))))"
    "score_sql \<le> 9223372036854775807"
    "insert_receipt row (db_receipts (lg_db L)) = Inr (db_receipts (lg_db L'))"
    "L' = L\<lparr>lg_db := (lg_db L)\<lparr>db_receipts := db_receipts (lg_db L')\<rparr>\<rparr>"
proof -
  let ?rows = "db_receipts (lg_db L)"
  obtain json e n sc score pp pc rows where
    1: "cr_verify X r = Inr ()" "cr_network_id r = lg_network L" "json_receipt X r = Inr json"
      "\<not> MAX_SERIALIZED_RECEIPT_BYTES < length json" "cr_id X r = Inr i" "sql_u64 (cr_epoch r) = Inr e" and
    2: "count_u32 (length (filter (\<lambda>q. rr_provider q = cr_provider_address r
           \<and> rr_receiver q = cr_receiver_address r \<and> rr_epoch q = e) ?rows)) = Inr pp"
      "count_u32 (length (filter (\<lambda>q. rr_content_hash q = cr_content_hash r) (filter (\<lambda>q. rr_provider q = cr_provider_address r
           \<and> rr_receiver q = cr_receiver_address r \<and> rr_epoch q = e) ?rows))) = Inr pc"
      "anti_fraud_score (lg_anti_fraud L) (cr_bytes_delivered r) (cr_service_type r) pp pc = Inr score"
      "sql_u64 (cr_nonce r) = Inr n" "sql_u64 score = Inr sc" and
    3: "insert_receipt \<lparr>rr_id = i, rr_session_id = cr_session_id r,
        rr_provider = cr_provider_address r, rr_receiver = cr_receiver_address r,
        rr_content_hash = cr_content_hash r, rr_epoch = e, rr_nonce = n,
        rr_json = json, rr_score = sc, rr_subsidy = 0, rr_fee = 0, rr_phase = None,
        rr_status = Pending\<rparr> ?rows = Inr rows"
      "L' = L\<lparr>lg_db := (lg_db L)\<lparr>db_receipts := rows\<rparr>\<rparr>"
    using assms unfolding submit_contribution_def Let_def
    by (clarsimp simp del: filter_filter)
  define row where "row = \<lparr>rr_id = i, rr_session_id = cr_session_id r,
        rr_provider = cr_provider_address r, rr_receiver = cr_receiver_address r,
        rr_content_hash = cr_content_hash r, rr_epoch = e, rr_nonce = n,
        rr_json = json, rr_score = sc, rr_subsidy = 0, rr_fee = 0, rr_phase = None,
        rr_status = Pending\<rparr>"
  have en: "e = int (unat (cr_epoch r))" "e \<le> 9223372036854775807"
    "n = int (unat (cr_nonce r))" "n \<le> 9223372036854775807"
    using 1(6) 2(4) by (simp_all add: sql_u64_Inr)
  have same: "filter (\<lambda>q. rr_content_hash q = cr_content_hash r) (filter (\<lambda>q. rr_provider q = cr_provider_address r
           \<and> rr_receiver q = cr_receiver_address r \<and> rr_epoch q = e) ?rows) = filter (same_content row) ?rows"
    by (auto simp: same_content_def row_def intro!: filter_cong)
  have sc: "sc = int (unat score)" "sc \<le> 9223372036854775807" using 2(5) by (simp_all add: sql_u64_Inr)
  have pp: "unat pp = length (filter (\<lambda>q. rr_provider q = cr_provider_address r
           \<and> rr_receiver q = cr_receiver_address r \<and> rr_epoch q = e) ?rows)"
    using 2(1) by (auto simp: count_u32_def unat_of_nat_u32 split: if_splits)
  have score: "pc < max_same_content_per_pair_epoch (lg_anti_fraud L)"
    "unat score = score_value (cr_service_type r) (unat (cr_bytes_delivered r)) (unat pp)"
    using 2(3) by (simp_all add: anti_fraud_score_Inr)
  show thesis
  proof (rule that [of json row sc pc])
    show "row = \<lparr>rr_id = i, rr_session_id = cr_session_id r, rr_provider = cr_provider_address r,
       rr_receiver = cr_receiver_address r, rr_content_hash = cr_content_hash r,
       rr_epoch = int (unat (cr_epoch r)), rr_nonce = int (unat (cr_nonce r)),
       rr_json = json, rr_score = sc, rr_subsidy = 0, rr_fee = 0, rr_phase = None,
       rr_status = Pending\<rparr>"
      by (simp add: row_def en)
    show "count_u32 (length (filter (same_content row) ?rows)) = Inr pc"
      using 2(2) by (simp only: same)
    show "insert_receipt row ?rows = Inr (db_receipts (lg_db L'))"
      using 3 by (simp add: row_def)
    show "L' = L\<lparr>lg_db := (lg_db L)\<lparr>db_receipts := db_receipts (lg_db L')\<rparr>\<rparr>"
      using 3 by simp
    show "sc = int (score_value (cr_service_type r) (unat (cr_bytes_delivered r))
       (length (filter (\<lambda>q. rr_provider q = cr_provider_address r \<and> rr_receiver q = cr_receiver_address r
          \<and> rr_epoch q = int (unat (cr_epoch r))) ?rows)))"
      using sc score pp en by simp
  qed (use 1 sc score en in \<open>simp_all add: not_less\<close>)
qed

lemma insert_receipt_Inr:
  "insert_receipt row rows = Inr rows' \<longleftrightarrow> rows' = rows @ [row] \<and>
     0 \<le> rr_epoch row \<and> 0 \<le> rr_nonce row \<and> 0 \<le> rr_score row \<and> 0 \<le> rr_subsidy row \<and> 0 \<le> rr_fee row \<and>
     rr_id row \<notin> rr_id ` set rows \<and> rr_session_id row \<notin> rr_session_id ` set rows \<and>
     (rr_provider row, rr_receiver row, rr_nonce row) \<notin>
       (\<lambda>r. (rr_provider r, rr_receiver r, rr_nonce r)) ` set rows"
  by (auto simp: insert_receipt_def not_less image_iff) metis+

text \<open>An accepted contribution appends one pending row and keeps the invariant.\<close>

lemma submit_contribution_rep:
  assumes "submit_contribution X L r = Inr (L', i)" "smd_ext_ok X"
    and "lg_anti_fraud L = default_anti_fraud" "receipts_rep X (db_receipts (lg_db L)) e"
  shows "receipts_rep X (db_receipts (lg_db L')) e"
    and "L' = L\<lparr>lg_db := (lg_db L)\<lparr>db_receipts := db_receipts (lg_db L')\<rparr>\<rparr>"
proof -
  let ?rows = "db_receipts (lg_db L)"
  from assms(1) obtain json row sc pc where
    1: "cr_verify X r = Inr ()" "json_receipt X r = Inr json" "cr_id X r = Inr i"
    and row: "row = \<lparr>rr_id = i, rr_session_id = cr_session_id r, rr_provider = cr_provider_address r,
       rr_receiver = cr_receiver_address r, rr_content_hash = cr_content_hash r,
       rr_epoch = int (unat (cr_epoch r)), rr_nonce = int (unat (cr_nonce r)),
       rr_json = json, rr_score = sc, rr_subsidy = 0, rr_fee = 0, rr_phase = None,
       rr_status = Pending\<rparr>"
    and pc: "count_u32 (length (filter (same_content row) ?rows)) = Inr pc"
      "pc < max_same_content_per_pair_epoch (lg_anti_fraud L)"
    and sc: "sc \<le> 9223372036854775807"
    and ins: "insert_receipt row ?rows = Inr (db_receipts (lg_db L'))"
    and L': "L' = L\<lparr>lg_db := (lg_db L)\<lparr>db_receipts := db_receipts (lg_db L')\<rparr>\<rparr>"
    by (rule submit_contribution_InrE) blast
  show "L' = L\<lparr>lg_db := (lg_db L)\<lparr>db_receipts := db_receipts (lg_db L')\<rparr>\<rparr>" by (rule L')
  have "json_receipt_parse X json = Inr r"
    using ext_json(3) [OF assms(2), of r] 1(2) by auto
  then have ok: "receipt_row_ok X row"
    using 1 sc ins by (auto simp: receipt_row_ok_def row insert_receipt_Inr)
  have "unat pc = length (filter (same_content row) ?rows)"
    using pc(1) by (auto simp: count_u32_def unat_of_nat_u32 split: if_splits)
  moreover have "unat pc < 3" using pc(2) assms(3) by (simp add: word_less_nat_alt)
  ultimately have few: "length (filter (same_content row) ?rows) < 3" by simp
  have sub: "subsidies p ep (?rows @ [row]) = subsidies p ep ?rows" for p ep
    by (simp add: subsidies_def row)
  have three: "length (filter (same_content q) (?rows @ [row])) \<le> 3" for q
  proof (cases "same_content q row")
    case True
    then have "filter (same_content q) ?rows = filter (same_content row) ?rows"
      by (intro filter_cong) (auto simp: same_content_def)
    with few True show ?thesis by simp
  next
    case False
    then show ?thesis using assms(4) by (simp add: receipts_rep_def)
  qed
  show "receipts_rep X (db_receipts (lg_db L')) e"
    using assms(4) ins ok three sub
    by (auto simp: receipts_rep_def insert_receipt_Inr row)
qed

section \<open>Mining\<close>

text \<open>Marking a pending row as rewarded.\<close>

definition mark_rewarded :: "receipt_row \<Rightarrow> int \<Rightarrow> int \<Rightarrow> int \<Rightarrow> receipt_row" where
  "mark_rewarded r subsidy fee phase =
     r\<lparr>rr_subsidy := subsidy, rr_fee := fee, rr_phase := Some phase, rr_status := Rewarded\<rparr>"

lemma static_mark [simp]: "static_columns (mark_rewarded r a b c) = static_columns r"
  and mark_simps [simp]: "rr_id (mark_rewarded r a b c) = rr_id r"
    "rr_subsidy (mark_rewarded r a b c) = a" "rr_status (mark_rewarded r a b c) = Rewarded"
    "rr_provider (mark_rewarded r a b c) = rr_provider r" "rr_epoch (mark_rewarded r a b c) = rr_epoch r"
  by (simp_all add: static_columns_def mark_rewarded_def)

lemma static_eq_iff:
  "static_columns q = static_columns r \<Longrightarrow> rr_id q = rr_id r \<and> rr_session_id q = rr_session_id r
     \<and> rr_provider q = rr_provider r \<and> rr_receiver q = rr_receiver r \<and> rr_content_hash q = rr_content_hash r
     \<and> rr_epoch q = rr_epoch r \<and> rr_nonce q = rr_nonce r \<and> rr_json q = rr_json r \<and> rr_score q = rr_score r"
  by (simp add: static_columns_def)

text \<open>Lists of rows with the same static columns agree on every key.\<close>

lemma static_map:
  assumes "map static_columns rows' = map static_columns rows"
    and "\<And>q r. static_columns q = static_columns r \<Longrightarrow> f q = f r"
  shows "map f rows' = map f rows"
proof -
  have "length rows' = length rows" using assms(1) by (rule map_eq_imp_length_eq)
  then show ?thesis using assms(1)
    by (induction rows' rows rule: list_induct2) (auto intro: assms(2))
qed

lemma static_count:
  assumes "map static_columns rows' = map static_columns rows"
    and "\<And>q r. static_columns q = static_columns r \<Longrightarrow> P q = P r"
  shows "length (filter P rows') = length (filter P rows)"
proof -
  have "length (filter id (map P rows')) = length (filter id (map P rows))"
    using static_map [OF assms] by simp
  then show ?thesis by (simp add: filter_map o_def)
qed

lemma receipts_rep_mark:
  assumes "receipts_rep X rows e" "r \<in> set rows" "rr_status r = Pending"
    and "0 \<le> x" "subsidies (rr_provider r) (rr_epoch r) rows + x \<le> epoch_cap"
    and rows': "rows' = map (\<lambda>q. if rr_id q = rr_id r \<and> rr_status q = Pending then
       q\<lparr>rr_subsidy := x, rr_fee := 0, rr_phase := Some ph, rr_status := Rewarded\<rparr> else q) rows"
  shows "receipts_rep X rows' (e + x)" and "map static_columns rows' = map static_columns rows"
proof -
  have d: "distinct (map rr_id rows)" using assms(1) by (simp add: receipts_rep_def)
  have only: "q = r" if "q \<in> set rows" "rr_id q = rr_id r" for q
    using distinct_key_unique [OF d that(1) assms(2) that(2)] .
  let ?r = "mark_rewarded r x 0 ph"
  have rows2: "rows' = map (\<lambda>q. if rr_id q = rr_id r then ?r else q) rows"
    unfolding rows' by (rule map_cong [OF refl]) (use only assms(3) in \<open>auto simp: mark_rewarded_def\<close>)
  show st: "map static_columns rows' = map static_columns rows"
  proof -
    have "static_columns (if rr_id q = rr_id r then ?r else q) = static_columns q" if "q \<in> set rows" for q
    proof (cases "rr_id q = rr_id r")
      case True
      from only [OF that True] show ?thesis by simp
    qed simp
    then show ?thesis unfolding rows2 by simp
  qed
  have sum: "sum_list (map f rows') = sum_list (map f rows) - f r + f ?r" for f :: "receipt_row \<Rightarrow> int"
    unfolding rows2 by (rule sum_replace_key [OF d assms(2)])
  have zero: "rr_subsidy r = 0" using assms(1-3) by (auto simp: receipts_rep_def receipt_row_ok_def)
  have subs: "subsidies p ep rows' = subsidies p ep rows +
      (if rr_provider r = p \<and> rr_epoch r = ep then x else 0)" for p ep
    unfolding subsidies_def sum_list_map_filter' sum by (simp add: zero)
  have "subsidies p ep rows' \<le> epoch_cap" for p ep
    using assms(1,5) by (auto simp: subs receipts_rep_def)
  moreover have "receipt_row_ok X q" if "q \<in> set rows'" for q
  proof -
    from that have "q = ?r \<or> q \<in> set rows" unfolding rows2 by auto
    moreover have "receipt_row_ok X r" using assms(1,2) by (simp add: receipts_rep_def)
    then have "receipt_row_ok X ?r" using assms(4) by (auto simp: receipt_row_ok_def mark_rewarded_def)
    ultimately show ?thesis using assms(1) by (auto simp: receipts_rep_def)
  qed
  moreover have "map rr_id rows' = map rr_id rows" "map rr_session_id rows' = map rr_session_id rows"
    "map (\<lambda>r. (rr_provider r, rr_receiver r, rr_nonce r)) rows' =
     map (\<lambda>r. (rr_provider r, rr_receiver r, rr_nonce r)) rows"
    by (rule static_map [OF st]; simp add: static_columns_def)+
  moreover have "length (filter (same_content q) rows') = length (filter (same_content q) rows)" for q
    by (rule static_count [OF st]) (simp add: static_columns_def same_content_def)
  ultimately show "receipts_rep X rows' (e + x)"
    using assms(1) by (simp add: receipts_rep_def sum zero)
qed

text \<open>The loop invariant of mining, relative to the database and supply it started from.\<close>

definition mining_rep :: "smd_ext \<Rightarrow> ledger_db \<Rightarrow> supply_state \<Rightarrow> mining \<Rightarrow> bool" where
  "mining_rep X db0 st0 m \<longleftrightarrow>
     accounts_rep (mn_db m) (int (units GENESIS_RESERVE + units (mn_emitted m)))
       (int (units (reserve_balance st0))) \<and>
     units (mn_emitted m) \<le> units MAX_NETWORK_EMISSION \<and>
     units (mn_emitted m) = units (network_emitted_supply st0) + units (mn_total_subsidy m) \<and>
     units (mn_total_fees m) = 0 \<and>
     receipts_rep X (db_receipts (mn_db m)) (int (units (mn_emitted m))) \<and>
     map static_columns (db_receipts (mn_db m)) = map static_columns (db_receipts db0) \<and>
     mn_db m = db0\<lparr>db_accounts := db_accounts (mn_db m), db_receipts := db_receipts (mn_db m)\<rparr> \<and>
     nonce_of (mn_db m) = nonce_of db0"

lemma mine_receipt_InrE:
  assumes "mine_receipt X policy epoch m r = Inr m'"
  obtains i row score quote already already_amount remaining subsidy db subsidy_sql where
    "cr_id X r = Inr i" "row \<in> set (db_receipts (mn_db m))" "rr_id row = i" "rr_status row = Pending"
    "u64_from_sql (rr_score row) ''contribution score'' = Inr score"
    "emission_quote score (mn_emitted m) = Inr quote"
    "int (unat epoch) \<le> 9223372036854775807"
    "sql_sum (map rr_subsidy (filter (\<lambda>q. rr_provider q = cr_provider_address r
        \<and> rr_epoch q = int (unat epoch) \<and> rr_status q = Rewarded) (db_receipts (mn_db m)))) = Inr already"
    "amount_from_sql already = Inr already_amount"
    "amount_sub (max_protocol_reward_per_address_epoch policy) already_amount = Inr remaining"
    "units subsidy = min (units (eq_protocol_subsidy quote)) (units remaining)"
    "credit_account (cr_provider_address r) (cr_provider_public_key r) subsidy (mn_db m) = Inr db"
    "units (mn_emitted m') = units (mn_emitted m) + units subsidy"
    "units (mn_emitted m') \<le> units MAX_NETWORK_EMISSION"
    "units (mn_total_subsidy m') = units (mn_total_subsidy m) + units subsidy"
    "mn_total_fees m' = mn_total_fees m" "subsidy_sql = int (units subsidy)"
    "mn_db m' = db\<lparr>db_receipts := map (\<lambda>q. if rr_id q = i \<and> rr_status q = Pending then
           q\<lparr>rr_subsidy := subsidy_sql, rr_fee := 0,
             rr_phase := Some (int (unat (eq_phase quote))), rr_status := Rewarded\<rparr> else q)
         (db_receipts db)\<rparr>"
proof -
  obtain i row score quote e already already_amount remaining credit db emitted total ts tf ssql fsql where
    1: "cr_id X r = Inr i" "find (\<lambda>q. rr_id q = i) (db_receipts (mn_db m)) = Some row"
      "\<not> rr_status row \<noteq> Pending" "u64_from_sql (rr_score row) ''contribution score'' = Inr score"
      "emission_quote score (mn_emitted m) = Inr quote" "sql_u64 epoch = Inr e" and
    2: "sql_sum (map rr_subsidy (filter (\<lambda>q. rr_provider q = cr_provider_address r
        \<and> rr_epoch q = e \<and> rr_status q = Rewarded) (db_receipts (mn_db m)))) = Inr already"
      "amount_from_sql already = Inr already_amount"
      "amount_sub (max_protocol_reward_per_address_epoch policy) already_amount = Inr remaining" and
    3: "amount_add (from_atomic (min (atomic (eq_protocol_subsidy quote)) (atomic remaining)))
         (user_resource_fee V01_pricing (cr_bytes_delivered r)) = Inr credit"
      "credit_account (cr_provider_address r) (cr_provider_public_key r) credit (mn_db m) = Inr db"
      "amount_add (mn_emitted m) (from_atomic (min (atomic (eq_protocol_subsidy quote)) (atomic remaining)))
        = Inr emitted"
      "\<not> emitted > MAX_NETWORK_EMISSION" "checked_add (mn_total_score m) score = Some total"
      "amount_add (mn_total_subsidy m) (from_atomic (min (atomic (eq_protocol_subsidy quote)) (atomic remaining)))
        = Inr ts"
      "amount_add (mn_total_fees m) (user_resource_fee V01_pricing (cr_bytes_delivered r)) = Inr tf"
      "amount_to_sql (from_atomic (min (atomic (eq_protocol_subsidy quote)) (atomic remaining))) = Inr ssql"
      "amount_to_sql (user_resource_fee V01_pricing (cr_bytes_delivered r)) = Inr fsql" and
    4: "m' = \<lparr>mn_db = db\<lparr>db_receipts := map (\<lambda>q. if rr_id q = i \<and> rr_status q = Pending then
           q\<lparr>rr_subsidy := ssql, rr_fee := fsql,
             rr_phase := Some (int (unat (eq_phase quote))), rr_status := Rewarded\<rparr> else q)
         (db_receipts db)\<rparr>, mn_emitted = emitted, mn_total_score = total,
       mn_total_subsidy = ts, mn_total_fees = tf, mn_last_phase = eq_phase quote\<rparr>"
    using assms unfolding mine_receipt_def Let_def
    by (clarsimp simp del: filter_filter)
  define subsidy where "subsidy = from_atomic (min (atomic (eq_protocol_subsidy quote)) (atomic remaining))"
  have u: "units subsidy = min (units (eq_protocol_subsidy quote)) (units remaining)"
    by (simp add: subsidy_def min_def word_le_nat_alt)
  have fee: "user_resource_fee V01_pricing (cr_bytes_delivered r) = ZERO" by (simp add: V01_pricing_def)
  have "credit = subsidy" using 3(1) by (simp add: fee amount_add_Inr amount_eq_units flip: subsidy_def)
  moreover have "e = int (unat epoch)" "int (unat epoch) \<le> 9223372036854775807"
    using 1(6) by (simp_all add: sql_u64_Inr)
  moreover have "tf = mn_total_fees m" "fsql = 0" "ssql = int (units subsidy)"
    using 3(7-9) by (simp_all add: fee amount_add_Inr amount_eq_units amount_to_sql_Inr flip: subsidy_def)
  moreover have "units emitted = units (mn_emitted m) + units subsidy"
    "units ts = units (mn_total_subsidy m) + units subsidy"
    using 3(3,6) by (simp_all add: amount_add_Inr flip: subsidy_def)
  moreover have "units emitted \<le> units MAX_NETWORK_EMISSION" using 3(4) by (simp add: amount_less_units)
  moreover have "row \<in> set (db_receipts (mn_db m))" "rr_id row = i"
    using find_Some_memD [OF 1(2)] by simp_all
  ultimately show thesis
    using 1 2 3(2) 4 u by (intro that [of i row score quote already already_amount remaining subsidy db ssql]) auto
qed

text \<open>What a receipt selected for epoch \<open>e\<close> is: the parse of a row of that epoch.\<close>

definition selected :: "smd_ext \<Rightarrow> ledger_db \<Rightarrow> int \<Rightarrow> contribution_receipt \<Rightarrow> bool" where
  "selected X db0 e c \<longleftrightarrow>
     (\<exists>row \<in> set (db_receipts db0). rr_epoch row = e \<and> json_receipt_parse X (rr_json row) = Inr c)"

lemma selected_row:
  assumes "selected X db0 e c" "cr_id X c = Inr (rr_id row)" "row \<in> set rows"
    and "map static_columns rows = map static_columns (db_receipts db0)"
    and "receipts_rep X rows emitted"
  shows "rr_epoch row = e \<and> rr_provider row = cr_provider_address c \<and> cr_verify X c = Inr ()"
proof -
  obtain row0 where row0: "row0 \<in> set (db_receipts db0)" "rr_epoch row0 = e"
    "json_receipt_parse X (rr_json row0) = Inr c"
    using assms(1) by (auto simp: selected_def)
  have "static_columns row0 \<in> set (map static_columns rows)" using row0(1) assms(4) by simp
  then obtain row1 where row1: "row1 \<in> set rows" "static_columns row1 = static_columns row0" by auto
  have s: "rr_epoch row1 = rr_epoch row0" "rr_json row1 = rr_json row0"
    using static_eq_iff [OF row1(2)] by simp_all
  have ok: "receipt_row_ok X row1" using assms(5) row1(1) by (simp add: receipts_rep_def)
  then have c: "cr_id X c = Inr (rr_id row1)" "cr_provider_address c = rr_provider row1" "cr_verify X c = Inr ()"
    using row0(3) s by (auto simp: receipt_row_ok_def)
  have "row1 = row"
    using distinct_key_unique [of rr_id rows row1 row] assms(2,3,5) c(1) row1(1)
    by (simp add: receipts_rep_def)
  with c s row0 show ?thesis by simp
qed

lemma rewarded_sum:
  assumes "\<forall>r\<in>set rows. receipt_row_ok X r"
  shows "sum_list (map rr_subsidy (filter (\<lambda>q. rr_provider q = p \<and> rr_epoch q = e \<and> rr_status q = Rewarded) rows))
    = subsidies p e rows"
proof -
  have "rr_status r = Rewarded \<or> rr_subsidy r = 0" if "r \<in> set rows" for r
    using assms that by (cases "rr_status r") (auto simp: receipt_row_ok_def)
  then show ?thesis
    unfolding subsidies_def sum_list_map_filter'
    by (intro arg_cong [where f = sum_list] map_cong [OF refl]) auto
qed

lemma mine_receipt_rep:
  assumes "mine_receipt X default_anti_fraud epoch m r = Inr m'" "mining_rep X db0 st0 m" "smd_ext_ok X"
    and "selected X db0 (int (unat epoch)) r"
  shows "mining_rep X db0 st0 m'"
proof -
  from assms(1) obtain i row score quote already already_amount remaining subsidy db ssql where
    1: "cr_id X r = Inr i" "row \<in> set (db_receipts (mn_db m))" "rr_id row = i" "rr_status row = Pending"
      "emission_quote score (mn_emitted m) = Inr quote" and
    2: "sql_sum (map rr_subsidy (filter (\<lambda>q. rr_provider q = cr_provider_address r
        \<and> rr_epoch q = int (unat epoch) \<and> rr_status q = Rewarded) (db_receipts (mn_db m)))) = Inr already"
      "amount_from_sql already = Inr already_amount"
      "amount_sub (max_protocol_reward_per_address_epoch default_anti_fraud) already_amount = Inr remaining"
      "units subsidy = min (units (eq_protocol_subsidy quote)) (units remaining)" and
    3: "credit_account (cr_provider_address r) (cr_provider_public_key r) subsidy (mn_db m) = Inr db"
      "units (mn_emitted m') = units (mn_emitted m) + units subsidy"
      "units (mn_emitted m') \<le> units MAX_NETWORK_EMISSION"
      "units (mn_total_subsidy m') = units (mn_total_subsidy m) + units subsidy"
      "mn_total_fees m' = mn_total_fees m" "ssql = int (units subsidy)" and
    4: "mn_db m' = db\<lparr>db_receipts := map (\<lambda>q. if rr_id q = i \<and> rr_status q = Pending then
           q\<lparr>rr_subsidy := ssql, rr_fee := 0,
             rr_phase := Some (int (unat (eq_phase quote))), rr_status := Rewarded\<rparr> else q)
         (db_receipts db)\<rparr>"
    by (rule mine_receipt_InrE) (rule that, assumption+)
  let ?rows = "db_receipts (mn_db m)"
  have inv: "accounts_rep (mn_db m) (int (units GENESIS_RESERVE + units (mn_emitted m)))
       (int (units (reserve_balance st0)))"
    "units (mn_emitted m) \<le> units MAX_NETWORK_EMISSION"
    "units (mn_emitted m) = units (network_emitted_supply st0) + units (mn_total_subsidy m)"
    "units (mn_total_fees m) = 0"
    "receipts_rep X ?rows (int (units (mn_emitted m)))"
    "map static_columns ?rows = map static_columns (db_receipts db0)"
    "mn_db m = db0\<lparr>db_accounts := db_accounts (mn_db m), db_receipts := ?rows\<rparr>"
    "nonce_of (mn_db m) = nonce_of db0"
    using assms(2) unfolding mining_rep_def by blast+
  have row: "rr_epoch row = int (unat epoch)" "rr_provider row = cr_provider_address r" "cr_verify X r = Inr ()"
    using selected_row [OF assms(4) _ 1(2) inv(6,5)] 1(1,3) by simp_all
  have rows_ok: "\<forall>q\<in>set ?rows. receipt_row_ok X q"
    and caps: "subsidies p e ?rows \<le> epoch_cap" for p e
    using inv(5) by (simp_all add: receipts_rep_def)
  have nonneg: "\<forall>v\<in>set (map rr_subsidy (filter (\<lambda>q. rr_provider q = cr_provider_address r
        \<and> rr_epoch q = int (unat epoch) \<and> rr_status q = Rewarded) ?rows)). 0 \<le> v"
    using rows_ok by (auto simp: receipt_row_ok_def)
  have already: "already = subsidies (rr_provider row) (rr_epoch row) ?rows"
    using 2(1) sql_sum_eq [OF nonneg] caps [of "rr_provider row" "rr_epoch row"]
    unfolding rewarded_sum [OF rows_ok] row(1,2) by (simp add: epoch_cap_def)
  then have "int (units already_amount) = already"
    using 2(2) caps [of "rr_provider row" "rr_epoch row"] by (simp add: amount_from_sql_Inr epoch_cap_def)
  then have cap: "subsidies (rr_provider row) (rr_epoch row) ?rows + int (units subsidy) \<le> epoch_cap"
    using 2(3,4) already by (simp add: amount_sub_Inr epoch_cap_def)
  have m: "int (units GENESIS_RESERVE + units (mn_emitted m)) \<le> 1200000000000000"
    using inv(2) by simp
  note credit = credit_account_rep [OF 3(1) inv(1) m verified_provider_not_reserve [OF assms(3) row(3)]]
  have dbr: "db_receipts db = ?rows" using arg_cong [OF credit(4), of db_receipts] by simp
  define rows' where "rows' = map (\<lambda>q. if rr_id q = rr_id row \<and> rr_status q = Pending then
       q\<lparr>rr_subsidy := int (units subsidy), rr_fee := 0, rr_phase := Some (int (unat (eq_phase quote))),
         rr_status := Rewarded\<rparr> else q) ?rows"
  note mark = receipts_rep_mark [OF inv(5) 1(2,4) of_nat_0_le_iff cap rows'_def]
  have m'db: "mn_db m' = db\<lparr>db_receipts := rows'\<rparr>"
    unfolding 4 dbr rows'_def 3(6) 1(3) ..
  then have acc: "db_accounts (mn_db m') = db_accounts db" "db_receipts (mn_db m') = rows'" by simp_all
  have "accounts_rep (mn_db m') (int (units GENESIS_RESERVE + units (mn_emitted m')))
       (int (units (reserve_balance st0)))"
    using credit(1) 3(2) accounts_rep_cong [OF acc(1)] by (simp add: add.assoc)
  moreover have "nonce_of (mn_db m') = nonce_of db0"
    using credit(3) inv(8) acc(1) by (simp add: nonce_of_def fun_eq_iff)
  moreover have "mn_db m' = db0\<lparr>db_accounts := db_accounts (mn_db m'), db_receipts := db_receipts (mn_db m')\<rparr>"
  proof -
    have "mn_db m' = (mn_db m)\<lparr>db_accounts := db_accounts db, db_receipts := rows'\<rparr>"
      unfolding m'db by (subst credit(4)) simp
    also have "\<dots> = db0\<lparr>db_accounts := db_accounts db, db_receipts := rows'\<rparr>"
      by (subst inv(7)) simp
    finally show ?thesis using acc by simp
  qed
  ultimately show ?thesis
    using mark inv 3 acc(2) unfolding mining_rep_def by simp
qed

end
