(* ===== verification/Smd_Ledger_Reach.thy ===== *)
theory Smd_Ledger_Reach
  imports Smd_Rewards
begin

text \<open>
  The ledger's invariant, its preservation by every operation that writes, and the states
  reachable from a new file: sequences of batches, contributions, minings and restarts.
\<close>

section \<open>Mining a whole epoch\<close>

lemma pending_selected:
  assumes "pending_receipts X L epoch = Inr pending" "c \<in> set pending"
  shows "selected X (lg_db L) (int (unat epoch)) c"
proof -
  obtain e where e: "sql_u64 epoch = Inr e"
    and m: "try_map (\<lambda>r. json_receipt_parse X (rr_json r))
       (sort_key rr_id (filter (\<lambda>r. rr_epoch r = e \<and> rr_status r = Pending) (db_receipts (lg_db L)))) = Inr pending"
    using assms(1) by (auto simp: pending_receipts_def)
  obtain k where k: "k < length pending" "c = pending ! k" using assms(2) by (metis in_set_conv_nth)
  let ?xs = "sort_key rr_id (filter (\<lambda>r. rr_epoch r = e \<and> rr_status r = Pending) (db_receipts (lg_db L)))"
  have "k < length ?xs" using try_map_length [OF m] k(1) by simp
  then have "json_receipt_parse X (rr_json (?xs ! k)) = Inr c" "?xs ! k \<in> set ?xs"
    using try_map_nth [OF m] k(2) by (simp_all only: nth_mem)
  then show ?thesis using e by (auto simp: selected_def sql_u64_Inr)
qed

lemma mine_rewards_InrE:
  assumes "mine_rewards X order L epoch = Inr (L', summary)"
  obtains pending receipts prior m after epochs subsidy where
    "pending_receipts X L epoch = Inr pending" "order pending = Inr receipts"
    "read_supply (lg_db L) = Inr prior"
    "try_fold (mine_receipt X (lg_anti_fraud L) epoch)
        \<lparr>mn_db = lg_db L, mn_emitted = network_emitted_supply prior, mn_total_score = 0,
         mn_total_subsidy = ZERO, mn_total_fees = ZERO,
         mn_last_phase = word_of_nat (emission_phase (network_emitted_supply prior))\<rparr> receipts = Inr m"
    "from_components (mn_emitted m) (reserve_balance prior) = Inr after"
    "subsidy = int (units (mn_total_subsidy m))"
    "upsert_epoch \<lparr>ep_epoch = int (unat epoch),
        ep_receipts_processed = int (unat (word_of_nat (length receipts) :: u64)),
        ep_subsidy = subsidy\<rparr> (db_epochs (mn_db m)) = Inr epochs"
    "L' = L\<lparr>lg_db := (mn_db m)\<lparr>db_supply := map_option (\<lambda>_. supply_row_of after) (db_supply (mn_db m)),
       db_epochs := epochs\<rparr>\<rparr>"
    "rs_epoch summary = epoch" "rs_protocol_subsidy summary = mn_total_subsidy m"
    "rs_user_resource_fees summary = mn_total_fees m"
    "rs_receipts_processed summary = word_of_nat (length receipts)"
proof -
  obtain pending receipts prior m after db e n s epochs where
    1: "pending_receipts X L epoch = Inr pending" "order pending = Inr receipts"
      "read_supply (lg_db L) = Inr prior"
      "try_fold (mine_receipt X (lg_anti_fraud L) epoch)
        \<lparr>mn_db = lg_db L, mn_emitted = network_emitted_supply prior, mn_total_score = 0,
         mn_total_subsidy = ZERO, mn_total_fees = ZERO,
         mn_last_phase = word_of_nat (emission_phase (network_emitted_supply prior))\<rparr> receipts = Inr m"
      "from_components (mn_emitted m) (reserve_balance prior) = Inr after"
      "write_supply after (mn_db m) = Inr db" "sql_u64 epoch = Inr e"
      "sql_u64 (word_of_nat (length receipts)) = Inr n" "amount_to_sql (mn_total_subsidy m) = Inr s"
      "upsert_epoch \<lparr>ep_epoch = e, ep_receipts_processed = n, ep_subsidy = s\<rparr> (db_epochs db) = Inr epochs" and
    2: "L' = L\<lparr>lg_db := db\<lparr>db_epochs := epochs\<rparr>\<rparr>"
      "summary = \<lparr>rs_epoch = epoch, rs_receipts_processed = word_of_nat (length receipts),
        rs_total_score_bytes = mn_total_score m, rs_protocol_subsidy = mn_total_subsidy m,
        rs_user_resource_fees = mn_total_fees m, rs_emission_phase = mn_last_phase m\<rparr>"
    using assms unfolding mine_rewards_def Let_def by clarsimp
  have db: "db = (mn_db m)\<lparr>db_supply := map_option (\<lambda>_. supply_row_of after) (db_supply (mn_db m))\<rparr>"
    using write_supply_Inr [OF 1(6)] by simp
  show thesis
    by (rule that [OF 1(1-5) refl])
       (use 1 2 db in \<open>simp_all add: sql_u64_Inr amount_to_sql_Inr\<close>)
qed

section \<open>The invariant of the ledger\<close>

text \<open>The nonces of a sender's transactions are 0, 1, 2, ... up to its account's nonce.\<close>

definition transactions_rep :: "ledger_db \<Rightarrow> bool" where
  "transactions_rep db \<longleftrightarrow>
     distinct (map tr_id (db_transactions db)) \<and>
     (\<forall>a. map tr_nonce (filter (\<lambda>r. tr_from r = a) (db_transactions db)) = map int [0..<nat (nonce_of db a)])"

definition epochs_rep :: "ledger_db \<Rightarrow> int \<Rightarrow> bool" where
  "epochs_rep db emitted \<longleftrightarrow> distinct (map ep_epoch (db_epochs db)) \<and>
     (\<forall>r\<in>set (db_epochs db). 0 \<le> ep_epoch r \<and> 0 \<le> ep_receipts_processed r \<and> 0 \<le> ep_subsidy r) \<and>
     sum_list (map ep_subsidy (db_epochs db)) = emitted"

definition ledger_holds :: "smd_ext \<Rightarrow> ledger \<Rightarrow> supply_state \<Rightarrow> bool" where
  "ledger_holds X L st \<longleftrightarrow>
     lg_network L = Devnet \<and> lg_anti_fraud L = default_anti_fraud \<and>
     map_of (db_metadata (lg_db L)) ''network_id'' = Some ''devnet'' \<and>
     map_of (db_metadata (lg_db L)) ''schema_version'' \<noteq> None \<and>
     ledger_rep (lg_db L) st \<and>
     receipts_rep X (db_receipts (lg_db L)) (int (units (network_emitted_supply st))) \<and>
     transactions_rep (lg_db L) \<and>
     epochs_rep (lg_db L) (int (units (network_emitted_supply st)))"

definition ledger_inv :: "smd_ext \<Rightarrow> ledger \<Rightarrow> bool" where
  "ledger_inv X L \<longleftrightarrow> (\<exists>st. ledger_holds X L st)"

lemma upsert_epoch_sum:
  assumes "upsert_epoch row t = Inr t'" "distinct (map ep_epoch t)"
    and "\<forall>r\<in>set t. 0 \<le> ep_epoch r \<and> 0 \<le> ep_receipts_processed r \<and> 0 \<le> ep_subsidy r"
  shows "distinct (map ep_epoch t')"
    and "\<forall>r\<in>set t'. 0 \<le> ep_epoch r \<and> 0 \<le> ep_receipts_processed r \<and> 0 \<le> ep_subsidy r"
    and "sum_list (map ep_subsidy t') = sum_list (map ep_subsidy t) + ep_subsidy row"
proof -
  have nn: "0 \<le> ep_epoch row" "0 \<le> ep_receipts_processed row" "0 \<le> ep_subsidy row"
    using assms(1) by (auto simp: upsert_epoch_def split: if_splits)
  have "distinct (map ep_epoch t') \<and>
    (\<forall>r\<in>set t'. 0 \<le> ep_epoch r \<and> 0 \<le> ep_receipts_processed r \<and> 0 \<le> ep_subsidy r) \<and>
    sum_list (map ep_subsidy t') = sum_list (map ep_subsidy t) + ep_subsidy row"
  proof (cases "\<exists>r\<in>set t. ep_epoch r = ep_epoch row")
    case False
    then have "t' = t @ [row]" using assms(1) nn by (auto simp: upsert_epoch_def)
    with False nn assms(2,3) show ?thesis by auto
  next
    case True
    then obtain r where r: "r \<in> set t" "ep_epoch row = ep_epoch r" by auto
    define r' where "r' = r\<lparr>ep_receipts_processed := ep_receipts_processed r + ep_receipts_processed row,
              ep_subsidy := ep_subsidy r + ep_subsidy row\<rparr>"
    have "t' = map (\<lambda>q. if ep_epoch q = ep_epoch row then
            q\<lparr>ep_receipts_processed := ep_receipts_processed q + ep_receipts_processed row,
              ep_subsidy := ep_subsidy q + ep_subsidy row\<rparr> else q) t"
      using assms(1) True nn by (auto simp: upsert_epoch_def)
    also have "\<dots> = map (\<lambda>q. if ep_epoch q = ep_epoch r then r' else q) t"
    proof (rule map_cong [OF refl])
      fix q assume "q \<in> set t"
      then have "ep_epoch q = ep_epoch r \<Longrightarrow> q = r"
        using distinct_key_unique [OF assms(2)] r(1) by blast
      then show "(if ep_epoch q = ep_epoch row then
            q\<lparr>ep_receipts_processed := ep_receipts_processed q + ep_receipts_processed row,
              ep_subsidy := ep_subsidy q + ep_subsidy row\<rparr> else q) =
          (if ep_epoch q = ep_epoch r then r' else q)"
        by (cases "ep_epoch q = ep_epoch r") (simp_all add: r'_def r(2))
    qed
    finally have t': "t' = map (\<lambda>q. if ep_epoch q = ep_epoch r then r' else q) t" .
    have "map ep_epoch t' = map ep_epoch t"
      unfolding t' by (auto simp: r'_def)
    moreover have "sum_list (map ep_subsidy t') = sum_list (map ep_subsidy t) + ep_subsidy row"
      unfolding t' using sum_replace_key [OF assms(2) r(1), of ep_subsidy r'] by (simp add: r'_def)
    moreover have "set t' \<subseteq> insert r' (set t)" unfolding t' by auto
    ultimately show ?thesis using assms(2,3) r nn by (auto simp: r'_def)
  qed
  then show "distinct (map ep_epoch t')"
    "\<forall>r\<in>set t'. 0 \<le> ep_epoch r \<and> 0 \<le> ep_receipts_processed r \<and> 0 \<le> ep_subsidy r"
    "sum_list (map ep_subsidy t') = sum_list (map ep_subsidy t) + ep_subsidy row" by blast+
qed

section \<open>Every operation keeps the invariant\<close>

lemma mine_rewards_holds:
  assumes "mine_rewards X order L epoch = Inr (L', summary)" "ledger_holds X L st"
    and "smd_ext_ok X" "consensus_engine order"
  shows "\<exists>st'. ledger_holds X L' st' \<and>
     units (network_emitted_supply st') = units (network_emitted_supply st) + units (rs_protocol_subsidy summary) \<and>
     reserve_balance st' = reserve_balance st \<and> units (rs_user_resource_fees summary) = 0 \<and>
     nonce_of (lg_db L') = nonce_of (lg_db L) \<and>
     map static_columns (db_receipts (lg_db L')) = map static_columns (db_receipts (lg_db L))"
proof -
  from assms(1) obtain pending receipts prior m after epochs subsidy where
    1: "pending_receipts X L epoch = Inr pending" "order pending = Inr receipts"
      "read_supply (lg_db L) = Inr prior"
      "try_fold (mine_receipt X (lg_anti_fraud L) epoch)
        \<lparr>mn_db = lg_db L, mn_emitted = network_emitted_supply prior, mn_total_score = 0,
         mn_total_subsidy = ZERO, mn_total_fees = ZERO,
         mn_last_phase = word_of_nat (emission_phase (network_emitted_supply prior))\<rparr> receipts = Inr m"
      "from_components (mn_emitted m) (reserve_balance prior) = Inr after" and
    2: "subsidy = int (units (mn_total_subsidy m))"
      "upsert_epoch \<lparr>ep_epoch = int (unat epoch),
        ep_receipts_processed = int (unat (word_of_nat (length receipts) :: u64)),
        ep_subsidy = subsidy\<rparr> (db_epochs (mn_db m)) = Inr epochs" and
    3: "L' = L\<lparr>lg_db := (mn_db m)\<lparr>db_supply := map_option (\<lambda>_. supply_row_of after) (db_supply (mn_db m)),
       db_epochs := epochs\<rparr>\<rparr>"
      "rs_protocol_subsidy summary = mn_total_subsidy m" "rs_user_resource_fees summary = mn_total_fees m"
    by (rule mine_rewards_InrE) (rule that, assumption+)
  have h: "lg_network L = Devnet" "lg_anti_fraud L = default_anti_fraud" "ledger_rep (lg_db L) st"
    "receipts_rep X (db_receipts (lg_db L)) (int (units (network_emitted_supply st)))"
    "transactions_rep (lg_db L)" "epochs_rep (lg_db L) (int (units (network_emitted_supply st)))"
    using assms(2) by (simp_all add: ledger_holds_def)
  have prior: "prior = st" using 1(3) read_supply_rep [OF h(3)] by simp
  have sc: "supply_consistent st" using h(3) by (simp add: ledger_rep_def)
  have sel: "selected X (lg_db L) (int (unat epoch)) c" if "c \<in> set receipts" for c
    using pending_selected [OF 1(1)] consensus_engine.order_set [OF assms(4) 1(2)] that by simp
  have "accounts_rep (lg_db L) (int (units GENESIS_RESERVE + units (network_emitted_supply st)))
      (int (units (reserve_balance st)))"
    using h(3) sc by (metis ledger_rep_iff supply_consistent_def)
  then have start: "mining_rep X (lg_db L) st
      \<lparr>mn_db = lg_db L, mn_emitted = network_emitted_supply st, mn_total_score = 0,
       mn_total_subsidy = ZERO, mn_total_fees = ZERO,
       mn_last_phase = word_of_nat (emission_phase (network_emitted_supply st))\<rparr>"
    using h(4) sc by (simp add: mining_rep_def supply_consistent_def)
  have m: "mining_rep X (lg_db L) st m"
    by (rule try_fold_invariant [where I = "mining_rep X (lg_db L) st", OF 1(4) [unfolded prior h(2)] start])
       (rule mine_receipt_rep [OF _ _ assms(3)], assumption+, rule sel)
  have after: "supply_consistent after" "network_emitted_supply after = mn_emitted m"
    "reserve_balance after = reserve_balance st"
    using 1(5) by (simp_all add: from_components_Inr prior)
  have m_db: "mn_db m = (lg_db L)\<lparr>db_accounts := db_accounts (mn_db m), db_receipts := db_receipts (mn_db m)\<rparr>"
    and m': "accounts_rep (mn_db m) (int (units GENESIS_RESERVE + units (mn_emitted m)))
       (int (units (reserve_balance st)))"
      "units (mn_emitted m) = units (network_emitted_supply st) + units (mn_total_subsidy m)"
      "units (mn_total_fees m) = 0"
      "receipts_rep X (db_receipts (mn_db m)) (int (units (mn_emitted m)))"
      "nonce_of (mn_db m) = nonce_of (lg_db L)"
      "map static_columns (db_receipts (mn_db m)) = map static_columns (db_receipts (lg_db L))"
    using m unfolding mining_rep_def by blast+
  have same: "db_epochs (mn_db m) = db_epochs (lg_db L)" "db_transactions (mn_db m) = db_transactions (lg_db L)"
    "db_metadata (mn_db m) = db_metadata (lg_db L)" "db_supply (mn_db m) = db_supply (lg_db L)"
    using arg_cong [OF m_db, of db_epochs] arg_cong [OF m_db, of db_transactions]
      arg_cong [OF m_db, of db_metadata] arg_cong [OF m_db, of db_supply] by simp_all
  let ?db = "lg_db L'"
  have db: "db_accounts ?db = db_accounts (mn_db m)" "db_receipts ?db = db_receipts (mn_db m)"
    "db_transactions ?db = db_transactions (lg_db L)" "db_metadata ?db = db_metadata (lg_db L)"
    "db_epochs ?db = epochs" "db_supply ?db = Some (supply_row_of after)"
    using h(3) by (simp_all add: 3 same ledger_rep_def)
  have minted: "units (minted_supply after) = units GENESIS_RESERVE + units (mn_emitted m)"
    using after by (simp add: supply_consistent_def)
  have "ledger_rep ?db after"
    using after db minted m'(1) h(3) accounts_rep_cong [OF db(1)] by (simp add: ledger_rep_iff)
  moreover have "transactions_rep ?db"
    using h(5) m'(5) db by (simp add: transactions_rep_def nonce_of_def fun_eq_iff)
  moreover have "epochs_rep ?db (int (units (network_emitted_supply after)))"
  proof -
    have e: "distinct (map ep_epoch (db_epochs (lg_db L)))"
      "\<forall>r\<in>set (db_epochs (lg_db L)). 0 \<le> ep_epoch r \<and> 0 \<le> ep_receipts_processed r \<and> 0 \<le> ep_subsidy r"
      "sum_list (map ep_subsidy (db_epochs (lg_db L))) = int (units (network_emitted_supply st))"
      using h(6) unfolding epochs_rep_def by blast+
    show ?thesis
      unfolding epochs_rep_def db(5) after(2) m'(2)
      using upsert_epoch_sum [OF 2(2) [unfolded same(1)] e(1,2)] e(3) 2(1) by simp
  qed
  ultimately have "ledger_holds X L' after"
    using assms(2) after db m' by (simp add: ledger_holds_def 3)
  moreover have "nonce_of ?db = nonce_of (lg_db L)"
    using m'(5) db(1) by (simp add: nonce_of_def fun_eq_iff)
  moreover have "map static_columns (db_receipts ?db) = map static_columns (db_receipts (lg_db L))"
    using m'(6) db(2) by simp
  ultimately show ?thesis using after(2,3) m'(2,3) 3(2,3) by auto
qed

lemma apply_transaction_tables:
  assumes "apply_transaction X n t epoch db = Inr (db', i)" "ledger_rep db st" "transactions_rep db"
  shows "transactions_rep db'" "db_receipts db' = db_receipts db" "db_epochs db' = db_epochs db"
    "db_metadata db' = db_metadata db"
proof -
  from assms(1,2) obtain sender json db1 receiver where
    sender: "find_account (tx_from t) (db_accounts db) = Some sender" "ac_nonce sender = int (unat (tx_nonce t))"
    and ins: "insert_transaction \<lparr>tr_id = i, tr_json = json, tr_from = tx_from t, tr_to = tx_to t,
       tr_amount = int (units (tx_amount t)), tr_nonce = int (unat (tx_nonce t)), tr_epoch = int (unat epoch)\<rparr>
       (db_transactions db) = Inr (db_transactions db')"
    and db1: "db1 = db\<lparr>db_transactions := db_transactions db', db_accounts := put_account receiver
       (put_account (sender\<lparr>ac_balance := ac_balance sender - int (units (tx_amount t)),
          ac_nonce := ac_nonce sender + 1, ac_public_key := Some (tx_from_public_key t)\<rparr>) (db_accounts db))\<rparr>"
    and fin: "if tx_to t = PERMANENT_RESERVE_ADDRESS
     then \<exists>reserve st'. units reserve = units (reserve_balance st) + units (tx_amount t)
       \<and> supply_consistent st' \<and> network_emitted_supply st' = network_emitted_supply st
       \<and> reserve_balance st' = reserve \<and> db' = db1\<lparr>db_supply := Some (supply_row_of st')\<rparr>
     else db' = db1"
    by (rule apply_transaction_InrE) (rule that, assumption+)
  have db1_proj: "db_receipts db1 = db_receipts db" "db_epochs db1 = db_epochs db"
    "db_metadata db1 = db_metadata db"
    by (simp_all add: db1)
  show "db_receipts db' = db_receipts db" "db_epochs db' = db_epochs db" "db_metadata db' = db_metadata db"
    using fin by (auto simp: db1_proj split: if_splits)
  obtain st' where eff: "transfer_effect db st t db' st'"
    using apply_transaction_rep [OF assms(1,2)] by blast
  then have n: "nonce_of db (tx_from t) = int (unat (tx_nonce t))"
    "nonce_of db' = (nonce_of db)(tx_from t := nonce_of db (tx_from t) + 1)"
    by (simp_all add: transfer_effect_def)
  have new: "db_transactions db' = db_transactions db @ [\<lparr>tr_id = i, tr_json = json, tr_from = tx_from t,
      tr_to = tx_to t, tr_amount = int (units (tx_amount t)), tr_nonce = int (unat (tx_nonce t)),
      tr_epoch = int (unat epoch)\<rparr>]" "i \<notin> tr_id ` set (db_transactions db)"
    using ins by (auto simp: insert_transaction_def split: if_splits)
  have "[0..<nat (int (unat (tx_nonce t)) + 1)] = [0..<unat (tx_nonce t)] @ [unat (tx_nonce t)]"
    by (simp add: nat_add_distrib)
  then show "transactions_rep db'"
    using assms(3) new n by (auto simp: transactions_rep_def)
qed

lemma batch_tables:
  assumes "try_fold (batch_step X n epoch) (db, ids) ts = Inr (db', ids')" "ledger_rep db st" "transactions_rep db"
  shows "transactions_rep db' \<and> db_receipts db' = db_receipts db \<and> db_epochs db' = db_epochs db
     \<and> db_metadata db' = db_metadata db"
  using assms
proof (induction ts arbitrary: db ids st)
  case Nil
  then show ?case by auto
next
  case (Cons t ts)
  then obtain s where s: "batch_step X n epoch (db, ids) t = Inr s"
    "try_fold (batch_step X n epoch) s ts = Inr (db', ids')"
    by auto
  then obtain db1 i where 1: "apply_transaction X n t epoch db = Inr (db1, i)" "s = (db1, ids @ [i])"
    by (auto simp: batch_step_def)
  obtain st1 where "ledger_rep db1 st1"
    using apply_transaction_rep [OF 1(1) Cons.prems(2)] by blast
  with Cons.IH [OF s(2) [unfolded 1(2)]] apply_transaction_tables [OF 1(1) Cons.prems(2,3)]
  show ?case by simp
qed

lemma submit_transactions_holds:
  assumes "submit_transactions_atomically X L ts epoch = Inr (L', ids)" "ledger_holds X L st"
  shows "\<exists>st'. ledger_holds X L' st' \<and> batch_effect (lg_db L) st ts (lg_db L') st' \<and> length ids = length ts"
proof -
  have h: "ledger_rep (lg_db L) st" "transactions_rep (lg_db L)" using assms(2) by (simp_all add: ledger_holds_def)
  obtain st' where st': "ledger_rep (lg_db L') st'" "batch_effect (lg_db L) st ts (lg_db L') st'"
    "length ids = length ts" "L' = L\<lparr>lg_db := lg_db L'\<rparr>"
    using submit_transactions_rep [OF assms(1) h(1)] by blast
  have tables: "transactions_rep (lg_db L') \<and> db_receipts (lg_db L') = db_receipts (lg_db L)
     \<and> db_epochs (lg_db L') = db_epochs (lg_db L) \<and> db_metadata (lg_db L') = db_metadata (lg_db L)"
  proof (cases "ts = []")
    case True
    then show ?thesis using assms(1) h(2) by (simp add: submit_transactions_fold)
  next
    case False
    then obtain db where "try_fold (batch_step X (lg_network L) epoch) (lg_db L, []) ts = Inr (db, ids)"
      "L' = L\<lparr>lg_db := db\<rparr>"
      using assms(1) by (auto simp: submit_transactions_fold)
    then show ?thesis using batch_tables h by auto
  qed
  have "lg_network L' = lg_network L" "lg_anti_fraud L' = lg_anti_fraud L"
    using arg_cong [OF st'(4), of lg_network] arg_cong [OF st'(4), of lg_anti_fraud] by simp_all
  moreover have "network_emitted_supply st' = network_emitted_supply st"
    using batch_effect_supply [OF st'(2)] by simp
  ultimately have "ledger_holds X L' st'"
    using assms(2) st'(1) tables by (simp add: ledger_holds_def epochs_rep_def)
  with st' show ?thesis by blast
qed

lemma submit_contribution_holds:
  assumes "submit_contribution X L r = Inr (L', i)" "ledger_holds X L st" "smd_ext_ok X"
  shows "ledger_holds X L' st"
proof -
  have h: "lg_anti_fraud L = default_anti_fraud" "ledger_rep (lg_db L) st" "transactions_rep (lg_db L)"
    "receipts_rep X (db_receipts (lg_db L)) (int (units (network_emitted_supply st)))"
    using assms(2) by (simp_all add: ledger_holds_def)
  note sub = submit_contribution_rep [OF assms(1,3) h(1,4)]
  define rows where "rows = db_receipts (lg_db L')"
  have L': "L' = L\<lparr>lg_db := (lg_db L)\<lparr>db_receipts := rows\<rparr>\<rparr>"
    using sub(2) unfolding rows_def .
  have "receipts_rep X rows (int (units (network_emitted_supply st)))" using sub(1) by (simp add: rows_def)
  then show ?thesis
    using assms(2) h
    by (simp add: ledger_holds_def L' ledger_rep_def balance_of_def transactions_rep_def nonce_of_def epochs_rep_def)
qed

lemma insert_or_ignore_meta_present:
  "map_of t k \<noteq> None \<Longrightarrow> insert_or_ignore_meta k v t = t"
  by (auto simp: insert_or_ignore_meta_def map_of_eq_None_iff)

lemma genesis_sql [simp]: "amount_to_sql GENESIS_RESERVE = Inr 100000000000000" "amount_to_sql ZERO = Inr 0"
  by (simp_all add: amount_to_sql_def)

lemma initialize_eq:
  "initialize_db Devnet db =
     (let db = db\<lparr>db_metadata := insert_or_ignore_meta ''network_id'' ''devnet''
                 (insert_or_ignore_meta ''schema_version'' ''1'' (db_metadata db))\<rparr> in
      and_then (ok_or (map_of (db_metadata db) ''network_id'') (Foreign ''rusqlite'')) (\<lambda>stored_network.
      bail_if (stored_network \<noteq> ''devnet'') ''ledger belongs to another network''
      (Inr (db\<lparr>db_accounts := insert_or_ignore_account
             \<lparr>ac_address = PERMANENT_RESERVE_ADDRESS, ac_balance = 100000000000000, ac_nonce = 0,
              ac_public_key = None\<rparr> (db_accounts db),
           db_supply := (case db_supply db of
           None \<Rightarrow> Some (supply_row_of supply_genesis) | Some r \<Rightarrow> Some r)\<rparr>))))"
  by (simp add: initialize_db_def Let_def network_as_str_def supply_genesis_def supply_row_of_def
      reserve_address_def split: option.split)

text \<open>A restart reads back the same ledger, and a new file starts in the genesis state.\<close>

lemma reopen_same:
  assumes "ledger_holds X L st"
  shows "ledger_open (lg_db L) Devnet = Inr L"
proof -
  obtain r where r: "find_account PERMANENT_RESERVE_ADDRESS (db_accounts (lg_db L)) = Some r"
    using assms by (auto simp: ledger_holds_def ledger_rep_def)
  have "initialize_db Devnet (lg_db L) = Inr (lg_db L)"
    using assms r
    by (auto simp: initialize_eq ledger_holds_def ledger_rep_def insert_or_ignore_meta_present
        insert_or_ignore_account_def)
  moreover have "verify_invariants L = Inr ()"
    using assms by (auto simp: ledger_holds_def intro: verify_invariants_rep)
  moreover have "L = \<lparr>lg_db = lg_db L, lg_network = Devnet, lg_anti_fraud = default_anti_fraud\<rparr>"
    using assms by (simp add: ledger_holds_def)
  ultimately show ?thesis by (simp add: ledger_open_def Let_def)
qed

definition genesis_ledger :: ledger where
  "genesis_ledger = \<lparr>lg_db = \<lparr>db_metadata = [(''schema_version'', ''1''), (''network_id'', ''devnet'')],
     db_accounts = [\<lparr>ac_address = PERMANENT_RESERVE_ADDRESS, ac_balance = 100000000000000,
       ac_nonce = 0, ac_public_key = None\<rparr>],
     db_transactions = [], db_epochs = [], db_receipts = [],
     db_supply = Some (supply_row_of supply_genesis)\<rparr>,
     lg_network = Devnet, lg_anti_fraud = default_anti_fraud\<rparr>"

lemma genesis_holds: "ledger_holds X genesis_ledger supply_genesis"
  by (simp add: ledger_holds_def genesis_ledger_def ledger_rep_def supply_genesis_def supply_consistent_def
      accounts_ok_def account_row_ok_def accounts_total_def balance_of_def receipts_rep_def subsidies_def
      epoch_cap_def transactions_rep_def nonce_of_def epochs_rep_def)

lemma open_fresh: "ledger_open empty_db Devnet = Inr genesis_ledger"
proof -
  have "initialize_db Devnet empty_db = Inr (lg_db genesis_ledger)"
    by (simp add: initialize_eq empty_db_def genesis_ledger_def insert_or_ignore_meta_def
        insert_or_ignore_account_def account_row_ok_def)
  moreover have "verify_invariants genesis_ledger = Inr ()"
    using genesis_holds by (auto simp: ledger_holds_def intro: verify_invariants_rep)
  ultimately show ?thesis by (simp add: ledger_open_def Let_def genesis_ledger_def)
qed

section \<open>Reachable ledgers\<close>

inductive ledger_step ::
    "smd_ext \<Rightarrow> (contribution_receipt list \<Rightarrow> contribution_receipt list result) \<Rightarrow> ledger \<Rightarrow> ledger \<Rightarrow> bool"
  for X order where
  step_batch: "submit_transactions_atomically X L ts epoch = Inr (L', ids) \<Longrightarrow> ledger_step X order L L'"
| step_contribution: "submit_contribution X L r = Inr (L', i) \<Longrightarrow> ledger_step X order L L'"
| step_mine: "mine_rewards X order L epoch = Inr (L', summary) \<Longrightarrow> ledger_step X order L L'"
| step_restart: "ledger_open (lg_db L) network = Inr L' \<Longrightarrow> ledger_step X order L L'"

definition ledger_reachable ::
    "smd_ext \<Rightarrow> (contribution_receipt list \<Rightarrow> contribution_receipt list result) \<Rightarrow> ledger \<Rightarrow> bool" where
  "ledger_reachable X order L \<longleftrightarrow>
     (\<exists>L0. ledger_open empty_db Devnet = Inr L0 \<and> (ledger_step X order)\<^sup>*\<^sup>* L0 L)"

inductive_cases ledger_stepE: "ledger_step X order L L'"

text \<open>What one step may do to the supply, the nonces and the stored receipts.\<close>

definition ledger_grows :: "ledger \<Rightarrow> supply_state \<Rightarrow> ledger \<Rightarrow> supply_state \<Rightarrow> bool" where
  "ledger_grows L st L' st' \<longleftrightarrow>
     units (reserve_balance st) \<le> units (reserve_balance st') \<and>
     units (minted_supply st) \<le> units (minted_supply st') \<and>
     (\<forall>a. nonce_of (lg_db L) a \<le> nonce_of (lg_db L') a) \<and>
     (\<exists>new. map static_columns (db_receipts (lg_db L')) =
        map static_columns (db_receipts (lg_db L)) @ new)"

lemma ledger_grows_refl: "ledger_grows L st L st"
  by (simp add: ledger_grows_def)

lemma ledger_grows_trans:
  "ledger_grows L st L1 st1 \<Longrightarrow> ledger_grows L1 st1 L2 st2 \<Longrightarrow> ledger_grows L st L2 st2"
  unfolding ledger_grows_def by (auto intro: order_trans)

lemma batch_effect_nonce:
  "batch_effect db st ts db' st' \<Longrightarrow> nonce_of db a \<le> nonce_of db' a"
proof (induction ts arbitrary: db st)
  case Nil
  then show ?case by simp
next
  case (Cons t ts)
  then obtain db1 st1 where 1: "transfer_effect db st t db1 st1" "batch_effect db1 st1 ts db' st'" by auto
  have "nonce_of db a \<le> nonce_of db1 a" using 1(1) by (auto simp: transfer_effect_def)
  also have "\<dots> \<le> nonce_of db' a" by (rule Cons.IH [OF 1(2)])
  finally show ?case .
qed

lemma ledger_step_holds:
  assumes "ledger_step X order L L'" "ledger_holds X L st" "smd_ext_ok X" "consensus_engine order"
  shows "\<exists>st'. ledger_holds X L' st' \<and> ledger_grows L st L' st'"
  using assms(1)
proof cases
  case (step_batch ts epoch ids)
  obtain st' where st': "ledger_holds X L' st'" "batch_effect (lg_db L) st ts (lg_db L') st'"
    using submit_transactions_holds [OF step_batch assms(2)] by blast
  have "db_receipts (lg_db L') = db_receipts (lg_db L)"
  proof (cases "ts = []")
    case True
    with step_batch show ?thesis by (simp add: submit_transactions_fold)
  next
    case False
    with step_batch obtain db where
      db: "try_fold (batch_step X (lg_network L) epoch) (lg_db L, []) ts = Inr (db, ids)" "lg_db L' = db"
      by (auto simp: submit_transactions_fold)
    have "ledger_rep (lg_db L) st" "transactions_rep (lg_db L)" using assms(2) by (simp_all add: ledger_holds_def)
    from batch_tables [OF db(1) this] db(2) show ?thesis by simp
  qed
  moreover have "\<forall>a. nonce_of (lg_db L) a \<le> nonce_of (lg_db L') a"
    using batch_effect_nonce [OF st'(2)] by blast
  ultimately have "ledger_grows L st L' st'"
    using batch_effect_supply [OF st'(2)] by (simp add: ledger_grows_def)
  with st'(1) show ?thesis by blast
next
  case (step_contribution r i)
  have L': "ledger_holds X L' st" by (rule submit_contribution_holds [OF step_contribution assms(2,3)])
  obtain row where row: "insert_receipt row (db_receipts (lg_db L)) = Inr (db_receipts (lg_db L'))"
    "L' = L\<lparr>lg_db := (lg_db L)\<lparr>db_receipts := db_receipts (lg_db L')\<rparr>\<rparr>"
    using submit_contribution_InrE [OF step_contribution] by metis
  have "db_receipts (lg_db L') = db_receipts (lg_db L) @ [row]" using row(1) by (simp add: insert_receipt_Inr)
  moreover have "db_accounts (lg_db L') = db_accounts (lg_db L)"
    using arg_cong [OF row(2), of "\<lambda>L. db_accounts (lg_db L)"] by simp
  ultimately have "ledger_grows L st L' st" by (simp add: ledger_grows_def nonce_of_def)
  with L' show ?thesis by blast
next
  case (step_mine epoch summary)
  obtain st' where st': "ledger_holds X L' st'"
    "units (network_emitted_supply st') = units (network_emitted_supply st) + units (rs_protocol_subsidy summary)"
    "reserve_balance st' = reserve_balance st" "nonce_of (lg_db L') = nonce_of (lg_db L)"
    "map static_columns (db_receipts (lg_db L')) = map static_columns (db_receipts (lg_db L))"
    using mine_rewards_holds [OF step_mine assms(2-4)] by blast
  have "supply_consistent st" "supply_consistent st'"
    using assms(2) st'(1) by (simp_all add: ledger_holds_def ledger_rep_def)
  then have "units (minted_supply st) \<le> units (minted_supply st')" using st'(2) by (simp add: supply_consistent_def)
  with st' have "ledger_grows L st L' st'" by (simp add: ledger_grows_def)
  with st'(1) show ?thesis by blast
next
  case (step_restart network)
  then have "network = Devnet" by (auto simp: ledger_open_def)
  with step_restart reopen_same [OF assms(2)] have "L' = L" by simp
  with assms(2) ledger_grows_refl show ?thesis by blast
qed

lemma ledger_steps_hold:
  assumes "(ledger_step X order)\<^sup>*\<^sup>* L L'" "ledger_holds X L st" "smd_ext_ok X" "consensus_engine order"
  shows "\<exists>st'. ledger_holds X L' st' \<and> ledger_grows L st L' st'"
  using assms(1)
proof (induction rule: rtranclp_induct)
  case base
  then show ?case using assms(2) ledger_grows_refl by blast
next
  case (step L1 L2)
  then obtain st1 where st1: "ledger_holds X L1 st1" "ledger_grows L st L1 st1" by blast
  from ledger_step_holds [OF step.hyps(2) st1(1) assms(3,4)] ledger_grows_trans [OF st1(2)]
  show ?case by blast
qed

lemma ledger_reachable_holds:
  assumes "ledger_reachable X order L" "smd_ext_ok X" "consensus_engine order"
  obtains st where "ledger_holds X L st"
proof -
  from assms(1) have "(ledger_step X order)\<^sup>*\<^sup>* genesis_ledger L" by (auto simp: ledger_reachable_def open_fresh)
  from ledger_steps_hold [OF this genesis_holds assms(2,3)] that show thesis by blast
qed

end
