(* ===== verification/Smd_Instance.thy ===== *)
theory Smd_Instance
  imports Smd_Identity
begin

text \<open>
  A concrete instance of the third-party record \<open>smd_ext\<close>, at which the theorems with the
  hypothesis \<open>smd_ext_ok\<close> are instantiated. It shows that the hypothesis can hold; it does
  not stand for the crates.
\<close>

definition nibble_char :: "nat \<Rightarrow> char" where
  "nibble_char n = (if n < 10 then char_of (48 + n) else char_of (87 + n))"

definition nibble_val :: "char \<Rightarrow> nat option" where
  "nibble_val c = (let n = byte_val c in
     if 48 \<le> n \<and> n \<le> 57 then Some (n - 48)
     else if 97 \<le> n \<and> n \<le> 102 then Some (n - 87)
     else if 65 \<le> n \<and> n \<le> 70 then Some (n - 55) else None)"

definition inst_hex_encode :: "bytes \<Rightarrow> string" where
  "inst_hex_encode bs = concat (map (\<lambda>b. [nibble_char (unat b div 16), nibble_char (unat b mod 16)]) bs)"

fun inst_hex_decode :: "string \<Rightarrow> bytes result" where
  "inst_hex_decode [] = Inr []"
| "inst_hex_decode [c] = Inl (Foreign ''hex'')"
| "inst_hex_decode (c # d # s) = (case (nibble_val c, nibble_val d) of
      (Some h, Some l) \<Rightarrow> and_then (inst_hex_decode s) (\<lambda>bs. Inr (word_of_nat (h * 16 + l) # bs))
    | _ \<Rightarrow> Inl (Foreign ''hex''))"

definition pad_to :: "nat \<Rightarrow> bytes \<Rightarrow> bytes" where
  "pad_to n bs = take n (bs @ replicate n 0)"

definition inst_bech32_encode :: "string \<Rightarrow> nat list \<Rightarrow> bech32_variant \<Rightarrow> string result" where
  "inst_bech32_encode h d v = Inr (h @ CHR ''1'' # map char_of d)"

definition inst_bech32_decode :: "string \<Rightarrow> (string \<times> nat list \<times> bech32_variant) result" where
  "inst_bech32_decode s = (case split_once (CHR ''1'') s of
      None \<Rightarrow> Inl (Foreign ''bech32'')
    | Some (h, d) \<Rightarrow> Inr (h, map byte_val d, Bech32))"

definition inst_sign :: "bytes \<Rightarrow> bytes \<Rightarrow> bytes" where
  "inst_sign k m = pad_to 64 (pad_to 32 k @ m)"

definition inst_str :: "string \<Rightarrow> bytes" where
  "inst_str s = concat (map (\<lambda>b. [1, b]) (as_bytes s)) @ [0]"

fun inst_unstr :: "bytes \<Rightarrow> string \<times> bytes" where
  "inst_unstr (t # b # bs) =
     (if t = 1 then (let (s, rest) = inst_unstr bs in (char_of (unat b) # s, rest)) else ([], b # bs))"
| "inst_unstr [t] = ([], [])"
| "inst_unstr [] = ([], [])"

definition inst_backup_pretty :: "wallet_backup \<Rightarrow> bytes" where
  "inst_backup_pretty b = be_bytes 4 (unat (wb_version b))
     @ [case wb_network_id b of Mainnet \<Rightarrow> 0 | Devnet \<Rightarrow> 1]
     @ inst_str (wb_kind b) @ inst_str (wb_address b) @ inst_str (wb_private_key_hex b)"

definition inst_backup_parse :: "bytes \<Rightarrow> wallet_backup result" where
  "inst_backup_parse bs =
     (let version = word_of_nat (be_nat (take 4 bs));
          network = (if bs ! 4 = 0 then Mainnet else Devnet);
          (kind, r1) = inst_unstr (drop 5 bs);
          (addr, r2) = inst_unstr r1;
          (priv, r3) = inst_unstr r2
      in Inr \<lparr>wb_kind = kind, wb_version = version, wb_network_id = network, wb_address = addr,
           wb_private_key_hex = priv\<rparr>)"

definition inst_word :: "'a::len word \<Rightarrow> bytes" where
  "inst_word w = be_bytes 8 (unat w)"

definition inst_unword :: "bytes \<Rightarrow> 'a::len word \<times> bytes" where
  "inst_unword bs = (word_of_nat (be_nat (take 8 bs)), drop 8 bs)"

definition inst_net :: "network_id \<Rightarrow> bytes" where
  "inst_net n = [case n of Mainnet \<Rightarrow> 0 | Devnet \<Rightarrow> 1]"

definition inst_unnet :: "bytes \<Rightarrow> network_id \<times> bytes" where
  "inst_unnet bs = (if hd bs = 0 then Mainnet else Devnet, tl bs)"

definition inst_service :: "service_type \<Rightarrow> bytes" where
  "inst_service t = [case t of StandardUpload \<Rightarrow> 0 | RareDataUpload \<Rightarrow> 1 | CdcReconstructionUpload \<Rightarrow> 2]"

definition inst_unservice :: "bytes \<Rightarrow> service_type \<times> bytes" where
  "inst_unservice bs = (if hd bs = 0 then StandardUpload else if hd bs = 1 then RareDataUpload
     else CdcReconstructionUpload, tl bs)"

definition inst_transaction :: "transaction \<Rightarrow> bytes" where
  "inst_transaction t = inst_word (tx_nonce t) @ inst_word (atomic (tx_amount t))
     @ inst_word (tx_version t) @ inst_net (tx_network_id t) @ inst_str (tx_from t)
     @ inst_str (tx_from_public_key t) @ inst_str (tx_to t) @ inst_word (tx_created_epoch t)
     @ inst_word (tx_expiry_epoch t) @ inst_str (tx_signature t)"

definition inst_transaction_parse :: "bytes \<Rightarrow> transaction result" where
  "inst_transaction_parse bs =
     (let (nonce, bs) = inst_unword bs; (amount, bs) = inst_unword bs; (version, bs) = inst_unword bs;
          (net, bs) = inst_unnet bs; (from, bs) = inst_unstr bs; (pk, bs) = inst_unstr bs;
          (to, bs) = inst_unstr bs; (created, bs) = inst_unword bs; (expiry, bs) = inst_unword bs;
          (sg, bs) = inst_unstr bs
      in Inr \<lparr>tx_version = version, tx_network_id = net, tx_from = from, tx_from_public_key = pk,
           tx_to = to, tx_amount = Amount amount, tx_nonce = nonce, tx_created_epoch = created,
           tx_expiry_epoch = expiry, tx_signature = sg\<rparr>)"

definition inst_receipt :: "contribution_receipt \<Rightarrow> bytes" where
  "inst_receipt r = inst_word (cr_nonce r) @ inst_word (cr_bytes_delivered r)
     @ inst_word (cr_version r) @ inst_word (cr_epoch r) @ inst_str (cr_session_id r)
     @ inst_net (cr_network_id r) @ inst_str (cr_provider_address r)
     @ inst_str (cr_provider_public_key r) @ inst_str (cr_receiver_address r)
     @ inst_str (cr_receiver_public_key r) @ inst_str (cr_content_hash r)
     @ inst_service (cr_service_type r) @ [if cr_content_verified r then 1 else 0]
     @ inst_str (cr_receiver_signature r)"

definition inst_receipt_parse :: "bytes \<Rightarrow> contribution_receipt result" where
  "inst_receipt_parse bs =
     (let (nonce, bs) = inst_unword bs; (delivered, bs) = inst_unword bs; (version, bs) = inst_unword bs;
          (epoch, bs) = inst_unword bs; (session, bs) = inst_unstr bs; (net, bs) = inst_unnet bs;
          (provider, bs) = inst_unstr bs; (provider_pk, bs) = inst_unstr bs;
          (receiver, bs) = inst_unstr bs; (receiver_pk, bs) = inst_unstr bs;
          (content, bs) = inst_unstr bs; (service, bs) = inst_unservice bs;
          (verified, bs) = (hd bs = 1, tl bs); (sg, bs) = inst_unstr bs
      in Inr \<lparr>cr_version = version, cr_network_id = net, cr_provider_address = provider,
           cr_provider_public_key = provider_pk, cr_receiver_address = receiver,
           cr_receiver_public_key = receiver_pk, cr_session_id = session, cr_content_hash = content,
           cr_bytes_delivered = delivered, cr_service_type = service, cr_epoch = epoch,
           cr_nonce = nonce, cr_content_verified = verified, cr_receiver_signature = sg\<rparr>)"

definition inst_ext :: smd_ext where
  "inst_ext = \<lparr>
     sha256 = pad_to 32,
     hex_encode = inst_hex_encode, hex_decode = inst_hex_decode,
     to_base32 = map unat, from_base32 = (\<lambda>d. Inr (map word_of_nat d)),
     bech32_encode = inst_bech32_encode, bech32_decode = inst_bech32_decode,
     ed_verifying_key = pad_to 32, ed_decodes_key = (\<lambda>_. True),
     ed_sign = inst_sign, ed_verifies = (\<lambda>pk m s. s = pad_to 64 (pk @ m)),
     json_transaction = (\<lambda>t. Inr (inst_transaction t)),
     json_signable_transaction = (\<lambda>t. Inr (inst_word (st_nonce t))),
     json_transaction_parse = inst_transaction_parse,
     json_receipt = (\<lambda>r. Inr (inst_receipt r)),
     json_receipt_parse = inst_receipt_parse,
     json_signable_receipt = (\<lambda>r. Inr (inst_word (sr_nonce r))),
     json_backup_pretty = (\<lambda>b. Inr (inst_backup_pretty b)),
     json_backup_parse = inst_backup_parse\<rparr>"

lemma length_pad_to [simp]: "length (pad_to n bs) = n"
  by (simp add: pad_to_def)

lemma nibble_val_char [simp]: "n < 16 \<Longrightarrow> nibble_val (nibble_char n) = Some n"
  by (auto simp: nibble_val_def nibble_char_def Let_def)

lemma length_inst_hex_encode [simp]: "length (inst_hex_encode bs) = 2 * length bs"
  by (induction bs) (simp_all add: inst_hex_encode_def)

lemma byte_nibbles: "unat (b :: u8) div 16 < 16" "unat b mod 16 < 16"
  using unat_u8_bound [of b] by (simp_all add: less_mult_imp_div_less)

lemma inst_hex_round_trip [simp]: "inst_hex_decode (inst_hex_encode bs) = Inr bs"
proof (induction bs)
  case Nil
  then show ?case by (simp add: inst_hex_encode_def)
next
  case (Cons b bs)
  then have "inst_hex_decode (concat (map (\<lambda>b. [nibble_char (unat b div 16), nibble_char (unat b mod 16)]) bs))
     = Inr bs"
    by (simp add: inst_hex_encode_def)
  then show ?case
    using byte_nibbles [of b] by (simp add: inst_hex_encode_def)
qed

lemma inst_bech32_round_trip:
  "inst_bech32_decode (hrp n @ CHR ''1'' # map char_of (map unat (p :: bytes)))
     = Inr (hrp n, map unat p, Bech32)"
proof -
  have "CHR ''1'' \<notin> set (hrp n)" by (cases n) (simp_all add: hrp_def)
  then have "split_once (CHR ''1'') (hrp n @ CHR ''1'' # map char_of (map unat p))
      = Some (hrp n, map char_of (map unat p))"
    by (simp add: split_once_Some)
  moreover have "map byte_val (map char_of (map unat p)) = map unat p"
    by (simp add: unat_u8_bound)
  ultimately show ?thesis by (simp add: inst_bech32_decode_def)
qed

lemma inst_unstr_str [simp]: "inst_unstr (inst_str s @ rest) = (s, rest)"
proof (induction s)
  case Nil
  show ?case by (cases rest) (simp_all add: inst_str_def as_bytes_def)
next
  case (Cons c s)
  have "unat (word_of_nat (byte_val c) :: u8) = byte_val c" by (simp add: unat_of_nat)
  with Cons show ?case by (simp add: inst_str_def as_bytes_def byte_val_def)
qed

lemma length_inst_str [simp]: "length (inst_str s) = 2 * length s + 1"
  by (induction s) (simp_all add: inst_str_def as_bytes_def)

lemma inst_backup_round_trip: "inst_backup_parse (inst_backup_pretty b @ [10]) = Inr b"
proof -
  have v: "be_nat (be_bytes 4 (unat (n :: u32))) = unat n" for n
    by (rule be_nat_be_bytes) simp
  show ?thesis
    by (cases b; cases "wb_network_id b")
       (simp_all add: inst_backup_parse_def inst_backup_pretty_def Let_def nth_append v)
qed

lemma inst_fields [simp]:
  "inst_unword (inst_word w @ rest) = (w :: u64, rest)"
  "inst_unword (inst_word v @ rest) = (v :: u32, rest)"
  "inst_unnet (inst_net n @ rest) = (n, rest)"
  "inst_unservice (inst_service t @ rest) = (t, rest)"
  by (simp_all add: inst_unword_def inst_word_def inst_unnet_def inst_net_def inst_unservice_def
      inst_service_def be_nat_be_bytes less_trans [OF unat_u32_bound] split: network_id.splits service_type.splits)

lemma inst_str_end [simp]: "inst_unstr (inst_str s) = (s, [])"
  using inst_unstr_str [of s "[]"] by simp

lemma inst_transaction_round_trip: "inst_transaction_parse (inst_transaction t) = Inr t"
  by (cases t; cases "tx_amount t") (simp add: inst_transaction_def inst_transaction_parse_def)

lemma inst_receipt_round_trip: "inst_receipt_parse (inst_receipt r) = Inr r"
  by (cases r) (simp add: inst_receipt_def inst_receipt_parse_def)

lemma inst_ext_ok: "smd_ext_ok inst_ext"
proof -
  have "length (hrp n @ CHR ''1'' # map char_of (map unat (p :: bytes))) \<le> 90" if "length p = 20" for n p
    using that by (cases n) (simp_all add: hrp_def)
  moreover have "map (word_of_nat \<circ> unat) p = p" for p :: bytes
    by (simp add: map_idI)
  ultimately show ?thesis
    unfolding smd_ext_ok_def inst_ext_def
    using inst_bech32_round_trip inst_backup_round_trip inst_transaction_round_trip inst_receipt_round_trip
    by (simp add: inst_sign_def inst_bech32_encode_def inst_backup_pretty_def)
qed

section \<open>Wallet files and signed messages\<close>

text \<open>The backup of a devnet wallet can be made and gives the wallet back.\<close>

lemma backup_facts:
  assumes "smd_ext_ok X" "wl_network w = Devnet" "length (wl_signing_key w) = 32"
  obtains b where "backup X w = Inr b" "from_backup X b = Inr w"
    "length (wb_kind b) + length (wb_address b) + length (wb_private_key_hex b) \<le> 256"
proof -
  obtain a where a: "wallet_address X w = Inr (Address a)" "length a \<le> 90"
    unfolding wallet_address_def by (rule from_public_key_ok [OF assms(1)])
  define b where "b = \<lparr>wb_kind = DEVNET_WALLET_FILE_KIND, wb_version = 1, wb_network_id = Devnet,
    wb_address = a, wb_private_key_hex = hex_encode X (wl_signing_key w)\<rparr>"
  have "backup X w = Inr b" by (simp add: backup_def a(1) b_def assms(2))
  moreover have "length (wb_kind b) + length (wb_address b) + length (wb_private_key_hex b) \<le> 256"
    using a(2) assms(3) by (simp add: b_def DEVNET_WALLET_FILE_KIND_def ext_simps [OF assms(1)])
  moreover have "from_secret_bytes Devnet (wl_signing_key w) = w"
    using assms(2) by (cases w) (simp add: from_secret_bytes_def)
  then have "from_backup X b = Inr w"
    using a(1) by (simp add: from_backup_def b_def decode_array_encode assms(1,3))
  ultimately show thesis by (intro that)
qed

text \<open>A wallet exported to a fresh devnet file is imported back unchanged, and the file is
  never overwritten: a second export to the same path fails.\<close>

theorem wallet_file_round_trip:
  assumes "smd_ext_ok X" "wl_network w = Devnet" "length (wl_signing_key w) = 32" "files path = None"
  shows "\<exists>files'. export_devnet_test_file X w path files = Inr files'
     \<and> import_devnet_test_file X path files' = Inr w
     \<and> export_devnet_test_file X w2 path files' \<noteq> Inr files''
     \<and> (\<forall>p. p = path \<or> files' p = files p)"
proof -
  obtain b where b: "backup X w = Inr b" "from_backup X b = Inr w"
    "length (wb_kind b) + length (wb_address b) + length (wb_private_key_hex b) \<le> 256"
    by (rule backup_facts [OF assms(1-3)])
  then obtain j where "json_backup_pretty X b = Inr j" "json_backup_parse X (j @ [10]) = Inr b" "length j < 4096"
    using ext_json(5) [OF assms(1), of b] by blast
  with b assms(2,4) show ?thesis
    by (simp add: export_devnet_test_file_def import_devnet_test_file_def)
qed

theorem wallet_file_round_trip_witness:
  "\<exists>files'. export_devnet_test_file inst_ext (from_secret_bytes Devnet (replicate 32 7)) ''w'' Map.empty = Inr files'
     \<and> import_devnet_test_file inst_ext ''w'' files' = Inr (from_secret_bytes Devnet (replicate 32 7))"
  using wallet_file_round_trip [OF inst_ext_ok, of "from_secret_bytes Devnet (replicate 32 7)" Map.empty "''w''"
      "from_secret_bytes Devnet (replicate 32 7)" Map.empty]
  by (auto simp: from_secret_bytes_def)

end
