(* ===== verification/Smd_Liveness.thy ===== *)
theory Smd_Liveness
  imports Smd_Ledger_Reach Smd_Instance
begin

text \<open>
  What the ledger accepts: receipts confirmed by another devnet wallet verify, and a wallet
  with the funds, the right nonce and a current epoch can pay any valid address. The facts
  also build the concrete ledger \<open>funded_ledger\<close> that the properties are instantiated at.
\<close>

lemma signed_transaction_facts:
  assumes "smd_ext_ok X" "length (address_str to) \<le> 128" "tx_signed X w to a n ce ee = Inr t"
  shows "tx_verify_signature X t = Inr ()" "tx_to t = address_str to" "tx_amount t = a" "tx_nonce t = n"
    "tx_network_id t = wl_network w" "wallet_address X w = Inr (Address (tx_from t))"
    "tx_from_public_key t = public_key_hex X w" "tx_created_epoch t = ce" "tx_expiry_epoch t = ee"
    "length (tx_signature t) = 128"
proof -
  obtain s where s: "from_public_key X (wl_network w) (ed_verifying_key X (wl_signing_key w)) = Inr (Address s)"
    "length s \<le> 90"
    by (rule from_public_key_ok [OF assms(1)])
  define u where "u = \<lparr>tx_version = 1, tx_network_id = wl_network w, tx_from = s,
    tx_from_public_key = public_key_hex X w, tx_to = address_str to, tx_amount = a, tx_nonce = n,
    tx_created_epoch = ce, tx_expiry_epoch = ee, tx_signature = []\<rparr>"
  obtain j where j: "json_signable_transaction X (signable_of_transaction u) = Inr j"
    using ext_json(2) [OF assms(1)] by blast
  have same: "signable_of_transaction (u\<lparr>tx_signature := sg\<rparr>) = signable_of_transaction u" for sg
    by (simp add: signable_of_transaction_def)
  have t: "t = u\<lparr>tx_signature := sign_hex X (wl_signing_key w) TRANSACTION_DOMAIN j\<rparr>"
    using s j assms(3)
    by (simp add: tx_signed_def wallet_address_def tx_signing_bytes_def Let_def flip: u_def)
      (auto simp: u_def)
  show "tx_verify_signature X t = Inr ()"
    using s j assms(2) unfolding t
    by (simp add: tx_verify_signature_def tx_signing_bytes_def same)
      (simp add: u_def public_key_hex_def decode_array_encode assms(1) ext_simps verify_sign_hex)
  show "tx_to t = address_str to" "tx_amount t = a" "tx_nonce t = n"
    "tx_network_id t = wl_network w" "wallet_address X w = Inr (Address (tx_from t))"
    "tx_from_public_key t = public_key_hex X w" "tx_created_epoch t = ce" "tx_expiry_epoch t = ee" "length (tx_signature t) = 128"
    using s by (simp_all add: t u_def wallet_address_def sign_hex_def ext_simps [OF assms(1)])
qed

lemma tx_signed_total:
  assumes "smd_ext_ok X"
  shows "\<exists>t. tx_signed X w to a n ce ee = Inr t"
proof -
  obtain s where "from_public_key X (wl_network w) (ed_verifying_key X (wl_signing_key w)) = Inr (Address s)"
    by (rule from_public_key_ok [OF assms])
  moreover have "\<exists>j. json_signable_transaction X u = Inr j" for u
    using ext_json(2) [OF assms] by blast
  ultimately show ?thesis
    by (simp add: tx_signed_def wallet_address_def tx_signing_bytes_def Let_def)
qed

lemma wallet_address_parses:
  assumes "smd_ext_ok X" "wallet_address X w = Inr a"
  shows "parse_for_network X (address_str a) (wl_network w) = Inr a" "length (address_str a) \<le> 90"
    "address_str a \<noteq> PERMANENT_RESERVE_ADDRESS"
proof -
  let ?k = "ed_verifying_key X (wl_signing_key w)"
  obtain s where s: "from_public_key X (wl_network w) ?k = Inr (Address s)" "length s \<le> 90"
    "s \<noteq> PERMANENT_RESERVE_ADDRESS"
    "bech32_decode X s = Inr (hrp (wl_network w), to_base32 X (take 20 (sha256 X ?k)), Bech32)"
    by (rule from_public_key_ok [OF assms(1)])
  then have a: "a = Address s" using assms(2) by (simp add: wallet_address_def)
  show "length (address_str a) \<le> 90" "address_str a \<noteq> PERMANENT_RESERVE_ADDRESS"
    using s by (simp_all add: a)
  show "parse_for_network X (address_str a) (wl_network w) = Inr a"
    using s by (simp add: parse_for_network_def a ext_simps [OF assms(1)])
qed

lemma reserve_parses: "parse_for_network X PERMANENT_RESERVE_ADDRESS n = Inr reserve_address"
  by (simp add: parse_for_network_def reserve_address_def)

text \<open>A receipt confirmed by a different devnet wallet verifies.\<close>

lemma confirmed_receipt_facts:
  assumes "smd_ext_ok X" "wl_network p = Devnet" "wl_network q = Devnet"
    and "wallet_address X p \<noteq> wallet_address X q"
    and "session \<noteq> []" "length session \<le> 128" "delivered \<noteq> 0" "length content = 64" "is_ok (hex_decode X content)"
  obtains c where "cr_confirmed X p q session content delivered service epoch nonce = Inr c"
    "cr_verify X c = Inr ()" "wallet_address X p = Inr (Address (cr_provider_address c))"
    "wallet_address X q = Inr (Address (cr_receiver_address c))"
    "cr_network_id c = Devnet" "cr_session_id c = session" "cr_content_hash c = content" "cr_epoch c = epoch"
    "cr_nonce c = nonce" "cr_provider_public_key c = public_key_hex X p" "cr_bytes_delivered c = delivered"
    "cr_service_type c = service" "cr_receiver_public_key c = public_key_hex X q"
    "length (cr_receiver_signature c) = 128"
proof -
  obtain s where s: "from_public_key X Devnet (ed_verifying_key X (wl_signing_key p)) = Inr (Address s)"
    "length s \<le> 90"
    by (rule from_public_key_ok [OF assms(1)])
  obtain r where r: "from_public_key X Devnet (ed_verifying_key X (wl_signing_key q)) = Inr (Address r)"
    "length r \<le> 90"
    by (rule from_public_key_ok [OF assms(1)])
  have sr: "s \<noteq> r" using assms(2-4) s r by (simp add: wallet_address_def)
  define u where "u = \<lparr>cr_version = 1, cr_network_id = Devnet, cr_provider_address = s,
    cr_provider_public_key = public_key_hex X p, cr_receiver_address = r,
    cr_receiver_public_key = public_key_hex X q, cr_session_id = session, cr_content_hash = content,
    cr_bytes_delivered = delivered, cr_service_type = service, cr_epoch = epoch, cr_nonce = nonce,
    cr_content_verified = True, cr_receiver_signature = []\<rparr>"
  obtain j where j: "json_signable_receipt X (signable_of_receipt u) = Inr j"
    using ext_json(4) [OF assms(1)] by blast
  have same: "signable_of_receipt (u\<lparr>cr_receiver_signature := sg\<rparr>) = signable_of_receipt u" for sg
    by (simp add: signable_of_receipt_def)
  let ?c = "u\<lparr>cr_receiver_signature := sign_hex X (wl_signing_key q) CONTRIBUTION_DOMAIN j\<rparr>"
  obtain b where "hex_decode X content = Inr b" using assms(9) by (auto simp: is_ok_iff)
  then have hc: "with_context (hex_decode X content) ''invalid content hash'' = Inr b"
    by (simp add: with_context_def)
  have "cr_verify X ?c = Inr ()"
    using s r sr j assms(5-8) hc
    by (simp add: cr_verify_def cr_signing_bytes_def same)
      (simp add: u_def public_key_hex_def decode_array_encode assms(1) ext_simps verify_sign_hex)
  moreover have "cr_confirmed X p q session content delivered service epoch nonce = Inr ?c"
    using s r j assms(2,3)
    by (simp add: cr_confirmed_def wallet_address_def cr_signing_bytes_def Let_def flip: u_def)
      (simp add: u_def)
  moreover have "wallet_address X p = Inr (Address s)" "wallet_address X q = Inr (Address r)"
    using s r assms(2,3) by (simp_all add: wallet_address_def)
  ultimately show thesis by (intro that [of ?c]) (simp_all add: u_def sign_hex_def ext_simps [OF assms(1)])
qed

section \<open>Payments\<close>

text \<open>Two accounts together hold no more than the total.\<close>

lemma two_balances_le:
  assumes "\<forall>r\<in>set t. account_row_ok r" "find_account a t = Some p" "a \<noteq> b"
  shows "ac_balance p + (case find_account b t of None \<Rightarrow> 0 | Some q \<Rightarrow> ac_balance q) \<le> accounts_total t"
  using assms
proof (induction t)
  case Nil
  then show ?case by simp
next
  case (Cons r t)
  have tail: "ac_balance q \<le> accounts_total t" if "find_account k t = Some q" for k q
    using balance_le_total [of t q] Cons.prems(1) find_account_Some [OF that] by simp
  have "0 \<le> accounts_total t"
    using Cons.prems(1) by (auto simp: accounts_total_def account_row_ok_def intro!: sum_list_nonneg)
  moreover have "0 \<le> ac_balance r" using Cons.prems(1) by (simp add: account_row_ok_def)
  ultimately show ?case
    using Cons tail by (force simp: accounts_total_def split: if_splits option.splits)
qed

lemma amount_to_sql_ok: "int (units a) \<le> 9223372036854775807 \<Longrightarrow> amount_to_sql a = Inr (int (units a))"
  by (simp add: amount_to_sql_def)

lemma sql_u64_ok: "int (unat n) \<le> 9223372036854775807 \<Longrightarrow> sql_u64 n = Inr (int (unat n))"
  by (simp add: sql_u64_def)

text \<open>
  A signed transaction of a funded wallet is accepted: none of the later steps can fail. The
  premises on the identifier and on the length of the JSON text concern the digest and the
  serialiser.
\<close>

lemma apply_transaction_ok:
  assumes X: "smd_ext_ok X" and rep: "ledger_rep db st" "transactions_rep db"
    and w: "wl_network w = Devnet" "wallet_address X w = Inr (Address a)"
    and sender: "find_account a (db_accounts db) = Some r"
      "ac_public_key r \<in> {None, Some (public_key_hex X w)}"
    and amt: "0 < units amt" "int (units amt) \<le> ac_balance r"
    and nonce: "ac_nonce r = int (unat n)" "ac_nonce r < 9223372036854775807"
    and epoch: "ce \<le> epoch" "epoch \<le> ee" "int (unat epoch) \<le> 9223372036854775807"
    and to: "parse_for_network X (address_str to) Devnet = Inr to" "address_str to \<noteq> a" "length (address_str to) \<le> 128"
    and t: "tx_signed X w to amt n ce ee = Inr t"
    and i: "tx_id X t = Inr i" "i \<notin> tr_id ` set (db_transactions db)"
    and j: "json_transaction X t = Inr j" "length j \<le> 16384"
  shows "\<exists>db'. apply_transaction X Devnet t epoch db = Inr (db', i)"
proof -
  note tf = signed_transaction_facts [OF X to(3) t]
  have frm: "tx_from t = a" using tf(6) w(2) by simp
  have pa: "parse_for_network X (tx_from t) Devnet = Inr (Address a)" "a \<noteq> PERMANENT_RESERVE_ADDRESS"
    using wallet_address_parses [OF X w(2)] w(1) frm by simp_all
  note bounds = rep_balance_bounds [OF rep(1)]
  have acc: "accounts_ok (db_accounts db)" using rep(1) by (simp add: ledger_rep_def)
  have br: "ac_balance r \<le> 1200000000000000" "0 \<le> ac_balance r"
    using bounds(1,2) [of a] sender(1) by (simp_all add: balance_of_def)
  obtain sb where sb: "amount_from_sql (ac_balance r) = Inr sb" "int (units sb) = ac_balance r"
    using br amount_from_sql_Inr [of "ac_balance r" "Amount (word_of_int (ac_balance r))"] int_unat_word_of_int
    by auto
  have sn: "u64_from_sql (ac_nonce r) ''sender nonce'' = Inr n" using nonce by (simp add: u64_from_sql_Inr)
  obtain nsb where nsb: "amount_sub sb amt = Inr nsb" "units sb = units amt + units nsb"
  proof -
    have "units amt \<le> units sb" using amt(2) sb(2) by simp
    then have "unat (atomic sb - atomic amt) = units sb - units amt" by (simp add: unat_sub word_le_nat_alt)
    with \<open>units amt \<le> units sb\<close> show thesis
      by (intro that [of "Amount (atomic sb - atomic amt)"]) (simp_all add: amount_sub_Inr)
  qed
  have nn: "checked_add n 1 = Some (n + 1)" "unat (n + 1) = unat n + 1"
    using nonce by (simp_all add: checked_add_def unat_word_ariths)
  define rb where "rb = Amount (word_of_int (balance_of db (address_str to)))"
  have rb: "int (units rb) = balance_of db (address_str to)"
    using bounds(1,2) [of "address_str to"] int_unat_word_of_int by (simp add: rb_def)
  obtain rv where rv: "transpose_opt (map_option (\<lambda>r. amount_from_sql (ac_balance r))
      (find_account (address_str to) (db_accounts db))) = Inr rv" "(case rv of None \<Rightarrow> ZERO | Some b \<Rightarrow> b) = rb"
  proof (cases "find_account (address_str to) (db_accounts db)")
    case None
    then show thesis using rb by (intro that [of None]) (simp_all add: balance_of_def amount_eq_units)
  next
    case (Some q)
    then have "amount_from_sql (ac_balance q) = Inr rb"
      using rb bounds(2) [of "address_str to"] by (simp add: balance_of_def amount_from_sql_Inr)
    with Some show thesis by (intro that [of "Some rb"]) simp_all
  qed
  obtain nrb where nrb: "amount_add rb amt = Inr nrb" "units nrb = units rb + units amt"
  proof -
    have "units rb + units amt < 18446744073709551616"
      using rb bounds(2) [of "address_str to"] amt(2) br by simp
    then have "unat (atomic rb + atomic amt) = units rb + units amt" by (simp add: unat_word_ariths)
    then show thesis
      by (intro that [of "Amount (atomic rb + atomic amt)"]) (simp_all add: amount_add_Inr)
  qed
  have small: "int (units amt) \<le> 9223372036854775807" "int (units nsb) \<le> 9223372036854775807"
    "int (units nrb) \<le> 9223372036854775807" "int (unat n) \<le> 9223372036854775807"
    "int (unat (n + 1)) \<le> 9223372036854775807"
    using amt(2) br nsb(2) sb(2) nrb(2) rb bounds(2) [of "address_str to"] nonce nn by simp_all
  obtain ts where ts: "insert_transaction \<lparr>tr_id = i, tr_json = j, tr_from = a, tr_to = address_str to,
      tr_amount = int (units amt), tr_nonce = int (unat n), tr_epoch = int (unat epoch)\<rparr> (db_transactions db) = Inr ts"
  proof -
    have "tr_nonce q \<noteq> int (unat n)" if q: "q \<in> set (db_transactions db)" "tr_from q = a" for q
    proof -
      have "tr_nonce q \<in> set (map tr_nonce (filter (\<lambda>r. tr_from r = a) (db_transactions db)))" using q by simp
      also have "\<dots> = set (map int [0..<nat (nonce_of db a)])" using rep(2) by (simp only: transactions_rep_def)
      finally show ?thesis using sender(1) nonce(1) by (auto simp: nonce_of_def)
    qed
    with i(2) have none: "\<not> (\<exists>q\<in>set (db_transactions db). tr_id q = i \<or> (tr_from q = a \<and> tr_nonce q = int (unat n)))"
      by (auto simp: image_iff)
    show thesis by (rule that) (use none amt(1) in \<open>simp add: insert_transaction_def\<close>)
  qed
  define f :: "account_row \<Rightarrow> account_row" where "f = (\<lambda>r. r\<lparr>ac_balance := int (units nsb), ac_nonce := int (unat (n + 1)), ac_public_key :=
      (case ac_public_key r of None \<Rightarrow> Some (public_key_hex X w) | Some k \<Rightarrow> Some k)\<rparr>)"
  have acs: "update_account a f (db_accounts db) = Inr (put_account (f r) (db_accounts db))"
    using update_account_Inr [OF acc sender(1), of f "put_account (f r) (db_accounts db)"] find_account_Some [OF sender(1)]
    by (simp add: f_def account_row_ok_def)
  define row where "row = \<lparr>ac_address = address_str to, ac_balance = int (units nrb), ac_nonce = 0, ac_public_key = None\<rparr>"
  have ok1: "accounts_ok (put_account (f r) (db_accounts db))" by (rule accounts.put_ok [OF acc])
  obtain acs2 where acs2: "upsert_account row (\<lambda>r. r\<lparr>ac_balance := int (units nrb)\<rparr>)
      (put_account (f r) (db_accounts db)) = Inr acs2"
  proof (cases "find_account (address_str to) (db_accounts db)")
    case None
    then have "find_account (ac_address row) (put_account (f r) (db_accounts db)) = None"
      using accounts.lookup_put [OF acc] to(2) find_account_Some [OF sender(1)] by (simp add: row_def f_def)
    then show thesis using that upsert_account_Inr [OF ok1, of "\<lambda>r. r\<lparr>ac_balance := int (units nrb)\<rparr>" row]
      by (simp add: account_row_ok_def row_def)
  next
    case (Some q)
    then have "find_account (ac_address row) (put_account (f r) (db_accounts db)) = Some q"
      using accounts.lookup_put [OF acc] to(2) find_account_Some [OF sender(1)] by (simp add: row_def f_def)
    moreover have "0 \<le> ac_nonce q" using bounds(3) [of "address_str to"] Some by (simp add: nonce_of_def)
    ultimately show thesis using that upsert_account_Inr [OF ok1, of "\<lambda>r. r\<lparr>ac_balance := int (units nrb)\<rparr>" row]
      by (simp add: account_row_ok_def row_def)
  qed
  define db1 where "db1 = db\<lparr>db_transactions := ts, db_accounts := acs2\<rparr>"
  obtain db' where fin: "(if is_reserve to then
        and_then (read_supply db1) (\<lambda>before.
        and_then (amount_add (reserve_balance before) amt) (\<lambda>reserve.
        and_then (from_components (network_emitted_supply before) reserve) (\<lambda>st.
        write_supply st db1)))
       else Inr db1) = Inr db'"
  proof (cases "is_reserve to")
    case False
    then show thesis using that by simp
  next
    case True
    have rs: "read_supply db1 = Inr st" "supply_consistent st" "db_supply db1 \<noteq> None"
      using rep(1) by (simp_all add: db1_def ledger_rep_def read_supply_def supply_from_sql_row_of)
    have "balance_of db (address_str to) = int (units (reserve_balance st))"
      using rep(1) True by (simp add: ledger_rep_def is_reserve_def)
    then have nr: "units nrb = units (reserve_balance st) + units amt" using rb nrb by simp
    then have add: "amount_add (reserve_balance st) amt = Inr nrb" by (simp add: amount_add_Inr)
    have two: "balance_of db a + balance_of db (address_str to) \<le> int (units (minted_supply st))"
      using rep(1) sender(1) to(2) two_balances_le [of "db_accounts db" a r "address_str to"]
      by (auto simp: ledger_rep_def balance_of_def)
    define st' where "st' = st\<lparr>reserve_balance := nrb,
      circulating_supply := Amount (atomic (minted_supply st) - atomic nrb)\<rparr>"
    have le: "units nrb \<le> units (minted_supply st)"
      using two nr amt(2) sender(1) \<open>balance_of db (address_str to) = int (units (reserve_balance st))\<close>
      by (simp add: balance_of_def)
    then have "unat (atomic (minted_supply st) - atomic nrb) = units (minted_supply st) - units nrb"
      by (simp add: unat_sub word_le_nat_alt)
    with rs(2) le have "supply_consistent st'"
      by (simp add: st'_def supply_consistent_def)
    then have "from_components (network_emitted_supply st) nrb = Inr st'"
      by (simp add: from_components_Inr) (simp add: st'_def)
    with True rs add \<open>supply_consistent st'\<close> show thesis using that write_supply_eq [of st' db1] by simp
  qed
  have key: "\<not> (case ac_public_key r of None \<Rightarrow> False | Some key \<Rightarrow> key \<noteq> public_key_hex X w)"
    using sender(2) by auto
  have ne: "Address a \<noteq> to" using to(2) by (cases to) auto
  have nz: "amt \<noteq> ZERO" using amt(1) by (auto simp: amount_eq_units)
  have upd: "update_account a (\<lambda>r. r\<lparr>ac_balance := int (units nsb), ac_nonce := int (unat (n + 1)),
           ac_public_key := (case ac_public_key r of None \<Rightarrow> Some (public_key_hex X w) | Some k \<Rightarrow> Some k)\<rparr>)
        (db_accounts db) = Inr (put_account (f r) (db_accounts db))"
    using acs by (simp add: f_def)
  have "apply_transaction X Devnet t epoch db = Inr (db', i)"
    unfolding apply_transaction_def Let_def tf(2-5,7-9) frm
    using tf(1) w(1) pa [unfolded frm] to(1) ne nz epoch(1,2) sender(1) sb(1) sn key nsb(1) nn(1) rv nrb(1) i(1) j ts upd
      acs2 [unfolded row_def] fin [unfolded db1_def is_reserve_def] sql_u64_ok [OF epoch(3)] sql_u64_ok [OF small(4)] sql_u64_ok [OF small(5)]
      amount_to_sql_ok [OF small(1)] amount_to_sql_ok [OF small(2)] amount_to_sql_ok [OF small(3)]
    by (simp add: is_reserve_def not_less del: transpose_opt_eq_Inr and_then_eq_Inr)
  then show ?thesis by blast
qed

lemma submit_transaction_ok:
  assumes "lg_network L = Devnet" "ledger_rep (lg_db L) st"
    and "apply_transaction X Devnet t epoch (lg_db L) = Inr (db, i)"
  shows "submit_transaction X L t epoch = Inr (L\<lparr>lg_db := db\<rparr>, i)"
proof -
  have "submit_transactions_atomically X L [t] epoch = Inr (L\<lparr>lg_db := db\<rparr>, [i])"
    using submit_transactions_iff [OF assms(2), of "[t]" X epoch] assms(1,3) by (simp add: batch_step_def)
  then show ?thesis by (simp add: submit_transaction_def)
qed

section \<open>A concrete ledger\<close>

definition provider_wallet :: wallet where
  "provider_wallet = from_secret_bytes Devnet (replicate 32 7)"

definition receiver_wallet :: wallet where
  "receiver_wallet = from_secret_bytes Devnet (replicate 32 8)"

definition sample_content :: string where
  "sample_content = inst_hex_encode (replicate 32 1)"

lemma pad_to_exact [simp]: "length bs = n \<Longrightarrow> pad_to n bs = bs"
  by (simp add: pad_to_def)

lemma inst_fields_ext [simp]: "sha256 inst_ext = pad_to 32" "hex_encode inst_ext = inst_hex_encode"
  "hex_decode inst_ext = inst_hex_decode" "ed_verifying_key inst_ext = pad_to 32"
  "json_transaction inst_ext t = Inr (inst_transaction t)" "json_receipt inst_ext c = Inr (inst_receipt c)"
  by (simp_all add: inst_ext_def)

lemma sample_addresses:
  "wallet_address inst_ext provider_wallet = Inr (Address (''smddev1'' @ replicate 20 (CHR 0x07)))"
  "wallet_address inst_ext receiver_wallet = Inr (Address (''smddev1'' @ replicate 20 (CHR 0x08)))"
proof -
  have "wallet_address inst_ext (from_secret_bytes Devnet (replicate 32 x))
      = Inr (Address (''smddev1'' @ replicate 20 (char_of (unat x))))" for x
    by (simp add: wallet_address_def from_public_key_def from_secret_bytes_def inst_ext_def
        inst_bech32_encode_def hrp_def)
  from this [of 7] this [of 8] show
    "wallet_address inst_ext provider_wallet = Inr (Address (''smddev1'' @ replicate 20 (CHR 0x07)))"
    "wallet_address inst_ext receiver_wallet = Inr (Address (''smddev1'' @ replicate 20 (CHR 0x08)))"
    by (simp_all add: provider_wallet_def receiver_wallet_def char_of_def bit_0)
qed

lemma sample_receipt:
  assumes "session \<noteq> []" "length session \<le> 128" "delivered \<noteq> 0"
  obtains c where
    "cr_confirmed inst_ext provider_wallet receiver_wallet session sample_content delivered service epoch nonce = Inr c"
    "cr_verify inst_ext c = Inr ()" "cr_provider_address c = ''smddev1'' @ replicate 20 (CHR 0x07)"
    "cr_receiver_address c = ''smddev1'' @ replicate 20 (CHR 0x08)"
    "cr_network_id c = Devnet" "cr_session_id c = session" "cr_content_hash c = sample_content"
    "cr_epoch c = epoch" "cr_nonce c = nonce" "cr_bytes_delivered c = delivered" "cr_service_type c = service"
    "length (inst_receipt c) \<le> 16384"
proof -
  have 1: "wl_network provider_wallet = Devnet" "wl_network receiver_wallet = Devnet"
    by (simp_all add: provider_wallet_def receiver_wallet_def from_secret_bytes_def)
  have 2: "wallet_address inst_ext provider_wallet \<noteq> wallet_address inst_ext receiver_wallet"
    by (simp add: sample_addresses)
  have 3: "length sample_content = 64" "is_ok (hex_decode inst_ext sample_content)"
    by (simp_all add: sample_content_def)
  obtain c where c:
    "cr_confirmed inst_ext provider_wallet receiver_wallet session sample_content delivered service epoch nonce = Inr c"
    "cr_verify inst_ext c = Inr ()" "wallet_address inst_ext provider_wallet = Inr (Address (cr_provider_address c))"
    "wallet_address inst_ext receiver_wallet = Inr (Address (cr_receiver_address c))"
    "cr_network_id c = Devnet" "cr_session_id c = session" "cr_content_hash c = sample_content" "cr_epoch c = epoch"
    "cr_nonce c = nonce" "cr_provider_public_key c = public_key_hex inst_ext provider_wallet"
    "cr_bytes_delivered c = delivered" "cr_service_type c = service"
    "cr_receiver_public_key c = public_key_hex inst_ext receiver_wallet"
    "length (cr_receiver_signature c) = 128"
    by (rule confirmed_receipt_facts [OF inst_ext_ok 1 2 assms 3])
  then have addr: "cr_provider_address c = ''smddev1'' @ replicate 20 (CHR 0x07)"
    "cr_receiver_address c = ''smddev1'' @ replicate 20 (CHR 0x08)"
    by (simp_all add: sample_addresses)
  have "length (inst_receipt c) \<le> 16384"
    using c(6,7,10,13,14) assms(2) 3(1)
    by (simp add: inst_receipt_def inst_word_def inst_net_def inst_service_def addr public_key_hex_def)
  with c addr show thesis by (intro that [of c]) simp_all
qed

text \<open>A ledger in which the provider earned 1000 units for one receipt.\<close>

definition provider_address :: string where
  "provider_address = ''smddev1'' @ replicate 20 (CHR 0x07)"

definition funded_supply :: supply_state where
  "funded_supply = \<lparr>minted_supply = Amount 100000000001000, network_emitted_supply = Amount 1000,
     reserve_balance = Amount 100000000000000, circulating_supply = Amount 1000\<rparr>"

definition funded_ledger :: "contribution_receipt \<Rightarrow> string \<Rightarrow> ledger" where
  "funded_ledger c i = genesis_ledger\<lparr>lg_db := (lg_db genesis_ledger)\<lparr>
     db_accounts := db_accounts (lg_db genesis_ledger) @ [\<lparr>ac_address = provider_address,
       ac_balance = 1000, ac_nonce = 0, ac_public_key = None\<rparr>],
     db_epochs := [\<lparr>ep_epoch = 1, ep_receipts_processed = 1, ep_subsidy = 1000\<rparr>],
     db_receipts := [\<lparr>rr_id = i, rr_session_id = cr_session_id c, rr_provider = cr_provider_address c,
       rr_receiver = cr_receiver_address c, rr_content_hash = cr_content_hash c, rr_epoch = 1,
       rr_nonce = 0, rr_json = inst_receipt c, rr_score = 1000, rr_subsidy = 1000, rr_fee = 0,
       rr_phase = Some 0, rr_status = Rewarded\<rparr>],
     db_supply := Some (supply_row_of funded_supply)\<rparr>\<rparr>"

lemma funded_holds:
  assumes "cr_verify inst_ext c = Inr ()" "cr_id inst_ext c = Inr i" "cr_epoch c = 1" "cr_nonce c = 0"
  shows "ledger_holds inst_ext (funded_ledger c i) funded_supply"
proof -
  have "json_receipt_parse inst_ext (inst_receipt c) = Inr c"
    using ext_json(3) [OF inst_ext_ok, of c] by simp
  moreover have "provider_address \<noteq> PERMANENT_RESERVE_ADDRESS"
    by (simp add: provider_address_def PERMANENT_RESERVE_ADDRESS_def)
  ultimately show ?thesis
    using assms
    by (simp add: ledger_holds_def funded_ledger_def genesis_ledger_def ledger_rep_def funded_supply_def
        supply_consistent_def accounts_ok_def account_row_ok_def accounts_total_def balance_of_def
        receipts_rep_def subsidies_def epoch_cap_def transactions_rep_def nonce_of_def epochs_rep_def
        receipt_row_ok_def)
qed

text \<open>From it, the provider can pay the reserve.\<close>

lemma payment_example:
  obtains L L' t i where "ledger_holds inst_ext L funded_supply" "submit_transaction inst_ext L t 1 = Inr (L', i)"
    "tx_from t = provider_address" "units (tx_amount t) = 400" "tx_to t = PERMANENT_RESERVE_ADDRESS"
proof -
  obtain c where c: "cr_verify inst_ext c = Inr ()" "cr_epoch c = 1" "cr_nonce c = 0"
    by (rule sample_receipt [of "''s1''" 1 StandardUpload 1 0]) auto
  obtain k where k: "cr_id inst_ext c = Inr k" by (simp add: cr_id_def)
  define L where "L = funded_ledger c k"
  have L: "ledger_holds inst_ext L funded_supply" unfolding L_def by (rule funded_holds [OF c(1) k c(2,3)])
  obtain t where t: "tx_signed inst_ext provider_wallet reserve_address (Amount 400) 0 1 10 = Inr t"
    using tx_signed_total [OF inst_ext_ok] by blast
  note tf = signed_transaction_facts [OF inst_ext_ok _ t]
  have to: "length (address_str reserve_address) \<le> 128" "address_str reserve_address = PERMANENT_RESERVE_ADDRESS"
    by (simp_all add: reserve_address_def PERMANENT_RESERVE_ADDRESS_def)
  have frm: "tx_from t = provider_address"
    using tf(6) [OF to(1)] by (simp add: sample_addresses provider_address_def)
  obtain i where i: "tx_id inst_ext t = Inr i" by (simp add: tx_id_def)
  have len: "length (inst_transaction t) \<le> 16384"
    using tf [OF to(1)] frm
    by (simp add: inst_transaction_def inst_word_def inst_net_def provider_address_def public_key_hex_def to
        PERMANENT_RESERVE_ADDRESS_def)
  have "\<exists>db'. apply_transaction inst_ext Devnet t 1 (lg_db L) = Inr (db', i)"
  proof (rule apply_transaction_ok [OF inst_ext_ok, where st = funded_supply and w = provider_wallet
        and a = provider_address and amt = "Amount 400" and n = 0 and ce = 1 and ee = 10 and to = reserve_address
        and r = "\<lparr>ac_address = provider_address, ac_balance = 1000, ac_nonce = 0, ac_public_key = None\<rparr>"])
    show "ledger_rep (lg_db L) funded_supply" "transactions_rep (lg_db L)"
      using L by (simp_all add: ledger_holds_def)
    show "find_account provider_address (db_accounts (lg_db L)) =
        Some \<lparr>ac_address = provider_address, ac_balance = 1000, ac_nonce = 0, ac_public_key = None\<rparr>"
      by (simp add: L_def funded_ledger_def genesis_ledger_def provider_address_def PERMANENT_RESERVE_ADDRESS_def)
    show "parse_for_network inst_ext (address_str reserve_address) Devnet = Inr reserve_address"
      by (simp add: to reserve_parses)
    show "i \<notin> tr_id ` set (db_transactions (lg_db L))"
      by (simp add: L_def funded_ledger_def genesis_ledger_def)
    show "json_transaction inst_ext t = Inr (inst_transaction t)" by simp
  qed (use t i len in \<open>simp_all add: provider_wallet_def from_secret_bytes_def sample_addresses [unfolded provider_wallet_def from_secret_bytes_def]
        provider_address_def to PERMANENT_RESERVE_ADDRESS_def\<close>)
  then obtain db' where db': "apply_transaction inst_ext Devnet t 1 (lg_db L) = Inr (db', i)" by blast
  have "submit_transaction inst_ext L t 1 = Inr (L\<lparr>lg_db := db'\<rparr>, i)"
    using L by (intro submit_transaction_ok [where st = funded_supply, OF _ _ db']) (simp_all add: ledger_holds_def)
  then show thesis
    using L frm tf [OF to(1)] to by (intro that) simp_all
qed

end
