(* ===== verification/Smd_Properties.thy ===== *)
theory Smd_Properties
  imports Smd_Liveness
begin

text \<open>
  The ledger's properties: global consistency, limits on rewards, transfers, replays, batches,
  mining and the audit encoding, each with an instance at a concrete ledger.
\<close>

section \<open>Auxiliary facts\<close>

lemma transaction_effect:
  assumes "submit_transaction X L t epoch = Inr (L', i)" "ledger_rep (lg_db L) st"
  shows "\<exists>st'. ledger_rep (lg_db L') st' \<and> transfer_effect (lg_db L) st t (lg_db L') st'"
proof -
  obtain ids where "submit_transactions_atomically X L [t] epoch = Inr (L', ids)"
    using assms(1) by (auto simp: submit_transaction_def)
  from submit_transactions_rep [OF this assms(2)] show ?thesis by auto
qed

lemma transaction_needs_nonce:
  assumes "submit_transaction X L t epoch = Inr (L', i)" "ledger_rep (lg_db L) st"
  shows "nonce_of (lg_db L) (tx_from t) = int (unat (tx_nonce t))"
  using transaction_effect [OF assms] by (auto simp: transfer_effect_def)

lemma submit_transactions_eq:
  assumes "ledger_rep (lg_db L) st"
  shows "submit_transactions_atomically X L ts epoch = Inr (L', ids) \<longleftrightarrow>
    (\<exists>db. try_fold (batch_step X (lg_network L) epoch) (lg_db L, []) ts = Inr (db, ids) \<and> L' = L\<lparr>lg_db := db\<rparr>)"
proof (cases "ts = []")
  case True
  then show ?thesis by (auto simp: submit_transactions_fold)
next
  case False
  then show ?thesis by (rule submit_transactions_iff [OF assms])
qed

lemma batch_Cons:
  assumes "ledger_rep (lg_db L) st"
  shows "submit_transactions_atomically X L (t # ts) epoch = Inr (L2, ids) \<longleftrightarrow>
    (\<exists>L1 i is. submit_transaction X L t epoch = Inr (L1, i) \<and>
       submit_transactions_atomically X L1 ts epoch = Inr (L2, is) \<and> ids = i # is)"
    (is "?l \<longleftrightarrow> ?r")
proof -
  have acc: "try_fold (batch_step X n epoch) (db, ids) us = Inr (db', ids') \<longleftrightarrow>
      (\<exists>is. try_fold (batch_step X n epoch) (db, []) us = Inr (db', is) \<and> ids' = ids @ is)"
    for n db ids us db' ids'
  proof (induction us arbitrary: db ids ids')
    case Nil
    then show ?case by auto
  next
    case (Cons u us)
    show ?case
    proof (cases "apply_transaction X n u epoch db")
      case (Inl e)
      then show ?thesis by (simp add: batch_step_def)
    next
      case (Inr p)
      obtain d j where p: "p = (d, j)" by (cases p)
      have "try_fold (batch_step X n epoch) (db, ids) (u # us) = Inr (db', ids') \<longleftrightarrow>
          try_fold (batch_step X n epoch) (d, ids @ [j]) us = Inr (db', ids')" for ids ids'
        using Inr p by (simp add: batch_step_def)
      then show ?thesis using Cons.IH [of d "ids @ [j]" ids'] Cons.IH [of d "[j]"] by auto
    qed
  qed
  have single: "submit_transaction X L t epoch = Inr (L1, i) \<longleftrightarrow>
      (\<exists>db. apply_transaction X (lg_network L) t epoch (lg_db L) = Inr (db, i) \<and> L1 = L\<lparr>lg_db := db\<rparr>)" for L1 i
    using submit_transactions_eq [OF assms, of X "[t]" epoch]
    by (auto simp: submit_transaction_def batch_step_def)
  show ?thesis
  proof
    assume ?l
    then obtain db where db: "try_fold (batch_step X (lg_network L) epoch) (lg_db L, []) (t # ts) = Inr (db, ids)"
      "L2 = L\<lparr>lg_db := db\<rparr>"
      using submit_transactions_eq [OF assms] by blast
    then obtain s where s: "batch_step X (lg_network L) epoch (lg_db L, []) t = Inr s"
      "try_fold (batch_step X (lg_network L) epoch) s ts = Inr (db, ids)"
      by auto
    then obtain db1 i where 1: "apply_transaction X (lg_network L) t epoch (lg_db L) = Inr (db1, i)" "s = (db1, [i])"
      by (auto simp: batch_step_def)
    obtain "is" where "is": "try_fold (batch_step X (lg_network L) epoch) (db1, []) ts = Inr (db, is)" "ids = i # is"
      using s(2) acc [of _ db1 "[i]" ts] by (auto simp: 1(2))
    let ?L1 = "L\<lparr>lg_db := db1\<rparr>"
    obtain st1 where st1: "ledger_rep (lg_db ?L1) st1" using apply_transaction_rep [OF 1(1) assms] by auto
    have "submit_transactions_atomically X ?L1 ts epoch = Inr (L2, is)"
      using "is" db(2) by (subst submit_transactions_eq [OF st1]) simp
    then show ?r using single 1 "is" by blast
  next
    assume ?r
    then obtain L1 i "is" where 1: "submit_transaction X L t epoch = Inr (L1, i)"
      "submit_transactions_atomically X L1 ts epoch = Inr (L2, is)" "ids = i # is" by blast
    then obtain db1 where db1: "apply_transaction X (lg_network L) t epoch (lg_db L) = Inr (db1, i)"
      "L1 = L\<lparr>lg_db := db1\<rparr>"
      using single by blast
    obtain st1 where st1: "ledger_rep (lg_db L1) st1" using apply_transaction_rep [OF db1(1) assms] db1(2) by auto
    obtain db where db: "try_fold (batch_step X (lg_network L) epoch) (db1, []) ts = Inr (db, is)"
      "L2 = L\<lparr>lg_db := db\<rparr>"
      using submit_transactions_eq [OF st1, of X ts epoch] 1(2) db1(2) by auto
    then have "try_fold (batch_step X (lg_network L) epoch) (lg_db L, []) (t # ts) = Inr (db, ids)"
      using db1(1) acc [of _ db1 "[i]" ts] 1(3) by (auto simp: batch_step_def)
    with db(2) show ?l using submit_transactions_eq [OF assms] by blast
  qed
qed

text \<open>The framing of the audit: a length of eight bytes and the field.\<close>

lemma hash_fields_concat:
  "hash_fields fs acc = acc @ concat (map (\<lambda>f. be_bytes 8 (length f) @ f) fs)"
  by (induction fs arbitrary: acc) (simp_all add: hash_fields_def hash_field_def)

lemma framing_injective:
  assumes "concat (map (\<lambda>f. be_bytes 8 (length f) @ f) fs) = concat (map (\<lambda>f. be_bytes 8 (length f) @ f) gs)"
    and "\<forall>f\<in>set fs \<union> set gs. length f < 2 ^ 64"
  shows "fs = gs"
  using assms
proof (induction fs arbitrary: gs)
  case Nil
  have "be_bytes 8 n \<noteq> []" for n by (metis length_be_bytes length_0_conv zero_neq_numeral)
  with Nil show ?case by (cases gs) auto
next
  case (Cons f fs)
  have "be_bytes 8 (length f) \<noteq> []" by (metis length_be_bytes length_0_conv zero_neq_numeral)
  with Cons.prems(1) obtain g gs' where gs: "gs = g # gs'" by (cases gs) auto
  have eq: "be_bytes 8 (length f) @ f @ concat (map (\<lambda>f. be_bytes 8 (length f) @ f) fs)
      = be_bytes 8 (length g) @ g @ concat (map (\<lambda>f. be_bytes 8 (length f) @ f) gs')"
    using Cons.prems(1) by (simp add: gs)
  then have len: "be_bytes 8 (length f) = be_bytes 8 (length g)" by (simp add: append_eq_append_conv)
  have "length f < 256 ^ 8" "length g < 256 ^ 8" using Cons.prems(2) by (simp_all add: gs)
  then have "length f = length g" using len be_nat_be_bytes by metis
  with eq len have "f = g" "concat (map (\<lambda>f. be_bytes 8 (length f) @ f) fs)
      = concat (map (\<lambda>f. be_bytes 8 (length f) @ f) gs')"
    by (simp_all add: append_eq_append_conv)
  with Cons.IH [of gs'] Cons.prems(2) show ?case by (simp add: gs)
qed

section \<open>Consistency of every reachable ledger\<close>

text \<open>C3: Whatever batches, contributions, minings and restarts a ledger goes through, its
  database stays consistent: the startup check passes, balances and reserve add up to the minted
  supply, which is the genesis reserve plus the subsidies of all rewarded receipts and never
  exceeds the cap; the reserve account holds at least the genesis reserve.\<close>

theorem ledger_always_consistent:
  assumes "smd_ext_ok X" "consensus_engine order" "ledger_reachable X order L"
  shows "verify_invariants L = Inr () \<and>
    (\<exists>st. read_supply (lg_db L) = Inr st \<and>
       accounts_total (db_accounts (lg_db L)) = int (units (minted_supply st)) \<and>
       int (units (minted_supply st)) = 100000000000000 + sum_list (map rr_subsidy (db_receipts (lg_db L))) \<and>
       sum_list (map ep_subsidy (db_epochs (lg_db L))) = sum_list (map rr_subsidy (db_receipts (lg_db L))) \<and>
       units (minted_supply st) \<le> units MAX_SUPPLY \<and>
       balance_of (lg_db L) PERMANENT_RESERVE_ADDRESS = int (units (reserve_balance st)) \<and>
       units GENESIS_RESERVE \<le> units (reserve_balance st))"
proof -
  obtain st where st: "ledger_holds X L st"
    using ledger_reachable_holds [OF assms(3,1,2)] by blast
  then have rep: "ledger_rep (lg_db L) st" by (simp add: ledger_holds_def)
  have "verify_invariants L = Inr ()" using rep by (rule verify_invariants_rep)
  then show ?thesis
    using st read_supply_rep [OF rep]
    by (auto simp: ledger_holds_def ledger_rep_def receipts_rep_def epochs_rep_def supply_consistent_def)
qed

theorem ledger_always_consistent_witness:
  "verify_invariants genesis_ledger = Inr () \<and>
     (\<exists>st. read_supply (lg_db genesis_ledger) = Inr st \<and> units (minted_supply st) \<le> units MAX_SUPPLY)"
proof -
  have "ledger_reachable inst_ext (devnet_order inst_ext) genesis_ledger"
    by (auto simp: ledger_reachable_def open_fresh)
  from ledger_always_consistent [OF inst_ext_ok devnet.consensus_engine_axioms this] show ?thesis
    by blast
qed

text \<open>C6: In every reachable ledger, a provider's subsidies of one epoch stay within 1000 SMD, a pair
  of provider and receiver has at most three receipts for one content in an epoch, and receipt
  ids, sessions and nonces of a pair are never used twice.\<close>

theorem reward_limits:
  assumes "smd_ext_ok X" "consensus_engine order" "ledger_reachable X order L"
  shows "subsidies p e (db_receipts (lg_db L)) \<le> int (units (max_protocol_reward_per_address_epoch default_anti_fraud))
    \<and> length (filter (same_content r) (db_receipts (lg_db L))) \<le> 3
    \<and> distinct (map rr_id (db_receipts (lg_db L))) \<and> distinct (map rr_session_id (db_receipts (lg_db L)))
    \<and> distinct (map (\<lambda>r. (rr_provider r, rr_receiver r, rr_nonce r)) (db_receipts (lg_db L)))"
proof -
  obtain st where "ledger_holds X L st"
    using ledger_reachable_holds [OF assms(3,1,2)] by blast
  then show ?thesis by (simp add: ledger_holds_def receipts_rep_def epoch_cap_def)
qed

theorem reward_limits_witness:
  "subsidies provider_address 1 (db_receipts (lg_db genesis_ledger)) \<le> 100000000000"
proof -
  have "ledger_reachable inst_ext (devnet_order inst_ext) genesis_ledger"
    by (auto simp: ledger_reachable_def open_fresh)
  from reward_limits [OF inst_ext_ok devnet.consensus_engine_axioms this, of provider_address 1] show ?thesis
    by simp
qed

section \<open>Transfers\<close>

text \<open>C5: An accepted transaction moves exactly its amount from the sender to the receiver, raises
  the sender's nonce by one, changes no other balance or nonce and leaves the minted and emitted
  supply as they were; the reserve grows by the amount exactly when it is the receiver.\<close>

theorem transfer_moves_funds:
  assumes "submit_transaction X L t epoch = Inr (L', i)" "ledger_rep (lg_db L) st"
  shows "\<exists>st'. ledger_rep (lg_db L') st' \<and>
     nonce_of (lg_db L) (tx_from t) = int (unat (tx_nonce t)) \<and>
     int (units (tx_amount t)) \<le> balance_of (lg_db L) (tx_from t) \<and>
     balance_of (lg_db L') = (balance_of (lg_db L))
       (tx_from t := balance_of (lg_db L) (tx_from t) - int (units (tx_amount t)),
        tx_to t := balance_of (lg_db L) (tx_to t) + int (units (tx_amount t))) \<and>
     nonce_of (lg_db L') = (nonce_of (lg_db L))(tx_from t := nonce_of (lg_db L) (tx_from t) + 1) \<and>
     minted_supply st' = minted_supply st \<and> network_emitted_supply st' = network_emitted_supply st \<and>
     units (reserve_balance st') = units (reserve_balance st) +
       (if tx_to t = PERMANENT_RESERVE_ADDRESS then units (tx_amount t) else 0)"
  using transaction_effect [OF assms] unfolding transfer_effect_def by blast

theorem transfer_moves_funds_witness:
  "\<exists>L t L' i st. ledger_rep (lg_db L) funded_supply \<and> submit_transaction inst_ext L t 1 = Inr (L', i) \<and>
     ledger_rep (lg_db L') st \<and> units (reserve_balance st) = 100000000000400"
proof -
  obtain L L' t i where p: "ledger_holds inst_ext L funded_supply" "submit_transaction inst_ext L t 1 = Inr (L', i)"
    "units (tx_amount t) = 400" "tx_to t = PERMANENT_RESERVE_ADDRESS"
    by (rule payment_example) blast
  then have "ledger_rep (lg_db L) funded_supply" by (simp add: ledger_holds_def)
  with transfer_moves_funds [OF p(2) this] p show ?thesis by (auto simp: funded_supply_def)
qed

text \<open>C4: A transaction that was accepted once is never accepted again, in no later state of the
  ledger and in no epoch.\<close>

theorem replay_rejected:
  assumes "smd_ext_ok X" "consensus_engine order" "ledger_inv X L"
    and "submit_transaction X L t epoch = Inr (L1, i)" "(ledger_step X order)\<^sup>*\<^sup>* L1 L2"
  shows "\<not> is_ok (submit_transaction X L2 t epoch2)"
proof
  assume "is_ok (submit_transaction X L2 t epoch2)"
  then obtain L3 j where again: "submit_transaction X L2 t epoch2 = Inr (L3, j)" by (auto simp: is_ok_iff)
  obtain st where st: "ledger_holds X L st" using assms(3) by (auto simp: ledger_inv_def)
  obtain ids where batch: "submit_transactions_atomically X L [t] epoch = Inr (L1, ids)"
    using assms(4) by (auto simp: submit_transaction_def)
  obtain st1 where st1: "ledger_holds X L1 st1" using submit_transactions_holds [OF batch st] by blast
  obtain st2 where st2: "ledger_holds X L2 st2" "ledger_grows L1 st1 L2 st2"
    using ledger_steps_hold [OF assms(5) st1 assms(1,2)] by blast
  have rep: "ledger_rep (lg_db L) st" "ledger_rep (lg_db L2) st2"
    using st st2 by (simp_all add: ledger_holds_def)
  have "nonce_of (lg_db L1) (tx_from t) = int (unat (tx_nonce t)) + 1"
    using transaction_effect [OF assms(4) rep(1)] transaction_needs_nonce [OF assms(4) rep(1)]
    by (auto simp: transfer_effect_def)
  moreover have "nonce_of (lg_db L1) (tx_from t) \<le> nonce_of (lg_db L2) (tx_from t)"
    using st2(2) by (simp add: ledger_grows_def)
  moreover have "nonce_of (lg_db L2) (tx_from t) = int (unat (tx_nonce t))"
    by (rule transaction_needs_nonce [OF again rep(2)])
  ultimately show False by simp
qed

theorem replay_rejected_witness:
  "\<exists>L t L' i. submit_transaction inst_ext L t 1 = Inr (L', i) \<and> \<not> is_ok (submit_transaction inst_ext L' t 2)"
proof -
  obtain L L' t i where p: "ledger_holds inst_ext L funded_supply" "submit_transaction inst_ext L t 1 = Inr (L', i)"
    by (rule payment_example) blast
  then have "ledger_inv inst_ext L" by (auto simp: ledger_inv_def)
  from replay_rejected [OF inst_ext_ok devnet.consensus_engine_axioms this p(2) rtranclp.rtrancl_refl] p(2)
  show ?thesis by blast
qed

text \<open>A batch is atomic and sequential: it is accepted exactly when submitting its transactions
  one by one is, with the same ids and the same final ledger.\<close>

theorem batch_is_sequential:
  assumes "ledger_rep (lg_db L) st"
  shows "submit_transactions_atomically X L (t # ts) epoch = Inr (L2, ids) \<longleftrightarrow>
    (\<exists>L1 i is. submit_transaction X L t epoch = Inr (L1, i) \<and>
       submit_transactions_atomically X L1 ts epoch = Inr (L2, is) \<and> ids = i # is)"
  by (rule batch_Cons [OF assms])

theorem batch_is_sequential_witness:
  "\<exists>L t L' i. submit_transaction inst_ext L t 1 = Inr (L', i) \<and>
     submit_transactions_atomically inst_ext L [t] 1 = Inr (L', [i])"
proof -
  obtain L L' t i where p: "ledger_holds inst_ext L funded_supply" "submit_transaction inst_ext L t 1 = Inr (L', i)"
    by (rule payment_example) blast
  then have "ledger_rep (lg_db L) funded_supply" by (simp add: ledger_holds_def)
  moreover have "submit_transactions_atomically inst_ext L' [] 1 = Inr (L', [])"
    by (simp add: submit_transactions_atomically_def)
  ultimately show ?thesis
    using batch_is_sequential [of L funded_supply inst_ext t "[]" 1 L' "[i]"] p(2) by blast
qed

text \<open>Liveness of payments: a transaction signed by a wallet whose account holds the amount, with
  the account's nonce, a current epoch and a valid receiver is accepted, unless its id is
  already in the table or its JSON text is too long.\<close>

theorem payment_accepted:
  assumes "smd_ext_ok X" "lg_network L = Devnet" "ledger_rep (lg_db L) st" "transactions_rep (lg_db L)"
    and "wl_network w = Devnet" "wallet_address X w = Inr (Address a)"
    and "find_account a (db_accounts (lg_db L)) = Some r"
    and "ac_public_key r \<in> {None, Some (public_key_hex X w)}"
    and "0 < units amt" "int (units amt) \<le> ac_balance r"
    and "ac_nonce r = int (unat n)" "ac_nonce r < 9223372036854775807"
    and "ce \<le> epoch" "epoch \<le> ee" "int (unat epoch) \<le> 9223372036854775807"
    and "parse_for_network X (address_str to) Devnet = Inr to" "address_str to \<noteq> a" "length (address_str to) \<le> 128"
    and "tx_signed X w to amt n ce ee = Inr t"
    and "tx_id X t = Inr i" "i \<notin> tr_id ` set (db_transactions (lg_db L))"
    and "json_transaction X t = Inr j" "length j \<le> 16384"
  shows "\<exists>L'. submit_transaction X L t epoch = Inr (L', i)"
proof -
  obtain db where "apply_transaction X Devnet t epoch (lg_db L) = Inr (db, i)"
    using apply_transaction_ok [OF assms(1,3-23)] by blast
  from submit_transaction_ok [OF assms(2,3) this] show ?thesis by blast
qed

text \<open>What mining an epoch emits is exactly what its summary reports: the emitted and the minted
  supply and the sum of the balances grow by the reported subsidy, within the cap, the reserve
  is untouched and no user fee is charged.\<close>

theorem mining_accounts_exactly:
  assumes "smd_ext_ok X" "consensus_engine order" "ledger_holds X L st"
    and "mine_rewards X order L epoch = Inr (L', summary)"
  shows "\<exists>st'. ledger_holds X L' st' \<and>
     units (network_emitted_supply st') = units (network_emitted_supply st) + units (rs_protocol_subsidy summary) \<and>
     units (network_emitted_supply st') \<le> units MAX_NETWORK_EMISSION \<and>
     accounts_total (db_accounts (lg_db L')) =
       accounts_total (db_accounts (lg_db L)) + int (units (rs_protocol_subsidy summary)) \<and>
     reserve_balance st' = reserve_balance st \<and> units (rs_user_resource_fees summary) = 0 \<and>
     nonce_of (lg_db L') = nonce_of (lg_db L)"
proof -
  obtain st' where st': "ledger_holds X L' st'"
    "units (network_emitted_supply st') = units (network_emitted_supply st) + units (rs_protocol_subsidy summary)"
    "reserve_balance st' = reserve_balance st" "units (rs_user_resource_fees summary) = 0"
    "nonce_of (lg_db L') = nonce_of (lg_db L)"
    using mine_rewards_holds [OF assms(4,3,1,2)] by blast
  have "ledger_rep (lg_db L) st" "ledger_rep (lg_db L') st'"
    using assms(3) st'(1) by (simp_all add: ledger_holds_def)
  then have "accounts_total (db_accounts (lg_db L)) = int (units GENESIS_RESERVE + units (network_emitted_supply st))"
    "accounts_total (db_accounts (lg_db L')) = int (units GENESIS_RESERVE + units (network_emitted_supply st'))"
    "units (network_emitted_supply st') \<le> units MAX_NETWORK_EMISSION"
    by (auto simp: ledger_rep_def supply_consistent_def)
  with st' show ?thesis by auto
qed

lemma mine_genesis:
  "\<exists>L' s. mine_rewards X (devnet_order X) genesis_ledger 1 = Inr (L', s)"
proof -
  have rs: "read_supply (lg_db genesis_ledger) = Inr supply_genesis"
    using genesis_holds [of X] by (intro read_supply_rep) (simp add: ledger_holds_def)
  have "pending_receipts X genesis_ledger 1 = Inr []"
    by (simp add: pending_receipts_def sql_u64_def genesis_ledger_def)
  moreover have "supply_consistent supply_genesis"
    by (simp add: supply_consistent_def supply_genesis_def)
  moreover have "db_supply (lg_db genesis_ledger) \<noteq> None" by (simp add: genesis_ledger_def)
  moreover have "verify_account_sum GENESIS_RESERVE db = Inr ()"
    if "db_accounts db = [\<lparr>ac_address = PERMANENT_RESERVE_ADDRESS, ac_balance = 100000000000000,
       ac_nonce = 0, ac_public_key = None\<rparr>]" for db
    using that by (simp add: verify_account_sum_def account_sum_def sql_sum_def genesis_ledger_def
        amount_from_sql_def u64_from_sql_def GENESIS_RESERVE_def)
  ultimately show ?thesis
    using rs write_supply_eq [of supply_genesis "lg_db genesis_ledger"]
      from_components_Inr [of "network_emitted_supply supply_genesis" "reserve_balance supply_genesis" supply_genesis]
    by (auto simp: mine_rewards_def devnet_order_def sql_u64_def upsert_epoch_def genesis_ledger_def Let_def
        supply_genesis_def)
qed

theorem mining_accounts_exactly_witness:
  "\<exists>L' s st. mine_rewards inst_ext (devnet_order inst_ext) genesis_ledger 1 = Inr (L', s) \<and>
     ledger_holds inst_ext L' st \<and> units (rs_user_resource_fees s) = 0"
proof -
  obtain L' s where m: "mine_rewards inst_ext (devnet_order inst_ext) genesis_ledger 1 = Inr (L', s)"
    using mine_genesis by blast
  from mining_accounts_exactly [OF inst_ext_ok devnet.consensus_engine_axioms genesis_holds this] m
  show ?thesis by blast
qed

theorem payment_accepted_witness:
  "\<exists>L t i L'. submit_transaction inst_ext L t 1 = Inr (L', i)"
proof -
  obtain c where c: "cr_verify inst_ext c = Inr ()" "cr_epoch c = 1" "cr_nonce c = 0"
    by (rule sample_receipt [of "''s1''" 1 StandardUpload 1 0]) auto
  obtain k where k: "cr_id inst_ext c = Inr k" by (simp add: cr_id_def)
  define L where "L = funded_ledger c k"
  have L: "ledger_holds inst_ext L funded_supply" unfolding L_def by (rule funded_holds [OF c(1) k c(2,3)])
  obtain t where t: "tx_signed inst_ext provider_wallet reserve_address (Amount 400) 0 1 10 = Inr t"
    using tx_signed_total [OF inst_ext_ok] by blast
  have to: "length (address_str reserve_address) \<le> 128" "address_str reserve_address = PERMANENT_RESERVE_ADDRESS"
    by (simp_all add: reserve_address_def PERMANENT_RESERVE_ADDRESS_def)
  note tf = signed_transaction_facts [OF inst_ext_ok to(1) t]
  have frm: "tx_from t = provider_address"
    using tf(6) by (simp add: sample_addresses provider_address_def)
  obtain i where i: "tx_id inst_ext t = Inr i" by (simp add: tx_id_def)
  have "length (inst_transaction t) \<le> 16384"
    using tf frm by (simp add: inst_transaction_def inst_word_def inst_net_def provider_address_def
        public_key_hex_def to PERMANENT_RESERVE_ADDRESS_def)
  then have "\<exists>L'. submit_transaction inst_ext L t 1 = Inr (L', i)"
    using L t i
    by (intro payment_accepted [OF inst_ext_ok, where st = funded_supply and w = provider_wallet
          and a = provider_address and amt = "Amount 400" and n = 0 and ce = 1 and ee = 10 and to = reserve_address
          and r = "\<lparr>ac_address = provider_address, ac_balance = 1000, ac_nonce = 0, ac_public_key = None\<rparr>"])
       (simp_all add: ledger_holds_def L_def funded_ledger_def genesis_ledger_def reserve_parses to
          provider_address_def PERMANENT_RESERVE_ADDRESS_def reserve_address_def
          sample_addresses parse_for_network_def, simp_all add: provider_wallet_def from_secret_bytes_def)
  then show ?thesis by blast
qed

text \<open>A contribution is recorded once: after a receipt was accepted, no receipt with the same
  session, or with the same provider, receiver and nonce, is accepted in any later state.\<close>

theorem contribution_replay_rejected:
  assumes "smd_ext_ok X" "consensus_engine order" "ledger_inv X L"
    and "submit_contribution X L c = Inr (L1, i)" "(ledger_step X order)\<^sup>*\<^sup>* L1 L2"
    and "cr_session_id d = cr_session_id c \<or> (cr_provider_address d = cr_provider_address c \<and>
       cr_receiver_address d = cr_receiver_address c \<and> cr_nonce d = cr_nonce c)"
  shows "\<not> is_ok (submit_contribution X L2 d)"
proof
  assume "is_ok (submit_contribution X L2 d)"
  then obtain L3 j where again: "submit_contribution X L2 d = Inr (L3, j)" by (auto simp: is_ok_iff)
  obtain st where st: "ledger_holds X L st" using assms(3) by (auto simp: ledger_inv_def)
  have st1: "ledger_holds X L1 st" by (rule submit_contribution_holds [OF assms(4) st assms(1)])
  obtain st2 where st2: "ledger_grows L1 st L2 st2"
    using ledger_steps_hold [OF assms(5) st1 assms(1,2)] by blast
  obtain row where row: "insert_receipt row (db_receipts (lg_db L)) = Inr (db_receipts (lg_db L1))"
    "rr_session_id row = cr_session_id c" "rr_provider row = cr_provider_address c"
    "rr_receiver row = cr_receiver_address c" "rr_nonce row = int (unat (cr_nonce c))"
    by (rule submit_contribution_InrE [OF assms(4)]) auto
  obtain row2 where row2: "insert_receipt row2 (db_receipts (lg_db L2)) = Inr (db_receipts (lg_db L3))"
    "rr_session_id row2 = cr_session_id d" "rr_provider row2 = cr_provider_address d"
    "rr_receiver row2 = cr_receiver_address d" "rr_nonce row2 = int (unat (cr_nonce d))"
    by (rule submit_contribution_InrE [OF again]) auto
  have "static_columns row \<in> set (map static_columns (db_receipts (lg_db L1)))"
    using row(1) by (simp add: insert_receipt_Inr)
  then have "static_columns row \<in> set (map static_columns (db_receipts (lg_db L2)))"
    using st2 by (auto simp: ledger_grows_def simp del: set_map)
  then obtain q where q: "q \<in> set (db_receipts (lg_db L2))" "static_columns row = static_columns q" by auto
  note s = static_eq_iff [OF q(2)]
  define triple :: "receipt_row \<Rightarrow> string \<times> string \<times> int" where "triple = (\<lambda>r. (rr_provider r, rr_receiver r, rr_nonce r))"
  have new: "rr_session_id row2 \<notin> rr_session_id ` set (db_receipts (lg_db L2))"
    "triple row2 \<notin> triple ` set (db_receipts (lg_db L2))"
    using row2(1) by (simp_all add: insert_receipt_Inr triple_def)
  have old: "rr_session_id q \<in> rr_session_id ` set (db_receipts (lg_db L2))"
    "triple q \<in> triple ` set (db_receipts (lg_db L2))"
    using q(1) by (rule imageI)+
  have "rr_session_id row2 = rr_session_id q \<or> triple row2 = triple q"
    using assms(6) row(2-5) row2(2-5) s by (auto simp: triple_def)
  then show False using new old by metis
qed

theorem contribution_replay_rejected_witness:
  "\<exists>L c L' i. submit_contribution inst_ext L c = Inr (L', i) \<and> \<not> is_ok (submit_contribution inst_ext L' c)"
proof -
  obtain c where c: "cr_verify inst_ext c = Inr ()" "cr_network_id c = Devnet" "cr_epoch c = 1" "cr_nonce c = 0"
    "cr_bytes_delivered c = 1" "cr_service_type c = StandardUpload" "cr_session_id c = ''s1''"
    "length (inst_receipt c) \<le> 16384"
    by (rule sample_receipt [of "''s1''" 1 StandardUpload 1 0]) auto
  have "anti_fraud_score default_anti_fraud 1 StandardUpload 0 0 = Inr 1"
    by (simp add: anti_fraud_score_Inr score_value_def factor_basis_points_def word_less_nat_alt)
  then have "\<exists>L' i. submit_contribution inst_ext genesis_ledger c = Inr (L', i)"
    using c by (simp add: submit_contribution_def genesis_ledger_def Let_def cr_id_def sql_u64_def count_u32_def
        insert_receipt_def MAX_SERIALIZED_RECEIPT_BYTES_def)
  then obtain L' i where s: "submit_contribution inst_ext genesis_ledger c = Inr (L', i)" by blast
  have "ledger_inv inst_ext genesis_ledger" using genesis_holds by (auto simp: ledger_inv_def)
  from contribution_replay_rejected [OF inst_ext_ok devnet.consensus_engine_axioms this s rtranclp.rtrancl_refl, of c]
  show ?thesis using s by blast
qed

section \<open>Mining and registered keys\<close>

lemma mined_keys:
  assumes "try_fold (mine_receipt X policy epoch) m rs = Inr m'" "accounts_ok (db_accounts (mn_db m))"
  shows "(\<forall>c\<in>set rs. registered_key (mn_db m') (cr_provider_address c) = Some (cr_provider_public_key c))
    \<and> (\<forall>k key. registered_key (mn_db m) k = Some key \<longrightarrow> registered_key (mn_db m') k = Some key)"
  using assms
proof (induction rs arbitrary: m)
  case Nil
  then show ?case by simp
next
  case (Cons c rs)
  then obtain m1 where m1: "mine_receipt X policy epoch m c = Inr m1" "try_fold (mine_receipt X policy epoch) m1 rs = Inr m'"
    by auto
  obtain x db rows where db: "credit_account (cr_provider_address c) (cr_provider_public_key c) x (mn_db m) = Inr db"
    "mn_db m1 = db\<lparr>db_receipts := rows\<rparr>"
    by (rule mine_receipt_InrE [OF m1(1)]) blast
  note keys = credit_account_keys [OF db(1) Cons.prems(2)]
  have same: "registered_key (mn_db m1) k = registered_key db k" for k
    by (simp add: db(2) registered_key_def)
  have "accounts_ok (db_accounts (mn_db m1))" using keys(3) by (simp add: db(2))
  from Cons.IH [OF m1(2) this] keys same show ?case by auto
qed

text \<open>C8: Mining an epoch pays a provider under one public-key text only: when two pending receipts of
  the epoch name the same provider with different texts, mining the epoch fails.\<close>

theorem conflicting_keys_block_epoch:
  assumes "ledger_rep (lg_db L) st" "consensus_engine order"
    and "pending_receipts X L epoch = Inr pending" "c \<in> set pending" "d \<in> set pending"
    and "cr_provider_address c = cr_provider_address d" "cr_provider_public_key c \<noteq> cr_provider_public_key d"
  shows "\<not> is_ok (mine_rewards X order L epoch)"
proof
  assume "is_ok (mine_rewards X order L epoch)"
  then obtain L' s where "mine_rewards X order L epoch = Inr (L', s)" by (auto simp: is_ok_iff)
  then obtain pending2 receipts prior m where m: "pending_receipts X L epoch = Inr pending2" "order pending2 = Inr receipts"
    "read_supply (lg_db L) = Inr prior"
    "try_fold (mine_receipt X (lg_anti_fraud L) epoch)
        \<lparr>mn_db = lg_db L, mn_emitted = network_emitted_supply prior, mn_total_score = 0,
         mn_total_subsidy = ZERO, mn_total_fees = ZERO,
         mn_last_phase = word_of_nat (emission_phase (network_emitted_supply prior))\<rparr> receipts = Inr m"
    by (rule mine_rewards_InrE) (rule that, assumption+)
  have "c \<in> set receipts" "d \<in> set receipts"
    using consensus_engine.order_set [OF assms(2) m(2)] m(1) assms(3-5) by simp_all
  moreover have "accounts_ok (db_accounts (lg_db L))" using assms(1) by (simp add: ledger_rep_def)
  ultimately have "Some (cr_provider_public_key c) = Some (cr_provider_public_key d)"
    using mined_keys [OF m(4)] assms(6) by (metis mining.select_convs(1))
  then show False using assms(7) by simp
qed

definition conflict_receipt :: "string \<Rightarrow> u64 \<Rightarrow> contribution_receipt" where
  "conflict_receipt key nonce = \<lparr>cr_version = 1, cr_network_id = Devnet, cr_provider_address = ''p'',
     cr_provider_public_key = key, cr_receiver_address = ''r'', cr_receiver_public_key = [],
     cr_session_id = key, cr_content_hash = [], cr_bytes_delivered = 1, cr_service_type = StandardUpload,
     cr_epoch = 1, cr_nonce = nonce, cr_content_verified = True, cr_receiver_signature = []\<rparr>"

definition conflict_row :: "string \<Rightarrow> u64 \<Rightarrow> receipt_row" where
  "conflict_row key nonce = \<lparr>rr_id = key, rr_session_id = key, rr_provider = ''p'', rr_receiver = ''r'',
     rr_content_hash = [], rr_epoch = 1, rr_nonce = int (unat nonce), rr_json = inst_receipt (conflict_receipt key nonce),
     rr_score = 1, rr_subsidy = 0, rr_fee = 0, rr_phase = None, rr_status = Pending\<rparr>"

theorem conflicting_keys_block_epoch_witness:
  "\<not> is_ok (mine_rewards inst_ext (devnet_order inst_ext) (genesis_ledger\<lparr>lg_db := (lg_db genesis_ledger)
     \<lparr>db_receipts := [conflict_row ''AB'' 0, conflict_row ''ab'' 1]\<rparr>\<rparr>) 1)"
proof -
  let ?L = "genesis_ledger\<lparr>lg_db := (lg_db genesis_ledger)
     \<lparr>db_receipts := [conflict_row ''AB'' 0, conflict_row ''ab'' 1]\<rparr>\<rparr>"
  have parse: "json_receipt_parse inst_ext (inst_receipt c) = Inr c" for c
    using ext_json(3) [OF inst_ext_ok, of c] by simp
  have "ledger_rep (lg_db ?L) supply_genesis"
    using genesis_holds [of inst_ext] by (simp add: ledger_holds_def ledger_rep_def balance_of_def)
  moreover have "pending_receipts inst_ext ?L 1 = Inr [conflict_receipt ''AB'' 0, conflict_receipt ''ab'' 1]"
    by (simp add: pending_receipts_def sql_u64_def conflict_row_def parse less_char_def)
  ultimately show ?thesis
    by (rule conflicting_keys_block_epoch [OF _ devnet.consensus_engine_axioms, where
          c = "conflict_receipt ''AB'' 0" and d = "conflict_receipt ''ab'' 1"]) (auto simp: conflict_receipt_def)
qed

section \<open>The audit encoding\<close>

text \<open>The bytes hashed by the audit determine the fields: two sequences of fields with the same
  hash input are equal.\<close>

theorem audit_encoding_injective:
  assumes "\<forall>f\<in>set fs \<union> set gs. length f < 2 ^ 64"
  shows "hash_fields fs [] = hash_fields gs [] \<longleftrightarrow> fs = gs"
  using framing_injective [OF _ assms] by (auto simp: hash_fields_concat)

theorem audit_encoding_injective_witness:
  "hash_fields [[1], [2, 3]] [] \<noteq> hash_fields [[1, 2], [3]] []"
  using audit_encoding_injective [of "[[1], [2, 3]]" "[[1, 2], [3]]"] by simp

section \<open>Amounts and policy\<close>

text \<open>Parsing an amount accepts exactly the decimal literals with a digit string and at most
  eight further digits after a point, and yields their exact value in atomic units whenever it
  fits 64 bits; anything else is an error.\<close>

theorem amount_parse_exact: "amount_from_str s = Inr a \<longleftrightarrow> amount_literal s (units a)"
  by (rule amount_from_str_iff)

text \<open>Printing an amount and parsing the text gives the amount back.\<close>

theorem amount_round_trip: "amount_from_str (amount_to_string a) = Inr a"
  by (rule amount_str_round_trip)

text \<open>The emission phase is the halving schedule: phase \<open>k\<close> is reached exactly when no more than the
  \<open>2 ^ k\<close>-th part of the emission is left, up to phase 31.\<close>

theorem emission_schedule_halves:
  "k \<le> emission_phase e \<longleftrightarrow>
     k \<le> 31 \<and> units MAX_NETWORK_EMISSION - units e \<le> units MAX_NETWORK_EMISSION div 2 ^ k"
  by (rule emission_phase_halving)

text \<open>The reward quote succeeds exactly while the emission is within its cap, and then pays the
  score at the phase's halved rate (at least one unit for a positive score), limited to what is
  left of the emission; none of its 128-bit arithmetic overflows.\<close>

theorem emission_quote_exact:
  "emission_quote s e = Inr q \<longleftrightarrow>
     units e \<le> units MAX_NETWORK_EMISSION \<and> eq_policy_version q = 1 \<and>
     eq_phase q = word_of_nat (emission_phase e) \<and> eq_score_bytes q = s \<and>
     units (eq_protocol_subsidy q) =
       min (if 0 < unat s
            then max (unat s * max (1000000000 div 2 ^ emission_phase e) 1 div 1073741824) 1 else 0)
         (units MAX_NETWORK_EMISSION - units e)"
  unfolding emission_quote_Inr raw_reward_def reward_rate_def EMISSION_VERSION_def ..

text \<open>The anti-fraud score fails exactly for a content that reached its limit; otherwise it is
  the delivered bytes weighted by service type, divided by the number of receipts of the pair so
  far plus one (saturating), and never overflows.\<close>

theorem anti_fraud_score_exact:
  "anti_fraud_score policy delivered service pair same = Inr x \<longleftrightarrow>
     same < max_same_content_per_pair_epoch policy \<and>
     unat x = unat delivered * (case service of StandardUpload \<Rightarrow> 10000 | RareDataUpload \<Rightarrow> 15000
         | CdcReconstructionUpload \<Rightarrow> 12500) div 10000 div min (unat pair + 1) 4294967295"
  unfolding anti_fraud_score_Inr score_value_def factor_basis_points_def
  by (cases service) simp_all

text \<open>Signing succeeds for every wallet and produces a transaction that verifies and carries
  the caller's receiver, amount, nonce and epochs under the wallet's own address.\<close>

theorem signed_transaction_verifies:
  assumes "smd_ext_ok X" "length (address_str to) \<le> 128"
  shows "\<exists>t. tx_signed X w to a n ce ee = Inr t \<and> tx_verify_signature X t = Inr ()
     \<and> tx_to t = address_str to \<and> tx_amount t = a \<and> tx_nonce t = n \<and> tx_network_id t = wl_network w
     \<and> tx_created_epoch t = ce \<and> tx_expiry_epoch t = ee \<and> wallet_address X w = Inr (Address (tx_from t))"
  using tx_signed_total [OF assms(1), of w to a n ce ee] signed_transaction_facts [OF assms] by metis

theorem signed_transaction_verifies_witness:
  "\<exists>t. tx_signed inst_ext provider_wallet reserve_address (Amount 5) 0 1 10 = Inr t
     \<and> tx_verify_signature inst_ext t = Inr ()"
  using signed_transaction_verifies [OF inst_ext_ok, of reserve_address provider_wallet "Amount 5" 0 1 10]
  by (auto simp: reserve_address_def PERMANENT_RESERVE_ADDRESS_def)

end
