(* ===== verification/Cdc_Chunker.thy ===== *)
theory Cdc_Chunker
  imports Rust_Text
begin

text \<open>
  Content-defined chunking: \<open>crates/meld-core/src/profile.rs\<close> and \<open>chunker.rs\<close>. The routine of
  the code streams over the file's reads, one byte at a time, with a rolling gear hash; the
  reference definition \<open>cdc_chunks\<close> cuts a byte string recursively. The theory shows that they
  agree, whatever the sizes of the reads are.
\<close>

unbundle bit_operations_syntax

section \<open>Profiles\<close>

record chunk_profile =
  min_size :: u32
  avg_size :: u32
  max_size :: u32

definition is_power_of_two :: "u32 \<Rightarrow> bool" where
  "is_power_of_two w \<longleftrightarrow> w \<noteq> 0 \<and> w AND (w - 1) = 0"

definition profile_validate :: "chunk_profile \<Rightarrow> unit result" where
  "profile_validate p =
     bail_if (min_size p = 0 \<or> min_size p \<ge> avg_size p \<or> avg_size p \<ge> max_size p)
       ''chunk profile must satisfy 0 < min < avg < max''
    (bail_if (\<not> is_power_of_two (avg_size p)) ''average chunk size must be a power of two''
    (Inr ()))"

definition profile_named :: "string \<Rightarrow> chunk_profile result" where
  "profile_named name = (let n = to_ascii_lowercase name in
     and_then
       (if n = ''s'' \<or> n = ''small'' then
          Inr \<lparr>min_size = 8 * 1024, avg_size = 32 * 1024, max_size = 128 * 1024\<rparr>
        else if n = ''m'' \<or> n = ''medium'' then
          Inr \<lparr>min_size = 16 * 1024, avg_size = 64 * 1024, max_size = 256 * 1024\<rparr>
        else if n = ''l'' \<or> n = ''large'' then
          Inr \<lparr>min_size = 64 * 1024, avg_size = 256 * 1024, max_size = 1024 * 1024\<rparr>
        else Inl (Bail ''unknown chunk profile; expected s, m, or l'')) (\<lambda>profile.
     and_then (profile_validate profile) (\<lambda>_. Inr profile)))"

section \<open>The gear table\<close>

definition splitmix64 :: "u64 \<Rightarrow> u64" where
  "splitmix64 v =
     (let v = v + 0x9e3779b97f4a7c15;
          mixed = (v XOR drop_bit 30 v) * 0xbf58476d1ce4e5b9;
          mixed = (mixed XOR drop_bit 27 mixed) * 0x94d049bb133111eb
      in mixed XOR drop_bit 31 mixed)"

fun gear_entries :: "nat \<Rightarrow> u64 \<Rightarrow> u64 list" where
  "gear_entries 0 state = []"
| "gear_entries (Suc n) state = (let state = splitmix64 state in state # gear_entries n state)"

definition GEAR_TABLE :: "u64 list" where
  "GEAR_TABLE = gear_entries 256 0x6a09e667f3bcc909"

section \<open>The streaming routine\<close>

record chunk_record =
  ck_offset :: u64
  ck_length :: u32
  ck_hash :: string

fun trailing_zeros_from :: "nat \<Rightarrow> nat \<Rightarrow> nat" where
  "trailing_zeros_from 0 v = 0"
| "trailing_zeros_from (Suc k) v = (if odd v then 0 else Suc (trailing_zeros_from k (v div 2)))"

definition trailing_zeros :: "u32 \<Rightarrow> nat" where
  "trailing_zeros w = trailing_zeros_from 32 (unat w)"

definition early_mask :: "chunk_profile \<Rightarrow> u64" where
  "early_mask p = push_bit (trailing_zeros (avg_size p) + 1) 1 - 1"

definition late_mask :: "chunk_profile \<Rightarrow> u64" where
  "late_mask p = push_bit (trailing_zeros (avg_size p) - 1) 1 - 1"

definition gear_step :: "u64 \<Rightarrow> u8 \<Rightarrow> u64" where
  "gear_step gear_hash byte = push_bit 1 gear_hash + GEAR_TABLE ! unat byte"

text \<open>The test after a byte: a chunk of this length and gear hash ends here.\<close>

definition is_boundary :: "chunk_profile \<Rightarrow> u64 \<Rightarrow> u32 \<Rightarrow> bool" where
  "is_boundary p gear_hash len =
     (let mask = (if len < avg_size p then early_mask p else late_mask p);
          boundary = (len \<ge> min_size p \<and> gear_hash AND mask = 0)
      in boundary \<or> len \<ge> max_size p)"

text \<open>The variables of \<open>visit_file_chunks\<close>; \<open>cs_visitor\<close> is the state its visitor captures.\<close>

record 'v chunking =
  cs_buffer :: bytes
  cs_gear :: u64
  cs_start :: u64
  cs_total :: u64
  cs_count :: u64
  cs_visitor :: 'v

definition emit_chunk ::
    "(bytes \<Rightarrow> string) \<Rightarrow> ('v \<Rightarrow> chunk_record \<Rightarrow> 'v result) \<Rightarrow> u64 \<Rightarrow> bytes \<Rightarrow> 'v \<Rightarrow> 'v result" where
  "emit_chunk blake3_hex visitor offset bs v =
     visitor v \<lparr>ck_offset = offset, ck_length = word_of_nat (length bs), ck_hash = blake3_hex bs\<rparr>"

definition chunk_byte ::
    "(bytes \<Rightarrow> string) \<Rightarrow> chunk_profile \<Rightarrow> ('v \<Rightarrow> chunk_record \<Rightarrow> 'v result) \<Rightarrow> 'v chunking \<Rightarrow> u8
       \<Rightarrow> 'v chunking result" where
  "chunk_byte blake3_hex p visitor s byte =
     (let buffer = cs_buffer s @ [byte];
          gear_hash = gear_step (cs_gear s) byte;
          len = (word_of_nat (length buffer) :: u32)
      in if is_boundary p gear_hash len then
           and_then (emit_chunk blake3_hex visitor (cs_start s) buffer (cs_visitor s)) (\<lambda>v.
           Inr \<lparr>cs_buffer = [], cs_gear = 0, cs_start = cs_start s + ucast len,
             cs_total = cs_total s + ucast len, cs_count = cs_count s + 1, cs_visitor = v\<rparr>)
         else Inr (s\<lparr>cs_buffer := buffer, cs_gear := gear_hash\<rparr>))"

text \<open>The loop over the reads; an empty read is the end of the file.\<close>

fun chunk_reads ::
    "(bytes \<Rightarrow> string) \<Rightarrow> chunk_profile \<Rightarrow> ('v \<Rightarrow> chunk_record \<Rightarrow> 'v result) \<Rightarrow> 'v chunking
       \<Rightarrow> bytes result list \<Rightarrow> 'v chunking result" where
  "chunk_reads blake3_hex p visitor s [] = Inr s"
| "chunk_reads blake3_hex p visitor s (r # rs) = (case r of
      Inl e \<Rightarrow> Inl (Bail ''read source file'')
    | Inr block \<Rightarrow>
        if block = [] then Inr s
        else and_then (try_fold (chunk_byte blake3_hex p visitor) s block)
          (\<lambda>s. chunk_reads blake3_hex p visitor s rs))"

definition chunk_flush ::
    "(bytes \<Rightarrow> string) \<Rightarrow> ('v \<Rightarrow> chunk_record \<Rightarrow> 'v result) \<Rightarrow> 'v chunking \<Rightarrow> 'v chunking result" where
  "chunk_flush blake3_hex visitor s =
     (if cs_buffer s = [] then Inr s
      else and_then (emit_chunk blake3_hex visitor (cs_start s) (cs_buffer s) (cs_visitor s)) (\<lambda>v.
        Inr (s\<lparr>cs_count := cs_count s + 1,
          cs_total := cs_total s + word_of_nat (length (cs_buffer s)), cs_visitor := v\<rparr>)))"

text \<open>
  The file is given by its reads (or the error of opening it) and by the length its metadata
  reports at the end; the result is the number of chunks and the visitor's final state.
\<close>

definition visit_file_chunks ::
    "(bytes \<Rightarrow> string) \<Rightarrow> chunk_profile \<Rightarrow> bytes result list result \<Rightarrow> u64 result
       \<Rightarrow> ('v \<Rightarrow> chunk_record \<Rightarrow> 'v result) \<Rightarrow> 'v \<Rightarrow> (u64 \<times> 'v) result" where
  "visit_file_chunks blake3_hex p file end_len visitor v =
     and_then (profile_validate p) (\<lambda>_.
     case file of Inl e \<Rightarrow> Inl (Bail ''open source file'') | Inr reads \<Rightarrow>
     and_then (chunk_reads blake3_hex p visitor
        \<lparr>cs_buffer = [], cs_gear = 0, cs_start = 0, cs_total = 0, cs_count = 0, cs_visitor = v\<rparr> reads) (\<lambda>s.
     and_then (chunk_flush blake3_hex visitor s) (\<lambda>s.
     and_then end_len (\<lambda>expected.
     bail_if (cs_total s \<noteq> expected) ''chunked byte count mismatch''
     (Inr (cs_count s, cs_visitor s))))))"

section \<open>The reference definition\<close>

text \<open>The length of the first chunk of \<open>bs\<close>, having seen \<open>n\<close> bytes with gear hash \<open>g\<close>.\<close>

fun first_cut :: "chunk_profile \<Rightarrow> u64 \<Rightarrow> nat \<Rightarrow> bytes \<Rightarrow> nat" where
  "first_cut p g n [] = n"
| "first_cut p g n (b # bs) = (let g = gear_step g b; n = Suc n in
     if is_boundary p g (word_of_nat n) then n else first_cut p g n bs)"

lemma first_cut_ge: "n \<le> first_cut p g n bs"
  by (induction p g n bs rule: first_cut.induct) (auto simp: Let_def dest: Suc_leD)

lemma first_cut_le: "first_cut p g n bs \<le> n + length bs"
  by (induction p g n bs rule: first_cut.induct) (auto simp: Let_def)

lemma first_cut_pos: "bs \<noteq> [] \<Longrightarrow> n < first_cut p g n bs"
  using first_cut_ge [of "Suc n" p "gear_step g (hd bs)" "tl bs"] by (cases bs) (auto simp: Let_def)

function cdc_chunks :: "chunk_profile \<Rightarrow> bytes \<Rightarrow> bytes list" where
  "cdc_chunks p bs = (if bs = [] then []
     else (let n = first_cut p 0 0 bs in take n bs # cdc_chunks p (drop n bs)))"
  by auto
termination
  by (relation "measure (\<lambda>(_, bs). length bs)") (use first_cut_pos in fastforce)+

declare cdc_chunks.simps [simp del]

lemma cdc_chunks_Nil [simp]: "cdc_chunks p [] = []"
  by (simp add: cdc_chunks.simps)

lemma cdc_chunks_step:
  "bs \<noteq> [] \<Longrightarrow> cdc_chunks p bs = take (first_cut p 0 0 bs) bs # cdc_chunks p (drop (first_cut p 0 0 bs) bs)"
  by (subst cdc_chunks.simps) (simp add: Let_def)

text \<open>The chunks tile the string.\<close>

lemma concat_cdc_chunks: "concat (cdc_chunks p bs) = bs"
proof (induction p bs rule: cdc_chunks.induct)
  case (1 p bs)
  then show ?case by (cases "bs = []") (simp_all add: cdc_chunks_step)
qed

lemma cdc_chunks_nonempty: "c \<in> set (cdc_chunks p bs) \<Longrightarrow> c \<noteq> []"
proof (induction p bs rule: cdc_chunks.induct)
  case (1 p bs)
  then show ?case
    using first_cut_pos [of bs 0 p 0] by (cases "bs = []") (auto simp: cdc_chunks_step)
qed

lemma cdc_chunks_eq_Nil [simp]: "cdc_chunks p bs = [] \<longleftrightarrow> bs = []"
  by (metis cdc_chunks_Nil cdc_chunks_step list.distinct(1))

text \<open>The records the visitor is to be given: consecutive offsets, lengths and hashes.\<close>

fun records_at :: "(bytes \<Rightarrow> string) \<Rightarrow> u64 \<Rightarrow> bytes list \<Rightarrow> chunk_record list" where
  "records_at blake3_hex off [] = []"
| "records_at blake3_hex off (c # cs) =
     \<lparr>ck_offset = off, ck_length = word_of_nat (length c), ck_hash = blake3_hex c\<rparr>
       # records_at blake3_hex (off + word_of_nat (length c)) cs"

definition file_records :: "(bytes \<Rightarrow> string) \<Rightarrow> chunk_profile \<Rightarrow> bytes \<Rightarrow> chunk_record list" where
  "file_records blake3_hex p bs = records_at blake3_hex 0 (cdc_chunks p bs)"

lemma length_records_at [simp]: "length (records_at h off cs) = length cs"
  by (induction cs arbitrary: off) simp_all

section \<open>The streaming routine agrees with the reference\<close>

lemma profile_validate_iff:
  "profile_validate p = Inr u \<longleftrightarrow>
     0 < unat (min_size p) \<and> unat (min_size p) < unat (avg_size p) \<and>
     unat (avg_size p) < unat (max_size p) \<and> is_power_of_two (avg_size p)"
  by (auto simp: profile_validate_def word_le_nat_alt word_less_nat_alt unat_gt_0)

lemma chunk_reads_blocks:
  "[] \<notin> set blocks \<Longrightarrow>
   chunk_reads h p visitor s (map Inr blocks) = try_fold (chunk_byte h p visitor) s (concat blocks)"
proof (induction blocks arbitrary: s)
  case Nil
  then show ?case by simp
next
  case (Cons b blocks)
  then have "b \<noteq> []" by auto
  with Cons show ?case by (simp add: try_fold_append)
qed

text \<open>Reading stops at the first empty read.\<close>

lemma chunk_reads_eof:
  "[] \<notin> set blocks \<Longrightarrow>
   chunk_reads h p visitor s (map Inr blocks @ Inr [] # late) =
   chunk_reads h p visitor s (map Inr blocks)"
  by (induction blocks arbitrary: s) (auto intro!: and_then_cong)

definition chunk_run ::
    "(bytes \<Rightarrow> string) \<Rightarrow> chunk_profile \<Rightarrow> ('v \<Rightarrow> chunk_record \<Rightarrow> 'v result) \<Rightarrow> 'v chunking \<Rightarrow> bytes
       \<Rightarrow> (u64 \<times> u64 \<times> 'v) result" where
  "chunk_run h p visitor s bs =
     and_then (try_fold (chunk_byte h p visitor) s bs) (\<lambda>s.
     and_then (chunk_flush h visitor s) (\<lambda>s. Inr (cs_total s, cs_count s, cs_visitor s)))"

lemma boundary_at_max:
  "n < unat (max_size p) \<Longrightarrow> \<not> is_boundary p g (word_of_nat (Suc n)) \<Longrightarrow> Suc n < unat (max_size p)"
proof -
  assume n: "n < unat (max_size p)" and b: "\<not> is_boundary p g (word_of_nat (Suc n))"
  have "Suc n < 4294967296" using n unat_u32_bound [of "max_size p"] by linarith
  then have "unat (word_of_nat (Suc n) :: u32) = Suc n" by (rule unat_of_nat_u32)
  with b show ?thesis by (simp add: is_boundary_def Let_def word_le_nat_alt)
qed

lemma ucast_length:
  "n < 4294967296 \<Longrightarrow> ucast (word_of_nat n :: u32) = (word_of_nat n :: u64)"
  by (rule word_unat_eq_iff [THEN iffD2])
     (simp add: unat_ucast_fits unat_of_nat_u32 unat_of_nat_u64)

lemma chunk_run_step:
  assumes "length (cs_buffer s) < unat (max_size p)" and "cs_buffer s @ bs \<noteq> []"
  shows "chunk_run h p visitor s bs =
    (let k = first_cut p (cs_gear s) (length (cs_buffer s)) bs; c = take k (cs_buffer s @ bs) in
     and_then (emit_chunk h visitor (cs_start s) c (cs_visitor s)) (\<lambda>v.
     chunk_run h p visitor
       \<lparr>cs_buffer = [], cs_gear = 0, cs_start = cs_start s + word_of_nat (length c),
        cs_total = cs_total s + word_of_nat (length c), cs_count = cs_count s + 1, cs_visitor = v\<rparr>
       (drop k (cs_buffer s @ bs))))"
  using assms
proof (induction bs arbitrary: s)
  case Nil
  then show ?case
    by (cases "emit_chunk h visitor (cs_start s) (cs_buffer s) (cs_visitor s)")
       (simp_all add: chunk_run_def chunk_flush_def)
next
  case (Cons b bs)
  let ?n = "length (cs_buffer s)" and ?g = "gear_step (cs_gear s) b"
  have n: "Suc ?n < 4294967296"
    using Cons.prems(1) unat_u32_bound [of "max_size p"] by linarith
  show ?case
  proof (cases "is_boundary p ?g (word_of_nat (Suc ?n))")
    case True
    then show ?thesis
      by (cases "emit_chunk h visitor (cs_start s) (cs_buffer s @ [b]) (cs_visitor s)")
         (simp_all add: chunk_run_def chunk_byte_def ucast_length [OF n] del: of_nat_Suc of_nat_add)
  next
    case False
    let ?s = "s\<lparr>cs_buffer := cs_buffer s @ [b], cs_gear := ?g\<rparr>"
    have "chunk_run h p visitor s (b # bs) = chunk_run h p visitor ?s bs"
      using False by (simp add: chunk_run_def chunk_byte_def del: of_nat_Suc)
    also have "\<dots> = (let k = first_cut p ?g (Suc ?n) bs; c = take k (cs_buffer s @ b # bs) in
       and_then (emit_chunk h visitor (cs_start s) c (cs_visitor s)) (\<lambda>v.
       chunk_run h p visitor
         \<lparr>cs_buffer = [], cs_gear = 0, cs_start = cs_start s + word_of_nat (length c),
          cs_total = cs_total s + word_of_nat (length c), cs_count = cs_count s + 1, cs_visitor = v\<rparr>
         (drop k (cs_buffer s @ b # bs))))"
      using Cons.IH [of ?s] boundary_at_max [OF Cons.prems(1) False] by (simp del: of_nat_Suc)
    finally show ?thesis using False by (simp add: Let_def del: of_nat_Suc)
  qed
qed

lemma chunk_run_records:
  assumes "0 < unat (max_size p)" and "cs_buffer s = []" and "cs_gear s = 0"
  shows "chunk_run h p visitor s bs =
    and_then (try_fold visitor (cs_visitor s) (records_at h (cs_start s) (cdc_chunks p bs)))
      (\<lambda>v. Inr (cs_total s + word_of_nat (length bs),
                cs_count s + word_of_nat (length (cdc_chunks p bs)), v))"
  using assms
proof (induction p bs arbitrary: s rule: cdc_chunks.induct)
  case (1 p bs)
  show ?case
  proof (cases "bs = []")
    case True
    with "1.prems" show ?thesis by (simp add: chunk_run_def chunk_flush_def)
  next
    case False
    let ?k = "first_cut p 0 0 bs"
    have le: "?k \<le> length bs" using first_cut_le [of p 0 0 bs] by simp
    then have split: "word_of_nat ?k + word_of_nat (length bs - ?k) = (word_of_nat (length bs) :: u64)"
      by (metis le_add_diff_inverse of_nat_add)
    let ?s = "\<lambda>v. \<lparr>cs_buffer = [], cs_gear = 0, cs_start = cs_start s + word_of_nat ?k,
        cs_total = cs_total s + word_of_nat ?k, cs_count = cs_count s + 1, cs_visitor = v\<rparr>"
    have IH: "chunk_run h p visitor (?s v) (drop ?k bs) =
        and_then (try_fold visitor v (records_at h (cs_start s + word_of_nat ?k) (cdc_chunks p (drop ?k bs))))
          (\<lambda>v. Inr (cs_total s + word_of_nat (length bs),
                    cs_count s + word_of_nat (length (cdc_chunks p bs)), v))" for v
      using "1.IH" [OF False refl "1.prems"(1), of "?s v"] split
      by (simp add: cdc_chunks_step [OF False] add.assoc)
    have "chunk_run h p visitor s bs =
      and_then (emit_chunk h visitor (cs_start s) (take ?k bs) (cs_visitor s))
        (\<lambda>v. chunk_run h p visitor (?s v) (drop ?k bs))"
    proof -
      have "length (cs_buffer s) < unat (max_size p)" "cs_buffer s @ bs \<noteq> []"
        using "1.prems" False by simp_all
      from chunk_run_step [OF this, of h visitor] show ?thesis
        using le by (simp add: "1.prems" Let_def min_absorb2)
    qed
    then show ?thesis
      unfolding IH using le
      by (cases "emit_chunk h visitor (cs_start s) (take ?k bs) (cs_visitor s)")
         (simp_all add: cdc_chunks_step [OF False] emit_chunk_def)
  qed
qed

text \<open>
  The streaming routine gives the visitor the records of the reference definition, in order,
  whatever the sizes of the reads.
\<close>

lemma visit_file_chunks_records:
  assumes "profile_validate p = Inr ()" and "[] \<notin> set blocks" and "concat blocks = bs"
    and "reads = map Inr blocks \<or> (\<exists>late. reads = map Inr blocks @ Inr [] # late)"
  shows "visit_file_chunks h p (Inr reads) (Inr expected) visitor v =
    and_then (try_fold visitor v (file_records h p bs)) (\<lambda>v'.
    bail_if (word_of_nat (length bs) \<noteq> expected) ''chunked byte count mismatch''
    (Inr (word_of_nat (length (cdc_chunks p bs)), v')))"
proof -
  let ?s = "\<lparr>cs_buffer = [], cs_gear = 0, cs_start = 0, cs_total = 0, cs_count = 0, cs_visitor = v\<rparr>"
  have max: "0 < unat (max_size p)" using assms(1) by (simp add: profile_validate_iff)
  have reads: "chunk_reads h p visitor ?s reads = try_fold (chunk_byte h p visitor) ?s bs"
    using assms(2-4) chunk_reads_blocks [of blocks h p visitor ?s] chunk_reads_eof [of blocks h p visitor ?s]
    by auto
  have "visit_file_chunks h p (Inr reads) (Inr expected) visitor v =
    and_then (chunk_run h p visitor ?s bs) (\<lambda>(total, count, v').
      bail_if (total \<noteq> expected) ''chunked byte count mismatch'' (Inr (count, v')))"
    by (simp add: visit_file_chunks_def assms(1) reads chunk_run_def and_then_assoc)
  also have "\<dots> = and_then (try_fold visitor v (file_records h p bs)) (\<lambda>v'.
    bail_if (word_of_nat (length bs) \<noteq> expected) ''chunked byte count mismatch''
    (Inr (word_of_nat (length (cdc_chunks p bs)), v')))"
    by (simp add: chunk_run_records [OF max] file_records_def and_then_assoc)
  finally show ?thesis .
qed

text \<open>A visitor that collects the records.\<close>

definition collect_chunk :: "chunk_record list \<Rightarrow> chunk_record \<Rightarrow> chunk_record list result" where
  "collect_chunk cs c = Inr (cs @ [c])"

lemma try_fold_collect [simp]: "try_fold collect_chunk cs ds = Inr (cs @ ds)"
  by (induction ds arbitrary: cs) (simp_all add: collect_chunk_def)

section \<open>Sizes of chunks\<close>

lemma first_cut_max:
  "n < unat (max_size p) \<Longrightarrow> first_cut p g n bs \<le> unat (max_size p)"
proof (induction p g n bs rule: first_cut.induct)
  case (1 p g n)
  then show ?case by simp
next
  case (2 p g n b bs)
  show ?case
  proof (cases "is_boundary p (gear_step g b) (word_of_nat (Suc n))")
    case True
    then show ?thesis using "2.prems" by (simp del: of_nat_Suc)
  next
    case False
    have "first_cut p (gear_step g b) (Suc n) bs \<le> unat (max_size p)"
      by (rule "2.IH" [OF refl refl False boundary_at_max [OF "2.prems" False]])
    with False show ?thesis by (simp del: of_nat_Suc)
  qed
qed

lemma first_cut_min:
  assumes "unat (min_size p) < unat (max_size p)" and "n < unat (max_size p)"
    and "first_cut p g n bs < n + length bs"
  shows "unat (min_size p) \<le> first_cut p g n bs"
  using assms
proof (induction p g n bs rule: first_cut.induct)
  case (1 p g n)
  then show ?case by simp
next
  case (2 p g n b bs)
  show ?case
  proof (cases "is_boundary p (gear_step g b) (word_of_nat (Suc n))")
    case True
    have "Suc n < 4294967296"
      using "2.prems"(2) unat_u32_bound [of "max_size p"] by linarith
    then have "unat (word_of_nat (Suc n) :: u32) = Suc n" by (rule unat_of_nat_u32)
    with True "2.prems"(1) have "unat (min_size p) \<le> Suc n"
      by (auto simp: is_boundary_def Let_def word_le_nat_alt simp del: of_nat_Suc)
    with True show ?thesis by (simp del: of_nat_Suc)
  next
    case False
    have "unat (min_size p) \<le> first_cut p (gear_step g b) (Suc n) bs"
      using "2.prems" False
      by (intro "2.IH" [OF refl refl False] boundary_at_max [OF _ False]) (simp_all del: of_nat_Suc)
    with False show ?thesis by (simp del: of_nat_Suc)
  qed
qed

lemma cdc_chunks_max:
  "0 < unat (max_size p) \<Longrightarrow> c \<in> set (cdc_chunks p bs) \<Longrightarrow> length c \<le> unat (max_size p)"
proof (induction p bs rule: cdc_chunks.induct)
  case (1 p bs)
  show ?case
  proof (cases "bs = []")
    case True
    with "1.prems" show ?thesis by simp
  next
    case False
    with "1.prems" first_cut_max [of 0 p 0 bs] "1.IH" [OF False refl] show ?thesis
      by (auto simp: cdc_chunks_step)
  qed
qed

lemma cdc_chunks_min:
  "unat (min_size p) < unat (max_size p) \<Longrightarrow> c \<in> set (butlast (cdc_chunks p bs)) \<Longrightarrow>
   unat (min_size p) \<le> length c"
proof (induction p bs rule: cdc_chunks.induct)
  case (1 p bs)
  show ?case
  proof (cases "bs = [] \<or> drop (first_cut p 0 0 bs) bs = []")
    case True
    with "1.prems" show ?thesis by (cases "bs = []") (simp_all add: cdc_chunks_step)
  next
    case False
    let ?k = "first_cut p 0 0 bs"
    from False have "bs \<noteq> []" "?k < length bs" by auto
    with "1.prems" first_cut_min [of p 0 0 bs] "1.IH" [OF _ refl] False show ?thesis
      by (auto simp: cdc_chunks_step [OF \<open>bs \<noteq> []\<close>] split: if_splits)
  qed
qed

end
