(* ===== verification/Cdc_Descriptor.thy ===== *)
theory Cdc_Descriptor
  imports Cdc_Chunker
begin

text \<open>
  Target descriptors and file hashing: \<open>crates/meld-core/src/descriptor.rs\<close> and \<open>hashing.rs\<close>.
  A descriptor names a file by its size and SHA-256 and lists its content-defined chunks. The
  third-party crates (sha2, hex, blake3, serde_json) are the fields of the record \<open>cdc_ext\<close>; what
  the program relies on is the predicate \<open>cdc_ext_ok\<close>.
\<close>

section \<open>Descriptors\<close>

definition DESCRIPTOR_FORMAT :: string where
  "DESCRIPTOR_FORMAT = ''shardmeld-descriptor''"

definition DESCRIPTOR_VERSION :: u32 where
  "DESCRIPTOR_VERSION = 1"

definition CHUNK_ALGORITHM :: string where
  "CHUNK_ALGORITHM = ''gear-cdc-v1+blake3-256''"

record target_info =
  ti_name :: string
  ti_size :: u64
  ti_sha256 :: string

record target_descriptor =
  td_format :: string
  td_version :: u32
  td_chunk_algorithm :: string
  td_profile :: chunk_profile
  td_target :: target_info
  td_chunks :: "chunk_record list"

record cdc_ext =
  cx_sha256 :: "bytes \<Rightarrow> bytes"
  cx_hex_encode :: "bytes \<Rightarrow> string"
  cx_hex_decode :: "string \<Rightarrow> bytes result"
  cx_blake3_hex :: "bytes \<Rightarrow> string"
  cx_json_profile :: "chunk_profile \<Rightarrow> string result"
  cx_json_descriptor :: "target_descriptor \<Rightarrow> bytes result"
  cx_json_descriptor_parse :: "bytes \<Rightarrow> target_descriptor result"

text \<open>
  What is relied on: digests have 32 bytes, hex is lossless and two characters a byte, the text
  of a BLAKE3 hash is the lower-case hex of 32 bytes, and JSON texts determine their values.
\<close>

definition cdc_ext_ok :: "cdc_ext \<Rightarrow> bool" where
  "cdc_ext_ok X \<longleftrightarrow>
     (\<forall>b. length (cx_sha256 X b) = 32) \<and>
     (\<forall>b. cx_hex_decode X (cx_hex_encode X b) = Inr b) \<and>
     (\<forall>b. length (cx_hex_encode X b) = 2 * length b) \<and>
     (\<forall>b. \<exists>d. length d = 32 \<and> cx_blake3_hex X b = cx_hex_encode X d) \<and>
     (\<forall>p. is_ok (cx_json_profile X p)) \<and>
     (\<forall>p q s. cx_json_profile X p = Inr s \<and> cx_json_profile X q = Inr s \<longrightarrow> p = q) \<and>
     (\<forall>d. \<exists>j. cx_json_descriptor X d = Inr j \<and> cx_json_descriptor_parse X j = Inr d)"

definition hex_digest :: "cdc_ext \<Rightarrow> string \<Rightarrow> bool" where
  "hex_digest X s \<longleftrightarrow> length s = 64 \<and> is_ok (cx_hex_decode X s)"

text \<open>The body of the loop over the chunks, from one expected offset to the next.\<close>

definition validate_chunk :: "cdc_ext \<Rightarrow> u64 \<Rightarrow> chunk_record \<Rightarrow> u64 result" where
  "validate_chunk X expected_offset chunk =
     bail_if (ck_offset chunk \<noteq> expected_offset) ''descriptor chunk offset mismatch''
    (bail_if (ck_length chunk = 0) ''descriptor chunk has zero length''
    (bail_if (\<not> hex_digest X (ck_hash chunk)) ''descriptor chunk has invalid BLAKE3 hash''
    (ok_or (checked_add expected_offset (ucast (ck_length chunk))) (Bail ''descriptor size overflow''))))"

definition td_validate :: "cdc_ext \<Rightarrow> target_descriptor \<Rightarrow> unit result" where
  "td_validate X d =
     bail_if (td_format d \<noteq> DESCRIPTOR_FORMAT \<or> td_version d \<noteq> DESCRIPTOR_VERSION) ''unsupported descriptor version''
    (bail_if (td_chunk_algorithm d \<noteq> CHUNK_ALGORITHM) ''unsupported chunk algorithm''
    (and_then (profile_validate (td_profile d)) (\<lambda>_.
     bail_if (\<not> hex_digest X (ti_sha256 (td_target d))) ''target SHA-256 must be 32-byte hexadecimal''
    (and_then (try_fold (validate_chunk X) 0 (td_chunks d)) (\<lambda>expected_offset.
     bail_if (expected_offset \<noteq> ti_size (td_target d)) ''descriptor target size mismatch''
    (bail_if (0 < ti_size (td_target d) \<and> td_chunks d = []) ''non-empty target has no chunks''
    (Inr ())))))))"

section \<open>Hashing a file\<close>

text \<open>The hasher's state is the string it has been fed.\<close>

fun sha256_reads :: "bytes \<Rightarrow> bytes result list \<Rightarrow> bytes result" where
  "sha256_reads fed [] = Inr fed"
| "sha256_reads fed (r # rs) = (case r of
      Inl e \<Rightarrow> Inl (Bail ''read for SHA-256'')
    | Inr block \<Rightarrow> if block = [] then Inr fed else sha256_reads (fed @ block) rs)"

definition sha256_file :: "cdc_ext \<Rightarrow> bytes result list result \<Rightarrow> string result" where
  "sha256_file X reads =
     (case reads of
        Inl e \<Rightarrow> Inl (Bail ''open for SHA-256'')
      | Inr rs \<Rightarrow> and_then (sha256_reads [] rs) (\<lambda>fed. Inr (cx_hex_encode X (cx_sha256 X fed))))"

section \<open>Creating, saving and loading\<close>

text \<open>
  What a run of \<open>create_descriptor\<close> observes of its target, which another process may change
  meanwhile: the metadata first read (with the modification time in nanoseconds since the epoch), the reads of the chunker, the length its final metadata
  call reports, and the reads of the hasher.
\<close>

record file_meta =
  fm_is_file :: bool
  fm_len :: u64
  fm_modified :: "int result"

record target_view =
  tv_name :: "string option"
  tv_metadata :: "file_meta result"
  tv_reads :: "bytes result list result"
  tv_end_len :: "u64 result"
  tv_sha_reads :: "bytes result list result"

definition create_descriptor :: "cdc_ext \<Rightarrow> target_view \<Rightarrow> chunk_profile \<Rightarrow> target_descriptor result" where
  "create_descriptor X view p =
     and_then (profile_validate p) (\<lambda>_.
     case tv_metadata view of
       Inl e \<Rightarrow> Inl (Bail ''read target metadata'')
     | Inr metadata \<Rightarrow>
         bail_if (\<not> fm_is_file metadata) ''target is not a regular file''
        (and_then (visit_file_chunks (cx_blake3_hex X) p (tv_reads view) (tv_end_len view) collect_chunk []) (\<lambda>(_, chunks).
         let name = (case tv_name view of Some n \<Rightarrow> n | None \<Rightarrow> ''target'') in
         and_then (sha256_file X (tv_sha_reads view)) (\<lambda>sha.
         let descriptor = \<lparr>td_format = DESCRIPTOR_FORMAT, td_version = DESCRIPTOR_VERSION,
               td_chunk_algorithm = CHUNK_ALGORITHM, td_profile = p,
               td_target = \<lparr>ti_name = name, ti_size = fm_len metadata, ti_sha256 = sha\<rparr>,
               td_chunks = chunks\<rparr> in
         and_then (td_validate X descriptor) (\<lambda>_. Inr descriptor)))))"

text \<open>
  The descriptor is written whole, or, when it cannot be printed, not at all into the new file; a write of the disk
  that fails halfway is not a branch.
\<close>

definition save_descriptor ::
    "cdc_ext \<Rightarrow> (string \<rightharpoonup> bytes) \<Rightarrow> target_descriptor \<Rightarrow> string \<Rightarrow> (unit result \<times> (string \<rightharpoonup> bytes))" where
  "save_descriptor X fs d path =
     (case td_validate X d of
        Inl e \<Rightarrow> (Inl e, fs)
      | Inr _ \<Rightarrow>
          if path \<in> dom fs then (Inl (Bail ''create descriptor''), fs)
          else (case cx_json_descriptor X d of
              Inl e \<Rightarrow> (Inl (Bail ''write descriptor''), fs(path \<mapsto> []))
            | Inr j \<Rightarrow> (Inr (), fs(path \<mapsto> j))))"

definition load_descriptor :: "cdc_ext \<Rightarrow> (string \<rightharpoonup> bytes) \<Rightarrow> string \<Rightarrow> target_descriptor result" where
  "load_descriptor X fs path =
     (case fs path of
        None \<Rightarrow> Inl (Bail ''open descriptor'')
      | Some text \<Rightarrow>
          (case cx_json_descriptor_parse X text of
             Inl e \<Rightarrow> Inl (Bail ''parse descriptor'')
           | Inr d \<Rightarrow> and_then (td_validate X d) (\<lambda>_. Inr d)))"

section \<open>Valid descriptors tile their target\<close>

fun chunks_tile :: "nat \<Rightarrow> chunk_record list \<Rightarrow> nat \<Rightarrow> bool" where
  "chunks_tile off [] e \<longleftrightarrow> off = e"
| "chunks_tile off (c # cs) e \<longleftrightarrow> unat (ck_offset c) = off \<and> 0 < unat (ck_length c)
     \<and> chunks_tile (off + unat (ck_length c)) cs e"

lemma chunks_tile_le: "chunks_tile off cs e \<Longrightarrow> off \<le> e"
  by (induction cs arbitrary: off) (auto dest: add_leD1)

lemma chunks_tile_sum: "chunks_tile off cs e \<Longrightarrow> off + sum_list (map (\<lambda>c. unat (ck_length c)) cs) = e"
  by (induction cs arbitrary: off) (fastforce simp: add.assoc)+

lemma unat_ucast_u32 [simp]: "unat (ucast (n :: u32) :: u64) = unat n"
  using unat_u32_bound [of n] by (intro unat_ucast_fits) (simp del: unat_u32_bound)

lemma validate_chunk_iff:
  "validate_chunk X off c = Inr e \<longleftrightarrow>
     ck_offset c = off \<and> 0 < unat (ck_length c) \<and> hex_digest X (ck_hash c) \<and>
     unat e = unat off + unat (ck_length c)"
  by (auto simp: validate_chunk_def checked_add_Some unat_gt_0)

lemma validate_chunks_iff:
  "try_fold (validate_chunk X) off cs = Inr e \<longleftrightarrow>
     (\<forall>c\<in>set cs. hex_digest X (ck_hash c)) \<and> chunks_tile (unat off) cs (unat e)"
proof (induction cs arbitrary: off)
  case Nil
  then show ?case by (auto simp: word_unat_eq_iff)
next
  case (Cons c cs)
  show ?case
  proof
    assume "try_fold (validate_chunk X) off (c # cs) = Inr e"
    then show "(\<forall>c\<in>set (c # cs). hex_digest X (ck_hash c)) \<and> chunks_tile (unat off) (c # cs) (unat e)"
      by (auto simp: validate_chunk_iff Cons.IH)
  next
    assume R: "(\<forall>c\<in>set (c # cs). hex_digest X (ck_hash c)) \<and> chunks_tile (unat off) (c # cs) (unat e)"
    then have "unat off + unat (ck_length c) \<le> unat e" by (auto dest: chunks_tile_le)
    then have "unat off + unat (ck_length c) < 18446744073709551616"
      using unat_u64_bound [of e] by linarith
    then have next_off: "unat (word_of_nat (unat off + unat (ck_length c)) :: u64) = unat off + unat (ck_length c)"
      by (rule unat_of_nat_u64)
    with R have "validate_chunk X off c = Inr (word_of_nat (unat off + unat (ck_length c)))"
      by (simp add: validate_chunk_iff word_unat_eq_iff)
    with R next_off show "try_fold (validate_chunk X) off (c # cs) = Inr e"
      by (simp add: Cons.IH del: of_nat_add)
  qed
qed

lemma td_validate_iff:
  "td_validate X d = Inr u \<longleftrightarrow>
     td_format d = DESCRIPTOR_FORMAT \<and> td_version d = DESCRIPTOR_VERSION \<and>
     td_chunk_algorithm d = CHUNK_ALGORITHM \<and> profile_validate (td_profile d) = Inr () \<and>
     hex_digest X (ti_sha256 (td_target d)) \<and>
     (\<forall>c\<in>set (td_chunks d). hex_digest X (ck_hash c)) \<and>
     chunks_tile 0 (td_chunks d) (unat (ti_size (td_target d)))"
  by (auto simp: td_validate_def validate_chunks_iff word_less_nat_alt)

text \<open>Every byte of the target lies in exactly one chunk.\<close>

lemma chunks_tile_lower: "chunks_tile off cs e \<Longrightarrow> c \<in> set cs \<Longrightarrow> off \<le> unat (ck_offset c)"
  by (induction cs arbitrary: off) (auto dest: add_leD1)

lemma chunks_tile_upper:
  "chunks_tile off cs e \<Longrightarrow> c \<in> set cs \<Longrightarrow> unat (ck_offset c) + unat (ck_length c) \<le> e"
  by (induction cs arbitrary: off) (auto dest: chunks_tile_le)

definition in_chunk :: "nat \<Rightarrow> chunk_record \<Rightarrow> bool" where
  "in_chunk i c \<longleftrightarrow> unat (ck_offset c) \<le> i \<and> i < unat (ck_offset c) + unat (ck_length c)"

lemma chunks_tile_cover:
  "chunks_tile off cs e \<Longrightarrow> off \<le> i \<Longrightarrow> i < e \<Longrightarrow> length (filter (in_chunk i) cs) = 1"
proof (induction cs arbitrary: off)
  case Nil
  then show ?case by simp
next
  case (Cons c cs)
  let ?e = "off + unat (ck_length c)"
  show ?case
  proof (cases "i < ?e")
    case True
    with Cons.prems have "\<not> in_chunk i d" if "d \<in> set cs" for d
      using chunks_tile_lower [of ?e cs e d] that by (auto simp: in_chunk_def)
    then have "filter (in_chunk i) cs = []" by (simp add: filter_empty_conv)
    moreover have "in_chunk i c" using Cons.prems True by (auto simp: in_chunk_def)
    ultimately show ?thesis by simp
  next
    case False
    then have "\<not> in_chunk i c" using Cons.prems by (auto simp: in_chunk_def)
    with Cons.IH [of ?e] Cons.prems False show ?thesis by simp
  qed
qed

section \<open>Descriptors of unchanging files\<close>

definition read_blocks :: "bytes result list \<Rightarrow> bytes \<Rightarrow> bool" where
  "read_blocks reads bs \<longleftrightarrow> (\<exists>blocks. [] \<notin> set blocks \<and> concat blocks = bs \<and>
     (reads = map Inr blocks \<or> (\<exists>late. reads = map Inr blocks @ Inr [] # late)))"

text \<open>The view of a regular file that holds \<open>bs\<close> throughout, read in blocks of any size.\<close>

definition steady_view :: "target_view \<Rightarrow> bytes \<Rightarrow> bool" where
  "steady_view view bs \<longleftrightarrow> length bs < 2 ^ 64 \<and>
     (\<exists>m. tv_metadata view = Inr m \<and> fm_is_file m \<and> fm_len m = word_of_nat (length bs)) \<and>
     (\<exists>reads. tv_reads view = Inr reads \<and> read_blocks reads bs) \<and>
     tv_end_len view = Inr (word_of_nat (length bs)) \<and>
     (\<exists>reads. tv_sha_reads view = Inr reads \<and> read_blocks reads bs)"

definition descriptor_of :: "cdc_ext \<Rightarrow> chunk_profile \<Rightarrow> string \<Rightarrow> bytes \<Rightarrow> target_descriptor" where
  "descriptor_of X p name bs = \<lparr>td_format = DESCRIPTOR_FORMAT, td_version = DESCRIPTOR_VERSION,
     td_chunk_algorithm = CHUNK_ALGORITHM, td_profile = p,
     td_target = \<lparr>ti_name = name, ti_size = word_of_nat (length bs),
       ti_sha256 = cx_hex_encode X (cx_sha256 X bs)\<rparr>,
     td_chunks = file_records (cx_blake3_hex X) p bs\<rparr>"

lemma sha256_reads_blocks:
  "[] \<notin> set blocks \<Longrightarrow> sha256_reads fed (map Inr blocks) = Inr (fed @ concat blocks)"
proof (induction blocks arbitrary: fed)
  case Nil
  then show ?case by simp
next
  case (Cons b blocks)
  then have "b \<noteq> []" by auto
  with Cons show ?case by simp
qed

lemma sha256_reads_eof:
  "[] \<notin> set blocks \<Longrightarrow> sha256_reads fed (map Inr blocks @ Inr [] # late) = Inr (fed @ concat blocks)"
proof (induction blocks arbitrary: fed)
  case Nil
  then show ?case by simp
next
  case (Cons b blocks)
  then have "b \<noteq> []" by auto
  with Cons show ?case by simp
qed

lemma sha256_file_blocks:
  "read_blocks reads bs \<Longrightarrow> sha256_file X (Inr reads) = Inr (cx_hex_encode X (cx_sha256 X bs))"
  by (auto simp: read_blocks_def sha256_file_def sha256_reads_blocks sha256_reads_eof)

lemma visit_read_blocks:
  "profile_validate p = Inr () \<Longrightarrow> read_blocks reads bs \<Longrightarrow>
   visit_file_chunks h p (Inr reads) (Inr (word_of_nat (length bs))) visitor v =
     and_then (try_fold visitor v (file_records h p bs))
       (\<lambda>v'. Inr (word_of_nat (length (cdc_chunks p bs)), v'))"
  unfolding read_blocks_def
  using visit_file_chunks_records [of p _ bs reads h "word_of_nat (length bs)" visitor v] by auto

lemma records_at_tile:
  assumes "unat off + length (concat cs) < 2 ^ 64" and "\<And>c. c \<in> set cs \<Longrightarrow> c \<noteq> [] \<and> length c < 2 ^ 32"
  shows "chunks_tile (unat off) (records_at h off cs) (unat off + length (concat cs))"
  using assms
proof (induction cs arbitrary: off)
  case Nil
  then show ?case by simp
next
  case (Cons c cs)
  have len: "length c < 4294967296" "c \<noteq> []" using Cons.prems(2) [of c] by simp_all
  have "unat off + length c < 18446744073709551616" using Cons.prems(1) by simp
  then have next_off: "unat (off + word_of_nat (length c)) = unat off + length c"
    by (simp add: unat_word_ariths unat_of_nat)
  have "chunks_tile (unat (off + word_of_nat (length c))) (records_at h (off + word_of_nat (length c)) cs)
     (unat (off + word_of_nat (length c)) + length (concat cs))"
    using Cons.prems by (intro Cons.IH) (simp_all add: next_off)
  with len show ?case by (simp add: next_off unat_of_nat_u32 add.assoc)
qed

lemma records_at_hash: "r \<in> set (records_at h off cs) \<Longrightarrow> \<exists>c\<in>set cs. ck_hash r = h c"
  by (induction cs arbitrary: off) auto

lemma hex_digest_blake3: "cdc_ext_ok X \<Longrightarrow> hex_digest X (cx_blake3_hex X b)"
proof -
  assume ok: "cdc_ext_ok X"
  then obtain d where "length d = 32" "cx_blake3_hex X b = cx_hex_encode X d"
    unfolding cdc_ext_ok_def by metis
  with ok show ?thesis by (simp add: hex_digest_def cdc_ext_ok_def)
qed

lemma hex_digest_sha256: "cdc_ext_ok X \<Longrightarrow> hex_digest X (cx_hex_encode X (cx_sha256 X b))"
  by (simp add: hex_digest_def cdc_ext_ok_def)

lemma file_records_tile:
  assumes "profile_validate p = Inr ()" and "length bs < 2 ^ 64"
  shows "chunks_tile 0 (file_records h p bs) (length bs)"
proof -
  have "0 < unat (max_size p)" using assms(1) by (simp add: profile_validate_iff)
  then have "c \<noteq> [] \<and> length c < 2 ^ 32" if "c \<in> set (cdc_chunks p bs)" for c
    using cdc_chunks_nonempty [OF that] le_less_trans [OF cdc_chunks_max [OF _ that] unat_u32_bound]
    by simp
  with assms(2) show ?thesis
    using records_at_tile [of 0 "cdc_chunks p bs" h] by (simp add: file_records_def concat_cdc_chunks)
qed

lemma descriptor_of_valid:
  assumes "cdc_ext_ok X" and "profile_validate p = Inr ()" and "length bs < 2 ^ 64"
  shows "td_validate X (descriptor_of X p name bs) = Inr ()"
proof -
  have "unat (word_of_nat (length bs) :: u64) = length bs"
    using assms(3) by (simp add: unat_of_nat_u64)
  moreover have "hex_digest X (ck_hash c)" if "c \<in> set (file_records (cx_blake3_hex X) p bs)" for c
    using records_at_hash [of c] that hex_digest_blake3 [OF assms(1)] by (force simp: file_records_def)
  ultimately show ?thesis
    using assms by (simp add: td_validate_iff descriptor_of_def hex_digest_sha256 file_records_tile)
qed

lemma create_descriptor_steady:
  assumes "cdc_ext_ok X" and "profile_validate p = Inr ()" and "steady_view view bs"
  shows "create_descriptor X view p =
    Inr (descriptor_of X p (case tv_name view of Some n \<Rightarrow> n | None \<Rightarrow> ''target'') bs)"
proof -
  from assms(3) obtain reads sha_reads m where
    view: "length bs < 2 ^ 64" "tv_metadata view = Inr m" "fm_is_file m" "fm_len m = word_of_nat (length bs)"
      "tv_reads view = Inr reads" "read_blocks reads bs" "tv_end_len view = Inr (word_of_nat (length bs))"
      "tv_sha_reads view = Inr sha_reads" "read_blocks sha_reads bs"
    unfolding steady_view_def by blast
  show ?thesis
    using descriptor_of_valid [OF assms(1,2) view(1)]
    by (simp add: create_descriptor_def assms(2) view visit_read_blocks sha256_file_blocks
        descriptor_of_def Let_def)
qed

text \<open>Whatever happens to the file meanwhile, a descriptor that is returned is valid.\<close>

lemma create_descriptor_valid: "create_descriptor X view p = Inr d \<Longrightarrow> td_validate X d = Inr ()"
  by (auto simp: create_descriptor_def Let_def split: sum.splits)

lemma save_load_descriptor:
  assumes "cdc_ext_ok X" and "td_validate X d = Inr ()" and "path \<notin> dom fs"
  shows "\<exists>fs'. save_descriptor X fs d path = (Inr (), fs') \<and> load_descriptor X fs' path = Inr d
    \<and> (\<forall>q. q \<noteq> path \<longrightarrow> fs' q = fs q)"
proof -
  obtain j where "cx_json_descriptor X d = Inr j" "cx_json_descriptor_parse X j = Inr d"
    using assms(1) unfolding cdc_ext_ok_def by blast
  with assms(2,3) show ?thesis by (simp add: save_descriptor_def load_descriptor_def)
qed

lemma load_descriptor_valid: "load_descriptor X fs path = Inr d \<Longrightarrow> td_validate X d = Inr ()"
  by (auto simp: load_descriptor_def split: option.splits sum.splits)

lemma save_descriptor_keeps: "q \<in> dom fs \<Longrightarrow> snd (save_descriptor X fs d path) q = fs q"
  by (auto simp: save_descriptor_def split: sum.splits)

end
