(* ===== verification/Cdc_Index.thy ===== *)
theory Cdc_Index
  imports Cdc_Descriptor "HOL-Library.List_Lexorder" "HOL-Library.Char_ord" "HOL-Library.Sublist"
begin

text \<open>
  The local index of authorised source files: \<open>crates/meld-core/src/index.rs\<close>. Its tables \<open>meta\<close>,
  \<open>files\<close> and \<open>chunks\<close> are lists of row records (\<open>meta\<close> a map), INTEGER columns are \<open>int\<close>.
  What the operating system reports (metadata, reads, the directory walk) is an argument of the
  operations, since other processes may change the files while the program runs.
\<close>

section \<open>The tables\<close>

record file_row =
  fr_id :: int
  fr_path :: string
  fr_size :: int
  fr_mtime :: int

record chunk_row =
  kr_hash :: bytes
  kr_length :: int
  kr_file :: int
  kr_offset :: int

record index_db =
  ix_meta :: "string \<rightharpoonup> string"
  ix_files :: "file_row list"
  ix_chunks :: "chunk_row list"

definition empty_index :: index_db where
  "empty_index = \<lparr>ix_meta = Map.empty, ix_files = [], ix_chunks = []\<rparr>"

record source_location =
  sl_path :: string
  sl_offset :: u64
  sl_length :: u32

definition to_i64 :: "u64 \<Rightarrow> int result" where
  "to_i64 value = (if int (unat value) \<le> i64_max then Inr (int (unat value))
     else Inl (Bail ''does not fit in SQLite''))"

definition modified_ns :: "file_meta \<Rightarrow> int result" where
  "modified_ns metadata = (case fm_modified metadata of
      Inl e \<Rightarrow> Inl (Bail ''source has no modification timestamp'')
    | Inr ns \<Rightarrow>
        bail_if (ns < 0) ''source modification timestamp is before UNIX epoch''
       (bail_if (i64_max < ns) ''modification timestamp does not fit in SQLite'' (Inr ns)))"

section \<open>The profile\<close>

definition store_profile :: "cdc_ext \<Rightarrow> index_db \<Rightarrow> chunk_profile \<Rightarrow> index_db result" where
  "store_profile X db p =
     and_then (cx_json_profile X p) (\<lambda>serialized.
     case ix_meta db ''chunk_profile'' of
       Some existing \<Rightarrow> bail_if (existing \<noteq> serialized) ''index was created with another chunk profile'' (Inr db)
     | None \<Rightarrow> Inr (db\<lparr>ix_meta := (ix_meta db)(''chunk_profile'' \<mapsto> serialized)\<rparr>))"

definition ensure_profile :: "cdc_ext \<Rightarrow> index_db \<Rightarrow> chunk_profile \<Rightarrow> unit result" where
  "ensure_profile X db p =
     and_then (profile_validate p) (\<lambda>_.
     and_then (cx_json_profile X p) (\<lambda>expected.
     case ix_meta db ''chunk_profile'' of
       Some actual \<Rightarrow> bail_if (actual \<noteq> expected) ''descriptor profile does not match index profile'' (Inr ())
     | None \<Rightarrow> Inl (Bail ''index has no chunk profile; run index first'')))"

section \<open>Indexing a file\<close>

text \<open>The rowid SQLite gives a new row: one more than the largest in use.\<close>

definition next_rowid :: "file_row list \<Rightarrow> int" where
  "next_rowid rows = 1 + foldr max (map fr_id rows) 0"

definition upsert_file :: "string \<Rightarrow> int \<Rightarrow> int \<Rightarrow> file_row list \<Rightarrow> file_row list" where
  "upsert_file path len mtime rows =
     (if path \<in> fr_path ` set rows
      then update_first (\<lambda>r. fr_path r = path) (\<lambda>r. r\<lparr>fr_size := len, fr_mtime := mtime\<rparr>) rows
      else rows @ [\<lparr>fr_id = next_rowid rows, fr_path = path, fr_size = len, fr_mtime = mtime\<rparr>])"

definition insert_chunk_row :: "file_row list \<Rightarrow> chunk_row list \<Rightarrow> chunk_row \<Rightarrow> chunk_row list result" where
  "insert_chunk_row files rows r =
     (if r \<in> set rows then Inl (Constraint ''chunks primary key'')
      else if kr_file r \<notin> fr_id ` set files then Inl (Constraint ''chunks foreign key'')
      else Inr (rows @ [r]))"

text \<open>The visitor of \<open>index_file\<close>.\<close>

definition index_chunk ::
    "cdc_ext \<Rightarrow> file_row list \<Rightarrow> int \<Rightarrow> chunk_row list \<Rightarrow> chunk_record \<Rightarrow> chunk_row list result" where
  "index_chunk X files file_id rows chunk =
     and_then (cx_hex_decode X (ck_hash chunk)) (\<lambda>hash.
     and_then (to_i64 (ck_offset chunk)) (\<lambda>offset.
     insert_chunk_row files rows
       \<lparr>kr_hash = hash, kr_length = int (unat (ck_length chunk)), kr_file = file_id, kr_offset = offset\<rparr>))"

text \<open>
  What \<open>index_file\<close> observes of its file: whether the path is UTF-8, the metadata before, the
  reads, the length at the end of the reads, and the metadata after.
\<close>

record indexing_view =
  iv_utf8 :: bool
  iv_before :: "file_meta result"
  iv_reads :: "bytes result list result"
  iv_end_len :: "u64 result"
  iv_after :: "file_meta result"

text \<open>A failure rolls the transaction back: only an \<open>Inr\<close> carries a new database.\<close>

definition index_file ::
    "cdc_ext \<Rightarrow> index_db \<Rightarrow> string \<Rightarrow> indexing_view \<Rightarrow> chunk_profile \<Rightarrow> ((u64 \<times> u64) \<times> index_db) result" where
  "index_file X db path view p =
     (case iv_before view of Inl e \<Rightarrow> Inl (Bail ''read metadata before indexing'') | Inr meta0 \<Rightarrow>
      bail_if (\<not> fm_is_file meta0) ''not a regular file''
     (bail_if (\<not> iv_utf8 view) ''non-UTF-8 paths are not supported in prototype 0.1''
     (let len = fm_len meta0 in
      and_then (modified_ns meta0) (\<lambda>mtime.
      and_then (to_i64 len) (\<lambda>size_i64.
      let files = upsert_file path size_i64 mtime (ix_files db) in
      and_then (ok_or (find (\<lambda>r. fr_path r = path) files) (Foreign ''rusqlite'')) (\<lambda>row.
      let file_id = fr_id row; kept = filter (\<lambda>c. kr_file c \<noteq> file_id) (ix_chunks db) in
      and_then (visit_file_chunks (cx_blake3_hex X) p (iv_reads view) (iv_end_len view)
          (index_chunk X files file_id) kept) (\<lambda>(chunk_count, chunks).
      case iv_after view of Inl e \<Rightarrow> Inl (Bail ''read metadata after indexing'') | Inr meta1 \<Rightarrow>
      and_then (if fm_len meta1 \<noteq> len then Inr True
          else and_then (modified_ns meta1) (\<lambda>m. Inr (m \<noteq> mtime))) (\<lambda>changed.
      bail_if changed ''source changed while it was being indexed''
     (Inr ((len, chunk_count), db\<lparr>ix_files := files, ix_chunks := chunks\<rparr>))))))))))"

section \<open>Indexing a directory\<close>

definition path_components :: "string \<Rightarrow> string list" where
  "path_components p = filter (\<lambda>c. c \<noteq> []) (split_on (CHR ''/'') p)"

definition path_starts_with :: "string \<Rightarrow> string \<Rightarrow> bool" where
  "path_starts_with path base \<longleftrightarrow> prefix (path_components base) (path_components path)"

definition is_database_sidecar :: "string \<Rightarrow> string \<Rightarrow> bool" where
  "is_database_sidecar path database \<longleftrightarrow>
     path = database \<or> path = database @ ''-wal'' \<or> path = database @ ''-shm''"

definition delete_file :: "int \<Rightarrow> index_db \<Rightarrow> index_db" where
  "delete_file i db = db\<lparr>ix_files := filter (\<lambda>r. fr_id r \<noteq> i) (ix_files db),
     ix_chunks := filter (\<lambda>c. kr_file c \<noteq> i) (ix_chunks db)\<rparr>"

definition prune_missing_files :: "string \<Rightarrow> string set \<Rightarrow> index_db \<Rightarrow> index_db" where
  "prune_missing_files source discovered db =
     (let stale_ids = map fr_id (filter (\<lambda>r. path_starts_with (fr_path r) source \<and> fr_path r \<notin> discovered)
            (ix_files db))
      in fold delete_file stale_ids db)"

text \<open>
  An entry of the directory walk: an error, or a path with whether it is a regular file.
  \<open>absolute\<close> is the operating system's canonicalisation. The walk fails on a path that cannot be
  canonicalised and skips the database's own files. In the report a file that could not be indexed
  is listed by its path, without the text of the error.
\<close>

definition discover_entry ::
    "(string \<Rightarrow> string result) \<Rightarrow> string \<Rightarrow> (string list \<times> string list) \<Rightarrow> (string + string \<times> bool)
       \<Rightarrow> (string list \<times> string list) result" where
  "discover_entry absolute database acc entry = (case (acc, entry) of
      ((files, skipped), Inr (path, True)) \<Rightarrow>
        and_then (absolute path) (\<lambda>a.
          if is_database_sidecar a database then Inr (files, skipped) else Inr (files @ [a], skipped))
    | ((files, skipped), Inr (path, False)) \<Rightarrow> Inr (files, skipped)
    | ((files, skipped), Inl err) \<Rightarrow> Inr (files, skipped @ [err]))"

text \<open>
  The counts of the report; its copies of the source, the database path, the profile and the size of the database
  file are left out.
\<close>

record index_report =
  ir_files_indexed :: u64
  ir_bytes_indexed :: u64
  ir_chunks_indexed :: u64
  ir_skipped_entries :: "string list"

definition index_one ::
    "cdc_ext \<Rightarrow> (string \<Rightarrow> indexing_view) \<Rightarrow> chunk_profile \<Rightarrow> index_report \<times> index_db \<Rightarrow> string
       \<Rightarrow> index_report \<times> index_db" where
  "index_one X view p s path = (case index_file X (snd s) path (view path) p of
      Inr ((len, chunks), db) \<Rightarrow>
        ((fst s)\<lparr>ir_files_indexed := ir_files_indexed (fst s) + 1,
           ir_bytes_indexed := ir_bytes_indexed (fst s) + len,
           ir_chunks_indexed := ir_chunks_indexed (fst s) + chunks\<rparr>, db)
    | Inl e \<Rightarrow> ((fst s)\<lparr>ir_skipped_entries := ir_skipped_entries (fst s) @ [path]\<rparr>, snd s))"

text \<open>
  The source directory as the operating system resolves it: \<open>None\<close> when it cannot be
  canonicalised, else its path and whether it is a directory. The result carries the database in
  both cases, since the profile is stored before the files are indexed.
\<close>

definition index_directory ::
    "cdc_ext \<Rightarrow> index_db \<Rightarrow> (string \<times> bool) option \<Rightarrow> (string \<Rightarrow> string result) \<Rightarrow> string result
       \<Rightarrow> (string + string \<times> bool) list \<Rightarrow> (string \<Rightarrow> indexing_view) \<Rightarrow> chunk_profile
       \<Rightarrow> index_report result \<times> index_db" where
  "index_directory X db source absolute database_absolute walk view p =
     (case profile_validate p of Inl e \<Rightarrow> (Inl e, db) | Inr _ \<Rightarrow>
      case source of None \<Rightarrow> (Inl (Bail ''canonicalize source directory''), db) | Some (root, is_dir) \<Rightarrow>
      if \<not> is_dir then (Inl (Bail ''index source is not a directory''), db) else
      case database_absolute of Inl e \<Rightarrow> (Inl e, db) | Inr database \<Rightarrow>
      case try_fold (discover_entry absolute database) ([], []) walk of
        Inl e \<Rightarrow> (Inl e, db)
      | Inr (found, skipped) \<Rightarrow>
          let files = sort_key path_components found; discovered = set files in
          case store_profile X db p of Inl e \<Rightarrow> (Inl e, db) | Inr db1 \<Rightarrow>
          let (report, db2) = foldl (index_one X view p)
                (\<lparr>ir_files_indexed = 0, ir_bytes_indexed = 0, ir_chunks_indexed = 0,
                  ir_skipped_entries = skipped\<rparr>, db1) files
          in (Inr report, prune_missing_files root discovered db2))"

section \<open>Lookups\<close>

definition chunk_rows :: "index_db \<Rightarrow> bytes \<Rightarrow> u32 \<Rightarrow> (file_row \<times> chunk_row) list" where
  "chunk_rows db hash len =
     sort_key (\<lambda>(f, c). fr_id f) (sort_key (\<lambda>(f, c). kr_offset c)
       (concat (map (\<lambda>c. map (\<lambda>f. (f, c)) (filter (\<lambda>f. fr_id f = kr_file c) (ix_files db)))
          (filter (\<lambda>c. kr_hash c = hash \<and> kr_length c = int (unat len)) (ix_chunks db)))))"

fun first_current ::
    "(string \<Rightarrow> file_meta result) \<Rightarrow> u32 \<Rightarrow> (file_row \<times> chunk_row) list \<Rightarrow> source_location option result" where
  "first_current stat len [] = Inr None"
| "first_current stat len ((f, c) # rows) = (case stat (fr_path f) of
      Inl e \<Rightarrow> first_current stat len rows
    | Inr metadata \<Rightarrow>
        and_then (if fm_len metadata \<noteq> word_of_int (fr_size f) then Inr True
          else and_then (modified_ns metadata) (\<lambda>m. Inr (m \<noteq> fr_mtime f))) (\<lambda>stale.
        if stale then first_current stat len rows
        else Inr (Some \<lparr>sl_path = fr_path f, sl_offset = word_of_int (kr_offset c), sl_length = len\<rparr>)))"

definition lookup_chunk ::
    "cdc_ext \<Rightarrow> index_db \<Rightarrow> (string \<Rightarrow> file_meta result) \<Rightarrow> string \<Rightarrow> u32 \<Rightarrow> source_location option result" where
  "lookup_chunk X db stat hash len = (case cx_hex_decode X hash of
      Inl e \<Rightarrow> Inl (Bail ''decode requested chunk hash'')
    | Inr hash_bytes \<Rightarrow> first_current stat len (chunk_rows db hash_bytes len))"

section \<open>Statistics\<close>

record index_stats =
  is_files :: u64
  is_bytes :: u64
  is_chunks :: u64
  is_database_bytes :: u64

definition len_or_zero :: "(string \<Rightarrow> file_meta result) \<Rightarrow> string \<Rightarrow> u64" where
  "len_or_zero stat path = (case stat path of Inl e \<Rightarrow> 0 | Inr m \<Rightarrow> fm_len m)"

definition database_disk_bytes :: "(string \<Rightarrow> file_meta result) \<Rightarrow> string \<Rightarrow> u64" where
  "database_disk_bytes stat path =
     foldl (\<lambda>total suffix. total + len_or_zero stat (path @ suffix)) (len_or_zero stat path) [''-wal'', ''-shm'']"

definition db_stats :: "index_db \<Rightarrow> (string \<Rightarrow> file_meta result) \<Rightarrow> string \<Rightarrow> index_stats result" where
  "db_stats db stat path =
     (let bytes = sum_list (map fr_size (ix_files db)) in
      if i64_max < bytes then Inl (Foreign ''sqlite integer overflow'') else
      Inr \<lparr>is_files = word_of_nat (length (ix_files db)), is_bytes = word_of_int bytes,
        is_chunks = word_of_nat (length (ix_chunks db)),
        is_database_bytes = database_disk_bytes stat path\<rparr>)"

end
