(* ===== verification/Cdc_Index_Safety.thy ===== *)
theory Cdc_Index_Safety
  imports Cdc_Index
begin

text \<open>
  The invariant of the chunk index: keys are unique, no chunk row is an orphan, and the chunk rows of
  a file are exactly the rows of some byte string cut under the index's profile. Every operation
  keeps it; lookups are sound and complete with respect to it.
\<close>

section \<open>Rows of records\<close>

definition row_of :: "cdc_ext \<Rightarrow> int \<Rightarrow> chunk_record \<Rightarrow> chunk_row result" where
  "row_of X i r =
     and_then (cx_hex_decode X (ck_hash r)) (\<lambda>hash.
     and_then (to_i64 (ck_offset r)) (\<lambda>offset.
     Inr \<lparr>kr_hash = hash, kr_length = int (unat (ck_length r)), kr_file = i, kr_offset = offset\<rparr>))"

lemma index_chunk_row: "index_chunk X files i rows r = and_then (row_of X i r) (insert_chunk_row files rows)"
  by (simp add: index_chunk_def row_of_def and_then_assoc)

lemma to_i64_iff: "to_i64 v = Inr n \<longleftrightarrow> n = int (unat v) \<and> n \<le> i64_max"
  by (auto simp: to_i64_def)

lemma row_of_file: "row_of X i r = Inr c \<Longrightarrow> kr_file c = i"
  by (auto simp: row_of_def)

lemma row_of_offset: "row_of X i r = Inr c \<Longrightarrow> kr_offset c = int (unat (ck_offset r)) \<and> int (unat (ck_offset r)) \<le> i64_max"
  by (auto simp: row_of_def to_i64_iff)

lemma insert_chunk_row_iff:
  "insert_chunk_row files rows r = Inr rows' \<longleftrightarrow>
     r \<notin> set rows \<and> kr_file r \<in> fr_id ` set files \<and> rows' = rows @ [r]"
  by (auto simp: insert_chunk_row_def)

lemma index_chunks_InrE:
  assumes "try_fold (index_chunk X files i) rows rs = Inr rows'"
  obtains ns where "try_map (row_of X i) rs = Inr ns" "rows' = rows @ ns"
    "distinct rows \<Longrightarrow> distinct rows'"
proof -
  have "\<exists>ns. try_map (row_of X i) rs = Inr ns \<and> rows' = rows @ ns \<and> (distinct rows \<longrightarrow> distinct rows')"
    using assms
  proof (induction rs arbitrary: rows)
    case Nil
    then show ?case by simp
  next
    case (Cons r rs)
    then obtain rows1 where r1: "index_chunk X files i rows r = Inr rows1"
      and rest: "try_fold (index_chunk X files i) rows1 rs = Inr rows'" by auto
    from r1 obtain c where "row_of X i r = Inr c" "insert_chunk_row files rows c = Inr rows1"
      by (auto simp: index_chunk_row)
    note c = this rest
    from Cons.IH [OF c(3)] c(1,2) show ?case by (auto simp: insert_chunk_row_iff)
  qed
  with that show ?thesis by blast
qed

lemma index_chunks_ok:
  assumes "try_map (row_of X i) rs = Inr ns" and "distinct (rows @ ns)" and "i \<in> fr_id ` set files"
  shows "try_fold (index_chunk X files i) rows rs = Inr (rows @ ns)"
  using assms
proof (induction rs arbitrary: rows ns)
  case Nil
  then show ?case by simp
next
  case (Cons r rs)
  then obtain c cs where c: "row_of X i r = Inr c" "try_map (row_of X i) rs = Inr cs" "ns = c # cs" by auto
  then have "insert_chunk_row files rows c = Inr (rows @ [c])"
    using Cons.prems(2,3) row_of_file [OF c(1)] by (simp add: insert_chunk_row_iff)
  with c Cons.IH [OF c(2), of "rows @ [c]"] Cons.prems(2,3) show ?case
    by (simp add: index_chunk_row)
qed

lemma row_of_list_file: "try_map (row_of X i) rs = Inr ns \<Longrightarrow> c \<in> set ns \<Longrightarrow> kr_file c = i"
  by (auto simp: try_map_Inr_iff list_all2_conv_all_nth in_set_conv_nth intro: row_of_file)

section \<open>Rows of files\<close>

lemma foldr_max_ge: "x \<in> set xs \<Longrightarrow> (x :: int) \<le> foldr max xs a"
  by (induction xs) auto

lemma foldr_max_base: "(a :: int) \<le> foldr max xs a"
  by (induction xs) auto

lemma next_rowid_fresh: "next_rowid rows \<notin> fr_id ` set rows"
  using foldr_max_ge [of "next_rowid rows" "map fr_id rows" 0] by (auto simp: next_rowid_def)

lemma next_rowid_pos: "0 < next_rowid rows"
  using foldr_max_base [of 0 "map fr_id rows"] by (simp add: next_rowid_def)

lemma upsert_file_paths:
  "distinct (map fr_path rows) \<Longrightarrow> distinct (map fr_path (upsert_file path n m rows))"
  by (auto simp: upsert_file_def map_update_first)

lemma upsert_file_ids:
  "distinct (map fr_id rows) \<Longrightarrow> distinct (map fr_id (upsert_file path n m rows))"
  using next_rowid_fresh [of rows] by (auto simp: upsert_file_def map_update_first)

lemma update_first_mem:
  "x \<in> set (update_first P f xs) \<Longrightarrow> x \<in> set xs \<or> (\<exists>y\<in>set xs. P y \<and> x = f y)"
  using set_update_first [of P f xs] by auto

lemma update_first_hit: "\<exists>x\<in>set xs. P x \<Longrightarrow> \<exists>x\<in>set xs. P x \<and> f x \<in> set (update_first P f xs)"
  by (induction xs) auto

lemma update_first_keep: "x \<in> set xs \<Longrightarrow> \<not> P x \<Longrightarrow> x \<in> set (update_first P f xs)"
  by (induction xs) auto

text \<open>After the upsert, the row found for the path, and the other rows, which are the old ones.\<close>

lemma upsert_file_row:
  obtains row where "find (\<lambda>r. fr_path r = path) (upsert_file path n m rows) = Some row"
    "row \<in> set (upsert_file path n m rows)" "fr_path row = path" "fr_size row = n" "fr_mtime row = m"
    "fr_id row \<in> fr_id ` set rows \<or> fr_id row = next_rowid rows"
proof (cases "path \<in> fr_path ` set rows")
  case True
  then have "\<exists>row. find (\<lambda>r. fr_path r = path) (update_first (\<lambda>r. fr_path r = path) (\<lambda>r. r\<lparr>fr_size := n, fr_mtime := m\<rparr>) rows) = Some row
     \<and> row \<in> set (update_first (\<lambda>r. fr_path r = path) (\<lambda>r. r\<lparr>fr_size := n, fr_mtime := m\<rparr>) rows)
     \<and> fr_path row = path \<and> fr_size row = n \<and> fr_mtime row = m \<and> fr_id row \<in> fr_id ` set rows"
    by (induction rows) auto
  with True show ?thesis using that by (auto simp: upsert_file_def)
next
  case False
  then have "find (\<lambda>r. fr_path r = path) rows = None" by (auto simp: find_None_iff)
  with False show ?thesis using that
    by (auto simp: upsert_file_def find_append)
qed

lemma upsert_file_others:
  "r \<in> set (upsert_file path n m rows) \<Longrightarrow> fr_path r \<noteq> path \<Longrightarrow> r \<in> set rows"
  by (auto simp: upsert_file_def split: if_splits dest!: update_first_mem)

lemma upsert_file_id_subset: "fr_id ` set rows \<subseteq> fr_id ` set (upsert_file path n m rows)"
proof (cases "path \<in> fr_path ` set rows")
  case True
  have "map fr_id (upsert_file path n m rows) = map fr_id rows"
    using True by (simp add: upsert_file_def map_update_first)
  then show ?thesis by (metis list.set_map subset_refl)
next
  case False
  then show ?thesis by (auto simp: upsert_file_def)
qed

section \<open>The invariant\<close>

definition rows_of_file :: "index_db \<Rightarrow> int \<Rightarrow> chunk_row list" where
  "rows_of_file db i = filter (\<lambda>c. kr_file c = i) (ix_chunks db)"

definition file_indexed :: "cdc_ext \<Rightarrow> chunk_profile \<Rightarrow> index_db \<Rightarrow> file_row \<Rightarrow> bytes \<Rightarrow> bool" where
  "file_indexed X p db f bs \<longleftrightarrow>
     try_map (row_of X (fr_id f)) (file_records (cx_blake3_hex X) p bs) = Inr (rows_of_file db (fr_id f))"

definition index_ok :: "cdc_ext \<Rightarrow> chunk_profile \<Rightarrow> index_db \<Rightarrow> bool" where
  "index_ok X p db \<longleftrightarrow>
     distinct (map fr_id (ix_files db)) \<and> distinct (map fr_path (ix_files db)) \<and>
     distinct (ix_chunks db) \<and>
     (\<forall>c\<in>set (ix_chunks db). kr_file c \<in> fr_id ` set (ix_files db)) \<and>
     (\<forall>f\<in>set (ix_files db). 0 \<le> fr_size f \<and> fr_size f \<le> i64_max \<and> (\<exists>bs. file_indexed X p db f bs))"

lemma index_ok_empty: "ix_files db = [] \<Longrightarrow> ix_chunks db = [] \<Longrightarrow> index_ok X p db"
  by (simp add: index_ok_def)

text \<open>A run of the chunker that succeeds has read some byte string to its end.\<close>

lemma chunk_reads_blocksE:
  assumes "chunk_reads h p visitor s reads = Inr s'"
  shows "\<exists>bs. read_blocks reads bs"
  using assms
proof (induction reads arbitrary: s)
  case Nil
  show ?case unfolding read_blocks_def by (intro exI [of _ "[]"]) auto
next
  case (Cons r rs)
  then obtain block where r: "r = Inr block" by (cases r) auto
  show ?case
  proof (cases "block = []")
    case True
    with r show ?thesis
      unfolding read_blocks_def by (intro exI [of _ "[]"]) auto
  next
    case False
    with Cons.prems r obtain s1 where "chunk_reads h p visitor s1 rs = Inr s'" by auto
    from Cons.IH [OF this] obtain blocks where
      b: "[] \<notin> set blocks" "rs = map Inr blocks \<or> (\<exists>late. rs = map Inr blocks @ Inr [] # late)"
      unfolding read_blocks_def by blast
    show ?thesis unfolding read_blocks_def r
      using False b by (intro exI [of _ "concat (block # blocks)"] exI [of _ "block # blocks"]) auto
  qed
qed

lemma visit_file_chunksE:
  assumes "visit_file_chunks h p file end_len visitor v = Inr (n, v')"
  obtains reads bs where "file = Inr reads" "read_blocks reads bs" "profile_validate p = Inr ()"
    "try_fold visitor v (file_records h p bs) = Inr v'" "end_len = Inr (word_of_nat (length bs))"
    "n = word_of_nat (length (cdc_chunks p bs))"
proof -
  from assms obtain reads s expected where
    r: "profile_validate p = Inr ()" "file = Inr reads" "end_len = Inr expected"
      "chunk_reads h p visitor
        \<lparr>cs_buffer = [], cs_gear = 0, cs_start = 0, cs_total = 0, cs_count = 0, cs_visitor = v\<rparr> reads = Inr s"
    by (auto simp: visit_file_chunks_def split: sum.splits)
  from chunk_reads_blocksE [OF r(4)] obtain bs where bs: "read_blocks reads bs" by blast
  then obtain blocks where "[] \<notin> set blocks" "concat blocks = bs"
    "reads = map Inr blocks \<or> (\<exists>late. reads = map Inr blocks @ Inr [] # late)"
    unfolding read_blocks_def by blast
  from visit_file_chunks_records [OF r(1) this, of h expected visitor v] assms r
  have "try_fold visitor v (file_records h p bs) = Inr v'" "expected = word_of_nat (length bs)"
    "n = word_of_nat (length (cdc_chunks p bs))"
    by auto
  with r bs show ?thesis by (intro that [of reads bs]) simp_all
qed

lemma index_file_InrE:
  assumes "index_file X db path view p = Inr ((sz, n), db')"
  obtains meta mtime row bs ns where
    "iv_before view = Inr meta" "fm_len meta = sz" "modified_ns meta = Inr mtime" "int (unat sz) \<le> i64_max"
    "find (\<lambda>r. fr_path r = path) (upsert_file path (int (unat sz)) mtime (ix_files db)) = Some row"
    "try_map (row_of X (fr_id row)) (file_records (cx_blake3_hex X) p bs) = Inr ns"
    "db' = db\<lparr>ix_files := upsert_file path (int (unat sz)) mtime (ix_files db),
       ix_chunks := filter (\<lambda>c. kr_file c \<noteq> fr_id row) (ix_chunks db) @ ns\<rparr>"
    "distinct (ix_chunks db) \<Longrightarrow> distinct (ix_chunks db')"
    "n = word_of_nat (length (cdc_chunks p bs))"
proof -
  from assms obtain meta1 where meta1: "iv_after view = Inr meta1"
    by (cases "iv_after view") (auto simp: index_file_def Let_def split: sum.splits prod.splits)
  from assms obtain meta where meta: "iv_before view = Inr meta"
    by (cases "iv_before view") (auto simp: index_file_def)
  from assms obtain mtime row chunks where
    i: "iv_before view = Inr meta" "fm_len meta = sz" "modified_ns meta = Inr mtime" "int (unat sz) \<le> i64_max"
      "find (\<lambda>r. fr_path r = path) (upsert_file path (int (unat sz)) mtime (ix_files db)) = Some row"
      "visit_file_chunks (cx_blake3_hex X) p (iv_reads view) (iv_end_len view)
        (index_chunk X (upsert_file path (int (unat sz)) mtime (ix_files db)) (fr_id row))
        (filter (\<lambda>c. kr_file c \<noteq> fr_id row) (ix_chunks db)) = Inr (n, chunks)"
      "db' = db\<lparr>ix_files := upsert_file path (int (unat sz)) mtime (ix_files db), ix_chunks := chunks\<rparr>"
    by (auto simp: index_file_def Let_def to_i64_iff meta meta1 split: prod.splits)
  from visit_file_chunksE [OF i(6)] obtain bs where
    bs: "try_fold (index_chunk X (upsert_file path (int (unat sz)) mtime (ix_files db)) (fr_id row))
        (filter (\<lambda>c. kr_file c \<noteq> fr_id row) (ix_chunks db)) (file_records (cx_blake3_hex X) p bs) = Inr chunks"
      "n = word_of_nat (length (cdc_chunks p bs))"
    by metis
  from index_chunks_InrE [OF bs(1)] obtain ns where
    "try_map (row_of X (fr_id row)) (file_records (cx_blake3_hex X) p bs) = Inr ns"
    "chunks = filter (\<lambda>c. kr_file c \<noteq> fr_id row) (ix_chunks db) @ ns"
    "distinct (filter (\<lambda>c. kr_file c \<noteq> fr_id row) (ix_chunks db)) \<Longrightarrow> distinct chunks"
    by blast
  with i bs(2) show ?thesis by (intro that [of meta mtime row bs ns]) simp_all
qed

lemma index_file_ok:
  assumes inv: "index_ok X p db" and run: "index_file X db path view p = Inr ((sz, n), db')"
  shows "index_ok X p db'"
proof -
  from run obtain meta mtime row bs ns where r:
    "int (unat sz) \<le> i64_max"
    "find (\<lambda>r. fr_path r = path) (upsert_file path (int (unat sz)) mtime (ix_files db)) = Some row"
    "try_map (row_of X (fr_id row)) (file_records (cx_blake3_hex X) p bs) = Inr ns"
    "db' = db\<lparr>ix_files := upsert_file path (int (unat sz)) mtime (ix_files db),
       ix_chunks := filter (\<lambda>c. kr_file c \<noteq> fr_id row) (ix_chunks db) @ ns\<rparr>"
    "distinct (ix_chunks db) \<Longrightarrow> distinct (ix_chunks db')"
    by (rule index_file_InrE) (rule that)
  let ?files = "upsert_file path (int (unat sz)) mtime (ix_files db)"
  obtain row' where "find (\<lambda>r. fr_path r = path) ?files = Some row'" "row' \<in> set ?files"
    "fr_path row' = path" "fr_size row' = int (unat sz)"
    using upsert_file_row [of path "int (unat sz)" mtime "ix_files db"] by metis
  with r(2) have row: "row \<in> set ?files" "fr_path row = path" "fr_size row = int (unat sz)" by simp_all
  have ids: "distinct (map fr_id ?files)" and paths: "distinct (map fr_path ?files)"
    using inv by (simp_all add: index_ok_def upsert_file_ids upsert_file_paths)
  have ns: "kr_file c = fr_id row" if "c \<in> set ns" for c
    using row_of_list_file [OF r(3) that] .
  have same: "rows_of_file db' (fr_id row) = ns"
    using ns by (simp add: rows_of_file_def r(4) filter_empty_conv filter_id_conv)
  have other: "rows_of_file db' i = rows_of_file db i" if "i \<noteq> fr_id row" for i
  proof -
    have "filter (\<lambda>c. kr_file c = i) ns = []" using ns that by (auto simp: filter_empty_conv)
    with that show ?thesis
      by (auto simp: rows_of_file_def r(4) intro: filter_cong)
  qed
  have each: "0 \<le> fr_size f \<and> fr_size f \<le> i64_max \<and> (\<exists>bs. file_indexed X p db' f bs)" if f: "f \<in> set ?files" for f
  proof (cases "fr_path f = path")
    case True
    then have "f = row" using distinct_key_unique [OF paths f row(1)] row(2) by simp
    with r(1,3) row(3) same show ?thesis by (auto simp: file_indexed_def)
  next
    case False
    then have "f \<in> set (ix_files db)" by (rule upsert_file_others [OF f])
    moreover have "fr_id f \<noteq> fr_id row"
      using distinct_key_unique [OF ids f row(1)] False row(2) by auto
    ultimately show ?thesis using inv other by (simp add: index_ok_def file_indexed_def)
  qed
  have "kr_file c \<in> fr_id ` set ?files" if "c \<in> set (ix_chunks db')" for c
    using that ns row(1) inv upsert_file_id_subset [of "ix_files db" path "int (unat sz)" mtime]
    by (auto simp: r(4) index_ok_def)
  then show ?thesis
    using each ids paths inv r(5) by (simp add: index_ok_def r(4))
qed

lemma delete_file_ok: "index_ok X p db \<Longrightarrow> index_ok X p (delete_file i db)"
proof -
  assume inv: "index_ok X p db"
  have rows: "rows_of_file (delete_file i db) j = rows_of_file db j" if "j \<noteq> i" for j
    using that by (auto simp: rows_of_file_def delete_file_def intro: filter_cong)
  have "file_indexed X p (delete_file i db) f bs \<longleftrightarrow> file_indexed X p db f bs" if "fr_id f \<noteq> i" for f bs
    using rows [OF that] by (simp add: file_indexed_def)
  with inv show ?thesis
    by (auto simp: index_ok_def delete_file_def distinct_map_filter)
qed

lemma fold_delete_ok: "index_ok X p db \<Longrightarrow> index_ok X p (fold delete_file is db)"
  by (induction "is" arbitrary: db) (auto intro: delete_file_ok)

lemma fold_delete_files:
  "ix_files (fold delete_file is db) = filter (\<lambda>r. fr_id r \<notin> set is) (ix_files db)"
  "ix_meta (fold delete_file is db) = ix_meta db"
  by (induction "is" arbitrary: db) (auto simp: delete_file_def intro: filter_cong)

lemma index_file_meta: "index_file X db path view p = Inr (r, db') \<Longrightarrow> ix_meta db' = ix_meta db"
  by (cases r) (auto elim!: index_file_InrE)

lemma index_one_ok:
  "index_ok X p (snd s) \<Longrightarrow> index_ok X p (snd (index_one X view p s path))"
  by (auto simp: index_one_def split: sum.splits intro: index_file_ok)

lemma index_one_meta: "ix_meta (snd (index_one X view p s path)) = ix_meta (snd s)"
  by (auto simp: index_one_def split: sum.splits dest: index_file_meta)

lemma foldl_index_one:
  "index_ok X p (snd s) \<Longrightarrow> index_ok X p (snd (foldl (index_one X view p) s paths))"
  "ix_meta (snd (foldl (index_one X view p) s paths)) = ix_meta (snd s)"
  by (induction paths arbitrary: s) (simp_all add: index_one_ok index_one_meta)

text \<open>The whole state: the recorded profile is the one every file was cut under.\<close>

definition index_inv :: "cdc_ext \<Rightarrow> index_db \<Rightarrow> bool" where
  "index_inv X db \<longleftrightarrow> (case ix_meta db ''chunk_profile'' of
      None \<Rightarrow> ix_files db = [] \<and> ix_chunks db = []
    | Some s \<Rightarrow> \<exists>p. cx_json_profile X p = Inr s \<and> profile_validate p = Inr () \<and> index_ok X p db)"

lemma store_profile_inv:
  assumes "cdc_ext_ok X" and "profile_validate p = Inr ()" and "index_inv X db" and "store_profile X db p = Inr db'"
  shows "index_ok X p db'" and "index_inv X db'" and "\<exists>s. cx_json_profile X p = Inr s \<and> ix_meta db' ''chunk_profile'' = Some s"
proof -
  from assms(4) obtain s where s: "cx_json_profile X p = Inr s"
    and db': "db' = db \<and> ix_meta db ''chunk_profile'' = Some s \<or>
      ix_meta db ''chunk_profile'' = None \<and> db' = db\<lparr>ix_meta := (ix_meta db)(''chunk_profile'' \<mapsto> s)\<rparr>"
    by (cases "ix_meta db ''chunk_profile''") (auto simp: store_profile_def)
  have inj: "q = p" if "cx_json_profile X q = Inr s" for q
    using assms(1) s that unfolding cdc_ext_ok_def by metis
  from db' show ok: "index_ok X p db'"
    using assms(3) inj by (auto simp: index_inv_def intro: index_ok_empty)
  from db' s show "\<exists>s. cx_json_profile X p = Inr s \<and> ix_meta db' ''chunk_profile'' = Some s" by auto
  then show "index_inv X db'" using ok assms(2) by (auto simp: index_inv_def)
qed

lemma index_directory_inv:
  assumes "cdc_ext_ok X" and "index_inv X db"
  shows "index_inv X (snd (index_directory X db source absolute database_absolute walk view p))"
proof (cases "\<exists>root is_dir database found skipped db1. profile_validate p = Inr () \<and> source = Some (root, is_dir)
    \<and> is_dir \<and> database_absolute = Inr database
    \<and> try_fold (discover_entry absolute database) ([], []) walk = Inr (found, skipped)
    \<and> store_profile X db p = Inr db1")
  case True
  then obtain root database found skipped db1 where r: "profile_validate p = Inr ()" "source = Some (root, True)"
    "database_absolute = Inr database"
    "try_fold (discover_entry absolute database) ([], []) walk = Inr (found, skipped)"
    "store_profile X db p = Inr db1" by auto
  let ?s = "(\<lparr>ir_files_indexed = 0, ir_bytes_indexed = 0, ir_chunks_indexed = 0, ir_skipped_entries = skipped\<rparr>, db1)"
  let ?files = "sort_key path_components found"
  let ?db2 = "snd (foldl (index_one X view p) ?s ?files)"
  from store_profile_inv [OF assms(1) r(1) assms(2) r(5)] obtain s where
    "index_ok X p db1" "cx_json_profile X p = Inr s" "ix_meta db1 ''chunk_profile'' = Some s" by blast
  then have ok: "index_ok X p ?db2" "ix_meta ?db2 ''chunk_profile'' = Some s" "cx_json_profile X p = Inr s"
    using foldl_index_one(1) [of X p ?s view ?files] by (simp_all add: foldl_index_one(2))
  then have "index_inv X (prune_missing_files root (set ?files) ?db2)"
    using r(1) by (auto simp: index_inv_def prune_missing_files_def fold_delete_files intro: fold_delete_ok)
  then show ?thesis
    by (simp add: index_directory_def r case_prod_beta Let_def)
next
  case False
  then have "snd (index_directory X db source absolute database_absolute walk view p) = db"
    by (auto simp: index_directory_def Let_def split: sum.splits option.splits prod.splits)
  with assms(2) show ?thesis by simp
qed

inductive index_reachable :: "cdc_ext \<Rightarrow> index_db \<Rightarrow> bool" for X where
  opened: "index_reachable X empty_index"
| indexed: "index_reachable X db \<Longrightarrow>
    index_reachable X (snd (index_directory X db source absolute database_absolute walk view p))"

lemma index_reachable_inv: "index_reachable X db \<Longrightarrow> cdc_ext_ok X \<Longrightarrow> index_inv X db"
proof (induction rule: index_reachable.induct)
  case opened
  show ?case by (simp add: index_inv_def empty_index_def)
next
  case indexed
  then show ?case by (intro index_directory_inv)
qed

section \<open>Lookups\<close>

text \<open>The file still has the size and the modification time that were indexed.\<close>

definition unchanged :: "(string \<Rightarrow> file_meta result) \<Rightarrow> file_row \<Rightarrow> bool" where
  "unchanged stat f \<longleftrightarrow> (\<exists>m. stat (fr_path f) = Inr m \<and> fm_len m = word_of_int (fr_size f)
     \<and> modified_ns m = Inr (fr_mtime f))"

lemma first_current_cases:
  "first_current stat len ((f, c) # rows) = r \<Longrightarrow>
     (\<not> unchanged stat f \<and> first_current stat len rows = r) \<or>
     (unchanged stat f \<and>
        r = Inr (Some \<lparr>sl_path = fr_path f, sl_offset = word_of_int (kr_offset c), sl_length = len\<rparr>)) \<or>
     (\<exists>e m. r = Inl e \<and> stat (fr_path f) = Inr m \<and> modified_ns m = Inl e)"
  by (cases "stat (fr_path f)"; cases "modified_ns (projr (stat (fr_path f)))")
     (auto simp: unchanged_def split: if_splits)

lemma first_current_Some:
  "first_current stat len rows = Inr (Some loc) \<Longrightarrow>
   \<exists>f c. (f, c) \<in> set rows \<and> unchanged stat f \<and>
     loc = \<lparr>sl_path = fr_path f, sl_offset = word_of_int (kr_offset c), sl_length = len\<rparr>"
proof (induction rows)
  case Nil
  then show ?case by simp
next
  case (Cons row rows)
  obtain f c where row: "row = (f, c)" by force
  from first_current_cases [OF Cons.prems [unfolded row]] Cons.IH row show ?case by auto
qed

lemma first_current_None:
  "first_current stat len rows = Inr None \<Longrightarrow> (f, c) \<in> set rows \<Longrightarrow> \<not> unchanged stat f"
proof (induction rows)
  case Nil
  then show ?case by simp
next
  case (Cons row rows)
  obtain f' c' where row: "row = (f', c')" by force
  from first_current_cases [OF Cons.prems(1) [unfolded row]] Cons row show ?case by auto
qed

lemma first_current_ok:
  assumes "\<And>q m. stat q = Inr m \<Longrightarrow> is_ok (modified_ns m)"
  shows "is_ok (first_current stat len rows)"
proof (induction rows)
  case Nil
  then show ?case by simp
next
  case (Cons row rows)
  obtain f c where row: "row = (f, c)" by force
  have "\<not> (\<exists>e m. stat (fr_path f) = Inr m \<and> modified_ns m = Inl e)"
    using assms by (metis is_ok_simps(2))
  with first_current_cases [OF refl, of stat f len rows c]
  have "first_current stat len (row # rows) = first_current stat len rows \<or>
    (\<exists>loc. first_current stat len (row # rows) = Inr loc)" unfolding row by metis
  with Cons.IH show ?case by (auto simp del: first_current.simps)
qed

lemma chunk_rows_mem:
  "(f, c) \<in> set (chunk_rows db hash len) \<longleftrightarrow>
     f \<in> set (ix_files db) \<and> c \<in> set (ix_chunks db) \<and> kr_file c = fr_id f \<and>
     kr_hash c = hash \<and> kr_length c = int (unat len)"
  by (auto simp: chunk_rows_def)

text \<open>Where a record of a byte string lies in it.\<close>

lemma records_at_located:
  assumes "unat off + length (concat cs) < 2 ^ 64" and "\<And>c. c \<in> set cs \<Longrightarrow> length c < 2 ^ 32"
    and "r \<in> set (records_at h off cs)"
  shows "unat off \<le> unat (ck_offset r) \<and>
    unat (ck_offset r) + unat (ck_length r) \<le> unat off + length (concat cs) \<and>
    ck_hash r = h (take (unat (ck_length r)) (drop (unat (ck_offset r) - unat off) (concat cs)))"
  using assms
proof (induction cs arbitrary: off)
  case Nil
  then show ?case by simp
next
  case (Cons c cs)
  have len: "unat (word_of_nat (length c) :: u32) = length c"
    using Cons.prems(2) [of c] by (intro unat_of_nat_u32) simp
  have next_off: "unat (off + word_of_nat (length c)) = unat off + length c"
    using Cons.prems(1) by (simp add: unat_word_ariths unat_of_nat)
  show ?case
  proof (cases "r \<in> set (records_at h (off + word_of_nat (length c)) cs)")
    case True
    with Cons.IH [of "off + word_of_nat (length c)"] Cons.prems(1,2) show ?thesis
      by (auto simp: next_off)
  next
    case False
    with Cons.prems(3) len show ?thesis by auto
  qed
qed

lemma records_at_no_wrap:
  assumes "try_map (row_of X i) (records_at h off cs) = Inr ns"
    and "\<And>c. c \<in> set cs \<Longrightarrow> length c < 2 ^ 32" and "unat off < 2 ^ 63 + 2 ^ 32"
  shows "unat off + length (concat cs) < 2 ^ 63 + 2 ^ 32"
  using assms
proof (induction cs arbitrary: off ns)
  case Nil
  then show ?case by simp
next
  case (Cons c cs)
  from Cons.prems(1) obtain row ms where
    row: "row_of X i \<lparr>ck_offset = off, ck_length = word_of_nat (length c), ck_hash = h c\<rparr> = Inr row"
      "try_map (row_of X i) (records_at h (off + word_of_nat (length c)) cs) = Inr ms"
    by auto
  have off: "unat off < 2 ^ 63" using row_of_offset [OF row(1)] by (simp add: i64_max_def)
  have c: "length c < 4294967296" using Cons.prems(2) [of c] by simp
  then have next_off: "unat (off + word_of_nat (length c)) = unat off + length c"
    using off by (simp add: unat_word_ariths unat_of_nat)
  have "unat off + length c < 2 ^ 63 + 2 ^ 32" using off c by simp
  then have "unat (off + word_of_nat (length c)) + length (concat cs) < 2 ^ 63 + 2 ^ 32"
    using Cons.prems(2) by (intro Cons.IH [OF row(2)]) (simp_all add: next_off)
  then show ?case by (simp add: next_off)
qed

lemma file_indexed_records:
  assumes "profile_validate p = Inr ()" and "file_indexed X p db f bs" and "r \<in> set (file_records (cx_blake3_hex X) p bs)"
  shows "unat (ck_offset r) + unat (ck_length r) \<le> length bs \<and>
    ck_hash r = cx_blake3_hex X (take (unat (ck_length r)) (drop (unat (ck_offset r)) bs))"
proof -
  have "0 < unat (max_size p)" using assms(1) by (simp add: profile_validate_iff)
  then have small: "length c < 2 ^ 32" if "c \<in> set (cdc_chunks p bs)" for c
    using le_less_trans [OF cdc_chunks_max [OF _ that] unat_u32_bound] by simp
  have "length bs < 2 ^ 64"
    using records_at_no_wrap [OF assms(2) [unfolded file_indexed_def file_records_def] small]
    by (simp add: concat_cdc_chunks)
  with small assms(3) show ?thesis
    using records_at_located [of 0 "cdc_chunks p bs" r "cx_blake3_hex X"]
    by (simp add: file_records_def concat_cdc_chunks)
qed

lemma try_map_source: "try_map f xs = Inr ys \<Longrightarrow> y \<in> set ys \<Longrightarrow> \<exists>x\<in>set xs. f x = Inr y"
proof (induction xs arbitrary: ys)
  case (Cons x xs)
  then obtain z zs where "f x = Inr z" "try_map f xs = Inr zs" "ys = z # zs" by auto
  with Cons.IH [of zs] Cons.prems(2) show ?case by auto
qed simp

lemma try_map_target: "try_map f xs = Inr ys \<Longrightarrow> x \<in> set xs \<Longrightarrow> \<exists>y\<in>set ys. f x = Inr y"
proof (induction xs arbitrary: ys)
  case (Cons a xs)
  then obtain z zs where "f a = Inr z" "try_map f xs = Inr zs" "ys = z # zs" by auto
  with Cons.IH [of zs] Cons.prems(2) show ?case by auto
qed simp

text \<open>
  A location a lookup returns is one of a string that was indexed for that path, which holds a chunk
  of the requested hash there, and the file at the path is unchanged since.
\<close>

lemma lookup_chunk_located:
  assumes "profile_validate p = Inr ()" and "lookup_chunk X db stat hash len = Inr (Some loc)"
  obtains f where "f \<in> set (ix_files db)" "fr_path f = sl_path loc" "unchanged stat f" "sl_length loc = len"
    "\<And>bs. file_indexed X p db f bs \<Longrightarrow> unat (sl_offset loc) + unat len \<le> length bs \<and>
       cx_hex_decode X hash =
       cx_hex_decode X (cx_blake3_hex X (take (unat len) (drop (unat (sl_offset loc)) bs)))"
proof -
  from assms(2) obtain hash_bytes where hash: "cx_hex_decode X hash = Inr hash_bytes"
    and "first_current stat len (chunk_rows db hash_bytes len) = Inr (Some loc)"
    by (auto simp: lookup_chunk_def split: sum.splits)
  from first_current_Some [OF this(2)] obtain f c where fc: "(f, c) \<in> set (chunk_rows db hash_bytes len)"
    "unchanged stat f" "loc = \<lparr>sl_path = fr_path f, sl_offset = word_of_int (kr_offset c), sl_length = len\<rparr>"
    by blast
  from fc(1) have mem: "f \<in> set (ix_files db)" "c \<in> set (ix_chunks db)" "kr_file c = fr_id f"
    "kr_hash c = hash_bytes" "kr_length c = int (unat len)"
    by (simp_all add: chunk_rows_mem)
  have "unat (sl_offset loc) + unat len \<le> length bs \<and> cx_hex_decode X hash =
       cx_hex_decode X (cx_blake3_hex X (take (unat len) (drop (unat (sl_offset loc)) bs)))"
    if bs: "file_indexed X p db f bs" for bs
  proof -
    have "c \<in> set (rows_of_file db (fr_id f))" using mem by (simp add: rows_of_file_def)
    from try_map_source [OF bs [unfolded file_indexed_def] this]
    obtain r where r: "r \<in> set (file_records (cx_blake3_hex X) p bs)" "row_of X (fr_id f) r = Inr c" by blast
    then have row: "cx_hex_decode X (ck_hash r) = Inr hash_bytes" "unat (ck_length r) = unat len"
      "kr_offset c = int (unat (ck_offset r))"
      using mem(4,5) by (auto simp: row_of_def to_i64_iff)
    have "sl_offset loc = ck_offset r" using fc(3) row(3) by simp
    with file_indexed_records [OF assms(1) bs r(1)] row hash show ?thesis by simp
  qed
  with fc(2,3) mem(1) show ?thesis by (intro that [of f]) simp_all
qed

lemma lookup_chunk_sound:
  assumes "index_ok X p db" and "profile_validate p = Inr ()" and "lookup_chunk X db stat hash len = Inr (Some loc)"
  obtains f bs where "f \<in> set (ix_files db)" "fr_path f = sl_path loc" "unchanged stat f" "file_indexed X p db f bs"
    "sl_length loc = len" "unat (sl_offset loc) + unat len \<le> length bs"
    "cx_hex_decode X hash =
       cx_hex_decode X (cx_blake3_hex X (take (unat len) (drop (unat (sl_offset loc)) bs)))"
proof -
  from lookup_chunk_located [OF assms(2,3)] obtain f where f: "f \<in> set (ix_files db)" "fr_path f = sl_path loc"
    "unchanged stat f" "sl_length loc = len"
    "\<And>bs. file_indexed X p db f bs \<Longrightarrow> unat (sl_offset loc) + unat len \<le> length bs \<and>
       cx_hex_decode X hash =
       cx_hex_decode X (cx_blake3_hex X (take (unat len) (drop (unat (sl_offset loc)) bs)))" by blast
  from assms(1) f(1) obtain bs where "file_indexed X p db f bs" by (auto simp: index_ok_def)
  with f show ?thesis by (intro that [of f bs]) simp_all
qed

lemma lookup_chunk_None:
  assumes "lookup_chunk X db stat hash len = Inr None" and "cx_hex_decode X hash = Inr h"
    and "f \<in> set (ix_files db)" and "c \<in> set (ix_chunks db)" "kr_file c = fr_id f"
    and "kr_hash c = h" and "kr_length c = int (unat len)"
  shows "\<not> unchanged stat f"
  using assms first_current_None [of stat len "chunk_rows db h len" f c]
  by (simp add: lookup_chunk_def chunk_rows_mem)

lemma lookup_chunk_ok:
  "(\<And>q m. stat q = Inr m \<Longrightarrow> is_ok (modified_ns m)) \<Longrightarrow> is_ok (cx_hex_decode X hash) \<Longrightarrow>
   is_ok (lookup_chunk X db stat hash len)"
  using first_current_ok by (auto simp: lookup_chunk_def split: sum.splits)

section \<open>Indexing an unchanging file\<close>

definition steady_indexing :: "indexing_view \<Rightarrow> bytes \<Rightarrow> int \<Rightarrow> bool" where
  "steady_indexing view bs mtime \<longleftrightarrow> iv_utf8 view \<and> int (length bs) \<le> i64_max \<and>
     (\<exists>m. iv_before view = Inr m \<and> fm_is_file m \<and> fm_len m = word_of_nat (length bs) \<and> modified_ns m = Inr mtime) \<and>
     (\<exists>reads. iv_reads view = Inr reads \<and> read_blocks reads bs) \<and>
     iv_end_len view = Inr (word_of_nat (length bs)) \<and>
     (\<exists>m. iv_after view = Inr m \<and> fm_len m = word_of_nat (length bs) \<and> modified_ns m = Inr mtime)"

lemma chunks_tile_offsets: "chunks_tile off cs e \<Longrightarrow> distinct (map ck_offset cs)"
proof (induction cs arbitrary: off)
  case Nil
  then show ?case by simp
next
  case (Cons c cs)
  have "ck_offset d \<noteq> ck_offset c" if "d \<in> set cs" for d
    using Cons.prems chunks_tile_lower [of "off + unat (ck_length c)" cs e d] that by auto
  with Cons show ?case by fastforce
qed

lemma rows_exist:
  assumes "cdc_ext_ok X" and "\<And>r. r \<in> set rs \<Longrightarrow> hex_digest X (ck_hash r) \<and> int (unat (ck_offset r)) \<le> i64_max"
  shows "\<exists>ns. try_map (row_of X i) rs = Inr ns"
  using assms(2)
proof (induction rs)
  case Nil
  then show ?case by simp
next
  case (Cons r rs)
  then obtain ns where "try_map (row_of X i) rs = Inr ns" by auto
  moreover obtain hash where "cx_hex_decode X (ck_hash r) = Inr hash"
    using Cons.prems [of r] by (auto simp: hex_digest_def is_ok_iff)
  then have "\<exists>c. row_of X i r = Inr c" using Cons.prems [of r] by (simp add: row_of_def to_i64_def)
  ultimately show ?case by auto
qed

lemma row_offsets: "try_map (row_of X i) rs = Inr ns \<Longrightarrow> map kr_offset ns = map (\<lambda>r. int (unat (ck_offset r))) rs"
proof (induction rs arbitrary: ns)
  case Nil
  then show ?case by simp
next
  case (Cons r rs)
  then obtain c cs where c: "row_of X i r = Inr c" "try_map (row_of X i) rs = Inr cs" "ns = c # cs" by auto
  with Cons.IH [of cs] row_of_offset [OF c(1)] show ?case by simp
qed

lemma file_rows_distinct:
  assumes "chunks_tile off rs e" and "try_map (row_of X i) rs = Inr ns"
  shows "distinct ns"
proof -
  have "distinct (map (\<lambda>r. int (unat (ck_offset r))) rs)"
    using chunks_tile_offsets [OF assms(1)] by (auto simp: distinct_map inj_on_def word_unat_eq_iff)
  then show ?thesis using row_offsets [OF assms(2)] distinct_map by metis
qed

lemma file_rows_exist:
  assumes "cdc_ext_ok X" and "profile_validate p = Inr ()" and "int (length bs) \<le> i64_max"
  obtains ns where "try_map (row_of X i) (file_records (cx_blake3_hex X) p bs) = Inr ns" "distinct ns"
proof -
  have len: "length bs < 2 ^ 64" using assms(3) by (simp add: i64_max_def)
  have tile: "chunks_tile 0 (file_records (cx_blake3_hex X) p bs) (length bs)"
    by (rule file_records_tile [OF assms(2) len])
  have "hex_digest X (ck_hash r) \<and> int (unat (ck_offset r)) \<le> i64_max"
    if r: "r \<in> set (file_records (cx_blake3_hex X) p bs)" for r
  proof
    show "hex_digest X (ck_hash r)"
      using records_at_hash r hex_digest_blake3 [OF assms(1)] unfolding file_records_def by metis
    show "int (unat (ck_offset r)) \<le> i64_max"
      using chunks_tile_upper [OF tile r] assms(3) by linarith
  qed
  from rows_exist [OF assms(1) this] obtain ns where
    ns: "try_map (row_of X i) (file_records (cx_blake3_hex X) p bs) = Inr ns" by blast
  with file_rows_distinct [OF tile ns] show ?thesis by (intro that)
qed

lemma index_file_steady:
  assumes "cdc_ext_ok X" and "profile_validate p = Inr ()" and "index_ok X p db"
    and "steady_indexing view bs mtime"
  obtains db' f where
    "index_file X db path view p =
       Inr ((word_of_nat (length bs), word_of_nat (length (cdc_chunks p bs))), db')"
    "f \<in> set (ix_files db')" "fr_path f = path" "fr_size f = int (length bs)" "fr_mtime f = mtime"
    "file_indexed X p db' f bs"
proof -
  let ?n = "length bs"
  let ?files = "upsert_file path (int ?n) mtime (ix_files db)"
  from assms(4) obtain m m' reads where view: "iv_utf8 view" "int ?n \<le> i64_max"
    "iv_before view = Inr m" "fm_is_file m" "fm_len m = word_of_nat ?n" "modified_ns m = Inr mtime"
    "iv_reads view = Inr reads" "read_blocks reads bs" "iv_end_len view = Inr (word_of_nat ?n)"
    "iv_after view = Inr m'" "fm_len m' = word_of_nat ?n" "modified_ns m' = Inr mtime"
    unfolding steady_indexing_def by blast
  have n: "unat (word_of_nat ?n :: u64) = ?n" using view(2) by (intro unat_of_nat_u64) (simp add: i64_max_def)
  obtain row where row: "find (\<lambda>r. fr_path r = path) ?files = Some row" "row \<in> set ?files" "fr_path row = path"
    "fr_size row = int ?n" "fr_mtime row = mtime"
    using upsert_file_row [of path "int ?n" mtime "ix_files db"] by metis
  obtain ns where ns: "try_map (row_of X (fr_id row)) (file_records (cx_blake3_hex X) p bs) = Inr ns" "distinct ns"
    by (rule file_rows_exist [OF assms(1,2) view(2)])
  let ?kept = "filter (\<lambda>c. kr_file c \<noteq> fr_id row) (ix_chunks db)"
  have "distinct (?kept @ ns)"
    using ns assms(3) row_of_list_file [OF ns(1)] by (auto simp: index_ok_def)
  then have run: "try_fold (index_chunk X ?files (fr_id row)) ?kept (file_records (cx_blake3_hex X) p bs) = Inr (?kept @ ns)"
    using ns(1) row(2) by (intro index_chunks_ok) auto
  let ?db = "db\<lparr>ix_files := ?files, ix_chunks := ?kept @ ns\<rparr>"
  have "to_i64 (word_of_nat ?n) = Inr (int ?n)" using view(2) n by (simp add: to_i64_def)
  then have "index_file X db path view p = Inr ((word_of_nat ?n, word_of_nat (length (cdc_chunks p bs))), ?db)"
    by (simp add: index_file_def view Let_def row(1) visit_read_blocks [OF assms(2) view(8)] run)
  moreover have "rows_of_file ?db (fr_id row) = ns"
    using row_of_list_file [OF ns(1)] by (simp add: rows_of_file_def filter_empty_conv filter_id_conv)
  ultimately show ?thesis
    using row ns(1) by (intro that [of ?db row]) (simp_all add: file_indexed_def)
qed

text \<open>A chunk of an indexed, unchanged file is found.\<close>

lemma lookup_chunk_complete:
  assumes "f \<in> set (ix_files db)" and "file_indexed X p db f bs"
    and "r \<in> set (file_records (cx_blake3_hex X) p bs)" and "unchanged stat f"
    and "\<And>q m. stat q = Inr m \<Longrightarrow> is_ok (modified_ns m)"
  obtains loc where "lookup_chunk X db stat (ck_hash r) (ck_length r) = Inr (Some loc)"
proof -
  from try_map_target [OF assms(2) [unfolded file_indexed_def] assms(3)]
  obtain c where c: "c \<in> set (rows_of_file db (fr_id f))" "row_of X (fr_id f) r = Inr c" by blast
  then obtain hash where hash: "cx_hex_decode X (ck_hash r) = Inr hash" "kr_hash c = hash"
    "kr_length c = int (unat (ck_length r))"
    by (auto simp: row_of_def)
  from c(1) have "c \<in> set (ix_chunks db)" "kr_file c = fr_id f" by (auto simp: rows_of_file_def)
  with lookup_chunk_None [OF _ hash(1) assms(1), of stat "ck_length r" c] hash assms(4)
  have "lookup_chunk X db stat (ck_hash r) (ck_length r) \<noteq> Inr None" by blast
  moreover have "is_ok (lookup_chunk X db stat (ck_hash r) (ck_length r))"
    using hash(1) by (intro lookup_chunk_ok assms(5)) simp_all
  ultimately show ?thesis using that by (auto simp: is_ok_iff)
qed

end
