(* ===== verification/Cdc_Workflow.thy ===== *)
theory Cdc_Workflow
  imports Cdc_Index_Safety
begin

text \<open>
  Comparing, staging, rebuilding and verifying: \<open>crates/meld-core/src/workflow.rs\<close>. The file system
  is a map from paths to nodes, explicit in every operation; a directory created on the way is not
  recorded, since nothing looks one up. Writes may fail: the argument \<open>disk\<close> says which write fails
  and after how many bytes. Floating-point ratios of the reports are left out.
\<close>

section \<open>Files\<close>

datatype fs_node = Regular bytes "int result" | Directory file_meta

type_synonym file_system = "string \<rightharpoonup> fs_node"

datatype io_point =
    CreateDirs | CreateTemp | WriteTemp | SyncTemp | PersistTemp
  | CreateChunk string | WriteChunk string | SyncChunk string

type_synonym disk = "io_point \<Rightarrow> (io_kind \<times> nat) option"

definition fs_metadata :: "file_system \<Rightarrow> string \<Rightarrow> file_meta result" where
  "fs_metadata fs path = (case fs path of
      None \<Rightarrow> Inl (Io NotFound)
    | Some (Directory m) \<Rightarrow> Inr m
    | Some (Regular bs t) \<Rightarrow> Inr \<lparr>fm_is_file = True, fm_len = word_of_nat (length bs), fm_modified = t\<rparr>)"

definition fs_read :: "file_system \<Rightarrow> string \<Rightarrow> bytes result" where
  "fs_read fs path = (case fs path of
      None \<Rightarrow> Inl (Io NotFound)
    | Some (Directory m) \<Rightarrow> Inl (Io OtherIo)
    | Some (Regular bs t) \<Rightarrow> Inr bs)"

text \<open>The reads of an opened file: opening a directory succeeds and reading it fails.\<close>

lemma fs_read_Inr: "fs_read fs path = Inr bs \<longleftrightarrow> (\<exists>m. fs path = Some (Regular bs m))"
  by (auto simp: fs_read_def split: option.splits fs_node.splits)

definition fs_reads :: "file_system \<Rightarrow> string \<Rightarrow> bytes result list result" where
  "fs_reads fs path = (case fs path of
      None \<Rightarrow> Inl (Io NotFound)
    | Some (Directory m) \<Rightarrow> Inr [Inl (Io OtherIo)]
    | Some (Regular bs t) \<Rightarrow> Inr [Inr bs, Inr []])"

definition chunk_path :: "string \<Rightarrow> string \<Rightarrow> string" where
  "chunk_path directory hash = directory @ ''/'' @ hash @ ''.chunk''"

section \<open>Verified reads\<close>

definition read_range :: "bytes \<Rightarrow> u64 \<Rightarrow> u32 \<Rightarrow> bytes result" where
  "read_range content offset len =
     (if unat offset + unat len \<le> length content then Inr (take (unat len) (drop (unat offset) content))
      else Inl (Io UnexpectedEof))"

definition verify_chunk :: "cdc_ext \<Rightarrow> bytes \<Rightarrow> string \<Rightarrow> unit result" where
  "verify_chunk X bs expected_hash =
     bail_if (cx_blake3_hex X bs \<noteq> expected_hash) ''chunk BLAKE3 mismatch'' (Inr ())"

definition read_verified_source :: "cdc_ext \<Rightarrow> file_system \<Rightarrow> source_location \<Rightarrow> string \<Rightarrow> bytes result" where
  "read_verified_source X fs source expected_hash =
     and_then (fs_read fs (sl_path source)) (\<lambda>content.
     and_then (read_range content (sl_offset source) (sl_length source)) (\<lambda>bs.
     and_then (verify_chunk X bs expected_hash) (\<lambda>_. Inr bs)))"

section \<open>Comparing\<close>

record plan_chunk =
  pc_offset :: u64
  pc_length :: u32
  pc_hash :: string
  pc_local_source :: "source_location option"

record compare_report =
  cr_target_name :: string
  cr_target_bytes :: u64
  cr_target_sha256 :: string
  cr_target_chunks :: u64
  cr_matched_chunks :: u64
  cr_missing_chunks :: u64
  cr_local_reusable_bytes :: u64
  cr_missing_payload_bytes :: u64
  cr_index :: index_stats
  cr_plan :: "plan_chunk list"

definition compare_chunk ::
    "cdc_ext \<Rightarrow> index_db \<Rightarrow> (string \<Rightarrow> file_meta result) \<Rightarrow> u64 \<times> u64 \<times> plan_chunk list \<Rightarrow> chunk_record
       \<Rightarrow> (u64 \<times> u64 \<times> plan_chunk list) result" where
  "compare_chunk X db stat acc c = (case acc of (matched, reusable, plan) \<Rightarrow>
     and_then (lookup_chunk X db stat (ck_hash c) (ck_length c)) (\<lambda>source.
     let (matched, reusable) = (if source \<noteq> None then (matched + 1, reusable + ucast (ck_length c))
           else (matched, reusable))
     in Inr (matched, reusable, plan @ [\<lparr>pc_offset = ck_offset c, pc_length = ck_length c,
           pc_hash = ck_hash c, pc_local_source = source\<rparr>])))"

definition compare_descriptor ::
    "cdc_ext \<Rightarrow> target_descriptor \<Rightarrow> index_db \<Rightarrow> string \<Rightarrow> (string \<Rightarrow> file_meta result) \<Rightarrow> compare_report result" where
  "compare_descriptor X d db db_path stat =
     and_then (td_validate X d) (\<lambda>_.
     and_then (ensure_profile X db (td_profile d)) (\<lambda>_.
     and_then (try_fold (compare_chunk X db stat) (0, 0, []) (td_chunks d)) (\<lambda>(matched, reusable, plan).
     let target_chunks = word_of_nat (length (td_chunks d)) in
     and_then (db_stats db stat db_path) (\<lambda>stats.
     Inr \<lparr>cr_target_name = ti_name (td_target d), cr_target_bytes = ti_size (td_target d),
       cr_target_sha256 = ti_sha256 (td_target d), cr_target_chunks = target_chunks,
       cr_matched_chunks = matched, cr_missing_chunks = target_chunks - matched,
       cr_local_reusable_bytes = reusable,
       cr_missing_payload_bytes = ti_size (td_target d) - reusable,
       cr_index = stats, cr_plan = plan\<rparr>))))"

section \<open>Verifying a target\<close>

record verify_report =
  vr_expected_sha256 :: string
  vr_actual_sha256 :: string
  vr_expected_bytes :: u64
  vr_actual_bytes :: u64
  vr_verified :: bool

definition verify_target :: "cdc_ext \<Rightarrow> file_system \<Rightarrow> target_descriptor \<Rightarrow> string \<Rightarrow> verify_report result" where
  "verify_target X fs d path =
     and_then (td_validate X d) (\<lambda>_.
     and_then (case fs_metadata fs path of Inl e \<Rightarrow> Inl (Bail ''read verification metadata'') | Inr m \<Rightarrow> Inr (fm_len m)) (\<lambda>actual_bytes.
     and_then (sha256_file X (fs_reads fs path)) (\<lambda>actual_sha256.
     Inr \<lparr>vr_expected_sha256 = ti_sha256 (td_target d), vr_actual_sha256 = actual_sha256,
       vr_expected_bytes = ti_size (td_target d), vr_actual_bytes = actual_bytes,
       vr_verified = (actual_bytes = ti_size (td_target d) \<and> actual_sha256 = ti_sha256 (td_target d))\<rparr>)))"

definition verify_target_identity :: "cdc_ext \<Rightarrow> file_system \<Rightarrow> target_descriptor \<Rightarrow> string \<Rightarrow> unit result" where
  "verify_target_identity X fs d path =
     and_then (verify_target X fs d path) (\<lambda>report.
     bail_if (\<not> vr_verified report) ''target does not match descriptor'' (Inr ()))"

section \<open>Staging the missing chunks\<close>

record stage_report =
  sg_missing_chunk_occurrences :: u64
  sg_missing_payload_bytes :: u64
  sg_unique_chunk_files_written :: u64
  sg_unique_chunk_file_bytes :: u64

text \<open>
  Creating and writing a chunk file (\<open>create_new\<close>, \<open>write_all\<close>, \<open>sync_all\<close>): a failing write leaves
  the bytes written so far in place.
\<close>

definition write_new_chunk ::
    "disk \<Rightarrow> int result \<Rightarrow> file_system \<Rightarrow> string \<Rightarrow> string \<Rightarrow> bytes \<Rightarrow> unit result \<times> file_system" where
  "write_new_chunk disk now fs path hash bs =
     (case disk (CreateChunk hash) of Some (e, _) \<Rightarrow> (Inl (Bail ''create missing chunk''), fs)
      | None \<Rightarrow> (case disk (WriteChunk hash) of Some (e, n) \<Rightarrow> (Inl (Io e), fs(path \<mapsto> Regular (take n bs) now))
      | None \<Rightarrow> (case disk (SyncChunk hash) of Some (e, _) \<Rightarrow> (Inl (Io e), fs(path \<mapsto> Regular bs now))
      | None \<Rightarrow> (Inr (), fs(path \<mapsto> Regular bs now)))))"

text \<open>The loop over the chunks; \<open>content\<close> is the opened target.\<close>

fun stage_chunks ::
    "cdc_ext \<Rightarrow> index_db \<Rightarrow> disk \<Rightarrow> int result \<Rightarrow> bytes \<Rightarrow> string \<Rightarrow> chunk_record list
       \<Rightarrow> stage_report \<Rightarrow> file_system \<Rightarrow> stage_report result \<times> file_system" where
  "stage_chunks X db disk now content dir [] rep fs = (Inr rep, fs)"
| "stage_chunks X db disk now content dir (c # cs) rep fs =
     (case lookup_chunk X db (fs_metadata fs) (ck_hash c) (ck_length c) of
        Inl e \<Rightarrow> (Inl e, fs)
      | Inr (Some _) \<Rightarrow> stage_chunks X db disk now content dir cs rep fs
      | Inr None \<Rightarrow>
          let rep = rep\<lparr>sg_missing_chunk_occurrences := sg_missing_chunk_occurrences rep + 1,
                sg_missing_payload_bytes := sg_missing_payload_bytes rep + ucast (ck_length c)\<rparr>;
              destination = chunk_path dir (ck_hash c) in
          (case and_then (read_range content (ck_offset c) (ck_length c)) (\<lambda>bs.
                and_then (verify_chunk X bs (ck_hash c)) (\<lambda>_. Inr bs)) of
             Inl e \<Rightarrow> (Inl e, fs)
           | Inr bs \<Rightarrow>
               if destination \<in> dom fs then
                 (case and_then (fs_read fs destination) (\<lambda>existing. verify_chunk X existing (ck_hash c)) of
                    Inl e \<Rightarrow> (Inl e, fs)
                  | Inr _ \<Rightarrow> stage_chunks X db disk now content dir cs rep fs)
               else
                 (case write_new_chunk disk now fs destination (ck_hash c) bs of
                    (Inl e, fs) \<Rightarrow> (Inl e, fs)
                  | (Inr _, fs) \<Rightarrow> stage_chunks X db disk now content dir cs
                      (rep\<lparr>sg_unique_chunk_files_written := sg_unique_chunk_files_written rep + 1,
                        sg_unique_chunk_file_bytes :=
                          sg_unique_chunk_file_bytes rep + word_of_nat (length bs)\<rparr>) fs)))"

definition stage_missing_chunks ::
    "cdc_ext \<Rightarrow> index_db \<Rightarrow> disk \<Rightarrow> int result \<Rightarrow> target_descriptor \<Rightarrow> string \<Rightarrow> string \<Rightarrow> file_system
       \<Rightarrow> stage_report result \<times> file_system" where
  "stage_missing_chunks X db disk now d target dir fs =
     (case and_then (td_validate X d) (\<lambda>_.
           and_then (ensure_profile X db (td_profile d)) (\<lambda>_.
           verify_target_identity X fs d target)) of
        Inl e \<Rightarrow> (Inl e, fs)
      | Inr _ \<Rightarrow>
          (case disk CreateDirs of Some (e, _) \<Rightarrow> (Inl (Bail ''create missing chunk directory''), fs)
           | None \<Rightarrow>
          (case fs_read fs target of Inl e \<Rightarrow> (Inl (Bail ''open target for missing chunk staging''), fs)
           | Inr content \<Rightarrow> stage_chunks X db disk now content dir (td_chunks d)
               \<lparr>sg_missing_chunk_occurrences = 0, sg_missing_payload_bytes = 0,
                sg_unique_chunk_files_written = 0, sg_unique_chunk_file_bytes = 0\<rparr> fs)))"

section \<open>Rebuilding\<close>

record rebuild_state =
  rb_written :: bytes
  rb_hashed :: bytes
  rb_local_bytes :: u64
  rb_missing_bytes :: u64
  rb_local_chunks :: u64
  rb_missing_chunks :: u64

record rebuild_report =
  rr_target_bytes :: u64
  rr_local_bytes_read :: u64
  rr_missing_source_bytes_read :: u64
  rr_local_chunk_occurrences :: u64
  rr_missing_chunk_occurrences :: u64
  rr_output_sha256 :: string
  rr_verified :: bool

definition local_chunk :: "cdc_ext \<Rightarrow> index_db \<Rightarrow> file_system \<Rightarrow> chunk_record \<Rightarrow> bytes option result" where
  "local_chunk X db fs c =
     and_then (lookup_chunk X db (fs_metadata fs) (ck_hash c) (ck_length c)) (\<lambda>found.
     case found of None \<Rightarrow> Inr None
     | Some source \<Rightarrow> (case read_verified_source X fs source (ck_hash c) of
           Inl e \<Rightarrow> Inr None | Inr bs \<Rightarrow> Inr (Some bs)))"

definition missing_chunk :: "cdc_ext \<Rightarrow> file_system \<Rightarrow> string \<Rightarrow> chunk_record \<Rightarrow> bytes result" where
  "missing_chunk X fs dir c =
     (case fs_read fs (chunk_path dir (ck_hash c)) of
        Inl e \<Rightarrow> Inl (Bail ''missing chunk source not found or unreadable'')
      | Inr bs \<Rightarrow>
          bail_if (length bs \<noteq> unat (ck_length c)) ''missing chunk length mismatch''
         (and_then (verify_chunk X bs (ck_hash c)) (\<lambda>_. Inr bs)))"

definition rebuild_chunk ::
    "cdc_ext \<Rightarrow> index_db \<Rightarrow> disk \<Rightarrow> file_system \<Rightarrow> string \<Rightarrow> rebuild_state \<Rightarrow> chunk_record \<Rightarrow> rebuild_state result" where
  "rebuild_chunk X db disk fs dir s c =
     and_then (local_chunk X db fs c) (\<lambda>found.
     and_then (case found of
         Some bs \<Rightarrow> Inr (bs, s\<lparr>rb_local_bytes := rb_local_bytes s + word_of_nat (length bs),
             rb_local_chunks := rb_local_chunks s + 1\<rparr>)
       | None \<Rightarrow> and_then (missing_chunk X fs dir c) (\<lambda>bs.
           Inr (bs, s\<lparr>rb_missing_bytes := rb_missing_bytes s + word_of_nat (length bs),
             rb_missing_chunks := rb_missing_chunks s + 1\<rparr>))) (\<lambda>(bs, s).
     case disk WriteTemp of
       Some (e, n) \<Rightarrow> Inl (Io e)
     | None \<Rightarrow> Inr (s\<lparr>rb_written := rb_written s @ bs, rb_hashed := rb_hashed s @ bs\<rparr>)))"

text \<open>
  The partial output is a temporary file with a name of its own, removed on every failure;
  \<open>persist_noclobber\<close> gives it its name unless that exists.
\<close>

definition rebuild_target ::
    "cdc_ext \<Rightarrow> index_db \<Rightarrow> disk \<Rightarrow> int result \<Rightarrow> target_descriptor \<Rightarrow> string \<Rightarrow> string \<Rightarrow> file_system
       \<Rightarrow> rebuild_report result \<times> file_system" where
  "rebuild_target X db disk now d dir output fs =
     (case and_then (td_validate X d) (\<lambda>_.
           and_then (ensure_profile X db (td_profile d)) (\<lambda>_.
           bail_if (output \<in> dom fs) ''refusing to overwrite existing output''
          (bail_if (disk CreateDirs \<noteq> None) ''create output directory''
          (bail_if (disk CreateTemp \<noteq> None) ''create partial output''
          (and_then (try_fold (rebuild_chunk X db disk fs dir)
              \<lparr>rb_written = [], rb_hashed = [], rb_local_bytes = 0, rb_missing_bytes = 0,
               rb_local_chunks = 0, rb_missing_chunks = 0\<rparr> (td_chunks d)) (\<lambda>s.
           case disk SyncTemp of Some (e, _) \<Rightarrow> Inl (Io e) | None \<Rightarrow>
           let output_sha256 = cx_hex_encode X (cx_sha256 X (rb_hashed s)) in
           bail_if (output_sha256 \<noteq> ti_sha256 (td_target d)) ''rebuilt file SHA-256 mismatch''
          (bail_if (disk PersistTemp \<noteq> None) ''persist rebuilt output''
          (Inr (rb_written s, \<lparr>rr_target_bytes = ti_size (td_target d), rr_local_bytes_read = rb_local_bytes s,
             rr_missing_source_bytes_read = rb_missing_bytes s,
             rr_local_chunk_occurrences = rb_local_chunks s,
             rr_missing_chunk_occurrences = rb_missing_chunks s,
             rr_output_sha256 = output_sha256, rr_verified = True\<rparr>))))))))) of
        Inl e \<Rightarrow> (Inl e, fs)
      | Inr (written, report) \<Rightarrow> (Inr report, fs(output \<mapsto> Regular written now)))"

end
