(* ===== verification/Cdc_Rebuild.thy ===== *)
theory Cdc_Rebuild
  imports Cdc_Workflow
begin

text \<open>
  What staging and rebuilding guarantee: a rebuild that succeeds writes exactly the described target
  and nothing else, a rebuild that fails writes nothing, and after staging the missing chunks of a
  file the rebuild of its descriptor succeeds with that file.
\<close>

section \<open>Staging\<close>

definition fs_extends :: "file_system \<Rightarrow> file_system \<Rightarrow> bool" where
  "fs_extends fs fs' \<longleftrightarrow> (\<forall>q\<in>dom fs. fs' q = fs q)"

lemma fs_extends_refl [simp]: "fs_extends fs fs"
  by (simp add: fs_extends_def)

lemma fs_extends_node: "fs_extends fs fs' \<Longrightarrow> fs q = Some n \<Longrightarrow> fs' q = Some n"
  by (auto simp: fs_extends_def dom_def)

lemma fs_extends_trans: "fs_extends a b \<Longrightarrow> fs_extends b c \<Longrightarrow> fs_extends a c"
  by (auto simp: fs_extends_def dom_def)

lemma fs_extends_new: "q \<notin> dom fs \<Longrightarrow> fs_extends fs (fs(q \<mapsto> n))"
  by (auto simp: fs_extends_def)

lemma fs_extends_metadata: "fs_extends fs fs' \<Longrightarrow> fs_metadata fs q = Inr m \<Longrightarrow> fs_metadata fs' q = Inr m"
  by (cases "fs q") (auto simp: fs_metadata_def dest: fs_extends_node)

lemma fs_extends_unchanged: "fs_extends fs fs' \<Longrightarrow> unchanged (fs_metadata fs) f \<Longrightarrow> unchanged (fs_metadata fs') f"
  unfolding unchanged_def using fs_extends_metadata by blast

definition staged :: "cdc_ext \<Rightarrow> file_system \<Rightarrow> string \<Rightarrow> chunk_record \<Rightarrow> bool" where
  "staged X fs dir c \<longleftrightarrow> (\<exists>bs t. fs (chunk_path dir (ck_hash c)) = Some (Regular bs t)
     \<and> cx_blake3_hex X bs = ck_hash c)"

definition indexed_now :: "cdc_ext \<Rightarrow> index_db \<Rightarrow> file_system \<Rightarrow> chunk_record \<Rightarrow> bool" where
  "indexed_now X db fs c \<longleftrightarrow> (\<exists>hash f k. cx_hex_decode X (ck_hash c) = Inr hash
     \<and> (f, k) \<in> set (chunk_rows db hash (ck_length c)) \<and> unchanged (fs_metadata fs) f)"

lemma staged_mono: "staged X fs dir c \<Longrightarrow> fs_extends fs fs' \<Longrightarrow> staged X fs' dir c"
  unfolding staged_def fs_extends_def by (metis domI)

lemma indexed_now_mono: "indexed_now X db fs c \<Longrightarrow> fs_extends fs fs' \<Longrightarrow> indexed_now X db fs' c"
  unfolding indexed_now_def using fs_extends_unchanged by blast

lemma lookup_indexed_now:
  "lookup_chunk X db (fs_metadata fs) (ck_hash c) (ck_length c) = Inr (Some loc) \<Longrightarrow> indexed_now X db fs c"
  by (auto simp: lookup_chunk_def indexed_now_def split: sum.splits dest!: first_current_Some)

lemma write_new_chunk_cases:
  assumes "write_new_chunk disk now fs path h bs = (r, fs')"
  obtains "fs' = fs" "\<exists>e. r = Inl e" | n where "fs' = fs(path \<mapsto> Regular (take n bs) now)" "\<exists>e. r = Inl e"
    | "fs' = fs(path \<mapsto> Regular bs now)"
  using assms by (auto simp: write_new_chunk_def split: option.splits)

lemma write_new_chunk_ok:
  "write_new_chunk disk now fs path h bs = (Inr u, fs') \<Longrightarrow> fs' = fs(path \<mapsto> Regular bs now)"
  by (auto simp: write_new_chunk_def split: option.splits)

lemma write_new_chunk_extends:
  "write_new_chunk disk now fs path h bs = (r, fs') \<Longrightarrow> path \<notin> dom fs \<Longrightarrow> fs_extends fs fs'"
  by (erule write_new_chunk_cases) (simp_all add: fs_extends_new)

text \<open>One step of the loop: it stops, or goes on with a report and a file system.\<close>

lemma stage_chunks_step:
  obtains (stop) e fs1 where "stage_chunks X db disk now content dir (c # cs) rep fs = (Inl e, fs1)" "fs_extends fs fs1"
    | (go) rep1 fs1 where "stage_chunks X db disk now content dir (c # cs) rep fs =
          stage_chunks X db disk now content dir cs rep1 fs1" "fs_extends fs fs1"
        "indexed_now X db fs1 c \<or> staged X fs1 dir c"
proof -
  let ?run = "stage_chunks X db disk now content dir (c # cs) rep fs"
  let ?dest = "chunk_path dir (ck_hash c)"
  consider (err) e where "lookup_chunk X db (fs_metadata fs) (ck_hash c) (ck_length c) = Inl e"
    | (found) loc where "lookup_chunk X db (fs_metadata fs) (ck_hash c) (ck_length c) = Inr (Some loc)"
    | (miss) "lookup_chunk X db (fs_metadata fs) (ck_hash c) (ck_length c) = Inr None"
    by (cases "lookup_chunk X db (fs_metadata fs) (ck_hash c) (ck_length c)") auto
  then show thesis
  proof cases
    case (err e)
    then show ?thesis by (intro stop [of e fs]) simp_all
  next
    case (found loc)
    then show ?thesis by (intro go [of rep fs]) (simp_all add: lookup_indexed_now)
  next
    case miss
    show ?thesis
    proof (cases "and_then (read_range content (ck_offset c) (ck_length c)) (\<lambda>bs.
        and_then (verify_chunk X bs (ck_hash c)) (\<lambda>_. Inr bs))")
      case (Inl e)
      with miss show ?thesis by (intro stop [of e fs]) (simp_all add: Let_def)
    next
      case (Inr bs)
      then have hash: "cx_blake3_hex X bs = ck_hash c" by (auto simp: verify_chunk_def)
      show ?thesis
      proof (cases "?dest \<in> dom fs")
        case True
        show ?thesis
        proof (cases "and_then (fs_read fs ?dest) (\<lambda>existing. verify_chunk X existing (ck_hash c))")
          case e: (Inl e)
          with miss Inr True show ?thesis by (intro stop [of e fs]) (simp_all add: Let_def)
        next
          case ok: (Inr u)
          then have "staged X fs dir c"
            by (auto simp: staged_def verify_chunk_def fs_read_def split: option.splits fs_node.splits)
          with miss Inr True ok show ?thesis
            by (intro go [of "rep\<lparr>sg_missing_chunk_occurrences := sg_missing_chunk_occurrences rep + 1,
                sg_missing_payload_bytes := sg_missing_payload_bytes rep + ucast (ck_length c)\<rparr>" fs])
              (auto simp: Let_def)
        qed
      next
        case False
        obtain r fs1 where w: "write_new_chunk disk now fs ?dest (ck_hash c) bs = (r, fs1)" by force
        have ext: "fs_extends fs fs1" by (rule write_new_chunk_extends [OF w False])
        show ?thesis
        proof (cases r)
          case e: (Inl e)
          with miss Inr False w ext show ?thesis by (intro stop [of e fs1]) (simp_all add: Let_def)
        next
          case ok: (Inr u)
          have "staged X fs1 dir c" using write_new_chunk_ok [OF w [unfolded ok]] hash by (simp add: staged_def)
          with miss Inr False w ext ok show ?thesis
            by (intro go [of "rep\<lparr>sg_missing_chunk_occurrences := sg_missing_chunk_occurrences rep + 1,
                sg_missing_payload_bytes := sg_missing_payload_bytes rep + ucast (ck_length c),
                sg_unique_chunk_files_written := sg_unique_chunk_files_written rep + 1,
                sg_unique_chunk_file_bytes := sg_unique_chunk_file_bytes rep + word_of_nat (length bs)\<rparr>" fs1])
              (simp_all add: Let_def)
        qed
      qed
    qed
  qed
qed

lemma stage_chunks_extends:
  "stage_chunks X db disk now content dir cs rep fs = (r, fs') \<Longrightarrow> fs_extends fs fs'"
proof (induction cs arbitrary: rep fs)
  case Nil
  then show ?case by simp
next
  case (Cons c cs)
  show ?case
    by (rule stage_chunks_step [of X db disk now content dir c cs rep fs])
       (use Cons fs_extends_trans in \<open>fastforce simp del: stage_chunks.simps\<close>)+
qed

lemma stage_chunks_available:
  "stage_chunks X db disk now content dir cs rep fs = (Inr r, fs') \<Longrightarrow> c \<in> set cs \<Longrightarrow>
   indexed_now X db fs' c \<or> staged X fs' dir c"
proof (induction cs arbitrary: rep fs)
  case Nil
  then show ?case by simp
next
  case (Cons d cs)
  show ?case
  proof (rule stage_chunks_step [of X db disk now content dir d cs rep fs])
    fix e fs1
    assume "stage_chunks X db disk now content dir (d # cs) rep fs = (Inl e, fs1)"
    with Cons.prems show ?thesis by simp
  next
    fix rep1 fs1
    assume run: "stage_chunks X db disk now content dir (d # cs) rep fs =
        stage_chunks X db disk now content dir cs rep1 fs1"
      and d: "indexed_now X db fs1 d \<or> staged X fs1 dir d"
    with Cons.prems have rest: "stage_chunks X db disk now content dir cs rep1 fs1 = (Inr r, fs')" by simp
    show ?thesis
    proof (cases "c = d")
      case True
      with d stage_chunks_extends [OF rest] show ?thesis using indexed_now_mono staged_mono by blast
    next
      case False
      with Cons.prems(2) show ?thesis using Cons.IH [OF rest] by simp
    qed
  qed
qed

section \<open>A rebuild writes the described target or nothing\<close>

definition chunk_holds :: "cdc_ext \<Rightarrow> chunk_record \<Rightarrow> bytes \<Rightarrow> bool" where
  "chunk_holds X c bs \<longleftrightarrow> length bs = unat (ck_length c) \<and> cx_blake3_hex X bs = ck_hash c"

lemma lookup_chunk_length: "lookup_chunk X db stat hash len = Inr (Some loc) \<Longrightarrow> sl_length loc = len"
  by (auto simp: lookup_chunk_def split: sum.splits dest!: first_current_Some)

lemma read_verified_source_holds:
  "read_verified_source X fs loc hash = Inr bs \<Longrightarrow>
   length bs = unat (sl_length loc) \<and> cx_blake3_hex X bs = hash"
  by (auto simp: read_verified_source_def read_range_def verify_chunk_def split: if_splits)

lemma local_chunk_Some:
  "local_chunk X db fs c = Inr (Some bs) \<longleftrightarrow>
     (\<exists>loc. lookup_chunk X db (fs_metadata fs) (ck_hash c) (ck_length c) = Inr (Some loc)
        \<and> read_verified_source X fs loc (ck_hash c) = Inr bs)"
proof (cases "lookup_chunk X db (fs_metadata fs) (ck_hash c) (ck_length c)")
  case (Inr found)
  then show ?thesis
    by (cases found; cases "read_verified_source X fs (the found) (ck_hash c)") (simp_all add: local_chunk_def)
qed (simp add: local_chunk_def)

lemma local_chunk_holds: "local_chunk X db fs c = Inr (Some bs) \<Longrightarrow> chunk_holds X c bs"
  by (auto simp: local_chunk_Some chunk_holds_def dest!: read_verified_source_holds lookup_chunk_length)

lemma missing_chunk_holds: "missing_chunk X fs dir c = Inr bs \<Longrightarrow> chunk_holds X c bs"
  by (auto simp: missing_chunk_def chunk_holds_def verify_chunk_def split: sum.splits)

text \<open>The bytes a rebuild takes for a chunk.\<close>

definition chunk_source :: "cdc_ext \<Rightarrow> index_db \<Rightarrow> file_system \<Rightarrow> string \<Rightarrow> chunk_record \<Rightarrow> bytes \<Rightarrow> bool" where
  "chunk_source X db fs dir c bs \<longleftrightarrow> local_chunk X db fs c = Inr (Some bs) \<or>
     local_chunk X db fs c = Inr None \<and> missing_chunk X fs dir c = Inr bs"

lemma chunk_source_holds: "chunk_source X db fs dir c bs \<Longrightarrow> chunk_holds X c bs"
  using local_chunk_holds missing_chunk_holds by (auto simp: chunk_source_def)

lemma rebuild_chunk_InrE:
  assumes "rebuild_chunk X db disk fs dir s c = Inr s'"
  obtains bs where "chunk_source X db fs dir c bs" "rb_written s' = rb_written s @ bs" "rb_hashed s' = rb_hashed s @ bs"
    "rb_local_bytes s' + rb_missing_bytes s' = rb_local_bytes s + rb_missing_bytes s + word_of_nat (length bs)"
    "rb_local_chunks s' + rb_missing_chunks s' = rb_local_chunks s + rb_missing_chunks s + 1"
proof -
  from assms obtain found where f: "local_chunk X db fs c = Inr found" by (auto simp: rebuild_chunk_def)
  show thesis
  proof (cases found)
    case None
    with assms f obtain bs where "missing_chunk X fs dir c = Inr bs"
      "s' = s\<lparr>rb_missing_bytes := rb_missing_bytes s + word_of_nat (length bs),
             rb_missing_chunks := rb_missing_chunks s + 1, rb_written := rb_written s @ bs,
             rb_hashed := rb_hashed s @ bs\<rparr>"
      by (auto simp: rebuild_chunk_def split: option.splits)
    with f None show ?thesis by (intro that [of bs]) (simp_all add: chunk_source_def)
  next
    case (Some bs)
    with assms f have "s' = s\<lparr>rb_local_bytes := rb_local_bytes s + word_of_nat (length bs),
             rb_local_chunks := rb_local_chunks s + 1, rb_written := rb_written s @ bs,
             rb_hashed := rb_hashed s @ bs\<rparr>"
      by (auto simp: rebuild_chunk_def split: option.splits)
    with f Some show ?thesis by (intro that [of bs]) (simp_all add: chunk_source_def)
  qed
qed

lemma rebuild_chunks_InrE:
  assumes "try_fold (rebuild_chunk X db disk fs dir) s cs = Inr s'"
  obtains bss where "list_all2 (chunk_source X db fs dir) cs bss" "rb_written s' = rb_written s @ concat bss"
    "rb_hashed s' = rb_hashed s @ concat bss"
    "rb_local_bytes s' + rb_missing_bytes s' = rb_local_bytes s + rb_missing_bytes s + word_of_nat (length (concat bss))"
    "rb_local_chunks s' + rb_missing_chunks s' = rb_local_chunks s + rb_missing_chunks s + word_of_nat (length cs)"
proof -
  have "\<exists>bss. list_all2 (chunk_source X db fs dir) cs bss \<and> rb_written s' = rb_written s @ concat bss \<and>
    rb_hashed s' = rb_hashed s @ concat bss \<and>
    rb_local_bytes s' + rb_missing_bytes s' = rb_local_bytes s + rb_missing_bytes s + word_of_nat (length (concat bss)) \<and>
    rb_local_chunks s' + rb_missing_chunks s' = rb_local_chunks s + rb_missing_chunks s + word_of_nat (length cs)"
    using assms
  proof (induction cs arbitrary: s)
    case Nil
    then show ?case by simp
  next
    case (Cons c cs)
    then obtain s1 where s1: "rebuild_chunk X db disk fs dir s c = Inr s1"
      "try_fold (rebuild_chunk X db disk fs dir) s1 cs = Inr s'" by auto
    obtain bs where bs: "chunk_source X db fs dir c bs" "rb_written s1 = rb_written s @ bs" "rb_hashed s1 = rb_hashed s @ bs"
      "rb_local_bytes s1 + rb_missing_bytes s1 = rb_local_bytes s + rb_missing_bytes s + word_of_nat (length bs)"
      "rb_local_chunks s1 + rb_missing_chunks s1 = rb_local_chunks s + rb_missing_chunks s + 1"
      by (rule rebuild_chunk_InrE [OF s1(1)])
    from Cons.IH [OF s1(2)] obtain bss where
      "list_all2 (chunk_source X db fs dir) cs bss" "rb_written s' = rb_written s1 @ concat bss"
      "rb_hashed s' = rb_hashed s1 @ concat bss"
      "rb_local_bytes s' + rb_missing_bytes s' = rb_local_bytes s1 + rb_missing_bytes s1 + word_of_nat (length (concat bss))"
      "rb_local_chunks s' + rb_missing_chunks s' = rb_local_chunks s1 + rb_missing_chunks s1 + word_of_nat (length cs)"
      by blast
    with bs show ?case by (intro exI [of _ "bs # bss"]) (simp add: add.assoc)
  qed
  with that show thesis by blast
qed

text \<open>
  What a rebuild relies on: a supply of chunks, from wherever, whose bytes have the length and the
  hash the descriptor names. The supplied parts of a tiling then lie at the offsets of its chunks.
\<close>

locale chunk_supply =
  fixes supplies :: "chunk_record \<Rightarrow> bytes \<Rightarrow> bool" and blake3 :: "bytes \<Rightarrow> string"
  assumes supplied: "supplies c bs \<Longrightarrow> length bs = unat (ck_length c) \<and> blake3 bs = ck_hash c"
begin

lemma supplied_parts:
  assumes "chunks_tile off cs e" and "list_all2 supplies cs bss"
  shows "off + length (concat bss) = e \<and> (\<forall>c\<in>set cs.
      supplies c (take (unat (ck_length c)) (drop (unat (ck_offset c) - off) (concat bss))))"
  using assms
proof (induction cs arbitrary: off bss)
  case Nil
  then show ?case by simp
next
  case (Cons d cs)
  then obtain bs rest where b: "bss = bs # rest" "supplies d bs" "list_all2 supplies cs rest"
    by (cases bss) auto
  have len: "length bs = unat (ck_length d)" using supplied [OF b(2)] by simp
  from Cons.IH [of "off + unat (ck_length d)" rest] Cons.prems(1) b(3)
  have IH: "off + unat (ck_length d) + length (concat rest) = e"
    "\<And>c. c \<in> set cs \<Longrightarrow> supplies c
       (take (unat (ck_length c)) (drop (unat (ck_offset c) - (off + unat (ck_length d))) (concat rest)))"
    by simp_all
  have "supplies c (take (unat (ck_length c)) (drop (unat (ck_offset c) - off) (bs @ concat rest)))"
    if c: "c \<in> set cs" for c
  proof -
    have "off + unat (ck_length d) \<le> unat (ck_offset c)"
      using chunks_tile_lower [OF _ c, of "off + unat (ck_length d)" e] Cons.prems(1) by simp
    then have "unat (ck_offset c) - off - length bs = unat (ck_offset c) - (off + unat (ck_length d))"
      "unat (ck_offset c) - off \<ge> length bs" using len by simp_all
    with IH(2) [OF c] show ?thesis by simp
  qed
  with b Cons.prems(1) len IH(1) show ?case by auto
qed

lemma supplied_length: "chunks_tile 0 cs e \<Longrightarrow> list_all2 supplies cs bss \<Longrightarrow> length (concat bss) = e"
  using supplied_parts [of 0 cs e bss] by simp

lemma supplied_hashes:
  "chunks_tile 0 cs e \<Longrightarrow> list_all2 supplies cs bss \<Longrightarrow> c \<in> set cs \<Longrightarrow>
   blake3 (take (unat (ck_length c)) (drop (unat (ck_offset c)) (concat bss))) = ck_hash c"
  using supplied_parts [of 0 cs e bss] supplied by fastforce

end

interpretation rebuilding: chunk_supply "chunk_source X db fs dir" "cx_blake3_hex X" for X db fs dir
  by unfold_locales (auto simp: chunk_holds_def dest: chunk_source_holds)

lemma rebuild_target_sound:
  assumes "rebuild_target X db disk now d dir output fs = (Inr report, fs')"
  obtains bs where "output \<notin> dom fs" "fs' = fs(output \<mapsto> Regular bs now)"
    "length bs = unat (ti_size (td_target d))" "cx_hex_encode X (cx_sha256 X bs) = ti_sha256 (td_target d)"
    "\<And>c. c \<in> set (td_chunks d) \<Longrightarrow>
       cx_blake3_hex X (take (unat (ck_length c)) (drop (unat (ck_offset c)) bs)) = ck_hash c"
    "rr_local_bytes_read report + rr_missing_source_bytes_read report = ti_size (td_target d)"
    "rr_local_chunk_occurrences report + rr_missing_chunk_occurrences report = word_of_nat (length (td_chunks d))"
proof -
  from assms obtain s where v: "td_validate X d = Inr ()" and out: "output \<notin> dom fs"
    and run: "try_fold (rebuild_chunk X db disk fs dir)
        \<lparr>rb_written = [], rb_hashed = [], rb_local_bytes = 0, rb_missing_bytes = 0,
         rb_local_chunks = 0, rb_missing_chunks = 0\<rparr> (td_chunks d) = Inr s"
    and sha: "cx_hex_encode X (cx_sha256 X (rb_hashed s)) = ti_sha256 (td_target d)"
    and fs': "fs' = fs(output \<mapsto> Regular (rb_written s) now)"
    and report: "report = \<lparr>rr_target_bytes = ti_size (td_target d), rr_local_bytes_read = rb_local_bytes s,
       rr_missing_source_bytes_read = rb_missing_bytes s, rr_local_chunk_occurrences = rb_local_chunks s,
       rr_missing_chunk_occurrences = rb_missing_chunks s,
       rr_output_sha256 = ti_sha256 (td_target d), rr_verified = True\<rparr>"
    by (auto simp: rebuild_target_def Let_def split: sum.splits option.splits)
  from v have tile: "chunks_tile 0 (td_chunks d) (unat (ti_size (td_target d)))" by (simp add: td_validate_iff)
  from run obtain bss where bss: "list_all2 (chunk_source X db fs dir) (td_chunks d) bss"
    "rb_written s = concat bss" "rb_hashed s = concat bss"
    "rb_local_bytes s + rb_missing_bytes s = word_of_nat (length (concat bss))"
    "rb_local_chunks s + rb_missing_chunks s = word_of_nat (length (td_chunks d))"
    by (rule rebuild_chunks_InrE) simp
  have len: "length (concat bss) = unat (ti_size (td_target d))"
    by (rule rebuilding.supplied_length [OF tile bss(1)])
  with bss out fs' sha report rebuilding.supplied_hashes [OF tile bss(1)] show ?thesis
    by (intro that [of "concat bss"]) simp_all
qed

lemma rebuild_target_failed:
  "rebuild_target X db disk now d dir output fs = (Inl e, fs') \<Longrightarrow> fs' = fs"
  by (auto simp: rebuild_target_def split: sum.splits prod.splits)

section \<open>Staging makes a rebuild possible\<close>

text \<open>
  Every contiguous part of a stored file. The index is honest when a file that still has the size and
  the time it was indexed with still has the content.
\<close>

definition pieces :: "file_system \<Rightarrow> bytes set" where
  "pieces fs = {take n (drop k bs) | n k bs. \<exists>q t. fs q = Some (Regular bs t)}"

definition index_honest :: "cdc_ext \<Rightarrow> chunk_profile \<Rightarrow> index_db \<Rightarrow> file_system \<Rightarrow> bool" where
  "index_honest X p db fs \<longleftrightarrow> (\<forall>f\<in>set (ix_files db). unchanged (fs_metadata fs) f \<longrightarrow>
     (\<exists>bs t. fs (fr_path f) = Some (Regular bs t) \<and> file_indexed X p db f bs))"

definition times_ok :: "file_system \<Rightarrow> bool" where
  "times_ok fs \<longleftrightarrow> (\<forall>q m. fs_metadata fs q = Inr m \<longrightarrow> is_ok (modified_ns m))"

lemma pieces_part: "fs q = Some (Regular bs t) \<Longrightarrow> take n (drop k bs) \<in> pieces fs"
  unfolding pieces_def by blast

lemma pieces_whole: "fs q = Some (Regular bs t) \<Longrightarrow> bs \<in> pieces fs"
  using pieces_part [of fs q bs t "length bs" 0] by simp

lemma chunk_source_piece: "chunk_source X db fs dir c bs \<Longrightarrow> bs \<in> pieces fs"
  by (auto simp: chunk_source_def local_chunk_Some read_verified_source_def missing_chunk_def read_range_def fs_read_Inr
      split: sum.splits if_splits intro: pieces_part pieces_whole)

lemma blake3_text_eq:
  assumes "cdc_ext_ok X" and "cx_hex_decode X (cx_blake3_hex X a) = cx_hex_decode X (cx_blake3_hex X b)"
  shows "cx_blake3_hex X a = cx_blake3_hex X b"
proof -
  obtain d e where "cx_blake3_hex X a = cx_hex_encode X d" "cx_blake3_hex X b = cx_hex_encode X e"
    using assms(1) unfolding cdc_ext_ok_def by metis
  with assms show ?thesis by (simp add: cdc_ext_ok_def)
qed

lemma indexed_local_chunk:
  assumes ok: "cdc_ext_ok X" "profile_validate p = Inr ()" "index_honest X p db fs" "times_ok fs"
    and "indexed_now X db fs c" and hash: "ck_hash c = cx_blake3_hex X tc"
  shows "\<exists>bs. local_chunk X db fs c = Inr (Some bs)"
proof -
  from assms(5) obtain h f k where h: "cx_hex_decode X (ck_hash c) = Inr h"
    "(f, k) \<in> set (chunk_rows db h (ck_length c))" "unchanged (fs_metadata fs) f"
    by (auto simp: indexed_now_def)
  have "is_ok (lookup_chunk X db (fs_metadata fs) (ck_hash c) (ck_length c))"
    using ok(4) h(1) by (intro lookup_chunk_ok) (auto simp: times_ok_def)
  moreover have "lookup_chunk X db (fs_metadata fs) (ck_hash c) (ck_length c) \<noteq> Inr None"
    using first_current_None [OF _ h(2)] h(1,3) by (auto simp: lookup_chunk_def)
  ultimately obtain loc where loc: "lookup_chunk X db (fs_metadata fs) (ck_hash c) (ck_length c) = Inr (Some loc)"
    by (auto simp: is_ok_iff)
  then obtain g where g: "g \<in> set (ix_files db)" "fr_path g = sl_path loc" "unchanged (fs_metadata fs) g"
    "sl_length loc = ck_length c"
    "\<And>bs. file_indexed X p db g bs \<Longrightarrow> unat (sl_offset loc) + unat (ck_length c) \<le> length bs \<and>
       cx_hex_decode X (ck_hash c) =
       cx_hex_decode X (cx_blake3_hex X (take (unat (ck_length c)) (drop (unat (sl_offset loc)) bs)))"
    using lookup_chunk_located [OF ok(2) loc] by blast
  from ok(3) g(1,3) obtain bs t where bs: "fs (sl_path loc) = Some (Regular bs t)" "file_indexed X p db g bs"
    unfolding index_honest_def g(2) [symmetric] by blast
  let ?part = "take (unat (ck_length c)) (drop (unat (sl_offset loc)) bs)"
  from g(5) [OF bs(2)] have "ck_hash c = cx_blake3_hex X ?part" "unat (sl_offset loc) + unat (ck_length c) \<le> length bs"
    using blake3_text_eq [OF ok(1), of tc ?part] hash by auto
  then have "read_verified_source X fs loc (ck_hash c) = Inr ?part"
    using bs(1) g(4) by (simp add: read_verified_source_def read_range_def verify_chunk_def fs_read_def)
  with loc show ?thesis by (auto simp: local_chunk_Some)
qed

lemma local_chunk_ok: "times_ok fs \<Longrightarrow> is_ok (cx_hex_decode X (ck_hash c)) \<Longrightarrow> is_ok (local_chunk X db fs c)"
proof -
  assume "times_ok fs" "is_ok (cx_hex_decode X (ck_hash c))"
  then have "is_ok (lookup_chunk X db (fs_metadata fs) (ck_hash c) (ck_length c))"
    by (intro lookup_chunk_ok) (auto simp: times_ok_def)
  then obtain found where "lookup_chunk X db (fs_metadata fs) (ck_hash c) (ck_length c) = Inr found"
    by (auto simp: is_ok_iff)
  then show ?thesis
    by (cases found; cases "read_verified_source X fs (the found) (ck_hash c)") (simp_all add: local_chunk_def)
qed

lemma rebuild_chunks_total:
  assumes "\<And>c. c \<in> set cs \<Longrightarrow> \<exists>bs. chunk_source X db fs dir c bs"
  shows "\<exists>s'. try_fold (rebuild_chunk X db (\<lambda>_. None) fs dir) s cs = Inr s'"
  using assms
proof (induction cs arbitrary: s)
  case Nil
  then show ?case by simp
next
  case (Cons c cs)
  from Cons.prems [of c] obtain bs where bs: "chunk_source X db fs dir c bs" by auto
  then have "\<exists>s1. rebuild_chunk X db (\<lambda>_. None) fs dir s c = Inr s1"
    unfolding rebuild_chunk_def by (auto simp: chunk_source_def)
  then obtain s1 where "rebuild_chunk X db (\<lambda>_. None) fs dir s c = Inr s1" by blast
  with Cons.IH [of s1] Cons.prems show ?case by auto
qed

text \<open>The records of a string hold exactly its chunks.\<close>

lemma file_records_hold:
  assumes "profile_validate p = Inr ()"
  shows "list_all2 (chunk_holds X) (file_records (cx_blake3_hex X) p bs) (cdc_chunks p bs)"
proof -
  have "0 < unat (max_size p)" using assms by (simp add: profile_validate_iff)
  then have small: "length c < 4294967296" if "c \<in> set (cdc_chunks p bs)" for c
    using le_less_trans [OF cdc_chunks_max [OF _ that] unat_u32_bound] by simp
  have "list_all2 (chunk_holds X) (records_at (cx_blake3_hex X) off cs) cs"
    if "\<And>c. c \<in> set cs \<Longrightarrow> length c < 4294967296" for off cs
    using that by (induction cs arbitrary: off) (auto simp: chunk_holds_def unat_of_nat_u32)
  with small show ?thesis by (simp add: file_records_def)
qed

lemma cdc_chunks_piece:
  assumes "fs q = Some (Regular bs t)" and "c \<in> set (cdc_chunks p bs)"
  shows "c \<in> pieces fs"
proof -
  from assms(2) obtain xs ys where "cdc_chunks p bs = xs @ c # ys" by (meson split_list)
  then have "bs = concat xs @ c @ concat ys"
    using concat_cdc_chunks [of p bs] by simp
  then have "take (length c) (drop (length (concat xs)) bs) = c" by simp
  then show ?thesis using pieces_part [where fs = fs and q = q, OF assms(1)] by metis
qed

lemma stage_missing_chunksE:
  assumes "stage_missing_chunks X db disk now d target dir fs = (Inr rep, fs')"
  obtains content t where "fs target = Some (Regular content t)" "td_validate X d = Inr ()"
    "ensure_profile X db (td_profile d) = Inr ()" "fs_extends fs fs'"
    "\<And>c. c \<in> set (td_chunks d) \<Longrightarrow> indexed_now X db fs' c \<or> staged X fs' dir c"
proof -
  from assms obtain content where c: "td_validate X d = Inr ()" "ensure_profile X db (td_profile d) = Inr ()"
    "fs_read fs target = Inr content"
    "stage_chunks X db disk now content dir (td_chunks d)
       \<lparr>sg_missing_chunk_occurrences = 0, sg_missing_payload_bytes = 0,
        sg_unique_chunk_files_written = 0, sg_unique_chunk_file_bytes = 0\<rparr> fs = (Inr rep, fs')"
    by (auto simp: stage_missing_chunks_def split: sum.splits option.splits)
  with stage_chunks_extends [OF c(4)] stage_chunks_available [OF c(4)] show ?thesis
    using that by (auto simp: fs_read_Inr)
qed

lemma list_all2_unique:
  "list_all2 P cs xs \<Longrightarrow> list_all2 Q cs ys \<Longrightarrow>
   (\<And>c x y. c \<in> set cs \<Longrightarrow> x \<in> set xs \<Longrightarrow> y \<in> set ys \<Longrightarrow> P c x \<Longrightarrow> Q c y \<Longrightarrow> x = y) \<Longrightarrow> xs = ys"
proof (induction cs arbitrary: xs ys)
  case Nil
  then show ?case by simp
next
  case (Cons c cs)
  then obtain x xs' y ys' where "xs = x # xs'" "ys = y # ys'" "P c x" "Q c y"
    "list_all2 P cs xs'" "list_all2 Q cs ys'"
    by (auto simp: list_all2_Cons1)
  moreover have "xs' = ys'"
    using calculation Cons.prems(3) by (intro Cons.IH [of xs' ys']) (meson list.set_intros)+
  ultimately show ?case using Cons.prems(3) [of c x y] by simp
qed

text \<open>
  A rebuild whose chunks are all available, in the index or in the directory, gives the file: the
  hash is only assumed to tell apart the chunks of the file and the parts of the stored files.
\<close>

text \<open>BLAKE3 tells the parts of the stored files from the chunks of the target.\<close>

definition tells_apart :: "cdc_ext \<Rightarrow> file_system \<Rightarrow> bytes set \<Rightarrow> bool" where
  "tells_apart X fs cs \<longleftrightarrow> (\<forall>x\<in>pieces fs. \<forall>y\<in>cs. cx_blake3_hex X x = cx_blake3_hex X y \<longrightarrow> x = y)"

lemma inj_tells_apart: "inj_on (cx_blake3_hex X) (pieces fs \<union> cs) \<Longrightarrow> tells_apart X fs cs"
  by (auto simp: tells_apart_def dest: inj_onD)

lemma available_rebuild:
  assumes ok: "cdc_ext_ok X" "profile_validate p = Inr ()"
    and valid: "td_validate X (descriptor_of X p name T) = Inr ()" and profile: "ensure_profile X db p = Inr ()"
    and avail: "\<And>c. c \<in> set (file_records (cx_blake3_hex X) p T) \<Longrightarrow> indexed_now X db fs c \<or> staged X fs dir c"
    and honest: "index_honest X p db fs" "times_ok fs"
    and inj: "tells_apart X fs (set (cdc_chunks p T))"
    and out: "output \<notin> dom fs"
  shows "\<exists>report. rebuild_target X db (\<lambda>_. None) now (descriptor_of X p name T) dir output fs =
    (Inr report, fs(output \<mapsto> Regular T now))"
proof -
  let ?d = "descriptor_of X p name T" and ?cs = "file_records (cx_blake3_hex X) p T"
  have cs: "td_chunks ?d = ?cs" "td_profile ?d = p" by (simp_all add: descriptor_of_def)
  have hold: "list_all2 (chunk_holds X) ?cs (cdc_chunks p T)" by (rule file_records_hold [OF ok(2)])
  have src: "\<exists>bs. chunk_source X db fs dir c bs" if c: "c \<in> set ?cs" for c
  proof -
    obtain tc where tc: "tc \<in> set (cdc_chunks p T)" "chunk_holds X c tc"
      using hold c by (metis in_set_conv_nth list_all2_conv_all_nth)
    then have hash: "ck_hash c = cx_blake3_hex X tc" by (simp add: chunk_holds_def)
    have "is_ok (cx_hex_decode X (ck_hash c))"
      using hex_digest_blake3 [OF ok(1)] hash by (simp add: hex_digest_def)
    from local_chunk_ok [OF honest(2) this] obtain found where found: "local_chunk X db fs c = Inr found"
      by (auto simp: is_ok_iff)
    show ?thesis
    proof (cases found)
      case (Some bs)
      with found show ?thesis by (auto simp: chunk_source_def)
    next
      case None
      with found have "\<not> indexed_now X db fs c"
        using indexed_local_chunk [OF ok honest _ hash] by auto
      with avail [of c] c have "staged X fs dir c" by simp
      then obtain bs u where bs: "fs (chunk_path dir (ck_hash c)) = Some (Regular bs u)"
        "cx_blake3_hex X bs = ck_hash c" by (auto simp: staged_def)
      have "bs \<in> pieces fs" by (rule pieces_whole [where fs = fs, OF bs(1)])
      then have "bs = tc" using inj tc(1) bs(2) hash by (auto simp: tells_apart_def)
      with bs tc(2) have "missing_chunk X fs dir c = Inr bs"
        by (simp add: missing_chunk_def fs_read_def verify_chunk_def chunk_holds_def)
      with found None show ?thesis by (auto simp: chunk_source_def)
    qed
  qed
  let ?s = "\<lparr>rb_written = [], rb_hashed = [], rb_local_bytes = 0, rb_missing_bytes = 0,
         rb_local_chunks = 0, rb_missing_chunks = 0\<rparr>"
  from rebuild_chunks_total [OF src] obtain s where
    run: "try_fold (rebuild_chunk X db (\<lambda>_. None) fs dir) ?s ?cs = Inr s" by blast
  then obtain bss where bss: "list_all2 (chunk_source X db fs dir) ?cs bss"
    "rb_written s = concat bss" "rb_hashed s = concat bss"
    by (rule rebuild_chunks_InrE) simp
  have "bss = cdc_chunks p T"
  proof (rule list_all2_unique [OF bss(1) hold])
    fix c x y assume "y \<in> set (cdc_chunks p T)" "chunk_source X db fs dir c x" "chunk_holds X c y"
    then show "x = y"
      using inj chunk_source_piece [of X db fs dir c x] chunk_source_holds [of X db fs dir c x]
      by (auto simp: chunk_holds_def tells_apart_def)
  qed
  then have written: "rb_written s = T" "rb_hashed s = T" using bss(2,3) by (simp_all add: concat_cdc_chunks)
  have "ti_sha256 (td_target ?d) = cx_hex_encode X (cx_sha256 X T)" by (simp add: descriptor_of_def)
  with valid profile out run written cs show ?thesis by (simp add: rebuild_target_def Let_def)
qed

lemma stage_then_rebuild_helper:
  assumes ok: "cdc_ext_ok X" "profile_validate p = Inr ()"
    and target: "fs target = Some (Regular T t)"
    and stage: "stage_missing_chunks X db disk now (descriptor_of X p name T) target dir fs = (Inr rep, fs')"
    and honest: "index_honest X p db fs'" "times_ok fs'" and inj: "inj_on (cx_blake3_hex X) (pieces fs')"
    and out: "output \<notin> dom fs'"
  shows "\<exists>report. rebuild_target X db (\<lambda>_. None) now2 (descriptor_of X p name T) dir output fs' =
    (Inr report, fs'(output \<mapsto> Regular T now2))"
proof -
  let ?d = "descriptor_of X p name T"
  have cs: "td_chunks ?d = file_records (cx_blake3_hex X) p T" "td_profile ?d = p"
    by (simp_all add: descriptor_of_def)
  from stage obtain valid: "td_validate X ?d = Inr ()" and profile: "ensure_profile X db (td_profile ?d) = Inr ()"
    and ext: "fs_extends fs fs'"
    and avail: "\<And>c. c \<in> set (td_chunks ?d) \<Longrightarrow> indexed_now X db fs' c \<or> staged X fs' dir c"
    by (rule stage_missing_chunksE) (rule that)
  have T: "fs' target = Some (Regular T t)" by (rule fs_extends_node [OF ext target])
  have "set (cdc_chunks p T) \<subseteq> pieces fs'"
    using cdc_chunks_piece [where fs = fs' and q = target, OF T] by blast
  then have "tells_apart X fs' (set (cdc_chunks p T))"
    using inj inj_tells_apart by (simp add: sup_absorb1)
  with valid profile avail honest out show ?thesis
    unfolding cs by (intro available_rebuild [OF ok])
qed

end
