(* ===== verification/Cdc_Network.thy ===== *)
theory Cdc_Network
  imports Cdc_Rebuild
begin

text \<open>
  The chunk transfer protocol: \<open>crates/meld-core/src/network.rs\<close>. A TCP stream that is read from is
  the list of what its one-byte reads return, a byte or an error, and its end is the end of the
  stream; what is written is the list of bytes sent. Which sends fail is an argument. Timeouts are
  errors of the reads; sockets, addresses and threads are not modelled further.
\<close>

section \<open>Streams\<close>

type_synonym stream = "(u8 + io_kind) list"

definition stream_of :: "bytes \<Rightarrow> stream" where
  "stream_of bs = map Inl bs"

text \<open>\<open>Read::read_exact\<close>, which retries an interrupted read.\<close>

fun read_exact :: "nat \<Rightarrow> stream \<Rightarrow> (bytes \<times> stream) result" where
  "read_exact 0 s = Inr ([], s)"
| "read_exact (Suc n) [] = Inl (Io UnexpectedEof)"
| "read_exact (Suc n) (Inl b # s) = and_then (read_exact n s) (\<lambda>(bs, s). Inr (b # bs, s))"
| "read_exact (Suc n) (Inr e # s) = (if e = Interrupted then read_exact (Suc n) s else Inl (Io e))"

text \<open>\<open>None\<close> when the stream ends before the first byte.\<close>

fun read_exact_or_eof :: "nat \<Rightarrow> stream \<Rightarrow> (bytes option \<times> stream) result" where
  "read_exact_or_eof 0 s = Inr (Some [], s)"
| "read_exact_or_eof (Suc n) [] = Inr (None, [])"
| "read_exact_or_eof (Suc n) (Inl b # s) = and_then (read_exact n s) (\<lambda>(bs, s). Inr (Some (b # bs), s))"
| "read_exact_or_eof (Suc n) (Inr e # s) =
     (if e = Interrupted then read_exact_or_eof (Suc n) s else Inl (Io e))"

lemma read_exact_shrinks: "read_exact n s = Inr (bs, s') \<Longrightarrow> length s' + n \<le> length s \<and> length bs = n"
  by (induction n s arbitrary: bs s' rule: read_exact.induct) (fastforce split: if_splits)+

lemma read_exact_or_eof_shrinks:
  "read_exact_or_eof n s = Inr (Some bs, s') \<Longrightarrow> length s' + n \<le> length s \<and> length bs = n"
  by (induction n s arbitrary: bs s' rule: read_exact_or_eof.induct)
     (auto split: if_splits dest!: read_exact_shrinks)

lemma read_exact_stream [simp]: "read_exact (length bs) (stream_of bs @ s) = Inr (bs, s)"
  by (induction bs) (simp_all add: stream_of_def)

lemma read_exact_stream_n: "n = length bs \<Longrightarrow> read_exact n (stream_of bs @ s) = Inr (bs, s)"
  by simp

lemma read_exact_or_eof_stream_n:
  "n = length bs \<Longrightarrow> read_exact_or_eof n (stream_of bs @ s) = Inr (Some bs, s)"
proof (cases bs)
  case (Cons b bs')
  then show "n = length bs \<Longrightarrow> ?thesis"
    using read_exact_stream [of bs' s] by (simp add: stream_of_def)
qed (simp add: stream_of_def)

lemma stream_of_append [simp]: "stream_of (a @ b) = stream_of a @ stream_of b"
  and stream_of_Nil [simp]: "stream_of [] = []"
  by (simp_all add: stream_of_def)

section \<open>The server\<close>

definition PROTOCOL_MAGIC :: bytes where
  "PROTOCOL_MAGIC = as_bytes ''SMLD2''"

definition STATUS_OK :: u8 where
  "STATUS_OK = 0"

definition STATUS_UNAVAILABLE :: u8 where
  "STATUS_UNAVAILABLE = 1"

definition MAX_CHUNK_BYTES :: u32 where
  "MAX_CHUNK_BYTES = 16 * 1024 * 1024"

record connection_report =
  cn_requests :: u64
  cn_sent :: u64
  cn_bytes :: u64
  cn_unavailable :: u64

definition default_connection :: connection_report where
  "default_connection = \<lparr>cn_requests = 0, cn_sent = 0, cn_bytes = 0, cn_unavailable = 0\<rparr>"

definition verify_chunk_bytes :: "cdc_ext \<Rightarrow> bytes \<Rightarrow> string \<Rightarrow> u32 \<Rightarrow> unit result" where
  "verify_chunk_bytes X bs expected_hash expected_length =
     bail_if (length bs \<noteq> unat expected_length) ''chunk length mismatch''
    (bail_if (cx_blake3_hex X bs \<noteq> expected_hash) ''chunk BLAKE3 mismatch'' (Inr ()))"

definition load_verified_chunk :: "cdc_ext \<Rightarrow> file_system \<Rightarrow> string \<Rightarrow> string \<Rightarrow> u32 \<Rightarrow> bytes result" where
  "load_verified_chunk X fs dir hash len =
     bail_if (len = 0 \<or> MAX_CHUNK_BYTES < len) ''invalid requested chunk length''
    (let path = chunk_path dir hash in
     case fs_metadata fs path of Inl e \<Rightarrow> Inl (Bail ''chunk unavailable'') | Inr metadata \<Rightarrow>
     bail_if (fm_len metadata \<noteq> ucast len) ''chunk length mismatch''
    (and_then (fs_read fs path) (\<lambda>bs.
     and_then (verify_chunk_bytes X bs hash len) (\<lambda>_. Inr bs))))"

text \<open>A response, and the counters after it.\<close>

definition response_message :: "bytes result \<Rightarrow> bytes" where
  "response_message response = (case response of
      Inr bs \<Rightarrow> [STATUS_OK] @ be_bytes 4 (unat (word_of_nat (length bs) :: u32)) @ bs
    | Inl e \<Rightarrow> [STATUS_UNAVAILABLE] @ be_bytes 4 0)"

definition count_response :: "bytes result \<Rightarrow> connection_report \<Rightarrow> connection_report" where
  "count_response response r = (case response of
      Inr bs \<Rightarrow> r\<lparr>cn_sent := cn_sent r + 1, cn_bytes := cn_bytes r + word_of_nat (length bs)\<rparr>
    | Inl e \<Rightarrow> r\<lparr>cn_unavailable := cn_unavailable r + 1\<rparr>)"

text \<open>
  The request loop. \<open>send\<close> says after how many bytes the response to the request with that number
  fails; the second component is what has been sent.
\<close>

function serve_requests ::
    "cdc_ext \<Rightarrow> file_system \<Rightarrow> string \<Rightarrow> u64 option \<Rightarrow> (u64 \<Rightarrow> (io_kind \<times> nat) option)
       \<Rightarrow> connection_report \<Rightarrow> bytes \<Rightarrow> stream \<Rightarrow> connection_report result \<times> bytes" where
  "serve_requests X fs dir limit send r out s =
     (if (case limit of None \<Rightarrow> False | Some l \<Rightarrow> l \<le> cn_requests r) then (Inr r, out) else
      case read_exact_or_eof 32 s of Inl e \<Rightarrow> (Inl e, out)
      | Inr (None, s1) \<Rightarrow> (Inr r, out)
      | Inr (Some hash_bytes, s1) \<Rightarrow>
          (case read_exact 4 s1 of Inl e \<Rightarrow> (Inl e, out)
           | Inr (length_bytes, s2) \<Rightarrow>
               let requested = (word_of_nat (be_nat length_bytes) :: u32);
                   hash = cx_hex_encode X hash_bytes;
                   response = load_verified_chunk X fs dir hash requested;
                   message = response_message response;
                   r2 = count_response response (r\<lparr>cn_requests := cn_requests r + 1\<rparr>)
               in (case send (cn_requests r) of
                     Some (e, n) \<Rightarrow> (Inl (Io e), out @ take n message)
                   | None \<Rightarrow> serve_requests X fs dir limit send r2 (out @ message) s2)))"
  by pat_completeness auto
termination
  by (relation "measure (\<lambda>(_, _, _, _, _, _, _, s). length s)")
     (auto dest!: read_exact_shrinks read_exact_or_eof_shrinks)

declare serve_requests.simps [simp del]

definition serve_connection ::
    "cdc_ext \<Rightarrow> file_system \<Rightarrow> string \<Rightarrow> u64 option \<Rightarrow> (u64 \<Rightarrow> (io_kind \<times> nat) option) \<Rightarrow> stream
       \<Rightarrow> connection_report result \<times> bytes" where
  "serve_connection X fs dir limit send s =
     (case read_exact_or_eof 5 s of Inl e \<Rightarrow> (Inl e, [])
      | Inr (None, _) \<Rightarrow> (Inr default_connection, [])
      | Inr (Some magic, s1) \<Rightarrow>
          if magic \<noteq> PROTOCOL_MAGIC then (Inl (Bail ''invalid ShardMeld protocol magic''), [])
          else serve_requests X fs dir limit send default_connection [] s1)"

record serve_report =
  sv_connections :: u64
  sv_requests_received :: u64
  sv_chunks_sent :: u64
  sv_bytes_sent :: u64
  sv_unavailable_requests :: u64
  sv_connection_errors :: u64

definition count_connection :: "serve_report \<Rightarrow> connection_report result \<Rightarrow> serve_report" where
  "count_connection r outcome = (case outcome of
      Inr c \<Rightarrow> r\<lparr>sv_requests_received := sv_requests_received r + cn_requests c,
        sv_chunks_sent := sv_chunks_sent r + cn_sent c, sv_bytes_sent := sv_bytes_sent r + cn_bytes c,
        sv_unavailable_requests := sv_unavailable_requests r + cn_unavailable c\<rparr>
    | Inl e \<Rightarrow> r\<lparr>sv_connection_errors := sv_connection_errors r + 1\<rparr>)"

text \<open>
  The accept loop over the clients that come, each an error of \<open>accept\<close> or a stream with its send
  failures; \<open>None\<close> while the server still waits for another client.
\<close>

fun serve_loop ::
    "cdc_ext \<Rightarrow> file_system \<Rightarrow> string \<Rightarrow> u64 option \<Rightarrow> serve_report
       \<Rightarrow> (io_kind + stream \<times> (u64 \<Rightarrow> (io_kind \<times> nat) option)) list \<Rightarrow> serve_report result option" where
  "serve_loop X fs dir maximum r clients =
     (if (case maximum of None \<Rightarrow> False | Some m \<Rightarrow> m \<le> sv_requests_received r) then Some (Inr r) else
      case clients of [] \<Rightarrow> None
      | Inl e # _ \<Rightarrow> Some (Inl (Bail ''accept chunk client''))
      | Inr (s, send) # rest \<Rightarrow>
          let r1 = r\<lparr>sv_connections := sv_connections r + 1\<rparr>;
              remaining = map_option (\<lambda>m. m - sv_requests_received r) maximum
          in serve_loop X fs dir maximum
               (count_connection r1 (fst (serve_connection X fs dir remaining send s))) rest)"

declare serve_loop.simps [simp del]

text \<open>
  The directory is given by its canonical path, and the timeouts of the socket can be set: the errors of these two
  calls are not branches.
\<close>

definition serve_chunk_listener ::
    "cdc_ext \<Rightarrow> file_system \<Rightarrow> string \<Rightarrow> u64 option
       \<Rightarrow> (io_kind + stream \<times> (u64 \<Rightarrow> (io_kind \<times> nat) option)) list \<Rightarrow> serve_report result option" where
  "serve_chunk_listener X fs dir maximum clients =
     (if maximum = Some 0 then Some (Inl (Bail ''max_requests must be greater than zero when specified''))
      else serve_loop X fs dir maximum \<lparr>sv_connections = 0, sv_requests_received = 0, sv_chunks_sent = 0,
        sv_bytes_sent = 0, sv_unavailable_requests = 0, sv_connection_errors = 0\<rparr> clients)"

definition serve_chunk_directory ::
    "cdc_ext \<Rightarrow> file_system \<Rightarrow> bool \<Rightarrow> bool \<Rightarrow> bool \<Rightarrow> io_kind option \<Rightarrow> string \<Rightarrow> u64 option
       \<Rightarrow> (io_kind + stream \<times> (u64 \<Rightarrow> (io_kind \<times> nat) option)) list \<Rightarrow> serve_report result option" where
  "serve_chunk_directory X fs loopback allow_non_loopback source_is_dir bind_error dir maximum clients =
     (if \<not> loopback \<and> \<not> allow_non_loopback then Some (Inl (Bail ''refusing non-loopback bind''))
      else if \<not> source_is_dir then Some (Inl (Bail ''chunk source is not a directory''))
      else if bind_error \<noteq> None then Some (Inl (Bail ''bind chunk server''))
      else serve_chunk_listener X fs dir maximum clients)"

section \<open>The client\<close>

record fetch_report =
  ft_missing_chunk_occurrences :: u64
  ft_unique_chunks_needed :: u64
  ft_chunks_fetched :: u64
  ft_bytes_fetched :: u64
  ft_existing_verified_chunks :: u64

text \<open>The first loop: the distinct missing chunks in order of first occurrence.\<close>

definition need_chunk ::
    "cdc_ext \<Rightarrow> index_db \<Rightarrow> file_system \<Rightarrow> u64 \<times> (string \<times> u32) list \<Rightarrow> chunk_record
       \<Rightarrow> (u64 \<times> (string \<times> u32) list) result" where
  "need_chunk X db fs acc c =
     and_then (lookup_chunk X db (fs_metadata fs) (ck_hash c) (ck_length c)) (\<lambda>found.
     if found \<noteq> None then Inr acc
     else Inr (fst acc + 1, if (ck_hash c, ck_length c) \<in> set (snd acc) then snd acc
               else snd acc @ [(ck_hash c, ck_length c)]))"

text \<open>The second loop: those already in the directory are verified.\<close>

definition check_existing ::
    "cdc_ext \<Rightarrow> file_system \<Rightarrow> string \<Rightarrow> u64 \<times> (string \<times> u32) list \<Rightarrow> string \<times> u32
       \<Rightarrow> (u64 \<times> (string \<times> u32) list) result" where
  "check_existing X fs dir acc need = (case need of (hash, len) \<Rightarrow>
     if chunk_path dir hash \<in> dom fs then
       and_then (fs_read fs (chunk_path dir hash)) (\<lambda>existing.
       and_then (verify_chunk_bytes X existing hash len) (\<lambda>_. Inr (fst acc + 1, snd acc)))
     else Inr (fst acc, snd acc @ [need]))"

definition persist_chunk ::
    "disk \<Rightarrow> int result \<Rightarrow> file_system \<Rightarrow> string \<Rightarrow> string \<Rightarrow> bytes \<Rightarrow> unit result \<times> file_system" where
  "persist_chunk disk now fs dir hash bs =
     (if disk (CreateChunk hash) \<noteq> None then (Inl (Io OtherIo), fs)
      else if disk (WriteChunk hash) \<noteq> None then (Inl (Io OtherIo), fs)
      else if disk (SyncChunk hash) \<noteq> None then (Inl (Io OtherIo), fs)
      else if chunk_path dir hash \<in> dom fs then (Inl (Bail ''persist fetched chunk''), fs)
      else (Inr (), fs(chunk_path dir hash \<mapsto> Regular bs now)))"

definition request_bytes :: "bytes \<Rightarrow> u32 \<Rightarrow> bytes" where
  "request_bytes hash_bytes len = hash_bytes @ be_bytes 4 (unat len)"

text \<open>One exchange: the request is sent and the response read and checked.\<close>

definition receive_chunk :: "cdc_ext \<Rightarrow> string \<Rightarrow> u32 \<Rightarrow> stream \<Rightarrow> (bytes \<times> stream) result" where
  "receive_chunk X hash len s =
     and_then (read_exact 1 s) (\<lambda>(status, s).
     and_then (read_exact 4 s) (\<lambda>(length_bytes, s).
     let response_length = (word_of_nat (be_nat length_bytes) :: u32) in
     bail_if (hd status \<noteq> STATUS_OK) ''peer could not provide chunk''
    (bail_if (response_length \<noteq> len \<or> MAX_CHUNK_BYTES < response_length) ''peer returned invalid length''
    (and_then (read_exact (unat response_length) s) (\<lambda>(bs, s).
     and_then (verify_chunk_bytes X bs hash len) (\<lambda>_. Inr (bs, s)))))))"

fun fetch_chunks ::
    "cdc_ext \<Rightarrow> disk \<Rightarrow> (string \<Rightarrow> io_kind option) \<Rightarrow> int result \<Rightarrow> string \<Rightarrow> (string \<times> u32) list
       \<Rightarrow> u64 \<times> u64 \<Rightarrow> stream \<Rightarrow> file_system \<Rightarrow> bytes \<Rightarrow> (u64 \<times> u64) result \<times> file_system \<times> bytes" where
  "fetch_chunks X disk send now dir [] counts s fs out = (Inr counts, fs, out)"
| "fetch_chunks X disk send now dir ((hash, len) # pending) counts s fs out =
     (case cx_hex_decode X hash of Inl e \<Rightarrow> (Inl (Bail ''decode requested chunk hash''), fs, out)
      | Inr hash_bytes \<Rightarrow>
          if length hash_bytes \<noteq> 32 then (Inl (Bail ''chunk hash is not 32 bytes''), fs, out)
          else (case send hash of Some e \<Rightarrow> (Inl (Io e), fs, out)
          | None \<Rightarrow>
              let out = out @ request_bytes hash_bytes len in
              (case receive_chunk X hash len s of Inl e \<Rightarrow> (Inl e, fs, out)
               | Inr (bs, s) \<Rightarrow>
                   (case persist_chunk disk now fs dir hash bs of
                      (Inl e, fs) \<Rightarrow> (Inl e, fs, out)
                    | (Inr _, fs) \<Rightarrow> fetch_chunks X disk send now dir pending
                        (fst counts + 1, snd counts + word_of_nat (length bs)) s fs out))))"

text \<open>
  \<open>peer\<close> is the error of connecting or the stream the peer answers with. The third component is what
  has been sent to it.
\<close>

definition fetch_missing_chunks ::
    "cdc_ext \<Rightarrow> index_db \<Rightarrow> disk \<Rightarrow> (string \<Rightarrow> io_kind option) \<Rightarrow> int result \<Rightarrow> target_descriptor
       \<Rightarrow> io_kind + stream \<Rightarrow> string \<Rightarrow> file_system \<Rightarrow> fetch_report result \<times> file_system \<times> bytes" where
  "fetch_missing_chunks X db disk send now d peer dir fs =
     (case and_then (td_validate X d) (\<lambda>_.
           and_then (ensure_profile X db (td_profile d)) (\<lambda>_.
           bail_if (disk CreateDirs \<noteq> None) ''create fetched chunk directory''
          (and_then (try_fold (need_chunk X db fs) (0, []) (td_chunks d)) (\<lambda>(occurrences, needed).
           and_then (try_fold (check_existing X fs dir) (0, []) needed) (\<lambda>(existing, pending).
           Inr (occurrences, existing, pending)))))) of
        Inl e \<Rightarrow> (Inl e, fs, [])
      | Inr (occurrences, existing, pending) \<Rightarrow>
          let report = (\<lambda>(fetched, received). \<lparr>ft_missing_chunk_occurrences = occurrences,
                ft_unique_chunks_needed = word_of_nat (length pending) + existing,
                ft_chunks_fetched = fetched, ft_bytes_fetched = received,
                ft_existing_verified_chunks = existing\<rparr>) in
          if pending = [] then (Inr (report (0, 0)), fs, [])
          else (case peer of Inl e \<Rightarrow> (Inl (Bail ''connect to chunk peer''), fs, [])
            | Inr s \<Rightarrow>
                (case fetch_chunks X disk send now dir pending (0, 0) s fs PROTOCOL_MAGIC of
                   (Inl e, fs, out) \<Rightarrow> (Inl e, fs, out)
                 | (Inr counts, fs, out) \<Rightarrow> (Inr (report counts), fs, out))))"

end
