(* ===== verification/Cdc_Transfer.thy ===== *)
theory Cdc_Transfer
  imports Cdc_Network
begin

text \<open>
  The transfer protocol end to end: whatever a peer answers, the client only stores chunks under their
  own hash; the server never serves more requests on a connection than it was allowed; and a client
  that talks to a server that holds the chunks gets them all.
\<close>

section \<open>The client trusts nothing\<close>

text \<open>New files are chunks stored under their own hash.\<close>

definition only_chunks_added :: "cdc_ext \<Rightarrow> string \<Rightarrow> file_system \<Rightarrow> file_system \<Rightarrow> bool" where
  "only_chunks_added X dir fs fs' \<longleftrightarrow> fs_extends fs fs' \<and>
     (\<forall>q n. fs' q = Some n \<and> fs q = None \<longrightarrow>
        (\<exists>bs t. q = chunk_path dir (cx_blake3_hex X bs) \<and> n = Regular bs t))"

lemma only_chunks_added_refl [simp]: "only_chunks_added X dir fs fs"
  unfolding only_chunks_added_def by auto

lemma only_chunks_added_trans:
  "only_chunks_added X dir a b \<Longrightarrow> only_chunks_added X dir b c \<Longrightarrow> only_chunks_added X dir a c"
proof -
  assume a: "only_chunks_added X dir a b" and b: "only_chunks_added X dir b c"
  have "\<exists>bs t. q = chunk_path dir (cx_blake3_hex X bs) \<and> n = Regular bs t" if q: "c q = Some n" "a q = None" for q n
  proof (cases "b q")
    case None
    with b q(1) show ?thesis by (simp add: only_chunks_added_def)
  next
    case (Some m)
    then have "m = n" using b q(1) fs_extends_node [of b c q m] by (simp add: only_chunks_added_def)
    with a q(2) Some show ?thesis by (simp add: only_chunks_added_def)
  qed
  with a b show ?thesis unfolding only_chunks_added_def by (blast intro: fs_extends_trans)
qed

lemma verify_chunk_bytes_iff:
  "verify_chunk_bytes X bs hash len = Inr u \<longleftrightarrow> length bs = unat len \<and> cx_blake3_hex X bs = hash"
  by (auto simp: verify_chunk_bytes_def)

lemma persist_chunk_cases:
  "persist_chunk disk now fs dir hash bs = (r, fs') \<Longrightarrow>
     ((\<exists>e. r = Inl e) \<and> fs' = fs) \<or>
     (r = Inr () \<and> chunk_path dir hash \<notin> dom fs \<and> fs' = fs(chunk_path dir hash \<mapsto> Regular bs now))"
  by (simp add: persist_chunk_def split: if_splits) auto

lemma receive_chunk_verified:
  "receive_chunk X hash len s = Inr (bs, s') \<Longrightarrow> length bs = unat len \<and> cx_blake3_hex X bs = hash"
  by (auto simp: receive_chunk_def Let_def verify_chunk_bytes_iff)

definition chunk_stored :: "cdc_ext \<Rightarrow> file_system \<Rightarrow> string \<Rightarrow> string \<times> u32 \<Rightarrow> bool" where
  "chunk_stored X fs dir need \<longleftrightarrow> (\<exists>bs t. fs (chunk_path dir (fst need)) = Some (Regular bs t)
     \<and> length bs = unat (snd need) \<and> cx_blake3_hex X bs = fst need)"

lemma chunk_stored_mono: "chunk_stored X fs dir need \<Longrightarrow> fs_extends fs fs' \<Longrightarrow> chunk_stored X fs' dir need"
  unfolding chunk_stored_def using fs_extends_node by metis

lemma fetch_chunks_safe:
  assumes "fetch_chunks X disk send now dir pending counts s fs out = (r, fs', out')"
  shows "only_chunks_added X dir fs fs' \<and> (is_ok r \<longrightarrow> (\<forall>need\<in>set pending. chunk_stored X fs' dir need))"
  using assms
proof (induction pending arbitrary: counts s fs out)
  case Nil
  then show ?case by auto
next
  case (Cons need pending)
  obtain hash len where need: "need = (hash, len)" by force
  show ?case
  proof (cases "\<exists>e out1. fetch_chunks X disk send now dir ((hash, len) # pending) counts s fs out = (Inl e, fs, out1)")
    case True
    with Cons.prems need show ?thesis by auto
  next
    case False
    then obtain bs s1 r1 fs1 out1 where step: "receive_chunk X hash len s = Inr (bs, s1)"
      "persist_chunk disk now fs dir hash bs = (r1, fs1)"
      "fetch_chunks X disk send now dir (need # pending) counts s fs out =
        (case r1 of Inl e \<Rightarrow> (Inl e, fs1, out1)
         | Inr _ \<Rightarrow> fetch_chunks X disk send now dir pending (fst counts + 1, snd counts + word_of_nat (length bs)) s1 fs1 out1)"
      unfolding need
      by (auto simp: Let_def split: sum.splits if_splits option.splits prod.splits)
    from receive_chunk_verified [OF step(1)] have bs: "length bs = unat len" "cx_blake3_hex X bs = hash" by auto
    show ?thesis
    proof (cases r1)
      case (Inl e)
      with step(3) Cons.prems persist_chunk_cases [OF step(2)] show ?thesis by auto
    next
      case (Inr u)
      with persist_chunk_cases [OF step(2)] have p: "r1 = Inr ()" "chunk_path dir hash \<notin> dom fs" "fs1 = fs(chunk_path dir hash \<mapsto> Regular bs now)"
        by auto
      have rest: "fetch_chunks X disk send now dir pending (fst counts + 1, snd counts + word_of_nat (length bs)) s1 fs1 out1
          = (r, fs', out')" using step(3) p(1) Cons.prems by simp
      note IH = Cons.IH [OF rest]
      have add: "only_chunks_added X dir fs fs1"
        using p(2,3) bs(2) by (auto simp: only_chunks_added_def fs_extends_def split: if_splits)
      have "chunk_stored X fs1 dir need" using p(3) bs need by (simp add: chunk_stored_def)
      then have "chunk_stored X fs' dir need"
        using IH by (auto intro: chunk_stored_mono simp: only_chunks_added_def)
      with IH only_chunks_added_trans [OF add] show ?thesis by auto
    qed
  qed
qed

lemma need_chunks_fold:
  assumes "try_fold (need_chunk X db fs) (n, needed) cs = Inr (n', needed')"
  shows "set needed \<subseteq> set needed' \<and> set needed' \<subseteq> set needed \<union> (\<lambda>c. (ck_hash c, ck_length c)) ` set cs \<and>
    (distinct needed \<longrightarrow> distinct needed') \<and>
    (\<forall>c\<in>set cs. indexed_now X db fs c \<or> (ck_hash c, ck_length c) \<in> set needed')"
  using assms
proof (induction cs arbitrary: n needed)
  case Nil
  then show ?case by simp
next
  case (Cons c cs)
  then obtain found where found: "lookup_chunk X db (fs_metadata fs) (ck_hash c) (ck_length c) = Inr found"
    by (auto simp: need_chunk_def)
  show ?case
  proof (cases found)
    case None
    let ?needed = "if (ck_hash c, ck_length c) \<in> set needed then needed else needed @ [(ck_hash c, ck_length c)]"
    have "need_chunk X db fs (n, needed) c = Inr (n + 1, ?needed)"
      using found None by (simp add: need_chunk_def)
    then have "try_fold (need_chunk X db fs) (n + 1, ?needed) cs = Inr (n', needed')"
      using Cons.prems by simp
    from Cons.IH [OF this] show ?thesis by (auto split: if_splits)
  next
    case (Some loc)
    then have "need_chunk X db fs (n, needed) c = Inr (n, needed)"
      using found by (simp add: need_chunk_def)
    then have "try_fold (need_chunk X db fs) (n, needed) cs = Inr (n', needed')"
      using Cons.prems by simp
    from Cons.IH [OF this] lookup_indexed_now [OF found [unfolded Some]] show ?thesis by auto
  qed
qed

lemma check_existing_fold:
  assumes "try_fold (check_existing X fs dir) (n, pending) needed = Inr (n', pending')"
  shows "set pending' \<subseteq> set pending \<union> set needed \<and> set pending \<subseteq> set pending' \<and>
    (\<forall>need\<in>set needed. need \<in> set pending' \<or> chunk_stored X fs dir need) \<and>
    (\<forall>need\<in>set pending'. need \<in> set pending \<or> chunk_path dir (fst need) \<notin> dom fs)"
  using assms
proof (induction needed arbitrary: n pending)
  case Nil
  then show ?case by simp
next
  case (Cons need needed)
  obtain hash len where need: "need = (hash, len)" by force
  show ?case
  proof (cases "chunk_path dir hash \<in> dom fs")
    case True
    with Cons.prems obtain acc where acc: "check_existing X fs dir (n, pending) need = Inr acc"
      "try_fold (check_existing X fs dir) acc needed = Inr (n', pending')" by auto
    with True need obtain bs where "fs_read fs (chunk_path dir hash) = Inr bs"
      "verify_chunk_bytes X bs hash len = Inr ()"
      "acc = (n + 1, pending)"
      by (auto simp: check_existing_def)
    moreover from this acc(2) have rest: "try_fold (check_existing X fs dir) (n + 1, pending) needed = Inr (n', pending')"
      by simp
    ultimately have "chunk_stored X fs dir need"
      by (auto simp: chunk_stored_def need fs_read_Inr verify_chunk_bytes_iff)
    with Cons.IH [OF rest] show ?thesis by auto
  next
    case False
    then have "check_existing X fs dir (n, pending) need = Inr (n, pending @ [need])"
      using need by (simp add: check_existing_def)
    then have rest: "try_fold (check_existing X fs dir) (n, pending @ [need]) needed = Inr (n', pending')"
      using Cons.prems by simp
    from Cons.IH [OF rest] False need show ?thesis by auto
  qed
qed

lemma fetch_missing_chunks_safe:
  assumes "fetch_missing_chunks X db disk send now d peer dir fs = (r, fs', out)"
  shows "only_chunks_added X dir fs fs' \<and>
    (is_ok r \<longrightarrow> (\<forall>c\<in>set (td_chunks d). indexed_now X db fs' c \<or> chunk_stored X fs' dir (ck_hash c, ck_length c)))"
proof (cases "is_ok r")
  case False
  show ?thesis
  proof (cases "fs' = fs")
    case True
    with False show ?thesis by simp
  next
    case changed: False
    with assms obtain pending s r1 where "fetch_chunks X disk send now dir pending (0, 0) s fs PROTOCOL_MAGIC = (r1, fs', out)"
      by (auto simp: fetch_missing_chunks_def Let_def split: sum.splits prod.splits if_splits)
    from fetch_chunks_safe [OF this] False show ?thesis by simp
  qed
next
  case True
  then obtain n needed existing pending where
    f: "try_fold (need_chunk X db fs) (0, []) (td_chunks d) = Inr (n, needed)"
      "try_fold (check_existing X fs dir) (0, []) needed = Inr (existing, pending)"
    and rest: "(pending = [] \<and> fs' = fs) \<or>
      (\<exists>s a b. fetch_chunks X disk send now dir pending (0, 0) s fs PROTOCOL_MAGIC = (Inr (a, b), fs', out))"
    using assms
    unfolding fetch_missing_chunks_def Let_def is_ok_iff
    by (clarsimp split: sum.splits prod.splits if_splits) blast+
  have safe: "only_chunks_added X dir fs fs' \<and> (\<forall>need\<in>set pending. chunk_stored X fs' dir need)"
    using rest fetch_chunks_safe by fastforce
  then have ext: "fs_extends fs fs'" by (simp add: only_chunks_added_def)
  have "indexed_now X db fs' c \<or> chunk_stored X fs' dir (ck_hash c, ck_length c)" if "c \<in> set (td_chunks d)" for c
    using need_chunks_fold [OF f(1)] check_existing_fold [OF f(2)] safe that
      indexed_now_mono [OF _ ext] chunk_stored_mono [OF _ ext] by blast
  with safe show ?thesis by simp
qed

section \<open>The server is bounded and answers in order\<close>

lemma count_response_requests [simp]: "cn_requests (count_response response r) = cn_requests r"
  by (simp add: count_response_def split: sum.splits)

lemma serve_requests_cases:
  obtains (fail) e out1 where "serve_requests X fs dir limit send r out s = (Inl e, out1)"
    | (stop) "serve_requests X fs dir limit send r out s = (Inr r, out)"
    | (go) response out1 s1 where "\<And>l. limit = Some l \<Longrightarrow> cn_requests r < l" "length s1 < length s"
        "serve_requests X fs dir limit send r out s =
           serve_requests X fs dir limit send (count_response response (r\<lparr>cn_requests := cn_requests r + 1\<rparr>)) out1 s1"
proof (cases "case limit of None \<Rightarrow> False | Some l \<Rightarrow> l \<le> cn_requests r")
  case True
  then show ?thesis by (intro stop) (simp add: serve_requests.simps [of X fs dir limit send r out s])
next
  case limit: False
  show ?thesis
  proof (cases "read_exact_or_eof 32 s")
    case (Inl e)
    with limit show ?thesis by (intro fail [of e out]) (simp add: serve_requests.simps [of X fs dir limit send r out s])
  next
    case first: (Inr hs)
    obtain h s1 where hs: "hs = (h, s1)" by force
    show ?thesis
    proof (cases h)
      case None
      with limit first hs show ?thesis
        by (intro stop) (simp add: serve_requests.simps [of X fs dir limit send r out s])
    next
      case h: (Some hb)
      show ?thesis
      proof (cases "read_exact 4 s1")
        case (Inl e)
        with limit first hs h show ?thesis
          by (intro fail [of e out]) (simp add: serve_requests.simps [of X fs dir limit send r out s])
      next
        case second: (Inr ls)
        obtain lb s2 where ls: "ls = (lb, s2)" by force
        have short: "length s2 < length s"
          using read_exact_or_eof_shrinks [of 32 s hb s1] read_exact_shrinks [of 4 s1 lb s2] first hs h second ls
          by simp
        let ?response = "load_verified_chunk X fs dir (cx_hex_encode X hb) (word_of_nat (be_nat lb))"
        show ?thesis
        proof (cases "send (cn_requests r)")
          case None
          with limit first hs h second ls short show ?thesis
            by (intro go [of s2 ?response "out @ response_message ?response"])
               (auto simp: serve_requests.simps [of X fs dir limit send r out s] Let_def split: option.splits)
        next
          case (Some en)
          with limit first hs h second ls show ?thesis
            by (intro fail [of "Io (fst en)" "out @ take (snd en) (response_message ?response)"])
               (auto simp: serve_requests.simps [of X fs dir limit send r out s] Let_def split: prod.splits)
        qed
      qed
    qed
  qed
qed

lemma serve_requests_bounded:
  "serve_requests X fs dir (Some l) send r out s = (Inr r', out') \<Longrightarrow>
   unat (cn_requests r) \<le> unat l \<Longrightarrow> unat (cn_requests r') \<le> unat l"
proof (induction "length s" arbitrary: r out s rule: less_induct)
  case less
  show ?case
  proof (rule serve_requests_cases [of X fs dir "Some l" send r out s])
    fix e out1 assume "serve_requests X fs dir (Some l) send r out s = (Inl e, out1)"
    with less.prems show ?thesis by simp
  next
    assume "serve_requests X fs dir (Some l) send r out s = (Inr r, out)"
    with less.prems show ?thesis by simp
  next
    fix response out1 s1
    assume go: "\<And>k. Some l = Some k \<Longrightarrow> cn_requests r < k" "length s1 < length s"
        "serve_requests X fs dir (Some l) send r out s =
           serve_requests X fs dir (Some l) send (count_response response (r\<lparr>cn_requests := cn_requests r + 1\<rparr>)) out1 s1"
    then have "cn_requests r < l" by blast
    then have "unat (cn_requests r + 1) \<le> unat l"
      using unat_u64_bound [of l] by (simp add: word_less_nat_alt unat_word_ariths)
    with less.hyps [OF go(2)] go(3) less.prems(1) show ?thesis by simp
  qed
qed

lemma serve_connection_bounded:
  "serve_connection X fs dir (Some l) send s = (Inr r, out) \<Longrightarrow> unat (cn_requests r) \<le> unat l"
  by (auto simp: serve_connection_def default_connection_def split: sum.splits option.splits if_splits
      elim!: serve_requests_bounded)

lemma serve_loop_bounded:
  "serve_loop X fs dir (Some m) r clients = Some (Inr r') \<Longrightarrow>
   unat (sv_requests_received r) \<le> unat m \<Longrightarrow> unat (sv_requests_received r') \<le> unat m"
proof (induction clients arbitrary: r)
  case Nil
  then show ?case by (auto simp: serve_loop.simps [of X fs dir "Some m"] split: if_splits)
next
  case (Cons client clients)
  show ?case
  proof (cases "m \<le> sv_requests_received r")
    case True
    with Cons.prems show ?thesis by (simp add: serve_loop.simps [of X fs dir "Some m" r])
  next
    case less: False
    then obtain s send where client: "client = Inr (s, send)"
      using Cons.prems by (cases client) (auto simp: serve_loop.simps [of X fs dir "Some m" r])
    let ?conn = "fst (serve_connection X fs dir (Some (m - sv_requests_received r)) send s)"
    let ?r1 = "count_connection (r\<lparr>sv_connections := sv_connections r + 1\<rparr>) ?conn"
    have run: "serve_loop X fs dir (Some m) ?r1 clients = Some (Inr r')"
      using Cons.prems(1) less client by (simp add: serve_loop.simps [of X fs dir "Some m" r] Let_def)
    have "unat (sv_requests_received ?r1) \<le> unat m"
    proof (cases ?conn)
      case (Inl e)
      with Cons.prems(2) show ?thesis by (simp add: count_connection_def)
    next
      case (Inr c)
      then obtain out where "serve_connection X fs dir (Some (m - sv_requests_received r)) send s = (Inr c, out)"
        by (cases "serve_connection X fs dir (Some (m - sv_requests_received r)) send s") auto
      from serve_connection_bounded [OF this] Cons.prems(2)
      have "unat (sv_requests_received r) + unat (cn_requests c) \<le> unat m"
        by (simp add: unat_sub word_le_nat_alt)
      moreover from this have "unat (sv_requests_received r + cn_requests c) = unat (sv_requests_received r) + unat (cn_requests c)"
        using le_less_trans [OF _ unat_u64_bound [of m]] by (simp add: unat_word_ariths)
      ultimately show ?thesis using Inr by (simp add: count_connection_def)
    qed
    with Cons.IH [OF run] show ?thesis .
  qed
qed

section \<open>A client and a server together\<close>

text \<open>The server's answer to a request, and its answers to a list of requests.\<close>

definition answer :: "cdc_ext \<Rightarrow> file_system \<Rightarrow> string \<Rightarrow> bytes \<times> u32 \<Rightarrow> bytes" where
  "answer X fs dir q = response_message (load_verified_chunk X fs dir (cx_hex_encode X (fst q)) (snd q))"

definition requests :: "(bytes \<times> u32) list \<Rightarrow> bytes" where
  "requests qs = concat (map (\<lambda>q. request_bytes (fst q) (snd q)) qs)"

lemma u32_be [simp]: "word_of_nat (be_nat (be_bytes 4 (unat (w :: u32)))) = w"
proof -
  have "unat w < 256 ^ 4" using unat_u32_bound [of w] by simp
  then show ?thesis by (simp add: be_nat_be_bytes)
qed

lemma serve_requests_answers:
  assumes "\<And>q. q \<in> set qs \<Longrightarrow> length (fst q) = 32"
  shows "\<exists>r'. serve_requests X fs dir None (\<lambda>_. None) r out (stream_of (requests qs)) =
    (Inr r', out @ concat (map (answer X fs dir) qs))"
  using assms
proof (induction qs arbitrary: r out)
  case Nil
  have "read_exact_or_eof 32 [] = Inr (None, [])" by (simp add: numeral_eq_Suc)
  then show ?case by (subst serve_requests.simps) (simp add: requests_def)
next
  case (Cons q qs)
  have len: "length (fst q) = 32" using Cons.prems by simp
  have first: "read_exact_or_eof 32 (stream_of (requests (q # qs))) =
      Inr (Some (fst q), stream_of (be_bytes 4 (unat (snd q))) @ stream_of (requests qs))"
    using read_exact_or_eof_stream_n [of 32 "fst q"] len by (simp add: requests_def request_bytes_def)
  have second: "read_exact 4 (stream_of (be_bytes 4 (unat (snd q))) @ stream_of (requests qs)) =
      Inr (be_bytes 4 (unat (snd q)), stream_of (requests qs))"
    by (rule read_exact_stream_n) simp
  have "serve_requests X fs dir None (\<lambda>_. None) r out (stream_of (requests (q # qs))) =
    serve_requests X fs dir None (\<lambda>_. None)
      (count_response (load_verified_chunk X fs dir (cx_hex_encode X (fst q)) (snd q)) (r\<lparr>cn_requests := cn_requests r + 1\<rparr>))
      (out @ answer X fs dir q) (stream_of (requests qs))"
    by (subst serve_requests.simps) (simp add: first second Let_def answer_def)
  moreover have "\<And>p. p \<in> set qs \<Longrightarrow> length (fst p) = 32" using Cons.prems by simp
  note Cons.IH [OF this, of "count_response (load_verified_chunk X fs dir (cx_hex_encode X (fst q)) (snd q)) (r\<lparr>cn_requests := cn_requests r + 1\<rparr>)"
      "out @ answer X fs dir q"]
  ultimately show ?case by simp
qed

lemma load_verified_chunk_stored:
  assumes "fs (chunk_path dir hash) = Some (Regular bs t)" and "length bs = unat len" and "cx_blake3_hex X bs = hash"
    and "0 < unat len" and "len \<le> MAX_CHUNK_BYTES"
  shows "load_verified_chunk X fs dir hash len = Inr bs"
proof -
  have "(word_of_nat (unat len) :: u64) = ucast len"
    by (simp add: word_unat_eq_iff unat_of_nat_u64 [OF less_trans [OF unat_u32_bound]])
  with assms show ?thesis
    by (auto simp: load_verified_chunk_def fs_metadata_def fs_read_def verify_chunk_bytes_def unat_gt_0 Let_def not_less)
qed

lemma receive_answer:
  assumes "length bs = unat len" and "cx_blake3_hex X bs = hash" and "len \<le> MAX_CHUNK_BYTES"
  shows "receive_chunk X hash len (stream_of (response_message (Inr bs)) @ s) = Inr (bs, s)"
proof -
  have "stream_of (response_message (Inr bs)) @ s =
      stream_of [STATUS_OK] @ stream_of (be_bytes 4 (unat len)) @ stream_of bs @ s"
    using assms(1) by (simp add: response_message_def stream_of_def)
  moreover have "read_exact 1 (stream_of [STATUS_OK] @ x) = Inr ([STATUS_OK], x)" for x
    by (rule read_exact_stream_n) simp
  moreover have "read_exact 4 (stream_of (be_bytes 4 (unat len)) @ x) = Inr (be_bytes 4 (unat len), x)" for x
    by (rule read_exact_stream_n) simp
  moreover have "read_exact (unat len) (stream_of bs @ s) = Inr (bs, s)"
    using assms(1) by (intro read_exact_stream_n) simp
  ultimately show ?thesis
    using assms by (simp add: receive_chunk_def Let_def verify_chunk_bytes_def not_less)
qed

text \<open>
  A client whose pending chunks are all in the server's directory, under distinct hashes and new to
  the client, fetches them all from the server's answers to its own requests.
\<close>

lemma fetch_chunks_served:
  assumes "\<And>need. need \<in> set pending \<Longrightarrow> chunk_stored X sfs sdir need \<and> 0 < unat (snd need) \<and>
      snd need \<le> MAX_CHUNK_BYTES \<and> (\<exists>hb. length hb = 32 \<and> fst need = cx_hex_encode X hb) \<and>
      chunk_path dir (fst need) \<notin> dom fs"
    and "distinct (map fst pending)" and ok: "cdc_ext_ok X"
  obtains qs fs' counts where "\<And>q. q \<in> set qs \<Longrightarrow> length (fst q) = 32"
    "fetch_chunks X (\<lambda>_. None) (\<lambda>_. None) now dir pending counts0
       (stream_of (concat (map (answer X sfs sdir) qs))) fs out = (Inr counts, fs', out @ requests qs)"
proof -
  have "\<exists>qs fs' counts. (\<forall>q\<in>set qs. length (fst q) = 32) \<and>
    fetch_chunks X (\<lambda>_. None) (\<lambda>_. None) now dir pending counts0
       (stream_of (concat (map (answer X sfs sdir) qs))) fs out = (Inr counts, fs', out @ requests qs)"
    using assms(1,2)
  proof (induction pending arbitrary: counts0 fs out)
    case Nil
    show ?case by (rule exI [of _ "[]"]) (simp add: requests_def)
  next
    case (Cons need pending)
    obtain hash len where need: "need = (hash, len)" by force
    have "chunk_stored X sfs sdir (hash, len)" "0 < unat len" "len \<le> MAX_CHUNK_BYTES"
      "\<exists>hb. length hb = 32 \<and> hash = cx_hex_encode X hb" "chunk_path dir hash \<notin> dom fs"
      using Cons.prems(1) [of need] need by auto
    then obtain bs t hb where
      n: "sfs (chunk_path sdir hash) = Some (Regular bs t)" "length bs = unat len" "cx_blake3_hex X bs = hash"
        "0 < unat len" "len \<le> MAX_CHUNK_BYTES" "length hb = 32" "hash = cx_hex_encode X hb"
        "chunk_path dir hash \<notin> dom fs"
      unfolding chunk_stored_def by (metis fst_conv snd_conv)
    let ?fs = "fs(chunk_path dir hash \<mapsto> Regular bs now)"
    have paths: "chunk_path dir h = chunk_path dir h' \<longleftrightarrow> h = h'" for h h' by (simp add: chunk_path_def)
    have prem: "chunk_stored X sfs sdir m \<and> 0 < unat (snd m) \<and>
          snd m \<le> MAX_CHUNK_BYTES \<and> (\<exists>hb. length hb = 32 \<and> fst m = cx_hex_encode X hb) \<and>
          chunk_path dir (fst m) \<notin> dom ?fs" if m: "m \<in> set pending" for m
    proof -
      have "fst m \<noteq> hash" using Cons.prems(2) need m by auto
      with Cons.prems(1) [of m] m show ?thesis by (simp add: paths)
    qed
    have "distinct (map fst pending)" using Cons.prems(2) by simp
    from Cons.IH [OF prem this, of "(fst counts0 + 1, snd counts0 + word_of_nat (length bs))" "out @ request_bytes hb len"]
    obtain qs fs' counts where qs: "\<forall>q\<in>set qs. length (fst q) = 32"
      "fetch_chunks X (\<lambda>_. None) (\<lambda>_. None) now dir pending (fst counts0 + 1, snd counts0 + word_of_nat (length bs))
         (stream_of (concat (map (answer X sfs sdir) qs))) ?fs (out @ request_bytes hb len) =
           (Inr counts, fs', (out @ request_bytes hb len) @ requests qs)" by blast
    have ans: "answer X sfs sdir (hb, len) = response_message (Inr bs)"
      using load_verified_chunk_stored [where fs = sfs and dir = sdir and hash = hash, OF n(1-5)] n(7) by (simp add: answer_def)
    have "cx_hex_decode X hash = Inr hb" using ok n(7) by (simp add: cdc_ext_ok_def)
    moreover have "persist_chunk (\<lambda>_. None) now fs dir hash bs = (Inr (), ?fs)"
      using n(8) by (simp add: persist_chunk_def)
    ultimately have "fetch_chunks X (\<lambda>_. None) (\<lambda>_. None) now dir (need # pending) counts0
        (stream_of (concat (map (answer X sfs sdir) ((hb, len) # qs)))) fs out = (Inr counts, fs', out @ requests ((hb, len) # qs))"
      using receive_answer [OF n(2,3,5)] n(6) qs(2) by (simp add: need ans requests_def)
    with qs(1) n(6) show ?case
      by - (rule exI [of _ "(hb, len) # qs"], rule exI [of _ fs'], rule exI [of _ counts], simp)
  qed
  with that show thesis by blast
qed

lemma need_chunks_total:
  assumes "times_ok fs" and "\<And>c. c \<in> set cs \<Longrightarrow> is_ok (cx_hex_decode X (ck_hash c))"
  shows "\<exists>n needed. try_fold (need_chunk X db fs) acc cs = Inr (n, needed)"
  using assms(2)
proof (induction cs arbitrary: acc)
  case Nil
  then show ?case by (cases acc) simp
next
  case (Cons c cs)
  have "is_ok (lookup_chunk X db (fs_metadata fs) (ck_hash c) (ck_length c))"
    using assms(1) Cons.prems [of c] by (intro lookup_chunk_ok) (auto simp: times_ok_def)
  then obtain found where "lookup_chunk X db (fs_metadata fs) (ck_hash c) (ck_length c) = Inr found"
    unfolding is_ok_iff by blast
  then have "need_chunk X db fs acc c = Inr (if found \<noteq> None then acc
      else (fst acc + 1, if (ck_hash c, ck_length c) \<in> set (snd acc) then snd acc
               else snd acc @ [(ck_hash c, ck_length c)]))"
    by (simp add: need_chunk_def)
  then obtain acc1 where acc1: "need_chunk X db fs acc c = Inr acc1" by blast
  have "\<exists>n needed. try_fold (need_chunk X db fs) acc1 cs = Inr (n, needed)"
    using Cons.prems by (intro Cons.IH) simp
  with acc1 show ?case by simp
qed

lemma check_existing_none:
  assumes "\<And>need. need \<in> set needed \<Longrightarrow> chunk_path dir (fst need) \<notin> dom fs"
  shows "try_fold (check_existing X fs dir) (n, pending) needed = Inr (n, pending @ needed)"
  using assms
proof (induction needed arbitrary: pending)
  case Nil
  then show ?case by simp
next
  case (Cons need needed)
  have "check_existing X fs dir (n, pending) need = Inr (n, pending @ [need])"
    using Cons.prems [of need] by (cases need) (simp add: check_existing_def)
  with Cons show ?case by simp
qed

lemma file_record_facts:
  assumes ok: "cdc_ext_ok X" and p: "profile_validate p = Inr ()" and c: "c \<in> set (file_records (cx_blake3_hex X) p T)"
  obtains tc where "tc \<in> set (cdc_chunks p T)" "chunk_holds X c tc" "0 < unat (ck_length c)" "ck_length c \<le> max_size p"
    "is_ok (cx_hex_decode X (ck_hash c))" "\<exists>hb. length hb = 32 \<and> ck_hash c = cx_hex_encode X hb"
proof -
  obtain tc where tc: "tc \<in> set (cdc_chunks p T)" "chunk_holds X c tc"
    using file_records_hold [OF p, of X T] c by (metis in_set_conv_nth list_all2_conv_all_nth)
  have "0 < unat (max_size p)" using p by (simp add: profile_validate_iff)
  then have "ck_length c \<le> max_size p" "0 < unat (ck_length c)"
    using cdc_chunks_max [of p tc T] cdc_chunks_nonempty [OF tc(1)] tc
    by (auto simp: chunk_holds_def word_le_nat_alt length_greater_0_conv [symmetric] simp del: length_greater_0_conv)
  moreover have "is_ok (cx_hex_decode X (ck_hash c))"
    using hex_digest_blake3 [OF ok, of tc] tc(2) by (simp add: chunk_holds_def hex_digest_def)
  moreover have "\<exists>hb. length hb = 32 \<and> ck_hash c = cx_hex_encode X hb"
    using ok tc(2) unfolding cdc_ext_ok_def chunk_holds_def by metis
  ultimately show ?thesis using tc that by blast
qed

lemma distinct_hashes:
  assumes "distinct ns" and "\<And>a b. a \<in> set ns \<Longrightarrow> b \<in> set ns \<Longrightarrow> fst a = fst b \<Longrightarrow> snd a = snd b"
  shows "distinct (map fst ns)"
proof -
  have "inj_on fst (set ns)"
  proof (rule inj_onI)
    fix a b assume ab: "a \<in> set ns" "b \<in> set ns" "fst a = fst b"
    from ab(3) assms(2) [OF ab] show "a = b" by (rule prod_eqI)
  qed
  with assms(1) show ?thesis by (simp add: distinct_map)
qed

lemma fetch_served_helper:
  assumes ok: "cdc_ext_ok X" "profile_validate p = Inr ()" and small: "max_size p \<le> MAX_CHUNK_BYTES"
    and T: "length T < 2 ^ 64"
    and server: "\<And>c. c \<in> set (file_records (cx_blake3_hex X) p T) \<Longrightarrow> chunk_stored X sfs sdir (ck_hash c, ck_length c)"
    and client: "ensure_profile X db p = Inr ()" "times_ok fs"
      "\<And>c. c \<in> set (file_records (cx_blake3_hex X) p T) \<Longrightarrow> chunk_path dir (ck_hash c) \<notin> dom fs"
    and inj: "inj_on (cx_blake3_hex X) (set (cdc_chunks p T))"
  shows "\<exists>report fs' sent served answers.
    fetch_missing_chunks X db (\<lambda>_. None) (\<lambda>_. None) now (descriptor_of X p name T) (Inr (stream_of answers)) dir fs
      = (Inr report, fs', sent) \<and>
    serve_connection X sfs sdir None (\<lambda>_. None) (stream_of sent) = (Inr served, answers)"
proof -
  let ?d = "descriptor_of X p name T" and ?cs = "file_records (cx_blake3_hex X) p T"
  have d: "td_chunks ?d = ?cs" "td_profile ?d = p" by (simp_all add: descriptor_of_def)
  have valid: "td_validate X ?d = Inr ()" by (rule descriptor_of_valid [OF ok T])
  have "is_ok (cx_hex_decode X (ck_hash c))" if "c \<in> set ?cs" for c
    by (rule file_record_facts [OF ok that])
  from need_chunks_total [OF client(2) this, where acc = "(0, [])" and db = db]
  obtain n needed where needed: "try_fold (need_chunk X db fs) (0, []) ?cs = Inr (n, needed)" by blast
  from need_chunks_fold [OF needed] have sub: "set needed \<subseteq> (\<lambda>c. (ck_hash c, ck_length c)) ` set ?cs" "distinct needed" by auto
  have "chunk_path dir (fst m) \<notin> dom fs" if "m \<in> set needed" for m
  proof -
    from sub(1) that obtain c where "c \<in> set ?cs" "fst m = ck_hash c" by auto
    with client(3) show ?thesis by simp
  qed
  from check_existing_none [OF this] have existing: "try_fold (check_existing X fs dir) (0, []) needed = Inr (0, needed)" by simp
  have facts: "chunk_stored X sfs sdir m \<and> 0 < unat (snd m) \<and> snd m \<le> MAX_CHUNK_BYTES \<and>
      (\<exists>hb. length hb = 32 \<and> fst m = cx_hex_encode X hb) \<and> chunk_path dir (fst m) \<notin> dom fs" if m: "m \<in> set needed" for m
  proof -
    from sub(1) m obtain c where c: "c \<in> set ?cs" "m = (ck_hash c, ck_length c)" by auto
    from file_record_facts [OF ok c(1)] have "0 < unat (ck_length c)" "ck_length c \<le> max_size p"
      "\<exists>hb. length hb = 32 \<and> ck_hash c = cx_hex_encode X hb" by blast+
    with c server [OF c(1)] client(3) [OF c(1)] small show ?thesis by auto
  qed
  have "snd a = snd b" if ab: "a \<in> set needed" "b \<in> set needed" "fst a = fst b" for a b
  proof -
    from sub(1) ab obtain ca cb where c: "ca \<in> set ?cs" "a = (ck_hash ca, ck_length ca)"
      "cb \<in> set ?cs" "b = (ck_hash cb, ck_length cb)" by (meson imageE subsetD)
    obtain ta where ta: "ta \<in> set (cdc_chunks p T)" "chunk_holds X ca ta" by (rule file_record_facts [OF ok c(1)])
    obtain tb where tb: "tb \<in> set (cdc_chunks p T)" "chunk_holds X cb tb" by (rule file_record_facts [OF ok c(3)])
    have "ta = tb" using inj_onD [OF inj _ ta(1) tb(1)] ta(2) tb(2) ab(3) c(2,4) by (simp add: chunk_holds_def)
    with ta(2) tb(2) c(2,4) show ?thesis by (simp add: chunk_holds_def word_unat_eq_iff)
  qed
  then have dist: "distinct (map fst needed)" by (rule distinct_hashes [OF sub(2)])
  show ?thesis
  proof (cases "needed = []")
    case True
    have "serve_connection X sfs sdir None (\<lambda>_. None) (stream_of []) = (Inr default_connection, [])"
      by (simp add: serve_connection_def numeral_eq_Suc)
    with True show ?thesis
      by (intro exI [of _ "[]"] exI) (simp add: fetch_missing_chunks_def valid d client(1) needed existing)
  next
    case False
    obtain qs fs' counts where qs: "\<And>q. q \<in> set qs \<Longrightarrow> length (fst q) = 32"
      "fetch_chunks X (\<lambda>_. None) (\<lambda>_. None) now dir needed (0, 0)
         (stream_of (concat (map (answer X sfs sdir) qs))) fs PROTOCOL_MAGIC = (Inr counts, fs', PROTOCOL_MAGIC @ requests qs)"
      by (rule fetch_chunks_served [OF facts dist ok(1), where now = now and ?counts0.0 = "(0, 0)" and out = PROTOCOL_MAGIC])
         (assumption, rule that)
    have "read_exact_or_eof 5 (stream_of PROTOCOL_MAGIC @ stream_of (requests qs)) = Inr (Some PROTOCOL_MAGIC, stream_of (requests qs))"
      by (rule read_exact_or_eof_stream_n) (simp add: PROTOCOL_MAGIC_def)
    then obtain served where "serve_connection X sfs sdir None (\<lambda>_. None) (stream_of (PROTOCOL_MAGIC @ requests qs))
        = (Inr served, concat (map (answer X sfs sdir) qs))"
      using serve_requests_answers [OF qs(1), where X = X and fs = sfs and dir = sdir and r = default_connection and out = "[]"]
      by (auto simp: serve_connection_def)
    moreover obtain report where "fetch_missing_chunks X db (\<lambda>_. None) (\<lambda>_. None) now ?d
        (Inr (stream_of (concat (map (answer X sfs sdir) qs)))) dir fs = (Inr report, fs', PROTOCOL_MAGIC @ requests qs)"
      using False by (cases counts) (simp add: fetch_missing_chunks_def valid d client(1) needed existing qs(2))
    ultimately show ?thesis by blast
  qed
qed

end
