(* ===== verification/Cdc_Instance.thy ===== *)
theory Cdc_Instance
  imports Smd_Instance Cdc_Transfer
begin

text \<open>
  A concrete instance of the third-party record \<open>cdc_ext\<close>, at which the theorems with the hypothesis
  \<open>cdc_ext_ok\<close> are instantiated, and small files to try the operations on. It shows that the
  hypothesis can hold; it does not stand for the crates.
\<close>

definition inst_blake3 :: "bytes \<Rightarrow> string" where
  "inst_blake3 bs = inst_hex_encode (pad_to 31 bs @ [word_of_nat (length bs)])"

definition inst_profile_bytes :: "chunk_profile \<Rightarrow> bytes" where
  "inst_profile_bytes p =
     be_bytes 4 (unat (min_size p)) @ be_bytes 4 (unat (avg_size p)) @ be_bytes 4 (unat (max_size p))"

definition inst_profile :: "chunk_profile \<Rightarrow> string" where
  "inst_profile p = inst_hex_encode (inst_profile_bytes p)"

definition inst_profile_parse :: "bytes \<Rightarrow> chunk_profile" where
  "inst_profile_parse bs = \<lparr>min_size = word_of_nat (be_nat (take 4 bs)),
     avg_size = word_of_nat (be_nat (take 4 (drop 4 bs))),
     max_size = word_of_nat (be_nat (take 4 (drop 8 bs)))\<rparr>"

fun inst_chunks :: "chunk_record list \<Rightarrow> bytes" where
  "inst_chunks [] = [0]"
| "inst_chunks (c # cs) = 1 # inst_word (ck_offset c) @ inst_word (ck_length c) @ inst_str (ck_hash c) @ inst_chunks cs"

fun inst_unchunks :: "nat \<Rightarrow> bytes \<Rightarrow> chunk_record list" where
  "inst_unchunks (Suc n) (t # bs) =
     (if t = 1 then
        (let (off, bs) = inst_unword bs; (len, bs) = inst_unword bs; (hash, bs) = inst_unstr bs
         in \<lparr>ck_offset = off, ck_length = len, ck_hash = hash\<rparr> # inst_unchunks n bs)
      else [])"
| "inst_unchunks n bs = []"

definition inst_descriptor :: "target_descriptor \<Rightarrow> bytes" where
  "inst_descriptor d = inst_str (td_format d) @ inst_word (td_version d) @ inst_str (td_chunk_algorithm d)
     @ inst_profile_bytes (td_profile d) @ inst_str (ti_name (td_target d)) @ inst_word (ti_size (td_target d))
     @ inst_str (ti_sha256 (td_target d)) @ inst_chunks (td_chunks d)"

definition inst_descriptor_parse :: "bytes \<Rightarrow> target_descriptor result" where
  "inst_descriptor_parse bs =
     (let (fmt, bs) = inst_unstr bs; (version, bs) = inst_unword bs; (algorithm, bs) = inst_unstr bs;
          (p, bs) = (inst_profile_parse bs, drop 12 bs); (name, bs) = inst_unstr bs;
          (size, bs) = inst_unword bs; (sha, bs) = inst_unstr bs
      in Inr \<lparr>td_format = fmt, td_version = version, td_chunk_algorithm = algorithm, td_profile = p,
           td_target = \<lparr>ti_name = name, ti_size = size, ti_sha256 = sha\<rparr>,
           td_chunks = inst_unchunks (length bs) bs\<rparr>)"

definition inst_cdc :: cdc_ext where
  "inst_cdc = \<lparr>cx_sha256 = pad_to 32, cx_hex_encode = inst_hex_encode, cx_hex_decode = inst_hex_decode,
     cx_blake3_hex = inst_blake3, cx_json_profile = (\<lambda>p. Inr (inst_profile p)),
     cx_json_descriptor = (\<lambda>d. Inr (inst_descriptor d)), cx_json_descriptor_parse = inst_descriptor_parse\<rparr>"

lemma inst_profile_round_trip [simp]: "inst_profile_parse (inst_profile_bytes p @ bs) = p"
proof -
  have "unat (w :: u32) < 256 ^ 4" for w using unat_u32_bound [of w] by simp
  then show ?thesis
    by (simp add: inst_profile_parse_def inst_profile_bytes_def be_nat_be_bytes)
qed

lemma inst_profile_inj: "inst_profile p = inst_profile q \<Longrightarrow> p = q"
  unfolding inst_profile_def
  by (metis inst_hex_round_trip inst_profile_round_trip append_Nil2 sum.inject(2))

lemma length_inst_profile_bytes [simp]: "length (inst_profile_bytes p) = 12"
  by (simp add: inst_profile_bytes_def)

lemma inst_chunks_length: "length cs < length (inst_chunks cs)"
  by (induction cs) auto

lemma inst_unchunks_chunks: "length cs < n \<Longrightarrow> inst_unchunks n (inst_chunks cs) = cs"
proof (induction cs arbitrary: n)
  case Nil
  then show ?case by (cases n) simp_all
next
  case (Cons c cs)
  then obtain m where "n = Suc m" "length cs < m" by (cases n) auto
  with Cons.IH show ?case by simp
qed

lemma inst_descriptor_round_trip: "inst_descriptor_parse (inst_descriptor d) = Inr d"
  by (simp add: inst_descriptor_parse_def inst_descriptor_def inst_unchunks_chunks inst_chunks_length)

lemma inst_cdc_ok: "cdc_ext_ok inst_cdc"
proof -
  have "\<exists>d. length d = 32 \<and> inst_blake3 b = inst_hex_encode d" for b
    by (intro exI [of _ "pad_to 31 b @ [word_of_nat (length b)]"]) (simp add: inst_blake3_def)
  then show ?thesis
    by (auto simp: cdc_ext_ok_def inst_cdc_def inst_descriptor_round_trip dest: inst_profile_inj)
qed

section \<open>Small files\<close>

definition tiny_profile :: chunk_profile where
  "tiny_profile = \<lparr>min_size = 1, avg_size = 2, max_size = 4\<rparr>"

lemma tiny_profile_valid: "profile_validate tiny_profile = Inr ()"
  by (simp add: profile_validate_iff tiny_profile_def is_power_of_two_def)

text \<open>A one-byte file is one chunk, whatever the gear hash.\<close>

lemma cdc_chunks_single [simp]: "cdc_chunks p [b] = [[b]]"
  by (simp add: cdc_chunks_step Let_def)

end
