(* ===== verification/Cdc_Locality.thy ===== *)
theory Cdc_Locality
  imports Cdc_Chunker "HOL-Library.Sublist"
begin

text \<open>
  Why content-defined chunking finds unchanged data again. The cuts of a file depend on the hash of the bytes since
  the last cut, so in principle on everything before. \<open>anchor\<close> describes, from its bytes alone, a stretch of
  content at whose end every file that contains it is cut, whatever stands before and after it; an edit therefore
  changes only the chunks from the one it falls into to the next anchor.
\<close>

section \<open>Stability of the cuts\<close>

text \<open>The low bits of the hash only see the last bytes.\<close>

lemma gear_step_diff: "gear_step g b - gear_step g' b = 2 * (g - g')"
  by (simp add: gear_step_def push_bit_eq_mult)

lemma gear_fold_diff:
  "foldl gear_step g bs - foldl gear_step g' bs = 2 ^ length bs * (g - g')"
proof (induction bs arbitrary: g g')
  case Nil
  then show ?case by simp
next
  case (Cons b bs)
  have "foldl gear_step g (b # bs) - foldl gear_step g' (b # bs) =
      2 ^ length bs * (gear_step g b - gear_step g' b)" by (simp add: Cons.IH)
  also have "\<dots> = 2 ^ length (b # bs) * (g - g')" by (simp only: gear_step_diff power_Suc list.size(4) add_Suc_right add_0_right mult_ac)
  finally show ?case .
qed

text \<open>Once two cut sequences meet they never part again.\<close>

lemma first_cut_append:
  "first_cut p g n bs < n + length bs \<Longrightarrow> first_cut p g n (bs @ ds) = first_cut p g n bs"
  by (induction p g n bs rule: first_cut.induct) (auto simp: Let_def)

lemma cdc_chunks_split:
  assumes "cdc_chunks p bs = xs @ ys"
  shows "cdc_chunks p (concat ys) = ys"
  using assms
proof (induction xs arbitrary: bs)
  case Nil
  then show ?case by (metis append_Nil concat_cdc_chunks)
next
  case (Cons x xs)
  then have "bs \<noteq> []" by auto
  with Cons show ?case by (auto simp: cdc_chunks_step)
qed

text \<open>Appending to a file leaves all its chunks but the last as they are.\<close>

lemma cdc_chunks_append:
  "\<exists>zs. cdc_chunks p (bs @ ds) = butlast (cdc_chunks p bs) @ zs"
proof (induction p bs rule: cdc_chunks.induct)
  case (1 p bs)
  show ?case
  proof (cases "bs = [] \<or> drop (first_cut p 0 0 bs) bs = []")
    case True
    then have "butlast (cdc_chunks p bs) = []" by (cases "bs = []") (simp_all add: cdc_chunks_step)
    then show ?thesis by simp
  next
    case False
    let ?k = "first_cut p 0 0 bs"
    from False have bs: "bs \<noteq> []" "?k < length bs" by auto
    then have "cdc_chunks p (bs @ ds) = take ?k bs # cdc_chunks p (drop ?k bs @ ds)"
      by (simp add: cdc_chunks_step first_cut_append)
    with "1.IH" [OF bs(1) refl] False show ?thesis
      by (auto simp: cdc_chunks_step [OF bs(1)])
  qed
qed

section \<open>The masks and the hash of a window\<close>

lemma dvd_iff_take_bit: "2 ^ m dvd unat (g :: u64) \<longleftrightarrow> take_bit m g = 0"
  by (metis take_bit_eq_0_iff unsigned_take_bit_eq unsigned_eq_0_iff)

lemma low_mask_iff: "g AND (push_bit m 1 - 1) = 0 \<longleftrightarrow> 2 ^ m dvd unat (g :: u64)"
  by (simp add: dvd_iff_take_bit take_bit_eq_mask mask_eq_exp_minus_1 push_bit_eq_mult)

text \<open>A power of two is the one its trailing zeros say.\<close>

lemma trailing_zeros_from_dvd: "2 ^ trailing_zeros_from k v dvd v"
  by (induction k v rule: trailing_zeros_from.induct) (auto simp: odd_iff_mod_2_eq_one elim!: evenE)

lemma trailing_zeros_from_odd: "0 < v \<Longrightarrow> v < 2 ^ k \<Longrightarrow> odd (v div 2 ^ trailing_zeros_from k v)"
  by (induction k v rule: trailing_zeros_from.induct) (auto simp: div_mult2_eq elim!: evenE)

lemma power_of_two_unat:
  assumes "is_power_of_two w"
  shows "unat w = 2 ^ trailing_zeros w"
proof -
  have w: "0 < unat w" "unat w < 2 ^ 32" using assms unat_u32_bound [of w] by (simp_all add: is_power_of_two_def unat_gt_0)
  define t where "t = trailing_zeros w"
  define d where "d = unat w div 2 ^ t"
  have d: "unat w = d * 2 ^ t" "odd d"
    using trailing_zeros_from_dvd [of 32 "unat w"] trailing_zeros_from_odd [OF w] by (simp_all add: d_def t_def trailing_zeros_def)
  have "unat w AND (unat w - 1) = 0"
    using assms w(1) by (metis is_power_of_two_def unat_minus_one unsigned_0 unsigned_and_eq)
  then have "drop_bit t (unat w) AND drop_bit t (unat w - 1) = 0" by (metis drop_bit_and drop_bit_of_0)
  moreover have "drop_bit t (unat w) = d" by (simp add: d(1) drop_bit_eq_div)
  moreover have "drop_bit t (unat w - 1) = d - 1"
  proof -
    define r :: nat where "r = 2 ^ t - 1"
    have r: "r < 2 ^ t" by (simp add: r_def)
    have "unat w - 1 = r + (d - 1) * 2 ^ t" using d by (cases d) (simp_all add: r_def)
    with r show ?thesis by (simp add: drop_bit_eq_div)
  qed
  ultimately have "d AND (d - 1) = 0" by simp
  moreover obtain b where b: "d = 1 + 2 * b" using d(2) by (auto elim: oddE)
  have "bit (1 + 2 * b) n \<longleftrightarrow> bit (2 * b) n \<or> n = 0" for n by (rule even_bit_succ_iff) simp
  then have "(1 + 2 * b) AND (2 * b) = 2 * b" by (intro bit_eqI) (auto simp: bit_and_iff)
  then have "d AND (d - 1) = d - 1" by (simp add: b)
  ultimately have "d = 1" using d(2) by (cases d) auto
  then show ?thesis using d(1) by (simp add: t_def)
qed

text \<open>The two masks of a valid profile ask for a hash divisible by twice and by half the average size.\<close>

lemma valid_average:
  assumes "profile_validate p = Inr ()"
  obtains k where "unat (avg_size p) = 2 ^ Suc k" "trailing_zeros (avg_size p) = Suc k" "Suc k < 32"
proof -
  have avg: "unat (avg_size p) = 2 ^ trailing_zeros (avg_size p)" "1 < unat (avg_size p)"
    using assms power_of_two_unat by (auto simp: profile_validate_iff)
  then have "trailing_zeros (avg_size p) \<noteq> 0" by (metis less_irrefl power_0)
  moreover have "(2 :: nat) ^ trailing_zeros (avg_size p) < 2 ^ 32" using avg(1) unat_u32_bound [of "avg_size p"] by simp
  then have "trailing_zeros (avg_size p) < 32" by (rule power_less_imp_less_exp [rotated]) simp
  ultimately show thesis using that avg(1) by (metis not0_implies_Suc)
qed

lemma mask_iff:
  assumes "profile_validate p = Inr ()"
  shows "g AND early_mask p = 0 \<longleftrightarrow> 2 * unat (avg_size p) dvd unat g"
    and "g AND late_mask p = 0 \<longleftrightarrow> unat (avg_size p) div 2 dvd unat g"
proof -
  obtain k where k: "unat (avg_size p) = 2 ^ Suc k" "trailing_zeros (avg_size p) = Suc k" by (rule valid_average [OF assms])
  show "g AND early_mask p = 0 \<longleftrightarrow> 2 * unat (avg_size p) dvd unat g"
    using low_mask_iff [of g "Suc (Suc k)"] by (simp add: early_mask_def k)
  show "g AND late_mask p = 0 \<longleftrightarrow> unat (avg_size p) div 2 dvd unat g"
    using low_mask_iff [of g k] by (simp add: late_mask_def k)
qed

text \<open>The hash after a suffix that is long enough agrees with that after the whole in its low bits.\<close>

lemma take_bit_word_add_zero: "take_bit m (b :: u64) = 0 \<Longrightarrow> take_bit m (a + b) = take_bit m a"
  apply transfer
  apply (simp add: take_bit_take_bit)
  apply (subst take_bit_add [symmetric])
  apply simp
  done

lemma gear_window:
  assumes "m \<le> length xs"
  shows "take_bit m (foldl gear_step g (zs @ xs)) = take_bit m (foldl gear_step g' xs)"
proof -
  define d where "d = foldl gear_step g zs - g'"
  have "foldl gear_step g (zs @ xs) = foldl gear_step g' xs + 2 ^ length xs * d"
    using gear_fold_diff [of "foldl gear_step g zs" xs g'] by (simp add: d_def algebra_simps)
  moreover have "take_bit m (2 ^ length xs * d) = 0"
    using assms by (subst take_bit_eq_0_iff) (intro dvd_mult2 le_imp_power_dvd)
  ultimately show ?thesis by (simp add: take_bit_word_add_zero)
qed

section \<open>Where the first chunk ends\<close>

lemma first_cut_at_most:
  "xs \<noteq> [] \<Longrightarrow> is_boundary p (foldl gear_step g xs) (word_of_nat (n + length xs)) \<Longrightarrow>
   first_cut p g n (xs @ ys) \<le> n + length xs"
proof (induction xs arbitrary: g n)
  case (Cons x xs)
  show ?case
  proof (cases "is_boundary p (gear_step g x) (word_of_nat (Suc n)) \<or> xs = []")
    case True
    then show ?thesis using Cons.prems(2) by (auto simp: Let_def simp del: of_nat_Suc)
  next
    case False
    with Cons.IH [of "gear_step g x" "Suc n"] Cons.prems(2) show ?thesis by (simp add: Let_def del: of_nat_Suc)
  qed
qed simp

lemma first_cut_exact:
  "xs \<noteq> [] \<Longrightarrow> is_boundary p (foldl gear_step g xs) (word_of_nat (n + length xs)) \<Longrightarrow>
   (\<And>i. 0 < i \<Longrightarrow> i < length xs \<Longrightarrow> \<not> is_boundary p (foldl gear_step g (take i xs)) (word_of_nat (n + i))) \<Longrightarrow>
   first_cut p g n (xs @ ys) = n + length xs"
proof (induction xs arbitrary: g n)
  case (Cons x xs)
  show ?case
  proof (cases "xs = []")
    case True
    then show ?thesis using Cons.prems(2) by (simp add: Let_def del: of_nat_Suc)
  next
    case False
    have "\<not> is_boundary p (gear_step g x) (word_of_nat (Suc n))" using Cons.prems(3) [of 1] False by simp
    moreover have "first_cut p (gear_step g x) (Suc n) (xs @ ys) = Suc n + length xs"
      using Cons.prems(2) Cons.prems(3) [of "Suc i" for i] by (intro Cons.IH [OF False]) simp_all
    ultimately show ?thesis by (simp add: Let_def del: of_nat_Suc)
  qed
qed simp

section \<open>Anchors\<close>

text \<open>
  Candidates are read off the content: what the gear hash of the bytes up to a position, taken from any
  start far enough before it, has to be divisible by depends on the length of the chunk that would end there.
\<close>

definition candidate :: "nat \<Rightarrow> bytes \<Rightarrow> bool" where
  "candidate d bs \<longleftrightarrow> d dvd unat (foldl gear_step 0 bs)"

definition cut_divisor :: "chunk_profile \<Rightarrow> nat \<Rightarrow> nat" where
  "cut_divisor p n = (if n < unat (avg_size p) then 2 * unat (avg_size p) else unat (avg_size p) div 2)"

text \<open>
  An anchor \<open>v @ w\<close>: a candidate for every length at the end of \<open>v\<close>, so that a chunk starts within the minimum size
  before it or right there; then no candidate for such a chunk, until there is one at the end of \<open>w\<close>.
\<close>

definition anchor :: "chunk_profile \<Rightarrow> bytes \<Rightarrow> bytes \<Rightarrow> bool" where
  "anchor p v w \<longleftrightarrow>
     2 * unat (avg_size p) \<le> 2 ^ length v \<and> candidate (2 * unat (avg_size p)) v \<and>
     unat (min_size p) \<le> length w \<and> length w + unat (min_size p) \<le> unat (max_size p) \<and>
     list_all (\<lambda>i. \<not> candidate (cut_divisor p (i + unat (min_size p) - 1)) (v @ take i w)) [1..<length w] \<and>
     candidate (cut_divisor p (length w)) (v @ w)"

lemma candidate_suffix:
  assumes "suffix xs ys" "m \<le> length xs"
  shows "candidate (2 ^ m) ys \<longleftrightarrow> candidate (2 ^ m) xs"
proof -
  obtain zs where "ys = zs @ xs" using assms(1) by (auto simp: suffix_def)
  with gear_window [OF assms(2), of 0 zs 0] show ?thesis by (simp add: candidate_def dvd_iff_take_bit)
qed

lemma is_boundary_iff:
  assumes "profile_validate p = Inr ()" "n < unat (max_size p)"
  shows "is_boundary p (foldl gear_step 0 bs) (word_of_nat n) \<longleftrightarrow> unat (min_size p) \<le> n \<and> candidate (cut_divisor p n) bs"
proof -
  have "n < 4294967296" using assms(2) unat_u32_bound [of "max_size p"] by linarith
  then have "unat (word_of_nat n :: u32) = n" by (rule unat_of_nat_u32)
  with assms(2) show ?thesis
    by (simp add: is_boundary_def Let_def word_le_nat_alt word_less_nat_alt candidate_def cut_divisor_def mask_iff [OF assms(1)])
qed

lemma cut_divisor_mono:
  "profile_validate p = Inr () \<Longrightarrow> n \<le> n' \<Longrightarrow> cut_divisor p n' dvd cut_divisor p n"
  by (rule valid_average [of p]) (auto simp: cut_divisor_def)

lemma candidate_dvd: "d dvd d' \<Longrightarrow> candidate d' bs \<Longrightarrow> candidate d bs"
  unfolding candidate_def by (rule dvd_trans)

text \<open>The candidates of a content do not depend on where the chunk starts.\<close>

lemma candidate_shared:
  assumes "profile_validate p = Inr ()" "suffix xs zs" "suffix ys zs"
    and "2 * unat (avg_size p) \<le> 2 ^ length xs" "2 * unat (avg_size p) \<le> 2 ^ length ys"
  shows "candidate (cut_divisor p n) xs \<longleftrightarrow> candidate (cut_divisor p n) ys"
    and "candidate (2 * unat (avg_size p)) xs \<longleftrightarrow> candidate (2 * unat (avg_size p)) ys"
proof -
  obtain k where k: "unat (avg_size p) = 2 ^ Suc k" by (rule valid_average [OF assms(1)])
  then have len: "Suc (Suc k) \<le> length xs" "Suc (Suc k) \<le> length ys"
    using assms(4,5) by (metis power_Suc power_increasing_iff one_less_numeral_iff semiring_norm(76))+
  have same: "candidate (2 ^ m) xs \<longleftrightarrow> candidate (2 ^ m) ys" if "m \<le> Suc (Suc k)" for m
    using candidate_suffix [OF assms(2), of m] candidate_suffix [OF assms(3), of m] len that by simp
  show "candidate (2 * unat (avg_size p)) xs \<longleftrightarrow> candidate (2 * unat (avg_size p)) ys"
    using same [of "Suc (Suc k)"] by (simp add: k)
  show "candidate (cut_divisor p n) xs \<longleftrightarrow> candidate (cut_divisor p n) ys"
    using same [of "Suc (Suc k)"] same [of k] by (simp add: k cut_divisor_def)
qed

lemma anchorD:
  assumes "anchor p v w"
  shows "2 * unat (avg_size p) \<le> 2 ^ length v" "candidate (2 * unat (avg_size p)) v"
    "unat (min_size p) \<le> length w" "length w + unat (min_size p) \<le> unat (max_size p)"
    "candidate (cut_divisor p (length w)) (v @ w)"
    "0 < i \<Longrightarrow> i < length w \<Longrightarrow> \<not> candidate (cut_divisor p (i + unat (min_size p) - 1)) (v @ take i w)"
  using assms by (auto simp: anchor_def list_all_iff)

text \<open>The profiles the theorem is about: a chunk of the minimum size fills the window of the masks.\<close>

definition wide :: "chunk_profile \<Rightarrow> bool" where
  "wide p \<longleftrightarrow> 2 * unat (avg_size p) \<le> 2 ^ unat (min_size p)"

lemma wide_power: "wide p \<Longrightarrow> unat (min_size p) \<le> n \<Longrightarrow> 2 * unat (avg_size p) \<le> 2 ^ n"
  unfolding wide_def by (meson le_trans one_le_numeral power_increasing)

text \<open>A chunk that starts less than the minimum size before the end of \<open>v\<close> is cut at the end of \<open>w\<close> and not before.\<close>

lemma boundary_in_anchor:
  assumes p: "profile_validate p = Inr ()" "wide p" and anchor: "anchor p v w"
    and r: "suffix r (a @ v)" "length r < unat (min_size p)" and i: "i \<le> length w"
  shows "is_boundary p (foldl gear_step 0 (r @ take i w)) (word_of_nat (length r + i)) \<longleftrightarrow>
    unat (min_size p) \<le> length r + i \<and> candidate (cut_divisor p (length r + i)) (v @ take i w)"
proof -
  have "suffix (r @ take i w) ((a @ v) @ take i w)" "suffix (v @ take i w) ((a @ v) @ take i w)"
    using r(1) by (simp_all add: suffix_def)
  moreover have "2 * unat (avg_size p) \<le> 2 ^ length (v @ take i w)"
    using anchorD(1) [OF anchor] by (rule le_trans) (simp add: power_increasing)
  ultimately have "candidate (cut_divisor p (length r + i)) (r @ take i w) \<longleftrightarrow> candidate (cut_divisor p (length r + i)) (v @ take i w)"
    if "unat (min_size p) \<le> length r + i"
    using that i wide_power [OF p(2), of "length r + i"] by (intro candidate_shared(1) [OF p(1)]) simp_all
  with is_boundary_iff [OF p(1), of "length r + i" "r @ take i w"] i r(2) anchorD(4) [OF anchor] show ?thesis by auto
qed

lemma cut_at_anchor:
  assumes p: "profile_validate p = Inr ()" "wide p" and anchor: "anchor p v w"
    and r: "suffix r (a @ v)" "length r < unat (min_size p)"
  shows "first_cut p 0 0 (r @ w @ t) = length (r @ w)"
proof -
  note w = anchorD(3,4) [OF anchor] and step = boundary_in_anchor [OF assms]
  have "\<not> is_boundary p (foldl gear_step 0 (take i (r @ w))) (word_of_nat i)" if "0 < i" "i < length (r @ w)" for i
  proof (cases "i \<le> length r")
    case True
    with r(2) w that show ?thesis by (subst is_boundary_iff [OF p(1)]) auto
  next
    case False
    let ?j = "i - length r"
    have j: "0 < ?j" "?j < length w" using False that by auto
    have "cut_divisor p (?j + unat (min_size p) - 1) dvd cut_divisor p i"
      using False r(2) by (intro cut_divisor_mono [OF p(1)]) simp
    then have "\<not> candidate (cut_divisor p i) (v @ take ?j w)"
      using anchorD(6) [OF anchor j] candidate_dvd by blast
    with step [of ?j] False j show ?thesis by simp
  qed
  moreover have "is_boundary p (foldl gear_step 0 (r @ w)) (word_of_nat (length (r @ w)))"
    using step [of "length w"] w(1) anchorD(5) [OF anchor]
      candidate_dvd [OF cut_divisor_mono [OF p(1), of "length w" "length r + length w"]] by simp
  moreover have "r @ w \<noteq> []" using p(1) w(1) by (auto simp: profile_validate_iff)
  ultimately show ?thesis using first_cut_exact [of "r @ w" p 0 0 t] by simp
qed

text \<open>One that starts earlier ends before.\<close>

lemma cut_before_anchor:
  assumes p: "profile_validate p = Inr ()" "wide p" and anchor: "anchor p v w"
    and r: "suffix r (a @ v)" "unat (min_size p) \<le> length r"
  shows "first_cut p 0 0 (r @ s) \<le> length r"
proof (cases "length r < unat (max_size p)")
  case True
  have "candidate (2 * unat (avg_size p)) r"
    using candidate_shared(2) [OF p(1) r(1), of v] anchorD(1,2) [OF anchor] wide_power [OF p(2) r(2)] by (simp add: suffix_def)
  then have "candidate (cut_divisor p (length r)) r"
    by (rule candidate_dvd [rotated]) (rule valid_average [OF p(1)], simp add: cut_divisor_def)
  then have "is_boundary p (foldl gear_step 0 r) (word_of_nat (length r))"
    using is_boundary_iff [OF p(1) True] r(2) by simp
  moreover have "r \<noteq> []" using p(1) r(2) by (auto simp: profile_validate_iff)
  ultimately show ?thesis using first_cut_at_most [of r p 0 0 s] by simp
next
  case False
  with first_cut_max [of 0 p 0 "r @ s"] p(1) show ?thesis by (simp add: profile_validate_iff)
qed

text \<open>So every file is cut at the end of an anchor.\<close>

lemma anchor_cut_from:
  assumes p: "profile_validate p = Inr ()" "wide p" and anchor: "anchor p v w" and r: "suffix r (a @ v)"
  shows "\<exists>xs. cdc_chunks p (r @ w @ t) = xs @ cdc_chunks p t \<and> concat xs = r @ w"
  using r
proof (induction r rule: length_induct)
  case (1 r)
  let ?n = "first_cut p 0 0 (r @ w @ t)"
  have ne: "r @ w @ t \<noteq> []" using p(1) anchorD(3) [OF anchor] by (auto simp: profile_validate_iff)
  show ?case
  proof (cases "length r < unat (min_size p)")
    case True
    from cut_at_anchor [OF assms(1-3) "1.prems" True, of t] ne have "cdc_chunks p (r @ w @ t) = [r @ w] @ cdc_chunks p t"
      by (simp add: cdc_chunks_step)
    then show ?thesis by (intro exI [of _ "[r @ w]"]) simp
  next
    case False
    then have n: "0 < ?n" "?n \<le> length r"
      using first_cut_pos [OF ne] cut_before_anchor [OF assms(1-3) "1.prems", of "w @ t"] by simp_all
    then have "length (drop ?n r) < length r" by simp
    moreover have "suffix (drop ?n r) (a @ v)" using "1.prems" suffix_drop suffix_order.trans by blast
    ultimately obtain xs where xs: "cdc_chunks p (drop ?n r @ w @ t) = xs @ cdc_chunks p t" "concat xs = drop ?n r @ w"
      using "1.IH" by blast
    with n(2) ne have "cdc_chunks p (r @ w @ t) = (take ?n r # xs) @ cdc_chunks p t" by (simp add: cdc_chunks_step)
    with xs(2) show ?thesis by (intro exI [of _ "take ?n r # xs"]) simp
  qed
qed

text \<open>What stands before the last chunk of a prefix, and what stands after the anchor, is chunked by itself.\<close>

lemma chunks_around_anchor:
  assumes "profile_validate p = Inr ()" "wide p" "anchor p v w"
  obtains xs where "cdc_chunks p (a @ x @ v @ w @ t) = butlast (cdc_chunks p a) @ xs @ cdc_chunks p t"
    "concat (butlast (cdc_chunks p a)) @ concat xs = a @ x @ v @ w" "length (concat xs) \<le> unat (max_size p) + length (x @ v @ w)"
proof -
  let ?B = "butlast (cdc_chunks p a)"
  obtain zs where zs: "cdc_chunks p (a @ x @ v @ w @ t) = ?B @ zs" using cdc_chunks_append by blast
  have a: "a = concat ?B @ concat (drop (length ?B) (cdc_chunks p a))"
    by (metis append_butlast_last_id append_eq_conv_conj butlast.simps(1) concat_append concat_cdc_chunks append.right_neutral append_take_drop_id butlast_conv_take)
  let ?l = "concat (drop (length ?B) (cdc_chunks p a))"
  have "?B @ zs = cdc_chunks p (concat ?B @ ?l @ x @ v @ w @ t)" using zs a by (metis append.assoc)
  then have "concat zs = ?l @ x @ v @ w @ t"
    by (metis concat_append concat_cdc_chunks same_append_eq)
  moreover have "cdc_chunks p (concat zs) = zs" using cdc_chunks_split [OF zs] .
  moreover obtain xs where xs: "cdc_chunks p ((?l @ x @ v) @ w @ t) = xs @ cdc_chunks p t" "concat xs = (?l @ x @ v) @ w"
    using anchor_cut_from [OF assms, of "(?l @ x) @ v" "?l @ x" t] by auto
  ultimately have "zs = xs @ cdc_chunks p t" by simp
  moreover have "length ?l \<le> unat (max_size p)"
    using cdc_chunks_max [of p _ a] assms(1) by (cases "cdc_chunks p a" rule: rev_cases) (auto simp: profile_validate_iff)
  ultimately show thesis using that [of xs] zs xs(2) a by (metis append.assoc length_append add_le_mono1)
qed

text \<open>The profiles of the program are wide.\<close>

lemma wideI: "unat (avg_size p) = 2 ^ k \<Longrightarrow> k < unat (min_size p) \<Longrightarrow> wide p"
  unfolding wide_def by (metis Suc_leI one_le_numeral power_Suc power_increasing)

lemma named_profiles_wide:
  assumes "profile_named name = Inr p"
  shows "profile_validate p = Inr ()" "wide p"
proof -
  show "profile_validate p = Inr ()"
    using assms by (auto simp: profile_named_def and_then_def Let_def split: sum.splits if_splits)
  have "p \<in> {\<lparr>min_size = 8 * 1024, avg_size = 32 * 1024, max_size = 128 * 1024\<rparr>,
      \<lparr>min_size = 16 * 1024, avg_size = 64 * 1024, max_size = 256 * 1024\<rparr>,
      \<lparr>min_size = 64 * 1024, avg_size = 256 * 1024, max_size = 1024 * 1024\<rparr>}"
    using assms by (auto simp: profile_named_def and_then_def Let_def split: sum.splits if_splits)
  then show "wide p"
    using wideI [of p 15] wideI [of p 16] wideI [of p 18] by auto
qed

text \<open>A small profile with a concrete anchor.\<close>

definition sync_profile :: chunk_profile where
  "sync_profile = \<lparr>min_size = 3, avg_size = 4, max_size = 8\<rparr>"

lemma sync_profile_valid: "profile_validate sync_profile = Inr ()" "wide sync_profile"
  by (simp_all add: sync_profile_def profile_validate_iff is_power_of_two_def wide_def)

lemma splitmix_values:
  "splitmix64 0x6a09e667f3bcc909 = 0x63cfc62a2b097592"
  "splitmix64 0x63cfc62a2b097592 = 0x96dcb1d7126a6eba"
  "splitmix64 0x96dcb1d7126a6eba = 0x25046eca5c3a7054"
  "splitmix64 0x25046eca5c3a7054 = 0x6b4b1bc5f6d5abdc"
  "splitmix64 0x6b4b1bc5f6d5abdc = 0x7d19c361a3548205"
  by (simp_all add: splitmix64_def Let_def)

lemma gear_values:
  "GEAR_TABLE ! 0 = 0x63cfc62a2b097592" "GEAR_TABLE ! 2 = 0x25046eca5c3a7054" "GEAR_TABLE ! 4 = 0x7d19c361a3548205"
proof -
  have "gear_entries (Suc n) s = splitmix64 s # gear_entries n (splitmix64 s)" for n s by (simp add: Let_def)
  moreover have "256 = Suc (Suc (Suc (Suc (Suc 251))))" by simp
  ultimately have table: "GEAR_TABLE = 0x63cfc62a2b097592 # 0x96dcb1d7126a6eba # 0x25046eca5c3a7054 # 0x6b4b1bc5f6d5abdc #
      0x7d19c361a3548205 # gear_entries 251 0x7d19c361a3548205"
    unfolding GEAR_TABLE_def by (simp only: splitmix_values)
  then show "GEAR_TABLE ! 0 = 0x63cfc62a2b097592" "GEAR_TABLE ! 2 = 0x25046eca5c3a7054" "GEAR_TABLE ! 4 = 0x7d19c361a3548205"
    by (simp_all add: table)
qed

lemma sync_anchor: "anchor sync_profile [0, 0, 2] [0, 4, 4, 2]"
  by (simp add: anchor_def sync_profile_def candidate_def cut_divisor_def gear_step_def gear_values upt_conv_Cons)

section \<open>Anchors exist\<close>

text \<open>
  From one byte with an even and one with an odd entry in the table, every number of low bits of the hash can be
  made zero; after a byte with an odd entry the hash is odd, so that nothing is a candidate.
\<close>

lemma candidate_power: "candidate (2 ^ m) bs \<longleftrightarrow> 2 ^ m dvd foldl gear_step 0 bs"
  by (simp add: candidate_def dvd_iff_take_bit take_bit_eq_0_iff)

lemma gear_Cons: "foldl gear_step 0 (b # bs) = foldl gear_step 0 bs + 2 ^ length bs * GEAR_TABLE ! unat b"
  using gear_fold_diff [of "gear_step 0 b" bs 0] by (simp add: gear_step_def algebra_simps)

lemma candidates_exist: "\<exists>bs. length bs = m \<and> candidate (2 ^ m) bs"
proof (induction m)
  case 0
  then show ?case by (simp add: candidate_def)
next
  case (Suc m)
  then obtain bs c where bs: "length bs = m" "foldl gear_step 0 bs = 2 ^ m * c" by (auto simp: candidate_power dvd_def)
  define b :: u8 where "b = (if even c then 0 else 4)"
  have "even (c + GEAR_TABLE ! unat b)" by (simp add: b_def gear_values)
  then obtain d where "c + GEAR_TABLE ! unat b = 2 * d" by (rule evenE)
  moreover have "foldl gear_step 0 (b # bs) = 2 ^ m * (c + GEAR_TABLE ! unat b)"
    unfolding gear_Cons bs by (simp only: distrib_left)
  ultimately have "foldl gear_step 0 (b # bs) = 2 ^ Suc m * d" by (simp only: power_Suc mult_ac)
  with bs(1) show ?case unfolding candidate_power by (intro exI [of _ "b # bs"]) simp
qed

lemma not_candidate_odd: "even d \<Longrightarrow> \<not> candidate d (bs @ [4])"
proof
  assume "even d" "candidate d (bs @ [4])"
  then have "candidate (2 ^ 1) (bs @ [4])" using candidate_dvd [of 2 d] by simp
  then show False unfolding candidate_power by (simp add: gear_step_def gear_values push_bit_eq_mult)
qed

lemma anchors_exist:
  assumes p: "profile_validate p = Inr ()" and avg: "4 \<le> unat (avg_size p)"
    and room: "unat (avg_size p) + unat (min_size p) + 32 \<le> unat (max_size p)"
  shows "\<exists>v w. anchor p v w"
proof -
  obtain k where k: "unat (avg_size p) = 2 ^ Suc k" "Suc k < 32" by (rule valid_average [OF p])
  have half: "unat (avg_size p) div 2 = 2 ^ k" "even ((2 :: nat) ^ k)" using avg by (cases k; simp add: k(1))+
  obtain v where v: "length v = Suc (Suc k)" "candidate (2 ^ Suc (Suc k)) v" using candidates_exist by blast
  obtain u where u: "length u = k" "candidate (2 ^ k) u" using candidates_exist by blast
  define full where "full = replicate (unat (avg_size p)) 4 @ u"
  define hit where "hit i \<longleftrightarrow> unat (avg_size p) \<le> i \<and> candidate (2 ^ k) (v @ take i full)" for i
  have "hit (length full)" using candidate_suffix [of u "v @ full" k] u by (simp add: hit_def full_def suffix_def)
  then have least: "hit (LEAST i. hit i)" "(LEAST i. hit i) \<le> length full" by (rule LeastI, rule Least_le)
  define n where "n = (LEAST i. hit i)"
  have n: "hit n" "n \<le> length full" using least by (simp_all only: n_def)
  have none: "\<not> candidate (cut_divisor p (i + unat (min_size p) - 1)) (v @ take i full)" if "0 < i" "i < n" for i
  proof (cases "i \<le> unat (avg_size p)")
    case True
    then have "take i full = replicate (i - 1) 4 @ [4]"
      using that(1) by (simp add: full_def replicate_append_same flip: replicate_Suc)
    then show ?thesis using not_candidate_odd [of _ "v @ replicate (i - 1) 4"] half by (simp add: cut_divisor_def)
  next
    case False
    then have "\<not> i + unat (min_size p) - 1 < unat (avg_size p)" by linarith
    then have "cut_divisor p (i + unat (min_size p) - 1) = 2 ^ k" using half(1) by (simp add: cut_divisor_def)
    moreover have "\<not> hit i" using not_less_Least that(2) unfolding n_def .
    ultimately show ?thesis using False by (simp add: hit_def)
  qed
  have len: "length (take n full) = n" using n(2) by simp
  have "length full = unat (avg_size p) + k" using u(1) by (simp add: full_def)
  then have bounds: "unat (min_size p) \<le> n" "n + unat (min_size p) \<le> unat (max_size p)"
    using n k(2) room p by (simp_all add: hit_def profile_validate_iff)
  have window: "2 * unat (avg_size p) \<le> 2 ^ length v" "candidate (2 * unat (avg_size p)) v" using v by (simp_all add: k(1))
  have "cut_divisor p n = 2 ^ k" using n(1) half(1) by (simp add: hit_def cut_divisor_def)
  then have last: "candidate (cut_divisor p n) (v @ take n full)" using n(1) by (simp add: hit_def)
  have "anchor p v (take n full)"
    unfolding anchor_def len list_all_iff using window bounds last none by (simp add: min_absorb1)
  then show ?thesis by blast
qed

lemma named_profiles_have_anchors:
  assumes "profile_named name = Inr p"
  shows "\<exists>v w. anchor p v w"
proof (rule anchors_exist [OF named_profiles_wide(1) [OF assms]])
  show "4 \<le> unat (avg_size p)" "unat (avg_size p) + unat (min_size p) + 32 \<le> unat (max_size p)"
    using assms by (auto simp: profile_named_def and_then_def Let_def split: sum.splits if_splits)
qed

end
