(* ===== verification/Cdc_Properties.thy ===== *)
theory Cdc_Properties
  imports Cdc_Instance Cdc_Locality
begin

text \<open>
  The properties of the content-defined delivery half: chunking, descriptors, the index, staging,
  rebuilding and the transfer of chunks, each with an instance at concrete files.
\<close>

section \<open>Auxiliary facts\<close>

lemma compare_chunks_fold:
  assumes "try_fold (compare_chunk X db stat) (m, r, plan) cs = Inr (m', r', plan')"
  shows "\<exists>ps. plan' = plan @ ps \<and>
    list_all2 (\<lambda>c q. pc_offset q = ck_offset c \<and> pc_length q = ck_length c \<and> pc_hash q = ck_hash c \<and>
      lookup_chunk X db stat (ck_hash c) (ck_length c) = Inr (pc_local_source q)) cs ps \<and>
    m' = m + word_of_nat (length (filter (\<lambda>q. pc_local_source q \<noteq> None) ps)) \<and>
    r' = r + word_of_nat (sum_list (map (\<lambda>q. unat (pc_length q)) (filter (\<lambda>q. pc_local_source q \<noteq> None) ps)))"
  using assms
proof (induction cs arbitrary: m r plan)
  case Nil
  then show ?case by simp
next
  case (Cons c cs)
  from Cons.prems obtain acc where acc: "compare_chunk X db stat (m, r, plan) c = Inr acc"
    "try_fold (compare_chunk X db stat) acc cs = Inr (m', r', plan')" by auto
  from acc(1) obtain src where src: "lookup_chunk X db stat (ck_hash c) (ck_length c) = Inr src"
    by (auto simp: compare_chunk_def)
  let ?q = "\<lparr>pc_offset = ck_offset c, pc_length = ck_length c, pc_hash = ck_hash c, pc_local_source = src\<rparr>"
  have w: "(ucast (ck_length c) :: u64) = word_of_nat (unat (ck_length c))"
    by (simp add: word_unat_eq_iff unat_of_nat_u64 [OF less_trans [OF unat_u32_bound]])
  show ?case
  proof (cases src)
    case None
    with acc(1) src have "acc = (m, r, plan @ [?q])" by (simp add: compare_chunk_def)
    with acc(2) have "try_fold (compare_chunk X db stat) (m, r, plan @ [?q]) cs = Inr (m', r', plan')" by simp
    from Cons.IH [OF this] obtain ps where ps: "plan' = (plan @ [?q]) @ ps"
      "list_all2 (\<lambda>c q. pc_offset q = ck_offset c \<and> pc_length q = ck_length c \<and> pc_hash q = ck_hash c \<and>
        lookup_chunk X db stat (ck_hash c) (ck_length c) = Inr (pc_local_source q)) cs ps"
      "m' = m + word_of_nat (length (filter (\<lambda>q. pc_local_source q \<noteq> None) ps))"
      "r' = r + word_of_nat (sum_list (map (\<lambda>q. unat (pc_length q)) (filter (\<lambda>q. pc_local_source q \<noteq> None) ps)))"
      by blast
    with None src show ?thesis by (intro exI [of _ "?q # ps"]) simp
  next
    case (Some loc)
    with acc(1) src have "acc = (m + 1, r + ucast (ck_length c), plan @ [?q])" by (simp add: compare_chunk_def)
    with acc(2) have "try_fold (compare_chunk X db stat) (m + 1, r + ucast (ck_length c), plan @ [?q]) cs
        = Inr (m', r', plan')" by simp
    from Cons.IH [OF this] obtain ps where ps: "plan' = (plan @ [?q]) @ ps"
      "list_all2 (\<lambda>c q. pc_offset q = ck_offset c \<and> pc_length q = ck_length c \<and> pc_hash q = ck_hash c \<and>
        lookup_chunk X db stat (ck_hash c) (ck_length c) = Inr (pc_local_source q)) cs ps"
      "m' = m + 1 + word_of_nat (length (filter (\<lambda>q. pc_local_source q \<noteq> None) ps))"
      "r' = r + ucast (ck_length c)
         + word_of_nat (sum_list (map (\<lambda>q. unat (pc_length q)) (filter (\<lambda>q. pc_local_source q \<noteq> None) ps)))"
      by blast
    with Some src show ?thesis by (intro exI [of _ "?q # ps"]) (simp add: w add.assoc)
  qed
qed

lemma chunks_tile_count: "chunks_tile off cs e \<Longrightarrow> off + length cs \<le> e"
proof (induction cs arbitrary: off)
  case Nil
  then show ?case by simp
next
  case (Cons c cs)
  then have "off + unat (ck_length c) + length cs \<le> e" "0 < unat (ck_length c)" by simp_all
  then show ?case by simp
qed

section \<open>Chunking\<close>

text \<open>C11: Streaming a file through the chunker, whatever the sizes of the reads, hands the visitor the
  records of the recursive reference definition in order, stops at the visitor's first error, counts
  the chunks and fails when the length the file has at the end is another.\<close>

theorem chunking_matches_reference:
  assumes "profile_validate p = Inr ()" and "[] \<notin> set blocks" and "concat blocks = bs"
    and "reads = map Inr blocks \<or> (\<exists>late. reads = map Inr blocks @ Inr [] # late)"
  shows "visit_file_chunks h p (Inr reads) (Inr expected) visitor v =
    and_then (try_fold visitor v (file_records h p bs)) (\<lambda>v'.
    bail_if (word_of_nat (length bs) \<noteq> expected) ''chunked byte count mismatch''
    (Inr (word_of_nat (length (cdc_chunks p bs)), v')))"
  by (rule visit_file_chunks_records [OF assms])

theorem chunking_matches_reference_witness:
  "visit_file_chunks inst_blake3 tiny_profile (Inr [Inr [7], Inr [], Inr [8]]) (Inr 1) collect_chunk [] =
     Inr (1, [\<lparr>ck_offset = 0, ck_length = 1, ck_hash = inst_blake3 [7]\<rparr>])"
  using chunking_matches_reference [OF tiny_profile_valid, of "[[7]]" "[7]" "[Inr [7], Inr [], Inr [8]]"
      inst_blake3 1 collect_chunk "[]"]
  by (simp add: file_records_def collect_chunk_def)

text \<open>C12: The chunks of a file concatenate to it, none is empty or longer than the maximum size, and
  all but the last have at least the minimum size.\<close>

theorem chunk_sizes_bounded:
  assumes "profile_validate p = Inr ()"
  shows "concat (cdc_chunks p bs) = bs
    \<and> (\<forall>c\<in>set (cdc_chunks p bs). 0 < length c \<and> length c \<le> unat (max_size p))
    \<and> (\<forall>c\<in>set (butlast (cdc_chunks p bs)). unat (min_size p) \<le> length c)"
  using assms cdc_chunks_max [of p _ bs] cdc_chunks_min [of p _ bs] cdc_chunks_nonempty [of _ p bs]
  by (auto simp: profile_validate_iff concat_cdc_chunks)

theorem chunk_sizes_bounded_witness:
  "concat (cdc_chunks tiny_profile [1, 2, 3]) = [1, 2, 3]
    \<and> list_all (\<lambda>c. 0 < length c \<and> length c \<le> 4) (cdc_chunks tiny_profile [1, 2, 3])
    \<and> list_all (\<lambda>c. 1 \<le> length c) (butlast (cdc_chunks tiny_profile [1, 2, 3]))"
  using chunk_sizes_bounded [OF tiny_profile_valid, of "[1, 2, 3]"]
  by (simp add: list_all_iff tiny_profile_def)

text \<open>C13: Edits stay local. An anchor is a stretch of content, described by its own bytes, that any file is cut at the
  end of. When a part \<open>x\<close> of a file is replaced by \<open>y\<close>, with \<open>a\<close> before it and an anchor at any distance after it,
  the chunks of \<open>a\<close> but the last stay, those after the anchor stay, and what changes between is no longer than one
  maximal chunk, the part replaced and the bytes up to the end of the anchor. This holds for every profile whose
  minimum size covers the window of the masks, as that of the named profiles does; those all have anchors.\<close>

theorem chunking_resynchronises:
  assumes "profile_validate p = Inr ()" and "wide p" and "anchor p v w"
  shows "\<exists>old new.
    cdc_chunks p (a @ x @ b @ v @ w @ c) = butlast (cdc_chunks p a) @ old @ cdc_chunks p c \<and>
    cdc_chunks p (a @ y @ b @ v @ w @ c) = butlast (cdc_chunks p a) @ new @ cdc_chunks p c \<and>
    length (concat old) \<le> unat (max_size p) + length (x @ b @ v @ w) \<and>
    length (concat new) \<le> unat (max_size p) + length (y @ b @ v @ w)"
proof -
  obtain old where old: "cdc_chunks p (a @ (x @ b) @ v @ w @ c) = butlast (cdc_chunks p a) @ old @ cdc_chunks p c"
    "length (concat old) \<le> unat (max_size p) + length ((x @ b) @ v @ w)"
    by (rule chunks_around_anchor [OF assms])
  obtain new where new: "cdc_chunks p (a @ (y @ b) @ v @ w @ c) = butlast (cdc_chunks p a) @ new @ cdc_chunks p c"
    "length (concat new) \<le> unat (max_size p) + length ((y @ b) @ v @ w)"
    by (rule chunks_around_anchor [OF assms])
  from old new show ?thesis by (intro exI [of _ old] exI [of _ new]) simp
qed

theorem chunking_resynchronises_witness:
  "(\<exists>old. cdc_chunks sync_profile ([9, 7, 0, 0, 2, 0, 4, 4, 2] @ [5, 5]) = old @ [[5, 5]] \<and> length (concat old) \<le> 16) \<and>
   (\<exists>new. cdc_chunks sync_profile ([9, 1, 2, 7, 0, 0, 2, 0, 4, 4, 2] @ [5, 5]) = new @ [[5, 5]] \<and> length (concat new) \<le> 18) \<and>
   (\<exists>p v w old new. profile_named ''m'' = Inr p \<and> cdc_chunks p ([7] @ v @ w @ [5]) = old @ cdc_chunks p [5] \<and>
      cdc_chunks p ([1, 2] @ v @ w @ [5]) = new @ cdc_chunks p [5])"
proof -
  have "cdc_chunks sync_profile [5, 5] = [[5, 5]]" "butlast (cdc_chunks sync_profile [9]) = []"
    by (simp_all add: cdc_chunks_step is_boundary_def sync_profile_def Let_def word_le_nat_alt)
  moreover have m: "profile_named ''m'' = Inr \<lparr>min_size = 16384, avg_size = 65536, max_size = 262144\<rparr>" by code_simp
  then obtain v w where "anchor \<lparr>min_size = 16384, avg_size = 65536, max_size = 262144\<rparr> v w"
    using named_profiles_have_anchors by blast
  from chunking_resynchronises [OF named_profiles_wide [OF m] this, of "[]" "[7]" "[]" "[5]" "[1, 2]"] m
  have "\<exists>p v w old new. profile_named ''m'' = Inr p \<and> cdc_chunks p ([7] @ v @ w @ [5]) = old @ cdc_chunks p [5] \<and>
      cdc_chunks p ([1, 2] @ v @ w @ [5]) = new @ cdc_chunks p [5]"
    unfolding append_Nil append_assoc [symmetric] by blast
  ultimately show ?thesis
    using chunking_resynchronises [OF sync_profile_valid sync_anchor, of "[9]" "[]" "[7]" "[5, 5]" "[1, 2]"]
    by (auto simp: sync_profile_def)
qed

section \<open>Descriptors\<close>

text \<open>A descriptor is valid exactly when its format, version and algorithm are the known ones, its
  profile is valid, all hashes are 32 bytes of hexadecimal, and its chunks tile the target: they start at
  zero, are non-empty, adjoin and end at its size.\<close>

theorem descriptor_valid_iff_tiling:
  "td_validate X d = Inr () \<longleftrightarrow>
     td_format d = DESCRIPTOR_FORMAT \<and> td_version d = DESCRIPTOR_VERSION \<and>
     td_chunk_algorithm d = CHUNK_ALGORITHM \<and> profile_validate (td_profile d) = Inr () \<and>
     hex_digest X (ti_sha256 (td_target d)) \<and>
     (\<forall>c\<in>set (td_chunks d). hex_digest X (ck_hash c)) \<and>
     chunks_tile 0 (td_chunks d) (unat (ti_size (td_target d)))"
  by (rule td_validate_iff)

theorem descriptor_valid_iff_tiling_witness:
  "td_validate inst_cdc (descriptor_of inst_cdc tiny_profile ''t'' [7]) = Inr () \<and>
     chunks_tile 0 (td_chunks (descriptor_of inst_cdc tiny_profile ''t'' [7])) 1"
proof -
  have "td_validate inst_cdc (descriptor_of inst_cdc tiny_profile ''t'' [7]) = Inr ()"
    by (rule descriptor_of_valid [OF inst_cdc_ok tiny_profile_valid]) simp
  with descriptor_valid_iff_tiling [of inst_cdc "descriptor_of inst_cdc tiny_profile ''t'' [7]"]
  show ?thesis by (simp add: descriptor_of_def)
qed

text \<open>Describing a regular file that does not change meanwhile succeeds with the valid descriptor of
  its content; saved under a new name it loads as itself, and no existing file is touched.\<close>

theorem described_file_round_trip:
  assumes "cdc_ext_ok X" and "profile_validate p = Inr ()" and "steady_view view bs" and "tv_name view = Some name"
    and "path \<notin> dom fs"
  shows "create_descriptor X view p = Inr (descriptor_of X p name bs)
    \<and> td_validate X (descriptor_of X p name bs) = Inr ()
    \<and> (\<exists>fs'. save_descriptor X fs (descriptor_of X p name bs) path = (Inr (), fs')
        \<and> load_descriptor X fs' path = Inr (descriptor_of X p name bs) \<and> (\<forall>q. q \<noteq> path \<longrightarrow> fs' q = fs q))"
proof -
  have c: "create_descriptor X view p = Inr (descriptor_of X p name bs)"
    using create_descriptor_steady [OF assms(1-3)] assms(4) by simp
  then have v: "td_validate X (descriptor_of X p name bs) = Inr ()" by (rule create_descriptor_valid)
  with c save_load_descriptor [OF assms(1) v assms(5)] show ?thesis by blast
qed

definition sample_view :: "bytes \<Rightarrow> target_view" where
  "sample_view bs = \<lparr>tv_name = Some ''t'',
     tv_metadata = Inr \<lparr>fm_is_file = True, fm_len = word_of_nat (length bs), fm_modified = Inr 0\<rparr>,
     tv_reads = Inr [Inr bs, Inr []], tv_end_len = Inr (word_of_nat (length bs)),
     tv_sha_reads = Inr [Inr bs, Inr []]\<rparr>"

lemma single_block: "bs \<noteq> [] \<Longrightarrow> read_blocks [Inr bs, Inr []] bs"
  unfolding read_blocks_def by (intro exI [of _ "[bs]"]) simp

lemma sample_view_steady: "bs \<noteq> [] \<Longrightarrow> length bs < 2 ^ 64 \<Longrightarrow> steady_view (sample_view bs) bs"
  by (simp add: steady_view_def sample_view_def single_block)

theorem described_file_round_trip_witness:
  "create_descriptor inst_cdc (sample_view [7]) tiny_profile = Inr (descriptor_of inst_cdc tiny_profile ''t'' [7])"
  using described_file_round_trip [OF inst_cdc_ok tiny_profile_valid sample_view_steady, of "[7]" "''t''" "''d''" Map.empty]
  by (simp add: sample_view_def)

section \<open>The index\<close>

text \<open>C14: In every index reachable by indexing directories, whatever the file system does meanwhile, file
  ids and paths are unique, no chunk row is repeated or orphaned, and the chunk rows of every file are
  exactly the rows of some byte string cut under the one profile the index records.\<close>

theorem index_always_consistent:
  assumes "index_reachable X db" and "cdc_ext_ok X"
  shows "index_inv X db"
  by (rule index_reachable_inv [OF assms])

theorem index_always_consistent_witness:
  "index_inv inst_cdc (snd (index_directory inst_cdc empty_index (Some (''/s'', True)) Inr (Inr ''/db'')
     [Inr (''/s/f'', True)] (\<lambda>_. \<lparr>iv_utf8 = True,
       iv_before = Inr \<lparr>fm_is_file = True, fm_len = 1, fm_modified = Inr 5\<rparr>, iv_reads = Inr [Inr [7]],
       iv_end_len = Inr 1, iv_after = Inr \<lparr>fm_is_file = True, fm_len = 1, fm_modified = Inr 5\<rparr>\<rparr>) tiny_profile))"
  by (rule index_always_consistent [OF index_reachable.indexed [OF index_reachable.opened] inst_cdc_ok])

text \<open>C15: Indexing a file that does not change meanwhile succeeds, keeps the index consistent, and makes
  every chunk of the file found as long as the file keeps its size and modification time.\<close>

theorem indexed_chunks_found:
  assumes "cdc_ext_ok X" and "profile_validate p = Inr ()" and "index_ok X p db" and "steady_indexing view bs mtime"
  shows "\<exists>db'. index_file X db path view p =
       Inr ((word_of_nat (length bs), word_of_nat (length (cdc_chunks p bs))), db') \<and> index_ok X p db' \<and>
     (\<forall>stat r. r \<in> set (file_records (cx_blake3_hex X) p bs) \<and>
        (\<forall>q m. stat q = Inr m \<longrightarrow> is_ok (modified_ns m)) \<and>
        (\<exists>m. stat path = Inr m \<and> fm_len m = word_of_nat (length bs) \<and> modified_ns m = Inr mtime) \<longrightarrow>
        (\<exists>loc. lookup_chunk X db' stat (ck_hash r) (ck_length r) = Inr (Some loc)))"
proof -
  obtain db' f where run: "index_file X db path view p =
       Inr ((word_of_nat (length bs), word_of_nat (length (cdc_chunks p bs))), db')"
    and f: "f \<in> set (ix_files db')" "fr_path f = path" "fr_size f = int (length bs)" "fr_mtime f = mtime"
      "file_indexed X p db' f bs"
    by (rule index_file_steady [OF assms])
  have "\<exists>loc. lookup_chunk X db' stat (ck_hash r) (ck_length r) = Inr (Some loc)"
    if "r \<in> set (file_records (cx_blake3_hex X) p bs)" "\<forall>q m. stat q = Inr m \<longrightarrow> is_ok (modified_ns m)"
      "\<exists>m. stat path = Inr m \<and> fm_len m = word_of_nat (length bs) \<and> modified_ns m = Inr mtime" for stat r
  proof -
    have "unchanged stat f" using that(3) f(2-4) by (simp add: unchanged_def)
    from lookup_chunk_complete [OF f(1,5) that(1) this] that(2) show ?thesis by blast
  qed
  with run index_file_ok [OF assms(3) run] show ?thesis by blast
qed

theorem indexed_chunks_found_witness:
  "\<exists>db'. index_file inst_cdc empty_index ''/s/f'' \<lparr>iv_utf8 = True,
       iv_before = Inr \<lparr>fm_is_file = True, fm_len = 1, fm_modified = Inr 5\<rparr>, iv_reads = Inr [Inr [7], Inr []],
       iv_end_len = Inr 1, iv_after = Inr \<lparr>fm_is_file = True, fm_len = 1, fm_modified = Inr 5\<rparr>\<rparr> tiny_profile
     = Inr ((1, 1), db') \<and> index_ok inst_cdc tiny_profile db'"
proof -
  have "steady_indexing \<lparr>iv_utf8 = True,
       iv_before = Inr \<lparr>fm_is_file = True, fm_len = 1, fm_modified = Inr 5\<rparr>, iv_reads = Inr [Inr [7], Inr []],
       iv_end_len = Inr 1, iv_after = Inr \<lparr>fm_is_file = True, fm_len = 1, fm_modified = Inr 5\<rparr>\<rparr> [7] 5"
    by (simp add: steady_indexing_def single_block modified_ns_def i64_max_def)
  moreover have "index_ok inst_cdc tiny_profile empty_index" by (simp add: index_ok_def empty_index_def)
  ultimately show ?thesis
    using indexed_chunks_found [OF inst_cdc_ok tiny_profile_valid] by fastforce
qed

text \<open>C16: A location a lookup returns belongs to an indexed file whose size and time are as indexed, and
  points at a chunk with the requested hash and length inside the string that was indexed for it.\<close>

theorem lookups_are_sound:
  assumes "index_ok X p db" and "profile_validate p = Inr ()"
    and "lookup_chunk X db stat hash len = Inr (Some loc)"
  shows "\<exists>f bs. f \<in> set (ix_files db) \<and> fr_path f = sl_path loc \<and> unchanged stat f \<and> file_indexed X p db f bs \<and>
    sl_length loc = len \<and> unat (sl_offset loc) + unat len \<le> length bs \<and>
    cx_hex_decode X hash = cx_hex_decode X (cx_blake3_hex X (take (unat len) (drop (unat (sl_offset loc)) bs)))"
proof -
  obtain f bs where "f \<in> set (ix_files db)" "fr_path f = sl_path loc" "unchanged stat f" "file_indexed X p db f bs"
    "sl_length loc = len" "unat (sl_offset loc) + unat len \<le> length bs"
    "cx_hex_decode X hash = cx_hex_decode X (cx_blake3_hex X (take (unat len) (drop (unat (sl_offset loc)) bs)))"
    by (rule lookup_chunk_sound [OF assms])
  then show ?thesis by blast
qed

definition sample_row :: chunk_row where
  "sample_row = \<lparr>kr_hash = pad_to 31 [7] @ [1], kr_length = 1, kr_file = 1, kr_offset = 0\<rparr>"

definition sample_index :: index_db where
  "sample_index = \<lparr>ix_meta = [''chunk_profile'' \<mapsto> inst_profile tiny_profile],
     ix_files = [\<lparr>fr_id = 1, fr_path = ''/s/f'', fr_size = 1, fr_mtime = 5\<rparr>], ix_chunks = [sample_row]\<rparr>"

definition sample_stat :: "string \<Rightarrow> file_meta result" where
  "sample_stat q = (if q = ''/s/f'' then Inr \<lparr>fm_is_file = True, fm_len = 1, fm_modified = Inr 5\<rparr> else Inl (Io NotFound))"

lemma sample_index_ok: "index_ok inst_cdc tiny_profile sample_index"
proof -
  have "file_indexed inst_cdc tiny_profile sample_index \<lparr>fr_id = 1, fr_path = ''/s/f'', fr_size = 1, fr_mtime = 5\<rparr> [7]"
    by (simp add: file_indexed_def file_records_def row_of_def rows_of_file_def sample_index_def sample_row_def
        inst_cdc_def inst_blake3_def to_i64_def i64_max_def)
  then show ?thesis by (auto simp: index_ok_def sample_index_def sample_row_def i64_max_def)
qed

lemma sample_lookup:
  "lookup_chunk inst_cdc sample_index sample_stat (inst_blake3 [7]) 1 =
     Inr (Some \<lparr>sl_path = ''/s/f'', sl_offset = 0, sl_length = 1\<rparr>)"
  by (simp add: lookup_chunk_def inst_cdc_def inst_blake3_def chunk_rows_def sample_index_def sample_row_def
      sample_stat_def modified_ns_def i64_max_def)

theorem lookups_are_sound_witness:
  "\<exists>f bs. f \<in> set (ix_files sample_index) \<and> fr_path f = ''/s/f'' \<and> unchanged sample_stat f \<and>
     file_indexed inst_cdc tiny_profile sample_index f bs \<and> 1 \<le> length bs"
  using lookups_are_sound [OF sample_index_ok tiny_profile_valid sample_lookup] by auto

text \<open>A comparison accounts for the whole target: matched and missing chunks add up to the number of
  chunks, reusable and missing bytes to the size, both counted over the plan, which lists the chunks in
  order with what the index finds for each.\<close>

theorem comparison_accounts_exactly:
  assumes "compare_descriptor X d db db_path stat = Inr r"
  shows "unat (cr_matched_chunks r) + unat (cr_missing_chunks r) = length (td_chunks d)
    \<and> unat (cr_local_reusable_bytes r) + unat (cr_missing_payload_bytes r) = unat (ti_size (td_target d))
    \<and> list_all2 (\<lambda>c q. pc_offset q = ck_offset c \<and> pc_length q = ck_length c \<and> pc_hash q = ck_hash c \<and>
        lookup_chunk X db stat (ck_hash c) (ck_length c) = Inr (pc_local_source q)) (td_chunks d) (cr_plan r)
    \<and> unat (cr_matched_chunks r) = length (filter (\<lambda>q. pc_local_source q \<noteq> None) (cr_plan r))
    \<and> unat (cr_local_reusable_bytes r) =
        sum_list (map (\<lambda>q. unat (pc_length q)) (filter (\<lambda>q. pc_local_source q \<noteq> None) (cr_plan r)))"
proof -
  from assms obtain matched reusable where v: "td_validate X d = Inr ()"
    and run: "try_fold (compare_chunk X db stat) (0, 0, []) (td_chunks d) = Inr (matched, reusable, cr_plan r)"
    and r: "cr_matched_chunks r = matched" "cr_missing_chunks r = word_of_nat (length (td_chunks d)) - matched"
      "cr_local_reusable_bytes r = reusable" "cr_missing_payload_bytes r = ti_size (td_target d) - reusable"
    by (auto simp: compare_descriptor_def Let_def)
  let ?size = "unat (ti_size (td_target d))" and ?hit = "\<lambda>q. pc_local_source q \<noteq> None"
  let ?len = "\<lambda>q. unat (pc_length q)"
  from v have tile: "chunks_tile 0 (td_chunks d) ?size" by (simp add: td_validate_iff)
  from compare_chunks_fold [OF run] have
    plan: "list_all2 (\<lambda>c q. pc_offset q = ck_offset c \<and> pc_length q = ck_length c \<and> pc_hash q = ck_hash c \<and>
      lookup_chunk X db stat (ck_hash c) (ck_length c) = Inr (pc_local_source q)) (td_chunks d) (cr_plan r)"
    and m: "matched = word_of_nat (length (filter ?hit (cr_plan r)))"
    and b: "reusable = word_of_nat (sum_list (map ?len (filter ?hit (cr_plan r))))"
    by auto
  from plan have len: "length (cr_plan r) = length (td_chunks d)" by (simp add: list_all2_lengthD)
  from plan have "map ?len (cr_plan r) = map (\<lambda>c. unat (ck_length c)) (td_chunks d)"
    by (induction rule: list_all2_induct) simp_all
  then have sum: "sum_list (map ?len (cr_plan r)) = ?size" using chunks_tile_sum [OF tile] by simp
  have small: "length (td_chunks d) \<le> ?size" using chunks_tile_count [OF tile] by simp
  have size: "?size < 18446744073709551616" by simp
  have hits: "length (filter ?hit (cr_plan r)) \<le> length (td_chunks d)" using length_filter_le len by metis
  have bytes: "sum_list (map ?len (filter ?hit (cr_plan r))) \<le> ?size" using sum_list_filter_le sum by metis
  have um: "unat matched = length (filter ?hit (cr_plan r))"
    unfolding m by (rule unat_of_nat_u64) (use hits small size in linarith)
  have ub: "unat reusable = sum_list (map ?len (filter ?hit (cr_plan r)))"
    unfolding b by (rule unat_of_nat_u64) (use bytes size in linarith)
  have uc: "unat (word_of_nat (length (td_chunks d)) :: u64) = length (td_chunks d)"
    by (rule unat_of_nat_u64) (use small size in linarith)
  have "matched \<le> word_of_nat (length (td_chunks d))" "reusable \<le> ti_size (td_target d)"
    using um ub uc hits bytes by (simp_all add: word_le_nat_alt)
  then show ?thesis
    using plan um ub uc hits bytes by (simp add: r unat_sub)
qed

theorem comparison_accounts_exactly_witness:
  "\<exists>r. compare_descriptor inst_cdc (descriptor_of inst_cdc tiny_profile ''t'' [7]) sample_index ''/db'' sample_stat = Inr r
     \<and> unat (cr_matched_chunks r) = 1 \<and> unat (cr_missing_chunks r) = 0"
proof -
  let ?d = "descriptor_of inst_cdc tiny_profile ''t'' [7]"
  have "td_validate inst_cdc ?d = Inr ()"
    by (rule descriptor_of_valid [OF inst_cdc_ok tiny_profile_valid]) simp
  moreover have "ensure_profile inst_cdc sample_index (td_profile ?d) = Inr ()"
    by (simp add: ensure_profile_def descriptor_of_def tiny_profile_valid sample_index_def inst_cdc_def)
  ultimately obtain r where r: "compare_descriptor inst_cdc ?d sample_index ''/db'' sample_stat = Inr r"
    and m: "cr_matched_chunks r = 1"
    using sample_lookup
    by (simp add: compare_descriptor_def compare_chunk_def descriptor_of_def file_records_def inst_cdc_def
        db_stats_def sample_index_def i64_max_def Let_def)
  have "length (td_chunks ?d) = 1" by (simp add: descriptor_of_def file_records_def)
  with r m comparison_accounts_exactly [OF r] show ?thesis by simp
qed

end
