(* ===== verification/Cdc_Delivery.thy ===== *)
theory Cdc_Delivery
  imports Cdc_Properties
begin

text \<open>
  The properties of the delivery of a file: rebuilding from the index and from staged or fetched
  chunks, and the transfer protocol, each with an instance at concrete files.
\<close>

section \<open>A sample exchange\<close>

definition bare_index :: index_db where
  "bare_index = \<lparr>ix_meta = [''chunk_profile'' \<mapsto> inst_profile tiny_profile], ix_files = [], ix_chunks = []\<rparr>"

definition tiny_descriptor :: target_descriptor where
  "tiny_descriptor = descriptor_of inst_cdc tiny_profile ''t'' [7]"

definition tiny_target :: file_system where
  "tiny_target = [''t'' \<mapsto> Regular [7] (Inr 0)]"

definition tiny_chunk :: string where
  "tiny_chunk = chunk_path ''d'' (inst_blake3 [7])"

definition tiny_staged :: file_system where
  "tiny_staged = [tiny_chunk \<mapsto> Regular [7] (Inr 0)]"

lemma inst_cdc_fields:
  "cx_blake3_hex inst_cdc = inst_blake3" "cx_sha256 inst_cdc = pad_to 32" "cx_hex_encode inst_cdc = inst_hex_encode"
  "cx_hex_decode inst_cdc = inst_hex_decode"
  by (simp_all add: inst_cdc_def)

lemma write_new_chunk_fine [simp]:
  "write_new_chunk (\<lambda>_. None) now fs path h bs = (Inr (), fs(path \<mapsto> Regular bs now))"
  by (simp add: write_new_chunk_def)

lemma tiny_hash_decode: "inst_hex_decode (inst_blake3 [7]) = Inr (pad_to 31 [7] @ [1])"
  by (simp add: inst_blake3_def)

lemma bare_index_profile: "ensure_profile inst_cdc bare_index tiny_profile = Inr ()"
  by (simp add: ensure_profile_def tiny_profile_valid bare_index_def inst_cdc_def)

lemma bare_index_lookup: "lookup_chunk inst_cdc bare_index stat (inst_blake3 b) len = Inr None"
  by (simp add: lookup_chunk_def inst_cdc_def inst_blake3_def chunk_rows_def bare_index_def)

lemma tiny_descriptor_valid: "td_validate inst_cdc tiny_descriptor = Inr ()"
  unfolding tiny_descriptor_def by (rule descriptor_of_valid [OF inst_cdc_ok tiny_profile_valid]) simp

lemma tiny_records:
  "file_records (cx_blake3_hex inst_cdc) tiny_profile [7] = [\<lparr>ck_offset = 0, ck_length = 1, ck_hash = inst_blake3 [7]\<rparr>]"
  by (simp add: file_records_def inst_cdc_def)

lemma tiny_descriptor_parts:
  "td_profile tiny_descriptor = tiny_profile"
  "td_chunks tiny_descriptor = [\<lparr>ck_offset = 0, ck_length = 1, ck_hash = inst_blake3 [7]\<rparr>]"
  "td_target tiny_descriptor = \<lparr>ti_name = ''t'', ti_size = 1, ti_sha256 = inst_hex_encode (pad_to 32 [7])\<rparr>"
  by (simp_all add: tiny_descriptor_def descriptor_of_def tiny_records) (simp add: inst_cdc_def)

lemma tiny_chunk_new: "tiny_chunk \<noteq> ''t''" "tiny_chunk \<noteq> ''out''"
  by (simp_all add: tiny_chunk_def chunk_path_def)

lemma sub_single: "take n (drop k [7 :: u8]) = [] \<or> take n (drop k [7 :: u8]) = [7]"
  by (cases n; cases k) simp_all

lemma pieces_single:
  assumes "\<And>q bs t. fs q = Some (Regular bs t) \<Longrightarrow> bs = [7]"
  shows "inj_on (cx_blake3_hex inst_cdc) (pieces fs \<union> set (cdc_chunks tiny_profile [7]))"
proof -
  have "pieces fs \<subseteq> {[], [7]}"
  proof
    fix x assume "x \<in> pieces fs"
    then obtain n k q bs t where "x = take n (drop k bs)" "fs q = Some (Regular bs t)" unfolding pieces_def by blast
    with assms [of q bs t] sub_single [of n k] show "x \<in> {[], [7]}" by auto
  qed
  moreover have "inst_blake3 [] \<noteq> inst_blake3 [7]"
  proof
    assume "inst_blake3 [] = inst_blake3 [7]"
    then have "inst_hex_decode (inst_blake3 []) = inst_hex_decode (inst_blake3 [7])" by simp
    then show False by (simp add: inst_blake3_def)
  qed
  ultimately have "inj_on inst_blake3 {[], [7]}" "pieces fs \<union> set (cdc_chunks tiny_profile [7]) \<subseteq> {[], [7]}"
    by (auto simp: inj_on_def)
  then show ?thesis unfolding inst_cdc_fields by (rule inj_on_subset)
qed

section \<open>Rebuilding\<close>

text \<open>C17: A rebuild that succeeds has created exactly one file, at a path that was free, whose size and
  SHA-256 are the target's and whose ranges have the hashes of the descriptor's chunks, and its counters add
  up to the target; a rebuild that fails has changed no file.\<close>

theorem rebuild_writes_target_or_nothing:
  assumes "rebuild_target X db disk now d dir output fs = (r, fs')"
  shows "case r of
      Inl e \<Rightarrow> fs' = fs
    | Inr report \<Rightarrow> output \<notin> dom fs \<and> (\<exists>bs. fs' = fs(output \<mapsto> Regular bs now) \<and>
        length bs = unat (ti_size (td_target d)) \<and> cx_hex_encode X (cx_sha256 X bs) = ti_sha256 (td_target d) \<and>
        (\<forall>c\<in>set (td_chunks d). cx_blake3_hex X (take (unat (ck_length c)) (drop (unat (ck_offset c)) bs)) = ck_hash c) \<and>
        rr_local_bytes_read report + rr_missing_source_bytes_read report = ti_size (td_target d) \<and>
        rr_local_chunk_occurrences report + rr_missing_chunk_occurrences report = word_of_nat (length (td_chunks d)))"
proof (cases r)
  case (Inl e)
  with assms show ?thesis using rebuild_target_failed by auto
next
  case (Inr report)
  then have "rebuild_target X db disk now d dir output fs = (Inr report, fs')" using assms by simp
  then obtain bs where "output \<notin> dom fs" "fs' = fs(output \<mapsto> Regular bs now)"
    "length bs = unat (ti_size (td_target d))" "cx_hex_encode X (cx_sha256 X bs) = ti_sha256 (td_target d)"
    "\<And>c. c \<in> set (td_chunks d) \<Longrightarrow>
       cx_blake3_hex X (take (unat (ck_length c)) (drop (unat (ck_offset c)) bs)) = ck_hash c"
    "rr_local_bytes_read report + rr_missing_source_bytes_read report = ti_size (td_target d)"
    "rr_local_chunk_occurrences report + rr_missing_chunk_occurrences report = word_of_nat (length (td_chunks d))"
    by (rule rebuild_target_sound) (rule that)
  with Inr show ?thesis by auto
qed

theorem rebuild_writes_target_or_nothing_witness:
  "\<exists>report bs. rebuild_target inst_cdc bare_index (\<lambda>_. None) (Inr 0) tiny_descriptor ''d'' ''out'' tiny_staged
     = (Inr report, tiny_staged(''out'' \<mapsto> Regular bs (Inr 0))) \<and> length bs = 1"
proof -
  let ?run = "rebuild_target inst_cdc bare_index (\<lambda>_. None) (Inr 0) tiny_descriptor ''d'' ''out'' tiny_staged"
  have "?run = (Inr \<lparr>rr_target_bytes = 1, rr_local_bytes_read = 0, rr_missing_source_bytes_read = 1,
      rr_local_chunk_occurrences = 0, rr_missing_chunk_occurrences = 1,
      rr_output_sha256 = inst_hex_encode (pad_to 32 [7]), rr_verified = True\<rparr>,
      tiny_staged(''out'' \<mapsto> Regular [7] (Inr 0)))"
    using tiny_chunk_new bare_index_lookup
    by (simp add: rebuild_target_def tiny_descriptor_valid tiny_descriptor_parts bare_index_profile
        rebuild_chunk_def local_chunk_def missing_chunk_def fs_read_def tiny_staged_def tiny_chunk_def [symmetric]
        verify_chunk_def Let_def inst_cdc_fields)
  with rebuild_writes_target_or_nothing [of inst_cdc bare_index "\<lambda>_. None" "Inr 0" tiny_descriptor "''d''" "''out''" tiny_staged]
  show ?thesis by (auto simp: tiny_descriptor_parts)
qed

text \<open>After the missing chunks of a file have been staged, in whatever order the index and the
  directory supply them, rebuilding its descriptor succeeds and the output is the file, provided files with
  the indexed size and time have the indexed content and BLAKE3 tells the parts of the stored files apart.\<close>

theorem stage_then_rebuild:
  assumes "cdc_ext_ok X" and "profile_validate p = Inr ()"
    and "fs target = Some (Regular T t)"
    and "stage_missing_chunks X db disk now (descriptor_of X p name T) target dir fs = (Inr rep, fs')"
    and "index_honest X p db fs'" and "times_ok fs'" and "inj_on (cx_blake3_hex X) (pieces fs')"
    and "output \<notin> dom fs'"
  shows "\<exists>report. rebuild_target X db (\<lambda>_. None) now2 (descriptor_of X p name T) dir output fs' =
    (Inr report, fs'(output \<mapsto> Regular T now2))"
  by (rule stage_then_rebuild_helper [OF assms])

lemma tiny_stage:
  "\<exists>rep. stage_missing_chunks inst_cdc bare_index (\<lambda>_. None) (Inr 0) tiny_descriptor ''t'' ''d'' tiny_target =
     (Inr rep, tiny_target(tiny_chunk \<mapsto> Regular [7] (Inr 0)))"
proof -
  have "verify_target_identity inst_cdc tiny_target tiny_descriptor ''t'' = Inr ()"
    using tiny_descriptor_valid
    by (simp add: verify_target_identity_def verify_target_def tiny_descriptor_parts fs_metadata_def tiny_target_def
        fs_reads_def sha256_file_def inst_cdc_fields)
  then show ?thesis
    using tiny_chunk_new bare_index_lookup
    by (simp add: stage_missing_chunks_def tiny_descriptor_valid tiny_descriptor_parts bare_index_profile
        fs_read_def tiny_target_def tiny_chunk_def [symmetric] verify_chunk_def read_range_def
        Let_def inst_cdc_fields)
qed

theorem stage_then_rebuild_witness:
  "\<exists>report. rebuild_target inst_cdc bare_index (\<lambda>_. None) (Inr 1) tiny_descriptor ''d'' ''out''
     (tiny_target(tiny_chunk \<mapsto> Regular [7] (Inr 0)))
     = (Inr report, (tiny_target(tiny_chunk \<mapsto> Regular [7] (Inr 0)))(''out'' \<mapsto> Regular [7] (Inr 1)))"
proof -
  let ?fs = "tiny_target(tiny_chunk \<mapsto> Regular [7] (Inr 0))"
  obtain rep where "stage_missing_chunks inst_cdc bare_index (\<lambda>_. None) (Inr 0)
      (descriptor_of inst_cdc tiny_profile ''t'' [7]) ''t'' ''d'' tiny_target = (Inr rep, ?fs)"
    using tiny_stage unfolding tiny_descriptor_def by blast
  moreover have "index_honest inst_cdc tiny_profile bare_index ?fs" by (simp add: index_honest_def bare_index_def)
  moreover have "times_ok ?fs"
    by (auto simp: times_ok_def fs_metadata_def tiny_target_def modified_ns_def i64_max_def split: if_splits)
  moreover have "inj_on (cx_blake3_hex inst_cdc) (pieces ?fs)"
  proof -
    have "inj_on (cx_blake3_hex inst_cdc) (pieces ?fs \<union> set (cdc_chunks tiny_profile [7]))"
      by (rule pieces_single) (auto simp: tiny_target_def split: if_splits)
    then show ?thesis by (rule inj_on_subset) blast
  qed
  ultimately show ?thesis
    unfolding tiny_descriptor_def using tiny_chunk_new
    by (intro stage_then_rebuild [OF inst_cdc_ok tiny_profile_valid, where t = "Inr 0"]) (auto simp: tiny_target_def)
qed

section \<open>Fetching\<close>

text \<open>C18: Whatever a peer sends, a fetch changes no existing file and every file it adds is stored under the
  BLAKE3 hash of its content; when it succeeds, every chunk of the descriptor is available with its length
  and hash, from the index or in the directory.\<close>

theorem fetch_stores_only_verified_chunks:
  assumes "fetch_missing_chunks X db disk send now d peer dir fs = (r, fs', sent)"
  shows "(\<forall>q n. fs q = Some n \<longrightarrow> fs' q = Some n)
    \<and> (\<forall>q n. fs' q = Some n \<and> fs q = None \<longrightarrow> (\<exists>bs t. q = chunk_path dir (cx_blake3_hex X bs) \<and> n = Regular bs t))
    \<and> (is_ok r \<longrightarrow> (\<forall>c\<in>set (td_chunks d). indexed_now X db fs' c \<or> chunk_stored X fs' dir (ck_hash c, ck_length c)))"
  using fetch_missing_chunks_safe [OF assms] fs_extends_node [of fs fs'] unfolding only_chunks_added_def by blast

theorem fetch_stores_only_verified_chunks_witness:
  "snd (snd (fetch_missing_chunks inst_cdc bare_index (\<lambda>_. None) (\<lambda>_. None) (Inr 0) tiny_descriptor
      (Inr (stream_of [0, 0, 0, 0, 1, 9])) ''d'' Map.empty)) \<noteq> [] \<and>
   fst (snd (fetch_missing_chunks inst_cdc bare_index (\<lambda>_. None) (\<lambda>_. None) (Inr 0) tiny_descriptor
      (Inr (stream_of [0, 0, 0, 0, 1, 9])) ''d'' Map.empty)) ''x'' = None"
proof -
  let ?run = "fetch_missing_chunks inst_cdc bare_index (\<lambda>_. None) (\<lambda>_. None) (Inr 0) tiny_descriptor
      (Inr (stream_of [0, 0, 0, 0, 1, 9])) ''d'' Map.empty"
  have "snd (snd ?run) \<noteq> []"
    using bare_index_lookup tiny_hash_decode
    by (auto simp: fetch_missing_chunks_def tiny_descriptor_valid tiny_descriptor_parts bare_index_profile need_chunk_def
        check_existing_def inst_cdc_fields Let_def PROTOCOL_MAGIC_def as_bytes_def persist_chunk_def
        split: sum.splits prod.splits)
  moreover have "?run = (fst ?run, fst (snd ?run), snd (snd ?run))" by simp
  from fetch_stores_only_verified_chunks [OF this] have "fst (snd ?run) ''x'' = None"
    by (cases "fst (snd ?run) ''x''") (auto simp: chunk_path_def)
  ultimately show ?thesis by simp
qed

text \<open>A server that was allowed a number of requests reports at most that many, on each connection and
  over all of them, whatever its clients send.\<close>

theorem served_requests_bounded:
  assumes "serve_chunk_listener X fs dir (Some m) clients = Some (Inr report)"
  shows "unat (sv_requests_received report) \<le> unat m"
  using assms by (auto simp: serve_chunk_listener_def split: if_splits elim!: serve_loop_bounded)

theorem served_requests_bounded_witness:
  "\<exists>report. serve_chunk_listener inst_cdc tiny_staged ''d'' (Some 1)
      [Inr (stream_of (PROTOCOL_MAGIC @ request_bytes (replicate 32 0) 1), \<lambda>_. None)] = Some (Inr report)
    \<and> unat (sv_requests_received report) \<le> 1"
proof -
  let ?stream = "stream_of (PROTOCOL_MAGIC @ request_bytes (replicate 32 0) 1)"
  let ?clients = "[Inr (?stream, \<lambda>_. None)]"
  let ?one = "stream_of (be_bytes 4 (Suc 0))"
  have magic: "read_exact_or_eof 5 ?stream = Inr (Some PROTOCOL_MAGIC, stream_of (replicate 32 0) @ ?one)"
  proof -
    have "?stream = stream_of PROTOCOL_MAGIC @ stream_of (replicate 32 0) @ ?one" by (simp add: request_bytes_def)
    then show ?thesis using read_exact_or_eof_stream_n [of 5 PROTOCOL_MAGIC] by (simp add: PROTOCOL_MAGIC_def)
  qed
  have first: "read_exact_or_eof 32 (stream_of (replicate 32 0) @ ?one) = Inr (Some (replicate 32 0), ?one)"
    by (rule read_exact_or_eof_stream_n) simp
  have second: "read_exact 4 ?one = Inr (be_bytes 4 (Suc 0), [])"
    using read_exact_stream_n [of 4 "be_bytes 4 (Suc 0)" "[]"] by (simp del: be_bytes.simps)
  have number: "word_of_nat (be_nat (be_bytes 4 (Suc 0))) = (1 :: u32)"
    by (simp add: be_nat_be_bytes)
  let ?r = "\<lambda>response. count_response response (default_connection\<lparr>cn_requests := 1\<rparr>)"
  have stop: "serve_requests inst_cdc tiny_staged ''d'' (Some 1) (\<lambda>_. None) (?r response) out [] = (Inr (?r response), out)"
    for response out by (subst serve_requests.simps) simp
  have "serve_requests inst_cdc tiny_staged ''d'' (Some 1) (\<lambda>_. None) default_connection []
      (stream_of (replicate 32 0) @ ?one) =
    (Inr (?r (load_verified_chunk inst_cdc tiny_staged ''d'' (cx_hex_encode inst_cdc (replicate 32 0)) 1)),
     response_message (load_verified_chunk inst_cdc tiny_staged ''d'' (cx_hex_encode inst_cdc (replicate 32 0)) 1))"
    by (subst serve_requests.simps)
       (simp add: first second number Let_def stop [unfolded default_connection_def, simplified] default_connection_def)
  then obtain r1 out1 where r1: "serve_connection inst_cdc tiny_staged ''d'' (Some 1) (\<lambda>_. None) ?stream = (Inr r1, out1)"
    and n: "cn_requests r1 = 1"
    by (simp add: serve_connection_def magic del: stream_of_append)
  then obtain report where "serve_chunk_listener inst_cdc tiny_staged ''d'' (Some 1) ?clients = Some (Inr report)"
    by (simp add: serve_chunk_listener_def serve_loop.simps count_connection_def)
  with served_requests_bounded [OF this] show ?thesis by simp
qed

text \<open>C19: The transfer works end to end. When a server's directory holds the chunks of a file and the
  client's does not, a fetch that is answered by the server's run on the very bytes the client sends
  succeeds, and rebuilding the descriptor from what was fetched and indexed gives the file.\<close>

theorem served_fetch_rebuilds:
  assumes "cdc_ext_ok X" and "profile_validate p = Inr ()" and "max_size p \<le> MAX_CHUNK_BYTES"
    and "length T < 2 ^ 64"
    and "\<And>c. c \<in> set (file_records (cx_blake3_hex X) p T) \<Longrightarrow> chunk_stored X sfs sdir (ck_hash c, ck_length c)"
    and "ensure_profile X db p = Inr ()" and "times_ok fs"
    and "\<And>c. c \<in> set (file_records (cx_blake3_hex X) p T) \<Longrightarrow> chunk_path dir (ck_hash c) \<notin> dom fs"
    and "inj_on (cx_blake3_hex X) (set (cdc_chunks p T))"
  shows "\<exists>report fs' sent served answers.
    fetch_missing_chunks X db (\<lambda>_. None) (\<lambda>_. None) now (descriptor_of X p name T) (Inr (stream_of answers)) dir fs
      = (Inr report, fs', sent) \<and>
    serve_connection X sfs sdir None (\<lambda>_. None) (stream_of sent) = (Inr served, answers) \<and>
    (index_honest X p db fs' \<and> times_ok fs' \<and> inj_on (cx_blake3_hex X) (pieces fs' \<union> set (cdc_chunks p T)) \<and>
       output \<notin> dom fs' \<longrightarrow>
       (\<exists>rebuilt. rebuild_target X db (\<lambda>_. None) now (descriptor_of X p name T) dir output fs' =
          (Inr rebuilt, fs'(output \<mapsto> Regular T now))))"
proof -
  obtain report fs' sent served answers where
    fetch: "fetch_missing_chunks X db (\<lambda>_. None) (\<lambda>_. None) now (descriptor_of X p name T) (Inr (stream_of answers)) dir fs
      = (Inr report, fs', sent)"
    and serve: "serve_connection X sfs sdir None (\<lambda>_. None) (stream_of sent) = (Inr served, answers)"
    using fetch_served_helper [OF assms(1-4) assms(5) assms(6,7) assms(8,9), where now = now and name = name] by blast
  have "indexed_now X db fs' c \<or> staged X fs' dir c" if "c \<in> set (file_records (cx_blake3_hex X) p T)" for c
    using fetch_missing_chunks_safe [OF fetch] that by (auto simp: descriptor_of_def chunk_stored_def staged_def)
  then have "index_honest X p db fs' \<and> times_ok fs' \<and> inj_on (cx_blake3_hex X) (pieces fs' \<union> set (cdc_chunks p T)) \<and>
       output \<notin> dom fs' \<longrightarrow>
       (\<exists>rebuilt. rebuild_target X db (\<lambda>_. None) now (descriptor_of X p name T) dir output fs' =
          (Inr rebuilt, fs'(output \<mapsto> Regular T now)))"
    using available_rebuild [OF assms(1,2) descriptor_of_valid [OF assms(1,2,4)] assms(6), where fs = fs' and dir = dir]
      inj_tells_apart [of X fs' "set (cdc_chunks p T)"]
    by blast
  with fetch serve show ?thesis by blast
qed

theorem served_fetch_rebuilds_witness:
  "\<exists>report fs' sent served answers.
    fetch_missing_chunks inst_cdc bare_index (\<lambda>_. None) (\<lambda>_. None) (Inr 0) tiny_descriptor (Inr (stream_of answers)) ''d'' Map.empty
      = (Inr report, fs', sent) \<and>
    serve_connection inst_cdc tiny_staged ''d'' None (\<lambda>_. None) (stream_of sent) = (Inr served, answers)"
proof -
  have "\<exists>report fs' sent served answers.
    fetch_missing_chunks inst_cdc bare_index (\<lambda>_. None) (\<lambda>_. None) (Inr 0) (descriptor_of inst_cdc tiny_profile ''t'' [7])
      (Inr (stream_of answers)) ''d'' Map.empty = (Inr report, fs', sent) \<and>
    serve_connection inst_cdc tiny_staged ''d'' None (\<lambda>_. None) (stream_of sent) = (Inr served, answers) \<and>
    (index_honest inst_cdc tiny_profile bare_index fs' \<and> times_ok fs' \<and>
       inj_on (cx_blake3_hex inst_cdc) (pieces fs' \<union> set (cdc_chunks tiny_profile [7])) \<and>
       ''out'' \<notin> dom fs' \<longrightarrow>
       (\<exists>rebuilt. rebuild_target inst_cdc bare_index (\<lambda>_. None) (Inr 0) (descriptor_of inst_cdc tiny_profile ''t'' [7])
          ''d'' ''out'' fs' = (Inr rebuilt, fs'(''out'' \<mapsto> Regular [7] (Inr 0)))))"
  proof (rule served_fetch_rebuilds [OF inst_cdc_ok tiny_profile_valid])
    show "max_size tiny_profile \<le> MAX_CHUNK_BYTES" by (simp add: tiny_profile_def MAX_CHUNK_BYTES_def)
    show "chunk_stored inst_cdc tiny_staged ''d'' (ck_hash c, ck_length c)"
      if "c \<in> set (file_records (cx_blake3_hex inst_cdc) tiny_profile [7])" for c
      using that unfolding tiny_records
      by (simp add: chunk_stored_def tiny_staged_def tiny_chunk_def inst_cdc_fields)
  qed (simp_all add: bare_index_profile times_ok_def fs_metadata_def)
  then show ?thesis unfolding tiny_descriptor_def by blast
qed

end
