(* ===== verification/Meld_Capabilities.thy ===== *)
theory Meld_Capabilities
  imports Rust_Text
begin

text \<open>
  The capabilities report: \<open>crates/meld-core/src/capabilities.rs\<close>. The engine version comes from the
  build and is an argument.
\<close>

definition REPORT_FORMAT :: string where
  "REPORT_FORMAT = ''shardmeld-report''"

definition REPORT_VERSION :: u32 where
  "REPORT_VERSION = 1"

record capabilities_report =
  cap_report_format :: string
  cap_report_version :: u32
  cap_engine_version :: string
  cap_implemented :: "string list"
  cap_deferred :: "string list"
  cap_limits :: "string list"

definition implemented_features :: "string list" where
  "implemented_features = [
    ''authorized-local-cdc-index'', ''exact-sha256-reconstruction'',
    ''bittorrent-v1-single-file'', ''http-https-udp-trackers'', ''multitracker-tiers'',
    ''verified-piece-resume'', ''four-peer-concurrency'', ''rarest-first'',
    ''work-conserving-speed-adaptation'', ''safe-piece-endgame'', ''standard-cancel'',
    ''magnet-v1-local-metadata-binding'', ''direct-peer-bep9-metadata-exchange'',
    ''verified-file-upload-seeding'', ''on-demand-index-piece-seeding'',
    ''automatic-seed-tracker-start-stop'', ''automatic-downloader-tracker-completed'',
    ''graceful-ctrl-c-seed-shutdown'', ''bounded-four-peer-upload-seeding'',
    ''periodic-seed-tracker-reannounce'', ''aggregate-upload-rate-limit'',
    ''fifo-block-upload-fairness'', ''smd-v0.1-devnet-wallets'', ''smd-v0.1-account-ledger'',
    ''smd-v0.1-permanent-reserve'', ''smd-v0.1-fixed-supply'',
    ''smd-v0.1-signed-contribution-receipts'', ''smd-v0.1-useful-contribution-rewards'',
    ''smd-v0.1-decreasing-emission'', ''smd-v0.1-free-lane'', ''smd-macos-keychain-wallets'',
    ''smd-ledger-state-audit'', ''native-macos-analysis-and-receive-ui'']"

definition deferred_features :: "string list" where
  "deferred_features = [
    ''dht'', ''peer-exchange'', ''bittorrent-v2-hybrid'', ''multi-file-torrents'',
    ''smd-mainnet'', ''smd-mainnet-wallet-recovery'', ''smd-distributed-consensus'',
    ''smd-sybil-resistant-rewards'', ''smd-real-money-exchange'', ''smd-real-resource-pricing'']"

definition feature_limits :: "string list" where
  "feature_limits = [
    ''explicitly-authorized-index-roots-only'', ''single-file-v1-torrents-only'',
    ''bep9-metadata-peer-must-be-explicit'', ''piece-level-resume'', ''piece-level-endgame'',
    ''maximum-four-active-peers'', ''fixed-four-active-upload-peers'',
    ''fifo-block-fairness-without-tit-for-tat-choking'',
    ''tracker-stopped-not-guaranteed-after-forced-termination'',
    ''macos-apple-silicon-desktop-package-only'', ''desktop-receive-requires-meld-descriptor'',
    ''smd-devnet-only'', ''smd-devnet-authority-ordering'',
    ''smd-explicit-test-wallet-files-contain-private-keys'', ''smd-user-resource-fee-disabled'',
    ''smd-receiver-signatures-do-not-solve-sybil-attacks'']"

definition capabilities :: "string \<Rightarrow> capabilities_report" where
  "capabilities engine_version = \<lparr>cap_report_format = REPORT_FORMAT, cap_report_version = REPORT_VERSION,
     cap_engine_version = engine_version, cap_implemented = implemented_features,
     cap_deferred = deferred_features, cap_limits = feature_limits\<rparr>"

text \<open>No deferred feature is reported as implemented.\<close>

lemma deferred_not_implemented: "set (cap_deferred (capabilities v)) \<inter> set (cap_implemented (capabilities v)) = {}"
  by (simp add: capabilities_def implemented_features_def deferred_features_def)

end
