(* ===== verification/Bt_Bencode_Exact.thy ===== *)
theory Bt_Bencode_Exact
  imports Bt_Bencode
begin

text \<open>
  The bencode parser is exact: it accepts the canonical encoding of every well-formed tree, and whatever
  it accepts is the canonical encoding of the tree it returns. Its fuel always suffices.
\<close>

section \<open>Texts and decimal numbers\<close>

lemma text_of_as_bytes [simp]: "text_of (as_bytes s) = s"
  by (induction s) (simp_all add: text_of_def as_bytes_def byte_val_def unat_of_nat)

lemma as_bytes_text_of [simp]: "as_bytes (text_of bs) = bs"
proof (induction bs)
  case (Cons b bs)
  have "byte_val (char_of (unat b)) = unat b" using unat_u8_bound [of b] by (simp add: byte_val_def)
  with Cons show ?case by (simp add: text_of_def as_bytes_def)
qed (simp add: text_of_def as_bytes_def)

lemma as_bytes_append [simp]: "as_bytes (s @ t) = as_bytes s @ as_bytes t"
  and as_bytes_Cons: "as_bytes (c # t) = word_of_nat (byte_val c) # as_bytes t"
  and as_bytes_Nil [simp]: "as_bytes [] = []"
  by (simp_all add: as_bytes_def)

lemma length_text_of [simp]: "length (text_of bs) = length bs"
  by (simp add: text_of_def)

lemma text_of_empty [simp]: "text_of bs = [] \<longleftrightarrow> bs = []"
  by (simp add: text_of_def)

lemma byte_digit_text: "list_all byte_digit bs \<longleftrightarrow> all_digits (text_of bs)"
proof (induction bs)
  case (Cons b bs)
  have "byte_digit b \<longleftrightarrow> is_ascii_digit (char_of (unat b))"
    using unat_u8_bound [of b] by (simp add: byte_digit_def is_ascii_digit_def word_le_nat_alt)
  with Cons show ?case by (simp add: text_of_def)
qed (simp add: text_of_def)

lemma digit_char_val: "is_ascii_digit c \<Longrightarrow> digit_char (digit_val c) = c"
  by (auto simp: is_ascii_digit_def digit_char_def digit_val_def byte_val_def)

text \<open>A digit string without a leading zero is the decimal of its value.\<close>

lemma dec_val_pos: "all_digits s \<Longrightarrow> s \<noteq> [] \<Longrightarrow> hd s \<noteq> CHR ''0'' \<Longrightarrow> 0 < dec_val s"
proof (induction s rule: rev_induct)
  case (snoc c s)
  show ?case
  proof (cases "s = []")
    case True
    have "digit_val c \<noteq> 0"
    proof
      assume "digit_val c = 0"
      moreover have "byte_val (digit_char 0) = byte_val (CHR ''0'')" by (simp add: digit_char_def) (simp add: byte_val_def)
      ultimately show False using digit_char_val [of c] snoc.prems True by (simp only: byte_val_inject) simp
    qed
    with True show ?thesis using dec_val_snoc [of "[]" c] by simp
  next
    case False
    with snoc show ?thesis by simp
  qed
qed simp

lemma dec_dec_val: "all_digits s \<Longrightarrow> s \<noteq> [] \<Longrightarrow> length s = 1 \<or> hd s \<noteq> CHR ''0'' \<Longrightarrow> dec (dec_val s) = s"
proof (induction s rule: rev_induct)
  case (snoc c s)
  have c: "digit_val c < 10" "digit_char (digit_val c) = c"
    using snoc.prems(1) digit_val_bound digit_char_val by auto
  show ?case
  proof (cases "s = []")
    case True
    with c show ?thesis using dec_val_snoc [of "[]" c] by (simp add: dec.simps)
  next
    case False
    then have nz: "hd s \<noteq> CHR ''0''" using snoc.prems(3) by auto
    then have "dec (dec_val s) = s" using snoc False by simp
    moreover have "0 < dec_val s" using dec_val_pos [of s] snoc.prems(1) False nz by simp
    ultimately show ?thesis using c by (subst dec.simps) simp
  qed
qed simp

lemma dec_hd: "n \<noteq> 0 \<Longrightarrow> hd (dec n) \<noteq> CHR ''0''"
proof (induction n rule: dec.induct)
  case (1 n)
  show ?case
  proof (cases "n < 10")
    case True
    then have "hd (dec n) = digit_char n" by (simp add: dec.simps [of n])
    moreover have "byte_val (digit_char n) = 48 + n" using True by (simp add: digit_char_def)
    ultimately show ?thesis using "1.prems" by (auto simp: byte_val_def)
  next
    case False
    then have "hd (dec (n div 10)) \<noteq> CHR ''0''" using "1.IH" by simp
    with False show ?thesis by (simp add: dec.simps [of n] hd_append)
  qed
qed

lemma dec_single_zero: "hd (dec n) = CHR ''0'' \<Longrightarrow> length (dec n) = 1"
  using dec_hd [of n] by (cases "n = 0") (simp_all add: dec.simps [of 0])

section \<open>Scalars\<close>

lemma position_of_Some: "position_of c bs = Some k \<longleftrightarrow> (\<exists>u w. bs = u @ c # w \<and> c \<notin> set u \<and> k = length u)"
proof (induction bs arbitrary: k)
  case Nil
  then show ?case by simp
next
  case (Cons b bs)
  show ?case
  proof (cases "b = c")
    case True
    have "(\<exists>u w. b # bs = u @ c # w \<and> c \<notin> set u \<and> k = length u) \<longleftrightarrow> k = 0"
    proof
      assume "\<exists>u w. b # bs = u @ c # w \<and> c \<notin> set u \<and> k = length u"
      then obtain u w where u: "b # bs = u @ c # w" "c \<notin> set u" "k = length u" by blast
      then show "k = 0" using True by (cases u) auto
    next
      assume "k = 0"
      with True show "\<exists>u w. b # bs = u @ c # w \<and> c \<notin> set u \<and> k = length u"
        by (intro exI [of _ "[]"] exI [of _ bs]) simp
    qed
    with True show ?thesis by auto
  next
    case False
    have "(\<exists>u w. b # bs = u @ c # w \<and> c \<notin> set u \<and> k = length u) \<longleftrightarrow>
        (\<exists>j. k = Suc j \<and> (\<exists>u w. bs = u @ c # w \<and> c \<notin> set u \<and> j = length u))"
    proof
      assume "\<exists>u w. b # bs = u @ c # w \<and> c \<notin> set u \<and> k = length u"
      then obtain u w where u: "b # bs = u @ c # w" "c \<notin> set u" "k = length u" by blast
      with False obtain u' where "u = b # u'" by (cases u) auto
      with u show "\<exists>j. k = Suc j \<and> (\<exists>u w. bs = u @ c # w \<and> c \<notin> set u \<and> j = length u)" by auto
    next
      assume "\<exists>j. k = Suc j \<and> (\<exists>u w. bs = u @ c # w \<and> c \<notin> set u \<and> j = length u)"
      then obtain u w where "bs = u @ c # w" "c \<notin> set u" "k = Suc (length u)" by blast
      with False show "\<exists>u w. b # bs = u @ c # w \<and> c \<notin> set u \<and> k = length u"
        by (intro exI [of _ "b # u"] exI [of _ w]) auto
    qed
    with False Cons.IH show ?thesis by auto
  qed
qed

lemma find_byte_Inr:
  "find_byte bs p c = Inr k \<longleftrightarrow> (\<exists>u w. drop p bs = u @ c # w \<and> c \<notin> set u \<and> k = p + length u)"
proof (cases "position_of c (drop p bs)")
  case None
  then have "\<not> (\<exists>u w. drop p bs = u @ c # w \<and> c \<notin> set u)"
    using position_of_Some [of c "drop p bs"] by (metis option.distinct(1))
  with None show ?thesis by (auto simp: find_byte_def)
next
  case (Some j)
  have "find_byte bs p c = Inr k \<longleftrightarrow> k = p + j" using Some by (auto simp: find_byte_def)
  moreover have "k = p + j \<longleftrightarrow> (\<exists>u w. drop p bs = u @ c # w \<and> c \<notin> set u \<and> k = p + length u)"
  proof
    assume k: "k = p + j"
    obtain u w where u: "drop p bs = u @ c # w" "c \<notin> set u" "j = length u"
      using position_of_Some [THEN iffD1, OF Some] by (elim exE conjE) (rule that)
    show "\<exists>u w. drop p bs = u @ c # w \<and> c \<notin> set u \<and> k = p + length u"
      by (rule exI [of _ u], rule exI [of _ w]) (simp add: u k)
  next
    assume "\<exists>u w. drop p bs = u @ c # w \<and> c \<notin> set u \<and> k = p + length u"
    then obtain u w where "drop p bs = u @ c # w" "c \<notin> set u" and k: "k = p + length u"
      by (elim exE conjE)
    then have "position_of c (drop p bs) = Some (length u)" by (metis position_of_Some)
    with Some k show "k = p + j" by simp
  qed
  ultimately show ?thesis by blast
qed

text \<open>The input at a position, as a prefix of the rest.\<close>

definition at_input :: "bytes \<Rightarrow> nat \<Rightarrow> bytes \<Rightarrow> nat \<Rightarrow> bool" where
  "at_input bs p s q \<longleftrightarrow> (\<exists>w. drop p bs = s @ w) \<and> q = p + length s \<and> p \<le> length bs"

lemma at_input_slice: "at_input bs p s q \<Longrightarrow> slice bs p q = s \<and> q \<le> length bs"
proof -
  assume a: "at_input bs p s q"
  then obtain w where w: "drop p bs = s @ w" "q = p + length s" "p \<le> length bs" by (auto simp: at_input_def)
  then have "length bs - p = length s + length w" using length_drop [of p bs] by simp
  with w show ?thesis by (simp add: slice_def)
qed

lemma at_input_append:
  "at_input bs p s q \<Longrightarrow> at_input bs q t r \<Longrightarrow> at_input bs p (s @ t) r"
proof -
  assume s: "at_input bs p s q" and t: "at_input bs q t r"
  then obtain v w where v: "drop p bs = s @ v" "q = p + length s" "drop q bs = t @ w" "r = q + length t" "p \<le> length bs"
    by (auto simp: at_input_def)
  have "drop q bs = v" using v(1,2) by (metis add.commute append_eq_conv_conj drop_drop)
  then have "drop p bs = (s @ t) @ w" using v(1,3) by simp
  with v show ?thesis unfolding at_input_def by (metis add.assoc length_append)
qed

lemma at_input_split: "at_input bs p (s @ t) r \<Longrightarrow> at_input bs p s (p + length s) \<and> at_input bs (p + length s) t r"
proof -
  assume "at_input bs p (s @ t) r"
  then obtain w where w: "drop p bs = s @ t @ w" "r = p + length s + length t" "p \<le> length bs"
    by (auto simp: at_input_def)
  then have "drop (p + length s) bs = t @ w" by (metis add.commute append_eq_conv_conj drop_drop)
  moreover have "p + length s \<le> length bs" using w(3) arg_cong [OF w(1), of length] by (simp add: le_diff_conv2)
  ultimately show ?thesis using w by (auto simp: at_input_def)
qed

lemma at_input_byte: "byte_at bs p = Some b \<longleftrightarrow> at_input bs p [b] (Suc p)"
proof
  assume "byte_at bs p = Some b"
  then show "at_input bs p [b] (Suc p)"
    by (auto simp: byte_at_def at_input_def Cons_nth_drop_Suc [symmetric] split: if_splits)
next
  assume "at_input bs p [b] (Suc p)"
  then obtain w where "drop p bs = b # w" by (auto simp: at_input_def)
  then show "byte_at bs p = Some b"
    by (metis byte_at_def drop_all hd_drop_conv_nth list.distinct(1) list.sel(1) not_le)
qed

lemma find_byte_at:
  "find_byte bs p c = Inr k \<longleftrightarrow> p \<le> length bs \<and> (\<exists>u. c \<notin> set u \<and> at_input bs p (u @ [c]) (Suc k) \<and> k = p + length u)"
proof
  assume "find_byte bs p c = Inr k"
  then obtain u w where "drop p bs = u @ c # w" "c \<notin> set u" "k = p + length u" by (auto simp: find_byte_Inr)
  moreover from this have "p \<le> length bs" by (metis append_is_Nil_conv drop_all le_cases list.distinct(1))
  ultimately show "p \<le> length bs \<and> (\<exists>u. c \<notin> set u \<and> at_input bs p (u @ [c]) (Suc k) \<and> k = p + length u)"
    by (auto simp: at_input_def)
next
  assume "p \<le> length bs \<and> (\<exists>u. c \<notin> set u \<and> at_input bs p (u @ [c]) (Suc k) \<and> k = p + length u)"
  then show "find_byte bs p c = Inr k" by (auto simp: find_byte_Inr at_input_def)
qed

lemma hd_text_of: "bs \<noteq> [] \<Longrightarrow> hd (text_of bs) = char_of (unat (hd bs))"
  by (cases bs) (simp_all add: text_of_def)

lemma zero_byte: "char_of (unat (b :: u8)) = CHR ''0'' \<longleftrightarrow> b = 48"
proof
  assume "char_of (unat b) = CHR ''0''"
  then have "byte_val (char_of (unat b)) = byte_val (CHR ''0'')" by simp
  moreover have "byte_val (char_of (unat b)) = unat b" using unat_u8_bound [of b] by simp
  ultimately show "b = 48" by (simp add: byte_val_def word_unat_eq_iff)
next
  assume "b = 48"
  then have "byte_val (char_of (unat b)) = byte_val (CHR ''0'')" by simp (simp add: byte_val_def)
  then show "char_of (unat b) = CHR ''0''" by (simp only: byte_val_inject)
qed

lemma canonical_digits:
  assumes "list_all byte_digit raw" and "raw \<noteq> []" and "length raw = 1 \<or> hd raw \<noteq> 48"
  shows "raw = as_bytes (dec (dec_val (text_of raw)))"
proof -
  have "dec (dec_val (text_of raw)) = text_of raw"
    using assms hd_text_of [OF assms(2)] zero_byte [of "hd raw"] length_text_of [of raw]
    by (intro dec_dec_val) (auto simp: byte_digit_text)
  then show ?thesis by simp
qed

lemma dec_bytes:
  "list_all byte_digit (as_bytes (dec n))" "as_bytes (dec n) \<noteq> []"
  "length (as_bytes (dec n)) = 1 \<or> hd (as_bytes (dec n)) \<noteq> 48"
proof -
  show "list_all byte_digit (as_bytes (dec n))" by (simp add: byte_digit_text)
  show "as_bytes (dec n) \<noteq> []" by (metis as_bytes_inject as_bytes_Nil dec_nonempty)
  have "hd (as_bytes (dec n)) = 48 \<Longrightarrow> hd (dec n) = CHR ''0''"
    using zero_byte [of "hd (as_bytes (dec n))"] hd_text_of [OF \<open>as_bytes (dec n) \<noteq> []\<close>] by simp
  then show "length (as_bytes (dec n)) = 1 \<or> hd (as_bytes (dec n)) \<noteq> 48"
    using dec_single_zero [of n] by auto
qed

text \<open>The text of an integer is accepted exactly when it is the canonical decimal of a 64-bit integer.\<close>

lemma minus_byte: "char_of (unat (b :: u8)) = CHR ''-'' \<longleftrightarrow> b = 45"
proof -
  have "char_of (unat b) = CHR ''-'' \<longleftrightarrow> byte_val (char_of (unat b)) = byte_val (CHR ''-'')" by simp
  also have "\<dots> \<longleftrightarrow> unat b = 45" using unat_u8_bound [of b] by (simp, simp add: byte_val_def)
  finally show ?thesis by (simp add: word_unat_eq_iff)
qed

lemma integer_text_negative:
  assumes "hd raw = 45" and "raw \<noteq> []" and "length raw \<noteq> 1" and "raw ! 1 \<noteq> 48" and "list_all byte_digit (tl raw)"
    and "parse_signed 64 (text_of raw) = Some v"
  shows "raw = as_bytes (dec_int v) \<and> - i64_max - 1 \<le> v \<and> v \<le> i64_max"
proof -
  obtain ds where raw: "raw = 45 # ds" using assms(1,2) by (cases raw) auto
  have ds: "ds \<noteq> []" "hd ds \<noteq> 48" "list_all byte_digit ds" using assms(3-5) raw by (cases ds; simp)+
  have t: "text_of raw = CHR ''-'' # text_of ds" using raw minus_byte [of 45] by (simp add: text_of_def)
  have td: "all_digits (text_of ds)" "text_of ds \<noteq> []" "hd (text_of ds) \<noteq> CHR ''0''"
    using ds hd_text_of [OF ds(1)] zero_byte [of "hd ds"] by (auto simp: byte_digit_text)
  then have pos: "0 < dec_val (text_of ds)" by (intro dec_val_pos)
  have v: "v = - int (dec_val (text_of ds))" "dec_val (text_of ds) \<le> 9223372036854775808"
    using assms(6) td by (auto simp: t parse_signed_def split: if_splits)
  have "dec_int v = CHR ''-'' # text_of ds" using v pos td by (simp add: dec_int_def dec_dec_val)
  then have "as_bytes (dec_int v) = raw" using t by (metis as_bytes_text_of)
  with v pos show ?thesis by (simp add: i64_max_def)
qed

lemma integer_text_positive:
  assumes "hd raw \<noteq> 45" and "raw \<noteq> []" and "length raw = 1 \<or> hd raw \<noteq> 48" and "list_all byte_digit raw"
    and "parse_signed 64 (text_of raw) = Some v"
  shows "raw = as_bytes (dec_int v) \<and> - i64_max - 1 \<le> v \<and> v \<le> i64_max"
proof -
  have t: "text_of raw \<noteq> []" "all_digits (text_of raw)" using assms(2,4) by (auto simp: byte_digit_text)
  then obtain c cs where c: "text_of raw = c # cs" by (cases "text_of raw") auto
  have "c \<noteq> CHR ''-''" using t(2) c by auto
  then have v: "v = int (dec_val (text_of raw))" "dec_val (text_of raw) < 9223372036854775808"
    using assms(5) t strip_plus_digits [OF t(2)] by (auto simp: c parse_signed_def Let_def split: if_splits)
  have "dec_int v = dec (dec_val (text_of raw))" using v(1) by (simp add: dec_int_def)
  then have "as_bytes (dec_int v) = raw" using canonical_digits [OF assms(4,2,3)] by simp
  with v show ?thesis by (simp add: i64_max_def)
qed

lemma integer_text_accepted:
  assumes "- i64_max - 1 \<le> v" and "v \<le> i64_max"
  shows "validate_integer (as_bytes (dec_int v)) = Inr ()" and "parse_signed 64 (dec_int v) = Some v"
proof -
  have minus: "as_bytes (CHR ''-'' # t) = 45 # as_bytes t" for t by (simp add: as_bytes_def byte_val_def)
  show "parse_signed 64 (dec_int v) = Some v"
  proof (cases "v < 0")
    case True
    then show ?thesis using assms(1) by (simp add: dec_int_def parse_signed_def i64_max_def nat_le_iff)
  next
    case False
    obtain c cs where c: "dec (nat v) = c # cs" by (cases "dec (nat v)") auto
    then have "c \<noteq> CHR ''-''" using dec_digits [of "nat v"] by auto
    with False c show ?thesis
      using assms(2) strip_plus_digits [OF dec_digits [of "nat v"]] dec_digits [of "nat v"] dec_val_dec [of "nat v"]
      by (simp add: dec_int_def parse_signed_def i64_max_def nat_less_iff Let_def)
  qed
  show "validate_integer (as_bytes (dec_int v)) = Inr ()"
  proof (cases "v < 0")
    case True
    have nz: "hd (as_bytes (dec (nat (- v)))) \<noteq> 48"
    proof
      assume "hd (as_bytes (dec (nat (- v)))) = 48"
      then have "hd (dec (nat (- v))) = CHR ''0''"
        using zero_byte [of "hd (as_bytes (dec (nat (- v))))"] hd_text_of [OF dec_bytes(2) [of "nat (- v)"]] by simp
      then show False using dec_hd [of "nat (- v)"] True by simp
    qed
    obtain b bs where b: "as_bytes (dec (nat (- v))) = b # bs" using dec_bytes(2) [of "nat (- v)"] by (cases "as_bytes (dec (nat (- v)))") auto
    show ?thesis using True nz dec_bytes(1) [of "nat (- v)"] by (simp add: validate_integer_def dec_int_def minus b)
  next
    case False
    obtain b bs where b: "as_bytes (dec (nat v)) = b # bs" using dec_bytes(2) [of "nat v"] by (cases "as_bytes (dec (nat v))") auto
    have d: "byte_digit b" "list_all byte_digit bs" "bs = [] \<or> b \<noteq> 48" using dec_bytes [of "nat v"] by (auto simp: b)
    then have "b \<noteq> 45" by (auto simp: byte_digit_def)
    with False d show ?thesis by (auto simp: validate_integer_def dec_int_def b)
  qed
qed

lemma integer_text_exact:
  "validate_integer raw = Inr () \<and> parse_signed 64 (text_of raw) = Some v \<longleftrightarrow>
     raw = as_bytes (dec_int v) \<and> - i64_max - 1 \<le> v \<and> v \<le> i64_max"
proof
  assume a: "validate_integer raw = Inr () \<and> parse_signed 64 (text_of raw) = Some v"
  then have r: "raw \<noteq> []" "\<not> (1 < length raw \<and> hd raw = 48)" "\<not> (hd raw = 45 \<and> (length raw = 1 \<or> raw ! 1 = 48))"
    "list_all byte_digit (if hd raw = 45 then tl raw else raw)" by (auto simp: validate_integer_def)
  have "length raw = 1 \<or> hd raw \<noteq> 48" using r(1,2) by (cases raw) auto
  then show "raw = as_bytes (dec_int v) \<and> - i64_max - 1 \<le> v \<and> v \<le> i64_max"
    using r a integer_text_negative [of raw v] integer_text_positive [of raw v] by (cases "hd raw = 45") auto
qed (use integer_text_accepted in auto)

lemma at_input_append_iff:
  "at_input bs p (s @ t) r \<longleftrightarrow> at_input bs p s (p + length s) \<and> at_input bs (p + length s) t r"
  using at_input_append at_input_split by blast

lemma at_input_Cons:
  "at_input bs p (b # s) r \<longleftrightarrow> byte_at bs p = Some b \<and> at_input bs (Suc p) s r"
  using at_input_append_iff [of bs p "[b]" s r] by (simp add: at_input_byte)

lemma at_input_Nil [simp]: "at_input bs p [] q \<longleftrightarrow> q = p \<and> p \<le> length bs"
  by (auto simp: at_input_def)

lemma at_input_bounds: "at_input bs p s q \<Longrightarrow> q = p + length s \<and> q \<le> length bs"
  using at_input_slice by (auto simp: at_input_def)

lemma at_input_unique: "at_input bs p s q \<Longrightarrow> at_input bs p t q \<Longrightarrow> s = t"
  using at_input_slice by metis

lemma find_byte_prefix:
  assumes "at_input bs p (u @ [c]) q" and "c \<notin> set u"
  shows "find_byte bs p c = Inr (p + length u)" and "slice bs p (p + length u) = u"
proof -
  have "q = Suc (p + length u)" "p \<le> length bs" using at_input_bounds [OF assms(1)] by simp_all
  with assms show "find_byte bs p c = Inr (p + length u)" unfolding find_byte_at by blast
  show "slice bs p (p + length u) = u"
    using at_input_append_iff [THEN iffD1, OF assms(1)] at_input_slice by blast
qed

lemma int_text_no_end: "101 \<notin> set (as_bytes (dec_int v))" and dec_text_no_colon: "58 \<notin> set (as_bytes (dec n))"
proof -
  have notin: "b \<notin> set (as_bytes (dec n))" if "\<not> byte_digit b" for b n
    using dec_bytes(1) [of n] that by (auto simp: list_all_iff)
  show "101 \<notin> set (as_bytes (dec_int v))"
    using notin [of 101] by (simp add: dec_int_def as_bytes_Cons byte_digit_def) (simp add: byte_val_def)
  show "58 \<notin> set (as_bytes (dec n))" using notin [of 58] by (simp add: byte_digit_def)
qed

text \<open>The two scalars.\<close>

lemma parse_integer_exact:
  assumes "byte_at bs p = Some 105"
  shows "parse_integer bs p = Inr (x, q) \<longleftrightarrow>
    (\<exists>v. x = BInteger v \<and> at_input bs p (encode (TInteger v)) q \<and> - i64_max - 1 \<le> v \<and> v \<le> i64_max)"
proof
  assume a: "parse_integer bs p = Inr (x, q)"
  then obtain e v where e: "find_byte bs (Suc p) 101 = Inr e" "validate_integer (slice bs (Suc p) e) = Inr ()"
    "parse_signed 64 (text_of (slice bs (Suc p) e)) = Some v" "x = BInteger v" "q = Suc e"
    by (auto simp: parse_integer_def Let_def)
  then obtain u where u: "at_input bs (Suc p) (u @ [101]) (Suc e)" "e = Suc p + length u" by (auto simp: find_byte_at)
  have "slice bs (Suc p) e = u" using u(2) at_input_append_iff [THEN iffD1, OF u(1)] at_input_slice by blast
  then have "u = as_bytes (dec_int v)" "- i64_max - 1 \<le> v \<and> v \<le> i64_max"
    using integer_text_exact [of u v] e by auto
  with u e assms show "\<exists>v. x = BInteger v \<and> at_input bs p (encode (TInteger v)) q \<and> - i64_max - 1 \<le> v \<and> v \<le> i64_max"
    by (auto simp: at_input_Cons)
next
  assume "\<exists>v. x = BInteger v \<and> at_input bs p (encode (TInteger v)) q \<and> - i64_max - 1 \<le> v \<and> v \<le> i64_max"
  then obtain v where v: "x = BInteger v" "at_input bs (Suc p) (as_bytes (dec_int v) @ [101]) q"
      "- i64_max - 1 \<le> v" "v \<le> i64_max" by (auto simp: at_input_Cons)
  define e where "e = Suc p + length (dec_int v)"
  have q: "q = Suc e" using v(2) at_input_bounds unfolding e_def by fastforce
  have "find_byte bs (Suc p) 101 = Inr e" "slice bs (Suc p) e = as_bytes (dec_int v)"
    using find_byte_prefix [OF v(2) int_text_no_end] by (simp_all add: e_def)
  then show "parse_integer bs p = Inr (x, q)"
    using integer_text_exact [of "as_bytes (dec_int v)" v] v q by (auto simp: parse_integer_def Let_def)
qed

lemma parse_bytes_exact:
  assumes "byte_at bs p = Some b" and "byte_digit b" and "length bs < 2 ^ 64"
  shows "parse_bytes bs p = Inr (x, q) \<longleftrightarrow> (\<exists>u. x = BBytes u \<and> at_input bs p (encode_bytes u) q)"
proof
  assume a: "parse_bytes bs p = Inr (x, q)"
  then obtain c n where c: "find_byte bs p 58 = Inr c" "\<not> (1 < length (slice bs p c) \<and> hd (slice bs p c) = 48)"
    "parse_unsigned 64 (text_of (slice bs p c)) = Some n" "c + 1 + n \<le> length bs"
    "x = BBytes (slice bs (Suc c) (Suc c + n))" "q = Suc c + n"
    by (auto simp: parse_bytes_def Let_def not_less)
  then obtain r where r: "at_input bs p (r @ [58]) (Suc c)" "c = p + length r" by (auto simp: find_byte_at)
  have sl: "slice bs p c = r" using r(2) at_input_append_iff [THEN iffD1, OF r(1)] at_input_slice by blast
  have rn: "r \<noteq> []" using r(1) assms(1,2) by (cases r) (auto simp: at_input_Cons byte_digit_def)
  then have "hd r = b" using r(1) assms(1) by (cases r) (auto simp: at_input_Cons)
  then have plus: "strip_plus (text_of r) = text_of r"
    using rn assms(2) byte_digit_text [of "[b]"] by (cases r) (auto simp: text_of_def)
  then have ds: "all_digits (text_of r)" "dec_val (text_of r) = n"
    using c(3) sl by (auto simp: parse_unsigned_def Let_def split: if_splits)
  then have rd: "r = as_bytes (dec n)"
  proof -
    have "list_all byte_digit r" using ds(1) by (simp add: byte_digit_text)
    moreover have "length r = 1 \<or> hd r \<noteq> 48" using rn c(2) sl by (cases r) auto
    ultimately show ?thesis using canonical_digits [of r] rn ds(2) by simp
  qed
  define u where "u = slice bs (Suc c) (Suc c + n)"
  have len: "length u = n" using c(4) by (simp add: u_def slice_def)
  have "drop (Suc c) bs = u @ drop n (drop (Suc c) bs)" by (simp add: u_def slice_def del: drop_drop)
  then have "at_input bs (Suc c) u q" using c(4,6) len by (auto simp: at_input_def)
  then have "at_input bs p ((r @ [58]) @ u) q" using r(1) at_input_append by blast
  then show "\<exists>u. x = BBytes u \<and> at_input bs p (encode_bytes u) q"
    using c(5) rd len by (auto simp: encode_bytes_def u_def)
next
  assume "\<exists>u. x = BBytes u \<and> at_input bs p (encode_bytes u) q"
  then obtain u where u: "x = BBytes u" "at_input bs p ((as_bytes (dec (length u)) @ [58]) @ u) q"
    by (auto simp: encode_bytes_def)
  define c where "c = p + length (dec (length u))"
  have h: "at_input bs p (as_bytes (dec (length u)) @ [58]) (Suc c)" "at_input bs (Suc c) u q"
    using at_input_append_iff [THEN iffD1, OF u(2)] by (auto simp: c_def)
  have f: "find_byte bs p 58 = Inr c" and sl: "slice bs p c = as_bytes (dec (length u))"
    using find_byte_prefix [OF h(1) dec_text_no_colon] by (simp_all add: c_def)
  have q: "q = Suc c + length u" "q \<le> length bs" "slice bs (Suc c) q = u"
    using at_input_bounds [OF h(2)] at_input_slice [OF h(2)] by auto
  have "parse_unsigned 64 (dec (length u)) = Some (length u)"
    using parse_unsigned_digits [of "dec (length u)" 64] q assms(3) by simp
  then show "parse_bytes bs p = Inr (x, q)"
    using f sl q u(1) dec_bytes(3) [of "length u"] assms(3) by (auto simp: parse_bytes_def Let_def)
qed

end
