(* ===== verification/Bt_Bencode_Parser.thy ===== *)
theory Bt_Bencode_Parser
  imports Bt_Bencode_Exact
begin

text \<open>
  The recursive parser of bencode: what it accepts is the canonical encoding of the tree it returns, every
  canonical encoding of a well-formed tree is accepted, and the fuel never runs out.
\<close>

abbreviation out_of_fuel :: error where
  "out_of_fuel \<equiv> Foreign ''fuel''"

section \<open>What is accepted is a canonical encoding\<close>

definition entries_text :: "(bytes \<times> bnode) list \<Rightarrow> bytes" where
  "entries_text es = concat (map (\<lambda>(k, x). encode_bytes k @ encode (node_tree x)) es)"

lemma parse_list_sound:
  assumes "parse_list node bs n p es = Inr (fs, q)" and "p \<le> length bs"
    and "\<And>p x q. node p = Inr (x, q) \<Longrightarrow> at_input bs p (encode (node_tree x)) q \<and> P (node_tree x)"
  shows "\<exists>xs. fs = es @ xs \<and> at_input bs p (concat (map (\<lambda>x. encode (node_tree x)) xs) @ [101]) q \<and> (\<forall>x\<in>set xs. P (node_tree x))"
  using assms(1,2)
proof (induction n arbitrary: p es)
  case (Suc n)
  show ?case
  proof (cases "byte_at bs p = Some 101")
    case True
    with Suc.prems show ?thesis by (auto intro!: exI [of _ "[]"] simp: at_input_byte)
  next
    case False
    with Suc.prems obtain x r where x: "node p = Inr (x, r)" "parse_list node bs n r (es @ [x]) = Inr (fs, q)" by auto
    have r: "at_input bs p (encode (node_tree x)) r" "P (node_tree x)" using assms(3) [OF x(1)] by auto
    then have "r \<le> length bs" using at_input_bounds by blast
    from Suc.IH [OF x(2) this] obtain xs where xs: "fs = es @ x # xs"
      "at_input bs r (concat (map (\<lambda>x. encode (node_tree x)) xs) @ [101]) q" "\<forall>x\<in>set xs. P (node_tree x)" by auto
    with r show ?thesis using at_input_append [OF r(1) xs(2)] by (intro exI [of _ "x # xs"]) auto
  qed
qed simp

lemma parse_dictionary_sound:
  assumes "parse_dictionary node bs n p es = Inr (fs, q)" and "p \<le> length bs" and "distinct (map fst es)"
    and "\<And>p x q. node p = Inr (x, q) \<Longrightarrow> at_input bs p (encode (node_tree x)) q \<and> P (node_tree x)"
  shows "\<exists>xs. fs = es @ xs \<and> at_input bs p (entries_text xs @ [101]) q \<and> distinct (map fst fs)
    \<and> (\<forall>(k, x)\<in>set xs. P (node_tree x) \<and> P (TBytes k))"
  using assms(1-3)
proof (induction n arbitrary: p es)
  case (Suc n)
  show ?case
  proof (cases "byte_at bs p = Some 101")
    case True
    with Suc.prems show ?thesis by (auto intro!: exI [of _ "[]"] simp: at_input_byte entries_text_def)
  next
    case False
    with Suc.prems obtain k r where k: "node p = Inr (k, r)" by (auto split: prod.splits)
    with False Suc.prems obtain key x s where x: "bn_value k = BBytes key" "key \<notin> fst ` set es" "node r = Inr (x, s)"
      "parse_dictionary node bs n s (es @ [(key, x)]) = Inr (fs, q)"
      by (auto split: bvalue.splits)
    have "node_tree k = TBytes key" using x(1) by (cases k) auto
    then have r: "at_input bs p (encode_bytes key) r" "P (TBytes key)" using assms(4) [OF k] by auto
    have s: "at_input bs r (encode (node_tree x)) s" "P (node_tree x)" using assms(4) [OF x(3)] by auto
    have "s \<le> length bs" using s(1) at_input_bounds by blast
    moreover have "distinct (map fst (es @ [(key, x)]))" using x(2) Suc.prems(3) by auto
    ultimately obtain xs where xs: "fs = es @ (key, x) # xs" "at_input bs s (entries_text xs @ [101]) q"
      "distinct (map fst fs)" "\<forall>(k, x)\<in>set xs. P (node_tree x) \<and> P (TBytes k)"
      using Suc.IH [OF x(4)] by auto
    have "at_input bs p (entries_text ((key, x) # xs) @ [101]) q"
      using at_input_append [OF at_input_append [OF r(1) s(1)] xs(2)] by (simp add: entries_text_def)
    with xs r(2) s(2) show ?thesis by (intro exI [of _ "(key, x) # xs"]) auto
  qed
qed simp

lemma entries_encode:
  "encode (node_tree (BNode (BDictionary xs) s e)) = [100] @ entries_text xs @ [101]"
  by (simp add: entries_text_def case_prod_unfold comp_def)

lemma parse_node_sound:
  assumes "length bs < 2 ^ 64"
  shows "parse_node n bs d p = Inr (x, q) \<Longrightarrow>
    bn_start x = p \<and> bn_end x = q \<and> at_input bs p (encode (node_tree x)) q \<and> tree_ok d (node_tree x)"
proof (induction n arbitrary: d p x q)
  case (Suc n)
  have sub: "at_input bs p (encode (node_tree x)) q \<and> tree_ok (Suc d) (node_tree x)"
    if "parse_node n bs (Suc d) p = Inr (x, q)" for p x q using Suc.IH [OF that] by blast
  from Suc.prems obtain m v where m: "byte_at bs p = Some m" and d: "d \<le> MAX_BENCODE_DEPTH" and x: "x = BNode v p q"
    and v: "(if m = 105 then parse_integer bs p
        else if m = 108 then and_then (parse_list (parse_node n bs (d + 1)) bs n (p + 1) []) (\<lambda>(es, q). Inr (BList es, q))
        else if m = 100 then and_then (parse_dictionary (parse_node n bs (d + 1)) bs n (p + 1) []) (\<lambda>(es, q). Inr (BDictionary es, q))
        else if byte_digit m then parse_bytes bs p
        else Inl (Bail ''invalid bencode marker'')) = Inr (v, q)"
    by (auto simp: not_less)
  have p: "Suc p \<le> length bs" using m by (auto simp: byte_at_def split: if_splits)
  consider "m = 105" | "m = 108" | "m = 100" | "m \<noteq> 105" "m \<noteq> 108" "m \<noteq> 100" by blast
  then have "at_input bs p (encode (tree_of v)) q \<and> tree_ok d (tree_of v)"
  proof cases
    case 1
    then show ?thesis using v m d parse_integer_exact [of bs p v q] by auto
  next
    case 2
    then obtain es where es: "parse_list (parse_node n bs (Suc d)) bs n (Suc p) [] = Inr (es, q)" "v = BList es"
      using v by auto
    from parse_list_sound [OF es(1) p sub] es(2) m 2 d show ?thesis
      by (auto simp: at_input_Cons comp_def)
  next
    case 3
    then obtain es where es: "parse_dictionary (parse_node n bs (Suc d)) bs n (Suc p) [] = Inr (es, q)" "v = BDictionary es"
      using v by auto
    from parse_dictionary_sound [OF es(1) p _ sub] have
      "at_input bs (Suc p) (entries_text es @ [101]) q" "distinct (map fst es)"
      "\<forall>(k, x)\<in>set es. tree_ok (Suc d) (node_tree x) \<and> tree_ok (Suc d) (TBytes k)" by auto
    with es(2) m 3 d show ?thesis
      using entries_encode [of es 0 0] by (auto simp: at_input_Cons case_prod_unfold comp_def)
  next
    case 4
    then have "byte_digit m" "parse_bytes bs p = Inr (v, q)" using v by (auto split: if_splits)
    then show ?thesis using parse_bytes_exact [OF m _ assms] d by auto
  qed
  with x show ?case by simp
qed simp

section \<open>Every canonical encoding is accepted\<close>

lemma encode_bytes_hd: "\<exists>b s. encode_bytes u = b # s \<and> byte_digit b"
  using dec_bytes(1,2) [of "length u"] by (cases "as_bytes (dec (length u))") (auto simp: encode_bytes_def)

lemma encode_hd: "\<exists>b s. encode t = b # s \<and> b \<noteq> 101 \<and> s \<noteq> []"
proof (cases t)
  case (TBytes u)
  then show ?thesis using dec_bytes(1,2) [of "length u"]
    by (cases "as_bytes (dec (length u))") (auto simp: encode_bytes_def byte_digit_def)
qed auto

lemma encode_nonempty: "2 \<le> length (encode t)"
  using encode_hd [of t] by (auto simp: Suc_le_eq)

lemma parse_list_complete:
  assumes "at_input bs p (concat (map encode ts) @ [101]) q" and "length ts < n"
    and "\<And>t p q. t \<in> set ts \<Longrightarrow> at_input bs p (encode t) q \<Longrightarrow> \<exists>x. node p = Inr (x, q) \<and> node_tree x = t"
  shows "\<exists>xs. parse_list node bs n p es = Inr (es @ xs, q) \<and> map node_tree xs = ts"
  using assms
proof (induction ts arbitrary: n p es)
  case Nil
  then show ?case by (cases n) (auto simp: at_input_Cons intro!: exI [of _ "[]"])
next
  case (Cons t ts)
  obtain n' where n: "n = Suc n'" "length ts < n'" using Cons.prems(2) by (cases n) auto
  define r where "r = p + length (encode t)"
  have a: "at_input bs p (encode t) r" "at_input bs r (concat (map encode ts) @ [101]) q"
    using at_input_append_iff [of bs p "encode t" "concat (map encode ts) @ [101]" q] Cons.prems(1) by (simp_all add: r_def)
  obtain x where x: "node p = Inr (x, r)" "node_tree x = t" using Cons.prems(3) [OF _ a(1)] by auto
  have "byte_at bs p \<noteq> Some 101" using a(1) encode_hd [of t] by (auto simp: at_input_Cons)
  moreover obtain xs where "parse_list node bs n' r (es @ [x]) = Inr ((es @ [x]) @ xs, q)" "map node_tree xs = ts"
    using Cons.IH [OF a(2) n(2) Cons.prems(3)] by (metis list.set_intros(2))
  ultimately show ?case using x n(1) by (intro exI [of _ "x # xs"]) simp
qed

lemma parse_dictionary_complete:
  assumes "at_input bs p (concat (map (\<lambda>(k, t). encode_bytes k @ encode t) ts) @ [101]) q" and "length ts < n"
    and "distinct (map fst es @ map fst ts)"
    and "\<And>k t p q. (k, t) \<in> set ts \<Longrightarrow> at_input bs p (encode t) q \<Longrightarrow> \<exists>x. node p = Inr (x, q) \<and> node_tree x = t"
    and "\<And>k t p q. (k, t) \<in> set ts \<Longrightarrow> at_input bs p (encode_bytes k) q \<Longrightarrow> \<exists>x. node p = Inr (x, q) \<and> node_tree x = TBytes k"
  shows "\<exists>xs. parse_dictionary node bs n p es = Inr (es @ xs, q) \<and> map (\<lambda>(k, x). (k, node_tree x)) xs = ts"
  using assms
proof (induction ts arbitrary: n p es)
  case Nil
  then show ?case by (cases n) (auto simp: at_input_Cons intro!: exI [of _ "[]"])
next
  case (Cons e ts)
  obtain k t where e: "e = (k, t)" by fastforce
  obtain n' where n: "n = Suc n'" "length ts < n'" using Cons.prems(2) by (cases n) auto
  define rest where "rest = concat (map (\<lambda>(k, t). encode_bytes k @ encode t) ts) @ [101]"
  define r s where "r = p + length (encode_bytes k)" and "s = r + length (encode t)"
  have a: "at_input bs p (encode_bytes k) r" "at_input bs r (encode t) s" "at_input bs s rest q"
    using at_input_append_iff [of bs p "encode_bytes k" "encode t @ rest" q] at_input_append_iff [of bs r "encode t" rest q]
      Cons.prems(1) by (simp_all add: r_def s_def e rest_def)
  obtain x where x: "node r = Inr (x, s)" "node_tree x = t" using Cons.prems(4) [OF _ a(2)] e by auto
  obtain y where y: "node p = Inr (y, r)" "node_tree y = TBytes k" using Cons.prems(5) [OF _ a(1)] e by auto
  then have yk: "bn_value y = BBytes k" by (cases y; cases "bn_value y") auto
  have "byte_at bs p \<noteq> Some 101" using a(1) encode_bytes_hd [of k] by (auto simp: at_input_Cons byte_digit_def)
  moreover have "k \<notin> fst ` set es" using Cons.prems(3) e by auto
  moreover have "\<exists>xs. parse_dictionary node bs n' s (es @ [(k, x)]) = Inr ((es @ [(k, x)]) @ xs, q)
      \<and> map (\<lambda>(k, x). (k, node_tree x)) xs = ts"
  proof (rule Cons.IH [OF a(3) [unfolded rest_def] n(2)])
    show "distinct (map fst (es @ [(k, x)]) @ map fst ts)" using Cons.prems(3) e by auto
  qed (use Cons.prems(4,5) in \<open>meson list.set_intros(2)\<close>)+
  then obtain xs where "parse_dictionary node bs n' s (es @ [(k, x)]) = Inr (es @ (k, x) # xs, q)"
      "map (\<lambda>(k, x). (k, node_tree x)) xs = ts" by auto
  ultimately show ?case using x y yk n(1) e by (intro exI [of _ "(k, x) # xs"]) simp
qed

lemma length_concat_entries: "(\<And>t. 1 \<le> length (f t)) \<Longrightarrow> length ts \<le> length (concat (map f ts))"
proof (induction ts)
  case (Cons t ts)
  have "length ts \<le> length (concat (map f ts))" "1 \<le> length (f t)" using Cons by auto
  then show ?case by (simp del: length_greater_0_conv)
qed simp

lemma length_concat_member: "t \<in> set ts \<Longrightarrow> length (f t) \<le> length (concat (map f ts))"
  by (induction ts) auto

lemma parse_node_complete:
  assumes "length bs < 2 ^ 64"
  shows "at_input bs p (encode t) q \<Longrightarrow> tree_ok d t \<Longrightarrow> length (encode t) \<le> n \<Longrightarrow>
    \<exists>x. parse_node n bs d p = Inr (x, q) \<and> node_tree x = t"
proof (induction n arbitrary: d p t q)
  case 0
  then show ?case using encode_nonempty [of t] by simp
next
  case (Suc n)
  show ?case
  proof (cases t)
    case (TInteger v)
    then have "byte_at bs p = Some 105" "d \<le> MAX_BENCODE_DEPTH" using Suc.prems by (auto simp: at_input_Cons)
    with TInteger Suc.prems parse_integer_exact [of bs p "BInteger v" q] show ?thesis
      by (intro exI [of _ "BNode (BInteger v) p q"]) simp
  next
    case (TBytes u)
    obtain b s where b: "encode_bytes u = b # s" "byte_digit b" using encode_bytes_hd by blast
    then have bp: "byte_at bs p = Some b" using Suc.prems(1) TBytes by (auto simp: at_input_Cons)
    have "b \<noteq> 105" "b \<noteq> 108" "b \<noteq> 100" using b(2) by (auto simp: byte_digit_def)
    with bp b TBytes Suc.prems parse_bytes_exact [OF bp b(2) assms, of "BBytes u" q] show ?thesis
      by (intro exI [of _ "BNode (BBytes u) p q"]) simp
  next
    case (TList ts)
    have at: "byte_at bs p = Some 108" "at_input bs (Suc p) (concat (map encode ts) @ [101]) q" "d \<le> MAX_BENCODE_DEPTH"
      using Suc.prems TList by (auto simp: at_input_Cons)
    have n: "length ts < n"
      using length_concat_entries [of encode ts] encode_nonempty Suc.prems(3) TList
      by (fastforce dest: Suc_leD simp: numeral_2_eq_2)
    have sub: "\<exists>x. parse_node n bs (Suc d) p = Inr (x, q) \<and> node_tree x = u"
      if "u \<in> set ts" "at_input bs p (encode u) q" for u p q
      using Suc.IH [OF that(2)] length_concat_member [OF that(1), of encode] Suc.prems(2,3) TList that(1) by auto
    obtain xs where "parse_list (parse_node n bs (Suc d)) bs n (Suc p) [] = Inr ([] @ xs, q)" "map node_tree xs = ts"
      using parse_list_complete [where es = "[]" and node = "parse_node n bs (Suc d)", OF at(2) n sub] by blast
    with at TList show ?thesis by (intro exI [of _ "BNode (BList xs) p q"]) simp
  next
    case (TDictionary es)
    define f where "f = (\<lambda>(k, t). encode_bytes k @ encode t)"
    have at: "byte_at bs p = Some 100" "at_input bs (Suc p) (concat (map f es) @ [101]) q" "d \<le> MAX_BENCODE_DEPTH"
      "distinct (map fst [] @ map fst es)"
      using Suc.prems TDictionary by (auto simp: at_input_Cons f_def)
    have len: "length (concat (map f es)) < n" using Suc.prems(3) TDictionary by (simp add: f_def)
    have "1 \<le> length (f e)" for e using encode_nonempty [of "snd e"] by (simp add: f_def case_prod_unfold)
    then have n: "length es < n" using length_concat_entries [of f es] len by simp
    have mem: "length (encode_bytes k) + length (encode u) \<le> n" if "(k, u) \<in> set es" for k u
      using length_concat_member [OF that, of f] len by (simp add: f_def)
    have ok: "tree_ok (Suc d) u \<and> tree_ok (Suc d) (TBytes k)" if "(k, u) \<in> set es" for k u
      using Suc.prems(2) TDictionary that by auto
    have sub: "\<exists>x. parse_node n bs (Suc d) p = Inr (x, q) \<and> node_tree x = u"
      if "(k, u) \<in> set es" "at_input bs p (encode u) q" for k u p q
      using Suc.IH [OF that(2)] mem [OF that(1)] ok [OF that(1)] by simp
    have key: "\<exists>x. parse_node n bs (Suc d) p = Inr (x, q) \<and> node_tree x = TBytes k"
      if "(k, u) \<in> set es" "at_input bs p (encode_bytes k) q" for k u p q
      using Suc.IH [of p "TBytes k" q "Suc d"] that(2) mem [OF that(1)] ok [OF that(1)] by simp
    have "\<exists>xs. parse_dictionary (parse_node n bs (Suc d)) bs n (Suc p) [] = Inr ([] @ xs, q)
        \<and> map (\<lambda>(k, x). (k, node_tree x)) xs = es"
      by (rule parse_dictionary_complete [OF at(2) [unfolded f_def] n at(4)]) (fact sub key)+
    then obtain xs where "parse_dictionary (parse_node n bs (Suc d)) bs n (Suc p) [] = Inr ([] @ xs, q)"
        "map (\<lambda>(k, x). (k, node_tree x)) xs = es" by blast
    with at TDictionary show ?thesis by (intro exI [of _ "BNode (BDictionary xs) p q"]) simp
  qed
qed

section \<open>Fuel\<close>

text \<open>A loop over entries never runs out when the parser of the entries does not and advances.\<close>

lemma parse_list_fuel:
  assumes "length bs - p < n" and "\<And>p. p0 \<le> p \<Longrightarrow> node p \<noteq> Inl out_of_fuel" and "p0 \<le> p"
    and "\<And>p x q. node p = Inr (x, q) \<Longrightarrow> p < q \<and> q \<le> length bs"
  shows "parse_list node bs n p es \<noteq> Inl out_of_fuel"
  using assms(1,3)
proof (induction n arbitrary: p es)
  case (Suc n)
  have "length bs - q < n \<and> p0 \<le> q" if "node p = Inr (x, q)" for x q
    using assms(4) [OF that] Suc.prems by auto
  with Suc.IH assms(2) [OF Suc.prems(2)] show ?case by (auto simp: and_then_eq_Inl)
qed simp

lemma parse_dictionary_fuel:
  assumes "length bs - p < n" and "\<And>p. p0 \<le> p \<Longrightarrow> node p \<noteq> Inl out_of_fuel" and "p0 \<le> p"
    and "\<And>p x q. node p = Inr (x, q) \<Longrightarrow> p < q \<and> q \<le> length bs"
  shows "parse_dictionary node bs n p es \<noteq> Inl out_of_fuel"
  using assms(1,3)
proof (induction n arbitrary: p es)
  case (Suc n)
  have step: "length bs - r < n \<and> p0 \<le> q \<and> p0 \<le> r" if "node p = Inr (k, q)" "node q = Inr (x, r)" for k x q r
    using assms(4) [OF that(1)] assms(4) [OF that(2)] Suc.prems by auto
  have q: "node q \<noteq> Inl out_of_fuel" if "node p = Inr (k, q)" for k q
    using assms(4) [OF that] assms(2) Suc.prems(2) by (meson le_trans less_imp_le)
  show ?case
    using assms(2) [OF Suc.prems(2)] q Suc.IH step
    by (auto simp: and_then_eq_Inl bail_if_def split: bvalue.splits if_splits)
qed simp

lemma parse_node_fuel:
  assumes "length bs < 2 ^ 64"
  shows "length bs - p < n \<Longrightarrow> parse_node n bs d p \<noteq> Inl out_of_fuel"
proof (induction n arbitrary: d p)
  case (Suc n)
  have adv: "p < q \<and> q \<le> length bs" if "parse_node n bs (d + 1) p = Inr (x, q)" for p x q
    using parse_node_sound [OF assms that] at_input_bounds encode_nonempty [of "node_tree x"] by fastforce
  have n: "length bs - Suc p < n" if "byte_at bs p = Some m" for m
    using Suc.prems that by (auto simp: byte_at_def split: if_splits)
  have sub: "parse_node n bs (d + 1) r \<noteq> Inl out_of_fuel" if "byte_at bs p = Some m" "Suc p \<le> r" for m r
    using Suc.IH n [OF that(1)] that(2) by simp
  have l: "parse_list (parse_node n bs (d + 1)) bs n (p + 1) [] \<noteq> Inl out_of_fuel"
    and dd: "parse_dictionary (parse_node n bs (d + 1)) bs n (p + 1) [] \<noteq> Inl out_of_fuel" if "byte_at bs p = Some m" for m
    using parse_list_fuel [of bs "p + 1" n "p + 1" "parse_node n bs (d + 1)"]
      parse_dictionary_fuel [of bs "p + 1" n "p + 1" "parse_node n bs (d + 1)"] n [OF that] sub [OF that] adv by auto
  have i: "parse_integer bs p \<noteq> Inl out_of_fuel" "parse_bytes bs p \<noteq> Inl out_of_fuel"
    by (auto simp: parse_integer_def parse_bytes_def validate_integer_def find_byte_def and_then_eq_Inl ok_or_def
        bail_if_def Let_def split: option.splits if_splits)
  show ?case
    using i l dd by (auto simp: and_then_eq_Inl bail_if_def ok_or_def split: if_splits option.splits)
qed simp

text \<open>More fuel does not change a result that did not run out of it.\<close>

lemma parse_list_mono:
  assumes "parse_list node bs n p es \<noteq> Inl out_of_fuel" and "n \<le> m"
    and "\<And>p. node p \<noteq> Inl out_of_fuel \<Longrightarrow> node' p = node p"
  shows "parse_list node' bs m p es = parse_list node bs n p es"
  using assms(1,2)
proof (induction n arbitrary: p es m)
  case (Suc n)
  obtain m' where m: "m = Suc m'" "n \<le> m'" using Suc.prems(2) by (cases m) auto
  show ?case
  proof (cases "byte_at bs p = Some 101")
    case True
    then show ?thesis by (simp add: m(1))
  next
    case False
    then have ne: "node p \<noteq> Inl out_of_fuel" using Suc.prems(1) by auto
    show ?thesis
    proof (cases "node p")
      case (Inr xq)
      then show ?thesis using Suc.IH [OF _ m(2)] Suc.prems(1) False assms(3) [OF ne] by (cases xq) (simp add: m(1))
    qed (use False assms(3) [OF ne] in \<open>simp add: m(1)\<close>)
  qed
qed simp

lemma parse_dictionary_mono:
  assumes "parse_dictionary node bs n p es \<noteq> Inl out_of_fuel" and "n \<le> m"
    and "\<And>p. node p \<noteq> Inl out_of_fuel \<Longrightarrow> node' p = node p"
  shows "parse_dictionary node' bs m p es = parse_dictionary node bs n p es"
  using assms(1,2)
proof (induction n arbitrary: p es m)
  case (Suc n)
  obtain m' where m: "m = Suc m'" "n \<le> m'" using Suc.prems(2) by (cases m) auto
  show ?case
  proof (cases "byte_at bs p = Some 101")
    case True
    then show ?thesis by (simp add: m(1))
  next
    case False
    then have ne: "node p \<noteq> Inl out_of_fuel" using Suc.prems(1) by auto
    show ?thesis
    proof (cases "\<exists>k q key. node p = Inr (k, q) \<and> bn_value k = BBytes key \<and> key \<notin> fst ` set es")
      case True
      then obtain k q key where k: "node p = Inr (k, q)" "bn_value k = BBytes key" "key \<notin> fst ` set es" by blast
      then have ne': "node q \<noteq> Inl out_of_fuel" using Suc.prems(1) False by auto
      show ?thesis
      proof (cases "node q")
        case (Inr xr)
        then show ?thesis using Suc.IH [OF _ m(2)] Suc.prems(1) False assms(3) [OF ne] assms(3) [OF ne'] k
          by (cases xr) (simp add: m(1))
      qed (use False assms(3) [OF ne] assms(3) [OF ne'] k in \<open>simp add: m(1)\<close>)
    next
      case neg: False
      then show ?thesis using False assms(3) [OF ne]
        by (cases "node p") (auto simp: m(1) bail_if_def split: bvalue.splits)
    qed
  qed
qed simp

lemma parse_node_mono:
  "parse_node n bs d p \<noteq> Inl out_of_fuel \<Longrightarrow> n \<le> m \<Longrightarrow> parse_node m bs d p = parse_node n bs d p"
proof (induction n arbitrary: d p m)
  case (Suc n)
  obtain m' where m: "m = Suc m'" "n \<le> m'" using Suc.prems(2) by (cases m) auto
  show ?case
  proof (cases "byte_at bs p")
    case (Some b)
    show ?thesis
    proof (cases "d \<le> MAX_BENCODE_DEPTH")
      case True
      have l: "parse_list (parse_node m' bs (Suc d)) bs m' (Suc p) [] = parse_list (parse_node n bs (Suc d)) bs n (Suc p) []"
        if "b = 108" using Suc.prems(1) that Some True by (intro parse_list_mono [OF _ m(2) Suc.IH [OF _ m(2)]]) (auto simp: and_then_eq_Inl)
      have dd: "parse_dictionary (parse_node m' bs (Suc d)) bs m' (Suc p) [] = parse_dictionary (parse_node n bs (Suc d)) bs n (Suc p) []"
        if "b = 100" using Suc.prems(1) that Some True by (intro parse_dictionary_mono [OF _ m(2) Suc.IH [OF _ m(2)]]) (auto simp: and_then_eq_Inl)
      from True Some l dd show ?thesis by (simp add: m(1))
    qed (simp add: m(1))
  qed (simp add: m(1) bail_if_def)
qed simp

section \<open>The parser on whole inputs\<close>

lemma parse_prefix_fuel:
  "length bs < 2 ^ 64 \<Longrightarrow> bencode_fuel bs \<le> n \<Longrightarrow> parse_node n bs 0 0 = parse_prefix bs \<and> parse_prefix bs \<noteq> Inl out_of_fuel"
  using parse_node_fuel [of bs 0 "bencode_fuel bs" 0] parse_node_mono [of "bencode_fuel bs" bs 0 0 n]
  by (simp add: parse_prefix_def bencode_fuel_def)

lemma parse_prefix_sound:
  "parse_prefix bs = Inr (x, q) \<Longrightarrow> length bs < 2 ^ 64 \<Longrightarrow>
    bn_start x = 0 \<and> bn_end x = q \<and> take q bs = encode (node_tree x) \<and> q \<le> length bs \<and> tree_ok 0 (node_tree x)"
  using parse_node_sound [of bs "bencode_fuel bs" 0 0 x q] at_input_slice [of bs 0 "encode (node_tree x)" q]
  by (auto simp: parse_prefix_def slice_def)

lemma parse_prefix_complete:
  assumes "tree_ok 0 t" and "length (encode t @ rest) < 2 ^ 64"
  shows "\<exists>x. parse_prefix (encode t @ rest) = Inr (x, length (encode t)) \<and> node_tree x = t"
  unfolding parse_prefix_def
  by (rule parse_node_complete [OF assms(2)]) (use assms(1) in \<open>auto simp: at_input_def bencode_fuel_def\<close>)

lemma parse_whole_exact:
  assumes "length bs < 2 ^ 64"
  shows "(\<exists>x. parse_whole bs msg = Inr x \<and> node_tree x = t) \<longleftrightarrow> bs = encode t \<and> tree_ok 0 t"
proof
  assume "\<exists>x. parse_whole bs msg = Inr x \<and> node_tree x = t"
  then obtain x where x: "parse_prefix bs = Inr (x, length bs)" "node_tree x = t" by (auto simp: parse_whole_def)
  with parse_prefix_sound [OF x(1) assms] show "bs = encode t \<and> tree_ok 0 t" by auto
next
  assume "bs = encode t \<and> tree_ok 0 t"
  then show "\<exists>x. parse_whole bs msg = Inr x \<and> node_tree x = t"
    using parse_prefix_complete [of t "[]"] assms by (auto simp: parse_whole_def)
qed

end
