(* ===== verification/Bt_Address.thy ===== *)
theory Bt_Address
  imports Rust_Text
begin

text \<open>
  Internet addresses as \<open>std::net\<close> has them: \<open>IpAddr\<close>, \<open>SocketAddr\<close>, and the parser behind
  \<open>str::parse::<IpAddr>\<close> that \<open>crates/meld-core/src/bittorrent.rs\<close> uses for peers named in a dictionary.
  A reader takes the rest of the text and returns what is left.
\<close>

datatype ip_addr = V4 bytes | V6 bytes

type_synonym socket_addr = "ip_addr \<times> u16"

definition hex_val :: "char \<Rightarrow> nat" where
  "hex_val c = (if is_ascii_digit c then digit_val c
     else if is_ascii_upper c then byte_val c - 55 else byte_val c - 87)"

fun read_char :: "char \<Rightarrow> string \<Rightarrow> string option" where
  "read_char c [] = None"
| "read_char c (d # s) = (if c = d then Some s else None)"

text \<open>An octet has at most three digits and no leading zero; a group has at most four hex digits.\<close>

definition read_octet :: "string \<Rightarrow> (u8 \<times> string) option" where
  "read_octet s = (let ds = takeWhile is_ascii_digit s in
     if ds = [] \<or> 3 < length ds \<or> 255 < dec_val ds \<or> (hd ds = CHR ''0'' \<and> 1 < length ds) then None
     else Some (word_of_nat (dec_val ds), dropWhile is_ascii_digit s))"

definition read_group :: "string \<Rightarrow> (u16 \<times> string) option" where
  "read_group s = (let ds = takeWhile is_ascii_hexdigit s in
     if ds = [] \<or> 4 < length ds then None
     else Some (word_of_nat (foldl (\<lambda>a c. a * 16 + hex_val c) 0 ds), dropWhile is_ascii_hexdigit s))"

definition read_separator :: "char \<Rightarrow> nat \<Rightarrow> (string \<Rightarrow> ('a \<times> string) option) \<Rightarrow> string \<Rightarrow> ('a \<times> string) option" where
  "read_separator sep i inner s =
     (if 0 < i then Option.bind (read_char sep s) inner else inner s)"

fun read_octets :: "nat \<Rightarrow> nat \<Rightarrow> string \<Rightarrow> (bytes \<times> string) option" where
  "read_octets i 0 s = Some ([], s)"
| "read_octets i (Suc n) s =
     Option.bind (read_separator (CHR ''.'') i read_octet s) (\<lambda>(b, s).
     Option.bind (read_octets (Suc i) n s) (\<lambda>(bs, s). Some (b # bs, s)))"

definition read_ipv4_addr :: "string \<Rightarrow> (bytes \<times> string) option" where
  "read_ipv4_addr s = read_octets 0 4 s"

text \<open>
  The groups from index \<open>i\<close> on with \<open>n\<close> slots left: the octets read, whether they end in an embedded
  IPv4 address, and the rest.
\<close>

fun read_groups :: "nat \<Rightarrow> nat \<Rightarrow> string \<Rightarrow> bytes \<times> bool \<times> string" where
  "read_groups i 0 s = ([], False, s)"
| "read_groups i (Suc n) s =
     (case (if 0 < n then read_separator (CHR '':'') i read_ipv4_addr s else None) of
        Some (v4, s) \<Rightarrow> (v4, True, s)
      | None \<Rightarrow>
          (case read_separator (CHR '':'') i read_group s of
             None \<Rightarrow> ([], False, s)
           | Some (g, s) \<Rightarrow>
               (case read_groups (Suc i) n s of (bs, v4, s) \<Rightarrow> (be_bytes 2 (unat g) @ bs, v4, s))))"

definition read_ipv6_addr :: "string \<Rightarrow> (bytes \<times> string) option" where
  "read_ipv6_addr s = (case read_groups 0 8 s of (head, head_ipv4, s) \<Rightarrow>
     if length head = 16 then Some (head, s)
     else if head_ipv4 then None
     else Option.bind (read_char (CHR '':'') s) (\<lambda>s.
          Option.bind (read_char (CHR '':'') s) (\<lambda>s.
          case read_groups 0 (7 - length head div 2) s of (rest, _, s) \<Rightarrow>
            Some (head @ replicate (16 - length head - length rest) 0 @ rest, s))))"

definition parse_ip_addr :: "string \<Rightarrow> ip_addr option" where
  "parse_ip_addr s = (case read_ipv4_addr s of
      Some (v4, s) \<Rightarrow> if s = [] then Some (V4 v4) else None
    | None \<Rightarrow>
        (case read_ipv6_addr s of
           Some (v6, s) \<Rightarrow> if s = [] then Some (V6 v6) else None
         | None \<Rightarrow> None))"

text \<open>An address is well formed when it has as many octets as its family says.\<close>

definition ip_ok :: "ip_addr \<Rightarrow> bool" where
  "ip_ok a = (case a of V4 bs \<Rightarrow> length bs = 4 | V6 bs \<Rightarrow> length bs = 16)"

lemma length_read_octets: "read_octets i n s = Some (bs, t) \<Longrightarrow> length bs = n"
  by (induction n arbitrary: i s bs) (auto split: bind_splits)

lemma length_read_groups: "read_groups i n s = (bs, v4, t) \<Longrightarrow> length bs \<le> 2 * n \<and> even (length bs)"
proof (induction n arbitrary: i s bs v4 t)
  case (Suc n)
  show ?case
  proof (cases "if 0 < n then read_separator (CHR '':'') i read_ipv4_addr s else None")
    case None
    with Suc show ?thesis by (fastforce split: option.splits prod.splits)
  next
    case (Some r)
    then have "0 < n" "length (fst r) = 4"
      by (auto simp: read_separator_def read_ipv4_addr_def split: if_splits bind_splits
          intro: length_read_octets [of _ _ _ "fst r" "snd r"])
    with Some Suc.prems show ?thesis by (auto split: prod.splits if_splits)
  qed
qed simp

lemma parse_ip_addr_ok: "parse_ip_addr s = Some a \<Longrightarrow> ip_ok a"
proof -
  assume a: "parse_ip_addr s = Some a"
  have v6: "length bs = 16" if r: "read_ipv6_addr s = Some (bs, t)" for bs t
  proof -
    obtain head v4 u where h: "read_groups 0 8 s = (head, v4, u)" by (metis prod_cases3)
    have "length head \<le> 16" "even (length head)" using length_read_groups [OF h] by auto
    moreover have "length rest \<le> 2 * (7 - length head div 2)" if "read_groups 0 (7 - length head div 2) w = (rest, x, y)"
      for rest w x y using length_read_groups [OF that] by simp
    ultimately show ?thesis
      using r h by (fastforce simp: read_ipv6_addr_def split: if_splits bind_splits prod.splits)
  qed
  have v4: "length bs = 4" if "read_ipv4_addr s = Some (bs, t)" for bs t
    using length_read_octets that by (simp add: read_ipv4_addr_def)
  from a v4 v6 show ?thesis by (auto simp: parse_ip_addr_def ip_ok_def split: option.splits if_splits)
qed

end
