(* ===== verification/Bt_Torrent.thy ===== *)
theory Bt_Torrent
  imports Bt_Bencode_Parser Bt_Address Cdc_Descriptor
begin

text \<open>
  Torrent metadata, tracker responses, the extension handshake and metadata message headers, as read by
  \<open>crates/meld-core/src/bittorrent.rs\<close>. SHA-1 and URL parsing are third-party crates: with the crates
  of the content-defined part they are the fields of the record \<open>bt_ext\<close>.
\<close>

section \<open>Third-party code\<close>

text \<open>What the program reads of a parsed \<open>Url\<close>: scheme, fragment, decoded query pairs and host.\<close>

record parsed_url =
  url_scheme :: string
  url_fragment :: "string option"
  url_query_pairs :: "(string \<times> string) list"
  url_host :: "string option"

record bt_ext =
  bx_cdc :: cdc_ext
  bx_sha1 :: "bytes \<Rightarrow> bytes"
  bx_url_parse :: "string \<Rightarrow> parsed_url result"

text \<open>What is relied on: SHA-1 has 20 bytes, and the crate \<open>hex\<close> prints lower-case digits.\<close>

definition bt_ext_ok :: "bt_ext \<Rightarrow> bool" where
  "bt_ext_ok X \<longleftrightarrow> cdc_ext_ok (bx_cdc X) \<and> (\<forall>b. length (bx_sha1 X b) = 20)
     \<and> (\<forall>b. list_all (\<lambda>c. is_ascii_hexdigit c \<and> \<not> is_ascii_upper c) (cx_hex_encode (bx_cdc X) b))"

abbreviation bx_hex :: "bt_ext \<Rightarrow> bytes \<Rightarrow> string" where
  "bx_hex X \<equiv> cx_hex_encode (bx_cdc X)"

definition sha1_hex :: "bt_ext \<Rightarrow> bytes \<Rightarrow> string" where
  "sha1_hex X bs = bx_hex X (bx_sha1 X bs)"

section \<open>Metadata\<close>

definition MAX_BT_PIECE_LENGTH :: u64 where
  "MAX_BT_PIECE_LENGTH = 16 * 1024 * 1024"

definition MAX_TRACKER_TIERS :: nat where
  "MAX_TRACKER_TIERS = 32"

definition MAX_TRACKERS_PER_TIER :: nat where
  "MAX_TRACKERS_PER_TIER = 32"

record torrent_v1 =
  tv_name :: string
  tv_total_length :: u64
  tv_piece_length :: u64
  tv_piece_sha1 :: "string list"
  tv_info_hash_sha1 :: string
  tv_announce :: "string option"
  tv_announce_list :: "string list list option"

text \<open>The standard library's \<open>chunks_exact\<close>, and the idiom of keeping the first of equal entries.\<close>

fun chunks_exact :: "nat \<Rightarrow> 'a list \<Rightarrow> 'a list list" where
  "chunks_exact n xs = (if n = 0 \<or> length xs < n then [] else take n xs # chunks_exact n (drop n xs))"

declare chunks_exact.simps [simp del]

definition keep_first :: "'a list \<Rightarrow> 'a list" where
  "keep_first xs = foldl (\<lambda>kept x. if x \<in> set kept then kept else kept @ [x]) [] xs"

definition parse_tier :: "bnode \<Rightarrow> string list result" where
  "parse_tier tier = (case bn_value tier of
      BList trackers \<Rightarrow>
        bail_if (MAX_TRACKERS_PER_TIER < length trackers) ''announce-list tier exceeds the safety limit''
       (and_then (try_map (\<lambda>tracker. and_then (node_utf8 tracker ''announce-list entry'') (\<lambda>url.
            bail_if (url = []) ''announce-list contains an empty tracker URL'' (Inr url))) trackers) (\<lambda>urls.
        Inr (keep_first urls)))
    | _ \<Rightarrow> Inl (Bail ''announce-list tier must be a list''))"

definition parse_announce_list :: "bnode \<Rightarrow> string list list result" where
  "parse_announce_list x = (case bn_value x of
      BList tiers \<Rightarrow>
        bail_if (MAX_TRACKER_TIERS < length tiers) ''announce-list exceeds the safety limit''
       (and_then (try_map parse_tier tiers) (\<lambda>parsed. Inr (filter (\<lambda>urls. urls \<noteq> []) parsed)))
    | _ \<Rightarrow> Inl (Bail ''announce-list must be a list of tiers''))"

definition expected_pieces :: "u64 \<Rightarrow> u64 \<Rightarrow> nat" where
  "expected_pieces total_length piece_length =
     (if total_length = 0 then 0 else div_ceil (unat total_length) (unat piece_length))"

definition required :: "(bytes \<times> bnode) list \<Rightarrow> string \<Rightarrow> string \<Rightarrow> bnode result" where
  "required dictionary key msg = ok_or (dictionary_value dictionary (as_bytes key)) (Bail msg)"

definition optional :: "(bytes \<times> bnode) list \<Rightarrow> string \<Rightarrow> (bnode \<Rightarrow> 'a result) \<Rightarrow> 'a option result" where
  "optional dictionary key f = transpose_opt (map_option f (dictionary_value dictionary (as_bytes key)))"

definition parse_v1_info_node ::
    "bt_ext \<Rightarrow> bnode \<Rightarrow> bytes \<Rightarrow> string option \<Rightarrow> string list list option \<Rightarrow> torrent_v1 result" where
  "parse_v1_info_node X info raw_info announce announce_list =
     and_then (as_dictionary info ''info'') (\<lambda>dict.
     bail_if (dictionary_value dict (as_bytes ''files'') \<noteq> None) ''multi-file v1 torrents are not supported''
    (bail_if (dictionary_value dict (as_bytes ''meta version'') \<noteq> None) ''BitTorrent v2/hybrid metadata is not supported''
    (and_then (required dict ''name'' ''info.name is missing'') (\<lambda>name_node.
     and_then (node_utf8 name_node ''info.name'') (\<lambda>name.
     and_then (required dict ''length'' ''info.length is missing'') (\<lambda>length_node.
     and_then (node_u64 length_node ''info.length'') (\<lambda>total_length.
     and_then (required dict ''piece length'' ''info.piece length is missing'') (\<lambda>piece_node.
     and_then (node_u64 piece_node ''info.piece length'') (\<lambda>piece_length.
     bail_if (piece_length = 0) ''info.piece length must be greater than zero''
    (bail_if (MAX_BT_PIECE_LENGTH < piece_length) ''info.piece length exceeds the safety limit''
    (and_then (required dict ''pieces'' ''info.pieces is missing'') (\<lambda>pieces_node.
     and_then (as_byte_string pieces_node ''info.pieces'') (\<lambda>pieces.
     bail_if (length pieces mod 20 \<noteq> 0) ''info.pieces length must be a multiple of 20 bytes''
    (bail_if (length pieces div 20 \<noteq> expected_pieces total_length piece_length) ''info.pieces count mismatch''
    (Inr \<lparr>tv_name = name, tv_total_length = total_length, tv_piece_length = piece_length,
       tv_piece_sha1 = map (bx_hex X) (chunks_exact 20 pieces),
       tv_info_hash_sha1 = sha1_hex X raw_info, tv_announce = announce,
       tv_announce_list = announce_list\<rparr>)))))))))))))))"

definition parse_v1_torrent :: "bt_ext \<Rightarrow> bytes \<Rightarrow> torrent_v1 result" where
  "parse_v1_torrent X bs =
     and_then (parse_whole bs ''trailing bytes after bencoded torrent metadata'') (\<lambda>root.
     and_then (as_dictionary root ''torrent root'') (\<lambda>dict.
     and_then (required dict ''info'' ''torrent has no info dictionary'') (\<lambda>info.
     and_then (optional dict ''announce'' (\<lambda>x. node_utf8 x ''announce'')) (\<lambda>announce.
     and_then (optional dict ''announce-list'' parse_announce_list) (\<lambda>announce_list.
     parse_v1_info_node X info (slice bs (bn_start info) (bn_end info)) announce announce_list)))))"

definition parse_v1_info_dictionary ::
    "bt_ext \<Rightarrow> bytes \<Rightarrow> string option \<Rightarrow> string list list option \<Rightarrow> torrent_v1 result" where
  "parse_v1_info_dictionary X bs announce announce_list =
     and_then (parse_whole bs ''trailing bytes after bencoded info dictionary'') (\<lambda>info.
     parse_v1_info_node X info bs announce announce_list)"

definition load_v1_torrent :: "bt_ext \<Rightarrow> bytes result \<Rightarrow> torrent_v1 result" where
  "load_v1_torrent X content = (case content of
      Inl e \<Rightarrow> Inl (Bail ''read torrent'') | Inr bs \<Rightarrow> parse_v1_torrent X bs)"

section \<open>Peer messages\<close>

definition parse_extension_handshake :: "bytes \<Rightarrow> (u8 \<times> u64) result" where
  "parse_extension_handshake bs =
     and_then (parse_whole bs ''trailing bytes after extension handshake'') (\<lambda>root.
     and_then (as_dictionary root ''extension handshake'') (\<lambda>dict.
     and_then (required dict ''m'' ''extension handshake has no m dictionary'') (\<lambda>m.
     and_then (as_dictionary m ''extension handshake m'') (\<lambda>mappings.
     and_then (required mappings ''ut_metadata'' ''peer does not advertise ut_metadata'') (\<lambda>id_node.
     and_then (node_u64 id_node ''ut_metadata extension id'') (\<lambda>extension_id.
     bail_if (255 < extension_id) ''ut_metadata extension id is outside the one-byte range''
    (bail_if (extension_id = 0) ''peer advertised reserved extension id zero for ut_metadata''
    (and_then (required dict ''metadata_size'' ''extension handshake has no metadata_size'') (\<lambda>size_node.
     and_then (node_u64 size_node ''metadata_size'') (\<lambda>metadata_size.
     Inr (ucast extension_id, metadata_size)))))))))))"

definition parse_metadata_message_header :: "bytes \<Rightarrow> (u64 \<times> u64 \<times> u64 option \<times> nat) result" where
  "parse_metadata_message_header bs =
     and_then (parse_prefix bs) (\<lambda>(root, header_end).
     and_then (as_dictionary root ''ut_metadata message'') (\<lambda>dict.
     and_then (required dict ''msg_type'' ''ut_metadata msg_type is missing'') (\<lambda>type_node.
     and_then (node_u64 type_node ''ut_metadata msg_type'') (\<lambda>message_type.
     and_then (required dict ''piece'' ''ut_metadata piece is missing'') (\<lambda>piece_node.
     and_then (node_u64 piece_node ''ut_metadata piece'') (\<lambda>piece.
     and_then (optional dict ''total_size'' (\<lambda>x. node_u64 x ''ut_metadata total_size'')) (\<lambda>total_size.
     Inr (message_type, piece, total_size, header_end))))))))"

section \<open>Tracker responses\<close>

record tracker_response =
  tr_interval :: u64
  tr_peers :: "socket_addr list"
  tr_warning_message :: "string option"

definition be_u16 :: "u8 \<Rightarrow> u8 \<Rightarrow> u16" where
  "be_u16 a b = word_of_nat (be_nat [a, b])"

definition compact_peer :: "(bytes \<Rightarrow> ip_addr) \<Rightarrow> bytes \<Rightarrow> socket_addr" where
  "compact_peer family peer = (let n = length peer - 2 in (family (take n peer), be_u16 (peer ! n) (peer ! (n + 1))))"

definition parse_compact_ipv4_peers :: "bytes \<Rightarrow> socket_addr list result" where
  "parse_compact_ipv4_peers bs =
     bail_if (length bs mod 6 \<noteq> 0) ''compact IPv4 peer list length must be a multiple of 6''
    (Inr (filter (\<lambda>(_, port). port \<noteq> 0) (map (compact_peer V4) (chunks_exact 6 bs))))"

definition parse_compact_ipv6_peers :: "bytes \<Rightarrow> socket_addr list result" where
  "parse_compact_ipv6_peers bs =
     bail_if (length bs mod 18 \<noteq> 0) ''compact IPv6 peer list length must be a multiple of 18''
    (Inr (filter (\<lambda>(_, port). port \<noteq> 0) (map (compact_peer V6) (chunks_exact 18 bs))))"

definition dictionary_peer :: "bnode \<Rightarrow> socket_addr result" where
  "dictionary_peer x =
     and_then (as_dictionary x ''tracker peer'') (\<lambda>dict.
     and_then (required dict ''ip'' ''tracker peer has no ip'') (\<lambda>ip_node.
     and_then (node_utf8 ip_node ''peer.ip'') (\<lambda>text.
     and_then (ok_or (parse_ip_addr text) (Bail ''tracker peer has invalid IP address'')) (\<lambda>ip.
     and_then (required dict ''port'' ''tracker peer has no port'') (\<lambda>port_node.
     and_then (node_u64 port_node ''peer.port'') (\<lambda>port.
     bail_if (65535 < port) ''tracker peer port is out of range'' (Inr (ip, ucast port))))))))"

definition parse_dictionary_peers :: "bnode list \<Rightarrow> socket_addr list result" where
  "parse_dictionary_peers entries =
     and_then (try_map dictionary_peer entries) (\<lambda>peers. Inr (filter (\<lambda>(_, port). port \<noteq> 0) peers))"

definition parse_peers :: "bnode \<Rightarrow> socket_addr list result" where
  "parse_peers x = (case bn_value x of
      BBytes compact \<Rightarrow> parse_compact_ipv4_peers compact
    | BList entries \<Rightarrow> parse_dictionary_peers entries
    | _ \<Rightarrow> Inl (Bail ''tracker peers must be a compact byte string or a list''))"

definition parse_tracker_response :: "bytes \<Rightarrow> tracker_response result" where
  "parse_tracker_response bs =
     and_then (parse_whole bs ''trailing bytes after bencoded tracker response'') (\<lambda>root.
     and_then (as_dictionary root ''tracker response'') (\<lambda>dict.
     case dictionary_value dict (as_bytes ''failure reason'') of
       Some failure \<Rightarrow> and_then (node_utf8 failure ''failure reason'') (\<lambda>reason.
         Inl (Bail (''tracker failure: '' @ reason)))
     | None \<Rightarrow>
         and_then (optional dict ''interval'' (\<lambda>x. node_u64 x ''interval'')) (\<lambda>interval.
         and_then (optional dict ''warning message'' (\<lambda>x. node_utf8 x ''warning message'')) (\<lambda>warning.
         and_then (optional dict ''peers'' parse_peers) (\<lambda>peers.
         and_then (optional dict ''peers6'' (\<lambda>x. and_then (as_byte_string x ''peers6'') parse_compact_ipv6_peers)) (\<lambda>peers6.
         Inr \<lparr>tr_interval = (case interval of None \<Rightarrow> 0 | Some i \<Rightarrow> i),
           tr_peers = keep_first ((case peers of None \<Rightarrow> [] | Some ps \<Rightarrow> ps) @ (case peers6 of None \<Rightarrow> [] | Some ps \<Rightarrow> ps)),
           tr_warning_message = warning\<rparr>))))))"

end
