(* ===== verification/Bt_Magnet.thy ===== *)
theory Bt_Magnet
  imports Bt_Torrent
begin

unbundle bit_operations_syntax

text \<open>
  Magnet links: \<open>crates/meld-core/src/magnet.rs\<close>. URL parsing is the crate \<open>url\<close>, a field of \<open>bt_ext\<close>;
  the decoding of the info hash, hexadecimal or base32, is the program's own.
\<close>

section \<open>Info hashes\<close>

definition base32_digit :: "u8 \<Rightarrow> u8 option" where
  "base32_digit byte =
     (let upper = (if 97 \<le> byte \<and> byte \<le> 122 then byte - 32 else byte) in
      if 65 \<le> upper \<and> upper \<le> 90 then Some (upper - 65)
      else if 50 \<le> upper \<and> upper \<le> 55 then Some (byte - 50 + 26)
      else None)"

text \<open>The body of the loop over the characters: the output, the accumulator and its number of bits.\<close>

definition base32_step :: "bytes \<times> u32 \<times> nat \<Rightarrow> u8 \<Rightarrow> (bytes \<times> u32 \<times> nat) result" where
  "base32_step s byte = (case s of (output, accumulator, bits) \<Rightarrow>
     and_then (ok_or (base32_digit byte) (Bail ''v1 magnet info hash contains an invalid base32 character'')) (\<lambda>d.
     let accumulator = push_bit 5 accumulator OR ucast d; bits = bits + 5 in
     if 8 \<le> bits then
       (let bits = bits - 8 in
        Inr (output @ [ucast (drop_bit bits accumulator)],
             accumulator AND saturating_sub (push_bit bits 1) 1, bits))
     else Inr (output, accumulator, bits)))"

definition decode_btih :: "bt_ext \<Rightarrow> string \<Rightarrow> string result" where
  "decode_btih X s =
     (if length s = 40 \<and> list_all is_ascii_hexdigit s then Inr (to_ascii_lowercase s)
      else bail_if (length s \<noteq> 32) ''v1 magnet info hash must be 40 hexadecimal or 32 base32 characters''
       (and_then (try_fold base32_step ([], 0, 0) (as_bytes s)) (\<lambda>(output, _, bits).
        bail_if (length output \<noteq> 20 \<or> bits \<noteq> 0) ''v1 magnet base32 info hash has an invalid length''
       (Inr (bx_hex X output)))))"

section \<open>Links\<close>

record magnet_v1 =
  mg_info_hash_sha1 :: string
  mg_display_name :: "string option"
  mg_trackers :: "string list"

definition validate_tracker :: "bt_ext \<Rightarrow> string \<Rightarrow> unit result" where
  "validate_tracker X s =
     and_then (bx_url_parse X s) (\<lambda>tracker.
     bail_if (url_scheme tracker \<notin> {''http'', ''https'', ''udp''}) ''magnet tracker uses unsupported scheme''
    (bail_if (url_host tracker = None) ''magnet tracker URL has no host''
    (Inr ())))"

text \<open>One query pair: the info hash seen so far, the display name and the trackers.\<close>

definition magnet_pair ::
    "bt_ext \<Rightarrow> string option \<times> string option \<times> string list \<Rightarrow> string \<times> string
       \<Rightarrow> (string option \<times> string option \<times> string list) result" where
  "magnet_pair X s pair = (case s of (info_hash, display_name, trackers) \<Rightarrow> case pair of (key, v) \<Rightarrow>
     if key = ''xt'' then
       (case strip_prefix ''urn:btih:'' v of
          None \<Rightarrow> Inr s
        | Some encoded \<Rightarrow>
            and_then (decode_btih X encoded) (\<lambda>decoded.
            bail_if (info_hash \<noteq> None \<and> info_hash \<noteq> Some decoded) ''magnet URI contains conflicting v1 info hashes''
           (Inr (Some decoded, display_name, trackers))))
     else if key = ''dn'' \<and> display_name = None then Inr (info_hash, Some v, trackers)
     else if key = ''tr'' then
       and_then (validate_tracker X v) (\<lambda>_.
       Inr (info_hash, display_name, if v \<in> set trackers then trackers else trackers @ [v]))
     else Inr s)"

definition parse_v1_magnet :: "bt_ext \<Rightarrow> string \<Rightarrow> magnet_v1 result" where
  "parse_v1_magnet X s =
     and_then (bx_url_parse X s) (\<lambda>url.
     bail_if (url_scheme url \<noteq> ''magnet'') ''expected a magnet URI''
    (bail_if (url_fragment url \<noteq> None) ''magnet URI fragments are not supported''
    (and_then (try_fold (magnet_pair X) (None, None, []) (url_query_pairs url)) (\<lambda>(info_hash, display_name, trackers).
     and_then (ok_or info_hash (Bail ''magnet URI has no v1 urn:btih exact topic'')) (\<lambda>h.
     Inr \<lparr>mg_info_hash_sha1 = h, mg_display_name = display_name, mg_trackers = trackers\<rparr>)))))"

definition bind_v1_magnet :: "magnet_v1 \<Rightarrow> torrent_v1 \<Rightarrow> torrent_v1 result" where
  "bind_v1_magnet magnet t =
     bail_if (mg_info_hash_sha1 magnet \<noteq> tv_info_hash_sha1 t) ''magnet/torrent info-hash mismatch''
    (Inr (if mg_trackers magnet \<noteq> []
          then t\<lparr>tv_announce := Some (hd (mg_trackers magnet)), tv_announce_list := Some [mg_trackers magnet]\<rparr>
          else t))"

section \<open>Base32 is a number in base 32\<close>

text \<open>The reference: the digits are those of a number, printed as 20 bytes.\<close>

definition base32_nat :: "u8 list \<Rightarrow> nat" where
  "base32_nat ds = foldl (\<lambda>a d. a * 32 + unat d) 0 ds"

lemma base32_digit_bound: "base32_digit b = Some d \<Longrightarrow> unat d < 32"
proof -
  assume a: "base32_digit b = Some d"
  define u where "u = (if 97 \<le> b \<and> b \<le> 122 then b - 32 else b)"
  have u: "unat u = (if 97 \<le> unat b \<and> unat b \<le> 122 then unat b - 32 else unat b)"
    by (auto simp: u_def word_le_nat_alt unat_sub)
  have a': "(if 65 \<le> u \<and> u \<le> 90 then Some (u - 65) else if 50 \<le> u \<and> u \<le> 55 then Some (b - 50 + 26) else None) = Some d"
    using a unfolding base32_digit_def Let_def u_def .
  show ?thesis
  proof (cases "65 \<le> u \<and> u \<le> 90")
    case True
    then have "d = u - 65" using a' by simp
    moreover have "unat (u - 65) = unat u - 65" using True by (subst unat_sub) (simp_all add: word_le_nat_alt)
    moreover have "unat u \<le> 90" using True by (simp add: word_le_nat_alt)
    ultimately show ?thesis by simp
  next
    case False
    then have d: "50 \<le> u \<and> u \<le> 55 \<and> d = b - 50 + 26"
      using a' by (simp split: if_splits)
    then have "50 \<le> unat b" "unat b \<le> 55" using u by (auto simp: word_le_nat_alt split: if_splits)
    moreover from this have "unat (b - 24) = unat b - 24" by (simp add: unat_sub word_le_nat_alt)
    ultimately show ?thesis using d by simp
  qed
qed

lemma push_or:
  fixes a :: u32
  assumes "unat a < 2 ^ 8" and "unat d < 32"
  shows "unat (push_bit 5 a OR ucast (d :: u8)) = unat a * 32 + unat d"
proof -
  have "push_bit 5 a AND ucast d = 0"
  proof (rule bit_word_eqI)
    fix n assume "n < LENGTH(32)"
    have "\<not> bit d n" if "5 \<le> n"
    proof -
      have "take_bit 5 (unat d) = unat d" using assms(2) by (simp add: take_bit_nat_eq_self_iff)
      then have "\<not> bit (unat d) n" using that by (metis bit_take_bit_iff not_le)
      then show ?thesis by (simp add: bit_unsigned_iff)
    qed
    then show "bit (push_bit 5 a AND ucast d) n = bit 0 n" by (auto simp: bit_simps)
  qed
  then have "push_bit 5 a OR ucast d = push_bit 5 a + ucast d" by (simp add: disjunctive_add_eq_or)
  moreover have "unat (push_bit 5 a) = unat a * 32"
    using assms(1) by (simp add: push_bit_eq_mult unat_word_ariths)
  moreover have "unat (ucast d :: u32) = unat d" by (rule unat_ucast_fits) (use assms(2) in simp)
  ultimately show ?thesis using assms by (simp add: unat_word_ariths)
qed

text \<open>The accumulator holds the low bits of the number read so far, the output the others.\<close>

definition base32_inv :: "nat \<Rightarrow> nat \<Rightarrow> bytes \<times> u32 \<times> nat \<Rightarrow> bool" where
  "base32_inv k v s \<longleftrightarrow> (case s of (output, accumulator, bits) \<Rightarrow>
     v = be_nat output * 2 ^ bits + unat accumulator \<and> unat accumulator < 2 ^ bits \<and> bits < 8
     \<and> 8 * length output + bits = 5 * k)"

lemma base32_step_inv:
  assumes "base32_inv k v s" and "base32_step s b = Inr s'"
  shows "\<exists>d. base32_digit b = Some d \<and> base32_inv (Suc k) (v * 32 + unat d) s'"
proof -
  obtain out acc n where s: "s = (out, acc, n)" by (metis prod_cases3)
  have i: "v = be_nat out * 2 ^ n + unat acc" "unat acc < 2 ^ n" "n < 8" "8 * length out + n = 5 * k"
    using assms(1) by (auto simp: s base32_inv_def)
  obtain d where d: "base32_digit b = Some d" using assms(2) by (auto simp: s base32_step_def)
  note db = base32_digit_bound [OF d]
  let ?acc = "push_bit 5 acc OR ucast d"
  have "(2 :: nat) ^ n < 2 ^ 8" using i(3) by (intro power_strict_increasing) auto
  then have acc: "unat ?acc = unat acc * 32 + unat d" using push_or [OF _ db] i(2) by simp
  have accb: "unat ?acc < 2 ^ (n + 5)"
  proof -
    have "Suc (unat acc) * 32 \<le> 2 ^ n * 32" using i(2) by (intro mult_le_mono1) simp
    then show ?thesis using acc db by (simp add: power_add)
  qed
  have v: "v * 32 + unat d = be_nat out * 2 ^ (n + 5) + unat ?acc" using i(1) acc by (simp add: power_add algebra_simps)
  show ?thesis
  proof (cases "8 \<le> n + 5")
    case False
    then have "s' = (out, ?acc, n + 5)" using assms(2) d by (simp add: s base32_step_def Let_def)
    with False v accb i(4) d show ?thesis by (simp add: base32_inv_def)
  next
    case True
    define m where "m = n - 3"
    have m: "n + 5 = m + 8" "m < 5" using True i(3) by (auto simp: m_def)
    have s': "s' = (out @ [ucast (drop_bit m ?acc)], ?acc AND saturating_sub (push_bit m 1) 1, m)"
      using assms(2) d True m by (simp add: s base32_step_def Let_def m_def)
    have p: "push_bit m (1 :: u32) = 2 ^ m" by (simp add: push_bit_eq_mult)
    have "m = 0 \<or> m = 1 \<or> m = 2 \<or> m = 3 \<or> m = 4" using m(2) by linarith
    then have "(1 :: u32) \<le> push_bit m 1" by (elim disjE) simp_all
    with p have low: "?acc AND saturating_sub (push_bit m 1) 1 = take_bit m ?acc"
      by (simp add: saturating_sub_def take_bit_eq_mask mask_eq_exp_minus_1)
    have ul: "unat (take_bit m ?acc) = unat ?acc mod 2 ^ m" by (subst unsigned_take_bit_eq) (rule take_bit_eq_mod)
    have uh: "unat (drop_bit m ?acc) = unat ?acc div 2 ^ m" by (subst unat_drop_bit_eq) (rule drop_bit_eq_div)
    have "unat ?acc div 2 ^ m < 2 ^ 8" using accb m by (simp add: less_mult_imp_div_less power_add mult.commute)
    then have uh': "unat (ucast (drop_bit m ?acc) :: u8) = unat ?acc div 2 ^ m" using uh by (simp add: unat_ucast_fits)
    have "be_nat (out @ [ucast (drop_bit m ?acc)]) * 2 ^ m + unat ?acc mod 2 ^ m = be_nat out * 2 ^ (m + 8) + unat ?acc"
      using div_mult_mod_eq [of "unat ?acc" "2 ^ m"] uh' by (simp add: power_add algebra_simps)
    with v m have "v * 32 + unat d = be_nat (out @ [ucast (drop_bit m ?acc)]) * 2 ^ m + unat ?acc mod 2 ^ m" by simp
    then show ?thesis using d m i(4) low ul unfolding s' base32_inv_def by (intro exI [of _ d]) auto
  qed
qed

lemma base32_fold:
  "try_fold base32_step s bs = Inr s' \<Longrightarrow> base32_inv k v s \<Longrightarrow>
    \<exists>ds. map base32_digit bs = map Some ds \<and> base32_inv (k + length bs) (foldl (\<lambda>a d. a * 32 + unat d) v ds) s'"
proof (induction bs arbitrary: s k v)
  case (Cons b bs)
  then obtain s1 where s1: "base32_step s b = Inr s1" "try_fold base32_step s1 bs = Inr s'" by auto
  obtain d where d: "base32_digit b = Some d" "base32_inv (Suc k) (v * 32 + unat d) s1"
    using base32_step_inv [OF Cons.prems(2) s1(1)] by blast
  obtain ds where "map base32_digit bs = map Some ds"
    "base32_inv (Suc k + length bs) (foldl (\<lambda>a d. a * 32 + unat d) (v * 32 + unat d) ds) s'"
    using Cons.IH [OF s1(2) d(2)] by blast
  with d(1) show ?case by (intro exI [of _ "d # ds"]) simp
qed simp

lemma base32_fold_total:
  "map base32_digit bs = map Some ds \<Longrightarrow> \<exists>s'. try_fold base32_step s bs = Inr s'"
proof (induction bs arbitrary: ds s)
  case (Cons b bs)
  then obtain d ds' where d: "ds = d # ds'" "base32_digit b = Some d" "map base32_digit bs = map Some ds'" by (cases ds) auto
  obtain out acc n where s: "s = (out, acc, n)" by (metis prod_cases3)
  have "\<exists>s1. base32_step s b = Inr s1" using d(2) by (simp add: s base32_step_def Let_def)
  then show ?case using Cons.IH [OF d(3)] by auto
qed auto

text \<open>The base32 branch: thirty-two base32 digits, decoded as the twenty bytes of their number.\<close>

lemma decode_base32:
  assumes "length s = 32"
  shows "decode_btih X s = Inr h \<longleftrightarrow>
    (\<exists>ds. map base32_digit (as_bytes s) = map Some ds \<and> h = bx_hex X (be_bytes 20 (base32_nat ds)))"
proof -
  have inv0: "base32_inv 0 0 ([], 0, 0)" by (simp add: base32_inv_def)
  have fin: "\<exists>out acc. s' = (out, acc, 0) \<and> length out = 20 \<and> out = be_bytes 20 (base32_nat ds)"
    if "base32_inv 32 (base32_nat ds) s'" for s' ds
  proof -
    obtain out acc n where s': "s' = (out, acc, n)" by (metis prod_cases3)
    then have b: "n < 8" "8 * length out + n = 160" using that by (auto simp: base32_inv_def)
    then have n: "n = 0" "length out = 20" by presburger+
    then have "base32_nat ds = be_nat out" using that by (simp add: s' base32_inv_def)
    then show ?thesis using n s' be_bytes_be_nat [of out] by simp
  qed
  have fold: "base32_inv 32 (base32_nat ds) s'"
    if "try_fold base32_step ([], 0, 0) (as_bytes s) = Inr s'" "map base32_digit (as_bytes s) = map Some ds" for s' ds
    using base32_fold [OF that(1) inv0] that(2) assms by (auto simp: base32_nat_def inj_map_eq_map)
  show ?thesis
  proof
    assume "decode_btih X s = Inr h"
    then obtain s' where r: "try_fold base32_step ([], 0, 0) (as_bytes s) = Inr s'" "h = bx_hex X (fst s')"
      using assms by (auto simp: decode_btih_def split: prod.splits)
    obtain ds where "map base32_digit (as_bytes s) = map Some ds" using base32_fold [OF r(1) inv0] by blast
    with r fin [OF fold [OF r(1) this]] show "\<exists>ds. map base32_digit (as_bytes s) = map Some ds \<and> h = bx_hex X (be_bytes 20 (base32_nat ds))"
      by auto
  next
    assume "\<exists>ds. map base32_digit (as_bytes s) = map Some ds \<and> h = bx_hex X (be_bytes 20 (base32_nat ds))"
    then obtain ds where ds: "map base32_digit (as_bytes s) = map Some ds" "h = bx_hex X (be_bytes 20 (base32_nat ds))" by blast
    obtain s' where s': "try_fold base32_step ([], 0, 0) (as_bytes s) = Inr s'" using base32_fold_total [OF ds(1)] by blast
    with ds(2) fin [OF fold [OF s' ds(1)]] assms show "decode_btih X s = Inr h" by (auto simp: decode_btih_def)
  qed
qed

text \<open>The encoder, to state the round trip.\<close>

definition base32_char :: "nat \<Rightarrow> char" where
  "base32_char d = (if d < 26 then char_of (65 + d) else char_of (24 + d))"

fun base32_digits :: "nat \<Rightarrow> nat \<Rightarrow> nat list" where
  "base32_digits 0 v = []"
| "base32_digits (Suc n) v = base32_digits n (v div 32) @ [v mod 32]"

definition base32_encode :: "bytes \<Rightarrow> string" where
  "base32_encode bs = map base32_char (base32_digits 32 (be_nat bs))"

lemma base32_digits_bound: "d \<in> set (base32_digits n v) \<Longrightarrow> d < 32"
  by (induction n arbitrary: v) auto

lemma length_base32_digits [simp]: "length (base32_digits n v) = n"
  by (induction n arbitrary: v) simp_all

lemma base32_digit_char: "d < 32 \<Longrightarrow> base32_digit (word_of_nat (byte_val (base32_char d))) = Some (word_of_nat d)"
proof -
  have "\<forall>d\<in>set [0..<32]. base32_digit (word_of_nat (byte_val (base32_char d))) = Some (word_of_nat d)"
    by (simp add: upt_rec base32_char_def base32_digit_def)
  then show "d < 32 \<Longrightarrow> base32_digit (word_of_nat (byte_val (base32_char d))) = Some (word_of_nat d)" by simp
qed

lemma base32_nat_digits: "v < 32 ^ n \<Longrightarrow> base32_nat (map word_of_nat (base32_digits n v)) = v"
proof (induction n arbitrary: v)
  case (Suc n)
  have "v div 32 < 32 ^ n" using Suc.prems by (simp add: less_mult_imp_div_less mult.commute)
  moreover have "unat (word_of_nat (v mod 32) :: u8) = v mod 32" by (simp add: unat_of_nat)
  ultimately show ?case using Suc.IH [of "v div 32"] by (simp add: base32_nat_def)
qed (simp add: base32_nat_def)

lemma decode_base32_encode:
  assumes "length bs = 20"
  shows "decode_btih X (base32_encode bs) = Inr (bx_hex X bs)"
proof -
  have "map base32_digit (as_bytes (base32_encode bs)) = map Some (map word_of_nat (base32_digits 32 (be_nat bs)))"
    by (auto simp: base32_encode_def as_bytes_def base32_digit_char dest: base32_digits_bound)
  moreover have "be_nat bs < 32 ^ 32" using be_nat_bound [of bs] assms by simp
  then have "be_bytes 20 (base32_nat (map word_of_nat (base32_digits 32 (be_nat bs)))) = bs"
    using be_bytes_be_nat [of bs] assms by (simp add: base32_nat_digits del: map_map)
  ultimately show ?thesis
    using decode_base32 [of "base32_encode bs" X "bx_hex X bs"] by (auto simp: base32_encode_def simp del: map_map)
qed

end
