(* ===== verification/Bt_Plan.thy ===== *)
theory Bt_Plan
  imports Bt_Torrent Cdc_Rebuild
begin

text \<open>
  The plan that bridges a BitTorrent download and the local index: \<open>plan_v1_bridge\<close> and
  \<open>read_verified_chunk\<close> of \<open>crates/meld-core/src/bittorrent.rs\<close>. For every piece it assembles what the
  index holds of it, and checks the SHA-1 of the pieces it holds completely. The two ratios of the report,
  floating-point quotients of its counters, are left out.
\<close>

section \<open>The operations\<close>

record bt_piece_plan =
  pp_index :: u64
  pp_offset :: u64
  pp_length :: u64
  pp_expected_sha1 :: string
  pp_locally_covered_bytes :: u64
  pp_missing_bytes :: u64
  pp_fully_local :: bool
  pp_local_sha1_verified :: bool

record bt_bridge_report =
  br_torrent_name :: string
  br_descriptor_name :: string
  br_names_match :: bool
  br_info_hash_sha1 :: string
  br_target_bytes :: u64
  br_piece_length :: u64
  br_total_pieces :: u64
  br_fully_local_pieces :: u64
  br_partially_local_pieces :: u64
  br_missing_pieces :: u64
  br_locally_covered_bytes :: u64
  br_missing_bytes :: u64
  br_fully_reconstructable_piece_bytes :: u64
  br_pieces :: "bt_piece_plan list"

definition read_verified_chunk :: "cdc_ext \<Rightarrow> file_system \<Rightarrow> string \<Rightarrow> u64 \<Rightarrow> u32 \<Rightarrow> string \<Rightarrow> bytes result" where
  "read_verified_chunk X fs path offset len expected_hash =
     and_then (case fs_read fs path of Inl e \<Rightarrow> Inl (Bail ''open indexed source'') | Inr content \<Rightarrow> Inr content) (\<lambda>content.
     and_then (read_range content offset len) (\<lambda>bs.
     bail_if (cx_blake3_hex X bs \<noteq> expected_hash) ''indexed chunk BLAKE3 mismatch'' (Inr bs)))"

text \<open>\<open>dst[at..at + src.len()].copy_from_slice(src)\<close>.\<close>

definition copy_into :: "'a list \<Rightarrow> nat \<Rightarrow> 'a list \<Rightarrow> 'a list" where
  "copy_into dst at src = take at dst @ src @ drop (at + length src) dst"

text \<open>The body of the loop over the chunks of the descriptor, for one piece.\<close>

definition cover_chunk ::
    "cdc_ext \<Rightarrow> index_db \<Rightarrow> file_system \<Rightarrow> u64 \<Rightarrow> u64 \<Rightarrow> bytes \<times> u64 \<Rightarrow> chunk_record \<Rightarrow> (bytes \<times> u64) result" where
  "cover_chunk X db fs piece_offset piece_end acc c = (case acc of (piece_bytes, covered) \<Rightarrow>
     let chunk_start = ck_offset c; chunk_end = ck_offset c + ucast (ck_length c);
         overlap_start = max chunk_start piece_offset; overlap_end = min chunk_end piece_end
     in if overlap_end \<le> overlap_start then Inr (piece_bytes, covered)
        else
          let overlap_length = overlap_end - overlap_start in
          and_then (lookup_chunk X db (fs_metadata fs) (ck_hash c) (ck_length c)) (\<lambda>found.
          case found of
            None \<Rightarrow> Inr (piece_bytes, covered)
          | Some source \<Rightarrow>
              and_then (read_verified_chunk X fs (sl_path source) (sl_offset source) (ck_length c) (ck_hash c)) (\<lambda>bs.
              Inr (copy_into piece_bytes (unat (overlap_start - piece_offset))
                     (take (unat overlap_length) (drop (unat (overlap_start - chunk_start)) bs)),
                   covered + overlap_length))))"

record bridge_state =
  bs_locally_covered_bytes :: u64
  bs_fully_reconstructable_piece_bytes :: u64
  bs_fully_local_pieces :: u64
  bs_partially_local_pieces :: u64
  bs_pieces :: "bt_piece_plan list"

definition plan_piece ::
    "bt_ext \<Rightarrow> index_db \<Rightarrow> file_system \<Rightarrow> torrent_v1 \<Rightarrow> target_descriptor \<Rightarrow> bridge_state \<Rightarrow> nat \<times> string
       \<Rightarrow> bridge_state result" where
  "plan_piece X db fs t d s entry = (case entry of (piece_index, expected_sha1) \<Rightarrow>
     and_then (ok_or (checked_mul (word_of_nat piece_index) (tv_piece_length t)) (Bail ''BT piece offset overflow''))
       (\<lambda>piece_offset.
     let piece_end = min (saturating_add piece_offset (tv_piece_length t)) (tv_total_length t);
         piece_length = piece_end - piece_offset
     in
     and_then (try_fold (cover_chunk (bx_cdc X) db fs piece_offset piece_end)
         (replicate (unat piece_length) 0, 0) (td_chunks d)) (\<lambda>(piece_bytes, covered).
     let missing = piece_length - covered; fully_local = (missing = 0) in
     bail_if (fully_local \<and> sha1_hex X piece_bytes \<noteq> expected_sha1) ''locally reconstructed BT piece failed SHA-1''
    (Inr \<lparr>bs_locally_covered_bytes = bs_locally_covered_bytes s + covered,
       bs_fully_reconstructable_piece_bytes = bs_fully_reconstructable_piece_bytes s + (if fully_local then piece_length else 0),
       bs_fully_local_pieces = bs_fully_local_pieces s + (if fully_local then 1 else 0),
       bs_partially_local_pieces = bs_partially_local_pieces s + (if \<not> fully_local \<and> 0 < covered then 1 else 0),
       bs_pieces = bs_pieces s @ [\<lparr>pp_index = word_of_nat piece_index, pp_offset = piece_offset,
         pp_length = piece_length, pp_expected_sha1 = expected_sha1, pp_locally_covered_bytes = covered,
         pp_missing_bytes = missing, pp_fully_local = fully_local, pp_local_sha1_verified = fully_local\<rparr>]\<rparr>))))"

definition plan_v1_bridge ::
    "bt_ext \<Rightarrow> index_db \<Rightarrow> file_system \<Rightarrow> torrent_v1 \<Rightarrow> target_descriptor \<Rightarrow> bt_bridge_report result" where
  "plan_v1_bridge X db fs t d =
     and_then (td_validate (bx_cdc X) d) (\<lambda>_.
     and_then (ensure_profile (bx_cdc X) db (td_profile d)) (\<lambda>_.
     bail_if (tv_total_length t \<noteq> ti_size (td_target d)) ''torrent/descriptor size mismatch''
    (and_then (try_fold (plan_piece X db fs t d)
         \<lparr>bs_locally_covered_bytes = 0, bs_fully_reconstructable_piece_bytes = 0, bs_fully_local_pieces = 0,
          bs_partially_local_pieces = 0, bs_pieces = []\<rparr> (enumerate 0 (tv_piece_sha1 t))) (\<lambda>s.
     let total_pieces = word_of_nat (length (bs_pieces s)) in
     Inr \<lparr>br_torrent_name = tv_name t, br_descriptor_name = ti_name (td_target d),
       br_names_match = (tv_name t = ti_name (td_target d)), br_info_hash_sha1 = tv_info_hash_sha1 t,
       br_target_bytes = tv_total_length t, br_piece_length = tv_piece_length t, br_total_pieces = total_pieces,
       br_fully_local_pieces = bs_fully_local_pieces s, br_partially_local_pieces = bs_partially_local_pieces s,
       br_missing_pieces = total_pieces - bs_fully_local_pieces s,
       br_locally_covered_bytes = bs_locally_covered_bytes s,
       br_missing_bytes = tv_total_length t - bs_locally_covered_bytes s,
       br_fully_reconstructable_piece_bytes = bs_fully_reconstructable_piece_bytes s,
       br_pieces = bs_pieces s\<rparr>))))"

text \<open>A torrent with the shape that parsing establishes, as far as the plan relies on it.\<close>

definition torrent_shape :: "torrent_v1 \<Rightarrow> bool" where
  "torrent_shape t \<longleftrightarrow> 0 < tv_piece_length t
     \<and> length (tv_piece_sha1 t) = expected_pieces (tv_total_length t) (tv_piece_length t)"

section \<open>Overlaps of intervals\<close>

definition overlap :: "nat \<Rightarrow> nat \<Rightarrow> nat \<Rightarrow> nat \<Rightarrow> nat" where
  "overlap a b s e = min b e - max a s"

lemma overlap_join: "a \<le> b \<Longrightarrow> b \<le> c \<Longrightarrow> s \<le> e \<Longrightarrow> overlap a b s e + overlap b c s e = overlap a c s e"
  unfolding overlap_def by (auto simp: min_def max_def)

lemma overlap_inside: "a \<le> s \<Longrightarrow> e \<le> b \<Longrightarrow> s \<le> e \<Longrightarrow> overlap a b s e = e - s"
  by (simp add: overlap_def)

lemma overlap_empty [simp]: "overlap a a s e = 0" "overlap a b s s = 0"
  by (auto simp: overlap_def)

lemma overlap_sum:
  assumes "mono (g :: nat \<Rightarrow> nat)" and "s \<le> e"
  shows "(\<Sum>i<n. overlap (g i) (g (Suc i)) s e) = overlap (g 0) (g n) s e"
proof (induction n)
  case (Suc n)
  then show ?case
    using overlap_join [of "g 0" "g n" "g (Suc n)" s e] monoD [OF assms(1)] assms(2) by simp
qed simp

text \<open>The chunks of a descriptor overlap a piece in as many bytes as the piece has.\<close>

lemma chunks_overlap:
  "chunks_tile off cs e \<Longrightarrow> a \<le> b \<Longrightarrow>
    (\<Sum>c\<leftarrow>cs. overlap (unat (ck_offset c)) (unat (ck_offset c) + unat (ck_length c)) a b) = overlap off e a b"
proof (induction cs arbitrary: off)
  case (Cons c cs)
  have "off \<le> off + unat (ck_length c)" "off + unat (ck_length c) \<le> e" using Cons.prems by (auto dest: chunks_tile_le)
  then show ?case
    using Cons.IH [of "off + unat (ck_length c)"] Cons.prems overlap_join [of off "off + unat (ck_length c)" e a b] by auto
qed simp

section \<open>Covering one piece\<close>

lemma unat_max: "unat (max a b) = max (unat a) (unat (b :: 'a::len word))"
  and unat_min: "unat (min a b) = min (unat a) (unat (b :: 'a::len word))"
  by (simp_all add: max_def min_def word_le_nat_alt)

lemma nth_copy_into:
  "at + length src \<le> length dst \<Longrightarrow> j < length dst \<Longrightarrow>
    copy_into dst at src ! j = (if at \<le> j \<and> j < at + length src then src ! (j - at) else dst ! j)"
  by (auto simp: copy_into_def nth_append min_def)

lemma length_copy_into: "at + length src \<le> length dst \<Longrightarrow> length (copy_into dst at src) = length dst"
  by (simp add: copy_into_def)

lemma read_verified_chunk_source:
  "read_verified_chunk X fs (sl_path s) (sl_offset s) (sl_length s) h = Inr bs \<longleftrightarrow> read_verified_source X fs s h = Inr bs"
  by (cases "fs_read fs (sl_path s)") (auto simp: read_verified_chunk_def read_verified_source_def verify_chunk_def)

text \<open>What the index supplies for a chunk; where it supplies nothing, the piece keeps zeros.\<close>

definition found_locally :: "cdc_ext \<Rightarrow> index_db \<Rightarrow> file_system \<Rightarrow> chunk_record \<Rightarrow> bool" where
  "found_locally X db fs c \<longleftrightarrow> (case lookup_chunk X db (fs_metadata fs) (ck_hash c) (ck_length c) of Inr (Some s) \<Rightarrow> True | _ \<Rightarrow> False)"

definition local_content :: "cdc_ext \<Rightarrow> index_db \<Rightarrow> file_system \<Rightarrow> chunk_record \<Rightarrow> bytes" where
  "local_content X db fs c = (case local_chunk X db fs c of
      Inr (Some bs) \<Rightarrow> if found_locally X db fs c then bs else replicate (unat (ck_length c)) 0
    | _ \<Rightarrow> replicate (unat (ck_length c)) 0)"

lemma length_local_content [simp]: "length (local_content X db fs c) = unat (ck_length c)"
  by (auto simp: local_content_def chunk_holds_def split: sum.splits option.splits dest!: local_chunk_holds)

definition local_image :: "cdc_ext \<Rightarrow> index_db \<Rightarrow> file_system \<Rightarrow> chunk_record list \<Rightarrow> bytes" where
  "local_image X db fs cs = concat (map (local_content X db fs) cs)"

abbreviation chunk_overlap :: "nat \<Rightarrow> nat \<Rightarrow> chunk_record \<Rightarrow> nat" where
  "chunk_overlap a b c \<equiv> overlap (unat (ck_offset c)) (unat (ck_offset c) + unat (ck_length c)) a b"

lemma cover_chunk_cases:
  assumes "cover_chunk X db fs po pe (buf, covered) c = Inr (buf', covered')"
    and "unat (ck_offset c) + unat (ck_length c) < 2 ^ 64" and "po \<le> pe" and "0 < unat (ck_length c)"
  shows "(chunk_overlap (unat po) (unat pe) c = 0 \<or> \<not> found_locally X db fs c) \<and> buf' = buf \<and> covered' = covered
      \<and> (0 < chunk_overlap (unat po) (unat pe) c \<longrightarrow> local_content X db fs c = replicate (unat (ck_length c)) 0)
    \<or> found_locally X db fs c \<and> 0 < chunk_overlap (unat po) (unat pe) c
      \<and> buf' = copy_into buf (unat (ck_offset c) - unat po)
         (take (chunk_overlap (unat po) (unat pe) c) (drop (unat po - unat (ck_offset c)) (local_content X db fs c)))
      \<and> covered' = covered + word_of_nat (chunk_overlap (unat po) (unat pe) c)"
proof -
  define o1 o2 where "o1 = max (ck_offset c) po" and "o2 = min (ck_offset c + ucast (ck_length c)) pe"
  have ce: "unat (ck_offset c + ucast (ck_length c)) = unat (ck_offset c) + unat (ck_length c)"
    using assms(2) by (simp add: unat_word_ariths)
  have n: "unat o1 = max (unat (ck_offset c)) (unat po)" "unat o2 = min (unat (ck_offset c) + unat (ck_length c)) (unat pe)"
    by (simp_all add: o1_def o2_def unat_max unat_min ce)
  have d: "unat (o1 - po) = unat (ck_offset c) - unat po" "unat (o1 - ck_offset c) = unat po - unat (ck_offset c)"
    using n(1) by (subst unat_sub; simp add: word_le_nat_alt)+
  show ?thesis
  proof (cases "o2 \<le> o1")
    case True
    then have "chunk_overlap (unat po) (unat pe) c = 0" using n by (simp add: overlap_def word_le_nat_alt)
    with assms(1) True show ?thesis by (simp add: cover_chunk_def Let_def o1_def o2_def)
  next
    case False
    then have lt: "unat o1 < unat o2" by (simp add: word_le_nat_alt)
    have ov: "unat (o2 - o1) = chunk_overlap (unat po) (unat pe) c" "0 < chunk_overlap (unat po) (unat pe) c"
      using lt n by (simp_all add: unat_sub word_le_nat_alt overlap_def)
    then have ow: "o2 - o1 = word_of_nat (chunk_overlap (unat po) (unat pe) c)" by (metis word_of_nat_unat)
    from assms(1) False obtain found where f: "lookup_chunk X db (fs_metadata fs) (ck_hash c) (ck_length c) = Inr found"
      and k: "(case found of None \<Rightarrow> Inr (buf, covered)
          | Some source \<Rightarrow>
              and_then (read_verified_chunk X fs (sl_path source) (sl_offset source) (ck_length c) (ck_hash c)) (\<lambda>bs.
              Inr (copy_into buf (unat (o1 - po)) (take (unat (o2 - o1)) (drop (unat (o1 - ck_offset c)) bs)),
                   covered + (o2 - o1)))) = Inr (buf', covered')"
      unfolding cover_chunk_def Let_def o1_def o2_def prod.case by (auto simp del: length_greater_0_conv)
    show ?thesis
    proof (cases found)
      case None
      then have "local_content X db fs c = replicate (unat (ck_length c)) 0" "\<not> found_locally X db fs c"
        using f by (simp_all add: local_content_def local_chunk_def found_locally_def)
      with k None show ?thesis by simp
    next
      case (Some source)
      then obtain bs where bs: "read_verified_chunk X fs (sl_path source) (sl_offset source) (ck_length c) (ck_hash c) = Inr bs"
        "buf' = copy_into buf (unat (o1 - po)) (take (unat (o2 - o1)) (drop (unat (o1 - ck_offset c)) bs))"
        "covered' = covered + (o2 - o1)" using k by auto
      have "sl_length source = ck_length c" using f Some lookup_chunk_length by auto
      then have "read_verified_source X fs source (ck_hash c) = Inr bs"
        using bs(1) read_verified_chunk_source [of X fs source "ck_hash c" bs] by simp
      then have "local_content X db fs c = bs" "found_locally X db fs c"
        using f Some by (simp_all add: local_content_def local_chunk_def found_locally_def)
      with bs(2,3) ov d ow show ?thesis by simp
    qed
  qed
qed

text \<open>One chunk, seen at one byte of the piece: its content is copied where it lies, or was zero anyway.\<close>

lemma cover_chunk_effect:
  assumes "cover_chunk X db fs po pe (buf, covered) c = Inr (buf', covered')"
    and "unat (ck_offset c) + unat (ck_length c) < 2 ^ 64" and "po \<le> pe" and "0 < unat (ck_length c)"
    and len: "length buf = unat pe - unat po"
    and zeros: "\<And>j. j < length buf \<Longrightarrow> unat (ck_offset c) \<le> unat po + j \<Longrightarrow> buf ! j = 0"
    and fits: "unat covered + chunk_overlap (unat po) (unat pe) c < 2 ^ 64"
  shows "length buf' = length buf"
    and "unat covered' = unat covered + (if found_locally X db fs c then chunk_overlap (unat po) (unat pe) c else 0)"
    and "j < length buf \<Longrightarrow> buf' ! j = (if in_chunk (unat po + j) c
           then local_content X db fs c ! (unat po + j - unat (ck_offset c)) else buf ! j)"
proof -
  let ?ov = "chunk_overlap (unat po) (unat pe) c" and ?o = "unat (ck_offset c)" and ?l = "unat (ck_length c)"
  have pp: "unat po \<le> unat pe" using assms(3) by (simp add: word_le_nat_alt)
  have inside: "in_chunk (unat po + j) c \<longleftrightarrow> ?o \<le> unat po + j \<and> unat po + j < ?o + ?l" for j by (simp add: in_chunk_def)
  let ?at = "?o - unat po" and ?src = "take ?ov (drop (unat po - ?o) (local_content X db fs c))"
  have fit: "?at + ?ov \<le> unat pe - unat po" if "0 < ?ov" using that pp by (simp add: overlap_def)
  have src: "length ?src = ?ov" by (simp add: overlap_def)
  have at: "?at \<le> j \<and> j < ?at + ?ov \<longleftrightarrow> in_chunk (unat po + j) c" if "j < length buf" "0 < ?ov" for j
    using that len by (auto simp: inside overlap_def)
  consider (same) "?ov = 0 \<or> \<not> found_locally X db fs c" "buf' = buf" "covered' = covered"
      "0 < ?ov \<longrightarrow> local_content X db fs c = replicate ?l 0"
    | (copied) "found_locally X db fs c" "0 < ?ov" "buf' = copy_into buf ?at ?src" "covered' = covered + word_of_nat ?ov"
    using cover_chunk_cases [OF assms(1-4)] by argo
  then have "length buf' = length buf \<and> unat covered' = unat covered + (if found_locally X db fs c then ?ov else 0)
    \<and> (j < length buf \<longrightarrow> buf' ! j = (if in_chunk (unat po + j) c
           then local_content X db fs c ! (unat po + j - ?o) else buf ! j))"
  proof cases
    case same
    have "buf ! j = local_content X db fs c ! (unat po + j - ?o)" if "j < length buf" "in_chunk (unat po + j) c"
    proof -
      have "0 < ?ov" using that len by (auto simp: inside overlap_def)
      moreover have "unat po + j - ?o < ?l" using that(2) by (auto simp: inside)
      ultimately show ?thesis using same(4) that zeros [OF that(1)] by (simp add: inside)
    qed
    with same show ?thesis by auto
  next
    case copied
    have "?ov < 2 ^ 64" using fits by linarith
    then have "unat covered' = unat covered + ?ov" using copied(4) fits by (simp add: unat_word_ariths unat_of_nat)
    moreover have "length buf' = length buf" using fit [OF copied(2)] len src copied(3) by (simp only: length_copy_into)
    moreover have "buf' ! j = (if in_chunk (unat po + j) c then local_content X db fs c ! (unat po + j - ?o) else buf ! j)"
      if j: "j < length buf"
    proof -
      have "buf' ! j = (if ?at \<le> j \<and> j < ?at + ?ov then ?src ! (j - ?at) else buf ! j)"
        using nth_copy_into [of ?at ?src buf j] fit [OF copied(2)] len src j copied(3) by simp
      moreover have "?src ! (j - ?at) = local_content X db fs c ! (unat po + j - ?o)" if "?at \<le> j" "j < ?at + ?ov"
      proof -
        have "unat po - ?o \<le> ?l" using copied(2) by (auto simp: overlap_def)
        moreover have "j - ?at < ?ov" using that by linarith
        ultimately have "?src ! (j - ?at) = local_content X db fs c ! (unat po - ?o + (j - ?at))" by simp
        also have "unat po - ?o + (j - ?at) = unat po + j - ?o" using that(1) by linarith
        finally show ?thesis .
      qed
      ultimately show ?thesis using at [OF j copied(2)] by auto
    qed
    ultimately show ?thesis using copied(1) by auto
  qed
  then show "length buf' = length buf"
    "unat covered' = unat covered + (if found_locally X db fs c then ?ov else 0)"
    "j < length buf \<Longrightarrow> buf' ! j = (if in_chunk (unat po + j) c
           then local_content X db fs c ! (unat po + j - ?o) else buf ! j)" by blast+
qed

lemma cover_chunks:
  assumes "try_fold (cover_chunk X db fs po pe) (buf, covered) cs = Inr (buf', covered')"
    and "chunks_tile start cs e" and "e < 2 ^ 64" and "po \<le> pe"
    and "length buf = unat pe - unat po"
    and "\<And>j. j < length buf \<Longrightarrow> start \<le> unat po + j \<Longrightarrow> buf ! j = 0"
    and "unat covered + overlap start e (unat po) (unat pe) < 2 ^ 64"
  shows "length buf' = length buf"
    and "unat covered' = unat covered + (\<Sum>c\<leftarrow>filter (found_locally X db fs) cs. chunk_overlap (unat po) (unat pe) c)"
    and "\<And>j. j < length buf \<Longrightarrow> buf' ! j = (if start \<le> unat po + j \<and> unat po + j < e
           then local_image X db fs cs ! (unat po + j - start) else buf ! j)"
proof -
  have "length buf' = length buf
    \<and> unat covered' = unat covered + (\<Sum>c\<leftarrow>filter (found_locally X db fs) cs. chunk_overlap (unat po) (unat pe) c)
    \<and> (\<forall>j<length buf. buf' ! j = (if start \<le> unat po + j \<and> unat po + j < e
           then local_image X db fs cs ! (unat po + j - start) else buf ! j))"
    using assms
  proof (induction cs arbitrary: buf covered start)
    case Nil
    then show ?case by auto
  next
    case (Cons c cs)
    let ?l = "unat (ck_length c)"
    obtain buf1 cov1 where s: "cover_chunk X db fs po pe (buf, covered) c = Inr (buf1, cov1)"
      "try_fold (cover_chunk X db fs po pe) (buf1, cov1) cs = Inr (buf', covered')" using Cons.prems(1) by auto
    have t: "unat (ck_offset c) = start" "0 < ?l" "chunks_tile (start + ?l) cs e" using Cons.prems(2) by auto
    have le: "start + ?l \<le> e" using t(3) by (rule chunks_tile_le)
    have pp: "unat po \<le> unat pe" using Cons.prems(4) by (simp add: word_le_nat_alt)
    have split: "overlap start e (unat po) (unat pe) = chunk_overlap (unat po) (unat pe) c + overlap (start + ?l) e (unat po) (unat pe)"
      using overlap_join [of start "start + ?l" e "unat po" "unat pe"] le pp t(1) by simp
    have "unat (ck_offset c) + ?l < 2 ^ 64" "unat covered + chunk_overlap (unat po) (unat pe) c < 2 ^ 64"
      using le t(1) Cons.prems(3,7) split by linarith+
    note step = cover_chunk_effect [OF s(1) this(1) Cons.prems(4) t(2) Cons.prems(5) _ this(2)]
    have z: "buf ! j = 0" if "j < length buf" "unat (ck_offset c) \<le> unat po + j" for j
      using Cons.prems(6) [OF that(1)] that(2) t(1) by simp
    note s1 = step(1) [OF z] step(2) [OF z] step(3) [OF z]
    have z1: "buf1 ! j = 0" if "j < length buf1" "start + ?l \<le> unat po + j" for j
      using s1(3) [of j] s1(1) that z t(1) by (simp add: in_chunk_def)
    have "unat cov1 + overlap (start + ?l) e (unat po) (unat pe) < 2 ^ 64"
      using s1(2) split Cons.prems(7) by (simp split: if_splits)
    note ih = Cons.IH [OF s(2) t(3) Cons.prems(3,4) _ z1 this]
    have ih1: "length buf' = length buf1"
      "unat covered' = unat cov1 + (\<Sum>c\<leftarrow>filter (found_locally X db fs) cs. chunk_overlap (unat po) (unat pe) c)"
      "\<And>j. j < length buf1 \<Longrightarrow> buf' ! j = (if start + ?l \<le> unat po + j \<and> unat po + j < e
           then local_image X db fs cs ! (unat po + j - (start + ?l)) else buf1 ! j)"
      using ih s1(1) Cons.prems(5) by auto
    have "buf' ! j = (if start \<le> unat po + j \<and> unat po + j < e
           then local_image X db fs (c # cs) ! (unat po + j - start) else buf ! j)" if j: "j < length buf" for j
      using ih1(3) [of j] s1(1) s1(3) [of j] j t(1) le
      by (auto simp: local_image_def nth_append in_chunk_def)
    with ih1(1,2) s1(1,2) show ?case by auto
  qed
  then show "length buf' = length buf"
    "unat covered' = unat covered + (\<Sum>c\<leftarrow>filter (found_locally X db fs) cs. chunk_overlap (unat po) (unat pe) c)"
    "\<And>j. j < length buf \<Longrightarrow> buf' ! j = (if start \<le> unat po + j \<and> unat po + j < e
           then local_image X db fs cs ! (unat po + j - start) else buf ! j)" by blast+
qed

section \<open>The pieces of a torrent\<close>

definition piece_bound :: "torrent_v1 \<Rightarrow> nat \<Rightarrow> nat" where
  "piece_bound t i = min (i * unat (tv_piece_length t)) (unat (tv_total_length t))"

definition piece_count :: "torrent_v1 \<Rightarrow> nat" where
  "piece_count t = expected_pieces (tv_total_length t) (tv_piece_length t)"

lemma piece_bound_mono: "mono (piece_bound t)"
proof (rule monoI)
  fix i j :: nat assume "i \<le> j"
  then have "i * unat (tv_piece_length t) \<le> j * unat (tv_piece_length t)" by (rule mult_le_mono1)
  then show "piece_bound t i \<le> piece_bound t j" unfolding piece_bound_def by (rule min.mono) (rule order_refl)
qed

lemma piece_bound_0 [simp]: "piece_bound t 0 = 0"
  by (simp add: piece_bound_def)

lemma piece_bound_total: "piece_bound t i \<le> unat (tv_total_length t)"
  by (simp add: piece_bound_def)

lemma piece_bound_last: "0 < tv_piece_length t \<Longrightarrow> piece_bound t (piece_count t) = unat (tv_total_length t)"
  using div_ceil_bounds [of "unat (tv_piece_length t)" "unat (tv_total_length t)"]
  by (auto simp: piece_bound_def piece_count_def expected_pieces_def word_less_nat_alt)

lemma piece_start:
  assumes "0 < tv_piece_length t" and "i < piece_count t"
  shows "i * unat (tv_piece_length t) < unat (tv_total_length t)"
proof -
  let ?p = "unat (tv_piece_length t)" and ?n = "unat (tv_total_length t)"
  have p: "0 < ?p" using assms(1) by (simp add: word_less_nat_alt)
  have n: "i < div_ceil ?n ?p" using assms(2) by (simp add: piece_count_def expected_pieces_def split: if_splits)
  then have "i * ?p + ?p \<le> div_ceil ?n ?p * ?p" by (metis Suc_leI mult_Suc add.commute mult_le_mono1)
  also have "\<dots> < ?n + ?p" using div_ceil_bounds [OF p] by blast
  finally show ?thesis by simp
qed

lemma piece_bounds:
  assumes "0 < tv_piece_length t" and "i < piece_count t"
  shows "piece_bound t i = i * unat (tv_piece_length t)" and "piece_bound t i < piece_bound t (Suc i)"
proof -
  have p: "0 < unat (tv_piece_length t)" using assms(1) by (simp add: word_less_nat_alt)
  show "piece_bound t i = i * unat (tv_piece_length t)" using piece_start [OF assms] by (simp add: piece_bound_def)
  show "piece_bound t i < piece_bound t (Suc i)"
    using piece_start [OF assms] p by (simp add: piece_bound_def)
qed

text \<open>What the plan says of one piece: its place, what the index covers of it, and its SHA-1.\<close>

definition piece_planned ::
    "bt_ext \<Rightarrow> index_db \<Rightarrow> file_system \<Rightarrow> torrent_v1 \<Rightarrow> target_descriptor \<Rightarrow> nat \<times> string \<Rightarrow> bt_piece_plan \<Rightarrow> bool" where
  "piece_planned X db fs t d e p \<longleftrightarrow> (let a = piece_bound t (fst e); b = piece_bound t (Suc (fst e)) in
     unat (pp_index p) = fst e \<and> unat (pp_offset p) = a \<and> unat (pp_length p) = b - a \<and> pp_expected_sha1 p = snd e
     \<and> unat (pp_locally_covered_bytes p) =
         (\<Sum>c\<leftarrow>filter (found_locally (bx_cdc X) db fs) (td_chunks d). chunk_overlap a b c)
     \<and> unat (pp_locally_covered_bytes p) + unat (pp_missing_bytes p) = b - a
     \<and> pp_fully_local p = (pp_missing_bytes p = 0) \<and> pp_local_sha1_verified p = pp_fully_local p
     \<and> (pp_fully_local p \<longrightarrow> sha1_hex X (slice (local_image (bx_cdc X) db fs (td_chunks d)) a b) = snd e))"

lemma sum_filter_le: "(\<Sum>c\<leftarrow>filter P cs. f c) \<le> (\<Sum>c\<leftarrow>cs. (f c :: nat))"
  by (induction cs) auto

lemma length_local_image: "chunks_tile start cs e \<Longrightarrow> length (local_image X db fs cs) = e - start"
proof (induction cs arbitrary: start)
  case (Cons c cs)
  then show ?case using chunks_tile_le [of "start + unat (ck_length c)" cs e] by (auto simp: local_image_def)
qed (simp add: local_image_def)

definition piece_counts :: "bt_piece_plan \<Rightarrow> bridge_state \<Rightarrow> bridge_state" where
  "piece_counts p s = \<lparr>bs_locally_covered_bytes = bs_locally_covered_bytes s + pp_locally_covered_bytes p,
     bs_fully_reconstructable_piece_bytes = bs_fully_reconstructable_piece_bytes s + (if pp_fully_local p then pp_length p else 0),
     bs_fully_local_pieces = bs_fully_local_pieces s + (if pp_fully_local p then 1 else 0),
     bs_partially_local_pieces = bs_partially_local_pieces s
       + (if \<not> pp_fully_local p \<and> 0 < pp_locally_covered_bytes p then 1 else 0),
     bs_pieces = bs_pieces s @ [p]\<rparr>"

lemma plan_piece_effect:
  assumes "plan_piece X db fs t d s (i, h) = Inr s'" and i: "i < piece_count t" and pl: "0 < tv_piece_length t"
    and "td_validate (bx_cdc X) d = Inr ()" and size: "tv_total_length t = ti_size (td_target d)"
  shows "\<exists>p. piece_planned X db fs t d (i, h) p \<and> s' = piece_counts p s"
proof -
  let ?a = "piece_bound t i" and ?b = "piece_bound t (Suc i)" and ?n = "unat (tv_total_length t)"
  have tile: "chunks_tile 0 (td_chunks d) ?n" using assms(4) size by (simp add: td_validate_iff)
  have ab: "?a < ?b" "?b \<le> ?n" "?a = i * unat (tv_piece_length t)"
    using piece_bounds [OF pl i] piece_bound_total by auto
  have n64: "?n < 2 ^ 64" using unat_u64_bound [of "tv_total_length t"] by simp
  have i64: "unat (word_of_nat i :: u64) = i"
  proof (rule unat_of_nat_u64)
    have "1 \<le> unat (tv_piece_length t)" using pl by (simp add: word_less_nat_alt)
    then have "i * 1 \<le> i * unat (tv_piece_length t)" by (rule mult_le_mono2)
    then have "i < ?n" using ab unfolding mult_1_right by linarith
    then show "i < 18446744073709551616" using unat_u64_bound [of "tv_total_length t"] by linarith
  qed
  from assms(1) obtain po where po: "checked_mul (word_of_nat i) (tv_piece_length t) = Some po" by (auto simp: plan_piece_def)
  then have upo: "unat po = ?a" using i64 ab(3) by (simp add: checked_mul_Some)
  define pe where "pe = min (saturating_add po (tv_piece_length t)) (tv_total_length t)"
  have "?b = min (?a + unat (tv_piece_length t)) ?n" unfolding ab(3) by (simp add: piece_bound_def add.commute)
  moreover have "unat pe = min (min (?a + unat (tv_piece_length t)) (2 ^ 64 - 1)) ?n"
    by (simp add: pe_def unat_min unat_saturating_add upo)
  ultimately have upe: "unat pe = ?b" using n64 by linarith
  have ple: "po \<le> pe" using ab upo upe by (simp add: word_le_nat_alt)
  have ulen: "unat (pe - po) = ?b - ?a" using ple upo upe by (simp add: unat_sub)
  from assms(1) po obtain buf covered where run: "try_fold (cover_chunk (bx_cdc X) db fs po pe)
        (replicate (unat (pe - po)) 0, 0) (td_chunks d) = Inr (buf, covered)"
    and sha: "pe - po - covered = 0 \<Longrightarrow> sha1_hex X buf = h"
    and s': "s' = \<lparr>bs_locally_covered_bytes = bs_locally_covered_bytes s + covered,
       bs_fully_reconstructable_piece_bytes = bs_fully_reconstructable_piece_bytes s + (if pe - po - covered = 0 then pe - po else 0),
       bs_fully_local_pieces = bs_fully_local_pieces s + (if pe - po - covered = 0 then 1 else 0),
       bs_partially_local_pieces = bs_partially_local_pieces s + (if pe - po - covered \<noteq> 0 \<and> 0 < covered then 1 else 0),
       bs_pieces = bs_pieces s @ [\<lparr>pp_index = word_of_nat i, pp_offset = po,
         pp_length = pe - po, pp_expected_sha1 = h, pp_locally_covered_bytes = covered,
         pp_missing_bytes = pe - po - covered, pp_fully_local = (pe - po - covered = 0),
         pp_local_sha1_verified = (pe - po - covered = 0)\<rparr>]\<rparr>"
    unfolding plan_piece_def Let_def pe_def prod.case by auto
  have ov: "overlap 0 ?n ?a ?b = ?b - ?a" using ab by (simp add: overlap_def)
  have small: "unat (0 :: u64) + overlap 0 ?n (unat po) (unat pe) < 2 ^ 64" 
  proof -
    have "unat (0 :: u64) + overlap 0 ?n (unat po) (unat pe) \<le> ?n" using ov upo upe ab(2) by simp
    then show ?thesis using n64 by linarith
  qed
  have len0: "length (replicate (unat (pe - po)) (0 :: u8)) = unat pe - unat po" using ulen upo upe by simp
  note cc = cover_chunks [OF run tile n64 ple len0 _ small]
  have z: "replicate (unat (pe - po)) (0 :: u8) ! j = 0" if "j < length (replicate (unat (pe - po)) (0 :: u8))" for j
    using that by simp
  have blen: "length buf = ?b - ?a" using cc(1) [OF z] ulen by simp
  have cov: "unat covered = (\<Sum>c\<leftarrow>filter (found_locally (bx_cdc X) db fs) (td_chunks d). chunk_overlap ?a ?b c)"
    using cc(2) [OF z] upo upe by simp
  have "unat covered \<le> ?b - ?a"
    using cov sum_filter_le [of "chunk_overlap ?a ?b" "found_locally (bx_cdc X) db fs" "td_chunks d"]
      chunks_overlap [OF tile, of ?a ?b] ab ov by simp
  then have miss: "unat covered + unat (pe - po - covered) = ?b - ?a"
    using ulen by (simp add: unat_sub word_le_nat_alt)
  have il: "length (local_image (bx_cdc X) db fs (td_chunks d)) = ?n" using length_local_image [OF tile] by simp
  have "buf = slice (local_image (bx_cdc X) db fs (td_chunks d)) ?a ?b"
  proof (rule nth_equalityI)
    show "length buf = length (slice (local_image (bx_cdc X) db fs (td_chunks d)) ?a ?b)" using blen il ab by (simp add: slice_def)
    show "buf ! j = slice (local_image (bx_cdc X) db fs (td_chunks d)) ?a ?b ! j" if "j < length buf" for j
    proof -
      have "?a + j < ?n" using that blen ab(2) by linarith
      then show ?thesis using cc(3) [OF z, of j] that blen ulen upo il ab by (simp add: slice_def)
    qed
  qed
  then have "piece_planned X db fs t d (i, h) \<lparr>pp_index = word_of_nat i, pp_offset = po,
         pp_length = pe - po, pp_expected_sha1 = h, pp_locally_covered_bytes = covered,
         pp_missing_bytes = pe - po - covered, pp_fully_local = (pe - po - covered = 0),
         pp_local_sha1_verified = (pe - po - covered = 0)\<rparr>"
    using i64 upo ulen cov miss sha by (simp add: piece_planned_def Let_def)
  then show ?thesis unfolding s' by (intro exI conjI) (assumption, simp add: piece_counts_def)
qed

section \<open>The whole plan\<close>

lemma plan_pieces:
  assumes "try_fold (plan_piece X db fs t d) s (enumerate k hs) = Inr s'" and "k + length hs \<le> piece_count t"
    and "0 < tv_piece_length t" and "td_validate (bx_cdc X) d = Inr ()" and "tv_total_length t = ti_size (td_target d)"
  shows "\<exists>ps. list_all2 (piece_planned X db fs t d) (enumerate k hs) ps \<and> s' = fold piece_counts ps s"
  using assms(1,2)
proof (induction hs arbitrary: k s)
  case (Cons h hs)
  then obtain s1 where s1: "plan_piece X db fs t d s (k, h) = Inr s1"
    "try_fold (plan_piece X db fs t d) s1 (enumerate (Suc k) hs) = Inr s'" by auto
  obtain p where p: "piece_planned X db fs t d (k, h) p" "s1 = piece_counts p s"
    using plan_piece_effect [OF s1(1) _ assms(3-5)] Cons.prems(2) by auto
  obtain ps where ps: "list_all2 (piece_planned X db fs t d) (enumerate (Suc k) hs) ps" "s' = fold piece_counts ps s1"
    using Cons.IH [OF s1(2)] Cons.prems(2) by auto
  with p show ?case by (intro exI [of _ "p # ps"]) simp
qed simp

lemma fold_piece_counts:
  "bs_pieces (fold piece_counts ps s) = bs_pieces s @ ps
   \<and> bs_locally_covered_bytes (fold piece_counts ps s)
       = bs_locally_covered_bytes s + word_of_nat (\<Sum>p\<leftarrow>ps. unat (pp_locally_covered_bytes p))
   \<and> bs_fully_local_pieces (fold piece_counts ps s)
       = bs_fully_local_pieces s + word_of_nat (length (filter pp_fully_local ps))
   \<and> bs_partially_local_pieces (fold piece_counts ps s) = bs_partially_local_pieces s
       + word_of_nat (length (filter (\<lambda>p. \<not> pp_fully_local p \<and> 0 < pp_locally_covered_bytes p) ps))
   \<and> bs_fully_reconstructable_piece_bytes (fold piece_counts ps s) = bs_fully_reconstructable_piece_bytes s
       + word_of_nat (\<Sum>p\<leftarrow>filter pp_fully_local ps. unat (pp_length p))"
  by (induction ps arbitrary: s) (auto simp: piece_counts_def)

text \<open>The covered bytes of all pieces are the bytes of the chunks that are found.\<close>

lemma sum_list_swap: "(\<Sum>x\<leftarrow>xs. \<Sum>y\<leftarrow>ys. f x y) = (\<Sum>y\<leftarrow>ys. \<Sum>x\<leftarrow>xs. (f x y :: nat))"
  by (induction xs) (simp_all add: sum_list_addf)

lemma covered_total:
  assumes "list_all2 (piece_planned X db fs t d) (enumerate 0 hs) ps" and "length hs = piece_count t"
    and "0 < tv_piece_length t" and "chunks_tile 0 (td_chunks d) (unat (tv_total_length t))"
  shows "(\<Sum>p\<leftarrow>ps. unat (pp_locally_covered_bytes p))
    = (\<Sum>c\<leftarrow>filter (found_locally (bx_cdc X) db fs) (td_chunks d). unat (ck_length c))"
proof -
  let ?cs = "filter (found_locally (bx_cdc X) db fs) (td_chunks d)" and ?g = "piece_bound t" and ?n = "piece_count t"
  have len: "length ps = ?n" using list_all2_lengthD [OF assms(1)] assms(2) by simp
  have "unat (pp_locally_covered_bytes (ps ! i)) = (\<Sum>c\<leftarrow>?cs. chunk_overlap (?g i) (?g (Suc i)) c)" if "i < ?n" for i
    using list_all2_nthD [OF assms(1), of i] that assms(2) by (simp add: piece_planned_def Let_def nth_enumerate_eq)
  then have "map (\<lambda>p. unat (pp_locally_covered_bytes p)) ps = map (\<lambda>i. \<Sum>c\<leftarrow>?cs. chunk_overlap (?g i) (?g (Suc i)) c) [0..<?n]"
    by (intro nth_equalityI) (simp_all add: len)
  then have "(\<Sum>p\<leftarrow>ps. unat (pp_locally_covered_bytes p)) = (\<Sum>i\<leftarrow>[0..<?n]. \<Sum>c\<leftarrow>?cs. chunk_overlap (?g i) (?g (Suc i)) c)"
    by simp
  also have "\<dots> = (\<Sum>c\<leftarrow>?cs. \<Sum>i\<leftarrow>[0..<?n]. chunk_overlap (?g i) (?g (Suc i)) c)" by (rule sum_list_swap)
  also have "\<dots> = (\<Sum>c\<leftarrow>?cs. unat (ck_length c))"
  proof (rule arg_cong [where f = sum_list], rule map_cong [OF refl])
    fix c assume "c \<in> set ?cs"
    then have up: "unat (ck_offset c) + unat (ck_length c) \<le> unat (tv_total_length t)" using chunks_tile_upper [OF assms(4)] by auto
    let ?s = "unat (ck_offset c)" and ?e = "unat (ck_offset c) + unat (ck_length c)"
    have sym: "chunk_overlap a b c = overlap a b ?s ?e" for a b 
      unfolding overlap_def using min.commute [of ?e b] max.commute [of ?s a] by simp
    have "(\<Sum>i\<leftarrow>[0..<?n]. chunk_overlap (?g i) (?g (Suc i)) c) = (\<Sum>i<?n. overlap (?g i) (?g (Suc i)) ?s ?e)"
      by (simp only: sym interv_sum_list_conv_sum_set_nat set_upt atLeast0LessThan)
    also have "\<dots> = unat (ck_length c)"
      using overlap_sum [OF piece_bound_mono, of ?s ?e] piece_bound_last [OF assms(3)] up by (simp add: overlap_def)
    finally show "(\<Sum>i\<leftarrow>[0..<?n]. chunk_overlap (?g i) (?g (Suc i)) c) = unat (ck_length c)" .
  qed
  finally show ?thesis .
qed

lemma piece_count_le: "0 < tv_piece_length t \<Longrightarrow> piece_count t \<le> unat (tv_total_length t)"
proof (cases "piece_count t")
  case (Suc n)
  assume p: "0 < tv_piece_length t"
  then have "n * 1 \<le> n * unat (tv_piece_length t)" by (intro mult_le_mono2) (simp add: word_less_nat_alt Suc_le_eq)
  moreover have "n * unat (tv_piece_length t) < unat (tv_total_length t)" using piece_start [OF p, of n] Suc by simp
  ultimately show ?thesis using Suc by linarith
qed simp

definition pieces_planned ::
    "bt_ext \<Rightarrow> index_db \<Rightarrow> file_system \<Rightarrow> torrent_v1 \<Rightarrow> target_descriptor \<Rightarrow> bt_piece_plan list \<Rightarrow> bool" where
  "pieces_planned X db fs t d ps = list_all2 (piece_planned X db fs t d) (enumerate 0 (tv_piece_sha1 t)) ps"

lemma plan_v1_bridge_exact:
  assumes "plan_v1_bridge X db fs t d = Inr r" and "torrent_shape t"
  shows "pieces_planned X db fs t d (br_pieces r)"
    and "unat (br_locally_covered_bytes r)
      = (\<Sum>c\<leftarrow>filter (found_locally (bx_cdc X) db fs) (td_chunks d). unat (ck_length c))"
    and "unat (br_locally_covered_bytes r) + unat (br_missing_bytes r) = unat (ti_size (td_target d))"
    and "unat (br_fully_local_pieces r) = length (filter pp_fully_local (br_pieces r))"
    and "unat (br_fully_local_pieces r) + unat (br_missing_pieces r) = length (tv_piece_sha1 t)"
    and "unat (br_partially_local_pieces r) \<le> unat (br_missing_pieces r)"
proof -
  let ?s0 = "\<lparr>bs_locally_covered_bytes = 0, bs_fully_reconstructable_piece_bytes = 0, bs_fully_local_pieces = 0,
          bs_partially_local_pieces = 0, bs_pieces = []\<rparr> :: bridge_state"
  from assms(1) obtain s where valid: "td_validate (bx_cdc X) d = Inr ()" and size: "tv_total_length t = ti_size (td_target d)"
    and run: "try_fold (plan_piece X db fs t d) ?s0 (enumerate 0 (tv_piece_sha1 t)) = Inr s"
    and r: "br_pieces r = bs_pieces s" "br_locally_covered_bytes r = bs_locally_covered_bytes s"
      "br_missing_bytes r = tv_total_length t - bs_locally_covered_bytes s"
      "br_fully_local_pieces r = bs_fully_local_pieces s"
      "br_missing_pieces r = word_of_nat (length (bs_pieces s)) - bs_fully_local_pieces s"
      "br_partially_local_pieces r = bs_partially_local_pieces s"
    by (auto simp: plan_v1_bridge_def Let_def)
  have pl: "0 < tv_piece_length t" and len: "length (tv_piece_sha1 t) = piece_count t"
    using assms(2) by (simp_all add: torrent_shape_def piece_count_def)
  have tile: "chunks_tile 0 (td_chunks d) (unat (tv_total_length t))" using valid size by (simp add: td_validate_iff)
  obtain ps where ps: "list_all2 (piece_planned X db fs t d) (enumerate 0 (tv_piece_sha1 t)) ps" "s = fold piece_counts ps ?s0"
    using plan_pieces [OF run _ pl valid size] len by auto
  have f: "bs_pieces s = ps" "bs_locally_covered_bytes s = word_of_nat (\<Sum>p\<leftarrow>ps. unat (pp_locally_covered_bytes p))"
    "bs_fully_local_pieces s = word_of_nat (length (filter pp_fully_local ps))"
    "bs_partially_local_pieces s = word_of_nat (length (filter (\<lambda>p. \<not> pp_fully_local p \<and> 0 < pp_locally_covered_bytes p) ps))"
    using fold_piece_counts [of ps ?s0] ps(2) by auto
  show pp: "pieces_planned X db fs t d (br_pieces r)" using ps(1) f(1) r(1) by (simp add: pieces_planned_def)
  have n: "length ps = piece_count t" using list_all2_lengthD [OF ps(1)] len by simp
  have le: "(\<Sum>c\<leftarrow>filter (found_locally (bx_cdc X) db fs) (td_chunks d). unat (ck_length c)) \<le> unat (tv_total_length t)"
    using sum_filter_le [of "\<lambda>c. unat (ck_length c)" "found_locally (bx_cdc X) db fs" "td_chunks d"] chunks_tile_sum [OF tile] by simp
  note n64 = unat_u64_bound [of "tv_total_length t"]
  show cov: "unat (br_locally_covered_bytes r) = (\<Sum>c\<leftarrow>filter (found_locally (bx_cdc X) db fs) (td_chunks d). unat (ck_length c))"
    unfolding r(2) f(2) covered_total [OF ps(1) len pl tile] by (rule unat_of_nat_u64) (use le n64 in linarith)
  show "unat (br_locally_covered_bytes r) + unat (br_missing_bytes r) = unat (ti_size (td_target d))"
    using cov le size unfolding r(3) r(2) [symmetric] by (simp add: unat_sub word_le_nat_alt)
  have small: "length (filter P ps) < 18446744073709551616" for P
    using length_filter_le [of P ps] n piece_count_le [OF pl] n64 by linarith
  have full: "unat (bs_fully_local_pieces s) = length (filter pp_fully_local ps)"
    unfolding f(3) by (rule unat_of_nat_u64) (rule small)
  then show "unat (br_fully_local_pieces r) = length (filter pp_fully_local (br_pieces r))" using r f(1) by simp
  have all: "unat (word_of_nat (length (bs_pieces s)) :: u64) = length ps"
    unfolding f(1) by (rule unat_of_nat_u64) (use small [of "\<lambda>_. True"] in simp)
  have miss: "unat (br_missing_pieces r) = length (filter (\<lambda>p. \<not> pp_fully_local p) ps)"
    using all full sum_length_filter_compl [of pp_fully_local ps] unfolding r(5) by (simp add: unat_sub word_le_nat_alt)
  then show "unat (br_fully_local_pieces r) + unat (br_missing_pieces r) = length (tv_piece_sha1 t)"
    using full r(4) n len sum_length_filter_compl [of pp_fully_local ps] by simp
  have "unat (br_partially_local_pieces r) = length (filter (\<lambda>p. \<not> pp_fully_local p \<and> 0 < pp_locally_covered_bytes p) ps)"
    unfolding r(6) f(4) by (rule unat_of_nat_u64) (rule small)
  also have "\<dots> \<le> length (filter (\<lambda>p. \<not> pp_fully_local p) ps)" by (induction ps) auto
  finally show "unat (br_partially_local_pieces r) \<le> unat (br_missing_pieces r)" using miss by simp
qed

end
