(* ===== verification/Bt_Torrent_Safety.thy ===== *)
theory Bt_Torrent_Safety
  imports Bt_Magnet Bt_Plan
begin

text \<open>
  What the readers of metadata, tracker responses and magnet links guarantee: the shape of a torrent, the
  bytes its info hash covers, the peers and trackers that are returned.
\<close>

section \<open>Nodes with the same tree\<close>

lemma bn_value_tree: "tree_of (bn_value x) = node_tree x"
  by (cases x) simp

lemma as_byte_string_tree: "node_tree x = node_tree y \<Longrightarrow> as_byte_string x = as_byte_string y"
proof -
  have "as_byte_string x l = (case node_tree x of TBytes bs \<Rightarrow> Inr bs | _ \<Rightarrow> Inl (Bail (l @ '' must be a byte string'')))" for x l
    by (cases "bn_value x") (simp_all add: as_byte_string_def flip: bn_value_tree)
  then show "node_tree x = node_tree y \<Longrightarrow> as_byte_string x = as_byte_string y" by (simp add: fun_eq_iff)
qed

lemma node_u64_tree: "node_tree x = node_tree y \<Longrightarrow> node_u64 x = node_u64 y"
proof -
  have "node_u64 x l = (case node_tree x of
      TInteger v \<Rightarrow> bail_if (v < 0) (l @ '' is negative'') (Inr (word_of_int v))
    | _ \<Rightarrow> Inl (Bail (l @ '' must be an integer'')))" for x l
    by (cases "bn_value x") (simp_all add: node_u64_def flip: bn_value_tree)
  then show "node_tree x = node_tree y \<Longrightarrow> node_u64 x = node_u64 y" by (simp add: fun_eq_iff)
qed

lemma node_utf8_tree: "node_tree x = node_tree y \<Longrightarrow> node_utf8 x = node_utf8 y"
  using as_byte_string_tree [of x y] by (simp add: node_utf8_def fun_eq_iff)

abbreviation entry_trees :: "(bytes \<times> bnode) list \<Rightarrow> (bytes \<times> btree) list" where
  "entry_trees es \<equiv> map (\<lambda>(k, x). (k, node_tree x)) es"

lemma as_dictionary_Inr: "as_dictionary x l = Inr es \<longleftrightarrow> bn_value x = BDictionary es"
  by (auto simp: as_dictionary_def split: bvalue.splits)

lemma node_tree_dictionary: "node_tree x = TDictionary ts \<longleftrightarrow> (\<exists>es. bn_value x = BDictionary es \<and> entry_trees es = ts)"
  by (cases x; cases "bn_value x") auto

lemma dictionary_value_tree:
  "entry_trees es = entry_trees fs \<Longrightarrow>
    map_option node_tree (dictionary_value es k) = map_option node_tree (dictionary_value fs k)"
  unfolding dictionary_value_def
proof (induction es arbitrary: fs)
  case (Cons e es)
  then obtain f fs' where "fs = f # fs'" "fst e = fst f" "node_tree (snd e) = node_tree (snd f)" "entry_trees es = entry_trees fs'"
    by (cases fs) (auto split: prod.splits)
  with Cons.IH show ?case by auto
qed simp

lemma dictionary_value_same:
  assumes "entry_trees es = entry_trees fs"
  shows "dictionary_value es k = Some x \<Longrightarrow> \<exists>y. dictionary_value fs k = Some y \<and> node_tree y = node_tree x"
    and "dictionary_value es k = None \<Longrightarrow> dictionary_value fs k = None"
  using dictionary_value_tree [OF assms, of k] by (auto simp: map_option_case split: option.splits)

lemma required_same:
  "required es k msg = Inr x \<Longrightarrow> entry_trees es = entry_trees fs \<Longrightarrow> \<exists>y. required fs k msg = Inr y \<and> node_tree y = node_tree x"
  using dictionary_value_same(1) by (fastforce simp: required_def)

text \<open>The info dictionary is read from its tree alone, wherever it was parsed.\<close>

lemma parse_v1_info_node_tree:
  assumes "parse_v1_info_node X x raw a al = Inr t" and "node_tree x = node_tree y"
  shows "parse_v1_info_node X y raw a al = Inr t"
proof -
  from assms(1) obtain es where es: "bn_value x = BDictionary es" by (auto simp: parse_v1_info_node_def as_dictionary_Inr)
  then have "node_tree x = TDictionary (entry_trees es)" by (cases x) simp
  then obtain fs where fs: "bn_value y = BDictionary fs" "entry_trees es = entry_trees fs"
    using assms(2) node_tree_dictionary [of y] by auto
  from assms(1) es obtain n1 n2 n3 n4 where n: "required es ''name'' ''info.name is missing'' = Inr n1"
    "required es ''length'' ''info.length is missing'' = Inr n2"
    "required es ''piece length'' ''info.piece length is missing'' = Inr n3"
    "required es ''pieces'' ''info.pieces is missing'' = Inr n4"
    "dictionary_value es (as_bytes ''files'') = None" "dictionary_value es (as_bytes ''meta version'') = None"
    by (auto simp: parse_v1_info_node_def as_dictionary_def)
  obtain m1 m2 m3 m4 where m: "required fs ''name'' ''info.name is missing'' = Inr m1"
    "required fs ''length'' ''info.length is missing'' = Inr m2"
    "required fs ''piece length'' ''info.piece length is missing'' = Inr m3"
    "required fs ''pieces'' ''info.pieces is missing'' = Inr m4"
    and mt: "node_tree m1 = node_tree n1" "node_tree m2 = node_tree n2" "node_tree m3 = node_tree n3" "node_tree m4 = node_tree n4"
    using n(1-4) [THEN required_same, OF fs(2)] by blast
  note same = node_utf8_tree [OF mt(1)] node_u64_tree [OF mt(2)] node_u64_tree [OF mt(3)] as_byte_string_tree [OF mt(4)]
  have "parse_v1_info_node X y raw a al = parse_v1_info_node X x raw a al"
    unfolding parse_v1_info_node_def as_dictionary_def es fs(1)
    by (simp add: n m same dictionary_value_same(2) [OF fs(2) n(5)] dictionary_value_same(2) [OF fs(2) n(6)])
  with assms(1) show ?thesis by simp
qed

section \<open>Where the entries of a dictionary lie\<close>

lemma parse_dictionary_entries:
  "parse_dictionary node bs n p es = Inr (fs, q) \<Longrightarrow> (k, x) \<in> set fs \<Longrightarrow> (k, x) \<in> set es \<or> (\<exists>p q. node p = Inr (x, q))"
proof (induction n arbitrary: p es)
  case (Suc n)
  show ?case
  proof (cases "byte_at bs p = Some 101")
    case False
    with Suc.prems(1) obtain k' q' where k': "node p = Inr (k', q')" by (auto split: prod.splits)
    with False Suc.prems(1) obtain key x' s where "node q' = Inr (x', s)"
      "parse_dictionary node bs n s (es @ [(key, x')]) = Inr (fs, q)"
      by (auto split: bvalue.splits)
    with Suc.IH [OF this(2) Suc.prems(2)] show ?thesis by auto
  qed (use Suc.prems in auto)
qed simp

lemma parse_prefix_dictionary:
  assumes "parse_prefix bs = Inr (root, q)" and "bn_value root = BDictionary es" and "(k, x) \<in> set es" and "length bs < 2 ^ 64"
  shows "slice bs (bn_start x) (bn_end x) = encode (node_tree x) \<and> tree_ok 1 (node_tree x)"
proof -
  from assms(1) obtain m v where m: "byte_at bs 0 = Some m" and r: "root = BNode v 0 q"
    and v: "(if m = 105 then parse_integer bs 0
        else if m = 108 then and_then (parse_list (parse_node (length bs) bs (0 + 1)) bs (length bs) (0 + 1) []) (\<lambda>(es, q). Inr (BList es, q))
        else if m = 100 then and_then (parse_dictionary (parse_node (length bs) bs (0 + 1)) bs (length bs) (0 + 1) []) (\<lambda>(es, q). Inr (BDictionary es, q))
        else if byte_digit m then parse_bytes bs 0
        else Inl (Bail ''invalid bencode marker'')) = Inr (v, q)"
    by (auto simp: parse_prefix_def bencode_fuel_def)
  have d: "v = BDictionary es" using assms(2) r by simp
  have "m = 100"
    using v d parse_integer_exact [of bs 0 v q] m by (auto simp: parse_bytes_def Let_def split: if_splits)
  then obtain w where "parse_dictionary (parse_node (length bs) bs 1) bs (length bs) 1 [] = Inr (es, w)" using v d by auto
  from parse_dictionary_entries [OF this assms(3)] obtain p q' where "parse_node (length bs) bs 1 p = Inr (x, q')" by auto
  from parse_node_sound [OF assms(4) this] show ?thesis using at_input_slice by auto
qed

section \<open>Lists\<close>

lemma keep_first_fold:
  "distinct kept \<Longrightarrow> distinct (foldl (\<lambda>kept x. if x \<in> set kept then kept else kept @ [x]) kept xs)
    \<and> set (foldl (\<lambda>kept x. if x \<in> set kept then kept else kept @ [x]) kept xs) = set kept \<union> set xs"
  by (induction xs arbitrary: kept) auto

lemma distinct_keep_first [simp]: "distinct (keep_first xs)"
  and set_keep_first [simp]: "set (keep_first xs) = set xs"
  using keep_first_fold [of "[]" xs] by (simp_all add: keep_first_def)

lemma length_keep_first: "length (keep_first xs) \<le> length xs"
  using card_length [of xs] distinct_card [OF distinct_keep_first, of xs] by simp

lemma chunks_exact_lengths: "c \<in> set (chunks_exact n xs) \<Longrightarrow> length c = n"
proof (induction n xs rule: chunks_exact.induct)
  case (1 n xs)
  then show ?case by (subst (asm) (2) chunks_exact.simps) (auto split: if_splits)
qed

lemma length_chunks_exact: "0 < n \<Longrightarrow> length (chunks_exact n xs) = length xs div n"
proof (induction n xs rule: chunks_exact.induct)
  case (1 n xs)
  show ?case
  proof (cases "length xs < n")
    case True
    then show ?thesis by (subst chunks_exact.simps) simp
  next
    case False
    then have "length (chunks_exact n xs) = Suc ((length xs - n) div n)"
      using 1 by (subst chunks_exact.simps) simp
    also have "\<dots> = length xs div n" using False "1.prems" by (simp add: le_div_geq)
    finally show ?thesis .
  qed
qed

lemma chunks_exact_append: "length x = n \<Longrightarrow> 0 < n \<Longrightarrow> chunks_exact n (x @ xs) = x # chunks_exact n xs"
  by (subst chunks_exact.simps) simp

section \<open>Torrents\<close>

definition tracker_list_ok :: "string list list \<Rightarrow> bool" where
  "tracker_list_ok tiers \<longleftrightarrow> length tiers \<le> MAX_TRACKER_TIERS \<and>
     list_all (\<lambda>tier. tier \<noteq> [] \<and> length tier \<le> MAX_TRACKERS_PER_TIER \<and> distinct tier \<and> [] \<notin> set tier) tiers"

definition torrent_ok :: "torrent_v1 \<Rightarrow> bool" where
  "torrent_ok t \<longleftrightarrow> torrent_shape t \<and> tv_piece_length t \<le> MAX_BT_PIECE_LENGTH
     \<and> list_all (\<lambda>h. length h = 40) (tv_piece_sha1 t) \<and> length (tv_info_hash_sha1 t) = 40
     \<and> (case tv_announce_list t of None \<Rightarrow> True | Some tiers \<Rightarrow> tracker_list_ok tiers)"

lemma bt_ext_okD:
  assumes "bt_ext_ok X"
  shows "length (bx_sha1 X b) = 20" "length (bx_hex X b) = 2 * length b" "cdc_ext_ok (bx_cdc X)"
  using assms by (auto simp: bt_ext_ok_def cdc_ext_ok_def)

lemma parse_tier_ok:
  "parse_tier x = Inr tier \<Longrightarrow> length tier \<le> MAX_TRACKERS_PER_TIER \<and> distinct tier \<and> [] \<notin> set tier"
proof -
  assume a: "parse_tier x = Inr tier"
  then obtain xs urls where u: "length xs \<le> MAX_TRACKERS_PER_TIER" "tier = keep_first urls"
    "try_map (\<lambda>tracker. and_then (node_utf8 tracker ''announce-list entry'') (\<lambda>url.
            bail_if (url = []) ''announce-list contains an empty tracker URL'' (Inr url))) xs = Inr urls"
    by (auto simp: parse_tier_def not_less split: bvalue.splits)
  have "[] \<notin> set urls" using try_map_source [OF u(3)] by fastforce
  with u length_keep_first [of urls] try_map_length [OF u(3)] show ?thesis by simp
qed

lemma parse_announce_list_ok: "parse_announce_list x = Inr tiers \<Longrightarrow> tracker_list_ok tiers"
proof -
  assume "parse_announce_list x = Inr tiers"
  then obtain xs ts where t: "length xs \<le> MAX_TRACKER_TIERS" "try_map parse_tier xs = Inr ts" "tiers = filter (\<lambda>urls. urls \<noteq> []) ts"
    by (auto simp: parse_announce_list_def not_less split: bvalue.splits)
  have "length tiers \<le> MAX_TRACKER_TIERS"
    using t try_map_length [OF t(2)] length_filter_le [of "\<lambda>urls. urls \<noteq> []" ts] by simp
  moreover have "list_all (\<lambda>tier. tier \<noteq> [] \<and> length tier \<le> MAX_TRACKERS_PER_TIER \<and> distinct tier \<and> [] \<notin> set tier) tiers"
    using t(3) try_map_source [OF t(2)] parse_tier_ok by (fastforce simp: list_all_iff)
  ultimately show ?thesis by (simp add: tracker_list_ok_def)
qed

lemma parse_v1_info_node_ok:
  assumes "parse_v1_info_node X x raw a al = Inr t" and "bt_ext_ok X"
    and "case al of None \<Rightarrow> True | Some tiers \<Rightarrow> tracker_list_ok tiers"
  shows "torrent_ok t" and "tv_info_hash_sha1 t = sha1_hex X raw" and "tv_announce t = a" and "tv_announce_list t = al"
proof -
  from assms(1) obtain name total pl pieces where t: "t = \<lparr>tv_name = name, tv_total_length = total, tv_piece_length = pl,
       tv_piece_sha1 = map (bx_hex X) (chunks_exact 20 pieces),
       tv_info_hash_sha1 = sha1_hex X raw, tv_announce = a, tv_announce_list = al\<rparr>"
    and n: "pl \<noteq> 0" "\<not> MAX_BT_PIECE_LENGTH < pl" "length pieces div 20 = expected_pieces total pl"
    by (auto simp: parse_v1_info_node_def)
  show "torrent_ok t"
    using n assms(3) bt_ext_okD [OF assms(2)]
    by (auto simp: torrent_ok_def torrent_shape_def t length_chunks_exact list_all_iff sha1_hex_def word_neq_0_conv
        dest: chunks_exact_lengths)
  show "tv_info_hash_sha1 t = sha1_hex X raw" "tv_announce t = a" "tv_announce_list t = al" by (simp_all add: t)
qed

lemma optional_Inr:
  "optional dict key f = Inr r \<longleftrightarrow> (case dictionary_value dict (as_bytes key) of None \<Rightarrow> r = None
     | Some x \<Rightarrow> \<exists>y. f x = Inr y \<and> r = Some y)"
  by (auto simp: optional_def split: option.splits)

lemma dictionary_value_mem: "dictionary_value es k = Some x \<Longrightarrow> (k, x) \<in> set es"
  by (auto simp: dictionary_value_def dest!: find_Some_memD)

lemma tree_ok_shallower: "tree_ok d t \<Longrightarrow> e \<le> d \<Longrightarrow> tree_ok e t"
proof (induction d t arbitrary: e rule: tree_ok.induct)
  case (3 d ts)
  then show ?case by (auto intro: le_trans)
next
  case (4 d es)
  then show ?case by (fastforce intro: le_trans)
qed auto

text \<open>
  The torrent of a metadata file: its bytes are the canonical encoding of a dictionary, its info hash is
  the SHA-1 of the bytes of the entry \<open>info\<close>, and those bytes alone give the same torrent.
\<close>

lemma parse_v1_torrent_exact:
  assumes "parse_v1_torrent X bs = Inr t" and "bt_ext_ok X" and "length bs < 2 ^ 64"
  shows "\<exists>es info. bs = encode (TDictionary es) \<and> tree_ok 0 (TDictionary es) \<and> (as_bytes ''info'', info) \<in> set es
    \<and> tv_info_hash_sha1 t = sha1_hex X (encode info) \<and> torrent_ok t
    \<and> parse_v1_info_dictionary X (encode info) (tv_announce t) (tv_announce_list t) = Inr t"
proof -
  from assms(1) obtain root dict info a al where r: "parse_whole bs ''trailing bytes after bencoded torrent metadata'' = Inr root"
    "bn_value root = BDictionary dict" "dictionary_value dict (as_bytes ''info'') = Some info"
    and al: "optional dict ''announce-list'' parse_announce_list = Inr al"
    and t: "parse_v1_info_node X info (slice bs (bn_start info) (bn_end info)) a al = Inr t"
    by (auto simp: parse_v1_torrent_def as_dictionary_Inr required_def)
  from r(1) have p: "parse_prefix bs = Inr (root, length bs)" by (auto simp: parse_whole_def)
  have root: "bs = encode (node_tree root)" "tree_ok 0 (node_tree root)" using parse_prefix_sound [OF p assms(3)] by auto
  have rt: "node_tree root = TDictionary (entry_trees dict)" using r(2) by (cases root) simp
  have mem: "(as_bytes ''info'', info) \<in> set dict" using dictionary_value_mem [OF r(3)] .
  note sub = parse_prefix_dictionary [OF p r(2) mem assms(3)]
  have alok: "case al of None \<Rightarrow> True | Some tiers \<Rightarrow> tracker_list_ok tiers"
    using al parse_announce_list_ok by (auto simp: optional_Inr split: option.splits)
  note ok = parse_v1_info_node_ok [OF t assms(2) alok]
  have small: "length (encode (node_tree info)) < 2 ^ 64"
  proof -
    have "length (slice bs (bn_start info) (bn_end info)) \<le> length bs"
      unfolding slice_def length_take length_drop by linarith
    with sub assms(3) show ?thesis by simp
  qed
  have ok0: "tree_ok 0 (node_tree info)" using sub tree_ok_shallower by auto
  obtain y where y: "parse_prefix (encode (node_tree info)) = Inr (y, length (encode (node_tree info)))" "node_tree y = node_tree info"
    using parse_prefix_complete [of "node_tree info" "[]"] sub ok0 small by auto
  have "parse_v1_info_node X y (encode (node_tree info)) a al = Inr t"
    using parse_v1_info_node_tree [OF t, of y] y(2) sub by simp
  then have "parse_v1_info_dictionary X (encode (node_tree info)) (tv_announce t) (tv_announce_list t) = Inr t"
    using y(1) ok(3,4) by (simp add: parse_v1_info_dictionary_def parse_whole_def)
  moreover have "(as_bytes ''info'', node_tree info) \<in> set (entry_trees dict)" using mem by force
  ultimately show ?thesis using root rt ok sub by metis
qed

text \<open>The converse: the metadata file made of an accepted info dictionary is accepted.\<close>

lemma parse_v1_torrent_complete:
  assumes "parse_v1_info_node X y (encode info) None None = Inr t" and "node_tree y = info"
    and "bs = encode (TDictionary [(as_bytes ''info'', info)])" and "tree_ok 1 info" and "length bs < 2 ^ 64"
  shows "parse_v1_torrent X bs = Inr t"
proof -
  have "tree_ok 0 (TDictionary [(as_bytes ''info'', info)])" using assms(4) by (simp add: MAX_BENCODE_DEPTH_def)
  then obtain root where root: "parse_prefix bs = Inr (root, length bs)" "node_tree root = TDictionary [(as_bytes ''info'', info)]"
    using parse_prefix_complete [of "TDictionary [(as_bytes ''info'', info)]" "[]"] assms(3,5) by (auto simp del: encode.simps)
  then obtain x where x: "bn_value root = BDictionary [(as_bytes ''info'', x)]" "node_tree x = info"
    by (auto simp: node_tree_dictionary map_eq_Cons_conv split: prod.splits)
  have "slice bs (bn_start x) (bn_end x) = encode info"
    using parse_prefix_dictionary [OF root(1) x(1) _ assms(5), of "as_bytes ''info''" x] x(2) by simp
  moreover have "parse_v1_info_node X x (encode info) None None = Inr t"
    by (rule parse_v1_info_node_tree [OF assms(1)]) (simp add: x(2) assms(2))
  ultimately show ?thesis
    using root(1) x(1) by (simp add: parse_v1_torrent_def parse_whole_def as_dictionary_def required_def
        optional_def dictionary_value_def as_bytes_def transpose_opt_def byte_val_def)
qed

section \<open>Peers of a tracker\<close>

definition peer_ok :: "socket_addr \<Rightarrow> bool" where
  "peer_ok peer \<longleftrightarrow> ip_ok (fst peer) \<and> snd peer \<noteq> 0"

lemma compact_peers_ok:
  assumes "peer \<in> set (filter (\<lambda>(_, port). port \<noteq> 0) (map (compact_peer family) (chunks_exact n bs)))"
    and "\<And>a. length a = n - 2 \<Longrightarrow> ip_ok (family a)"
  shows "peer_ok peer"
  using assms by (auto simp: peer_ok_def compact_peer_def Let_def dest!: chunks_exact_lengths)

lemma dictionary_peer_ok: "dictionary_peer x = Inr peer \<Longrightarrow> ip_ok (fst peer)"
  by (auto simp: dictionary_peer_def dest: parse_ip_addr_ok)

lemma parse_peers4_ok:
  assumes "parse_compact_ipv4_peers bs = Inr ps" and "peer \<in> set ps"
  shows "peer_ok peer"
proof (rule compact_peers_ok)
  show "peer \<in> set (filter (\<lambda>(_, port). port \<noteq> 0) (map (compact_peer V4) (chunks_exact 6 bs)))"
    using assms by (simp only: parse_compact_ipv4_peers_def bail_if_eq_Inr) auto
qed (simp add: ip_ok_def)

lemma parse_peers6_ok:
  assumes "parse_compact_ipv6_peers bs = Inr ps" and "peer \<in> set ps"
  shows "peer_ok peer"
proof (rule compact_peers_ok)
  show "peer \<in> set (filter (\<lambda>(_, port). port \<noteq> 0) (map (compact_peer V6) (chunks_exact 18 bs)))"
    using assms by (simp only: parse_compact_ipv6_peers_def bail_if_eq_Inr) auto
qed (simp add: ip_ok_def)

lemma parse_peers_ok: "parse_peers x = Inr ps \<Longrightarrow> peer \<in> set ps \<Longrightarrow> peer_ok peer"
  using parse_peers4_ok
  by (auto simp: parse_peers_def parse_dictionary_peers_def peer_ok_def
      split: bvalue.splits dest!: try_map_source dest: dictionary_peer_ok)

lemma parse_tracker_response_ok:
  assumes "parse_tracker_response bs = Inr r"
  shows "distinct (tr_peers r) \<and> list_all peer_ok (tr_peers r)"
proof -
  from assms obtain root dict where d: "parse_whole bs ''trailing bytes after bencoded tracker response'' = Inr root"
    "as_dictionary root ''tracker response'' = Inr dict"
    by (auto simp: parse_tracker_response_def)
  with assms have none: "dictionary_value dict (as_bytes ''failure reason'') = None"
    by (cases "dictionary_value dict (as_bytes ''failure reason'')") (simp_all add: parse_tracker_response_def)
  from assms obtain ps ps6 where p: "optional dict ''peers'' parse_peers = Inr ps"
    "optional dict ''peers6'' (\<lambda>x. and_then (as_byte_string x ''peers6'') parse_compact_ipv6_peers) = Inr ps6"
    "tr_peers r = keep_first ((case ps of None \<Rightarrow> [] | Some ps \<Rightarrow> ps) @ (case ps6 of None \<Rightarrow> [] | Some ps \<Rightarrow> ps))"
    by (auto simp: parse_tracker_response_def d none)
  have "peer_ok peer" if "peer \<in> set (case ps of None \<Rightarrow> [] | Some ps \<Rightarrow> ps)" for peer
    using p(1) that parse_peers_ok [of _ _ peer] by (auto simp: optional_Inr split: option.splits)
  moreover have "peer_ok peer" if "peer \<in> set (case ps6 of None \<Rightarrow> [] | Some ps \<Rightarrow> ps)" for peer
    using p(2) that parse_peers6_ok [of _ _ peer] by (auto simp: optional_Inr split: option.splits)
  ultimately show ?thesis using p(3) by (auto simp: list_all_iff)
qed

text \<open>A compact list of peers is read back as it was written, the peers with port zero left out.\<close>

definition compact_encode :: "socket_addr \<Rightarrow> bytes" where
  "compact_encode peer = (case fst peer of V4 a \<Rightarrow> a | V6 a \<Rightarrow> a) @ be_bytes 2 (unat (snd peer))"

lemma compact_peer_encode:
  assumes "length a = n"
  shows "compact_peer family (a @ be_bytes 2 (unat (port :: u16))) = (family a, port)"
proof -
  have "be_nat (be_bytes 2 (unat port)) = unat port" using unat_u16_bound [of port] by (intro be_nat_be_bytes) simp
  moreover obtain b c where bc: "be_bytes 2 (unat port) = [b, c]"
    using length_be_bytes [of 2 "unat port"] by (auto simp: numeral_2_eq_2 length_Suc_conv)
  ultimately show ?thesis using assms by (simp add: compact_peer_def be_u16_def Let_def nth_append)
qed

lemma parse_compact_encode:
  assumes "list_all (\<lambda>a. length a = 4) (map fst peers)"
  shows "parse_compact_ipv4_peers (concat (map (\<lambda>(a, port). compact_encode (V4 a, port)) peers))
    = Inr (filter (\<lambda>(_, port). port \<noteq> 0) (map (\<lambda>(a, port). (V4 a, port)) peers))"
proof -
  let ?bs = "concat (map (\<lambda>(a, port). compact_encode (V4 a, port)) peers)"
  have "map (compact_peer V4) (chunks_exact 6 ?bs) = map (\<lambda>(a, port). (V4 a, port)) peers \<and> length ?bs mod 6 = 0"
    using assms
  proof (induction peers)
    case Nil
    then show ?case by (simp add: chunks_exact.simps)
  next
    case (Cons p peers)
    obtain a port where p: "p = (a, port)" by fastforce
    then have a: "length (compact_encode (V4 a, port)) = 6" "length a = 4" using Cons.prems by (simp_all add: compact_encode_def)
    then show ?case
      using Cons compact_peer_encode [OF a(2), of V4 port] chunks_exact_append [OF a(1)]
      by (simp add: p) (simp add: compact_encode_def)
  qed
  then show ?thesis by (simp add: parse_compact_ipv4_peers_def)
qed

section \<open>Magnet links\<close>

definition tracker_url_ok :: "bt_ext \<Rightarrow> string \<Rightarrow> bool" where
  "tracker_url_ok X s \<longleftrightarrow> (case bx_url_parse X s of Inl e \<Rightarrow> False
     | Inr u \<Rightarrow> url_scheme u \<in> {''http'', ''https'', ''udp''} \<and> url_host u \<noteq> None)"

lemma validate_tracker_iff: "validate_tracker X s = Inr () \<longleftrightarrow> tracker_url_ok X s"
  by (cases "bx_url_parse X s") (auto simp: validate_tracker_def tracker_url_ok_def)

lemma magnet_pairs_inv:
  assumes "try_fold (magnet_pair X) (h, n, ts) pairs = Inr (h', n', ts')" and "distinct ts" and "list_all (tracker_url_ok X) ts"
  shows "distinct ts' \<and> list_all (tracker_url_ok X) ts' \<and> set ts' = set ts \<union> {v. (''tr'', v) \<in> set pairs}
    \<and> (\<forall>v e. (''xt'', v) \<in> set pairs \<and> strip_prefix ''urn:btih:'' v = Some e \<longrightarrow> h' \<noteq> None \<and> decode_btih X e = Inr (the h'))
    \<and> (h \<noteq> None \<longrightarrow> h' = h)
    \<and> (h = None \<and> h' \<noteq> None \<longrightarrow> (\<exists>v e. (''xt'', v) \<in> set pairs \<and> strip_prefix ''urn:btih:'' v = Some e))"
  using assms
proof (induction pairs arbitrary: h n ts)
  case (Cons p pairs)
  obtain k v where p: "p = (k, v)" by fastforce
  from Cons.prems(1) obtain h1 n1 ts1 where s: "magnet_pair X (h, n, ts) (k, v) = Inr (h1, n1, ts1)"
    "try_fold (magnet_pair X) (h1, n1, ts1) pairs = Inr (h', n', ts')" by (auto simp: p)
  consider (xt) e where "k = ''xt''" "strip_prefix ''urn:btih:'' v = Some e" "decode_btih X e = Inr (the h1)" "h1 \<noteq> None" "h \<noteq> None \<longrightarrow> h1 = h" "ts1 = ts"
    | (tr) "k = ''tr''" "tracker_url_ok X v" "h1 = h" "ts1 = (if v \<in> set ts then ts else ts @ [v])"
    | (other) "k \<noteq> ''tr''" "k = ''xt'' \<longrightarrow> strip_prefix ''urn:btih:'' v = None" "h1 = h" "ts1 = ts"
    using s(1) validate_tracker_iff [of X v]
    by (auto simp: magnet_pair_def split: if_splits option.splits)
  then show ?case
  proof cases
    case xt
    with Cons.IH [OF s(2)] Cons.prems(2,3) show ?thesis by (auto simp: p)
  next
    case tr
    then have "distinct ts1" "list_all (tracker_url_ok X) ts1" using Cons.prems(2,3) by (auto simp: list_all_iff)
    with tr Cons.IH [OF s(2)] show ?thesis by (auto simp: p)
  next
    case other
    with Cons.IH [OF s(2)] Cons.prems(2,3) show ?thesis by (auto simp: p)
  qed
qed auto

end
