(* ===== verification/Bt_Properties.thy ===== *)
theory Bt_Properties
  imports Bt_Torrent_Safety Cdc_Delivery
begin

text \<open>
  The properties of metadata, magnet links and the bridge plan, each with an instance at a concrete
  torrent. The record \<open>inst_bt\<close> shows that the hypothesis on the third-party crates can hold.
\<close>

section \<open>A sample torrent\<close>

definition inst_url :: "string \<Rightarrow> parsed_url result" where
  "inst_url s =
     (if s = ''magnet:?1'' then Inr \<lparr>url_scheme = ''magnet'', url_fragment = None,
        url_query_pairs = [(''xt'', ''urn:btih:'' @ replicate 40 (CHR ''A'')), (''tr'', ''udp://t'')], url_host = None\<rparr>
      else if s = ''udp://t'' then Inr \<lparr>url_scheme = ''udp'', url_fragment = None, url_query_pairs = [], url_host = Some ''t''\<rparr>
      else Inl (Bail ''relative URL without a base''))"

definition inst_bt :: bt_ext where
  "inst_bt = \<lparr>bx_cdc = inst_cdc, bx_sha1 = pad_to 20, bx_url_parse = inst_url\<rparr>"

lemma nibble_char_lower: "n < 16 \<Longrightarrow> is_ascii_hexdigit (nibble_char n) \<and> \<not> is_ascii_upper (nibble_char n)"
  by (auto simp: nibble_char_def is_ascii_hexdigit_def is_ascii_digit_def is_ascii_upper_def)

lemma inst_hex_lower: "list_all (\<lambda>c. is_ascii_hexdigit c \<and> \<not> is_ascii_upper c) (inst_hex_encode bs)"
proof (induction bs)
  case (Cons b bs)
  have "unat b div 16 < 16" using unat_u8_bound [of b] by (simp add: less_mult_imp_div_less)
  with Cons show ?case using nibble_char_lower [of "unat b div 16"] nibble_char_lower [of "unat b mod 16"]
    by (simp add: inst_hex_encode_def)
qed (simp add: inst_hex_encode_def)

lemma inst_bt_ok: "bt_ext_ok inst_bt"
  using inst_hex_lower by (simp add: bt_ext_ok_def inst_bt_def inst_cdc_ok inst_cdc_fields)

definition tiny_info :: btree where
  "tiny_info = TDictionary [(as_bytes ''name'', TBytes [116]), (as_bytes ''length'', TInteger 1),
     (as_bytes ''piece length'', TInteger 4), (as_bytes ''pieces'', TBytes (pad_to 20 [7]))]"

definition tiny_info_node :: bnode where
  "tiny_info_node = BNode (BDictionary [(as_bytes ''name'', BNode (BBytes [116]) 0 0), (as_bytes ''length'', BNode (BInteger 1) 0 0),
     (as_bytes ''piece length'', BNode (BInteger 4) 0 0), (as_bytes ''pieces'', BNode (BBytes (pad_to 20 [7])) 0 0)]) 0 0"

definition tiny_torrent :: torrent_v1 where
  "tiny_torrent = \<lparr>tv_name = ''t'', tv_total_length = 1, tv_piece_length = 4, tv_piece_sha1 = [sha1_hex inst_bt [7]],
     tv_info_hash_sha1 = sha1_hex inst_bt (encode tiny_info), tv_announce = None, tv_announce_list = None\<rparr>"

definition tiny_metainfo :: bytes where
  "tiny_metainfo = encode (TDictionary [(as_bytes ''info'', tiny_info)])"

lemma tiny_name: "text_of [116] = ''t''"
  using text_of_as_bytes [of "''t''"] by (simp add: as_bytes_def byte_val_def)

lemma tiny_info_parsed: "parse_v1_info_node inst_bt tiny_info_node (encode tiny_info) None None = Inr tiny_torrent"
  by (simp add: parse_v1_info_node_def tiny_info_node_def as_dictionary_def required_def dictionary_value_def node_utf8_def
      node_u64_def as_byte_string_def tiny_name MAX_BT_PIECE_LENGTH_def expected_pieces_def div_ceil_def tiny_torrent_def
      chunks_exact.simps sha1_hex_def inst_bt_def)

lemma tiny_metainfo_length: "length tiny_metainfo < 2 ^ 64"
  by (simp add: tiny_metainfo_def tiny_info_def encode_bytes_def dec_int_def dec.simps)

lemma tiny_metainfo_parsed: "parse_v1_torrent inst_bt tiny_metainfo = Inr tiny_torrent"
  by (rule parse_v1_torrent_complete [OF tiny_info_parsed _ tiny_metainfo_def _ tiny_metainfo_length])
    (simp_all add: tiny_info_node_def tiny_info_def MAX_BENCODE_DEPTH_def i64_max_def)

text \<open>The index of the file \<open>/s/f\<close>, which holds the target, and its bridge plan.\<close>

definition sample_files :: file_system where
  "sample_files = [''/s/f'' \<mapsto> Regular [7] (Inr 5)]"

definition tiny_plan :: bt_bridge_report where
  "tiny_plan = \<lparr>br_torrent_name = ''t'', br_descriptor_name = ''t'', br_names_match = True,
     br_info_hash_sha1 = tv_info_hash_sha1 tiny_torrent, br_target_bytes = 1, br_piece_length = 4, br_total_pieces = 1,
     br_fully_local_pieces = 1, br_partially_local_pieces = 0, br_missing_pieces = 0, br_locally_covered_bytes = 1,
     br_missing_bytes = 0, br_fully_reconstructable_piece_bytes = 1,
     br_pieces = [\<lparr>pp_index = 0, pp_offset = 0, pp_length = 1, pp_expected_sha1 = sha1_hex inst_bt [7],
       pp_locally_covered_bytes = 1, pp_missing_bytes = 0, pp_fully_local = True, pp_local_sha1_verified = True\<rparr>]\<rparr>"

lemma sample_files_stat: "fs_metadata sample_files = sample_stat"
  by (auto simp: fun_eq_iff fs_metadata_def sample_files_def sample_stat_def)

lemma sample_index_profile: "ensure_profile inst_cdc sample_index tiny_profile = Inr ()"
  by (simp add: ensure_profile_def tiny_profile_valid sample_index_def inst_cdc_def)

lemma tiny_bounds: "min (saturating_add 0 4) 1 = (1 :: u64)"
proof -
  have "\<not> (4 :: u64) \<le> 1" by (simp add: word_le_nat_alt)
  then show ?thesis by (simp add: saturating_add_def min_def)
qed

lemma tiny_plan_made: "plan_v1_bridge inst_bt sample_index sample_files tiny_torrent tiny_descriptor = Inr tiny_plan"
proof -
  have "read_verified_chunk inst_cdc sample_files ''/s/f'' 0 1 (inst_blake3 [7]) = Inr [7]"
    by (simp add: read_verified_chunk_def fs_read_def sample_files_def read_range_def inst_cdc_fields)
  then have "cover_chunk inst_cdc sample_index sample_files 0 1 ([0], 0) \<lparr>ck_offset = 0, ck_length = 1, ck_hash = inst_blake3 [7]\<rparr>
      = Inr ([7], 1)"
    by (simp add: cover_chunk_def sample_files_stat sample_lookup copy_into_def)
  then have "plan_piece inst_bt sample_index sample_files tiny_torrent tiny_descriptor
     \<lparr>bs_locally_covered_bytes = 0, bs_fully_reconstructable_piece_bytes = 0, bs_fully_local_pieces = 0,
          bs_partially_local_pieces = 0, bs_pieces = []\<rparr> (0, sha1_hex inst_bt [7])
     = Inr \<lparr>bs_locally_covered_bytes = 1, bs_fully_reconstructable_piece_bytes = 1, bs_fully_local_pieces = 1,
          bs_partially_local_pieces = 0, bs_pieces = br_pieces tiny_plan\<rparr>"
    by (simp add: plan_piece_def tiny_torrent_def tiny_descriptor_parts checked_mul_def tiny_bounds inst_bt_def tiny_plan_def)
  then show ?thesis
    using tiny_descriptor_valid sample_index_profile
    by (simp add: plan_v1_bridge_def inst_bt_def tiny_torrent_def tiny_descriptor_parts) (simp add: tiny_plan_def tiny_torrent_def inst_bt_def)
qed

lemma tiny_torrent_shape: "torrent_shape tiny_torrent"
  by (simp add: torrent_shape_def tiny_torrent_def expected_pieces_def div_ceil_def)

text \<open>A magnet link to the sample torrent.\<close>

definition tiny_magnet :: magnet_v1 where
  "tiny_magnet = \<lparr>mg_info_hash_sha1 = replicate 40 (CHR ''a''), mg_display_name = None, mg_trackers = [''udp://t'']\<rparr>"

lemma tiny_magnet_parsed: "parse_v1_magnet inst_bt ''magnet:?1'' = Inr tiny_magnet"
proof -
  have "decode_btih inst_bt (replicate 40 (CHR ''A'')) = Inr (replicate 40 (CHR ''a''))"
    unfolding decode_btih_def by (simp add: list_all_iff to_ascii_lowercase_def) code_simp
  then show ?thesis
    by (simp add: parse_v1_magnet_def inst_bt_def inst_url_def magnet_pair_def validate_tracker_def tiny_magnet_def)
qed

section \<open>Properties\<close>

text \<open>C20: The bencode parser accepts exactly the canonical encodings: an input is accepted as a tree if and
  only if it is the encoding of that tree, with integers of 64 bits, distinct dictionary keys and at most
  128 levels of nesting.\<close>

theorem bencode_parser_exact:
  assumes "length bs < 2 ^ 64"
  shows "(\<exists>x. parse_whole bs trailing = Inr x \<and> node_tree x = t) \<longleftrightarrow> bs = encode t \<and> tree_ok 0 t"
  using assms by (rule parse_whole_exact)

theorem bencode_parser_exact_witness:
  "\<exists>x. parse_whole tiny_metainfo ''trailing'' = Inr x \<and> node_tree x = TDictionary [(as_bytes ''info'', tiny_info)]"
  using bencode_parser_exact [OF tiny_metainfo_length, of "''trailing''" "TDictionary [(as_bytes ''info'', tiny_info)]"]
  by (simp add: tiny_metainfo_def tiny_info_def MAX_BENCODE_DEPTH_def i64_max_def)

text \<open>C21: The bencode parser always returns: the recursion bound of one call per byte is never the reason of
  an error, and a larger bound gives the same result.\<close>

theorem bencode_parser_terminates:
  assumes "length bs < 2 ^ 64" and "bencode_fuel bs \<le> n"
  shows "parse_node n bs 0 0 = parse_prefix bs \<and> parse_prefix bs \<noteq> Inl (Foreign ''fuel'')"
  using assms by (rule parse_prefix_fuel)

theorem bencode_parser_terminates_witness:
  "parse_node 9 [108, 108, 108] 0 0 = parse_prefix [108, 108, 108] \<and> parse_prefix [108, 108, 108] \<noteq> Inl (Foreign ''fuel'')"
  using bencode_parser_terminates [of "[108, 108, 108]" 9] by (simp add: bencode_fuel_def)

text \<open>C22: A torrent that is read has the promised shape (a piece length of 1 byte to 16 MiB, as many 20-byte
  piece hashes as the size needs, bounded tracker tiers without duplicates), its info hash is the SHA-1 of
  the very bytes of the entry \<open>info\<close>, and those bytes alone, as a peer serves them, give the same torrent.\<close>

theorem torrent_determined_by_bytes:
  assumes "parse_v1_torrent X bs = Inr t" and "bt_ext_ok X" and "length bs < 2 ^ 64"
  shows "torrent_ok t \<and> (\<exists>es info. bs = encode (TDictionary es) \<and> tree_ok 0 (TDictionary es)
    \<and> (as_bytes ''info'', info) \<in> set es \<and> tv_info_hash_sha1 t = sha1_hex X (encode info)
    \<and> parse_v1_info_dictionary X (encode info) (tv_announce t) (tv_announce_list t) = Inr t)"
  using parse_v1_torrent_exact [OF assms] by blast

theorem torrent_determined_by_bytes_witness:
  "torrent_ok tiny_torrent \<and> length (tv_piece_sha1 tiny_torrent) = 1"
  using torrent_determined_by_bytes [OF tiny_metainfo_parsed inst_bt_ok tiny_metainfo_length]
  by (simp add: tiny_torrent_def)

text \<open>C23: The bridge plan is exact: for every piece in order it gives the place, the bytes the index covers and
  those missing; a piece is reported local only if all its bytes are covered, and then the bytes assembled
  from the verified chunks have the SHA-1 of the torrent. The totals are those of the pieces.\<close>

theorem bridge_plan_exact:
  assumes "plan_v1_bridge X db fs t d = Inr r" and "torrent_shape t"
  shows "pieces_planned X db fs t d (br_pieces r)
    \<and> unat (br_locally_covered_bytes r)
        = (\<Sum>c\<leftarrow>filter (found_locally (bx_cdc X) db fs) (td_chunks d). unat (ck_length c))
    \<and> unat (br_locally_covered_bytes r) + unat (br_missing_bytes r) = unat (ti_size (td_target d))
    \<and> unat (br_fully_local_pieces r) = length (filter pp_fully_local (br_pieces r))
    \<and> unat (br_fully_local_pieces r) + unat (br_missing_pieces r) = length (tv_piece_sha1 t)
    \<and> unat (br_partially_local_pieces r) \<le> unat (br_missing_pieces r)"
  using plan_v1_bridge_exact [OF assms] by blast

theorem bridge_plan_exact_witness:
  "unat (br_locally_covered_bytes tiny_plan) = 1 \<and> unat (br_fully_local_pieces tiny_plan) = 1
    \<and> pieces_planned inst_bt sample_index sample_files tiny_torrent tiny_descriptor (br_pieces tiny_plan)"
  using bridge_plan_exact [OF tiny_plan_made tiny_torrent_shape] by (simp add: tiny_plan_def)

text \<open>The bridge plan and the comparison of the descriptor with the index agree: over the same files the
  bytes covered by pieces are the bytes of the chunks found, whatever the piece length.\<close>

theorem bridge_agrees_with_comparison:
  assumes "plan_v1_bridge X db fs t d = Inr r" and "torrent_shape t"
    and "compare_descriptor (bx_cdc X) d db db_path (fs_metadata fs) = Inr c"
  shows "br_locally_covered_bytes r = cr_local_reusable_bytes c \<and> br_missing_bytes r = cr_missing_payload_bytes c"
proof -
  from assms(3) obtain matched reusable where v: "td_validate (bx_cdc X) d = Inr ()"
    and run: "try_fold (compare_chunk (bx_cdc X) db (fs_metadata fs)) (0, 0, []) (td_chunks d) = Inr (matched, reusable, cr_plan c)"
    and c: "cr_local_reusable_bytes c = reusable" "cr_missing_payload_bytes c = ti_size (td_target d) - reusable"
    by (auto simp: compare_descriptor_def Let_def)
  from compare_chunks_fold [OF run] have ps: "list_all2 (\<lambda>c q. pc_offset q = ck_offset c \<and> pc_length q = ck_length c \<and> pc_hash q = ck_hash c \<and>
      lookup_chunk (bx_cdc X) db (fs_metadata fs) (ck_hash c) (ck_length c) = Inr (pc_local_source q)) (td_chunks d) (cr_plan c)"
    and reuse: "reusable = word_of_nat (sum_list (map (\<lambda>q. unat (pc_length q)) (filter (\<lambda>q. pc_local_source q \<noteq> None) (cr_plan c))))"
    by auto
  from ps have "sum_list (map (\<lambda>q. unat (pc_length q)) (filter (\<lambda>q. pc_local_source q \<noteq> None) (cr_plan c)))
      = (\<Sum>c\<leftarrow>filter (found_locally (bx_cdc X) db fs) (td_chunks d). unat (ck_length c))"
    by (induction rule: list_all2_induct) (auto simp: found_locally_def split: option.splits)
  with plan_v1_bridge_exact(2) [OF assms(1,2)] reuse have cov: "br_locally_covered_bytes r = reusable"
    by (metis word_of_nat_unat)
  moreover have "br_missing_bytes r = ti_size (td_target d) - br_locally_covered_bytes r"
    using assms(1) by (auto simp: plan_v1_bridge_def Let_def)
  ultimately show ?thesis using c by simp
qed

theorem bridge_agrees_with_comparison_witness:
  "\<exists>c. compare_descriptor inst_cdc tiny_descriptor sample_index ''/db'' sample_stat = Inr c
     \<and> cr_local_reusable_bytes c = 1 \<and> cr_missing_payload_bytes c = 0"
proof -
  have "\<exists>c. compare_descriptor inst_cdc tiny_descriptor sample_index ''/db'' sample_stat = Inr c"
    using tiny_descriptor_valid sample_index_profile sample_lookup
    by (simp add: compare_descriptor_def compare_chunk_def tiny_descriptor_parts db_stats_def sample_index_def i64_max_def Let_def)
  then obtain c where c: "compare_descriptor inst_cdc tiny_descriptor sample_index ''/db'' sample_stat = Inr c" by blast
  then have "compare_descriptor (bx_cdc inst_bt) tiny_descriptor sample_index ''/db'' (fs_metadata sample_files) = Inr c"
    by (simp add: sample_files_stat inst_bt_def)
  from bridge_agrees_with_comparison [OF tiny_plan_made tiny_torrent_shape this] c show ?thesis
    by (simp add: tiny_plan_def)
qed

text \<open>The two spellings of an info hash name the same torrent: the base32 text and the hexadecimal text,
  in either case, of twenty bytes are decoded to the same lower-case hexadecimal hash; every other accepted
  text has 32 base32 digits, and its hash is that of the number they denote.\<close>

theorem info_hash_spellings:
  assumes "bt_ext_ok X" and "length h = 20"
  shows "decode_btih X (base32_encode h) = Inr (bx_hex X h)
    \<and> decode_btih X (bx_hex X h) = Inr (bx_hex X h)
    \<and> decode_btih X (to_ascii_uppercase (bx_hex X h)) = Inr (bx_hex X h)
    \<and> (length s \<noteq> 40 \<longrightarrow> (decode_btih X s = Inr r \<longleftrightarrow> length s = 32 \<and>
          (\<exists>ds. map base32_digit (as_bytes s) = map Some ds \<and> r = bx_hex X (be_bytes 20 (base32_nat ds)))))"
proof -
  have hex: "length (bx_hex X h) = 40" "list_all (\<lambda>c. is_ascii_hexdigit c \<and> \<not> is_ascii_upper c) (bx_hex X h)"
  proof -
    show "length (bx_hex X h) = 40" using bt_ext_okD(2) [OF assms(1), of h] assms(2) by simp
    show "list_all (\<lambda>c. is_ascii_hexdigit c \<and> \<not> is_ascii_upper c) (bx_hex X h)"
      using assms(1) unfolding bt_ext_ok_def by blast
  qed
  have low: "to_ascii_lowercase (bx_hex X h) = bx_hex X h"
    using hex(2) by (simp add: to_ascii_lowercase_def to_ascii_lowercase_char_def list_all_iff map_idI)
  have up: "to_ascii_lowercase_char (to_ascii_uppercase_char c) = c \<and> is_ascii_hexdigit (to_ascii_uppercase_char c)"
    if "is_ascii_hexdigit c" "\<not> is_ascii_upper c" for c
  proof (cases "is_ascii_lower c")
    case True
    obtain v where v: "byte_val c = v" by blast
    then have c: "c = char_of v" by (auto simp: byte_val_def)
    have v: "97 \<le> v" "v \<le> 102" "byte_val c = v"
      using True that v unfolding is_ascii_hexdigit_def is_ascii_lower_def is_ascii_digit_def by linarith+
    have "to_ascii_uppercase_char c = char_of (v - 32)" using True by (simp add: to_ascii_uppercase_char_def v(3))
    moreover have "byte_val (char_of (v - 32)) = v - 32" using v by simp
    moreover have "65 \<le> v - 32" "v - 32 \<le> 70" "v - 32 + 32 = v" using v by linarith+
    ultimately show ?thesis unfolding c
      by (simp add: to_ascii_lowercase_char_def is_ascii_upper_def is_ascii_hexdigit_def)
  qed (use that in \<open>simp add: to_ascii_lowercase_char_def to_ascii_uppercase_char_def\<close>)
  have lu: "to_ascii_lowercase (to_ascii_uppercase (bx_hex X h)) = bx_hex X h" "list_all is_ascii_hexdigit (to_ascii_uppercase (bx_hex X h))"
    using hex(2) up by (auto simp: to_ascii_lowercase_def to_ascii_uppercase_def list_all_iff intro!: map_idI)
  have other: "decode_btih X s = Inr r \<longleftrightarrow> length s = 32 \<and>
          (\<exists>ds. map base32_digit (as_bytes s) = map Some ds \<and> r = bx_hex X (be_bytes 20 (base32_nat ds)))" if "length s \<noteq> 40"
    using that decode_base32 [of s X r] by (cases "length s = 32") (auto simp: decode_btih_def)
  have "list_all is_ascii_hexdigit (bx_hex X h)" "length (to_ascii_uppercase (bx_hex X h)) = 40"
    using hex by (auto simp: list_all_iff to_ascii_uppercase_def)
  then show ?thesis using decode_base32_encode [OF assms(2), of X] hex(1) low lu other by (simp add: decode_btih_def)
qed

theorem info_hash_spellings_witness:
  "decode_btih inst_bt (base32_encode (pad_to 20 [7])) = Inr (inst_hex_encode (pad_to 20 [7]))"
  using info_hash_spellings [OF inst_bt_ok, of "pad_to 20 [7]"] by (simp add: inst_bt_def inst_cdc_fields)

text \<open>C24: A magnet link is bound to its torrent only: its exact topics all decode to one info hash, its trackers
  are the distinct \<open>tr\<close> parameters, each an \<open>http\<close>, \<open>https\<close> or \<open>udp\<close> address with a host, and it is bound to
  exactly the torrents with that hash, which keep their pieces and announce to those trackers if there are any.\<close>

theorem magnet_binds_its_torrent:
  assumes "parse_v1_magnet X s = Inr m"
  shows "\<exists>url. bx_url_parse X s = Inr url \<and> url_scheme url = ''magnet'' \<and> url_fragment url = None
    \<and> (\<exists>e. (''xt'', ''urn:btih:'' @ e) \<in> set (url_query_pairs url))
    \<and> (\<forall>e. (''xt'', ''urn:btih:'' @ e) \<in> set (url_query_pairs url) \<longrightarrow> decode_btih X e = Inr (mg_info_hash_sha1 m))
    \<and> distinct (mg_trackers m) \<and> set (mg_trackers m) = {v. (''tr'', v) \<in> set (url_query_pairs url)}
    \<and> list_all (tracker_url_ok X) (mg_trackers m)
    \<and> (bind_v1_magnet m t = Inr b \<longleftrightarrow> tv_info_hash_sha1 t = mg_info_hash_sha1 m
        \<and> b = (case mg_trackers m of [] \<Rightarrow> t | u # us \<Rightarrow> t\<lparr>tv_announce := Some u, tv_announce_list := Some [u # us]\<rparr>))"
proof -
  from assms obtain url n where url: "bx_url_parse X s = Inr url" "url_scheme url = ''magnet''" "url_fragment url = None"
    and run: "try_fold (magnet_pair X) (None, None, []) (url_query_pairs url) = Inr (Some (mg_info_hash_sha1 m), n, mg_trackers m)"
    by (auto simp: parse_v1_magnet_def)
  note inv = magnet_pairs_inv [OF run]
  have "bind_v1_magnet m t = Inr b \<longleftrightarrow> tv_info_hash_sha1 t = mg_info_hash_sha1 m
        \<and> b = (case mg_trackers m of [] \<Rightarrow> t | u # us \<Rightarrow> t\<lparr>tv_announce := Some u, tv_announce_list := Some [u # us]\<rparr>)"
    by (cases "mg_trackers m") (auto simp: bind_v1_magnet_def)
  with url inv show ?thesis by (intro exI [of _ url]) (auto simp: strip_prefix_Some)
qed

theorem magnet_binds_its_torrent_witness:
  "bind_v1_magnet tiny_magnet (tiny_torrent\<lparr>tv_info_hash_sha1 := replicate 40 (CHR ''a'')\<rparr>)
     = Inr (tiny_torrent\<lparr>tv_info_hash_sha1 := replicate 40 (CHR ''a''), tv_announce := Some ''udp://t'', tv_announce_list := Some [[''udp://t'']]\<rparr>)"
  using magnet_binds_its_torrent [OF tiny_magnet_parsed, of "tiny_torrent\<lparr>tv_info_hash_sha1 := replicate 40 (CHR ''a'')\<rparr>"
      "tiny_torrent\<lparr>tv_info_hash_sha1 := replicate 40 (CHR ''a''), tv_announce := Some ''udp://t'', tv_announce_list := Some [[''udp://t'']]\<rparr>"]
  by (elim exE conjE) (simp add: tiny_magnet_def)

end
