(* ===== verification/Meld_Action.thy ===== *)
theory Meld_Action
  imports Meld_Prelude
begin

text \<open>
  Code that changes a state and may fail on the way: what it has changed before an error stays changed. A
  session with a peer, a run of the devnet and a command of the command line are such actions.
\<close>

text \<open>An action on a state \<open>'s\<close> gives a value or an error, and in both cases the state it leaves.\<close>

type_synonym ('s, 'a) action = "'s \<Rightarrow> 'a result \<times> 's"

definition then_do :: "('s, 'a) action \<Rightarrow> ('a \<Rightarrow> ('s, 'b) action) \<Rightarrow> ('s, 'b) action" where
  "then_do m f S = (case m S of (Inl e, S) \<Rightarrow> (Inl e, S) | (Inr x, S) \<Rightarrow> f x S)"

definition pass :: "'a result \<Rightarrow> ('s, 'a) action" where
  "pass r S = (r, S)"

lemma then_do_cong [fundef_cong]:
  "m S = m' S' \<Longrightarrow> (\<And>x T. m' S' = (Inr x, T) \<Longrightarrow> f x T = f' x T) \<Longrightarrow> then_do m f S = then_do m' f' S'"
  by (auto simp: then_do_def split: prod.splits sum.splits)

lemma then_do_Inr [simp]: "m S = (Inr x, T) \<Longrightarrow> then_do m f S = f x T"
  and then_do_Inl: "m S = (Inl e, T) \<Longrightarrow> then_do m f S = (Inl e, T)"
  by (simp_all add: then_do_def)

lemma then_do_eq_Inr: "then_do m f S = (Inr y, U) \<longleftrightarrow> (\<exists>x T. m S = (Inr x, T) \<and> f x T = (Inr y, U))"
  by (auto simp: then_do_def split: prod.splits sum.splits)

lemma then_do_pass [simp]: "then_do (pass (Inr x)) f = f x" "then_do (pass (Inl e)) f = pass (Inl e)"
  by (simp_all add: then_do_def pass_def fun_eq_iff)

lemma then_do_pass_eq:
  "then_do (pass a) f S = (r, T) \<longleftrightarrow> (\<exists>e. a = Inl e \<and> r = Inl e \<and> T = S) \<or> (\<exists>x. a = Inr x \<and> f x S = (r, T))"
  by (cases a) (auto simp: pass_def)

lemma then_do_read_eq:
  "then_do (\<lambda>S. (g S, S)) f S = (r, T) \<longleftrightarrow> (\<exists>e. g S = Inl e \<and> r = Inl e \<and> T = S) \<or> (\<exists>x. g S = Inr x \<and> f x S = (r, T))"
  by (cases "g S") (auto simp: then_do_def)

lemma pass_simp: "pass r S = (r, S)"
  by (simp add: pass_def)

section \<open>What an action ensures\<close>

text \<open>
  \<open>ensures P R Q P' m\<close>: from a state with \<open>P\<close>, whatever its outcome, \<open>m\<close> relates the states before and after by
  \<open>R\<close>; and when it gives a value, the value satisfies \<open>Q\<close> and the state it leaves \<open>P'\<close>. For a preorder \<open>R\<close> this
  composes, so that what a command does is found from its steps.
\<close>

definition ensures :: "('s \<Rightarrow> bool) \<Rightarrow> ('s \<Rightarrow> 's \<Rightarrow> bool) \<Rightarrow> ('a \<Rightarrow> bool) \<Rightarrow> ('s \<Rightarrow> bool) \<Rightarrow> ('s, 'a) action \<Rightarrow> bool" where
  "ensures P R Q P' m \<longleftrightarrow> (\<forall>S r T. P S \<longrightarrow> m S = (r, T) \<longrightarrow> R S T \<and> (\<forall>x. r = Inr x \<longrightarrow> Q x \<and> P' T))"

abbreviation always :: "'a \<Rightarrow> bool" where
  "always \<equiv> \<lambda>_. True"

abbreviation keeps :: "('s \<Rightarrow> 's \<Rightarrow> bool) \<Rightarrow> ('s, 'a) action \<Rightarrow> bool" where
  "keeps R m \<equiv> ensures always R always always m"

lemma ensuresI:
  "(\<And>S r T. P S \<Longrightarrow> m S = (r, T) \<Longrightarrow> R S T \<and> (\<forall>x. r = Inr x \<longrightarrow> Q x \<and> P' T)) \<Longrightarrow> ensures P R Q P' m"
  by (simp add: ensures_def)

lemma ensuresD:
  "ensures P R Q P' m \<Longrightarrow> P S \<Longrightarrow> m S = (r, T) \<Longrightarrow> R S T"
  "ensures P R Q P' m \<Longrightarrow> P S \<Longrightarrow> m S = (Inr x, T) \<Longrightarrow> Q x \<and> P' T"
  by (auto simp: ensures_def)

lemma ensures_weaken:
  "ensures P R Q P' m \<Longrightarrow> (\<And>x. Q x \<Longrightarrow> V x) \<Longrightarrow> (\<And>S. P' S \<Longrightarrow> P'' S) \<Longrightarrow> ensures P R V P'' m"
  by (auto simp: ensures_def)

locale state_preorder =
  fixes R :: "'s \<Rightarrow> 's \<Rightarrow> bool"
  assumes same: "R S S" and step: "R S T \<Longrightarrow> R T U \<Longrightarrow> R S U"
begin

lemma ensures_pass: "(\<And>x. r = Inr x \<Longrightarrow> Q x) \<Longrightarrow> ensures P R Q P (pass r)"
  by (auto simp: ensures_def pass_def same)

lemma ensures_bind:
  assumes "ensures P R Q P1 m" "\<And>x. Q x \<Longrightarrow> ensures P1 R V P2 (f x)"
  shows "ensures P R V P2 (then_do m f)"
proof (rule ensuresI)
  fix S r T
  assume P: "P S" and run: "then_do m f S = (r, T)"
  obtain r1 T1 where m: "m S = (r1, T1)" by (cases "m S")
  show "R S T \<and> (\<forall>x. r = Inr x \<longrightarrow> V x \<and> P2 T)"
  proof (cases r1)
    case (Inl e)
    with run m show ?thesis using ensuresD(1) [OF assms(1) P m] by (auto simp: then_do_def)
  next
    case (Inr x)
    with run m have f: "f x T1 = (r, T)" by simp
    have Q: "Q x" "P1 T1" using ensuresD(2) [OF assms(1) P m [unfolded Inr]] by simp_all
    show ?thesis
      using step [OF ensuresD(1) [OF assms(1) P m] ensuresD(1) [OF assms(2) [OF Q(1)] Q(2) f]]
        ensuresD(2) [OF assms(2) [OF Q(1)] Q(2)] f by blast
  qed
qed

lemma keeps_bind: "keeps R m \<Longrightarrow> (\<And>x. keeps R (f x)) \<Longrightarrow> keeps R (then_do m f)"
  by (rule ensures_bind)

lemma keeps_pass: "keeps R (pass r)"
  by (rule ensures_pass) simp

lemma ensures_reading: "(\<And>S. snd (m S) = S) \<Longrightarrow> ensures P R always P m"
  using same by (auto simp: ensures_def) (metis snd_conv)+

end

end
