(* ===== verification/Bt_Wire.thy ===== *)
theory Bt_Wire
  imports Cdc_Network Bt_Torrent Meld_Action
begin

unbundle bit_operations_syntax

text \<open>
  The wire of the BitTorrent peer protocol as a downloading worker uses it: the handshake, the framing of
  messages and the control messages of \<open>crates/meld-core/src/bt_peer.rs\<close>. A connection is the stream that is
  read from, the bytes written so far and how many more bytes the socket takes before a write fails.
\<close>

section \<open>Constants\<close>

definition PROTOCOL_NAME :: bytes where
  "PROTOCOL_NAME = as_bytes ''BitTorrent protocol''"

definition HANDSHAKE_LENGTH :: nat where
  "HANDSHAKE_LENGTH = 68"

definition MAX_INFLIGHT_REQUESTS :: nat where
  "MAX_INFLIGHT_REQUESTS = 16"

definition MAX_MESSAGE_LENGTH :: u32 where
  "MAX_MESSAGE_LENGTH = 2 * 1024 * 1024"

definition MESSAGE_CHOKE :: u8 where
  "MESSAGE_CHOKE = 0"

definition MESSAGE_UNCHOKE :: u8 where
  "MESSAGE_UNCHOKE = 1"

definition MESSAGE_INTERESTED :: u8 where
  "MESSAGE_INTERESTED = 2"

definition MESSAGE_NOT_INTERESTED :: u8 where
  "MESSAGE_NOT_INTERESTED = 3"

definition MESSAGE_HAVE :: u8 where
  "MESSAGE_HAVE = 4"

definition MESSAGE_BITFIELD :: u8 where
  "MESSAGE_BITFIELD = 5"

definition MESSAGE_REQUEST :: u8 where
  "MESSAGE_REQUEST = 6"

definition MESSAGE_PIECE :: u8 where
  "MESSAGE_PIECE = 7"

definition MESSAGE_CANCEL :: u8 where
  "MESSAGE_CANCEL = 8"

lemmas message_ids = MESSAGE_CHOKE_def MESSAGE_UNCHOKE_def MESSAGE_INTERESTED_def MESSAGE_NOT_INTERESTED_def
  MESSAGE_HAVE_def MESSAGE_BITFIELD_def MESSAGE_REQUEST_def MESSAGE_PIECE_def MESSAGE_CANCEL_def

section \<open>A session with a peer\<close>

text \<open>A socket: what will be read from it, what has been written to it, and after how many more bytes a write fails.\<close>

record socket =
  ps_in :: stream
  ps_out :: bytes
  ps_room :: "(nat \<times> io_kind) option"

text \<open>
  What \<open>PeerSession\<close> and \<open>TransferCounters\<close> hold of one peer: the connection, the pieces the peer has,
  whether it chokes, and the counters.
\<close>

record peer_session = socket +
  ps_availability :: "bool list"
  ps_choked :: bool
  ps_block_requests_sent :: u64
  ps_payload_bytes_received :: u64
  ps_cancel_messages_sent :: u64

type_synonym 'a session = "(peer_session, 'a) action"

text \<open>\<open>read_exact\<close> together with what it leaves of the stream, also after an error.\<close>

fun take_exact :: "nat \<Rightarrow> stream \<Rightarrow> bytes result \<times> stream" where
  "take_exact 0 s = (Inr [], s)"
| "take_exact (Suc n) [] = (Inl (Io UnexpectedEof), [])"
| "take_exact (Suc n) (Inl b # s) = (case take_exact n s of (r, s) \<Rightarrow> (and_then r (\<lambda>bs. Inr (b # bs)), s))"
| "take_exact (Suc n) (Inr e # s) = (if e = Interrupted then take_exact (Suc n) s else (Inl (Io e), s))"

lemma take_exact_read_exact: "read_exact n s = (case take_exact n s of (r, s) \<Rightarrow> and_then r (\<lambda>bs. Inr (bs, s)))"
  by (induction n s rule: take_exact.induct) (auto simp: and_then_def split: prod.splits sum.splits)

lemma take_exact_Inr: "take_exact n s = (Inr bs, s') \<longleftrightarrow> read_exact n s = Inr (bs, s')"
  by (auto simp: take_exact_read_exact and_then_def split: prod.splits sum.splits)

lemma take_exact_shrinks: "take_exact n s = (r, s') \<Longrightarrow> length s' \<le> length s"
  by (induction n s arbitrary: r s' rule: take_exact.induct) (fastforce split: prod.splits if_splits)+

definition read_bytes :: "nat \<Rightarrow> ('z socket_scheme, bytes) action" where
  "read_bytes n S = (case take_exact n (ps_in S) of (r, s) \<Rightarrow> (r, S\<lparr>ps_in := s\<rparr>))"

definition write_all :: "bytes \<Rightarrow> ('z socket_scheme, unit) action" where
  "write_all bs S = (case ps_room S of
      None \<Rightarrow> (Inr (), S\<lparr>ps_out := ps_out S @ bs\<rparr>)
    | Some (n, e) \<Rightarrow>
        if length bs \<le> n then (Inr (), S\<lparr>ps_out := ps_out S @ bs, ps_room := Some (n - length bs, e)\<rparr>)
        else (Inl (Io e), S\<lparr>ps_out := ps_out S @ take n bs, ps_room := Some (0, e)\<rparr>))"

section \<open>Handshake\<close>

definition send_handshake :: "bt_ext \<Rightarrow> string \<Rightarrow> bytes \<Rightarrow> unit session" where
  "send_handshake X info_hash_hex peer_id =
     then_do (pass (cx_hex_decode (bx_cdc X) info_hash_hex)) (\<lambda>info_hash.
     if length info_hash \<noteq> 20 then pass (Inl (Bail ''torrent info-hash must be 20 bytes''))
     else write_all ([word_of_nat (length PROTOCOL_NAME)] @ PROTOCOL_NAME @ replicate 8 0 @ info_hash @ peer_id))"

text \<open>The reserved bytes and the identity of the peer.\<close>

definition read_handshake :: "bt_ext \<Rightarrow> string \<Rightarrow> (bytes \<times> bytes) session" where
  "read_handshake X expected_info_hash_hex =
     then_do (read_bytes HANDSHAKE_LENGTH) (\<lambda>handshake.
     if handshake ! 0 \<noteq> word_of_nat (length PROTOCOL_NAME) \<or> take 19 (drop 1 handshake) \<noteq> PROTOCOL_NAME
     then pass (Inl (Bail ''peer returned an invalid BitTorrent protocol header''))
     else then_do (pass (cx_hex_decode (bx_cdc X) expected_info_hash_hex)) (\<lambda>expected_info_hash.
     if take 20 (drop 28 handshake) \<noteq> expected_info_hash then pass (Inl (Bail ''peer returned the wrong torrent info-hash''))
     else pass (Inr (take 8 (drop 20 handshake), take 20 (drop 48 handshake)))))"

section \<open>Messages\<close>

definition message_bytes :: "u8 \<Rightarrow> bytes \<Rightarrow> bytes" where
  "message_bytes message_id payload = be_bytes 4 (length payload + 1) @ [message_id] @ payload"

definition send_message :: "u8 \<Rightarrow> bytes \<Rightarrow> ('z socket_scheme, unit) action" where
  "send_message message_id payload =
     (if length payload + 1 < 2 ^ 32 then write_all (message_bytes message_id payload)
      else pass (Inl (Bail ''BT message is too large'')))"

text \<open>\<open>None\<close> is a keep-alive.\<close>

definition read_message :: "('z socket_scheme, (u8 \<times> bytes) option) action" where
  "read_message =
     then_do (read_bytes 4) (\<lambda>length_bytes.
     let message_length = (word_of_nat (be_nat length_bytes) :: u32) in
     if message_length = 0 then pass (Inr None)
     else if MAX_MESSAGE_LENGTH < message_length then pass (Inl (Bail ''peer sent oversized BT message''))
     else then_do (read_bytes (unat message_length)) (\<lambda>message. pass (Inr (Some (message ! 0, drop 1 message)))))"

section \<open>Control messages\<close>

definition expect_empty_payload :: "bytes \<Rightarrow> unit result" where
  "expect_empty_payload payload = bail_if (payload \<noteq> []) ''peer sent malformed message'' (Inr ())"

text \<open>The availability is written before the spare bits are looked at, so the error leaves it changed.\<close>

definition apply_bitfield :: "bytes \<Rightarrow> bool list \<Rightarrow> unit result \<times> bool list" where
  "apply_bitfield payload availability =
     (if length payload \<noteq> (length availability + 7) div 8 then (Inl (Bail ''peer bitfield length mismatch''), availability)
      else let available = map (\<lambda>i. (payload ! (i div 8)) AND (drop_bit (i mod 8) 0x80) \<noteq> 0) [0..<length availability];
               spare_bits = length payload * 8 - length availability
           in (if 0 < spare_bits \<and> payload \<noteq> [] \<and> last payload AND (push_bit spare_bits 1 - 1) \<noteq> 0
               then (Inl (Bail ''peer bitfield has non-zero spare bits''), available) else (Inr (), available)))"

text \<open>
  The result and what becomes of the availability, the mark that some availability has been received and
  the choke.
\<close>

definition process_control_message ::
    "u8 \<Rightarrow> bytes \<Rightarrow> bool list \<times> bool \<times> bool \<Rightarrow> unit result \<times> bool list \<times> bool \<times> bool" where
  "process_control_message message_id payload s = (case s of (availability, received, choked) \<Rightarrow>
     if message_id = MESSAGE_CHOKE then
       (case expect_empty_payload payload of Inl e \<Rightarrow> (Inl e, s) | Inr _ \<Rightarrow> (Inr (), availability, received, True))
     else if message_id = MESSAGE_UNCHOKE then
       (case expect_empty_payload payload of Inl e \<Rightarrow> (Inl e, s) | Inr _ \<Rightarrow> (Inr (), availability, received, False))
     else if message_id = MESSAGE_HAVE then
       (if length payload \<noteq> 4 then (Inl (Bail ''peer sent malformed HAVE message''), s)
        else let index = be_nat payload in
          if index < length availability then (Inr (), availability[index := True], True, choked)
          else (Inl (Bail ''peer HAVE index is outside torrent''), s))
     else if message_id = MESSAGE_BITFIELD then
       (case apply_bitfield payload availability of
          (Inl e, available) \<Rightarrow> (Inl e, available, received, choked)
        | (Inr _, available) \<Rightarrow> (Inr (), available, True, choked))
     else (Inr (), s))"

text \<open>The same on a session, with the mark threaded through.\<close>

definition control_message :: "u8 \<Rightarrow> bytes \<Rightarrow> bool \<Rightarrow> bool session" where
  "control_message message_id payload received S =
     (case process_control_message message_id payload (ps_availability S, received, ps_choked S) of
        (r, availability, received, choked) \<Rightarrow>
          (and_then r (\<lambda>_. Inr received), S\<lparr>ps_availability := availability, ps_choked := choked\<rparr>))"

end
