(* ===== verification/Bt_Blocks.thy ===== *)
theory Bt_Blocks
  imports Bt_Plan
begin

text \<open>
  What a download asks of its peers: \<open>write_local_chunks\<close>, \<open>build_block_requests\<close> and \<open>build_piece_jobs\<close> of
  \<open>crates/meld-core/src/bt_peer.rs\<close>. The requests are the blocks of at most 16 KiB that hold a byte the
  local chunks do not, in the order of the torrent, grouped into one job per piece.
\<close>

section \<open>Data\<close>

definition BLOCK_LENGTH :: u64 where
  "BLOCK_LENGTH = 16 * 1024"

record local_range =
  lr_start :: u64
  lr_end :: u64

record block_request =
  rq_piece_index :: u32
  rq_begin :: u32
  rq_length :: u32
  rq_absolute_offset :: u64

record piece_job =
  pj_piece_index :: u32
  pj_requests :: "block_request list"
  pj_attempt :: u32
  pj_endgame_duplicate :: bool

definition overlap_length :: "u64 \<Rightarrow> u64 \<Rightarrow> u64 \<Rightarrow> u64 \<Rightarrow> u64" where
  "overlap_length left_start left_end right_start right_end =
     saturating_sub (min left_end right_end) (max left_start right_start)"

text \<open>Seeking and writing a file: bytes between the end of the file and the position are zero.\<close>

definition write_at :: "bytes \<Rightarrow> nat \<Rightarrow> bytes \<Rightarrow> bytes" where
  "write_at content offset bs =
     take offset content @ replicate (offset - length content) 0 @ bs @ drop (offset + length bs) content"

section \<open>Local chunks\<close>

text \<open>One chunk: the content of the partial file, the ranges and the bytes written so far.\<close>

definition write_local_chunk ::
    "cdc_ext \<Rightarrow> index_db \<Rightarrow> file_system \<Rightarrow> bytes \<times> local_range list \<times> u64 \<Rightarrow> chunk_record
       \<Rightarrow> (bytes \<times> local_range list \<times> u64) result" where
  "write_local_chunk X db fs s c = (case s of (content, ranges, local_bytes) \<Rightarrow>
     and_then (lookup_chunk X db (fs_metadata fs) (ck_hash c) (ck_length c)) (\<lambda>found.
     case found of
       None \<Rightarrow> Inr s
     | Some source \<Rightarrow>
         and_then (read_verified_chunk X fs (sl_path source) (sl_offset source) (ck_length c) (ck_hash c)) (\<lambda>bs.
         and_then (ok_or (checked_add (ck_offset c) (ucast (ck_length c))) (Bail ''local chunk range overflow'')) (\<lambda>e.
         Inr (write_at content (unat (ck_offset c)) bs, ranges @ [\<lparr>lr_start = ck_offset c, lr_end = e\<rparr>],
              local_bytes + ucast (ck_length c))))))"

text \<open>
  Over a file system that stays as it is; \<open>write_local_until\<close> of \<open>Bt_Download\<close> is the loop that sees the partial file change.
\<close>

definition write_local_chunks ::
    "cdc_ext \<Rightarrow> index_db \<Rightarrow> file_system \<Rightarrow> target_descriptor \<Rightarrow> bytes \<Rightarrow> (bytes \<times> local_range list \<times> u64) result" where
  "write_local_chunks X db fs d content = try_fold (write_local_chunk X db fs) (content, [], 0) (td_chunks d)"

section \<open>Block requests\<close>

definition block_covered :: "local_range list \<Rightarrow> u64 \<Rightarrow> u64 \<Rightarrow> u64" where
  "block_covered ranges block_start block_end =
     sum_list (map (\<lambda>r. overlap_length block_start block_end (lr_start r) (lr_end r)) ranges)"

definition u32_from :: "nat \<Rightarrow> string \<Rightarrow> u32 result" where
  "u32_from n msg = (if n < 2 ^ 32 then Inr (word_of_nat n) else Inl (Bail msg))"

text \<open>The loop over the blocks of one piece.\<close>

function piece_blocks ::
    "local_range list \<Rightarrow> nat \<Rightarrow> u64 \<Rightarrow> u64 \<Rightarrow> u64 \<Rightarrow> block_request list \<Rightarrow> block_request list result" where
  "piece_blocks ranges piece_index piece_offset piece_length begin_at requests =
     (if begin_at < piece_length then
        let len = min BLOCK_LENGTH (piece_length - begin_at);
            block_start = piece_offset + begin_at; block_end = block_start + len
        in and_then
             (if block_covered ranges block_start block_end < len then
                and_then (u32_from piece_index ''too many BT pieces'') (\<lambda>i.
                and_then (u32_from (unat begin_at) ''BT block offset is too large'') (\<lambda>b.
                and_then (u32_from (unat len) ''BT block is too large'') (\<lambda>l.
                Inr (requests @ [\<lparr>rq_piece_index = i, rq_begin = b, rq_length = l, rq_absolute_offset = block_start\<rparr>]))))
              else Inr requests)
             (\<lambda>requests. piece_blocks ranges piece_index piece_offset piece_length (begin_at + len) requests)
      else Inr requests)"
  by pat_completeness auto

lemma block_step:
  assumes "begin_at < (piece_length :: u64)"
  shows "unat (begin_at + min BLOCK_LENGTH (piece_length - begin_at))
      = unat begin_at + unat (min BLOCK_LENGTH (piece_length - begin_at))"
    and "unat (min BLOCK_LENGTH (piece_length - begin_at)) = min 16384 (unat piece_length - unat begin_at)"
proof -
  have d: "unat (piece_length - begin_at) = unat piece_length - unat begin_at"
    using assms by (simp add: unat_sub word_less_nat_alt word_le_nat_alt)
  show m: "unat (min BLOCK_LENGTH (piece_length - begin_at)) = min 16384 (unat piece_length - unat begin_at)"
    by (simp add: unat_min d BLOCK_LENGTH_def)
  have "unat begin_at + unat (min BLOCK_LENGTH (piece_length - begin_at)) \<le> unat piece_length"
    using assms unfolding m by (simp add: word_less_nat_alt)
  then have "unat begin_at + unat (min BLOCK_LENGTH (piece_length - begin_at)) < 18446744073709551616"
    using unat_u64_bound [of piece_length] by linarith
  then show "unat (begin_at + min BLOCK_LENGTH (piece_length - begin_at))
      = unat begin_at + unat (min BLOCK_LENGTH (piece_length - begin_at))" by (simp add: unat_word_ariths)
qed

termination piece_blocks
proof (relation "measure (\<lambda>(_, _, _, len, b, _). unat len - unat b)", simp)
  fix ranges piece_index piece_offset piece_length begin_at requests len block_start block_end rs
  assume a: "begin_at < (piece_length :: u64)" and len: "len = min BLOCK_LENGTH (piece_length - begin_at)"
  have "0 < unat len" "unat (begin_at + len) = unat begin_at + unat len"
    using a block_step [OF a] by (simp_all add: len word_less_nat_alt)
  then show "((ranges, piece_index, piece_offset, piece_length, begin_at + len, rs),
      ranges, piece_index, piece_offset, piece_length, begin_at, requests) \<in> measure (\<lambda>(_, _, _, len, b, _). unat len - unat b)"
    using a by (simp add: word_less_nat_alt)
qed

declare piece_blocks.simps [simp del]

definition build_piece_requests :: "torrent_v1 \<Rightarrow> local_range list \<Rightarrow> block_request list \<Rightarrow> nat \<Rightarrow> block_request list result" where
  "build_piece_requests t ranges requests piece_index =
     and_then (ok_or (checked_mul (word_of_nat piece_index) (tv_piece_length t)) (Bail ''BT piece offset overflow''))
       (\<lambda>piece_offset.
     let piece_end = min (saturating_add piece_offset (tv_piece_length t)) (tv_total_length t)
     in piece_blocks ranges piece_index piece_offset (piece_end - piece_offset) 0 requests)"

definition build_block_requests :: "torrent_v1 \<Rightarrow> local_range list \<Rightarrow> block_request list result" where
  "build_block_requests t ranges = try_fold (build_piece_requests t ranges) [] [0..<length (tv_piece_sha1 t)]"

text \<open>The last job takes the requests of its piece, a request of another piece opens the next job.\<close>

definition add_request :: "piece_job list \<Rightarrow> block_request \<Rightarrow> piece_job list" where
  "add_request jobs r =
     (let jobs = (if jobs = [] \<or> pj_piece_index (last jobs) \<noteq> rq_piece_index r
                  then jobs @ [\<lparr>pj_piece_index = rq_piece_index r, pj_requests = [], pj_attempt = 0, pj_endgame_duplicate = False\<rparr>]
                  else jobs)
      in butlast jobs @ [(last jobs)\<lparr>pj_requests := pj_requests (last jobs) @ [r]\<rparr>])"

definition build_piece_jobs :: "block_request list \<Rightarrow> piece_job list" where
  "build_piece_jobs requests = foldl add_request [] requests"

end
