(* ===== verification/Bt_Scheduler.thy ===== *)
theory Bt_Scheduler
  imports Bt_Blocks "HOL-Library.AList" "HOL-Library.Product_Lexorder"
begin

text \<open>
  The scheduler that the peer workers of a download share: \<open>SchedulerState\<close>, \<open>claim_piece_job\<close>,
  \<open>finish_piece_job\<close> and the registration of peers in \<open>crates/meld-core/src/bt_peer.rs\<close>. Each function
  holds the lock from its first to its last access, so it is one atomic step; waiting on the condition
  variable is the outcome \<open>ClaimWait\<close>, after which the worker tries again. The map of active pieces is an
  association list.
\<close>

section \<open>State\<close>

record active_piece_job =
  aj_job :: piece_job
  aj_claims :: nat
  aj_completed :: bool

record scheduler_state =
  sc_queue :: "piece_job list"
  sc_active :: "(u32 \<times> active_piece_job) list"
  sc_pieces_reassigned :: u64
  sc_endgame_duplicate_pieces :: u64
  sc_endgame_cancelled_jobs :: u64
  sc_pending_peer_registrations :: nat
  sc_availability_counts :: "u16 list"

definition initial_scheduler :: "block_request list \<Rightarrow> nat \<Rightarrow> scheduler_state" where
  "initial_scheduler requests n_pieces =
     \<lparr>sc_queue = build_piece_jobs requests, sc_active = [], sc_pieces_reassigned = 0, sc_endgame_duplicate_pieces = 0,
      sc_endgame_cancelled_jobs = 0, sc_pending_peer_registrations = 0, sc_availability_counts = replicate n_pieces 0\<rparr>"

section \<open>Registration\<close>

definition begin_peer_batch :: "nat \<Rightarrow> nat \<Rightarrow> scheduler_state \<Rightarrow> scheduler_state result" where
  "begin_peer_batch peer_count n_pieces s =
     bail_if (sc_active s \<noteq> [] \<or> sc_pending_peer_registrations s \<noteq> 0)
       ''cannot start a BT peer batch while scheduler work is active''
    (Inr (s\<lparr>sc_pending_peer_registrations := peer_count, sc_availability_counts := replicate n_pieces 0\<rparr>))"

definition register_peer_availability :: "bool list option \<Rightarrow> scheduler_state \<Rightarrow> scheduler_state result" where
  "register_peer_availability availability s =
     bail_if (sc_pending_peer_registrations s = 0) ''BT peer registered outside an active scheduler batch''
    (and_then (case availability of
         None \<Rightarrow> Inr (sc_availability_counts s)
       | Some available \<Rightarrow>
           bail_if (length available \<noteq> length (sc_availability_counts s)) ''BT peer availability length does not match the torrent''
          (Inr (map2 (\<lambda>count a. if a then saturating_add count 1 else count) (sc_availability_counts s) available))) (\<lambda>counts.
     Inr (s\<lparr>sc_availability_counts := counts, sc_pending_peer_registrations := sc_pending_peer_registrations s - 1\<rparr>)))"

definition scheduler_is_complete :: "scheduler_state \<Rightarrow> bool" where
  "scheduler_is_complete s \<longleftrightarrow> sc_queue s = [] \<and> sc_active s = []"

definition piece_job_completed :: "u32 \<Rightarrow> scheduler_state \<Rightarrow> bool" where
  "piece_job_completed piece_index s =
     (case map_of (sc_active s) piece_index of None \<Rightarrow> False | Some active \<Rightarrow> aj_completed active)"

section \<open>Claiming\<close>

datatype claim_outcome = ClaimJob piece_job scheduler_state | ClaimNothing | ClaimWait

definition advertised :: "bool list \<Rightarrow> u32 \<Rightarrow> bool" where
  "advertised availability piece_index = (unat piece_index < length availability \<and> availability ! unat piece_index)"

text \<open>Rarest first, then the most attempted, then the lowest index; the first of the smallest is taken.\<close>

definition rarity :: "scheduler_state \<Rightarrow> piece_job \<Rightarrow> nat \<times> nat \<times> nat" where
  "rarity s job =
     (if unat (pj_piece_index job) < length (sc_availability_counts s)
      then unat (sc_availability_counts s ! unat (pj_piece_index job)) else 65535,
      4294967295 - unat (pj_attempt job), unat (pj_piece_index job))"

definition choose_position :: "bool list \<Rightarrow> scheduler_state \<Rightarrow> nat option" where
  "choose_position availability s =
     (case filter (\<lambda>i. advertised availability (pj_piece_index (sc_queue s ! i))) [0..<length (sc_queue s)] of
        [] \<Rightarrow> None
      | i # is \<Rightarrow> Some (arg_min_list (\<lambda>i. rarity s (sc_queue s ! i)) (i # is)))"

definition duplicate_piece :: "bool list \<Rightarrow> scheduler_state \<Rightarrow> u32 option" where
  "duplicate_piece availability s =
     (case filter (\<lambda>(i, a). \<not> aj_completed a \<and> aj_claims a = 1 \<and> advertised availability i) (sc_active s) of
        [] \<Rightarrow> None
      | e # es \<Rightarrow> Some (fst (arg_min_list (\<lambda>e. unat (fst e)) (e # es))))"

definition claim_piece_job :: "bool list \<Rightarrow> scheduler_state \<Rightarrow> claim_outcome" where
  "claim_piece_job availability s =
     (case choose_position availability s of
        Some position \<Rightarrow>
          let job = (sc_queue s ! position)\<lparr>pj_endgame_duplicate := False\<rparr>
          in ClaimJob job
               (s\<lparr>sc_queue := take position (sc_queue s) @ drop (Suc position) (sc_queue s),
                  sc_active := AList.update (pj_piece_index job)
                    \<lparr>aj_job = job, aj_claims = 1, aj_completed = False\<rparr> (sc_active s)\<rparr>)
      | None \<Rightarrow>
          (case duplicate_piece availability s of
             Some piece_index \<Rightarrow>
               let active = the (map_of (sc_active s) piece_index);
                   job = (aj_job active)\<lparr>pj_endgame_duplicate := True\<rparr>
               in ClaimJob job
                    (s\<lparr>sc_active := AList.update piece_index (active\<lparr>aj_claims := aj_claims active + 1\<rparr>) (sc_active s),
                       sc_endgame_duplicate_pieces := sc_endgame_duplicate_pieces s + 1\<rparr>)
           | None \<Rightarrow> if sc_active s = [] then ClaimNothing else ClaimWait))"

section \<open>Finishing\<close>

datatype piece_job_outcome = Success | Failed | Cancelled

definition finish_piece_job :: "piece_job \<Rightarrow> piece_job_outcome \<Rightarrow> scheduler_state \<Rightarrow> (bool \<times> scheduler_state) result" where
  "finish_piece_job job outcome s =
     and_then (ok_or (map_of (sc_active s) (pj_piece_index job)) (Bail ''BT scheduler finished an unknown Piece job'')) (\<lambda>active.
     bail_if (aj_claims active = 0) ''BT scheduler Piece claim accounting underflow''
    (let claims = aj_claims active - 1;
         first_success = (outcome = Success \<and> \<not> aj_completed active);
         completed = (aj_completed active \<or> first_success);
         s = s\<lparr>sc_endgame_cancelled_jobs := (if outcome = Cancelled then saturating_add (sc_endgame_cancelled_jobs s) 1
                 else sc_endgame_cancelled_jobs s)\<rparr>
     in if claims = 0 then
          (let s = s\<lparr>sc_active := AList.delete (pj_piece_index job) (sc_active s)\<rparr>
           in if completed then Inr (first_success, s)
              else Inr (first_success,
                s\<lparr>sc_pieces_reassigned := sc_pieces_reassigned s + 1,
                  sc_queue := sc_queue s @ [job\<lparr>pj_attempt := saturating_add (pj_attempt job) 1, pj_endgame_duplicate := False\<rparr>]\<rparr>))
        else Inr (first_success, s\<lparr>sc_active := AList.update (pj_piece_index job)
               (active\<lparr>aj_claims := claims, aj_completed := completed\<rparr>) (sc_active s)\<rparr>)))"

text \<open>What is left when the workers have ended.\<close>

definition unfinished_pieces :: "scheduler_state \<Rightarrow> u32 list" where
  "unfinished_pieces s = remdups (sort (map pj_piece_index (sc_queue s)
     @ map (\<lambda>(i, a). pj_piece_index (aj_job a)) (filter (\<lambda>(i, a). \<not> aj_completed a) (sc_active s))))"

end
