(* ===== verification/Bt_Receive.thy ===== *)
theory Bt_Receive
  imports Bt_Wire Bt_Scheduler
begin

text \<open>
  How a worker receives the blocks of one piece: \<open>wait_for_unchoke\<close>, \<open>receive_piece_job\<close>,
  \<open>cancel_inflight_requests\<close> and the first phase of \<open>run_peer_worker\<close> in \<open>crates/meld-core/src/bt_peer.rs\<close>. The
  answers of the shared scheduler to the questions of the receiving loop are a function of the number of
  the iteration, so that other workers may finish the piece at any time. Outstanding requests are an
  association list.
\<close>

section \<open>Waiting\<close>

lemma read_bytes_shrinks: "read_bytes n S = (r, T) \<Longrightarrow> length (ps_in T) \<le> length (ps_in S)"
  by (auto simp: read_bytes_def dest: take_exact_shrinks split: prod.splits)

lemma read_bytes_Inr: "read_bytes n S = (Inr bs, T) \<Longrightarrow> length (ps_in T) + n \<le> length (ps_in S) \<and> length bs = n"
  by (auto simp: read_bytes_def take_exact_Inr dest: read_exact_shrinks split: prod.splits)

lemma read_message_shrinks: "read_message S = (Inr m, T) \<Longrightarrow> length (ps_in T) < length (ps_in S)"
  by (auto simp: read_message_def then_do_eq_Inr pass_def Let_def dest!: read_bytes_Inr split: if_splits)

lemma control_message_in [simp]: "ps_in (snd (control_message i p b S)) = ps_in S"
  by (simp add: control_message_def split: prod.splits)

lemma control_message_shrinks: "control_message i p b S = (r, T) \<Longrightarrow> ps_in T = ps_in S"
  using control_message_in [of i p b S] by simp

text \<open>The first phase: until the peer has unchoked and told what it has.\<close>

function await_availability :: "bool \<Rightarrow> bool session" where
  "await_availability received S =
     (if ps_choked S \<or> \<not> received then
        then_do read_message (\<lambda>m S. case m of
            None \<Rightarrow> await_availability received S
          | Some (message_id, payload) \<Rightarrow>
              then_do (control_message message_id payload received) (\<lambda>received S. await_availability received S) S) S
      else (Inr received, S))"
  by pat_completeness auto
termination
  by (relation "measure (\<lambda>(_, S). length (ps_in S))") (auto dest!: read_message_shrinks control_message_shrinks)

declare await_availability.simps [simp del]

definition wait_for_unchoke :: "unit session" where
  "wait_for_unchoke = then_do (await_availability True) (\<lambda>_. pass (Inr ()))"

text \<open>
  The start of a worker's connection in \<open>run_peer_worker\<close>: the two handshakes, of which the peer's gives its
  reserved bytes and its identity, and the wait for what the peer has.
\<close>

definition join_peer :: "bt_ext \<Rightarrow> string \<Rightarrow> bytes \<Rightarrow> (bytes \<times> bytes) session" where
  "join_peer X info_hash_hex local_peer_id =
     then_do (send_handshake X info_hash_hex local_peer_id) (\<lambda>_.
     then_do (read_handshake X info_hash_hex) (\<lambda>remote.
     then_do (send_message MESSAGE_INTERESTED []) (\<lambda>_.
     then_do (await_availability False) (\<lambda>_. pass (Inr remote)))))"

lemma await_availability_Inr: "await_availability b S = (Inr x, T) \<Longrightarrow> \<not> ps_choked T \<and> x \<and> length (ps_in T) \<le> length (ps_in S)"
proof (induction b S rule: await_availability.induct)
  case (1 received S)
  show ?case
  proof (cases "ps_choked S \<or> \<not> received")
    case True
    with "1.prems" obtain m U where U: "read_message S = (Inr m, U)"
      and rest: "(case m of None \<Rightarrow> await_availability received U
          | Some (message_id, payload) \<Rightarrow>
              then_do (control_message message_id payload received) (\<lambda>received S. await_availability received S) U) = (Inr x, T)"
      by (subst (asm) await_availability.simps) (auto simp: then_do_eq_Inr)
    show ?thesis
    proof (cases m)
      case None
      with "1.IH"(1) [OF True U None] rest read_message_shrinks [OF U] show ?thesis by simp
    next
      case (Some mp)
      obtain i p where mp: "mp = (i, p)" by (cases mp)
      with Some rest obtain b V where V: "control_message i p received U = (Inr b, V)" "await_availability b V = (Inr x, T)"
        by (auto simp: then_do_eq_Inr)
      with "1.IH"(2) [OF True U Some mp [symmetric] V] read_message_shrinks [OF U] control_message_shrinks [OF V(1)] show ?thesis by simp
    qed
  next
    case False
    with "1.prems" show ?thesis by (subst (asm) await_availability.simps) auto
  qed
qed

section \<open>Requests\<close>

definition request_payload :: "block_request \<Rightarrow> bytes" where
  "request_payload r = be_bytes 4 (unat (rq_piece_index r)) @ be_bytes 4 (unat (rq_begin r)) @ be_bytes 4 (unat (rq_length r))"

type_synonym inflight = "((u32 \<times> u32) \<times> block_request) list"

text \<open>The window of outstanding requests is filled as long as the peer does not choke.\<close>

fun fill_window :: "block_request list \<Rightarrow> inflight \<Rightarrow> (block_request list \<times> inflight) session" where
  "fill_window [] inflight S = (Inr ([], inflight), S)"
| "fill_window (r # pending) inflight S =
     (if \<not> ps_choked S \<and> length inflight < MAX_INFLIGHT_REQUESTS then
        then_do (send_message MESSAGE_REQUEST (request_payload r)) (\<lambda>_ S.
        let S = S\<lparr>ps_block_requests_sent := ps_block_requests_sent S + 1\<rparr>;
            key = (rq_piece_index r, rq_begin r)
        in if map_of inflight key \<noteq> None then (Inl (Bail ''duplicate pipelined BT block request''), S)
           else fill_window pending ((key, r) # inflight) S) S
      else (Inr (r # pending, inflight), S))"

fun cancel_inflight_requests :: "block_request list \<Rightarrow> unit session" where
  "cancel_inflight_requests [] S = (Inr (), S)"
| "cancel_inflight_requests (r # rs) S =
     then_do (send_message MESSAGE_CANCEL (request_payload r)) (\<lambda>_ S.
     cancel_inflight_requests rs (S\<lparr>ps_cancel_messages_sent := ps_cancel_messages_sent S + 1\<rparr>)) S"

section \<open>Receiving\<close>

text \<open>A block that has arrived: it must be outstanding and have the length asked for.\<close>

definition accept_block :: "u64 \<Rightarrow> u64 \<Rightarrow> bytes \<Rightarrow> inflight \<Rightarrow> bytes \<Rightarrow> (inflight \<times> bytes) session" where
  "accept_block piece_offset piece_len payload inflight piece_bytes S =
     (if length payload < 8 then (Inl (Bail ''peer sent malformed PIECE message''), S)
      else let piece_index = word_of_nat (be_nat (take 4 payload)); begin_at = word_of_nat (be_nat (take 4 (drop 4 payload)));
               block = drop 8 payload
      in case map_of inflight (piece_index, begin_at) of
           None \<Rightarrow> (Inl (Bail ''peer returned a block that was not requested or was already received''), S)
         | Some request \<Rightarrow>
             if length block \<noteq> unat (rq_length request) then (Inl (Bail ''peer returned a block with the wrong length''), S)
             else if rq_absolute_offset request < piece_offset then (Inl (Bail ''BT block precedes its Piece''), S)
             else let relative = rq_absolute_offset request - piece_offset in
               (case checked_add relative (ucast (rq_length request)) of
                  None \<Rightarrow> (Inl (Bail ''BT block range overflow''), S)
                | Some e \<Rightarrow>
                    if piece_len < e then (Inl (Bail ''peer returned a block outside its Piece''), S)
                    else (Inr (AList.delete (piece_index, begin_at) inflight, copy_into piece_bytes (unat relative) block),
                          S\<lparr>ps_payload_bytes_received := ps_payload_bytes_received S + word_of_nat (length block)\<rparr>)))"

definition ready_to_request :: "inflight \<Rightarrow> unit session" where
  "ready_to_request inflight S =
     (if ps_choked S then
        (if inflight \<noteq> [] then (Inl (Bail ''peer choked while pipelined block requests were outstanding''), S)
         else wait_for_unchoke S)
      else (Inr (), S))"

lemma ready_to_request_Inr:
  "ready_to_request inflight S = (Inr u, T) \<Longrightarrow> \<not> ps_choked T \<and> length (ps_in T) \<le> length (ps_in S)"
  by (auto simp: ready_to_request_def wait_for_unchoke_def then_do_eq_Inr pass_def dest: await_availability_Inr split: if_splits)

lemma write_all_frame:
  "write_all bs S = (r, T) \<Longrightarrow> ps_in T = ps_in S \<and> ps_choked T = ps_choked S \<and> ps_availability T = ps_availability S"
  by (auto simp: write_all_def split: option.splits if_splits)

lemma send_message_frame:
  "send_message i p S = (r, T) \<Longrightarrow> ps_in T = ps_in S \<and> ps_choked T = ps_choked S \<and> ps_availability T = ps_availability S"
  using write_all_frame [of _ S r T] by (auto simp: send_message_def pass_def split: if_splits)

lemma fill_window_Inr:
  "fill_window pending inflight S = (Inr (p, i), T) \<Longrightarrow>
     ps_in T = ps_in S \<and> ps_choked T = ps_choked S \<and> (\<not> ps_choked S \<and> i = [] \<longrightarrow> pending = [] \<and> inflight = [])"
proof (induction pending inflight S rule: fill_window.induct)
  case (2 r pending inflight S)
  show ?case
  proof (cases "\<not> ps_choked S \<and> length inflight < MAX_INFLIGHT_REQUESTS")
    case True
    with "2.prems" obtain u U where U: "send_message MESSAGE_REQUEST (request_payload r) S = (Inr u, U)"
      and free: "map_of inflight (rq_piece_index r, rq_begin r) = None"
      and rest: "fill_window pending (((rq_piece_index r, rq_begin r), r) # inflight)
        (U\<lparr>ps_block_requests_sent := ps_block_requests_sent U + 1\<rparr>) = (Inr (p, i), T)"
      by (auto simp: then_do_eq_Inr Let_def split: if_splits)
    from "2.IH" [OF True U refl refl _ rest] free send_message_frame [OF U] show ?thesis by simp
  next
    case False
    with "2.prems" show ?thesis by (auto simp: MAX_INFLIGHT_REQUESTS_def)
  qed
qed simp

lemma accept_block_in: "accept_block off len p i b S = (r, T) \<Longrightarrow> ps_in T = ps_in S"
  by (auto simp: accept_block_def Let_def split: if_splits option.splits)

text \<open>
  The loop. \<open>completed k\<close> is what the scheduler says in iteration \<open>k\<close>: whether another worker has finished the
  piece. \<open>None\<close> is \<open>PieceReceiveOutcome::Cancelled\<close>.
\<close>

function receive_blocks ::
    "u64 \<Rightarrow> u64 \<Rightarrow> (nat \<Rightarrow> bool) \<Rightarrow> nat \<Rightarrow> block_request list \<Rightarrow> inflight \<Rightarrow> bytes \<Rightarrow> bytes option session" where
  "receive_blocks piece_offset piece_len completed k pending inflight piece_bytes S =
     (if pending = [] \<and> inflight = [] then (Inr (Some piece_bytes), S)
      else if completed k then then_do (cancel_inflight_requests (map snd inflight)) (\<lambda>_. pass (Inr None)) S
      else then_do (ready_to_request inflight) (\<lambda>_ S. then_do (fill_window pending inflight) (\<lambda>window S. case window of (pending, inflight) \<Rightarrow>
        if inflight = [] then receive_blocks piece_offset piece_len completed (k + 1) pending inflight piece_bytes S
        else then_do read_message (\<lambda>m S. case m of
            None \<Rightarrow> receive_blocks piece_offset piece_len completed (k + 1) pending inflight piece_bytes S
          | Some (message_id, payload) \<Rightarrow>
              if message_id = MESSAGE_PIECE then
                then_do (accept_block piece_offset piece_len payload inflight piece_bytes) (\<lambda>taken S. case taken of (inflight, piece_bytes) \<Rightarrow>
                receive_blocks piece_offset piece_len completed (k + 1) pending inflight piece_bytes S) S
              else then_do (control_message message_id payload True) (\<lambda>_ S.
                if ps_choked S then (Inl (Bail ''peer choked while pipelined block requests were outstanding''), S)
                else receive_blocks piece_offset piece_len completed (k + 1) pending inflight piece_bytes S) S) S) S) S)"
  by pat_completeness auto
termination
  by (relation "measure (\<lambda>(_, _, _, _, _, _, _, S). length (ps_in S))")
     (auto dest!: ready_to_request_Inr fill_window_Inr read_message_shrinks accept_block_in control_message_shrinks)

declare receive_blocks.simps [simp del]

section \<open>Pieces\<close>

definition torrent_piece_length :: "torrent_v1 \<Rightarrow> nat \<Rightarrow> u64 result" where
  "torrent_piece_length t index =
     and_then (ok_or (checked_mul (word_of_nat index) (tv_piece_length t)) (Bail ''BT piece offset overflow'')) (\<lambda>offset.
     Inr (min (tv_piece_length t) (saturating_sub (tv_total_length t) offset)))"

text \<open>Seeking to a position of a file and \<open>read_exact\<close>.\<close>

definition read_at :: "bytes \<Rightarrow> u64 \<Rightarrow> u64 \<Rightarrow> bytes result" where
  "read_at content offset len =
     (let bs = take (unat len) (drop (unat offset) content)
      in if length bs = unat len then Inr bs else Inl (Io UnexpectedEof))"

datatype piece_receive_outcome = PieceVerified bytes | PieceCancelled

text \<open>\<open>content\<close> is the partial file when the job starts.\<close>

definition receive_piece_job ::
    "bt_ext \<Rightarrow> torrent_v1 \<Rightarrow> piece_job \<Rightarrow> bytes \<Rightarrow> (nat \<Rightarrow> bool) \<Rightarrow> piece_receive_outcome session" where
  "receive_piece_job X t job content completed S =
     (if \<not> advertised (ps_availability S) (pj_piece_index job)
      then (Inl (Bail ''peer does not advertise assigned piece''), S)
      else then_do (pass (ok_or (checked_mul (ucast (pj_piece_index job)) (tv_piece_length t)) (Bail ''BT Piece offset overflow'')))
        (\<lambda>piece_offset.
      then_do (pass (torrent_piece_length t (unat (pj_piece_index job)))) (\<lambda>len.
      then_do (pass (read_at content piece_offset len)) (\<lambda>piece_bytes.
      then_do (receive_blocks piece_offset len completed 0 (pj_requests job) [] piece_bytes) (\<lambda>received.
      case received of
        None \<Rightarrow> pass (Inr PieceCancelled)
      | Some piece_bytes \<Rightarrow>
          if sha1_hex X piece_bytes \<noteq> tv_piece_sha1 t ! unat (pj_piece_index job)
          then pass (Inl (Bail ''BT piece SHA-1 mismatch after transfer''))
          else pass (Inr (PieceVerified piece_bytes)))))) S)"

end
