(* ===== verification/Bt_Resume.thy ===== *)
theory Bt_Resume
  imports Bt_Receive
begin

text \<open>
  The files of a download: the partial file, the resume state beside it, and the publication of the
  finished output, from \<open>crates/meld-core/src/bt_peer.rs\<close>. The JSON of the resume state (serde_json) is the
  record \<open>resume_ext\<close>; which accesses of the disk fail is the argument \<open>disk\<close>.
\<close>

section \<open>Resume state\<close>

definition RESUME_FORMAT :: string where
  "RESUME_FORMAT = ''shardmeld-bt-resume''"

definition RESUME_VERSION :: u32 where
  "RESUME_VERSION = 1"

record bt_resume_state =
  bs_format :: string
  bs_version :: u32
  bs_info_hash_sha1 :: string
  bs_target_sha256 :: string
  bs_target_bytes :: u64
  bs_piece_length :: u64
  bs_completed_pieces :: "bool list"

record resume_file =
  rf_partial_path :: string
  rf_state_path :: string
  rf_state :: bt_resume_state
  rf_resumed_verified_pieces :: u64
  rf_resumed_verified_piece_bytes :: u64

record resume_ext =
  rx_json :: "bt_resume_state \<Rightarrow> bytes result"
  rx_json_parse :: "bytes \<Rightarrow> bt_resume_state result"

text \<open>What is relied on of serde_json: a state is read back, the line feed after it ignored.\<close>

definition resume_ext_ok :: "resume_ext \<Rightarrow> bool" where
  "resume_ext_ok R \<longleftrightarrow> (\<forall>s. \<exists>j. rx_json R s = Inr j \<and> rx_json_parse R (j @ [10]) = Inr s)"

datatype fetch_point =
    CreateOutputDirectory | CreatePartial | SetPartialLength | OpenPartial | WriteState | WriteLocal
  | SyncPartial | LinkOutput | RemovePartial | RemoveState

type_synonym fetch_disk = "fetch_point \<Rightarrow> io_kind option"

definition resume_paths :: "string \<Rightarrow> string \<times> string" where
  "resume_paths output = (output @ ''.shardmeld-partial'', output @ ''.shardmeld-resume.json'')"

definition validate_resume_state :: "bt_resume_state \<Rightarrow> torrent_v1 \<Rightarrow> target_descriptor \<Rightarrow> unit result" where
  "validate_resume_state s t d =
     bail_if (bs_format s \<noteq> RESUME_FORMAT \<or> bs_version s \<noteq> RESUME_VERSION) ''unsupported BT resume state format or version''
    (bail_if (bs_info_hash_sha1 s \<noteq> tv_info_hash_sha1 t \<or> bs_target_sha256 s \<noteq> ti_sha256 (td_target d)
        \<or> bs_target_bytes s \<noteq> tv_total_length t \<or> bs_piece_length s \<noteq> tv_piece_length t
        \<or> length (bs_completed_pieces s) \<noteq> length (tv_piece_sha1 t))
      ''BT resume state does not belong to this torrent and descriptor'' (Inr ()))"

text \<open>The state goes to a temporary file that replaces the old one.\<close>

definition persist_resume_state ::
    "resume_ext \<Rightarrow> fetch_disk \<Rightarrow> int result \<Rightarrow> string \<Rightarrow> bt_resume_state \<Rightarrow> file_system \<Rightarrow> unit result \<times> file_system" where
  "persist_resume_state R disk now path s fs =
     (case disk WriteState of Some e \<Rightarrow> (Inl (Io e), fs)
      | None \<Rightarrow> (case rx_json R s of Inl e \<Rightarrow> (Inl e, fs)
      | Inr j \<Rightarrow> (Inr (), fs(path \<mapsto> Regular (j @ [10]) now))))"

section \<open>Pieces of the partial file\<close>

definition piece_matches :: "bt_ext \<Rightarrow> bytes \<Rightarrow> torrent_v1 \<Rightarrow> nat \<Rightarrow> bool result" where
  "piece_matches X content t index =
     and_then (ok_or (checked_mul (word_of_nat index) (tv_piece_length t)) (Bail ''BT piece offset overflow'')) (\<lambda>offset.
     and_then (torrent_piece_length t index) (\<lambda>len.
     and_then (read_at content offset len) (\<lambda>bs.
     Inr (sha1_hex X bs = tv_piece_sha1 t ! index))))"

definition verify_piece :: "bt_ext \<Rightarrow> bytes \<Rightarrow> torrent_v1 \<Rightarrow> nat \<Rightarrow> unit result" where
  "verify_piece X content t index =
     and_then (piece_matches X content t index) (\<lambda>matches.
     bail_if (\<not> matches) ''BT piece SHA-1 mismatch after transfer'' (Inr ()))"

definition verify_all_pieces :: "bt_ext \<Rightarrow> bytes \<Rightarrow> torrent_v1 \<Rightarrow> unit result" where
  "verify_all_pieces X content t = try_fold (\<lambda>_. verify_piece X content t) () [0..<length (tv_piece_sha1 t)]"

definition commit_verified_piece :: "torrent_v1 \<Rightarrow> bytes \<Rightarrow> u32 \<Rightarrow> bytes \<Rightarrow> bytes result" where
  "commit_verified_piece t content piece_index bs =
     and_then (torrent_piece_length t (unat piece_index)) (\<lambda>expected_length.
     bail_if (length bs \<noteq> unat expected_length) ''verified BT Piece buffer has the wrong length''
    (and_then (ok_or (checked_mul (ucast piece_index) (tv_piece_length t)) (Bail ''BT Piece offset overflow'')) (\<lambda>offset.
     Inr (write_at content (unat offset) bs))))"

section \<open>Opening\<close>

text \<open>A piece the state calls complete is believed only when it still has its SHA-1.\<close>

definition check_resumed_piece ::
    "bt_ext \<Rightarrow> bytes \<Rightarrow> torrent_v1 \<Rightarrow> bt_resume_state \<times> u64 \<times> u64 \<times> bool \<Rightarrow> nat \<Rightarrow> (bt_resume_state \<times> u64 \<times> u64 \<times> bool) result" where
  "check_resumed_piece X content t acc i = (case acc of (s, n, found, repaired) \<Rightarrow>
     if \<not> bs_completed_pieces s ! i then Inr acc
     else and_then (piece_matches X content t i) (\<lambda>matches.
       if matches then and_then (torrent_piece_length t i) (\<lambda>len. Inr (s, n + 1, found + len, repaired))
       else Inr (s\<lparr>bs_completed_pieces := (bs_completed_pieces s)[i := False]\<rparr>, n, found, True)))"

definition create_resume_file ::
    "resume_ext \<Rightarrow> fetch_disk \<Rightarrow> int result \<Rightarrow> torrent_v1 \<Rightarrow> target_descriptor \<Rightarrow> string \<Rightarrow> string \<Rightarrow> file_system
       \<Rightarrow> resume_file result \<times> file_system" where
  "create_resume_file R disk now t d partial_path state_path fs =
     (case disk CreatePartial of Some e \<Rightarrow> (Inl (Bail ''create BT partial file''), fs)
      | None \<Rightarrow> (case disk SetPartialLength of Some e \<Rightarrow> (Inl (Io e), fs(partial_path \<mapsto> Regular [] now))
      | None \<Rightarrow>
          let fs = fs(partial_path \<mapsto> Regular (replicate (unat (tv_total_length t)) 0) now);
              s = \<lparr>bs_format = RESUME_FORMAT, bs_version = RESUME_VERSION, bs_info_hash_sha1 = tv_info_hash_sha1 t,
                   bs_target_sha256 = ti_sha256 (td_target d), bs_target_bytes = tv_total_length t,
                   bs_piece_length = tv_piece_length t, bs_completed_pieces = replicate (length (tv_piece_sha1 t)) False\<rparr>
          in (case persist_resume_state R disk now state_path s fs of (Inl e, fs) \<Rightarrow> (Inl e, fs)
              | (Inr _, fs) \<Rightarrow> (Inr \<lparr>rf_partial_path = partial_path, rf_state_path = state_path, rf_state = s,
                   rf_resumed_verified_pieces = 0, rf_resumed_verified_piece_bytes = 0\<rparr>, fs))))"

definition open_resume_file ::
    "bt_ext \<Rightarrow> resume_ext \<Rightarrow> fetch_disk \<Rightarrow> int result \<Rightarrow> torrent_v1 \<Rightarrow> target_descriptor \<Rightarrow> string \<Rightarrow> file_system
       \<Rightarrow> resume_file result \<times> file_system" where
  "open_resume_file X R disk now t d output fs = (case resume_paths output of (partial_path, state_path) \<Rightarrow>
     if (partial_path \<in> dom fs) \<noteq> (state_path \<in> dom fs) then (Inl (Bail ''incomplete BT resume pair''), fs)
     else if partial_path \<notin> dom fs then create_resume_file R disk now t d partial_path state_path fs
     else (case and_then (fs_read fs state_path) (\<lambda>encoded.
         and_then (rx_json_parse R encoded) (\<lambda>s.
         and_then (validate_resume_state s t d) (\<lambda>_.
         and_then (case disk OpenPartial of Some e \<Rightarrow> Inl (Bail ''open BT partial file'') | None \<Rightarrow> fs_read fs partial_path) (\<lambda>content.
         bail_if (length content \<noteq> unat (tv_total_length t)) ''BT partial length mismatch''
        (try_fold (check_resumed_piece X content t) (s, 0, 0, False) [0..<length (bs_completed_pieces s)]))))) of
       Inl e \<Rightarrow> (Inl e, fs)
     | Inr (s, n, found, repaired) \<Rightarrow>
         (case (if repaired then persist_resume_state R disk now state_path s fs else (Inr (), fs)) of
            (Inl e, fs) \<Rightarrow> (Inl e, fs)
          | (Inr _, fs) \<Rightarrow> (Inr \<lparr>rf_partial_path = partial_path, rf_state_path = state_path, rf_state = s,
               rf_resumed_verified_pieces = n, rf_resumed_verified_piece_bytes = found\<rparr>, fs))))"

section \<open>Publishing\<close>

text \<open>A hard link gives the partial file its name unless that exists, then the old name is removed.\<close>

definition persist_completed_output :: "fetch_disk \<Rightarrow> string \<Rightarrow> string \<Rightarrow> file_system \<Rightarrow> unit result \<times> file_system" where
  "persist_completed_output disk partial_path output fs =
     (if disk LinkOutput \<noteq> None \<or> output \<in> dom fs \<or> partial_path \<notin> dom fs then (Inl (Bail ''publish verified BT output''), fs)
      else let fs = fs(output := fs partial_path) in
        (case disk RemovePartial of Some e \<Rightarrow> (Inl (Bail ''remove published BT partial''), fs)
         | None \<Rightarrow> (Inr (), fs(partial_path := None))))"

end
