(* ===== verification/Bt_Download.thy ===== *)
theory Bt_Download
  imports Bt_Resume Bt_Plan
begin

text \<open>
  A download as a whole: \<open>fetch_v1_from_peers_with_peer_id\<close> of \<open>crates/meld-core/src/bt_peer.rs\<close>. What happens
  before the worker threads start is \<open>fetch_start\<close>, what happens after the last of them has ended is
  \<open>fetch_finish\<close>; between the two the workers take steps in any order (\<open>download_step\<close> in
  \<open>Bt_Download_Safety\<close>).
\<close>

section \<open>Before the workers\<close>

text \<open>
  The local chunks are written one after the other. When one of them cannot be read the partial file keeps
  those before it. The index is asked with the partial file in its present state.
\<close>

fun write_local_until ::
    "cdc_ext \<Rightarrow> index_db \<Rightarrow> file_system \<Rightarrow> string \<Rightarrow> int result \<Rightarrow> chunk_record list \<Rightarrow> bytes \<times> local_range list \<times> u64
       \<Rightarrow> (local_range list \<times> u64) result \<times> bytes" where
  "write_local_until X db fs path now [] s = (Inr (snd s), fst s)"
| "write_local_until X db fs path now (c # cs) s =
     (case write_local_chunk X db (fs(path \<mapsto> Regular (fst s) now)) s c of
        Inl e \<Rightarrow> (Inl e, fst s)
      | Inr s \<Rightarrow> write_local_until X db fs path now cs s)"

record fetch_plan =
  fp_bridge :: bt_bridge_report
  fp_resume :: resume_file
  fp_local_bytes_available :: u64
  fp_requests :: "block_request list"
  fp_network_payload_avoided_by_resume :: u64
  fp_remaining_missing_bytes_before_run :: u64

definition fetch_start ::
    "bt_ext \<Rightarrow> resume_ext \<Rightarrow> index_db \<Rightarrow> fetch_disk \<Rightarrow> int result \<Rightarrow> torrent_v1 \<Rightarrow> target_descriptor
       \<Rightarrow> socket_addr list \<Rightarrow> string \<Rightarrow> file_system \<Rightarrow> fetch_plan result \<times> file_system" where
  "fetch_start X R db disk now t d peers output fs =
     (if output \<in> dom fs then (Inl (Bail ''refusing to overwrite existing output''), fs)
      else case plan_v1_bridge X db fs t d of Inl e \<Rightarrow> (Inl e, fs) | Inr bridge \<Rightarrow>
      if disk CreateOutputDirectory \<noteq> None then (Inl (Bail ''create output directory''), fs)
      else case open_resume_file X R disk now t d output fs of (Inl e, fs) \<Rightarrow> (Inl e, fs) | (Inr resume, fs) \<Rightarrow>
      case fs_read fs (rf_partial_path resume) of Inl e \<Rightarrow> (Inl e, fs) | Inr content \<Rightarrow>
      case write_local_until (bx_cdc X) db fs (rf_partial_path resume) now (td_chunks d) (content, [], 0) of (r, content) \<Rightarrow>
      let fs = fs(rf_partial_path resume \<mapsto> Regular content now) in
      case and_then r (\<lambda>(ranges, local_bytes).
           and_then (build_block_requests t ranges) (\<lambda>all_requests.
           let done_piece = (\<lambda>i. bs_completed_pieces (rf_state resume) ! i);
               todo = filter (\<lambda>q. \<not> done_piece (unat (rq_piece_index q))) all_requests
           in bail_if (todo \<noteq> [] \<and> peers = []) ''no BitTorrent peers were supplied for missing pieces''
             (Inr \<lparr>fp_bridge = bridge, fp_resume = resume, fp_local_bytes_available = local_bytes, fp_requests = todo,
                fp_network_payload_avoided_by_resume =
                  sum_list (map (\<lambda>q. ucast (rq_length q)) (filter (\<lambda>q. done_piece (unat (rq_piece_index q))) all_requests)),
                fp_remaining_missing_bytes_before_run =
                  sum_list (map pp_missing_bytes (filter (\<lambda>p. \<not> done_piece (unat (pp_index p))) (br_pieces bridge)))\<rparr>))) of
        Inl e \<Rightarrow> (Inl e, fs) | Inr plan \<Rightarrow> (Inr plan, fs))"

section \<open>After the workers\<close>

record bt_peer_worker_report =
  wr_peer :: socket_addr
  wr_remote_peer_id_hex :: "string option"
  wr_remote_reserved_hex :: "string option"
  wr_available_pieces :: "bool list"
  wr_block_requests_sent :: u64
  wr_payload_bytes_received :: u64
  wr_cancel_messages_sent :: u64
  wr_endgame_jobs_cancelled :: u64
  wr_pieces_verified :: u64
  wr_verified_piece_indices :: "u32 list"
  wr_error :: "error option"

definition new_worker_report :: "socket_addr \<Rightarrow> nat \<Rightarrow> bt_peer_worker_report" where
  "new_worker_report peer n_pieces =
     \<lparr>wr_peer = peer, wr_remote_peer_id_hex = None, wr_remote_reserved_hex = None, wr_available_pieces = replicate n_pieces False,
      wr_block_requests_sent = 0, wr_payload_bytes_received = 0, wr_cancel_messages_sent = 0, wr_endgame_jobs_cancelled = 0,
      wr_pieces_verified = 0, wr_verified_piece_indices = [], wr_error = None\<rparr>"

record bt_peer_fetch_report =
  fr_peer :: socket_addr
  fr_remote_peer_id_hex :: string
  fr_remote_reserved_hex :: string
  fr_info_hash_sha1 :: string
  fr_target_bytes :: u64
  fr_total_pieces :: u64
  fr_remote_available_pieces :: u64
  fr_fully_local_pieces :: u64
  fr_fully_local_piece_bytes :: u64
  fr_local_bytes_available :: u64
  fr_genuinely_missing_bytes :: u64
  fr_remaining_missing_bytes_before_run :: u64
  fr_endgame_duplicate_pieces :: u64
  fr_endgame_cancelled_jobs :: u64
  fr_endgame_cancel_messages :: u64
  fr_peers_connected :: u64
  fr_contributing_peers :: "socket_addr list"
  fr_pieces_reassigned :: u64
  fr_resumed_verified_pieces :: u64
  fr_resumed_verified_piece_bytes :: u64
  fr_network_payload_avoided_by_resume :: u64
  fr_newly_verified_pieces :: u64
  fr_network_pieces_requested :: u64
  fr_network_block_requests :: u64
  fr_network_payload_bytes :: u64
  fr_network_redundant_bytes :: u64
  fr_output_sha256 :: string
  fr_verified :: bool

text \<open>\<open>max_by_key\<close> gives the last of the largest.\<close>

definition last_max :: "('a \<Rightarrow> u64) \<Rightarrow> 'a list \<Rightarrow> 'a option" where
  "last_max f xs = foldl (\<lambda>best x. case best of None \<Rightarrow> Some x | Some b \<Rightarrow> if f b \<le> f x then Some x else Some b) None xs"

text \<open>What all workers together have been offered: the longest availability has one entry per piece.\<close>

definition aggregate_availability :: "nat \<Rightarrow> bt_peer_worker_report list \<Rightarrow> bool list" where
  "aggregate_availability n_pieces workers =
     map (\<lambda>i. \<exists>w\<in>set workers. i < length (wr_available_pieces w) \<and> wr_available_pieces w ! i) [0..<n_pieces]"

definition fetch_report_of ::
    "torrent_v1 \<Rightarrow> fetch_plan \<Rightarrow> socket_addr list \<Rightarrow> scheduler_state \<Rightarrow> bt_peer_worker_report list \<Rightarrow> string
       \<Rightarrow> bt_peer_fetch_report result" where
  "fetch_report_of t plan peers s workers output_sha256 =
     (let connected = filter (\<lambda>w. wr_remote_peer_id_hex w \<noteq> None) workers;
          primary = last_max wr_pieces_verified connected;
          payload = sum_list (map wr_payload_bytes_received workers)
      in and_then (ok_or (case primary of Some w \<Rightarrow> Some (wr_peer w) | None \<Rightarrow> (case peers of [] \<Rightarrow> None | p # _ \<Rightarrow> Some p))
             (Bail ''no BitTorrent peer was available for the transfer report'')) (\<lambda>primary_peer.
         and_then (ok_or (checked_sub payload (fp_remaining_missing_bytes_before_run plan))
             (Bail ''network payload was smaller than genuinely missing data'')) (\<lambda>redundant.
         Inr \<lparr>fr_peer = primary_peer,
           fr_remote_peer_id_hex = (case primary of None \<Rightarrow> [] | Some w \<Rightarrow> case_option [] id (wr_remote_peer_id_hex w)),
           fr_remote_reserved_hex = (case primary of None \<Rightarrow> [] | Some w \<Rightarrow> case_option [] id (wr_remote_reserved_hex w)),
           fr_info_hash_sha1 = tv_info_hash_sha1 t, fr_target_bytes = tv_total_length t,
           fr_total_pieces = br_total_pieces (fp_bridge plan),
           fr_remote_available_pieces = word_of_nat (length (filter id (aggregate_availability (length (tv_piece_sha1 t)) workers))),
           fr_fully_local_pieces = br_fully_local_pieces (fp_bridge plan),
           fr_fully_local_piece_bytes = br_fully_reconstructable_piece_bytes (fp_bridge plan),
           fr_local_bytes_available = fp_local_bytes_available plan,
           fr_genuinely_missing_bytes = br_missing_bytes (fp_bridge plan),
           fr_remaining_missing_bytes_before_run = fp_remaining_missing_bytes_before_run plan,
           fr_endgame_duplicate_pieces = sc_endgame_duplicate_pieces s,
           fr_endgame_cancelled_jobs = sc_endgame_cancelled_jobs s,
           fr_endgame_cancel_messages = sum_list (map wr_cancel_messages_sent workers),
           fr_peers_connected = word_of_nat (length connected),
           fr_contributing_peers = map wr_peer (filter (\<lambda>w. 0 < wr_pieces_verified w) workers),
           fr_pieces_reassigned = sc_pieces_reassigned s,
           fr_resumed_verified_pieces = rf_resumed_verified_pieces (fp_resume plan),
           fr_resumed_verified_piece_bytes = rf_resumed_verified_piece_bytes (fp_resume plan),
           fr_network_payload_avoided_by_resume = fp_network_payload_avoided_by_resume plan,
           fr_newly_verified_pieces = sum_list (map wr_pieces_verified workers),
           fr_network_pieces_requested = word_of_nat (length (remdups (map rq_piece_index (fp_requests plan)))),
           fr_network_block_requests = sum_list (map wr_block_requests_sent workers),
           fr_network_payload_bytes = payload, fr_network_redundant_bytes = redundant,
           fr_output_sha256 = output_sha256, fr_verified = True\<rparr>)))"

definition fetch_finish ::
    "bt_ext \<Rightarrow> fetch_disk \<Rightarrow> torrent_v1 \<Rightarrow> target_descriptor \<Rightarrow> fetch_plan \<Rightarrow> socket_addr list \<Rightarrow> string
       \<Rightarrow> scheduler_state \<Rightarrow> bt_peer_worker_report list \<Rightarrow> file_system \<Rightarrow> bt_peer_fetch_report result \<times> file_system" where
  "fetch_finish X disk t d plan peers output s workers fs =
     (let partial_path = rf_partial_path (fp_resume plan) in
      case bail_if (unfinished_pieces s \<noteq> []) ''BitTorrent peers exhausted with unfinished pieces''
          (case disk SyncPartial of Some e \<Rightarrow> Inl (Io e) | None \<Rightarrow>
           and_then (fs_read fs partial_path) (\<lambda>content.
           and_then (verify_all_pieces X content t) (\<lambda>_.
           and_then (sha256_file (bx_cdc X) (fs_reads fs partial_path)) (\<lambda>output_sha256.
           bail_if (output_sha256 \<noteq> ti_sha256 (td_target d)) ''BT-rebuilt target SHA-256 mismatch'' (Inr output_sha256))))) of
        Inl e \<Rightarrow> (Inl e, fs)
      | Inr output_sha256 \<Rightarrow>
          (case persist_completed_output disk partial_path output fs of (Inl e, fs) \<Rightarrow> (Inl e, fs)
           | (Inr _, fs) \<Rightarrow>
               if disk RemoveState \<noteq> None \<or> rf_state_path (fp_resume plan) \<notin> dom fs
               then (Inl (Bail ''remove completed resume state''), fs)
               else (fetch_report_of t plan peers s workers output_sha256, fs(rf_state_path (fp_resume plan) := None))))"

end
