(* ===== verification/Bt_Blocks_Exact.thy ===== *)
theory Bt_Blocks_Exact
  imports Bt_Blocks
begin

text \<open>
  The block requests of a download are exactly what is missing: disjoint blocks in order, inside their
  pieces, each holding a missing byte, and together every missing byte. One job is made per piece.
\<close>

section \<open>Local bytes\<close>

fun ranges_sorted :: "nat \<Rightarrow> local_range list \<Rightarrow> bool" where
  "ranges_sorted lo [] \<longleftrightarrow> True"
| "ranges_sorted lo (r # rs) \<longleftrightarrow> lo \<le> unat (lr_start r) \<and> unat (lr_start r) \<le> unat (lr_end r) \<and> ranges_sorted (unat (lr_end r)) rs"

definition local_byte :: "local_range list \<Rightarrow> nat \<Rightarrow> bool" where
  "local_byte ranges k \<longleftrightarrow> (\<exists>r\<in>set ranges. unat (lr_start r) \<le> k \<and> k < unat (lr_end r))"

lemma local_byte_lower: "ranges_sorted lo rs \<Longrightarrow> local_byte rs k \<Longrightarrow> lo \<le> k"
proof (induction rs arbitrary: lo)
  case (Cons r rs)
  then show ?case by (fastforce simp: local_byte_def)
qed (simp add: local_byte_def)

lemma local_byte_Cons: "local_byte (r # rs) k \<longleftrightarrow> (unat (lr_start r) \<le> k \<and> k < unat (lr_end r)) \<or> local_byte rs k"
  by (auto simp: local_byte_def)

lemma unat_overlap_length: "unat (overlap_length a b s e) = overlap (unat a) (unat b) (unat s) (unat e)"
  by (simp add: overlap_length_def overlap_def unat_saturating_sub unat_min unat_max)

lemma overlap_card: "overlap a b s e = card {k. a \<le> k \<and> k < b \<and> s \<le> k \<and> k < e}"
proof -
  have "{k. a \<le> k \<and> k < b \<and> s \<le> k \<and> k < e} = {max a s..<min b e}" by auto
  then show ?thesis by (simp add: overlap_def)
qed

lemma overlaps_card:
  "ranges_sorted lo rs \<Longrightarrow>
    (\<Sum>r\<leftarrow>rs. overlap a b (unat (lr_start r)) (unat (lr_end r))) = card {k. a \<le> k \<and> k < b \<and> local_byte rs k}"
proof (induction rs arbitrary: lo)
  case Nil
  then show ?case by (simp add: local_byte_def)
next
  case (Cons r rs)
  let ?A = "{k. a \<le> k \<and> k < b \<and> unat (lr_start r) \<le> k \<and> k < unat (lr_end r)}" and ?B = "{k. a \<le> k \<and> k < b \<and> local_byte rs k}"
  have "?A \<inter> ?B = {}" using local_byte_lower [of "unat (lr_end r)" rs] Cons.prems by fastforce
  moreover have "finite ?A" "finite ?B" by (rule finite_subset [of _ "{a..<b}"]; auto)+
  moreover have "{k. a \<le> k \<and> k < b \<and> local_byte (r # rs) k} = ?A \<union> ?B" by (auto simp: local_byte_Cons)
  ultimately have "card {k. a \<le> k \<and> k < b \<and> local_byte (r # rs) k} = card ?A + card ?B" by (simp add: card_Un_disjoint)
  with Cons.IH [of "unat (lr_end r)"] Cons.prems show ?case by (simp add: overlap_card)
qed

lemma unat_sum_list: "(\<Sum>x\<leftarrow>xs. unat (x :: u64)) < 2 ^ 64 \<Longrightarrow> unat (sum_list xs) = (\<Sum>x\<leftarrow>xs. unat x)"
proof (induction xs)
  case (Cons x xs)
  then show ?case by (simp add: unat_word_ariths)
qed simp

lemma block_covered_card:
  assumes "ranges_sorted lo rs" and "unat a \<le> unat b"
  shows "unat (block_covered rs a b) = card {k. unat a \<le> k \<and> k < unat b \<and> local_byte rs k}"
proof -
  let ?S = "{k. unat a \<le> k \<and> k < unat b \<and> local_byte rs k}"
  have "card ?S \<le> card {unat a..<unat b}" by (rule card_mono) auto
  then have small: "card ?S < 18446744073709551616" using unat_u64_bound [of b] by (simp only: card_atLeastLessThan)
  have "(\<Sum>r\<leftarrow>rs. unat (overlap_length a b (lr_start r) (lr_end r))) = card ?S"
    using overlaps_card [OF assms(1)] by (simp add: unat_overlap_length)
  then show ?thesis unfolding block_covered_def using unat_sum_list [of "map (\<lambda>r. overlap_length a b (lr_start r) (lr_end r)) rs"] small
    by (simp add: comp_def)
qed

text \<open>A block is requested when it holds a byte that is not local.\<close>

lemma card_less_iff: "finite U \<Longrightarrow> S \<subseteq> U \<Longrightarrow> card S < card U \<longleftrightarrow> S \<noteq> U"
  by (metis nat_less_le psubset_card_mono psubsetI)

lemma block_wanted:
  assumes "ranges_sorted lo rs" and "unat b = unat a + unat len"
  shows "block_covered rs a b < len \<longleftrightarrow> (\<exists>k. unat a \<le> k \<and> k < unat b \<and> \<not> local_byte rs k)"
proof -
  let ?S = "{k. unat a \<le> k \<and> k < unat b \<and> local_byte rs k}"
  have c: "unat (block_covered rs a b) = card ?S" using block_covered_card [OF assms(1)] assms(2) by simp
  have sub: "?S \<subseteq> {unat a..<unat b}" by auto
  have "card ?S < card {unat a..<unat b} \<longleftrightarrow> ?S \<noteq> {unat a..<unat b}"
    by (rule card_less_iff [OF finite_atLeastLessThan sub])
  also have "\<dots> \<longleftrightarrow> \<not> {unat a..<unat b} \<subseteq> ?S" 
    by (simp only: set_eq_subset sub simp_thms)
  also have "\<dots> \<longleftrightarrow> (\<exists>k. unat a \<le> k \<and> k < unat b \<and> \<not> local_byte rs k)"
    unfolding subset_iff mem_Collect_eq atLeastLessThan_iff by blast
  finally show ?thesis using c assms(2) by (simp add: word_less_nat_alt)
qed

section \<open>The requests of one piece\<close>

definition block_bytes :: "block_request \<Rightarrow> nat set" where
  "block_bytes r = {unat (rq_absolute_offset r)..<unat (rq_absolute_offset r) + unat (rq_length r)}"

definition request_ok :: "local_range list \<Rightarrow> nat \<Rightarrow> nat \<Rightarrow> nat \<Rightarrow> block_request \<Rightarrow> bool" where
  "request_ok ranges i a b r \<longleftrightarrow> unat (rq_piece_index r) = i \<and> unat (rq_absolute_offset r) = a + unat (rq_begin r)
     \<and> 0 < rq_length r \<and> rq_length r \<le> 16384 \<and> unat (rq_absolute_offset r) + unat (rq_length r) \<le> b
     \<and> (\<exists>k\<in>block_bytes r. \<not> local_byte ranges k)"

definition requests_ordered :: "block_request list \<Rightarrow> bool" where
  "requests_ordered rs \<longleftrightarrow>
     sorted_wrt (\<lambda>r s. unat (rq_absolute_offset r) + unat (rq_length r) \<le> unat (rq_absolute_offset s)) rs"

lemma u32_from_Inr: "n < 2 ^ 32 \<Longrightarrow> u32_from n msg = Inr (word_of_nat n)"
  by (simp add: u32_from_def)

lemma piece_blocks_exact:
  assumes "ranges_sorted lo ranges" and "i < 2 ^ 32" and "unat po + unat plen < 2 ^ 64" and "unat plen \<le> 2 ^ 24"
  shows "unat b \<le> unat plen \<Longrightarrow> \<exists>new. piece_blocks ranges i po plen b requests = Inr (requests @ new)
    \<and> (\<forall>r\<in>set new. request_ok ranges i (unat po) (unat po + unat plen) r \<and> unat po + unat b \<le> unat (rq_absolute_offset r))
    \<and> requests_ordered new
    \<and> (\<forall>k. unat po + unat b \<le> k \<and> k < unat po + unat plen \<and> \<not> local_byte ranges k \<longrightarrow> (\<exists>r\<in>set new. k \<in> block_bytes r))"
  using assms
proof (induction ranges i po plen b requests rule: piece_blocks.induct)
  case (1 ranges i po plen b requests)
  show ?case
  proof (cases "b < plen")
    case False
    then have "unat b = unat plen" using 1(2) by (simp add: word_less_nat_alt)
    with False show ?thesis by (subst piece_blocks.simps) (auto simp: requests_ordered_def)
  next
    case True
    define len where "len = min BLOCK_LENGTH (plen - b)"
    have s: "unat (b + len) = unat b + unat len" "unat len = min 16384 (unat plen - unat b)"
      using block_step [OF True] by (simp_all add: len_def)
    have lt: "unat b < unat plen" using True by (simp add: word_less_nat_alt)
    then have blen: "unat b + unat len \<le> unat plen" "0 < unat len" "unat len \<le> 16384" using s(2) by auto
    have start: "unat (po + b) = unat po + unat b" using 1(5) lt by (simp add: unat_word_ariths)
    have fin: "unat (po + b + len) = unat (po + b) + unat len" using start 1(5) blen by (simp add: unat_word_ariths)
    define req where "req = \<lparr>rq_piece_index = word_of_nat i, rq_begin = word_of_nat (unat b), rq_length = word_of_nat (unat len), rq_absolute_offset = po + b\<rparr>"
    have small: "unat b < 2 ^ 32" "unat len < 2 ^ 32" using 1(6) lt blen by auto
    have ureq: "unat (rq_piece_index req) = i" "unat (rq_begin req) = unat b" "unat (rq_length req) = unat len" "unat (rq_absolute_offset req) = unat po + unat b"
      using small 1(4) start by (simp_all add: req_def unat_of_nat)
    let ?wanted = "block_covered ranges (po + b) (po + b + len) < len"
    have wanted: "?wanted \<longleftrightarrow> (\<exists>k. unat po + unat b \<le> k \<and> k < unat po + unat b + unat len \<and> \<not> local_byte ranges k)"
      using block_wanted [OF 1(3) fin] start fin by simp
    define requests1 where "requests1 = (if ?wanted then requests @ [req] else requests)"
    have step: "piece_blocks ranges i po plen b requests = piece_blocks ranges i po plen (b + len) requests1"
      using True small 1(4) by (subst piece_blocks.simps) (simp add: Let_def requests1_def req_def u32_from_Inr flip: len_def)
    have "\<exists>new. piece_blocks ranges i po plen (b + len) requests1 = Inr (requests1 @ new)
      \<and> (\<forall>r\<in>set new. request_ok ranges i (unat po) (unat po + unat plen) r \<and> unat po + unat (b + len) \<le> unat (rq_absolute_offset r))
      \<and> requests_ordered new
      \<and> (\<forall>k. unat po + unat (b + len) \<le> k \<and> k < unat po + unat plen \<and> \<not> local_byte ranges k \<longrightarrow> (\<exists>r\<in>set new. k \<in> block_bytes r))"
    proof (rule "1.IH" [OF True len_def refl refl])
      show "(if ?wanted then
                and_then (u32_from i ''too many BT pieces'') (\<lambda>x.
                and_then (u32_from (unat b) ''BT block offset is too large'') (\<lambda>y.
                and_then (u32_from (unat len) ''BT block is too large'') (\<lambda>z.
                Inr (requests @ [\<lparr>rq_piece_index = x, rq_begin = y, rq_length = z, rq_absolute_offset = po + b\<rparr>]))))
              else Inr requests) = Inr requests1"
        using small 1(4) by (simp add: requests1_def req_def u32_from_Inr)
    qed (use 1 s blen in simp_all)
    then obtain new where new: "piece_blocks ranges i po plen (b + len) requests1 = Inr (requests1 @ new)"
      "\<forall>r\<in>set new. request_ok ranges i (unat po) (unat po + unat plen) r \<and> unat po + unat b + unat len \<le> unat (rq_absolute_offset r)"
      "requests_ordered new"
      "\<forall>k. unat po + unat b + unat len \<le> k \<and> k < unat po + unat plen \<and> \<not> local_byte ranges k \<longrightarrow> (\<exists>r\<in>set new. k \<in> block_bytes r)"
      using s(1) by (auto simp: add.assoc)
    show ?thesis
    proof (cases ?wanted)
      case False
      then have "local_byte ranges k" if "unat po + unat b \<le> k" "k < unat po + unat b + unat len" for k using wanted that by blast
      then have later: "unat po + unat b + unat len \<le> k" if "unat po + unat b \<le> k" "\<not> local_byte ranges k" for k
        using that by (metis not_le)
      have r1: "requests1 = requests" using False by (simp add: requests1_def)
      have "\<forall>r\<in>set new. request_ok ranges i (unat po) (unat po + unat plen) r \<and> unat po + unat b \<le> unat (rq_absolute_offset r)"
        using new(2) by fastforce
      moreover have "\<forall>k. unat po + unat b \<le> k \<and> k < unat po + unat plen \<and> \<not> local_byte ranges k
          \<longrightarrow> (\<exists>r\<in>set new. k \<in> block_bytes r)" using new(4) later by blast
      moreover have "piece_blocks ranges i po plen b requests = Inr (requests @ new)" using step new(1) unfolding r1 by (rule trans)
      ultimately show ?thesis using new(3) by (intro exI [of _ new] conjI)
    next
      case w: True
      then have "request_ok ranges i (unat po) (unat po + unat plen) req"
        using wanted ureq blen by (auto simp: request_ok_def block_bytes_def word_less_nat_alt word_le_nat_alt)
      moreover have "requests_ordered (req # new)" using new(2,3) ureq by (auto simp: requests_ordered_def)
      ultimately show ?thesis using new step w ureq
        by (intro exI [of _ "req # new"]) (auto simp: requests1_def block_bytes_def not_less)
    qed
  qed
qed

section \<open>The requests of a torrent\<close>

definition torrent_request_ok :: "torrent_v1 \<Rightarrow> local_range list \<Rightarrow> block_request \<Rightarrow> bool" where
  "torrent_request_ok t ranges r \<longleftrightarrow> (let i = unat (rq_piece_index r) in
     i < piece_count t \<and> request_ok ranges i (piece_bound t i) (piece_bound t (Suc i)) r)"

lemma ordered_append:
  "requests_ordered xs \<Longrightarrow> requests_ordered ys \<Longrightarrow>
    (\<And>r s. r \<in> set xs \<Longrightarrow> s \<in> set ys \<Longrightarrow> unat (rq_absolute_offset r) + unat (rq_length r) \<le> unat (rq_absolute_offset s)) \<Longrightarrow>
    requests_ordered (xs @ ys)"
  by (simp add: requests_ordered_def sorted_wrt_append)

lemma checked_piece_offset:
  assumes "0 < tv_piece_length t" and "i < piece_count t"
  shows "\<exists>po. checked_mul (word_of_nat i) (tv_piece_length t) = Some po \<and> unat po = piece_bound t i"
proof -
  have b: "i * unat (tv_piece_length t) < unat (tv_total_length t)" using piece_start [OF assms] .
  moreover have "i * 1 \<le> i * unat (tv_piece_length t)" using assms(1) by (intro mult_le_mono2) (simp add: word_less_nat_alt)
  ultimately have "i < 18446744073709551616" using unat_u64_bound [of "tv_total_length t"] by linarith
  then have i: "unat (word_of_nat i :: u64) = i" by (rule unat_of_nat_u64)
  have "i * unat (tv_piece_length t) < 18446744073709551616" using b unat_u64_bound [of "tv_total_length t"] by linarith
  with i have "checked_mul (word_of_nat i) (tv_piece_length t) = Some (word_of_nat i * tv_piece_length t)"
    "unat (word_of_nat i * tv_piece_length t) = i * unat (tv_piece_length t)"
    by (simp_all add: checked_mul_def unat_word_ariths)
  with piece_bounds(1) [OF assms] show ?thesis by simp
qed

lemma build_piece_requests_step:
  assumes "torrent_shape t" and "tv_piece_length t \<le> MAX_BT_PIECE_LENGTH" and "piece_count t \<le> 2 ^ 32"
    and "ranges_sorted lo ranges" and i: "i < piece_count t"
  shows "\<exists>new. build_piece_requests t ranges requests i = Inr (requests @ new)
    \<and> (\<forall>r\<in>set new. request_ok ranges i (piece_bound t i) (piece_bound t (Suc i)) r)
    \<and> requests_ordered new
    \<and> (\<forall>k. piece_bound t i \<le> k \<and> k < piece_bound t (Suc i) \<and> \<not> local_byte ranges k \<longrightarrow> (\<exists>r\<in>set new. k \<in> block_bytes r))"
proof -
  have pl: "0 < tv_piece_length t" using assms(1) by (simp add: torrent_shape_def)
  have ab: "piece_bound t i < piece_bound t (Suc i)" "piece_bound t (Suc i) \<le> unat (tv_total_length t)"
    "piece_bound t i = i * unat (tv_piece_length t)" using piece_bounds [OF pl i] piece_bound_total by auto
  have i32: "i < 2 ^ 32" using i assms(3) by linarith
  obtain po where po: "checked_mul (word_of_nat i) (tv_piece_length t) = Some po" "unat po = piece_bound t i"
    using checked_piece_offset [OF pl i] by blast
  define pe where "pe = min (saturating_add po (tv_piece_length t)) (tv_total_length t)"
  have "piece_bound t (Suc i) = min (piece_bound t i + unat (tv_piece_length t)) (unat (tv_total_length t))"
    unfolding ab(3) by (simp add: piece_bound_def add.commute)
  moreover have "unat pe = min (min (piece_bound t i + unat (tv_piece_length t)) (2 ^ 64 - 1)) (unat (tv_total_length t))"
    by (simp add: pe_def unat_min unat_saturating_add po(2))
  moreover have "unat (tv_total_length t) < 2 ^ 64" by simp
  ultimately have upe: "unat pe = piece_bound t (Suc i)" by linarith
  have len: "unat (pe - po) = piece_bound t (Suc i) - piece_bound t i"
    using ab(1) po(2) upe by (simp add: unat_sub word_le_nat_alt)
  have "unat (tv_piece_length t) \<le> 2 ^ 24" using assms(2) by (simp add: MAX_BT_PIECE_LENGTH_def word_le_nat_alt)
  moreover have "piece_bound t (Suc i) \<le> piece_bound t i + unat (tv_piece_length t)"
    unfolding ab(3) by (simp add: piece_bound_def)
  ultimately have small: "unat (pe - po) \<le> 2 ^ 24" using len by linarith
  have sum: "unat po + unat (pe - po) = piece_bound t (Suc i)" using len po(2) ab(1) by simp
  then have "unat po + unat (pe - po) < 18446744073709551616" using unat_u64_bound [of pe] upe by simp
  then have nowrap: "unat po + unat (pe - po) < 2 ^ 64" by simp
  have "build_piece_requests t ranges requests i = piece_blocks ranges i po (pe - po) 0 requests"
    using po(1) by (simp add: build_piece_requests_def pe_def Let_def)
  moreover have "piece_bound t i + unat (pe - po) = piece_bound t (Suc i)" using sum po(2) by simp
  ultimately show ?thesis using piece_blocks_exact [OF assms(4) i32 nowrap small, of 0 requests] po(2) by auto
qed

lemma build_block_requests_exact:
  assumes "torrent_shape t" and "tv_piece_length t \<le> MAX_BT_PIECE_LENGTH" and "piece_count t \<le> 2 ^ 32"
    and "ranges_sorted lo ranges"
  shows "\<exists>rs. build_block_requests t ranges = Inr rs \<and> list_all (torrent_request_ok t ranges) rs \<and> requests_ordered rs
    \<and> (\<forall>k. k < unat (tv_total_length t) \<and> \<not> local_byte ranges k \<longrightarrow> (\<exists>r\<in>set rs. k \<in> block_bytes r))"
proof -
  have "\<exists>rs. try_fold (build_piece_requests t ranges) [] [0..<n] = Inr rs
    \<and> (\<forall>r\<in>set rs. torrent_request_ok t ranges r \<and> unat (rq_absolute_offset r) + unat (rq_length r) \<le> piece_bound t n)
    \<and> requests_ordered rs
    \<and> (\<forall>k. k < piece_bound t n \<and> \<not> local_byte ranges k \<longrightarrow> (\<exists>r\<in>set rs. k \<in> block_bytes r))" if "n \<le> piece_count t" for n
    using that
  proof (induction n)
    case 0
    then show ?case by (simp add: requests_ordered_def)
  next
    case (Suc n)
    then have n: "n < piece_count t" by simp
    from Suc obtain rs where rs: "try_fold (build_piece_requests t ranges) [] [0..<n] = Inr rs"
      "\<forall>r\<in>set rs. torrent_request_ok t ranges r \<and> unat (rq_absolute_offset r) + unat (rq_length r) \<le> piece_bound t n"
      "requests_ordered rs"
      "\<forall>k. k < piece_bound t n \<and> \<not> local_byte ranges k \<longrightarrow> (\<exists>r\<in>set rs. k \<in> block_bytes r)" by auto
    obtain new where new: "build_piece_requests t ranges rs n = Inr (rs @ new)"
      "\<forall>r\<in>set new. request_ok ranges n (piece_bound t n) (piece_bound t (Suc n)) r"
      "requests_ordered new"
      "\<forall>k. piece_bound t n \<le> k \<and> k < piece_bound t (Suc n) \<and> \<not> local_byte ranges k \<longrightarrow> (\<exists>r\<in>set new. k \<in> block_bytes r)"
      using build_piece_requests_step [OF assms n, of rs] by blast
    have le: "piece_bound t n \<le> piece_bound t (Suc n)" using monoD [OF piece_bound_mono, of n "Suc n"] by simp
    have run: "try_fold (build_piece_requests t ranges) [] [0..<Suc n] = Inr (rs @ new)"
      using rs(1) new(1) by (simp add: try_fold_append)
    have newok: "torrent_request_ok t ranges r \<and> unat (rq_absolute_offset r) + unat (rq_length r) \<le> piece_bound t (Suc n)
        \<and> piece_bound t n \<le> unat (rq_absolute_offset r)" if "r \<in> set new" for r
      using new(2) that n by (auto simp: torrent_request_ok_def request_ok_def Let_def)
    have ord: "requests_ordered (rs @ new)" using rs(2,3) new(3) newok by (intro ordered_append) (auto intro: le_trans)
    have cover: "\<exists>r\<in>set (rs @ new). k \<in> block_bytes r" if "k < piece_bound t (Suc n)" "\<not> local_byte ranges k" for k
    proof (cases "k < piece_bound t n")
      case True
      with rs(4) that(2) show ?thesis by auto
    next
      case False
      then have "piece_bound t n \<le> k" by simp
      with new(4) that show ?thesis by auto
    qed
    show ?case using run ord cover newok rs(2) le by (intro exI [of _ "rs @ new"]) (auto intro: le_trans)
  qed
  from this [of "piece_count t"] show ?thesis
    using assms(1) piece_bound_last [of t] by (auto simp: build_block_requests_def torrent_shape_def piece_count_def list_all_iff)
qed

section \<open>One job per piece\<close>

definition jobs_ok :: "piece_job list \<Rightarrow> bool" where
  "jobs_ok jobs \<longleftrightarrow> sorted_wrt (\<lambda>a b. pj_piece_index a < pj_piece_index b) jobs
     \<and> list_all (\<lambda>j. pj_requests j \<noteq> [] \<and> list_all (\<lambda>r. rq_piece_index r = pj_piece_index j) (pj_requests j)
         \<and> pj_attempt j = 0 \<and> \<not> pj_endgame_duplicate j) jobs"

lemma add_request_ok:
  assumes "jobs_ok jobs" and "jobs \<noteq> [] \<Longrightarrow> pj_piece_index (last jobs) \<le> rq_piece_index r"
  shows "jobs_ok (add_request jobs r)" and "concat (map pj_requests (add_request jobs r)) = concat (map pj_requests jobs) @ [r]"
    and "add_request jobs r \<noteq> [] \<and> pj_piece_index (last (add_request jobs r)) = rq_piece_index r"
proof -
  have "jobs_ok (add_request jobs r) \<and> concat (map pj_requests (add_request jobs r)) = concat (map pj_requests jobs) @ [r]
    \<and> add_request jobs r \<noteq> [] \<and> pj_piece_index (last (add_request jobs r)) = rq_piece_index r"
  proof (cases "jobs = [] \<or> pj_piece_index (last jobs) \<noteq> rq_piece_index r")
    case True
    have less: "pj_piece_index j < rq_piece_index r" if "j \<in> set jobs" for j
    proof -
      obtain js l where jobs: "jobs = js @ [l]" using \<open>j \<in> set jobs\<close> by (cases jobs rule: rev_cases) auto
      then have "pj_piece_index j \<le> pj_piece_index l" using assms(1) that by (auto simp: jobs_ok_def sorted_wrt_append)
      moreover have "pj_piece_index l < rq_piece_index r" using True assms(2) jobs by auto
      ultimately show ?thesis by simp
    qed
    with True assms(1) show ?thesis by (auto simp: add_request_def jobs_ok_def sorted_wrt_append)
  next
    case False
    then obtain js j where j: "jobs = js @ [j]" "pj_piece_index j = rq_piece_index r" by (metis append_butlast_last_id)
    with assms(1) show ?thesis by (auto simp: add_request_def jobs_ok_def sorted_wrt_append)
  qed
  then show "jobs_ok (add_request jobs r)" "concat (map pj_requests (add_request jobs r)) = concat (map pj_requests jobs) @ [r]"
    "add_request jobs r \<noteq> [] \<and> pj_piece_index (last (add_request jobs r)) = rq_piece_index r" by blast+
qed

lemma build_piece_jobs_ok:
  assumes "sorted_wrt (\<le>) (map rq_piece_index rs)"
  shows "jobs_ok (build_piece_jobs rs) \<and> concat (map pj_requests (build_piece_jobs rs)) = rs
    \<and> (rs \<noteq> [] \<longrightarrow> build_piece_jobs rs \<noteq> [] \<and> pj_piece_index (last (build_piece_jobs rs)) = rq_piece_index (last rs))"
  using assms unfolding build_piece_jobs_def
proof (induction rs rule: rev_induct)
  case Nil
  then show ?case by (simp add: jobs_ok_def)
next
  case (snoc r rs)
  let ?jobs = "foldl add_request [] rs"
  have ih: "jobs_ok ?jobs" "concat (map pj_requests ?jobs) = rs"
    "rs \<noteq> [] \<Longrightarrow> pj_piece_index (last ?jobs) = rq_piece_index (last rs)"
    using snoc by (auto simp: sorted_wrt_append)
  have "pj_piece_index (last ?jobs) \<le> rq_piece_index r" if "?jobs \<noteq> []"
  proof -
    have "rs \<noteq> []" using that by auto
    moreover from this have "rq_piece_index (last rs) \<le> rq_piece_index r" using snoc.prems by (auto simp: sorted_wrt_append)
    ultimately show ?thesis using ih(3) by simp
  qed
  from add_request_ok [OF ih(1) this] ih(2) show ?case by simp
qed

text \<open>The requests of a torrent come in the order of its pieces.\<close>

lemma requests_by_piece:
  assumes "list_all (torrent_request_ok t ranges) rs" and "requests_ordered rs"
  shows "sorted_wrt (\<le>) (map rq_piece_index rs)"
  using assms
proof (induction rs)
  case (Cons r rs)
  have "rq_piece_index r \<le> rq_piece_index s" if "s \<in> set rs" for s
  proof (rule ccontr)
    assume "\<not> rq_piece_index r \<le> rq_piece_index s"
    then have "Suc (unat (rq_piece_index s)) \<le> unat (rq_piece_index r)" by (simp add: word_le_nat_alt)
    then have "piece_bound t (Suc (unat (rq_piece_index s))) \<le> piece_bound t (unat (rq_piece_index r))" by (rule monoD [OF piece_bound_mono])
    moreover have "piece_bound t (unat (rq_piece_index r)) \<le> unat (rq_absolute_offset r)" "0 < unat (rq_length r)"
      using Cons.prems(1) by (auto simp: torrent_request_ok_def request_ok_def Let_def word_less_nat_alt)
    moreover have "unat (rq_absolute_offset s) + unat (rq_length s) \<le> piece_bound t (Suc (unat (rq_piece_index s)))"
      using Cons.prems(1) that by (auto simp: torrent_request_ok_def request_ok_def Let_def list_all_iff)
    moreover have "unat (rq_absolute_offset r) + unat (rq_length r) \<le> unat (rq_absolute_offset s)"
      using Cons.prems(2) that by (simp add: requests_ordered_def)
    ultimately show False by linarith
  qed
  with Cons show ?case by (simp add: requests_ordered_def)
qed simp

section \<open>Local chunks\<close>

lemma length_write_at: "offset + length bs \<le> length content \<Longrightarrow> length (write_at content offset bs) = length content"
  by (simp add: write_at_def)

lemma nth_write_at:
  "offset + length bs \<le> length content \<Longrightarrow> k < length content \<Longrightarrow>
    write_at content offset bs ! k = (if offset \<le> k \<and> k < offset + length bs then bs ! (k - offset) else content ! k)"
  by (auto simp: write_at_def nth_append min_def)

lemma ranges_sorted_append:
  "ranges_sorted lo rs \<Longrightarrow> (\<And>r. r \<in> set rs \<Longrightarrow> unat (lr_end r) \<le> unat (lr_start s)) \<Longrightarrow> lo \<le> unat (lr_start s) \<Longrightarrow>
    unat (lr_start s) \<le> unat (lr_end s) \<Longrightarrow> ranges_sorted lo (rs @ [s])"
  by (induction rs arbitrary: lo) auto

lemma write_local_chunk_cases:
  assumes "write_local_chunk X db fs (content, ranges, n) c = Inr s" and "unat (ck_offset c) + unat (ck_length c) < 2 ^ 64"
  shows "(\<not> found_locally X db fs c \<and> s = (content, ranges, n)) \<or>
    (found_locally X db fs c \<and> (\<exists>e. unat e = unat (ck_offset c) + unat (ck_length c) \<and>
      s = (write_at content (unat (ck_offset c)) (local_content X db fs c),
           ranges @ [\<lparr>lr_start = ck_offset c, lr_end = e\<rparr>], n + ucast (ck_length c))))"
proof -
  from assms(1) obtain found where f: "lookup_chunk X db (fs_metadata fs) (ck_hash c) (ck_length c) = Inr found"
    by (auto simp: write_local_chunk_def)
  show ?thesis
  proof (cases found)
    case None
    with f assms(1) show ?thesis by (simp add: write_local_chunk_def found_locally_def)
  next
    case (Some source)
    with f assms(1) obtain bs e where b: "read_verified_chunk X fs (sl_path source) (sl_offset source) (ck_length c) (ck_hash c) = Inr bs"
      "checked_add (ck_offset c) (ucast (ck_length c)) = Some e"
      "s = (write_at content (unat (ck_offset c)) bs, ranges @ [\<lparr>lr_start = ck_offset c, lr_end = e\<rparr>], n + ucast (ck_length c))"
      by (auto simp: write_local_chunk_def)
    have "sl_length source = ck_length c" using f Some lookup_chunk_length by auto
    then have "read_verified_source X fs source (ck_hash c) = Inr bs"
      using b(1) read_verified_chunk_source [of X fs source "ck_hash c" bs] by simp
    then have "local_content X db fs c = bs" "found_locally X db fs c"
      using f Some by (simp_all add: local_content_def local_chunk_def found_locally_def)
    with b show ?thesis by (auto simp: checked_add_Some)
  qed
qed

definition held :: "cdc_ext \<Rightarrow> index_db \<Rightarrow> file_system \<Rightarrow> chunk_record list \<Rightarrow> nat \<Rightarrow> bool" where
  "held X db fs cs k \<longleftrightarrow> (\<exists>c\<in>set cs. found_locally X db fs c \<and> in_chunk k c)"

lemma held_Cons: "held X db fs (c # cs) k \<longleftrightarrow> (found_locally X db fs c \<and> in_chunk k c) \<or> held X db fs cs k"
  by (auto simp: held_def)

lemma held_bounds: "chunks_tile start cs e \<Longrightarrow> held X db fs cs k \<Longrightarrow> start \<le> k \<and> k < e"
  using chunks_tile_lower chunks_tile_upper by (fastforce simp: held_def in_chunk_def)

lemma local_image_Cons:
  "chunks_tile start (c # cs) e \<Longrightarrow> start \<le> k \<Longrightarrow>
    local_image X db fs (c # cs) ! (k - start) = (if k < start + unat (ck_length c) then local_content X db fs c ! (k - start)
      else local_image X db fs cs ! (k - (start + unat (ck_length c))))"
  by (auto simp: local_image_def nth_append)

lemma write_local_chunks_fold:
  assumes "try_fold (write_local_chunk X db fs) (content, ranges, n) cs = Inr (content', ranges', n')"
    and "chunks_tile start cs e" and "e \<le> length content" and "e < 2 ^ 64"
    and "ranges_sorted 0 ranges" and "\<forall>r\<in>set ranges. unat (lr_end r) \<le> start"
  shows "ranges_sorted 0 ranges' \<and> length content' = length content
    \<and> (\<forall>k. local_byte ranges' k \<longleftrightarrow> local_byte ranges k \<or> held X db fs cs k)
    \<and> (\<forall>k<length content. content' ! k = (if held X db fs cs k then local_image X db fs cs ! (k - start) else content ! k))"
  using assms
proof (induction cs arbitrary: content ranges n start)
  case Nil
  then show ?case by (simp add: held_def)
next
  case (Cons c cs)
  let ?l = "unat (ck_length c)"
  obtain content1 ranges1 n1 where s: "write_local_chunk X db fs (content, ranges, n) c = Inr (content1, ranges1, n1)"
    "try_fold (write_local_chunk X db fs) (content1, ranges1, n1) cs = Inr (content', ranges', n')"
    using Cons.prems(1) by auto
  have t: "unat (ck_offset c) = start" "0 < ?l" "chunks_tile (start + ?l) cs e" using Cons.prems(2) by auto
  have le: "start + ?l \<le> e" using t(3) by (rule chunks_tile_le)
  have inc: "in_chunk k c \<longleftrightarrow> start \<le> k \<and> k < start + ?l" for k using t(1) by (simp add: in_chunk_def)
  have rest: "\<not> held X db fs cs k" if "k < start + ?l" for k using held_bounds [OF t(3)] that by (metis not_le)
  have nowrap: "unat (ck_offset c) + unat (ck_length c) < 2 ^ 64" using le t(1) Cons.prems(4) by linarith
  from write_local_chunk_cases [OF s(1) nowrap]
  consider (skip) "\<not> found_locally X db fs c" "content1 = content" "ranges1 = ranges"
    | (put) f where "found_locally X db fs c" "unat f = start + ?l" "content1 = write_at content start (local_content X db fs c)"
        "ranges1 = ranges @ [\<lparr>lr_start = ck_offset c, lr_end = f\<rparr>]"
    using t(1) by fastforce
  then show ?case
  proof cases
    case skip
    have "\<forall>r\<in>set ranges1. unat (lr_end r) \<le> start + ?l" using Cons.prems(6) skip(3) by fastforce
    with Cons.IH [OF s(2) t(3) _ Cons.prems(4)] Cons.prems(3,5) skip
    have ih: "ranges_sorted 0 ranges'" "length content' = length content"
      "\<And>k. local_byte ranges' k \<longleftrightarrow> local_byte ranges k \<or> held X db fs cs k"
      "\<And>k. k < length content \<Longrightarrow> content' ! k = (if held X db fs cs k then local_image X db fs cs ! (k - (start + ?l)) else content ! k)"
      by auto
    have "local_image X db fs (c # cs) ! (k - start) = local_image X db fs cs ! (k - (start + ?l))" if "held X db fs cs k" for k
      using local_image_Cons [OF Cons.prems(2), of k] held_bounds [OF t(3) that] by simp
    with ih skip(1) show ?thesis by (auto simp: held_Cons)
  next
    case put
    have fit: "start + length (local_content X db fs c) \<le> length content" using le Cons.prems(3) by simp
    have r1: "ranges_sorted 0 ranges1" unfolding put(4)
      using Cons.prems(5,6) t(1) put(2) by (intro ranges_sorted_append) auto
    have r2: "\<forall>r\<in>set ranges1. unat (lr_end r) \<le> start + ?l" using Cons.prems(6) put(2,4) by fastforce
    have len: "length content1 = length content" using length_write_at [OF fit] put(3) by simp
    have lb: "local_byte ranges1 k \<longleftrightarrow> local_byte ranges k \<or> in_chunk k c" for k
      using put(2,4) t(1) by (auto simp: local_byte_def in_chunk_def)
    have ih: "ranges_sorted 0 ranges'" "length content' = length content"
      "\<And>k. local_byte ranges' k \<longleftrightarrow> local_byte ranges1 k \<or> held X db fs cs k"
      "\<And>k. k < length content \<Longrightarrow> content' ! k = (if held X db fs cs k then local_image X db fs cs ! (k - (start + ?l)) else content1 ! k)"
      using Cons.IH [OF s(2) t(3) _ Cons.prems(4) r1 r2] Cons.prems(3) len by auto
    have c1: "content1 ! k = (if in_chunk k c then local_content X db fs c ! (k - start) else content ! k)" if "k < length content" for k
      using nth_write_at [OF fit that] put(3) inc by simp
    have "content' ! k = (if held X db fs (c # cs) k then local_image X db fs (c # cs) ! (k - start) else content ! k)"
      if k: "k < length content" for k
    proof (cases "held X db fs cs k")
      case True
      then show ?thesis using ih(4) [OF k] local_image_Cons [OF Cons.prems(2), of k] held_bounds [OF t(3) True] by (simp add: held_Cons)
    next
      case False
      then show ?thesis using ih(4) [OF k] c1 [OF k] put(1) local_image_Cons [OF Cons.prems(2), of k] by (simp add: held_Cons inc)
    qed
    with ih lb put(1) show ?thesis by (auto simp: held_Cons)
  qed
qed

lemma write_local_chunks_exact:
  assumes "write_local_chunks X db fs d content = Inr (content', ranges, n)" and "td_validate X d = Inr ()"
    and "length content = unat (ti_size (td_target d))"
  shows "ranges_sorted 0 ranges" and "length content' = length content"
    and "local_byte ranges k \<longleftrightarrow> held X db fs (td_chunks d) k"
    and "k < length content \<Longrightarrow> content' ! k = (if held X db fs (td_chunks d) k then local_image X db fs (td_chunks d) ! k else content ! k)"
proof -
  have tile: "chunks_tile 0 (td_chunks d) (unat (ti_size (td_target d)))" using assms(2) by (simp add: td_validate_iff)
  have "unat (ti_size (td_target d)) < 2 ^ 64" by simp
  from write_local_chunks_fold [OF assms(1) [unfolded write_local_chunks_def] tile _ this] assms(3)
  have "ranges_sorted 0 ranges \<and> length content' = length content
    \<and> (\<forall>k. local_byte ranges k \<longleftrightarrow> held X db fs (td_chunks d) k)
    \<and> (\<forall>k<length content. content' ! k = (if held X db fs (td_chunks d) k then local_image X db fs (td_chunks d) ! k else content ! k))"
    by (simp add: local_byte_def)
  then show "ranges_sorted 0 ranges" "length content' = length content" "local_byte ranges k \<longleftrightarrow> held X db fs (td_chunks d) k"
    "k < length content \<Longrightarrow> content' ! k = (if held X db fs (td_chunks d) k then local_image X db fs (td_chunks d) ! k else content ! k)"
    by blast+
qed

end
