(* ===== verification/Bt_Scheduler_Safety.thy ===== *)
theory Bt_Scheduler_Safety
  imports Bt_Scheduler Bt_Blocks_Exact
begin

text \<open>
  The peer workers of a download run at the same time and share one scheduler. This theory lets any number
  of them act in any order: a step of \<open>scheduler_step\<close> is one call under the scheduler's lock. The
  invariant shows that no piece is lost or worked on by more than two workers, that finishing a claimed job
  never fails, and that a worker waits only while another one holds a job.
\<close>

section \<open>Choices\<close>

lemma choose_position_SomeD:
  assumes "choose_position availability s = Some p"
  shows "p < length (sc_queue s)" and "advertised availability (pj_piece_index (sc_queue s ! p))"
proof -
  let ?c = "filter (\<lambda>i. advertised availability (pj_piece_index (sc_queue s ! i))) [0..<length (sc_queue s)]"
  have "?c \<noteq> []" "p = arg_min_list (\<lambda>i. rarity s (sc_queue s ! i)) ?c"
    using assms by (auto simp: choose_position_def split: list.splits)
  then have "p \<in> set ?c" using arg_min_list_in [of ?c] by blast
  then show "p < length (sc_queue s)" "advertised availability (pj_piece_index (sc_queue s ! p))" by auto
qed

lemma choose_position_None_iff:
  "choose_position availability s = None \<longleftrightarrow> (\<forall>j\<in>set (sc_queue s). \<not> advertised availability (pj_piece_index j))"
proof -
  let ?c = "filter (\<lambda>i. advertised availability (pj_piece_index (sc_queue s ! i))) [0..<length (sc_queue s)]"
  have "choose_position availability s = None \<longleftrightarrow> ?c = []" by (auto simp: choose_position_def split: list.splits)
  then show ?thesis unfolding filter_empty_conv all_set_conv_all_nth by simp
qed

lemma duplicate_piece_SomeD:
  assumes "duplicate_piece availability s = Some i"
  shows "\<exists>a. (i, a) \<in> set (sc_active s) \<and> \<not> aj_completed a \<and> aj_claims a = 1 \<and> advertised availability i"
proof -
  let ?c = "filter (\<lambda>(i, a). \<not> aj_completed a \<and> aj_claims a = 1 \<and> advertised availability i) (sc_active s)"
  have "?c \<noteq> []" "i = fst (arg_min_list (\<lambda>e. unat (fst e)) ?c)"
    using assms by (auto simp: duplicate_piece_def split: list.splits)
  moreover from this have "arg_min_list (\<lambda>e. unat (fst e)) ?c \<in> set ?c" using arg_min_list_in [of ?c] by blast
  ultimately show ?thesis by (cases "arg_min_list (\<lambda>e. unat (fst e)) ?c") auto
qed

section \<open>Workers on one scheduler\<close>

text \<open>
  Beside the scheduler, the jobs its workers hold and the pieces whose verification it has confirmed.
\<close>

record download_run =
  dr_scheduler :: scheduler_state
  dr_held :: "piece_job list"
  dr_verified :: "u32 list"

inductive scheduler_step :: "download_run \<Rightarrow> download_run \<Rightarrow> bool" where
  batch: "begin_peer_batch peer_count n_pieces (dr_scheduler d) = Inr s \<Longrightarrow> scheduler_step d (d\<lparr>dr_scheduler := s\<rparr>)"
| register: "register_peer_availability availability (dr_scheduler d) = Inr s \<Longrightarrow> scheduler_step d (d\<lparr>dr_scheduler := s\<rparr>)"
| claim: "claim_piece_job available (dr_scheduler d) = ClaimJob job s \<Longrightarrow>
    scheduler_step d (d\<lparr>dr_scheduler := s, dr_held := job # dr_held d\<rparr>)"
| finish: "job \<in> set (dr_held d) \<Longrightarrow> finish_piece_job job outcome (dr_scheduler d) = Inr (first, s) \<Longrightarrow>
    scheduler_step d (d\<lparr>dr_scheduler := s, dr_held := remove1 job (dr_held d),
      dr_verified := (if first then pj_piece_index job # dr_verified d else dr_verified d)\<rparr>)"

definition start_run :: "block_request list \<Rightarrow> nat \<Rightarrow> download_run" where
  "start_run requests n_pieces = \<lparr>dr_scheduler = initial_scheduler requests n_pieces, dr_held = [], dr_verified = []\<rparr>"

definition held_of :: "u32 \<Rightarrow> piece_job list \<Rightarrow> nat" where
  "held_of i holding = length (filter (\<lambda>j. pj_piece_index j = i) holding)"

lemma held_of_simps [simp]:
  "held_of i [] = 0" "held_of i (j # js) = (if pj_piece_index j = i then Suc (held_of i js) else held_of i js)"
  by (simp_all add: held_of_def)

lemma held_of_remove1:
  "j \<in> set holding \<Longrightarrow> held_of i holding = (if pj_piece_index j = i then Suc (held_of i (remove1 j holding)) else held_of i (remove1 j holding))"
  by (induction holding) auto

lemma held_of_pos: "j \<in> set holding \<Longrightarrow> 0 < held_of (pj_piece_index j) holding"
  by (induction holding) auto

text \<open>A job asks for what the first job of its piece asked for.\<close>

definition asks_as :: "piece_job list \<Rightarrow> piece_job \<Rightarrow> bool" where
  "asks_as jobs j \<longleftrightarrow> (\<exists>k\<in>set jobs. pj_piece_index k = pj_piece_index j \<and> pj_requests k = pj_requests j)"

definition active_ok :: "piece_job list \<Rightarrow> piece_job list \<Rightarrow> u32 list \<Rightarrow> u32 \<Rightarrow> active_piece_job \<Rightarrow> bool" where
  "active_ok jobs holding verified i a \<longleftrightarrow> pj_piece_index (aj_job a) = i \<and> asks_as jobs (aj_job a) \<and> 1 \<le> aj_claims a
     \<and> aj_claims a \<le> 2 \<and> aj_claims a = held_of i holding \<and> (aj_completed a \<longleftrightarrow> i \<in> set verified)"

definition queue_ok :: "piece_job list \<Rightarrow> piece_job list \<Rightarrow> u32 set \<Rightarrow> u32 list \<Rightarrow> bool" where
  "queue_ok jobs queue active verified \<longleftrightarrow> distinct (map pj_piece_index queue) \<and> (\<forall>j\<in>set queue. asks_as jobs j)
     \<and> pj_piece_index ` set queue \<inter> active = {} \<and> pj_piece_index ` set queue \<inter> set verified = {}
     \<and> pj_piece_index ` set queue \<union> active \<union> set verified = pj_piece_index ` set jobs"

definition run_ok ::
    "piece_job list \<Rightarrow> piece_job list \<Rightarrow> (u32 \<times> active_piece_job) list \<Rightarrow> piece_job list \<Rightarrow> u32 list \<Rightarrow> bool" where
  "run_ok jobs queue active holding verified \<longleftrightarrow>
     distinct (map fst active) \<and> distinct verified \<and> queue_ok jobs queue (dom (map_of active)) verified
    \<and> (\<forall>j\<in>set holding. asks_as jobs j \<and> pj_piece_index j \<in> dom (map_of active))
    \<and> (\<forall>i a. map_of active i = Some a \<longrightarrow> active_ok jobs holding verified i a)"

definition run_inv :: "piece_job list \<Rightarrow> download_run \<Rightarrow> bool" where
  "run_inv jobs d \<longleftrightarrow> run_ok jobs (sc_queue (dr_scheduler d)) (sc_active (dr_scheduler d)) (dr_held d) (dr_verified d)"

lemma run_okD:
  assumes "run_ok jobs queue active holding verified"
  shows "distinct (map fst active)" and "distinct verified" and "queue_ok jobs queue (dom (map_of active)) verified"
    and "\<And>j. j \<in> set holding \<Longrightarrow> asks_as jobs j" and "\<And>j. j \<in> set holding \<Longrightarrow> pj_piece_index j \<in> dom (map_of active)"
    and "\<And>i a. map_of active i = Some a \<Longrightarrow> active_ok jobs holding verified i a"
  using assms unfolding run_ok_def by blast+

lemma run_okI:
  assumes "distinct (map fst active)" and "distinct verified" and "queue_ok jobs queue (dom (map_of active)) verified"
    and "\<And>j. j \<in> set holding \<Longrightarrow> asks_as jobs j" and "\<And>j. j \<in> set holding \<Longrightarrow> pj_piece_index j \<in> dom (map_of active)"
    and "\<And>i a. map_of active i = Some a \<Longrightarrow> active_ok jobs holding verified i a"
  shows "run_ok jobs queue active holding verified"
  using assms unfolding run_ok_def by blast

lemmas run_invD = run_okD [OF iffD1 [OF run_inv_def]]

lemma initial_run_inv:
  assumes "sorted_wrt (\<le>) (map rq_piece_index requests)"
  shows "run_inv (build_piece_jobs requests) (start_run requests n)"
proof -
  have "sorted_wrt (<) (map pj_piece_index (build_piece_jobs requests))"
    using build_piece_jobs_ok [OF assms] by (simp add: jobs_ok_def sorted_wrt_map)
  then have "distinct (map pj_piece_index (build_piece_jobs requests))" by (simp add: strict_sorted_iff)
  then show ?thesis by (auto simp: run_inv_def run_ok_def queue_ok_def start_run_def initial_scheduler_def asks_as_def)
qed

section \<open>Every step keeps the invariant\<close>

lemma run_inv_frame:
  "run_inv jobs d \<Longrightarrow> sc_queue s = sc_queue (dr_scheduler d) \<Longrightarrow> sc_active s = sc_active (dr_scheduler d) \<Longrightarrow>
    run_inv jobs (d\<lparr>dr_scheduler := s\<rparr>)"
  by (simp add: run_inv_def)

lemma batch_inv:
  "run_inv jobs d \<Longrightarrow> begin_peer_batch k n (dr_scheduler d) = Inr s \<Longrightarrow> run_inv jobs (d\<lparr>dr_scheduler := s\<rparr>)"
  by (erule run_inv_frame) (auto simp: begin_peer_batch_def)

lemma register_inv:
  "run_inv jobs d \<Longrightarrow> register_peer_availability av (dr_scheduler d) = Inr s \<Longrightarrow> run_inv jobs (d\<lparr>dr_scheduler := s\<rparr>)"
  by (erule run_inv_frame) (auto simp: register_peer_availability_def)

lemma claim_cases:
  assumes "claim_piece_job av s = ClaimJob job s'" and "distinct (map fst (sc_active s))"
  obtains (queued) before j after where "sc_queue s = before @ j # after" "advertised av (pj_piece_index j)"
      "job = j\<lparr>pj_endgame_duplicate := False\<rparr>"
      "s' = s\<lparr>sc_queue := before @ after,
         sc_active := AList.update (pj_piece_index j) \<lparr>aj_job = job, aj_claims = 1, aj_completed = False\<rparr> (sc_active s)\<rparr>"
  | (duplicate) i a where "map_of (sc_active s) i = Some a" "\<not> aj_completed a" "aj_claims a = 1" "advertised av i"
      "job = (aj_job a)\<lparr>pj_endgame_duplicate := True\<rparr>"
      "s' = s\<lparr>sc_active := AList.update i (a\<lparr>aj_claims := Suc 1\<rparr>) (sc_active s),
         sc_endgame_duplicate_pieces := sc_endgame_duplicate_pieces s + 1\<rparr>"
proof (cases "choose_position av s")
  case (Some p)
  note p = choose_position_SomeD [OF Some]
  show ?thesis
  proof (rule queued [of "take p (sc_queue s)" "sc_queue s ! p" "drop (Suc p) (sc_queue s)"])
    show "sc_queue s = take p (sc_queue s) @ sc_queue s ! p # drop (Suc p) (sc_queue s)" by (rule id_take_nth_drop [OF p(1)])
  qed (use Some p assms(1) in \<open>auto simp: claim_piece_job_def Let_def\<close>)
next
  case None
  with assms obtain i where i: "duplicate_piece av s = Some i"
    by (auto simp: claim_piece_job_def Let_def split: option.splits if_splits)
  from duplicate_piece_SomeD [OF this] obtain a where
    a: "(i, a) \<in> set (sc_active s)" "\<not> aj_completed a" "aj_claims a = 1" "advertised av i" by blast
  then have m: "map_of (sc_active s) i = Some a" using assms(2) by simp
  show ?thesis by (rule duplicate [OF m a(2-4)]) (use None assms(1) i m a(3) in \<open>auto simp: claim_piece_job_def Let_def\<close>)
qed

lemma not_active_not_held:
  assumes "run_inv jobs d" and "map_of (sc_active (dr_scheduler d)) i = None"
  shows "held_of i (dr_held d) = 0"
proof (rule ccontr)
  assume "held_of i (dr_held d) \<noteq> 0"
  then obtain k where "k \<in> set (dr_held d)" "pj_piece_index k = i" by (auto simp: held_of_def filter_empty_conv)
  with run_invD(5) [OF assms(1)] assms(2) show False by force
qed

lemma active_ok_claim:
  "active_ok jobs holding verified i a \<Longrightarrow> pj_piece_index job \<noteq> i \<Longrightarrow> active_ok jobs (job # holding) verified i a"
  by (simp add: active_ok_def)

lemma claim_ok:
  assumes inv: "run_inv jobs d" and claim: "claim_piece_job av (dr_scheduler d) = ClaimJob job s"
  shows "run_ok jobs (sc_queue s) (sc_active s) (job # dr_held d) (dr_verified d)"
  using claim run_invD(1) [OF inv]
proof (cases rule: claim_cases)
  case (queued before j after)
  note q = run_invD(3) [OF inv, unfolded queue_ok_def queued(1)]
  have asks: "asks_as jobs job" using q queued(3) by (simp add: asks_as_def)
  have fresh: "map_of (sc_active (dr_scheduler d)) (pj_piece_index j) = None" "pj_piece_index j \<notin> set (dr_verified d)"
    using q by auto
  show ?thesis
  proof (rule run_okI)
    show "queue_ok jobs (sc_queue s) (dom (map_of (sc_active s))) (dr_verified d)"
      using q queued(4) unfolding queue_ok_def by (auto simp: update_conv')
    show "active_ok jobs (job # dr_held d) (dr_verified d) i a" if "map_of (sc_active s) i = Some a" for i a
    proof (cases "i = pj_piece_index j")
      case True
      with that queued asks fresh not_active_not_held [OF inv fresh(1)] show ?thesis
        by (auto simp: update_conv' active_ok_def)
    next
      case False
      with that queued(3,4) run_invD(6) [OF inv, of i a] show ?thesis by (auto simp: update_conv' intro: active_ok_claim)
    qed
  qed (use queued(3,4) asks run_invD [OF inv] in \<open>auto simp: update_conv' distinct_update\<close>)
next
  case (duplicate i a)
  note a = run_invD(6) [OF inv duplicate(1)]
  show ?thesis
  proof (rule run_okI)
    show "queue_ok jobs (sc_queue s) (dom (map_of (sc_active s))) (dr_verified d)"
      using run_invD(3) [OF inv] duplicate(1,6) by (simp add: update_conv' insert_absorb domI)
    show "active_ok jobs (job # dr_held d) (dr_verified d) k b" if "map_of (sc_active s) k = Some b" for k b
    proof (cases "k = i")
      case True
      with that duplicate a show ?thesis by (auto simp: update_conv' active_ok_def)
    next
      case False
      with that duplicate(5,6) a run_invD(6) [OF inv, of k b] show ?thesis
        by (auto simp: update_conv' active_ok_def)
    qed
  qed (use duplicate a run_invD [OF inv] in \<open>auto simp: update_conv' distinct_update active_ok_def asks_as_def\<close>)
qed

lemma claim_inv:
  "run_inv jobs d \<Longrightarrow> claim_piece_job av (dr_scheduler d) = ClaimJob job s \<Longrightarrow>
    run_inv jobs (d\<lparr>dr_scheduler := s, dr_held := job # dr_held d\<rparr>)"
  using claim_ok [of jobs d av job s] by (simp add: run_inv_def)

definition retried :: "piece_job \<Rightarrow> piece_job" where
  "retried job = job\<lparr>pj_attempt := saturating_add (pj_attempt job) 1, pj_endgame_duplicate := False\<rparr>"

lemma finish_cases:
  assumes a: "map_of (sc_active s) (pj_piece_index job) = Some a" and pos: "0 < aj_claims a"
  shows "\<exists>s'. finish_piece_job job outcome s = Inr (outcome = Success \<and> \<not> aj_completed a, s')
    \<and> sc_active s' = (if aj_claims a = 1 then AList.delete (pj_piece_index job) (sc_active s)
       else AList.update (pj_piece_index job)
         (a\<lparr>aj_claims := aj_claims a - 1, aj_completed := aj_completed a \<or> outcome = Success\<rparr>) (sc_active s))
    \<and> sc_queue s' = (if aj_claims a = 1 \<and> \<not> aj_completed a \<and> outcome \<noteq> Success then sc_queue s @ [retried job] else sc_queue s)"
proof (cases "aj_claims a = 1")
  case True
  with a show ?thesis by (cases "aj_completed a"; cases outcome) (simp_all add: finish_piece_job_def ok_or_def Let_def retried_def)
next
  case False
  with pos have "\<not> aj_claims a - 1 = 0" by simp
  with a pos False show ?thesis
    by (cases "aj_completed a"; cases outcome) (simp_all add: finish_piece_job_def ok_or_def Let_def retried_def)
qed

text \<open>A worker that holds a job can always hand it in.\<close>

lemma finish_succeeds:
  assumes inv: "run_inv jobs d" and "job \<in> set (dr_held d)"
  shows "\<exists>first s. finish_piece_job job outcome (dr_scheduler d) = Inr (first, s)"
proof -
  obtain a where a: "map_of (sc_active (dr_scheduler d)) (pj_piece_index job) = Some a" using run_invD(5) [OF assms] by blast
  then have "0 < aj_claims a" using run_invD(6) [OF inv] by (force simp: active_ok_def)
  from finish_cases [OF a this] show ?thesis by blast
qed

lemma queue_ok_verify: "queue_ok jobs q A v \<Longrightarrow> i \<in> A \<Longrightarrow> queue_ok jobs q A (i # v)"
  unfolding queue_ok_def by auto

lemma queue_ok_close: "queue_ok jobs q A v \<Longrightarrow> i \<in> set v \<Longrightarrow> queue_ok jobs q (A - {i}) v"
  unfolding queue_ok_def by blast

lemma queue_ok_retry:
  "queue_ok jobs q A v \<Longrightarrow> i \<in> A \<Longrightarrow> i \<notin> set v \<Longrightarrow> pj_piece_index r = i \<Longrightarrow> asks_as jobs r \<Longrightarrow> queue_ok jobs (q @ [r]) (A - {i}) v"
  unfolding queue_ok_def by auto

lemma finish_ok:
  assumes inv: "run_inv jobs d" and job: "job \<in> set (dr_held d)"
    and fin: "finish_piece_job job outcome (dr_scheduler d) = Inr (first, s)"
  shows "run_ok jobs (sc_queue s) (sc_active s) (remove1 job (dr_held d))
    (if first then pj_piece_index job # dr_verified d else dr_verified d)" (is "run_ok _ _ _ ?h ?v")
proof -
  let ?i = "pj_piece_index job" and ?s = "dr_scheduler d"
  obtain a where a: "map_of (sc_active ?s) ?i = Some a" using run_invD(5) [OF inv job] by blast
  note ok = run_invD(6) [OF inv a, unfolded active_ok_def]
  have pos: "0 < aj_claims a" using ok by linarith
  from finish_cases [OF a pos, of outcome] fin
  have first: "first = (outcome = Success \<and> \<not> aj_completed a)"
    and act: "sc_active s = (if aj_claims a = 1 then AList.delete ?i (sc_active ?s)
       else AList.update ?i (a\<lparr>aj_claims := aj_claims a - 1, aj_completed := aj_completed a \<or> outcome = Success\<rparr>) (sc_active ?s))"
    and que: "sc_queue s = (if aj_claims a = 1 \<and> \<not> aj_completed a \<and> outcome \<noteq> Success then sc_queue ?s @ [retried job] else sc_queue ?s)"
    by auto
  have retried: "pj_piece_index (retried job) = ?i" "asks_as jobs (retried job)"
    using run_invD(4) [OF inv job] by (simp_all add: retried_def asks_as_def)
  have verified: "?i \<in> set ?v \<longleftrightarrow> aj_completed a \<or> outcome = Success" "k \<noteq> ?i \<Longrightarrow> k \<in> set ?v \<longleftrightarrow> k \<in> set (dr_verified d)" for k
    using ok first by auto
  note count = held_of_remove1 [OF job]
  have dom: "dom (map_of (sc_active s)) = (if aj_claims a = 1 then dom (map_of (sc_active ?s)) - {?i} else dom (map_of (sc_active ?s)))"
    using a by (auto simp: act update_conv' delete_conv' domI)
  note q = run_invD(3) [OF inv]
  have i: "?i \<in> dom (map_of (sc_active ?s))" using a by blast
  show ?thesis
  proof (rule run_okI)
    show "queue_ok jobs (sc_queue s) (dom (map_of (sc_active s))) ?v"
    proof (cases "aj_claims a = 1 \<and> \<not> aj_completed a \<and> outcome \<noteq> Success")
      case True
      with queue_ok_retry [OF q i _ retried] ok first dom que show ?thesis by simp
    next
      case False
      have "queue_ok jobs (sc_queue ?s) (dom (map_of (sc_active ?s))) ?v" using queue_ok_verify [OF q i] q by simp
      moreover have "queue_ok jobs (sc_queue ?s) (dom (map_of (sc_active ?s)) - {?i}) ?v" if "aj_claims a = 1"
        by (rule queue_ok_close [OF \<open>queue_ok _ _ _ ?v\<close>]) (use False verified(1) that in blast)
      moreover have "sc_queue s = sc_queue ?s" using False que by argo
      ultimately show ?thesis unfolding dom by presburger
    qed
    show "pj_piece_index j \<in> dom (map_of (sc_active s))" if "j \<in> set ?h" for j
    proof (cases "pj_piece_index j = ?i")
      case True
      then have "aj_claims a \<noteq> 1" using held_of_pos [OF that] count [of ?i] ok by simp
      with True a show ?thesis by (auto simp: dom)
    next
      case False
      with run_invD(5) [OF inv] that show ?thesis by (auto simp: dom dest: notin_set_remove1)
    qed
    show "active_ok jobs ?h ?v k b" if k: "map_of (sc_active s) k = Some b" for k b
    proof (cases "k = ?i")
      case True
      with k ok verified(1) count [of ?i] show ?thesis
        by (auto simp: act update_conv' delete_conv' active_ok_def split: if_splits)
    next
      case False
      then have "map_of (sc_active ?s) k = Some b" using k by (auto simp: act update_conv' delete_conv' split: if_splits)
      from run_invD(6) [OF inv this] False verified(2) [OF False] count [of k] show ?thesis by (simp add: active_ok_def)
    qed
  qed (use run_invD [OF inv] ok first in \<open>auto simp: act distinct_update distinct_delete dest: notin_set_remove1\<close>)
qed

inductive_cases scheduler_stepE: "scheduler_step d d'"

lemma scheduler_step_inv: "scheduler_step d d' \<Longrightarrow> run_inv jobs d \<Longrightarrow> run_inv jobs d'"
proof (induction rule: scheduler_step.induct)
  case (finish job d outcome first s)
  from finish_ok [OF finish(3,1,2)] show ?case by (simp add: run_inv_def)
qed (simp_all add: batch_inv register_inv claim_inv)

lemma scheduler_run_inv:
  assumes "scheduler_step\<^sup>*\<^sup>* (start_run requests n) d" and "sorted_wrt (\<le>) (map rq_piece_index requests)"
  shows "run_inv (build_piece_jobs requests) d"
  using assms(1) by (induction rule: rtranclp_induct) (use initial_run_inv [OF assms(2)] scheduler_step_inv in blast)+

end
