(* ===== verification/Bt_Receive_Safety.thy ===== *)
theory Bt_Receive_Safety
  imports Bt_Receive Bt_Blocks_Exact
begin

text \<open>
  What a worker accepts of a peer it does not trust: a piece is verified only when its SHA-1 is the one of
  the torrent, and nothing but the blocks asked for is taken from the peer.
\<close>

section \<open>Only the blocks asked for\<close>

text \<open>
  What the loop keeps: the requests are those of the job, and outside of them the bytes are the local ones.
\<close>

definition in_request :: "u64 \<Rightarrow> nat \<Rightarrow> block_request \<Rightarrow> bool" where
  "in_request piece_offset k r \<longleftrightarrow> unat piece_offset + k \<in> block_bytes r"

definition transfer_ok ::
    "block_request list \<Rightarrow> u64 \<Rightarrow> bytes \<Rightarrow> block_request list \<Rightarrow> inflight \<Rightarrow> bytes \<Rightarrow> bool" where
  "transfer_ok requests piece_offset orig pending inflight piece_bytes \<longleftrightarrow>
     set pending \<subseteq> set requests \<and> snd ` set inflight \<subseteq> set requests \<and> length piece_bytes = length orig
     \<and> (\<forall>k<length orig. (\<forall>r\<in>set requests. \<not> in_request piece_offset k r) \<longrightarrow> piece_bytes ! k = orig ! k)"

lemma fill_window_step:
  assumes "fill_window (r # pending) inflight S = (Inr (p, i), T)"
  obtains (stop) "p = r # pending" "i = inflight" "T = S" "\<not> (\<not> ps_choked S \<and> length inflight < MAX_INFLIGHT_REQUESTS)"
  | (send) u U where "send_message MESSAGE_REQUEST (request_payload r) S = (Inr u, U)"
      "map_of inflight (rq_piece_index r, rq_begin r) = None" "\<not> ps_choked S" "length inflight < MAX_INFLIGHT_REQUESTS"
      "fill_window pending (((rq_piece_index r, rq_begin r), r) # inflight)
        (U\<lparr>ps_block_requests_sent := ps_block_requests_sent U + 1\<rparr>) = (Inr (p, i), T)"
proof (cases "\<not> ps_choked S \<and> length inflight < MAX_INFLIGHT_REQUESTS")
  case True
  with assms show thesis by (auto simp: then_do_eq_Inr Let_def split: if_splits intro: send)
next
  case False
  with assms show thesis by (auto intro: stop)
qed

lemma transfer_ok_fill:
  "fill_window pending inflight S = (Inr (p, i), T) \<Longrightarrow> transfer_ok rs off orig pending inflight pb \<Longrightarrow> transfer_ok rs off orig p i pb"
proof (induction pending arbitrary: inflight S)
  case (Cons r pending)
  from Cons.prems(1) show ?case
  proof (cases rule: fill_window_step)
    case (send u U)
    from Cons.IH [OF send(5)] Cons.prems(2) show ?thesis by (simp add: transfer_ok_def)
  qed (use Cons.prems(2) in simp)
qed simp

abbreviation block_key :: "bytes \<Rightarrow> u32 \<times> u32" where
  "block_key payload \<equiv> (word_of_nat (be_nat (take 4 payload)), word_of_nat (be_nat (take 4 (drop 4 payload))))"

lemma accept_block_Inr:
  assumes "accept_block off len payload inflight pb S = (Inr (i, pb'), T)"
  obtains r relative where "map_of inflight (block_key payload) = Some r"
    and "length (drop 8 payload) = unat (rq_length r)" and "unat (rq_absolute_offset r) = unat off + relative"
    and "relative + unat (rq_length r) \<le> unat len" and "pb' = copy_into pb relative (drop 8 payload)"
    and "i = AList.delete (block_key payload) inflight" and "8 \<le> length payload"
    and "T = S\<lparr>ps_payload_bytes_received := ps_payload_bytes_received S + word_of_nat (length (drop 8 payload))\<rparr>"
proof -
  from assms(1) obtain r e where r: "map_of inflight (block_key payload) = Some r"
    and l: "8 \<le> length payload" "length (drop 8 payload) = unat (rq_length r)" and o: "\<not> rq_absolute_offset r < off"
    and e: "checked_add (rq_absolute_offset r - off) (ucast (rq_length r)) = Some e" "\<not> len < e"
    and res: "i = AList.delete (block_key payload) inflight"
      "pb' = copy_into pb (unat (rq_absolute_offset r - off)) (drop 8 payload)"
      "T = S\<lparr>ps_payload_bytes_received := ps_payload_bytes_received S + word_of_nat (length (drop 8 payload))\<rparr>"
    by (auto simp: accept_block_def Let_def split: if_splits option.splits)
  have sub: "unat (rq_absolute_offset r) = unat off + unat (rq_absolute_offset r - off)"
    using o by (simp add: unat_sub not_less word_le_nat_alt)
  have "unat e = unat (rq_absolute_offset r - off) + unat (rq_length r)"
    using e(1) by (simp add: checked_add_Some)
  then have "unat (rq_absolute_offset r - off) + unat (rq_length r) \<le> unat len"
    using e(2) by (simp add: not_less word_le_nat_alt)
  from that [OF r l(2) sub this res(2,1) l(1) res(3)] show ?thesis .
qed

lemma transfer_ok_accept:
  assumes "accept_block off len payload inflight pb S = (Inr (i, pb'), T)" and "transfer_ok rs off orig pending inflight pb"
    and "length orig = unat len"
  shows "transfer_ok rs off orig pending i pb'"
  using assms(1)
proof (cases rule: accept_block_Inr)
  case (1 r relative)
  have r: "r \<in> set rs" using 1(1) assms(2) by (force simp: transfer_ok_def dest: map_of_SomeD)
  have fits: "relative + length (drop 8 payload) \<le> length pb" using 1(2,4) assms(2,3) by (simp add: transfer_ok_def)
  have "pb' ! k = orig ! k" if "k < length orig" "\<forall>r\<in>set rs. \<not> in_request off k r" for k
  proof -
    have "\<not> (relative \<le> k \<and> k < relative + length (drop 8 payload))"
      using that(2) r 1(2,3) by (auto simp: in_request_def block_bytes_def)
    then have "pb' ! k = pb ! k" unfolding 1(5) using nth_copy_into [OF fits, of k] that(1) assms(2) by (auto simp: transfer_ok_def)
    with that assms(2) show ?thesis by (simp add: transfer_ok_def)
  qed
  moreover have "set i \<subseteq> set inflight" using 1(6) by (auto simp: AList.delete_eq)
  then have "snd ` set i \<subseteq> set rs" using assms(2) by (auto simp: transfer_ok_def)
  ultimately show ?thesis using assms(2) length_copy_into [OF fits] 1(5) by (auto simp: transfer_ok_def)
qed

text \<open>One round of the loop, seen from a result that is a piece.\<close>

lemma receive_blocks_Some:
  assumes "receive_blocks off len completed k pending inflight pb S = (Inr (Some bs), U)"
  obtains (finished) "pending = []" "inflight = []" "bs = pb"
  | (round) T1 T2 p i i' pb' S' where "fill_window pending inflight T1 = (Inr (p, i), T2)"
      "i' = i \<and> pb' = pb \<or> (\<exists>payload V W. accept_block off len payload i pb V = (Inr (i', pb'), W))"
      "length (ps_in S') < length (ps_in S)" "receive_blocks off len completed (k + 1) p i' pb' S' = (Inr (Some bs), U)"
proof (cases "pending = [] \<and> inflight = []")
  case True
  with assms show thesis by (subst (asm) receive_blocks.simps) (auto intro: finished)
next
  case False
  with assms have nc: "\<not> completed k" by (subst (asm) receive_blocks.simps) (auto simp: then_do_eq_Inr pass_def split: if_splits)
  with assms False obtain u T1 p i T2 where T1: "ready_to_request inflight S = (Inr u, T1)"
    and T2: "fill_window pending inflight T1 = (Inr (p, i), T2)"
    and rest: "(if i = [] then receive_blocks off len completed (k + 1) p i pb T2
        else then_do read_message (\<lambda>m S. case m of
            None \<Rightarrow> receive_blocks off len completed (k + 1) p i pb S
          | Some (message_id, payload) \<Rightarrow>
              if message_id = MESSAGE_PIECE then
                then_do (accept_block off len payload i pb) (\<lambda>taken S. case taken of (inflight, piece_bytes) \<Rightarrow>
                receive_blocks off len completed (k + 1) p inflight piece_bytes S) S
              else then_do (control_message message_id payload True) (\<lambda>_ S.
                if ps_choked S then (Inl (Bail ''peer choked while pipelined block requests were outstanding''), S)
                else receive_blocks off len completed (k + 1) p i pb S) S) T2) = (Inr (Some bs), U)"
    by (subst (asm) receive_blocks.simps) (auto simp: then_do_eq_Inr split: prod.splits)
  have i: "i \<noteq> []" using fill_window_Inr [OF T2] ready_to_request_Inr [OF T1] False by auto
  with rest obtain m T3 where T3: "read_message T2 = (Inr m, T3)"
    and rest: "(case m of None \<Rightarrow> receive_blocks off len completed (k + 1) p i pb T3
          | Some (message_id, payload) \<Rightarrow>
              if message_id = MESSAGE_PIECE then
                then_do (accept_block off len payload i pb) (\<lambda>taken S. case taken of (inflight, piece_bytes) \<Rightarrow>
                receive_blocks off len completed (k + 1) p inflight piece_bytes S) T3
              else then_do (control_message message_id payload True) (\<lambda>_ S.
                if ps_choked S then (Inl (Bail ''peer choked while pipelined block requests were outstanding''), S)
                else receive_blocks off len completed (k + 1) p i pb S) T3) = (Inr (Some bs), U)"
    by (auto simp: then_do_eq_Inr)
  have less: "length (ps_in T3) < length (ps_in S)"
    using read_message_shrinks [OF T3] fill_window_Inr [OF T2] ready_to_request_Inr [OF T1] by simp
  show thesis
  proof (cases m)
    case None
    with rest less show thesis by (intro round [OF T2, of i pb T3]) auto
  next
    case (Some mp)
    obtain mid payload where mp: "mp = (mid, payload)" by (cases mp)
    show thesis
    proof (cases "mid = MESSAGE_PIECE")
      case True
      with rest Some mp obtain i' pb' T4 where "accept_block off len payload i pb T3 = (Inr (i', pb'), T4)"
        "receive_blocks off len completed (k + 1) p i' pb' T4 = (Inr (Some bs), U)"
        by (auto simp: then_do_eq_Inr)
      with T2 less accept_block_in show thesis by (intro round [OF T2, of i' pb' T4]) auto
    next
      case False
      with rest Some mp obtain x T4 where T4: "control_message mid payload True T3 = (Inr x, T4)"
        "receive_blocks off len completed (k + 1) p i pb T4 = (Inr (Some bs), U)"
        by (auto simp: then_do_eq_Inr split: if_splits)
      with T2 less control_message_shrinks [OF T4(1)] show thesis by (intro round [OF T2, of i pb T4]) auto
    qed
  qed
qed

lemma receive_blocks_ok:
  "receive_blocks off len completed k pending inflight pb S = (Inr (Some bs), U) \<Longrightarrow>
    transfer_ok rs off orig pending inflight pb \<Longrightarrow> length orig = unat len \<Longrightarrow> transfer_ok rs off orig [] [] bs"
proof (induction "length (ps_in S)" arbitrary: k pending inflight pb S rule: less_induct)
  case less
  from less.prems(1) show ?case
  proof (cases rule: receive_blocks_Some)
    case finished
    with less.prems(2) show ?thesis by simp
  next
    case (round T1 T2 p i i' pb' S')
    have "transfer_ok rs off orig p i pb" using transfer_ok_fill [OF round(1) less.prems(2)] .
    then have "transfer_ok rs off orig p i' pb'" using round(2) transfer_ok_accept [OF _ _ less.prems(3)] by blast
    from less.hyps [OF round(3,4) this less.prems(3)] show ?thesis .
  qed
qed

section \<open>Verified pieces\<close>

text \<open>The bytes of piece \<open>i\<close> of a file.\<close>

definition file_piece :: "torrent_v1 \<Rightarrow> bytes \<Rightarrow> nat \<Rightarrow> bytes" where
  "file_piece t content i = take (piece_bound t (Suc i) - piece_bound t i) (drop (piece_bound t i) content)"

lemma torrent_piece_length_eq:
  assumes "0 < tv_piece_length t" and "i < piece_count t"
  shows "\<exists>len. torrent_piece_length t i = Inr len \<and> unat len = piece_bound t (Suc i) - piece_bound t i"
proof -
  obtain po where po: "checked_mul (word_of_nat i) (tv_piece_length t) = Some po" "unat po = piece_bound t i"
    using checked_piece_offset [OF assms] by blast
  have "unat (saturating_sub (tv_total_length t) po) = unat (tv_total_length t) - piece_bound t i"
    by (simp add: unat_saturating_sub po(2))
  moreover have "piece_bound t (Suc i) = min (piece_bound t i + unat (tv_piece_length t)) (unat (tv_total_length t))"
    unfolding piece_bounds(1) [OF assms] by (simp add: piece_bound_def add.commute)
  moreover have "piece_bound t i < piece_bound t (Suc i)" using piece_bounds(2) [OF assms] .
  ultimately have "unat (min (tv_piece_length t) (saturating_sub (tv_total_length t) po)) = piece_bound t (Suc i) - piece_bound t i"
    unfolding unat_min by linarith
  with po(1) show ?thesis by (simp add: torrent_piece_length_def ok_or_def)
qed

lemma receive_piece_job_verified:
  assumes "receive_piece_job X t job content completed S = (Inr (PieceVerified bs), U)"
  obtains offset len where "checked_mul (ucast (pj_piece_index job)) (tv_piece_length t) = Some offset"
    and "torrent_piece_length t (unat (pj_piece_index job)) = Inr len" and "length bs = unat len"
    and "sha1_hex X bs = tv_piece_sha1 t ! unat (pj_piece_index job)" and "unat offset + unat len \<le> length content \<or> len = 0"
    and "\<And>k. k < length bs \<Longrightarrow> (\<And>r. r \<in> set (pj_requests job) \<Longrightarrow> unat offset + k \<notin> block_bytes r) \<Longrightarrow>
           bs ! k = content ! (unat offset + k)"
    and "unat (pj_piece_index job) < length (ps_availability S)"
proof -
  from assms obtain offset len orig T
    where o: "checked_mul (ucast (pj_piece_index job)) (tv_piece_length t) = Some offset"
      and l: "torrent_piece_length t (unat (pj_piece_index job)) = Inr len" and r: "read_at content offset len = Inr orig"
      and b: "receive_blocks offset len completed 0 (pj_requests job) [] orig S = (Inr (Some bs), T)"
      and h: "sha1_hex X bs = tv_piece_sha1 t ! unat (pj_piece_index job)"
      and a: "advertised (ps_availability S) (pj_piece_index job)"
    by (auto simp: receive_piece_job_def then_do_eq_Inr pass_def ok_or_def split: if_splits option.splits)
  have orig: "orig = take (unat len) (drop (unat offset) content)" "length orig = unat len"
    using r by (auto simp: read_at_def Let_def split: if_splits)
  have "transfer_ok (pj_requests job) offset orig (pj_requests job) [] orig" by (simp add: transfer_ok_def)
  from receive_blocks_ok [OF b this orig(2)] have ok: "transfer_ok (pj_requests job) offset orig [] [] bs" .
  show ?thesis
  proof (rule that [OF o l _ h])
    show "length bs = unat len" using ok orig by (simp add: transfer_ok_def)
    show "unat offset + unat len \<le> length content \<or> len = 0" 
      using orig unat_gt_0 [of len] by (cases "len = 0"; simp add: min_def split: if_splits)
    show "unat (pj_piece_index job) < length (ps_availability S)" using a by (simp add: advertised_def)
    show "bs ! k = content ! (unat offset + k)"
      if "k < length bs" "\<And>r. r \<in> set (pj_requests job) \<Longrightarrow> unat offset + k \<notin> block_bytes r" for k
    proof -
      have k: "k < length orig" using ok that(1) by (simp add: transfer_ok_def)
      then have "bs ! k = orig ! k" using ok that(2) by (simp add: transfer_ok_def in_request_def)
      also have "\<dots> = content ! (unat offset + k)" using k unfolding orig(1) by (simp add: less_diff_conv)
      finally show ?thesis .
    qed
  qed
qed

end
