(* ===== verification/Bt_Download_Safety.thy ===== *)
theory Bt_Download_Safety
  imports Bt_Download Bt_Scheduler_Safety Bt_Receive_Safety
begin

text \<open>
  The workers of a download on the shared files. A step of \<open>download_step\<close> is what one worker of
  \<open>run_peer_worker\<close> does under one of the locks: it registers, claims, commits a verified piece to the partial
  file, hands a job in. The invariant: a piece that was committed, or that the resume state calls complete,
  has the SHA-1 of the torrent, whatever the peers send; the other pieces are as before the run.
\<close>

section \<open>Pieces of a file\<close>

definition piece_valid :: "bt_ext \<Rightarrow> torrent_v1 \<Rightarrow> bytes \<Rightarrow> nat \<Rightarrow> bool" where
  "piece_valid X t content i \<longleftrightarrow> sha1_hex X (file_piece t content i) = tv_piece_sha1 t ! i"

lemma ucast_index: "(ucast (w :: u32) :: u64) = word_of_nat (unat w)"
  by (simp add: word_unat_eq_iff unat_of_nat_u64 less_trans [OF unat_u32_bound])

lemma piece_place:
  assumes "0 < tv_piece_length t" and "i < piece_count t"
  obtains off len where "checked_mul (word_of_nat i) (tv_piece_length t) = Some off" and "unat off = piece_bound t i"
    and "torrent_piece_length t i = Inr len" and "unat len = piece_bound t (Suc i) - piece_bound t i"
    and "piece_bound t i < piece_bound t (Suc i)" and "piece_bound t (Suc i) \<le> unat (tv_total_length t)"
  using checked_piece_offset [OF assms] torrent_piece_length_eq [OF assms] piece_bounds(2) [OF assms] piece_bound_total [of t "Suc i"]
  by blast

lemma piece_matches_eq:
  assumes "0 < tv_piece_length t" and "i < piece_count t" and "length content = unat (tv_total_length t)"
  shows "piece_matches X content t i = Inr (piece_valid X t content i)"
proof (rule piece_place [OF assms(1,2)])
  fix off len
  assume p: "checked_mul (word_of_nat i) (tv_piece_length t) = Some off" "unat off = piece_bound t i"
    "torrent_piece_length t i = Inr len" "unat len = piece_bound t (Suc i) - piece_bound t i"
    "piece_bound t i < piece_bound t (Suc i)" "piece_bound t (Suc i) \<le> unat (tv_total_length t)"
  then have "read_at content off len = Inr (file_piece t content i)"
    using assms(3) by (simp add: read_at_def Let_def file_piece_def)
  with p(1,3) show ?thesis by (simp add: piece_matches_def ok_or_def piece_valid_def)
qed

lemma verify_all_pieces_iff:
  assumes "torrent_shape t" and "length content = unat (tv_total_length t)"
  shows "verify_all_pieces X content t = Inr () \<longleftrightarrow> (\<forall>i<piece_count t. piece_valid X t content i)"
proof -
  have pl: "0 < tv_piece_length t" and n: "length (tv_piece_sha1 t) = piece_count t"
    using assms(1) by (auto simp: torrent_shape_def piece_count_def)
  have "try_fold (\<lambda>_. verify_piece X content t) () is = Inr () \<longleftrightarrow> (\<forall>i\<in>set is. piece_valid X t content i)"
    if "set is \<subseteq> {..<piece_count t}" for "is"
    using that by (induction "is") (auto simp: verify_piece_def piece_matches_eq [OF pl _ assms(2)])
  moreover have "set [0..<piece_count t] \<subseteq> {..<piece_count t}" by auto
  ultimately have "try_fold (\<lambda>_. verify_piece X content t) () [0..<piece_count t] = Inr ()
      \<longleftrightarrow> (\<forall>i\<in>set [0..<piece_count t]. piece_valid X t content i)" by blast
  then show ?thesis by (auto simp: verify_all_pieces_def n)
qed

lemma commit_piece:
  assumes "0 < tv_piece_length t" and "unat w < piece_count t" and "length content = unat (tv_total_length t)"
    and "commit_verified_piece t content w bs = Inr content'"
  shows "length content' = length content" and "file_piece t content' (unat w) = bs"
    and "j \<noteq> unat w \<Longrightarrow> file_piece t content' j = file_piece t content j"
proof -
  let ?i = "unat w" and ?a = "piece_bound t (unat w)" and ?b = "piece_bound t (Suc (unat w))"
  obtain off len where p: "checked_mul (word_of_nat ?i) (tv_piece_length t) = Some off" "unat off = ?a"
    "torrent_piece_length t ?i = Inr len" "unat len = ?b - ?a" "?a < ?b" "?b \<le> unat (tv_total_length t)"
    by (rule piece_place [OF assms(1,2)])
  have c: "length bs = ?b - ?a" "content' = write_at content ?a bs"
    using assms(4) p by (auto simp: commit_verified_piece_def ucast_index ok_or_def)
  have fits: "?a + length bs \<le> length content" using p c assms(3) by simp
  show l: "length content' = length content" using length_write_at [OF fits] c(2) by simp
  have nth: "content' ! k = (if ?a \<le> k \<and> k < ?b then bs ! (k - ?a) else content ! k)" if "k < length content" for k
    using nth_write_at [OF fits, of k] that c p(5) by auto
  show "file_piece t content' ?i = bs"
    using p(5,6) c(1) l assms(3) by (intro nth_equalityI) (auto simp: file_piece_def nth)
  show "file_piece t content' j = file_piece t content j" if "j \<noteq> ?i"
  proof (rule nth_equalityI)
    show "length (file_piece t content' j) = length (file_piece t content j)" by (simp add: file_piece_def l)
    fix k assume k: "k < length (file_piece t content' j)"
    then have kk: "piece_bound t j + k < piece_bound t (Suc j)" "piece_bound t j + k < length content"
      by (simp_all add: file_piece_def l less_diff_conv add.commute)
    have "\<not> (?a \<le> piece_bound t j + k \<and> piece_bound t j + k < ?b)"
      using that kk(1) monoD [OF piece_bound_mono, of "Suc j" ?i t] monoD [OF piece_bound_mono, of "Suc ?i" j t]
      by (cases "j < ?i") linarith+
    with nth [OF kk(2)] have "content' ! (piece_bound t j + k) = content ! (piece_bound t j + k)" by auto
    then show "file_piece t content' j ! k = file_piece t content j ! k"
      using k kk by (simp add: file_piece_def l)
  qed
qed

section \<open>Workers\<close>

text \<open>
  The scheduler with the jobs held, the partial file, the resume state of the run, and the pieces that
  have been committed to the file.
\<close>

record download =
  dl_run :: download_run
  dl_content :: bytes
  dl_completed :: "bool list"
  dl_committed :: "u32 list"

text \<open>
  A commit happens under the commit lock and only when the piece is not completed yet. The bytes are what
  \<open>receive_piece_job\<close> has verified in some session, on some earlier content of the file. When saving the
  resume state fails its mark is taken back and the job fails. A worker reports success only after a commit
  of its piece. The piece is written whole; a write of the partial file that fails halfway, or cannot be flushed,
  which leaves the mark as it was, is not a step.
\<close>

inductive download_step :: "bt_ext \<Rightarrow> torrent_v1 \<Rightarrow> download \<Rightarrow> download \<Rightarrow> bool" for X t where
  batch: "begin_peer_batch peer_count n_pieces (dr_scheduler (dl_run w)) = Inr s \<Longrightarrow>
    download_step X t w (w\<lparr>dl_run := (dl_run w)\<lparr>dr_scheduler := s\<rparr>\<rparr>)"
| register: "register_peer_availability availability (dr_scheduler (dl_run w)) = Inr s \<Longrightarrow>
    download_step X t w (w\<lparr>dl_run := (dl_run w)\<lparr>dr_scheduler := s\<rparr>\<rparr>)"
| claim: "claim_piece_job available (dr_scheduler (dl_run w)) = ClaimJob job s \<Longrightarrow>
    download_step X t w (w\<lparr>dl_run := (dl_run w)\<lparr>dr_scheduler := s, dr_held := job # dr_held (dl_run w)\<rparr>\<rparr>)"
| commit: "job \<in> set (dr_held (dl_run w)) \<Longrightarrow>
    receive_piece_job X t job earlier completed session = (Inr (PieceVerified bs), session') \<Longrightarrow>
    \<not> piece_job_completed (pj_piece_index job) (dr_scheduler (dl_run w)) \<Longrightarrow>
    commit_verified_piece t (dl_content w) (pj_piece_index job) bs = Inr content \<Longrightarrow>
    download_step X t w (w\<lparr>dl_content := content,
      dl_completed := (dl_completed w)[unat (pj_piece_index job) := saved],
      dl_committed := (if saved then pj_piece_index job # dl_committed w else dl_committed w)\<rparr>)"
| success: "job \<in> set (dr_held (dl_run w)) \<Longrightarrow> pj_piece_index job \<in> set (dl_committed w) \<Longrightarrow>
    finish_piece_job job Success (dr_scheduler (dl_run w)) = Inr (first, s) \<Longrightarrow>
    download_step X t w (w\<lparr>dl_run := (dl_run w)\<lparr>dr_scheduler := s, dr_held := remove1 job (dr_held (dl_run w)),
      dr_verified := (if first then pj_piece_index job # dr_verified (dl_run w) else dr_verified (dl_run w))\<rparr>\<rparr>)"
| failure: "job \<in> set (dr_held (dl_run w)) \<Longrightarrow> outcome \<noteq> Success \<Longrightarrow>
    finish_piece_job job outcome (dr_scheduler (dl_run w)) = Inr (first, s) \<Longrightarrow>
    download_step X t w (w\<lparr>dl_run := (dl_run w)\<lparr>dr_scheduler := s, dr_held := remove1 job (dr_held (dl_run w))\<rparr>\<rparr>)"

inductive_cases download_stepE: "download_step X t w w'"

text \<open>For the scheduler, a step of a download is a step of its own or none.\<close>

lemma finish_first: "finish_piece_job job outcome s = Inr (first, s') \<Longrightarrow> first \<Longrightarrow> outcome = Success"
  by (auto simp: finish_piece_job_def Let_def split: if_splits)

lemma download_step_scheduler:
  assumes "download_step X t w w'"
  shows "scheduler_step\<^sup>=\<^sup>= (dl_run w) (dl_run w')"
  using assms
proof (cases rule: download_step.cases)
  case (batch peer_count n_pieces s)
  from scheduler_step.batch [OF batch(2)] batch(1) show ?thesis by simp
next
  case (register availability s)
  from scheduler_step.register [OF register(2)] register(1) show ?thesis by simp
next
  case (claim available job s)
  from scheduler_step.claim [OF claim(2)] claim(1) show ?thesis by simp
next
  case (success job first s)
  from scheduler_step.finish [OF success(2,4)] success(1) show ?thesis by simp
next
  case (failure job outcome first s)
  have "\<not> first" using finish_first [OF failure(4)] failure(3) by blast
  then have "dl_run w' = (dl_run w)\<lparr>dr_scheduler := s, dr_held := remove1 job (dr_held (dl_run w)),
      dr_verified := (if first then pj_piece_index job # dr_verified (dl_run w) else dr_verified (dl_run w))\<rparr>"
    using failure(1) by (cases "dl_run w") simp
  with scheduler_step.finish [OF failure(2,4)] show ?thesis by simp
qed simp

section \<open>The invariant\<close>

definition start_download :: "torrent_v1 \<Rightarrow> block_request list \<Rightarrow> bytes \<Rightarrow> bool list \<Rightarrow> download" where
  "start_download t todo content completed =
     \<lparr>dl_run = start_run todo (length (tv_piece_sha1 t)), dl_content = content, dl_completed = completed, dl_committed = []\<rparr>"

text \<open>
  \<open>old\<close> are the pieces that the resume state called complete, wrongly, before the run; it is empty unless
  local chunks disagree with the torrent.
\<close>

definition download_inv :: "bt_ext \<Rightarrow> torrent_v1 \<Rightarrow> nat set \<Rightarrow> piece_job list \<Rightarrow> bytes \<Rightarrow> download \<Rightarrow> bool" where
  "download_inv X t old jobs content0 w \<longleftrightarrow>
     run_inv jobs (dl_run w) \<and> length (dl_content w) = unat (tv_total_length t) \<and> length (dl_completed w) = piece_count t
     \<and> set (dr_verified (dl_run w)) \<subseteq> set (dl_committed w) \<and> set (dl_committed w) \<subseteq> pj_piece_index ` set jobs
     \<and> (\<forall>i\<in>set (dl_committed w). piece_valid X t (dl_content w) (unat i))
     \<and> (\<forall>i<piece_count t. dl_completed w ! i \<longrightarrow> i \<in> old \<or> piece_valid X t (dl_content w) i)
     \<and> (\<forall>i. i \<notin> unat ` pj_piece_index ` set jobs \<longrightarrow> file_piece t (dl_content w) i = file_piece t content0 i)"

lemma piece_valid_cong: "file_piece t a i = file_piece t b i \<Longrightarrow> piece_valid X t a i \<longleftrightarrow> piece_valid X t b i"
  by (simp add: piece_valid_def)

lemma commit_inv:
  assumes inv: "download_inv X t old jobs content0 w" and t: "0 < tv_piece_length t" "\<And>j. j \<in> set jobs \<Longrightarrow> unat (pj_piece_index j) < piece_count t"
    and job: "job \<in> set (dr_held (dl_run w))"
    and receive: "receive_piece_job X t job earlier completed session = (Inr (PieceVerified bs), session')"
    and commit: "commit_verified_piece t (dl_content w) (pj_piece_index job) bs = Inr content"
  shows "download_inv X t old jobs content0 (w\<lparr>dl_content := content,
      dl_completed := (dl_completed w)[unat (pj_piece_index job) := saved],
      dl_committed := (if saved then pj_piece_index job # dl_committed w else dl_committed w)\<rparr>)"
proof -
  let ?i = "pj_piece_index job"
  have run: "run_inv jobs (dl_run w)" and len: "length (dl_content w) = unat (tv_total_length t)"
    using inv by (simp_all add: download_inv_def)
  have i: "?i \<in> pj_piece_index ` set jobs" using run_invD(4) [OF run job] unfolding asks_as_def image_iff by metis
  then have small: "unat ?i < piece_count t" using t(2) by auto
  note c = commit_piece [OF t(1) small len commit]
  have "sha1_hex X bs = tv_piece_sha1 t ! unat ?i" using receive by (rule receive_piece_job_verified)
  then have valid: "piece_valid X t content (unat ?i)" by (simp add: piece_valid_def c(2))
  have keep: "piece_valid X t content k" if "piece_valid X t (dl_content w) k" for k
    using that valid c(3) [of k] piece_valid_cong [of t content k "dl_content w" X] by (cases "k = unat ?i") auto
  have same: "file_piece t content k = file_piece t (dl_content w) k" if "k \<notin> unat ` pj_piece_index ` set jobs" for k
    using c(3) [of k] that i by blast
  have "(dl_completed w)[unat ?i := saved] ! k \<Longrightarrow> k < piece_count t \<Longrightarrow> k \<in> old \<or> piece_valid X t content k" for k
    using inv keep [of k] valid by (cases "k = unat ?i") (auto simp: download_inv_def)
  with inv i c(1) keep valid same show ?thesis by (auto simp: download_inv_def)
qed

lemma download_step_inv:
  assumes step: "download_step X t w w'" and inv: "download_inv X t old jobs content0 w"
    and t: "0 < tv_piece_length t" "\<And>j. j \<in> set jobs \<Longrightarrow> unat (pj_piece_index j) < piece_count t"
  shows "download_inv X t old jobs content0 w'"
proof -
  have run: "run_inv jobs (dl_run w')"
    using download_step_scheduler [OF step] inv scheduler_step_inv by (auto simp: download_inv_def)
  from step show ?thesis
  proof (cases rule: download_step.cases)
    case (commit job earlier completed session bs session' content saved)
    from commit_inv [OF inv t commit(2,3,5)] commit(1) show ?thesis by simp
  qed (use run inv in \<open>auto simp: download_inv_def\<close>)
qed

lemma download_reach_inv:
  assumes "(download_step X t)\<^sup>*\<^sup>* (start_download t todo content completed) w" and "sorted_wrt (\<le>) (map rq_piece_index todo)"
    and t: "0 < tv_piece_length t" "\<And>j. j \<in> set (build_piece_jobs todo) \<Longrightarrow> unat (pj_piece_index j) < piece_count t"
    and "length content = unat (tv_total_length t)" and "length completed = piece_count t"
    and "\<And>i. i < piece_count t \<Longrightarrow> completed ! i \<Longrightarrow> i \<in> old \<or> piece_valid X t content i"
  shows "download_inv X t old (build_piece_jobs todo) content w"
  using assms(1)
proof (induction rule: rtranclp_induct)
  case base
  show ?case
    using assms(5-7) initial_run_inv [OF assms(2)] by (simp add: download_inv_def start_download_def) (simp add: start_run_def)
next
  case (step y z)
  show ?case by (rule download_step_inv [OF step(2,3) t])
qed

end
