(* ===== verification/Bt_Fetch_Safety.thy ===== *)
theory Bt_Fetch_Safety
  imports Bt_Download_Safety
begin

text \<open>
  A run of \<open>fetch_v1_from_peers_with_peer_id\<close> from its first check to its report. Whatever the peers send
  and however the workers interleave, a file appears under the name of the output only when it is the
  described target, and nothing but the output and the two files of the resume changes.
\<close>

section \<open>Runs\<close>

text \<open>
  The workers leave the partial file with their last commit and the resume state with their last saving;
  \<open>state_node\<close> is what that is. Each worker reports on one of the peers.
  A round that does not start for want of a batch of peers is not a step of its own.
\<close>

inductive fetch_run ::
    "bt_ext \<Rightarrow> resume_ext \<Rightarrow> index_db \<Rightarrow> fetch_disk \<Rightarrow> torrent_v1 \<Rightarrow> target_descriptor \<Rightarrow> socket_addr list \<Rightarrow> string
       \<Rightarrow> file_system \<Rightarrow> bt_peer_fetch_report result \<Rightarrow> file_system \<Rightarrow> bool"
  for X R db disk t d peers out fs where
  refused: "fetch_start X R db disk now t d peers out fs = (Inl e, fs') \<Longrightarrow>
    fetch_run X R db disk t d peers out fs (Inl e) fs'"
| ran: "fetch_start X R db disk now t d peers out fs = (Inr plan, fs1) \<Longrightarrow>
    fs1 (rf_partial_path (fp_resume plan)) = Some (Regular content m) \<Longrightarrow>
    (download_step X t)\<^sup>*\<^sup>* (start_download t (fp_requests plan) content (bs_completed_pieces (rf_state (fp_resume plan)))) w \<Longrightarrow>
    fs2 = fs1(rf_partial_path (fp_resume plan) \<mapsto> Regular (dl_content w) later, rf_state_path (fp_resume plan) \<mapsto> state_node) \<Longrightarrow>
    wr_peer ` set workers \<subseteq> set peers \<Longrightarrow>
    fetch_finish X disk t d plan peers out (dr_scheduler (dl_run w)) workers fs2 = (r, fs') \<Longrightarrow>
    fetch_run X R db disk t d peers out fs r fs'"

inductive_cases fetch_runE: "fetch_run X R db disk t d peers out fs r fs'"

section \<open>Only the files of the download\<close>

definition only_download_files :: "string \<Rightarrow> file_system \<Rightarrow> file_system \<Rightarrow> bool" where
  "only_download_files output fs fs' \<longleftrightarrow>
     (\<forall>q. q \<noteq> fst (resume_paths output) \<and> q \<noteq> snd (resume_paths output) \<longrightarrow> fs' q = fs q)"

lemma only_download_files_refl [simp]: "only_download_files output fs fs"
  by (simp add: only_download_files_def)

lemma only_download_files_trans:
  "only_download_files output a b \<Longrightarrow> only_download_files output b c \<Longrightarrow> only_download_files output a c"
  by (simp add: only_download_files_def)

lemma resume_paths_distinct: "fst (resume_paths output) \<noteq> output" "snd (resume_paths output) \<noteq> output"
  "fst (resume_paths output) \<noteq> snd (resume_paths output)"
  by (simp_all add: resume_paths_def)

lemma persist_resume_state_frame:
  "persist_resume_state R disk now path s fs = (r, fs') \<Longrightarrow> fs' = fs \<or> (\<exists>bs. fs' = fs(path \<mapsto> Regular bs now))"
  by (auto simp: persist_resume_state_def split: option.splits sum.splits)

lemma persist_resume_state_other [simp]: "q \<noteq> path \<Longrightarrow> snd (persist_resume_state R disk now path s fs) q = fs q"
  by (auto simp: persist_resume_state_def split: option.splits sum.splits)

lemma create_resume_file_frame:
  assumes "create_resume_file R disk now t d (fst (resume_paths output)) (snd (resume_paths output)) fs = (r, fs')"
  shows "only_download_files output fs fs'"
    and "r = Inr resume \<Longrightarrow> rf_partial_path resume = fst (resume_paths output) \<and> rf_state_path resume = snd (resume_paths output)
      \<and> fs' (fst (resume_paths output)) = Some (Regular (replicate (unat (tv_total_length t)) 0) now)
      \<and> bs_completed_pieces (rf_state resume) = replicate (length (tv_piece_sha1 t)) False"
  using assms resume_paths_distinct [of "output"]
  by (auto simp: create_resume_file_def only_download_files_def Let_def split: option.splits prod.splits sum.splits
      dest!: persist_resume_state_frame)

lemma check_resumed_pieces_length:
  "try_fold (check_resumed_piece X content t) (s, n, b, r) is = Inr (s', n', b', r') \<Longrightarrow>
     length (bs_completed_pieces s') = length (bs_completed_pieces s)"
proof (induction "is" arbitrary: s n b r)
  case (Cons i "is")
  from Cons.prems obtain u where u: "check_resumed_piece X content t (s, n, b, r) i = Inr u"
    and rest: "try_fold (check_resumed_piece X content t) u is = Inr (s', n', b', r')" by auto
  obtain v n1 b1 r1 where v: "u = (v, n1, b1, r1)" by (cases u)
  have "length (bs_completed_pieces v) = length (bs_completed_pieces s)"
    using u v by (auto simp: check_resumed_piece_def split: if_splits)
  with Cons.IH [OF rest [unfolded v]] show ?case by simp
qed simp

lemma open_resume_file_frame:
  assumes "open_resume_file X R disk now t d output fs = (r, fs')"
  shows "only_download_files output fs fs'"
    and "r = Inr resume \<Longrightarrow> rf_partial_path resume = fst (resume_paths output) \<and> rf_state_path resume = snd (resume_paths output)
      \<and> (\<exists>content m. fs' (fst (resume_paths output)) = Some (Regular content m) \<and> length content = unat (tv_total_length t))
      \<and> length (bs_completed_pieces (rf_state resume)) = length (tv_piece_sha1 t)"
proof -
  let ?p = "fst (resume_paths output)" and ?s = "snd (resume_paths output)"
  consider (orphan) "(?p \<in> dom fs) \<noteq> (?s \<in> dom fs)" | (fresh) "?p \<notin> dom fs" "?s \<notin> dom fs" | (old) "?p \<in> dom fs" "?s \<in> dom fs" by blast
  then have "only_download_files output fs fs' \<and> (\<forall>resume. r = Inr resume \<longrightarrow> rf_partial_path resume = ?p \<and> rf_state_path resume = ?s
      \<and> (\<exists>content m. fs' ?p = Some (Regular content m) \<and> length content = unat (tv_total_length t))
      \<and> length (bs_completed_pieces (rf_state resume)) = length (tv_piece_sha1 t))"
  proof cases
    case orphan
    with assms show ?thesis by (auto simp: open_resume_file_def case_prod_beta')
  next
    case fresh
    with assms have "create_resume_file R disk now t d ?p ?s fs = (r, fs')" by (simp add: open_resume_file_def case_prod_beta')
    from create_resume_file_frame [OF this] show ?thesis by auto
  next
    case old
    show ?thesis
    proof (cases r)
      case (Inl e)
      with assms old show ?thesis
        by (auto simp: open_resume_file_def case_prod_beta' only_download_files_def
            split: sum.splits prod.splits if_splits dest!: persist_resume_state_frame)
    next
      case (Inr resume)
      with assms old obtain encoded s0 content s n found repaired where
        s: "validate_resume_state s0 t d = Inr ()" "fs_read fs ?p = Inr content" "length content = unat (tv_total_length t)"
          "try_fold (check_resumed_piece X content t) (s0, 0, 0, False) [0..<length (bs_completed_pieces s0)] = Inr (s, n, found, repaired)"
        and fs1: "fs' = fs \<or> fs' = snd (persist_resume_state R disk now ?s s fs)"
        and resume: "rf_partial_path resume = ?p" "rf_state_path resume = ?s" "rf_state resume = s"
        by (auto simp: open_resume_file_def case_prod_beta' split: sum.splits prod.splits if_splits option.splits)
      have same: "only_download_files output fs fs'" "fs' ?p = fs ?p"
        using fs1 resume_paths_distinct [of "output"] by (auto simp: only_download_files_def)
      moreover have "length (bs_completed_pieces s) = length (tv_piece_sha1 t)"
        using check_resumed_pieces_length [OF s(4)] s(1) by (simp add: validate_resume_state_def)
      ultimately show ?thesis using Inr s(2,3) resume by (auto simp: fs_read_Inr)
    qed
  qed
  then show "only_download_files output fs fs'"
    and "r = Inr resume \<Longrightarrow> rf_partial_path resume = ?p \<and> rf_state_path resume = ?s
      \<and> (\<exists>content m. fs' ?p = Some (Regular content m) \<and> length content = unat (tv_total_length t))
      \<and> length (bs_completed_pieces (rf_state resume)) = length (tv_piece_sha1 t)" by blast+
qed

section \<open>The start\<close>

lemma write_local_until_frame:
  "write_local_until X db fs path now cs (content, ranges, n) = (r, content') \<Longrightarrow> chunks_tile start cs e \<Longrightarrow> e \<le> length content \<Longrightarrow>
    e < 2 ^ 64 \<Longrightarrow> ranges_sorted 0 ranges \<Longrightarrow> \<forall>r\<in>set ranges. unat (lr_end r) \<le> start \<Longrightarrow>
    length content' = length content \<and> (\<forall>ranges' n'. r = Inr (ranges', n') \<longrightarrow> ranges_sorted 0 ranges')"
proof (induction cs arbitrary: content ranges n start)
  case Nil
  then show ?case by auto
next
  case (Cons c cs)
  let ?fs = "fs(path \<mapsto> Regular content now)" and ?l = "unat (ck_length c)"
  have t: "unat (ck_offset c) = start" "chunks_tile (start + ?l) cs e" using Cons.prems(2) by auto
  have le: "start + ?l \<le> e" using t(2) by (rule chunks_tile_le)
  show ?case
  proof (cases "write_local_chunk X db ?fs (content, ranges, n) c")
    case (Inl err)
    with Cons.prems(1) show ?thesis by auto
  next
    case (Inr s1)
    obtain content1 ranges1 n1 where s1: "s1 = (content1, ranges1, n1)" by (cases s1)
    have rest: "write_local_until X db fs path now cs (content1, ranges1, n1) = (r, content')" using Cons.prems(1) Inr s1 by simp
    have "unat (ck_offset c) + unat (ck_length c) < 2 ^ 64" using le t(1) Cons.prems(4) by linarith
    from write_local_chunk_cases [OF Inr this] s1 t(1) consider (skip) "content1 = content" "ranges1 = ranges"
      | (put) f bs where "unat f = start + ?l" "content1 = write_at content start bs" "length bs = ?l"
          "ranges1 = ranges @ [\<lparr>lr_start = ck_offset c, lr_end = f\<rparr>]"
      using length_local_content by fastforce
    then have "length content1 = length content \<and> ranges_sorted 0 ranges1 \<and> (\<forall>r\<in>set ranges1. unat (lr_end r) \<le> start + ?l)"
    proof cases
      case skip
      with Cons.prems(5,6) show ?thesis by fastforce
    next
      case put
      have "length content1 = length content" unfolding put(2) using le Cons.prems(3) put(3) by (intro length_write_at) simp
      moreover have "ranges_sorted 0 ranges1" unfolding put(4) using Cons.prems(5,6) t(1) put(1) by (intro ranges_sorted_append) auto
      ultimately show ?thesis using Cons.prems(6) put(1,4) by fastforce
    qed
    with Cons.IH [OF rest t(2) _ Cons.prems(4)] Cons.prems(3) show ?thesis by auto
  qed
qed

lemma plan_v1_bridge_Inr:
  assumes "plan_v1_bridge X db fs t d = Inr r"
  shows "td_validate (bx_cdc X) d = Inr ()" and "tv_total_length t = ti_size (td_target d)"
  using assms by (auto simp: plan_v1_bridge_def)

lemma filter_requests_sorted:
  "sorted_wrt (\<le>) (map rq_piece_index rs) \<Longrightarrow> sorted_wrt (\<le>) (map rq_piece_index (filter P rs))"
  by (induction rs) auto

lemma filter_to_Nil: "\<exists>P. [] = filter P xs"
  by (rule exI [of _ "\<lambda>_. False"]) simp

lemma fetch_start_cases:
  assumes "fetch_start X R db disk now t d peers output fs = (r, fs')"
  obtains (early) e where "r = Inl e" "fs' = fs"
  | (unopened) e where "open_resume_file X R disk now t d output fs = (Inl e, fs')" "r = Inl e"
  | (unread) resume e where "open_resume_file X R disk now t d output fs = (Inr resume, fs')" "r = Inl e"
  | (wrote) bridge resume fs1 content q content' where "output \<notin> dom fs" "plan_v1_bridge X db fs t d = Inr bridge"
      "open_resume_file X R disk now t d output fs = (Inr resume, fs1)" "fs_read fs1 (rf_partial_path resume) = Inr content"
      "write_local_until (bx_cdc X) db fs1 (rf_partial_path resume) now (td_chunks d) (content, [], 0) = (q, content')"
      "fs' = fs1(rf_partial_path resume \<mapsto> Regular content' now)"
      "\<And>plan. r = Inr plan \<Longrightarrow> fp_resume plan = resume \<and> (\<exists>ranges n rs P. q = Inr (ranges, n)
         \<and> build_block_requests t ranges = Inr rs \<and> fp_requests plan = filter P rs)"
proof (cases "output \<in> dom fs \<or> \<not> is_ok (plan_v1_bridge X db fs t d) \<or> disk CreateOutputDirectory \<noteq> None")
  case True
  with assms show thesis by (auto simp: fetch_start_def is_ok_def split: sum.splits if_splits intro: early)
next
  case False
  then obtain bridge where b: "output \<notin> dom fs" "plan_v1_bridge X db fs t d = Inr bridge" "disk CreateOutputDirectory = None"
    by (auto simp: is_ok_def split: sum.splits)
  obtain q fs1 where o: "open_resume_file X R disk now t d output fs = (q, fs1)" by fastforce
  show thesis
  proof (cases q)
    case (Inl e)
    with assms b o show thesis by (intro unopened [of e]) (auto simp: fetch_start_def)
  next
    case (Inr resume)
    show thesis
    proof (cases "fs_read fs1 (rf_partial_path resume)")
      case (Inl e)
      with assms b o \<open>q = Inr resume\<close> show thesis by (intro unread [of resume e]) (auto simp: fetch_start_def)
    next
      case c: (Inr content)
      obtain w content' where w: "write_local_until (bx_cdc X) db fs1 (rf_partial_path resume) now (td_chunks d) (content, [], 0) = (w, content')"
        by fastforce
      note all = assms [unfolded fetch_start_def b(2) b(3) o Inr c w prod.case sum.case Let_def, simplified b(1) if_False simp_thms]
      show thesis
        by (rule wrote [OF b(1,2) o [unfolded Inr] c w])
           (use all b(1) in \<open>auto simp: filter_to_Nil split: sum.splits prod.splits if_splits\<close>)
    qed
  qed
qed

lemma fetch_start_frame:
  assumes "fetch_start X R db disk now t d peers output fs = (r, fs')"
  shows "only_download_files output fs fs'" and "r = Inr plan \<Longrightarrow> output \<notin> dom fs"
    and "r = Inr plan \<Longrightarrow> rf_partial_path (fp_resume plan) = fst (resume_paths output)
      \<and> rf_state_path (fp_resume plan) = snd (resume_paths output)
      \<and> (\<exists>content m. fs' (fst (resume_paths output)) = Some (Regular content m) \<and> length content = unat (tv_total_length t))
      \<and> length (bs_completed_pieces (rf_state (fp_resume plan))) = length (tv_piece_sha1 t)"
    and "r = Inr plan \<Longrightarrow> \<exists>ranges rs P. ranges_sorted 0 ranges \<and> build_block_requests t ranges = Inr rs \<and> fp_requests plan = filter P rs"
proof -
  have "only_download_files output fs fs' \<and> (\<forall>plan. r = Inr plan \<longrightarrow> output \<notin> dom fs
      \<and> rf_partial_path (fp_resume plan) = fst (resume_paths output) \<and> rf_state_path (fp_resume plan) = snd (resume_paths output)
      \<and> (\<exists>content m. fs' (fst (resume_paths output)) = Some (Regular content m) \<and> length content = unat (tv_total_length t))
      \<and> length (bs_completed_pieces (rf_state (fp_resume plan))) = length (tv_piece_sha1 t)
      \<and> (\<exists>ranges rs P. ranges_sorted 0 ranges \<and> build_block_requests t ranges = Inr rs \<and> fp_requests plan = filter P rs))"
    using assms
  proof (cases rule: fetch_start_cases)
    case (unopened e)
    with open_resume_file_frame(1) [OF unopened(1)] show ?thesis by simp
  next
    case (unread resume e)
    with open_resume_file_frame(1) [OF unread(1)] show ?thesis by simp
  next
    case (wrote bridge resume fs1 content q content')
    note frame = open_resume_file_frame [OF wrote(3)]
    have paths: "rf_partial_path resume = fst (resume_paths output)" "rf_state_path resume = snd (resume_paths output)"
      "length (bs_completed_pieces (rf_state resume)) = length (tv_piece_sha1 t)" using frame(2) by auto
    have len: "length content = unat (tv_total_length t)" using frame(2) wrote(4) paths(1) by (auto simp: fs_read_Inr)
    have size: "unat (ti_size (td_target d)) = length content" using plan_v1_bridge_Inr(2) [OF wrote(2)] len by simp
    have tile: "chunks_tile 0 (td_chunks d) (unat (ti_size (td_target d)))" using plan_v1_bridge_Inr(1) [OF wrote(2)] by (simp add: td_validate_iff)
    have bounds: "unat (ti_size (td_target d)) \<le> length content" "unat (ti_size (td_target d)) < 2 ^ 64"
      by (simp only: size order_refl) simp
    have w: "length content' = length content \<and> (\<forall>ranges n. q = Inr (ranges, n) \<longrightarrow> ranges_sorted 0 ranges)"
      by (rule write_local_until_frame [OF wrote(5) tile bounds]) simp_all
    have "only_download_files output fs fs'" using frame(1) paths(1) unfolding wrote(6) by (auto simp: only_download_files_def)
    moreover have "fs' (fst (resume_paths output)) = Some (Regular content' now)" by (simp add: wrote(6) paths(1))
    then have "\<exists>content m. fs' (fst (resume_paths output)) = Some (Regular content m) \<and> length content = unat (tv_total_length t)"
      using w len by auto
    moreover have "fp_resume plan = resume \<and> (\<exists>ranges rs P. ranges_sorted 0 ranges \<and> build_block_requests t ranges = Inr rs
        \<and> fp_requests plan = filter P rs)" if "r = Inr plan" for plan
      using wrote(7) [OF that] w by blast
    ultimately show ?thesis using wrote(1) paths by simp
  qed simp
  then show "only_download_files output fs fs'" and "r = Inr plan \<Longrightarrow> output \<notin> dom fs"
    and "r = Inr plan \<Longrightarrow> rf_partial_path (fp_resume plan) = fst (resume_paths output)
      \<and> rf_state_path (fp_resume plan) = snd (resume_paths output)
      \<and> (\<exists>content m. fs' (fst (resume_paths output)) = Some (Regular content m) \<and> length content = unat (tv_total_length t))
      \<and> length (bs_completed_pieces (rf_state (fp_resume plan))) = length (tv_piece_sha1 t)"
    and "r = Inr plan \<Longrightarrow> \<exists>ranges rs P. ranges_sorted 0 ranges \<and> build_block_requests t ranges = Inr rs \<and> fp_requests plan = filter P rs"
    by blast+
qed

section \<open>The end\<close>

lemma read_blocks_once: "read_blocks [Inr bs, Inr []] bs"
  unfolding read_blocks_def by (cases "bs = []", rule exI [of _ "[]"], simp, rule exI [of _ "[bs]"], simp)

lemma sha256_regular: "sha256_file X (fs_reads fs path) = Inr h \<Longrightarrow> fs path = Some (Regular bs m) \<Longrightarrow> h = cx_hex_encode X (cx_sha256 X bs)"
proof -
  assume h: "sha256_file X (fs_reads fs path) = Inr h" "fs path = Some (Regular bs m)"
  from sha256_file_blocks [OF read_blocks_once, of X bs] h show ?thesis by (simp add: fs_reads_def)
qed

lemma fetch_finish_cases:
  assumes "fetch_finish X disk t d plan peers output s workers fs = (r, fs')"
  obtains (failed) e where "r = Inl e" "fs' = fs"
  | (published) content m fs2 where "unfinished_pieces s = []" "fs (rf_partial_path (fp_resume plan)) = Some (Regular content m)"
      "verify_all_pieces X content t = Inr ()"
      "cx_hex_encode (bx_cdc X) (cx_sha256 (bx_cdc X) content) = ti_sha256 (td_target d)" "output \<notin> dom fs"
      "fs2 = fs(output \<mapsto> Regular content m)"
      "\<And>q. q \<noteq> rf_partial_path (fp_resume plan) \<Longrightarrow> q \<noteq> rf_state_path (fp_resume plan) \<Longrightarrow> fs' q = fs2 q"
      "\<And>rep. r = Inr rep \<Longrightarrow> fetch_report_of t plan peers s workers (ti_sha256 (td_target d)) = Inr rep
         \<and> fs' (rf_state_path (fp_resume plan)) = None
         \<and> (rf_partial_path (fp_resume plan) \<noteq> output \<longrightarrow> fs' (rf_partial_path (fp_resume plan)) = None)"
proof -
  let ?p = "rf_partial_path (fp_resume plan)" and ?s = "rf_state_path (fp_resume plan)"
  let ?check = "bail_if (unfinished_pieces s \<noteq> []) ''BitTorrent peers exhausted with unfinished pieces''
          (case disk SyncPartial of Some e \<Rightarrow> Inl (Io e) | None \<Rightarrow>
           and_then (fs_read fs ?p) (\<lambda>content.
           and_then (verify_all_pieces X content t) (\<lambda>_.
           and_then (sha256_file (bx_cdc X) (fs_reads fs ?p)) (\<lambda>output_sha256.
           bail_if (output_sha256 \<noteq> ti_sha256 (td_target d)) ''BT-rebuilt target SHA-256 mismatch'' (Inr output_sha256)))))"
  show thesis
  proof (cases ?check)
    case (Inl e)
    with assms show thesis by (intro failed [of e]) (simp_all add: fetch_finish_def Let_def)
  next
    case (Inr h)
    then obtain content m where c: "unfinished_pieces s = []" "fs ?p = Some (Regular content m)" "verify_all_pieces X content t = Inr ()"
      "sha256_file (bx_cdc X) (fs_reads fs ?p) = Inr h" "h = ti_sha256 (td_target d)"
      by (auto simp: fs_read_Inr split: option.splits)
    have h: "cx_hex_encode (bx_cdc X) (cx_sha256 (bx_cdc X) content) = ti_sha256 (td_target d)"
      using sha256_regular [OF c(4,2)] c(5) by simp
    obtain q fs2 where q: "persist_completed_output disk ?p output fs = (q, fs2)" by fastforce
    have rest: "(case q of Inl e \<Rightarrow> (Inl e, fs2) | Inr _ \<Rightarrow>
        if disk RemoveState \<noteq> None \<or> ?s \<notin> dom fs2 then (Inl (Bail ''remove completed resume state''), fs2)
        else (fetch_report_of t plan peers s workers h, fs2(?s := None))) = (r, fs')"
      using assms Inr q by (simp add: fetch_finish_def Let_def split: sum.splits)
    show thesis
    proof (cases "disk LinkOutput \<noteq> None \<or> output \<in> dom fs \<or> ?p \<notin> dom fs")
      case True
      then obtain e where "q = Inl e" "fs2 = fs" using q by (auto simp: persist_completed_output_def)
      with rest show thesis by (intro failed [of e]) auto
    next
      case False
      then have out: "output \<notin> dom fs" and fs2: "fs2 = fs(output \<mapsto> Regular content m) \<or> fs2 = fs(output \<mapsto> Regular content m, ?p := None)"
        "q = Inr () \<Longrightarrow> fs2 = fs(output \<mapsto> Regular content m, ?p := None)"
        using q c(2) by (auto simp: persist_completed_output_def Let_def split: option.splits)
      show thesis
      proof (rule published [OF c(1-3) h out refl])
        show "fs' k = (fs(output \<mapsto> Regular content m)) k" if "k \<noteq> ?p" "k \<noteq> ?s" for k
          using rest fs2(1) that by (auto split: sum.splits if_splits)
        show "fetch_report_of t plan peers s workers (ti_sha256 (td_target d)) = Inr rep \<and> fs' ?s = None
          \<and> (?p \<noteq> output \<longrightarrow> fs' ?p = None)" if "r = Inr rep" for rep
          using rest fs2(2) that c(5) by (auto split: sum.splits if_splits)
      qed
    qed
  qed
qed

section \<open>The whole run\<close>

lemma piece_jobs_of_requests:
  assumes "torrent_shape t" and "tv_piece_length t \<le> MAX_BT_PIECE_LENGTH" and "piece_count t \<le> 2 ^ 32"
    and "ranges_sorted lo ranges" and "build_block_requests t ranges = Inr rs"
  shows "sorted_wrt (\<le>) (map rq_piece_index (filter P rs))"
    and "j \<in> set (build_piece_jobs (filter P rs)) \<Longrightarrow> unat (pj_piece_index j) < piece_count t"
proof -
  have rs: "list_all (torrent_request_ok t ranges) rs" "requests_ordered rs" using build_block_requests_exact [OF assms(1-4)] assms(5) by auto
  show sorted: "sorted_wrt (\<le>) (map rq_piece_index (filter P rs))" by (rule filter_requests_sorted [OF requests_by_piece [OF rs]])
  show "unat (pj_piece_index j) < piece_count t" if j: "j \<in> set (build_piece_jobs (filter P rs))" for j
  proof -
    define jobs where "jobs = build_piece_jobs (filter P rs)"
    have ok: "jobs_ok jobs" "concat (map pj_requests jobs) = filter P rs" using build_piece_jobs_ok [OF sorted] by (simp_all add: jobs_def)
    have j: "j \<in> set jobs" using j by (simp add: jobs_def)
    have j2: "pj_requests j \<noteq> []" "\<And>r. r \<in> set (pj_requests j) \<Longrightarrow> rq_piece_index r = pj_piece_index j"
      using ok(1) j by (auto simp: jobs_ok_def list_all_iff)
    then obtain r where r: "r \<in> set (pj_requests j)" by (cases "pj_requests j") auto
    then have "r \<in> set (concat (map pj_requests jobs))" using j by auto
    then have "r \<in> set rs" unfolding ok(2) by simp
    with j2(2) [OF r] show ?thesis using rs(1) by (auto simp: list_all_iff torrent_request_ok_def Let_def)
  qed
qed

lemma fetch_run_outcome:
  assumes run: "fetch_run X R db disk t d peers output fs r fs'"
    and t: "torrent_shape t" "tv_piece_length t \<le> MAX_BT_PIECE_LENGTH" "piece_count t \<le> 2 ^ 32"
  shows "only_download_files output fs (fs'(output := fs output))
    \<and> (fs' output = fs output \<and> \<not> is_ok r \<or>
       output \<notin> dom fs \<and> (\<exists>content m. fs' output = Some (Regular content m) \<and> length content = unat (tv_total_length t)
         \<and> cx_hex_encode (bx_cdc X) (cx_sha256 (bx_cdc X) content) = ti_sha256 (td_target d)
         \<and> (\<forall>i<piece_count t. piece_valid X t content i)))
    \<and> (is_ok r \<longrightarrow> fst (resume_paths output) \<notin> dom fs' \<and> snd (resume_paths output) \<notin> dom fs')"
  using run
proof (cases rule: fetch_run.cases)
  case (refused now e)
  with fetch_start_frame(1) [OF refused(2)] resume_paths_distinct [of "output"] show ?thesis
    by (auto simp: only_download_files_def is_ok_def)
next
  case (ran now plan fs1 content m w fs2 later state_node workers)
  note start = fetch_start_frame [OF ran(1)]
  have paths: "rf_partial_path (fp_resume plan) = fst (resume_paths output)" "rf_state_path (fp_resume plan) = snd (resume_paths output)"
    and content: "length content = unat (tv_total_length t)"
    and completed: "length (bs_completed_pieces (rf_state (fp_resume plan))) = piece_count t"
    using start(3) ran(2) t(1) by (auto simp: torrent_shape_def piece_count_def)
  obtain ranges rs P where rs: "ranges_sorted 0 ranges" "build_block_requests t ranges = Inr rs" "fp_requests plan = filter P rs"
    using start(4) by blast
  note jobs = piece_jobs_of_requests [OF t rs(1,2), where P = P, folded rs(3)]
  have pl: "0 < tv_piece_length t" using t(1) by (simp add: torrent_shape_def)
  have "download_inv X t {..<piece_count t} (build_piece_jobs (fp_requests plan)) content w"
    by (rule download_reach_inv [OF ran(3) jobs(1) pl jobs(2) content completed]) simp_all
  then have len: "length (dl_content w) = unat (tv_total_length t)" by (simp add: download_inv_def)
  have frame: "only_download_files output fs fs2"
    using start(1) unfolding ran(4) paths by (auto simp: only_download_files_def)
  have out: "output \<notin> dom fs" "output \<notin> dom fs2"
    using start(2) frame resume_paths_distinct [of "output"] by (auto simp: only_download_files_def)
  from ran(6) show ?thesis
  proof (cases rule: fetch_finish_cases)
    case (failed e)
    with frame out show ?thesis by (auto simp: only_download_files_def is_ok_def)
  next
    case (published c m' fs3)
    have c: "c = dl_content w" using published(2) resume_paths_distinct [of "output"] by (simp add: ran(4) paths)
    have "fs' output = Some (Regular c m')"
      using published(6) published(7) [of "output"] resume_paths_distinct [of "output"] unfolding paths by auto
    moreover have "\<forall>i<piece_count t. piece_valid X t c i" using published(3) verify_all_pieces_iff [OF t(1)] len c by simp
    moreover have "only_download_files output fs (fs'(output := fs output))"
      using published(6,7) frame unfolding paths only_download_files_def by auto
    moreover have "is_ok r \<longrightarrow> fst (resume_paths output) \<notin> dom fs' \<and> snd (resume_paths output) \<notin> dom fs'"
      using published(8) resume_paths_distinct [of "output"] unfolding paths by (auto simp: is_ok_def split: sum.splits)
    ultimately show ?thesis using published(4) out(1) len c by blast
  qed
qed

text \<open>Without peers there is no report.\<close>

lemma fetch_report_of_no_peers: "\<not> is_ok (fetch_report_of t plan [] s [] sha)"
  by (simp add: fetch_report_of_def Let_def last_max_def ok_or_def)

lemma no_report_without_peers: "fetch_run X R db disk t d [] output fs r fs' \<Longrightarrow> \<not> is_ok r"
proof -
  assume run: "fetch_run X R db disk t d [] output fs r fs'"
  from run show ?thesis
  proof (cases rule: fetch_run.cases)
    case (ran now plan fs1 content m w fs2 later state_node workers)
    from ran(5) have "workers = []" by simp
    with ran(6) fetch_report_of_no_peers show ?thesis
      by (auto simp: fetch_finish_def Let_def split: sum.splits prod.splits if_splits)
  qed simp
qed

text \<open>
  With every worker's job handed in and nothing unfinished, only pieces that were not asked for can fail
  the last check.
\<close>

lemma finished_download_valid:
  assumes inv: "download_inv X t {} jobs content w" and "torrent_shape t"
    and held: "dr_held (dl_run w) = []" and done_all: "unfinished_pieces (dr_scheduler (dl_run w)) = []"
    and rest: "\<And>i. i < piece_count t \<Longrightarrow> i \<notin> unat ` pj_piece_index ` set jobs \<Longrightarrow> piece_valid X t content i"
  shows "verify_all_pieces X (dl_content w) t = Inr ()"
proof -
  have run: "run_inv jobs (dl_run w)" and len: "length (dl_content w) = unat (tv_total_length t)" using inv by (simp_all add: download_inv_def)
  have "map_of (sc_active (dr_scheduler (dl_run w))) = Map.empty"
  proof (rule ext, rule ccontr)
    fix i assume "map_of (sc_active (dr_scheduler (dl_run w))) i \<noteq> None"
    then obtain a where a: "map_of (sc_active (dr_scheduler (dl_run w))) i = Some a" by blast
    from run_invD(6) [OF run a] held show False by (auto simp: active_ok_def)
  qed
  moreover have "sc_queue (dr_scheduler (dl_run w)) = []"
    using arg_cong [OF done_all, of set] by (simp add: unfinished_pieces_def)
  ultimately have "set (dr_verified (dl_run w)) = pj_piece_index ` set jobs"
    using run_invD(3) [OF run] by (simp add: queue_ok_def)
  then have asked: "piece_valid X t (dl_content w) (unat i)" if "i \<in> pj_piece_index ` set jobs" for i
    using inv that by (auto simp: download_inv_def)
  have "piece_valid X t (dl_content w) i" if "i < piece_count t" for i
  proof (cases "i \<in> unat ` pj_piece_index ` set jobs")
    case True
    with asked show ?thesis by auto
  next
    case False
    then have "file_piece t (dl_content w) i = file_piece t content i" using inv by (simp add: download_inv_def)
    with rest [OF that False] show ?thesis by (simp add: piece_valid_def)
  qed
  with verify_all_pieces_iff [OF assms(2) len] show ?thesis by blast
qed

text \<open>
  When every byte is local and no peer is known, the run publishes the output, removes the files of the
  resume, and then fails for want of a peer to name in its report.
\<close>

lemma published_without_report:
  assumes "unfinished_pieces s = []" and "fs (rf_partial_path (fp_resume plan)) = Some (Regular content m)"
    and "verify_all_pieces X content t = Inr ()" and "cx_hex_encode (bx_cdc X) (cx_sha256 (bx_cdc X) content) = ti_sha256 (td_target d)"
    and "output \<notin> dom fs" and "rf_state_path (fp_resume plan) \<in> dom fs"
    and "rf_state_path (fp_resume plan) \<noteq> output" and "rf_state_path (fp_resume plan) \<noteq> rf_partial_path (fp_resume plan)"
  shows "fetch_finish X (\<lambda>_. None) t d plan [] output s [] fs =
    (Inl (Bail ''no BitTorrent peer was available for the transfer report''),
     fs(output \<mapsto> Regular content m, rf_partial_path (fp_resume plan) := None, rf_state_path (fp_resume plan) := None))"
proof -
  have "sha256_file (bx_cdc X) (fs_reads fs (rf_partial_path (fp_resume plan))) = Inr (ti_sha256 (td_target d))"
    using sha256_file_blocks [OF read_blocks_once, of "bx_cdc X" content] assms(2,4) by (simp add: fs_reads_def)
  moreover have "fs_read fs (rf_partial_path (fp_resume plan)) = Inr content" using assms(2) by (simp add: fs_read_def)
  ultimately show ?thesis
    using assms by (auto simp: fetch_finish_def Let_def persist_completed_output_def fetch_report_of_def last_max_def ok_or_def domIff)
qed

end
