(* ===== verification/Bt_Receive_Liveness.thy ===== *)
theory Bt_Receive_Liveness
  imports Bt_Receive_Safety Cdc_Transfer
begin

text \<open>
  A peer that answers every request in turn gives the piece: no window, no reordering of the loop and no
  check of it stands in the way of a job whose piece is right.
\<close>

section \<open>Reading what was sent\<close>

lemma take_exact_stream: "take_exact (length bs) (stream_of bs @ s) = (Inr bs, s)"
  by (simp add: take_exact_Inr)

lemma read_bytes_stream: "ps_in S = stream_of bs @ s \<Longrightarrow> n = length bs \<Longrightarrow> read_bytes n S = (Inr bs, S\<lparr>ps_in := s\<rparr>)"
  by (simp add: read_bytes_def take_exact_stream)

lemma read_message_stream:
  assumes "ps_in S = stream_of (message_bytes i payload) @ s" and "length payload < unat MAX_MESSAGE_LENGTH"
  shows "read_message S = (Inr (Some (i, payload)), S\<lparr>ps_in := s\<rparr>)"
proof -
  have m: "MAX_MESSAGE_LENGTH = 2097152" by (simp add: MAX_MESSAGE_LENGTH_def)
  have l: "length payload + 1 \<le> 2097152" using assms(2) by (simp add: m)
  let ?l = "word_of_nat (be_nat (be_bytes 4 (length payload + 1))) :: u32"
  have "be_nat (be_bytes 4 (length payload + 1)) = length payload + 1" using l by (intro be_nat_be_bytes) simp
  moreover have "unat (word_of_nat (length payload + 1) :: u32) = length payload + 1" using l by (simp only: unat_of_nat) simp
  ultimately have n: "unat ?l = length payload + 1" by simp
  have pos: "?l \<noteq> 0" "\<not> MAX_MESSAGE_LENGTH < ?l"
    using n l unat_0 by (metis add_is_0 one_neq_zero, simp add: word_less_nat_alt n m)
  have r: "read_bytes 4 S = (Inr (be_bytes 4 (length payload + 1)), S\<lparr>ps_in := stream_of (i # payload) @ s\<rparr>)"
    by (rule read_bytes_stream) (simp_all add: assms(1) message_bytes_def)
  have r2: "read_bytes (unat ?l) (S\<lparr>ps_in := stream_of (i # payload) @ s\<rparr>) = (Inr (i # payload), S\<lparr>ps_in := s\<rparr>)"
    by (subst read_bytes_stream [of _ "i # payload" s]) (use n in simp_all)
  show ?thesis unfolding read_message_def then_do_def r Let_def prod.case sum.case
    using pos by (simp only: if_False r2 prod.case sum.case) (simp add: pass_def)
qed

lemma send_message_free: "ps_room S = None \<Longrightarrow> length payload + 1 < 2 ^ 32 \<Longrightarrow>
    send_message i payload S = (Inr (), S\<lparr>ps_out := ps_out S @ message_bytes i payload\<rparr>)"
  by (simp add: send_message_def write_all_def)

section \<open>An honest peer\<close>

definition block_of :: "bytes \<Rightarrow> block_request \<Rightarrow> bytes" where
  "block_of target r = take (unat (rq_length r)) (drop (unat (rq_absolute_offset r)) target)"

definition block_answer :: "bytes \<Rightarrow> block_request \<Rightarrow> bytes" where
  "block_answer target r = message_bytes MESSAGE_PIECE
     (be_bytes 4 (unat (rq_piece_index r)) @ be_bytes 4 (unat (rq_begin r)) @ block_of target r)"

definition block_answers :: "bytes \<Rightarrow> block_request list \<Rightarrow> bytes" where
  "block_answers target rs = concat (map (block_answer target) rs)"

definition request_key :: "block_request \<Rightarrow> u32 \<times> u32" where
  "request_key r = (rq_piece_index r, rq_begin r)"

text \<open>A request of a piece that begins at \<open>off\<close> and has \<open>len\<close> bytes.\<close>

definition request_fits :: "bytes \<Rightarrow> u64 \<Rightarrow> u64 \<Rightarrow> block_request \<Rightarrow> bool" where
  "request_fits target off len r \<longleftrightarrow> unat off \<le> unat (rq_absolute_offset r) \<and> rq_length r \<le> 16384
     \<and> unat (rq_absolute_offset r) + unat (rq_length r) \<le> unat off + unat len \<and> unat off + unat len \<le> length target"

lemma length_block_of: "request_fits target off len r \<Longrightarrow> length (block_of target r) = unat (rq_length r)"
  unfolding block_of_def request_fits_def by (simp add: min_def, linarith)

text \<open>The bytes of the piece that the answers to some requests give.\<close>

definition fill_block :: "bytes \<Rightarrow> u64 \<Rightarrow> bytes \<Rightarrow> block_request \<Rightarrow> bytes" where
  "fill_block target off pb r = copy_into pb (unat (rq_absolute_offset r) - unat off) (block_of target r)"

lemma accept_block_answer:
  assumes fits: "request_fits target off len r" and key: "map_of inflight (request_key r) = Some r"
    and "unat off + unat len < 2 ^ 64"
  shows "\<exists>n. accept_block off len (be_bytes 4 (unat (rq_piece_index r)) @ be_bytes 4 (unat (rq_begin r)) @ block_of target r) inflight pb S
    = (Inr (AList.delete (request_key r) inflight, fill_block target off pb r), S\<lparr>ps_payload_bytes_received := n\<rparr>)"
proof -
  have o: "\<not> rq_absolute_offset r < off" using fits by (simp add: request_fits_def word_less_nat_alt)
  then have sub: "unat (rq_absolute_offset r - off) = unat (rq_absolute_offset r) - unat off"
    by (simp add: unat_sub not_less)
  define e where "e = rq_absolute_offset r - off + (ucast (rq_length r) :: u64)"
  have bound: "unat (rq_absolute_offset r - off) + unat (rq_length r) \<le> unat len" using fits unfolding sub request_fits_def by linarith
  then have "unat (rq_absolute_offset r - off) + unat (rq_length r) < 2 ^ 64" using assms(3) by linarith
  then have e: "checked_add (rq_absolute_offset r - off) (ucast (rq_length r)) = Some e"
    "unat e = unat (rq_absolute_offset r - off) + unat (rq_length r)"
    by (simp_all add: checked_add_def e_def unat_word_ariths)
  from e(2) bound have "\<not> len < e" by (simp add: word_less_nat_alt)
  with e(1) o key length_block_of [OF fits] show ?thesis
    by (auto simp: accept_block_def Let_def request_key_def fill_block_def sub)
qed

definition outstanding :: "block_request list \<Rightarrow> inflight" where
  "outstanding q = map (\<lambda>r. (request_key r, r)) q"

lemma outstanding_simps [simp]: "outstanding [] = []" "outstanding (r # q) = (request_key r, r) # outstanding q"
  "outstanding (q @ q') = outstanding q @ outstanding q'" "length (outstanding q) = length q" "outstanding q = [] \<longleftrightarrow> q = []"
  by (simp_all add: outstanding_def)

lemma map_of_outstanding_None: "map_of (outstanding q) k = None \<longleftrightarrow> k \<notin> request_key ` set q"
  by (force simp: outstanding_def map_of_eq_None_iff)

lemma oldest_outstanding:
  assumes "request_key r \<notin> request_key ` set q"
  shows "map_of (outstanding (q @ [r])) (request_key r) = Some r" and "AList.delete (request_key r) (outstanding (q @ [r])) = outstanding q"
proof -
  show "map_of (outstanding (q @ [r])) (request_key r) = Some r"
    using assms by (simp add: map_add_def map_of_outstanding_None [THEN iffD2])
  have "filter (\<lambda>e. request_key r \<noteq> fst e) (outstanding q) = outstanding q"
    using assms unfolding filter_id_conv by (force simp: outstanding_def)
  then show "AList.delete (request_key r) (outstanding (q @ [r])) = outstanding q" by (simp add: AList.delete_eq case_prod_beta')
qed

text \<open>The messages that ask for blocks, in the order in which they are sent.\<close>

definition block_asks :: "block_request list \<Rightarrow> bytes" where
  "block_asks rs = concat (map (\<lambda>r. message_bytes MESSAGE_REQUEST (request_payload r)) rs)"

lemma block_asks_simps [simp]: "block_asks [] = []"
  "block_asks (r # rs) = message_bytes MESSAGE_REQUEST (request_payload r) @ block_asks rs"
  "block_asks (rs @ rs') = block_asks rs @ block_asks rs'"
  by (simp_all add: block_asks_def)

lemma fill_window_free:
  "\<not> ps_choked S \<Longrightarrow> ps_room S = None \<Longrightarrow> distinct (map request_key (rev q @ pending)) \<Longrightarrow>
    \<exists>p q' T. fill_window pending (outstanding q) S = (Inr (p, outstanding q'), T) \<and> rev q' @ p = rev q @ pending
      \<and> ps_in T = ps_in S \<and> \<not> ps_choked T \<and> ps_room T = None \<and> ps_out T @ block_asks p = ps_out S @ block_asks pending"
proof (induction pending arbitrary: q S)
  case Nil
  then show ?case by fastforce
next
  case (Cons r pending)
  show ?case
  proof (cases "length q < MAX_INFLIGHT_REQUESTS")
    case True
    let ?T = "S\<lparr>ps_out := ps_out S @ message_bytes MESSAGE_REQUEST (request_payload r),
      ps_block_requests_sent := ps_block_requests_sent S + 1\<rparr>"
    have "send_message MESSAGE_REQUEST (request_payload r) S = (Inr (), S\<lparr>ps_out := ps_out S @ message_bytes MESSAGE_REQUEST (request_payload r)\<rparr>)"
      using Cons.prems(2) by (intro send_message_free) (simp_all add: request_payload_def)
    moreover have "map_of (outstanding q) (rq_piece_index r, rq_begin r) = None"
      using Cons.prems(3) unfolding map_of_outstanding_None request_key_def [symmetric] by auto
    ultimately have "fill_window (r # pending) (outstanding q) S = fill_window pending (outstanding (r # q)) ?T"
      using True Cons.prems(1) by (simp add: Let_def request_key_def)
    moreover obtain p q' T where "fill_window pending (outstanding (r # q)) ?T = (Inr (p, outstanding q'), T)"
      "rev q' @ p = rev (r # q) @ pending" "ps_in T = ps_in ?T" "\<not> ps_choked T" "ps_room T = None"
      "ps_out T @ block_asks p = ps_out ?T @ block_asks pending"
      using Cons.IH [of ?T "r # q"] Cons.prems by auto
    ultimately show ?thesis by auto
  next
    case False
    then have "fill_window (r # pending) (outstanding q) S = (Inr (r # pending, outstanding q), S)" by simp
    with Cons.prems(1,2) show ?thesis by blast
  qed
qed

lemma block_answers_simps [simp]: "block_answers target [] = []"
  "block_answers target (r # rs) = block_answer target r @ block_answers target rs"
  by (simp_all add: block_answers_def)

lemma receive_blocks_honest:
  assumes bound: "unat off + unat len < 2 ^ 64"
  shows "ps_in S = stream_of (block_answers target (rev q @ pending)) \<Longrightarrow> \<not> ps_choked S \<Longrightarrow> ps_room S = None \<Longrightarrow>
    distinct (map request_key (rev q @ pending)) \<Longrightarrow> list_all (request_fits target off len) (rev q @ pending) \<Longrightarrow>
    \<exists>T. receive_blocks off len (\<lambda>_. False) k pending (outstanding q) pb S
      = (Inr (Some (foldl (fill_block target off) pb (rev q @ pending))), T) \<and> ps_out T = ps_out S @ block_asks pending"
proof (induction "length (rev q @ pending)" arbitrary: k q pending pb S)
  case 0
  then show ?case by (auto simp: receive_blocks.simps)
next
  case (Suc n)
  have ne: "\<not> (pending = [] \<and> outstanding q = [])" using Suc.hyps(2) by auto
  obtain p q' T where T: "fill_window pending (outstanding q) S = (Inr (p, outstanding q'), T)" "rev q' @ p = rev q @ pending"
    "ps_in T = ps_in S" "\<not> ps_choked T" "ps_room T = None" "ps_out T @ block_asks p = ps_out S @ block_asks pending"
    using fill_window_free [OF Suc.prems(2-4)] by blast
  have "q' \<noteq> []" using fill_window_Inr [OF T(1)] ne Suc.prems(2) by auto
  then obtain q'' r where q': "q' = q'' @ [r]" by (cases q' rule: rev_cases) auto
  have order: "rev q @ pending = r # (rev q'' @ p)" using T(2) q' by simp
  note prems = Suc.prems [unfolded order]
  have r: "request_fits target off len r" "request_key r \<notin> request_key ` set q''" using prems(4,5) by auto
  let ?payload = "be_bytes 4 (unat (rq_piece_index r)) @ be_bytes 4 (unat (rq_begin r)) @ block_of target r"
  let ?U = "T\<lparr>ps_in := stream_of (block_answers target (rev q'' @ p))\<rparr>"
  have "length (block_of target r) \<le> 16384" using r(1) length_block_of [OF r(1)] by (simp add: request_fits_def word_le_nat_alt)
  then have m: "read_message T = (Inr (Some (MESSAGE_PIECE, ?payload)), ?U)"
    using prems(1) T(3) by (intro read_message_stream) (simp_all add: block_answer_def MAX_MESSAGE_LENGTH_def)
  obtain c where a: "accept_block off len ?payload (outstanding q') pb ?U
      = (Inr (outstanding q'', fill_block target off pb r), ?U\<lparr>ps_payload_bytes_received := c\<rparr>)"
    using accept_block_answer [OF r(1) oldest_outstanding(1) [OF r(2)] bound, of pb ?U]
    unfolding q' oldest_outstanding(2) [OF r(2)] by blast
  let ?V = "?U\<lparr>ps_payload_bytes_received := c\<rparr>"
  have ready: "ready_to_request (outstanding q) S = (Inr (), S)" using Suc.prems(2) by (simp add: ready_to_request_def)
  have "receive_blocks off len (\<lambda>_. False) k pending (outstanding q) pb S
      = receive_blocks off len (\<lambda>_. False) (k + 1) p (outstanding q'') (fill_block target off pb r) ?V"
    by (subst receive_blocks.simps) (simp only: ne if_False then_do_def ready T(1) m a prod.case sum.case option.case if_True,
        simp add: q')
  moreover have "\<exists>W. receive_blocks off len (\<lambda>_. False) (k + 1) p (outstanding q'') (fill_block target off pb r) ?V
      = (Inr (Some (foldl (fill_block target off) (fill_block target off pb r) (rev q'' @ p))), W) \<and> ps_out W = ps_out ?V @ block_asks p"
    using Suc.hyps(2) prems T(4,5) unfolding order by (intro Suc.hyps(1)) simp_all
  ultimately show ?case unfolding order using T(6) by simp
qed

section \<open>Every job of a torrent\<close>

lemma fill_blocks:
  "list_all (request_fits target off len) rs \<Longrightarrow> length pb = unat len \<Longrightarrow>
    length (foldl (fill_block target off) pb rs) = unat len \<and>
    (\<forall>k < unat len. (pb ! k = target ! (unat off + k) \<or> (\<exists>r\<in>set rs. in_request off k r)) \<longrightarrow>
       foldl (fill_block target off) pb rs ! k = target ! (unat off + k))"
proof (induction rs arbitrary: pb)
  case (Cons r rs)
  let ?at = "unat (rq_absolute_offset r) - unat off"
  have fits: "request_fits target off len r" using Cons.prems(1) by simp
  have le: "?at + length (block_of target r) \<le> length pb"
    unfolding length_block_of [OF fits] using fits Cons.prems(2) by (simp add: request_fits_def, linarith)
  have len: "length (fill_block target off pb r) = unat len" using length_copy_into [OF le] Cons.prems(2) by (simp add: fill_block_def)
  have here: "fill_block target off pb r ! k = target ! (unat off + k)"
    if "k < unat len" "pb ! k = target ! (unat off + k) \<or> in_request off k r" for k
  proof (cases "in_request off k r")
    case True
    then have k: "?at \<le> k" "k < ?at + length (block_of target r)"
      unfolding length_block_of [OF fits] in_request_def block_bytes_def atLeastLessThan_iff
      using fits [unfolded request_fits_def] by linarith+
    then have "fill_block target off pb r ! k = block_of target r ! (k - ?at)"
      using nth_copy_into [OF le, of k] that(1) Cons.prems(2) by (simp add: fill_block_def)
    also have "\<dots> = target ! (unat (rq_absolute_offset r) + (k - ?at))"
      using k fits unfolding length_block_of [OF fits] by (simp add: block_of_def request_fits_def)
    finally show ?thesis using k(1) fits by (simp add: request_fits_def add.commute)
  next
    case False
    then have "\<not> (?at \<le> k \<and> k < ?at + length (block_of target r))"
      unfolding length_block_of [OF fits] in_request_def block_bytes_def atLeastLessThan_iff
      using fits [unfolded request_fits_def] by linarith
    then have "fill_block target off pb r ! k = pb ! k"
      unfolding fill_block_def using nth_copy_into [OF le, of k] that(1) Cons.prems(2) by auto
    with False that(2) show ?thesis by simp
  qed
  have "length (foldl (fill_block target off) (fill_block target off pb r) rs) = unat len \<and>
    (\<forall>k < unat len. (fill_block target off pb r ! k = target ! (unat off + k) \<or> (\<exists>r\<in>set rs. in_request off k r)) \<longrightarrow>
       foldl (fill_block target off) (fill_block target off pb r) rs ! k = target ! (unat off + k))"
    using Cons.prems(1) len by (intro Cons.IH) simp_all
  with here show ?case by auto
qed simp

text \<open>The job of a piece asks for exactly the requests of that piece.\<close>

lemma job_requests:
  assumes "jobs_ok jobs" and "job \<in> set jobs"
  shows "set (pj_requests job) = {r \<in> set (concat (map pj_requests jobs)). rq_piece_index r = pj_piece_index job}"
proof -
  have idx: "rq_piece_index r = pj_piece_index j" if "j \<in> set jobs" "r \<in> set (pj_requests j)" for j r
    using assms(1) that by (auto simp: jobs_ok_def list_all_iff)
  have "distinct (map pj_piece_index jobs)"
    using assms(1) by (simp add: jobs_ok_def strict_sorted_iff flip: sorted_wrt_map)
  then have "j = job" if "j \<in> set jobs" "pj_piece_index j = pj_piece_index job" for j
    using that assms(2) by (meson eq_key_imp_eq_value distinct_map inj_onD)
  then have "r \<in> set (pj_requests job)" if "j \<in> set jobs" "pj_piece_index j = pj_piece_index job" "r \<in> set (pj_requests j)" for j r
    using that by metis
  with idx assms(2) show ?thesis by auto
qed

lemma requests_of_job_ordered:
  "requests_ordered (concat (map pj_requests jobs)) \<Longrightarrow> job \<in> set jobs \<Longrightarrow> requests_ordered (pj_requests job)"
  by (induction jobs) (auto simp: requests_ordered_def sorted_wrt_append)

lemma requests_of_torrent:
  assumes "torrent_shape t" and "tv_piece_length t \<le> MAX_BT_PIECE_LENGTH" and "piece_count t \<le> 2 ^ 32"
    and "ranges_sorted lo ranges" and "build_block_requests t ranges = Inr wanted" and job: "job \<in> set (build_piece_jobs wanted)"
  defines "i \<equiv> unat (pj_piece_index job)"
  shows "i < piece_count t" and "list_all (torrent_request_ok t ranges) (pj_requests job)" and "requests_ordered (pj_requests job)"
    and "\<And>k. piece_bound t i \<le> k \<Longrightarrow> k < piece_bound t (Suc i) \<Longrightarrow> \<not> local_byte ranges k \<Longrightarrow> \<exists>r\<in>set (pj_requests job). k \<in> block_bytes r"
    and "\<And>r. r \<in> set (pj_requests job) \<Longrightarrow> rq_piece_index r = pj_piece_index job"
proof -
  have rs: "list_all (torrent_request_ok t ranges) wanted" "requests_ordered wanted"
    and cover: "\<And>k. k < unat (tv_total_length t) \<Longrightarrow> \<not> local_byte ranges k \<Longrightarrow> \<exists>r\<in>set wanted. k \<in> block_bytes r"
    using build_block_requests_exact [OF assms(1-4)] assms(5) by auto
  have jobs: "jobs_ok (build_piece_jobs wanted)" "concat (map pj_requests (build_piece_jobs wanted)) = wanted"
    using build_piece_jobs_ok [OF requests_by_piece [OF rs]] by auto
  note reqs = job_requests [OF jobs(1) job, unfolded jobs(2)]
  show idx: "rq_piece_index r = pj_piece_index job" if "r \<in> set (pj_requests job)" for r using that reqs by blast
  show ok: "list_all (torrent_request_ok t ranges) (pj_requests job)" using rs(1) reqs by (auto simp: list_all_iff)
  show "requests_ordered (pj_requests job)" using requests_of_job_ordered [of "build_piece_jobs wanted" job] jobs(2) rs(2) job by simp
  have "pj_requests job \<noteq> []" using jobs(1) job by (auto simp: jobs_ok_def list_all_iff)
  then obtain r where "r \<in> set (pj_requests job)" by (cases "pj_requests job") auto
  with ok idx [OF this] show i: "i < piece_count t" by (auto simp: list_all_iff torrent_request_ok_def Let_def i_def)
  show "\<exists>r\<in>set (pj_requests job). k \<in> block_bytes r"
    if k: "piece_bound t i \<le> k" "k < piece_bound t (Suc i)" "\<not> local_byte ranges k" for k
  proof -
    have "k < unat (tv_total_length t)" using k(2) piece_bound_total [of t "Suc i"] by linarith
    with cover k(3) obtain r where r: "r \<in> set wanted" "k \<in> block_bytes r" by blast
    let ?j = "unat (rq_piece_index r)"
    have "piece_bound t ?j \<le> k" "k < piece_bound t (Suc ?j)"
      using r rs(1) by (auto simp: list_all_iff torrent_request_ok_def request_ok_def Let_def block_bytes_def)
    with k(1,2) have "?j = i"
      using monoD [OF piece_bound_mono, of "Suc ?j" i t] monoD [OF piece_bound_mono, of "Suc i" ?j t] by (cases "?j = i") linarith+
    then have "rq_piece_index r = pj_piece_index job" by (simp add: i_def word_unat_eq_iff)
    with r reqs show ?thesis by blast
  qed
qed

lemma honest_job_verified:
  assumes t: "torrent_shape t" "tv_piece_length t \<le> MAX_BT_PIECE_LENGTH" "piece_count t \<le> 2 ^ 32"
    and ranges: "ranges_sorted lo ranges" and wanted: "build_block_requests t ranges = Inr wanted"
    and job: "job \<in> set (build_piece_jobs wanted)"
    and target: "length target = unat (tv_total_length t)" "length content = length target"
      "\<And>k. piece_bound t (unat (pj_piece_index job)) \<le> k \<Longrightarrow> k < piece_bound t (Suc (unat (pj_piece_index job))) \<Longrightarrow>
         local_byte ranges k \<Longrightarrow> content ! k = target ! k"
    and sha: "sha1_hex X (file_piece t target (unat (pj_piece_index job))) = tv_piece_sha1 t ! unat (pj_piece_index job)"
    and peer: "advertised (ps_availability S) (pj_piece_index job)" "\<not> ps_choked S" "ps_room S = None"
      "ps_in S = stream_of (block_answers target (pj_requests job))"
  shows "\<exists>T. receive_piece_job X t job content (\<lambda>_. False) S
    = (Inr (PieceVerified (file_piece t target (unat (pj_piece_index job)))), T) \<and> ps_out T = ps_out S @ block_asks (pj_requests job)"
proof -
  define i where "i = unat (pj_piece_index job)"
  note req = requests_of_torrent [OF t ranges wanted job, folded i_def]
  have pl: "0 < tv_piece_length t" using t(1) by (simp add: torrent_shape_def)
  have wi: "(word_of_nat i :: u64) = ucast (pj_piece_index job)"
    by (simp add: i_def word_unat_eq_iff unat_of_nat_u64 less_trans [OF unat_u32_bound])
  obtain off where off: "checked_mul (ucast (pj_piece_index job)) (tv_piece_length t) = Some off" "unat off = piece_bound t i"
    using checked_piece_offset [OF pl req(1)] unfolding wi by blast
  obtain len where len: "torrent_piece_length t i = Inr len" "unat len = piece_bound t (Suc i) - piece_bound t i"
    using torrent_piece_length_eq [OF pl req(1)] by blast
  have b: "piece_bound t i < piece_bound t (Suc i)" "piece_bound t (Suc i) \<le> length target"
    using piece_bounds(2) [OF pl req(1)] piece_bound_total [of t "Suc i"] target(1) by simp_all
  have fits: "list_all (request_fits target off len) (pj_requests job)"
  proof (unfold list_all_iff, rule ballI)
    fix r assume r: "r \<in> set (pj_requests job)"
    then have "request_ok ranges i (piece_bound t i) (piece_bound t (Suc i)) r"
      using req(2) req(5) [OF r] by (auto simp: list_all_iff torrent_request_ok_def Let_def i_def)
    with b show "request_fits target off len r" by (simp add: request_fits_def request_ok_def off(2) len(2))
  qed
  have keys: "distinct (map request_key (pj_requests job))"
  proof -
    have "request_key r \<noteq> request_key s" if "r \<in> set (pj_requests job)" "s \<in> set (pj_requests job)"
      "unat (rq_absolute_offset r) + unat (rq_length r) \<le> unat (rq_absolute_offset s)" for r s
    proof -
      have "unat (rq_absolute_offset r) = piece_bound t i + unat (rq_begin r)" "0 < unat (rq_length r)"
        "unat (rq_absolute_offset s) = piece_bound t i + unat (rq_begin s)"
        using req(2) req(5) [OF that(1)] req(5) [OF that(2)] that(1,2)
        by (auto simp: list_all_iff torrent_request_ok_def request_ok_def Let_def i_def word_less_nat_alt)
      with that(3) show ?thesis by (auto simp: request_key_def)
    qed
    then have "sorted_wrt (\<lambda>r s. request_key r \<noteq> request_key s) (pj_requests job)"
      using req(3) unfolding requests_ordered_def by (rule sorted_wrt_mono_rel)
    moreover have "distinct (map f xs)" if "sorted_wrt (\<lambda>r s. f r \<noteq> f s) xs" for f :: "block_request \<Rightarrow> u32 \<times> u32" and xs
      using that by (induction xs) auto
    ultimately show ?thesis by blast
  qed
  let ?orig = "take (unat len) (drop (unat off) content)"
  have orig: "length ?orig = unat len" "read_at content off len = Inr ?orig"
    using b target(2) by (simp_all add: read_at_def off(2) len(2))
  have "unat off + unat len < 18446744073709551616"
    using b target(1) off(2) len(2) unat_u64_bound [of "tv_total_length t"] by linarith
  then have "unat off + unat len < 2 ^ 64" by simp
  from receive_blocks_honest [OF this, of S target "[]" "pj_requests job" 0 ?orig] peer keys fits
  obtain T where T: "receive_blocks off len (\<lambda>_. False) 0 (pj_requests job) [] ?orig S
      = (Inr (Some (foldl (fill_block target off) ?orig (pj_requests job))), T)" "ps_out T = ps_out S @ block_asks (pj_requests job)" by auto
  have filled: "foldl (fill_block target off) ?orig (pj_requests job) = file_piece t target i"
  proof (rule nth_equalityI)
    note f = fill_blocks [OF fits orig(1)]
    show l: "length (foldl (fill_block target off) ?orig (pj_requests job)) = length (file_piece t target i)"
      using f b len(2) by (simp add: file_piece_def)
    fix k assume "k < length (foldl (fill_block target off) ?orig (pj_requests job))"
    then have k: "k < unat len" using f by simp
    then have kb: "unat off + k < length content" "unat off + k < piece_bound t (Suc i)" using b target(2) off(2) len(2) by simp_all
    have "?orig ! k = target ! (unat off + k) \<or> (\<exists>r\<in>set (pj_requests job). in_request off k r)"
    proof (cases "local_byte ranges (unat off + k)")
      case True
      with k kb(1,2) target(2) target(3) [folded i_def, of "unat off + k"] off(2) show ?thesis by simp
    next
      case False
      with req(4) [of "unat off + k"] kb(2) off(2) show ?thesis by (auto simp: in_request_def)
    qed
    with f k have "foldl (fill_block target off) ?orig (pj_requests job) ! k = target ! (unat off + k)" by blast
    then show "foldl (fill_block target off) ?orig (pj_requests job) ! k = file_piece t target i ! k"
      using k kb target(2) by (simp add: file_piece_def off(2) len(2))
  qed
  show ?thesis
    using peer(1) sha off(1) len(1) orig(2) T
    by (simp add: receive_piece_job_def then_do_def pass_def ok_or_def filled flip: i_def)
qed

end
