(* ===== verification/Bt_Download_Properties.thy ===== *)
theory Bt_Download_Properties
  imports Bt_Properties Bt_Fetch_Safety Bt_Receive_Liveness
begin

text \<open>
  The properties of a download from BitTorrent peers, from the blocks asked for to the file that is
  published, each with an instance at the sample torrent.
\<close>

section \<open>A sample download\<close>

text \<open>The sample torrent with an empty index: one block of one byte is missing.\<close>

definition tiny_request :: block_request where
  "tiny_request = \<lparr>rq_piece_index = 0, rq_begin = 0, rq_length = 1, rq_absolute_offset = 0\<rparr>"

definition tiny_job :: piece_job where
  "tiny_job = \<lparr>pj_piece_index = 0, pj_requests = [tiny_request], pj_attempt = 0, pj_endgame_duplicate = False\<rparr>"

definition claimed_run :: download_run where
  "claimed_run = \<lparr>dr_scheduler = (initial_scheduler [tiny_request] 1)\<lparr>sc_queue := [],
     sc_active := [(0, \<lparr>aj_job = tiny_job, aj_claims = 1, aj_completed = False\<rparr>)]\<rparr>, dr_held = [tiny_job], dr_verified = []\<rparr>"

lemma tiny_jobs: "build_piece_jobs [tiny_request] = [tiny_job]"
  by (simp add: build_piece_jobs_def add_request_def tiny_job_def tiny_request_def)

lemma tiny_requests: "build_block_requests tiny_torrent [] = Inr [tiny_request]"
proof -
  have "piece_blocks [] 0 0 1 0 [] = Inr [tiny_request]"
    by (subst piece_blocks.simps) (simp add: piece_blocks.simps BLOCK_LENGTH_def block_covered_def u32_from_def tiny_request_def)
  then show ?thesis
    by (simp add: build_block_requests_def build_piece_requests_def tiny_torrent_def checked_mul_def tiny_bounds Let_def ok_or_def)
qed

lemma tiny_claim: "claim_piece_job [True] (initial_scheduler [tiny_request] n) =
    ClaimJob tiny_job ((initial_scheduler [tiny_request] n)\<lparr>sc_queue := [],
      sc_active := [(0, \<lparr>aj_job = tiny_job, aj_claims = 1, aj_completed = False\<rparr>)]\<rparr>)"
  by (simp add: claim_piece_job_def choose_position_def initial_scheduler_def tiny_jobs advertised_def tiny_job_def Let_def)

lemma claimed_run_reached: "scheduler_step\<^sup>*\<^sup>* (start_run [tiny_request] 1) claimed_run"
proof -
  have "scheduler_step (start_run [tiny_request] 1) claimed_run"
    using scheduler_step.claim [of "[True]" "start_run [tiny_request] 1"] tiny_claim [of 1]
    by (simp add: start_run_def claimed_run_def)
  then show ?thesis by simp
qed

section \<open>The scheduler\<close>

lemma rq_index_jobs:
  assumes "jobs_ok jobs"
  shows "pj_piece_index ` set jobs = rq_piece_index ` set (concat (map pj_requests jobs))"
proof -
  have idx: "rq_piece_index r = pj_piece_index j" if "j \<in> set jobs" "r \<in> set (pj_requests j)" for j r
    using assms that by (auto simp: jobs_ok_def list_all_iff)
  have "rq_piece_index ` set (pj_requests j) = {pj_piece_index j}" if "j \<in> set jobs" for j
  proof -
    have "pj_requests j \<noteq> []" using assms that by (simp add: jobs_ok_def list_all_iff)
    with idx [OF that] show ?thesis by (cases "pj_requests j") auto
  qed
  then have "rq_piece_index ` set (concat (map pj_requests jobs)) = (\<Union>j\<in>set jobs. {pj_piece_index j})" by (simp add: image_UN)
  then show ?thesis by auto
qed

lemma scheduler_facts:
  assumes run: "run_inv (build_piece_jobs rqs) d" and sorted: "sorted_wrt (\<le>) (map rq_piece_index rqs)"
  shows "pj_piece_index ` set (sc_queue (dr_scheduler d)) \<union> dom (map_of (sc_active (dr_scheduler d))) \<union> set (dr_verified d)
      = rq_piece_index ` set rqs"
    and "dr_held d = [] \<Longrightarrow> set (unfinished_pieces (dr_scheduler d)) = rq_piece_index ` set rqs - set (dr_verified d)"
    and "claim_piece_job available (dr_scheduler d) = ClaimWait \<Longrightarrow> dr_held d \<noteq> []"
    and "claim_piece_job available (dr_scheduler d) = ClaimJob job s \<Longrightarrow>
      set (pj_requests job) = {r \<in> set rqs. rq_piece_index r = pj_piece_index job}"
proof -
  have jobs: "jobs_ok (build_piece_jobs rqs)" "concat (map pj_requests (build_piece_jobs rqs)) = rqs"
    using build_piece_jobs_ok [OF sorted] by auto
  note q = run_invD(3) [OF run, unfolded queue_ok_def rq_index_jobs [OF jobs(1)] jobs(2)]
  show "pj_piece_index ` set (sc_queue (dr_scheduler d)) \<union> dom (map_of (sc_active (dr_scheduler d))) \<union> set (dr_verified d)
      = rq_piece_index ` set rqs" using q by blast
  have active: "map_of (sc_active (dr_scheduler d)) i = Some a \<Longrightarrow> 0 < held_of i (dr_held d)" for i a
    using run_invD(6) [OF run, of i a] by (auto simp: active_ok_def)
  have none: "sc_active (dr_scheduler d) = []" if "dr_held d = []"
  proof (rule ccontr)
    assume "sc_active (dr_scheduler d) \<noteq> []"
    then obtain i a rest where "sc_active (dr_scheduler d) = (i, a) # rest" by (cases "sc_active (dr_scheduler d)") auto
    with active [of i a] that show False by simp
  qed
  show "set (unfinished_pieces (dr_scheduler d)) = rq_piece_index ` set rqs - set (dr_verified d)" if "dr_held d = []"
    using q none [OF that] by (auto simp: unfinished_pieces_def)
  show "dr_held d \<noteq> []" if "claim_piece_job available (dr_scheduler d) = ClaimWait"
    using that none by (auto simp: claim_piece_job_def Let_def split: option.splits if_splits)
  show "set (pj_requests job) = {r \<in> set rqs. rq_piece_index r = pj_piece_index job}"
    if c: "claim_piece_job available (dr_scheduler d) = ClaimJob job s"
  proof -
    have "asks_as (build_piece_jobs rqs) job"
      using claim_ok [OF run c] by (auto dest: run_okD(4))
    then obtain k where k: "k \<in> set (build_piece_jobs rqs)" "pj_piece_index k = pj_piece_index job" "pj_requests k = pj_requests job"
      by (auto simp: asks_as_def)
    with job_requests [OF jobs(1) k(1)] jobs(2) show ?thesis by simp
  qed
qed

text \<open>C25: However the workers interleave, no piece is lost: each piece asked for is queued, held by one or two
  workers, or verified, and is never queued twice. Handing a held job in never fails, a worker waits only while
  another one holds a job, a claimed job asks for exactly the missing blocks of its piece, and once no job is
  held the pieces reported unfinished are exactly those not verified.\<close>

theorem no_piece_is_lost:
  assumes "scheduler_step\<^sup>*\<^sup>* (start_run rqs n_pieces) d" and "sorted_wrt (\<le>) (map rq_piece_index rqs)"
  shows "pj_piece_index ` set (sc_queue (dr_scheduler d)) \<union> dom (map_of (sc_active (dr_scheduler d))) \<union> set (dr_verified d)
      = rq_piece_index ` set rqs
    \<and> distinct (map pj_piece_index (sc_queue (dr_scheduler d))) \<and> distinct (dr_verified d)
    \<and> pj_piece_index ` set (sc_queue (dr_scheduler d)) \<inter> (dom (map_of (sc_active (dr_scheduler d))) \<union> set (dr_verified d)) = {}
    \<and> (\<forall>i\<in>dom (map_of (sc_active (dr_scheduler d))). held_of i (dr_held d) \<in> {1, 2})
    \<and> (\<forall>job\<in>set (dr_held d). \<exists>first s. finish_piece_job job outcome (dr_scheduler d) = Inr (first, s))
    \<and> (claim_piece_job available (dr_scheduler d) = ClaimWait \<longrightarrow> dr_held d \<noteq> [])
    \<and> (\<forall>job s. claim_piece_job available (dr_scheduler d) = ClaimJob job s \<longrightarrow>
         set (pj_requests job) = {r \<in> set rqs. rq_piece_index r = pj_piece_index job})
    \<and> (dr_held d = [] \<longrightarrow> set (unfinished_pieces (dr_scheduler d)) = rq_piece_index ` set rqs - set (dr_verified d))"
proof -
  have run: "run_inv (build_piece_jobs rqs) d" by (rule scheduler_run_inv [OF assms])
  note facts = scheduler_facts [OF run assms(2)]
  have "held_of i (dr_held d) \<in> {1, 2}" if "i \<in> dom (map_of (sc_active (dr_scheduler d)))" for i
  proof -
    from that obtain a where "map_of (sc_active (dr_scheduler d)) i = Some a" by blast
    from run_invD(6) [OF run this] show ?thesis by (auto simp: active_ok_def)
  qed
  moreover have "distinct (map pj_piece_index (sc_queue (dr_scheduler d)))"
    "pj_piece_index ` set (sc_queue (dr_scheduler d)) \<inter> (dom (map_of (sc_active (dr_scheduler d))) \<union> set (dr_verified d)) = {}"
    using run_invD(3) [OF run] by (auto simp: queue_ok_def)
  ultimately show ?thesis
    by (intro conjI ballI allI impI)
       (simp_all only: facts run_invD(2) [OF run] finish_succeeds [OF run] not_False_eq_True)
qed

theorem no_piece_is_lost_witness:
  "dom (map_of (sc_active (dr_scheduler claimed_run))) = {0} \<and> held_of 0 (dr_held claimed_run) = 1
    \<and> (\<exists>first s. finish_piece_job tiny_job Failed (dr_scheduler claimed_run) = Inr (first, s))"
  using no_piece_is_lost [OF claimed_run_reached, of Failed "[True]"]
  by (simp add: claimed_run_def tiny_request_def tiny_job_def)

section \<open>The blocks asked for\<close>

text \<open>C26: The requests of a download are exact: they come in order and do not overlap, each lies inside its piece,
  has at most 16 KiB and holds a byte that no local chunk gives, and together with the local chunks they cover
  the whole target; what was written of local chunks is at its place in the partial file.\<close>

theorem missing_blocks_requested_exactly:
  assumes "write_local_chunks (bx_cdc X) db fs d content = Inr (content', ranges, n)" and "td_validate (bx_cdc X) d = Inr ()"
    and "length content = unat (ti_size (td_target d))" and "tv_total_length t = ti_size (td_target d)"
    and "torrent_shape t" and "tv_piece_length t \<le> MAX_BT_PIECE_LENGTH" and "piece_count t \<le> 2 ^ 32"
  shows "\<exists>rs. build_block_requests t ranges = Inr rs \<and> requests_ordered rs \<and> list_all (torrent_request_ok t ranges) rs
    \<and> (\<forall>k<length content. held (bx_cdc X) db fs (td_chunks d) k \<or> (\<exists>r\<in>set rs. k \<in> block_bytes r))
    \<and> (\<forall>k<length content. held (bx_cdc X) db fs (td_chunks d) k \<longrightarrow> content' ! k = local_image (bx_cdc X) db fs (td_chunks d) ! k)
    \<and> (\<forall>r\<in>set rs. \<exists>k\<in>block_bytes r. \<not> held (bx_cdc X) db fs (td_chunks d) k)"
proof -
  note w = write_local_chunks_exact [OF assms(1-3)]
  obtain rs where rs: "build_block_requests t ranges = Inr rs" "list_all (torrent_request_ok t ranges) rs" "requests_ordered rs"
    and cover: "\<And>k. k < unat (tv_total_length t) \<Longrightarrow> \<not> local_byte ranges k \<Longrightarrow> \<exists>r\<in>set rs. k \<in> block_bytes r"
    using build_block_requests_exact [OF assms(5-7) w(1)] by blast
  have "\<exists>k\<in>block_bytes r. \<not> held (bx_cdc X) db fs (td_chunks d) k" if "r \<in> set rs" for r
    using rs(2) that w(3) by (auto simp: list_all_iff torrent_request_ok_def request_ok_def Let_def)
  moreover have "held (bx_cdc X) db fs (td_chunks d) k \<or> (\<exists>r\<in>set rs. k \<in> block_bytes r)" if "k < length content" for k
    using cover [of k] w(3) [of k] that assms(3,4) by auto
  ultimately show ?thesis using rs w(4) by auto
qed

theorem missing_blocks_requested_exactly_witness:
  "requests_ordered [tiny_request] \<and> list_all (torrent_request_ok tiny_torrent []) [tiny_request] \<and> block_bytes tiny_request = {0}"
proof -
  have "write_local_chunks (bx_cdc inst_bt) bare_index sample_files tiny_descriptor [0] = Inr ([0], [], 0)"
    by (simp add: write_local_chunks_def write_local_chunk_def tiny_descriptor_parts inst_bt_def bare_index_lookup)
  from missing_blocks_requested_exactly [OF this, of tiny_torrent] tiny_torrent_shape tiny_descriptor_valid tiny_requests
  show ?thesis
    by (simp add: inst_bt_def tiny_descriptor_parts tiny_torrent_def MAX_BT_PIECE_LENGTH_def piece_count_def expected_pieces_def
        div_ceil_def block_bytes_def tiny_request_def atLeastLessThan_def) auto
qed

section \<open>Receiving a piece\<close>

text \<open>C27: Whatever a peer sends, a piece is taken as verified only when its bytes have the SHA-1 of the torrent, have
  the length of the piece, and differ from the local file only inside the blocks that were asked for; the peer
  had advertised the piece.\<close>

theorem peer_bytes_confined:
  assumes "receive_piece_job X t job content completed S = (Inr (PieceVerified bs), U)"
    and "torrent_shape t" and "unat (pj_piece_index job) < piece_count t" and "length content = unat (tv_total_length t)"
  shows "sha1_hex X bs = tv_piece_sha1 t ! unat (pj_piece_index job)
    \<and> length bs = length (file_piece t content (unat (pj_piece_index job)))
    \<and> advertised (ps_availability S) (pj_piece_index job)
    \<and> (\<forall>k<length bs. bs ! k \<noteq> file_piece t content (unat (pj_piece_index job)) ! k \<longrightarrow>
         (\<exists>r\<in>set (pj_requests job). piece_bound t (unat (pj_piece_index job)) + k \<in> block_bytes r))"
  using assms(1)
proof (rule receive_piece_job_verified)
  let ?i = "unat (pj_piece_index job)"
  fix offset len
  assume o: "checked_mul (ucast (pj_piece_index job)) (tv_piece_length t) = Some offset"
    and l: "torrent_piece_length t ?i = Inr len" and bs: "length bs = unat len" and sha: "sha1_hex X bs = tv_piece_sha1 t ! ?i"
    and keep: "\<And>k. k < length bs \<Longrightarrow> (\<And>r. r \<in> set (pj_requests job) \<Longrightarrow> unat offset + k \<notin> block_bytes r) \<Longrightarrow> bs ! k = content ! (unat offset + k)"
  have pl: "0 < tv_piece_length t" using assms(2) by (simp add: torrent_shape_def)
  obtain off' len' where p: "checked_mul (word_of_nat ?i) (tv_piece_length t) = Some off'" "unat off' = piece_bound t ?i"
    "torrent_piece_length t ?i = Inr len'" "unat len' = piece_bound t (Suc ?i) - piece_bound t ?i"
    "piece_bound t ?i < piece_bound t (Suc ?i)" "piece_bound t (Suc ?i) \<le> unat (tv_total_length t)"
    by (rule piece_place [OF pl assms(3)])
  have off: "unat offset = piece_bound t ?i" using o p(1,2) by (simp add: ucast_index)
  have len: "unat len = piece_bound t (Suc ?i) - piece_bound t ?i" using l p(3,4) by simp
  have fp: "length (file_piece t content ?i) = unat len" using p(5,6) len assms(4) by (simp add: file_piece_def)
  have "\<exists>r\<in>set (pj_requests job). piece_bound t ?i + k \<in> block_bytes r"
    if k: "k < length bs" "bs ! k \<noteq> file_piece t content ?i ! k" for k
  proof (rule ccontr)
    assume "\<not> ?thesis"
    then have "bs ! k = content ! (piece_bound t ?i + k)" using keep [OF k(1)] off by auto
    also have "\<dots> = file_piece t content ?i ! k" using k(1) bs len p(6) assms(4) by (simp add: file_piece_def)
    finally show False using k(2) by simp
  qed
  moreover have "advertised (ps_availability S) (pj_piece_index job)"
    using assms(1) by (auto simp: receive_piece_job_def split: if_splits)
  ultimately show ?thesis using sha bs fp by simp
qed

text \<open>A peer that has unchoked and answers the one request of the sample torrent.\<close>

definition tiny_session :: peer_session where
  "tiny_session = \<lparr>ps_in = stream_of (block_answers [7] [tiny_request]), ps_out = [], ps_room = None, ps_availability = [True],
     ps_choked = False, ps_block_requests_sent = 0, ps_payload_bytes_received = 0, ps_cancel_messages_sent = 0\<rparr>"

lemma tiny_parts: "tv_total_length tiny_torrent = 1" "tv_piece_sha1 tiny_torrent = [sha1_hex inst_bt [7]]"
  "pj_piece_index tiny_job = 0" "pj_requests tiny_job = [tiny_request]"
  "ps_in tiny_session = stream_of (block_answers [7] [tiny_request])" "ps_room tiny_session = None" "\<not> ps_choked tiny_session"
  "advertised (ps_availability tiny_session) 0"
  by (simp_all add: tiny_torrent_def tiny_job_def tiny_session_def advertised_def)

lemma tiny_bounds_piece: "piece_count tiny_torrent = 1" "piece_bound tiny_torrent (Suc 0) = 1"
  by (simp_all add: piece_count_def expected_pieces_def div_ceil_def tiny_torrent_def piece_bound_def)

lemma tiny_file_piece: "file_piece tiny_torrent [b] 0 = [b]"
  by (simp add: file_piece_def tiny_bounds_piece)

lemma tiny_limits: "tv_piece_length tiny_torrent \<le> MAX_BT_PIECE_LENGTH" "piece_count tiny_torrent \<le> 2 ^ 32"
  by (simp_all add: tiny_bounds_piece) (simp add: tiny_torrent_def MAX_BT_PIECE_LENGTH_def)

lemma tiny_received:
  "\<exists>T. receive_piece_job inst_bt tiny_torrent tiny_job [0] (\<lambda>_. False) tiny_session = (Inr (PieceVerified [7]), T)"
  using honest_job_verified [OF tiny_torrent_shape tiny_limits _ tiny_requests, of 0 tiny_job "[7]" "[0]" inst_bt tiny_session]
  by (auto simp: tiny_jobs local_byte_def tiny_parts tiny_file_piece)

theorem peer_bytes_confined_witness:
  "sha1_hex inst_bt [7] = tv_piece_sha1 tiny_torrent ! 0 \<and> block_bytes tiny_request = {0}"
proof -
  obtain T where T: "receive_piece_job inst_bt tiny_torrent tiny_job [0] (\<lambda>_. False) tiny_session = (Inr (PieceVerified [7]), T)"
    using tiny_received by blast
  from peer_bytes_confined [OF T tiny_torrent_shape] show ?thesis
    by (simp add: tiny_bounds_piece tiny_parts tiny_file_piece block_bytes_def tiny_request_def atLeastLessThanSuc)
qed

text \<open>C28: A peer that answers every request in turn with the right bytes completes any job of a download: the blocks
  it sends and the bytes already local make the piece, and it is verified.\<close>

theorem honest_peer_completes_job:
  assumes "torrent_shape t" and "tv_piece_length t \<le> MAX_BT_PIECE_LENGTH" and "piece_count t \<le> 2 ^ 32"
    and "ranges_sorted lo ranges" and "build_block_requests t ranges = Inr wanted" and "job \<in> set (build_piece_jobs wanted)"
    and "length target = unat (tv_total_length t)" and "length content = length target"
    and "\<And>k. k < length target \<Longrightarrow> local_byte ranges k \<Longrightarrow> content ! k = target ! k"
    and "piece_valid X t target (unat (pj_piece_index job))"
    and "advertised (ps_availability S) (pj_piece_index job)" and "\<not> ps_choked S" and "ps_room S = None"
    and "ps_in S = stream_of (block_answers target (pj_requests job))"
  shows "\<exists>T. receive_piece_job X t job content (\<lambda>_. False) S
    = (Inr (PieceVerified (file_piece t target (unat (pj_piece_index job)))), T)"
proof -
  have "content ! k = target ! k"
    if "k < piece_bound t (Suc (unat (pj_piece_index job)))" "local_byte ranges k" for k
    using assms(9) [of k] that piece_bound_total [of t "Suc (unat (pj_piece_index job))"] assms(7) by simp
  with honest_job_verified [OF assms(1-8) _ _ assms(11-14)] assms(10) show ?thesis by (auto simp: piece_valid_def)
qed

theorem honest_peer_completes_job_witness:
  "\<exists>T. receive_piece_job inst_bt tiny_torrent tiny_job [0] (\<lambda>_. False) tiny_session = (Inr (PieceVerified [7]), T)"
  using honest_peer_completes_job [OF tiny_torrent_shape tiny_limits _ tiny_requests, of 0 tiny_job "[7]" "[0]" inst_bt tiny_session]
  by (simp add: tiny_jobs local_byte_def piece_valid_def tiny_file_piece tiny_parts)

section \<open>The files of a download\<close>

text \<open>The sample download, step by step: an empty directory, one peer.\<close>

definition sample_resume_ext :: resume_ext where
  "sample_resume_ext = \<lparr>rx_json = \<lambda>_. Inr [], rx_json_parse = \<lambda>_. Inl (Foreign ''json'')\<rparr>"

definition sample_peer :: socket_addr where
  "sample_peer = (V4 [127, 0, 0, 1], 6881)"

definition bare_plan :: bt_bridge_report where
  "bare_plan = tiny_plan\<lparr>br_fully_local_pieces := 0, br_missing_pieces := 1, br_locally_covered_bytes := 0, br_missing_bytes := 1,
     br_fully_reconstructable_piece_bytes := 0, br_pieces := [\<lparr>pp_index = 0, pp_offset = 0, pp_length = 1,
       pp_expected_sha1 = sha1_hex inst_bt [7], pp_locally_covered_bytes = 0, pp_missing_bytes = 1, pp_fully_local = False,
       pp_local_sha1_verified = False\<rparr>]\<rparr>"

lemma bare_plan_made: "plan_v1_bridge inst_bt bare_index Map.empty tiny_torrent tiny_descriptor = Inr bare_plan"
proof -
  have "cover_chunk inst_cdc bare_index Map.empty 0 1 ([0], 0) \<lparr>ck_offset = 0, ck_length = 1, ck_hash = inst_blake3 [7]\<rparr>
      = Inr ([0], 0)"
    by (simp add: cover_chunk_def bare_index_lookup)
  then have "plan_piece inst_bt bare_index Map.empty tiny_torrent tiny_descriptor
     \<lparr>bs_locally_covered_bytes = 0, bs_fully_reconstructable_piece_bytes = 0, bs_fully_local_pieces = 0,
          bs_partially_local_pieces = 0, bs_pieces = []\<rparr> (0, sha1_hex inst_bt [7])
     = Inr \<lparr>bs_locally_covered_bytes = 0, bs_fully_reconstructable_piece_bytes = 0, bs_fully_local_pieces = 0,
          bs_partially_local_pieces = 0, bs_pieces = br_pieces bare_plan\<rparr>"
    by (simp add: plan_piece_def tiny_torrent_def tiny_descriptor_parts checked_mul_def tiny_bounds inst_bt_def bare_plan_def)
  then show ?thesis
    using tiny_descriptor_valid bare_index_profile
    by (simp add: plan_v1_bridge_def inst_bt_def tiny_torrent_def tiny_descriptor_parts)
       (simp add: bare_plan_def tiny_plan_def tiny_torrent_def inst_bt_def)
qed

definition sample_fetch_plan :: fetch_plan where
  "sample_fetch_plan = \<lparr>fp_bridge = bare_plan,
     fp_resume = \<lparr>rf_partial_path = fst (resume_paths ''out''), rf_state_path = snd (resume_paths ''out''),
       rf_state = \<lparr>bs_format = RESUME_FORMAT, bs_version = RESUME_VERSION, bs_info_hash_sha1 = tv_info_hash_sha1 tiny_torrent,
         bs_target_sha256 = ti_sha256 (td_target tiny_descriptor), bs_target_bytes = 1, bs_piece_length = 4,
         bs_completed_pieces = [False]\<rparr>, rf_resumed_verified_pieces = 0, rf_resumed_verified_piece_bytes = 0\<rparr>,
     fp_local_bytes_available = 0, fp_requests = [tiny_request], fp_network_payload_avoided_by_resume = 0,
     fp_remaining_missing_bytes_before_run = 1\<rparr>"

definition sample_started :: file_system where
  "sample_started = [fst (resume_paths ''out'') \<mapsto> Regular [0] (Inr 0), snd (resume_paths ''out'') \<mapsto> Regular [10] (Inr 0)]"

lemma sample_start:
  "fetch_start inst_bt sample_resume_ext bare_index (\<lambda>_. None) (Inr 0) tiny_torrent tiny_descriptor [sample_peer] ''out'' Map.empty
     = (Inr sample_fetch_plan, sample_started)"
proof -
  have o: "open_resume_file inst_bt sample_resume_ext (\<lambda>_. None) (Inr 0) tiny_torrent tiny_descriptor ''out'' Map.empty
     = (Inr (fp_resume sample_fetch_plan), sample_started)"
    using resume_paths_distinct [of "''out''"]
    by (simp add: open_resume_file_def case_prod_beta' create_resume_file_def persist_resume_state_def sample_resume_ext_def
        sample_fetch_plan_def sample_started_def tiny_torrent_def)
  have r: "fs_read sample_started (rf_partial_path (fp_resume sample_fetch_plan)) = Inr [0]"
    using resume_paths_distinct [of "''out''"] by (simp add: fs_read_def sample_started_def sample_fetch_plan_def)
  have w: "write_local_until (bx_cdc inst_bt) bare_index sample_started (rf_partial_path (fp_resume sample_fetch_plan)) (Inr 0)
      (td_chunks tiny_descriptor) ([0], [], 0) = (Inr ([], 0), [0])"
    by (simp add: tiny_descriptor_parts write_local_chunk_def inst_bt_def bare_index_lookup)
  have same: "sample_started(rf_partial_path (fp_resume sample_fetch_plan) \<mapsto> Regular [0] (Inr 0)) = sample_started"
    using resume_paths_distinct [of "''out''"] by (simp add: sample_started_def sample_fetch_plan_def fun_eq_iff)
  show ?thesis
    by (simp add: fetch_start_def bare_plan_made o r w same tiny_requests)
       (simp add: sample_fetch_plan_def tiny_request_def bare_plan_def)
qed

text \<open>The one worker claims the piece, receives and commits it, and hands the job in.\<close>

definition sample_end :: download where
  "sample_end = \<lparr>dl_run = \<lparr>dr_scheduler = (initial_scheduler [tiny_request] 1)\<lparr>sc_queue := []\<rparr>, dr_held = [], dr_verified = [0]\<rparr>,
     dl_content = [7], dl_completed = [True], dl_committed = [0]\<rparr>"

lemma sample_steps: "(download_step inst_bt tiny_torrent)\<^sup>*\<^sup>* (start_download tiny_torrent [tiny_request] [0] [False]) sample_end"
proof -
  define w0 where "w0 = start_download tiny_torrent [tiny_request] [0] [False]"
  define w1 where "w1 = w0\<lparr>dl_run := claimed_run\<rparr>"
  define w2 where "w2 = w1\<lparr>dl_content := [7], dl_completed := [True], dl_committed := [0]\<rparr>"
  have n: "length (tv_piece_sha1 tiny_torrent) = 1" by (simp add: tiny_torrent_def)
  have 1: "download_step inst_bt tiny_torrent w0 w1"
    using download_step.claim [of "[True]" w0] tiny_claim [of 1]
    by (simp add: w0_def w1_def start_download_def start_run_def claimed_run_def n)
  obtain T where T: "receive_piece_job inst_bt tiny_torrent tiny_job [0] (\<lambda>_. False) tiny_session = (Inr (PieceVerified [7]), T)"
    using tiny_received by blast
  have first: "0 < tv_piece_length tiny_torrent" "0 < piece_count tiny_torrent"
    using tiny_torrent_shape by (simp_all add: torrent_shape_def tiny_bounds_piece)
  have "commit_verified_piece tiny_torrent [0] 0 [7] = Inr [7]"
    by (rule piece_place [OF first]) (simp add: commit_verified_piece_def tiny_bounds_piece write_at_def ok_or_def)
  with download_step.commit [of tiny_job w1, OF _ T, of "[7]" True]
  have 2: "download_step inst_bt tiny_torrent w1 w2"
    by (simp add: w0_def w1_def w2_def start_download_def start_run_def claimed_run_def tiny_parts piece_job_completed_def)
  have "finish_piece_job tiny_job Success (dr_scheduler claimed_run) = Inr (True, (initial_scheduler [tiny_request] 1)\<lparr>sc_queue := []\<rparr>)"
    by (simp add: finish_piece_job_def claimed_run_def tiny_parts ok_or_def initial_scheduler_def)
  with download_step.success [of tiny_job w2]
  have 3: "download_step inst_bt tiny_torrent w2 sample_end"
    by (simp add: w0_def w1_def w2_def start_download_def start_run_def claimed_run_def tiny_parts sample_end_def)
  from 1 2 3 show ?thesis unfolding w0_def [symmetric] by (meson converse_rtranclp_into_rtranclp rtranclp.rtrancl_refl)
qed

definition sample_worker :: bt_peer_worker_report where
  "sample_worker = (new_worker_report sample_peer 1)\<lparr>wr_remote_peer_id_hex := Some ''2d'', wr_remote_reserved_hex := Some ''00'',
     wr_available_pieces := [True], wr_block_requests_sent := 1, wr_payload_bytes_received := 1, wr_pieces_verified := 1,
     wr_verified_piece_indices := [0]\<rparr>"

definition sample_saved :: fs_node where
  "sample_saved = Regular [10] (Inr 1)"

lemma sample_finish:
  "\<exists>rep. fetch_finish inst_bt (\<lambda>_. None) tiny_torrent tiny_descriptor sample_fetch_plan [sample_peer] ''out''
     (dr_scheduler (dl_run sample_end)) [sample_worker]
     (sample_started(rf_partial_path (fp_resume sample_fetch_plan) \<mapsto> Regular [7] (Inr 1),
        rf_state_path (fp_resume sample_fetch_plan) \<mapsto> sample_saved)) = (Inr rep, [''out'' \<mapsto> Regular [7] (Inr 1)])"
proof -
  let ?p = "rf_partial_path (fp_resume sample_fetch_plan)" and ?s = "rf_state_path (fp_resume sample_fetch_plan)"
  let ?fs = "sample_started(?p \<mapsto> Regular [7] (Inr 1), ?s \<mapsto> sample_saved)"
  have p: "?p = fst (resume_paths ''out'')" "?s = snd (resume_paths ''out'')" by (simp_all add: sample_fetch_plan_def)
  note d = resume_paths_distinct [of "''out''", folded p]
  have v: "verify_all_pieces inst_bt [7] tiny_torrent = Inr ()"
    using verify_all_pieces_iff [OF tiny_torrent_shape, of "[7]" inst_bt]
    by (simp add: tiny_bounds_piece tiny_parts piece_valid_def tiny_file_piece)
  have "sha256_file (bx_cdc inst_bt) (Inr [Inr [7], Inr []]) = Inr (ti_sha256 (td_target tiny_descriptor))"
    using sha256_file_blocks [OF read_blocks_once, of inst_cdc "[7]"]
    by (simp add: tiny_descriptor_parts inst_bt_def inst_cdc_fields)
  then have sha: "sha256_file (bx_cdc inst_bt) (fs_reads ?fs ?p) = Inr (ti_sha256 (td_target tiny_descriptor))"
    using d by (simp add: fs_reads_def)
  have r: "fs_read ?fs ?p = Inr [7]" using d by (simp add: fs_read_def)
  have u: "unfinished_pieces (dr_scheduler (dl_run sample_end)) = []"
    by (simp add: unfinished_pieces_def sample_end_def initial_scheduler_def)
  obtain rep where rep: "fetch_report_of tiny_torrent sample_fetch_plan [sample_peer] (dr_scheduler (dl_run sample_end)) [sample_worker]
      (ti_sha256 (td_target tiny_descriptor)) = Inr rep"
    by (simp add: fetch_report_of_def Let_def last_max_def sample_worker_def new_worker_report_def ok_or_def checked_sub_def
        sample_fetch_plan_def)
  have "(?fs(''out'' := ?fs ?p, ?p := None))(?s := None) = [''out'' \<mapsto> Regular [7] (Inr 1)]"
    using d by (auto simp: fun_eq_iff p sample_started_def)
  moreover have "?fs ''out'' = None" using d by (auto simp: p sample_started_def)
  ultimately show ?thesis
    using d by (simp add: fetch_finish_def Let_def u r v sha rep persist_completed_output_def domIff)
qed

text \<open>C29: Whatever the peers send and however the workers interleave, a piece that the resume state calls complete, or
  that a worker has reported, has the SHA-1 of the torrent in the partial file; pieces nobody asked for stay as
  they were. When all jobs are handed in, nothing is unfinished and the other pieces were right, the last check
  of all pieces succeeds.\<close>

theorem committed_pieces_stay_valid:
  assumes "(download_step X t)\<^sup>*\<^sup>* (start_download t (filter P rs) content completed) w"
    and "torrent_shape t" and "tv_piece_length t \<le> MAX_BT_PIECE_LENGTH" and "piece_count t \<le> 2 ^ 32"
    and "ranges_sorted lo ranges" and "build_block_requests t ranges = Inr rs"
    and "length content = unat (tv_total_length t)" and "length completed = piece_count t"
    and "\<And>i. i < piece_count t \<Longrightarrow> completed ! i \<Longrightarrow> piece_valid X t content i"
  shows "(\<forall>i<piece_count t. dl_completed w ! i \<longrightarrow> piece_valid X t (dl_content w) i)
    \<and> (\<forall>i\<in>set (dr_verified (dl_run w)). piece_valid X t (dl_content w) (unat i))
    \<and> (\<forall>i. i \<notin> unat ` rq_piece_index ` set (filter P rs) \<longrightarrow> file_piece t (dl_content w) i = file_piece t content i)
    \<and> (dr_held (dl_run w) = [] \<and> unfinished_pieces (dr_scheduler (dl_run w)) = []
       \<and> (\<forall>i<piece_count t. i \<notin> unat ` rq_piece_index ` set (filter P rs) \<longrightarrow> piece_valid X t content i) \<longrightarrow>
       verify_all_pieces X (dl_content w) t = Inr ())"
proof -
  note jobs = piece_jobs_of_requests [OF assms(2-6), where P = P]
  have pl: "0 < tv_piece_length t" using assms(2) by (simp add: torrent_shape_def)
  have inv: "download_inv X t {} (build_piece_jobs (filter P rs)) content w"
    by (rule download_reach_inv [OF assms(1) jobs(1) pl jobs(2) assms(7,8)]) (simp_all add: assms(9))
  have idx: "pj_piece_index ` set (build_piece_jobs (filter P rs)) = rq_piece_index ` set (filter P rs)"
    using rq_index_jobs build_piece_jobs_ok [OF jobs(1)] by metis
  note fin = finished_download_valid [OF inv assms(2), unfolded idx]
  show ?thesis
  proof (intro conjI)
    show "\<forall>i<piece_count t. dl_completed w ! i \<longrightarrow> piece_valid X t (dl_content w) i"
      "\<forall>i\<in>set (dr_verified (dl_run w)). piece_valid X t (dl_content w) (unat i)"
      "\<forall>i. i \<notin> unat ` rq_piece_index ` set (filter P rs) \<longrightarrow> file_piece t (dl_content w) i = file_piece t content i"
      using inv by (auto simp: download_inv_def idx)
  qed (use fin in blast)
qed

theorem committed_pieces_stay_valid_witness:
  "piece_valid inst_bt tiny_torrent (dl_content sample_end) 0 \<and> verify_all_pieces inst_bt (dl_content sample_end) tiny_torrent = Inr ()"
proof -
  have steps: "(download_step inst_bt tiny_torrent)\<^sup>*\<^sup>* (start_download tiny_torrent (filter (\<lambda>_. True) [tiny_request]) [0] [False]) sample_end"
    using sample_steps by simp
  from committed_pieces_stay_valid [OF steps tiny_torrent_shape tiny_limits _ tiny_requests, of 0] show ?thesis
    by (simp add: tiny_parts tiny_bounds_piece sample_end_def unfinished_pieces_def initial_scheduler_def tiny_request_def)
qed

text \<open>C30: A run of the download creates the output only with the described target: its bytes have the SHA-256 of the
  descriptor and the SHA-1 of the torrent in every piece. An existing output is never overwritten, a run that
  reports success has published the output and removed both files of the resume, and no other file changes.\<close>

theorem download_publishes_only_target:
  assumes "fetch_run X R db disk t d peers output fs r fs'"
    and "torrent_shape t" and "tv_piece_length t \<le> MAX_BT_PIECE_LENGTH" and "piece_count t \<le> 2 ^ 32"
  shows "only_download_files output fs (fs'(output := fs output))
    \<and> (fs' output = fs output \<and> \<not> is_ok r \<or>
       output \<notin> dom fs \<and> (\<exists>content m. fs' output = Some (Regular content m) \<and> length content = unat (tv_total_length t)
         \<and> cx_hex_encode (bx_cdc X) (cx_sha256 (bx_cdc X) content) = ti_sha256 (td_target d)
         \<and> (\<forall>i<piece_count t. piece_valid X t content i)))
    \<and> (is_ok r \<longrightarrow> fst (resume_paths output) \<notin> dom fs' \<and> snd (resume_paths output) \<notin> dom fs')"
  by (rule fetch_run_outcome [OF assms])

theorem download_publishes_only_target_witness:
  "\<exists>rep. fetch_run inst_bt sample_resume_ext bare_index (\<lambda>_. None) tiny_torrent tiny_descriptor [sample_peer] ''out'' Map.empty
      (Inr rep) [''out'' \<mapsto> Regular [7] (Inr 1)]
    \<and> piece_valid inst_bt tiny_torrent [7] 0"
proof -
  have p: "rf_partial_path (fp_resume sample_fetch_plan) = fst (resume_paths ''out'')"
    "bs_completed_pieces (rf_state (fp_resume sample_fetch_plan)) = [False]" "fp_requests sample_fetch_plan = [tiny_request]"
    by (simp_all add: sample_fetch_plan_def)
  have c: "sample_started (rf_partial_path (fp_resume sample_fetch_plan)) = Some (Regular [0] (Inr 0))"
    using resume_paths_distinct [of "''out''"] by (simp add: p sample_started_def)
  have w: "dl_content sample_end = [7]" by (simp add: sample_end_def)
  obtain rep where "fetch_run inst_bt sample_resume_ext bare_index (\<lambda>_. None) tiny_torrent tiny_descriptor [sample_peer] ''out'' Map.empty
      (Inr rep) [''out'' \<mapsto> Regular [7] (Inr 1)]"
  proof -
    from sample_finish obtain rep where rep: "fetch_finish inst_bt (\<lambda>_. None) tiny_torrent tiny_descriptor sample_fetch_plan [sample_peer] ''out''
       (dr_scheduler (dl_run sample_end)) [sample_worker]
       (sample_started(rf_partial_path (fp_resume sample_fetch_plan) \<mapsto> Regular (dl_content sample_end) (Inr 1),
          rf_state_path (fp_resume sample_fetch_plan) \<mapsto> sample_saved)) = (Inr rep, [''out'' \<mapsto> Regular [7] (Inr 1)])"
      unfolding w by blast
    have "fetch_run inst_bt sample_resume_ext bare_index (\<lambda>_. None) tiny_torrent tiny_descriptor [sample_peer] ''out'' Map.empty
      (Inr rep) [''out'' \<mapsto> Regular [7] (Inr 1)]"
      by (rule fetch_run.ran [OF sample_start c _ refl _ rep]) (use sample_steps p in \<open>simp_all add: sample_worker_def new_worker_report_def\<close>)
    with that show thesis .
  qed
  moreover from download_publishes_only_target [OF this tiny_torrent_shape tiny_limits] have "piece_valid inst_bt tiny_torrent [7] 0"
    by (auto simp: tiny_bounds_piece)
  ultimately show ?thesis by blast
qed

end
