(* ===== verification/Bt_Limiter.thy ===== *)
theory Bt_Limiter
  imports Meld_Prelude
begin

text \<open>
  The upload limiter of the seeders, \<open>UploadLimiter\<close> of \<open>crates/meld-core/src/bt_seed.rs\<close>: the threads that
  serve connections draw tickets, are served in the order of the tickets, and the one being served waits
  until the bytes sent before it have used up their time. The mutex makes every iteration of the loop of
  \<open>reserve\<close> one atomic operation on the limiter's state, here \<open>poll_ticket\<close>; the clock is a number of
  nanoseconds. The relation \<open>limiter_step\<close> lets any number of threads interleave these operations.
\<close>

section \<open>The limiter\<close>

record upload_limiter =
  ul_rate_bytes_per_second :: "u64 option"
  ul_next_ticket :: u64
  ul_serving_ticket :: u64
  ul_cancelled_tickets :: "u64 set"
  ul_next_send :: nat

definition SHUTDOWN_POLL_INTERVAL :: nat where
  "SHUTDOWN_POLL_INTERVAL = 100 * 1000 * 1000"

definition validate_upload_rate :: "u64 option \<Rightarrow> unit result" where
  "validate_upload_rate rate_bytes_per_second =
     bail_if (rate_bytes_per_second = Some 0) ''BT seed upload rate limit must be greater than zero'' (Inr ())"

definition upload_scheduler_name :: "u64 option \<Rightarrow> string" where
  "upload_scheduler_name rate_bytes_per_second =
     (if rate_bytes_per_second \<noteq> None then ''fifo-block-fair'' else ''unlimited'')"

definition new_upload_limiter :: "u64 option \<Rightarrow> nat \<Rightarrow> upload_limiter result" where
  "new_upload_limiter rate_bytes_per_second now =
     and_then (validate_upload_rate rate_bytes_per_second) (\<lambda>_.
     Inr \<lparr>ul_rate_bytes_per_second = rate_bytes_per_second, ul_next_ticket = 0, ul_serving_ticket = 0,
          ul_cancelled_tickets = {}, ul_next_send = now\<rparr>)"

text \<open>The loop of \<open>advance_upload_ticket\<close>: tickets that were given up are passed over.\<close>

function skip_cancelled :: "u64 \<Rightarrow> u64 set \<Rightarrow> u64 \<times> u64 set" where
  "skip_cancelled serving cancelled =
     (if serving \<in> cancelled then skip_cancelled (serving + 1) (cancelled - {serving}) else (serving, cancelled))"
  by pat_completeness auto
termination
  by (relation "measure (\<lambda>(_, C). card C)") (auto intro!: diff_less simp: card_gt_0_iff)

declare skip_cancelled.simps [simp del]

definition advance_upload_ticket :: "upload_limiter \<Rightarrow> upload_limiter" where
  "advance_upload_ticket L = (case skip_cancelled (ul_serving_ticket L + 1) (ul_cancelled_tickets L) of
     (serving, cancelled) \<Rightarrow> L\<lparr>ul_serving_ticket := serving, ul_cancelled_tickets := cancelled\<rparr>)"

definition cancel_upload_ticket :: "u64 \<Rightarrow> upload_limiter \<Rightarrow> upload_limiter" where
  "cancel_upload_ticket ticket L =
     (if ticket = ul_serving_ticket L then advance_upload_ticket L
      else if ul_serving_ticket L < ticket then L\<lparr>ul_cancelled_tickets := insert ticket (ul_cancelled_tickets L)\<rparr>
      else L)"

text \<open>How long a block of some bytes occupies the line, computed in 128 bits and cut to 64.\<close>

definition send_nanos :: "u64 \<Rightarrow> u64 \<Rightarrow> nat" where
  "send_nanos rate n =
     min (max ((min (unat n * 1000000000) (2 ^ 128 - 1) + unat rate - 1) div unat rate) 1) (2 ^ 64 - 1)"

definition take_ticket :: "upload_limiter \<Rightarrow> u64 \<times> upload_limiter" where
  "take_ticket L = (ul_next_ticket L, L\<lparr>ul_next_ticket := ul_next_ticket L + 1\<rparr>)"

text \<open>One iteration of the loop: the thread gives up, waits for some nanoseconds, or may send.\<close>

datatype poll = GaveUp | WaitFor nat | Granted

definition poll_ticket :: "u64 \<Rightarrow> u64 \<Rightarrow> bool \<Rightarrow> nat \<Rightarrow> u64 \<Rightarrow> upload_limiter \<Rightarrow> poll \<times> upload_limiter" where
  "poll_ticket rate n shutdown now ticket L =
     (if shutdown then (GaveUp, cancel_upload_ticket ticket L)
      else if ticket \<noteq> ul_serving_ticket L then (WaitFor SHUTDOWN_POLL_INTERVAL, L)
      else if now < ul_next_send L then (WaitFor (min (ul_next_send L - now) SHUTDOWN_POLL_INTERVAL), L)
      else (Granted, advance_upload_ticket (L\<lparr>ul_next_send := now + send_nanos rate n\<rparr>)))"

text \<open>
  The whole of \<open>reserve\<close> as one thread sees it. An observation is what the other threads have made of the
  limiter since the last iteration, whether shutdown has been requested, and the clock. The first \<open>None\<close> is a
  list of observations that ends before the call does, the second a reservation that is given up.
\<close>

type_synonym observation = "(upload_limiter \<Rightarrow> upload_limiter) \<times> bool \<times> nat"

definition elapsed_micros :: "nat \<Rightarrow> nat \<Rightarrow> u64" where
  "elapsed_micros started now = word_of_nat (min ((now - started) div 1000) (2 ^ 64 - 1))"

fun reserve_loop ::
    "u64 \<Rightarrow> u64 \<Rightarrow> nat \<Rightarrow> u64 \<Rightarrow> observation list \<Rightarrow> upload_limiter \<Rightarrow> (u64 option \<times> upload_limiter) option" where
  "reserve_loop rate n started ticket [] L = None"
| "reserve_loop rate n started ticket ((others, shutdown, now) # seen) L =
     (case poll_ticket rate n shutdown now ticket (others L) of
        (GaveUp, L) \<Rightarrow> Some (None, L)
      | (WaitFor _, L) \<Rightarrow> reserve_loop rate n started ticket seen L
      | (Granted, L) \<Rightarrow> Some (Some (elapsed_micros started now), L))"

definition reserve :: "u64 \<Rightarrow> nat \<Rightarrow> observation list \<Rightarrow> upload_limiter \<Rightarrow> (u64 option \<times> upload_limiter) option" where
  "reserve n started seen L = (case ul_rate_bytes_per_second L of
      None \<Rightarrow> Some (Some 0, L)
    | Some rate \<Rightarrow> (case take_ticket L of (ticket, L) \<Rightarrow> reserve_loop rate n started ticket seen L))"

section \<open>Threads\<close>

record waiter =
  wt_ticket :: u64
  wt_bytes :: u64

record grant =
  gr_ticket :: u64
  gr_time :: nat
  gr_bytes :: u64

text \<open>The waiting threads with the oldest first, and the reservations that were granted with the latest first.\<close>

record limiter_run =
  lr_limiter :: upload_limiter
  lr_now :: nat
  lr_waiting :: "waiter list"
  lr_grants :: "grant list"

text \<open>
  A call takes the next ticket, of which there are \<open>2 ^ 64\<close>; any waiting thread may run an iteration of its
  loop at any time, with shutdown requested or not.
\<close>

inductive limiter_step :: "u64 \<Rightarrow> limiter_run \<Rightarrow> limiter_run \<Rightarrow> bool" for rate where
  call: "unat (ul_next_ticket (lr_limiter R)) + 1 < 2 ^ 64 \<Longrightarrow> take_ticket (lr_limiter R) = (ticket, L) \<Longrightarrow>
    limiter_step rate R (R\<lparr>lr_limiter := L, lr_waiting := lr_waiting R @ [\<lparr>wt_ticket = ticket, wt_bytes = n\<rparr>]\<rparr>)"
| tick: "lr_now R \<le> now \<Longrightarrow> limiter_step rate R (R\<lparr>lr_now := now\<rparr>)"
| wait: "w \<in> set (lr_waiting R) \<Longrightarrow> poll_ticket rate (wt_bytes w) shutdown (lr_now R) (wt_ticket w) (lr_limiter R) = (WaitFor d, L) \<Longrightarrow>
    limiter_step rate R (R\<lparr>lr_limiter := L\<rparr>)"
| give_up: "w \<in> set (lr_waiting R) \<Longrightarrow> poll_ticket rate (wt_bytes w) shutdown (lr_now R) (wt_ticket w) (lr_limiter R) = (GaveUp, L) \<Longrightarrow>
    limiter_step rate R (R\<lparr>lr_limiter := L, lr_waiting := remove1 w (lr_waiting R)\<rparr>)"
| grant: "w \<in> set (lr_waiting R) \<Longrightarrow> poll_ticket rate (wt_bytes w) shutdown (lr_now R) (wt_ticket w) (lr_limiter R) = (Granted, L) \<Longrightarrow>
    limiter_step rate R (R\<lparr>lr_limiter := L, lr_waiting := remove1 w (lr_waiting R),
      lr_grants := \<lparr>gr_ticket = wt_ticket w, gr_time = lr_now R, gr_bytes = wt_bytes w\<rparr> # lr_grants R\<rparr>)"

inductive_cases limiter_stepE: "limiter_step rate R R'"

definition initial_run :: "upload_limiter \<Rightarrow> nat \<Rightarrow> limiter_run" where
  "initial_run L now = \<lparr>lr_limiter = L, lr_now = now, lr_waiting = [], lr_grants = []\<rparr>"

end
