(* ===== verification/Bt_Seed.thy ===== *)
theory Bt_Seed
  imports Bt_Receive Bt_Plan Bt_Limiter
begin

unbundle bit_operations_syntax

text \<open>
  A seeder's side of a connection, \<open>crates/meld-core/src/bt_seed.rs\<close>: the handshake it answers, the pieces it
  advertises, the requests it checks, and the two sources its blocks come from, a verified file
  (\<open>serve_peer\<close>) and the local index (\<open>serve_index_peer\<close>). What happens beside the connection (the shutdown
  flag another thread sets, the answers of the upload limiter, changes to files and index) is a function of
  the number of observations the connection has made. The framing \<open>send_message\<close> is the one of \<open>Bt_Wire\<close>,
  which the two source files repeat word for word.
\<close>

section \<open>The environment and the connection\<close>

record seed_env =
  se_shutdown :: "(nat \<Rightarrow> bool) option"
  se_reserve :: "nat \<Rightarrow> u64 \<Rightarrow> u64 option"
  se_files :: "nat \<Rightarrow> file_system"
  se_handle :: "nat \<Rightarrow> bytes"
  se_index :: "nat \<Rightarrow> index_db"

text \<open>
  \<open>BtSeedConnectionStats\<close> and \<open>BtIndexSeedConnectionStats\<close>, of which the first lacks the two counters
  \<open>on_demand\<close>; and what the connection has added to the seeder's shared counter of uploaded bytes, if there is one.
\<close>

record seed_session = socket +
  sn_seen :: nat
  sn_successful_handshakes :: u64
  sn_block_requests :: u64
  sn_payload_bytes_sent :: u64
  sn_on_demand_local_chunks_read :: u64
  sn_on_demand_local_bytes_read :: u64
  sn_cancel_messages_received :: u64
  sn_upload_throttle_wait_micros :: u64
  sn_uploaded :: "u64 option"

type_synonym 'a seeding = "(seed_session, 'a) action"

definition is_shutdown :: "seed_env \<Rightarrow> bool seeding" where
  "is_shutdown E S = (case se_shutdown E of
      None \<Rightarrow> (Inr False, S)
    | Some flag \<Rightarrow> (Inr (flag (sn_seen S)), S\<lparr>sn_seen := sn_seen S + 1\<rparr>))"

section \<open>Reading\<close>

text \<open>
  \<open>read_exact_interruptible\<close>: with a shutdown flag a timeout only makes it look at the flag. Unlike
  \<open>Read::read_exact\<close> it does not retry an interrupted read.
\<close>

fun take_interruptible :: "(nat \<Rightarrow> bool) option \<Rightarrow> nat \<Rightarrow> nat \<Rightarrow> stream \<Rightarrow> bytes result \<times> stream \<times> nat" where
  "take_interruptible flag k 0 s = (Inr [], s, k)"
| "take_interruptible flag k (Suc n) [] = (Inl (Io UnexpectedEof), [], k)"
| "take_interruptible flag k (Suc n) (Inl b # s) =
     (case take_interruptible flag k n s of (r, s, k) \<Rightarrow> (and_then r (\<lambda>bs. Inr (b # bs)), s, k))"
| "take_interruptible flag k (Suc n) (Inr e # s) =
     (if flag \<noteq> None \<and> (e = TimedOut \<or> e = WouldBlock) then
        (if the flag k then (Inl (Io e), s, k + 1) else take_interruptible flag (k + 1) (Suc n) s)
      else (Inl (Io e), s, k))"

definition read_exact_interruptible :: "seed_env \<Rightarrow> nat \<Rightarrow> bytes seeding" where
  "read_exact_interruptible E n S = (case take_interruptible (se_shutdown E) (sn_seen S) n (ps_in S) of
     (r, s, k) \<Rightarrow> (r, S\<lparr>ps_in := s, sn_seen := k\<rparr>))"

definition read_seed_message :: "seed_env \<Rightarrow> (u8 \<times> bytes) option seeding" where
  "read_seed_message E =
     then_do (read_exact_interruptible E 4) (\<lambda>length_bytes.
     let len = (word_of_nat (be_nat length_bytes) :: u32) in
     if len = 0 then pass (Inr None)
     else if MAX_MESSAGE_LENGTH < len then pass (Inl (Bail ''BT seed peer sent an oversized message''))
     else then_do (read_exact_interruptible E (unat len)) (\<lambda>message. pass (Inr (Some (message ! 0, drop 1 message)))))"

definition is_connection_end :: "error \<Rightarrow> bool" where
  "is_connection_end e \<longleftrightarrow>
     e \<in> {Io UnexpectedEof, Io ConnectionReset, Io BrokenPipe, Io Interrupted, Io TimedOut, Io WouldBlock}"

definition expect_empty :: "bytes \<Rightarrow> unit result" where
  "expect_empty payload = bail_if (payload \<noteq> []) ''BT peer sent malformed message'' (Inr ())"

definition read_and_reply_handshake :: "bt_ext \<Rightarrow> seed_env \<Rightarrow> string \<Rightarrow> bytes \<Rightarrow> unit seeding" where
  "read_and_reply_handshake X E expected_info_hash_hex peer_id =
     then_do (read_exact_interruptible E HANDSHAKE_LENGTH) (\<lambda>handshake.
     if handshake ! 0 \<noteq> 19 \<or> take 19 (drop 1 handshake) \<noteq> PROTOCOL_NAME
     then pass (Inl (Bail ''BT seed peer sent an invalid handshake header''))
     else then_do (pass (cx_hex_decode (bx_cdc X) expected_info_hash_hex)) (\<lambda>expected.
     if take 20 (drop 28 handshake) \<noteq> expected then pass (Inl (Bail ''BT seed peer requested the wrong info hash''))
     else write_all ([19] @ PROTOCOL_NAME @ replicate 8 0 @ expected @ peer_id)))"

section \<open>What is advertised\<close>

definition complete_bitfield :: "nat \<Rightarrow> bytes" where
  "complete_bitfield n =
     (let bitfield = replicate ((n + 7) div 8) 0xff; spare = length bitfield * 8 - n
      in if 0 < spare \<and> bitfield \<noteq> [] then butlast bitfield @ [last bitfield AND push_bit spare 0xff] else bitfield)"

definition set_availability_bit :: "bytes \<Rightarrow> nat \<times> bool \<Rightarrow> bytes" where
  "set_availability_bit bitfield entry = (case entry of (index, available) \<Rightarrow>
     if available then bitfield[index div 8 := bitfield ! (index div 8) OR push_bit (7 - index mod 8) 1] else bitfield)"

definition availability_bitfield :: "bool list \<Rightarrow> bytes" where
  "availability_bitfield available =
     foldl set_availability_bit (replicate ((length available + 7) div 8) 0) (enumerate 0 available)"

section \<open>Requests\<close>

definition seed_piece_length :: "torrent_v1 \<Rightarrow> nat \<Rightarrow> u64 result" where
  "seed_piece_length t index =
     and_then (ok_or (checked_mul (word_of_nat index) (tv_piece_length t)) (Bail ''BT seed Piece offset overflow'')) (\<lambda>offset.
     Inr (min (tv_piece_length t) (saturating_sub (tv_total_length t) offset)))"

definition SEED_BLOCK_LENGTH :: u32 where
  "SEED_BLOCK_LENGTH = 16 * 1024"

definition parse_block_message :: "bytes \<Rightarrow> torrent_v1 \<Rightarrow> (u32 \<times> u32 \<times> u32) result" where
  "parse_block_message payload t =
     bail_if (length payload \<noteq> 12) ''BT peer sent malformed request or cancel''
    (let piece = word_of_nat (be_nat (take 4 payload)) :: u32;
         begin_at = word_of_nat (be_nat (take 4 (drop 4 payload))) :: u32;
         len = word_of_nat (be_nat (take 4 (drop 8 payload))) :: u32
     in bail_if (len = 0 \<or> SEED_BLOCK_LENGTH < len) ''BT peer requested an invalid block length''
       (bail_if (length (tv_piece_sha1 t) \<le> unat piece) ''BT peer requested a Piece outside the torrent''
       (and_then (seed_piece_length t (unat piece)) (\<lambda>piece_length.
        bail_if (piece_length < ucast begin_at + ucast len) ''BT peer requested a block outside its Piece''
          (Inr (piece, begin_at, len))))))"

section \<open>Where blocks come from\<close>

text \<open>
  A source answers a request at some moment: the block, how many chunks and bytes it read of the index for
  it, and what it keeps for the next request.
\<close>

type_synonym 'c block_fetch = "nat \<Rightarrow> u32 \<times> u32 \<times> u32 \<Rightarrow> 'c \<Rightarrow> (bytes \<times> u64 \<times> u64 \<times> 'c) result"

text \<open>The file the connection has opened: a seek and a \<open>read_exact\<close>.\<close>

definition file_block :: "seed_env \<Rightarrow> torrent_v1 \<Rightarrow> unit block_fetch" where
  "file_block E t k request _ = (case request of (piece, begin_at, len) \<Rightarrow>
     and_then (ok_or (case checked_mul (ucast piece) (tv_piece_length t) of
         None \<Rightarrow> None | Some offset \<Rightarrow> checked_add offset (ucast begin_at)) (Bail ''BT seed request offset overflow'')) (\<lambda>absolute.
     and_then (read_at (se_handle E k) absolute (ucast len)) (\<lambda>block. Inr (block, 0, 0, ()))))"

text \<open>One chunk of the descriptor that overlaps the piece; the index must still have it.\<close>

definition reconstruct_chunk ::
    "cdc_ext \<Rightarrow> index_db \<Rightarrow> file_system \<Rightarrow> u64 \<Rightarrow> u64 \<Rightarrow> bytes \<times> u64 \<times> u64 \<Rightarrow> chunk_record \<Rightarrow> (bytes \<times> u64 \<times> u64) result" where
  "reconstruct_chunk X db fs piece_offset piece_end acc c = (case acc of (piece_bytes, chunks_read, bytes_read) \<Rightarrow>
     let chunk_end = ck_offset c + ucast (ck_length c);
         overlap_start = max (ck_offset c) piece_offset; overlap_end = min chunk_end piece_end
     in if overlap_end \<le> overlap_start then Inr (piece_bytes, chunks_read, bytes_read)
        else
          and_then (lookup_chunk X db (fs_metadata fs) (ck_hash c) (ck_length c)) (\<lambda>found.
          and_then (ok_or found (Bail ''advertised index Piece lost a required local chunk'')) (\<lambda>source.
          and_then (read_verified_chunk X fs (sl_path source) (sl_offset source) (ck_length c) (ck_hash c)) (\<lambda>bs.
          Inr (copy_into piece_bytes (unat (overlap_start - piece_offset))
                 (take (unat (overlap_end - overlap_start)) (drop (unat (overlap_start - ck_offset c)) bs)),
               chunks_read + 1, bytes_read + ucast (ck_length c))))))"

definition reconstruct_index_piece ::
    "bt_ext \<Rightarrow> index_db \<Rightarrow> file_system \<Rightarrow> torrent_v1 \<Rightarrow> target_descriptor \<Rightarrow> nat \<Rightarrow> (bytes \<times> u64 \<times> u64) result" where
  "reconstruct_index_piece X db fs t d piece_index =
     and_then (ok_or (checked_mul (word_of_nat piece_index) (tv_piece_length t)) (Bail ''BT index seed Piece offset overflow''))
       (\<lambda>piece_offset.
     and_then (seed_piece_length t piece_index) (\<lambda>len.
     and_then (try_fold (reconstruct_chunk (bx_cdc X) db fs piece_offset (piece_offset + len))
         (replicate (unat len) 0, 0, 0) (td_chunks d)) (\<lambda>(piece_bytes, chunks_read, bytes_read).
     bail_if (sha1_hex X piece_bytes \<noteq> tv_piece_sha1 t ! piece_index) ''on-demand reconstructed BT Piece failed SHA-1''
       (Inr (piece_bytes, chunks_read, bytes_read)))))"

text \<open>The index, with the piece that was put together last.\<close>

definition index_block ::
    "bt_ext \<Rightarrow> seed_env \<Rightarrow> torrent_v1 \<Rightarrow> target_descriptor \<Rightarrow> bool list \<Rightarrow> (u32 \<times> bytes) option block_fetch" where
  "index_block X E t d available k request cached_piece = (case request of (piece, begin_at, len) \<Rightarrow>
     bail_if (\<not> available ! unat piece) ''BT peer requested a Piece not advertised by the local index''
    (and_then (case cached_piece of
         Some (cached, piece_bytes) \<Rightarrow>
           if cached = piece then Inr (piece_bytes, 0, 0)
           else reconstruct_index_piece X (se_index E k) (se_files E k) t d (unat piece)
       | None \<Rightarrow> reconstruct_index_piece X (se_index E k) (se_files E k) t d (unat piece)) (\<lambda>(piece_bytes, chunks_read, bytes_read).
     Inr (take (unat len) (drop (unat begin_at) piece_bytes), chunks_read, bytes_read, Some (piece, piece_bytes)))))"

section \<open>Serving\<close>

text \<open>A block that is ready waits for the limiter; \<open>False\<close> ends the connection.\<close>

definition send_block :: "seed_env \<Rightarrow> u32 \<times> u32 \<times> u32 \<Rightarrow> bytes \<Rightarrow> bool seeding" where
  "send_block E request block S = (case request of (piece, begin_at, len) \<Rightarrow>
     case se_reserve E (sn_seen S) (ucast len) of
       None \<Rightarrow> (Inr False, S\<lparr>sn_seen := sn_seen S + 1\<rparr>)
     | Some wait_micros \<Rightarrow>
         then_do (send_message MESSAGE_PIECE (be_bytes 4 (unat piece) @ be_bytes 4 (unat begin_at) @ block)) (\<lambda>_ S.
         (Inr True, S\<lparr>sn_block_requests := sn_block_requests S + 1,
            sn_payload_bytes_sent := sn_payload_bytes_sent S + ucast len,
            sn_upload_throttle_wait_micros := sn_upload_throttle_wait_micros S + wait_micros,
            sn_uploaded := map_option (\<lambda>n. n + ucast len) (sn_uploaded S)\<rparr>)) (S\<lparr>sn_seen := sn_seen S + 1\<rparr>))"

text \<open>
  One message, in the state of the loop: whether the peer has been unchoked and what the source keeps. The
  first component of the result says whether the loop goes on.
\<close>

definition serve_message ::
    "seed_env \<Rightarrow> torrent_v1 \<Rightarrow> string \<Rightarrow> 'c block_fetch \<Rightarrow> u8 \<Rightarrow> bytes \<Rightarrow> bool \<Rightarrow> 'c \<Rightarrow> (bool \<times> bool \<times> 'c) seeding" where
  "serve_message E t early fetch message_id payload unchoked cache S =
     (if message_id = MESSAGE_INTERESTED then
        then_do (pass (expect_empty payload)) (\<lambda>_.
        if unchoked then pass (Inr (True, True, cache))
        else then_do (send_message MESSAGE_UNCHOKE []) (\<lambda>_. pass (Inr (True, True, cache)))) S
      else if message_id = MESSAGE_NOT_INTERESTED then
        then_do (pass (expect_empty payload)) (\<lambda>_. pass (Inr (False, unchoked, cache))) S
      else if message_id = MESSAGE_REQUEST then
        (if \<not> unchoked then (Inl (Bail early), S)
         else then_do (pass (parse_block_message payload t)) (\<lambda>request S.
           then_do (pass (fetch (sn_seen S) request cache)) (\<lambda>got S. case got of (block, chunks_read, bytes_read, cache) \<Rightarrow>
           then_do (send_block E request block) (\<lambda>go_on. pass (Inr (go_on, True, cache)))
             (S\<lparr>sn_seen := sn_seen S + 1,
                sn_on_demand_local_chunks_read := sn_on_demand_local_chunks_read S + chunks_read,
                sn_on_demand_local_bytes_read := sn_on_demand_local_bytes_read S + bytes_read\<rparr>)) S) S)
      else if message_id = MESSAGE_CANCEL then
        then_do (pass (parse_block_message payload t)) (\<lambda>_ S.
          (Inr (True, unchoked, cache), S\<lparr>sn_cancel_messages_received := sn_cancel_messages_received S + 1\<rparr>)) S
      else if message_id = MESSAGE_CHOKE then
        then_do (pass (expect_empty payload)) (\<lambda>_. pass (Inr (True, unchoked, cache))) S
      else (Inr (True, unchoked, cache), S))"

lemma take_interruptible_shrinks: "take_interruptible flag k n s = (r, s', k') \<Longrightarrow> length s' \<le> length s"
  by (induction flag k n s arbitrary: r s' k' rule: take_interruptible.induct) (fastforce split: prod.splits if_splits)+

lemma take_interruptible_Inr: "take_interruptible flag k n s = (Inr bs, s', k') \<Longrightarrow> length s' + n \<le> length s \<and> length bs = n"
  by (induction flag k n s arbitrary: bs s' k' rule: take_interruptible.induct) (fastforce split: prod.splits if_splits)+

lemma read_exact_interruptible_Inr:
  "read_exact_interruptible E n S = (Inr bs, T) \<Longrightarrow> length (ps_in T) + n \<le> length (ps_in S) \<and> length bs = n"
  by (auto simp: read_exact_interruptible_def dest: take_interruptible_Inr split: prod.splits)

lemma read_seed_message_shrinks: "read_seed_message E S = (Inr m, T) \<Longrightarrow> length (ps_in T) < length (ps_in S)"
  by (auto simp: read_seed_message_def then_do_eq_Inr pass_def Let_def dest!: read_exact_interruptible_Inr split: if_splits)

lemma write_all_in: "write_all bs S = (r, T) \<Longrightarrow> ps_in T = ps_in S"
  by (auto simp: write_all_def split: option.splits if_splits)

lemma send_message_in: "send_message i p S = (r, T) \<Longrightarrow> ps_in T = ps_in S"
  by (auto simp: send_message_def pass_def dest: write_all_in split: if_splits)

lemma send_block_in: "send_block E request block S = (Inr go_on, T) \<Longrightarrow> ps_in T = ps_in S"
  by (auto simp: send_block_def then_do_eq_Inr dest: send_message_in split: option.splits prod.splits)

lemma serve_message_in: "serve_message E t early fetch i p u c S = (Inr x, T) \<Longrightarrow> ps_in T = ps_in S"
  by (auto simp: serve_message_def then_do_eq_Inr pass_def dest!: send_message_in send_block_in split: if_splits)

text \<open>The loop. Every turn but the last reads at least the length of a message.\<close>

function serve_messages ::
    "seed_env \<Rightarrow> torrent_v1 \<Rightarrow> string \<Rightarrow> 'c block_fetch \<Rightarrow> bool \<Rightarrow> 'c \<Rightarrow> unit seeding" where
  "serve_messages E t early fetch unchoked cache S =
     then_do (is_shutdown E) (\<lambda>shutdown S.
     if shutdown then (Inr (), S)
     else (case read_seed_message E S of
         (Inl e, S) \<Rightarrow> (if is_connection_end e then Inr () else Inl e, S)
       | (Inr None, S) \<Rightarrow> serve_messages E t early fetch unchoked cache S
       | (Inr (Some (message_id, payload)), S) \<Rightarrow>
           then_do (serve_message E t early fetch message_id payload unchoked cache) (\<lambda>next S. case next of (go_on, unchoked, cache) \<Rightarrow>
             if go_on then serve_messages E t early fetch unchoked cache S else (Inr (), S)) S)) S"
  by pat_completeness auto
termination
  by (relation "measure (\<lambda>(_, _, _, _, _, _, S). length (ps_in S))")
     (auto simp: is_shutdown_def dest!: read_seed_message_shrinks [OF sym] read_seed_message_shrinks serve_message_in split: option.splits)

declare serve_messages.simps [simp del]

definition greeted :: "seed_session \<Rightarrow> seed_session" where
  "greeted S = S\<lparr>sn_successful_handshakes := sn_successful_handshakes S + 1\<rparr>"

definition serve_peer :: "bt_ext \<Rightarrow> seed_env \<Rightarrow> torrent_v1 \<Rightarrow> string \<Rightarrow> bytes \<Rightarrow> unit seeding" where
  "serve_peer X E t source local_peer_id =
     then_do (read_and_reply_handshake X E (tv_info_hash_sha1 t) local_peer_id) (\<lambda>_ S.
     then_do (send_message MESSAGE_BITFIELD (complete_bitfield (length (tv_piece_sha1 t)))) (\<lambda>_ S.
     then_do (pass (fs_read (se_files E (sn_seen S)) source)) (\<lambda>_.
     serve_messages E t ''BT peer requested data before unchoke'' (file_block E t) False ()) (S\<lparr>sn_seen := sn_seen S + 1\<rparr>)) (greeted S))"

definition serve_index_peer ::
    "bt_ext \<Rightarrow> seed_env \<Rightarrow> torrent_v1 \<Rightarrow> target_descriptor \<Rightarrow> bool list \<Rightarrow> bytes \<Rightarrow> unit seeding" where
  "serve_index_peer X E t d available local_peer_id =
     then_do (read_and_reply_handshake X E (tv_info_hash_sha1 t) local_peer_id) (\<lambda>_ S.
     then_do (send_message MESSAGE_BITFIELD (availability_bitfield available)) (\<lambda>_.
     serve_messages E t ''BT peer requested index data before unchoke'' (index_block X E t d available) False None) (greeted S))"

section \<open>Before seeding a file\<close>

text \<open>The pieces of the source, read one after the other from the start; the rest that is still unread.\<close>

definition check_source_piece :: "bt_ext \<Rightarrow> torrent_v1 \<Rightarrow> bytes \<Rightarrow> nat \<times> string \<Rightarrow> bytes result" where
  "check_source_piece X t rest entry = (case entry of (index, expected) \<Rightarrow>
     and_then (seed_piece_length t index) (\<lambda>len.
     and_then (read_at rest 0 len) (\<lambda>bs.
     bail_if (sha1_hex X bs \<noteq> expected) ''BT seed source Piece SHA-1 mismatch'' (Inr (drop (unat len) rest)))))"

definition validate_seed_source :: "bt_ext \<Rightarrow> file_system \<Rightarrow> torrent_v1 \<Rightarrow> target_descriptor \<Rightarrow> string \<Rightarrow> string result" where
  "validate_seed_source X fs t d source =
     and_then (td_validate (bx_cdc X) d) (\<lambda>_.
     bail_if (tv_total_length t \<noteq> ti_size (td_target d)) ''torrent/descriptor size mismatch for BT seed''
    (and_then (case fs_metadata fs source of Inl e \<Rightarrow> Inl (Bail ''read BT seed source metadata'') | Inr m \<Rightarrow> Inr m) (\<lambda>metadata.
     bail_if (fm_len metadata \<noteq> tv_total_length t) ''BT seed source length does not match torrent''
    (and_then (sha256_file (bx_cdc X) (fs_reads fs source)) (\<lambda>source_sha256.
     bail_if (source_sha256 \<noteq> ti_sha256 (td_target d)) ''BT seed source SHA-256 does not match descriptor''
    (and_then (fs_read fs source) (\<lambda>content.
     and_then (try_fold (check_source_piece X t) content (enumerate 0 (tv_piece_sha1 t))) (\<lambda>_.
     Inr source_sha256))))))))"

end
