(* ===== verification/Bt_Bitfield.thy ===== *)
theory Bt_Bitfield
  imports Bt_Seed
begin

unbundle bit_operations_syntax

text \<open>
  The bitfields of the two ends fit together: a downloader reads from a seeder's bitfield exactly the pieces
  the seeder has, and the two seeders write the same bitfield when they have everything.
\<close>

section \<open>Bits of bytes\<close>

lemma drop_bit_is_push_bit: "j < 8 \<Longrightarrow> drop_bit j (0x80 :: u8) = push_bit (7 - j) 1"
proof -
  assume "j < 8"
  then have "j \<in> {0, 1, 2, 3, 4, 5, 6, 7}" by auto
  then show ?thesis by (elim insertE) (simp_all add: drop_bit_eq_div push_bit_eq_mult)
qed

lemma and_drop_bit_iff: "j < 8 \<Longrightarrow> (w :: u8) AND drop_bit j 0x80 \<noteq> 0 \<longleftrightarrow> bit w (7 - j)"
  by (simp add: drop_bit_is_push_bit bit_iff_and_push_bit_not_eq_0)

lemma and_low_bits_iff: "(w :: u8) AND (push_bit s 1 - 1) \<noteq> 0 \<longleftrightarrow> (\<exists>i < s. i < 8 \<and> bit w i)"
proof -
  have "push_bit s 1 - 1 = (mask s :: u8)" by (simp add: mask_eq_exp_minus_1 push_bit_eq_mult)
  then have "w AND (push_bit s 1 - 1) = take_bit s w" by (simp add: take_bit_eq_mask)
  moreover have "take_bit s w \<noteq> 0 \<longleftrightarrow> (\<exists>i. bit (take_bit s w) i)" by (metis bit_eq_iff bit_0_eq bot_apply bot_bool_def)
  ultimately show ?thesis using bit_imp_le_length [of w] by (auto simp: bit_take_bit_iff)
qed

lemma bit_position:
  assumes "i < 8"
  shows "(8 * j + (7 - i)) div 8 = j" and "7 - (8 * j + (7 - i)) mod 8 = (i :: nat)"
proof -
  define e where "e = 7 - i"
  have "e < 8" "i = 7 - e" using assms by (simp_all add: e_def)
  then show "(8 * j + (7 - i)) div 8 = j" and "7 - (8 * j + (7 - i)) mod 8 = i" by (simp_all add: e_def [symmetric])
qed

lemma bit_ff: "bit (0xff :: u8) i \<longleftrightarrow> i < 8" "bit (0xff :: int) i \<longleftrightarrow> i < 8"
proof -
  have "(0xff :: u8) = mask 8" "(0xff :: int) = mask 8" by (simp_all add: mask_eq_exp_minus_1)
  then show "bit (0xff :: u8) i \<longleftrightarrow> i < 8" "bit (0xff :: int) i \<longleftrightarrow> i < 8" by (simp_all only: bit_mask_iff) simp_all
qed

text \<open>The bit of a bitfield for piece \<open>k\<close>, the first piece in the highest bit of the first byte.\<close>

definition piece_bit :: "bytes \<Rightarrow> nat \<Rightarrow> bool" where
  "piece_bit bitfield k = bit (bitfield ! (k div 8)) (7 - k mod 8)"

lemma bitfield_eqI:
  assumes "length a = length b" and "\<And>k. k < 8 * length b \<Longrightarrow> piece_bit a k = piece_bit b k"
  shows "a = b"
proof (rule nth_equalityI [OF assms(1)])
  fix j assume j: "j < length a"
  show "a ! j = b ! j"
  proof (rule bit_word_eqI)
    fix i assume "i < LENGTH(8)"
    then have i: "i < 8" by simp
    define k where "k = 8 * j + (7 - i)"
    have "k div 8 = j" "7 - k mod 8 = i" unfolding k_def by (rule bit_position [OF i])+
    moreover have "k < 8 * length b" using i j assms(1) by (simp add: k_def)
    ultimately show "bit (a ! j) i = bit (b ! j) i" using assms(2) [of k] by (simp add: piece_bit_def)
  qed
qed

section \<open>Writing\<close>

lemma piece_bit_set:
  assumes "n div 8 < length bf" and "k < 8 * length bf"
  shows "piece_bit (bf[n div 8 := bf ! (n div 8) OR push_bit (7 - n mod 8) 1]) k \<longleftrightarrow> piece_bit bf k \<or> k = n"
proof (cases "k div 8 = n div 8")
  case True
  have "7 - k mod 8 = 7 - n mod 8 \<longleftrightarrow> k = n" using True mod_less_divisor [of 8 k] mod_less_divisor [of 8 n]
    mult_div_mod_eq [of 8 k] mult_div_mod_eq [of 8 n] by linarith
  with True assms show ?thesis by (auto simp: piece_bit_def bit_simps)
next
  case False
  then show ?thesis using assms by (auto simp: piece_bit_def)
qed

lemma availability_bits:
  assumes "length available \<le> 8 * m"
  defines "bf \<equiv> foldl set_availability_bit (replicate m 0) (enumerate 0 available)"
  shows "length bf = m" and "k < 8 * m \<Longrightarrow> piece_bit bf k \<longleftrightarrow> k < length available \<and> available ! k"
proof -
  have "length bf = m \<and> (\<forall>k < 8 * m. piece_bit bf k \<longleftrightarrow> k < length available \<and> available ! k)"
    unfolding bf_def using assms(1)
  proof (induction available rule: rev_induct)
    case Nil
    then show ?case by (auto simp: piece_bit_def)
  next
    case (snoc x xs)
    define b where "b = foldl set_availability_bit (replicate m 0) (enumerate 0 xs)"
    have ih: "length b = m" "\<And>k. k < 8 * m \<Longrightarrow> piece_bit b k \<longleftrightarrow> k < length xs \<and> xs ! k"
      using snoc unfolding b_def by simp_all
    have lt: "length xs div 8 < length b" using snoc.prems ih(1) by simp
    have step: "foldl set_availability_bit (replicate m 0) (enumerate 0 (xs @ [x])) = set_availability_bit b (length xs, x)"
      by (simp add: enumerate_append_eq b_def)
    have "piece_bit (set_availability_bit b (length xs, x)) k \<longleftrightarrow> k < length (xs @ [x]) \<and> (xs @ [x]) ! k" if "k < 8 * m" for k
      using that ih piece_bit_set [OF lt, of k] by (auto simp: set_availability_bit_def nth_append less_Suc_eq)
    moreover have "length (set_availability_bit b (length xs, x)) = m" using ih(1) by (simp add: set_availability_bit_def)
    ultimately show ?case unfolding step by blast
  qed
  then show "length bf = m" and "k < 8 * m \<Longrightarrow> piece_bit bf k \<longleftrightarrow> k < length available \<and> available ! k" by simp_all
qed

lemma bytes_for_bits: "(n :: nat) \<le> 8 * ((n + 7) div 8)" "8 * ((n + 7) div 8) - n < 8"
  using mod_less_divisor [of 8 "n + 7"] mult_div_mod_eq [of 8 "n + 7"] by linarith+

lemma length_availability_bitfield: "length (availability_bitfield available) = (length available + 7) div 8"
  and piece_bit_availability:
    "k < 8 * ((length available + 7) div 8) \<Longrightarrow>
       piece_bit (availability_bitfield available) k \<longleftrightarrow> k < length available \<and> available ! k"
  unfolding availability_bitfield_def by (rule availability_bits [OF bytes_for_bits(1)])+

lemma complete_bitfield_eq: "complete_bitfield n = availability_bitfield (replicate n True)"
proof -
  define m where "m = (n + 7) div 8"
  have n: "n \<le> 8 * m" "8 * m - n < 8" unfolding m_def by (rule bytes_for_bits)+
  have len: "length (complete_bitfield n) = m" by (auto simp: complete_bitfield_def Let_def m_def)
  have "piece_bit (complete_bitfield n) k \<longleftrightarrow> k < n" if k: "k < 8 * m" for k
  proof -
    have k8: "k div 8 < m" "k mod 8 < 8" "k = 8 * (k div 8) + k mod 8" using k by (simp_all add: less_mult_imp_div_less mult.commute)
    show ?thesis
    proof (cases "0 < 8 * m - n")
      case False
      then have "complete_bitfield n = replicate m 0xff" by (simp add: complete_bitfield_def Let_def m_def [symmetric] mult.commute)
      moreover have "piece_bit (replicate m 0xff) k"
        unfolding piece_bit_def nth_replicate [OF k8(1)] by (simp only: bit_ff)
      ultimately show ?thesis using False n(1) k by simp
    next
      case True
      then have m: "m \<noteq> 0" by (cases m) auto
      have bf: "complete_bitfield n = replicate (m - 1) 0xff @ [0xff AND push_bit (8 * m - n) 0xff]"
        using True m by (simp add: complete_bitfield_def Let_def m_def [symmetric] butlast_conv_take take_replicate mult.commute)
      show ?thesis
      proof (cases "k div 8 = m - 1")
        case True
        then have "piece_bit (complete_bitfield n) k \<longleftrightarrow> 8 * m - n \<le> 7 - k mod 8"
          using k8(2) by (simp add: bf piece_bit_def nth_append bit_simps bit_ff less_imp_diff_less) 
        moreover have "8 * m = 8 * (k div 8) + 8" using True m by simp
        ultimately show ?thesis using k8(2,3) n by linarith
      next
        case False
        with k8(1) have "k div 8 < m - 1" by linarith
        moreover from this have "k < n" using k8 n by linarith
        ultimately show ?thesis by (simp add: bf piece_bit_def nth_append bit_ff)
      qed
    qed
  qed
  then show ?thesis
    by (intro bitfield_eqI) (auto simp: len length_availability_bitfield piece_bit_availability m_def)
qed

section \<open>Reading\<close>

lemma apply_availability_bitfield:
  assumes "length old = length available"
  shows "apply_bitfield (availability_bitfield available) old = (Inr (), available)"
proof -
  let ?bf = "availability_bitfield available" and ?n = "length available"
  define m where "m = (?n + 7) div 8"
  have n: "?n \<le> 8 * m" unfolding m_def by (rule bytes_for_bits)
  have len: "length ?bf = m" by (simp add: length_availability_bitfield m_def)
  have bits: "piece_bit ?bf k \<longleftrightarrow> k < ?n \<and> available ! k" if "k < 8 * m" for k
    using that piece_bit_availability unfolding m_def by blast
  have "map (\<lambda>i. (?bf ! (i div 8)) AND (drop_bit (i mod 8) 0x80) \<noteq> 0) [0..<?n] = available"
    using bits n by (intro nth_equalityI) (simp_all add: and_drop_bit_iff piece_bit_def [symmetric])
  moreover have "\<not> last ?bf AND (push_bit (m * 8 - ?n) 1 - 1) \<noteq> 0" if "?bf \<noteq> []"
  proof
    assume "last ?bf AND (push_bit (m * 8 - ?n) 1 - 1) \<noteq> 0"
    then obtain i where i: "i < m * 8 - ?n" "i < 8" "bit (last ?bf) i" unfolding and_low_bits_iff by blast
    define k where "k = 8 * (m - 1) + (7 - i)"
    have m: "0 < m" using that len by auto
    have "k div 8 = m - 1" "7 - k mod 8 = i" unfolding k_def by (rule bit_position [OF i(2)])+
    moreover have "k < 8 * m" "\<not> k < ?n" using i(1,2) m by (simp_all add: k_def)
    ultimately show False using bits [of k] i(3) that by (simp add: piece_bit_def last_conv_nth len)
  qed
  ultimately show ?thesis using assms by (auto simp: apply_bitfield_def Let_def len m_def [symmetric])
qed

end
