(* ===== verification/Bt_Seed_Safety.thy ===== *)
theory Bt_Seed_Safety
  imports Bt_Bitfield Bt_Receive_Safety "HOL-Library.Sublist"
begin

text \<open>
  What a seeder gives away. It answers only requests that lie inside a piece of the torrent, and everything
  it sends after its bitfield is an unchoke or a block that its source vouches for. The locale
  \<open>block_source\<close> is what the serving loop asks of a source; the opened file and the index are its two
  interpretations.
\<close>

section \<open>Requests\<close>

type_synonym block_key = "u32 \<times> u32 \<times> u32"

definition block_payload :: "block_key \<Rightarrow> bytes" where
  "block_payload request = (case request of (piece, begin_at, len) \<Rightarrow>
     be_bytes 4 (unat piece) @ be_bytes 4 (unat begin_at) @ be_bytes 4 (unat len))"

definition servable :: "torrent_v1 \<Rightarrow> block_key \<Rightarrow> bool" where
  "servable t request \<longleftrightarrow> (case request of (piece, begin_at, len) \<Rightarrow>
     unat piece < piece_count t \<and> 0 < len \<and> len \<le> 16384
     \<and> piece_bound t (unat piece) + unat begin_at + unat len \<le> piece_bound t (Suc (unat piece)))"

lemma seed_piece_length_Inr: "seed_piece_length t i = Inr len \<longleftrightarrow> torrent_piece_length t i = Inr len"
  by (auto simp: seed_piece_length_def torrent_piece_length_def)

lemma seed_piece_length_eq:
  assumes "torrent_shape t" and "i < piece_count t"
  obtains len where "seed_piece_length t i = Inr len" and "unat len = piece_bound t (Suc i) - piece_bound t i"
  using torrent_piece_length_eq [of t i] assms by (auto simp: torrent_shape_def seed_piece_length_Inr)

lemma be_nat_u32: "length bs = 4 \<Longrightarrow> unat (word_of_nat (be_nat bs) :: u32) = be_nat bs"
  using be_nat_bound [of bs] by (simp add: unat_of_nat)

lemma u32_be_bytes: "word_of_nat (be_nat (be_bytes 4 (unat (w :: u32)))) = w"
  using unsigned_less [of w] by (subst be_nat_be_bytes) simp_all

lemma be_bytes_u32: "length bs = 4 \<Longrightarrow> be_bytes 4 (unat (word_of_nat (be_nat bs) :: u32)) = bs"
  using be_bytes_be_nat [of bs] by (simp add: be_nat_u32)

text \<open>A request is answered exactly when it is the encoding of a block inside a piece.\<close>

lemma parse_block_message_exact:
  assumes "torrent_shape t"
  shows "parse_block_message payload t = Inr request \<longleftrightarrow> payload = block_payload request \<and> servable t request"
proof -
  obtain p b l where request: "request = (p, b, l)" by (cases request)
  have shape: "0 < tv_piece_length t" "length (tv_piece_sha1 t) = piece_count t"
    using assms by (simp_all add: torrent_shape_def piece_count_def)
  have fit: "\<not> len < ucast b + ucast l \<longleftrightarrow> piece_bound t (unat p) + unat b + unat l \<le> piece_bound t (Suc (unat p))"
    if "seed_piece_length t (unat p) = Inr len" "unat p < piece_count t" for len :: u64
  proof -
    from that have "unat len = piece_bound t (Suc (unat p)) - piece_bound t (unat p)"
      using seed_piece_length_eq [OF assms that(2)] by (metis sum.inject(2))
    moreover have "unat b < 4294967296" "unat l < 4294967296" using unsigned_less [of b, where 'a = nat] unsigned_less [of l, where 'a = nat] by simp_all
    then have "unat b + unat l < 18446744073709551616" by linarith
    then have "unat (ucast b + ucast l :: u64) = unat b + unat l" by (simp add: unat_word_ariths)
    ultimately show ?thesis using piece_bounds(2) [OF shape(1) that(2)] by (auto simp: word_less_nat_alt)
  qed
  have limit: "\<not> (l = 0 \<or> SEED_BLOCK_LENGTH < l) \<longleftrightarrow> 0 < l \<and> l \<le> 16384"
    by (auto simp: SEED_BLOCK_LENGTH_def not_less word_neq_0_conv)
  show ?thesis
  proof
    assume parsed: "parse_block_message payload t = Inr request"
    then obtain len where len: "length payload = 12" and
      p: "p = word_of_nat (be_nat (take 4 payload))" and b: "b = word_of_nat (be_nat (take 4 (drop 4 payload)))" and
      l: "l = word_of_nat (be_nat (take 4 (drop 8 payload)))" and
      ok: "\<not> (l = 0 \<or> SEED_BLOCK_LENGTH < l)" "unat p < piece_count t" "seed_piece_length t (unat p) = Inr len" "\<not> len < ucast b + ucast l"
      by (auto simp: parse_block_message_def Let_def request shape(2) not_le)
    have "payload = take 4 payload @ take 4 (drop 4 payload) @ take 4 (drop 8 payload)"
      using len append_take_drop_id [of 4 payload] append_take_drop_id [of 4 "drop 4 payload"] by simp
    moreover have "block_payload request = take 4 payload @ take 4 (drop 4 payload) @ take 4 (drop 8 payload)"
      by (simp add: block_payload_def request p b l be_bytes_u32 len)
    moreover have "servable t request" using ok fit [OF ok(3,2)] limit by (simp add: servable_def request)
    ultimately show "payload = block_payload request \<and> servable t request" by simp
  next
    assume r: "payload = block_payload request \<and> servable t request"
    then obtain len where len: "seed_piece_length t (unat p) = Inr len" "unat p < piece_count t"
      using seed_piece_length_eq [OF assms, of "unat p"] by (auto simp: servable_def request)
    moreover have "\<not> len < ucast b + ucast l" using fit [OF len] r by (simp add: servable_def request)
    ultimately show "parse_block_message payload t = Inr request"
      using r limit by (simp add: parse_block_message_def block_payload_def request u32_be_bytes shape(2) servable_def not_le Let_def)
  qed
qed

section \<open>What is sent\<close>

definition sent :: "(bytes \<Rightarrow> bool) \<Rightarrow> seed_session \<Rightarrow> seed_session \<Rightarrow> bool" where
  "sent ok S T \<longleftrightarrow> (\<exists>msgs. list_all ok msgs \<and> ps_out T = ps_out S @ concat msgs)"

text \<open>The last message may have been cut off when the connection broke.\<close>

definition sent_upto :: "(bytes \<Rightarrow> bool) \<Rightarrow> seed_session \<Rightarrow> seed_session \<Rightarrow> bool" where
  "sent_upto ok S T \<longleftrightarrow> (\<exists>msgs. list_all ok msgs \<and> prefix (ps_out S) (ps_out T) \<and> prefix (ps_out T) (ps_out S @ concat msgs))"

definition outcome_sent :: "(bytes \<Rightarrow> bool) \<Rightarrow> seed_session \<Rightarrow> 'a result \<Rightarrow> seed_session \<Rightarrow> bool" where
  "outcome_sent ok S r T \<longleftrightarrow> (case r of Inl e \<Rightarrow> sent_upto ok S T | Inr x \<Rightarrow> sent ok S T)"

lemma sent_refl: "ps_out T = ps_out S \<Longrightarrow> sent ok S T"
  unfolding sent_def by (intro exI [of _ "[]"]) simp

lemma sent_upto_refl: "ps_out T = ps_out S \<Longrightarrow> sent_upto ok S T"
  unfolding sent_upto_def by (intro exI [of _ "[]"]) simp

lemma sent_trans: "sent ok S T \<Longrightarrow> sent ok T U \<Longrightarrow> sent ok S U"
  unfolding sent_def by (elim exE, rule_tac x = "msgs @ msgsa" in exI) simp

lemma sent_imp_upto: "sent ok S T \<Longrightarrow> sent_upto ok S T"
  by (auto simp: sent_def sent_upto_def)

lemma sent_upto_trans: "sent ok S T \<Longrightarrow> sent_upto ok T U \<Longrightarrow> sent_upto ok S U"
  unfolding sent_def sent_upto_def by (elim exE, rule_tac x = "msgs @ msgsa" in exI) (auto elim: prefix_order.trans [rotated])

lemma outcome_sent_trans: "sent ok S T \<Longrightarrow> outcome_sent ok T r U \<Longrightarrow> outcome_sent ok S r U"
  unfolding outcome_sent_def by (cases r) (auto intro: sent_trans sent_upto_trans)

lemma outcome_sent_silent: "ps_out T = ps_out S \<Longrightarrow> outcome_sent ok S r T"
  unfolding outcome_sent_def using sent_refl [of T S ok] by (auto intro: sent_imp_upto split: sum.splits)

lemma then_do_sent:
  assumes "then_do m f S = (r, U)"
    and "\<And>r T. m S = (r, T) \<Longrightarrow> outcome_sent ok S r T"
    and "\<And>x T. m S = (Inr x, T) \<Longrightarrow> f x T = (r, U) \<Longrightarrow> outcome_sent ok T r U"
  shows "outcome_sent ok S r U"
proof (cases "m S")
  case (Pair q T)
  show ?thesis
  proof (cases q)
    case (Inl e)
    with assms(1,2) Pair show ?thesis by (auto simp: then_do_def outcome_sent_def)
  next
    case (Inr x)
    then have "outcome_sent ok T r U" "sent ok S T" using assms Pair by (auto simp: then_do_def outcome_sent_def)
    then show ?thesis by (rule outcome_sent_trans [rotated])
  qed
qed

lemma write_all_sent: "write_all bs S = (r, T) \<Longrightarrow> ok bs \<Longrightarrow> outcome_sent ok S r T"
  unfolding outcome_sent_def sent_def sent_upto_def
  by (auto simp: write_all_def take_is_prefix same_prefix_prefix intro!: exI [of _ "[bs]"] split: option.splits if_splits)

lemma send_message_sent: "send_message i payload S = (r, T) \<Longrightarrow> ok (message_bytes i payload) \<Longrightarrow> outcome_sent ok S r T"
  by (auto simp: send_message_def pass_def intro: write_all_sent outcome_sent_silent split: if_splits)

section \<open>Sources of blocks\<close>

definition block_message :: "block_key \<Rightarrow> bytes \<Rightarrow> bytes" where
  "block_message request block = (case request of (piece, begin_at, len) \<Rightarrow>
     message_bytes MESSAGE_PIECE (be_bytes 4 (unat piece) @ be_bytes 4 (unat begin_at) @ block))"

definition reply :: "torrent_v1 \<Rightarrow> (block_key \<Rightarrow> bytes \<Rightarrow> bool) \<Rightarrow> bytes \<Rightarrow> bool" where
  "reply t serves msg \<longleftrightarrow> msg = message_bytes MESSAGE_UNCHOKE []
     \<or> (\<exists>request block. servable t request \<and> serves request block \<and> msg = block_message request block)"

text \<open>A source keeps something from one request to the next, and vouches for the blocks it gives out.\<close>

locale block_source =
  fixes t :: torrent_v1 and fetch :: "'c block_fetch" and keeps :: "'c \<Rightarrow> bool" and serves :: "block_key \<Rightarrow> bytes \<Rightarrow> bool"
  assumes fetched: "torrent_shape t \<Longrightarrow> keeps c \<Longrightarrow> servable t request \<Longrightarrow> fetch k request c = Inr (block, n, m, c') \<Longrightarrow>
    keeps c' \<and> serves request block"

lemma read_seed_message_out: "read_seed_message E S = (q, T) \<Longrightarrow> ps_out T = ps_out S"
  by (auto simp: read_seed_message_def read_exact_interruptible_def then_do_def pass_def Let_def
      split: prod.splits sum.splits if_splits)

context block_source
begin

lemma send_block_sent:
  assumes "send_block E request block S = (r, T)" and "servable t request" and "serves request block"
  shows "outcome_sent (reply t serves) S r T"
proof -
  obtain p b l where request: "request = (p, b, l)" by (cases request)
  show ?thesis
  proof (cases "se_reserve E (sn_seen S) (ucast l)")
    case None
    with assms(1) show ?thesis by (auto simp: send_block_def request intro: outcome_sent_silent)
  next
    case (Some w)
    let ?S = "S\<lparr>sn_seen := sn_seen S + 1\<rparr>"
    have "outcome_sent (reply t serves) ?S r T"
    proof (rule then_do_sent)
      show "then_do (send_message MESSAGE_PIECE (be_bytes 4 (unat p) @ be_bytes 4 (unat b) @ block)) (\<lambda>_ S.
         (Inr True, S\<lparr>sn_block_requests := sn_block_requests S + 1,
            sn_payload_bytes_sent := sn_payload_bytes_sent S + ucast l,
            sn_upload_throttle_wait_micros := sn_upload_throttle_wait_micros S + w,
            sn_uploaded := map_option (\<lambda>n. n + ucast l) (sn_uploaded S)\<rparr>)) ?S = (r, T)"
        using assms(1) Some by (simp add: send_block_def request)
      have "reply t serves (block_message request block)" using assms(2,3) unfolding reply_def by blast
      then show "outcome_sent (reply t serves) ?S r' T'"
        if "send_message MESSAGE_PIECE (be_bytes 4 (unat p) @ be_bytes 4 (unat b) @ block) ?S = (r', T')" for r' T'
        using send_message_sent [OF that] by (simp add: block_message_def request)
    qed (auto intro: outcome_sent_silent)
    then show ?thesis by (rule outcome_sent_trans [rotated]) (simp add: sent_refl)
  qed
qed

lemma serve_message_sent:
  assumes shape: "torrent_shape t" and "keeps c" and "serve_message E t early fetch i payload u c S = (r, T)"
  shows "outcome_sent (reply t serves) S r T" and "r = Inr (go_on, u', c') \<Longrightarrow> keeps c'"
proof -
  have "outcome_sent (reply t serves) S r T \<and> (\<forall>go_on u' c'. r = Inr (go_on, u', c') \<longrightarrow> keeps c')"
  proof (cases "i = MESSAGE_REQUEST \<and> u")
    case True
    show ?thesis
    proof (cases "parse_block_message payload t")
      case (Inl e)
      with True assms(3) show ?thesis by (auto simp: serve_message_def message_ids then_do_def pass_def intro: outcome_sent_silent)
    next
      case (Inr request)
      then have request: "servable t request" using parse_block_message_exact [OF shape] by blast
      show ?thesis
      proof (cases "fetch (sn_seen S) request c")
        case (Inl e)
        with True Inr assms(3) show ?thesis by (auto simp: serve_message_def message_ids then_do_def pass_def intro: outcome_sent_silent)
      next
        case (Inr got)
        obtain block n m c1 where got: "got = (block, n, m, c1)" by (cases got)
        have f: "keeps c1" "serves request block" using fetched [OF shape assms(2) request, of "sn_seen S" block n m c1] Inr got by simp_all
        let ?S = "S\<lparr>sn_seen := sn_seen S + 1,
                sn_on_demand_local_chunks_read := sn_on_demand_local_chunks_read S + n,
                sn_on_demand_local_bytes_read := sn_on_demand_local_bytes_read S + m\<rparr>"
        have run: "then_do (send_block E request block) (\<lambda>go_on. pass (Inr (go_on, True, c1))) ?S = (r, T)"
          using True \<open>parse_block_message payload t = Inr request\<close> Inr got assms(3)
          by (simp add: serve_message_def message_ids then_do_def pass_def)
        then have "outcome_sent (reply t serves) ?S r T"
          by (rule then_do_sent) (use send_block_sent [OF _ request f(2)] in \<open>auto simp: pass_def intro: outcome_sent_silent\<close>)
        then have "outcome_sent (reply t serves) S r T" by (rule outcome_sent_trans [rotated]) (simp add: sent_refl)
        moreover have "\<forall>go_on u' c'. r = Inr (go_on, u', c') \<longrightarrow> c' = c1" using run by (auto simp: then_do_eq_Inr pass_def)
        ultimately show ?thesis using f(1) by blast
      qed
    qed
  next
    case False
    have unchoke: "outcome_sent (reply t serves) S r' T'" if "send_message MESSAGE_UNCHOKE [] S = (r', T')" for r' :: "unit result" and T'
      using that by (rule send_message_sent) (simp add: reply_def)
    have "outcome_sent (reply t serves) S r T"
      using False assms(3) unchoke unfolding serve_message_def
      by (auto simp: message_ids then_do_def pass_def outcome_sent_def sent_refl sent_upto_refl
          split: if_splits sum.splits prod.splits)
    moreover have "\<forall>go_on u' c'. r = Inr (go_on, u', c') \<longrightarrow> c' = c"
      using False assms(3) unfolding serve_message_def
      by (auto simp: message_ids then_do_eq_Inr pass_def split: if_splits)
    ultimately show ?thesis using assms(2) by blast
  qed
  then show "outcome_sent (reply t serves) S r T" and "r = Inr (go_on, u', c') \<Longrightarrow> keeps c'" by blast+
qed

lemma serve_messages_sent:
  assumes "torrent_shape t"
  shows "keeps c \<Longrightarrow> serve_messages E t early fetch u c S = (r, U) \<Longrightarrow> outcome_sent (reply t serves) S r U"
proof (induction "length (ps_in S)" arbitrary: u c S rule: less_induct)
  case less
  obtain shutdown S1 where S1: "is_shutdown E S = (Inr shutdown, S1)" "ps_out S1 = ps_out S" "ps_in S1 = ps_in S"
    using that by (cases "se_shutdown E") (auto simp: is_shutdown_def)
  obtain q S2 where S2: "read_seed_message E S1 = (q, S2)" by (cases "read_seed_message E S1")
  have out: "ps_out S2 = ps_out S" using read_seed_message_out [OF S2] S1(2) by simp
  note run = less.prems(2) [unfolded serve_messages.simps [of E t early fetch u c S]]
  consider (stop) "shutdown" | (failed) e where "\<not> shutdown" "q = Inl e" | (alive) "\<not> shutdown" "q = Inr None"
    | (message) i payload where "\<not> shutdown" "q = Inr (Some (i, payload))" by (cases q) (auto simp: option.exhaust_sel, metis option.exhaust surj_pair)
  then show ?case
  proof cases
    case stop
    with run S1 show ?thesis by (auto simp: then_do_def intro: outcome_sent_silent)
  next
    case failed
    with run S1 S2 out show ?thesis by (auto simp: then_do_def intro: outcome_sent_silent)
  next
    case alive
    with run S1(1) S2 have "serve_messages E t early fetch u c S2 = (r, U)" by (simp add: then_do_def)
    moreover have "length (ps_in S2) < length (ps_in S)" using read_seed_message_shrinks S2 alive S1(3) by metis
    ultimately have "outcome_sent (reply t serves) S2 r U" using less.hyps less.prems(1) by blast
    then show ?thesis by (rule outcome_sent_trans [rotated]) (rule sent_refl [OF out])
  next
    case message
    let ?next = "\<lambda>next S. case next of (go_on, u, c) \<Rightarrow> if go_on then serve_messages E t early fetch u c S else (Inr (), S)"
    have shrink: "length (ps_in S2) < length (ps_in S)" using read_seed_message_shrinks S2 message S1(3) by metis
    have "then_do (serve_message E t early fetch i payload u c) ?next S2 = (r, U)"
      using run S1(1) S2 message by (simp add: then_do_def)
    then have "outcome_sent (reply t serves) S2 r U"
    proof (rule then_do_sent)
      show "outcome_sent (reply t serves) S2 r' T" if "serve_message E t early fetch i payload u c S2 = (r', T)" for r' T
        using serve_message_sent(1) [OF assms less.prems(1) that] .
      fix x T assume step: "serve_message E t early fetch i payload u c S2 = (Inr x, T)" and rest: "?next x T = (r, U)"
      obtain go_on u' c' where x: "x = (go_on, u', c')" by (cases x)
      have "keeps c'" using serve_message_sent(2) [OF assms less.prems(1) step] x by blast
      moreover have "length (ps_in T) < length (ps_in S)" using serve_message_in [OF step] shrink by simp
      ultimately show "outcome_sent (reply t serves) T r U"
        using rest x less.hyps by (cases go_on) (auto intro: outcome_sent_silent)
    qed
    then show ?thesis by (rule outcome_sent_trans [rotated]) (rule sent_refl [OF out])
  qed
qed

end

section \<open>The opened file\<close>

text \<open>A block is what the file holds at its place at some moment.\<close>

definition block_in :: "torrent_v1 \<Rightarrow> bytes \<Rightarrow> block_key \<Rightarrow> bytes" where
  "block_in t content request = (case request of (piece, begin_at, len) \<Rightarrow>
     take (unat len) (drop (unat begin_at) (drop (piece_bound t (unat piece)) content)))"

definition from_handle :: "seed_env \<Rightarrow> torrent_v1 \<Rightarrow> block_key \<Rightarrow> bytes \<Rightarrow> bool" where
  "from_handle E t request block \<longleftrightarrow>
     (\<exists>k. block = block_in t (se_handle E k) request \<and> length block = unat (snd (snd request)))"

lemma request_position:
  assumes "torrent_shape t" and "servable t (p, b, l)"
  obtains offset absolute where "checked_mul (ucast p) (tv_piece_length t) = Some offset"
    and "checked_add offset (ucast b) = Some absolute" and "unat absolute = piece_bound t (unat p) + unat b"
proof -
  have pl: "0 < tv_piece_length t" and p: "unat p < piece_count t" using assms by (auto simp: torrent_shape_def servable_def)
  have wp: "(word_of_nat (unat p) :: u64) = ucast p" by (simp add: word_unat_eq_iff unat_of_nat_u64 less_trans [OF unat_u32_bound])
  obtain offset where offset: "checked_mul (ucast p) (tv_piece_length t) = Some offset" "unat offset = piece_bound t (unat p)"
    using checked_piece_offset [OF pl p] unfolding wp by blast
  have "piece_bound t (unat p) + unat b + unat l \<le> piece_bound t (Suc (unat p))" using assms(2) by (simp add: servable_def)
  then have "unat offset + unat b < 18446744073709551616"
    using offset(2) piece_bound_total [of t "Suc (unat p)"] unat_u64_bound [of "tv_total_length t"] by linarith
  then have "checked_add offset (ucast b) = Some (offset + ucast b)" "unat (offset + ucast b) = piece_bound t (unat p) + unat b"
    using offset(2) by (simp_all add: checked_add_def unat_word_ariths)
  with offset(1) show thesis by (rule that)
qed

lemma file_block_Inr:
  assumes "torrent_shape t" and "servable t request"
  shows "file_block E t k request c = (let block = block_in t (se_handle E k) request in
     if length block = unat (snd (snd request)) then Inr (block, 0, 0, ()) else Inl (Io UnexpectedEof))"
proof -
  obtain p b l where request: "request = (p, b, l)" by (cases request)
  obtain offset absolute where "checked_mul (ucast p) (tv_piece_length t) = Some offset"
    "checked_add offset (ucast b) = Some absolute" "unat absolute = piece_bound t (unat p) + unat b"
    using request_position [OF assms(1) assms(2) [unfolded request]] by blast
  then show ?thesis by (simp add: file_block_def request read_at_def block_in_def Let_def add.commute)
qed

interpretation file_source: block_source t "file_block E t" "\<lambda>_. True" "from_handle E t"
proof
  fix c request k block n m c'
  assume "torrent_shape t" "servable t request" "file_block E t k request c = Inr (block, n, m, c')"
  then show "True \<and> from_handle E t request block"
    by (auto simp: file_block_Inr Let_def from_handle_def split: if_splits)
qed

section \<open>The index\<close>

definition verified_piece :: "bt_ext \<Rightarrow> torrent_v1 \<Rightarrow> nat \<Rightarrow> bytes \<Rightarrow> bool" where
  "verified_piece X t i piece_bytes \<longleftrightarrow> length piece_bytes = piece_bound t (Suc i) - piece_bound t i
     \<and> sha1_hex X piece_bytes = tv_piece_sha1 t ! i"

definition from_verified_piece :: "bt_ext \<Rightarrow> torrent_v1 \<Rightarrow> bool list \<Rightarrow> block_key \<Rightarrow> bytes \<Rightarrow> bool" where
  "from_verified_piece X t available request block \<longleftrightarrow> (case request of (piece, begin_at, len) \<Rightarrow>
     available ! unat piece \<and> (\<exists>piece_bytes. verified_piece X t (unat piece) piece_bytes
       \<and> block = take (unat len) (drop (unat begin_at) piece_bytes) \<and> length block = unat len))"

definition cache_verified :: "bt_ext \<Rightarrow> torrent_v1 \<Rightarrow> (u32 \<times> bytes) option \<Rightarrow> bool" where
  "cache_verified X t cache \<longleftrightarrow> (case cache of None \<Rightarrow> True | Some (piece, piece_bytes) \<Rightarrow> verified_piece X t (unat piece) piece_bytes)"

lemma reconstruct_chunk_length:
  assumes "reconstruct_chunk X db fs po pe (buf, n, m) c = Inr (buf', n', m')" and "length buf = unat pe - unat po" and "po \<le> pe"
  shows "length buf' = length buf"
proof -
  let ?s = "max (ck_offset c) po" and ?e = "min (ck_offset c + ucast (ck_length c)) pe"
  have same: "?e \<le> ?s \<Longrightarrow> buf' = buf" using assms(1) by (simp add: reconstruct_chunk_def Let_def)
  have copied: "\<exists>bs. buf' = copy_into buf (unat (?s - po)) (take (unat (?e - ?s)) bs)" if "\<not> ?e \<le> ?s"
    using assms(1) that by (auto simp: reconstruct_chunk_def Let_def)
  show ?thesis
  proof (cases "?e \<le> ?s")
    case False
    obtain bs where buf': "buf' = copy_into buf (unat (?s - po)) (take (unat (?e - ?s)) bs)" using copied [OF False] by blast
    have lt: "unat ?s < unat ?e" "unat po \<le> unat ?s" "unat ?e \<le> unat pe"
      using False by (simp_all add: word_le_nat_alt not_le unat_max unat_min)
    have "unat (?s - po) = unat ?s - unat po" "unat (?e - ?s) = unat ?e - unat ?s"
      using lt by (simp_all add: unat_sub word_le_nat_alt)
    moreover have "length (take (unat (?e - ?s)) bs) \<le> unat (?e - ?s)" by simp
    ultimately have "unat (?s - po) + length (take (unat (?e - ?s)) bs) \<le> length buf" using lt unfolding assms(2) by linarith
    then show ?thesis unfolding buf' by (rule length_copy_into)
  qed (simp add: same)
qed

lemma reconstruct_chunks_length:
  "try_fold (reconstruct_chunk X db fs po pe) (buf, n, m) cs = Inr (buf', n', m') \<Longrightarrow> length buf = unat pe - unat po \<Longrightarrow> po \<le> pe \<Longrightarrow>
    length buf' = length buf"
  by (induction cs arbitrary: buf n m) (auto dest: reconstruct_chunk_length)

lemma reconstruct_index_piece_verified:
  assumes shape: "torrent_shape t" and i: "i < piece_count t"
    and "reconstruct_index_piece X db fs t d i = Inr (piece_bytes, n, m)"
  shows "verified_piece X t i piece_bytes"
proof -
  have pl: "0 < tv_piece_length t" using shape by (simp add: torrent_shape_def)
  obtain po where po: "checked_mul (word_of_nat i) (tv_piece_length t) = Some po" "unat po = piece_bound t i"
    using checked_piece_offset [OF pl i] by blast
  obtain len where len: "seed_piece_length t i = Inr len" "unat len = piece_bound t (Suc i) - piece_bound t i"
    using seed_piece_length_eq [OF shape i] by blast
  have b: "piece_bound t i < piece_bound t (Suc i)" "piece_bound t (Suc i) < 18446744073709551616"
    using piece_bounds(2) [OF pl i] piece_bound_total [of t "Suc i"] unat_u64_bound [of "tv_total_length t"] by linarith+
  then have pe: "unat (po + len) = piece_bound t (Suc i)" using po(2) len(2) by (simp add: unat_word_ariths)
  from assms(3) po(1) len(1) have run: "try_fold (reconstruct_chunk (bx_cdc X) db fs po (po + len)) (replicate (unat len) 0, 0, 0) (td_chunks d)
      = Inr (piece_bytes, n, m)" and sha: "sha1_hex X piece_bytes = tv_piece_sha1 t ! i"
    by (auto simp: reconstruct_index_piece_def)
  have "length piece_bytes = unat len"
    using reconstruct_chunks_length [OF run] b po(2) len(2) pe by (simp add: word_le_nat_alt)
  with sha len(2) show ?thesis by (simp add: verified_piece_def)
qed

interpretation index_source: block_source t "index_block X E t d available" "cache_verified X t" "from_verified_piece X t available"
proof
  fix c request k block n m c'
  assume shape: "torrent_shape t" and c: "cache_verified X t c" and ok: "servable t request"
    and got: "index_block X E t d available k request c = Inr (block, n, m, c')"
  obtain p b l where request: "request = (p, b, l)" by (cases request)
  have p: "unat p < piece_count t" using ok by (simp add: servable_def request)
  from got obtain piece_bytes where av: "available ! unat p" and c': "c' = Some (p, piece_bytes)"
    and block: "block = take (unat l) (drop (unat b) piece_bytes)"
    and origin: "(case c of
         Some (cached, piece_bytes) \<Rightarrow>
           if cached = p then Inr (piece_bytes, 0, 0)
           else reconstruct_index_piece X (se_index E k) (se_files E k) t d (unat p)
       | None \<Rightarrow> reconstruct_index_piece X (se_index E k) (se_files E k) t d (unat p)) = Inr (piece_bytes, n, m)"
    by (auto simp: index_block_def request)
  have v: "verified_piece X t (unat p) piece_bytes"
    using \<open>cache_verified X t c\<close> origin reconstruct_index_piece_verified [OF shape p]
    by (auto simp: cache_verified_def split: option.splits if_splits)
  moreover have "length block = unat l" using v ok by (auto simp: block verified_piece_def servable_def request)
  ultimately show "cache_verified X t c' \<and> from_verified_piece X t available request block"
    using av block by (auto simp: cache_verified_def from_verified_piece_def c' request)
qed

end
