(* ===== verification/Bt_Seed_Liveness.thy ===== *)
theory Bt_Seed_Liveness
  imports Bt_Seed_Safety Bt_Receive_Liveness Bt_Download_Safety
begin

text \<open>
  The two ends of a transfer meet: a seeder that is not interrupted answers a downloader's requests with the
  blocks of its source, and the downloader that reads these answers completes its piece. The locale
  \<open>complete_source\<close> extends \<open>block_source\<close> by the promise that the source has what it advertises; the validated
  file and the index that the bridge was planned with keep it.
\<close>

section \<open>An undisturbed seeder\<close>

definition undisturbed :: "seed_env \<Rightarrow> bool" where
  "undisturbed E \<longleftrightarrow> (\<forall>flag k. se_shutdown E = Some flag \<longrightarrow> \<not> flag k) \<and> (\<forall>k n. se_reserve E k n \<noteq> None)"

lemma take_interruptible_stream: "take_interruptible flag k (length bs) (stream_of bs @ s) = (Inr bs, s, k)"
  by (induction bs) (simp_all add: stream_of_def)

lemma read_exact_interruptible_stream:
  "ps_in S = stream_of bs @ s \<Longrightarrow> n = length bs \<Longrightarrow> read_exact_interruptible E n S = (Inr bs, S\<lparr>ps_in := s\<rparr>)"
  by (simp add: read_exact_interruptible_def take_interruptible_stream)

lemma read_seed_message_stream:
  assumes "ps_in S = stream_of (message_bytes i payload) @ s" and "length payload < unat MAX_MESSAGE_LENGTH"
  shows "read_seed_message E S = (Inr (Some (i, payload)), S\<lparr>ps_in := s\<rparr>)"
proof -
  have m: "MAX_MESSAGE_LENGTH = 2097152" by (simp add: MAX_MESSAGE_LENGTH_def)
  have l: "length payload + 1 \<le> 2097152" using assms(2) by (simp add: m)
  let ?l = "word_of_nat (be_nat (be_bytes 4 (length payload + 1))) :: u32"
  have "be_nat (be_bytes 4 (length payload + 1)) = length payload + 1" using l by (intro be_nat_be_bytes) simp
  moreover have "unat (word_of_nat (length payload + 1) :: u32) = length payload + 1" using l by (simp only: unat_of_nat) simp
  ultimately have n: "unat ?l = length payload + 1" by simp
  have pos: "?l \<noteq> 0" "\<not> MAX_MESSAGE_LENGTH < ?l"
    using n l unat_0 by (metis add_is_0 one_neq_zero, simp add: word_less_nat_alt n m)
  have r: "read_exact_interruptible E 4 S = (Inr (be_bytes 4 (length payload + 1)), S\<lparr>ps_in := stream_of (i # payload) @ s\<rparr>)"
    by (rule read_exact_interruptible_stream) (simp_all add: assms(1) message_bytes_def)
  have r2: "read_exact_interruptible E (unat ?l) (S\<lparr>ps_in := stream_of (i # payload) @ s\<rparr>) = (Inr (i # payload), S\<lparr>ps_in := s\<rparr>)"
    by (subst read_exact_interruptible_stream [of _ "i # payload" s]) (use n in simp_all)
  show ?thesis unfolding read_seed_message_def then_do_def r Let_def prod.case sum.case
    using pos by (simp only: if_False r2 prod.case sum.case) (simp add: pass_def)
qed

lemma read_seed_message_eof: "ps_in S = [] \<Longrightarrow> read_seed_message E S = (Inl (Io UnexpectedEof), S)"
  by (simp add: read_seed_message_def then_do_def read_exact_interruptible_def numeral_eq_Suc)

lemma is_shutdown_undisturbed: "undisturbed E \<Longrightarrow> \<exists>k. is_shutdown E S = (Inr False, S\<lparr>sn_seen := k\<rparr>)"
  by (cases "se_shutdown E") (auto simp: is_shutdown_def undisturbed_def intro: exI [of _ "sn_seen S"])

lemma seed_send_free: "ps_room S = None \<Longrightarrow> length payload + 1 < 2 ^ 32 \<Longrightarrow>
    send_message i payload S = (Inr (), S\<lparr>ps_out := ps_out S @ message_bytes i payload\<rparr>)"
  by (simp add: send_message_def write_all_def)

section \<open>Sources that have what they offer\<close>

definition key_of :: "block_request \<Rightarrow> block_key" where
  "key_of r = (rq_piece_index r, rq_begin r, rq_length r)"

lemma request_payload_key: "request_payload r = block_payload (key_of r)"
  by (simp add: request_payload_def block_payload_def key_of_def)

definition block_replies :: "torrent_v1 \<Rightarrow> bytes \<Rightarrow> block_request list \<Rightarrow> bytes" where
  "block_replies t contents rs = concat (map (\<lambda>r. block_message (key_of r) (block_in t contents (key_of r))) rs)"

lemma block_replies_simps [simp]: "block_replies t contents [] = []"
  "block_replies t contents (r # rs) = block_message (key_of r) (block_in t contents (key_of r)) @ block_replies t contents rs"
  by (simp_all add: block_replies_def)

lemma length_block_in: "length (block_in t contents (p, b, l)) \<le> unat l"
  by (simp add: block_in_def)

locale complete_source = block_source t fetch keeps serves
  for t :: torrent_v1 and fetch :: "'c block_fetch" and keeps and serves +
  fixes ready :: bool and offers :: "nat \<Rightarrow> bool" and contents :: bytes
  assumes complete: "ready \<Longrightarrow> torrent_shape t \<Longrightarrow> keeps c \<Longrightarrow> servable t request \<Longrightarrow> offers (unat (fst request)) \<Longrightarrow>
    \<exists>n m c'. fetch k request c = Inr (block_in t contents request, n, m, c')"

context complete_source
begin

lemma answer_request:
  assumes ready: ready and shape: "torrent_shape t" and calm: "undisturbed E" and c: "keeps c"
    and r: "servable t (key_of r)" "offers (unat (rq_piece_index r))" and room: "ps_room S = None"
  shows "\<exists>c' T. serve_message E t early fetch MESSAGE_REQUEST (request_payload r) True c S = (Inr (True, True, c'), T) \<and> keeps c'
    \<and> ps_in T = ps_in S \<and> ps_room T = None \<and> ps_out T = ps_out S @ block_message (key_of r) (block_in t contents (key_of r))"
proof -
  let ?key = "key_of r" and ?block = "block_in t contents (key_of r)"
  obtain p b l where key: "?key = (p, b, l)" by (cases ?key)
  have parsed: "parse_block_message (request_payload r) t = Inr ?key"
    using parse_block_message_exact [OF shape] r(1) by (simp add: request_payload_key)
  obtain n m c' where got: "fetch (sn_seen S) ?key c = Inr (?block, n, m, c')"
    using complete [OF ready shape c r(1), of "sn_seen S"] r(2) by (auto simp: key_of_def)
  have c': "keeps c'" using fetched [OF shape c r(1) got] by simp
  let ?S = "S\<lparr>sn_seen := sn_seen S + 1,
     sn_on_demand_local_chunks_read := sn_on_demand_local_chunks_read S + n,
     sn_on_demand_local_bytes_read := sn_on_demand_local_bytes_read S + m\<rparr>"
  obtain w where w: "se_reserve E (sn_seen ?S) (ucast l) = Some w" using calm unfolding undisturbed_def by blast
  have "l \<le> 16384" using r(1) by (simp add: servable_def key)
  then have "length ?block \<le> 16384" using length_block_in [of t contents p b l] key by (simp add: word_le_nat_alt)
  then have small: "length (be_bytes 4 (unat p) @ be_bytes 4 (unat b) @ ?block) + 1 < 2 ^ 32" by simp
  have "\<exists>T. send_block E ?key ?block ?S = (Inr True, T) \<and> ps_in T = ps_in S \<and> ps_room T = None
     \<and> ps_out T = ps_out S @ block_message ?key ?block"
    using seed_send_free [of "?S\<lparr>sn_seen := sn_seen ?S + 1\<rparr>", OF _ small] room w
    by (simp add: send_block_def key block_message_def)
  then obtain T where T: "send_block E ?key ?block ?S = (Inr True, T)" "ps_in T = ps_in S" "ps_room T = None"
    "ps_out T = ps_out S @ block_message ?key ?block" by blast
  have "serve_message E t early fetch MESSAGE_REQUEST (request_payload r) True c S = (Inr (True, True, c'), T)"
    using parsed got T(1) by (simp add: serve_message_def message_ids then_do_def pass_def)
  with c' T show ?thesis by blast
qed

lemma serve_requests:
  assumes ready: ready and shape: "torrent_shape t" and calm: "undisturbed E"
  shows "keeps c \<Longrightarrow> ps_room S = None \<Longrightarrow> ps_in S = stream_of (block_asks rs) \<Longrightarrow>
    list_all (\<lambda>r. servable t (key_of r) \<and> offers (unat (rq_piece_index r))) rs \<Longrightarrow>
    \<exists>T. serve_messages E t early fetch True c S = (Inr (), T) \<and> ps_out T = ps_out S @ block_replies t contents rs"
proof (induction rs arbitrary: c S)
  case Nil
  obtain k where k: "is_shutdown E S = (Inr False, S\<lparr>sn_seen := k\<rparr>)" using is_shutdown_undisturbed [OF calm] by blast
  have "read_seed_message E (S\<lparr>sn_seen := k\<rparr>) = (Inl (Io UnexpectedEof), S\<lparr>sn_seen := k\<rparr>)"
    using Nil by (intro read_seed_message_eof) (simp add: stream_of_def)
  then show ?case by (subst serve_messages.simps) (simp add: then_do_def k is_connection_end_def)
next
  case (Cons r rs)
  obtain k where k: "is_shutdown E S = (Inr False, S\<lparr>sn_seen := k\<rparr>)" using is_shutdown_undisturbed [OF calm] by blast
  let ?S = "S\<lparr>sn_seen := k, ps_in := stream_of (block_asks rs)\<rparr>"
  have "length (request_payload r) < unat MAX_MESSAGE_LENGTH" by (simp add: request_payload_def MAX_MESSAGE_LENGTH_def)
  then have m: "read_seed_message E (S\<lparr>sn_seen := k\<rparr>) = (Inr (Some (MESSAGE_REQUEST, request_payload r)), ?S)"
    using Cons.prems(3) by (intro read_seed_message_stream [THEN trans]) simp_all
  obtain c' T where T: "serve_message E t early fetch MESSAGE_REQUEST (request_payload r) True c ?S = (Inr (True, True, c'), T)"
    "keeps c'" "ps_in T = ps_in ?S" "ps_room T = None"
    "ps_out T = ps_out ?S @ block_message (key_of r) (block_in t contents (key_of r))"
    using answer_request [OF ready shape calm Cons.prems(1), where r = r and S = ?S and early = early] Cons.prems(2,4) by auto
  obtain U where U: "serve_messages E t early fetch True c' T = (Inr (), U)" "ps_out U = ps_out T @ block_replies t contents rs"
    using Cons.IH [OF T(2,4)] T(3) Cons.prems(4) by auto
  have "serve_messages E t early fetch True c S = serve_messages E t early fetch True c' T"
    by (subst serve_messages.simps) (simp add: then_do_def k m T(1))
  with U T(5) show ?case by simp
qed

lemma serve_interested:
  assumes ready: ready and shape: "torrent_shape t" and calm: "undisturbed E" and "keeps c" and room: "ps_room S = None"
    and input: "ps_in S = stream_of (message_bytes MESSAGE_INTERESTED [] @ block_asks rs)"
    and "list_all (\<lambda>r. servable t (key_of r) \<and> offers (unat (rq_piece_index r))) rs"
  shows "\<exists>T. serve_messages E t early fetch False c S = (Inr (), T)
    \<and> ps_out T = ps_out S @ message_bytes MESSAGE_UNCHOKE [] @ block_replies t contents rs"
proof -
  obtain k where k: "is_shutdown E S = (Inr False, S\<lparr>sn_seen := k\<rparr>)" using is_shutdown_undisturbed [OF calm] by blast
  let ?S = "S\<lparr>sn_seen := k, ps_in := stream_of (block_asks rs)\<rparr>"
  let ?T = "?S\<lparr>ps_out := ps_out S @ message_bytes MESSAGE_UNCHOKE []\<rparr>"
  have m: "read_seed_message E (S\<lparr>sn_seen := k\<rparr>) = (Inr (Some (MESSAGE_INTERESTED, [])), ?S)"
    using input by (intro read_seed_message_stream [THEN trans]) (simp_all add: MAX_MESSAGE_LENGTH_def)
  have "serve_message E t early fetch MESSAGE_INTERESTED [] False c ?S = (Inr (True, True, c), ?T)"
    using seed_send_free [of ?S "[]" MESSAGE_UNCHOKE] room
    by (simp add: serve_message_def expect_empty_def then_do_def pass_def)
  then have "serve_messages E t early fetch False c S = serve_messages E t early fetch True c ?T"
    by (subst serve_messages.simps) (simp add: then_do_def k m)
  moreover obtain U where "serve_messages E t early fetch True c ?T = (Inr (), U)" "ps_out U = ps_out ?T @ block_replies t contents rs"
    using serve_requests [OF ready shape calm assms(4), of ?T rs] room assms(7) by auto
  ultimately show ?thesis by auto
qed

end

section \<open>The file\<close>

interpretation file_complete: complete_source t "file_block E t" "\<lambda>_. True" "from_handle E t"
  "(\<forall>k. se_handle E k = content) \<and> length content = unat (tv_total_length t)" "\<lambda>_. True" content
proof
  fix c request k
  assume ready: "(\<forall>k. se_handle E k = content) \<and> length content = unat (tv_total_length t)"
    and shape: "torrent_shape t" and ok: "servable t request"
  obtain p b l where request: "request = (p, b, l)" by (cases request)
  have "unat l \<le> length content - (piece_bound t (unat p) + unat b)"
    using ok ready piece_bound_total [of t "Suc (unat p)"] by (simp add: servable_def request) linarith
  then have "length (block_in t content request) = unat l" by (simp add: block_in_def request add.commute)
  then show "\<exists>n m c'. file_block E t k request c = Inr (block_in t content request, n, m, c')"
    using ready by (simp add: file_block_Inr [OF shape ok [unfolded request]] request)
qed

section \<open>The index\<close>

lemma filter_sum_missing:
  "(\<Sum>c\<leftarrow>filter P cs. f c) = (\<Sum>c\<leftarrow>cs. f c) \<Longrightarrow> c \<in> set cs \<Longrightarrow> \<not> P c \<Longrightarrow> f c = (0 :: nat)"
proof (induction cs)
  case (Cons x xs)
  have "(\<Sum>c\<leftarrow>filter P xs. f c) \<le> (\<Sum>c\<leftarrow>xs. f c)" by (rule sum_filter_le)
  with Cons show ?case by (cases "P x") auto
qed simp

lemma reconstruct_follows_chunk:
  assumes "cover_chunk X db fs po pe (buf, cov) c = Inr (buf', cov')" and "unat (ck_offset c) + unat (ck_length c) < 2 ^ 64"
    and "0 < chunk_overlap (unat po) (unat pe) c \<Longrightarrow> found_locally X db fs c"
  shows "\<exists>n' m'. reconstruct_chunk X db fs po pe (buf, n, m) c = Inr (buf', n', m')"
proof (cases "min (ck_offset c + ucast (ck_length c)) pe \<le> max (ck_offset c) po")
  case True
  with assms(1) show ?thesis by (simp add: cover_chunk_def reconstruct_chunk_def Let_def)
next
  case False
  have "unat (ck_offset c + ucast (ck_length c)) = unat (ck_offset c) + unat (ck_length c)"
    using assms(2) by (simp add: unat_word_ariths)
  then have "0 < chunk_overlap (unat po) (unat pe) c"
    using False by (auto simp: overlap_def word_le_nat_alt unat_max unat_min)
  from assms(3) [OF this] obtain source where "lookup_chunk X db (fs_metadata fs) (ck_hash c) (ck_length c) = Inr (Some source)"
    by (auto simp: found_locally_def split: sum.splits option.splits)
  with assms(1) False show ?thesis by (auto simp: cover_chunk_def reconstruct_chunk_def Let_def)
qed

lemma reconstruct_follows_chunks:
  "try_fold (cover_chunk X db fs po pe) (buf, cov) cs = Inr (buf', cov') \<Longrightarrow> chunks_tile start cs e \<Longrightarrow> e < 2 ^ 64 \<Longrightarrow>
    \<forall>c\<in>set cs. 0 < chunk_overlap (unat po) (unat pe) c \<longrightarrow> found_locally X db fs c \<Longrightarrow>
    \<exists>n' m'. try_fold (reconstruct_chunk X db fs po pe) (buf, n, m) cs = Inr (buf', n', m')"
proof (induction cs arbitrary: buf cov n m start)
  case (Cons c cs)
  obtain buf1 cov1 where s: "cover_chunk X db fs po pe (buf, cov) c = Inr (buf1, cov1)"
    "try_fold (cover_chunk X db fs po pe) (buf1, cov1) cs = Inr (buf', cov')" using Cons.prems(1) by auto
  have t: "unat (ck_offset c) = start" "chunks_tile (start + unat (ck_length c)) cs e" using Cons.prems(2) by auto
  have "start + unat (ck_length c) \<le> e" using t(2) by (rule chunks_tile_le)
  then have "unat (ck_offset c) + unat (ck_length c) < 2 ^ 64" using t(1) Cons.prems(3) by linarith
  then obtain n1 m1 where "reconstruct_chunk X db fs po pe (buf, n, m) c = Inr (buf1, n1, m1)"
    using reconstruct_follows_chunk [OF s(1)] Cons.prems(4) by (metis list.set_intros(1))
  moreover obtain n' m' where "try_fold (reconstruct_chunk X db fs po pe) (buf1, n1, m1) cs = Inr (buf', n', m')"
    using Cons.IH [OF s(2) t(2) Cons.prems(3), of n1 m1] Cons.prems(4) by (meson list.set_intros(2))
  ultimately show ?case by simp
qed simp

lemma plan_pieces_cover:
  "try_fold (plan_piece X db fs t d) s (enumerate k hs) = Inr s' \<Longrightarrow> i < length hs \<Longrightarrow>
    \<exists>po acc. checked_mul (word_of_nat (k + i)) (tv_piece_length t) = Some po
      \<and> (let pe = min (saturating_add po (tv_piece_length t)) (tv_total_length t) in
         try_fold (cover_chunk (bx_cdc X) db fs po pe) (replicate (unat (pe - po)) 0, 0) (td_chunks d) = Inr acc)"
proof (induction hs arbitrary: s k i)
  case (Cons h hs)
  show ?case
  proof (cases i)
    case 0
    with Cons.prems(1) show ?thesis by (auto simp: plan_piece_def Let_def)
  next
    case (Suc j)
    with Cons.prems Cons.IH [of _ "Suc k" j] show ?thesis by auto
  qed
qed simp

lemma reconstruct_advertised:
  assumes plan: "plan_v1_bridge X db fs t d = Inr plan" and shape: "torrent_shape t" and i: "i < piece_count t"
    and full: "pp_fully_local (br_pieces plan ! i)"
  shows "\<exists>n m. reconstruct_index_piece X db fs t d i = Inr (file_piece t (local_image (bx_cdc X) db fs (td_chunks d)) i, n, m)"
proof -
  let ?a = "piece_bound t i" and ?b = "piece_bound t (Suc i)" and ?image = "local_image (bx_cdc X) db fs (td_chunks d)"
  have pl: "0 < tv_piece_length t" and n: "length (tv_piece_sha1 t) = piece_count t"
    using shape by (simp_all add: torrent_shape_def piece_count_def)
  from plan obtain s s' where valid: "td_validate (bx_cdc X) d = Inr ()" and size: "tv_total_length t = ti_size (td_target d)"
    and run: "try_fold (plan_piece X db fs t d) s (enumerate 0 (tv_piece_sha1 t)) = Inr s'"
    by (auto simp: plan_v1_bridge_def Let_def)
  have tile: "chunks_tile 0 (td_chunks d) (unat (tv_total_length t))" using valid size by (simp add: td_validate_iff)
  have n64: "unat (tv_total_length t) < 2 ^ 64" using unat_u64_bound [of "tv_total_length t"] by simp
  obtain po buf cov where po: "checked_mul (word_of_nat i) (tv_piece_length t) = Some po"
    and cover: "let pe = min (saturating_add po (tv_piece_length t)) (tv_total_length t) in
         try_fold (cover_chunk (bx_cdc X) db fs po pe) (replicate (unat (pe - po)) 0, 0) (td_chunks d) = Inr (buf, cov)"
    using plan_pieces_cover [OF run, of i] i n by auto
  have upo: "unat po = ?a" using checked_piece_offset [OF pl i] po by simp
  have ab: "?a < ?b" "?b \<le> unat (tv_total_length t)" using piece_bounds(2) [OF pl i] piece_bound_total by auto
  define pe where "pe = min (saturating_add po (tv_piece_length t)) (tv_total_length t)"
  obtain len where len: "seed_piece_length t i = Inr len" "unat len = ?b - ?a" using seed_piece_length_eq [OF shape i] by blast
  have "?b = min (?a + unat (tv_piece_length t)) (unat (tv_total_length t))"
    unfolding piece_bounds(1) [OF pl i] by (simp add: piece_bound_def add.commute)
  moreover have "unat pe = min (min (unat po + unat (tv_piece_length t)) (2 ^ 64 - 1)) (unat (tv_total_length t))"
    unfolding pe_def unat_min by (simp add: unat_saturating_add)
  ultimately have upe: "unat pe = ?b" using upo n64 by linarith
  have le: "po \<le> pe" using upo upe ab(1) by (simp add: word_le_nat_alt)
  have sub: "unat (pe - po) = ?b - ?a" using le by (simp add: unat_sub upo upe)
  have "?b < 18446744073709551616" using le_less_trans [OF ab(2) n64] by simp
  then have sum: "po + len = pe" using upo upe len(2) ab by (simp add: word_unat_eq_iff unat_word_ariths)
  note cover' = cover [unfolded Let_def, folded pe_def, unfolded sub]
  have ov: "overlap 0 (unat (tv_total_length t)) ?a ?b = ?b - ?a" using ab by (simp add: overlap_def)
  have fits: "unat (0 :: u64) + overlap 0 (unat (tv_total_length t)) (unat po) (unat pe) < 2 ^ 64"
    unfolding upo upe ov unat_0 using le_less_trans [OF ab(2) n64] by linarith
  note covered = cover_chunks [OF cover' tile n64 le _ _ fits, unfolded upo upe]
  have buf: "length buf = ?b - ?a" "\<And>j. j < ?b - ?a \<Longrightarrow> buf ! j = ?image ! (?a + j)"
    using covered(1,3) ab by auto
  have p: "piece_planned X db fs t d (i, tv_piece_sha1 t ! i) (br_pieces plan ! i)"
    using plan_v1_bridge_exact(1) [OF plan shape] i n
    unfolding pieces_planned_def by (auto dest: list_all2_nthD [where p = i] simp: nth_enumerate_eq)
  have all: "0 < chunk_overlap (unat po) (unat pe) c \<longrightarrow> found_locally (bx_cdc X) db fs c" if "c \<in> set (td_chunks d)" for c
  proof -
    have "(\<Sum>c\<leftarrow>filter (found_locally (bx_cdc X) db fs) (td_chunks d). chunk_overlap ?a ?b c) = ?b - ?a"
      using p full by (auto simp: piece_planned_def Let_def)
    also have "\<dots> = (\<Sum>c\<leftarrow>td_chunks d. chunk_overlap ?a ?b c)" using chunks_overlap [OF tile, of ?a ?b] ab(1) ov by simp
    finally have "\<not> found_locally (bx_cdc X) db fs c \<Longrightarrow> chunk_overlap ?a ?b c = 0" using that by (rule filter_sum_missing)
    then show ?thesis unfolding upo upe by (metis less_irrefl)
  qed
  have image: "length ?image = unat (tv_total_length t)" using length_local_image [OF tile] by simp
  have piece: "buf = file_piece t ?image i"
    by (rule nth_equalityI) (use buf ab image in \<open>simp_all add: file_piece_def\<close>)
  have sha: "sha1_hex X (file_piece t ?image i) = tv_piece_sha1 t ! i"
    using p full by (auto simp: piece_planned_def Let_def slice_def file_piece_def)
  obtain n' m' where "try_fold (reconstruct_chunk (bx_cdc X) db fs po pe) (replicate (unat len) 0, 0, 0) (td_chunks d) = Inr (buf, n', m')"
    using reconstruct_follows_chunks [OF cover' tile n64, of 0 0] all len(2) by auto
  then show ?thesis using po len(1) sha by (simp add: reconstruct_index_piece_def sum piece)
qed

end
