(* ===== verification/Bt_Transfer.thy ===== *)
theory Bt_Transfer
  imports Bt_Seed_Liveness
begin

text \<open>
  A whole transfer of a piece between this program's downloader and this program's seeders: each end reads
  what the other writes, from the handshake to the last block.
\<close>

section \<open>An index that does not change\<close>

definition index_unchanged ::
    "bt_ext \<Rightarrow> seed_env \<Rightarrow> torrent_v1 \<Rightarrow> target_descriptor \<Rightarrow> index_db \<Rightarrow> file_system \<Rightarrow> bt_bridge_report \<Rightarrow> bool" where
  "index_unchanged X E t d db fs plan \<longleftrightarrow> (\<forall>k. se_index E k = db \<and> se_files E k = fs) \<and> plan_v1_bridge X db fs t d = Inr plan"

definition advertised_pieces :: "bt_bridge_report \<Rightarrow> bool list" where
  "advertised_pieces plan = map pp_fully_local (br_pieces plan)"

definition cache_exact ::
    "bt_ext \<Rightarrow> seed_env \<Rightarrow> torrent_v1 \<Rightarrow> target_descriptor \<Rightarrow> index_db \<Rightarrow> file_system \<Rightarrow> bt_bridge_report
       \<Rightarrow> (u32 \<times> bytes) option \<Rightarrow> bool" where
  "cache_exact X E t d db fs plan cache \<longleftrightarrow> cache_verified X t cache \<and>
     (index_unchanged X E t d db fs plan \<longrightarrow>
       (\<forall>p bs. cache = Some (p, bs) \<longrightarrow> bs = file_piece t (local_image (bx_cdc X) db fs (td_chunks d)) (unat p)))"

lemma piece_advertised:
  assumes "plan_v1_bridge X db fs t d = Inr plan" and "torrent_shape t" and "i < piece_count t"
  shows "i < length (br_pieces plan)" and "advertised_pieces plan ! i \<longleftrightarrow> pp_fully_local (br_pieces plan ! i)"
proof -
  have "length (br_pieces plan) = length (tv_piece_sha1 t)"
    using plan_v1_bridge_exact(1) [OF assms(1,2)] by (auto simp: pieces_planned_def dest: list_all2_lengthD)
  then show "i < length (br_pieces plan)" using assms(2,3) by (simp add: torrent_shape_def piece_count_def)
  then show "advertised_pieces plan ! i \<longleftrightarrow> pp_fully_local (br_pieces plan ! i)" by (simp add: advertised_pieces_def)
qed

text \<open>What the index gives for a request, as long as it is the index of the plan.\<close>

lemma index_block_unchanged:
  assumes same: "index_unchanged X E t d db fs plan" and shape: "torrent_shape t" and c: "cache_exact X E t d db fs plan c"
    and ok: "servable t (p, b, l)" and full: "advertised_pieces plan ! unat p"
  shows "\<exists>n m. index_block X E t d (advertised_pieces plan) k (p, b, l) c
    = Inr (take (unat l) (drop (unat b) (file_piece t (local_image (bx_cdc X) db fs (td_chunks d)) (unat p))), n, m,
        Some (p, file_piece t (local_image (bx_cdc X) db fs (td_chunks d)) (unat p)))"
proof -
  let ?piece = "file_piece t (local_image (bx_cdc X) db fs (td_chunks d)) (unat p)"
  have p: "unat p < piece_count t" using ok by (simp add: servable_def)
  have plan: "plan_v1_bridge X db fs t d = Inr plan" and env: "se_index E k = db" "se_files E k = fs"
    using same by (auto simp: index_unchanged_def)
  have "pp_fully_local (br_pieces plan ! unat p)" using full piece_advertised(2) [OF plan shape p] by simp
  from reconstruct_advertised [OF plan shape p this] obtain n m where
    "reconstruct_index_piece X db fs t d (unat p) = Inr (?piece, n, m)" by blast
  moreover have "bs = ?piece" if "c = Some (p, bs)" for bs using that same c by (auto simp: cache_exact_def)
  ultimately show ?thesis
    using full env by (cases c) (auto simp: index_block_def)
qed

interpretation index_complete: complete_source t "index_block X E t d (advertised_pieces plan)"
  "cache_exact X E t d db fs plan" "from_verified_piece X t (advertised_pieces plan)"
  "index_unchanged X E t d db fs plan" "\<lambda>i. advertised_pieces plan ! i" "local_image (bx_cdc X) db fs (td_chunks d)"
proof
  fix c request k block n m c'
  assume shape: "torrent_shape t" and c: "cache_exact X E t d db fs plan c" and ok: "servable t request"
    and got: "index_block X E t d (advertised_pieces plan) k request c = Inr (block, n, m, c')"
  obtain p b l where request: "request = (p, b, l)" by (cases request)
  have "cache_verified X t c' \<and> from_verified_piece X t (advertised_pieces plan) request block"
    using index_source.fetched [OF shape _ ok got] c by (simp add: cache_exact_def)
  moreover have "bs = file_piece t (local_image (bx_cdc X) db fs (td_chunks d)) (unat q)"
    if same: "index_unchanged X E t d db fs plan" and c': "c' = Some (q, bs)" for q bs
  proof -
    have "advertised_pieces plan ! unat p" using got by (auto simp: index_block_def request)
    from index_block_unchanged [OF same shape c ok [unfolded request] this, of k] got c' show ?thesis by (auto simp: request)
  qed
  ultimately show "cache_exact X E t d db fs plan c' \<and> from_verified_piece X t (advertised_pieces plan) request block"
    by (auto simp: cache_exact_def)
next
  fix c request k
  assume same: "index_unchanged X E t d db fs plan" and shape: "torrent_shape t" and c: "cache_exact X E t d db fs plan c"
    and ok: "servable t request" and full: "advertised_pieces plan ! unat (fst request)"
  obtain p b l where request: "request = (p, b, l)" by (cases request)
  let ?image = "local_image (bx_cdc X) db fs (td_chunks d)"
  have "unat b + unat l \<le> piece_bound t (Suc (unat p)) - piece_bound t (unat p)" using ok by (simp add: servable_def request, linarith)
  then have "take (unat l) (drop (unat b) (file_piece t ?image (unat p))) = block_in t ?image request"
    by (simp add: file_piece_def block_in_def request drop_take min_def)
  with index_block_unchanged [OF same shape c ok [unfolded request], of k] full request
  show "\<exists>n m c'. index_block X E t d (advertised_pieces plan) k request c = Inr (block_in t ?image request, n, m, c')" by auto
qed

section \<open>Handshakes\<close>

definition handshake_bytes :: "bytes \<Rightarrow> bytes \<Rightarrow> bytes" where
  "handshake_bytes info_hash peer_id = [19] @ PROTOCOL_NAME @ replicate 8 0 @ info_hash @ peer_id"

lemma protocol_name: "length PROTOCOL_NAME = 19" "word_of_nat (length PROTOCOL_NAME) = (19 :: u8)"
  by (simp_all add: PROTOCOL_NAME_def as_bytes_def)

lemma handshake_parts:
  assumes "length info_hash = 20" and "length peer_id = 20"
  defines "h \<equiv> handshake_bytes info_hash peer_id"
  shows "length h = HANDSHAKE_LENGTH" and "h ! 0 = 19" and "take 19 (drop 1 h) = PROTOCOL_NAME"
    and "take 8 (drop 20 h) = replicate 8 0" and "take 20 (drop 28 h) = info_hash" and "take 20 (drop 48 h) = peer_id"
  using assms protocol_name(1) by (simp_all add: handshake_bytes_def HANDSHAKE_LENGTH_def)

lemma send_handshake_free:
  assumes "cx_hex_decode (bx_cdc X) ih_hex = Inr ih" and "length ih = 20" and "ps_room S = None"
  shows "send_handshake X ih_hex peer_id S = (Inr (), S\<lparr>ps_out := ps_out S @ handshake_bytes ih peer_id\<rparr>)"
  using assms by (simp add: send_handshake_def then_do_def pass_def write_all_def handshake_bytes_def protocol_name)

lemma read_handshake_stream:
  assumes "cx_hex_decode (bx_cdc X) ih_hex = Inr ih" and "length ih = 20" and "length peer_id = 20"
    and "ps_in S = stream_of (handshake_bytes ih peer_id) @ s"
  shows "read_handshake X ih_hex S = (Inr (replicate 8 0, peer_id), S\<lparr>ps_in := s\<rparr>)"
proof -
  note h = handshake_parts [OF assms(2,3)]
  have "read_bytes HANDSHAKE_LENGTH S = (Inr (handshake_bytes ih peer_id), S\<lparr>ps_in := s\<rparr>)"
    using assms(4) h(1) by (intro read_bytes_stream) simp_all
  then show ?thesis using h(2-6) assms(1) by (simp add: read_handshake_def then_do_def pass_def protocol_name del: replicate.simps)
qed

lemma reply_handshake_stream:
  assumes "cx_hex_decode (bx_cdc X) ih_hex = Inr ih" and "length ih = 20" and "length peer_id = 20"
    and "ps_in S = stream_of (handshake_bytes ih peer_id) @ s" and "ps_room S = None"
  shows "read_and_reply_handshake X E ih_hex seeder_id S = (Inr (), S\<lparr>ps_in := s, ps_out := ps_out S @ handshake_bytes ih seeder_id\<rparr>)"
proof -
  note h = handshake_parts [OF assms(2,3)]
  have "read_exact_interruptible E HANDSHAKE_LENGTH S = (Inr (handshake_bytes ih peer_id), S\<lparr>ps_in := s\<rparr>)"
    using assms(4) h(1) by (intro read_exact_interruptible_stream) simp_all
  then show ?thesis using h(2,3,5) assms(1,5)
    by (simp add: read_and_reply_handshake_def then_do_def pass_def write_all_def handshake_bytes_def [symmetric] del: replicate.simps)
       (simp add: handshake_bytes_def)
qed

section \<open>Joining\<close>

lemma await_unfold_read:
  assumes "ps_choked S \<or> \<not> received" and "ps_in S = stream_of (message_bytes i payload) @ s" and "length payload < unat MAX_MESSAGE_LENGTH"
    and "control_message i payload received (S\<lparr>ps_in := s\<rparr>) = (Inr received', T)"
  shows "await_availability received S = await_availability received' T"
  using read_message_stream [OF assms(2,3)] assms(1,4)
  by (subst await_availability.simps) (simp add: then_do_def)

lemma await_bitfield_unchoke:
  assumes "ps_choked S" and "length (ps_availability S) = length available" and "length available \<le> 8388608"
    and "ps_in S = stream_of (message_bytes MESSAGE_BITFIELD (availability_bitfield available) @ message_bytes MESSAGE_UNCHOKE []) @ s"
  shows "await_availability False S = (Inr True, S\<lparr>ps_in := s, ps_availability := available, ps_choked := False\<rparr>)"
proof -
  let ?S1 = "S\<lparr>ps_in := stream_of (message_bytes MESSAGE_UNCHOKE []) @ s, ps_availability := available\<rparr>"
  have "length (availability_bitfield available) < unat MAX_MESSAGE_LENGTH"
    using assms(3) by (simp add: length_availability_bitfield MAX_MESSAGE_LENGTH_def)
  moreover have "control_message MESSAGE_BITFIELD (availability_bitfield available) False
      (S\<lparr>ps_in := stream_of (message_bytes MESSAGE_UNCHOKE []) @ s\<rparr>) = (Inr True, ?S1)"
    using apply_availability_bitfield [OF assms(2)] assms(1)
    by (simp add: control_message_def process_control_message_def message_ids)
  ultimately have "await_availability False S = await_availability True ?S1"
    using assms(4) by (intro await_unfold_read) simp_all
  also have "\<dots> = await_availability True (?S1\<lparr>ps_in := s, ps_choked := False\<rparr>)"
    using assms(1) by (intro await_unfold_read [where i = MESSAGE_UNCHOKE and payload = "[]" and s = s])
      (simp_all add: control_message_def process_control_message_def message_ids expect_empty_payload_def MAX_MESSAGE_LENGTH_def)
  also have "\<dots> = (Inr True, ?S1\<lparr>ps_in := s, ps_choked := False\<rparr>)" by (subst await_availability.simps) simp
  finally show ?thesis by simp
qed

definition seeder_greeting :: "bytes \<Rightarrow> bytes \<Rightarrow> bool list \<Rightarrow> bytes" where
  "seeder_greeting ih seeder_id available = handshake_bytes ih seeder_id
     @ message_bytes MESSAGE_BITFIELD (availability_bitfield available) @ message_bytes MESSAGE_UNCHOKE []"

definition downloader_greeting :: "bytes \<Rightarrow> bytes \<Rightarrow> bytes" where
  "downloader_greeting ih peer_id = handshake_bytes ih peer_id @ message_bytes MESSAGE_INTERESTED []"

lemma join_peer_stream:
  assumes ih: "cx_hex_decode (bx_cdc X) ih_hex = Inr ih" "length ih = 20" and "length seeder_id = 20" and "ps_room S = None"
    and "ps_choked S" and "length (ps_availability S) = length available" and "length available \<le> 8388608"
    and input: "ps_in S = stream_of (seeder_greeting ih seeder_id available) @ s"
  shows "join_peer X ih_hex peer_id S = (Inr (replicate 8 0, seeder_id), S\<lparr>ps_in := s, ps_availability := available,
    ps_choked := False, ps_out := ps_out S @ downloader_greeting ih peer_id\<rparr>)"
proof -
  let ?S1 = "S\<lparr>ps_out := ps_out S @ handshake_bytes ih peer_id\<rparr>"
  let ?rest = "stream_of (message_bytes MESSAGE_BITFIELD (availability_bitfield available) @ message_bytes MESSAGE_UNCHOKE []) @ s"
  let ?S2 = "?S1\<lparr>ps_in := ?rest\<rparr>"
  let ?S3 = "?S2\<lparr>ps_out := ps_out ?S2 @ message_bytes MESSAGE_INTERESTED []\<rparr>"
  have "send_handshake X ih_hex peer_id S = (Inr (), ?S1)" using ih assms(4) by (rule send_handshake_free)
  moreover have "read_handshake X ih_hex ?S1 = (Inr (replicate 8 0, seeder_id), ?S2)"
    using input by (intro read_handshake_stream [OF ih assms(3)]) (simp add: seeder_greeting_def)
  moreover have "send_message MESSAGE_INTERESTED [] ?S2 = (Inr (), ?S3)"
    using assms(4) by (intro send_message_free) simp_all
  moreover have "await_availability False ?S3 = (Inr True, ?S3\<lparr>ps_in := s, ps_availability := available, ps_choked := False\<rparr>)"
    using assms(5-7) by (intro await_bitfield_unchoke) simp_all
  ultimately show ?thesis by (simp add: join_peer_def then_do_def pass_def downloader_greeting_def del: replicate.simps)
qed

section \<open>Two ends\<close>

text \<open>A worker of \<open>run_peer_worker\<close> that gets one job of a peer it has just joined.\<close>

definition fetch_one_piece :: "bt_ext \<Rightarrow> torrent_v1 \<Rightarrow> bytes \<Rightarrow> piece_job \<Rightarrow> bytes \<Rightarrow> piece_receive_outcome session" where
  "fetch_one_piece X t local_peer_id job content =
     then_do (join_peer X (tv_info_hash_sha1 t) local_peer_id) (\<lambda>_. receive_piece_job X t job content (\<lambda>_. False))"

text \<open>What the job needs for its piece to be completed by the blocks of \<open>target\<close>.\<close>

definition completes_piece :: "bt_ext \<Rightarrow> torrent_v1 \<Rightarrow> bytes \<Rightarrow> bytes \<Rightarrow> local_range list \<Rightarrow> piece_job \<Rightarrow> bool" where
  "completes_piece X t target content ranges job \<longleftrightarrow> (let i = unat (pj_piece_index job) in
     length target = unat (tv_total_length t) \<and> length content = length target \<and> piece_valid X t target i
     \<and> (\<exists>lo. ranges_sorted lo ranges)
     \<and> (\<exists>wanted. build_block_requests t ranges = Inr wanted \<and> job \<in> set (build_piece_jobs wanted))
     \<and> (\<forall>k. piece_bound t i \<le> k \<and> k < piece_bound t (Suc i) \<and> local_byte ranges k \<longrightarrow> content ! k = target ! k))"

definition ordinary_torrent :: "torrent_v1 \<Rightarrow> bool" where
  "ordinary_torrent t \<longleftrightarrow> torrent_shape t \<and> tv_piece_length t \<le> MAX_BT_PIECE_LENGTH \<and> piece_count t \<le> 8388608"

lemma short_bitfield: "(n :: nat) \<le> 8388608 \<Longrightarrow> (n + 7) div 8 < 4294967295"
  by (rule le_less_trans [OF div_le_dividend]) simp

lemma job_requests_servable:
  assumes "ordinary_torrent t" and "completes_piece X t target content ranges job"
  shows "list_all (\<lambda>r. servable t (key_of r) \<and> rq_piece_index r = pj_piece_index job) (pj_requests job)"
    and "block_replies t target (pj_requests job) = block_answers target (pj_requests job)" and "unat (pj_piece_index job) < piece_count t"
proof -
  have t: "torrent_shape t" "tv_piece_length t \<le> MAX_BT_PIECE_LENGTH" "piece_count t \<le> 2 ^ 32"
    using assms(1) by (simp_all add: ordinary_torrent_def)
  obtain lo wanted where w: "ranges_sorted lo ranges" "build_block_requests t ranges = Inr wanted" "job \<in> set (build_piece_jobs wanted)"
    using assms(2) by (auto simp: completes_piece_def Let_def)
  note req = requests_of_torrent [OF t w]
  have ok: "servable t (key_of r)" "block_message (key_of r) (block_in t target (key_of r)) = block_answer target r"
    "rq_piece_index r = pj_piece_index job" if "r \<in> set (pj_requests job)" for r
    using that req(2) req(5) [OF that]
    by (auto simp: list_all_iff torrent_request_ok_def request_ok_def Let_def servable_def key_of_def block_message_def block_answer_def
        block_in_def block_of_def add.commute)
  then show "list_all (\<lambda>r. servable t (key_of r) \<and> rq_piece_index r = pj_piece_index job) (pj_requests job)" by (simp add: list_all_iff)
  show "block_replies t target (pj_requests job) = block_answers target (pj_requests job)"
    using ok(2) by (simp add: block_replies_def block_answers_def cong: map_cong)
  show "unat (pj_piece_index job) < piece_count t" using req(1) .
qed

lemma fetch_from_seeder:
  assumes t: "ordinary_torrent t" and job: "completes_piece X t target content ranges job"
    and ih: "cx_hex_decode (bx_cdc X) (tv_info_hash_sha1 t) = Inr ih" "length ih = 20" and "length seeder_id = 20"
    and D: "ps_room D = None" "ps_choked D" "length (ps_availability D) = length available"
    and av: "length available = piece_count t" "available ! unat (pj_piece_index job)"
    and input: "ps_in D = stream_of (seeder_greeting ih seeder_id available @ block_replies t target (pj_requests job))"
  shows "\<exists>D'. fetch_one_piece X t peer_id job content D = (Inr (PieceVerified (file_piece t target (unat (pj_piece_index job)))), D')
    \<and> ps_out D' = ps_out D @ downloader_greeting ih peer_id @ block_asks (pj_requests job)"
proof -
  have limits: "torrent_shape t" "tv_piece_length t \<le> MAX_BT_PIECE_LENGTH" "piece_count t \<le> 2 ^ 32"
    using t by (simp_all add: ordinary_torrent_def)
  obtain lo wanted where w: "ranges_sorted lo ranges" "build_block_requests t ranges = Inr wanted" "job \<in> set (build_piece_jobs wanted)"
    and target: "length target = unat (tv_total_length t)" "length content = length target"
      "\<And>k. piece_bound t (unat (pj_piece_index job)) \<le> k \<Longrightarrow> k < piece_bound t (Suc (unat (pj_piece_index job))) \<Longrightarrow>
         local_byte ranges k \<Longrightarrow> content ! k = target ! k"
    and sha: "sha1_hex X (file_piece t target (unat (pj_piece_index job))) = tv_piece_sha1 t ! unat (pj_piece_index job)"
    using job by (auto simp: completes_piece_def Let_def piece_valid_def)
  note req = job_requests_servable [OF t job]
  let ?s = "stream_of (block_answers target (pj_requests job))"
  let ?D = "D\<lparr>ps_in := ?s, ps_availability := available, ps_choked := False, ps_out := ps_out D @ downloader_greeting ih peer_id\<rparr>"
  have "length available \<le> 8388608" using t av(1) by (simp add: ordinary_torrent_def)
  then have joined: "join_peer X (tv_info_hash_sha1 t) peer_id D = (Inr (replicate 8 0, seeder_id), ?D)"
    using input req(2) by (intro join_peer_stream [OF ih assms(5) D]) simp_all
  have "advertised available (pj_piece_index job)" using av req(3) by (simp add: advertised_def)
  then obtain D' where "receive_piece_job X t job content (\<lambda>_. False) ?D = (Inr (PieceVerified (file_piece t target (unat (pj_piece_index job)))), D')"
    "ps_out D' = ps_out ?D @ block_asks (pj_requests job)"
    using honest_job_verified [OF limits w target sha, of ?D] D(1) by auto
  then show ?thesis by (simp add: fetch_one_piece_def then_do_def joined del: replicate.simps)
qed

text \<open>The seeder of a file and a downloader: each reads what the other has written.\<close>

lemma file_transfer:
  assumes t: "ordinary_torrent t" and job: "completes_piece X t target content ranges job"
    and ih: "cx_hex_decode (bx_cdc X) (tv_info_hash_sha1 t) = Inr ih" "length ih = 20"
    and ids: "length seeder_id = 20" "length peer_id = 20"
    and D: "ps_room D = None" "ps_choked D" "length (ps_availability D) = piece_count t" "ps_out D = []"
    and S: "ps_room S = None" "ps_out S = []" and calm: "undisturbed E"
    and source: "\<And>k. se_handle E k = target" "\<And>k. is_ok (fs_read (se_files E k) source)"
  shows "\<exists>D' S'. serve_peer X E t source seeder_id (S\<lparr>ps_in := stream_of (ps_out D')\<rparr>) = (Inr (), S')
    \<and> fetch_one_piece X t peer_id job content (D\<lparr>ps_in := stream_of (ps_out S')\<rparr>)
      = (Inr (PieceVerified (file_piece t target (unat (pj_piece_index job)))), D')"
proof -
  let ?asks = "block_asks (pj_requests job)" and ?av = "replicate (piece_count t) True"
  let ?in = "stream_of (message_bytes MESSAGE_INTERESTED [] @ ?asks)"
  note req = job_requests_servable [OF t job]
  have shape: "torrent_shape t" "length (tv_piece_sha1 t) = piece_count t" using t by (simp_all add: ordinary_torrent_def torrent_shape_def piece_count_def)
  have target: "length target = unat (tv_total_length t)" using job by (simp add: completes_piece_def Let_def)
  let ?S0 = "S\<lparr>ps_in := stream_of (downloader_greeting ih peer_id @ ?asks)\<rparr>"
  let ?S1 = "?S0\<lparr>ps_in := ?in, ps_out := handshake_bytes ih seeder_id\<rparr>"
  let ?S2 = "greeted ?S1\<lparr>ps_out := handshake_bytes ih seeder_id @ message_bytes MESSAGE_BITFIELD (complete_bitfield (piece_count t))\<rparr>"
  have "read_and_reply_handshake X E (tv_info_hash_sha1 t) seeder_id ?S0 = (Inr (), ?S0\<lparr>ps_in := ?in, ps_out := ps_out ?S0 @ handshake_bytes ih seeder_id\<rparr>)"
    using S(1) by (intro reply_handshake_stream [OF ih ids(2)]) (simp_all add: downloader_greeting_def)
  then have greeting: "read_and_reply_handshake X E (tv_info_hash_sha1 t) seeder_id ?S0 = (Inr (), ?S1)" using S(2) by simp
  have "length (complete_bitfield (piece_count t)) + 1 < 2 ^ 32"
    using t short_bitfield by (simp add: complete_bitfield_eq length_availability_bitfield ordinary_torrent_def)
  then have bitfield: "send_message MESSAGE_BITFIELD (complete_bitfield (piece_count t)) (greeted ?S1) = (Inr (), ?S2)"
    using seed_send_free [of "greeted ?S1"] S(1) by (simp add: greeted_def)
  obtain c where opened: "fs_read (se_files E (sn_seen ?S2)) source = Inr c" using source(2) unfolding is_ok_iff by blast
  let ?S3 = "?S2\<lparr>sn_seen := sn_seen ?S2 + 1\<rparr>"
  have ready: "(\<forall>k. se_handle E k = target) \<and> length target = unat (tv_total_length t)" using source(1) target by simp
  have offers: "list_all (\<lambda>r. servable t (key_of r) \<and> True) (pj_requests job)" using req(1) by (simp add: list_all_iff)
  obtain S' where S': "serve_messages E t ''BT peer requested data before unchoke'' (file_block E t) False () ?S3 = (Inr (), S')"
    "ps_out S' = ps_out ?S3 @ message_bytes MESSAGE_UNCHOKE [] @ block_replies t target (pj_requests job)"
    using file_complete.serve_interested [OF ready shape(1) calm _ _ _ offers, of ?S3] S(1) by (auto simp: greeted_def)
  have served: "serve_peer X E t source seeder_id ?S0 = (Inr (), S')"
    unfolding serve_peer_def then_do_def shape(2) greeting prod.case sum.case bitfield pass_def opened S'(1) ..
  have out: "ps_out S' = seeder_greeting ih seeder_id ?av @ block_replies t target (pj_requests job)"
    using S'(2) by (simp add: seeder_greeting_def complete_bitfield_eq greeted_def)
  obtain D' where D': "fetch_one_piece X t peer_id job content (D\<lparr>ps_in := stream_of (ps_out S')\<rparr>)
      = (Inr (PieceVerified (file_piece t target (unat (pj_piece_index job)))), D')"
    "ps_out D' = downloader_greeting ih peer_id @ ?asks"
    using fetch_from_seeder [OF t job ih ids(1), of "D\<lparr>ps_in := stream_of (ps_out S')\<rparr>" ?av peer_id] D req(3) out by auto
  from served D' show ?thesis by (intro exI [of _ D'] exI [of _ S']) simp
qed

text \<open>The same with a seeder of the index, for a piece that the plan has found to be fully local.\<close>

lemma index_transfer:
  assumes t: "ordinary_torrent t" and same: "index_unchanged X E t d db fs plan"
    and job: "completes_piece X t (local_image (bx_cdc X) db fs (td_chunks d)) content ranges job"
    and full: "pp_fully_local (br_pieces plan ! unat (pj_piece_index job))"
    and ih: "cx_hex_decode (bx_cdc X) (tv_info_hash_sha1 t) = Inr ih" "length ih = 20"
    and ids: "length seeder_id = 20" "length peer_id = 20"
    and D: "ps_room D = None" "ps_choked D" "length (ps_availability D) = piece_count t" "ps_out D = []"
    and S: "ps_room S = None" "ps_out S = []" and calm: "undisturbed E"
  shows "\<exists>D' S'. serve_index_peer X E t d (advertised_pieces plan) seeder_id (S\<lparr>ps_in := stream_of (ps_out D')\<rparr>) = (Inr (), S')
    \<and> fetch_one_piece X t peer_id job content (D\<lparr>ps_in := stream_of (ps_out S')\<rparr>)
      = (Inr (PieceVerified (file_piece t (local_image (bx_cdc X) db fs (td_chunks d)) (unat (pj_piece_index job)))), D')"
proof -
  let ?asks = "block_asks (pj_requests job)" and ?av = "advertised_pieces plan" and ?image = "local_image (bx_cdc X) db fs (td_chunks d)"
  let ?in = "stream_of (message_bytes MESSAGE_INTERESTED [] @ ?asks)"
  note req = job_requests_servable [OF t job]
  have shape: "torrent_shape t" "length (tv_piece_sha1 t) = piece_count t" using t by (simp_all add: ordinary_torrent_def torrent_shape_def piece_count_def)
  have plan: "plan_v1_bridge X db fs t d = Inr plan" using same by (simp add: index_unchanged_def)
  have av: "length ?av = piece_count t" "?av ! unat (pj_piece_index job)"
    using plan_v1_bridge_exact(1) [OF plan shape(1)] shape(2) piece_advertised(2) [OF plan shape(1) req(3)] full
    by (auto simp: advertised_pieces_def pieces_planned_def dest: list_all2_lengthD)
  let ?S0 = "S\<lparr>ps_in := stream_of (downloader_greeting ih peer_id @ ?asks)\<rparr>"
  let ?S1 = "?S0\<lparr>ps_in := ?in, ps_out := handshake_bytes ih seeder_id\<rparr>"
  let ?S2 = "greeted ?S1\<lparr>ps_out := handshake_bytes ih seeder_id @ message_bytes MESSAGE_BITFIELD (availability_bitfield ?av)\<rparr>"
  have "read_and_reply_handshake X E (tv_info_hash_sha1 t) seeder_id ?S0 = (Inr (), ?S0\<lparr>ps_in := ?in, ps_out := ps_out ?S0 @ handshake_bytes ih seeder_id\<rparr>)"
    using S(1) by (intro reply_handshake_stream [OF ih ids(2)]) (simp_all add: downloader_greeting_def)
  then have greeting: "read_and_reply_handshake X E (tv_info_hash_sha1 t) seeder_id ?S0 = (Inr (), ?S1)" using S(2) by simp
  have "length (availability_bitfield ?av) + 1 < 2 ^ 32"
    using t av(1) short_bitfield by (simp add: length_availability_bitfield ordinary_torrent_def)
  then have bitfield: "send_message MESSAGE_BITFIELD (availability_bitfield ?av) (greeted ?S1) = (Inr (), ?S2)"
    using seed_send_free [of "greeted ?S1"] S(1) by (simp add: greeted_def)
  have offers: "list_all (\<lambda>r. servable t (key_of r) \<and> ?av ! unat (rq_piece_index r)) (pj_requests job)"
    using req(1) av(2) by (simp add: list_all_iff)
  obtain S' where S': "serve_messages E t ''BT peer requested index data before unchoke'' (index_block X E t d ?av) False None ?S2 = (Inr (), S')"
    "ps_out S' = ps_out ?S2 @ message_bytes MESSAGE_UNCHOKE [] @ block_replies t ?image (pj_requests job)"
    using index_complete.serve_interested [OF same shape(1) calm _ _ _ offers, of None ?S2] S(1)
    by (auto simp: greeted_def cache_exact_def cache_verified_def)
  have served: "serve_index_peer X E t d ?av seeder_id ?S0 = (Inr (), S')"
    unfolding serve_index_peer_def then_do_def greeting prod.case sum.case bitfield S'(1) ..
  have out: "ps_out S' = seeder_greeting ih seeder_id ?av @ block_replies t ?image (pj_requests job)"
    using S'(2) by (simp add: seeder_greeting_def greeted_def)
  obtain D' where D': "fetch_one_piece X t peer_id job content (D\<lparr>ps_in := stream_of (ps_out S')\<rparr>)
      = (Inr (PieceVerified (file_piece t ?image (unat (pj_piece_index job)))), D')"
    "ps_out D' = downloader_greeting ih peer_id @ ?asks"
    using fetch_from_seeder [OF t job ih ids(1), of "D\<lparr>ps_in := stream_of (ps_out S')\<rparr>" ?av peer_id] D av out by auto
  from served D' show ?thesis by (intro exI [of _ D'] exI [of _ S']) simp
qed

section \<open>A validated file\<close>

lemma fs_reads_Regular: "fs path = Some (Regular bs m) \<Longrightarrow> fs_reads fs path = Inr [Inr bs, Inr []]"
  by (simp add: fs_reads_def)

lemma check_source_pieces:
  assumes shape: "torrent_shape t" and len: "length content = unat (tv_total_length t)"
  shows "try_fold (check_source_piece X t) (drop (piece_bound t k) content) (enumerate k hs) = Inr rest \<Longrightarrow>
    k + length hs \<le> piece_count t \<Longrightarrow> \<forall>i < length hs. sha1_hex X (file_piece t content (k + i)) = hs ! i"
proof (induction hs arbitrary: k)
  case (Cons h hs)
  have k: "k < piece_count t" and pl: "0 < tv_piece_length t" using Cons.prems(2) shape by (auto simp: torrent_shape_def)
  obtain n where n: "seed_piece_length t k = Inr n" "unat n = piece_bound t (Suc k) - piece_bound t k"
    using seed_piece_length_eq [OF shape k] by blast
  have b: "piece_bound t k < piece_bound t (Suc k)" "piece_bound t (Suc k) \<le> length content"
    using piece_bounds(2) [OF pl k] piece_bound_total len by auto
  have "read_at (drop (piece_bound t k) content) 0 n = Inr (file_piece t content k)"
    using b n(2) by (simp add: read_at_def Let_def file_piece_def)
  moreover have "drop (unat n) (drop (piece_bound t k) content) = drop (piece_bound t (Suc k)) content" using b n(2) by simp
  ultimately have first: "check_source_piece X t (drop (piece_bound t k) content) (k, h) =
      bail_if (sha1_hex X (file_piece t content k) \<noteq> h) ''BT seed source Piece SHA-1 mismatch'' (Inr (drop (piece_bound t (Suc k)) content))"
    using n(1) by (simp add: check_source_piece_def)
  have "sha1_hex X (file_piece t content k) = h"
    "try_fold (check_source_piece X t) (drop (piece_bound t (Suc k)) content) (enumerate (Suc k) hs) = Inr rest"
    using Cons.prems(1) by (auto simp: first)
  with Cons.IH [of "Suc k"] Cons.prems(2) show ?case by (auto simp: less_Suc_eq_0_disj)
qed simp

lemma validated_source:
  assumes "validate_seed_source X fs t d source = Inr sha" and shape: "torrent_shape t"
    and small: "\<And>bs m. fs source = Some (Regular bs m) \<Longrightarrow> length bs < 2 ^ 64"
  obtains content m where "fs source = Some (Regular content m)" and "length content = unat (tv_total_length t)"
    and "sha = ti_sha256 (td_target d)" and "sha256_file (bx_cdc X) (fs_reads fs source) = Inr sha"
    and "\<forall>i < piece_count t. piece_valid X t content i"
proof -
  from assms(1) obtain metadata content rest where md: "fs_metadata fs source = Inr metadata" "fm_len metadata = tv_total_length t"
    and sha: "sha256_file (bx_cdc X) (fs_reads fs source) = Inr sha" "sha = ti_sha256 (td_target d)"
    and content: "fs_read fs source = Inr content"
    and run: "try_fold (check_source_piece X t) content (enumerate 0 (tv_piece_sha1 t)) = Inr rest"
    by (auto simp: validate_seed_source_def split: sum.splits)
  from content obtain m where f: "fs source = Some (Regular content m)" by (auto simp: fs_read_Inr)
  have "word_of_nat (length content) = tv_total_length t" using md f by (auto simp: fs_metadata_def)
  moreover have "unat (word_of_nat (length content) :: u64) = length content" using small [OF f] by (intro unat_of_nat_u64) simp
  ultimately have len: "length content = unat (tv_total_length t)" by simp
  have "\<forall>i < piece_count t. piece_valid X t content i"
    using check_source_pieces [OF shape len, of X 0 "tv_piece_sha1 t" rest] run shape
    by (simp add: piece_valid_def torrent_shape_def piece_count_def)
  with f len sha show thesis using that by blast
qed

end
