(* ===== verification/Bt_Seed_Output.thy ===== *)
theory Bt_Seed_Output
  imports Bt_Transfer Bt_Fetch_Safety
begin

text \<open>
  All that a seeder writes to a connection, from its handshake on: the handshake and the bitfield come first,
  then only unchokes and blocks of its source; a connection that breaks has cut this off somewhere. With it,
  the two sources from end to end: the file that was validated, and the pieces put together from the index.
\<close>

definition seeder_wrote :: "bytes \<Rightarrow> bytes \<Rightarrow> (bytes \<Rightarrow> bool) \<Rightarrow> unit result \<Rightarrow> bytes \<Rightarrow> bool" where
  "seeder_wrote handshake bitfield ok r out \<longleftrightarrow> (\<exists>msgs. list_all ok msgs
     \<and> prefix out (handshake @ message_bytes MESSAGE_BITFIELD bitfield @ concat msgs)
     \<and> (is_ok r \<longrightarrow> out = handshake @ message_bytes MESSAGE_BITFIELD bitfield @ concat msgs))"

lemma seeder_wroteI:
  assumes "list_all ok msgs" and "prefix out (handshake @ message_bytes MESSAGE_BITFIELD bitfield @ concat msgs)"
    and "is_ok r \<Longrightarrow> out = handshake @ message_bytes MESSAGE_BITFIELD bitfield @ concat msgs"
  shows "seeder_wrote handshake bitfield ok r out"
  using assms unfolding seeder_wrote_def by blast

lemma write_all_wrote:
  assumes "write_all bs S = (r, T)"
  shows "prefix (ps_out T) (ps_out S @ bs)" and "is_ok r \<Longrightarrow> ps_out T = ps_out S @ bs"
  using assms by (auto simp: write_all_def take_is_prefix is_ok_iff split: option.splits if_splits)

lemma send_message_wrote:
  assumes "send_message i payload S = (r, T)"
  shows "prefix (ps_out T) (ps_out S @ message_bytes i payload)" and "is_ok r \<Longrightarrow> ps_out T = ps_out S @ message_bytes i payload"
  using assms write_all_wrote by (auto simp: send_message_def pass_def split: if_splits)

lemma read_exact_interruptible_out: "read_exact_interruptible E n S = (r, T) \<Longrightarrow> ps_out T = ps_out S"
  by (auto simp: read_exact_interruptible_def split: prod.splits)

lemma reply_wrote:
  assumes "cx_hex_decode (bx_cdc X) ih_hex = Inr ih" and "read_and_reply_handshake X E ih_hex peer_id S = (r, T)"
  shows "prefix (ps_out T) (ps_out S @ handshake_bytes ih peer_id)" and "is_ok r \<Longrightarrow> ps_out T = ps_out S @ handshake_bytes ih peer_id"
proof -
  obtain q S1 where S1: "read_exact_interruptible E HANDSHAKE_LENGTH S = (q, S1)" by (cases "read_exact_interruptible E HANDSHAKE_LENGTH S")
  note out = read_exact_interruptible_out [OF S1]
  consider e where "r = Inl e" "T = S1" | "write_all (handshake_bytes ih peer_id) S1 = (r, T)"
    using assms S1 by (cases q) (auto simp: read_and_reply_handshake_def then_do_def pass_def handshake_bytes_def split: if_splits)
  then have "prefix (ps_out T) (ps_out S @ handshake_bytes ih peer_id) \<and> (is_ok r \<longrightarrow> ps_out T = ps_out S @ handshake_bytes ih peer_id)"
    using out write_all_wrote [of "handshake_bytes ih peer_id" S1 r T] by cases auto
  then show "prefix (ps_out T) (ps_out S @ handshake_bytes ih peer_id)" and "is_ok r \<Longrightarrow> ps_out T = ps_out S @ handshake_bytes ih peer_id"
    by blast+
qed

text \<open>The greeting of both seeders, and what follows it.\<close>

lemma greeting_wrote:
  assumes ih: "cx_hex_decode (bx_cdc X) ih_hex = Inr ih" and new: "ps_out S = []"
    and run: "then_do (read_and_reply_handshake X E ih_hex peer_id) (\<lambda>_ S.
      then_do (send_message MESSAGE_BITFIELD bitfield) (\<lambda>_. serve) (greeted S)) S = (r, T)"
    and serve: "\<And>S. serve S = (r, T) \<Longrightarrow> outcome_sent ok S r T"
  shows "seeder_wrote (handshake_bytes ih peer_id) bitfield ok r (ps_out T)"
proof -
  let ?h = "handshake_bytes ih peer_id" and ?b = "message_bytes MESSAGE_BITFIELD bitfield"
  obtain q S1 where S1: "read_and_reply_handshake X E ih_hex peer_id S = (q, S1)" by (cases "read_and_reply_handshake X E ih_hex peer_id S")
  note hand = reply_wrote [OF ih S1, unfolded new append_Nil]
  obtain q' S2 where S2: "send_message MESSAGE_BITFIELD bitfield (greeted S1) = (q', S2)"
    by (cases "send_message MESSAGE_BITFIELD bitfield (greeted S1)")
  note bits = send_message_wrote [OF S2]
  consider (greeting) e where "q = Inl e" "r = Inl e" "T = S1"
    | (advert) e where "is_ok q" "q' = Inl e" "r = Inl e" "T = S2"
    | (served) "is_ok q" "is_ok q'" "serve S2 = (r, T)"
    using run S1 S2 by (cases q; cases q') (auto simp: then_do_def)
  then show ?thesis
  proof cases
    case greeting
    with hand(1) show ?thesis by (intro seeder_wroteI [of _ "[]"]) (auto intro: prefix_prefix)
  next
    case advert
    with hand(2) bits(1) show ?thesis by (intro seeder_wroteI [of _ "[]"]) (auto simp: greeted_def)
  next
    case served
    then have out: "ps_out S2 = ?h @ ?b" using hand(2) bits(2) by (simp add: greeted_def)
    from serve [OF served(3)] obtain msgs where "list_all ok msgs" "prefix (ps_out T) (?h @ ?b @ concat msgs)"
      "is_ok r \<Longrightarrow> ps_out T = ?h @ ?b @ concat msgs"
      by (auto simp: outcome_sent_def sent_def sent_upto_def out split: sum.splits)
    then show ?thesis by (rule seeder_wroteI)
  qed
qed

lemma serve_index_peer_wrote:
  assumes "torrent_shape t" and "cx_hex_decode (bx_cdc X) (tv_info_hash_sha1 t) = Inr ih" and "ps_out S = []"
    and "serve_index_peer X E t d available peer_id S = (r, T)"
  shows "seeder_wrote (handshake_bytes ih peer_id) (availability_bitfield available) (reply t (from_verified_piece X t available)) r (ps_out T)"
proof (rule greeting_wrote [OF assms(2,3) assms(4) [unfolded serve_index_peer_def]])
  fix S assume "serve_messages E t ''BT peer requested index data before unchoke'' (index_block X E t d available) False None S = (r, T)"
  then show "outcome_sent (reply t (from_verified_piece X t available)) S r T"
    by (rule index_source.serve_messages_sent [OF assms(1), rotated]) (simp add: cache_verified_def)
qed

lemma serve_peer_wrote:
  assumes "torrent_shape t" and "cx_hex_decode (bx_cdc X) (tv_info_hash_sha1 t) = Inr ih" and "ps_out S = []"
    and "serve_peer X E t source peer_id S = (r, T)"
  shows "seeder_wrote (handshake_bytes ih peer_id) (complete_bitfield (piece_count t)) (reply t (from_handle E t)) r (ps_out T)"
proof -
  have n: "length (tv_piece_sha1 t) = piece_count t" using assms(1) by (simp add: torrent_shape_def piece_count_def)
  show ?thesis
  proof (rule greeting_wrote [OF assms(2,3) assms(4) [unfolded serve_peer_def n]])
    fix S assume run: "then_do (pass (fs_read (se_files E (sn_seen S)) source)) (\<lambda>_.
      serve_messages E t ''BT peer requested data before unchoke'' (file_block E t) False ()) (S\<lparr>sn_seen := sn_seen S + 1\<rparr>) = (r, T)"
    let ?S = "S\<lparr>sn_seen := sn_seen S + 1\<rparr>"
    have "outcome_sent (reply t (from_handle E t)) ?S r T"
    proof (cases "fs_read (se_files E (sn_seen S)) source")
      case (Inl e)
      with run show ?thesis by (auto simp: then_do_def pass_def intro: outcome_sent_silent)
    next
      case (Inr content)
      with run show ?thesis by (simp add: file_source.serve_messages_sent [OF assms(1)])
    qed
    then show "outcome_sent (reply t (from_handle E t)) S r T"
      by (rule outcome_sent_trans [rotated]) (simp add: sent_refl)
  qed
qed

text \<open>A file that has been validated and does not change afterwards.\<close>

definition file_block_of :: "torrent_v1 \<Rightarrow> bytes \<Rightarrow> block_key \<Rightarrow> bytes \<Rightarrow> bool" where
  "file_block_of t content request block \<longleftrightarrow> block = block_in t content request \<and> length block = unat (snd (snd request))"

lemma from_unchanged_handle: "(\<And>k. se_handle E k = content) \<Longrightarrow> from_handle E t = file_block_of t content"
  by (simp add: fun_eq_iff from_handle_def file_block_of_def)

lemma validated_file_wrote:
  assumes "validate_seed_source X fs t d source = Inr sha" and "torrent_shape t"
    and f: "fs source = Some (Regular content m)" and "length content < 2 ^ 64" and same: "\<And>k. se_handle E k = content"
    and "cx_hex_decode (bx_cdc X) (tv_info_hash_sha1 t) = Inr ih" and "ps_out S = []"
    and "serve_peer X E t source peer_id S = (r, T)"
  shows "length content = unat (tv_total_length t)
    \<and> cx_hex_encode (bx_cdc X) (cx_sha256 (bx_cdc X) content) = ti_sha256 (td_target d)
    \<and> (\<forall>i<piece_count t. piece_valid X t content i)
    \<and> seeder_wrote (handshake_bytes ih peer_id) (complete_bitfield (piece_count t)) (reply t (file_block_of t content)) r (ps_out T)"
proof -
  obtain c m' where "fs source = Some (Regular c m')" "length c = unat (tv_total_length t)"
    "sha = ti_sha256 (td_target d)" "sha256_file (bx_cdc X) (fs_reads fs source) = Inr sha"
    "\<forall>i < piece_count t. piece_valid X t c i"
    by (rule validated_source [OF assms(1,2)]) (use f assms(4) in simp_all)
  with f have c: "length content = unat (tv_total_length t)" "sha = ti_sha256 (td_target d)"
    "sha256_file (bx_cdc X) (fs_reads fs source) = Inr sha" "\<forall>i < piece_count t. piece_valid X t content i" by simp_all
  have "cx_hex_encode (bx_cdc X) (cx_sha256 (bx_cdc X) content) = sha"
    using sha256_file_blocks [OF read_blocks_once, of "bx_cdc X" content] c(3) f by (simp add: fs_reads_def)
  with c serve_peer_wrote [OF assms(2,6-8)] from_unchanged_handle [OF same] show ?thesis by simp
qed

end
