(* ===== verification/Bt_Limiter_Safety.thy ===== *)
theory Bt_Limiter_Safety
  imports Bt_Limiter
begin

text \<open>
  What holds of the limiter however its threads interleave: the tickets being served, waiting and given up
  are exactly those drawn and not yet passed; grants come in the order of the tickets; somebody can always
  go on; and the bytes granted never exceed the rate.
\<close>

section \<open>Tickets\<close>

lemma word_Suc: "unat (s :: u64) + 1 < 2 ^ 64 \<Longrightarrow> unat (s + 1) = unat s + 1"
  by (simp add: unat_word_ariths)

lemma word_between_Suc:
  assumes "(s :: u64) < n"
  shows "unat (s + 1) = unat s + 1 \<and> s + 1 \<le> n"
proof -
  have lt: "unat s < unat n" using assms by (simp add: word_less_nat_alt)
  have "unat n < 2 ^ 64" using unat_u64_bound [of n] by simp
  with lt have "unat s + 1 < 2 ^ 64" by linarith
  from word_Suc [OF this] lt show ?thesis by (simp add: word_le_nat_alt)
qed

lemma atLeastLessThan_word_Suc:
  assumes "(s :: u64) < n"
  shows "{s..<n} = insert s {s + 1..<n}"
  using word_between_Suc [OF assms] assms
  by (auto simp: set_eq_iff word_less_nat_alt word_le_nat_alt word_unat_eq_iff)

lemma skip_cancelled_exact:
  "skip_cancelled s C = (s', C') \<Longrightarrow> C \<subseteq> {s..<n} \<Longrightarrow> s \<le> n \<Longrightarrow>
    s \<le> s' \<and> s' \<le> n \<and> {s..<s'} \<subseteq> C \<and> C' = C \<inter> {s'..<n} \<and> s' \<notin> C'"
proof (induction s C arbitrary: s' C' rule: skip_cancelled.induct)
  case (1 s C)
  show ?case
  proof (cases "s \<in> C")
    case True
    then have lt: "s < n" using "1.prems"(2) by auto
    have rest: "skip_cancelled (s + 1) (C - {s}) = (s', C')"
      using "1.prems"(1) True by (subst (asm) skip_cancelled.simps) simp
    have "C - {s} \<subseteq> {s + 1..<n}" using "1.prems"(2) atLeastLessThan_word_Suc [OF lt] by blast
    from "1.IH" [OF True rest this] word_between_Suc [OF lt]
    have ih: "s + 1 \<le> s'" "s' \<le> n" "{s + 1..<s'} \<subseteq> C - {s}" "C' = (C - {s}) \<inter> {s'..<n}" "s' \<notin> C'" by auto
    have "s < s'" using ih(1) word_between_Suc [OF lt] by (simp add: word_less_nat_alt word_le_nat_alt)
    moreover from this have "{s..<s'} \<subseteq> C" using ih(3) True atLeastLessThan_word_Suc [of s s'] by auto
    moreover have "C' = C \<inter> {s'..<n}" using ih(4) \<open>s < s'\<close> by auto
    ultimately show ?thesis using ih(2,5) by auto
  next
    case False
    with "1.prems" have "s' = s" "C' = C" by (subst (asm) skip_cancelled.simps; simp)+
    with "1.prems" False show ?thesis by auto
  qed
qed

text \<open>The tickets of a limiter, with those that threads still wait with.\<close>

definition tickets_inv :: "upload_limiter \<Rightarrow> u64 list \<Rightarrow> bool" where
  "tickets_inv L ts \<longleftrightarrow> ul_serving_ticket L \<le> ul_next_ticket L \<and> sorted_wrt (<) ts
     \<and> set ts \<union> ul_cancelled_tickets L = {ul_serving_ticket L..<ul_next_ticket L}
     \<and> set ts \<inter> ul_cancelled_tickets L = {} \<and> ul_serving_ticket L \<notin> ul_cancelled_tickets L"

lemma tickets_inv_new: "new_upload_limiter r now = Inr L \<Longrightarrow> tickets_inv L []"
  by (auto simp: new_upload_limiter_def tickets_inv_def)

lemma tickets_inv_call:
  assumes "tickets_inv L ts" and "take_ticket L = (t, L')" and "unat (ul_next_ticket L) + 1 < 2 ^ 64"
  shows "tickets_inv L' (ts @ [t])"
proof -
  let ?s = "ul_serving_ticket L" and ?n = "ul_next_ticket L"
  have n: "unat (?n + 1) = unat ?n + 1" using assms(3) by (rule word_Suc)
  have le: "?s \<le> ?n" using assms(1) by (simp add: tickets_inv_def)
  have "{?s..<?n + 1} = insert ?n {?s..<?n}"
    using n le by (auto simp: set_eq_iff word_less_nat_alt word_le_nat_alt word_unat_eq_iff)
  moreover have "?s \<le> ?n + 1" using n le by (simp add: word_le_nat_alt)
  moreover have "\<forall>x\<in>set ts. x < ?n" "?n \<notin> ul_cancelled_tickets L" using assms(1) by (auto simp: tickets_inv_def)
  moreover have "t = ?n" "L' = L\<lparr>ul_next_ticket := ?n + 1\<rparr>" using assms(2) by (auto simp: take_ticket_def)
  ultimately show ?thesis using assms(1) unfolding tickets_inv_def by (auto simp: sorted_wrt_append)
qed

text \<open>The oldest waiting thread is the one being served.\<close>

lemma serving_is_oldest:
  assumes "tickets_inv L (t # ts)"
  shows "ul_serving_ticket L = t"
proof (rule antisym)
  have all: "set (t # ts) \<union> ul_cancelled_tickets L = {ul_serving_ticket L..<ul_next_ticket L}"
    using assms unfolding tickets_inv_def by blast
  then have t: "t \<in> {ul_serving_ticket L..<ul_next_ticket L}" by auto
  then show "ul_serving_ticket L \<le> t" by simp
  have "ul_serving_ticket L \<in> {ul_serving_ticket L..<ul_next_ticket L}" using t by auto
  then have "ul_serving_ticket L \<in> set (t # ts)" using all assms unfolding tickets_inv_def by blast
  then show "t \<le> ul_serving_ticket L" using assms by (auto simp: tickets_inv_def)
qed

lemma waiting_is_serving: "tickets_inv L ts \<Longrightarrow> ul_serving_ticket L \<in> set ts \<Longrightarrow> \<exists>rest. ts = ul_serving_ticket L # rest"
  by (cases ts) (auto dest: serving_is_oldest)

lemma tickets_inv_advance:
  assumes inv: "tickets_inv L (t # ts)"
  shows "tickets_inv (advance_upload_ticket L) ts" and "t < ul_serving_ticket (advance_upload_ticket L)"
proof -
  let ?s = "ul_serving_ticket L" and ?n = "ul_next_ticket L" and ?C = "ul_cancelled_tickets L"
  obtain s' C' where sc: "skip_cancelled (?s + 1) ?C = (s', C')" by (cases "skip_cancelled (?s + 1) ?C")
  have t: "?s = t" using inv by (rule serving_is_oldest)
  have lt: "?s < ?n" using inv t by (auto simp: tickets_inv_def)
  note split = atLeastLessThan_word_Suc [OF lt] and suc = word_between_Suc [OF lt]
  have C: "?C \<subseteq> {?s + 1..<?n}" using inv split by (auto simp: tickets_inv_def)
  from skip_cancelled_exact [OF sc C] suc
  have k: "?s + 1 \<le> s'" "s' \<le> ?n" "{?s + 1..<s'} \<subseteq> ?C" "C' = ?C \<inter> {s'..<?n}" "s' \<notin> C'" by auto
  have ss: "?s < s'" using k(1) suc by (simp add: word_less_nat_alt word_le_nat_alt)
  have new: "t \<notin> set ts" "set ts \<inter> ?C = {}" "sorted_wrt (<) ts" using inv unfolding tickets_inv_def by auto
  have "insert t (set ts \<union> ?C) = insert t {t + 1..<?n}" using inv split t unfolding tickets_inv_def by simp
  moreover have "t \<notin> {t + 1..<?n}" using suc t by (auto simp: word_le_nat_alt)
  moreover have "t \<notin> set ts \<union> ?C" using new(1) C t suc by (auto simp: word_le_nat_alt)
  ultimately have "set ts \<union> ?C = {t + 1..<?n}" by (simp add: insert_ident)
  with new t have ts: "set ts \<union> ?C = {?s + 1..<?n}" "set ts \<inter> ?C = {}" "sorted_wrt (<) ts" by simp_all
  have "set ts \<subseteq> {s'..<?n}"
  proof
    fix x assume x: "x \<in> set ts"
    then have "x \<in> {?s + 1..<?n}" "x \<notin> ?C" using ts(1,2) by blast+
    with k(3) show "x \<in> {s'..<?n}" by (auto simp: not_less [symmetric])
  qed
  moreover have "{s'..<?n} \<subseteq> {?s + 1..<?n}" using k(1) by (auto intro: order_trans)
  ultimately have "set ts \<union> C' = {s'..<?n}" using ts(1) k(4) by blast
  moreover have "set ts \<inter> C' = {}" using ts(2) k(4) by auto
  ultimately show "tickets_inv (advance_upload_ticket L) ts"
    using k(2,5) ts(3) by (simp add: advance_upload_ticket_def sc tickets_inv_def)
  show "t < ul_serving_ticket (advance_upload_ticket L)" using ss sc unfolding t advance_upload_ticket_def by simp
qed

lemma tickets_inv_cancel:
  assumes inv: "tickets_inv L ts" and t: "t \<in> set ts"
  shows "tickets_inv (cancel_upload_ticket t L) (remove1 t ts)"
    and "ul_serving_ticket L \<le> ul_serving_ticket (cancel_upload_ticket t L)"
proof -
  have "tickets_inv (cancel_upload_ticket t L) (remove1 t ts) \<and> ul_serving_ticket L \<le> ul_serving_ticket (cancel_upload_ticket t L)"
  proof (cases "t = ul_serving_ticket L")
    case True
    then obtain rest where ts: "ts = t # rest" using waiting_is_serving [OF inv] t by auto
    then show ?thesis using tickets_inv_advance [of L t rest] inv True by (simp add: cancel_upload_ticket_def less_imp_le)
  next
    case False
    have "t \<in> {ul_serving_ticket L..<ul_next_ticket L}" using inv t unfolding tickets_inv_def by blast
    with False have lt: "ul_serving_ticket L < t" by (simp add: order.not_eq_order_implies_strict)
    have d: "distinct ts" using inv by (auto simp: tickets_inv_def strict_sorted_iff)
    have "sorted_wrt (<) (remove1 t ts)" using inv by (auto simp: tickets_inv_def strict_sorted_iff intro: sorted_remove1)
    then show ?thesis using inv t lt d False unfolding tickets_inv_def cancel_upload_ticket_def
      by (auto simp: set_remove1_eq)
  qed
  then show "tickets_inv (cancel_upload_ticket t L) (remove1 t ts)"
    and "ul_serving_ticket L \<le> ul_serving_ticket (cancel_upload_ticket t L)" by simp_all
qed

section \<open>Every run\<close>

text \<open>
  The state a run can be in: the tickets fit together, grants are in the order of the tickets and behind
  the one being served, and two grants are as far apart as the bytes of the first need.
\<close>

definition spaced :: "u64 \<Rightarrow> grant list \<Rightarrow> bool" where
  "spaced rate gs \<longleftrightarrow> (\<forall>k. Suc k < length gs \<longrightarrow> gr_time (gs ! Suc k) + send_nanos rate (gr_bytes (gs ! Suc k)) \<le> gr_time (gs ! k))"

definition limiter_inv :: "u64 \<Rightarrow> limiter_run \<Rightarrow> bool" where
  "limiter_inv rate R \<longleftrightarrow> tickets_inv (lr_limiter R) (map wt_ticket (lr_waiting R))
     \<and> sorted_wrt (\<lambda>g h. gr_ticket h < gr_ticket g) (lr_grants R)
     \<and> (\<forall>g\<in>set (lr_grants R). gr_ticket g < ul_serving_ticket (lr_limiter R))
     \<and> (lr_grants R \<noteq> [] \<longrightarrow>
          gr_time (hd (lr_grants R)) + send_nanos rate (gr_bytes (hd (lr_grants R))) \<le> ul_next_send (lr_limiter R))
     \<and> spaced rate (lr_grants R)"

lemma spaced_simps [simp]: "spaced rate []" "spaced rate [g]"
  "spaced rate (g # h # gs) \<longleftrightarrow> gr_time h + send_nanos rate (gr_bytes h) \<le> gr_time g \<and> spaced rate (h # gs)"
  by (auto simp: spaced_def nth_Cons split: nat.splits)

lemma advance_next_send [simp]: "ul_next_send (advance_upload_ticket L) = ul_next_send L"
  "ul_next_send (cancel_upload_ticket t L) = ul_next_send L"
  by (auto simp: advance_upload_ticket_def cancel_upload_ticket_def split: prod.splits)

lemma initial_limiter_inv: "new_upload_limiter r now = Inr L \<Longrightarrow> limiter_inv rate (initial_run L now')"
  using tickets_inv_new by (simp add: limiter_inv_def initial_run_def)

lemma remove1_ticket:
  assumes "distinct (map wt_ticket ws)" and "w \<in> set ws"
  shows "map wt_ticket (remove1 w ws) = remove1 (wt_ticket w) (map wt_ticket ws)"
  using assms by (induction ws) (force simp: image_iff)+

lemma limiter_step_inv: "limiter_step rate R R' \<Longrightarrow> limiter_inv rate R \<Longrightarrow> limiter_inv rate R'"
proof (induction rule: limiter_step.induct)
  case (call R t L n)
  then have "tickets_inv L (map wt_ticket (lr_waiting R) @ [t])" by (intro tickets_inv_call) (auto simp: limiter_inv_def)
  moreover have "ul_serving_ticket L = ul_serving_ticket (lr_limiter R)" "ul_next_send L = ul_next_send (lr_limiter R)"
    using call(2) by (auto simp: take_ticket_def)
  ultimately show ?case using call(3) by (simp add: limiter_inv_def)
next
  case (tick R now)
  then show ?case by (simp add: limiter_inv_def)
next
  case (wait w R shutdown d L)
  then have "L = lr_limiter R" by (auto simp: poll_ticket_def split: if_splits)
  with wait(3) show ?case by (simp add: limiter_inv_def)
next
  case (give_up w R shutdown L)
  then have L: "L = cancel_upload_ticket (wt_ticket w) (lr_limiter R)" by (auto simp: poll_ticket_def split: if_splits)
  have inv: "tickets_inv (lr_limiter R) (map wt_ticket (lr_waiting R))" using give_up(3) by (simp add: limiter_inv_def)
  then have d: "distinct (map wt_ticket (lr_waiting R))" by (auto simp: tickets_inv_def strict_sorted_iff)
  have w: "wt_ticket w \<in> set (map wt_ticket (lr_waiting R))" using give_up(1) by auto
  from tickets_inv_cancel [OF inv w] give_up(3) show ?case
    by (auto simp: limiter_inv_def L remove1_ticket [OF d give_up(1)] intro: less_le_trans)
next
  case (grant w R shutdown L)
  let ?L = "(lr_limiter R)\<lparr>ul_next_send := lr_now R + send_nanos rate (wt_bytes w)\<rparr>"
  have g: "wt_ticket w = ul_serving_ticket (lr_limiter R)" "ul_next_send (lr_limiter R) \<le> lr_now R" "L = advance_upload_ticket ?L"
    using grant(2) by (auto simp: poll_ticket_def split: if_splits)
  have inv: "tickets_inv (lr_limiter R) (map wt_ticket (lr_waiting R))" using grant(3) by (simp add: limiter_inv_def)
  then have d: "distinct (map wt_ticket (lr_waiting R))" by (auto simp: tickets_inv_def strict_sorted_iff)
  obtain rest where rest: "map wt_ticket (lr_waiting R) = wt_ticket w # rest"
    using waiting_is_serving [OF inv] grant(1) g(1) by force
  have "tickets_inv ?L (wt_ticket w # rest)" using inv rest by (simp add: tickets_inv_def)
  from tickets_inv_advance [OF this]
  have adv: "tickets_inv L rest" "wt_ticket w < ul_serving_ticket L" using g(3) by simp_all
  have "map wt_ticket (remove1 w (lr_waiting R)) = rest" using remove1_ticket [OF d grant(1)] rest by simp
  moreover have "ul_next_send L = lr_now R + send_nanos rate (wt_bytes w)" using g(3) by simp
  moreover have "spaced rate (\<lparr>gr_ticket = wt_ticket w, gr_time = lr_now R, gr_bytes = wt_bytes w\<rparr> # lr_grants R)"
    using grant(3) g(2) by (cases "lr_grants R") (auto simp: limiter_inv_def)
  ultimately show ?case using grant(3) adv g(1) by (auto simp: limiter_inv_def intro: less_trans)
qed

lemma limiter_reachable_inv:
  assumes "(limiter_step rate)\<^sup>*\<^sup>* (initial_run L now) R" and "new_upload_limiter r now' = Inr L"
  shows "limiter_inv rate R"
  using assms(1) by (induction rule: rtranclp_induct) (use initial_limiter_inv [OF assms(2)] limiter_step_inv in blast)+

section \<open>The rate\<close>

lemma send_nanos_rate:
  assumes "0 < rate" and "unat n \<le> 18446744073"
  shows "unat n * 1000000000 \<le> unat rate * send_nanos rate n"
proof -
  have r: "0 < unat rate" using assms(1) by (simp add: word_less_nat_alt)
  define a where "a = unat n * 1000000000"
  define q where "q = (a + unat rate - 1) div unat rate"
  have "a + unat rate - 1 < unat rate * q + unat rate"
    unfolding q_def using r mod_less_divisor [of "unat rate" "a + unat rate - 1"] mult_div_mod_eq [of "unat rate" "a + unat rate - 1"]
    by linarith
  then have ge: "a \<le> unat rate * q" using r by linarith
  have "a + unat rate - 1 \<le> a * unat rate + (unat rate - 1)" using r by (cases "unat rate") simp_all
  then have "q \<le> (a * unat rate + (unat rate - 1)) div unat rate" unfolding q_def by (rule div_le_mono)
  also have "\<dots> = a" using r by (simp add: div_mult_self3 del: One_nat_def add_diff_assoc)
  finally have "q \<le> 2 ^ 64 - 1" using assms(2) by (simp add: a_def)
  moreover have "min a (2 ^ 128 - 1) = a" using assms(2) by (simp add: a_def)
  ultimately have "send_nanos rate n = max q 1" unfolding send_nanos_def a_def [symmetric] q_def by simp
  then have "unat rate * q \<le> unat rate * send_nanos rate n" by simp
  with ge show ?thesis unfolding a_def by (rule order_trans)
qed

text \<open>Between two grants at most as many bytes were granted as the rate allows, not counting the last.\<close>

lemma spaced_append: "spaced rate (xs @ ys) \<Longrightarrow> spaced rate xs \<and> spaced rate ys"
proof -
  assume s: "spaced rate (xs @ ys)"
  have "gr_time (xs ! Suc k) + send_nanos rate (gr_bytes (xs ! Suc k)) \<le> gr_time (xs ! k)" if "Suc k < length xs" for k
    using s that unfolding spaced_def by (auto simp: nth_append dest!: spec [of _ k])
  moreover have "gr_time (ys ! Suc k) + send_nanos rate (gr_bytes (ys ! Suc k)) \<le> gr_time (ys ! k)" if "Suc k < length ys" for k
    using s that unfolding spaced_def by (auto simp: nth_append dest!: spec [of _ "length xs + k"])
  ultimately show ?thesis unfolding spaced_def by blast
qed

lemma spaced_window:
  assumes "0 < rate"
  shows "spaced rate (g # mid @ [h]) \<Longrightarrow> \<forall>x\<in>set (mid @ [h]). unat (gr_bytes x) \<le> 18446744073 \<Longrightarrow>
    gr_time h \<le> gr_time g \<and>
    (\<Sum>x\<leftarrow>mid @ [h]. unat (gr_bytes x)) * 1000000000 \<le> unat rate * (gr_time g - gr_time h)"
proof (induction mid arbitrary: g)
  case Nil
  then have "gr_time h + send_nanos rate (gr_bytes h) \<le> gr_time g" "unat (gr_bytes h) \<le> 18446744073" by simp_all
  moreover from this have "unat rate * send_nanos rate (gr_bytes h) \<le> unat rate * (gr_time g - gr_time h)"
    by (intro mult_le_mono2) linarith
  ultimately show ?case using order_trans [OF send_nanos_rate [OF assms, of "gr_bytes h"]] by simp
next
  case (Cons x mid)
  then have ih: "gr_time h \<le> gr_time x"
    "(\<Sum>x\<leftarrow>mid @ [h]. unat (gr_bytes x)) * 1000000000 \<le> unat rate * (gr_time x - gr_time h)" by auto
  have x: "gr_time x + send_nanos rate (gr_bytes x) \<le> gr_time g" using Cons.prems(1) by simp
  have b: "unat (gr_bytes x) * 1000000000 \<le> unat rate * send_nanos rate (gr_bytes x)"
    using send_nanos_rate [OF assms] Cons.prems(2) by simp
  have "(\<Sum>x\<leftarrow>(x # mid) @ [h]. unat (gr_bytes x)) * 1000000000
      \<le> unat rate * send_nanos rate (gr_bytes x) + unat rate * (gr_time x - gr_time h)"
    using ih(2) b by (simp add: algebra_simps)
  also have "\<dots> \<le> unat rate * (gr_time g - gr_time h)"
    using x ih(1) unfolding distrib_left [symmetric] by (intro mult_le_mono2) linarith
  finally show ?case using x ih(1) by simp
qed

section \<open>Progress\<close>

text \<open>As long as a thread waits, one of them holds the ticket being served, and its next iteration ends its wait.\<close>

lemma oldest_proceeds:
  assumes inv: "limiter_inv rate R" and "lr_waiting R = w # ws"
  shows "fst (poll_ticket rate (wt_bytes w) shutdown (max now (ul_next_send (lr_limiter R))) (wt_ticket w) (lr_limiter R))
    = (if shutdown then GaveUp else Granted)"
  using serving_is_oldest [of "lr_limiter R" "wt_ticket w" "map wt_ticket ws"] assms
  by (simp add: poll_ticket_def limiter_inv_def)

lemma limiter_drains:
  assumes "limiter_inv rate R"
  shows "\<exists>R'. (limiter_step rate)\<^sup>*\<^sup>* R R' \<and> lr_waiting R' = []
    \<and> rev (map gr_ticket (lr_grants R')) = rev (map gr_ticket (lr_grants R)) @ map wt_ticket (lr_waiting R)"
  using assms
proof (induction "lr_waiting R" arbitrary: R)
  case Nil
  then show ?case by auto
next
  case (Cons w ws)
  let ?now = "max (lr_now R) (ul_next_send (lr_limiter R))"
  let ?R = "R\<lparr>lr_now := ?now\<rparr>"
  have tick: "limiter_step rate R ?R" by (rule limiter_step.tick) simp
  obtain L where L: "poll_ticket rate (wt_bytes w) False ?now (wt_ticket w) (lr_limiter R) = (Granted, L)"
    using oldest_proceeds [OF Cons.prems, of w ws False "lr_now R"] Cons.hyps(2) by (auto simp: fst_def split: prod.splits)
  let ?R' = "?R\<lparr>lr_limiter := L, lr_waiting := remove1 w (lr_waiting ?R),
      lr_grants := \<lparr>gr_ticket = wt_ticket w, gr_time = lr_now ?R, gr_bytes = wt_bytes w\<rparr> # lr_grants ?R\<rparr>"
  have "limiter_step rate ?R ?R'"
    by (rule limiter_step.grant [where shutdown = False]) (use L Cons.hyps(2) [symmetric] in simp_all)
  with tick have steps: "(limiter_step rate)\<^sup>*\<^sup>* R ?R'" by (meson converse_rtranclp_into_rtranclp r_into_rtranclp)
  have "limiter_inv rate ?R'"
    using limiter_step_inv [OF \<open>limiter_step rate ?R ?R'\<close>] limiter_step_inv [OF tick Cons.prems] by blast
  with Cons.hyps(1) [of ?R'] Cons.hyps(2) [symmetric] steps show ?case by (auto intro: rtranclp_trans)
qed

section \<open>A thread alone\<close>

text \<open>A call with nobody else at the limiter returns as soon as the line is free or shutdown is requested.\<close>

lemma reserve_alone:
  assumes inv: "tickets_inv L []" and room: "unat (ul_next_ticket L) + 1 < 2 ^ 64"
    and seen: "\<exists>(others, shutdown, now)\<in>set seen. shutdown \<or> ul_next_send L \<le> now"
    and alone: "\<forall>(others, shutdown, now)\<in>set seen. others = id"
  shows "\<exists>r L'. reserve n started seen L = Some (r, L') \<and> tickets_inv L' []"
proof (cases "ul_rate_bytes_per_second L")
  case None
  with inv show ?thesis by (simp add: reserve_def)
next
  case (Some rate)
  let ?t = "ul_next_ticket L" and ?M = "snd (take_ticket L)"
  have t: "take_ticket L = (?t, ?M)" by (simp add: take_ticket_def)
  have M: "tickets_inv ?M [?t]" using tickets_inv_call [OF inv t room] by simp
  then have serving: "ul_serving_ticket ?M = ?t" by (rule serving_is_oldest)
  have next_send: "ul_next_send ?M = ul_next_send L" by (simp add: take_ticket_def)
  have "\<exists>r L'. reserve_loop rate n started ?t seen ?M = Some (r, L') \<and> tickets_inv L' []" using seen alone
  proof (induction seen)
    case (Cons first seen)
    obtain others shutdown now where o: "first = (others, shutdown, now)" by (cases first)
    have id: "others = id" using Cons.prems(2) o by (simp add: id_def)
    show ?case
    proof (cases "shutdown \<or> ul_next_send L \<le> now")
      case True
      have "tickets_inv (cancel_upload_ticket ?t ?M) []" using tickets_inv_cancel(1) [OF M, of ?t] by simp
      moreover have "tickets_inv (?M\<lparr>ul_next_send := m\<rparr>) [?t]" for m using M by (simp add: tickets_inv_def)
      then have "tickets_inv (advance_upload_ticket (?M\<lparr>ul_next_send := m\<rparr>)) []" for m by (rule tickets_inv_advance(1))
      ultimately show ?thesis using True by (auto simp: o id poll_ticket_def serving next_send)
    next
      case False
      with Cons show ?thesis by (auto simp: o id poll_ticket_def serving next_send)
    qed
  qed simp
  then show ?thesis using Some by (simp add: reserve_def take_ticket_def)
qed

end
