(* ===== verification/Bt_Seed_Properties.thy ===== *)
theory Bt_Seed_Properties
  imports Bt_Download_Properties Bt_Seed_Output Bt_Limiter_Safety
begin

text \<open>
  The properties of seeding: what a seeder gives away and to whom, that the two ends of a transfer complete a
  piece, and the upload limiter; each with an instance at the sample torrent.
\<close>

section \<open>A sample transfer\<close>

definition tiny_hash :: bytes where
  "tiny_hash = pad_to 20 (encode tiny_info)"

definition sample_id :: bytes where
  "sample_id = replicate 20 45"

definition tiny_seeder :: seed_env where
  "tiny_seeder = \<lparr>se_shutdown = None, se_reserve = \<lambda>_ _. Some 0, se_files = \<lambda>_. sample_files, se_handle = \<lambda>_. [7],
     se_index = \<lambda>_. sample_index\<rparr>"

definition new_seeding :: seed_session where
  "new_seeding = \<lparr>ps_in = [], ps_out = [], ps_room = None, sn_seen = 0, sn_successful_handshakes = 0, sn_block_requests = 0,
     sn_payload_bytes_sent = 0, sn_on_demand_local_chunks_read = 0, sn_on_demand_local_bytes_read = 0,
     sn_cancel_messages_received = 0, sn_upload_throttle_wait_micros = 0, sn_uploaded = None\<rparr>"

definition new_peer :: peer_session where
  "new_peer = \<lparr>ps_in = [], ps_out = [], ps_room = None, ps_availability = [False], ps_choked = True,
     ps_block_requests_sent = 0, ps_payload_bytes_received = 0, ps_cancel_messages_sent = 0\<rparr>"

lemma tiny_hash_decoded: "cx_hex_decode (bx_cdc inst_bt) (tv_info_hash_sha1 tiny_torrent) = Inr tiny_hash" "length tiny_hash = 20"
  using inst_cdc_ok by (simp_all add: tiny_torrent_def tiny_hash_def sha1_hex_def inst_bt_def cdc_ext_ok_def pad_to_def)

lemma tiny_ordinary: "ordinary_torrent tiny_torrent"
  using tiny_torrent_shape tiny_limits(1) by (simp add: ordinary_torrent_def tiny_bounds_piece)

lemma tiny_completes: "completes_piece inst_bt tiny_torrent [7] [0] [] tiny_job"
proof -
  have "ranges_sorted 0 []" by simp
  then show ?thesis
    by (simp add: completes_piece_def tiny_parts tiny_requests tiny_jobs piece_valid_def tiny_file_piece local_byte_def)
qed

lemma tiny_undisturbed: "undisturbed tiny_seeder"
  by (simp add: undisturbed_def tiny_seeder_def)

lemma tiny_unchanged: "index_unchanged inst_bt tiny_seeder tiny_torrent tiny_descriptor sample_index sample_files tiny_plan"
  using tiny_plan_made by (simp add: index_unchanged_def tiny_seeder_def)

lemma tiny_image: "local_image inst_cdc sample_index sample_files (td_chunks tiny_descriptor) = [7]"
proof -
  have "fs_read sample_files ''/s/f'' = Inr [7]" by (simp add: fs_read_def sample_files_def)
  then show ?thesis
    by (simp add: local_image_def local_content_def local_chunk_def found_locally_def read_verified_source_def tiny_descriptor_parts
        sample_files_stat sample_lookup read_range_def verify_chunk_def inst_cdc_fields)
qed

text \<open>Both ends of the sample torrent, over a file and over the index.\<close>

lemma inst_bt_cdc: "bx_cdc inst_bt = inst_cdc"
  by (simp add: inst_bt_def)

lemma new_ends: "ps_room new_peer = None" "ps_choked new_peer" "length (ps_availability new_peer) = piece_count tiny_torrent"
  "ps_out new_peer = []" "ps_room new_seeding = None" "ps_out new_seeding = []" "length sample_id = 20"
  by (simp_all add: new_peer_def new_seeding_def sample_id_def tiny_bounds_piece)

lemma tiny_advertised: "advertised_pieces tiny_plan = [True]"
  by (simp add: advertised_pieces_def tiny_plan_def)

lemma tiny_file_transfer:
  "\<exists>D' S'. serve_peer inst_bt tiny_seeder tiny_torrent ''/s/f'' sample_id (new_seeding\<lparr>ps_in := stream_of (ps_out D')\<rparr>) = (Inr (), S')
    \<and> fetch_one_piece inst_bt tiny_torrent sample_id tiny_job [0] (new_peer\<lparr>ps_in := stream_of (ps_out S')\<rparr>) = (Inr (PieceVerified [7]), D')"
proof -
  have "se_handle tiny_seeder k = [7]" "is_ok (fs_read (se_files tiny_seeder k) ''/s/f'')" for k
    by (simp_all add: tiny_seeder_def fs_read_def sample_files_def)
  from file_transfer [OF tiny_ordinary tiny_completes tiny_hash_decoded new_ends(7) new_ends(7) new_ends(1-6) tiny_undisturbed this]
  show ?thesis by (simp only: tiny_parts unat_0 tiny_file_piece)
qed

lemma tiny_index_transfer:
  "\<exists>D' S'. serve_index_peer inst_bt tiny_seeder tiny_torrent tiny_descriptor [True] sample_id (new_seeding\<lparr>ps_in := stream_of (ps_out D')\<rparr>)
      = (Inr (), S')
    \<and> fetch_one_piece inst_bt tiny_torrent sample_id tiny_job [0] (new_peer\<lparr>ps_in := stream_of (ps_out S')\<rparr>) = (Inr (PieceVerified [7]), D')"
proof -
  have job: "completes_piece inst_bt tiny_torrent (local_image (bx_cdc inst_bt) sample_index sample_files (td_chunks tiny_descriptor)) [0] [] tiny_job"
    using tiny_completes by (simp add: inst_bt_cdc tiny_image)
  have "pp_fully_local (br_pieces tiny_plan ! unat (pj_piece_index tiny_job))" by (simp add: tiny_parts tiny_plan_def)
  from index_transfer [OF tiny_ordinary tiny_unchanged job this tiny_hash_decoded new_ends(7) new_ends(7) new_ends(1-6) tiny_undisturbed]
  show ?thesis by (simp only: tiny_parts unat_0 tiny_file_piece inst_bt_cdc tiny_image tiny_advertised)
qed

section \<open>What a seeder gives away\<close>

text \<open>C31: A seeder of the index sends nothing but its handshake, its bitfield, an unchoke and blocks of pieces it has
  advertised; every block lies inside its piece and comes from bytes whose SHA-1 is the one of the torrent,
  whatever the peer sends and however index and files change meanwhile.\<close>

theorem index_seeder_sends_only_verified_pieces:
  assumes "serve_index_peer X E t d available peer_id S = (r, T)" and "torrent_shape t"
    and "cx_hex_decode (bx_cdc X) (tv_info_hash_sha1 t) = Inr ih" and "ps_out S = []"
  shows "seeder_wrote (handshake_bytes ih peer_id) (availability_bitfield available)
    (reply t (from_verified_piece X t available)) r (ps_out T)"
  using serve_index_peer_wrote [OF assms(2-4,1)] .

theorem index_seeder_sends_only_verified_pieces_witness:
  "\<exists>(D' :: peer_session) S'. serve_index_peer inst_bt tiny_seeder tiny_torrent tiny_descriptor [True] sample_id (new_seeding\<lparr>ps_in := stream_of (ps_out D')\<rparr>)
      = (Inr (), S')
    \<and> seeder_wrote (handshake_bytes tiny_hash sample_id) (availability_bitfield [True])
        (reply tiny_torrent (from_verified_piece inst_bt tiny_torrent [True])) (Inr ()) (ps_out S')"
proof -
  obtain D' :: peer_session and S' where run: "serve_index_peer inst_bt tiny_seeder tiny_torrent tiny_descriptor [True] sample_id
      (new_seeding\<lparr>ps_in := stream_of (ps_out D')\<rparr>) = (Inr (), S')"
    using tiny_index_transfer by blast
  from index_seeder_sends_only_verified_pieces [OF run tiny_torrent_shape tiny_hash_decoded(1)] run show ?thesis
    by (auto simp: new_ends)
qed

text \<open>C32: A seeder of a file that passed the check before seeding and has not changed since gives away only that file:
  its bytes have the SHA-256 of the descriptor and in every piece the SHA-1 of the torrent, and all that is sent
  is the handshake, the bitfield of a complete peer, an unchoke and blocks of the file at the place asked for.\<close>

theorem file_seeder_sends_only_the_target:
  assumes "validate_seed_source X fs t d source = Inr sha" and "torrent_shape t"
    and "fs source = Some (Regular content m)" and "length content < 2 ^ 64" and "\<And>k. se_handle E k = content"
    and "cx_hex_decode (bx_cdc X) (tv_info_hash_sha1 t) = Inr ih" and "ps_out S = []"
    and "serve_peer X E t source peer_id S = (r, T)"
  shows "length content = unat (tv_total_length t)
    \<and> cx_hex_encode (bx_cdc X) (cx_sha256 (bx_cdc X) content) = ti_sha256 (td_target d)
    \<and> (\<forall>i<piece_count t. piece_valid X t content i)
    \<and> seeder_wrote (handshake_bytes ih peer_id) (complete_bitfield (piece_count t)) (reply t (file_block_of t content)) r (ps_out T)"
  by (rule validated_file_wrote [OF assms])

lemma tiny_source_validated:
  "validate_seed_source inst_bt sample_files tiny_torrent tiny_descriptor ''/s/f'' = Inr (ti_sha256 (td_target tiny_descriptor))"
proof -
  have "read_blocks [Inr [7], Inr []] [7]" by (rule read_blocks_once)
  then have sha: "sha256_file inst_cdc (fs_reads sample_files ''/s/f'') = Inr (ti_sha256 (td_target tiny_descriptor))"
    using sha256_file_blocks [of "[Inr [7], Inr []]" "[7]" inst_cdc]
    by (simp add: fs_reads_def sample_files_def tiny_descriptor_parts inst_cdc_fields)
  have "seed_piece_length tiny_torrent 0 = Inr 1"
    by (simp add: seed_piece_length_def checked_mul_def tiny_torrent_def saturating_sub_def ok_or_def min_def word_le_nat_alt)
  with sha show ?thesis using tiny_descriptor_valid
    by (simp add: validate_seed_source_def inst_bt_cdc tiny_descriptor_parts fs_metadata_def fs_read_def sample_files_def tiny_parts
        check_source_piece_def read_at_def)
qed

theorem file_seeder_sends_only_the_target_witness:
  "\<exists>(D' :: peer_session) S'. serve_peer inst_bt tiny_seeder tiny_torrent ''/s/f'' sample_id (new_seeding\<lparr>ps_in := stream_of (ps_out D')\<rparr>) = (Inr (), S')
    \<and> seeder_wrote (handshake_bytes tiny_hash sample_id) (complete_bitfield 1) (reply tiny_torrent (file_block_of tiny_torrent [7])) (Inr ()) (ps_out S')"
proof -
  obtain D' :: peer_session and S' where run: "serve_peer inst_bt tiny_seeder tiny_torrent ''/s/f'' sample_id (new_seeding\<lparr>ps_in := stream_of (ps_out D')\<rparr>) = (Inr (), S')"
    using tiny_file_transfer by blast
  have "sample_files ''/s/f'' = Some (Regular [7] (Inr 5))" "se_handle tiny_seeder k = [7]" for k
    by (simp_all add: sample_files_def tiny_seeder_def)
  from file_seeder_sends_only_the_target [OF tiny_source_validated tiny_torrent_shape this(1) _ this(2) tiny_hash_decoded(1) _ run]
  have "seeder_wrote (handshake_bytes tiny_hash sample_id) (complete_bitfield 1) (reply tiny_torrent (file_block_of tiny_torrent [7])) (Inr ()) (ps_out S')"
    by (simp add: new_ends tiny_bounds_piece tiny_parts)
  with run show ?thesis by blast
qed

section \<open>Two ends\<close>

text \<open>C33: The bitfield a seeder sends is read back by a downloader as exactly the pieces advertised, and the bitfield of
  a seeder that has everything is the one that advertises every piece.\<close>

theorem bitfield_round_trip:
  assumes "length old = length available"
  shows "apply_bitfield (availability_bitfield available) old = (Inr (), available)
    \<and> complete_bitfield n = availability_bitfield (replicate n True)"
  using apply_availability_bitfield [OF assms] complete_bitfield_eq by blast

theorem bitfield_round_trip_witness:
  "apply_bitfield (availability_bitfield [True, False, True]) [False, False, False] = (Inr (), [True, False, True])"
  using bitfield_round_trip [of "[False, False, False]" "[True, False, True]"] by simp

text \<open>C34: A seeder of the index and a downloader complete a piece between them: when the index and the files are those
  of the plan, each end reads what the other has written, the seeder serves without an error and the downloader
  ends with the verified piece.\<close>

theorem index_seeder_completes_piece:
  assumes "ordinary_torrent t" and "index_unchanged X E t d db fs plan" and "undisturbed E"
    and "completes_piece X t (local_image (bx_cdc X) db fs (td_chunks d)) content ranges job"
    and "pp_fully_local (br_pieces plan ! unat (pj_piece_index job))"
    and "cx_hex_decode (bx_cdc X) (tv_info_hash_sha1 t) = Inr ih" and "length ih = 20"
    and "length seeder_id = 20" and "length peer_id = 20"
    and "ps_room D = None" and "ps_choked D" and "length (ps_availability D) = piece_count t" and "ps_out D = []"
    and "ps_room S = None" and "ps_out S = []"
  shows "\<exists>D' S'. serve_index_peer X E t d (advertised_pieces plan) seeder_id (S\<lparr>ps_in := stream_of (ps_out D')\<rparr>) = (Inr (), S')
    \<and> fetch_one_piece X t peer_id job content (D\<lparr>ps_in := stream_of (ps_out S')\<rparr>)
      = (Inr (PieceVerified (file_piece t (local_image (bx_cdc X) db fs (td_chunks d)) (unat (pj_piece_index job)))), D')"
  using index_transfer [OF assms(1,2,4-15,3)] .

theorem index_seeder_completes_piece_witness:
  "\<exists>(D' :: peer_session) S'. serve_index_peer inst_bt tiny_seeder tiny_torrent tiny_descriptor [True] sample_id
      (new_seeding\<lparr>ps_in := stream_of (ps_out D')\<rparr>) = (Inr (), S')
    \<and> fetch_one_piece inst_bt tiny_torrent sample_id tiny_job [0] (new_peer\<lparr>ps_in := stream_of (ps_out S')\<rparr>) = (Inr (PieceVerified [7]), D')"
proof -
  have job: "completes_piece inst_bt tiny_torrent (local_image (bx_cdc inst_bt) sample_index sample_files (td_chunks tiny_descriptor)) [0] [] tiny_job"
    using tiny_completes by (simp add: inst_bt_cdc tiny_image)
  have "pp_fully_local (br_pieces tiny_plan ! unat (pj_piece_index tiny_job))" by (simp add: tiny_parts tiny_plan_def)
  from index_seeder_completes_piece [OF tiny_ordinary tiny_unchanged tiny_undisturbed job this tiny_hash_decoded new_ends(7) new_ends(7) new_ends(1-6)]
  show ?thesis by (simp only: tiny_parts unat_0 tiny_file_piece inst_bt_cdc tiny_image tiny_advertised)
qed

section \<open>The upload limiter\<close>

text \<open>Two threads that ask for one byte each at 1000 bytes a second.\<close>

definition sample_limiter :: upload_limiter where
  "sample_limiter = \<lparr>ul_rate_bytes_per_second = Some 1000, ul_next_ticket = 0, ul_serving_ticket = 0, ul_cancelled_tickets = {},
     ul_next_send = 0\<rparr>"

definition two_waiting :: limiter_run where
  "two_waiting = \<lparr>lr_limiter = sample_limiter\<lparr>ul_next_ticket := 2\<rparr>, lr_now = 0,
     lr_waiting = [\<lparr>wt_ticket = 0, wt_bytes = 1\<rparr>, \<lparr>wt_ticket = 1, wt_bytes = 1\<rparr>], lr_grants = []\<rparr>"

definition two_granted :: limiter_run where
  "two_granted = \<lparr>lr_limiter = sample_limiter\<lparr>ul_next_ticket := 2, ul_serving_ticket := 2, ul_next_send := 2000000\<rparr>, lr_now = 1000000,
     lr_waiting = [], lr_grants = [\<lparr>gr_ticket = 1, gr_time = 1000000, gr_bytes = 1\<rparr>, \<lparr>gr_ticket = 0, gr_time = 0, gr_bytes = 1\<rparr>]\<rparr>"

lemma sample_limiter_new: "new_upload_limiter (Some 1000) 0 = Inr sample_limiter"
  by (simp add: new_upload_limiter_def validate_upload_rate_def sample_limiter_def)

lemma two_waiting_reached: "(limiter_step 1000)\<^sup>*\<^sup>* (initial_run sample_limiter 0) two_waiting"
proof -
  let ?R = "\<lparr>lr_limiter = sample_limiter\<lparr>ul_next_ticket := 1\<rparr>, lr_now = 0, lr_waiting = [\<lparr>wt_ticket = 0, wt_bytes = 1\<rparr>], lr_grants = []\<rparr>"
  have "limiter_step 1000 (initial_run sample_limiter 0) ?R"
    using limiter_step.call [of "initial_run sample_limiter 0" 0 "sample_limiter\<lparr>ul_next_ticket := 1\<rparr>" 1000 1]
    by (simp add: initial_run_def take_ticket_def sample_limiter_def)
  moreover have "limiter_step 1000 ?R two_waiting"
    using limiter_step.call [of ?R 1 "sample_limiter\<lparr>ul_next_ticket := 2\<rparr>" 1000 1]
    by (simp add: two_waiting_def take_ticket_def sample_limiter_def)
  ultimately show ?thesis by (rule converse_rtranclp_into_rtranclp [OF _ r_into_rtranclp])
qed

lemma one_byte_nanos: "send_nanos 1000 1 = 1000000"
  by (simp add: send_nanos_def)

lemma two_granted_reached: "(limiter_step 1000)\<^sup>*\<^sup>* (initial_run sample_limiter 0) two_granted"
proof -
  let ?w = "\<lparr>wt_ticket = 0, wt_bytes = 1\<rparr>" and ?v = "\<lparr>wt_ticket = 1, wt_bytes = 1\<rparr>"
  let ?L = "sample_limiter\<lparr>ul_next_ticket := 2, ul_serving_ticket := 1, ul_next_send := 1000000\<rparr>"
  let ?R = "\<lparr>lr_limiter = ?L, lr_now = 0, lr_waiting = [?v], lr_grants = [\<lparr>gr_ticket = 0, gr_time = 0, gr_bytes = 1\<rparr>]\<rparr>"
  let ?Q = "?R\<lparr>lr_now := 1000000\<rparr>"
  have skip: "skip_cancelled n {} = (n, {})" for n by (simp add: skip_cancelled.simps)
  have "limiter_step 1000 two_waiting ?R"
    using limiter_step.grant [of ?w two_waiting 1000 False ?L]
    by (simp add: two_waiting_def poll_ticket_def advance_upload_ticket_def sample_limiter_def skip one_byte_nanos)
  moreover have "limiter_step 1000 ?R ?Q" by (rule limiter_step.tick) simp
  moreover have "limiter_step 1000 ?Q two_granted"
    using limiter_step.grant [of ?v ?Q 1000 False "lr_limiter two_granted"]
    by (simp add: two_granted_def poll_ticket_def advance_upload_ticket_def sample_limiter_def skip one_byte_nanos)
  ultimately show ?thesis using two_waiting_reached by (auto intro: rtranclp.rtrancl_into_rtrancl)
qed

text \<open>C35: However the connection threads interleave and give up, reservations are granted in the order in which they
  were asked for, and over any window between two grants the bytes granted before the last one are at most what
  the rate allows for that time.\<close>

theorem upload_rate_never_exceeded:
  assumes "new_upload_limiter (Some rate) now = Inr L" and "(limiter_step rate)\<^sup>*\<^sup>* (initial_run L now') R"
    and "lr_grants R = later @ g # mid @ h # earlier" and "\<And>x. x \<in> set (mid @ [h]) \<Longrightarrow> unat (gr_bytes x) \<le> 18446744073"
  shows "gr_ticket h < gr_ticket g \<and> gr_time h \<le> gr_time g
    \<and> (\<Sum>x\<leftarrow>mid @ [h]. unat (gr_bytes x)) * 1000000000 \<le> unat rate * (gr_time g - gr_time h)"
proof -
  have inv: "limiter_inv rate R" by (rule limiter_reachable_inv [OF assms(2,1)])
  have pos: "0 < rate" using assms(1) by (auto simp: new_upload_limiter_def validate_upload_rate_def word_neq_0_conv)
  have "spaced rate (later @ (g # mid @ [h]) @ earlier)" using inv assms(3) by (simp add: limiter_inv_def)
  then have "spaced rate (g # mid @ [h])" by (blast dest: spaced_append)
  moreover have "gr_ticket h < gr_ticket g" using inv assms(3) by (auto simp: limiter_inv_def sorted_wrt_append)
  ultimately show ?thesis using spaced_window [OF pos] assms(4) by blast
qed

theorem upload_rate_never_exceeded_witness:
  "unat (gr_bytes \<lparr>gr_ticket = 0, gr_time = 0, gr_bytes = 1\<rparr>) * 1000000000 \<le> 1000 * (gr_time (hd (lr_grants two_granted)) - 0)"
  using upload_rate_never_exceeded [OF sample_limiter_new two_granted_reached,
      of "[]" "\<lparr>gr_ticket = 1, gr_time = 1000000, gr_bytes = 1\<rparr>" "[]" "\<lparr>gr_ticket = 0, gr_time = 0, gr_bytes = 1\<rparr>" "[]"]
  by (simp add: two_granted_def)

text \<open>C36: The limiter never locks up: from any state that can be reached all waiting threads can still be served, each
  exactly once and in the order in which they asked, also when others before them have given up.\<close>

theorem upload_queue_drains:
  assumes "new_upload_limiter (Some rate) now = Inr L" and "(limiter_step rate)\<^sup>*\<^sup>* (initial_run L now') R"
  shows "\<exists>R'. (limiter_step rate)\<^sup>*\<^sup>* R R' \<and> lr_waiting R' = []
    \<and> rev (map gr_ticket (lr_grants R')) = rev (map gr_ticket (lr_grants R)) @ map wt_ticket (lr_waiting R)
    \<and> sorted_wrt (<) (map wt_ticket (lr_waiting R))"
proof -
  have inv: "limiter_inv rate R" by (rule limiter_reachable_inv [OF assms(2,1)])
  then have "sorted_wrt (<) (map wt_ticket (lr_waiting R))" by (simp add: limiter_inv_def tickets_inv_def)
  with limiter_drains [OF inv] show ?thesis by blast
qed

theorem upload_queue_drains_witness:
  "\<exists>R'. (limiter_step 1000)\<^sup>*\<^sup>* two_waiting R' \<and> lr_waiting R' = [] \<and> map gr_ticket (lr_grants R') = [1, 0]"
proof -
  from upload_queue_drains [OF sample_limiter_new two_waiting_reached]
  obtain R' where "(limiter_step 1000)\<^sup>*\<^sup>* two_waiting R'" "lr_waiting R' = []" "rev (map gr_ticket (lr_grants R')) = [0, 1]"
    by (auto simp: two_waiting_def)
  then show ?thesis by (metis rev.simps(2) rev_rev_ident rev_singleton_conv append_Cons append_Nil rev.simps(1))
qed

end
