(* ===== verification/Bt_Tracker.thy ===== *)
theory Bt_Tracker
  imports Bt_Download
begin

unbundle bit_operations_syntax

text \<open>
  Trackers, \<open>crates/meld-core/src/bt_tracker.rs\<close>: announcing over HTTP and UDP, the order in which the
  trackers of a tier are asked, the download that looks for peers tier by tier, and the announcements of a
  seeder with its heartbeat. The HTTP client, the URL parser, name resolution, the sockets and the clocks
  are fields of \<open>tracker_ext\<close>; what they answer depends on the moment, the number of announcements made
  so far. Where the code keeps the text of an error, the model keeps the error. A transfer from the peers
  that were found, which \<open>Bt_Download\<close> models as a relation, is an argument of the download.
\<close>

section \<open>The outside\<close>

record udp_url =
  uu_username :: string
  uu_password :: "string option"
  uu_query :: "string option"
  uu_fragment :: "string option"
  uu_path :: string
  uu_host :: "string option"
  uu_port :: "u16 option"

record tracker_ext =
  tx_bt :: bt_ext
  tx_http_get :: "nat \<Rightarrow> u64 \<Rightarrow> string \<Rightarrow> bytes result"
  tx_url_parse :: "string \<Rightarrow> udp_url result"
  tx_resolve :: "nat \<Rightarrow> string \<Rightarrow> u16 \<Rightarrow> socket_addr list result"
  tx_udp_connect :: "nat \<Rightarrow> socket_addr \<Rightarrow> unit result"
  tx_udp_exchange :: "nat \<Rightarrow> socket_addr \<Rightarrow> bytes \<Rightarrow> bytes result"
  tx_system_time :: "nat \<Rightarrow> socket_addr \<Rightarrow> string \<Rightarrow> nat result"
  tx_process_id :: u32
  tx_instant :: "nat \<Rightarrow> nat"
  tx_uploaded :: "nat \<Rightarrow> u64"

definition MAX_TRACKER_RESPONSE_BYTES :: u64 where
  "MAX_TRACKER_RESPONSE_BYTES = 2 * 1024 * 1024"

definition MAX_TRACKER_PEERS :: nat where
  "MAX_TRACKER_PEERS = 100"

definition UDP_PROTOCOL_ID :: u64 where
  "UDP_PROTOCOL_ID = 0x041727101980"

definition MAX_UDP_RESPONSE_BYTES :: nat where
  "MAX_UDP_RESPONSE_BYTES = 65507"

section \<open>Events and reports\<close>

datatype tracker_event = Update | Started | Completed | Stopped

fun http_name :: "tracker_event \<Rightarrow> string" where
  "http_name Update = ''update''"
| "http_name Started = ''started''"
| "http_name Completed = ''completed''"
| "http_name Stopped = ''stopped''"

fun udp_value :: "tracker_event \<Rightarrow> u32" where
  "udp_value Update = 0"
| "udp_value Started = 2"
| "udp_value Completed = 1"
| "udp_value Stopped = 3"

record tracker_counters =
  tc_downloaded :: u64
  tc_left :: u64
  tc_uploaded :: u64

definition new_tracker_counters :: "u64 \<Rightarrow> u64 \<Rightarrow> u64 \<Rightarrow> tracker_counters" where
  "new_tracker_counters downloaded left uploaded = \<lparr>tc_downloaded = downloaded, tc_left = left, tc_uploaded = uploaded\<rparr>"

record bt_discovery_attempt =
  da_tier :: u64
  da_tracker :: string
  da_peers_returned :: u64
  da_interval_seconds :: "u64 option"
  da_error :: "error option"

record bt_tracker_lifecycle_attempt =
  la_event :: string
  la_tracker :: string
  la_success :: bool
  la_interval_seconds :: "u64 option"
  la_warning_message :: "string option"
  la_error :: "error option"

definition successful_lifecycle_attempt :: "string \<Rightarrow> tracker_event \<Rightarrow> tracker_response \<Rightarrow> bt_tracker_lifecycle_attempt" where
  "successful_lifecycle_attempt tracker event response =
     \<lparr>la_event = http_name event, la_tracker = tracker, la_success = True, la_interval_seconds = Some (tr_interval response),
      la_warning_message = tr_warning_message response, la_error = None\<rparr>"

definition failed_lifecycle_attempt :: "string \<Rightarrow> tracker_event \<Rightarrow> error \<Rightarrow> bt_tracker_lifecycle_attempt" where
  "failed_lifecycle_attempt tracker event e =
     \<lparr>la_event = http_name event, la_tracker = tracker, la_success = False, la_interval_seconds = None,
      la_warning_message = None, la_error = Some e\<rparr>"

text \<open>What a private tracker takes as its key stays out of the reports.\<close>

definition redact_tracker_url :: "string \<Rightarrow> string" where
  "redact_tracker_url url = (case split_once (CHR ''?'') url of Some (base, _) \<Rightarrow> base @ ''?<redacted>'' | None \<Rightarrow> url)"

section \<open>Which trackers, and in which order\<close>

definition torrent_tiers :: "torrent_v1 \<Rightarrow> string list list" where
  "torrent_tiers t = (case tv_announce_list t of Some tiers \<Rightarrow> tiers
     | None \<Rightarrow> (case tv_announce t of Some announce_url \<Rightarrow> [[announce_url]] | None \<Rightarrow> []))"

definition tracker_tiers :: "torrent_v1 \<Rightarrow> string option \<Rightarrow> string list list result" where
  "tracker_tiers t tracker_override =
     (let tiers = (case tracker_override of Some tracker \<Rightarrow> [[tracker]] | None \<Rightarrow> torrent_tiers t)
      in bail_if (tiers = [] \<or> list_all (\<lambda>tier. tier = []) tiers) ''torrent has no usable tracker URL; provide --tracker'' (Inr tiers))"

definition swap :: "'a list \<Rightarrow> nat \<Rightarrow> nat \<Rightarrow> 'a list" where
  "swap xs i j = xs[i := xs ! j, j := xs ! i]"

definition xorshift :: "u64 \<Rightarrow> u64" where
  "xorshift state = (let a = state XOR push_bit 13 state; b = a XOR drop_bit 7 a in b XOR push_bit 17 b)"

definition shuffle_step :: "u64 \<times> string list \<Rightarrow> nat \<Rightarrow> u64 \<times> string list" where
  "shuffle_step s index = (case s of (state, tier) \<Rightarrow>
     let state = xorshift state in (state, swap tier index (unat state mod (index + 1))))"

definition shuffled_tier :: "bt_ext \<Rightarrow> string list \<Rightarrow> bytes \<Rightarrow> nat \<Rightarrow> string list" where
  "shuffled_tier X tier peer_id tier_index =
     (let hash = bx_sha1 X (peer_id @ be_bytes 8 tier_index); state = word_of_nat (be_nat (take 8 hash))
      in snd (foldl shuffle_step (state, tier) (rev [1..<length tier])))"

section \<open>Announcing over HTTP\<close>

definition decode_info_hash :: "bt_ext \<Rightarrow> torrent_v1 \<Rightarrow> bytes result" where
  "decode_info_hash X t =
     and_then (case cx_hex_decode (bx_cdc X) (tv_info_hash_sha1 t) of Inl e \<Rightarrow> Inl (Bail ''decode torrent info-hash'') | Inr bs \<Rightarrow> Inr bs)
       (\<lambda>bs. bail_if (length bs \<noteq> 20) ''torrent info-hash must be 20 bytes'' (Inr bs))"

definition tracker_key :: "bt_ext \<Rightarrow> bytes \<Rightarrow> u32" where
  "tracker_key X peer_id = word_of_nat (be_nat (take 4 (bx_sha1 X peer_id)))"

definition percent_encode_bytes :: "bytes \<Rightarrow> string" where
  "percent_encode_bytes bs = (let HEX = ''0123456789ABCDEF''
     in concat (map (\<lambda>b. [CHR ''%'', HEX ! unat (drop_bit 4 b), HEX ! unat (b AND 0x0f)]) bs))"

definition announce_url :: "string \<Rightarrow> bytes \<Rightarrow> bytes \<Rightarrow> u32 \<Rightarrow> u16 \<Rightarrow> tracker_counters \<Rightarrow> tracker_event \<Rightarrow> string" where
  "announce_url tracker info_hash peer_id key port counters event =
     tracker @ (if CHR ''?'' \<in> set tracker then ''&'' else ''?'')
     @ ''info_hash='' @ percent_encode_bytes info_hash @ ''&peer_id='' @ percent_encode_bytes peer_id
     @ ''&port='' @ dec (unat port) @ ''&uploaded='' @ dec (unat (tc_uploaded counters))
     @ ''&downloaded='' @ dec (unat (tc_downloaded counters)) @ ''&left='' @ dec (unat (tc_left counters))
     @ ''&compact=1&numwant=50&key='' @ dec (unat key)
     @ (if event = Update then '''' else ''&event='' @ http_name event)"

definition announce_http ::
    "tracker_ext \<Rightarrow> nat \<Rightarrow> string \<Rightarrow> torrent_v1 \<Rightarrow> bytes \<Rightarrow> u32 \<Rightarrow> u16 \<Rightarrow> tracker_counters \<Rightarrow> tracker_event \<Rightarrow> tracker_response result" where
  "announce_http X k tracker t peer_id key port counters event =
     bail_if (CHR ''#'' \<in> set tracker) ''tracker URL fragments are not supported''
    (and_then (decode_info_hash (tx_bt X) t) (\<lambda>info_hash.
     and_then (tx_http_get X k MAX_TRACKER_RESPONSE_BYTES (announce_url tracker info_hash peer_id key port counters event))
       parse_tracker_response))"

section \<open>Announcing over UDP\<close>

definition transaction_id :: "tracker_ext \<Rightarrow> nat \<Rightarrow> socket_addr \<Rightarrow> bytes \<Rightarrow> string \<Rightarrow> u32 result" where
  "transaction_id X k address peer_id label =
     and_then (case tx_system_time X k address label of Inl e \<Rightarrow> Inl (Bail ''system clock is before Unix epoch'') | Inr now \<Rightarrow> Inr now) (\<lambda>now.
     Inr (word_of_nat (be_nat (take 4
       (bx_sha1 (tx_bt X) (peer_id @ as_bytes label @ be_bytes 16 now @ be_bytes 4 (unat (tx_process_id X))))))))"

definition udp_round_trip :: "tracker_ext \<Rightarrow> nat \<Rightarrow> socket_addr \<Rightarrow> bytes \<Rightarrow> bytes result" where
  "udp_round_trip X k address request =
     and_then (tx_udp_exchange X k address request) (\<lambda>datagram. Inr (take MAX_UDP_RESPONSE_BYTES datagram))"

definition validate_udp_header :: "bytes \<Rightarrow> u32 \<Rightarrow> u32 \<Rightarrow> unit result" where
  "validate_udp_header response expected_transaction expected_action =
     bail_if (length response < 8) ''UDP tracker response is shorter than 8 bytes''
    (let action = be_nat (take 4 response); transaction = be_nat (take 4 (drop 4 response))
     in bail_if (transaction \<noteq> unat expected_transaction) ''UDP tracker returned the wrong transaction ID''
       (bail_if (action = 3) ''UDP tracker failure''
       (bail_if (action \<noteq> unat expected_action) ''UDP tracker returned another action'' (Inr ()))))"

definition connect_request :: "u32 \<Rightarrow> bytes" where
  "connect_request transaction = be_bytes 8 (unat UDP_PROTOCOL_ID) @ be_bytes 4 0 @ be_bytes 4 (unat transaction)"

definition announce_request ::
    "bytes \<Rightarrow> u32 \<Rightarrow> bytes \<Rightarrow> bytes \<Rightarrow> tracker_counters \<Rightarrow> tracker_event \<Rightarrow> u32 \<Rightarrow> u16 \<Rightarrow> bytes" where
  "announce_request connection_id transaction info_hash peer_id counters event key port =
     connection_id @ be_bytes 4 1 @ be_bytes 4 (unat transaction) @ info_hash @ peer_id
     @ be_bytes 8 (unat (tc_downloaded counters)) @ be_bytes 8 (unat (tc_left counters)) @ be_bytes 8 (unat (tc_uploaded counters))
     @ be_bytes 4 (unat (udp_value event)) @ be_bytes 4 0 @ be_bytes 4 (unat key) @ be_bytes 4 50 @ be_bytes 2 (unat port)"

definition is_ipv4 :: "socket_addr \<Rightarrow> bool" where
  "is_ipv4 address = (case fst address of V4 _ \<Rightarrow> True | V6 _ \<Rightarrow> False)"

definition parse_udp_announce :: "socket_addr \<Rightarrow> u32 \<Rightarrow> bytes \<Rightarrow> tracker_response result" where
  "parse_udp_announce address transaction response =
     and_then (validate_udp_header response transaction 1) (\<lambda>_.
     bail_if (length response < 20) ''UDP tracker announce response is shorter than 20 bytes''
    (let interval = word_of_nat (be_nat (take 4 (drop 8 response))) :: u64; compact = drop 20 response;
         stride = if is_ipv4 address then 6 else 18
     in bail_if (length compact mod stride \<noteq> 0) ''UDP tracker peer payload has an invalid length''
       (bail_if (MAX_TRACKER_PEERS < length compact div stride) ''UDP tracker response exceeds the peer safety limit''
       (let family = if is_ipv4 address then V4 else V6
        in Inr \<lparr>tr_interval = interval,
             tr_peers = filter (\<lambda>(_, port). port \<noteq> 0) (map (compact_peer family) (chunks_exact stride compact)),
             tr_warning_message = None\<rparr>))))"

definition announce_udp_address ::
    "tracker_ext \<Rightarrow> nat \<Rightarrow> torrent_v1 \<Rightarrow> bytes \<Rightarrow> u32 \<Rightarrow> u16 \<Rightarrow> tracker_counters \<Rightarrow> tracker_event \<Rightarrow> socket_addr \<Rightarrow> tracker_response result" where
  "announce_udp_address X k t peer_id key port counters event address =
     and_then (tx_udp_connect X k address) (\<lambda>_.
     and_then (transaction_id X k address peer_id ''connect'') (\<lambda>connect_transaction.
     and_then (udp_round_trip X k address (connect_request connect_transaction)) (\<lambda>connect_response.
     and_then (validate_udp_header connect_response connect_transaction 0) (\<lambda>_.
     bail_if (length connect_response < 16) ''UDP tracker connect response is shorter than 16 bytes''
    (let connection_id = take 8 (drop 8 connect_response)
     in and_then (transaction_id X k address peer_id ''announce'') (\<lambda>announce_transaction.
        and_then (decode_info_hash (tx_bt X) t) (\<lambda>info_hash.
        and_then (udp_round_trip X k address
            (announce_request connection_id announce_transaction info_hash peer_id counters event key port))
          (parse_udp_announce address announce_transaction))))))))"

text \<open>The addresses are tried in turn until one answers.\<close>

fun first_ok :: "('a \<Rightarrow> 'b result) \<Rightarrow> string \<Rightarrow> 'a list \<Rightarrow> 'b result" where
  "first_ok f failure [] = Inl (Bail failure)"
| "first_ok f failure (x # xs) = (case f x of Inr y \<Rightarrow> Inr y | Inl _ \<Rightarrow> first_ok f failure xs)"

definition announce_udp ::
    "tracker_ext \<Rightarrow> nat \<Rightarrow> string \<Rightarrow> torrent_v1 \<Rightarrow> bytes \<Rightarrow> u32 \<Rightarrow> u16 \<Rightarrow> tracker_counters \<Rightarrow> tracker_event \<Rightarrow> tracker_response result" where
  "announce_udp X k tracker t peer_id key port counters event =
     and_then (case tx_url_parse X tracker of Inl e \<Rightarrow> Inl (Bail ''parse UDP tracker URL'') | Inr url \<Rightarrow> Inr url) (\<lambda>parsed.
     bail_if (uu_username parsed \<noteq> [] \<or> uu_password parsed \<noteq> None) ''UDP tracker URL credentials require an unsupported extension''
    (bail_if (uu_query parsed \<noteq> None) ''UDP tracker query extensions are not supported by ShardMeld 1.1''
    (bail_if (uu_fragment parsed \<noteq> None) ''UDP tracker URL fragments are not supported''
    (bail_if (uu_path parsed \<notin> {'''', ''/'', ''/announce''}) ''UDP tracker paths other than /announce require BEP 41 extensions''
    (and_then (ok_or (uu_host parsed) (Bail ''UDP tracker URL has no host'')) (\<lambda>host.
     and_then (ok_or (uu_port parsed) (Bail ''UDP tracker URL has no port'')) (\<lambda>tracker_port.
     and_then (case tx_resolve X k host tracker_port of Inl e \<Rightarrow> Inl (Bail ''resolve UDP tracker host'') | Inr as \<Rightarrow> Inr as) (\<lambda>addresses.
     bail_if (addresses = []) ''UDP tracker host resolved to no addresses''
    (first_ok (announce_udp_address X k t peer_id key port counters event) ''all UDP tracker addresses failed'' addresses)))))))))"

section \<open>Announcing\<close>

fun scheme_of :: "string \<Rightarrow> string option" where
  "scheme_of [] = None"
| "scheme_of (c # s) = (if strip_prefix ''://'' (c # s) \<noteq> None then Some [] else map_option (\<lambda>a. c # a) (scheme_of s))"

definition announce ::
    "tracker_ext \<Rightarrow> nat \<Rightarrow> string \<Rightarrow> torrent_v1 \<Rightarrow> bytes \<Rightarrow> u32 \<Rightarrow> u16 \<Rightarrow> tracker_counters \<Rightarrow> tracker_event \<Rightarrow> tracker_response result" where
  "announce X k tracker t peer_id key port counters event =
     and_then (ok_or (map_option to_ascii_lowercase (scheme_of tracker)) (Bail ''tracker URL has no scheme'')) (\<lambda>scheme.
     if scheme = ''http'' \<or> scheme = ''https'' then announce_http X k tracker t peer_id key port counters event
     else if scheme = ''udp'' then announce_udp X k tracker t peer_id key port counters event
     else Inl (Bail ''unsupported tracker scheme''))"

definition lifecycle_attempt :: "string \<Rightarrow> tracker_event \<Rightarrow> tracker_response result \<Rightarrow> bt_tracker_lifecycle_attempt" where
  "lifecycle_attempt tracker event answer = (case answer of
      Inr response \<Rightarrow> successful_lifecycle_attempt tracker event response
    | Inl e \<Rightarrow> failed_lifecycle_attempt tracker event e)"

text \<open>One announcement after the other, from moment \<open>k\<close> on.\<close>

definition announce_tracker_event ::
    "tracker_ext \<Rightarrow> nat \<Rightarrow> string list \<Rightarrow> torrent_v1 \<Rightarrow> bytes \<Rightarrow> u32 \<Rightarrow> u16 \<Rightarrow> tracker_counters \<Rightarrow> tracker_event
       \<Rightarrow> bt_tracker_lifecycle_attempt list" where
  "announce_tracker_event X k trackers t peer_id key port counters event =
     map (\<lambda>(i, tracker). lifecycle_attempt (redact_tracker_url tracker) event
       (announce X i tracker t peer_id key port counters event)) (enumerate k trackers)"

end
