(* ===== verification/Bt_Tracker_Sessions.thy ===== *)
theory Bt_Tracker_Sessions
  imports Bt_Tracker
begin

text \<open>
  What is done with trackers over time, in \<open>crates/meld-core/src/bt_tracker.rs\<close>: the download that goes
  through the tiers, and a seeder's start, heartbeat and stop. All of it threads the moment, the number of
  announcements made.
\<close>

section \<open>Looking for peers\<close>

record bt_tracker_attempt =
  ta_peer :: socket_addr
  ta_connected :: bool
  ta_remote_peer_id_hex :: "string option"
  ta_pieces_verified :: u64
  ta_verified_piece_indices :: "u32 list"
  ta_block_requests_sent :: u64
  ta_payload_bytes_received :: u64
  ta_cancel_messages_sent :: u64
  ta_endgame_jobs_cancelled :: u64
  ta_error :: "error option"

record peer_candidate =
  pc_peer :: socket_addr
  pc_tracker :: string
  pc_interval :: u64
  pc_warning :: "string option"

record bt_tracker_fetch_report =
  tf_tracker :: string
  tf_tracker_interval_seconds :: u64
  tf_tracker_warning :: "string option"
  tf_tracker_attempts :: "bt_discovery_attempt list"
  tf_tracker_lifecycle :: "bt_tracker_lifecycle_attempt list"
  tf_peers_discovered :: u64
  tf_peers_attempted :: "bt_tracker_attempt list"
  tf_selected_peer :: socket_addr
  tf_transfer :: bt_peer_fetch_report
  tf_output :: string
  tf_verified :: bool

text \<open>What the loop over the tiers keeps; the sets of peers are lists without repetitions.\<close>

record tier_state =
  ts_moment :: nat
  ts_attempts :: "bt_discovery_attempt list"
  ts_lifecycle :: "bt_tracker_lifecycle_attempt list"
  ts_peer_attempts :: "bt_tracker_attempt list"
  ts_discovered :: "socket_addr list"
  ts_tried :: "socket_addr list"

text \<open>The trackers of one tier, each asked in turn: what the tier has given, the trackers that took the start and the candidates.\<close>

definition insert_peer :: "socket_addr list \<Rightarrow> socket_addr \<Rightarrow> socket_addr list" where
  "insert_peer seen peer = (if peer \<in> set seen then seen else seen @ [peer])"

definition ask_tracker ::
    "tracker_ext \<Rightarrow> torrent_v1 \<Rightarrow> bytes \<Rightarrow> u32 \<Rightarrow> u16 \<Rightarrow> u64 \<Rightarrow> nat
       \<Rightarrow> tier_state \<times> string list \<times> peer_candidate list \<Rightarrow> string \<Rightarrow> tier_state \<times> string list \<times> peer_candidate list" where
  "ask_tracker X t peer_id key announce_port missing tier_index acc tracker = (case acc of (s, active_trackers, candidates) \<Rightarrow>
     let display = redact_tracker_url tracker;
         answer = announce X (ts_moment s) tracker t peer_id key announce_port (new_tracker_counters 0 missing 0) Started;
         s = s\<lparr>ts_moment := ts_moment s + 1, ts_lifecycle := ts_lifecycle s @ [lifecycle_attempt display Started answer]\<rparr>
     in case answer of
          Inr response \<Rightarrow>
            if length (tr_peers response) \<le> MAX_TRACKER_PEERS then
              (s\<lparr>ts_attempts := ts_attempts s @ [\<lparr>da_tier = word_of_nat tier_index, da_tracker = display,
                    da_peers_returned = word_of_nat (length (tr_peers response)),
                    da_interval_seconds = Some (tr_interval response), da_error = None\<rparr>],
                 ts_discovered := foldl insert_peer (ts_discovered s) (tr_peers response)\<rparr>,
               active_trackers @ [tracker],
               candidates @ map (\<lambda>peer. \<lparr>pc_peer = peer, pc_tracker = display, pc_interval = tr_interval response,
                  pc_warning = tr_warning_message response\<rparr>) (tr_peers response))
            else
              (s\<lparr>ts_attempts := ts_attempts s @ [\<lparr>da_tier = word_of_nat tier_index, da_tracker = display,
                    da_peers_returned = word_of_nat (length (tr_peers response)),
                    da_interval_seconds = Some (tr_interval response),
                    da_error = Some (Bail ''tracker peer count exceeds the safety limit'')\<rparr>]\<rparr>,
               active_trackers @ [tracker], candidates)
        | Inl e \<Rightarrow>
            (s\<lparr>ts_attempts := ts_attempts s @ [\<lparr>da_tier = word_of_nat tier_index, da_tracker = display,
                  da_peers_returned = 0, da_interval_seconds = None, da_error = Some e\<rparr>]\<rparr>,
             active_trackers, candidates))"

text \<open>\<open>filter(|candidate| tried_peers.insert(candidate.peer))\<close>.\<close>

fun untried :: "socket_addr list \<Rightarrow> peer_candidate list \<Rightarrow> peer_candidate list \<times> socket_addr list" where
  "untried tried [] = ([], tried)"
| "untried tried (c # cs) =
     (if pc_peer c \<in> set tried then untried tried cs
      else case untried (tried @ [pc_peer c]) cs of (kept, tried) \<Rightarrow> (c # kept, tried))"

definition attempt_of :: "error option \<Rightarrow> bt_peer_worker_report \<Rightarrow> bt_tracker_attempt" where
  "attempt_of otherwise w =
     \<lparr>ta_peer = wr_peer w, ta_connected = (wr_remote_peer_id_hex w \<noteq> None), ta_remote_peer_id_hex = wr_remote_peer_id_hex w,
      ta_pieces_verified = wr_pieces_verified w, ta_verified_piece_indices = wr_verified_piece_indices w,
      ta_block_requests_sent = wr_block_requests_sent w, ta_payload_bytes_received = wr_payload_bytes_received w,
      ta_cancel_messages_sent = wr_cancel_messages_sent w, ta_endgame_jobs_cancelled = wr_endgame_jobs_cancelled w,
      ta_error = (case wr_error w of Some e \<Rightarrow> Some e | None \<Rightarrow> otherwise)\<rparr>"

text \<open>
  What \<open>fetch_v1_from_peers_with_peer_id\<close> does with some peers at some moment: its result and the reports of
  its workers.
\<close>

type_synonym transfer = "nat \<Rightarrow> socket_addr list \<Rightarrow> bt_peer_fetch_report result \<times> bt_peer_worker_report list"

definition announce_all ::
    "tracker_ext \<Rightarrow> torrent_v1 \<Rightarrow> bytes \<Rightarrow> u32 \<Rightarrow> u16 \<Rightarrow> string list \<Rightarrow> tracker_counters \<Rightarrow> tracker_event \<Rightarrow> tier_state \<Rightarrow> tier_state" where
  "announce_all X t peer_id key announce_port trackers counters event s =
     s\<lparr>ts_moment := ts_moment s + length trackers,
       ts_lifecycle := ts_lifecycle s @ announce_tracker_event X (ts_moment s) trackers t peer_id key announce_port counters event\<rparr>"

text \<open>One tier: \<open>Inl\<close> is the end of the whole search, \<open>Inr\<close> goes on with the next tier.\<close>

definition search_tier ::
    "tracker_ext \<Rightarrow> transfer \<Rightarrow> torrent_v1 \<Rightarrow> bytes \<Rightarrow> u32 \<Rightarrow> u16 \<Rightarrow> u64 \<Rightarrow> string \<Rightarrow> tier_state \<Rightarrow> nat \<times> string list
       \<Rightarrow> (bt_tracker_fetch_report result \<times> tier_state) + tier_state" where
  "search_tier X transfer t peer_id key announce_port missing output_path s entry = (case entry of (tier_index, tier) \<Rightarrow>
     case foldl (ask_tracker X t peer_id key announce_port missing tier_index) (s, [], [])
            (shuffled_tier (tx_bt X) tier peer_id tier_index) of (s, active_trackers, found) \<Rightarrow>
     case untried (ts_tried s) found of (candidates, tried) \<Rightarrow>
     let s = s\<lparr>ts_tried := tried\<rparr> in
     case transfer (ts_moment s) (map pc_peer candidates) of
       (Inr report, workers) \<Rightarrow>
         let s = s\<lparr>ts_peer_attempts := ts_peer_attempts s @ map (attempt_of None) workers\<rparr>
         in (case (case find (\<lambda>c. pc_peer c = fr_peer report) candidates of Some c \<Rightarrow> Some c
                | None \<Rightarrow> (case candidates of [] \<Rightarrow> None | c # _ \<Rightarrow> Some c)) of
              None \<Rightarrow> Inl (Inl (Bail ''successful BT transfer had no tracker candidate''), s)
            | Some selected \<Rightarrow>
                let counters = new_tracker_counters (fr_network_payload_bytes report) 0 0;
                    s = (if 0 < missing then announce_all X t peer_id key announce_port active_trackers counters Completed s else s);
                    s = announce_all X t peer_id key announce_port active_trackers counters Stopped s
                in Inl (Inr \<lparr>tf_tracker = pc_tracker selected, tf_tracker_interval_seconds = pc_interval selected,
                     tf_tracker_warning = pc_warning selected, tf_tracker_attempts = ts_attempts s,
                     tf_tracker_lifecycle = ts_lifecycle s, tf_peers_discovered = word_of_nat (length (ts_discovered s)),
                     tf_peers_attempted = ts_peer_attempts s, tf_selected_peer = fr_peer report, tf_transfer = report,
                     tf_output = output_path, tf_verified = fr_verified report\<rparr>, s))
     | (Inl e, workers) \<Rightarrow>
         let s = s\<lparr>ts_peer_attempts := ts_peer_attempts s @ map (attempt_of (Some e)) workers\<rparr>
         in Inr (announce_all X t peer_id key announce_port active_trackers (new_tracker_counters 0 missing 0) Stopped s))"

fun search_tiers ::
    "tracker_ext \<Rightarrow> transfer \<Rightarrow> torrent_v1 \<Rightarrow> bytes \<Rightarrow> u32 \<Rightarrow> u16 \<Rightarrow> u64 \<Rightarrow> string \<Rightarrow> tier_state \<Rightarrow> (nat \<times> string list) list
       \<Rightarrow> bt_tracker_fetch_report result \<times> tier_state" where
  "search_tiers X transfer t peer_id key announce_port missing output_path s [] =
     (Inl (Bail ''tracker discovery exhausted without a working peer''), s)"
| "search_tiers X transfer t peer_id key announce_port missing output_path s (entry # entries) =
     (case search_tier X transfer t peer_id key announce_port missing output_path s entry of
        Inl outcome \<Rightarrow> outcome
      | Inr s \<Rightarrow> search_tiers X transfer t peer_id key announce_port missing output_path s entries)"

definition initial_tier_state :: tier_state where
  "initial_tier_state = \<lparr>ts_moment = 0, ts_attempts = [], ts_lifecycle = [], ts_peer_attempts = [], ts_discovered = [], ts_tried = []\<rparr>"

definition fetch_v1_via_tracker ::
    "tracker_ext \<Rightarrow> transfer \<Rightarrow> index_db \<Rightarrow> file_system \<Rightarrow> bytes result \<Rightarrow> torrent_v1 \<Rightarrow> target_descriptor \<Rightarrow> string option \<Rightarrow> u16 \<Rightarrow> string
       \<Rightarrow> bt_tracker_fetch_report result \<times> tier_state" where
  "fetch_v1_via_tracker X transfer db fs new_peer_id t d tracker_override announce_port output_path =
     (case and_then (tracker_tiers t tracker_override) (\<lambda>tiers.
          and_then (plan_v1_bridge (tx_bt X) db fs t d) (\<lambda>bridge.
          and_then new_peer_id (\<lambda>peer_id. Inr (tiers, bridge, peer_id)))) of
        Inl e \<Rightarrow> (Inl e, initial_tier_state)
      | Inr (tiers, bridge, peer_id) \<Rightarrow>
          search_tiers X transfer t peer_id (tracker_key (tx_bt X) peer_id) announce_port (br_missing_bytes bridge) output_path
            initial_tier_state (enumerate 0 tiers))"

section \<open>A seeder's trackers\<close>

record seed_tracker_session =
  st_tracker :: string
  st_interval :: nat
  st_next_announce :: nat

text \<open>Seconds; clocks are nanoseconds.\<close>

definition tracker_interval :: "u64 \<Rightarrow> nat" where
  "tracker_interval seconds = unat (max seconds 1)"

text \<open>
  Instants are nanoseconds without an upper bound; the sum of the standard library panics on an interval of some
  hundred years.
\<close>

definition next_announce :: "nat \<Rightarrow> nat \<Rightarrow> nat" where
  "next_announce now interval = now + interval * 1000000000"

record seed_start =
  ss_moment :: nat
  ss_active :: "seed_tracker_session list"
  ss_attempts :: "bt_tracker_lifecycle_attempt list"
  ss_seen :: "string list"

text \<open>The trackers of a tier until one takes the start.\<close>

fun start_tier :: "tracker_ext \<Rightarrow> torrent_v1 \<Rightarrow> bytes \<Rightarrow> u32 \<Rightarrow> u16 \<Rightarrow> seed_start \<Rightarrow> string list \<Rightarrow> seed_start" where
  "start_tier X t peer_id key port s [] = s"
| "start_tier X t peer_id key port s (tracker # rest) =
     (if tracker \<in> set (ss_seen s) then start_tier X t peer_id key port s rest
      else
        let answer = announce X (ss_moment s) tracker t peer_id key port (new_tracker_counters 0 0 0) Started;
            attempt = lifecycle_attempt (redact_tracker_url tracker) Started answer;
            s = s\<lparr>ss_seen := tracker # ss_seen s, ss_attempts := ss_attempts s @ [attempt], ss_moment := ss_moment s + 1\<rparr>
        in case answer of
             Inr response \<Rightarrow>
               let interval = tracker_interval (tr_interval response)
               in s\<lparr>ss_active := ss_active s @ [\<lparr>st_tracker = tracker, st_interval = interval,
                     st_next_announce = next_announce (tx_instant X (ss_moment s)) interval\<rparr>]\<rparr>
           | Inl _ \<Rightarrow> start_tier X t peer_id key port s rest)"

definition start_seed_trackers ::
    "tracker_ext \<Rightarrow> torrent_v1 \<Rightarrow> bytes \<Rightarrow> u16 \<Rightarrow> seed_start" where
  "start_seed_trackers X t peer_id port =
     foldl (\<lambda>s (tier_index, tier). start_tier X t peer_id (tracker_key (tx_bt X) peer_id) port s (shuffled_tier (tx_bt X) tier peer_id tier_index))
       \<lparr>ss_moment = 0, ss_active = [], ss_attempts = [], ss_seen = []\<rparr> (enumerate 0 (torrent_tiers t))"

definition stop_seed_trackers ::
    "tracker_ext \<Rightarrow> nat \<Rightarrow> seed_tracker_session list \<Rightarrow> torrent_v1 \<Rightarrow> bytes \<Rightarrow> u16 \<Rightarrow> u64 \<Rightarrow> bt_tracker_lifecycle_attempt list" where
  "stop_seed_trackers X k trackers t peer_id port uploaded =
     announce_tracker_event X k (map st_tracker trackers) t peer_id (tracker_key (tx_bt X) peer_id) port
       (new_tracker_counters 0 0 uploaded) Stopped"

text \<open>The sessions that are due at \<open>now\<close> are announced in turn, with the bytes uploaded at that moment.\<close>

fun heartbeat_round ::
    "tracker_ext \<Rightarrow> torrent_v1 \<Rightarrow> bytes \<Rightarrow> u16 \<Rightarrow> nat \<Rightarrow> nat \<Rightarrow> seed_tracker_session list
       \<Rightarrow> nat \<times> seed_tracker_session list \<times> bt_tracker_lifecycle_attempt list" where
  "heartbeat_round X t peer_id port now k [] = (k, [], [])"
| "heartbeat_round X t peer_id port now k (session # sessions) =
     (if st_next_announce session \<le> now then
        let answer = announce X k (st_tracker session) t peer_id (tracker_key (tx_bt X) peer_id) port
              (new_tracker_counters 0 0 (tx_uploaded X k)) Update;
            interval = (case answer of Inr response \<Rightarrow> tracker_interval (tr_interval response) | Inl _ \<Rightarrow> st_interval session);
            session = session\<lparr>st_interval := interval, st_next_announce := next_announce (tx_instant X (k + 1)) interval\<rparr>
        in (case heartbeat_round X t peer_id port now (k + 1) sessions of (k', sessions, attempts) \<Rightarrow>
             (k', session # sessions, lifecycle_attempt (redact_tracker_url (st_tracker session)) Update answer # attempts))
      else (case heartbeat_round X t peer_id port now k sessions of (k', sessions, attempts) \<Rightarrow> (k', session # sessions, attempts)))"

text \<open>
  The thread of the heartbeat. Every iteration looks at the stop flag and the clock; before the next
  announcement is due it only sleeps.
\<close>

fun heartbeat ::
    "tracker_ext \<Rightarrow> torrent_v1 \<Rightarrow> bytes \<Rightarrow> u16 \<Rightarrow> nat \<Rightarrow> seed_tracker_session list \<Rightarrow> (bool \<times> nat) list
       \<Rightarrow> bt_tracker_lifecycle_attempt list" where
  "heartbeat X t peer_id port k sessions [] = []"
| "heartbeat X t peer_id port k sessions ((stop, now) # seen) =
     (if stop then []
      else if now < Min (st_next_announce ` set sessions) then heartbeat X t peer_id port k sessions seen
      else case heartbeat_round X t peer_id port now k sessions of (k, sessions, attempts) \<Rightarrow>
        attempts @ heartbeat X t peer_id port k sessions seen)"

definition start_heartbeat ::
    "tracker_ext \<Rightarrow> torrent_v1 \<Rightarrow> bytes \<Rightarrow> u16 \<Rightarrow> nat \<Rightarrow> seed_tracker_session list \<Rightarrow> (bool \<times> nat) list
       \<Rightarrow> bt_tracker_lifecycle_attempt list option" where
  "start_heartbeat X t peer_id port k sessions seen =
     (if sessions = [] then None else Some (heartbeat X t peer_id port k sessions seen))"

end
