(* ===== verification/Bt_Seed_Service.thy ===== *)
theory Bt_Seed_Service
  imports Bt_Seed Bt_Tracker_Sessions Meld_Capabilities
begin

text \<open>
  The seeders of \<open>crates/meld-core/src/bt_seed.rs\<close> around their connections: the loop that accepts peers and
  collects what the connection threads report, and the entry points that check the source, bind, announce to
  the trackers and hand over to the loop. The two loops of the source file, for a file and for an index,
  differ only in the record of the report; \<open>listener_step\<close> is their common relation, one step per call of
  \<open>try_recv\<close>, \<open>recv\<close> or \<open>accept\<close>, interleaved with connections that end.
\<close>

section \<open>Reports\<close>

definition MAX_ACTIVE_UPLOAD_CONNECTIONS :: nat where
  "MAX_ACTIVE_UPLOAD_CONNECTIONS = 4"

text \<open>The fields that both reports have, and those of each.\<close>

record seed_report =
  sr_report_format :: string
  sr_report_version :: u32
  sr_engine_version :: string
  sr_bind :: socket_addr
  sr_info_hash_sha1 :: string
  sr_advertised_pieces :: u64
  sr_connections :: u64
  sr_successful_handshakes :: u64
  sr_block_requests :: u64
  sr_payload_bytes_sent :: u64
  sr_cancel_messages_received :: u64
  sr_protocol_errors :: u64
  sr_concurrent_connection_limit :: u64
  sr_peak_concurrent_connections :: u64
  sr_upload_rate_limit_bytes_per_second :: "u64 option"
  sr_upload_scheduler :: string
  sr_upload_throttle_wait_micros :: u64
  sr_shutdown_requested :: bool
  sr_tracker_announces :: "bt_tracker_lifecycle_attempt list"

record bt_seed_report = seed_report +
  sr_source :: string
  sr_source_sha256 :: string
  sr_source_verified :: bool

record bt_index_seed_report = seed_report +
  sr_index_db :: string
  sr_target_sha256 :: string
  sr_total_pieces :: u64
  sr_advertised_piece_bytes :: u64
  sr_preflight_locally_covered_bytes :: u64
  sr_on_demand_local_chunks_read :: u64
  sr_on_demand_local_bytes_read :: u64

record bt_seed_options =
  so_max_connections :: "u64 option"
  so_max_upload_bytes_per_second :: "u64 option"

definition start_file_report ::
    "string \<Rightarrow> torrent_v1 \<Rightarrow> string \<Rightarrow> socket_addr \<Rightarrow> string \<Rightarrow> bt_seed_options \<Rightarrow> bt_seed_report" where
  "start_file_report engine_version t source bind source_sha256 options =
     \<lparr>sr_report_format = REPORT_FORMAT, sr_report_version = REPORT_VERSION, sr_engine_version = engine_version, sr_bind = bind,
      sr_info_hash_sha1 = tv_info_hash_sha1 t, sr_advertised_pieces = word_of_nat (length (tv_piece_sha1 t)),
      sr_connections = 0, sr_successful_handshakes = 0, sr_block_requests = 0, sr_payload_bytes_sent = 0,
      sr_cancel_messages_received = 0, sr_protocol_errors = 0,
      sr_concurrent_connection_limit = word_of_nat MAX_ACTIVE_UPLOAD_CONNECTIONS, sr_peak_concurrent_connections = 0,
      sr_upload_rate_limit_bytes_per_second = so_max_upload_bytes_per_second options,
      sr_upload_scheduler = upload_scheduler_name (so_max_upload_bytes_per_second options),
      sr_upload_throttle_wait_micros = 0, sr_shutdown_requested = False, sr_tracker_announces = [],
      sr_source = source, sr_source_sha256 = source_sha256, sr_source_verified = True\<rparr>"

definition start_index_report ::
    "string \<Rightarrow> torrent_v1 \<Rightarrow> target_descriptor \<Rightarrow> string \<Rightarrow> socket_addr \<Rightarrow> bt_bridge_report \<Rightarrow> bt_seed_options \<Rightarrow> bt_index_seed_report" where
  "start_index_report engine_version t d index_db bind plan options =
     \<lparr>sr_report_format = REPORT_FORMAT, sr_report_version = REPORT_VERSION, sr_engine_version = engine_version, sr_bind = bind,
      sr_info_hash_sha1 = tv_info_hash_sha1 t, sr_advertised_pieces = br_fully_local_pieces plan,
      sr_connections = 0, sr_successful_handshakes = 0, sr_block_requests = 0, sr_payload_bytes_sent = 0,
      sr_cancel_messages_received = 0, sr_protocol_errors = 0,
      sr_concurrent_connection_limit = word_of_nat MAX_ACTIVE_UPLOAD_CONNECTIONS, sr_peak_concurrent_connections = 0,
      sr_upload_rate_limit_bytes_per_second = so_max_upload_bytes_per_second options,
      sr_upload_scheduler = upload_scheduler_name (so_max_upload_bytes_per_second options),
      sr_upload_throttle_wait_micros = 0, sr_shutdown_requested = False, sr_tracker_announces = [],
      sr_index_db = index_db, sr_target_sha256 = ti_sha256 (td_target d), sr_total_pieces = br_total_pieces plan,
      sr_advertised_piece_bytes = br_fully_reconstructable_piece_bytes plan,
      sr_preflight_locally_covered_bytes = br_locally_covered_bytes plan,
      sr_on_demand_local_chunks_read = 0, sr_on_demand_local_bytes_read = 0\<rparr>"

section \<open>Merging connections\<close>

text \<open>
  A finished connection is the session it leaves, whose counters are the connection's statistics, and its
  error. The error ends the service only when a single connection was asked for.
\<close>

type_synonym finished = "seed_session \<times> error option"

definition merge_counters :: "seed_session \<Rightarrow> 'z seed_report_scheme \<Rightarrow> 'z seed_report_scheme" where
  "merge_counters S report = report\<lparr>
     sr_successful_handshakes := sr_successful_handshakes report + sn_successful_handshakes S,
     sr_block_requests := sr_block_requests report + sn_block_requests S,
     sr_payload_bytes_sent := sr_payload_bytes_sent report + sn_payload_bytes_sent S,
     sr_cancel_messages_received := sr_cancel_messages_received report + sn_cancel_messages_received S,
     sr_upload_throttle_wait_micros := sr_upload_throttle_wait_micros report + sn_upload_throttle_wait_micros S\<rparr>"

definition merge_error ::
    "u64 option \<Rightarrow> error option \<Rightarrow> 'z seed_report_scheme \<times> error option \<Rightarrow> 'z seed_report_scheme \<times> error option" where
  "merge_error max_connections failed acc = (case acc of (report, fatal_error) \<Rightarrow>
     case failed of
       None \<Rightarrow> (report, fatal_error)
     | Some e \<Rightarrow> (report\<lparr>sr_protocol_errors := sr_protocol_errors report + 1\<rparr>,
         if max_connections = Some 1 \<and> fatal_error = None then Some e else fatal_error))"

definition merge_file_connection ::
    "u64 option \<Rightarrow> finished \<Rightarrow> bt_seed_report \<times> error option \<Rightarrow> bt_seed_report \<times> error option" where
  "merge_file_connection max_connections result acc = (case result of (S, failed) \<Rightarrow> case acc of (report, fatal_error) \<Rightarrow>
     merge_error max_connections failed (merge_counters S report, fatal_error))"

definition merge_index_connection ::
    "u64 option \<Rightarrow> finished \<Rightarrow> bt_index_seed_report \<times> error option \<Rightarrow> bt_index_seed_report \<times> error option" where
  "merge_index_connection max_connections result acc = (case result of (S, failed) \<Rightarrow> case acc of (report, fatal_error) \<Rightarrow>
     let report = merge_counters S report in
     merge_error max_connections failed (report\<lparr>
       sr_on_demand_local_chunks_read := sr_on_demand_local_chunks_read report + sn_on_demand_local_chunks_read S,
       sr_on_demand_local_bytes_read := sr_on_demand_local_bytes_read report + sn_on_demand_local_bytes_read S\<rparr>, fatal_error))"

section \<open>The accept loop\<close>

text \<open>
  The connections that still run, those whose results wait in the channel, and (for the record) those that
  have been merged. \<open>li_outcome\<close> is set when the loop has been left and all connections have been joined, or
  when \<open>accept\<close> has failed.
\<close>

record 'r listener =
  li_report :: 'r
  li_fatal_error :: "error option"
  li_active :: nat
  li_running :: nat
  li_channel :: "finished list"
  li_merged :: "finished list"
  li_draining :: bool
  li_outcome :: "'r result option"

definition initial_listener :: "'r \<Rightarrow> 'r listener" where
  "initial_listener report = \<lparr>li_report = report, li_fatal_error = None, li_active = 0, li_running = 0, li_channel = [],
     li_merged = [], li_draining = False, li_outcome = None\<rparr>"

definition must_stop :: "u64 option \<Rightarrow> bool \<Rightarrow> 'z seed_report_scheme listener \<Rightarrow> bool" where
  "must_stop max_connections shutdown L \<longleftrightarrow> li_fatal_error L \<noteq> None \<or> shutdown
     \<or> (case max_connections of Some limit \<Rightarrow> limit \<le> sr_connections (li_report L) | None \<Rightarrow> False)"

definition count_seed_connection :: "'z seed_report_scheme listener \<Rightarrow> 'z seed_report_scheme listener" where
  "count_seed_connection L = (let report = li_report L; active = li_active L + 1 in
     L\<lparr>li_active := active, li_running := li_running L + 1,
       li_report := report\<lparr>sr_connections := sr_connections report + 1,
         sr_peak_concurrent_connections := max (sr_peak_concurrent_connections report) (word_of_nat active)\<rparr>\<rparr>)"

text \<open>
  The errors of setting the timeouts of an accepted connection, which end the loop, are not told from those of
  accepting one (\<open>accept_fails\<close>): in both cases the report is lost.
\<close>

inductive listener_step ::
    "(finished \<Rightarrow> 'z seed_report_scheme \<times> error option \<Rightarrow> 'z seed_report_scheme \<times> error option) \<Rightarrow> u64 option
       \<Rightarrow> 'z seed_report_scheme listener \<Rightarrow> 'z seed_report_scheme listener \<Rightarrow> bool"
  for merge max_connections where
  ends: "0 < li_running L \<Longrightarrow>
    listener_step merge max_connections L (L\<lparr>li_running := li_running L - 1, li_channel := li_channel L @ [result]\<rparr>)"
| receive: "li_outcome L = None \<Longrightarrow> li_channel L = result # rest \<Longrightarrow> merge result (li_report L, li_fatal_error L) = (report, fatal_error) \<Longrightarrow>
    listener_step merge max_connections L (L\<lparr>li_channel := rest, li_active := li_active L - 1, li_report := report,
      li_fatal_error := fatal_error, li_merged := li_merged L @ [result]\<rparr>)"
| accept: "li_outcome L = None \<Longrightarrow> \<not> li_draining L \<Longrightarrow> \<not> must_stop max_connections False L \<Longrightarrow> li_active L < MAX_ACTIVE_UPLOAD_CONNECTIONS \<Longrightarrow>
    listener_step merge max_connections L (count_seed_connection L)"
| accept_fails: "li_outcome L = None \<Longrightarrow> \<not> li_draining L \<Longrightarrow> \<not> must_stop max_connections False L \<Longrightarrow> li_active L < MAX_ACTIVE_UPLOAD_CONNECTIONS \<Longrightarrow>
    listener_step merge max_connections L (L\<lparr>li_outcome := Some (Inl e)\<rparr>)"
| stop: "li_outcome L = None \<Longrightarrow> \<not> li_draining L \<Longrightarrow> must_stop max_connections shutdown L \<Longrightarrow>
    listener_step merge max_connections L (L\<lparr>li_draining := True\<rparr>)"
| finish: "li_outcome L = None \<Longrightarrow> li_draining L \<Longrightarrow> li_active L = 0 \<Longrightarrow>
    listener_step merge max_connections L (L\<lparr>li_outcome := Some (case li_fatal_error L of
      Some e \<Rightarrow> Inl e | None \<Rightarrow> Inr (li_report L\<lparr>sr_shutdown_requested := shutdown\<rparr>))\<rparr>)"

inductive_cases listener_stepE: "listener_step merge max_connections L L'"

section \<open>Entry points\<close>

text \<open>
  What lies outside: binding (which gives the local address), the random peer identity, the observations of
  the heartbeat's thread, and the run of the accept loop, from a first report to its outcome and the bytes
  uploaded; \<open>True\<close> when a shutdown flag was given.
\<close>

record 'r seeder_ext =
  sx_tracker :: tracker_ext
  sx_engine_version :: string
  sx_bind :: "socket_addr \<Rightarrow> socket_addr result"
  sx_peer_id :: "bytes result"
  sx_heartbeat :: "(bool \<times> nat) list"
  sx_run :: "bool \<Rightarrow> bytes \<Rightarrow> 'r \<Rightarrow> 'r result \<times> u64"

abbreviation sx_bt :: "'r seeder_ext \<Rightarrow> bt_ext" where
  "sx_bt X \<equiv> tx_bt (sx_tracker X)"

definition is_loopback :: "socket_addr \<Rightarrow> bool" where
  "is_loopback bind = (case fst bind of V4 octets \<Rightarrow> hd octets = 127 | V6 octets \<Rightarrow> octets = replicate 15 0 @ [1])"

text \<open>\<open>UploadLimiter::new\<close> runs before the loop and repeats the check of the rate.\<close>

definition run_listener :: "'z seed_report_scheme seeder_ext \<Rightarrow> bt_seed_options \<Rightarrow> bool \<Rightarrow> bytes \<Rightarrow> 'z seed_report_scheme
    \<Rightarrow> 'z seed_report_scheme result \<times> u64" where
  "run_listener X options has_shutdown peer_id report =
     (case validate_upload_rate (so_max_upload_bytes_per_second options) of
        Inl e \<Rightarrow> (Inl e, 0)
      | Inr _ \<Rightarrow> sx_run X has_shutdown peer_id report)"

text \<open>The trackers around the run of the loop, whatever its outcome.\<close>

definition with_trackers :: "'z seed_report_scheme seeder_ext \<Rightarrow> torrent_v1 \<Rightarrow> bt_seed_options \<Rightarrow> bool \<Rightarrow> bytes
    \<Rightarrow> 'z seed_report_scheme \<Rightarrow> 'z seed_report_scheme result" where
  "with_trackers X t options has_shutdown peer_id report =
     (let port = snd (sr_bind report); start = start_seed_trackers (sx_tracker X) t peer_id port;
          (outcome, uploaded) = run_listener X options has_shutdown peer_id report;
          beats = (case start_heartbeat (sx_tracker X) t peer_id port (ss_moment start) (ss_active start) (sx_heartbeat X) of
             Some attempts \<Rightarrow> attempts | None \<Rightarrow> []);
          stops = stop_seed_trackers (sx_tracker X) (ss_moment start + length beats) (ss_active start) t peer_id port uploaded
      in and_then outcome (\<lambda>report. Inr (report\<lparr>sr_tracker_announces := ss_attempts start @ beats @ stops\<rparr>)))"

definition serve_v1_file_controlled ::
    "bt_seed_report seeder_ext \<Rightarrow> file_system \<Rightarrow> torrent_v1 \<Rightarrow> target_descriptor \<Rightarrow> string \<Rightarrow> socket_addr \<Rightarrow> bool \<Rightarrow> bt_seed_options
       \<Rightarrow> bool \<Rightarrow> bt_seed_report result" where
  "serve_v1_file_controlled X fs t d source bind allow_non_loopback options has_shutdown =
     and_then (validate_upload_rate (so_max_upload_bytes_per_second options)) (\<lambda>_.
     bail_if (\<not> is_loopback bind \<and> \<not> allow_non_loopback) ''refusing non-loopback BT seed bind without --allow-non-loopback''
    (and_then (validate_seed_source (sx_bt X) fs t d source) (\<lambda>source_sha256.
     and_then (sx_bind X bind) (\<lambda>bind.
     and_then (sx_peer_id X) (\<lambda>local_peer_id.
     with_trackers X t options has_shutdown local_peer_id
       (start_file_report (sx_engine_version X) t source bind source_sha256 options))))))"

definition serve_v1_file_with_options ::
    "bt_seed_report seeder_ext \<Rightarrow> file_system \<Rightarrow> torrent_v1 \<Rightarrow> target_descriptor \<Rightarrow> string \<Rightarrow> socket_addr \<Rightarrow> bool \<Rightarrow> bt_seed_options
       \<Rightarrow> bt_seed_report result" where
  "serve_v1_file_with_options X fs t d source bind allow_non_loopback options =
     and_then (validate_upload_rate (so_max_upload_bytes_per_second options)) (\<lambda>_.
     serve_v1_file_controlled X fs t d source bind allow_non_loopback options False)"

definition connections_only :: "u64 option \<Rightarrow> bt_seed_options" where
  "connections_only max_connections = \<lparr>so_max_connections = max_connections, so_max_upload_bytes_per_second = None\<rparr>"

definition serve_v1_file ::
    "bt_seed_report seeder_ext \<Rightarrow> file_system \<Rightarrow> torrent_v1 \<Rightarrow> target_descriptor \<Rightarrow> string \<Rightarrow> socket_addr \<Rightarrow> bool \<Rightarrow> u64 option
       \<Rightarrow> bt_seed_report result" where
  "serve_v1_file X fs t d source bind allow_non_loopback max_connections =
     serve_v1_file_with_options X fs t d source bind allow_non_loopback (connections_only max_connections)"

definition serve_v1_file_until_shutdown_with_options ::
    "bt_seed_report seeder_ext \<Rightarrow> file_system \<Rightarrow> torrent_v1 \<Rightarrow> target_descriptor \<Rightarrow> string \<Rightarrow> socket_addr \<Rightarrow> bool \<Rightarrow> bt_seed_options
       \<Rightarrow> bt_seed_report result" where
  "serve_v1_file_until_shutdown_with_options X fs t d source bind allow_non_loopback options =
     serve_v1_file_controlled X fs t d source bind allow_non_loopback options True"

definition serve_v1_file_until_shutdown ::
    "bt_seed_report seeder_ext \<Rightarrow> file_system \<Rightarrow> torrent_v1 \<Rightarrow> target_descriptor \<Rightarrow> string \<Rightarrow> socket_addr \<Rightarrow> bool \<Rightarrow> u64 option
       \<Rightarrow> bt_seed_report result" where
  "serve_v1_file_until_shutdown X fs t d source bind allow_non_loopback max_connections =
     serve_v1_file_until_shutdown_with_options X fs t d source bind allow_non_loopback (connections_only max_connections)"

text \<open>With a listener that is already bound, and without trackers.\<close>

definition serve_v1_file_listener_with_options ::
    "bt_seed_report seeder_ext \<Rightarrow> file_system \<Rightarrow> socket_addr \<Rightarrow> torrent_v1 \<Rightarrow> target_descriptor \<Rightarrow> string \<Rightarrow> bt_seed_options
       \<Rightarrow> bt_seed_report result" where
  "serve_v1_file_listener_with_options X fs bind t d source options =
     and_then (validate_upload_rate (so_max_upload_bytes_per_second options)) (\<lambda>_.
     and_then (validate_seed_source (sx_bt X) fs t d source) (\<lambda>source_sha256.
     and_then (sx_peer_id X) (\<lambda>local_peer_id.
     fst (run_listener X options False local_peer_id
       (start_file_report (sx_engine_version X) t source bind source_sha256 options)))))"

definition serve_v1_file_listener_until_shutdown_with_options ::
    "bt_seed_report seeder_ext \<Rightarrow> file_system \<Rightarrow> socket_addr \<Rightarrow> torrent_v1 \<Rightarrow> target_descriptor \<Rightarrow> string \<Rightarrow> bt_seed_options
       \<Rightarrow> bt_seed_report result" where
  "serve_v1_file_listener_until_shutdown_with_options X fs bind t d source options =
     and_then (validate_upload_rate (so_max_upload_bytes_per_second options)) (\<lambda>_.
     and_then (validate_seed_source (sx_bt X) fs t d source) (\<lambda>source_sha256.
     and_then (sx_peer_id X) (\<lambda>local_peer_id.
     fst (run_listener X options True local_peer_id
       (start_file_report (sx_engine_version X) t source bind source_sha256 options)))))"

definition serve_v1_file_listener ::
    "bt_seed_report seeder_ext \<Rightarrow> file_system \<Rightarrow> socket_addr \<Rightarrow> torrent_v1 \<Rightarrow> target_descriptor \<Rightarrow> string \<Rightarrow> u64 option
       \<Rightarrow> bt_seed_report result" where
  "serve_v1_file_listener X fs bind t d source max_connections =
     serve_v1_file_listener_with_options X fs bind t d source (connections_only max_connections)"

definition serve_v1_file_listener_until_shutdown ::
    "bt_seed_report seeder_ext \<Rightarrow> file_system \<Rightarrow> socket_addr \<Rightarrow> torrent_v1 \<Rightarrow> target_descriptor \<Rightarrow> string \<Rightarrow> u64 option
       \<Rightarrow> bt_seed_report result" where
  "serve_v1_file_listener_until_shutdown X fs bind t d source max_connections =
     serve_v1_file_listener_until_shutdown_with_options X fs bind t d source (connections_only max_connections)"

text \<open>The index: the plan says which pieces can be advertised, and there must be one.\<close>

definition preflight_index :: "bt_ext \<Rightarrow> index_db \<Rightarrow> file_system \<Rightarrow> torrent_v1 \<Rightarrow> target_descriptor \<Rightarrow> bt_bridge_report result" where
  "preflight_index X db fs t d =
     and_then (plan_v1_bridge X db fs t d) (\<lambda>plan.
     bail_if (\<not> list_ex pp_fully_local (br_pieces plan)) ''authorized index cannot reconstruct any verified torrent Piece'' (Inr plan))"

definition serve_v1_index_controlled ::
    "bt_index_seed_report seeder_ext \<Rightarrow> index_db \<Rightarrow> file_system \<Rightarrow> torrent_v1 \<Rightarrow> target_descriptor \<Rightarrow> string \<Rightarrow> socket_addr \<Rightarrow> bool
       \<Rightarrow> bt_seed_options \<Rightarrow> bool \<Rightarrow> bt_index_seed_report result" where
  "serve_v1_index_controlled X db fs t d index_path bind allow_non_loopback options has_shutdown =
     and_then (validate_upload_rate (so_max_upload_bytes_per_second options)) (\<lambda>_.
     bail_if (\<not> is_loopback bind \<and> \<not> allow_non_loopback) ''refusing non-loopback BT index seed bind without --allow-non-loopback''
    (and_then (preflight_index (sx_bt X) db fs t d) (\<lambda>plan.
     and_then (sx_bind X bind) (\<lambda>bind.
     and_then (sx_peer_id X) (\<lambda>local_peer_id.
     with_trackers X t options has_shutdown local_peer_id
       (start_index_report (sx_engine_version X) t d index_path bind plan options))))))"

definition serve_v1_index_with_options ::
    "bt_index_seed_report seeder_ext \<Rightarrow> index_db \<Rightarrow> file_system \<Rightarrow> torrent_v1 \<Rightarrow> target_descriptor \<Rightarrow> string \<Rightarrow> socket_addr \<Rightarrow> bool
       \<Rightarrow> bt_seed_options \<Rightarrow> bt_index_seed_report result" where
  "serve_v1_index_with_options X db fs t d index_path bind allow_non_loopback options =
     and_then (validate_upload_rate (so_max_upload_bytes_per_second options)) (\<lambda>_.
     serve_v1_index_controlled X db fs t d index_path bind allow_non_loopback options False)"

definition serve_v1_index ::
    "bt_index_seed_report seeder_ext \<Rightarrow> index_db \<Rightarrow> file_system \<Rightarrow> torrent_v1 \<Rightarrow> target_descriptor \<Rightarrow> string \<Rightarrow> socket_addr \<Rightarrow> bool
       \<Rightarrow> u64 option \<Rightarrow> bt_index_seed_report result" where
  "serve_v1_index X db fs t d index_path bind allow_non_loopback max_connections =
     serve_v1_index_with_options X db fs t d index_path bind allow_non_loopback (connections_only max_connections)"

definition serve_v1_index_until_shutdown_with_options ::
    "bt_index_seed_report seeder_ext \<Rightarrow> index_db \<Rightarrow> file_system \<Rightarrow> torrent_v1 \<Rightarrow> target_descriptor \<Rightarrow> string \<Rightarrow> socket_addr \<Rightarrow> bool
       \<Rightarrow> bt_seed_options \<Rightarrow> bt_index_seed_report result" where
  "serve_v1_index_until_shutdown_with_options X db fs t d index_path bind allow_non_loopback options =
     serve_v1_index_controlled X db fs t d index_path bind allow_non_loopback options True"

definition serve_v1_index_until_shutdown ::
    "bt_index_seed_report seeder_ext \<Rightarrow> index_db \<Rightarrow> file_system \<Rightarrow> torrent_v1 \<Rightarrow> target_descriptor \<Rightarrow> string \<Rightarrow> socket_addr \<Rightarrow> bool
       \<Rightarrow> u64 option \<Rightarrow> bt_index_seed_report result" where
  "serve_v1_index_until_shutdown X db fs t d index_path bind allow_non_loopback max_connections =
     serve_v1_index_until_shutdown_with_options X db fs t d index_path bind allow_non_loopback (connections_only max_connections)"

definition serve_v1_index_listener_with_options ::
    "bt_index_seed_report seeder_ext \<Rightarrow> index_db \<Rightarrow> file_system \<Rightarrow> socket_addr \<Rightarrow> torrent_v1 \<Rightarrow> target_descriptor \<Rightarrow> string \<Rightarrow> bt_seed_options
       \<Rightarrow> bt_index_seed_report result" where
  "serve_v1_index_listener_with_options X db fs bind t d index_path options =
     and_then (validate_upload_rate (so_max_upload_bytes_per_second options)) (\<lambda>_.
     and_then (preflight_index (sx_bt X) db fs t d) (\<lambda>plan.
     and_then (sx_peer_id X) (\<lambda>local_peer_id.
     fst (run_listener X options False local_peer_id
       (start_index_report (sx_engine_version X) t d index_path bind plan options)))))"

definition serve_v1_index_listener ::
    "bt_index_seed_report seeder_ext \<Rightarrow> index_db \<Rightarrow> file_system \<Rightarrow> socket_addr \<Rightarrow> torrent_v1 \<Rightarrow> target_descriptor \<Rightarrow> string \<Rightarrow> u64 option
       \<Rightarrow> bt_index_seed_report result" where
  "serve_v1_index_listener X db fs bind t d index_path max_connections =
     serve_v1_index_listener_with_options X db fs bind t d index_path (connections_only max_connections)"

end
