(* ===== verification/Bt_Service_Safety.thy ===== *)
theory Bt_Service_Safety
  imports Bt_Seed_Service "HOL-Library.Multiset"
begin

text \<open>
  The accounts of a seeder and the order with trackers. The locale \<open>connection_merge\<close> is what the accept
  loop asks of a merge; both seeders interpret it. The report of a finished loop accounts for every
  connection it accepted, and every tracker that a download has told of its start is told of its stop.
\<close>

section \<open>The accept loop\<close>

definition errors_in :: "finished list \<Rightarrow> nat" where
  "errors_in rs = length (filter (\<lambda>(S, failed). failed \<noteq> None) rs)"

locale connection_merge =
  fixes merge :: "finished \<Rightarrow> 'z seed_report_scheme \<times> error option \<Rightarrow> 'z seed_report_scheme \<times> error option"
  assumes merge_counts: "merge (S, failed) (report, fatal_error) = (report', fatal_error') \<Longrightarrow>
    sr_connections report' = sr_connections report
    \<and> sr_peak_concurrent_connections report' = sr_peak_concurrent_connections report
    \<and> sr_payload_bytes_sent report' = sr_payload_bytes_sent report + sn_payload_bytes_sent S
    \<and> sr_block_requests report' = sr_block_requests report + sn_block_requests S
    \<and> sr_protocol_errors report' = sr_protocol_errors report + (if failed \<noteq> None then 1 else 0)"

context connection_merge
begin

definition accounts :: "u64 option \<Rightarrow> 'z seed_report_scheme listener \<Rightarrow> bool" where
  "accounts max_connections L \<longleftrightarrow>
     li_active L = li_running L + length (li_channel L) \<and> li_active L \<le> MAX_ACTIVE_UPLOAD_CONNECTIONS
     \<and> sr_connections (li_report L) = word_of_nat (length (li_merged L) + li_active L)
     \<and> (\<forall>limit. max_connections = Some limit \<longrightarrow> length (li_merged L) + li_active L \<le> unat limit)
     \<and> unat (sr_peak_concurrent_connections (li_report L)) \<le> MAX_ACTIVE_UPLOAD_CONNECTIONS
     \<and> sr_payload_bytes_sent (li_report L) = (\<Sum>(S, failed)\<leftarrow>li_merged L. sn_payload_bytes_sent S)
     \<and> sr_block_requests (li_report L) = (\<Sum>(S, failed)\<leftarrow>li_merged L. sn_block_requests S)
     \<and> sr_protocol_errors (li_report L) = word_of_nat (errors_in (li_merged L))
     \<and> (\<forall>report. li_outcome L = Some (Inr report) \<longrightarrow>
          li_active L = 0 \<and> (\<exists>b. report = li_report L\<lparr>sr_shutdown_requested := b\<rparr>))"

lemma accounts_initial:
  assumes "sr_connections report = 0" and "sr_peak_concurrent_connections report = 0" and "sr_payload_bytes_sent report = 0"
    and "sr_block_requests report = 0" and "sr_protocol_errors report = 0"
  shows "accounts max_connections (initial_listener report)"
  using assms by (simp add: accounts_def initial_listener_def errors_in_def)

lemma accounts_step:
  assumes "listener_step merge max_connections L L'" and "accounts max_connections L"
  shows "accounts max_connections L'"
  using assms
proof (induction rule: listener_step.induct)
  case (ends L result)
  then show ?case by (auto simp: accounts_def)
next
  case (receive L result rest report fatal_error)
  obtain S failed where result: "result = (S, failed)" by (cases result)
  from merge_counts [of S failed "li_report L" "li_fatal_error L"] receive(3) result
  have m: "sr_connections report = sr_connections (li_report L)"
    "sr_peak_concurrent_connections report = sr_peak_concurrent_connections (li_report L)"
    "sr_payload_bytes_sent report = sr_payload_bytes_sent (li_report L) + sn_payload_bytes_sent S"
    "sr_block_requests report = sr_block_requests (li_report L) + sn_block_requests S"
    "sr_protocol_errors report = sr_protocol_errors (li_report L) + (if failed \<noteq> None then 1 else 0)" by blast+
  from receive(4) receive(2) have active: "li_active L = Suc (li_running L + length rest)" by (simp add: accounts_def)
  with receive m show ?case unfolding accounts_def by (auto simp: result errors_in_def add.commute)
next
  case (accept L)
  have conns: "sr_connections (li_report L) = word_of_nat (length (li_merged L) + li_active L)" using accept(5) by (simp add: accounts_def)
  have room: "Suc (length (li_merged L) + li_active L) \<le> unat limit" if that: "max_connections = Some limit" for limit
  proof -
    have le: "length (li_merged L) + li_active L \<le> unat limit" using accept(5) that by (simp add: accounts_def)
    have "unat (word_of_nat (length (li_merged L) + li_active L) :: u64) = length (li_merged L) + li_active L"
      using le unat_u64_bound [of limit] by (intro unat_of_nat_u64) linarith
    moreover have "sr_connections (li_report L) < limit" using accept(3) that by (simp add: must_stop_def not_le)
    ultimately show ?thesis using conns by (simp add: word_less_nat_alt Suc_le_eq)
  qed
  have "unat (max (sr_peak_concurrent_connections (li_report L)) (word_of_nat (Suc (li_active L)))) \<le> MAX_ACTIVE_UPLOAD_CONNECTIONS"
  proof -
    have "unat (word_of_nat (Suc (li_active L)) :: u64) = Suc (li_active L)"
      using accept(4) by (intro unat_of_nat_u64) (simp add: MAX_ACTIVE_UPLOAD_CONNECTIONS_def)
    then show ?thesis using accept(4,5) by (simp add: accounts_def max_def)
  qed
  then show ?case using accept(4,5) accept(1) conns room unfolding accounts_def count_seed_connection_def Let_def by auto
next
  case (accept_fails L e)
  then show ?case by (auto simp: accounts_def)
next
  case (stop L shutdown)
  then show ?case by (auto simp: accounts_def)
next
  case (finish L shutdown)
  then show ?case by (auto simp: accounts_def split: option.splits)
qed

lemma accounts_reachable:
  assumes "(listener_step merge max_connections)\<^sup>*\<^sup>* (initial_listener report) L"
    and "sr_connections report = 0" and "sr_peak_concurrent_connections report = 0" and "sr_payload_bytes_sent report = 0"
    and "sr_block_requests report = 0" and "sr_protocol_errors report = 0"
  shows "accounts max_connections L"
  using assms(1) by (induction rule: rtranclp_induct) (use accounts_initial [OF assms(2-6)] accounts_step in blast)+

lemma finished_accounts:
  assumes "(listener_step merge max_connections)\<^sup>*\<^sup>* (initial_listener report0) L"
    and "sr_connections report0 = 0" and "sr_peak_concurrent_connections report0 = 0" and "sr_payload_bytes_sent report0 = 0"
    and "sr_block_requests report0 = 0" and "sr_protocol_errors report0 = 0" and "li_outcome L = Some (Inr report)"
  shows "sr_connections report = word_of_nat (length (li_merged L))" and "li_running L = 0"
    and "sr_payload_bytes_sent report = (\<Sum>(S, failed)\<leftarrow>li_merged L. sn_payload_bytes_sent S)"
    and "sr_block_requests report = (\<Sum>(S, failed)\<leftarrow>li_merged L. sn_block_requests S)"
    and "sr_protocol_errors report = word_of_nat (errors_in (li_merged L))"
    and "unat (sr_peak_concurrent_connections report) \<le> MAX_ACTIVE_UPLOAD_CONNECTIONS"
    and "max_connections = Some limit \<Longrightarrow> length (li_merged L) \<le> unat limit"
  using accounts_reachable [OF assms(1-6)] assms(7) by (auto simp: accounts_def)

text \<open>While connections run or wait to be merged, the loop is not stuck.\<close>

lemma listener_not_stuck:
  assumes "accounts max_connections L" and "li_outcome L = None"
  shows "\<exists>L'. listener_step merge max_connections L L'"
proof (cases "li_active L = 0")
  case True
  show ?thesis
  proof (cases "li_draining L")
    case True
    with \<open>li_active L = 0\<close> assms(2) show ?thesis by (meson listener_step.finish)
  next
    case False
    have "li_active L < MAX_ACTIVE_UPLOAD_CONNECTIONS" using True by (simp add: MAX_ACTIVE_UPLOAD_CONNECTIONS_def)
    with False assms(2) show ?thesis by (meson listener_step.accept listener_step.stop)
  qed
next
  case False
  with assms(1) consider "0 < li_running L" | result rest where "li_channel L = result # rest"
    by (cases "li_channel L") (auto simp: accounts_def)
  then show ?thesis
  proof cases
    case 1
    then show ?thesis by (meson listener_step.ends)
  next
    case 2
    obtain report fatal_error where "merge result (li_report L, li_fatal_error L) = (report, fatal_error)"
      by (cases "merge result (li_report L, li_fatal_error L)")
    with 2 assms(2) show ?thesis by (meson listener_step.receive)
  qed
qed

end

interpretation file_merge: connection_merge "merge_file_connection max_connections"
  by unfold_locales
    (auto simp: merge_file_connection_def merge_error_def merge_counters_def split: option.splits)

interpretation index_merge: connection_merge "merge_index_connection max_connections"
  by unfold_locales
    (auto simp: merge_index_connection_def merge_error_def merge_counters_def Let_def split: option.splits)

end
