(* ===== verification/Bt_Tracker_Safety.thy ===== *)
theory Bt_Tracker_Safety
  imports Bt_Service_Safety Bt_Fetch_Safety
begin

text \<open>
  The order of announcements: whoever has been told of a start is told of a stop, by a downloader whatever
  becomes of its search, and by a seeder whatever becomes of its service. And the trackers of a tier are all
  asked, in some order.
\<close>

section \<open>Tiers\<close>

lemma mset_swapped: "i < length xs \<Longrightarrow> j < length xs \<Longrightarrow> mset (swap xs i j) = mset xs"
  using mset_swap [of j xs i] by (simp add: swap_def)

lemma shuffle_step_mset:
  "index < length tier \<Longrightarrow> length (snd (shuffle_step (state, tier) index)) = length tier \<and> mset (snd (shuffle_step (state, tier) index)) = mset tier"
proof -
  assume "index < length tier"
  moreover have "unat (xorshift state) mod (index + 1) < index + 1" by simp
  ultimately have "unat (xorshift state) mod (index + 1) < length tier" by linarith
  with \<open>index < length tier\<close> show ?thesis by (simp add: shuffle_step_def Let_def mset_swapped) (simp add: swap_def)
qed

lemma shuffle_mset:
  "\<forall>index\<in>set indices. index < length tier \<Longrightarrow> mset (snd (foldl shuffle_step (state, tier) indices)) = mset tier"
proof (induction indices arbitrary: state tier)
  case (Cons index indices)
  obtain state' tier' where s: "shuffle_step (state, tier) index = (state', tier')" by (cases "shuffle_step (state, tier) index")
  have "length tier' = length tier" "mset tier' = mset tier" using shuffle_step_mset [of index tier state] Cons.prems s by simp_all
  with Cons.IH [of tier' state'] Cons.prems s show ?case by simp
qed simp

lemma mset_shuffled_tier: "mset (shuffled_tier X tier peer_id i) = mset tier"
  unfolding shuffled_tier_def Let_def by (rule shuffle_mset) auto

section \<open>Starts and stops\<close>

text \<open>
  A tracker is told by its URL as the log has it, without its query.
\<close>

fun all_stopped :: "bt_tracker_lifecycle_attempt list \<Rightarrow> bool" where
  "all_stopped [] \<longleftrightarrow> True"
| "all_stopped (a # later) \<longleftrightarrow>
     (la_event a = http_name Started \<and> la_success a \<longrightarrow> (\<exists>b\<in>set later. la_event b = http_name Stopped \<and> la_tracker b = la_tracker a))
     \<and> all_stopped later"

definition starts_nothing :: "bt_tracker_lifecycle_attempt list \<Rightarrow> bool" where
  "starts_nothing as \<longleftrightarrow> (\<forall>a\<in>set as. la_event a \<noteq> http_name Started)"

definition starts_only :: "string list \<Rightarrow> bt_tracker_lifecycle_attempt list \<Rightarrow> bool" where
  "starts_only trackers as \<longleftrightarrow> (\<forall>a\<in>set as. la_success a \<longrightarrow> la_tracker a \<in> redact_tracker_url ` set trackers)"

lemma all_stopped_append: "all_stopped xs \<Longrightarrow> all_stopped ys \<Longrightarrow> all_stopped (xs @ ys)"
  by (induction xs) auto

lemma starts_nothing_stopped: "starts_nothing as \<Longrightarrow> all_stopped as"
  by (induction as) (auto simp: starts_nothing_def)

lemma starts_then_stops:
  assumes "starts_only trackers starts" and "all_stopped stops"
    and "\<forall>tracker\<in>set trackers. \<exists>b\<in>set stops. la_event b = http_name Stopped \<and> la_tracker b = redact_tracker_url tracker"
  shows "all_stopped (starts @ stops)"
  using assms(1)
proof (induction starts)
  case (Cons a starts)
  have "\<exists>b\<in>set (starts @ stops). la_event b = http_name Stopped \<and> la_tracker b = la_tracker a" if "la_success a"
    using Cons.prems assms(3) that by (fastforce simp: starts_only_def)
  with Cons show ?case by (auto simp: starts_only_def)
qed (simp add: assms(2))

lemma lifecycle_attempt_fields [simp]: "la_event (lifecycle_attempt d e a) = http_name e" "la_tracker (lifecycle_attempt d e a) = d"
  "la_success (lifecycle_attempt d e a) \<longleftrightarrow> is_ok a"
  by (auto simp: lifecycle_attempt_def successful_lifecycle_attempt_def failed_lifecycle_attempt_def split: sum.splits)

lemma announced:
  fixes X k trackers t peer_id key port counters event
  defines "as \<equiv> announce_tracker_event X k trackers t peer_id key port counters event"
  shows "event \<noteq> Started \<Longrightarrow> starts_nothing as"
    and "\<forall>tracker\<in>set trackers. \<exists>b\<in>set as. la_event b = http_name event \<and> la_tracker b = redact_tracker_url tracker"
    and "length as = length trackers"
proof -
  show "event \<noteq> Started \<Longrightarrow> starts_nothing as" by (cases event) (auto simp: as_def starts_nothing_def announce_tracker_event_def)
  show "length as = length trackers" by (simp add: as_def announce_tracker_event_def)
  show "\<forall>tracker\<in>set trackers. \<exists>b\<in>set as. la_event b = http_name event \<and> la_tracker b = redact_tracker_url tracker"
  proof
    fix tracker assume "tracker \<in> set trackers"
    then obtain i where "i < length trackers" "tracker = trackers ! i" by (auto simp: in_set_conv_nth)
    then have "(k + i, tracker) \<in> set (enumerate k trackers)" by (auto simp: in_set_enumerate_eq)
    then show "\<exists>b\<in>set as. la_event b = http_name event \<and> la_tracker b = redact_tracker_url tracker"
      unfolding as_def announce_tracker_event_def by force
  qed
qed

section \<open>The download\<close>

lemma ask_tracker_effect:
  assumes "ask_tracker X t peer_id key port missing i (s, active, found) tracker = (s', active', found')"
  shows "\<exists>a. ts_lifecycle s' = ts_lifecycle s @ [a] \<and> starts_only active' [a] \<and> set active \<subseteq> set active'
    \<and> ts_tried s' = ts_tried s"
  using assms by (auto simp: ask_tracker_def Let_def starts_only_def split: sum.splits if_splits)

lemma ask_trackers_effect:
  "foldl (ask_tracker X t peer_id key port missing i) (s, active, found) trackers = (s', active', found') \<Longrightarrow>
    \<exists>new. ts_lifecycle s' = ts_lifecycle s @ new \<and> starts_only active' new \<and> set active \<subseteq> set active' \<and> ts_tried s' = ts_tried s"
proof (induction trackers arbitrary: s active found)
  case Nil
  then show ?case by (auto simp: starts_only_def)
next
  case (Cons tracker trackers)
  obtain s1 active1 found1 where one: "ask_tracker X t peer_id key port missing i (s, active, found) tracker = (s1, active1, found1)"
    by (cases "ask_tracker X t peer_id key port missing i (s, active, found) tracker")
  obtain a where a: "ts_lifecycle s1 = ts_lifecycle s @ [a]" "starts_only active1 [a]" "set active \<subseteq> set active1" "ts_tried s1 = ts_tried s"
    using ask_tracker_effect [OF one] by blast
  obtain new where new: "ts_lifecycle s' = ts_lifecycle s1 @ new" "starts_only active' new" "set active1 \<subseteq> set active'" "ts_tried s' = ts_tried s1"
    using Cons.IH [of s1 active1 found1] Cons.prems one by auto
  have "starts_only active' (a # new)" using a(2) new(2,3) by (auto simp: starts_only_def)
  with a new show ?case by auto
qed

lemma announce_all_lifecycle:
  "ts_lifecycle (announce_all X t peer_id key port trackers counters event s)
    = ts_lifecycle s @ announce_tracker_event X (ts_moment s) trackers t peer_id key port counters event"
  by (simp add: announce_all_def)

text \<open>Without candidates a transfer fails, so a tier that ends the search has told its trackers to stop.\<close>

definition needs_peers :: "transfer \<Rightarrow> bool" where
  "needs_peers transfer \<longleftrightarrow> (\<forall>k report. fst (transfer k []) \<noteq> Inr report)"

text \<open>The downloader of \<open>bt_peer.rs\<close>, whatever it finds on disk, is such a transfer.\<close>

definition downloads_with ::
    "bt_ext \<Rightarrow> resume_ext \<Rightarrow> index_db \<Rightarrow> fetch_disk \<Rightarrow> torrent_v1 \<Rightarrow> target_descriptor \<Rightarrow> string \<Rightarrow> transfer \<Rightarrow> bool" where
  "downloads_with X R db disk t d output_path transfer \<longleftrightarrow>
     (\<forall>k peers. \<exists>fs fs'. fetch_run X R db disk t d peers output_path fs (fst (transfer k peers)) fs')"

lemma downloads_need_peers: "downloads_with X R db disk t d out transfer \<Longrightarrow> needs_peers transfer"
  unfolding downloads_with_def needs_peers_def using no_report_without_peers by (metis is_ok_simps(1))

lemma search_tier_stopped:
  assumes "all_stopped (ts_lifecycle s)" and none: "needs_peers transfer"
  shows "search_tier X transfer t peer_id key port missing out s entry = Inl (r, s') \<Longrightarrow> all_stopped (ts_lifecycle s')"
    and "search_tier X transfer t peer_id key port missing out s entry = Inr s' \<Longrightarrow> all_stopped (ts_lifecycle s')"
    and "search_tier X transfer t peer_id key port missing out s entry = Inl (Inr report, s') \<Longrightarrow> tf_tracker_lifecycle report = ts_lifecycle s'"
proof -
  obtain tier_index tier where entry: "entry = (tier_index, tier)" by (cases entry)
  obtain s1 active found where asked: "foldl (ask_tracker X t peer_id key port missing tier_index) (s, [], [])
      (shuffled_tier (tx_bt X) tier peer_id tier_index) = (s1, active, found)"
    by (cases "foldl (ask_tracker X t peer_id key port missing tier_index) (s, [], []) (shuffled_tier (tx_bt X) tier peer_id tier_index)")
  obtain new where new: "ts_lifecycle s1 = ts_lifecycle s @ new" "starts_only active new" using ask_trackers_effect [OF asked] by blast
  obtain candidates tried where kept: "untried (ts_tried s1) found = (candidates, tried)" by (cases "untried (ts_tried s1) found")
  obtain outcome workers where ran: "transfer (ts_moment s1) (map pc_peer candidates) = (outcome, workers)"
    by (cases "transfer (ts_moment s1) (map pc_peer candidates)")
  have ends: "all_stopped (ts_lifecycle (announce_all X t peer_id key port active counters Stopped S))"
    if S: "ts_lifecycle S = ts_lifecycle s1 @ mid" and mid: "starts_nothing mid" for S mid counters
  proof -
    let ?stops = "announce_tracker_event X (ts_moment S) active t peer_id key port counters Stopped"
    note st = announced [where event = Stopped and X = X and k = "ts_moment S" and trackers = active and t = t and peer_id = peer_id
      and key = key and port = port and counters = counters]
    have "starts_nothing (mid @ ?stops)" using mid st(1) by (auto simp: starts_nothing_def)
    then have "all_stopped (new @ (mid @ ?stops))"
      using st(2) by (intro starts_then_stops [OF new(2)]) (auto intro: starts_nothing_stopped)
    then show ?thesis using assms(1) unfolding announce_all_lifecycle S new(1) by (simp add: all_stopped_append)
  qed
  have nomid: "starts_nothing []" by (simp add: starts_nothing_def)
  show "all_stopped (ts_lifecycle s')" if "search_tier X transfer t peer_id key port missing out s entry = Inl (r, s')"
  proof (cases outcome)
    case (Inl e)
    with that ran kept asked entry show ?thesis by (simp add: search_tier_def Let_def)
  next
    case (Inr report)
    then have "candidates \<noteq> []" using none ran by (auto simp: needs_peers_def dest: spec [of _ "ts_moment s1"])
    then obtain c cs where c: "candidates = c # cs" by (cases candidates) auto
    let ?counters = "new_tracker_counters (fr_network_payload_bytes report) 0 0"
    let ?s = "s1\<lparr>ts_tried := tried, ts_peer_attempts := ts_peer_attempts s1 @ map (attempt_of None) workers\<rparr>"
    let ?s2 = "if 0 < missing then announce_all X t peer_id key port active ?counters Completed ?s else ?s"
    have "\<exists>mid. ts_lifecycle ?s2 = ts_lifecycle s1 @ mid \<and> starts_nothing mid"
      using announced(1) [where event = Completed] nomid by (auto simp: announce_all_lifecycle)
    then have "all_stopped (ts_lifecycle (announce_all X t peer_id key port active ?counters Stopped ?s2))" using ends by blast
    moreover have "s' = announce_all X t peer_id key port active ?counters Stopped ?s2"
      using that ran kept asked entry Inr c by (auto simp: search_tier_def Let_def split: option.splits)
    ultimately show ?thesis by simp
  qed
  show "all_stopped (ts_lifecycle s')" if "search_tier X transfer t peer_id key port missing out s entry = Inr s'"
  proof (cases outcome)
    case (Inl e)
    let ?s = "s1\<lparr>ts_tried := tried, ts_peer_attempts := ts_peer_attempts s1 @ map (attempt_of (Some e)) workers\<rparr>"
    have "s' = announce_all X t peer_id key port active (new_tracker_counters 0 missing 0) Stopped ?s"
      using that ran kept asked entry Inl by (simp add: search_tier_def Let_def)
    then show ?thesis using ends [of ?s "[]"] nomid by simp
  next
    case (Inr report)
    with that ran kept asked entry show ?thesis by (auto simp: search_tier_def Let_def split: option.splits list.splits)
  qed
  show "tf_tracker_lifecycle report = ts_lifecycle s'" if "search_tier X transfer t peer_id key port missing out s entry = Inl (Inr report, s')"
    using that ran kept asked entry by (auto simp: search_tier_def Let_def split: option.splits sum.splits list.splits)
qed

lemma search_tiers_stopped:
  assumes none: "needs_peers transfer"
  shows "all_stopped (ts_lifecycle s) \<Longrightarrow> search_tiers X transfer t peer_id key port missing out s entries = (r, s') \<Longrightarrow>
    all_stopped (ts_lifecycle s') \<and> (\<forall>report. r = Inr report \<longrightarrow> tf_tracker_lifecycle report = ts_lifecycle s')"
proof (induction entries arbitrary: s)
  case (Cons entry entries)
  show ?case
  proof (cases "search_tier X transfer t peer_id key port missing out s entry")
    case (Inl outcome)
    then have "search_tier X transfer t peer_id key port missing out s entry = Inl (r, s')" using Cons.prems(2) by simp
    note * = this
    show ?thesis
    proof (intro conjI allI impI)
      show "all_stopped (ts_lifecycle s')" using search_tier_stopped(1) [OF Cons.prems(1) none *] .
      fix report assume "r = Inr report"
      with * show "tf_tracker_lifecycle report = ts_lifecycle s'" using search_tier_stopped(3) [OF Cons.prems(1) none] by simp
    qed
  next
    case (Inr s1)
    with search_tier_stopped(2) [OF Cons.prems(1) none Inr] Cons show ?thesis by simp
  qed
qed auto

lemma fetch_stops_trackers:
  assumes "fetch_v1_via_tracker X transfer db fs new_peer_id t d tracker_override port out = (r, s)"
    and "needs_peers transfer"
  shows "all_stopped (ts_lifecycle s)" and "r = Inr report \<Longrightarrow> tf_tracker_lifecycle report = ts_lifecycle s"
proof -
  have "all_stopped (ts_lifecycle initial_tier_state)" by (simp add: initial_tier_state_def)
  with assms(1) search_tiers_stopped [OF assms(2), of initial_tier_state X t]
  have "all_stopped (ts_lifecycle s) \<and> (\<forall>report. r = Inr report \<longrightarrow> tf_tracker_lifecycle report = ts_lifecycle s)"
    unfolding fetch_v1_via_tracker_def by (auto split: sum.splits prod.splits)
  then show "all_stopped (ts_lifecycle s)" and "r = Inr report \<Longrightarrow> tf_tracker_lifecycle report = ts_lifecycle s" by blast+
qed

section \<open>The seeder\<close>

definition start_ok :: "seed_start \<Rightarrow> bool" where
  "start_ok s \<longleftrightarrow> starts_only (map st_tracker (ss_active s)) (ss_attempts s) \<and> distinct (map st_tracker (ss_active s))
     \<and> set (map st_tracker (ss_active s)) \<subseteq> set (ss_seen s)"

lemma start_tier_ok:
  "start_ok s \<Longrightarrow> start_ok (start_tier X t peer_id key port s tier)
     \<and> length (ss_active (start_tier X t peer_id key port s tier)) \<le> length (ss_active s) + 1"
proof (induction tier arbitrary: s)
  case (Cons tracker tier)
  show ?case
  proof (cases "tracker \<in> set (ss_seen s)")
    case True
    with Cons show ?thesis by simp
  next
    case False
    let ?answer = "announce X (ss_moment s) tracker t peer_id key port (new_tracker_counters 0 0 0) Started"
    let ?s = "s\<lparr>ss_seen := tracker # ss_seen s,
      ss_attempts := ss_attempts s @ [lifecycle_attempt (redact_tracker_url tracker) Started ?answer], ss_moment := ss_moment s + 1\<rparr>"
    show ?thesis
    proof (cases ?answer)
      case (Inl e)
      have "start_ok ?s" using Cons.prems Inl by (auto simp: start_ok_def starts_only_def)
      moreover have "start_tier X t peer_id key port s (tracker # tier) = start_tier X t peer_id key port ?s tier"
        using False by (simp add: Let_def Inl)
      moreover have "ss_active ?s = ss_active s" by simp
      ultimately show ?thesis using Cons.IH [of ?s] by metis
    next
      case (Inr response)
      with Cons.prems False show ?thesis by (auto simp: Let_def start_ok_def starts_only_def)
    qed
  qed
qed simp

lemma start_seed_trackers_ok:
  "start_ok (start_seed_trackers X t peer_id port)"
  "length (ss_active (start_seed_trackers X t peer_id port)) \<le> length (torrent_tiers t)"
proof -
  let ?step = "\<lambda>s (i, tier). start_tier X t peer_id (tracker_key (tx_bt X) peer_id) port s (shuffled_tier (tx_bt X) tier peer_id i)"
  have "start_ok (foldl ?step s entries) \<and> length (ss_active (foldl ?step s entries)) \<le> length (ss_active s) + length entries"
    if "start_ok s" for s entries
    using that
  proof (induction entries arbitrary: s)
    case (Cons entry entries)
    have "start_ok (?step s entry)" "length (ss_active (?step s entry)) \<le> length (ss_active s) + 1"
      using start_tier_ok [OF Cons.prems] by (auto split: prod.split)
    with Cons.IH [of "?step s entry"] show ?case by (simp add: le_trans)
  qed simp
  from this [of "\<lparr>ss_moment = 0, ss_active = [], ss_attempts = [], ss_seen = []\<rparr>" "enumerate 0 (torrent_tiers t)"]
  show "start_ok (start_seed_trackers X t peer_id port)"
    "length (ss_active (start_seed_trackers X t peer_id port)) \<le> length (torrent_tiers t)"
    by (simp_all add: start_seed_trackers_def start_ok_def starts_only_def)
qed

lemma heartbeat_round_updates:
  "heartbeat_round X t peer_id port now k sessions = (k', sessions', attempts) \<Longrightarrow> starts_nothing attempts
     \<and> map st_tracker sessions' = map st_tracker sessions \<and> k' = k + length attempts"
proof (induction sessions arbitrary: k k' sessions' attempts)
  case (Cons session sessions)
  show ?case
  proof (cases "st_next_announce session \<le> now")
    case True
    obtain k1 rest as where r: "heartbeat_round X t peer_id port now (k + 1) sessions = (k1, rest, as)"
      by (cases "heartbeat_round X t peer_id port now (k + 1) sessions")
    with Cons.prems True Cons.IH [OF r] show ?thesis by (auto simp: Let_def starts_nothing_def)
  next
    case False
    obtain k1 rest as where r: "heartbeat_round X t peer_id port now k sessions = (k1, rest, as)"
      by (cases "heartbeat_round X t peer_id port now k sessions")
    with Cons.prems False Cons.IH [OF r] show ?thesis by auto
  qed
qed (simp add: starts_nothing_def)

lemma heartbeat_updates: "starts_nothing (heartbeat X t peer_id port k sessions seen)"
proof (induction seen arbitrary: k sessions)
  case Nil
  then show ?case by (simp add: starts_nothing_def)
next
  case (Cons o1 seen)
  obtain stop now where o1: "o1 = (stop, now)" by (cases o1)
  obtain k1 rest as where r: "heartbeat_round X t peer_id port now k sessions = (k1, rest, as)"
    by (cases "heartbeat_round X t peer_id port now k sessions")
  with heartbeat_round_updates [OF r] Cons.IH [of k sessions] Cons.IH [of k1 rest] show ?case
    by (simp add: o1) (auto simp: starts_nothing_def)
qed

lemma service_stops_trackers:
  assumes "with_trackers X t options has_shutdown peer_id report0 = Inr report"
  shows "all_stopped (sr_tracker_announces report)"
proof -
  let ?port = "snd (sr_bind report0)"
  let ?start = "start_seed_trackers (sx_tracker X) t peer_id ?port"
  let ?beats = "case start_heartbeat (sx_tracker X) t peer_id ?port (ss_moment ?start) (ss_active ?start) (sx_heartbeat X) of
     Some attempts \<Rightarrow> attempts | None \<Rightarrow> []"
  let ?trackers = "map st_tracker (ss_active ?start)"
  obtain uploaded where r: "sr_tracker_announces report = ss_attempts ?start @ ?beats
      @ stop_seed_trackers (sx_tracker X) (ss_moment ?start + length ?beats) (ss_active ?start) t peer_id ?port uploaded"
    using assms by (auto simp: with_trackers_def Let_def case_prod_beta')
  let ?stops = "stop_seed_trackers (sx_tracker X) (ss_moment ?start + length ?beats) (ss_active ?start) t peer_id ?port uploaded"
  have beats: "starts_nothing ?beats" using heartbeat_updates by (auto simp: start_heartbeat_def starts_nothing_def)
  have stops: "starts_nothing ?stops"
    "\<forall>tracker\<in>set ?trackers. \<exists>b\<in>set ?stops. la_event b = http_name Stopped \<and> la_tracker b = redact_tracker_url tracker"
    unfolding stop_seed_trackers_def by (rule announced(1), simp, rule announced(2))
  have "all_stopped (ss_attempts ?start @ (?beats @ ?stops))"
  proof (rule starts_then_stops)
    show "starts_only ?trackers (ss_attempts ?start)" using start_seed_trackers_ok(1) by (simp add: start_ok_def)
    show "all_stopped (?beats @ ?stops)" using beats stops(1) by (intro starts_nothing_stopped) (auto simp: starts_nothing_def)
    show "\<forall>tracker\<in>set ?trackers. \<exists>b\<in>set (?beats @ ?stops). la_event b = http_name Stopped \<and> la_tracker b = redact_tracker_url tracker"
      using stops(2) by auto
  qed
  then show ?thesis unfolding r .
qed

end
