(* ===== verification/Bt_Metadata.thy ===== *)
theory Bt_Metadata
  imports Bt_Wire Bt_Magnet Meld_Capabilities
begin

unbundle bit_operations_syntax

text \<open>
  The metadata exchange that turns a magnet link into a torrent, \<open>crates/meld-core/src/bt_metadata.rs\<close>: the
  handshake that offers extensions, the extension handshake, one request after the other for the pieces of
  the info dictionary, and the check of its SHA-1 against the magnet's info hash. The bounded \<open>for\<close> loops
  count down a number.
\<close>

definition EXTENDED_MESSAGE_ID :: u8 where
  "EXTENDED_MESSAGE_ID = 20"

definition EXTENDED_HANDSHAKE_ID :: u8 where
  "EXTENDED_HANDSHAKE_ID = 0"

definition LOCAL_UT_METADATA_ID :: u8 where
  "LOCAL_UT_METADATA_ID = 1"

definition METADATA_PIECE_LENGTH :: nat where
  "METADATA_PIECE_LENGTH = 16 * 1024"

definition MAX_METADATA_SIZE :: nat where
  "MAX_METADATA_SIZE = 4 * 1024 * 1024"

definition MAX_METADATA_MESSAGE_LENGTH :: u32 where
  "MAX_METADATA_MESSAGE_LENGTH = 64 * 1024"

definition MAX_UNEXPECTED_MESSAGES :: nat where
  "MAX_UNEXPECTED_MESSAGES = 256"

record bt_metadata_fetch_report =
  md_report_format :: string
  md_report_version :: u32
  md_engine_version :: string
  md_peer :: socket_addr
  md_remote_peer_id_hex :: string
  md_remote_reserved_hex :: string
  md_remote_ut_metadata_id :: u8
  md_metadata_bytes :: u64
  md_metadata_pieces :: u64
  md_info_hash_sha1 :: string
  md_info_hash_verified :: bool
  md_torrent_name :: string

section \<open>The wire\<close>

type_synonym 'a exchange = "(socket, 'a) action"

definition send_metadata_handshake :: "bt_ext \<Rightarrow> string \<Rightarrow> bytes \<Rightarrow> unit exchange" where
  "send_metadata_handshake X info_hash_hex peer_id =
     then_do (pass (case cx_hex_decode (bx_cdc X) info_hash_hex of Inl e \<Rightarrow> Inl (Bail ''decode magnet info-hash'') | Inr bs \<Rightarrow> Inr bs))
       (\<lambda>info_hash.
     if length info_hash \<noteq> 20 then pass (Inl (Bail ''magnet info-hash must be 20 bytes''))
     else write_all ([word_of_nat (length PROTOCOL_NAME)] @ PROTOCOL_NAME @ (replicate 8 0)[5 := 0x10] @ info_hash @ peer_id))"

definition read_metadata_handshake :: "bt_ext \<Rightarrow> string \<Rightarrow> (bytes \<times> bytes) exchange" where
  "read_metadata_handshake X expected_info_hash_hex =
     then_do (read_bytes HANDSHAKE_LENGTH) (\<lambda>handshake.
     if handshake ! 0 \<noteq> word_of_nat (length PROTOCOL_NAME) \<or> take 19 (drop 1 handshake) \<noteq> PROTOCOL_NAME
     then pass (Inl (Bail ''metadata peer returned an invalid BitTorrent handshake''))
     else then_do (pass (cx_hex_decode (bx_cdc X) expected_info_hash_hex)) (\<lambda>expected.
     if take 20 (drop 28 handshake) \<noteq> expected then pass (Inl (Bail ''metadata peer returned the wrong torrent info-hash''))
     else pass (Inr (take 8 (drop 20 handshake), take 20 (drop 48 handshake)))))"

definition send_extended :: "u8 \<Rightarrow> bytes \<Rightarrow> unit exchange" where
  "send_extended extension_id payload =
     (if length payload + 2 < 2 ^ 32
      then write_all (be_bytes 4 (length payload + 2) @ [EXTENDED_MESSAGE_ID, extension_id] @ payload)
      else pass (Inl (Bail ''extended message is too large'')))"

definition read_exchange_message :: "(u8 \<times> bytes) option exchange" where
  "read_exchange_message =
     then_do (read_bytes 4) (\<lambda>length_bytes.
     let len = (word_of_nat (be_nat length_bytes) :: u32) in
     if len = 0 then pass (Inr None)
     else if MAX_METADATA_MESSAGE_LENGTH < len then pass (Inl (Bail ''peer sent oversized BT message''))
     else then_do (read_bytes (unat len)) (\<lambda>message. pass (Inr (Some (message ! 0, drop 1 message)))))"

section \<open>The exchange\<close>

text \<open>At most \<open>n\<close> more messages are looked at.\<close>

fun read_extension_handshake :: "nat \<Rightarrow> (u8 \<times> u64) exchange" where
  "read_extension_handshake 0 S = (Inl (Bail ''peer did not send a BEP 10 extension handshake''), S)"
| "read_extension_handshake (Suc n) S =
     then_do read_exchange_message (\<lambda>m S. case m of
         None \<Rightarrow> read_extension_handshake n S
       | Some (message_id, payload) \<Rightarrow>
           if message_id \<noteq> EXTENDED_MESSAGE_ID \<or> payload = [] \<or> hd payload \<noteq> EXTENDED_HANDSHAKE_ID
           then read_extension_handshake n S
           else pass (parse_extension_handshake (drop 1 payload)) S) S"

definition count_unexpected :: "nat \<Rightarrow> nat result" where
  "count_unexpected count =
     bail_if (MAX_UNEXPECTED_MESSAGES < count + 1) ''peer exceeded the unexpected-message limit during metadata exchange'' (Inr (count + 1))"

text \<open>The data of a message that carries the expected piece.\<close>

definition accept_metadata_piece :: "bytes \<Rightarrow> nat \<Rightarrow> nat \<Rightarrow> nat \<Rightarrow> bytes result" where
  "accept_metadata_piece payload expected_piece metadata_size expected_length =
     and_then (parse_metadata_message_header (drop 1 payload)) (\<lambda>(message_type, piece, total_size, header_length).
     bail_if (unat piece \<noteq> expected_piece) ''peer returned another metadata piece''
    (bail_if (case total_size of Some n \<Rightarrow> unat n \<noteq> metadata_size | None \<Rightarrow> False) ''peer changed metadata total_size during transfer''
    (if message_type = 1 then
       let data = drop (1 + header_length) payload
       in bail_if (length data \<noteq> expected_length) ''metadata piece has the wrong length'' (Inr data)
     else if message_type = 2 then Inl (Bail ''peer rejected metadata piece'')
     else Inl (Bail ''peer returned unsupported ut_metadata msg_type''))))"

fun read_metadata_piece :: "nat \<Rightarrow> nat \<Rightarrow> nat \<Rightarrow> nat \<Rightarrow> u8 \<Rightarrow> nat \<Rightarrow> (bytes \<times> nat) exchange" where
  "read_metadata_piece 0 expected_piece metadata_size expected_length remote_extension_id unexpected_messages S =
     (Inl (Bail ''peer did not return metadata piece''), S)"
| "read_metadata_piece (Suc n) expected_piece metadata_size expected_length remote_extension_id unexpected_messages S =
     then_do read_exchange_message (\<lambda>m S. case m of
         None \<Rightarrow> read_metadata_piece n expected_piece metadata_size expected_length remote_extension_id unexpected_messages S
       | Some (message_id, payload) \<Rightarrow>
           if message_id \<noteq> EXTENDED_MESSAGE_ID \<or> length payload < 2 then
             then_do (pass (count_unexpected unexpected_messages)) (\<lambda>unexpected_messages S.
               read_metadata_piece n expected_piece metadata_size expected_length remote_extension_id unexpected_messages S) S
           else if payload ! 0 = EXTENDED_HANDSHAKE_ID then
             then_do (pass (parse_extension_handshake (drop 1 payload))) (\<lambda>mapping S. case mapping of (new_id, new_size) \<Rightarrow>
               if new_id \<noteq> remote_extension_id \<or> unat new_size \<noteq> metadata_size
               then (Inl (Bail ''peer changed its ut_metadata mapping during transfer''), S)
               else read_metadata_piece n expected_piece metadata_size expected_length remote_extension_id unexpected_messages S) S
           else if payload ! 0 \<noteq> LOCAL_UT_METADATA_ID then
             then_do (pass (count_unexpected unexpected_messages)) (\<lambda>unexpected_messages S.
               read_metadata_piece n expected_piece metadata_size expected_length remote_extension_id unexpected_messages S) S
           else pass (and_then (accept_metadata_piece payload expected_piece metadata_size expected_length)
             (\<lambda>data. Inr (data, unexpected_messages))) S) S"

definition metadata_request :: "nat \<Rightarrow> bytes" where
  "metadata_request piece = as_bytes (''d8:msg_typei0e5:piecei'' @ dec piece @ ''ee'')"

text \<open>The pieces in turn, with the metadata so far and the count of unexpected messages.\<close>

fun fetch_metadata_pieces :: "u8 \<Rightarrow> nat \<Rightarrow> nat list \<Rightarrow> bytes \<Rightarrow> nat \<Rightarrow> bytes exchange" where
  "fetch_metadata_pieces remote_extension_id metadata_size [] metadata unexpected_messages S = (Inr metadata, S)"
| "fetch_metadata_pieces remote_extension_id metadata_size (piece # rest) metadata unexpected_messages S =
     then_do (send_extended remote_extension_id (metadata_request piece)) (\<lambda>_.
     then_do (read_metadata_piece 128 piece metadata_size (min METADATA_PIECE_LENGTH (metadata_size - length metadata))
         remote_extension_id unexpected_messages) (\<lambda>got S. case got of (bs, unexpected_messages) \<Rightarrow>
     fetch_metadata_pieces remote_extension_id metadata_size rest (metadata @ bs) unexpected_messages S)) S"

definition metadata_piece_count :: "nat \<Rightarrow> nat" where
  "metadata_piece_count metadata_size = div_ceil metadata_size METADATA_PIECE_LENGTH"

definition exchange_metadata :: "bt_ext \<Rightarrow> magnet_v1 \<Rightarrow> bytes \<Rightarrow> (bytes \<times> bytes \<times> bytes \<times> u8) exchange" where
  "exchange_metadata X magnet local_peer_id =
     then_do (send_metadata_handshake X (mg_info_hash_sha1 magnet) local_peer_id) (\<lambda>_.
     then_do (read_metadata_handshake X (mg_info_hash_sha1 magnet)) (\<lambda>(reserved, remote_peer_id).
     if (reserved ! 5) AND 0x10 = 0 then pass (Inl (Bail ''peer does not advertise the BEP 10 extension protocol''))
     else then_do (send_extended EXTENDED_HANDSHAKE_ID (as_bytes ''d1:md11:ut_metadatai1eee'')) (\<lambda>_.
     then_do (read_extension_handshake 64) (\<lambda>(remote_extension_id, metadata_size).
     if metadata_size = 0 \<or> MAX_METADATA_SIZE < unat metadata_size
     then pass (Inl (Bail ''peer metadata_size is outside the supported range''))
     else then_do (fetch_metadata_pieces remote_extension_id (unat metadata_size)
         [0..<metadata_piece_count (unat metadata_size)] [] 0) (\<lambda>metadata.
     pass (Inr (metadata, reserved, remote_peer_id, remote_extension_id)))))))"

text \<open>What was received becomes a torrent only when its SHA-1 is the info hash of the magnet link.\<close>

definition torrent_of_metadata :: "bt_ext \<Rightarrow> magnet_v1 \<Rightarrow> bytes \<Rightarrow> torrent_v1 result" where
  "torrent_of_metadata X magnet metadata =
     bail_if (sha1_hex X metadata \<noteq> mg_info_hash_sha1 magnet) ''BEP 9 metadata info-hash mismatch''
    (parse_v1_info_dictionary X metadata (case mg_trackers magnet of [] \<Rightarrow> None | tracker # _ \<Rightarrow> Some tracker)
       (if mg_trackers magnet \<noteq> [] then Some [mg_trackers magnet] else None))"

definition fetch_v1_metadata_from_peer ::
    "bt_ext \<Rightarrow> string \<Rightarrow> bytes result \<Rightarrow> magnet_v1 \<Rightarrow> socket_addr \<Rightarrow> (torrent_v1 \<times> bt_metadata_fetch_report) exchange" where
  "fetch_v1_metadata_from_peer X engine_version new_peer_id magnet peer =
     then_do (pass new_peer_id) (\<lambda>local_peer_id.
     then_do (exchange_metadata X magnet local_peer_id) (\<lambda>(metadata, reserved, remote_peer_id, remote_extension_id).
     then_do (pass (torrent_of_metadata X magnet metadata)) (\<lambda>t.
     pass (Inr (t, \<lparr>md_report_format = REPORT_FORMAT, md_report_version = REPORT_VERSION, md_engine_version = engine_version,
       md_peer = peer, md_remote_peer_id_hex = bx_hex X remote_peer_id, md_remote_reserved_hex = bx_hex X reserved,
       md_remote_ut_metadata_id = remote_extension_id, md_metadata_bytes = word_of_nat (length metadata),
       md_metadata_pieces = word_of_nat (metadata_piece_count (length metadata)),
       md_info_hash_sha1 = sha1_hex X metadata, md_info_hash_verified = True, md_torrent_name = tv_name t\<rparr>)))))"

section \<open>What is accepted\<close>

lemma accept_metadata_piece_length: "accept_metadata_piece p i m l = Inr bs \<Longrightarrow> length bs = l"
  by (auto simp: accept_metadata_piece_def Let_def split: if_splits)

lemma read_metadata_piece_length: "read_metadata_piece n i m l e u S = (Inr (bs, u'), T) \<Longrightarrow> length bs = l"
proof (induction n arbitrary: u S)
  case (Suc n)
  show ?case
  proof (rule ccontr)
    assume no: "length bs \<noteq> l"
    from Suc.IH no have IH: "read_metadata_piece n i m l e v R \<noteq> (Inr (bs, u'), T)" for v R by blast
    from Suc.prems IH no show False
      by (auto simp del: read_metadata_piece.simps(1) simp: then_do_eq_Inr pass_def dest!: accept_metadata_piece_length
        split: option.splits if_splits prod.splits)
  qed
qed simp

lemma fetch_metadata_pieces_length:
  "fetch_metadata_pieces e m ps metadata u S = (Inr bs, T) \<Longrightarrow> length metadata \<le> m \<Longrightarrow> length bs \<le> m \<and>
     min m (length metadata + length ps * METADATA_PIECE_LENGTH) \<le> length bs"
proof (induction ps arbitrary: metadata u S)
  case (Cons p ps)
  from Cons.prems(1) obtain got u' S1 S2 where got: "read_metadata_piece 128 p m (min METADATA_PIECE_LENGTH (m - length metadata)) e u S1 = (Inr (got, u'), S2)"
    and rest: "fetch_metadata_pieces e m ps (metadata @ got) u' S2 = (Inr bs, T)"
    by (auto simp: then_do_eq_Inr)
  have len: "length got = min METADATA_PIECE_LENGTH (m - length metadata)" using read_metadata_piece_length [OF got] .
  then have "length (metadata @ got) \<le> m" using Cons.prems(2) by simp
  from Cons.IH [OF rest this] len Cons.prems(2) show ?case by (simp add: min_def split: if_splits)
qed auto

lemma exchange_metadata_length:
  assumes "exchange_metadata X magnet pid S = (Inr (metadata, r, p, e), T)"
  shows "0 < length metadata" and "length metadata \<le> MAX_METADATA_SIZE"
proof -
  from assms obtain n S1 S2 where n: "n \<noteq> (0 :: u64)" "unat n \<le> MAX_METADATA_SIZE"
    and run: "fetch_metadata_pieces e (unat n) [0..<metadata_piece_count (unat n)] [] 0 S1 = (Inr metadata, S2)"
    by (auto simp: exchange_metadata_def then_do_eq_Inr pass_def not_less split: if_splits)
  have pos: "0 < unat n" using n(1) by (simp add: unat_gt_0)
  have "unat n \<le> metadata_piece_count (unat n) * METADATA_PIECE_LENGTH"
    unfolding metadata_piece_count_def using div_ceil_bounds [of METADATA_PIECE_LENGTH "unat n"] by (simp add: METADATA_PIECE_LENGTH_def)
  with fetch_metadata_pieces_length [OF run] have "length metadata = unat n" by (simp add: min_def split: if_splits)
  with pos n(2) show "0 < length metadata" "length metadata \<le> MAX_METADATA_SIZE" by linarith+
qed

end
