(* ===== verification/Bt_Metadata_Exchange.thy ===== *)
theory Bt_Metadata_Exchange
  imports Bt_Metadata Bt_Transfer Bt_Torrent_Safety
begin

text \<open>
  The metadata exchange with a peer that follows the extension: its handshake offers extensions, its extension
  handshake names the size, and it answers every request with a data message. Whatever a peer sends, the
  torrent that comes out carries the info hash of the magnet link; from this peer it comes out.
\<close>

section \<open>What the torrent is bound to\<close>

text \<open>A torrent is read from the entries of an info dictionary: its name, its length, the length of its pieces and
  their SHA-1 are the entries of those names.\<close>

definition read_from :: "bt_ext \<Rightarrow> (bytes \<times> btree) list \<Rightarrow> torrent_v1 \<Rightarrow> bool" where
  "read_from X es t \<longleftrightarrow> (\<exists>name hashes.
     (as_bytes ''name'', TBytes name) \<in> set es \<and> utf8_valid name \<and> tv_name t = text_of name \<and>
     (as_bytes ''length'', TInteger (int (unat (tv_total_length t)))) \<in> set es \<and>
     (as_bytes ''piece length'', TInteger (int (unat (tv_piece_length t)))) \<in> set es \<and>
     (as_bytes ''pieces'', TBytes hashes) \<in> set es \<and> length hashes = 20 * length (tv_piece_sha1 t) \<and>
     (\<forall>i<length (tv_piece_sha1 t). tv_piece_sha1 t ! i = bx_hex X (slice hashes (20 * i) (20 * i + 20))))"

lemma chunks_exact_nth:
  assumes "0 < n"
  shows "i < length (chunks_exact n xs) \<Longrightarrow> chunks_exact n xs ! i = take n (drop (n * i) xs)"
proof (induction i arbitrary: xs)
  case 0
  then show ?case by (subst chunks_exact.simps) (auto simp: chunks_exact.simps split: if_splits)
next
  case (Suc i)
  have "chunks_exact n xs = take n xs # chunks_exact n (drop n xs)"
    using Suc.prems by (subst chunks_exact.simps) (auto simp: chunks_exact.simps [of n xs] split: if_splits)
  with Suc show ?case by (simp add: add.commute)
qed

lemma required_entry: "required dict k msg = Inr x \<Longrightarrow> (as_bytes k, node_tree x) \<in> set (entry_trees dict)"
  by (force simp: required_def dest: dictionary_value_mem)

lemma node_bytes_tree: "as_byte_string x l = Inr bs \<Longrightarrow> node_tree x = TBytes bs"
  by (cases x) (auto simp: as_byte_string_def split: bvalue.splits)

lemma node_u64_entry:
  assumes "node_u64 x l = Inr v" and "tree_ok d (node_tree x)"
  shows "node_tree x = TInteger (int (unat v))"
proof -
  obtain w where w: "bn_value x = BInteger w" "0 \<le> w" "v = word_of_int w"
    using assms(1) by (auto simp: node_u64_def split: bvalue.splits)
  then have t: "node_tree x = TInteger w" by (cases x) simp
  with assms(2) have "w < 2 ^ 64" by (simp add: i64_max_def)
  with w have "int (unat v) = w" by (simp add: unsigned_of_int take_bit_int_eq_self)
  with t show ?thesis by simp
qed

lemma parse_v1_info_node_reads:
  assumes "parse_v1_info_node X info raw a al = Inr t" and "tree_ok 0 (node_tree info)"
    and "node_tree info = TDictionary es"
  shows "read_from X es t"
proof -
  from assms(1) obtain dict name_node name length_node n piece_node l pieces_node hashes where
    dict: "bn_value info = BDictionary dict"
    and name: "required dict ''name'' ''info.name is missing'' = Inr name_node" "node_utf8 name_node ''info.name'' = Inr name"
    and len: "required dict ''length'' ''info.length is missing'' = Inr length_node" "node_u64 length_node ''info.length'' = Inr n"
    and piece: "required dict ''piece length'' ''info.piece length is missing'' = Inr piece_node" "node_u64 piece_node ''info.piece length'' = Inr l"
    and pieces: "required dict ''pieces'' ''info.pieces is missing'' = Inr pieces_node" "as_byte_string pieces_node ''info.pieces'' = Inr hashes"
    and mod: "length hashes mod 20 = 0"
    and t: "tv_name t = name" "tv_total_length t = n" "tv_piece_length t = l" "tv_piece_sha1 t = map (bx_hex X) (chunks_exact 20 hashes)"
    by (auto simp: parse_v1_info_node_def as_dictionary_Inr)
  have es: "es = entry_trees dict" using assms(3) dict by (cases info) simp
  have entry: "(k, node_tree x) \<in> set es \<Longrightarrow> tree_ok (Suc 0) (node_tree x)" for k x using assms(2,3) by fastforce
  obtain raw_name where nm: "as_byte_string name_node ''info.name'' = Inr raw_name" "utf8_valid raw_name" "name = text_of raw_name"
    using name(2) by (auto simp: node_utf8_def)
  note mem = required_entry [OF name(1), folded es] required_entry [OF len(1), folded es]
    required_entry [OF piece(1), folded es] required_entry [OF pieces(1), folded es]
  have "node_tree length_node = TInteger (int (unat n))" "node_tree piece_node = TInteger (int (unat l))"
    using node_u64_entry [OF len(2) entry [OF mem(2)]] node_u64_entry [OF piece(2) entry [OF mem(3)]] .
  moreover have "map (bx_hex X) (chunks_exact 20 hashes) ! i = bx_hex X (slice hashes (20 * i) (20 * i + 20))"
    if "i < length (chunks_exact 20 hashes)" for i
    using chunks_exact_nth [OF _ that] that by (simp add: slice_def)
  moreover have "length hashes = 20 * (length hashes div 20)" using mod by presburger
  ultimately show ?thesis
    using mem node_bytes_tree [OF nm(1)] node_bytes_tree [OF pieces(2)] nm(2,3) t
    unfolding read_from_def by - (rule exI [of _ raw_name], rule exI [of _ hashes], simp add: length_chunks_exact)
qed

lemma torrent_of_metadata_bound:
  assumes "torrent_of_metadata X magnet metadata = Inr t" and "bt_ext_ok X" and "length metadata < 2 ^ 64"
  shows "sha1_hex X metadata = mg_info_hash_sha1 magnet" and "tv_info_hash_sha1 t = mg_info_hash_sha1 magnet"
    and "\<exists>es. metadata = encode (TDictionary es) \<and> tree_ok 0 (TDictionary es) \<and> read_from X es t"
proof -
  from assms(1) obtain info announce tiers where sha: "sha1_hex X metadata = mg_info_hash_sha1 magnet"
    and info: "parse_whole metadata ''trailing bytes after bencoded info dictionary'' = Inr info"
    and t: "parse_v1_info_node X info metadata announce tiers = Inr t"
    by (auto simp: torrent_of_metadata_def parse_v1_info_dictionary_def)
  show "sha1_hex X metadata = mg_info_hash_sha1 magnet" by (rule sha)
  show "tv_info_hash_sha1 t = mg_info_hash_sha1 magnet" using t sha by (auto simp: parse_v1_info_node_def Let_def)
  obtain es where "bn_value info = BDictionary es" using t by (auto simp: parse_v1_info_node_def as_dictionary_Inr)
  then obtain ts where ts: "node_tree info = TDictionary ts" by (auto simp: node_tree_dictionary)
  then have "metadata = encode (TDictionary ts) \<and> tree_ok 0 (TDictionary ts)"
    using info parse_whole_exact [OF assms(3)] by metis
  then show "\<exists>es. metadata = encode (TDictionary es) \<and> tree_ok 0 (TDictionary es) \<and> read_from X es t"
    using parse_v1_info_node_reads [OF t _ ts] ts by auto
qed

section \<open>Messages\<close>

definition extended_bytes :: "u8 \<Rightarrow> bytes \<Rightarrow> bytes" where
  "extended_bytes extension_id payload = be_bytes 4 (length payload + 2) @ [EXTENDED_MESSAGE_ID, extension_id] @ payload"

definition offer_tree :: "u8 \<Rightarrow> nat \<Rightarrow> btree" where
  "offer_tree extension_id msize = TDictionary [(as_bytes ''m'', TDictionary [(as_bytes ''ut_metadata'', TInteger (int (unat extension_id)))]),
     (as_bytes ''metadata_size'', TInteger (int msize))]"

definition data_tree :: "nat \<Rightarrow> nat \<Rightarrow> btree" where
  "data_tree piece msize = TDictionary [(as_bytes ''msg_type'', TInteger 1), (as_bytes ''piece'', TInteger (int piece)),
     (as_bytes ''total_size'', TInteger (int msize))]"

lemma send_extended_free: "ps_room S = None \<Longrightarrow> length payload + 2 < 2 ^ 32 \<Longrightarrow>
    send_extended e payload S = (Inr (), S\<lparr>ps_out := ps_out S @ extended_bytes e payload\<rparr>)"
  by (simp add: send_extended_def write_all_def extended_bytes_def)

lemma read_exchange_message_stream:
  assumes "ps_in S = stream_of (extended_bytes e payload) @ s" and "length payload + 2 \<le> 65536"
  shows "read_exchange_message S = (Inr (Some (EXTENDED_MESSAGE_ID, e # payload)), S\<lparr>ps_in := s\<rparr>)"
proof -
  have m: "MAX_METADATA_MESSAGE_LENGTH = 65536" by (simp add: MAX_METADATA_MESSAGE_LENGTH_def)
  let ?l = "word_of_nat (be_nat (be_bytes 4 (length payload + 2))) :: u32"
  have "be_nat (be_bytes 4 (length payload + 2)) = length payload + 2" using assms(2) by (intro be_nat_be_bytes) simp
  moreover have "unat (word_of_nat (length payload + 2) :: u32) = length payload + 2" using assms(2) by (simp only: unat_of_nat) simp
  ultimately have n: "unat ?l = length payload + 2" by simp
  have pos: "?l \<noteq> 0" "\<not> MAX_METADATA_MESSAGE_LENGTH < ?l"
    using n assms(2) unat_0 by (metis add_is_0 zero_neq_numeral, simp add: word_less_nat_alt n m)
  have r: "read_bytes 4 S = (Inr (be_bytes 4 (length payload + 2)), S\<lparr>ps_in := stream_of (EXTENDED_MESSAGE_ID # e # payload) @ s\<rparr>)"
    by (rule read_bytes_stream) (simp_all add: assms(1) extended_bytes_def)
  have r2: "read_bytes (unat ?l) (S\<lparr>ps_in := stream_of (EXTENDED_MESSAGE_ID # e # payload) @ s\<rparr>)
      = (Inr (EXTENDED_MESSAGE_ID # e # payload), S\<lparr>ps_in := s\<rparr>)"
    by (subst read_bytes_stream [of _ "EXTENDED_MESSAGE_ID # e # payload" s]) (use n in simp_all)
  show ?thesis unfolding read_exchange_message_def then_do_def r Let_def prod.case sum.case
    using pos by (simp only: if_False r2 prod.case sum.case) (simp add: pass_def)
qed

lemma length_encode_integer: "n < 10 ^ 20 \<Longrightarrow> length (encode (TInteger (int n))) \<le> 22"
  using length_dec_le [of 20 n] by (simp add: dec_int_def)

lemma length_encode_entry: "length (encode_bytes (as_bytes s)) \<le> 21 + length s" if "length s < 10 ^ 20"
  using that length_dec_le [of 20 "length s"] by (simp add: encode_bytes_def)

lemma tree_ok_offer: "msize < 2 ^ 63 \<Longrightarrow> tree_ok 0 (offer_tree e msize)"
  and tree_ok_data: "msize < 2 ^ 63 \<Longrightarrow> piece < 2 ^ 63 \<Longrightarrow> tree_ok 0 (data_tree piece msize)"
  using unat_u8_bound [of e]
  by (simp_all add: offer_tree_def data_tree_def MAX_BENCODE_DEPTH_def i64_max_def as_bytes_def byte_val_def)

lemma length_offer: "msize < 2 ^ 63 \<Longrightarrow> length (encode (offer_tree e msize)) \<le> 300"
  and length_data: "msize < 2 ^ 63 \<Longrightarrow> piece < 2 ^ 63 \<Longrightarrow> length (encode (data_tree piece msize)) \<le> 300"
proof -
  note entry = length_encode_entry [of "''m''"] length_encode_entry [of "''ut_metadata''"] length_encode_entry [of "''metadata_size''"]
    length_encode_entry [of "''msg_type''"] length_encode_entry [of "''piece''"] length_encode_entry [of "''total_size''"]
  have big: "n < 10 ^ 20" if "n < 2 ^ 63" for n :: nat using that by simp
  have e: "unat e < 2 ^ 63" using unat_u8_bound [of e] by simp
  show "msize < 2 ^ 63 \<Longrightarrow> length (encode (offer_tree e msize)) \<le> 300"
    using entry length_encode_integer [OF big [of msize]] length_encode_integer [OF big [OF e]]
    by (simp add: offer_tree_def del: encode.simps(1)) 
  show "msize < 2 ^ 63 \<Longrightarrow> piece < 2 ^ 63 \<Longrightarrow> length (encode (data_tree piece msize)) \<le> 300"
    using entry length_encode_integer [OF big [of msize]] length_encode_integer [OF big [of piece]] length_encode_integer [of 1]
    by (simp add: data_tree_def del: encode.simps(1))
qed

lemma node_u64_tree_int: "node_tree x = TInteger v \<Longrightarrow> 0 \<le> v \<Longrightarrow> node_u64 x label = Inr (word_of_int v)"
  by (cases x; cases "bn_value x") (auto simp: node_u64_def)

lemma entry_trees_Cons: "entry_trees es = (k, t) # ts \<longleftrightarrow> (\<exists>x es'. es = (k, x) # es' \<and> node_tree x = t \<and> entry_trees es' = ts)"
  and entry_trees_Nil: "entry_trees es = [] \<longleftrightarrow> es = []"
  by (cases es; force)+

lemma node_tree_entries: "node_tree x = TDictionary ts \<Longrightarrow> \<exists>es. bn_value x = BDictionary es \<and> entry_trees es = ts"
  by (simp only: node_tree_dictionary)

lemma parse_offer:
  assumes "e \<noteq> 0" and "msize < 2 ^ 63"
  shows "parse_extension_handshake (encode (offer_tree e msize)) = Inr (e, word_of_nat msize)"
proof -
  have len: "length (encode (offer_tree e msize)) < 2 ^ 64" using length_offer [OF assms(2), of e] by simp
  obtain root where root: "parse_whole (encode (offer_tree e msize)) ''trailing bytes after extension handshake'' = Inr root"
    "node_tree root = offer_tree e msize"
    using parse_whole_exact [OF len] tree_ok_offer [OF assms(2)] by blast
  from root(2) [unfolded offer_tree_def node_tree_dictionary entry_trees_Cons entry_trees_Nil] obtain m n where d: "bn_value root = BDictionary [(as_bytes ''m'', m), (as_bytes ''metadata_size'', n)]"
    and m: "node_tree m = TDictionary [(as_bytes ''ut_metadata'', TInteger (int (unat e)))]" and n: "node_tree n = TInteger (int msize)"
    unfolding node_tree_dictionary entry_trees_Cons entry_trees_Nil by blast
  from m [unfolded node_tree_dictionary entry_trees_Cons entry_trees_Nil] obtain i where i: "bn_value m = BDictionary [(as_bytes ''ut_metadata'', i)]" "node_tree i = TInteger (int (unat e))"
    by blast
  have keys: "dictionary_value [(as_bytes ''m'', m), (as_bytes ''metadata_size'', n)] (as_bytes ''m'') = Some m"
    "dictionary_value [(as_bytes ''m'', m), (as_bytes ''metadata_size'', n)] (as_bytes ''metadata_size'') = Some n"
    "dictionary_value [(as_bytes ''ut_metadata'', i)] (as_bytes ''ut_metadata'') = Some i"
    by (simp_all add: dictionary_value_def as_bytes_def byte_val_def)
  have u: "unat (ucast e :: u64) = unat e"
    using unat_u8_bound [of e] by (simp add: unsigned_ucast_eq take_bit_nat_eq_self)
  then have "(word_of_nat (unat e) :: u64) = ucast e" by (metis word_of_nat_unat)
  then have e: "node_u64 i l = Inr (ucast e)" for l using node_u64_tree_int [OF i(2), of l] by simp
  have n': "node_u64 n l = Inr (word_of_nat msize)" for l using n by (simp add: node_u64_tree_int)
  have "\<not> (255 :: u64) < ucast e" using u unat_u8_bound [of e] by (simp add: word_less_nat_alt)
  moreover have "(ucast e :: u64) \<noteq> 0" using assms(1) u by (simp add: word_unat_eq_iff)
  moreover have "ucast (ucast e :: u64) = e" by (simp add: word_unat_eq_iff unsigned_ucast_eq take_bit_word_eq_self)
  ultimately show ?thesis
    using keys e n' by (simp add: parse_extension_handshake_def root(1) as_dictionary_def d i(1) required_def ok_or_def)
qed

lemma parse_data:
  assumes "msize < 2 ^ 63" and "piece < 2 ^ 63" and "length data < 2 ^ 63"
  shows "parse_metadata_message_header (encode (data_tree piece msize) @ data)
    = Inr (1, word_of_nat piece, Some (word_of_nat msize), length (encode (data_tree piece msize)))"
proof -
  have len: "length (encode (data_tree piece msize) @ data) < 2 ^ 64" using length_data [OF assms(1,2)] assms(3) by simp
  obtain root where root: "parse_prefix (encode (data_tree piece msize) @ data) = Inr (root, length (encode (data_tree piece msize)))"
    "node_tree root = data_tree piece msize"
    using parse_prefix_complete [OF tree_ok_data [OF assms(1,2)] len] by blast
  from root(2) [unfolded data_tree_def node_tree_dictionary entry_trees_Cons entry_trees_Nil] obtain a b c where d: "bn_value root = BDictionary [(as_bytes ''msg_type'', a), (as_bytes ''piece'', b), (as_bytes ''total_size'', c)]"
    and t: "node_tree a = TInteger 1" "node_tree b = TInteger (int piece)" "node_tree c = TInteger (int msize)"
    by blast
  let ?es = "[(as_bytes ''msg_type'', a), (as_bytes ''piece'', b), (as_bytes ''total_size'', c)]"
  have "dictionary_value ?es (as_bytes ''msg_type'') = Some a" "dictionary_value ?es (as_bytes ''piece'') = Some b"
    "dictionary_value ?es (as_bytes ''total_size'') = Some c"
    by (simp_all add: dictionary_value_def as_bytes_def byte_val_def)
  moreover have "node_u64 a l = Inr 1" "node_u64 b l = Inr (word_of_nat piece)" "node_u64 c l = Inr (word_of_nat msize)" for l
    using t by (simp_all add: node_u64_tree_int)
  ultimately show ?thesis
    by (simp add: parse_metadata_message_header_def root(1) as_dictionary_def d required_def ok_or_def optional_def transpose_opt_def)
qed

section \<open>A peer that answers\<close>

definition metadata_slice :: "bytes \<Rightarrow> nat \<Rightarrow> bytes" where
  "metadata_slice metadata i = take METADATA_PIECE_LENGTH (drop (i * METADATA_PIECE_LENGTH) metadata)"

definition data_message :: "bytes \<Rightarrow> nat \<Rightarrow> bytes" where
  "data_message metadata i = extended_bytes LOCAL_UT_METADATA_ID (encode (data_tree i (length metadata)) @ metadata_slice metadata i)"

definition metadata_greeting :: "bytes \<Rightarrow> bytes \<Rightarrow> bytes \<Rightarrow> bytes" where
  "metadata_greeting reserved info_hash peer_id = [19] @ PROTOCOL_NAME @ reserved @ info_hash @ peer_id"

definition metadata_answers :: "u8 \<Rightarrow> bytes \<Rightarrow> bytes" where
  "metadata_answers extension_id metadata = extended_bytes EXTENDED_HANDSHAKE_ID (encode (offer_tree extension_id (length metadata)))
     @ concat (map (data_message metadata) [0..<metadata_piece_count (length metadata)])"

lemma metadata_ids: "EXTENDED_HANDSHAKE_ID = 0" "LOCAL_UT_METADATA_ID = 1" "METADATA_PIECE_LENGTH = 16384" "MAX_METADATA_SIZE = 4194304"
  by (simp_all add: EXTENDED_HANDSHAKE_ID_def LOCAL_UT_METADATA_ID_def METADATA_PIECE_LENGTH_def MAX_METADATA_SIZE_def)

lemma accept_data_message:
  assumes "length metadata \<le> MAX_METADATA_SIZE" and "i * METADATA_PIECE_LENGTH < length metadata"
  shows "accept_metadata_piece (LOCAL_UT_METADATA_ID # encode (data_tree i (length metadata)) @ metadata_slice metadata i) i
      (length metadata) (min METADATA_PIECE_LENGTH (length metadata - i * METADATA_PIECE_LENGTH)) = Inr (metadata_slice metadata i)"
proof -
  have n: "length metadata < 2 ^ 63" "i < 2 ^ 63" using assms by (simp_all add: metadata_ids)
  have "length (metadata_slice metadata i) = min METADATA_PIECE_LENGTH (length metadata - i * METADATA_PIECE_LENGTH)"
    by (simp add: metadata_slice_def)
  moreover have "length (metadata_slice metadata i) < 2 ^ 63" by (simp add: metadata_slice_def metadata_ids)
  moreover have "unat (word_of_nat (length metadata) :: u64) = length metadata" "unat (word_of_nat i :: u64) = i"
    using n by (simp_all add: unat_of_nat_u64)
  ultimately show ?thesis using parse_data [OF n] by (simp add: accept_metadata_piece_def Let_def)
qed

lemma read_data_message:
  assumes "length metadata \<le> MAX_METADATA_SIZE" and "i * METADATA_PIECE_LENGTH < length metadata"
    and "ps_in S = stream_of (data_message metadata i) @ s"
  shows "read_metadata_piece (Suc n) i (length metadata) (min METADATA_PIECE_LENGTH (length metadata - i * METADATA_PIECE_LENGTH)) e u S
    = (Inr (metadata_slice metadata i, u), S\<lparr>ps_in := s\<rparr>)"
proof -
  let ?payload = "encode (data_tree i (length metadata)) @ metadata_slice metadata i"
  have "length (encode (data_tree i (length metadata))) \<le> 300" using assms(1,2) by (intro length_data) (simp_all add: metadata_ids)
  moreover have "length (metadata_slice metadata i) \<le> 16384" by (simp add: metadata_slice_def metadata_ids)
  ultimately have len: "length ?payload + 2 \<le> 65536" by simp
  define m where "m = LOCAL_UT_METADATA_ID # ?payload"
  have m: "\<not> length m < 2" "m ! 0 = LOCAL_UT_METADATA_ID" "LOCAL_UT_METADATA_ID \<noteq> EXTENDED_HANDSHAKE_ID"
    using encode_nonempty [of "data_tree i (length metadata)"] by (simp_all add: metadata_ids m_def del: length_0_conv)
  note accepted = accept_data_message [OF assms(1,2), folded m_def]
  have "read_exchange_message S = (Inr (Some (EXTENDED_MESSAGE_ID, m)), S\<lparr>ps_in := s\<rparr>)"
    unfolding m_def by (rule read_exchange_message_stream [OF assms(3) [unfolded data_message_def] len])
  then show ?thesis using m accepted by (simp add: pass_def)
qed

lemma metadata_piece_begin: "i < metadata_piece_count n \<Longrightarrow> i * METADATA_PIECE_LENGTH < n"
proof -
  assume i: "i < metadata_piece_count n"
  have "metadata_piece_count n * METADATA_PIECE_LENGTH < n + METADATA_PIECE_LENGTH"
    unfolding metadata_piece_count_def using div_ceil_bounds [of METADATA_PIECE_LENGTH n] by (simp add: metadata_ids)
  moreover have "Suc i * METADATA_PIECE_LENGTH \<le> metadata_piece_count n * METADATA_PIECE_LENGTH" using i by (intro mult_le_mono1) simp
  ultimately show ?thesis by simp
qed

lemma metadata_piece_last: "n \<le> metadata_piece_count n * METADATA_PIECE_LENGTH"
  unfolding metadata_piece_count_def using div_ceil_bounds [of METADATA_PIECE_LENGTH n] by (simp add: metadata_ids)

lemma request_free: "i < 2 ^ 63 \<Longrightarrow> ps_room S = None \<Longrightarrow> send_extended e (metadata_request i) S
    = (Inr (), S\<lparr>ps_out := ps_out S @ extended_bytes e (metadata_request i)\<rparr>)"
  using length_dec_le [of 20 i] by (intro send_extended_free) (simp_all add: metadata_request_def)

lemma fetch_answered_pieces:
  assumes n: "length metadata \<le> MAX_METADATA_SIZE"
  shows "k \<le> metadata_piece_count (length metadata) \<Longrightarrow> ps_room S = None \<Longrightarrow>
    ps_in S = stream_of (concat (map (data_message metadata) [k..<metadata_piece_count (length metadata)])) \<Longrightarrow>
    \<exists>T. fetch_metadata_pieces e (length metadata) [k..<metadata_piece_count (length metadata)] (take (k * METADATA_PIECE_LENGTH) metadata) u S = (Inr metadata, T)
      \<and> ps_out T = ps_out S @ concat (map (\<lambda>i. extended_bytes e (metadata_request i)) [k..<metadata_piece_count (length metadata)])"
proof (induction "metadata_piece_count (length metadata) - k" arbitrary: k S)
  case 0
  then show ?case using metadata_piece_last [of "length metadata"] by simp
next
  case (Suc m)
  let ?c = "metadata_piece_count (length metadata)"
  have k: "k < ?c" and m: "m = ?c - Suc k" using Suc.hyps(2) by simp_all
  have lt: "k * METADATA_PIECE_LENGTH < length metadata" by (rule metadata_piece_begin [OF k])
  have small: "k < 2 ^ 63" using lt n by (simp add: metadata_ids)
  have more: "[k..<?c] = k # [Suc k..<?c]" using k by (simp add: upt_conv_Cons)
  let ?S1 = "S\<lparr>ps_out := ps_out S @ extended_bytes e (metadata_request k)\<rparr>"
  let ?rest = "stream_of (concat (map (data_message metadata) [Suc k..<?c]))"
  have sent: "send_extended e (metadata_request k) S = (Inr (), ?S1)" using request_free [OF small Suc.prems(2)] .
  have got: "read_metadata_piece 128 k (length metadata) (min METADATA_PIECE_LENGTH (length metadata - k * METADATA_PIECE_LENGTH)) e u ?S1
      = (Inr (metadata_slice metadata k, u), ?S1\<lparr>ps_in := ?rest\<rparr>)"
    using read_data_message [OF n lt, of ?S1 ?rest 127 e u] Suc.prems(3) by (simp add: more)
  have grown: "take (k * METADATA_PIECE_LENGTH) metadata @ metadata_slice metadata k = take (Suc k * METADATA_PIECE_LENGTH) metadata"
    unfolding metadata_slice_def take_add [symmetric] by (simp add: add.commute)
  have l: "length (take (k * METADATA_PIECE_LENGTH) metadata) = k * METADATA_PIECE_LENGTH" using lt by simp
  obtain T where T: "fetch_metadata_pieces e (length metadata) [Suc k..<?c] (take (Suc k * METADATA_PIECE_LENGTH) metadata) u (?S1\<lparr>ps_in := ?rest\<rparr>) = (Inr metadata, T)"
    "ps_out T = ps_out ?S1 @ concat (map (\<lambda>i. extended_bytes e (metadata_request i)) [Suc k..<?c])"
    using Suc.hyps(1) [OF m, of "?S1\<lparr>ps_in := ?rest\<rparr>"] Suc.prems(2) k by auto
  show ?case unfolding more fetch_metadata_pieces.simps then_do_def sent got l prod.case sum.case grown T(1) using T(2) by simp
qed

text \<open>The whole exchange.\<close>

lemma then_do_step: "m S = (Inr x, T) \<Longrightarrow> f x T = r \<Longrightarrow> then_do m f S = r"
  by simp

lemma exchange_with_honest_peer:
  assumes ih: "cx_hex_decode (bx_cdc X) (mg_info_hash_sha1 magnet) = Inr ih" "length ih = 20"
    and reserved: "length reserved = 8" "(reserved ! 5) AND 0x10 \<noteq> 0" and "length remote_peer_id = 20"
    and e: "e \<noteq> 0" and n: "0 < length metadata" "length metadata \<le> MAX_METADATA_SIZE"
    and S: "ps_room S = None" "ps_in S = stream_of (metadata_greeting reserved ih remote_peer_id @ metadata_answers e metadata)"
  shows "\<exists>T. exchange_metadata X magnet local_peer_id S = (Inr (metadata, reserved, remote_peer_id, e), T)
    \<and> ps_out T = ps_out S @ metadata_greeting ((replicate 8 0)[5 := 0x10]) ih local_peer_id
        @ extended_bytes EXTENDED_HANDSHAKE_ID (as_bytes ''d1:md11:ut_metadatai1eee'')
        @ concat (map (\<lambda>i. extended_bytes e (metadata_request i)) [0..<metadata_piece_count (length metadata)])"
proof -
  let ?n = "length metadata" and ?offer = "as_bytes ''d1:md11:ut_metadatai1eee''"
  let ?greeting = "metadata_greeting ((replicate 8 0)[5 := 0x10]) ih local_peer_id"
  let ?h = "metadata_greeting reserved ih remote_peer_id"
  have n63: "?n < 2 ^ 63" using n(2) by (simp add: metadata_ids)
  let ?S1 = "S\<lparr>ps_out := ps_out S @ ?greeting\<rparr>"
  have hello: "send_metadata_handshake X (mg_info_hash_sha1 magnet) local_peer_id S = (Inr (), ?S1)"
    using ih S(1) by (simp add: send_metadata_handshake_def then_do_def pass_def write_all_def metadata_greeting_def protocol_name del: replicate.simps)
  let ?S2 = "?S1\<lparr>ps_in := stream_of (metadata_answers e metadata)\<rparr>"
  have parts: "length ?h = HANDSHAKE_LENGTH" "?h ! 0 = 19" "take 19 (drop 1 ?h) = PROTOCOL_NAME" "take 8 (drop 20 ?h) = reserved"
    "take 20 (drop 28 ?h) = ih" "take 20 (drop 48 ?h) = remote_peer_id"
    using protocol_name(1) reserved(1) ih(2) assms(5) by (simp_all add: metadata_greeting_def HANDSHAKE_LENGTH_def)
  have "read_bytes HANDSHAKE_LENGTH ?S1 = (Inr ?h, ?S2)" using S(2) parts(1) by (intro read_bytes_stream [THEN trans]) simp_all
  then have greeted: "read_metadata_handshake X (mg_info_hash_sha1 magnet) ?S1 = (Inr (reserved, remote_peer_id), ?S2)"
    using parts ih(1) by (simp add: read_metadata_handshake_def then_do_def pass_def protocol_name)
  let ?S3 = "?S2\<lparr>ps_out := ps_out ?S2 @ extended_bytes EXTENDED_HANDSHAKE_ID ?offer\<rparr>"
  have offered: "send_extended EXTENDED_HANDSHAKE_ID ?offer ?S2 = (Inr (), ?S3)"
    using S(1) by (intro send_extended_free [THEN trans]) simp_all
  let ?S4 = "?S3\<lparr>ps_in := stream_of (concat (map (data_message metadata) [0..<metadata_piece_count ?n]))\<rparr>"
  have "length (encode (offer_tree e ?n)) \<le> 300" by (rule length_offer [OF n63])
  then have "read_exchange_message ?S3 = (Inr (Some (EXTENDED_MESSAGE_ID, EXTENDED_HANDSHAKE_ID # encode (offer_tree e ?n))), ?S4)"
    by (intro read_exchange_message_stream [THEN trans]) (simp_all add: metadata_answers_def)
  moreover have "(64 :: nat) = Suc 63" by simp
  ultimately have mapping: "read_extension_handshake 64 ?S3 = (Inr (e, word_of_nat ?n), ?S4)"
    using parse_offer [OF e n63] by (simp only: read_extension_handshake.simps) (simp add: pass_def)
  have w: "unat (word_of_nat ?n :: u64) = ?n" using n63 by (simp add: unat_of_nat_u64)
  then have in_range: "\<not> ((word_of_nat ?n :: u64) = 0 \<or> MAX_METADATA_SIZE < unat (word_of_nat ?n :: u64))"
    using n by (metis less_numeral_extra(3) not_less unat_0)
  obtain T where T: "fetch_metadata_pieces e ?n [0..<metadata_piece_count ?n] [] 0 ?S4 = (Inr metadata, T)"
    "ps_out T = ps_out ?S4 @ concat (map (\<lambda>i. extended_bytes e (metadata_request i)) [0..<metadata_piece_count ?n])"
    using fetch_answered_pieces [OF n(2), of 0 ?S4 e 0] S(1) by auto
  have "exchange_metadata X magnet local_peer_id S = (Inr (metadata, reserved, remote_peer_id, e), T)"
    unfolding exchange_metadata_def
    by (rule then_do_step, rule hello, rule then_do_step, rule greeted, simp only: prod.case reserved(2) if_False,
        rule then_do_step, rule offered, rule then_do_step, rule mapping, simp only: prod.case in_range if_False, simp only: w,
        rule then_do_step, rule T(1), simp only: pass_def)
  with T(2) show ?thesis by simp
qed

section \<open>The torrent\<close>

lemma fetched_metadata:
  assumes "fetch_v1_metadata_from_peer X engine_version pid magnet peer S = (Inr (t, report), T)"
  obtains metadata reserved remote_peer_id e local_peer_id U where "exchange_metadata X magnet local_peer_id S = (Inr (metadata, reserved, remote_peer_id, e), U)"
    and "torrent_of_metadata X magnet metadata = Inr t" and "md_metadata_bytes report = word_of_nat (length metadata)"
    and "md_remote_ut_metadata_id report = e" and "md_info_hash_sha1 report = sha1_hex X metadata"
  using assms unfolding fetch_v1_metadata_from_peer_def by (auto simp: then_do_eq_Inr pass_def)

lemma fetch_of_exchange:
  assumes "exchange_metadata X magnet local_peer_id S = (Inr (metadata, reserved, remote_peer_id, e), T)"
    and "torrent_of_metadata X magnet metadata = Inr t"
  shows "\<exists>report. fetch_v1_metadata_from_peer X engine_version (Inr local_peer_id) magnet peer S = (Inr (t, report), T)"
  unfolding fetch_v1_metadata_from_peer_def using assms by (simp add: then_do_def pass_def)

text \<open>The trackers of the torrent are those of the link already.\<close>

lemma torrent_of_metadata_bind: "torrent_of_metadata X magnet metadata = Inr t \<Longrightarrow> bind_v1_magnet magnet t = Inr t"
  by (cases "mg_trackers magnet")
     (auto simp: torrent_of_metadata_def parse_v1_info_dictionary_def parse_v1_info_node_def bind_v1_magnet_def Let_def)

end
