(* ===== verification/Bt_Service_Properties.thy ===== *)
theory Bt_Service_Properties
  imports Bt_Seed_Properties Bt_Tracker_Safety Bt_Metadata_Exchange
begin

text \<open>
  The properties of what surrounds a transfer: the accounts of a seeder, the announcements to trackers and the
  metadata behind a magnet link, each with an instance at the sample torrent.
\<close>

section \<open>The accounts of a seeder\<close>

definition tiny_report :: bt_seed_report where
  "tiny_report = start_file_report ''1'' tiny_torrent ''/s/f'' sample_peer ''00'' (connections_only (Some 1))"

definition tiny_connection :: finished where
  "tiny_connection = (new_seeding\<lparr>sn_block_requests := 1, sn_payload_bytes_sent := 1\<rparr>, None)"

text \<open>C37: The report of a seeder accounts exactly for its connections: when the loop has ended without an error, every
  accepted connection has been joined and merged once, at most the allowed number was accepted and never more
  than four at a time, and the bytes, the block requests and the errors reported are the sums over the
  connections. Until then the loop can always go on.\<close>

theorem seeder_accounts_exactly:
  assumes "(listener_step (merge_file_connection max_connections) max_connections)\<^sup>*\<^sup>*
    (initial_listener (start_file_report engine_version t source bind source_sha256 options)) L"
  shows "(li_outcome L = None \<longrightarrow> (\<exists>L'. listener_step (merge_file_connection max_connections) max_connections L L'))
    \<and> (\<forall>report. li_outcome L = Some (Inr report) \<longrightarrow> li_running L = 0 \<and> li_channel L = []
        \<and> sr_connections report = word_of_nat (length (li_merged L))
        \<and> sr_payload_bytes_sent report = (\<Sum>(S, failed)\<leftarrow>li_merged L. sn_payload_bytes_sent S)
        \<and> sr_block_requests report = (\<Sum>(S, failed)\<leftarrow>li_merged L. sn_block_requests S)
        \<and> sr_protocol_errors report = word_of_nat (errors_in (li_merged L))
        \<and> unat (sr_peak_concurrent_connections report) \<le> MAX_ACTIVE_UPLOAD_CONNECTIONS
        \<and> (\<forall>limit. max_connections = Some limit \<longrightarrow> length (li_merged L) \<le> unat limit))"
proof -
  have acc: "file_merge.accounts max_connections L"
    by (rule file_merge.accounts_reachable [OF assms]) (simp_all add: start_file_report_def)
  then show ?thesis using file_merge.listener_not_stuck by (auto simp: file_merge.accounts_def)
qed

theorem seeder_accounts_exactly_witness:
  "\<exists>(L :: bt_seed_report listener) report. li_outcome L = Some (Inr report) \<and> length (li_merged L) = 1 \<and> sr_connections report = 1 \<and> sr_payload_bytes_sent report = 1
    \<and> sr_protocol_errors report = 0"
proof -
  let ?step = "listener_step (merge_file_connection (Some 1)) (Some 1)"
  let ?L0 = "initial_listener tiny_report"
  let ?L1 = "count_seed_connection ?L0"
  let ?L2 = "?L1\<lparr>li_running := 0, li_channel := [tiny_connection]\<rparr>"
  obtain r e where m: "merge_file_connection (Some 1) tiny_connection (li_report ?L2, li_fatal_error ?L2) = (r, e)"
    by (cases "merge_file_connection (Some 1) tiny_connection (li_report ?L2, li_fatal_error ?L2)")
  let ?L3 = "?L2\<lparr>li_channel := [], li_active := 0, li_report := r, li_fatal_error := e, li_merged := [tiny_connection]\<rparr>"
  let ?L4 = "?L3\<lparr>li_draining := True\<rparr>"
  let ?L5 = "?L4\<lparr>li_outcome := Some (case li_fatal_error ?L4 of Some e \<Rightarrow> Inl e | None \<Rightarrow> Inr (li_report ?L4\<lparr>sr_shutdown_requested := False\<rparr>))\<rparr>"
  have e: "e = None" using m by (simp add: merge_file_connection_def tiny_connection_def merge_error_def initial_listener_def count_seed_connection_def Let_def)
  have "?step ?L0 ?L1"
    by (rule listener_step.accept)
       (simp_all add: initial_listener_def must_stop_def tiny_report_def start_file_report_def MAX_ACTIVE_UPLOAD_CONNECTIONS_def)
  moreover have "?step ?L1 ?L2"
    using listener_step.ends [of ?L1 "merge_file_connection (Some 1)" "Some 1" tiny_connection] by (simp add: count_seed_connection_def initial_listener_def Let_def)
  moreover have "?step ?L2 ?L3"
    using listener_step.receive [where L = ?L2 and result = tiny_connection and rest = "[]" and merge = "merge_file_connection (Some 1)"
      and max_connections = "Some 1", OF _ _ m] by (simp add: count_seed_connection_def initial_listener_def Let_def)
  moreover have "?step ?L3 ?L4"
  proof (rule listener_step.stop)
    show "must_stop (Some 1) True ?L3" by (simp add: must_stop_def)
  qed (simp_all add: count_seed_connection_def initial_listener_def Let_def)
  moreover have "?step ?L4 ?L5"
    by (rule listener_step.finish) (simp_all add: count_seed_connection_def initial_listener_def Let_def)
  ultimately have steps: "?step\<^sup>*\<^sup>* ?L0 ?L5" by (auto intro: converse_rtranclp_into_rtranclp)
  note facts = seeder_accounts_exactly [OF steps [unfolded tiny_report_def]]
  have out: "li_outcome ?L5 = Some (Inr (r\<lparr>sr_shutdown_requested := False\<rparr>))" by (simp add: e)
  have "sr_connections r = 1 \<and> sr_payload_bytes_sent r = 1 \<and> sr_protocol_errors r = 0"
    using conjunct2 [OF facts] by (simp add: e tiny_connection_def errors_in_def new_seeding_def)
  then show ?thesis by (intro exI [of _ ?L5] exI [of _ "r\<lparr>sr_shutdown_requested := False\<rparr>"]) (simp add: e)
qed

section \<open>Trackers\<close>

text \<open>A tracker that answers every announcement with an empty dictionary, and a downloader that refuses.\<close>

definition sample_tracker :: tracker_ext where
  "sample_tracker = \<lparr>tx_bt = inst_bt, tx_http_get = \<lambda>_ _ _. Inr [100, 101], tx_url_parse = \<lambda>_. Inl (Bail ''no url''),
     tx_resolve = \<lambda>_ _ _. Inr [], tx_udp_connect = \<lambda>_ _. Inr (), tx_udp_exchange = \<lambda>_ _ _. Inr [], tx_system_time = \<lambda>_ _ _. Inr 0,
     tx_process_id = 0, tx_instant = \<lambda>_. 0, tx_uploaded = \<lambda>_. 0\<rparr>"

definition refusing :: transfer where
  "refusing k peers = (Inl (Bail ''refusing to overwrite existing output''), [])"

lemma refusing_downloads: "downloads_with inst_bt sample_resume_ext sample_index (\<lambda>_. None) tiny_torrent tiny_descriptor ''out'' refusing"
proof -
  have "fetch_run inst_bt sample_resume_ext sample_index (\<lambda>_. None) tiny_torrent tiny_descriptor peers ''out'' [''out'' \<mapsto> Regular [] (Inr 0)]
      (fst (refusing k peers)) [''out'' \<mapsto> Regular [] (Inr 0)]" for k peers
    unfolding refusing_def fst_conv by (rule fetch_run.refused [of _ _ _ _ "Inr 0"]) (simp add: fetch_start_def)
  then show ?thesis unfolding downloads_with_def by blast
qed

lemma sample_tracker_bt: "tx_bt sample_tracker = inst_bt"
  by (simp add: sample_tracker_def)

lemma empty_response: "parse_tracker_response [100, 101] = Inr \<lparr>tr_interval = 0, tr_peers = [], tr_warning_message = None\<rparr>"
proof -
  have "encode (TDictionary []) = [100, 101]" "tree_ok 0 (TDictionary [])" by (simp_all add: MAX_BENCODE_DEPTH_def)
  then obtain x where x: "parse_whole [100, 101] ''trailing bytes after bencoded tracker response'' = Inr x" "node_tree x = TDictionary []"
    using parse_whole_exact [of "[100, 101]" "''trailing bytes after bencoded tracker response''" "TDictionary []"] by auto
  then have "bn_value x = BDictionary []" by (simp add: node_tree_dictionary)
  then show ?thesis
    using x(1) by (simp add: parse_tracker_response_def as_dictionary_def dictionary_value_def optional_def transpose_opt_def keep_first_def)
qed

lemma sample_answer: "announce sample_tracker k ''http://t'' tiny_torrent peer_id key port counters event
    = Inr \<lparr>tr_interval = 0, tr_peers = [], tr_warning_message = None\<rparr>"
proof -
  have "scheme_of ''http://t'' = Some ''http''" by simp
  then show ?thesis using tiny_hash_decoded empty_response
    by (simp add: announce_def announce_http_def decode_info_hash_def sample_tracker_def ok_or_def to_ascii_lowercase_def to_ascii_lowercase_char_def is_ascii_upper_def byte_val_def)
qed

lemma single_tier: "shuffled_tier X [tracker] peer_id i = [tracker]"
  by (simp add: shuffled_tier_def)

lemma search_sample_tier:
  "search_tier sample_tracker refusing tiny_torrent peer_id key port missing out s (i, [''http://t'']) = Inr (s\<lparr>
     ts_moment := ts_moment s + 2,
     ts_attempts := ts_attempts s @ [\<lparr>da_tier = word_of_nat i, da_tracker = ''http://t'', da_peers_returned = 0,
       da_interval_seconds = Some 0, da_error = None\<rparr>],
     ts_lifecycle := ts_lifecycle s @ [lifecycle_attempt ''http://t'' Started (Inr \<lparr>tr_interval = 0, tr_peers = [], tr_warning_message = None\<rparr>),
       lifecycle_attempt ''http://t'' Stopped (Inr \<lparr>tr_interval = 0, tr_peers = [], tr_warning_message = None\<rparr>)]\<rparr>)"
proof -
  have "redact_tracker_url ''http://t'' = ''http://t''" by (simp add: redact_tracker_url_def)
  then show ?thesis
    by (simp add: search_tier_def single_tier ask_tracker_def Let_def sample_answer refusing_def announce_all_def announce_tracker_event_def)
qed

text \<open>C38: Whatever becomes of a download through trackers, every tracker that took its start is told of its stop later, and
  a report that is returned holds the whole log of announcements.\<close>

theorem started_trackers_are_stopped:
  assumes "fetch_v1_via_tracker X transfer db fs new_peer_id t d tracker_override port output_path = (r, s)"
    and "downloads_with (tx_bt X) R db disk t d output_path transfer"
  shows "all_stopped (ts_lifecycle s) \<and> (\<forall>report. r = Inr report \<longrightarrow> tf_tracker_lifecycle report = ts_lifecycle s)"
  using fetch_stops_trackers [OF assms(1) downloads_need_peers [OF assms(2)]] by blast

theorem started_trackers_are_stopped_witness:
  "all_stopped (ts_lifecycle (snd (fetch_v1_via_tracker sample_tracker refusing sample_index sample_files (Inr sample_id) tiny_torrent
     tiny_descriptor (Some ''http://t'') 6881 ''out'')))
   \<and> map la_event (ts_lifecycle (snd (fetch_v1_via_tracker sample_tracker refusing sample_index sample_files (Inr sample_id) tiny_torrent
     tiny_descriptor (Some ''http://t'') 6881 ''out''))) = [''started'', ''stopped'']"
proof -
  let ?run = "fetch_v1_via_tracker sample_tracker refusing sample_index sample_files (Inr sample_id) tiny_torrent tiny_descriptor (Some ''http://t'') 6881 ''out''"
  have d: "downloads_with (tx_bt sample_tracker) sample_resume_ext sample_index (\<lambda>_. None) tiny_torrent tiny_descriptor ''out'' refusing"
    using refusing_downloads by (simp add: sample_tracker_def)
  have "all_stopped (ts_lifecycle (snd ?run))"
    using started_trackers_are_stopped [OF surjective_pairing d, of sample_files "Inr sample_id" "Some ''http://t''" 6881] by simp
  moreover have "map la_event (ts_lifecycle (snd ?run)) = [''started'', ''stopped'']"
    using tiny_plan_made
    by (simp add: fetch_v1_via_tracker_def tracker_tiers_def sample_tracker_bt search_sample_tier initial_tier_state_def)
  ultimately show ?thesis by blast
qed

section \<open>Metadata\<close>

text \<open>A magnet link to the sample torrent, and a peer that has its metadata.\<close>

definition sample_magnet :: magnet_v1 where
  "sample_magnet = \<lparr>mg_info_hash_sha1 = tv_info_hash_sha1 tiny_torrent, mg_display_name = None, mg_trackers = []\<rparr>"

definition sample_reserved :: bytes where
  "sample_reserved = [0, 0, 0, 0, 0, 0x10, 0, 0]"

definition metadata_socket :: socket where
  "metadata_socket = \<lparr>ps_in = stream_of (metadata_greeting sample_reserved tiny_hash sample_id @ metadata_answers 3 (encode tiny_info)),
     ps_out = [], ps_room = None\<rparr>"

lemma tiny_info_length: "0 < length (encode tiny_info)" "length (encode tiny_info) \<le> MAX_METADATA_SIZE" "length (encode tiny_info) < 2 ^ 64"
  by (simp_all add: tiny_info_def encode_bytes_def dec_int_def dec.simps MAX_METADATA_SIZE_def pad_to_def)

lemma tiny_metadata_torrent: "torrent_of_metadata inst_bt sample_magnet (encode tiny_info) = Inr tiny_torrent"
proof -
  have "tree_ok 0 tiny_info" by (simp add: tiny_info_def MAX_BENCODE_DEPTH_def i64_max_def as_bytes_def byte_val_def)
  then obtain x where x: "parse_whole (encode tiny_info) ''trailing bytes after bencoded info dictionary'' = Inr x" "node_tree x = tiny_info"
    using parse_whole_exact [OF tiny_info_length(3)] by blast
  have "node_tree tiny_info_node = tiny_info" by (simp add: tiny_info_node_def tiny_info_def)
  then have "parse_v1_info_node inst_bt x (encode tiny_info) None None = Inr tiny_torrent"
    using parse_v1_info_node_tree [OF tiny_info_parsed] x(2) by simp
  moreover have "sha1_hex inst_bt (encode tiny_info) = mg_info_hash_sha1 sample_magnet" by (simp add: sample_magnet_def tiny_torrent_def)
  ultimately show ?thesis using x(1) by (simp add: torrent_of_metadata_def sample_magnet_def parse_v1_info_dictionary_def)
qed

lemma sample_metadata_fetched:
  "\<exists>report T. fetch_v1_metadata_from_peer inst_bt ''1'' (Inr sample_id) sample_magnet sample_peer metadata_socket = (Inr (tiny_torrent, report), T)"
proof -
  have ih: "cx_hex_decode (bx_cdc inst_bt) (mg_info_hash_sha1 sample_magnet) = Inr tiny_hash" using tiny_hash_decoded by (simp add: sample_magnet_def)
  obtain T where "exchange_metadata inst_bt sample_magnet sample_id metadata_socket = (Inr (encode tiny_info, sample_reserved, sample_id, 3), T)"
    using exchange_with_honest_peer [OF ih tiny_hash_decoded(2) _ _ new_ends(7) _ tiny_info_length(1,2), of sample_reserved 3 metadata_socket sample_id]
    by (auto simp: sample_reserved_def metadata_socket_def)
  from fetch_of_exchange [OF this tiny_metadata_torrent] show ?thesis by blast
qed

text \<open>C39: Whatever a metadata peer sends, the torrent fetched for a magnet link is the one of the link, read from its metadata: these
  are the canonical encoding of a dictionary of at most 4 MiB whose SHA-1 is the info hash of the link and of the torrent; the
  entries of the dictionary are the name of the torrent, its length, the length of its pieces and their SHA-1, and parsing
  it, with the trackers of the link, gives just this torrent; the report gives the size of the metadata, and the link binds the
  torrent without changing it.\<close>

theorem metadata_bound_to_magnet:
  assumes "fetch_v1_metadata_from_peer X engine_version new_peer_id magnet peer S = (Inr (t, report), T)" and "bt_ext_ok X"
  shows "bind_v1_magnet magnet t = Inr t \<and> tv_info_hash_sha1 t = mg_info_hash_sha1 magnet
    \<and> (\<exists>es. sha1_hex X (encode (TDictionary es)) = mg_info_hash_sha1 magnet \<and> tree_ok 0 (TDictionary es)
         \<and> read_from X es t
         \<and> parse_v1_info_dictionary X (encode (TDictionary es)) (case mg_trackers magnet of [] \<Rightarrow> None | tracker # _ \<Rightarrow> Some tracker)
             (if mg_trackers magnet \<noteq> [] then Some [mg_trackers magnet] else None) = Inr t
         \<and> length (encode (TDictionary es)) \<le> MAX_METADATA_SIZE
         \<and> unat (md_metadata_bytes report) = length (encode (TDictionary es)))"
  using assms(1)
proof (rule fetched_metadata)
  fix metadata reserved remote_peer_id e local_peer_id U
  assume run: "exchange_metadata X magnet local_peer_id S = (Inr (metadata, reserved, remote_peer_id, e), U)"
    and t: "torrent_of_metadata X magnet metadata = Inr t" and n: "md_metadata_bytes report = word_of_nat (length metadata)"
  note len = exchange_metadata_length(2) [OF run]
  have small: "length metadata < 2 ^ 64" using len by (simp add: metadata_ids)
  note bound = torrent_of_metadata_bound [OF t assms(2) small]
  obtain es where es: "metadata = encode (TDictionary es)" "tree_ok 0 (TDictionary es)" "read_from X es t" using bound(3) by blast
  have "unat (md_metadata_bytes report) = length metadata" unfolding n using small by (simp add: unat_of_nat_u64)
  moreover have "parse_v1_info_dictionary X metadata (case mg_trackers magnet of [] \<Rightarrow> None | tracker # _ \<Rightarrow> Some tracker)
      (if mg_trackers magnet \<noteq> [] then Some [mg_trackers magnet] else None) = Inr t"
    using t by (simp add: torrent_of_metadata_def)
  ultimately show ?thesis using bound(1,2) len es torrent_of_metadata_bind [OF t] by blast
qed

theorem metadata_bound_to_magnet_witness:
  "\<exists>report T. fetch_v1_metadata_from_peer inst_bt ''1'' (Inr sample_id) sample_magnet sample_peer metadata_socket = (Inr (tiny_torrent, report), T)
    \<and> bind_v1_magnet sample_magnet tiny_torrent = Inr tiny_torrent
    \<and> (\<exists>es. read_from inst_bt es tiny_torrent \<and> unat (md_metadata_bytes report) = length (encode (TDictionary es)))"
proof -
  obtain report T where run: "fetch_v1_metadata_from_peer inst_bt ''1'' (Inr sample_id) sample_magnet sample_peer metadata_socket
      = (Inr (tiny_torrent, report), T)"
    using sample_metadata_fetched by blast
  from metadata_bound_to_magnet [OF run inst_bt_ok] run show ?thesis by blast
qed

text \<open>C40: A peer that follows the extension delivers the metadata: when it offers an identifier and the size, and answers
  every request in turn with the piece of the metadata, the exchange ends with the torrent of the metadata, and
  what was sent is the handshake, the offer of the extension and one request per piece.\<close>

theorem metadata_peer_delivers:
  assumes "cx_hex_decode (bx_cdc X) (mg_info_hash_sha1 magnet) = Inr ih" and "length ih = 20"
    and "length reserved = 8" and "(reserved ! 5) AND 0x10 \<noteq> 0" and "length remote_peer_id = 20" and "e \<noteq> 0"
    and "0 < length metadata" and "length metadata \<le> MAX_METADATA_SIZE" and "torrent_of_metadata X magnet metadata = Inr t"
    and "ps_room S = None" and "ps_out S = []"
    and "ps_in S = stream_of (metadata_greeting reserved ih remote_peer_id @ metadata_answers e metadata)"
  shows "\<exists>report T. fetch_v1_metadata_from_peer X engine_version (Inr local_peer_id) magnet peer S = (Inr (t, report), T)
    \<and> ps_out T = metadata_greeting ((replicate 8 0)[5 := 0x10]) ih local_peer_id
        @ extended_bytes EXTENDED_HANDSHAKE_ID (as_bytes ''d1:md11:ut_metadatai1eee'')
        @ concat (map (\<lambda>i. extended_bytes e (metadata_request i)) [0..<metadata_piece_count (length metadata)])"
proof -
  from exchange_with_honest_peer [OF assms(1-8,10,12), of local_peer_id] obtain T where
    run: "exchange_metadata X magnet local_peer_id S = (Inr (metadata, reserved, remote_peer_id, e), T)" and
    out: "ps_out T = metadata_greeting ((replicate 8 0)[5 := 0x10]) ih local_peer_id
        @ extended_bytes EXTENDED_HANDSHAKE_ID (as_bytes ''d1:md11:ut_metadatai1eee'')
        @ concat (map (\<lambda>i. extended_bytes e (metadata_request i)) [0..<metadata_piece_count (length metadata)])"
    unfolding assms(11) append_Nil by blast
  show ?thesis by (rule fetch_of_exchange [OF run assms(9), THEN exE]) (use out in blast)
qed

theorem metadata_peer_delivers_witness:
  "\<exists>report T. fetch_v1_metadata_from_peer inst_bt ''1'' (Inr sample_id) sample_magnet sample_peer metadata_socket = (Inr (tiny_torrent, report), T)"
proof -
  have "cx_hex_decode (bx_cdc inst_bt) (mg_info_hash_sha1 sample_magnet) = Inr tiny_hash" using tiny_hash_decoded by (simp add: sample_magnet_def)
  from metadata_peer_delivers [OF this tiny_hash_decoded(2) _ _ new_ends(7) _ tiny_info_length(1,2) tiny_metadata_torrent,
      where reserved = sample_reserved and e = 3 and S = metadata_socket and engine_version = "''1''" and local_peer_id = sample_id and peer = sample_peer]
  show ?thesis by (auto simp: sample_reserved_def metadata_socket_def)
qed

end
