(* ===== verification/Smd_Devnet.thy ===== *)
theory Smd_Devnet
  imports Smd_Liveness Meld_Action
begin

text \<open>
  The scenario of \<open>crates/smd-core/src/devnet.rs\<close>: two wallets, one receipt, one mining, two payments and a
  restart. It is an action on the database of one ledger, in which every operation commits before the next.
\<close>

section \<open>Operations on an open ledger\<close>

text \<open>
  \<open>Ledger::open\<close> leaves what \<open>initialize\<close> has committed even when the check after it fails. A \<open>Ledger\<close> is a
  connection: an operation works on what the database holds now, and when it fails it has changed nothing.
\<close>

definition open_ledger :: "network_id \<Rightarrow> (ledger_db, ledger) action" where
  "open_ledger network db = (case ledger_open db network of
      Inr L \<Rightarrow> (Inr L, lg_db L)
    | Inl e \<Rightarrow> (Inl e, if network \<noteq> Devnet then db else case initialize_db network db of Inr db \<Rightarrow> db | Inl _ \<Rightarrow> db))"

definition update_ledger :: "(ledger \<Rightarrow> (ledger \<times> 'a) result) \<Rightarrow> ledger \<Rightarrow> (ledger_db, ledger \<times> 'a) action" where
  "update_ledger f L db = (case f (L\<lparr>lg_db := db\<rparr>) of Inl e \<Rightarrow> (Inl e, db) | Inr (L, x) \<Rightarrow> (Inr (L, x), lg_db L))"

section \<open>The scenario\<close>

record devnet_scenario_report =
  ds_label :: string
  ds_network_id :: network_id
  ds_alice_address :: string
  ds_bob_address :: string
  ds_contribution_receipt_id :: string
  ds_reward :: reward_summary
  ds_alice_to_bob_transaction_id :: string
  ds_bob_to_reserve_transaction_id :: string
  ds_alice_balance :: amount
  ds_bob_balance :: amount
  ds_ledger_after_restart :: ledger_status

definition alice :: wallet where
  "alice = from_secret_bytes Devnet (replicate 32 0xA1)"

definition bob :: wallet where
  "bob = from_secret_bytes Devnet (replicate 32 0xB2)"

definition scenario_content :: "smd_ext \<Rightarrow> string" where
  "scenario_content X = sha256_hex X (as_bytes ''verified-shardmeld-payload'')"

text \<open>A payment: the amount is parsed, the nonce read from the ledger.\<close>

definition scenario_payment ::
    "smd_ext \<Rightarrow> wallet \<Rightarrow> address \<Rightarrow> address \<Rightarrow> string \<Rightarrow> ledger \<Rightarrow> (ledger_db, ledger \<times> string) action" where
  "scenario_payment X w from to amount_text L =
     then_do (pass (amount_from_str amount_text)) (\<lambda>amount.
     then_do (pass (ledger_account L from)) (\<lambda>account.
     then_do (pass (tx_signed X w to amount (acc_nonce account) 1 10)) (\<lambda>t.
     update_ledger (\<lambda>L. submit_transaction X L t 1) L)))"

definition run_devnet_scenario :: "smd_ext \<Rightarrow> (ledger_db, devnet_scenario_report) action" where
  "run_devnet_scenario X =
     then_do (pass (wallet_address X alice)) (\<lambda>alice_address.
     then_do (pass (wallet_address X bob)) (\<lambda>bob_address.
     then_do (open_ledger Devnet) (\<lambda>L.
     then_do (pass (ledger_status L)) (\<lambda>initial.
     then_do (pass (bail_if (ls_transactions initial \<noteq> 0 \<or> ls_contribution_receipts initial \<noteq> 0)
        ''devnet scenario requires a fresh ledger'' (Inr ()))) (\<lambda>_.
     then_do (pass (cr_confirmed X alice bob ''smd-v01-scenario-session'' (scenario_content X) (2 * 1073741824)
        CdcReconstructionUpload 1 0)) (\<lambda>receipt.
     then_do (update_ledger (\<lambda>L. submit_contribution X L receipt) L) (\<lambda>(L, receipt_id).
     then_do (update_ledger (\<lambda>L. mine_rewards X (devnet_order X) L 1) L) (\<lambda>(L, reward).
     then_do (scenario_payment X alice alice_address bob_address ''5.00000000'' L) (\<lambda>(L, alice_tx_id).
     then_do (scenario_payment X bob bob_address reserve_address ''2.00000000'' L) (\<lambda>(L, reserve_tx_id).
     then_do (pass (verify_invariants L)) (\<lambda>_.
     then_do (pass (ledger_account L alice_address)) (\<lambda>alice_account.
     then_do (pass (ledger_account L bob_address)) (\<lambda>bob_account.
     then_do (open_ledger Devnet) (\<lambda>reopened.
     then_do (pass (verify_invariants reopened)) (\<lambda>_.
     then_do (pass (ledger_status reopened)) (\<lambda>after_restart.
     pass (Inr \<lparr>ds_label = ''DEVNET / EXPERIMENTAL / NOT REAL-MONEY READY'', ds_network_id = Devnet,
       ds_alice_address = address_str alice_address, ds_bob_address = address_str bob_address,
       ds_contribution_receipt_id = receipt_id, ds_reward = reward, ds_alice_to_bob_transaction_id = alice_tx_id,
       ds_bob_to_reserve_transaction_id = reserve_tx_id, ds_alice_balance = acc_balance alice_account,
       ds_bob_balance = acc_balance bob_account, ds_ledger_after_restart = after_restart\<rparr>)))))))))))))))))"

end
