(* ===== verification/Smd_Keychain.thy ===== *)
theory Smd_Keychain
  imports Smd_Instance Meld_Action
begin

text \<open>
  Wallets in the keychain of the operating system: \<open>WalletStore\<close> of \<open>crates/smd-core/src/wallet.rs\<close> as
  \<open>MacOsKeychainWalletStore\<close> implements it. The keychain itself, the crate \<open>keyring\<close> and the compact JSON text
  of a backup are parameters; so is whether the program was compiled for macOS. \<open>zeroize\<close> of memory has no
  counterpart.
\<close>

section \<open>The keychain\<close>

definition MACOS_KEYCHAIN_SERVICE :: string where
  "MACOS_KEYCHAIN_SERVICE = ''org.shardmeld.smd.devnet''"

text \<open>
  Entries are named by a service and a name. \<open>kr_get_password\<close> distinguishes the error \<open>NoEntry\<close>, here
  \<open>Inr None\<close>, from all others.
\<close>

record 'k keyring_ext =
  kr_macos :: bool
  kr_entry :: "string \<Rightarrow> string \<Rightarrow> unit result"
  kr_get_password :: "string \<Rightarrow> string \<Rightarrow> 'k \<Rightarrow> string option result"
  kr_set_password :: "string \<Rightarrow> string \<Rightarrow> string \<Rightarrow> ('k, unit) action"
  kr_delete_credential :: "string \<Rightarrow> string \<Rightarrow> ('k, unit) action"
  kr_json :: "wallet_backup \<Rightarrow> string result"
  kr_json_parse :: "string \<Rightarrow> wallet_backup result"

text \<open>
  What the crates document: a password that was set is read back, a deleted one is gone, both leave the other
  entries as they are and change nothing when they fail, deleting needs an entry, and reading a backup's JSON text gives the backup; that text is
  short when its fields are.
\<close>

definition keyring_ok :: "'k keyring_ext \<Rightarrow> bool" where
  "keyring_ok K \<longleftrightarrow>
     (\<forall>s n p k r k'. kr_set_password K s n p k = (r, k') \<longrightarrow>
        (if r = Inr () then kr_get_password K s n k' = Inr (Some p) else k' = k) \<and>
        (\<forall>m. m \<noteq> n \<longrightarrow> kr_get_password K s m k' = kr_get_password K s m k)) \<and>
     (\<forall>s n k r k'. kr_delete_credential K s n k = (r, k') \<longrightarrow>
        (if r = Inr () then kr_get_password K s n k' = Inr None else k' = k) \<and>
        (\<forall>m. m \<noteq> n \<longrightarrow> kr_get_password K s m k' = kr_get_password K s m k)) \<and>
     (\<forall>b. \<exists>j. kr_json K b = Inr j \<and> kr_json_parse K j = Inr b \<and>
        (length (wb_kind b) + length (wb_address b) + length (wb_private_key_hex b) \<le> 256 \<longrightarrow> length j \<le> 4096))"

section \<open>The store\<close>

definition backend_name :: string where
  "backend_name = ''macos-keychain''"

definition save_new :: "smd_ext \<Rightarrow> 'k keyring_ext \<Rightarrow> string \<Rightarrow> wallet \<Rightarrow> ('k, unit) action" where
  "save_new X K name w =
     then_do (pass (validate_keychain_name name)) (\<lambda>_.
     if wl_network w \<noteq> Devnet then pass (Inl (Bail ''SMD v0.1 Keychain entries are devnet-only''))
     else if \<not> kr_macos K then pass (Inl (Bail ''macOS Keychain wallet storage is unavailable on this platform''))
     else
       then_do (pass (kr_entry K MACOS_KEYCHAIN_SERVICE name)) (\<lambda>_.
       then_do (\<lambda>k. (kr_get_password K MACOS_KEYCHAIN_SERVICE name k, k)) (\<lambda>existing.
       if existing \<noteq> None then pass (Inl (Bail ''Keychain wallet already exists''))
       else
         then_do (pass (and_then (backup X w) (kr_json K))) (\<lambda>encoded.
         kr_set_password K MACOS_KEYCHAIN_SERVICE name encoded))))"

definition load_wallet :: "smd_ext \<Rightarrow> 'k keyring_ext \<Rightarrow> string \<Rightarrow> 'k \<Rightarrow> wallet result" where
  "load_wallet X K name k =
     and_then (validate_keychain_name name) (\<lambda>_.
     bail_if (\<not> kr_macos K) ''macOS Keychain wallet storage is unavailable on this platform''
    (and_then (kr_entry K MACOS_KEYCHAIN_SERVICE name) (\<lambda>_.
     and_then (kr_get_password K MACOS_KEYCHAIN_SERVICE name k) (\<lambda>found.
     and_then (ok_or found (Foreign ''keyring'')) (\<lambda>encoded.
     bail_if (4096 < length encoded) ''Keychain wallet payload exceeds size limit''
    (and_then (kr_json_parse K encoded) (from_backup X)))))))"

definition delete_wallet :: "'k keyring_ext \<Rightarrow> string \<Rightarrow> ('k, unit) action" where
  "delete_wallet K name =
     then_do (pass (validate_keychain_name name)) (\<lambda>_.
     if \<not> kr_macos K then pass (Inl (Bail ''macOS Keychain wallet storage is unavailable on this platform''))
     else
       then_do (pass (kr_entry K MACOS_KEYCHAIN_SERVICE name)) (\<lambda>_.
       kr_delete_credential K MACOS_KEYCHAIN_SERVICE name))"

text \<open>\<open>Wallet::generate\<close>, given the 32 bytes the operating system's generator returns.\<close>

definition generate :: "network_id \<Rightarrow> bytes \<Rightarrow> wallet" where
  "generate network random = from_secret_bytes network random"

section \<open>Its contract\<close>

lemma keyring_set:
  assumes "keyring_ok K" "kr_set_password K s n p k = (r, k')"
  shows "r = Inr () \<Longrightarrow> kr_get_password K s n k' = Inr (Some p)" "r \<noteq> Inr () \<Longrightarrow> k' = k"
    "m \<noteq> n \<Longrightarrow> kr_get_password K s m k' = kr_get_password K s m k"
  using assms unfolding keyring_ok_def by metis+

lemma keyring_delete:
  assumes "keyring_ok K" "kr_delete_credential K s n k = (r, k')"
  shows "r = Inr () \<Longrightarrow> kr_get_password K s n k' = Inr None" "r \<noteq> Inr () \<Longrightarrow> k' = k"
    "m \<noteq> n \<Longrightarrow> kr_get_password K s m k' = kr_get_password K s m k"
  using assms unfolding keyring_ok_def by metis+

text \<open>Saving either changes nothing or has passed every check.\<close>

lemma save_new_cases:
  assumes "save_new X K name w k = (r, k')"
  obtains e where "r = Inl e" "k' = k"
  | b j where "validate_keychain_name name = Inr ()" "wl_network w = Devnet" "kr_macos K"
    "kr_entry K MACOS_KEYCHAIN_SERVICE name = Inr ()" "kr_get_password K MACOS_KEYCHAIN_SERVICE name k = Inr None"
    "backup X w = Inr b" "kr_json K b = Inr j" "kr_set_password K MACOS_KEYCHAIN_SERVICE name j k = (r, k')"
  using assms
  by (auto simp: save_new_def then_do_pass_eq then_do_read_eq pass_simp and_then_def split: if_splits sum.splits)

lemma delete_wallet_cases:
  assumes "delete_wallet K name k = (r, k')"
  obtains e where "r = Inl e" "k' = k" | "kr_delete_credential K MACOS_KEYCHAIN_SERVICE name k = (r, k')"
  using assms
  by (auto simp: delete_wallet_def then_do_pass_eq pass_simp split: if_splits)

text \<open>Wallets under other names are not touched.\<close>

lemma load_other:
  assumes "kr_get_password K MACOS_KEYCHAIN_SERVICE name k' = kr_get_password K MACOS_KEYCHAIN_SERVICE name k"
  shows "load_wallet X K name k' = load_wallet X K name k"
  using assms by (simp add: load_wallet_def)

lemma save_new_other:
  assumes "keyring_ok K" "save_new X K name w k = (r, k')" "other \<noteq> name"
  shows "load_wallet X K other k' = load_wallet X K other k"
  using assms(2) by (rule save_new_cases) (use keyring_set(3) [OF assms(1) _ assms(3)] in \<open>auto intro: load_other\<close>)

lemma delete_wallet_other:
  assumes "keyring_ok K" "delete_wallet K name k = (r, k')" "other \<noteq> name"
  shows "load_wallet X K other k' = load_wallet X K other k"
  using assms(2) by (rule delete_wallet_cases) (use keyring_delete(3) [OF assms(1) _ assms(3)] in \<open>auto intro: load_other\<close>)

lemma saved_wallet_loads:
  assumes "smd_ext_ok X" "keyring_ok K" "save_new X K name w k = (Inr (), k')" "length (wl_signing_key w) = 32"
  shows "load_wallet X K name k' = Inr w"
  using assms(3)
proof (rule save_new_cases)
  fix b j
  assume s: "validate_keychain_name name = Inr ()" "wl_network w = Devnet" "kr_macos K"
    "kr_entry K MACOS_KEYCHAIN_SERVICE name = Inr ()" "backup X w = Inr b" "kr_json K b = Inr j"
    "kr_set_password K MACOS_KEYCHAIN_SERVICE name j k = (Inr (), k')"
  obtain b' where b': "backup X w = Inr b'" "from_backup X b' = Inr w"
    "length (wb_kind b') + length (wb_address b') + length (wb_private_key_hex b') \<le> 256"
    by (rule backup_facts [OF assms(1) s(2) assms(4)])
  obtain j' where "kr_json K b = Inr j'" "kr_json_parse K j' = Inr b"
    "length (wb_kind b) + length (wb_address b) + length (wb_private_key_hex b) \<le> 256 \<longrightarrow> length j' \<le> 4096"
    using assms(2) unfolding keyring_ok_def by blast
  with s b' have "kr_json_parse K j = Inr b" "length j \<le> 4096" by auto
  with s b' keyring_set(1) [OF assms(2) s(7)] show ?thesis by (simp add: load_wallet_def)
qed simp

lemma deleted_wallet_gone:
  assumes "keyring_ok K" "delete_wallet K name k = (Inr (), k')"
  shows "\<not> is_ok (load_wallet X K name k')"
  using assms(2) by (rule delete_wallet_cases) (use keyring_delete(1) [OF assms(1)] in \<open>auto simp: load_wallet_def is_ok_iff\<close>)

lemma saved_wallet_kept:
  assumes "keyring_ok K" "load_wallet X K name k = Inr w0"
  shows "save_new X K name w k = (r, k') \<Longrightarrow> r \<noteq> Inr () \<and> k' = k"
  by (erule save_new_cases) (use assms in \<open>auto simp: load_wallet_def\<close>)

text \<open>A keychain that is a map.\<close>

definition map_keyring :: "(string \<times> string \<rightharpoonup> string) keyring_ext" where
  "map_keyring = \<lparr>kr_macos = True, kr_entry = (\<lambda>s n. Inr ()),
     kr_get_password = (\<lambda>s n k. Inr (k (s, n))),
     kr_set_password = (\<lambda>s n p k. (Inr (), k((s, n) \<mapsto> p))),
     kr_delete_credential = (\<lambda>s n k. if k (s, n) = None then (Inl (Foreign ''keyring''), k) else (Inr (), k((s, n) := None))),
     kr_json = (\<lambda>b. Inr (map (\<lambda>x. char_of (unat x)) (inst_backup_pretty b))),
     kr_json_parse = (\<lambda>s. inst_backup_parse (as_bytes s @ [10]))\<rparr>"

lemma as_bytes_chars [simp]: "as_bytes (map (\<lambda>x. char_of (unat x)) bs) = bs"
  using unat_u8_bound by (induction bs) (simp_all add: as_bytes_def byte_val_def)

lemma map_keyring_ok: "keyring_ok map_keyring"
proof -
  have "length (inst_backup_pretty b) \<le> 4096"
    if "length (wb_kind b) + length (wb_address b) + length (wb_private_key_hex b) \<le> 256" for b
    using ext_json(5) [OF inst_ext_ok, of b] that by (auto simp: inst_ext_def)
  then have "\<exists>j. kr_json map_keyring b = Inr j \<and> kr_json_parse map_keyring j = Inr b \<and>
      (length (wb_kind b) + length (wb_address b) + length (wb_private_key_hex b) \<le> 256 \<longrightarrow> length j \<le> 4096)" for b
    by (simp add: map_keyring_def inst_backup_round_trip)
  moreover have "kr_set_password map_keyring s n p k = (Inr (), k((s, n) \<mapsto> p))"
    "kr_get_password map_keyring s n k = Inr (k (s, n))" for s n p k
    by (simp_all add: map_keyring_def)
  moreover have "kr_delete_credential map_keyring s n k =
      (if k (s, n) = None then (Inl (Foreign ''keyring''), k) else (Inr (), k((s, n) := None)))" for s n k
    by (simp add: map_keyring_def)
  ultimately show ?thesis unfolding keyring_ok_def by (intro conjI allI impI) (auto split: if_split_asm)
qed

end
