(* ===== verification/Smd_Commands.thy ===== *)
theory Smd_Commands
  imports Smd_Devnet Smd_Keychain
begin

text \<open>
  The commands \<open>shardmeld smd ...\<close> of \<open>crates/meld-cli/src/main.rs\<close>: \<open>run_smd\<close> and what it calls. A command is an
  action on the wallet files, the ledgers by their paths and the keychain; a ledger that has never been opened
  is the empty database. The commands are given as \<open>clap\<close> has parsed them. What a command prints is kept as the
  data it prints, not as text. The database file of a ledger is not a file of the map of files: a path is taken to
  name either a ledger or another file.
\<close>

section \<open>Commands\<close>

datatype smd_wallet_command =
    WalletCreate string
  | WalletAddress string
  | WalletBalance string string
  | WalletReceive string
  | WalletExportBackup string string
  | WalletImportBackup string string
  | KeychainCreate string
  | KeychainAddress string
  | KeychainBalance string string
  | KeychainExportBackup string string
  | KeychainImportBackup string string
  | KeychainDelete string bool

datatype smd_ledger_command =
    LedgerStatus string "string option"
  | LedgerTransactions string u32 "string option"
  | LedgerAudit string "string option"

datatype smd_reserve_command = ReserveStatus string

text \<open>\<open>Record\<close> has the ledger, both wallets, the session, the content hash, the bytes, the service, the epoch and the nonce.\<close>

datatype smd_contribution_command =
    ContributionRecord string string string string string u64 service_type u64 u64
  | ContributionStatus string u32 "string option"

datatype smd_rewards_command = RewardsStatus string "string option"

datatype smd_devnet_command =
    DevnetGenesis string
  | DevnetMineRewards string u64 "string option"
  | DevnetScenario string "string option"

text \<open>\<open>Send\<close> has the wallet, the ledger, the receiver, the amount, the epoch and the expiry epoch.\<close>

datatype smd_command =
    SmdWallet smd_wallet_command
  | SmdSend string string string amount u64 u64
  | SmdSendKeychain string string string amount u64 u64
  | SmdLedger smd_ledger_command
  | SmdReserve smd_reserve_command
  | SmdContribution smd_contribution_command
  | SmdRewards smd_rewards_command
  | SmdDevnet smd_devnet_command

text \<open>What is saved as JSON, and what is printed.\<close>

datatype smd_report =
    StatusReport ledger_status
  | TransactionsReport "transaction_record list"
  | AuditReport ledger_audit_report
  | ReceiptsReport "reward_receipt_record list"
  | RewardsReport network_id u64 amount amount amount
  | SummaryReport reward_summary
  | ScenarioReport devnet_scenario_report

datatype smd_output =
    WalletLine string address string
  | AddressLine address
  | BalanceLine account
  | DeletedLine string
  | SentLine string transaction u64 u64
  | ReportLine smd_report
  | ReserveLine address amount
  | RecordedLine string contribution_receipt
  | StatusLine "reward_receipt_record list" u64
  | GenesisLine network_id supply_state

section \<open>The world of a command\<close>

record 'k smd_world =
  sw_files :: fs
  sw_ledgers :: "string \<Rightarrow> ledger_db"
  sw_keychain :: 'k

text \<open>
  What happens to the bytes of a report: all are written; a write fails after some and the error is reported;
  or the last flush fails, in the destructor of \<open>BufWriter\<close>, which ignores the error.
\<close>

datatype report_write = WritesAll | WriteFails nat | LastFlushFails nat

record 'k smd_cli_ext =
  ce_smd :: smd_ext
  ce_keyring :: "'k keyring_ext"
  ce_random :: bytes
  ce_json :: "smd_report \<Rightarrow> bytes result"
  ce_report_write :: report_write

type_synonym ('k, 'a) command = "('k smd_world, 'a) action"

definition on_files :: "(fs, 'a) action \<Rightarrow> ('k, 'a) command" where
  "on_files m W = (case m (sw_files W) of (r, files) \<Rightarrow> (r, W\<lparr>sw_files := files\<rparr>))"

definition on_ledger :: "string \<Rightarrow> (ledger_db, 'a) action \<Rightarrow> ('k, 'a) command" where
  "on_ledger path m W = (case m (sw_ledgers W path) of (r, db) \<Rightarrow> (r, W\<lparr>sw_ledgers := (sw_ledgers W)(path := db)\<rparr>))"

definition on_keychain :: "('k, 'a) action \<Rightarrow> ('k, 'a) command" where
  "on_keychain m W = (case m (sw_keychain W) of (r, k) \<Rightarrow> (r, W\<lparr>sw_keychain := k\<rparr>))"

definition import_wallet :: "'k smd_cli_ext \<Rightarrow> string \<Rightarrow> ('k, wallet) command" where
  "import_wallet C path = on_files (\<lambda>files. (import_devnet_test_file (ce_smd C) path files, files))"

definition export_wallet :: "'k smd_cli_ext \<Rightarrow> wallet \<Rightarrow> string \<Rightarrow> ('k, unit) command" where
  "export_wallet C w path = on_files (\<lambda>files. case export_devnet_test_file (ce_smd C) w path files of
      Inr files \<Rightarrow> (Inr (), files) | Inl e \<Rightarrow> (Inl e, files))"

definition load_keychain :: "'k smd_cli_ext \<Rightarrow> string \<Rightarrow> ('k, wallet) command" where
  "load_keychain C name = on_keychain (\<lambda>k. (load_wallet (ce_smd C) (ce_keyring C) name k, k))"

definition address_of :: "'k smd_cli_ext \<Rightarrow> wallet \<Rightarrow> ('k, address) command" where
  "address_of C w = pass (wallet_address (ce_smd C) w)"

definition write_report :: "report_write \<Rightarrow> bytes result \<Rightarrow> unit result \<times> bytes" where
  "write_report outcome json = (case json of
      Inl e \<Rightarrow> (Inl (Bail ''write JSON report''), [])
    | Inr encoded \<Rightarrow> (case outcome of
        WritesAll \<Rightarrow> (Inr (), encoded)
      | WriteFails n \<Rightarrow> (Inl (Bail ''write JSON report''), take n encoded)
      | LastFlushFails n \<Rightarrow> (Inr (), take n encoded)))"

definition save_report :: "'k smd_cli_ext \<Rightarrow> smd_report \<Rightarrow> string option \<Rightarrow> ('k, unit) command" where
  "save_report C report json_path = (case json_path of
      None \<Rightarrow> pass (Inr ())
    | Some path \<Rightarrow> on_files (\<lambda>files.
        if files path \<noteq> None then (Inl (Bail ''create JSON report''), files)
        else case write_report (ce_report_write C) (ce_json C report) of (r, bs) \<Rightarrow> (r, files(path \<mapsto> bs))))"

section \<open>Wallet commands\<close>

definition print_balance :: "'k smd_cli_ext \<Rightarrow> wallet \<Rightarrow> string \<Rightarrow> ('k, smd_output) command" where
  "print_balance C w ledger_path =
     then_do (on_ledger ledger_path (open_ledger Devnet)) (\<lambda>L.
     then_do (address_of C w) (\<lambda>a.
     then_do (pass (ledger_account L a)) (\<lambda>account.
     pass (Inr (BalanceLine account)))))"

definition export_to :: "'k smd_cli_ext \<Rightarrow> wallet \<Rightarrow> string \<Rightarrow> ('k, smd_output) command" where
  "export_to C w out =
     then_do (export_wallet C w out) (\<lambda>_.
     then_do (address_of C w) (\<lambda>a.
     pass (Inr (WalletLine out a ''devnet-test-file''))))"

definition save_to_keychain :: "'k smd_cli_ext \<Rightarrow> wallet \<Rightarrow> string \<Rightarrow> ('k, smd_output) command" where
  "save_to_keychain C w name =
     then_do (on_keychain (save_new (ce_smd C) (ce_keyring C) name w)) (\<lambda>_.
     then_do (address_of C w) (\<lambda>a.
     pass (Inr (WalletLine name a backend_name))))"

definition delete_from_keychain :: "'k smd_cli_ext \<Rightarrow> string \<Rightarrow> bool \<Rightarrow> ('k, smd_output) command" where
  "delete_from_keychain C name confirm =
     (if \<not> confirm then pass (Inl (Bail ''refusing to delete Keychain wallet without --confirm''))
      else then_do (on_keychain (delete_wallet (ce_keyring C) name)) (\<lambda>_. pass (Inr (DeletedLine name))))"

fun run_wallet :: "'k smd_cli_ext \<Rightarrow> smd_wallet_command \<Rightarrow> ('k, smd_output) command" where
  "run_wallet C (WalletCreate out) = export_to C (generate Devnet (ce_random C)) out"
| "run_wallet C (WalletAddress path) =
     then_do (import_wallet C path) (\<lambda>w. then_do (address_of C w) (\<lambda>a. pass (Inr (AddressLine a))))"
| "run_wallet C (WalletReceive path) =
     then_do (import_wallet C path) (\<lambda>w. then_do (address_of C w) (\<lambda>a. pass (Inr (AddressLine a))))"
| "run_wallet C (WalletBalance path ledger_path) =
     then_do (import_wallet C path) (\<lambda>w. print_balance C w ledger_path)"
| "run_wallet C (WalletExportBackup path out) = then_do (import_wallet C path) (\<lambda>w. export_to C w out)"
| "run_wallet C (WalletImportBackup path out) = then_do (import_wallet C path) (\<lambda>w. export_to C w out)"
| "run_wallet C (KeychainCreate name) = save_to_keychain C (generate Devnet (ce_random C)) name"
| "run_wallet C (KeychainAddress name) =
     then_do (load_keychain C name) (\<lambda>w. then_do (address_of C w) (\<lambda>a. pass (Inr (AddressLine a))))"
| "run_wallet C (KeychainBalance name ledger_path) =
     then_do (load_keychain C name) (\<lambda>w. print_balance C w ledger_path)"
| "run_wallet C (KeychainExportBackup name out) = then_do (load_keychain C name) (\<lambda>w. export_to C w out)"
| "run_wallet C (KeychainImportBackup path name) = then_do (import_wallet C path) (\<lambda>w. save_to_keychain C w name)"
| "run_wallet C (KeychainDelete name confirm) = delete_from_keychain C name confirm"

section \<open>Commands on a ledger\<close>

text \<open>A payment from a wallet, with the nonce the ledger expects.\<close>

definition send_from :: "'k smd_cli_ext \<Rightarrow> wallet \<Rightarrow> string \<Rightarrow> string \<Rightarrow> amount \<Rightarrow> u64 \<Rightarrow> u64 \<Rightarrow> ('k, smd_output) command" where
  "send_from C w ledger_path to amount epoch expiry_epoch =
     then_do (pass (parse_for_network (ce_smd C) to Devnet)) (\<lambda>to.
     then_do (on_ledger ledger_path (open_ledger Devnet)) (\<lambda>L.
     then_do (address_of C w) (\<lambda>a.
     then_do (pass (ledger_account L a)) (\<lambda>account.
     then_do (pass (tx_signed (ce_smd C) w to amount (acc_nonce account) epoch expiry_epoch)) (\<lambda>t.
     then_do (on_ledger ledger_path (update_ledger (\<lambda>L. submit_transaction (ce_smd C) L t epoch) L)) (\<lambda>(L, transaction_id).
     pass (Inr (SentLine transaction_id t (acc_nonce account) epoch))))))))"

text \<open>A report about an open ledger, computed, saved and printed.\<close>

definition report_on :: "'k smd_cli_ext \<Rightarrow> string \<Rightarrow> (ledger \<Rightarrow> smd_report result) \<Rightarrow> string option \<Rightarrow> ('k, smd_report) command" where
  "report_on C ledger_path f json_path =
     then_do (on_ledger ledger_path (open_ledger Devnet)) (\<lambda>L.
     then_do (pass (f L)) (\<lambda>report.
     then_do (save_report C report json_path) (\<lambda>_.
     pass (Inr report))))"

fun run_ledger :: "'k smd_cli_ext \<Rightarrow> smd_ledger_command \<Rightarrow> ('k, smd_output) command" where
  "run_ledger C (LedgerStatus path json_path) =
     then_do (report_on C path (\<lambda>L. and_then (ledger_status L) (\<lambda>s. Inr (StatusReport s))) json_path) (\<lambda>r. pass (Inr (ReportLine r)))"
| "run_ledger C (LedgerTransactions path limit json_path) =
     then_do (report_on C path (\<lambda>L. and_then (ledger_transactions (ce_smd C) L limit) (\<lambda>ts. Inr (TransactionsReport ts))) json_path)
       (\<lambda>r. pass (Inr (ReportLine r)))"
| "run_ledger C (LedgerAudit path json_path) =
     then_do (report_on C path (\<lambda>L. and_then (ledger_audit (ce_smd C) L) (\<lambda>a. Inr (AuditReport a))) json_path) (\<lambda>r. pass (Inr (ReportLine r)))"

fun run_reserve :: "'k smd_cli_ext \<Rightarrow> smd_reserve_command \<Rightarrow> ('k, smd_output) command" where
  "run_reserve C (ReserveStatus path) =
     then_do (on_ledger path (open_ledger Devnet)) (\<lambda>L.
     then_do (pass (ledger_status L)) (\<lambda>status.
     pass (Inr (ReserveLine reserve_address (reserve_balance (ls_supply status))))))"

definition sum_delivered :: "reward_receipt_record list \<Rightarrow> u64 result" where
  "sum_delivered receipts = try_fold (\<lambda>total r. ok_or (checked_add total (cr_bytes_delivered (rrec_receipt r)))
     (Bail ''lifetime contribution byte count overflow'')) 0 receipts"

fun run_contribution :: "'k smd_cli_ext \<Rightarrow> smd_contribution_command \<Rightarrow> ('k, smd_output) command" where
  "run_contribution C (ContributionRecord path provider_path receiver_path session content delivered service epoch nonce) =
     then_do (import_wallet C provider_path) (\<lambda>provider.
     then_do (import_wallet C receiver_path) (\<lambda>receiver.
     then_do (pass (cr_confirmed (ce_smd C) provider receiver session content delivered service epoch nonce)) (\<lambda>receipt.
     then_do (on_ledger path (open_ledger Devnet)) (\<lambda>L.
     then_do (on_ledger path (update_ledger (\<lambda>L. submit_contribution (ce_smd C) L receipt) L)) (\<lambda>(L, receipt_id).
     pass (Inr (RecordedLine receipt_id receipt)))))))"
| "run_contribution C (ContributionStatus path limit json_path) =
     then_do (on_ledger path (open_ledger Devnet)) (\<lambda>L.
     then_do (pass (ledger_reward_receipts (ce_smd C) L limit)) (\<lambda>receipts.
     then_do (save_report C (ReceiptsReport receipts) json_path) (\<lambda>_.
     then_do (pass (sum_delivered receipts)) (\<lambda>total.
     pass (Inr (StatusLine receipts total))))))"

definition sum_subsidies :: "reward_receipt_record list \<Rightarrow> amount result" where
  "sum_subsidies receipts = try_fold (\<lambda>total r. amount_add total (rrec_protocol_subsidy r)) ZERO receipts"

fun run_rewards :: "'k smd_cli_ext \<Rightarrow> smd_rewards_command \<Rightarrow> ('k, smd_output) command" where
  "run_rewards C (RewardsStatus path json_path) =
     then_do (on_ledger path (open_ledger Devnet)) (\<lambda>L.
     then_do (pass (ledger_status L)) (\<lambda>status.
     then_do (pass (ledger_reward_receipts (ce_smd C) L 1000)) (\<lambda>receipts.
     then_do (pass (sum_subsidies receipts)) (\<lambda>protocol_rewards.
     let report = RewardsReport (ls_network_id status) (ls_pending_receipts status) protocol_rewards ZERO
           (network_emitted_supply (ls_supply status)) in
     then_do (save_report C report json_path) (\<lambda>_.
     pass (Inr (ReportLine report)))))))"

fun run_devnet :: "'k smd_cli_ext \<Rightarrow> smd_devnet_command \<Rightarrow> ('k, smd_output) command" where
  "run_devnet C (DevnetGenesis path) =
     then_do (on_ledger path (open_ledger Devnet)) (\<lambda>L.
     then_do (pass (ledger_status L)) (\<lambda>status.
     pass (Inr (GenesisLine (lg_network L) (ls_supply status)))))"
| "run_devnet C (DevnetMineRewards path epoch json_path) =
     then_do (on_ledger path (open_ledger Devnet)) (\<lambda>L.
     then_do (on_ledger path (update_ledger (\<lambda>L. mine_rewards (ce_smd C) (devnet_order (ce_smd C)) L epoch) L)) (\<lambda>(L, summary).
     then_do (save_report C (SummaryReport summary) json_path) (\<lambda>_.
     pass (Inr (ReportLine (SummaryReport summary))))))"
| "run_devnet C (DevnetScenario path json_path) =
     then_do (on_ledger path (run_devnet_scenario (ce_smd C))) (\<lambda>report.
     then_do (save_report C (ScenarioReport report) json_path) (\<lambda>_.
     pass (Inr (ReportLine (ScenarioReport report)))))"

fun run_smd :: "'k smd_cli_ext \<Rightarrow> smd_command \<Rightarrow> ('k, smd_output) command" where
  "run_smd C (SmdWallet c) = run_wallet C c"
| "run_smd C (SmdSend path ledger_path to amount epoch expiry_epoch) =
     then_do (import_wallet C path) (\<lambda>w. send_from C w ledger_path to amount epoch expiry_epoch)"
| "run_smd C (SmdSendKeychain name ledger_path to amount epoch expiry_epoch) =
     then_do (load_keychain C name) (\<lambda>w. send_from C w ledger_path to amount epoch expiry_epoch)"
| "run_smd C (SmdLedger c) = run_ledger C c"
| "run_smd C (SmdReserve c) = run_reserve C c"
| "run_smd C (SmdContribution c) = run_contribution C c"
| "run_smd C (SmdRewards c) = run_rewards C c"
| "run_smd C (SmdDevnet c) = run_devnet C c"

end
