(* ===== verification/Meld_Commands.thy ===== *)
theory Meld_Commands
  imports Smd_Commands Cdc_Network Bt_Seed_Service Bt_Metadata Meld_Capabilities
begin

text \<open>
  The commands of \<open>shardmeld\<close>: \<open>main\<close> of \<open>crates/meld-cli/src/main.rs\<close>, after \<open>clap\<close> has parsed them. A command
  is an action on the files, the index databases by their paths, and what the commands of \<open>Smd_Commands\<close> use. As
  there, the result is the data a command prints last, and a database is not a file of the map of files.
\<close>

section \<open>Commands\<close>

text \<open>
  The arguments in the order of the source. A download through trackers takes the torrent, the descriptor, the
  index, the tracker that overrides the torrent's, the port to announce, and the output; a seeder the address, whether
  it may be reached from outside, and the limits on connections and rate.
\<close>

datatype meld_command =
    Capabilities "string option"
  | Smd smd_command
  | Index string string string "string option"
  | Describe string string string
  | Compare string string "string option"
  | BtPlan string string string "string option"
  | BtFetchPeer string string string socket_addr string "string option"
  | BtFetchTracker string string string "string option" u16 string "string option"
  | BtFetchMetadata string socket_addr "string option"
  | BtFetchMagnet string "string option" "socket_addr option" string string "string option" u16 string "string option"
  | BtSeedFile string string string socket_addr bool bt_seed_options "string option"
  | BtSeedIndex string string string socket_addr bool bt_seed_options "string option"
  | StageMissing string string string string "string option"
  | ServeChunks string socket_addr bool "u64 option" "string option"
  | FetchMissing string string socket_addr string "string option"
  | Rebuild string string string string "string option"
  | Verify string string "string option"

text \<open>The report of a download for a magnet link has the exchange of the metadata beside the report of the trackers.\<close>

datatype meld_report =
    CapabilitiesReport capabilities_report
  | IndexReport index_report
  | CompareReport compare_report
  | BridgeReport bt_bridge_report
  | PeerReport bt_peer_fetch_report
  | TrackerReport bt_tracker_fetch_report "bt_metadata_fetch_report option"
  | MetadataReport bt_metadata_fetch_report
  | SeedReport bt_seed_report
  | IndexSeedReport bt_index_seed_report
  | StageReport stage_report
  | ServeReport serve_report
  | FetchReport fetch_report
  | RebuildReport rebuild_report
  | VerifyReport verify_report

datatype meld_output =
    MeldLine meld_report
  | DescriptorLine string target_descriptor
  | MagnetLine string string meld_report
  | SmdLine smd_output

section \<open>The world of a command\<close>

record 'k meld_world =
  mw_files :: file_system
  mw_indexes :: "string \<Rightarrow> index_db"
  mw_ledgers :: "string \<Rightarrow> ledger_db"
  mw_keychain :: 'k

text \<open>
  What a run is given: the third-party code, what it observes of the disk and of directories, and its
  peers. \<open>mc_download\<close> is what \<open>fetch_v1_from_peer\<close> does from the files it finds, and \<open>mc_tracked\<close> what the
  downloads within \<open>fetch_v1_via_tracker\<close> do, with the files they leave: the order of their workers is not a function
  of the input. Such runs are those of \<open>fetch_run\<close>.
\<close>

record 'k meld_cli_ext =
  mc_smd :: "'k smd_cli_ext"
  mc_bt :: bt_ext
  mc_engine_version :: string
  mc_json :: "meld_report \<Rightarrow> bytes result"
  mc_report_write :: report_write
  mc_now :: "int result"
  mc_disk :: disk
  mc_open_index :: "string \<Rightarrow> unit result"
  mc_source :: "string \<Rightarrow> (string \<times> bool) option"
  mc_absolute :: "string \<Rightarrow> string result"
  mc_walk :: "string \<Rightarrow> (string + string \<times> bool) list"
  mc_indexing :: "string \<Rightarrow> indexing_view"
  mc_target :: "string \<Rightarrow> target_view"
  mc_is_dir :: "string \<Rightarrow> bool"
  mc_bind_error :: "io_kind option"
  mc_clients :: "(io_kind + stream \<times> (u64 \<Rightarrow> (io_kind \<times> nat) option)) list"
  mc_chunk_peer :: "socket_addr \<Rightarrow> io_kind + stream"
  mc_send :: "string \<Rightarrow> io_kind option"
  mc_peer_id :: "bytes result"
  mc_shutdown_flag :: "unit result"
  mc_metadata_peer :: "socket_addr \<Rightarrow> socket result"
  mc_download :: "index_db \<Rightarrow> torrent_v1 \<Rightarrow> target_descriptor \<Rightarrow> socket_addr \<Rightarrow> string \<Rightarrow> file_system
      \<Rightarrow> bt_peer_fetch_report result \<times> file_system"
  mc_tracker :: tracker_ext
  mc_tracked :: "index_db \<Rightarrow> torrent_v1 \<Rightarrow> target_descriptor \<Rightarrow> string \<Rightarrow> file_system \<Rightarrow> transfer \<times> file_system"
  mc_file_seeder :: "bt_seed_report seeder_ext"
  mc_index_seeder :: "bt_index_seed_report seeder_ext"

abbreviation mc_cdc :: "'k meld_cli_ext \<Rightarrow> cdc_ext" where
  "mc_cdc C \<equiv> bx_cdc (mc_bt C)"

type_synonym ('k, 'a) meld_action = "('k meld_world, 'a) action"

definition on_disk :: "(file_system, 'a) action \<Rightarrow> ('k, 'a) meld_action" where
  "on_disk m W = (case m (mw_files W) of (r, fs) \<Rightarrow> (r, W\<lparr>mw_files := fs\<rparr>))"

definition on_index :: "string \<Rightarrow> (index_db, 'a) action \<Rightarrow> ('k, 'a) meld_action" where
  "on_index path m W = (case m (mw_indexes W path) of (r, db) \<Rightarrow> (r, W\<lparr>mw_indexes := (mw_indexes W)(path := db)\<rparr>))"

text \<open>
  The commands of \<open>Smd_Commands\<close> see the content of files. A directory is seen as an empty file: it exists, and as no
  JSON text is empty it cannot be read. The files they add are regular.
\<close>

definition contents :: "file_system \<Rightarrow> fs" where
  "contents fs path = (case fs path of
      None \<Rightarrow> None | Some (Regular bs _) \<Rightarrow> Some bs | Some (Directory _) \<Rightarrow> Some [])"

definition with_contents :: "int result \<Rightarrow> file_system \<Rightarrow> fs \<Rightarrow> file_system" where
  "with_contents now fs files = (\<lambda>path. if contents fs path = files path then fs path
     else map_option (\<lambda>bs. Regular bs now) (files path))"

definition on_smd :: "int result \<Rightarrow> ('k, 'a) command \<Rightarrow> ('k, 'a) meld_action" where
  "on_smd now m W =
     (case m \<lparr>sw_files = contents (mw_files W), sw_ledgers = mw_ledgers W, sw_keychain = mw_keychain W\<rparr> of (r, S) \<Rightarrow>
        (r, W\<lparr>mw_files := with_contents now (mw_files W) (sw_files S), mw_ledgers := sw_ledgers S, mw_keychain := sw_keychain S\<rparr>))"

section \<open>Shared steps\<close>

definition save_meld_report :: "'k meld_cli_ext \<Rightarrow> meld_report \<Rightarrow> string option \<Rightarrow> ('k, unit) meld_action" where
  "save_meld_report C report json_path = (case json_path of
      None \<Rightarrow> pass (Inr ())
    | Some path \<Rightarrow> on_disk (\<lambda>fs.
        if path \<in> dom fs then (Inl (Bail ''create JSON report''), fs)
        else case write_report (mc_report_write C) (mc_json C report) of (r, bs) \<Rightarrow> (r, fs(path \<mapsto> Regular bs (mc_now C)))))"

definition report_line :: "'k meld_cli_ext \<Rightarrow> meld_report \<Rightarrow> string option \<Rightarrow> ('k, meld_output) meld_action" where
  "report_line C report json_path = then_do (save_meld_report C report json_path) (\<lambda>_. pass (Inr (MeldLine report)))"

definition read_torrent :: "'k meld_cli_ext \<Rightarrow> string \<Rightarrow> ('k, torrent_v1) meld_action" where
  "read_torrent C path = on_disk (\<lambda>fs. (load_v1_torrent (mc_bt C) (fs_read fs path), fs))"

definition read_descriptor :: "'k meld_cli_ext \<Rightarrow> string \<Rightarrow> ('k, target_descriptor) meld_action" where
  "read_descriptor C path = on_disk (\<lambda>fs. (load_descriptor (mc_cdc C) (contents fs) path, fs))"

definition open_index :: "'k meld_cli_ext \<Rightarrow> string \<Rightarrow> ('k, index_db) meld_action" where
  "open_index C path = on_index path (\<lambda>db. (and_then (mc_open_index C path) (\<lambda>_. Inr db), db))"

definition write_descriptor :: "'k meld_cli_ext \<Rightarrow> target_descriptor \<Rightarrow> string \<Rightarrow> ('k, unit) meld_action" where
  "write_descriptor C d path = on_disk (\<lambda>fs. case save_descriptor (mc_cdc C) (contents fs) d path of
      (r, files) \<Rightarrow> (r, with_contents (mc_now C) fs files))"

text \<open>The metadata of a magnet link from a peer: the identity is drawn before the connection is made.\<close>

definition ask_metadata_peer :: "'k meld_cli_ext \<Rightarrow> magnet_v1 \<Rightarrow> socket_addr \<Rightarrow> (torrent_v1 \<times> bt_metadata_fetch_report) result" where
  "ask_metadata_peer C magnet peer =
     and_then (mc_peer_id C) (\<lambda>local_peer_id.
     and_then (mc_metadata_peer C peer) (\<lambda>S.
     fst (fetch_v1_metadata_from_peer (mc_bt C) (mc_engine_version C) (Inr local_peer_id) magnet peer S)))"

definition resolve_magnet ::
    "'k meld_cli_ext \<Rightarrow> magnet_v1 \<Rightarrow> string option \<Rightarrow> socket_addr option \<Rightarrow> ('k, torrent_v1 \<times> bt_metadata_fetch_report option) meld_action" where
  "resolve_magnet C magnet metadata metadata_peer = (case metadata of
      Some path \<Rightarrow>
        then_do (read_torrent C path) (\<lambda>metadata.
        then_do (pass (bind_v1_magnet magnet metadata)) (\<lambda>t.
        pass (Inr (t, None))))
    | None \<Rightarrow>
        then_do (pass (ok_or metadata_peer (Bail ''--metadata-peer is required without --metadata''))) (\<lambda>peer.
        then_do (pass (ask_metadata_peer C magnet peer)) (\<lambda>(t, exchange).
        pass (Inr (t, Some exchange)))))"

definition tracked_download ::
    "'k meld_cli_ext \<Rightarrow> torrent_v1 \<Rightarrow> target_descriptor \<Rightarrow> index_db \<Rightarrow> string option \<Rightarrow> u16 \<Rightarrow> string
       \<Rightarrow> ('k, bt_tracker_fetch_report) meld_action" where
  "tracked_download C t d db tracker announce_port out = on_disk (\<lambda>fs. case mc_tracked C db t d out fs of (transfer, fs') \<Rightarrow>
     (fst (fetch_v1_via_tracker (mc_tracker C) transfer db fs (mc_peer_id C) t d tracker announce_port out), fs'))"

section \<open>The commands\<close>

definition index_command :: "'k meld_cli_ext \<Rightarrow> string \<Rightarrow> string \<Rightarrow> string \<Rightarrow> string option \<Rightarrow> ('k, meld_output) meld_action" where
  "index_command C source db profile json_path =
     then_do (pass (profile_named profile)) (\<lambda>profile.
     then_do (open_index C db) (\<lambda>_.
     then_do (on_index db (\<lambda>index. index_directory (mc_cdc C) index (mc_source C source) (mc_absolute C) (mc_absolute C db)
        (mc_walk C source) (mc_indexing C) profile)) (\<lambda>report.
     report_line C (IndexReport report) json_path)))"

definition describe_command :: "'k meld_cli_ext \<Rightarrow> string \<Rightarrow> string \<Rightarrow> string \<Rightarrow> ('k, meld_output) meld_action" where
  "describe_command C target out profile =
     then_do (pass (profile_named profile)) (\<lambda>profile.
     then_do (pass (create_descriptor (mc_cdc C) (mc_target C target) profile)) (\<lambda>d.
     then_do (write_descriptor C d out) (\<lambda>_.
     pass (Inr (DescriptorLine out d)))))"

definition magnet_command ::
    "'k meld_cli_ext \<Rightarrow> string \<Rightarrow> string option \<Rightarrow> socket_addr option \<Rightarrow> string \<Rightarrow> string \<Rightarrow> string option \<Rightarrow> u16 \<Rightarrow> string \<Rightarrow> string option
       \<Rightarrow> ('k, meld_output) meld_action" where
  "magnet_command C magnet metadata metadata_peer descriptor db tracker announce_port out json_path =
     then_do (pass (parse_v1_magnet (mc_bt C) magnet)) (\<lambda>magnet.
     then_do (resolve_magnet C magnet metadata metadata_peer) (\<lambda>(t, metadata_exchange).
     then_do (read_descriptor C descriptor) (\<lambda>d.
     then_do (open_index C db) (\<lambda>index.
     then_do (tracked_download C t d index tracker announce_port out) (\<lambda>report.
     let report = TrackerReport report metadata_exchange in
     then_do (save_meld_report C report json_path) (\<lambda>_.
     pass (Inr (MagnetLine (mg_info_hash_sha1 magnet) (tv_name t) report))))))))"

text \<open>A chunk server that waits for a client that never comes is ended from outside.\<close>

definition serve_command :: "'k meld_cli_ext \<Rightarrow> string \<Rightarrow> socket_addr \<Rightarrow> bool \<Rightarrow> u64 option \<Rightarrow> string option \<Rightarrow> ('k, meld_output) meld_action" where
  "serve_command C source bind allow_non_loopback max_requests json_path =
     then_do (on_disk (\<lambda>fs. (case serve_chunk_directory (mc_cdc C) fs (is_loopback bind) allow_non_loopback (mc_is_dir C source)
          (mc_bind_error C) source max_requests (mc_clients C) of
            Some r \<Rightarrow> r | None \<Rightarrow> Inl (Foreign ''terminated''), fs))) (\<lambda>report.
     report_line C (ServeReport report) json_path)"

definition verify_command :: "'k meld_cli_ext \<Rightarrow> string \<Rightarrow> string \<Rightarrow> string option \<Rightarrow> ('k, meld_output) meld_action" where
  "verify_command C descriptor file json_path =
     then_do (read_descriptor C descriptor) (\<lambda>d.
     then_do (on_disk (\<lambda>fs. (verify_target (mc_cdc C) fs d file, fs))) (\<lambda>report.
     then_do (save_meld_report C (VerifyReport report) json_path) (\<lambda>_.
     pass (bail_if (\<not> vr_verified report) ''verification failed'' (Inr (MeldLine (VerifyReport report)))))))"

definition compare_command ::
    "'k meld_cli_ext \<Rightarrow> string \<Rightarrow> string \<Rightarrow> string option \<Rightarrow> ('k, meld_output) meld_action" where
  "compare_command C descriptor db json_path =
     then_do (read_descriptor C descriptor) (\<lambda>d.
     then_do (open_index C db) (\<lambda>index.
     then_do (on_disk (\<lambda>fs. (compare_descriptor (mc_cdc C) d index db (fs_metadata fs), fs))) (\<lambda>report.
     report_line C (CompareReport report) json_path)))"

definition plan_command ::
    "'k meld_cli_ext \<Rightarrow> string \<Rightarrow> string \<Rightarrow> string \<Rightarrow> string option \<Rightarrow> ('k, meld_output) meld_action" where
  "plan_command C torrent descriptor db json_path =
     then_do (read_torrent C torrent) (\<lambda>t.
     then_do (read_descriptor C descriptor) (\<lambda>d.
     then_do (open_index C db) (\<lambda>index.
     then_do (on_disk (\<lambda>fs. (plan_v1_bridge (mc_bt C) index fs t d, fs))) (\<lambda>report.
     report_line C (BridgeReport report) json_path))))"

definition fetch_peer_command ::
    "'k meld_cli_ext \<Rightarrow> string \<Rightarrow> string \<Rightarrow> string \<Rightarrow> socket_addr \<Rightarrow> string \<Rightarrow> string option \<Rightarrow> ('k, meld_output) meld_action" where
  "fetch_peer_command C torrent descriptor db peer out json_path =
     then_do (read_torrent C torrent) (\<lambda>t.
     then_do (read_descriptor C descriptor) (\<lambda>d.
     then_do (open_index C db) (\<lambda>index.
     then_do (pass (mc_peer_id C)) (\<lambda>_.
     then_do (on_disk (mc_download C index t d peer out)) (\<lambda>report.
     report_line C (PeerReport report) json_path)))))"

definition fetch_tracker_command ::
    "'k meld_cli_ext \<Rightarrow> string \<Rightarrow> string \<Rightarrow> string \<Rightarrow> string option \<Rightarrow> u16 \<Rightarrow> string \<Rightarrow> string option \<Rightarrow> ('k, meld_output) meld_action" where
  "fetch_tracker_command C torrent descriptor db tracker announce_port out json_path =
     then_do (read_torrent C torrent) (\<lambda>t.
     then_do (read_descriptor C descriptor) (\<lambda>d.
     then_do (open_index C db) (\<lambda>index.
     then_do (tracked_download C t d index tracker announce_port out) (\<lambda>report.
     report_line C (TrackerReport report None) json_path))))"

definition fetch_metadata_command ::
    "'k meld_cli_ext \<Rightarrow> string \<Rightarrow> socket_addr \<Rightarrow> string option \<Rightarrow> ('k, meld_output) meld_action" where
  "fetch_metadata_command C magnet peer json_path =
     then_do (pass (parse_v1_magnet (mc_bt C) magnet)) (\<lambda>magnet.
     then_do (pass (ask_metadata_peer C magnet peer)) (\<lambda>(t, report).
     report_line C (MetadataReport report) json_path))"

definition seed_file_command ::
    "'k meld_cli_ext \<Rightarrow> string \<Rightarrow> string \<Rightarrow> string \<Rightarrow> socket_addr \<Rightarrow> bool \<Rightarrow> bt_seed_options \<Rightarrow> string option \<Rightarrow> ('k, meld_output) meld_action" where
  "seed_file_command C torrent descriptor file bind allow_non_loopback options json_path =
     then_do (read_torrent C torrent) (\<lambda>t.
     then_do (read_descriptor C descriptor) (\<lambda>d.
     then_do (pass (mc_shutdown_flag C)) (\<lambda>_.
     then_do (on_disk (\<lambda>fs. (serve_v1_file_until_shutdown_with_options (mc_file_seeder C) fs t d file bind allow_non_loopback options, fs))) (\<lambda>report.
     report_line C (SeedReport report) json_path))))"

definition seed_index_command ::
    "'k meld_cli_ext \<Rightarrow> string \<Rightarrow> string \<Rightarrow> string \<Rightarrow> socket_addr \<Rightarrow> bool \<Rightarrow> bt_seed_options \<Rightarrow> string option \<Rightarrow> ('k, meld_output) meld_action" where
  "seed_index_command C torrent descriptor db bind allow_non_loopback options json_path =
     then_do (read_torrent C torrent) (\<lambda>t.
     then_do (read_descriptor C descriptor) (\<lambda>d.
     then_do (open_index C db) (\<lambda>index.
     then_do (pass (mc_shutdown_flag C)) (\<lambda>_.
     then_do (on_disk (\<lambda>fs. (serve_v1_index_until_shutdown_with_options (mc_index_seeder C) index fs t d db bind allow_non_loopback options, fs))) (\<lambda>report.
     report_line C (IndexSeedReport report) json_path)))))"

definition stage_command ::
    "'k meld_cli_ext \<Rightarrow> string \<Rightarrow> string \<Rightarrow> string \<Rightarrow> string \<Rightarrow> string option \<Rightarrow> ('k, meld_output) meld_action" where
  "stage_command C descriptor target db out_dir json_path =
     then_do (read_descriptor C descriptor) (\<lambda>d.
     then_do (open_index C db) (\<lambda>index.
     then_do (on_disk (stage_missing_chunks (mc_cdc C) index (mc_disk C) (mc_now C) d target out_dir)) (\<lambda>report.
     report_line C (StageReport report) json_path)))"

definition fetch_missing_command ::
    "'k meld_cli_ext \<Rightarrow> string \<Rightarrow> string \<Rightarrow> socket_addr \<Rightarrow> string \<Rightarrow> string option \<Rightarrow> ('k, meld_output) meld_action" where
  "fetch_missing_command C descriptor db peer out_dir json_path =
     then_do (read_descriptor C descriptor) (\<lambda>d.
     then_do (open_index C db) (\<lambda>index.
     then_do (on_disk (\<lambda>fs. case fetch_missing_chunks (mc_cdc C) index (mc_disk C) (mc_send C) (mc_now C) d (mc_chunk_peer C peer) out_dir fs of
         (r, fs', sent) \<Rightarrow> (r, fs'))) (\<lambda>report.
     report_line C (FetchReport report) json_path)))"

definition rebuild_command ::
    "'k meld_cli_ext \<Rightarrow> string \<Rightarrow> string \<Rightarrow> string \<Rightarrow> string \<Rightarrow> string option \<Rightarrow> ('k, meld_output) meld_action" where
  "rebuild_command C descriptor db missing_source out json_path =
     then_do (read_descriptor C descriptor) (\<lambda>d.
     then_do (open_index C db) (\<lambda>index.
     then_do (on_disk (rebuild_target (mc_cdc C) index (mc_disk C) (mc_now C) d missing_source out)) (\<lambda>report.
     report_line C (RebuildReport report) json_path)))"

fun run_meld :: "'k meld_cli_ext \<Rightarrow> meld_command \<Rightarrow> ('k, meld_output) meld_action" where
  "run_meld C (Capabilities json_path) = report_line C (CapabilitiesReport (capabilities (mc_engine_version C))) json_path"
| "run_meld C (Smd c) = on_smd (mc_now C) (then_do (run_smd (mc_smd C) c) (\<lambda>line. pass (Inr (SmdLine line))))"
| "run_meld C (Index source db profile json_path) = index_command C source db profile json_path"
| "run_meld C (Describe target out profile) = describe_command C target out profile"
| "run_meld C (Compare descriptor db json_path) = compare_command C descriptor db json_path"
| "run_meld C (BtPlan torrent descriptor db json_path) = plan_command C torrent descriptor db json_path"
| "run_meld C (BtFetchPeer torrent descriptor db peer out json_path) = fetch_peer_command C torrent descriptor db peer out json_path"
| "run_meld C (BtFetchTracker torrent descriptor db tracker announce_port out json_path) = fetch_tracker_command C torrent descriptor db tracker announce_port out json_path"
| "run_meld C (BtFetchMetadata magnet peer json_path) = fetch_metadata_command C magnet peer json_path"
| "run_meld C (BtFetchMagnet magnet metadata metadata_peer descriptor db tracker announce_port out json_path) =
     magnet_command C magnet metadata metadata_peer descriptor db tracker announce_port out json_path"
| "run_meld C (BtSeedFile torrent descriptor file bind allow_non_loopback options json_path) = seed_file_command C torrent descriptor file bind allow_non_loopback options json_path"
| "run_meld C (BtSeedIndex torrent descriptor db bind allow_non_loopback options json_path) = seed_index_command C torrent descriptor db bind allow_non_loopback options json_path"
| "run_meld C (StageMissing descriptor target db out_dir json_path) = stage_command C descriptor target db out_dir json_path"
| "run_meld C (ServeChunks source bind allow_non_loopback max_requests json_path) =
     serve_command C source bind allow_non_loopback max_requests json_path"
| "run_meld C (FetchMissing descriptor db peer out_dir json_path) = fetch_missing_command C descriptor db peer out_dir json_path"
| "run_meld C (Rebuild descriptor db missing_source out json_path) = rebuild_command C descriptor db missing_source out json_path"
| "run_meld C (Verify descriptor file json_path) = verify_command C descriptor file json_path"

end
