(* ===== verification/Smd_Command_Safety.thy ===== *)
theory Smd_Command_Safety
  imports Smd_Commands
begin

text \<open>
  What the commands keep, whatever they are given and however they end: the ledgers stay consistent and only
  grow, files are only added, and a command touches the ledger it names and no other. The facts are put
  together from the steps of the commands by the rules of \<open>state_preorder\<close>.
\<close>

section \<open>Ledgers\<close>

definition handle :: "ledger_db \<Rightarrow> ledger" where
  "handle db = \<lparr>lg_db = db, lg_network = Devnet, lg_anti_fraud = default_anti_fraud\<rparr>"

text \<open>A ledger file is new or holds a consistent ledger.\<close>

definition holding :: "smd_ext \<Rightarrow> ledger_db \<Rightarrow> bool" where
  "holding X db \<longleftrightarrow> (\<exists>st. ledger_holds X (handle db) st)"

definition sound_db :: "smd_ext \<Rightarrow> ledger_db \<Rightarrow> bool" where
  "sound_db X db \<longleftrightarrow> db = empty_db \<or> holding X db"

definition db_evolves :: "smd_ext \<Rightarrow> ledger_db \<Rightarrow> ledger_db \<Rightarrow> bool" where
  "db_evolves X db db' \<longleftrightarrow> (sound_db X db \<longrightarrow> sound_db X db') \<and>
     (\<forall>st. ledger_holds X (handle db) st \<longrightarrow> (\<exists>st'. ledger_holds X (handle db') st' \<and> ledger_grows (handle db) st (handle db') st'))"

interpretation ledger_order: state_preorder "db_evolves X" for X
proof
  show "db_evolves X db db" for db using ledger_grows_refl by (auto simp: db_evolves_def)
  show "db_evolves X a c" if "db_evolves X a b" "db_evolves X b c" for a b c
    using that ledger_grows_trans unfolding db_evolves_def by meson
qed

lemma handle_same: "lg_network L = Devnet \<Longrightarrow> lg_anti_fraud L = default_anti_fraud \<Longrightarrow> handle (lg_db L) = L"
  by (simp add: handle_def)

lemma handle_db [simp]: "lg_db (handle db) = db"
  by (simp add: handle_def)

definition devnet_handle :: "ledger \<Rightarrow> bool" where
  "devnet_handle L \<longleftrightarrow> lg_network L = Devnet \<and> lg_anti_fraud L = default_anti_fraud"

lemma open_ledger_ensures: "ensures (sound_db X) (db_evolves X) devnet_handle (holding X) (open_ledger Devnet)"
proof (rule ensuresI)
  fix db r db'
  assume sound: "sound_db X db" and run: "open_ledger Devnet db = (r, db')"
  show "db_evolves X db db' \<and> (\<forall>L. r = Inr L \<longrightarrow> devnet_handle L \<and> holding X db')"
  proof (cases "db = empty_db")
    case True
    have "handle (lg_db genesis_ledger) = genesis_ledger" by (simp add: handle_def genesis_ledger_def)
    moreover have "\<not> ledger_holds X (handle empty_db) st" for st
      by (simp add: ledger_holds_def empty_db_def handle_def)
    ultimately show ?thesis
      using True run open_fresh genesis_holds [of X]
      by (auto simp: open_ledger_def db_evolves_def sound_db_def holding_def devnet_handle_def genesis_ledger_def)
  next
    case False
    then obtain st where st: "ledger_holds X (handle db) st" using sound by (auto simp: sound_db_def holding_def)
    then have "open_ledger Devnet db = (Inr (handle db), db)" using reopen_same [OF st] by (simp add: open_ledger_def)
    with run st ledger_order.same show ?thesis by (auto simp: holding_def devnet_handle_def handle_def)
  qed
qed

lemma update_ledger_ensures:
  assumes "smd_ext_ok X" "devnet_handle L"
    and "\<And>L L' x. f L = Inr (L', x) \<Longrightarrow> ledger_step X (devnet_order X) L L'"
    and "\<And>L L' x. f L = Inr (L', x) \<Longrightarrow> devnet_handle L \<Longrightarrow> devnet_handle L'"
  shows "ensures (holding X) (db_evolves X) (\<lambda>(L, _). devnet_handle L) (holding X) (update_ledger f L)"
proof (rule ensuresI)
  fix db r db'
  assume hold: "holding X db" and run: "update_ledger f L db = (r, db')"
  have L: "L\<lparr>lg_db := db\<rparr> = handle db" using assms(2) by (simp add: devnet_handle_def handle_def)
  show "db_evolves X db db' \<and> (\<forall>x. r = Inr x \<longrightarrow> (case x of (L, _) \<Rightarrow> devnet_handle L) \<and> holding X db')"
  proof (cases "f (handle db)")
    case (Inl e)
    with run L show ?thesis using ledger_order.same by (auto simp: update_ledger_def)
  next
    case (Inr y)
    obtain L' x where y: "y = (L', x)" by (cases y)
    have dev: "devnet_handle L'" using assms(4) Inr y by (simp add: devnet_handle_def handle_def)
    then have L': "handle (lg_db L') = L'" by (simp add: devnet_handle_def handle_same)
    have grow: "\<exists>st'. ledger_holds X L' st' \<and> ledger_grows (handle db) st L' st'" if "ledger_holds X (handle db) st" for st
      using ledger_step_holds [OF assms(3) [OF Inr [unfolded y]] that assms(1) devnet.consensus_engine_axioms] .
    then have "holding X (lg_db L')" using hold L' unfolding holding_def by metis
    with grow run L L' Inr y dev show ?thesis by (auto simp: update_ledger_def db_evolves_def sound_db_def)
  qed
qed

lemma steps_keep_handle:
  "submit_transaction X L t epoch = Inr (L', i) \<Longrightarrow> devnet_handle L \<Longrightarrow> devnet_handle L'"
  "submit_contribution X L c = Inr (L', i) \<Longrightarrow> devnet_handle L \<Longrightarrow> devnet_handle L'"
  "mine_rewards X order L epoch = Inr (L', s) \<Longrightarrow> devnet_handle L \<Longrightarrow> devnet_handle L'"
  by (auto simp: submit_transaction_def submit_transactions_atomically_def submit_contribution_def mine_rewards_def
      devnet_handle_def Let_def split: if_splits)

lemma steps_are_steps:
  "submit_transaction X L t epoch = Inr (L', i) \<Longrightarrow> ledger_step X (devnet_order X) L L'"
  "submit_contribution X L c = Inr (L', i) \<Longrightarrow> ledger_step X (devnet_order X) L L'"
  "mine_rewards X (devnet_order X) L epoch = Inr (L', s) \<Longrightarrow> ledger_step X (devnet_order X) L L'"
  by (auto simp: submit_transaction_def intro: ledger_step.intros)

lemma operations_ensure:
  assumes "smd_ext_ok X" "devnet_handle L"
  shows "ensures (holding X) (db_evolves X) (\<lambda>(L, _). devnet_handle L) (holding X) (update_ledger (\<lambda>L. submit_transaction X L t epoch) L)"
    and "ensures (holding X) (db_evolves X) (\<lambda>(L, _). devnet_handle L) (holding X) (update_ledger (\<lambda>L. submit_contribution X L c) L)"
    and "ensures (holding X) (db_evolves X) (\<lambda>(L, _). devnet_handle L) (holding X)
      (update_ledger (\<lambda>L. mine_rewards X (devnet_order X) L epoch) L)"
  by (rule update_ledger_ensures [OF assms]; erule steps_are_steps steps_keep_handle; assumption?)+

text \<open>The scenario, from any sound ledger.\<close>

lemma scenario_payment_ensures:
  "smd_ext_ok X \<Longrightarrow> devnet_handle L \<Longrightarrow>
     ensures (holding X) (db_evolves X) (\<lambda>(L, _). devnet_handle L) (holding X) (scenario_payment X w from to text L)"
  unfolding scenario_payment_def
  by (intro ledger_order.ensures_bind [OF ledger_order.ensures_pass [where Q = always]] operations_ensure) simp_all

lemma scenario_ensures:
  assumes "smd_ext_ok X"
  shows "ensures (sound_db X) (db_evolves X) always (holding X) (run_devnet_scenario X)"
proof -
  note pass = ledger_order.ensures_bind [OF ledger_order.ensures_pass [where Q = always]]
    and step = ledger_order.ensures_bind
  have reopen: "ensures (holding X) (db_evolves X) devnet_handle (holding X) (open_ledger Devnet)"
    using open_ledger_ensures [of X] by (auto simp: ensures_def sound_db_def)
  show ?thesis
    unfolding run_devnet_scenario_def case_prod_beta
    apply (rule pass, simp)+
    apply (rule step [OF open_ledger_ensures])
    apply (rule pass, simp)+
    apply (rule step [OF operations_ensure(2) [OF assms]], assumption)
    apply (rule step [OF operations_ensure(3) [OF assms]], simp add: case_prod_beta)
    apply (rule step [OF scenario_payment_ensures [OF assms]], simp add: case_prod_beta)
    apply (rule step [OF scenario_payment_ensures [OF assms]], simp add: case_prod_beta)
    apply (rule pass, simp)+
    apply (rule step [OF reopen])
    apply (rule pass, simp)+
    apply (rule ledger_order.ensures_pass, simp)
    done
qed

text \<open>A sound ledger is new or opens again as it is, and passes the startup check.\<close>

lemma sound_db_opens:
  assumes "sound_db X db"
  shows "db = empty_db \<or>
    (\<exists>L st. open_ledger Devnet db = (Inr L, db) \<and> verify_invariants L = Inr () \<and>
      read_supply (lg_db L) = Inr st \<and> units (minted_supply st) \<le> units MAX_SUPPLY \<and>
      accounts_total (db_accounts (lg_db L)) = int (units (minted_supply st)) \<and>
      units GENESIS_RESERVE \<le> units (reserve_balance st))"
proof (cases "db = empty_db")
  case False
  then obtain st where st: "ledger_holds X (handle db) st" using assms by (auto simp: sound_db_def holding_def)
  then have rep: "ledger_rep (lg_db (handle db)) st" by (simp add: ledger_holds_def)
  have "open_ledger Devnet db = (Inr (handle db), db)" using reopen_same [OF st] by (simp add: open_ledger_def)
  with rep verify_invariants_rep [OF rep] read_supply_rep [OF rep] show ?thesis by (auto simp: ledger_rep_def supply_consistent_def)
qed simp

section \<open>The world of a command\<close>

text \<open>
  What a command may do to the world: ledgers evolve, and only the one it names; files are only added.
\<close>

definition command_effect :: "smd_ext \<Rightarrow> string option \<Rightarrow> 'k smd_world \<Rightarrow> 'k smd_world \<Rightarrow> bool" where
  "command_effect X named W W' \<longleftrightarrow>
     (\<forall>p. db_evolves X (sw_ledgers W p) (sw_ledgers W' p)) \<and>
     (\<forall>p. Some p \<noteq> named \<longrightarrow> sw_ledgers W' p = sw_ledgers W p) \<and>
     sw_files W \<subseteq>\<^sub>m sw_files W'"

interpretation world_order: state_preorder "command_effect X named" for X named
proof
  show "command_effect X named W W" for W
    using ledger_order.same by (auto simp: command_effect_def)
  show "command_effect X named W W2"
    if "command_effect X named W W1" "command_effect X named W1 W2" for W W1 W2
  proof -
    have "db_evolves X (sw_ledgers W p) (sw_ledgers W2 p)" for p
      using that ledger_order.step unfolding command_effect_def by blast
    moreover have "sw_files W \<subseteq>\<^sub>m sw_files W2" using that map_le_trans unfolding command_effect_def by blast
    ultimately show ?thesis using that unfolding command_effect_def by metis
  qed
qed

definition world_sound :: "smd_ext \<Rightarrow> 'k smd_world \<Rightarrow> bool" where
  "world_sound X W \<longleftrightarrow> (\<forall>p. sound_db X (sw_ledgers W p))"

definition opened :: "smd_ext \<Rightarrow> string \<Rightarrow> 'k smd_world \<Rightarrow> bool" where
  "opened X path W \<longleftrightarrow> world_sound X W \<and> holding X (sw_ledgers W path)"

lemma db_evolves_holding: "db_evolves X db db' \<Longrightarrow> holding X db \<Longrightarrow> holding X db'"
  unfolding db_evolves_def holding_def by blast

lemma effect_stable:
  "command_effect X named W W' \<Longrightarrow> world_sound X W \<Longrightarrow> world_sound X W'"
  "command_effect X named W W' \<Longrightarrow> opened X path W \<Longrightarrow> opened X path W'"
proof -
  show sound: "command_effect X named W W' \<Longrightarrow> world_sound X W \<Longrightarrow> world_sound X W'"
    unfolding command_effect_def world_sound_def db_evolves_def by blast
  show "command_effect X named W W' \<Longrightarrow> opened X path W \<Longrightarrow> opened X path W'"
    using sound db_evolves_holding unfolding opened_def command_effect_def by blast
qed

lemma ensures_stable:
  assumes "keeps (command_effect X named) m"
  shows "ensures (world_sound X) (command_effect X named) always (world_sound X) m"
    "ensures (opened X path) (command_effect X named) always (opened X path) m"
  using assms effect_stable unfolding ensures_def by blast+

lemma on_ledger_ensures:
  assumes "ensures P (db_evolves X) Q (holding X) m" "\<And>db. P db \<Longrightarrow> sound_db X db"
  shows "ensures (\<lambda>W. world_sound X W \<and> P (sw_ledgers W path)) (command_effect X (Some path)) Q (opened X path) (on_ledger path m :: ('k, 'a) command)"
proof (rule ensuresI)
  fix W W' :: "'k smd_world" and r
  assume W: "world_sound X W \<and> P (sw_ledgers W path)" and run: "on_ledger path m W = (r, W')"
  obtain r1 db where m: "m (sw_ledgers W path) = (r1, db)" by (cases "m (sw_ledgers W path)")
  have W': "r = r1" "W' = W\<lparr>sw_ledgers := (sw_ledgers W)(path := db)\<rparr>" using run m by (simp_all add: on_ledger_def)
  have db: "db_evolves X (sw_ledgers W path) db" "\<And>x. r1 = Inr x \<Longrightarrow> Q x \<and> holding X db"
    using ensuresD [OF assms(1)] W m by blast+
  then have eff: "command_effect X (Some path) W W'"
    using ledger_order.same by (simp add: command_effect_def W')
  moreover have "opened X path W'" if "r1 = Inr x" for x
    using db(2) [OF that] effect_stable(1) [OF eff] W by (simp add: opened_def W')
  ultimately show "command_effect X (Some path) W W' \<and> (\<forall>x. r = Inr x \<longrightarrow> Q x \<and> opened X path W')"
    using db(2) W'(1) by blast
qed

lemma open_ensures:
  "ensures (world_sound X) (command_effect X (Some path)) devnet_handle (opened X path) (on_ledger path (open_ledger Devnet))"
  using on_ledger_ensures [OF open_ledger_ensures] unfolding ensures_def world_sound_def by blast

lemma update_ensures:
  assumes "ensures (holding X) (db_evolves X) Q (holding X) m"
  shows "ensures (opened X path) (command_effect X (Some path)) Q (opened X path) (on_ledger path m)"
  using on_ledger_ensures [OF assms, of path] unfolding ensures_def opened_def sound_db_def by blast

section \<open>Steps on files and the keychain\<close>

lemma on_files_keeps:
  assumes "\<And>files. files \<subseteq>\<^sub>m snd (m files)"
  shows "keeps (command_effect X named) (on_files m)"
proof (rule ensuresI)
  fix W W' :: "'b smd_world" and r
  assume "on_files m W = (r, W')"
  then show "command_effect X named W W' \<and> (\<forall>x. r = Inr x \<longrightarrow> always x \<and> always W')"
    using assms [of "sw_files W"] ledger_order.same
    by (auto simp: on_files_def command_effect_def split: prod.splits)
qed

lemma on_keychain_keeps: "keeps (command_effect X named) (on_keychain m)"
  using ledger_order.same by (auto simp: ensures_def on_keychain_def command_effect_def split: prod.splits)

lemma import_keeps: "keeps (command_effect X named) (import_wallet C path)"
  unfolding import_wallet_def by (rule on_files_keeps) simp

lemma export_keeps: "keeps (command_effect X named) (export_wallet C w path)"
  unfolding export_wallet_def
  by (rule on_files_keeps) (auto simp: export_devnet_test_file_def map_le_def split: sum.splits)

lemma load_keeps: "keeps (command_effect X named) (load_keychain C name)"
  unfolding load_keychain_def by (rule on_keychain_keeps)

lemma address_keeps: "keeps (command_effect X named) (address_of C w)"
  unfolding address_of_def by (rule world_order.keeps_pass)

lemma save_report_keeps: "keeps (command_effect X named) (save_report C report json_path)"
  unfolding save_report_def
  by (auto intro!: on_files_keeps world_order.keeps_pass simp: map_le_def split: option.split prod.splits)

lemmas step_keeps = on_keychain_keeps import_keeps export_keeps load_keeps address_keeps save_report_keeps world_order.keeps_pass world_order.keeps_bind

section \<open>Commands\<close>

text \<open>The ledger a command names.\<close>

fun command_ledger :: "smd_command \<Rightarrow> string option" where
  "command_ledger (SmdWallet (WalletBalance path ledger_path)) = Some ledger_path"
| "command_ledger (SmdWallet (KeychainBalance name ledger_path)) = Some ledger_path"
| "command_ledger (SmdWallet c) = None"
| "command_ledger (SmdSend path ledger_path to amount epoch expiry_epoch) = Some ledger_path"
| "command_ledger (SmdSendKeychain name ledger_path to amount epoch expiry_epoch) = Some ledger_path"
| "command_ledger (SmdLedger (LedgerStatus path json_path)) = Some path"
| "command_ledger (SmdLedger (LedgerTransactions path limit json_path)) = Some path"
| "command_ledger (SmdLedger (LedgerAudit path json_path)) = Some path"
| "command_ledger (SmdReserve (ReserveStatus path)) = Some path"
| "command_ledger (SmdContribution (ContributionRecord path p r s h n t e i)) = Some path"
| "command_ledger (SmdContribution (ContributionStatus path limit json_path)) = Some path"
| "command_ledger (SmdRewards (RewardsStatus path json_path)) = Some path"
| "command_ledger (SmdDevnet (DevnetGenesis path)) = Some path"
| "command_ledger (SmdDevnet (DevnetMineRewards path epoch json_path)) = Some path"
| "command_ledger (SmdDevnet (DevnetScenario path json_path)) = Some path"

text \<open>From a state with a stable property, a step that keeps the effect can be followed by others.\<close>

lemma after_keeping:
  assumes "keeps (command_effect X named) m"
  shows "(\<And>x. ensures (world_sound X) (command_effect X named) Q P' (f x)) \<Longrightarrow>
      ensures (world_sound X) (command_effect X named) Q P' (then_do m f)"
    "(\<And>x. ensures (opened X path) (command_effect X named) Q P' (f x)) \<Longrightarrow>
      ensures (opened X path) (command_effect X named) Q P' (then_do m f)"
  by (rule world_order.ensures_bind [OF ensures_stable(1) [OF assms]]; simp)
    (rule world_order.ensures_bind [OF ensures_stable(2) [OF assms]]; simp)

text \<open>Nothing is said of the last state of a command but its effect.\<close>

abbreviation sound_command :: "smd_ext \<Rightarrow> string option \<Rightarrow> ('k, 'a) command \<Rightarrow> bool" where
  "sound_command X named m \<equiv> ensures (world_sound X) (command_effect X named) always always m"

lemma sound_keeps: "keeps (command_effect X named) m \<Longrightarrow> sound_command X named m"
  by (auto simp: ensures_def)

lemma opened_pass: "ensures (opened X path) (command_effect X named) always always (pass r)"
  using world_order.same by (auto simp: ensures_def pass_def)

lemma opened_report:
  assumes "\<And>L. devnet_handle L \<Longrightarrow> ensures (opened X path) (command_effect X (Some path)) always always (f L)"
  shows "sound_command X (Some path) (then_do (on_ledger path (open_ledger Devnet)) f)"
  by (rule world_order.ensures_bind [OF open_ensures assms])

lemmas opened_steps = opened_pass after_keeping(2) [OF world_order.keeps_pass] after_keeping(2) [OF save_report_keeps]
  after_keeping(2) [OF address_keeps]

lemma print_balance_sound: "sound_command X (Some path) (print_balance C w path)"
  unfolding print_balance_def by (intro opened_report opened_steps)

lemma send_from_sound:
  assumes "smd_ext_ok (ce_smd C)"
  shows "sound_command (ce_smd C) (Some path) (send_from C w path to amount epoch expiry_epoch)"
  unfolding send_from_def case_prod_beta
  by (intro after_keeping(1) [OF world_order.keeps_pass] opened_report opened_steps
      world_order.ensures_bind [OF update_ensures [OF operations_ensure(1) [OF assms]]])

lemma report_on_sound: "sound_command X (Some path) (then_do (report_on C path f json_path) (\<lambda>r. pass (Inr (ReportLine r))))"
proof -
  have "sound_command X (Some path) (report_on C path f json_path)"
    unfolding report_on_def by (intro opened_report opened_steps)
  from world_order.ensures_bind [OF this world_order.keeps_pass] show ?thesis .
qed

lemma run_wallet_sound: "sound_command (ce_smd C) (command_ledger (SmdWallet c)) (run_wallet C c)"
proof -
  have export: "keeps (command_effect (ce_smd C) named) (export_to C w out)" for named w out
    unfolding export_to_def by (intro step_keeps)
  have save: "keeps (command_effect (ce_smd C) named) (save_to_keychain C w name)" for named w name
    unfolding save_to_keychain_def by (intro step_keeps)
  show ?thesis
    by (cases c) (auto intro!: sound_keeps after_keeping(1) [OF import_keeps] after_keeping(1) [OF load_keeps] print_balance_sound
        export save step_keeps simp: delete_from_keychain_def)
qed

lemma run_ledger_sound: "sound_command X (command_ledger (SmdLedger c)) (run_ledger C c)"
  by (cases c) (simp_all add: report_on_sound)

lemma run_reserve_sound: "sound_command X (command_ledger (SmdReserve c)) (run_reserve C c)"
  by (cases c) (auto intro!: opened_report opened_steps)

lemma run_contribution_sound:
  assumes "smd_ext_ok (ce_smd C)"
  shows "sound_command (ce_smd C) (command_ledger (SmdContribution c)) (run_contribution C c)"
  by (cases c) (auto intro!: after_keeping(1) [OF import_keeps] after_keeping(1) [OF world_order.keeps_pass] opened_report opened_steps
      world_order.ensures_bind [OF update_ensures [OF operations_ensure(2) [OF assms]]])

lemma run_rewards_sound: "sound_command X (command_ledger (SmdRewards c)) (run_rewards C c)"
  by (cases c) (auto intro!: opened_report opened_steps simp: Let_def)

lemma run_devnet_sound:
  assumes "smd_ext_ok (ce_smd C)"
  shows "sound_command (ce_smd C) (command_ledger (SmdDevnet c)) (run_devnet C c)"
proof (cases c)
  case (DevnetScenario path json_path)
  have "ensures (world_sound (ce_smd C)) (command_effect (ce_smd C) (Some path)) always (opened (ce_smd C) path)
      (on_ledger path (run_devnet_scenario (ce_smd C)))"
    using on_ledger_ensures [OF scenario_ensures [OF assms]] unfolding ensures_def world_sound_def by blast
  note step = world_order.ensures_bind [OF this]
  show ?thesis unfolding DevnetScenario run_devnet.simps command_ledger.simps
    by (rule step) (intro opened_steps)
qed (auto intro!: opened_report opened_steps world_order.ensures_bind [OF update_ensures [OF operations_ensure(3) [OF assms]]]
    simp: case_prod_beta)

lemma run_smd_sound:
  assumes "smd_ext_ok (ce_smd C)"
  shows "sound_command (ce_smd C) (command_ledger c) (run_smd C c)"
proof (cases c)
  case (SmdWallet w)
  then show ?thesis using run_wallet_sound by simp
qed (auto intro: after_keeping(1) [OF import_keeps] after_keeping(1) [OF load_keeps] send_from_sound [OF assms] run_ledger_sound
    run_reserve_sound run_contribution_sound [OF assms] run_rewards_sound run_devnet_sound [OF assms])

section \<open>Sequences of commands\<close>

text \<open>Commands run one after another, each with what its run is given of random bytes and of the disk, and any of them may fail.\<close>

inductive smd_run ::
    "smd_ext \<Rightarrow> 'k keyring_ext \<Rightarrow> (smd_command \<Rightarrow> bool) \<Rightarrow> 'k smd_world \<Rightarrow> 'k smd_world \<Rightarrow> bool" for X K allowed where
  smd_run: "ce_smd C = X \<Longrightarrow> ce_keyring C = K \<Longrightarrow> allowed c \<Longrightarrow> run_smd C c W = (r, W') \<Longrightarrow> smd_run X K allowed W W'"

inductive_cases smd_runE: "smd_run X K allowed W W'"

lemma smd_run_effect:
  assumes "smd_run X K allowed U V" "smd_ext_ok X" "world_sound X U"
  obtains c where "allowed c" "command_effect X (command_ledger c) U V"
  using assms(1)
proof (rule smd_runE)
  fix C c r
  assume C: "ce_smd C = X" "ce_keyring C = K" "allowed c" "run_smd C c U = (r, V)"
  have "command_effect X (command_ledger c) U V"
    using ensuresD(1) [OF run_smd_sound [of C c]] C assms(2,3) by simp
  with C(3) that show thesis by blast
qed

lemma smd_runs_sound:
  assumes "(smd_run X K allowed)\<^sup>*\<^sup>* W W'" "smd_ext_ok X" "world_sound X W"
  shows "world_sound X W' \<and> sw_files W \<subseteq>\<^sub>m sw_files W' \<and> (\<forall>p. db_evolves X (sw_ledgers W p) (sw_ledgers W' p))"
  using assms(1)
proof (induction rule: rtranclp_induct)
  case base
  then show ?case using assms(3) ledger_order.same by simp
next
  case (step U V)
  then obtain c where eff: "command_effect X (command_ledger c) U V"
    using smd_run_effect assms(2) by blast
  then have "world_sound X V" using effect_stable(1) step.IH by blast
  moreover have "sw_files W \<subseteq>\<^sub>m sw_files V" using step.IH eff map_le_trans unfolding command_effect_def by blast
  moreover have "db_evolves X (sw_ledgers W p) (sw_ledgers V p)" for p
    using step.IH eff ledger_order.step unfolding command_effect_def by blast
  ultimately show ?case by blast
qed

section \<open>The keychain\<close>

text \<open>
  Whatever the ledgers and the files of the world hold, a wallet in the keychain stays there, unless the command
  deletes it.
\<close>

definition wallet_stays :: "smd_ext \<Rightarrow> 'k keyring_ext \<Rightarrow> string \<Rightarrow> 'k smd_world \<Rightarrow> 'k smd_world \<Rightarrow> bool" where
  "wallet_stays X K name W W' \<longleftrightarrow>
     (\<forall>w. load_wallet X K name (sw_keychain W) = Inr w \<longrightarrow> load_wallet X K name (sw_keychain W') = Inr w)"

interpretation wallet_order: state_preorder "wallet_stays X K name" for X K name
  by unfold_locales (auto simp: wallet_stays_def)

fun deleted_wallet :: "smd_command \<Rightarrow> string option" where
  "deleted_wallet (SmdWallet (KeychainDelete name confirm)) = (if confirm then Some name else None)"
| "deleted_wallet c = None"

lemma elsewhere_stays:
  "keeps (wallet_stays X K name) (on_ledger path m)" "keeps (wallet_stays X K name) (on_files f)"
  by (auto simp: ensures_def on_ledger_def on_files_def wallet_stays_def split: prod.splits)

lemma on_keychain_stays:
  assumes "\<And>k r k' w. m k = (r, k') \<Longrightarrow> load_wallet X K name k = Inr w \<Longrightarrow> load_wallet X K name k' = Inr w"
  shows "keeps (wallet_stays X K name) (on_keychain m)"
  using assms by (fastforce simp: ensures_def on_keychain_def wallet_stays_def split: prod.splits)

lemma save_new_stays:
  assumes "keyring_ok K"
  shows "keeps (wallet_stays X K name) (on_keychain (save_new X K n w))"
proof (rule on_keychain_stays)
  fix k r k' w0
  assume run: "save_new X K n w k = (r, k')" and old: "load_wallet X K name k = Inr w0"
  show "load_wallet X K name k' = Inr w0"
  proof (cases "n = name")
    case True
    with saved_wallet_kept [OF assms] run old show ?thesis by metis
  next
    case False
    with save_new_other [OF assms run] old show ?thesis by metis
  qed
qed

lemma delete_stays:
  assumes "keyring_ok K" "n \<noteq> name"
  shows "keeps (wallet_stays X K name) (on_keychain (delete_wallet K n))"
  using delete_wallet_other [OF assms(1)] assms(2) by (intro on_keychain_stays) metis

lemmas stays_steps = wallet_order.keeps_bind wallet_order.keeps_pass elsewhere_stays

lemma step_stays:
  "keeps (wallet_stays X K name) (import_wallet C path)" "keeps (wallet_stays X K name) (load_keychain C n)"
  "keeps (wallet_stays X K name) (address_of C w)" "keeps (wallet_stays X K name) (export_to C w path)"
  "keeps (wallet_stays X K name) (save_report C report json_path)" "keeps (wallet_stays X K name) (print_balance C w path)"
  "keeps (wallet_stays X K name) (send_from C w path to amount epoch expiry_epoch)"
  "keeps (wallet_stays X K name) (report_on C path f json_path)"
proof -
  show import: "keeps (wallet_stays X K name) (import_wallet C path)" for path unfolding import_wallet_def by (intro stays_steps)
  show "keeps (wallet_stays X K name) (load_keychain C n)" unfolding load_keychain_def by (rule on_keychain_stays) auto
  show address: "keeps (wallet_stays X K name) (address_of C w)" for w unfolding address_of_def by (intro stays_steps)
  show "keeps (wallet_stays X K name) (export_to C w path)"
    unfolding export_to_def export_wallet_def by (intro stays_steps address)
  show save: "keeps (wallet_stays X K name) (save_report C report json_path)" for report
    unfolding save_report_def by (cases json_path) (simp_all add: stays_steps)
  show "keeps (wallet_stays X K name) (print_balance C w path)" unfolding print_balance_def by (intro stays_steps address)
  show "keeps (wallet_stays X K name) (send_from C w path to amount epoch expiry_epoch)"
    unfolding send_from_def case_prod_beta by (intro stays_steps address)
  show "keeps (wallet_stays X K name) (report_on C path f json_path)" unfolding report_on_def by (intro stays_steps save)
qed

lemma run_wallet_stays:
  assumes "keyring_ok (ce_keyring C)" "deleted_wallet (SmdWallet c) \<noteq> Some name"
  shows "keeps (wallet_stays (ce_smd C) (ce_keyring C) name) (run_wallet C c)"
proof -
  have save: "keeps (wallet_stays (ce_smd C) (ce_keyring C) name) (save_to_keychain C w n)" for w n
    unfolding save_to_keychain_def by (intro stays_steps step_stays save_new_stays [OF assms(1)])
  show ?thesis using assms(2)
    by (cases c) (auto intro!: stays_steps step_stays save delete_stays [OF assms(1)] simp: delete_from_keychain_def)
qed

lemma run_smd_stays:
  assumes "keyring_ok (ce_keyring C)" "deleted_wallet c \<noteq> Some name"
  shows "keeps (wallet_stays (ce_smd C) (ce_keyring C) name) (run_smd C c)"
proof (cases c)
  case (SmdWallet w)
  then show ?thesis using run_wallet_stays [OF assms(1)] assms(2) by simp
next
  case (SmdLedger l)
  then show ?thesis by (cases l) (auto intro!: stays_steps step_stays)
next
  case (SmdReserve r)
  then show ?thesis by (cases r) (auto intro!: stays_steps)
next
  case (SmdContribution k)
  then show ?thesis by (cases k) (auto intro!: stays_steps step_stays simp: case_prod_beta)
next
  case (SmdRewards r)
  then show ?thesis by (cases r) (auto intro!: stays_steps step_stays simp: Let_def)
next
  case (SmdDevnet d)
  then show ?thesis by (cases d) (auto intro!: stays_steps step_stays simp: case_prod_beta)
qed (auto intro!: stays_steps step_stays)

text \<open>Commands that do not delete a wallet leave it in the keychain.\<close>

lemma smd_runs_keep_wallet:
  assumes "(smd_run X K (\<lambda>c. deleted_wallet c \<noteq> Some name))\<^sup>*\<^sup>* W W'" "keyring_ok K"
    and "load_wallet X K name (sw_keychain W) = Inr w"
  shows "load_wallet X K name (sw_keychain W') = Inr w"
  using assms(1)
proof (induction rule: rtranclp_induct)
  case (step U V)
  have "wallet_stays X K name U V"
    using step(2)
  proof (rule smd_runE)
    fix C c r
    assume "ce_smd C = X" "ce_keyring C = K" "deleted_wallet c \<noteq> Some name" "run_smd C c U = (r, V)"
    then show ?thesis using ensuresD(1) [OF run_smd_stays [of C c name]] assms(2) by simp
  qed
  with step.IH show ?case by (simp add: wallet_stays_def)
qed (rule assms(3))

end
