(* ===== verification/Meld_Command_Safety.thy ===== *)
theory Meld_Command_Safety
  imports Meld_Commands Smd_Command_Safety Cdc_Transfer Bt_Fetch_Safety
begin

text \<open>
  What the commands of \<open>Meld_Commands\<close> keep, whatever they are given and however they end: ledgers and indexes
  stay consistent, and no file changes but the two of an unfinished download. As for the commands of the ledger, the
  facts are put together from the steps of the commands by the rules of \<open>state_preorder\<close>.
\<close>

section \<open>Downloads\<close>

definition files_kept :: "string set \<Rightarrow> file_system \<Rightarrow> file_system \<Rightarrow> bool" where
  "files_kept S fs fs' \<longleftrightarrow> (\<forall>q n. fs q = Some n \<longrightarrow> q \<notin> S \<longrightarrow> fs' q = Some n)"

lemma files_kept_refl [simp]: "files_kept S fs fs"
  by (simp add: files_kept_def)

lemma files_kept_trans: "files_kept S a b \<Longrightarrow> files_kept S b c \<Longrightarrow> files_kept S a c"
  by (simp add: files_kept_def)

lemma files_kept_mono: "files_kept S fs fs' \<Longrightarrow> S \<subseteq> T \<Longrightarrow> files_kept T fs fs'"
  by (auto simp: files_kept_def)

lemma files_kept_extends: "fs_extends fs fs' \<Longrightarrow> files_kept S fs fs'"
  using fs_extends_node by (auto simp: files_kept_def)

lemma files_kept_new: "path \<notin> dom fs \<Longrightarrow> files_kept S fs (fs(path \<mapsto> n))"
  by (rule files_kept_extends [OF fs_extends_new])

abbreviation resume_files :: "string \<Rightarrow> string set" where
  "resume_files output \<equiv> {fst (resume_paths output), snd (resume_paths output)}"

lemma only_download_files_kept: "only_download_files output fs fs' \<Longrightarrow> files_kept (resume_files output) fs fs'"
  by (auto simp: only_download_files_def files_kept_def)

lemma fetch_run_kept:
  assumes "fetch_run X R db disk t d peers output fs r fs'"
  shows "files_kept (resume_files output) fs fs'"
  using assms
proof (cases rule: fetch_run.cases)
  case (refused now e)
  then show ?thesis using only_download_files_kept [OF fetch_start_frame(1)] by blast
next
  case (ran now plan fs1 content m w fs2 later state_node workers)
  note start = ran(1) and fs2 = ran(4) and finish = ran(6)
  note frame = fetch_start_frame [OF start]
  have paths: "rf_partial_path (fp_resume plan) = fst (resume_paths output)" "rf_state_path (fp_resume plan) = snd (resume_paths output)"
    using frame(3) by blast+
  have kept: "files_kept (resume_files output) fs fs2"
    using only_download_files_kept [OF frame(1)] by (auto simp: files_kept_def fs2 paths)
  moreover have "fs' q = fs2 q" if "q \<notin> resume_files output" "q \<noteq> output" for q
    using finish by (rule fetch_finish_cases) (use that in \<open>auto simp: paths\<close>)
  moreover have "fs output = None" using frame(2) by blast
  ultimately show ?thesis unfolding files_kept_def by (metis option.distinct(1))
qed

text \<open>
  The downloads a run is given are runs of \<open>fetch_run\<close>: one for a single peer, and any number, one after
  another, for the tiers of the trackers.
\<close>

definition downloads_run :: "resume_ext \<Rightarrow> 'k meld_cli_ext \<Rightarrow> bool" where
  "downloads_run R C \<longleftrightarrow>
     (\<forall>db t d peer out fs r fs'. mc_download C db t d peer out fs = (r, fs') \<longrightarrow>
        (\<exists>disk. fetch_run (mc_bt C) R db disk t d [peer] out fs r fs')) \<and>
     (\<forall>db t d out fs transfer fs'. mc_tracked C db t d out fs = (transfer, fs') \<longrightarrow>
        (\<lambda>a b. \<exists>disk peers r. fetch_run (mc_bt C) R db disk t d peers out a r b)\<^sup>*\<^sup>* fs fs')"

lemma downloads_kept:
  assumes "downloads_run R C"
  shows "mc_download C db t d peer out fs = (r, fs') \<Longrightarrow> files_kept (resume_files out) fs fs'"
    and "mc_tracked C db t d out fs = (transfer, fs') \<Longrightarrow> files_kept (resume_files out) fs fs'"
proof -
  assume "mc_download C db t d peer out fs = (r, fs')"
  then obtain disk where "fetch_run (mc_bt C) R db disk t d [peer] out fs r fs'" using assms unfolding downloads_run_def by blast
  then show "files_kept (resume_files out) fs fs'" by (rule fetch_run_kept)
next
  assume "mc_tracked C db t d out fs = (transfer, fs')"
  then have "(\<lambda>a b. \<exists>disk peers r. fetch_run (mc_bt C) R db disk t d peers out a r b)\<^sup>*\<^sup>* fs fs'"
    using assms unfolding downloads_run_def by blast
  then show "files_kept (resume_files out) fs fs'"
    by (induction rule: rtranclp_induct) (auto intro: files_kept_trans fetch_run_kept)
qed

section \<open>Effects\<close>

definition meld_sound :: "smd_ext \<Rightarrow> cdc_ext \<Rightarrow> 'k meld_world \<Rightarrow> bool" where
  "meld_sound SX CX W \<longleftrightarrow> (\<forall>p. sound_db SX (mw_ledgers W p)) \<and> (\<forall>p. index_inv CX (mw_indexes W p))"

definition meld_effect :: "smd_ext \<Rightarrow> cdc_ext \<Rightarrow> string set \<Rightarrow> 'k meld_world \<Rightarrow> 'k meld_world \<Rightarrow> bool" where
  "meld_effect SX CX S W W' \<longleftrightarrow>
     (meld_sound SX CX W \<longrightarrow> meld_sound SX CX W' \<and> files_kept S (mw_files W) (mw_files W'))"

interpretation meld_order: state_preorder "meld_effect SX CX S" for SX CX S
  by unfold_locales (auto simp: meld_effect_def intro: files_kept_trans)

lemma on_disk_keeps:
  assumes "\<And>fs r fs'. m fs = (r, fs') \<Longrightarrow> files_kept S fs fs'"
  shows "keeps (meld_effect SX CX S) (on_disk m)"
  using assms by (auto simp: ensures_def on_disk_def meld_effect_def meld_sound_def split: prod.splits)

lemma on_disk_reads: "keeps (meld_effect SX CX S) (on_disk (\<lambda>fs. (f fs, fs)))"
  by (rule on_disk_keeps) simp

lemma on_index_keeps:
  assumes "\<And>db r db'. m db = (r, db') \<Longrightarrow> index_inv CX db \<Longrightarrow> index_inv CX db'"
  shows "keeps (meld_effect SX CX S) (on_index path m)"
  using assms by (auto simp: ensures_def on_index_def meld_effect_def meld_sound_def split: prod.splits)

lemma open_index_keeps: "keeps (meld_effect SX CX S) (open_index C path)"
  unfolding open_index_def by (rule on_index_keeps) simp

lemma with_contents_kept:
  assumes "contents fs \<subseteq>\<^sub>m files"
  shows "files_kept S fs (with_contents now fs files)"
proof -
  have "contents fs q = files q" if "fs q = Some n" for q n
  proof -
    have "q \<in> dom (contents fs)" using that by (cases n) (auto simp: contents_def)
    with assms show ?thesis by (simp add: map_le_def)
  qed
  then show ?thesis by (simp add: files_kept_def with_contents_def)
qed

lemma on_smd_keeps:
  assumes "sound_command SX named m"
  shows "keeps (meld_effect SX CX S) (on_smd now m)"
proof (rule ensuresI)
  fix W W' :: "'a meld_world" and r
  assume run: "on_smd now m W = (r, W')"
  let ?S = "\<lparr>sw_files = contents (mw_files W), sw_ledgers = mw_ledgers W, sw_keychain = mw_keychain W\<rparr>"
  obtain T where m: "m ?S = (r, T)"
    and W': "W' = W\<lparr>mw_files := with_contents now (mw_files W) (sw_files T), mw_ledgers := sw_ledgers T, mw_keychain := sw_keychain T\<rparr>"
    using run by (auto simp: on_smd_def split: prod.splits)
  have "meld_effect SX CX S W W'"
    unfolding meld_effect_def
  proof
    assume sound: "meld_sound SX CX W"
    then have "world_sound SX ?S" by (simp add: meld_sound_def world_sound_def)
    then have eff: "command_effect SX named ?S T" using ensuresD(1) [OF assms _ m] by blast
    then have "world_sound SX T" "contents (mw_files W) \<subseteq>\<^sub>m sw_files T"
      using effect_stable(1) [OF eff] \<open>world_sound SX ?S\<close> by (simp_all add: command_effect_def)
    with sound show "meld_sound SX CX W' \<and> files_kept S (mw_files W) (mw_files W')"
      using with_contents_kept by (simp add: W' meld_sound_def world_sound_def)
  qed
  then show "meld_effect SX CX S W W' \<and> (\<forall>x. r = Inr x \<longrightarrow> always x \<and> always W')" by simp
qed

section \<open>Steps\<close>

lemma save_meld_report_keeps: "keeps (meld_effect SX CX S) (save_meld_report C report json_path)"
  unfolding save_meld_report_def
  by (auto intro!: on_disk_keeps meld_order.keeps_pass files_kept_new split: option.split prod.splits if_splits)

lemma report_line_keeps: "keeps (meld_effect SX CX S) (report_line C report json_path)"
  unfolding report_line_def by (intro meld_order.keeps_bind save_meld_report_keeps meld_order.keeps_pass)

lemma read_keeps: "keeps (meld_effect SX CX S) (read_torrent C path)" "keeps (meld_effect SX CX S) (read_descriptor C path)"
  unfolding read_torrent_def read_descriptor_def by (rule on_disk_reads)+

lemma save_descriptor_adds: "save_descriptor X files d path = (r, files') \<Longrightarrow> files \<subseteq>\<^sub>m files'"
  by (auto simp: save_descriptor_def map_le_def split: sum.splits if_splits)

lemma write_descriptor_keeps: "keeps (meld_effect SX CX S) (write_descriptor C d path)"
  unfolding write_descriptor_def
  by (rule on_disk_keeps) (auto intro: with_contents_kept dest: save_descriptor_adds split: prod.splits)

lemma index_directory_keeps:
  "cdc_ext_ok CX \<Longrightarrow> keeps (meld_effect SX CX S) (on_index path (\<lambda>db. index_directory CX db source absolute database walk view p))"
  using index_directory_inv [of CX] by (intro on_index_keeps) (metis snd_conv)

lemma stage_missing_kept: "stage_missing_chunks X db disk now d target dir fs = (r, fs') \<Longrightarrow> fs_extends fs fs'"
  by (auto simp: stage_missing_chunks_def split: sum.splits option.splits dest: stage_chunks_extends)

lemma rebuild_kept:
  assumes "rebuild_target X db disk now d dir output fs = (r, fs')"
  shows "fs_extends fs fs'"
proof (cases r)
  case (Inl e)
  with assms rebuild_target_failed show ?thesis by fastforce
next
  case (Inr report)
  with assms have "rebuild_target X db disk now d dir output fs = (Inr report, fs')" by simp
  then obtain bs where "output \<notin> dom fs" "fs' = fs(output \<mapsto> Regular bs now)" by (rule rebuild_target_sound) (rule that)
  then show ?thesis by (simp add: fs_extends_new)
qed

lemma workflow_keeps:
  "keeps (meld_effect SX CX S) (on_disk (stage_missing_chunks X db disk now d target dir))"
  "keeps (meld_effect SX CX S) (on_disk (rebuild_target X db disk now d dir output))"
  "keeps (meld_effect SX CX S) (on_disk (\<lambda>fs. case fetch_missing_chunks X db disk send now d peer dir fs of (r, fs', sent) \<Rightarrow> (r, fs')))"
proof -
  show "keeps (meld_effect SX CX S) (on_disk (stage_missing_chunks X db disk now d target dir))"
    by (rule on_disk_keeps) (rule files_kept_extends [OF stage_missing_kept])
  show "keeps (meld_effect SX CX S) (on_disk (rebuild_target X db disk now d dir output))"
    by (rule on_disk_keeps) (rule files_kept_extends [OF rebuild_kept])
  have "fs_extends fs fs'" if "fetch_missing_chunks X db disk send now d peer dir fs = (r, fs', sent)" for fs r fs' sent
    using fetch_missing_chunks_safe [OF that] by (simp add: only_chunks_added_def)
  then show "keeps (meld_effect SX CX S) (on_disk (\<lambda>fs. case fetch_missing_chunks X db disk send now d peer dir fs of (r, fs', sent) \<Rightarrow> (r, fs')))"
    by (intro on_disk_keeps files_kept_extends) (auto split: prod.splits)
qed

lemma downloads_keep:
  assumes "downloads_run R C" "resume_files out \<subseteq> S"
  shows "keeps (meld_effect SX CX S) (on_disk (mc_download C db t d peer out))"
    and "keeps (meld_effect SX CX S) (tracked_download C t d db tracker announce_port out)"
proof -
  show "keeps (meld_effect SX CX S) (on_disk (mc_download C db t d peer out))"
    by (rule on_disk_keeps) (rule files_kept_mono [OF downloads_kept(1) [OF assms(1)] assms(2)])
  show "keeps (meld_effect SX CX S) (tracked_download C t d db tracker announce_port out)"
    unfolding tracked_download_def
    by (rule on_disk_keeps) (auto split: prod.splits intro: files_kept_mono [OF downloads_kept(2) [OF assms(1)] assms(2)])
qed

section \<open>Commands\<close>

text \<open>The files a command may change: those of an unfinished download.\<close>

fun changed_files :: "meld_command \<Rightarrow> string set" where
  "changed_files (BtFetchPeer t d db peer out json_path) = resume_files out"
| "changed_files (BtFetchTracker t d db tracker port out json_path) = resume_files out"
| "changed_files (BtFetchMagnet magnet metadata peer d db tracker port out json_path) = resume_files out"
| "changed_files c = {}"

lemma keeps_case_prod: "(\<And>a b. keeps R (f a b)) \<Longrightarrow> keeps R (case x of (a, b) \<Rightarrow> f a b)"
  by (cases x) simp

lemmas meld_steps = keeps_case_prod meld_order.keeps_bind meld_order.keeps_pass read_keeps open_index_keeps on_disk_reads report_line_keeps
  save_meld_report_keeps write_descriptor_keeps index_directory_keeps workflow_keeps

lemma resolve_magnet_keeps: "keeps (meld_effect SX CX S) (resolve_magnet C magnet metadata metadata_peer)"
  unfolding resolve_magnet_def by (cases metadata) (simp_all, (intro meld_steps)+)

lemma run_meld_keeps:
  assumes "smd_ext_ok (ce_smd (mc_smd C))" "cdc_ext_ok (mc_cdc C)" "downloads_run R C"
    and "changed_files c \<subseteq> S"
  shows "keeps (meld_effect (ce_smd (mc_smd C)) (mc_cdc C) S) (run_meld C c)"
proof (cases c)
  case (Smd c)
  have "sound_command (ce_smd (mc_smd C)) (command_ledger c)
      (then_do (run_smd (mc_smd C) c) (\<lambda>line. pass (Inr (SmdLine line))))"
    by (rule world_order.ensures_bind [OF run_smd_sound [OF assms(1)]]) (rule world_order.keeps_pass)
  then show ?thesis unfolding Smd run_meld.simps by (rule on_smd_keeps)
next
  case (BtFetchMagnet magnet metadata peer d db tracker port out json_path)
  then have "resume_files out \<subseteq> S" using assms(4) by simp
  then show ?thesis
    unfolding BtFetchMagnet run_meld.simps magnet_command_def Let_def
    by (intro meld_steps resolve_magnet_keeps downloads_keep [OF assms(3)])
next
  case (BtFetchPeer t d db peer out json_path)
  then have "resume_files out \<subseteq> S" using assms(4) by simp
  then show ?thesis unfolding BtFetchPeer run_meld.simps fetch_peer_command_def by (intro meld_steps downloads_keep [OF assms(3)])
next
  case (BtFetchTracker t d db tracker port out json_path)
  then have "resume_files out \<subseteq> S" using assms(4) by simp
  then show ?thesis unfolding BtFetchTracker run_meld.simps fetch_tracker_command_def by (intro meld_steps downloads_keep [OF assms(3)])
qed (simp_all add: index_command_def describe_command_def compare_command_def plan_command_def fetch_metadata_command_def
    seed_file_command_def seed_index_command_def stage_command_def serve_command_def fetch_missing_command_def rebuild_command_def verify_command_def,
    (intro meld_steps assms(2))+)

section \<open>Sequences of commands\<close>

inductive meld_run :: "smd_ext \<Rightarrow> 'k keyring_ext \<Rightarrow> cdc_ext \<Rightarrow> string set \<Rightarrow> 'k meld_world \<Rightarrow> 'k meld_world \<Rightarrow> bool"
  for SX K CX S where
  meld_run: "ce_smd (mc_smd C) = SX \<Longrightarrow> ce_keyring (mc_smd C) = K \<Longrightarrow> mc_cdc C = CX \<Longrightarrow> downloads_run R C \<Longrightarrow> changed_files c \<subseteq> S \<Longrightarrow>
    run_meld C c W = (r, W') \<Longrightarrow> meld_run SX K CX S W W'"

lemma meld_runs_effect:
  assumes "(meld_run SX K CX S)\<^sup>*\<^sup>* W W'" "smd_ext_ok SX" "cdc_ext_ok CX"
  shows "meld_effect SX CX S W W'"
  using assms(1)
proof (induction rule: rtranclp_induct)
  case base
  show ?case by (rule meld_order.same)
next
  case (step U V)
  from step(2) have "meld_effect SX CX S U V"
  proof (cases rule: meld_run.cases)
    case (meld_run C R c r)
    with run_meld_keeps [of C R c S] assms(2,3) show ?thesis by (auto dest: ensuresD(1))
  qed
  with step.IH show ?case by (rule meld_order.step)
qed

end
