(* ===== verification/Smd_Scenario.thy ===== *)
theory Smd_Scenario
  imports Smd_Devnet
begin

text \<open>
  The scenario of the devnet does what it sets out to do. Its steps are taken one by one from the genesis
  ledger: the receipt is accepted, mining rewards it, and each payment is accepted by the ledger the step
  before has left.
\<close>

section \<open>Payments from a ledger\<close>

lemma ledger_account_rep:
  assumes "ledger_rep (lg_db L) st"
  shows "ledger_account L a = Inr \<lparr>acc_address = address_str a, acc_balance = Amount (word_of_int (balance_of (lg_db L) (address_str a))),
    acc_nonce = word_of_int (nonce_of (lg_db L) (address_str a))\<rparr>"
proof -
  note b = rep_balance_bounds [OF assms, of "address_str a"]
  have "amount_from_sql (balance_of (lg_db L) (address_str a)) = Inr (Amount (word_of_int (balance_of (lg_db L) (address_str a))))"
    using b int_unat_word_of_int by (simp add: amount_from_sql_Inr)
  moreover have "u64_from_sql (nonce_of (lg_db L) (address_str a)) l = Inr (word_of_int (nonce_of (lg_db L) (address_str a)))" for l
    using b int_unat_word_of_int by (simp add: u64_from_sql_Inr)
  ultimately show ?thesis
    by (cases "find_account (address_str a) (db_accounts (lg_db L))") (simp_all add: ledger_account_def balance_of_def nonce_of_def)
qed

text \<open>What a payment leaves beyond its effect on the balances: one more transaction, at most one more account, and the keys of all but the sender.\<close>

definition payment_made :: "smd_ext \<Rightarrow> ledger \<Rightarrow> supply_state \<Rightarrow> transaction \<Rightarrow> string \<Rightarrow> ledger \<Rightarrow> supply_state \<Rightarrow> bool" where
  "payment_made X L st t i L' st' \<longleftrightarrow> ledger_holds X L' st' \<and> transfer_effect (lg_db L) st t (lg_db L') st'
     \<and> map tr_id (db_transactions (lg_db L')) = map tr_id (db_transactions (lg_db L)) @ [i]
     \<and> db_receipts (lg_db L') = db_receipts (lg_db L)
     \<and> length (db_accounts (lg_db L')) \<le> Suc (length (db_accounts (lg_db L)))
     \<and> (find_account (tx_to t) (db_accounts (lg_db L)) = None \<longrightarrow>
         (\<exists>r. find_account (tx_to t) (db_accounts (lg_db L')) = Some r \<and> ac_public_key r = None))"

lemma length_put_account: "length (put_account r t) \<le> Suc (length t)"
  by (simp add: put_account_def)

lemma find_put_existing: "find_account (ac_address r) t \<noteq> None \<Longrightarrow> length (put_account r t) = length t"
  by (simp add: put_account_def)

lemma submitted_payment:
  assumes sub: "submit_transaction X L t epoch = Inr (L', i)" and holds: "ledger_holds X L st"
    and app: "apply_transaction X Devnet t epoch (lg_db L) = Inr (lg_db L', i)"
  shows "\<exists>st'. payment_made X L st t i L' st'"
proof -
  have rep: "ledger_rep (lg_db L) st" "transactions_rep (lg_db L)" using holds by (simp_all add: ledger_holds_def)
  obtain ids where batch: "submit_transactions_atomically X L [t] epoch = Inr (L', ids)"
    using sub by (auto simp: submit_transaction_def)
  obtain st' where st': "ledger_holds X L' st'" "batch_effect (lg_db L) st [t] (lg_db L') st'"
    using submit_transactions_holds [OF batch holds] by blast
  note tabs = apply_transaction_tables [OF app rep]
  obtain sender receiver json db1 where
    snd: "find_account (tx_from t) (db_accounts (lg_db L)) = Some sender" and ne: "tx_from t \<noteq> tx_to t" and
    ins: "insert_transaction \<lparr>tr_id = i, tr_json = json, tr_from = tx_from t, tr_to = tx_to t,
       tr_amount = int (units (tx_amount t)), tr_nonce = int (unat (tx_nonce t)), tr_epoch = int (unat epoch)\<rparr>
       (db_transactions (lg_db L)) = Inr (db_transactions (lg_db L'))" and
    rcv: "ac_address receiver = tx_to t"
      "ac_public_key receiver = (case find_account (tx_to t) (db_accounts (lg_db L)) of None \<Rightarrow> None | Some q \<Rightarrow> ac_public_key q)" and
    db1: "db1 = (lg_db L)\<lparr>db_transactions := db_transactions (lg_db L'), db_accounts := put_account receiver
       (put_account (sender\<lparr>ac_balance := ac_balance sender - int (units (tx_amount t)),
          ac_nonce := ac_nonce sender + 1, ac_public_key := Some (tx_from_public_key t)\<rparr>) (db_accounts (lg_db L)))\<rparr>" and
    fin: "if tx_to t = PERMANENT_RESERVE_ADDRESS
     then \<exists>reserve st'. units reserve = units (reserve_balance st) + units (tx_amount t)
       \<and> supply_consistent st' \<and> network_emitted_supply st' = network_emitted_supply st
       \<and> reserve_balance st' = reserve \<and> lg_db L' = db1\<lparr>db_supply := Some (supply_row_of st')\<rparr>
     else lg_db L' = db1"
    by (rule apply_transaction_InrE [OF app rep(1)]) (rule that, assumption+)
  define s' where "s' = sender\<lparr>ac_balance := ac_balance sender - int (units (tx_amount t)),
    ac_nonce := ac_nonce sender + 1, ac_public_key := Some (tx_from_public_key t)\<rparr>"
  have "db_accounts (lg_db L') = db_accounts db1" using fin by (cases "tx_to t = PERMANENT_RESERVE_ADDRESS") auto
  then have acs: "db_accounts (lg_db L') = put_account receiver (put_account s' (db_accounts (lg_db L)))"
    unfolding db1 s'_def by simp
  have s': "ac_address s' = tx_from t" using find_account_Some [OF snd] by (simp add: s'_def)
  then have "length (put_account s' (db_accounts (lg_db L))) = length (db_accounts (lg_db L))"
    using snd by (intro find_put_existing) simp
  then have len: "length (db_accounts (lg_db L')) \<le> Suc (length (db_accounts (lg_db L)))"
    unfolding acs using length_put_account [of receiver] by metis
  have ok: "accounts_ok (db_accounts (lg_db L))" using rep(1) by (simp add: ledger_rep_def)
  have "find_account (tx_to t) (db_accounts (lg_db L')) = Some receiver"
    unfolding acs using accounts.lookup_put [OF accounts.put_ok [OF ok]] rcv(1) by simp
  moreover have "map tr_id (db_transactions (lg_db L')) = map tr_id (db_transactions (lg_db L)) @ [i]"
    using ins by (auto simp: insert_transaction_def split: if_splits dest: arg_cong [where f = "map tr_id"] sym)
  ultimately show ?thesis
    using st' tabs(2) len rcv(2) by (auto simp: payment_made_def)
qed

lemma scenario_payment_ok:
  assumes X: "smd_ext_ok X" and holds: "ledger_holds X L st"
    and w: "wl_network w = Devnet" "wallet_address X w = Inr (Address a)"
    and sender: "find_account a (db_accounts (lg_db L)) = Some r" "ac_public_key r \<in> {None, Some (public_key_hex X w)}" "ac_nonce r = 0"
    and amt: "amount_from_str text = Inr amt" "0 < units amt" "int (units amt) \<le> ac_balance r"
    and to: "parse_for_network X (address_str to) Devnet = Inr to" "address_str to \<noteq> a" "length (address_str to) \<le> 128"
    and t: "tx_signed X w to amt 0 1 10 = Inr t" and i: "tx_id X t = Inr i" "i \<notin> tr_id ` set (db_transactions (lg_db L))"
    and j: "json_transaction X t = Inr j" "length j \<le> 16384"
  shows "\<exists>L' st'. scenario_payment X w (Address a) to text L (lg_db L) = (Inr (L', i), lg_db L') \<and> payment_made X L st t i L' st'"
proof -
  have rep: "ledger_rep (lg_db L) st" "transactions_rep (lg_db L)" "lg_network L = Devnet" using holds by (simp_all add: ledger_holds_def)
  obtain db' where app: "apply_transaction X Devnet t 1 (lg_db L) = Inr (db', i)"
    using apply_transaction_ok [OF X rep(1,2) w sender(1,2) amt(2,3), of 0 1 1 10 to t i j] sender(3) to t i j by auto
  have sub: "submit_transaction X L t 1 = Inr (L\<lparr>lg_db := db'\<rparr>, i)"
    by (rule submit_transaction_ok [OF rep(3,1) app])
  obtain st' where made: "payment_made X L st t i (L\<lparr>lg_db := db'\<rparr>) st'"
    using submitted_payment [OF sub holds] app by auto
  have "ledger_account L (Address a) = Inr \<lparr>acc_address = a, acc_balance = Amount (word_of_int (balance_of (lg_db L) a)), acc_nonce = 0\<rparr>"
    using ledger_account_rep [OF rep(1), of "Address a"] sender(1,3) by (simp add: nonce_of_def)
  then have "scenario_payment X w (Address a) to text L (lg_db L) = (Inr (L\<lparr>lg_db := db'\<rparr>, i), db')"
    using sub t by (simp add: scenario_payment_def amt(1) update_ledger_def)
  with made show ?thesis by (intro exI [of _ "L\<lparr>lg_db := db'\<rparr>"] exI [of _ st']) simp
qed

section \<open>The receipt and its reward\<close>

definition pending_row :: "contribution_receipt \<Rightarrow> string \<Rightarrow> bytes \<Rightarrow> receipt_row" where
  "pending_row c i j = \<lparr>rr_id = i, rr_session_id = cr_session_id c, rr_provider = cr_provider_address c,
     rr_receiver = cr_receiver_address c, rr_content_hash = cr_content_hash c, rr_epoch = 1, rr_nonce = 0,
     rr_json = j, rr_score = 2684354560, rr_subsidy = 0, rr_fee = 0, rr_phase = None, rr_status = Pending\<rparr>"

definition scenario_pending :: "contribution_receipt \<Rightarrow> string \<Rightarrow> bytes \<Rightarrow> ledger" where
  "scenario_pending c i j = genesis_ledger\<lparr>lg_db := (lg_db genesis_ledger)\<lparr>db_receipts := [pending_row c i j]\<rparr>\<rparr>"

lemma scenario_score: "anti_fraud_score default_anti_fraud 2147483648 CdcReconstructionUpload 0 0 = Inr 2684354560"
  by (simp add: anti_fraud_score_Inr score_value_def factor_basis_points_def default_anti_fraud_def)

lemma scenario_contribution:
  assumes "cr_verify X c = Inr ()" "cr_network_id c = Devnet" "cr_id X c = Inr i" "json_receipt X c = Inr j" "length j \<le> 16384"
    "cr_epoch c = 1" "cr_nonce c = 0" "cr_bytes_delivered c = 2147483648" "cr_service_type c = CdcReconstructionUpload"
  shows "submit_contribution X genesis_ledger c = Inr (scenario_pending c i j, i)"
  using assms scenario_score
  by (simp add: submit_contribution_def scenario_pending_def genesis_ledger_def pending_row_def count_u32_def sql_u64_def
      MAX_SERIALIZED_RECEIPT_BYTES_def insert_receipt_def)

lemma scenario_quote:
  "emission_quote 2684354560 ZERO = Inr \<lparr>eq_policy_version = 1, eq_phase = 0, eq_score_bytes = 2684354560, eq_protocol_subsidy = Amount 2500000000\<rparr>"
proof -
  have "emission_phase ZERO = 0"
    by (simp add: emission_phase_def phase_from_step [of _ 0] phase_boundary_def ZERO_def)
  then show ?thesis
    by (simp add: emission_quote_Inr raw_reward_def reward_rate_def EMISSION_VERSION_def)
qed

definition scenario_mined :: "contribution_receipt \<Rightarrow> string \<Rightarrow> bytes \<Rightarrow> ledger" where
  "scenario_mined c i j = (scenario_pending c i j)\<lparr>lg_db := (lg_db (scenario_pending c i j))\<lparr>
     db_accounts := db_accounts (lg_db genesis_ledger) @ [\<lparr>ac_address = cr_provider_address c, ac_balance = 2500000000, ac_nonce = 0,
       ac_public_key = Some (cr_provider_public_key c)\<rparr>],
     db_epochs := [\<lparr>ep_epoch = 1, ep_receipts_processed = 1, ep_subsidy = 2500000000\<rparr>],
     db_receipts := [(pending_row c i j)\<lparr>rr_subsidy := 2500000000, rr_phase := Some 0, rr_status := Rewarded\<rparr>],
     db_supply := Some (supply_row_of \<lparr>minted_supply = Amount 100002500000000, network_emitted_supply = Amount 2500000000,
       reserve_balance = Amount 100000000000000, circulating_supply = Amount 2500000000\<rparr>)\<rparr>\<rparr>"

definition scenario_reward :: reward_summary where
  "scenario_reward = \<lparr>rs_epoch = 1, rs_receipts_processed = 1, rs_total_score_bytes = 2684354560,
     rs_protocol_subsidy = Amount 2500000000, rs_user_resource_fees = ZERO, rs_emission_phase = 0\<rparr>"

lemma scenario_mining:
  assumes "cr_id X c = Inr i" "json_receipt_parse X j = Inr c" "cr_provider_address c \<noteq> PERMANENT_RESERVE_ADDRESS"
  shows "mine_rewards X (devnet_order X) (scenario_pending c i j) 1 = Inr (scenario_mined c i j, scenario_reward)"
proof -
  let ?L = "scenario_pending c i j"
  have pending: "pending_receipts X ?L 1 = Inr [c]"
    using assms(2) by (simp add: pending_receipts_def sql_u64_def scenario_pending_def pending_row_def)
  have prior: "read_supply (lg_db ?L) = Inr supply_genesis"
    using genesis_holds by (simp add: ledger_holds_def ledger_rep_def read_supply_def supply_from_sql_row_of scenario_pending_def)
  have accounts: "find_account (cr_provider_address c) (db_accounts (lg_db ?L)) = None"
    using assms(3) by (simp add: scenario_pending_def genesis_ledger_def)
  define m where "m = \<lparr>mn_db = (lg_db ?L)\<lparr>db_accounts := db_accounts (lg_db (scenario_mined c i j)), db_receipts := db_receipts (lg_db (scenario_mined c i j))\<rparr>,
    mn_emitted = Amount 2500000000, mn_total_score = 2684354560, mn_total_subsidy = Amount 2500000000, mn_total_fees = ZERO, mn_last_phase = 0\<rparr>"
  have row: "find (\<lambda>q. rr_id q = i) (db_receipts (lg_db ?L)) = Some (pending_row c i j)"
    by (simp add: scenario_pending_def pending_row_def)
  have credit: "credit_account (cr_provider_address c) (cr_provider_public_key c) (Amount 2500000000) (lg_db ?L)
      = Inr ((lg_db ?L)\<lparr>db_accounts := db_accounts (lg_db (scenario_mined c i j))\<rparr>)"
    using accounts by (simp add: credit_account_def upsert_account_def amount_add_def checked_add_def amount_to_sql_def account_row_ok_def ZERO_def
        scenario_mined_def scenario_pending_def)
  have arith: "amount_add (Amount 2500000000) ZERO = Inr (Amount 2500000000)" "amount_add ZERO (Amount 2500000000) = Inr (Amount 2500000000)"
    "amount_add ZERO ZERO = Inr ZERO" "amount_to_sql (Amount 2500000000) = Inr 2500000000" "checked_add 0 (2684354560 :: u64) = Some 2684354560"
    by (simp_all add: amount_add_def checked_add_def ZERO_def amount_to_sql_def)
  have left: "amount_sub (max_protocol_reward_per_address_epoch default_anti_fraud) ZERO = Inr (max_protocol_reward_per_address_epoch default_anti_fraud)"
    by (simp add: amount_sub_Inr)
  have least: "from_atomic (min 2500000000 (atomic (max_protocol_reward_per_address_epoch default_anti_fraud))) = Amount 2500000000"
    by (simp add: default_anti_fraud_def from_atomic_def min_def ATOMIC_UNITS_PER_SMD_def)
  have none: "sql_sum (map rr_subsidy (filter (\<lambda>q. rr_provider q = p \<and> rr_epoch q = 1 \<and> rr_status q = Rewarded) (db_receipts (lg_db ?L)))) = Inr 0" for p
    by (simp add: scenario_pending_def pending_row_def sql_sum_def)
  have zero: "amount_from_sql 0 = Inr ZERO" by (simp add: amount_from_sql_Inr)
  obtain q where q: "emission_quote 2684354560 ZERO = Inr q" "unat (eq_phase q) = 0" "eq_phase q = 0" "atomic (eq_protocol_subsidy q) = 2500000000"
    using scenario_quote by simp
  have rows: "map (\<lambda>r. if rr_id r = i \<and> rr_status r = Pending then r\<lparr>rr_subsidy := 2500000000, rr_fee := 0,
      rr_phase := Some (int (unat (eq_phase q))), rr_status := Rewarded\<rparr> else r) (db_receipts (lg_db ?L)) = db_receipts (lg_db (scenario_mined c i j))"
    using q(2) by (simp add: scenario_pending_def scenario_mined_def pending_row_def)
  have mined: "mine_receipt X default_anti_fraud 1 \<lparr>mn_db = lg_db ?L, mn_emitted = ZERO, mn_total_score = 0, mn_total_subsidy = ZERO,
      mn_total_fees = ZERO, mn_last_phase = ph\<rparr> c = Inr m" for ph
  proof -
    have "rr_status (pending_row c i j) = Pending" "u64_from_sql (rr_score (pending_row c i j)) ''contribution score'' = Inr 2684354560"
      "sql_u64 1 = Inr 1" "\<not> MAX_NETWORK_EMISSION < Amount 2500000000" "rr_fee (pending_row c i j) = 0"
      by (simp_all add: pending_row_def u64_from_sql_def sql_u64_def MAX_NETWORK_EMISSION_def less_amount_def)
    then show ?thesis
      using assms(1) row credit q arith left least none zero rows
      by (simp add: mine_receipt_def Let_def V01_pricing_def m_def genesis_sql)
  qed
  define st where "st = \<lparr>minted_supply = Amount 100002500000000, network_emitted_supply = Amount 2500000000,
     reserve_balance = Amount 100000000000000, circulating_supply = Amount 2500000000\<rparr>"
  have st: "from_components (Amount 2500000000) (reserve_balance supply_genesis) = Inr st"
    by (simp add: from_components_Inr st_def supply_consistent_def supply_genesis_def GENESIS_RESERVE_def from_atomic_def)
  have written: "write_supply st (mn_db m) = Inr ((mn_db m)\<lparr>db_supply := Some (supply_row_of st)\<rparr>)"
    by (intro write_supply_eq) (simp_all add: st_def supply_consistent_def m_def scenario_pending_def genesis_ledger_def)
  have epochs: "upsert_epoch \<lparr>ep_epoch = 1, ep_receipts_processed = 1, ep_subsidy = 2500000000\<rparr> [] = Inr [\<lparr>ep_epoch = 1, ep_receipts_processed = 1, ep_subsidy = 2500000000\<rparr>]"
    by (simp add: upsert_epoch_def)
  have db: "(mn_db m)\<lparr>db_supply := Some (supply_row_of st), db_epochs := [\<lparr>ep_epoch = 1, ep_receipts_processed = 1, ep_subsidy = 2500000000\<rparr>]\<rparr>
      = lg_db (scenario_mined c i j)"
    by (simp add: m_def st_def scenario_mined_def)
  have sum: "verify_account_sum (minted_supply st) (lg_db (scenario_mined c i j)) = Inr ()"
    by (simp add: verify_account_sum_def account_sum_def sql_sum_def scenario_mined_def scenario_pending_def genesis_ledger_def amount_from_sql_Inr st_def)
  have net: "network_emitted_supply supply_genesis = ZERO" by (simp add: supply_genesis_def)
  have init: "lg_anti_fraud ?L = default_anti_fraud" "sql_u64 1 = Inr 1" "db_epochs (mn_db m) = []"
    by (simp_all add: scenario_pending_def genesis_ledger_def sql_u64_def m_def)
  have fin: "?L\<lparr>lg_db := lg_db (scenario_mined c i j)\<rparr> = scenario_mined c i j"
    by (simp add: scenario_mined_def)
  have sel: "mn_emitted m = Amount 2500000000" "mn_total_score m = 2684354560" "mn_total_subsidy m = Amount 2500000000"
    "mn_total_fees m = ZERO" "mn_last_phase m = 0"
    by (simp_all add: m_def)
  show ?thesis
    unfolding mine_rewards_def pending prior
    using mined st written epochs db sum init arith(4) fin sel net
    by (simp add: devnet_order_def scenario_reward_def Let_def del: and_then_eq_Inr)
qed

section \<open>All of it\<close>

text \<open>
  What is assumed of the serialiser: the JSON text of a transaction or a receipt with short fields is short.
\<close>

definition json_compact :: "smd_ext \<Rightarrow> bool" where
  "json_compact X \<longleftrightarrow>
     (\<forall>t j. json_transaction X t = Inr j
        \<and> length (tx_from t) + length (tx_from_public_key t) + length (tx_to t) + length (tx_signature t) \<le> 512 \<longrightarrow> length j \<le> 16384) \<and>
     (\<forall>c j. json_receipt X c = Inr j
        \<and> length (cr_provider_address c) + length (cr_provider_public_key c) + length (cr_receiver_address c) + length (cr_receiver_public_key c)
          + length (cr_session_id c) + length (cr_content_hash c) + length (cr_receiver_signature c) \<le> 1024 \<longrightarrow> length j \<le> 16384)"

lemma genesis_status:
  "ledger_status genesis_ledger = Inr s \<Longrightarrow> ls_transactions s = 0 \<and> ls_contribution_receipts s = 0"
  "\<exists>s. ledger_status genesis_ledger = Inr s"
proof -
  have prior: "read_supply (lg_db genesis_ledger) = Inr supply_genesis"
    using genesis_holds by (simp add: ledger_holds_def ledger_rep_def read_supply_def supply_from_sql_row_of)
  show "ledger_status genesis_ledger = Inr s \<Longrightarrow> ls_transactions s = 0 \<and> ls_contribution_receipts s = 0"
    by (auto simp: ledger_status_def count_table_def count_u64_def Let_def genesis_ledger_def)
  show "\<exists>s. ledger_status genesis_ledger = Inr s"
    using prior by (simp add: ledger_status_def count_table_def count_u64_def Let_def) (simp add: genesis_ledger_def)
qed

lemma open_scenario:
  "db = empty_db \<or> db = lg_db genesis_ledger \<Longrightarrow> open_ledger Devnet db = (Inr genesis_ledger, lg_db genesis_ledger)"
  using open_fresh reopen_same [OF genesis_holds] by (auto simp: open_ledger_def)

text \<open>The receipt of the scenario and the ledger it is mined into.\<close>

lemma scenario_receipt:
  assumes "smd_ext_ok X" "json_compact X" "wallet_address X alice = Inr (Address a)" "wallet_address X bob = Inr (Address b)" "a \<noteq> b"
  obtains c i j where
    "cr_confirmed X alice bob ''smd-v01-scenario-session'' (scenario_content X) 2147483648 CdcReconstructionUpload 1 0 = Inr c"
    "submit_contribution X genesis_ledger c = Inr (scenario_pending c i j, i)"
    "mine_rewards X (devnet_order X) (scenario_pending c i j) 1 = Inr (scenario_mined c i j, scenario_reward)"
    "cr_provider_address c = a" "cr_provider_public_key c = public_key_hex X alice"
proof -
  have n: "wl_network alice = Devnet" "wl_network bob = Devnet" by (simp_all add: alice_def bob_def from_secret_bytes_def)
  have len: "length (scenario_content X) = 64" "is_ok (hex_decode X (scenario_content X))"
    by (simp_all add: scenario_content_def sha256_hex_def ext_simps [OF assms(1)])
  have ne: "wallet_address X alice \<noteq> wallet_address X bob" using assms(3-5) by simp
  obtain c where c: "cr_confirmed X alice bob ''smd-v01-scenario-session'' (scenario_content X) 2147483648 CdcReconstructionUpload 1 0 = Inr c"
    "cr_verify X c = Inr ()" "wallet_address X alice = Inr (Address (cr_provider_address c))" "wallet_address X bob = Inr (Address (cr_receiver_address c))"
    "cr_network_id c = Devnet" "cr_session_id c = ''smd-v01-scenario-session''" "cr_content_hash c = scenario_content X" "cr_epoch c = 1"
    "cr_nonce c = 0" "cr_provider_public_key c = public_key_hex X alice" "cr_bytes_delivered c = 2147483648"
    "cr_service_type c = CdcReconstructionUpload" "cr_receiver_public_key c = public_key_hex X bob"
    "length (cr_receiver_signature c) = 128"
    by (rule confirmed_receipt_facts [OF assms(1) n ne, of "''smd-v01-scenario-session''" 2147483648 "scenario_content X"
          CdcReconstructionUpload 1 0]) (use len in simp_all)
  obtain j where j: "json_receipt X c = Inr j" "json_receipt_parse X j = Inr c" using ext_json(3) [OF assms(1)] by blast
  obtain i where i: "cr_id X c = Inr i" using j by (simp add: cr_id_def)
  have "length a \<le> 90" "length b \<le> 90" "a \<noteq> PERMANENT_RESERVE_ADDRESS"
    using wallet_address_parses(2,3) [OF assms(1,3)] wallet_address_parses(2) [OF assms(1,4)] by simp_all
  moreover have "cr_provider_address c = a" "cr_receiver_address c = b" using c(3,4) assms(3,4) by simp_all
  moreover have "length (public_key_hex X w) = 64" for w by (simp add: public_key_hex_def ext_simps [OF assms(1)])
  ultimately have "length j \<le> 16384" "cr_provider_address c \<noteq> PERMANENT_RESERVE_ADDRESS"
    using assms(2) j(1) c len(1) unfolding json_compact_def by fastforce+
  then show thesis
    using that c \<open>cr_provider_address c = a\<close> scenario_contribution [OF c(2,5) i j(1) _ c(8,9,11,12)] scenario_mining [OF i j(2)] by blast
qed

lemma scenario_mined_facts:
  assumes "smd_ext_ok X" "submit_contribution X genesis_ledger c = Inr (scenario_pending c i j, i)"
    "mine_rewards X (devnet_order X) (scenario_pending c i j) 1 = Inr (scenario_mined c i j, scenario_reward)"
  obtains st where "ledger_holds X (scenario_mined c i j) st"
    "units (network_emitted_supply st) = 2500000000" "reserve_balance st = GENESIS_RESERVE"
proof -
  have "ledger_holds X (scenario_pending c i j) supply_genesis"
    by (rule submit_contribution_holds [OF assms(2) genesis_holds assms(1)])
  from mine_rewards_holds [OF assms(3) this assms(1) devnet.consensus_engine_axioms] that show thesis
    by (auto simp: supply_genesis_def scenario_reward_def)
qed

lemma status_of_counts:
  assumes "ledger_holds X L st" "length (db_accounts (lg_db L)) \<le> 4" "length (db_transactions (lg_db L)) = 2"
    "db_receipts (lg_db L) = [r]" "rr_status r = Rewarded"
  obtains s where "ledger_status L = Inr s" "ls_transactions s = 2" "ls_contribution_receipts s = 1" "ls_pending_receipts s = 0"
    "ls_supply s = st"
proof -
  have "read_supply (lg_db L) = Inr st"
    using assms(1) by (simp add: ledger_holds_def ledger_rep_def read_supply_def supply_from_sql_row_of)
  with assms(2-5) have "\<exists>s. ledger_status L = Inr s \<and> ls_transactions s = 2 \<and> ls_contribution_receipts s = 1
      \<and> ls_pending_receipts s = 0 \<and> ls_supply s = st"
    by (simp add: ledger_status_def count_table_def count_u64_def i64_max_def Let_def)
  with that show thesis by blast
qed

lemma scenario_amounts: "amount_from_str ''5.00000000'' = Inr (Amount 500000000)" "amount_from_str ''2.00000000'' = Inr (Amount 200000000)"
proof -
  have "amount_to_string (Amount 500000000) = ''5.00000000''" "amount_to_string (Amount 200000000) = ''2.00000000''"
    by code_simp+
  then show "amount_from_str ''5.00000000'' = Inr (Amount 500000000)" "amount_from_str ''2.00000000'' = Inr (Amount 200000000)"
    by (metis amount_str_round_trip)+
qed

lemma short_transaction:
  assumes "smd_ext_ok X" "json_compact X" "length (address_str to) \<le> 128" "tx_signed X w to amt n ce ee = Inr t" "json_transaction X t = Inr j"
  shows "length j \<le> 16384"
proof -
  note tf = signed_transaction_facts [OF assms(1,3,4)]
  have "length (tx_from t) \<le> 90" using wallet_address_parses(2) [OF assms(1) tf(6)] by simp
  moreover have "length (tx_from_public_key t) = 64" using tf(7) by (simp add: public_key_hex_def ext_simps [OF assms(1)])
  ultimately show ?thesis using assms(2,3,5) tf(2,10) unfolding json_compact_def by fastforce
qed

lemma scenario_runs:
  assumes X: "smd_ext_ok X" "json_compact X" and ne: "wallet_address X alice \<noteq> wallet_address X bob"
    and ids: "\<And>to t u. tx_signed X alice to (Amount 500000000) 0 1 10 = Inr t \<Longrightarrow> tx_signed X bob reserve_address (Amount 200000000) 0 1 10 = Inr u
      \<Longrightarrow> tx_id X t \<noteq> tx_id X u"
    and db: "db = empty_db \<or> db = lg_db genesis_ledger"
  obtains report L st where "run_devnet_scenario X db = (Inr report, lg_db L)" "ledger_holds X L st"
    "ds_reward report = scenario_reward" "ds_alice_balance report = Amount 2000000000" "ds_bob_balance report = Amount 300000000"
    "ls_transactions (ds_ledger_after_restart report) = 2" "ls_contribution_receipts (ds_ledger_after_restart report) = 1"
    "ls_pending_receipts (ds_ledger_after_restart report) = 0" "ls_supply (ds_ledger_after_restart report) = st"
    "units (reserve_balance st) = 100000200000000" "units (minted_supply st) = 100002500000000"
proof -
  obtain a where a: "wallet_address X alice = Inr (Address a)" unfolding wallet_address_def by (rule from_public_key_ok [OF X(1)])
  obtain b where b: "wallet_address X bob = Inr (Address b)" unfolding wallet_address_def by (rule from_public_key_ok [OF X(1)])
  have ab: "a \<noteq> b" using ne a b by simp
  have n: "wl_network alice = Devnet" "wl_network bob = Devnet" by (simp_all add: alice_def bob_def from_secret_bytes_def)
  note pa = wallet_address_parses [OF X(1) a, unfolded n address.sel] and pb = wallet_address_parses [OF X(1) b, unfolded n address.sel]
  obtain c i j where c: "cr_confirmed X alice bob ''smd-v01-scenario-session'' (scenario_content X) 2147483648 CdcReconstructionUpload 1 0 = Inr c"
    "submit_contribution X genesis_ledger c = Inr (scenario_pending c i j, i)"
    "mine_rewards X (devnet_order X) (scenario_pending c i j) 1 = Inr (scenario_mined c i j, scenario_reward)"
    "cr_provider_address c = a" "cr_provider_public_key c = public_key_hex X alice"
    by (rule scenario_receipt [OF X a b ab])
  define L2 where "L2 = scenario_mined c i j"
  obtain st2 where st2: "ledger_holds X L2 st2" "units (network_emitted_supply st2) = 2500000000" "reserve_balance st2 = GENESIS_RESERVE"
    unfolding L2_def by (rule scenario_mined_facts [OF X(1) c(2,3)])
  have L2: "db_accounts (lg_db L2) = [\<lparr>ac_address = PERMANENT_RESERVE_ADDRESS, ac_balance = 100000000000000, ac_nonce = 0, ac_public_key = None\<rparr>,
      \<lparr>ac_address = a, ac_balance = 2500000000, ac_nonce = 0, ac_public_key = Some (public_key_hex X alice)\<rparr>]"
    "db_transactions (lg_db L2) = []" "\<exists>r. db_receipts (lg_db L2) = [r] \<and> rr_status r = Rewarded"
    by (simp_all add: L2_def scenario_mined_def scenario_pending_def genesis_ledger_def c(4,5))
  obtain t where t: "tx_signed X alice (Address b) (Amount 500000000) 0 1 10 = Inr t" using tx_signed_total [OF X(1)] by blast
  obtain jt where jt: "json_transaction X t = Inr jt" using ext_json(1) [OF X(1)] by blast
  obtain it where it: "tx_id X t = Inr it" using jt by (simp add: tx_id_def)
  have lb: "length (address_str (Address b)) \<le> 128" using pb(2) by simp
  note tf = signed_transaction_facts [OF X(1) lb t]
  obtain L3 st3 where p3: "scenario_payment X alice (Address a) (Address b) ''5.00000000'' L2 (lg_db L2) = (Inr (L3, it), lg_db L3)"
    and m3: "payment_made X L2 st2 t it L3 st3"
    using scenario_payment_ok [OF X(1) st2(1) n(1) a _ _ _ scenario_amounts(1) _ _ _ _ lb t it _ jt short_transaction [OF X lb t jt],
        of "\<lparr>ac_address = a, ac_balance = 2500000000, ac_nonce = 0, ac_public_key = Some (public_key_hex X alice)\<rparr>"]
      L2 pa(3) pb(1) ab by auto
  have t_ends: "tx_from t = a" "tx_to t = b" "units (tx_amount t) = 500000000" using tf(2,3,6) a by simp_all
  have bal2: "balance_of (lg_db L2) a = 2500000000" "balance_of (lg_db L2) b = 0" "nonce_of (lg_db L2) b = 0" "find_account b (db_accounts (lg_db L2)) = None"
    using L2(1) pa(3) pb(3) ab by (simp_all add: balance_of_def nonce_of_def)
  obtain rb where rb: "find_account b (db_accounts (lg_db L3)) = Some rb" "ac_public_key rb = None"
    using m3 bal2(4) t_ends(2) by (auto simp: payment_made_def)
  have bal3: "balance_of (lg_db L3) a = 2000000000" "balance_of (lg_db L3) b = 500000000" "nonce_of (lg_db L3) b = 0"
    using m3 bal2 t_ends ab by (simp_all add: payment_made_def transfer_effect_def)
  then have rb': "ac_balance rb = 500000000" "ac_nonce rb = 0" using rb(1) by (simp_all add: balance_of_def nonce_of_def)
  have ids3: "map tr_id (db_transactions (lg_db L3)) = [it]" using m3 L2(2) by (simp add: payment_made_def)
  obtain u where u: "tx_signed X bob reserve_address (Amount 200000000) 0 1 10 = Inr u" using tx_signed_total [OF X(1)] by blast
  obtain ju where ju: "json_transaction X u = Inr ju" using ext_json(1) [OF X(1)] by blast
  obtain iu where iu: "tx_id X u = Inr iu" using ju by (simp add: tx_id_def)
  have lr: "length (address_str reserve_address) \<le> 128" "address_str reserve_address = PERMANENT_RESERVE_ADDRESS"
    by (simp_all add: reserve_address_def PERMANENT_RESERVE_ADDRESS_def)
  have fresh: "iu \<notin> tr_id ` set (db_transactions (lg_db L3))"
  proof -
    have "iu \<noteq> it" using ids [OF t u] it iu by simp
    moreover have "tr_id ` set (db_transactions (lg_db L3)) = {it}" using arg_cong [OF ids3, of set] by simp
    ultimately show ?thesis by simp
  qed
  note uf = signed_transaction_facts [OF X(1) lr(1) u]
  have h3: "ledger_holds X L3 st3" using m3 by (simp add: payment_made_def)
  obtain L4 st4 where p4: "scenario_payment X bob (Address b) reserve_address ''2.00000000'' L3 (lg_db L3) = (Inr (L4, iu), lg_db L4)"
    and m4: "payment_made X L3 st3 u iu L4 st4"
    using scenario_payment_ok [OF X(1) h3 n(2) b rb(1) _ rb'(2) scenario_amounts(2) _ _ _ _ lr(1) u iu fresh ju short_transaction [OF X lr(1) u ju]]
      rb' rb(2) pb(3) lr(2) reserve_parses by auto
  have u_ends: "tx_from u = b" "tx_to u = PERMANENT_RESERVE_ADDRESS" "units (tx_amount u) = 200000000" using uf(2,3,6) b lr(2) by simp_all
  have h4: "ledger_holds X L4 st4" using m4 by (simp add: payment_made_def)
  then have rep4: "ledger_rep (lg_db L4) st4" by (simp add: ledger_holds_def)
  have bal4: "balance_of (lg_db L4) a = 2000000000" "balance_of (lg_db L4) b = 300000000"
    using m4 bal3 u_ends ab pa(3) pb(3) by (simp_all add: payment_made_def transfer_effect_def)
  have supply4: "units (reserve_balance st4) = 100000200000000" "units (minted_supply st4) = 100002500000000"
    using m3 m4 t_ends u_ends st2 pb(3) by (simp_all add: payment_made_def transfer_effect_def ledger_holds_def ledger_rep_def supply_consistent_def)
  have "length (db_accounts (lg_db L4)) \<le> 4" "length (db_transactions (lg_db L4)) = 2"
    using m3 m4 L2(1) arg_cong [of _ _ length, OF ids3] by (auto simp: payment_made_def dest: arg_cong [where f = length])
  moreover obtain r where "db_receipts (lg_db L4) = [r]" "rr_status r = Rewarded" using m3 m4 L2(3) by (auto simp: payment_made_def)
  ultimately obtain s where s: "ledger_status L4 = Inr s" "ls_transactions s = 2" "ls_contribution_receipts s = 1" "ls_pending_receipts s = 0"
    "ls_supply s = st4" by (rule status_of_counts [OF h4])
  obtain s0 where s0: "ledger_status genesis_ledger = Inr s0" "ls_transactions s0 = 0" "ls_contribution_receipts s0 = 0"
    using genesis_status by blast
  have reopen: "open_ledger Devnet (lg_db L4) = (Inr L4, lg_db L4)" using reopen_same [OF h4] by (simp add: open_ledger_def)
  define report where "report = \<lparr>ds_label = ''DEVNET / EXPERIMENTAL / NOT REAL-MONEY READY'', ds_network_id = Devnet, ds_alice_address = a,
    ds_bob_address = b, ds_contribution_receipt_id = i, ds_reward = scenario_reward, ds_alice_to_bob_transaction_id = it,
    ds_bob_to_reserve_transaction_id = iu, ds_alice_balance = Amount 2000000000, ds_bob_balance = Amount 300000000,
    ds_ledger_after_restart = s\<rparr>"
  have "run_devnet_scenario X db = (Inr report, lg_db L4)"
    using a b s0 c(1-3) p3 p4 verify_invariants_rep [OF rep4] ledger_account_rep [OF rep4, of "Address a"] ledger_account_rep [OF rep4, of "Address b"]
      bal4 reopen s(1) open_scenario [OF db]
    by (simp add: run_devnet_scenario_def update_ledger_def L2_def report_def pass_simp)
  then show thesis using h4 s supply4 by (intro that [of report L4 st4]) (simp_all add: report_def)
qed

end
