(* ===== verification/Smd_Command_Properties.thy ===== *)
theory Smd_Command_Properties
  imports Smd_Command_Safety Smd_Scenario
begin

text \<open>
  Properties of whole commands, and worlds at which they are instantiated.
\<close>

section \<open>An instance\<close>

lemma inst_compact: "json_compact inst_ext"
  by (simp add: json_compact_def inst_ext_def inst_transaction_def inst_receipt_def inst_word_def inst_net_def inst_service_def)

lemma inst_address_of_bytes:
  "wallet_address inst_ext (from_secret_bytes Devnet (replicate 32 x)) = Inr (Address (''smddev1'' @ replicate 20 (char_of (unat x))))"
  by (simp add: wallet_address_def from_public_key_def from_secret_bytes_def inst_ext_def inst_bech32_encode_def hrp_def)

lemma inst_alice_bob: "wallet_address inst_ext alice \<noteq> wallet_address inst_ext bob"
  by (simp add: alice_def bob_def inst_address_of_bytes)

text \<open>Transactions of different amounts and the same nonce have different ids.\<close>

lemma inst_ids_differ:
  assumes "tx_nonce t = tx_nonce u" "units (tx_amount t) \<noteq> units (tx_amount u)"
  shows "tx_id inst_ext t \<noteq> tx_id inst_ext u"
proof
  assume "tx_id inst_ext t = tx_id inst_ext u"
  then have "inst_hex_encode (pad_to 32 (inst_transaction t)) = inst_hex_encode (pad_to 32 (inst_transaction u))"
    by (simp add: tx_id_def sha256_hex_def inst_ext_def)
  then have "pad_to 32 (inst_transaction t) = pad_to 32 (inst_transaction u)"
    using inst_hex_round_trip by (metis sum.inject(2))
  then have "take 8 (drop 8 (pad_to 32 (inst_transaction t))) = take 8 (drop 8 (pad_to 32 (inst_transaction u)))" by simp
  then have "be_bytes 8 (units (tx_amount t)) = be_bytes 8 (units (tx_amount u))"
    by (simp add: pad_to_def inst_transaction_def inst_word_def)
  then have "be_nat (be_bytes 8 (units (tx_amount t))) = be_nat (be_bytes 8 (units (tx_amount u)))" by simp
  moreover have "be_nat (be_bytes 8 (units a)) = units a" for a by (rule be_nat_be_bytes) simp
  ultimately show False using assms(2) by simp
qed

definition inst_cli :: "(string \<times> string \<rightharpoonup> string) smd_cli_ext" where
  "inst_cli = \<lparr>ce_smd = inst_ext, ce_keyring = map_keyring, ce_random = replicate 32 7, ce_json = (\<lambda>r. Inr [123, 125]),
     ce_report_write = WritesAll\<rparr>"

lemma inst_cli_simps [simp]: "ce_smd inst_cli = inst_ext" "ce_keyring inst_cli = map_keyring" "ce_random inst_cli = replicate 32 7"
  by (simp_all add: inst_cli_def)

definition new_world :: "(string \<times> string \<rightharpoonup> string) smd_world" where
  "new_world = \<lparr>sw_files = Map.empty, sw_ledgers = (\<lambda>p. empty_db), sw_keychain = Map.empty\<rparr>"

lemma new_world_simps [simp]: "sw_files new_world = Map.empty" "sw_ledgers new_world p = empty_db" "sw_keychain new_world = Map.empty"
  by (simp_all add: new_world_def)

section \<open>The scenario\<close>

text \<open>C10: The devnet scenario passes on a new ledger, and on one that has only been opened: the reward of 25 SMD, of
  which alice pays 5 to bob, who pays 2 of them to the reserve, leaves the balances 20 and 3, a reserve of 1000002 and
  a supply of 1000025; the ledger it reopens is the consistent one it has written, and no file is changed.\<close>

theorem devnet_scenario_passes:
  assumes "smd_ext_ok (ce_smd C)" "json_compact (ce_smd C)"
    and "wallet_address (ce_smd C) alice \<noteq> wallet_address (ce_smd C) bob"
    and "\<And>to t u. tx_signed (ce_smd C) alice to (Amount 500000000) 0 1 10 = Inr t \<Longrightarrow>
      tx_signed (ce_smd C) bob reserve_address (Amount 200000000) 0 1 10 = Inr u \<Longrightarrow> tx_id (ce_smd C) t \<noteq> tx_id (ce_smd C) u"
    and "sw_ledgers W path = empty_db \<or> sw_ledgers W path = lg_db genesis_ledger"
  shows "\<exists>report W' L st. run_smd C (SmdDevnet (DevnetScenario path None)) W = (Inr (ReportLine (ScenarioReport report)), W') \<and>
    W' = W\<lparr>sw_ledgers := (sw_ledgers W)(path := lg_db L)\<rparr> \<and> ledger_holds (ce_smd C) L st \<and>
    ds_reward report = scenario_reward \<and> ds_alice_balance report = Amount 2000000000 \<and> ds_bob_balance report = Amount 300000000 \<and>
    ls_transactions (ds_ledger_after_restart report) = 2 \<and> ls_contribution_receipts (ds_ledger_after_restart report) = 1 \<and>
    ls_supply (ds_ledger_after_restart report) = st \<and>
    units (reserve_balance st) = 100000200000000 \<and> units (minted_supply st) = 100002500000000"
proof -
  obtain report L st where r: "run_devnet_scenario (ce_smd C) (sw_ledgers W path) = (Inr report, lg_db L)" "ledger_holds (ce_smd C) L st"
    "ds_reward report = scenario_reward" "ds_alice_balance report = Amount 2000000000" "ds_bob_balance report = Amount 300000000"
    "ls_transactions (ds_ledger_after_restart report) = 2" "ls_contribution_receipts (ds_ledger_after_restart report) = 1"
    "ls_supply (ds_ledger_after_restart report) = st"
    "units (reserve_balance st) = 100000200000000" "units (minted_supply st) = 100002500000000"
    by (rule scenario_runs [OF assms])
  then have "run_smd C (SmdDevnet (DevnetScenario path None)) W =
      (Inr (ReportLine (ScenarioReport report)), W\<lparr>sw_ledgers := (sw_ledgers W)(path := lg_db L)\<rparr>)"
    by (simp add: on_ledger_def save_report_def pass_simp)
  with r(2-) show ?thesis by blast
qed

theorem devnet_scenario_passes_witness:
  "\<exists>report W'. run_smd inst_cli (SmdDevnet (DevnetScenario ''ledger'' None)) new_world = (Inr (ReportLine (ScenarioReport report)), W') \<and>
     ds_alice_balance report = Amount 2000000000"
proof -
  have "tx_id inst_ext t \<noteq> tx_id inst_ext u"
    if "tx_signed inst_ext alice to (Amount 500000000) 0 1 10 = Inr t" "tx_signed inst_ext bob reserve_address (Amount 200000000) 0 1 10 = Inr u"
    for to t u
    using that by (intro inst_ids_differ) (auto simp: tx_signed_def Let_def and_then_def split: sum.splits)
  then show ?thesis
    using devnet_scenario_passes [of inst_cli new_world "''ledger''"] inst_ext_ok inst_compact inst_alice_bob by auto
qed

section \<open>Sequences of commands\<close>

text \<open>Whatever commands are run from new ledgers, in any order, with any input and whether they fail or not, every
  ledger is new or opens again as it is, passes the startup check and keeps within its cap with the reserve never below the
  genesis reserve, and no file that was there is changed or removed.\<close>

theorem commands_keep_ledgers:
  assumes "smd_ext_ok X" "\<And>p. sw_ledgers W p = empty_db" "(smd_run X K (\<lambda>c. True))\<^sup>*\<^sup>* W W'"
  shows "sw_files W \<subseteq>\<^sub>m sw_files W' \<and>
    (\<forall>p. sw_ledgers W' p = empty_db \<or>
      (\<exists>L st. open_ledger Devnet (sw_ledgers W' p) = (Inr L, sw_ledgers W' p) \<and> verify_invariants L = Inr () \<and>
        read_supply (lg_db L) = Inr st \<and> units (minted_supply st) \<le> units MAX_SUPPLY \<and>
        accounts_total (db_accounts (lg_db L)) = int (units (minted_supply st)) \<and>
        units GENESIS_RESERVE \<le> units (reserve_balance st)))"
  using smd_runs_sound [OF assms(3,1)] assms(2) sound_db_opens [of X] unfolding world_sound_def by (auto simp: sound_db_def)

theorem commands_keep_ledgers_witness:
  "\<exists>r W' L. run_smd inst_cli (SmdDevnet (DevnetGenesis ''ledger'')) new_world = (r, W') \<and>
     sw_ledgers W' ''ledger'' \<noteq> empty_db \<and> open_ledger Devnet (sw_ledgers W' ''ledger'') = (Inr L, sw_ledgers W' ''ledger'')"
proof -
  obtain r W' where run: "run_smd inst_cli (SmdDevnet (DevnetGenesis ''ledger'')) new_world = (r, W')" by fastforce
  have "smd_run inst_ext map_keyring (\<lambda>c. True) new_world W'" by (rule smd_run [OF _ _ _ run]) simp_all
  then have "(smd_run inst_ext map_keyring (\<lambda>c. True))\<^sup>*\<^sup>* new_world W'" by blast
  from commands_keep_ledgers [OF inst_ext_ok _ this]
  have "sw_ledgers W' ''ledger'' = empty_db \<or> (\<exists>L. open_ledger Devnet (sw_ledgers W' ''ledger'') = (Inr L, sw_ledgers W' ''ledger''))"
    by auto
  moreover have "sw_ledgers W' ''ledger'' \<noteq> empty_db"
    using run open_fresh genesis_status(2)
    by (auto simp: on_ledger_def open_ledger_def initialize_eq pass_simp then_do_def empty_db_def genesis_ledger_def split: prod.splits sum.splits)
  ultimately show ?thesis using run by blast
qed

section \<open>The keychain\<close>

text \<open>C9: A new wallet created in the keychain, in a world with any ledgers and files, is found there after any other commands
  that do not delete it: the same address is shown, nothing is changed by showing it, and no second wallet can be created
  under its name.\<close>

theorem keychain_keeps_wallets:
  assumes "smd_ext_ok (ce_smd C)" "keyring_ok (ce_keyring C)" "length (ce_random C) = 32"
    and "run_smd C (SmdWallet (KeychainCreate name)) W = (Inr (WalletLine name a storage), W1)"
    and "(smd_run (ce_smd C) (ce_keyring C) (\<lambda>c. deleted_wallet c \<noteq> Some name))\<^sup>*\<^sup>* W1 W2"
    and "ce_smd D = ce_smd C" "ce_keyring D = ce_keyring C"
  shows "run_smd D (SmdWallet (KeychainAddress name)) W2 = (Inr (AddressLine a), W2) \<and>
    (\<exists>e. run_smd D (SmdWallet (KeychainCreate name)) W2 = (Inl e, W2))"
proof -
  let ?w = "generate Devnet (ce_random C)"
  obtain k where k: "save_new (ce_smd C) (ce_keyring C) name ?w (sw_keychain W) = (Inr (), k)" "W1 = W\<lparr>sw_keychain := k\<rparr>"
    "wallet_address (ce_smd C) ?w = Inr a"
    using assms(4) by (auto simp: save_to_keychain_def then_do_eq_Inr on_keychain_def address_of_def pass_simp split: prod.splits)
  have "load_wallet (ce_smd C) (ce_keyring C) name (sw_keychain W1) = Inr ?w"
    using saved_wallet_loads [OF assms(1,2) k(1)] assms(3) k(2) by (simp add: generate_def from_secret_bytes_def)
  then have found: "load_wallet (ce_smd C) (ce_keyring C) name (sw_keychain W2) = Inr ?w"
    using smd_runs_keep_wallet [OF assms(5,2)] by blast
  obtain r k' where save: "save_new (ce_smd C) (ce_keyring C) name (generate Devnet (ce_random D)) (sw_keychain W2) = (r, k')" by fastforce
  have "r \<noteq> Inr ()" "k' = sw_keychain W2" using saved_wallet_kept [OF assms(2) found save] by simp_all
  then obtain e where "r = Inl e" "k' = sw_keychain W2" by (cases r) auto
  with save found k(3) assms(6,7) show ?thesis
    by (simp add: load_keychain_def on_keychain_def address_of_def pass_simp save_to_keychain_def then_do_Inl)
qed

theorem keychain_keeps_wallets_witness:
  "\<exists>a W1. run_smd inst_cli (SmdWallet (KeychainCreate ''savings'')) new_world = (Inr (WalletLine ''savings'' a ''macos-keychain''), W1) \<and>
     run_smd inst_cli (SmdWallet (KeychainAddress ''savings'')) W1 = (Inr (AddressLine a), W1)"
proof -
  have name: "validate_keychain_name ''savings'' = Inr ()" by code_simp
  obtain b where b: "backup inst_ext (generate Devnet (replicate 32 7)) = Inr b"
    by (rule backup_facts [OF inst_ext_ok, of "generate Devnet (replicate 32 7)"]) (simp_all add: generate_def from_secret_bytes_def)
  obtain a where a: "wallet_address inst_ext (generate Devnet (replicate 32 7)) = Inr a"
    by (simp add: generate_def inst_address_of_bytes)
  have "\<exists>W1. run_smd inst_cli (SmdWallet (KeychainCreate ''savings'')) new_world = (Inr (WalletLine ''savings'' a ''macos-keychain''), W1)"
    using name a b
    by (simp add: save_to_keychain_def on_keychain_def save_new_def map_keyring_def pass_simp address_of_def backend_name_def
        generate_def from_secret_bytes_def then_do_def)
  then obtain W1 where W1: "run_smd inst_cli (SmdWallet (KeychainCreate ''savings'')) new_world = (Inr (WalletLine ''savings'' a ''macos-keychain''), W1)"
    by blast
  have "run_smd inst_cli (SmdWallet (KeychainAddress ''savings'')) W1 = (Inr (AddressLine a), W1)"
    using keychain_keeps_wallets [of inst_cli "''savings''" new_world a "''macos-keychain''" W1 W1 inst_cli] W1 inst_ext_ok map_keyring_ok by simp
  with W1 show ?thesis by blast
qed

section \<open>Payments\<close>

text \<open>The wallet of a file is a devnet wallet.\<close>

lemma imported_wallet_devnet: "import_devnet_test_file X path files = Inr w \<Longrightarrow> wl_network w = Devnet"
  by (auto simp: import_devnet_test_file_def from_backup_def and_then_def bail_if_def from_secret_bytes_def Let_def
      split: sum.splits if_splits)

text \<open>C7: Sending from a wallet file whose account holds the amount, and has the wallet's key or none yet, succeeds for every
  valid receiver other than the sender and every epoch up to the expiry, unless the id of the transaction is taken or the
  nonces are used up: the command takes the nonce from the ledger, moves exactly the amount, and changes no file, no
  other ledger and not the keychain.\<close>

theorem send_command_pays:
  assumes "smd_ext_ok (ce_smd C)" "json_compact (ce_smd C)"
    and "sw_ledgers W path = lg_db L" "ledger_holds (ce_smd C) L st"
    and "import_devnet_test_file (ce_smd C) file (sw_files W) = Inr w" "wallet_address (ce_smd C) w = Inr (Address a)"
    and "find_account a (db_accounts (lg_db L)) = Some r" "ac_public_key r \<in> {None, Some (public_key_hex (ce_smd C) w)}"
    and "0 < units amt" "int (units amt) \<le> ac_balance r" "ac_nonce r < 9223372036854775807"
    and "epoch \<le> expiry" "int (unat epoch) \<le> 9223372036854775807"
    and "parse_for_network (ce_smd C) b Devnet = Inr (Address b)" "b \<noteq> a" "length b \<le> 128"
    and "\<And>t i. tx_signed (ce_smd C) w (Address b) amt (word_of_int (ac_nonce r)) epoch expiry = Inr t \<Longrightarrow> tx_id (ce_smd C) t = Inr i \<Longrightarrow>
      i \<notin> tr_id ` set (db_transactions (lg_db L))"
  shows "\<exists>i t L' st'. run_smd C (SmdSend file path b amt epoch expiry) W =
      (Inr (SentLine i t (word_of_int (ac_nonce r)) epoch), W\<lparr>sw_ledgers := (sw_ledgers W)(path := lg_db L')\<rparr>) \<and>
    ledger_holds (ce_smd C) L' st' \<and> tx_from t = a \<and> tx_to t = b \<and> tx_amount t = amt \<and>
    transfer_effect (lg_db L) st t (lg_db L') st'"
proof -
  let ?X = "ce_smd C" and ?n = "word_of_int (ac_nonce r) :: u64"
  have w: "wl_network w = Devnet" by (rule imported_wallet_devnet [OF assms(5)])
  have rep: "ledger_rep (lg_db L) st" "transactions_rep (lg_db L)" "lg_network L = Devnet"
    using assms(4) by (simp_all add: ledger_holds_def)
  have nonce: "nonce_of (lg_db L) a = ac_nonce r" using assms(7) by (simp add: nonce_of_def)
  then have n: "ac_nonce r = int (unat ?n)"
    using rep_balance_bounds(3,4) [OF rep(1), of a] int_unat_word_of_int by simp
  obtain t where t: "tx_signed ?X w (Address b) amt ?n epoch expiry = Inr t" using tx_signed_total [OF assms(1)] by blast
  obtain j where j: "json_transaction ?X t = Inr j" using ext_json(1) [OF assms(1)] by blast
  obtain i where i: "tx_id ?X t = Inr i" using j by (simp add: tx_id_def)
  have lb: "length (address_str (Address b)) \<le> 128" using assms(16) by simp
  note tf = signed_transaction_facts [OF assms(1) lb t]
  have ends: "tx_from t = a" "tx_to t = b" "tx_amount t = amt" using tf(2,3,6) assms(6) by simp_all
  obtain db where app: "apply_transaction ?X Devnet t epoch (lg_db L) = Inr (db, i)"
    using apply_transaction_ok [OF assms(1) rep(1,2) w assms(6-10) n assms(11) order.refl assms(12,13) _ _ lb t i assms(17) [OF t i] j
        short_transaction [OF assms(1,2) lb t j]] assms(14,15) by auto
  have sub: "submit_transaction ?X L t epoch = Inr (L\<lparr>lg_db := db\<rparr>, i)" by (rule submit_transaction_ok [OF rep(3,1) app])
  obtain st' where made: "payment_made ?X L st t i (L\<lparr>lg_db := db\<rparr>) st'" using submitted_payment [OF sub assms(4)] app by auto
  have "ledger_account L (Address a) = Inr \<lparr>acc_address = a, acc_balance = Amount (word_of_int (balance_of (lg_db L) a)), acc_nonce = ?n\<rparr>"
    using ledger_account_rep [OF rep(1), of "Address a"] nonce by simp
  moreover have "open_ledger Devnet (lg_db L) = (Inr L, lg_db L)" using reopen_same [OF assms(4)] by (simp add: open_ledger_def)
  ultimately have "run_smd C (SmdSend file path b amt epoch expiry) W =
      (Inr (SentLine i t ?n epoch), W\<lparr>sw_ledgers := (sw_ledgers W)(path := db)\<rparr>)"
    using assms(3,5,6,14) t sub
    by (simp add: import_wallet_def on_files_def send_from_def on_ledger_def address_of_def update_ledger_def pass_simp)
  with made ends show ?thesis unfolding payment_made_def by (intro exI [of _ i] exI [of _ t] exI [of _ "L\<lparr>lg_db := db\<rparr>"] exI [of _ st']) simp
qed

theorem send_command_pays_witness:
  "\<exists>W i t W'. run_smd inst_cli (SmdSend ''wallet'' ''ledger'' PERMANENT_RESERVE_ADDRESS (Amount 400) 1 10) W = (Inr (SentLine i t 0 1), W') \<and>
     tx_from t = provider_address"
proof -
  obtain c where c: "cr_verify inst_ext c = Inr ()" "cr_epoch c = 1" "cr_nonce c = 0"
    by (rule sample_receipt [of "''s1''" 1 StandardUpload 1 0]) auto
  obtain k where k: "cr_id inst_ext c = Inr k" by (simp add: cr_id_def)
  obtain files where files: "import_devnet_test_file inst_ext ''wallet'' files = Inr provider_wallet"
    using wallet_file_round_trip [OF inst_ext_ok, of provider_wallet Map.empty "''wallet''" provider_wallet Map.empty]
    by (auto simp: provider_wallet_def from_secret_bytes_def)
  define W where "W = new_world\<lparr>sw_files := files, sw_ledgers := (\<lambda>p. lg_db (funded_ledger c k))\<rparr>"
  have "\<exists>i t L' st'. run_smd inst_cli (SmdSend ''wallet'' ''ledger'' PERMANENT_RESERVE_ADDRESS (Amount 400) 1 10) W =
      (Inr (SentLine i t (word_of_int 0) 1), W\<lparr>sw_ledgers := (sw_ledgers W)(''ledger'' := lg_db L')\<rparr>) \<and>
    ledger_holds inst_ext L' st' \<and> tx_from t = provider_address \<and> tx_to t = PERMANENT_RESERVE_ADDRESS \<and> tx_amount t = Amount 400 \<and>
    transfer_effect (lg_db (funded_ledger c k)) funded_supply t (lg_db L') st'"
    using send_command_pays [of inst_cli W "''ledger''" "funded_ledger c k" funded_supply "''wallet''" provider_wallet provider_address
        "\<lparr>ac_address = provider_address, ac_balance = 1000, ac_nonce = 0, ac_public_key = None\<rparr>" "Amount 400" 1 10 PERMANENT_RESERVE_ADDRESS]
      inst_ext_ok inst_compact funded_holds [OF c(1) k c(2,3)] files
    by (simp add: W_def funded_ledger_def genesis_ledger_def sample_addresses provider_address_def reserve_parses reserve_address_def
        PERMANENT_RESERVE_ADDRESS_def parse_for_network_def)
  then show ?thesis by auto
qed

end
