(* ===== verification/Meld_Command_Properties.thy ===== *)
theory Meld_Command_Properties
  imports Meld_Command_Safety Smd_Command_Properties Cdc_Delivery Bt_Service_Properties
begin

text \<open>
  Properties of the whole command line: what every sequence of commands keeps, and the delivery of a file by a
  sequence of commands.
\<close>

section \<open>An instance\<close>

text \<open>A disk on which no download gets past the creation of its directory.\<close>

definition no_directory :: fetch_disk where
  "no_directory point = (if point = CreateOutputDirectory then Some OtherIo else None)"

definition refused_download ::
    "index_db \<Rightarrow> torrent_v1 \<Rightarrow> target_descriptor \<Rightarrow> socket_addr \<Rightarrow> string \<Rightarrow> file_system \<Rightarrow> bt_peer_fetch_report result \<times> file_system" where
  "refused_download db t d peer out fs =
     (case fetch_start inst_bt sample_resume_ext db no_directory (Inr 0) t d [peer] out fs of
        (Inl e, fs') \<Rightarrow> (Inl e, fs') | (Inr plan, fs') \<Rightarrow> (Inl (Bail ''not reached''), fs'))"

lemma no_directory_refuses: "\<exists>e. fetch_start X R db no_directory now t d peers out fs = (Inl e, fs)"
  by (simp add: fetch_start_def no_directory_def split: sum.split)

definition inst_seeder :: "'r seeder_ext" where
  "inst_seeder = \<lparr>sx_tracker = sample_tracker, sx_engine_version = ''1'', sx_bind = (\<lambda>_. Inl (Io OtherIo)), sx_peer_id = Inr sample_id,
     sx_heartbeat = [], sx_run = (\<lambda>_ _ report. (Inr report, 0))\<rparr>"

definition inst_meld :: "(string \<times> string \<rightharpoonup> string) meld_cli_ext" where
  "inst_meld = \<lparr>mc_smd = inst_cli, mc_bt = inst_bt, mc_engine_version = ''1'', mc_json = (\<lambda>r. Inr [123, 125]), mc_report_write = WritesAll,
     mc_now = Inr 0, mc_disk = (\<lambda>_. None), mc_open_index = (\<lambda>_. Inr ()), mc_source = (\<lambda>_. None), mc_absolute = Inr, mc_walk = (\<lambda>_. []),
     mc_indexing = (\<lambda>_. \<lparr>iv_utf8 = True, iv_before = Inl (Io NotFound), iv_reads = Inr [], iv_end_len = Inr 0, iv_after = Inl (Io NotFound)\<rparr>),
     mc_target = (\<lambda>_. sample_view [7]), mc_is_dir = (\<lambda>_. False), mc_bind_error = None, mc_clients = [],
     mc_chunk_peer = (\<lambda>_. Inl OtherIo), mc_send = (\<lambda>_. None), mc_peer_id = Inr sample_id, mc_shutdown_flag = Inr (),
     mc_metadata_peer = (\<lambda>_. Inl (Io OtherIo)), mc_download = refused_download, mc_tracker = sample_tracker,
     mc_tracked = (\<lambda>db t d out fs. (refusing, fs)), mc_file_seeder = inst_seeder, mc_index_seeder = inst_seeder\<rparr>"

lemma inst_meld_simps [simp]: "mc_smd inst_meld = inst_cli" "mc_bt inst_meld = inst_bt" "mc_disk inst_meld = (\<lambda>_. None)"
  "mc_open_index inst_meld p = Inr ()" "mc_now inst_meld = Inr 0" "mc_target inst_meld p = sample_view [7]"
  by (simp_all add: inst_meld_def)

declare inst_bt_cdc [simp]

lemma inst_meld_downloads: "downloads_run sample_resume_ext inst_meld"
proof -
  have "\<exists>disk. fetch_run inst_bt sample_resume_ext db disk t d [peer] out fs r fs'"
    if "refused_download db t d peer out fs = (r, fs')" for db t d peer out fs r fs'
  proof -
    obtain e where e: "fetch_start inst_bt sample_resume_ext db no_directory (Inr 0) t d [peer] out fs = (Inl e, fs)"
      using no_directory_refuses by blast
    with that have "r = Inl e" "fs' = fs" by (simp_all add: refused_download_def)
    with fetch_run.refused [OF e] show ?thesis by blast
  qed
  then show ?thesis unfolding downloads_run_def inst_meld_def by auto
qed

definition new_meld_world :: "(string \<times> string \<rightharpoonup> string) meld_world" where
  "new_meld_world = \<lparr>mw_files = Map.empty, mw_indexes = (\<lambda>p. empty_index), mw_ledgers = (\<lambda>p. empty_db), mw_keychain = Map.empty\<rparr>"

section \<open>Every sequence of commands\<close>

text \<open>C1: Whatever commands of the program are run from new stores, in any order, with any input, whatever their peers send
  and the disk does, and whether they fail or not: every file that was there is kept, but for the two resume files beside the
  output of a download; every index is consistent; and every ledger is new or opens again as it is, passes the startup check
  and keeps within its cap.\<close>

theorem sessions_keep_stores:
  assumes "smd_ext_ok SX" "cdc_ext_ok CX"
    and "\<And>p. mw_ledgers W p = empty_db" "\<And>p. mw_indexes W p = empty_index"
    and "(meld_run SX K CX S)\<^sup>*\<^sup>* W W'"
  shows "(\<forall>q n. mw_files W q = Some n \<longrightarrow> q \<notin> S \<longrightarrow> mw_files W' q = Some n) \<and>
    (\<forall>p. index_inv CX (mw_indexes W' p)) \<and>
    (\<forall>p. mw_ledgers W' p = empty_db \<or>
      (\<exists>L st. open_ledger Devnet (mw_ledgers W' p) = (Inr L, mw_ledgers W' p) \<and> verify_invariants L = Inr () \<and>
        read_supply (lg_db L) = Inr st \<and> units (minted_supply st) \<le> units MAX_SUPPLY \<and>
        accounts_total (db_accounts (lg_db L)) = int (units (minted_supply st)) \<and>
        units GENESIS_RESERVE \<le> units (reserve_balance st)))"
proof -
  have "meld_sound SX CX W" using assms(3,4) by (simp add: meld_sound_def sound_db_def index_inv_def empty_index_def)
  then have "meld_sound SX CX W'" "files_kept S (mw_files W) (mw_files W')"
    using meld_runs_effect [OF assms(5,1,2)] by (simp_all add: meld_effect_def)
  then show ?thesis using sound_db_opens [of SX] unfolding meld_sound_def files_kept_def by blast
qed

theorem sessions_keep_stores_witness:
  "\<exists>r W'. run_meld inst_meld (Smd (SmdDevnet (DevnetGenesis ''ledger''))) new_meld_world = (r, W') \<and>
     mw_ledgers W' ''ledger'' \<noteq> empty_db \<and> (\<exists>L. open_ledger Devnet (mw_ledgers W' ''ledger'') = (Inr L, mw_ledgers W' ''ledger''))"
proof -
  obtain r W' where run: "run_meld inst_meld (Smd (SmdDevnet (DevnetGenesis ''ledger''))) new_meld_world = (r, W')" by fastforce
  have "meld_run inst_ext map_keyring inst_cdc {} new_meld_world W'"
    by (rule meld_run [OF _ _ _ inst_meld_downloads _ run]) simp_all
  then have "(meld_run inst_ext map_keyring inst_cdc {})\<^sup>*\<^sup>* new_meld_world W'" by blast
  from sessions_keep_stores [OF inst_ext_ok inst_cdc_ok _ _ this]
  have "mw_ledgers W' ''ledger'' = empty_db \<or> (\<exists>L. open_ledger Devnet (mw_ledgers W' ''ledger'') = (Inr L, mw_ledgers W' ''ledger''))"
    unfolding new_meld_world_def by simp blast
  moreover have "mw_ledgers W' ''ledger'' \<noteq> empty_db"
    using run open_fresh
    by (auto simp: new_meld_world_def on_smd_def on_ledger_def open_ledger_def pass_simp then_do_def empty_db_def genesis_ledger_def
        split: prod.splits sum.splits)
  ultimately show ?thesis using run by blast
qed

section \<open>A delivery\<close>

text \<open>Reading does not change the world.\<close>

lemma on_disk_read: "on_disk (\<lambda>fs. (f fs, fs)) W = (f (mw_files W), W)"
  by (simp add: on_disk_def)

lemma open_index_eq: "open_index C path W = (and_then (mc_open_index C path) (\<lambda>_. Inr (mw_indexes W path)), W)"
  by (simp add: open_index_def on_index_def)

lemma read_descriptor_stored:
  assumes "mw_files W path = Some (Regular j m)" "cx_json_descriptor_parse (mc_cdc C) j = Inr d" "td_validate (mc_cdc C) d = Inr ()"
  shows "read_descriptor C path W = (Inr d, W)"
  using assms by (simp add: read_descriptor_def on_disk_read load_descriptor_def contents_def)

lemma with_contents_new: "path \<notin> dom fs \<Longrightarrow> with_contents now fs ((contents fs)(path \<mapsto> bs)) = fs(path \<mapsto> Regular bs now)"
  by (auto simp: with_contents_def contents_def fun_eq_iff)

lemma contents_dom: "path \<in> dom (contents fs) \<longleftrightarrow> path \<in> dom fs"
  by (auto simp: contents_def split: option.splits fs_node.splits)

lemma report_line_adds:
  "report_line C report json_path W = (r, W') \<Longrightarrow> mw_indexes W' = mw_indexes W \<and> fs_extends (mw_files W) (mw_files W')"
  by (auto simp: report_line_def save_meld_report_def on_disk_def then_do_def pass_def fs_extends_def
      split: option.splits prod.splits sum.splits if_splits)

text \<open>Describing an unchanging file stores its descriptor at a free path.\<close>

lemma described:
  assumes "cdc_ext_ok (mc_cdc C)" "profile_named profile = Inr p" "steady_view (mc_target C target) T"
    and "run_meld C (Describe target out profile) W = (Inr line, W')"
  obtains name j where "out \<notin> dom (mw_files W)" "W' = W\<lparr>mw_files := (mw_files W)(out \<mapsto> Regular j (mc_now C))\<rparr>"
    "cx_json_descriptor_parse (mc_cdc C) j = Inr (descriptor_of (mc_cdc C) p name T)"
    "td_validate (mc_cdc C) (descriptor_of (mc_cdc C) p name T) = Inr ()" "line = DescriptorLine out (descriptor_of (mc_cdc C) p name T)"
proof -
  have p: "profile_validate p = Inr ()" using assms(2) by (auto simp: profile_named_def Let_def split: if_splits)
  obtain name where name: "create_descriptor (mc_cdc C) (mc_target C target) p = Inr (descriptor_of (mc_cdc C) p name T)"
    using create_descriptor_steady [OF assms(1) p assms(3)] by blast
  let ?d = "descriptor_of (mc_cdc C) p name T"
  obtain j where j: "cx_json_descriptor (mc_cdc C) ?d = Inr j" "cx_json_descriptor_parse (mc_cdc C) j = Inr ?d"
    using assms(1) unfolding cdc_ext_ok_def by blast
  have v: "td_validate (mc_cdc C) ?d = Inr ()" by (rule create_descriptor_valid [OF name])
  have "out \<notin> dom (mw_files W)" "W' = W\<lparr>mw_files := (mw_files W)(out \<mapsto> Regular j (mc_now C))\<rparr>" "line = DescriptorLine out ?d"
    using assms(2,4) name j(1) v
    by (auto simp: describe_command_def write_descriptor_def on_disk_def save_descriptor_def contents_dom with_contents_new pass_def then_do_eq_Inr
        split: if_splits prod.splits)
  with j(2) v that show thesis by blast
qed

text \<open>After staging or fetching, every chunk is there.\<close>

lemma chunks_delivered:
  assumes "c = StageMissing D target db dir json_path \<or> c = FetchMissing D db peer dir json_path"
    and "read_descriptor C D W = (Inr d, W)" "run_meld C c W = (Inr line, W')"
  shows "mw_indexes W' = mw_indexes W \<and> fs_extends (mw_files W) (mw_files W') \<and> ensure_profile (mc_cdc C) (mw_indexes W db) (td_profile d) = Inr () \<and>
    (\<forall>k\<in>set (td_chunks d). indexed_now (mc_cdc C) (mw_indexes W db) (mw_files W') k \<or> staged (mc_cdc C) (mw_files W') dir k)"
proof -
  let ?X = "mc_cdc C" and ?db = "mw_indexes W db"
  have "\<exists>fs1 report W1. W1 = W\<lparr>mw_files := fs1\<rparr> \<and> report_line C report json_path W1 = (Inr line, W') \<and> fs_extends (mw_files W) fs1 \<and>
      ensure_profile ?X ?db (td_profile d) = Inr () \<and>
      (\<forall>k\<in>set (td_chunks d). indexed_now ?X ?db fs1 k \<or> staged ?X fs1 dir k)"
    using assms(1)
  proof
    assume c: "c = StageMissing D target db dir json_path"
    obtain rep fs1 where s: "stage_missing_chunks ?X ?db (mc_disk C) (mc_now C) d target dir (mw_files W) = (Inr rep, fs1)"
      "report_line C (StageReport rep) json_path (W\<lparr>mw_files := fs1\<rparr>) = (Inr line, W')"
      using assms(2,3) unfolding c by (auto simp: stage_command_def fetch_missing_command_def then_do_eq_Inr open_index_eq on_disk_def split: prod.splits)
    from s(1) show ?thesis by (rule stage_missing_chunksE) (use s(2) in blast)
  next
    assume c: "c = FetchMissing D db peer dir json_path"
    obtain rep fs1 sent where s: "fetch_missing_chunks ?X ?db (mc_disk C) (mc_send C) (mc_now C) d (mc_chunk_peer C peer) dir (mw_files W) = (Inr rep, fs1, sent)"
      "report_line C (FetchReport rep) json_path (W\<lparr>mw_files := fs1\<rparr>) = (Inr line, W')"
      using assms(2,3) unfolding c by (auto simp: stage_command_def fetch_missing_command_def then_do_eq_Inr open_index_eq on_disk_def split: prod.splits)
    have "ensure_profile ?X ?db (td_profile d) = Inr ()"
      using s(1) by (auto simp: fetch_missing_chunks_def and_then_def split: sum.splits)
    with fetch_missing_chunks_safe [OF s(1)] s(2) show ?thesis
      by (auto simp: only_chunks_added_def chunk_stored_def staged_def intro!: exI [of _ fs1] exI [of _ "FetchReport rep"])
  qed
  then obtain fs1 report where 1: "report_line C report json_path (W\<lparr>mw_files := fs1\<rparr>) = (Inr line, W')" "fs_extends (mw_files W) fs1"
    "ensure_profile ?X ?db (td_profile d) = Inr ()" "\<forall>k\<in>set (td_chunks d). indexed_now ?X ?db fs1 k \<or> staged ?X fs1 dir k" by blast
  have 2: "mw_indexes W' = mw_indexes W" "fs_extends fs1 (mw_files W')" using report_line_adds [OF 1(1)] by simp_all
  show ?thesis using 1(3,4) 2 fs_extends_trans [OF 1(2) 2(2)] indexed_now_mono [OF _ 2(2)] staged_mono [OF _ 2(2)] by blast
qed

text \<open>C2: A delivery by commands: when a file has been described, and its missing chunks have been staged from a copy or fetched
  from whatever peer, then rebuilding it succeeds on a disk that works, the output is the file, and verifying the output
  against the stored descriptor succeeds; provided files with the indexed size and time have the indexed content, and BLAKE3
  tells the parts of the stored files from the chunks.\<close>

theorem delivered_by_commands:
  assumes "cdc_ext_ok (mc_cdc B)" "profile_named profile = Inr p" "steady_view (mc_target B target) T"
    and "run_meld B (Describe target D profile) W = (Inr line, W1)"
    and "c = StageMissing D target db dir json_path \<or> c = FetchMissing D db peer dir json_path" "run_meld B c W1 = (Inr line', W2)"
    and "index_honest (mc_cdc B) p (mw_indexes W2 db) (mw_files W2)" "times_ok (mw_files W2)"
    and "tells_apart (mc_cdc B) (mw_files W2) (set (cdc_chunks p T))" "out \<notin> dom (mw_files W2)"
    and "mc_bt C = mc_bt B" "mc_disk C = (\<lambda>_. None)" "mc_open_index C db = Inr ()"
  shows "\<exists>rebuilt verified W3. run_meld C (Rebuild D db dir out None) W2 = (Inr (MeldLine (RebuildReport rebuilt)), W3) \<and>
    W3 = W2\<lparr>mw_files := (mw_files W2)(out \<mapsto> Regular T (mc_now C))\<rparr> \<and>
    run_meld C (Verify D out None) W3 = (Inr (MeldLine (VerifyReport verified)), W3) \<and> vr_verified verified"
proof -
  let ?X = "mc_cdc B"
  have p: "profile_validate p = Inr ()" using assms(2) by (auto simp: profile_named_def Let_def split: if_splits)
  obtain name j where d: "W1 = W\<lparr>mw_files := (mw_files W)(D \<mapsto> Regular j (mc_now B))\<rparr>"
    "cx_json_descriptor_parse ?X j = Inr (descriptor_of ?X p name T)" "td_validate ?X (descriptor_of ?X p name T) = Inr ()"
    by (rule described [OF assms(1-4)]) (rule that)
  let ?d = "descriptor_of ?X p name T"
  have chunks: "td_chunks ?d = file_records (cx_blake3_hex ?X) p T" "td_profile ?d = p" by (simp_all add: descriptor_of_def)
  have "read_descriptor B D W1 = (Inr ?d, W1)" using d by (intro read_descriptor_stored) simp_all
  note got = chunks_delivered [OF assms(5) this assms(6), unfolded chunks]
  have D: "mw_files W2 D = Some (Regular j (mc_now B))" using got fs_extends_node [of "mw_files W1" "mw_files W2" D] d(1) by simp
  obtain rebuilt where rebuilt: "rebuild_target ?X (mw_indexes W2 db) (\<lambda>_. None) (mc_now C) ?d dir out (mw_files W2) =
      (Inr rebuilt, (mw_files W2)(out \<mapsto> Regular T (mc_now C)))"
    using available_rebuild [OF assms(1) p d(3) _ _ assms(7-10)] got by metis
  define W3 where "W3 = W2\<lparr>mw_files := (mw_files W2)(out \<mapsto> Regular T (mc_now C))\<rparr>"
  have "read_descriptor C D W2 = (Inr ?d, W2)" using D d(2,3) assms(11) by (intro read_descriptor_stored) simp_all
  then have 1: "run_meld C (Rebuild D db dir out None) W2 = (Inr (MeldLine (RebuildReport rebuilt)), W3)"
    using rebuilt assms(11-13) by (simp add: rebuild_command_def open_index_eq on_disk_def report_line_def save_meld_report_def pass_simp W3_def)
  have "D \<noteq> out" using D assms(10) by auto
  then have "read_descriptor C D W3 = (Inr ?d, W3)" using D d(2,3) assms(11) by (intro read_descriptor_stored) (simp_all add: W3_def)
  moreover obtain verified where "verify_target ?X (mw_files W3) ?d out = Inr verified" "vr_verified verified"
    using d(3) sha256_file_blocks [OF read_blocks_once, of ?X T]
    by (simp add: verify_target_def fs_metadata_def fs_reads_def W3_def descriptor_of_def)
  ultimately have "run_meld C (Verify D out None) W3 = (Inr (MeldLine (VerifyReport verified)), W3)" "vr_verified verified"
    using assms(11) by (simp_all add: verify_command_def on_disk_read save_meld_report_def pass_simp)
  with 1 show ?thesis unfolding W3_def by blast
qed

text \<open>One byte, delivered with the small profile through an index that knows no file.\<close>

definition small_profile :: chunk_profile where
  "small_profile = \<lparr>min_size = 8 * 1024, avg_size = 32 * 1024, max_size = 128 * 1024\<rparr>"

definition small_index :: index_db where
  "small_index = \<lparr>ix_meta = [''chunk_profile'' \<mapsto> inst_profile small_profile], ix_files = [], ix_chunks = []\<rparr>"

definition delivery_world :: "(string \<times> string \<rightharpoonup> string) meld_world" where
  "delivery_world = new_meld_world\<lparr>mw_files := tiny_target, mw_indexes := (\<lambda>_. small_index)\<rparr>"

definition small_descriptor :: target_descriptor where
  "small_descriptor = descriptor_of inst_cdc small_profile ''t'' [7]"

lemma small_profile_named: "profile_named ''s'' = Inr small_profile" "profile_validate small_profile = Inr ()"
  by code_simp+

lemma small_descriptor_parts:
  "td_profile small_descriptor = small_profile"
  "td_chunks small_descriptor = [\<lparr>ck_offset = 0, ck_length = 1, ck_hash = inst_blake3 [7]\<rparr>]"
  "td_target small_descriptor = \<lparr>ti_name = ''t'', ti_size = 1, ti_sha256 = inst_hex_encode (pad_to 32 [7])\<rparr>"
  by (simp_all add: small_descriptor_def descriptor_of_def file_records_def inst_cdc_def)

lemma small_descriptor_valid: "td_validate inst_cdc small_descriptor = Inr ()"
  unfolding small_descriptor_def by (rule descriptor_of_valid [OF inst_cdc_ok small_profile_named(2)]) simp

lemma small_index_profile: "ensure_profile inst_cdc small_index small_profile = Inr ()"
  by (simp add: ensure_profile_def small_profile_named small_index_def inst_cdc_def)

lemma small_index_lookup: "lookup_chunk inst_cdc small_index stat (inst_blake3 b) len = Inr None"
  by (simp add: lookup_chunk_def inst_cdc_def inst_blake3_def chunk_rows_def small_index_def)

definition small_files :: file_system where
  "small_files = tiny_target(''meld'' \<mapsto> Regular (inst_descriptor small_descriptor) (Inr 0))"

lemma small_described: "run_meld inst_meld (Describe ''t'' ''meld'' ''s'') delivery_world =
    (Inr (DescriptorLine ''meld'' small_descriptor), delivery_world\<lparr>mw_files := small_files\<rparr>)"
proof -
  have "create_descriptor inst_cdc (sample_view [7]) small_profile = Inr small_descriptor"
    using create_descriptor_steady [OF inst_cdc_ok small_profile_named(2) sample_view_steady, of "[7]"]
    by (simp add: sample_view_def small_descriptor_def)
  moreover have "save_descriptor inst_cdc (contents tiny_target) small_descriptor ''meld'' =
      (Inr (), (contents tiny_target)(''meld'' \<mapsto> inst_descriptor small_descriptor))"
    using small_descriptor_valid by (simp add: save_descriptor_def contents_dom) (simp add: tiny_target_def inst_cdc_def)
  moreover have "''meld'' \<notin> dom tiny_target" by (simp add: tiny_target_def)
  ultimately show ?thesis
    by (simp add: describe_command_def small_profile_named write_descriptor_def on_disk_def delivery_world_def with_contents_new
        small_files_def pass_simp)
qed

lemma small_staged:
  "\<exists>rep. run_meld inst_meld (StageMissing ''meld'' ''t'' ''db'' ''d'' None) (delivery_world\<lparr>mw_files := small_files\<rparr>) =
     (Inr (MeldLine (StageReport rep)), delivery_world\<lparr>mw_files := small_files(tiny_chunk \<mapsto> Regular [7] (Inr 0))\<rparr>)"
proof -
  have t: "small_files ''t'' = Some (Regular [7] (Inr 0))" by (simp add: small_files_def tiny_target_def)
  have new: "tiny_chunk \<notin> dom small_files" by (simp add: small_files_def tiny_target_def tiny_chunk_def chunk_path_def)
  have "verify_target_identity inst_cdc small_files small_descriptor ''t'' = Inr ()"
    using small_descriptor_valid t
    by (simp add: verify_target_identity_def verify_target_def small_descriptor_parts fs_metadata_def fs_reads_def sha256_file_def inst_cdc_fields)
  then have "\<exists>rep. stage_missing_chunks inst_cdc small_index (\<lambda>_. None) (Inr 0) small_descriptor ''t'' ''d'' small_files =
     (Inr rep, small_files(tiny_chunk \<mapsto> Regular [7] (Inr 0)))"
    using new small_index_lookup t
    by (simp add: stage_missing_chunks_def small_descriptor_valid small_descriptor_parts small_index_profile fs_read_def
        tiny_chunk_def [symmetric] verify_chunk_def read_range_def Let_def inst_cdc_fields)
  moreover have "read_descriptor inst_meld ''meld'' (delivery_world\<lparr>mw_files := small_files\<rparr>) =
      (Inr small_descriptor, delivery_world\<lparr>mw_files := small_files\<rparr>)"
    by (rule read_descriptor_stored [of _ _ "inst_descriptor small_descriptor" "Inr 0"])
      (use small_descriptor_valid in \<open>simp_all add: small_files_def inst_cdc_def inst_descriptor_round_trip\<close>)
  ultimately show ?thesis
    by (auto simp: stage_command_def open_index_eq on_disk_def report_line_def save_meld_report_def pass_simp delivery_world_def)
qed

lemma seven_told_apart: "inst_blake3 x = inst_blake3 [7] \<Longrightarrow> x \<noteq> [] \<and> hd x = 7"
proof -
  assume "inst_blake3 x = inst_blake3 [7]"
  then have "pad_to 31 x = pad_to 31 [7]" unfolding inst_blake3_def using inst_hex_round_trip by (metis sum.inject(2) butlast_snoc)
  then have "hd (pad_to 31 x) = 7" by (simp add: pad_to_def)
  then show ?thesis by (cases x) (simp_all add: pad_to_def)
qed

lemma no_seven_in_str: "\<forall>c\<in>set s. byte_val c \<noteq> 7 \<Longrightarrow> 7 \<notin> set (inst_str s)"
proof -
  assume s: "\<forall>c\<in>set s. byte_val c \<noteq> 7"
  have "word_of_nat (byte_val c) \<noteq> (7 :: u8)" if "c \<in> set s" for c
  proof
    assume "word_of_nat (byte_val c) = (7 :: u8)"
    then have "unat (word_of_nat (byte_val c) :: u8) = 7" by simp
    moreover have "unat (word_of_nat (byte_val c) :: u8) = byte_val c" by (simp add: unat_of_nat byte_val_def)
    ultimately show False using s that by simp
  qed
  then show ?thesis by (auto simp: inst_str_def as_bytes_def)
qed

lemma no_seven_in_hex: "\<forall>c\<in>set (inst_hex_encode bs). byte_val c \<noteq> 7"
proof -
  have "byte_val (nibble_char n) \<noteq> 7" if "n < 16" for n
    using that by (cases "n < 10") (simp_all add: nibble_char_def byte_val_def mod_less)
  then show ?thesis using byte_nibbles by (auto simp: inst_hex_encode_def)
qed

lemma no_seven_in_descriptor: "7 \<notin> set (inst_descriptor small_descriptor)"
proof -
  have str: "7 \<notin> set (inst_str (td_format small_descriptor))" "7 \<notin> set (inst_str (td_chunk_algorithm small_descriptor))"
    "7 \<notin> set (inst_str ''t'')"
    by (rule no_seven_in_str; simp add: small_descriptor_def descriptor_of_def DESCRIPTOR_FORMAT_def CHUNK_ALGORITHM_def byte_val_def)+
  have hex: "7 \<notin> set (inst_str (inst_hex_encode bs))" for bs by (rule no_seven_in_str [OF no_seven_in_hex])
  have "td_version small_descriptor = 1" by (simp add: small_descriptor_def descriptor_of_def DESCRIPTOR_VERSION_def)
  moreover have "7 \<notin> set (inst_word (0 :: u64))" "7 \<notin> set (inst_word (1 :: u32))" "7 \<notin> set (inst_word (1 :: u64))" by code_simp+
  ultimately have num: "7 \<notin> set (inst_word (td_version small_descriptor))" "7 \<notin> set (inst_word (0 :: u64))" "7 \<notin> set (inst_word (1 :: u32))"
    "7 \<notin> set (inst_word (1 :: u64))" by simp_all
  have four: "be_bytes 4 x = be_bytes (Suc (Suc (Suc (Suc 0)))) x" for x by (rule arg_cong [where f = "\<lambda>n. be_bytes n x"]) simp
  have prof: "7 \<notin> set (inst_profile_bytes small_profile)" unfolding inst_profile_bytes_def four by (simp add: small_profile_def)
  from str hex num prof show ?thesis by (simp add: inst_descriptor_def small_descriptor_parts inst_blake3_def)
qed

lemma small_told_apart: "tells_apart inst_cdc (small_files(tiny_chunk \<mapsto> Regular [7] (Inr 0))) {[7]}"
  unfolding tells_apart_def
proof (intro ballI impI)
  fix x y
  assume x: "x \<in> pieces (small_files(tiny_chunk \<mapsto> Regular [7] (Inr 0)))" and y: "y \<in> {[7 :: u8]}"
    and eq: "cx_blake3_hex inst_cdc x = cx_blake3_hex inst_cdc y"
  from x obtain n k q bs t where p: "x = take n (drop k bs)" "(small_files(tiny_chunk \<mapsto> Regular [7] (Inr 0))) q = Some (Regular bs t)"
    unfolding pieces_def by blast
  have seven: "x \<noteq> []" "hd x = 7" using seven_told_apart eq y by (auto simp: inst_cdc_fields)
  then have "7 \<in> set bs" using p(1) by (metis hd_in_set in_set_dropD in_set_takeD)
  moreover have "bs = [7] \<or> bs = inst_descriptor small_descriptor"
    using p(2) by (auto simp: small_files_def tiny_target_def split: if_splits)
  ultimately have "bs = [7]" using no_seven_in_descriptor by auto
  then have "x = [7]" using p(1) sub_single [of n k] seven(1) by auto
  with y show "x = y" by simp
qed

theorem delivered_by_commands_witness:
  "\<exists>W2 W3 verified. run_meld inst_meld (Verify ''meld'' ''out'' None) W3 = (Inr (MeldLine (VerifyReport verified)), W3) \<and>
     W3 = W2\<lparr>mw_files := (mw_files W2)(''out'' \<mapsto> Regular [7] (Inr 0))\<rparr>"
proof -
  let ?W2 = "delivery_world\<lparr>mw_files := small_files(tiny_chunk \<mapsto> Regular [7] (Inr 0))\<rparr>"
  obtain rep where staged: "run_meld inst_meld (StageMissing ''meld'' ''t'' ''db'' ''d'' None) (delivery_world\<lparr>mw_files := small_files\<rparr>) =
     (Inr (MeldLine (StageReport rep)), ?W2)" using small_staged by blast
  have times: "times_ok (mw_files ?W2)"
    by (auto simp: times_ok_def fs_metadata_def small_files_def tiny_target_def modified_ns_def i64_max_def split: if_splits)
  have honest: "index_honest inst_cdc small_profile (mw_indexes ?W2 ''db'') (mw_files ?W2)"
    by (simp add: index_honest_def delivery_world_def small_index_def)
  have free: "''out'' \<notin> dom (mw_files ?W2)"
    using tiny_chunk_new by (simp add: small_files_def tiny_target_def)
  have "\<exists>rebuilt verified W3. run_meld inst_meld (Rebuild ''meld'' ''db'' ''d'' ''out'' None) ?W2 = (Inr (MeldLine (RebuildReport rebuilt)), W3) \<and>
    W3 = ?W2\<lparr>mw_files := (mw_files ?W2)(''out'' \<mapsto> Regular [7] (mc_now inst_meld))\<rparr> \<and>
    run_meld inst_meld (Verify ''meld'' ''out'' None) W3 = (Inr (MeldLine (VerifyReport verified)), W3) \<and> vr_verified verified"
    by (rule delivered_by_commands [OF _ small_profile_named(1) _ small_described disjI1 [OF refl] staged])
      (use inst_cdc_ok times honest free small_told_apart sample_view_steady [of "[7]"] in simp_all)
  then show ?thesis unfolding inst_meld_simps by blast
qed

end
