(* ===== verification/Spec2Isabelle.thy ===== *)
theory Spec2Isabelle
  imports Smd_Properties Cdc_Delivery Meld_Capabilities Bt_Download_Properties Bt_Service_Properties
    Meld_Command_Properties
begin

text \<open>
  ShardMeld: a verification development.

  The program has two Rust crates. \<open>smd-core\<close> is a development-network ledger that rewards the delivery of
  content: wallets, signed transactions, contribution receipts, epochs of mining under a capped supply.
  \<open>meld-core\<close> delivers files: it cuts a file into content-defined chunks, indexes the chunks of local
  directories, compares a target with the index, stages and fetches the chunks that are missing, rebuilds
  the target, and bridges the same index to BitTorrent downloads. \<open>meld-cli\<close> is a command line over both.

  Theories and sources

  \<^item> \<open>Meld_Prelude\<close>, \<open>Rust_Text\<close>: results (\<open>error + 'a\<close>, \<open>and_then\<close> for the question mark, \<open>try_fold\<close> for loops
    that return early), checked and saturating arithmetic on words, big-endian bytes; the text functions of
    Rust's standard library. A \<open>String\<close> is the list of its UTF-8 bytes. \<open>Meld_Action\<close>: code that changes a state and
    may fail on the way, and what such code ensures.
  \<^item> \<open>Smd_Amount\<close> (\<open>smd-core/src/amount.rs\<close>), \<open>Smd_Policy\<close> (\<open>supply.rs\<close>, \<open>emission.rs\<close>, \<open>rewards.rs\<close>, \<open>pricing.rs\<close>),
    \<open>Smd_Identity\<close> (\<open>address.rs\<close>, \<open>crypto.rs\<close>, \<open>transaction.rs\<close>, \<open>contribution.rs\<close>, \<open>wallet.rs\<close>, \<open>consensus.rs\<close>),
    \<open>Smd_Store\<close> and \<open>Smd_Ledger\<close> (\<open>ledger.rs\<close>: the tables as lists of rows, every operation on them).
    \<open>Smd_Ledger_Safety\<close>, \<open>Smd_Rewards\<close>, \<open>Smd_Ledger_Reach\<close> and \<open>Smd_Liveness\<close> hold the invariant of the ledger, its
    preservation, the reachable ledgers and what they accept; \<open>Smd_Properties\<close> the properties.
  \<^item> \<open>Smd_Keychain\<close> (the wallet store of \<open>wallet.rs\<close>), \<open>Smd_Devnet\<close> (\<open>devnet.rs\<close>) and \<open>Smd_Commands\<close> (\<open>run_smd\<close> of
    \<open>meld-cli/src/main.rs\<close>): the commands as actions on wallet files, ledgers and the keychain. \<open>Smd_Scenario\<close> runs the
    scenario of the devnet step by step; \<open>Smd_Command_Safety\<close> finds what each command may change from its steps;
    \<open>Smd_Command_Properties\<close> holds the properties.
  \<^item> \<open>Meld_Commands\<close> (\<open>main\<close> of \<open>meld-cli/src/main.rs\<close>): every command of the program, over all the parts below and the
    commands of the ledger; \<open>Meld_Command_Safety\<close> and \<open>Meld_Command_Properties\<close> as for those.
  \<^item> \<open>Cdc_Chunker\<close> (\<open>meld-core/src/chunker.rs\<close>, \<open>profile.rs\<close>), \<open>Cdc_Descriptor\<close> (\<open>descriptor.rs\<close>, \<open>hashing.rs\<close>),
    \<open>Cdc_Index\<close> (\<open>index.rs\<close>), \<open>Cdc_Workflow\<close> (\<open>workflow.rs\<close>), \<open>Cdc_Network\<close> (\<open>network.rs\<close>), \<open>Meld_Capabilities\<close>
    (\<open>capabilities.rs\<close>). \<open>Cdc_Locality\<close> shows where every file with a given stretch of content is cut and that the
    named profiles have such stretches, \<open>Cdc_Index_Safety\<close>, \<open>Cdc_Rebuild\<close> and \<open>Cdc_Transfer\<close> hold the lemmas on the index, the
    rebuild and the transfer; \<open>Cdc_Properties\<close> and \<open>Cdc_Delivery\<close> the properties.
  \<^item> \<open>Bt_Bencode\<close>, \<open>Bt_Address\<close>, \<open>Bt_Torrent\<close> and \<open>Bt_Plan\<close> (\<open>bittorrent.rs\<close>), \<open>Bt_Magnet\<close> (\<open>magnet.rs\<close>).
    \<open>Bt_Bencode_Exact\<close> and \<open>Bt_Bencode_Parser\<close> show that the parser is exact and total, \<open>Bt_Torrent_Safety\<close>
    what the readers guarantee; \<open>Bt_Properties\<close> the properties.
  \<^item> The download from peers (\<open>bt_peer.rs\<close>): \<open>Bt_Blocks\<close> (what is asked for), \<open>Bt_Scheduler\<close> (the state the workers
    share), \<open>Bt_Wire\<close> and \<open>Bt_Receive\<close> (one session with a peer), \<open>Bt_Resume\<close> (the partial file and the state beside
    it), \<open>Bt_Download\<close> (the start and the end of a download). \<open>Bt_Blocks_Exact\<close>, \<open>Bt_Scheduler_Safety\<close>,
    \<open>Bt_Receive_Safety\<close> and \<open>Bt_Receive_Liveness\<close> hold the lemmas on the parts; \<open>Bt_Download_Safety\<close> and
    \<open>Bt_Fetch_Safety\<close> let the workers interleave, as steps on the scheduler, the file and the resume state;
    \<open>Bt_Download_Properties\<close> the properties.
  \<^item> The seeders (\<open>bt_seed.rs\<close>): \<open>Bt_Limiter\<close> (the upload limiter, one call as a function and many as an interleaving
    relation), \<open>Bt_Seed\<close> (a connection to a downloading peer, for a file and for an index), \<open>Bt_Seed_Service\<close> (the
    reports, the loop that accepts and joins connections as a step relation, the entry points).
    \<open>Bt_Limiter_Safety\<close> holds the invariant of the queue and its pacing; \<open>Bt_Bitfield\<close> the bitfields on both ends;
    \<open>Bt_Seed_Safety\<close> and \<open>Bt_Seed_Output\<close> what a connection may write; \<open>Bt_Seed_Liveness\<close> and \<open>Bt_Transfer\<close> the
    conversation of a seeder with the downloader of \<open>Bt_Receive\<close>; \<open>Bt_Service_Safety\<close> the accounts of the loop;
    \<open>Bt_Seed_Properties\<close> and \<open>Bt_Service_Properties\<close> the properties.
  \<^item> The trackers (\<open>bt_tracker.rs\<close>): \<open>Bt_Tracker\<close> (announcements over HTTP and UDP and their answers),
    \<open>Bt_Tracker_Sessions\<close> (the search for peers over the tiers, the trackers of a seeder and their heartbeat),
    \<open>Bt_Tracker_Safety\<close> (the log of starts and stops).
  \<^item> The metadata of a magnet link (\<open>bt_metadata.rs\<close>): \<open>Bt_Metadata\<close> and, for the conversation with a peer,
    \<open>Bt_Metadata_Exchange\<close>.

  Third-party code (sha2, sha1, blake3, hex, bech32, ed25519, serde_json, url) is a record of functions,
  \<open>smd_ext\<close>, \<open>cdc_ext\<close> and \<open>bt_ext\<close>, an argument of the definitions that use it. What is relied on is a predicate
  over the record (\<open>smd_ext_ok\<close>, \<open>cdc_ext_ok\<close>, \<open>bt_ext_ok\<close>); \<open>Smd_Instance\<close>, \<open>Cdc_Instance\<close> and \<open>Bt_Properties\<close> give
  instances at which the properties are applied.

  Interfaces. The locale \<open>keyed_store\<close> is what the ledger needs of its tables, \<open>consensus_engine\<close> the trait of
  the same name, \<open>chunk_supply\<close> what a rebuild needs of its sources, \<open>state_preorder\<close> a relation between the states before
  and after an action, under which what an action does composes, \<open>block_source\<close> and \<open>complete_source\<close> where a seeder
  takes the bytes of a block from, \<open>connection_merge\<close> how the result of a connection enters a report; each is
  interpreted at the model.

  Effects and bounds. Files are a map from paths to nodes, reads and network streams are lists of results, and the
  failures of the writes that a download, a rebuild and a transfer make are outcomes given to the model; an error
  the code returns is a value of a sum type. The error paths that are left out are listed below. Machine
  integers keep their width. The bencode parser has one unit of fuel per byte and one more, which is shown
  to be enough; every other loop is structural recursion or a function with a measure: the loops of a peer
  session end because each round takes bytes from the stream.

  How the parts meet. A seeder serves what \<open>plan_v1_bridge\<close> (\<open>Bt_Plan\<close>) found in the index, over the same framing
  (\<open>Bt_Wire\<close>) that the downloader reads; one property lets each read what the other writes. The search over the
  trackers takes the download as an argument, and its properties instantiate it with the downloads of
  \<open>Bt_Fetch_Safety\<close>. The listener of a seeder is a relation, since threads end in any order; in its entry points
  the run of the listener is an argument.

  Error paths and fields left out. A wallet file (\<open>export_devnet_test_file\<close>) and a descriptor (\<open>save_descriptor\<close>)
  are written whole: a write that fails halfway leaves no part of them in the model. A commit of a piece in \<open>download_step\<close> writes
  the whole piece, where a failed write or flush of the disk would leave a part of the piece and its mark as it was. The errors of making a path
  canonical and of setting the timeouts of a socket are not branches of \<open>serve_chunk_listener\<close>, and in \<open>listener_step\<close>
  those of the timeouts are not told from a failed accept; a batch of peers that cannot be begun is not a step of
  \<open>fetch_run\<close>. \<open>next_announce\<close> adds without a bound, where the clock of the standard library panics on an interval that is
  far too long. \<open>index_report\<close> holds the counts only. In the log of the trackers, and so in \<open>all_stopped\<close>, a tracker is its URL without the query.

  Not modelled: floating-point ratios and timings of reports, the exact wording of errors, locking and disk
  errors of SQLite, sockets and timeouts other than as errors of reads and sends, of the command line
  (\<open>meld-cli\<close>) the parsing of arguments and the text printed; the example programs and the desktop application. HTTP, name resolution, UDP sockets and clocks are
  arguments (\<open>tracker_ext\<close>, \<open>seed_env\<close>), as are the keychain (\<open>keyring_ext\<close>) and the random bytes of the operating system.
\<close>

end
